(* ===== verification/Prelude.thy ===== *)
theory Prelude
  imports Main "HOL-Library.AList" "HOL-Library.Char_ord" "HOL-Library.List_Lexorder"
    "HOL-Library.Multiset"
begin

text \<open>
  Shared vocabulary of the development: fallible computations over an explicit state,
  insertion-ordered dictionaries (Python's \<open>dict\<close>) as association lists, the identifier
  syntax checks every service applies to its inputs, and decimal and hexadecimal rendering.
  Python strings are modelled as \<^typ>\<open>string\<close>: sequences of code points below 256.
\<close>

section \<open>Fallible computations over a state\<close>

text \<open>
  A handler takes the service state and returns a result together with the state it leaves
  behind. A raise is \<^term>\<open>Inl\<close>; the state after a raise is part of the result, because some
  handlers write before they raise.
\<close>

type_synonym ('s, 'e, 'a) outcome = "('e + 'a) \<times> 's"

definition attempt ::
  "'e + 'a \<Rightarrow> 's \<Rightarrow> ('a \<Rightarrow> ('s, 'e, 'b) outcome) \<Rightarrow> ('s, 'e, 'b) outcome" where
  "attempt r s k = (case r of Inl e \<Rightarrow> (Inl e, s) | Inr a \<Rightarrow> k a)"

lemma attempt_simps [simp]:
  "attempt (Inl e) s k = (Inl e, s)"
  "attempt (Inr a) s k = k a"
  by (simp_all add: attempt_def)

lemma attempt_split:
  "P (attempt r s k) \<longleftrightarrow>
    (\<forall>e. r = Inl e \<longrightarrow> P (Inl e, s)) \<and> (\<forall>a. r = Inr a \<longrightarrow> P (k a))"
  by (cases r) simp_all

lemma attempt_split_asm:
  "P (attempt r s k) \<longleftrightarrow>
    \<not> ((\<exists>e. r = Inl e \<and> \<not> P (Inl e, s)) \<or> (\<exists>a. r = Inr a \<and> \<not> P (k a)))"
  by (cases r) simp_all

lemmas attempt_splits = attempt_split attempt_split_asm

text \<open>A successful outcome went past the attempted step.\<close>

lemma attempt_InrD:
  assumes "attempt r s k = (Inr b, t)"
  obtains a where "r = Inr a" and "k a = (Inr b, t)"
  using assms by (cases r) auto

text \<open>One fallible computation after another: the second sees the value and the state of the first.\<close>

definition chain ::
  "('s, 'e, 'a) outcome \<Rightarrow> ('a \<Rightarrow> 's \<Rightarrow> ('s, 'e, 'b) outcome) \<Rightarrow> ('s, 'e, 'b) outcome" where
  "chain r k = (case r of (Inl e, s) \<Rightarrow> (Inl e, s) | (Inr a, s) \<Rightarrow> k a s)"

lemma chain_simps [simp]:
  "chain (Inl e, s) k = (Inl e, s)"
  "chain (Inr a, s) k = k a s"
  by (simp_all add: chain_def)

lemma chain_InrD:
  assumes "chain r k = (Inr b, u)"
  obtains a t where "r = (Inr a, t)" and "k a t = (Inr b, u)"
  using assms by (cases r; cases "fst r") auto

lemma chain_cases:
  assumes "chain r k = (x, u)"
  obtains (raised) e where "r = (Inl e, u)" and "x = Inl e"
  | (went_on) a t where "r = (Inr a, t)" and "k a t = (x, u)"
  using assms by (cases r; cases "fst r") auto

text \<open>A fallible step and what follows it.\<close>

definition and_then :: "'e + 'a \<Rightarrow> ('a \<Rightarrow> 'e + 'b) \<Rightarrow> 'e + 'b" where
  "and_then r k = (case r of Inl e \<Rightarrow> Inl e | Inr a \<Rightarrow> k a)"

lemma and_then_simps [simp]:
  "and_then (Inl e) k = Inl e"
  "and_then (Inr a) k = k a"
  by (simp_all add: and_then_def)

lemma and_then_InrD:
  assumes "and_then r k = Inr b"
  obtains a where "r = Inr a" and "k a = Inr b"
  using assms by (cases r) auto

section \<open>Insertion-ordered dictionaries\<close>

text \<open>
  Assigning an existing key of a Python \<open>dict\<close> replaces its value in place, assigning a new
  key appends it: this is \<^const>\<open>AList.update\<close>. Reading is \<^const>\<open>map_of\<close>, and the
  iteration order of \<open>values()\<close> is the order of the list.
\<close>

type_synonym ('k, 'v) dict = "('k \<times> 'v) list"

abbreviation dict_get :: "('k, 'v) dict \<Rightarrow> 'k \<Rightarrow> 'v option" where
  "dict_get d k \<equiv> map_of d k"

abbreviation dict_set :: "'k \<Rightarrow> 'v \<Rightarrow> ('k, 'v) dict \<Rightarrow> ('k, 'v) dict" where
  "dict_set k v d \<equiv> AList.update k v d"

abbreviation dict_values :: "('k, 'v) dict \<Rightarrow> 'v list" where
  "dict_values d \<equiv> map snd d"

abbreviation dict_ok :: "('k, 'v) dict \<Rightarrow> bool" where
  "dict_ok d \<equiv> distinct (map fst d)"

declare map_of_eq_Some_iff [simp del]

lemma dict_get_set [simp]:
  "dict_get (dict_set k v d) k' = (if k' = k then Some v else dict_get d k')"
  by (simp add: update_conv')

lemma dict_ok_set [simp]: "dict_ok d \<Longrightarrow> dict_ok (dict_set k v d)"
  by (rule distinct_update)

lemma dict_get_mem: "dict_ok d \<Longrightarrow> dict_get d k = Some v \<longleftrightarrow> (k, v) \<in> set d"
  by (rule map_of_eq_Some_iff)

lemma dict_values_mem:
  "dict_ok d \<Longrightarrow> v \<in> set (dict_values d) \<longleftrightarrow> (\<exists>k. dict_get d k = Some v)"
  by (force simp: dict_get_mem)

lemma dict_set_mem:
  "dict_ok d \<Longrightarrow> (k', x) \<in> set (dict_set k v d) \<longleftrightarrow> (if k' = k then x = v else (k', x) \<in> set d)"
  using dict_get_mem [of "dict_set k v d" k' x] dict_get_mem [of d k' x] by auto

text \<open>A function of the entries that the new value does not change is the same on every entry.\<close>

lemma map_dict_set_same:
  "dict_get d k = Some v \<Longrightarrow> f (k, v') = f (k, v) \<Longrightarrow> map f (dict_set k v' d) = map f d"
  by (induction d) (auto split: if_splits)

text \<open>\<open>{key(x): x for x in xs}\<close>: later elements win, first occurrences give the order.\<close>

definition dict_by :: "('a \<Rightarrow> 'k) \<Rightarrow> 'a list \<Rightarrow> ('k, 'a) dict" where
  "dict_by f xs = foldl (\<lambda>d x. dict_set (f x) x d) [] xs"

lemma dict_set_fresh: "k \<notin> fst ` set d \<Longrightarrow> dict_set k v d = d @ [(k, v)]"
  by (induction d) auto

lemma foldl_dict_set_fresh:
  assumes "distinct (map f xs)" and "set (map f xs) \<inter> set (map fst d) = {}"
  shows "foldl (\<lambda>d x. dict_set (f x) x d) d xs = d @ map (\<lambda>x. (f x, x)) xs"
  using assms
proof (induction xs arbitrary: d)
  case Nil
  then show ?case by simp
next
  case (Cons x xs)
  have new: "dict_set (f x) x d = d @ [(f x, x)]"
    using Cons.prems by (intro dict_set_fresh) auto
  show ?case
    using Cons.IH [of "d @ [(f x, x)]"] Cons.prems by (auto simp: new)
qed

lemma dict_by_distinct: "distinct (map f xs) \<Longrightarrow> dict_by f xs = map (\<lambda>x. (f x, x)) xs"
  by (simp add: dict_by_def foldl_dict_set_fresh)

lemma dict_ok_foldl: "dict_ok d \<Longrightarrow> dict_ok (foldl (\<lambda>d x. dict_set (f x) (g x) d) d xs)"
  by (induction xs arbitrary: d) simp_all

lemma dict_ok_by: "dict_ok (dict_by f xs)"
  unfolding dict_by_def using dict_ok_foldl [of "[]" f "\<lambda>x. x" xs] by simp

lemma keys_foldl:
  "set (map fst (foldl (\<lambda>d x. dict_set (f x) (g x) d) d xs)) = set (map fst d) \<union> f ` set xs"
  by (induction xs arbitrary: d) (auto simp: update_keys dom_update)

lemma keys_dict_by: "set (map fst (dict_by f xs)) = f ` set xs"
  using keys_foldl [of f "\<lambda>x. x" "[]" xs] by (simp add: dict_by_def)

text \<open>The test \<open>len(by_key) != len(xs)\<close> of the sources detects exactly repeated keys.\<close>

lemma length_dict_by_iff: "length (dict_by f xs) = length xs \<longleftrightarrow> distinct (map f xs)"
proof
  assume len: "length (dict_by f xs) = length xs"
  have "length (dict_by f xs) = card (set (map fst (dict_by f xs)))"
    using distinct_card [OF dict_ok_by [of f xs]] by simp
  also have "\<dots> = card (set (map f xs))"
    by (simp only: keys_dict_by) simp
  finally have "card (set (map f xs)) = length (map f xs)"
    using len by simp
  then show "distinct (map f xs)" by (rule card_distinct)
next
  assume "distinct (map f xs)"
  then show "length (dict_by f xs) = length xs" by (simp add: dict_by_distinct)
qed

section \<open>Identifier syntax\<close>

definition ascii_alnum :: "char \<Rightarrow> bool" where
  "ascii_alnum c \<longleftrightarrow>
    (CHR ''A'' \<le> c \<and> c \<le> CHR ''Z'') \<or> (CHR ''a'' \<le> c \<and> c \<le> CHR ''z'')
    \<or> (CHR ''0'' \<le> c \<and> c \<le> CHR ''9'')"

definition id_char :: "char \<Rightarrow> bool" where
  "id_char c \<longleftrightarrow> ascii_alnum c \<or> c \<in> set ''._:-''"

text \<open>\<open>[A-Za-z0-9][A-Za-z0-9._:-]{0,n}\<close>, matched against the whole string.\<close>

definition safe_id_upto :: "nat \<Rightarrow> string \<Rightarrow> bool" where
  "safe_id_upto n s = (case s of [] \<Rightarrow> False
     | c # cs \<Rightarrow> ascii_alnum c \<and> length cs \<le> n \<and> list_all id_char cs)"

definition safe_id :: "string \<Rightarrow> bool" where
  "safe_id s = safe_id_upto 127 s"

text \<open>\<open>[0-9a-f]{64}\<close>.\<close>

definition hex_char :: "char \<Rightarrow> bool" where
  "hex_char c \<longleftrightarrow> (CHR ''0'' \<le> c \<and> c \<le> CHR ''9'') \<or> (CHR ''a'' \<le> c \<and> c \<le> CHR ''f'')"

definition sha256_text :: "string \<Rightarrow> bool" where
  "sha256_text s \<longleftrightarrow> length s = 64 \<and> list_all hex_char s"

lemma safe_id_nonempty: "safe_id s \<Longrightarrow> s \<noteq> []"
  by (auto simp: safe_id_def safe_id_upto_def)

lemma safe_id_length: "safe_id s \<Longrightarrow> length s \<le> 128"
  by (auto simp: safe_id_def safe_id_upto_def split: list.splits)

text \<open>The characters \<open>str.strip\<close> removes, below code point 256.\<close>

definition py_space :: "char \<Rightarrow> bool" where
  "py_space c \<longleftrightarrow>
    (CHR 0x09 \<le> c \<and> c \<le> CHR 0x0D) \<or> (CHR 0x1C \<le> c \<and> c \<le> CHR 0x20) \<or> c = CHR 0x85 \<or> c = CHR 0xA0"

definition py_strip :: "string \<Rightarrow> string" where
  "py_strip s = rev (dropWhile py_space (rev (dropWhile py_space s)))"

text \<open>
  \<open>str.casefold\<close> below code point 256, except that the micro sign keeps its code: its folding lies
  above 255 and is that of no other character below 256.
\<close>

definition casefold_char :: "char \<Rightarrow> string" where
  "casefold_char c =
    (if CHR ''A'' \<le> c \<and> c \<le> CHR ''Z'' \<or> CHR 0xC0 \<le> c \<and> c \<le> CHR 0xDE \<and> c \<noteq> CHR 0xD7
     then [char_of (of_char c + 32 :: nat)]
     else if c = CHR 0xDF then ''ss'' else [c])"

definition casefold :: "string \<Rightarrow> string" where
  "casefold s = concat (map casefold_char s)"

section \<open>Rendering\<close>

fun dec_nat :: "nat \<Rightarrow> string" where
  "dec_nat n = (if n < 10 then [char_of (48 + n)]
     else dec_nat (n div 10) @ [char_of (48 + n mod 10)])"

declare dec_nat.simps [simp del]

definition dec_int :: "int \<Rightarrow> string" where
  "dec_int i = (if i < 0 then CHR ''-'' # dec_nat (nat (- i)) else dec_nat (nat i))"

definition hex_digit :: "nat \<Rightarrow> char" where
  "hex_digit n = (if n < 10 then char_of (48 + n) else char_of (87 + n))"

definition hex_byte :: "char \<Rightarrow> string" where
  "hex_byte c = (let n = of_char c :: nat in [hex_digit (n div 16), hex_digit (n mod 16)])"

fun join_with :: "string \<Rightarrow> string list \<Rightarrow> string" where
  "join_with sep [] = []"
| "join_with sep [x] = x"
| "join_with sep (x # y # zs) = x @ sep @ join_with sep (y # zs)"

text \<open>Decimal rendering is injective: no two numbers share a rendering.\<close>

definition dec_value :: "string \<Rightarrow> nat" where
  "dec_value s = foldl (\<lambda>n c. 10 * n + (of_char c - 48)) 0 s"

lemma dec_value_dec_nat: "dec_value (dec_nat n) = n"
proof (induction n rule: dec_nat.induct)
  case (1 n)
  show ?case
  proof (cases "n < 10")
    case True
    then show ?thesis
      by (subst dec_nat.simps) (simp add: dec_value_def of_char_of)
  next
    case False
    have "dec_value (dec_nat n) = 10 * dec_value (dec_nat (n div 10)) + n mod 10"
      using False by (subst dec_nat.simps) (simp add: dec_value_def of_char_of)
    also have "\<dots> = n"
      using 1 False by simp
    finally show ?thesis .
  qed
qed

lemma dec_nat_inject: "dec_nat m = dec_nat n \<longleftrightarrow> m = n"
  by (metis dec_value_dec_nat)

end
