(* ===== verification/Json.thy ===== *)
theory Json
  imports Prelude
begin

text \<open>
  The fingerprints of the services are SHA-256 digests of
  \<open>json.dumps(value, sort_keys=True, separators=(",", ":"), default=str)\<close>. This theory models
  the JSON values the services build, the text \<open>json.dumps\<close> renders for them (ASCII only, object
  members sorted by name) and \<open>str\<close> of the dataclasses that \<open>default=str\<close> sees. The digest
  itself is a function parameter of the services: no result depends on which function it is.
\<close>

section \<open>JSON values and their text\<close>

datatype json =
    JNull
  | JBool bool
  | JInt int
  | JStr string
  | JArr "json list"
  | JObj "(string \<times> json) list"

definition json_char :: "char \<Rightarrow> string" where
  "json_char c =
    (if c = CHR 0x22 then [CHR 0x5C, CHR 0x22]
     else if c = CHR 0x5C then [CHR 0x5C, CHR 0x5C]
     else if c = CHR 0x0A then [CHR 0x5C, CHR ''n'']
     else if c = CHR 0x0D then [CHR 0x5C, CHR ''r'']
     else if c = CHR 0x09 then [CHR 0x5C, CHR ''t'']
     else if c = CHR 0x0C then [CHR 0x5C, CHR ''f'']
     else if c = CHR 0x08 then [CHR 0x5C, CHR ''b'']
     else if CHR 0x20 \<le> c \<and> c \<le> CHR 0x7E then [c]
     else [CHR 0x5C, CHR ''u'', CHR ''0'', CHR ''0''] @ hex_byte c)"

text \<open>The escapes of \<open>ensure_ascii=False\<close>, which keeps every other character.\<close>

definition json_char_raw :: "char \<Rightarrow> string" where
  "json_char_raw c = (if c < CHR 0x20 \<or> c = CHR 0x22 \<or> c = CHR 0x5C then json_char c else [c])"

definition json_string :: "(char \<Rightarrow> string) \<Rightarrow> string \<Rightarrow> string" where
  "json_string esc s = CHR 0x22 # concat (map esc s) @ [CHR 0x22]"

primrec json_text :: "(char \<Rightarrow> string) \<Rightarrow> json \<Rightarrow> string" where
  "json_text esc JNull = ''null''"
| "json_text esc (JBool b) = (if b then ''true'' else ''false'')"
| "json_text esc (JInt i) = dec_int i"
| "json_text esc (JStr s) = json_string esc s"
| "json_text esc (JArr xs) = ''['' @ join_with '','' (map (json_text esc) xs) @ '']''"
| "json_text esc (JObj kvs) = ''{'' @
     join_with '','' (map (\<lambda>(k, v). json_string esc k @ '':'' @ v)
       (sort_key fst (map (map_prod (\<lambda>k. k) (json_text esc)) kvs))) @ ''}''"

declare json_text.simps [simp del]

abbreviation json_dumps :: "json \<Rightarrow> string" where
  "json_dumps \<equiv> json_text json_char"

text \<open>UTF-8 of the code points below 256.\<close>

definition utf8_char :: "char \<Rightarrow> string" where
  "utf8_char c = (let n = of_char c :: nat in
     if n < 128 then [c] else [char_of (192 + n div 64), char_of (128 + n mod 64)])"

definition utf8 :: "string \<Rightarrow> string" where
  "utf8 s = concat (map utf8_char s)"

text \<open>
  \<open>canonical_json_bytes\<close> of \<open>data_canon.py\<close>; the values of the model always serialise, so that its
  error branch has no counterpart.
\<close>

definition canonical_json_bytes :: "(string \<times> json) list \<Rightarrow> string" where
  "canonical_json_bytes m = utf8 (json_text json_char_raw (JObj m))"

definition JOpt :: "string option \<Rightarrow> json" where
  "JOpt v = (case v of None \<Rightarrow> JNull | Some s \<Rightarrow> JStr s)"

text \<open>\<open>hashlib.sha256(json.dumps(value, ...).encode()).hexdigest()\<close>.\<close>

definition fingerprint :: "(string \<Rightarrow> string) \<Rightarrow> json \<Rightarrow> string" where
  "fingerprint sha256_hex v = sha256_hex (json_dumps v)"

section \<open>Python's \<open>repr\<close> of the dataclass fields\<close>

definition py_repr_char :: "char \<Rightarrow> char \<Rightarrow> string" where
  "py_repr_char q c =
    (if c = q \<or> c = CHR 0x5C then [CHR 0x5C, c]
     else if c = CHR 0x09 then [CHR 0x5C, CHR ''t'']
     else if c = CHR 0x0A then [CHR 0x5C, CHR ''n'']
     else if c = CHR 0x0D then [CHR 0x5C, CHR ''r'']
     else if c < CHR 0x20 \<or> (CHR 0x7F \<le> c \<and> c \<le> CHR 0xA0) \<or> c = CHR 0xAD
       then [CHR 0x5C, CHR ''x''] @ hex_byte c
     else [c])"

definition py_repr_str :: "string \<Rightarrow> string" where
  "py_repr_str s =
    (let q = (if CHR 0x27 \<in> set s \<and> CHR 0x22 \<notin> set s then CHR 0x22 else CHR 0x27)
     in q # concat (map (py_repr_char q) s) @ [q])"

definition py_repr_bool :: "bool \<Rightarrow> string" where
  "py_repr_bool b = (if b then ''True'' else ''False'')"

definition py_repr_opt :: "string option \<Rightarrow> string" where
  "py_repr_opt v = (case v of None \<Rightarrow> ''None'' | Some s \<Rightarrow> py_repr_str s)"

definition py_repr_tuple :: "string list \<Rightarrow> string" where
  "py_repr_tuple xs = (case xs of [x] \<Rightarrow> ''('' @ x @ '',)''
     | _ \<Rightarrow> ''('' @ join_with '', '' xs @ '')'')"

text \<open>\<open>Name(field=value, ...)\<close>.\<close>

definition py_dataclass :: "string \<Rightarrow> (string \<times> string) list \<Rightarrow> string" where
  "py_dataclass name fields = name @ ''('' @
     join_with '', '' (map (\<lambda>(k, v). k @ ''='' @ v) fields) @ '')''"

section \<open>Facts about the rendering\<close>

lemma json_char_nonempty [simp]: "json_char c \<noteq> []"
  by (simp add: json_char_def)

text \<open>Member order in the source dictionary is irrelevant to the text.\<close>

lemma json_text_JObj_perm:
  assumes "mset kvs = mset kvs'" and "distinct (map fst kvs)"
  shows "json_text esc (JObj kvs) = json_text esc (JObj kvs')"
proof -
  define m where "m = map (map_prod (\<lambda>k::string. k) (json_text esc))"
  have "mset (m kvs) = mset (m kvs')"
    using assms(1) by (simp add: m_def)
  moreover have "distinct (map fst (m kvs))"
    using assms(2) by (simp add: m_def comp_def)
  then have "inj_on fst (set (m kvs))"
    by (simp add: distinct_map)
  ultimately have "sort_key fst (m kvs) = sort_key fst (m kvs')"
    by (rule sort_key_eq_sort_key)
  then show ?thesis by (simp add: m_def json_text.simps)
qed

end
