(* ===== verification/Contracts.thy ===== *)
theory Contracts
  imports Prelude
begin

text \<open>
  The contracts the in-memory services share, as locales: a labelled step relation with an
  invariant, isolation of the objects of one tenant and workspace from the steps of every other,
  optimistic versions, the idempotency ledger and the hash-chained audit trail. The labels of the
  steps are the scopes (tenant and workspace) on whose behalf a handler runs. Each service
  interprets the contracts on its own model.
\<close>

section \<open>Runs and reachable states\<close>

inductive runs :: "('c \<Rightarrow> 's \<Rightarrow> 's \<Rightarrow> bool) \<Rightarrow> 's \<Rightarrow> 'c list \<Rightarrow> 's \<Rightarrow> bool"
  for step where
  runs_none: "runs step s [] s"
| runs_more: "step c s t \<Longrightarrow> runs step t cs u \<Longrightarrow> runs step s (c # cs) u"

inductive_simps runs_Nil [simp]: "runs step s [] t"
inductive_cases runs_ConsE: "runs step s (c # cs) u"

inductive reachable :: "('s \<Rightarrow> bool) \<Rightarrow> ('c \<Rightarrow> 's \<Rightarrow> 's \<Rightarrow> bool) \<Rightarrow> 's \<Rightarrow> bool"
  for start step where
  reachable_start: "start s \<Longrightarrow> reachable start step s"
| reachable_step: "reachable start step s \<Longrightarrow> step c s t \<Longrightarrow> reachable start step t"

lemma reachable_runs:
  "runs step s cs t \<Longrightarrow> reachable start step s \<Longrightarrow> reachable start step t"
  by (induction rule: runs.induct) (auto intro: reachable_step)

section \<open>A service with an invariant\<close>

locale service =
  fixes start :: "'s \<Rightarrow> bool"
    and step :: "'c \<Rightarrow> 's \<Rightarrow> 's \<Rightarrow> bool"
    and inv :: "'s \<Rightarrow> bool"
  assumes inv_start: "start s \<Longrightarrow> inv s"
    and inv_step: "inv s \<Longrightarrow> step c s t \<Longrightarrow> inv t"
begin

lemma reachable_inv: "reachable start step s \<Longrightarrow> inv s"
  by (induction rule: reachable.induct) (auto intro: inv_start inv_step)

lemma runs_inv: "runs step s cs t \<Longrightarrow> inv s \<Longrightarrow> inv t"
  by (induction rule: runs.induct) (auto intro: inv_step)

end

section \<open>Isolation of scopes\<close>

locale scoped_service = service start step inv
  for start :: "'s \<Rightarrow> bool"
    and step :: "'c \<Rightarrow> 's \<Rightarrow> 's \<Rightarrow> bool"
    and inv :: "'s \<Rightarrow> bool" +
  fixes objs :: "'s \<Rightarrow> 'k \<Rightarrow> 'o option"
    and scope_of :: "'o \<Rightarrow> 'c"
  assumes frame: "inv s \<Longrightarrow> step c s t \<Longrightarrow> objs s i = Some x \<Longrightarrow> scope_of x \<noteq> c
      \<Longrightarrow> objs t i = Some x"
    and scope_kept: "inv s \<Longrightarrow> step c s t \<Longrightarrow> objs s i = Some x
      \<Longrightarrow> \<exists>y. objs t i = Some y \<and> scope_of y = scope_of x"
begin

text \<open>Whatever the other scopes do, an object stays as it is.\<close>

lemma isolation:
  "runs step s cs t \<Longrightarrow> inv s \<Longrightarrow> objs s i = Some x \<Longrightarrow> scope_of x \<notin> set cs
    \<Longrightarrow> objs t i = Some x"
proof (induction rule: runs.induct)
  case (runs_none s)
  then show ?case by simp
next
  case (runs_more c s t cs u)
  then have "objs t i = Some x" by (auto intro: frame)
  with runs_more show ?case by (auto intro: inv_step)
qed

text \<open>No run deletes an object or moves it to another scope.\<close>

lemma persistence:
  "runs step s cs t \<Longrightarrow> inv s \<Longrightarrow> objs s i = Some x
    \<Longrightarrow> \<exists>y. objs t i = Some y \<and> scope_of y = scope_of x"
proof (induction arbitrary: x rule: runs.induct)
  case (runs_none s)
  then show ?case by simp
next
  case (runs_more c s t cs u)
  obtain y where "objs t i = Some y" and "scope_of y = scope_of x"
    using runs_more scope_kept by blast
  with runs_more show ?case by (metis inv_step)
qed

end

section \<open>Optimistic versions\<close>

locale versioned_service = scoped_service start step inv objs scope_of
  for start :: "'s \<Rightarrow> bool"
    and step :: "'c \<Rightarrow> 's \<Rightarrow> 's \<Rightarrow> bool"
    and inv :: "'s \<Rightarrow> bool"
    and objs :: "'s \<Rightarrow> 'k \<Rightarrow> 'o option"
    and scope_of :: "'o \<Rightarrow> 'c" +
  fixes version_of :: "'o \<Rightarrow> int"
  assumes version_mono: "inv s \<Longrightarrow> step c s t \<Longrightarrow> objs s i = Some x \<Longrightarrow> objs t i = Some y
      \<Longrightarrow> version_of x \<le> version_of y"
begin

lemma runs_version_mono:
  "runs step s cs t \<Longrightarrow> inv s \<Longrightarrow> objs s i = Some x \<Longrightarrow> objs t i = Some y
    \<Longrightarrow> version_of x \<le> version_of y"
proof (induction arbitrary: x rule: runs.induct)
  case (runs_none s)
  then show ?case by simp
next
  case (runs_more c s t cs u)
  obtain z where z: "objs t i = Some z"
    using runs_more scope_kept by blast
  have "version_of x \<le> version_of z"
    using runs_more z by (blast intro: version_mono)
  also have "version_of z \<le> version_of y"
    using runs_more z by (auto intro: inv_step)
  finally show ?case .
qed

end

section \<open>The idempotency ledger\<close>

text \<open>
  A ledger maps the idempotency key of a write to the fingerprint of the request it served and
  to the value that answers a repetition.
\<close>

locale replay_ledger =
  fixes replay :: "'l \<Rightarrow> 'k \<Rightarrow> string \<Rightarrow> 'e + 'v option"
    and enter :: "'l \<Rightarrow> 'k \<Rightarrow> string \<Rightarrow> 'v \<Rightarrow> 'l"
    and reused :: 'e
  assumes replay_same: "replay (enter l k f v) k f = Inr (Some v)"
    and replay_clash: "f' \<noteq> f \<Longrightarrow> replay (enter l k f v) k f' = Inl reused"
    and replay_other: "k' \<noteq> k \<Longrightarrow> replay (enter l k f v) k' f' = replay l k' f'"
begin

text \<open>An entry keeps answering while other keys are entered.\<close>

lemma replay_survives:
  assumes "\<forall>(k', f', v') \<in> set es. k' \<noteq> k"
  shows "replay (foldl (\<lambda>l (k', f', v'). enter l k' f' v') (enter l k f v) es) k f
    = Inr (Some v)"
proof -
  have "replay (foldl (\<lambda>l (k', f', v'). enter l k' f' v') m es) k f = replay m k f" for m
    using assms by (induction es arbitrary: m) (auto simp: replay_other)
  then show ?thesis by (simp add: replay_same)
qed

lemma replay_decides:
  "replay (enter l k f v) k f' = (if f' = f then Inr (Some v) else Inl reused)"
  by (simp add: replay_same replay_clash)

end

section \<open>Hash-chained audit trails\<close>

definition genesis_hash :: string where
  "genesis_hash = replicate 64 (CHR ''0'')"

definition chain_head :: "('e \<Rightarrow> string) \<Rightarrow> 'e list \<Rightarrow> string" where
  "chain_head event_hash es = (if es = [] then genesis_hash else event_hash (last es))"

text \<open>Every event names the hash of its predecessor and carries the digest of its own content.\<close>

fun chained_from :: "('e \<Rightarrow> string) \<Rightarrow> ('e \<Rightarrow> string) \<Rightarrow> ('e \<Rightarrow> string) \<Rightarrow> string \<Rightarrow> 'e list \<Rightarrow> bool" where
  "chained_from prev hash digest p [] = True"
| "chained_from prev hash digest p (e # es) =
     (prev e = p \<and> hash e = digest e \<and> chained_from prev hash digest (hash e) es)"

abbreviation chained :: "('e \<Rightarrow> string) \<Rightarrow> ('e \<Rightarrow> string) \<Rightarrow> ('e \<Rightarrow> string) \<Rightarrow> 'e list \<Rightarrow> bool" where
  "chained prev hash digest es \<equiv> chained_from prev hash digest genesis_hash es"

lemma chained_from_append:
  "chained_from prev hash digest p (es @ [e]) \<longleftrightarrow>
    chained_from prev hash digest p es
    \<and> prev e = (if es = [] then p else hash (last es)) \<and> hash e = digest e"
  by (induction es arbitrary: p) auto

locale hash_chain =
  fixes seal :: "'d \<Rightarrow> string \<Rightarrow> 'e"
    and prev :: "'e \<Rightarrow> string"
    and hash :: "'e \<Rightarrow> string"
    and digest :: "'e \<Rightarrow> string"
  assumes prev_seal: "prev (seal d p) = p"
    and hash_seal: "hash (seal d p) = digest (seal d p)"
begin

lemma chained_seal:
  "chained prev hash digest es
    \<Longrightarrow> chained prev hash digest (es @ [seal d (chain_head hash es)])"
  by (simp add: chained_from_append chain_head_def prev_seal hash_seal)

text \<open>
  Where the digest has no collision between two trails, the head hash and the length determine
  the whole trail: no past event can be altered, dropped or reordered unnoticed.
\<close>

lemma chained_head_determines:
  assumes "chained_from prev hash digest p es" and "chained_from prev hash digest p es'"
    and "length es = length es'" and "es \<noteq> []"
    and "hash (last es) = hash (last es')"
    and "\<And>e e'. e \<in> set es \<Longrightarrow> e' \<in> set es' \<Longrightarrow> digest e = digest e' \<Longrightarrow> e = e'"
  shows "es = es'"
  using assms
proof (induction es arbitrary: es' rule: rev_induct)
  case Nil
  then show ?case by simp
next
  case (snoc x xs)
  then obtain ys y where es': "es' = ys @ [y]"
    by (metis append_is_Nil_conv length_0_conv rev_exhaust)
  have "digest x = digest y"
    using snoc.prems by (simp add: es' chained_from_append)
  then have "x = y"
    using snoc.prems(6) by (simp add: es')
  have prevs: "prev x = (if xs = [] then p else hash (last xs))"
    "prev y = (if ys = [] then p else hash (last ys))"
    using snoc.prems by (simp_all add: es' chained_from_append)
  have "xs = ys"
  proof (cases "xs = []")
    case True
    with snoc.prems show ?thesis by (simp add: es')
  next
    case False
    then have "ys \<noteq> []" using snoc.prems(3) by (auto simp: es')
    with False show ?thesis
      using snoc.IH [of ys] snoc.prems \<open>x = y\<close> prevs
      by (auto simp: es' chained_from_append)
  qed
  with \<open>x = y\<close> show ?case by (simp add: es')
qed

end

end
