(* ===== verification/Retention.thy ===== *)
theory Retention
  imports Contracts Json
begin

text \<open>
  Model of \<open>services/api/src/daon_user_api/retention.py\<close>: deletion requests with a grace period,
  legal holds, the acknowledged clean-up of derivatives and the hash-chained audit trail, over
  the in-memory repository and clean-up port of that module. The repository, the port and the
  counters of the clock and of the identifier source form the state; every handler of
  \<open>RetentionService\<close> is a function from the state to a result and the next state. The closed sets
  of state names are datatypes; text that comes from callers stays text. Instants and durations
  are integers.
\<close>

section \<open>Data\<close>

datatype retention_error = RetentionError (code: string) (status: int) (retryable: bool)

abbreviation retention_error :: "string \<Rightarrow> int \<Rightarrow> retention_error" where
  "retention_error c st \<equiv> RetentionError c st False"

text \<open>The \<open>int | str\<close> arguments of conditional writes; \<open>bool\<close> is a subtype of \<open>int\<close> in Python.\<close>

datatype if_match = MatchText string | MatchInt int | MatchBool bool

definition safe :: "string \<Rightarrow> retention_error + string" where
  "safe value = (if \<not> safe_id value then Inl (retention_error ''RETENTION_INPUT_INVALID'' 400)
     else Inr value)"

record retention_context =
  tenant_id :: string
  workspace_id :: string
  actor_id :: string
  trace_id :: string
  policy_version :: string
  organization_admin :: bool

definition context_checked :: "retention_context \<Rightarrow> retention_error + retention_context" where
  "context_checked c =
    (if list_all safe_id [tenant_id c, workspace_id c, actor_id c, trace_id c, policy_version c]
     then Inr c else Inl (retention_error ''RETENTION_INPUT_INVALID'' 400))"

type_synonym scope = "string \<times> string"

definition context_scope :: "retention_context \<Rightarrow> scope" where
  "context_scope c = (tenant_id c, workspace_id c)"

definition derivative_kinds :: "string list" where
  "derivative_kinds = [''original_content'', ''index'', ''preview'', ''cache'',
     ''known_local_copy'', ''sync_reference'']"

record derivative_input =
  kind :: string
  reference_id :: string
  acknowledgement_required :: bool
  disposition :: string

definition derivative_checked :: "derivative_input \<Rightarrow> retention_error + derivative_input" where
  "derivative_checked d =
    (if kind d \<notin> set derivative_kinds
     then Inl (retention_error ''RETENTION_DERIVATIVE_INVALID'' 400)
     else (case safe (reference_id d) of Inl e \<Rightarrow> Inl e
       | Inr _ \<Rightarrow>
           if acknowledgement_required d \<noteq> (kind d = ''known_local_copy'')
           then Inl (retention_error ''RETENTION_DERIVATIVE_INVALID'' 400)
           else if disposition d \<notin> set [''present'', ''not_present'', ''not_applicable'',
             ''verification_pending'']
           then Inl (retention_error ''RETENTION_DERIVATIVE_INVALID'' 400)
           else Inr d))"

datatype item_state = Pending | Completed | Failed | AwaitingAck

record cleanup_item =
  item_value :: derivative_input
  item_state :: item_state
  item_attempts :: int
  item_evidence :: "string option"

record cleanup_item_view =
  civ_kind :: string
  civ_reference_id :: string
  civ_state :: item_state
  civ_attempt_count :: int
  civ_evidence :: "string option"

datatype deletion_state = GracePeriod | BlockedByHold | Cancelled | CleanupPending | Purged

record deletion_request =
  request_id :: string
  req_context :: retention_context
  req_source_id :: string
  requested_at :: int
  grace_until :: int
  inventory :: "(string, cleanup_item) dict"
  req_state :: deletion_state
  req_version :: int
  source_active :: bool
  purge_started :: bool

record deletion_request_view =
  drv_request_id :: string
  drv_tenant_id :: string
  drv_workspace_id :: string
  drv_source_id :: string
  drv_state :: deletion_state
  drv_version :: int
  drv_requested_at :: int
  drv_grace_until :: int
  drv_source_active :: bool
  drv_cleanup_items :: "cleanup_item_view list"
  drv_completed_references :: "string list"
  drv_source_version_mutations :: int

definition deletion_etag :: "deletion_request_view \<Rightarrow> string" where
  "deletion_etag v = [CHR 0x22] @ ''deletion:'' @ drv_request_id v @ '':''
     @ dec_int (drv_version v) @ [CHR 0x22]"

datatype hold_state = Active | Released

record legal_hold =
  hold_id :: string
  hold_context :: retention_context
  hold_source_id :: string
  hold_state :: hold_state
  hold_version :: int

record legal_hold_view =
  lhv_hold_id :: string
  lhv_tenant_id :: string
  lhv_workspace_id :: string
  lhv_source_id :: string
  lhv_state :: hold_state
  lhv_version :: int

definition legal_hold_etag :: "legal_hold_view \<Rightarrow> string" where
  "legal_hold_etag v = [CHR 0x22] @ ''legal-hold:'' @ lhv_hold_id v @ '':''
     @ dec_int (lhv_version v) @ [CHR 0x22]"

record retention_event =
  ev_request_id :: string
  ev_actor_id :: string
  ev_action :: string
  ev_target :: string
  ev_timestamp :: string
  ev_policy_version :: string
  ev_trace_id :: string
  ev_previous_hash :: string
  ev_event_hash :: string

section \<open>State: repository, clean-up port, clock and identifier source\<close>

record cleanup_port =
  fail_references :: "string list"
  attempt_count :: int
  attempts_by_reference :: "(string, int) dict"

record retention_state =
  requests :: "(string, deletion_request) dict"
  source_requests :: "(string \<times> string \<times> string, string) dict"
  source_scopes :: "(string \<times> string, string) dict"
  holds :: "(string, legal_hold) dict"
  idempotency :: "(string \<times> string \<times> string, string \<times> string) dict"
  attempts :: "(string \<times> string \<times> string \<times> int \<times> item_state) list"
  audit :: "retention_event list"
  port :: cleanup_port
  clock_reads :: nat
  tokens_drawn :: nat

definition empty_repository :: "cleanup_port \<Rightarrow> retention_state" where
  "empty_repository p = \<lparr>requests = [], source_requests = [], source_scopes = [], holds = [],
     idempotency = [], attempts = [], audit = [], port = p, clock_reads = 0, tokens_drawn = 0\<rparr>"

text \<open>
  What the service is built with: \<open>clock n\<close> is the answer to the n-th call of the clock,
  \<open>token_hex n\<close> the n-th draw of \<open>secrets.token_hex(12)\<close>, \<open>isoformat\<close> the rendering of an
  instant, \<open>sha256_hex\<close> the digest of a text.
\<close>

record retention_service =
  clock :: "nat \<Rightarrow> int"
  token_hex :: "nat \<Rightarrow> string"
  isoformat :: "int \<Rightarrow> string"
  sha256_hex :: "string \<Rightarrow> string"
  grace_period :: int
  fixture_prefix :: string
  inventory_provider ::
    "(retention_context \<Rightarrow> string \<Rightarrow> retention_error + derivative_input list) option"

definition read_clock :: "retention_service \<Rightarrow> retention_state \<Rightarrow> int \<times> retention_state" where
  "read_clock cfg s = (clock cfg (clock_reads s), s\<lparr>clock_reads := Suc (clock_reads s)\<rparr>)"

definition fresh_id ::
  "retention_service \<Rightarrow> string \<Rightarrow> retention_state \<Rightarrow> string \<times> retention_state" where
  "fresh_id cfg prefix s =
    (prefix @ ''-'' @ token_hex cfg (tokens_drawn s),
     s\<lparr>tokens_drawn := Suc (tokens_drawn s)\<rparr>)"

text \<open>\<open>ReferenceCleanupPort.cleanup\<close>\<close>

definition port_cleanup :: "derivative_input \<Rightarrow> cleanup_port \<Rightarrow> bool \<times> cleanup_port" where
  "port_cleanup d p =
    (reference_id d \<notin> set (fail_references p),
     p\<lparr>attempt_count := attempt_count p + 1,
       attempts_by_reference := dict_set (reference_id d)
         ((case dict_get (attempts_by_reference p) (reference_id d) of None \<Rightarrow> 0 | Some n \<Rightarrow> n) + 1)
         (attempts_by_reference p)\<rparr>)"

section \<open>Guards and lookups\<close>

definition write_checked :: "string \<Rightarrow> if_match \<Rightarrow> retention_error + unit" where
  "write_checked key expected =
    (case safe key of Inl e \<Rightarrow> Inl e
     | Inr _ \<Rightarrow>
         (case expected of
            MatchText t \<Rightarrow> if t = ''*'' then Inr () else Inl (retention_error ''IF_MATCH_INVALID'' 400)
          | MatchInt v \<Rightarrow> if v < 1 then Inl (retention_error ''IF_MATCH_INVALID'' 400) else Inr ()
          | MatchBool _ \<Rightarrow> Inl (retention_error ''IF_MATCH_INVALID'' 400)))"

definition require_sensitive :: "retention_context \<Rightarrow> bool \<Rightarrow> retention_error + unit" where
  "require_sensitive c verified =
    (if \<not> organization_admin c then Inl (retention_error ''CURRENT_ACCESS_DENIED'' 403)
     else if \<not> verified then Inl (retention_error ''STEP_UP_REQUIRED'' 403)
     else Inr ())"

definition find_request ::
  "retention_state \<Rightarrow> retention_context \<Rightarrow> string \<Rightarrow> retention_error + deletion_request" where
  "find_request s c rid =
    (case dict_get (requests s) rid of
       None \<Rightarrow> Inl (retention_error ''DELETION_REQUEST_UNAVAILABLE'' 404)
     | Some r \<Rightarrow>
         if tenant_id (req_context r) \<noteq> tenant_id c \<or> workspace_id (req_context r) \<noteq> workspace_id c
         then Inl (retention_error ''DELETION_REQUEST_UNAVAILABLE'' 404) else Inr r)"

definition find_hold ::
  "retention_state \<Rightarrow> retention_context \<Rightarrow> string \<Rightarrow> retention_error + legal_hold" where
  "find_hold s c hid =
    (case dict_get (holds s) hid of
       None \<Rightarrow> Inl (retention_error ''LEGAL_HOLD_UNAVAILABLE'' 404)
     | Some h \<Rightarrow>
         if tenant_id (hold_context h) \<noteq> tenant_id c \<or> workspace_id (hold_context h) \<noteq> workspace_id c
         then Inl (retention_error ''LEGAL_HOLD_UNAVAILABLE'' 404) else Inr h)"

definition hold_covers :: "retention_context \<Rightarrow> string \<Rightarrow> legal_hold \<Rightarrow> bool" where
  "hold_covers c source h \<longleftrightarrow>
    tenant_id (hold_context h) = tenant_id c \<and> workspace_id (hold_context h) = workspace_id c
    \<and> hold_source_id h = source \<and> hold_state h = Active"

definition active_holds :: "retention_state \<Rightarrow> deletion_request \<Rightarrow> legal_hold list" where
  "active_holds s r =
    filter (hold_covers (req_context r) (req_source_id r)) (dict_values (holds s))"

definition replay_lookup ::
  "(string \<times> string \<times> string, string \<times> string) dict \<Rightarrow> string \<times> string \<times> string \<Rightarrow> string
    \<Rightarrow> retention_error + string option" where
  "replay_lookup ledger key fp =
    (case dict_get ledger key of None \<Rightarrow> Inr None
     | Some (f, v) \<Rightarrow> if f \<noteq> fp then Inl (retention_error ''IDEMPOTENCY_KEY_REUSED'' 409)
         else Inr (Some v))"

section \<open>Views, fingerprints and audit events\<close>

definition item_view :: "cleanup_item \<Rightarrow> cleanup_item_view" where
  "item_view i = \<lparr>civ_kind = kind (item_value i), civ_reference_id = reference_id (item_value i),
     civ_state = item_state i, civ_attempt_count = item_attempts i, civ_evidence = item_evidence i\<rparr>"

definition request_view :: "deletion_request \<Rightarrow> deletion_request_view" where
  "request_view r =
    (let items = map item_view
       (sort_key (\<lambda>i. reference_id (item_value i)) (dict_values (inventory r)))
     in \<lparr>drv_request_id = request_id r, drv_tenant_id = tenant_id (req_context r),
       drv_workspace_id = workspace_id (req_context r), drv_source_id = req_source_id r,
       drv_state = req_state r, drv_version = req_version r,
       drv_requested_at = requested_at r, drv_grace_until = grace_until r,
       drv_source_active = source_active r, drv_cleanup_items = items,
       drv_completed_references =
         map civ_reference_id (filter (\<lambda>i. civ_state i = Completed) items),
       drv_source_version_mutations = 0\<rparr>)"

definition hold_view :: "legal_hold \<Rightarrow> legal_hold_view" where
  "hold_view h = \<lparr>lhv_hold_id = hold_id h, lhv_tenant_id = tenant_id (hold_context h),
     lhv_workspace_id = workspace_id (hold_context h), lhv_source_id = hold_source_id h,
     lhv_state = hold_state h, lhv_version = hold_version h\<rparr>"

definition derivative_str :: "derivative_input \<Rightarrow> string" where
  "derivative_str d = py_dataclass ''DerivativeInput''
     [(''kind'', py_repr_str (kind d)), (''reference_id'', py_repr_str (reference_id d)),
      (''acknowledgement_required'', py_repr_bool (acknowledgement_required d)),
      (''disposition'', py_repr_str (disposition d))]"

definition match_json :: "if_match \<Rightarrow> json" where
  "match_json m = (case m of MatchText t \<Rightarrow> JStr t | MatchInt i \<Rightarrow> JInt i | MatchBool b \<Rightarrow> JBool b)"

definition event_body :: "retention_event \<Rightarrow> json" where
  "event_body e = JObj
     [(''request_id'', JStr (ev_request_id e)), (''actor_id'', JStr (ev_actor_id e)),
      (''action'', JStr (ev_action e)), (''target'', JStr (ev_target e)),
      (''timestamp'', JStr (ev_timestamp e)), (''policy_version'', JStr (ev_policy_version e)),
      (''trace_id'', JStr (ev_trace_id e)), (''previous_hash'', JStr (ev_previous_hash e))]"

definition event_digest :: "retention_service \<Rightarrow> retention_event \<Rightarrow> string" where
  "event_digest cfg e = fingerprint (sha256_hex cfg) (event_body e)"

definition seal_event ::
  "retention_service \<Rightarrow> deletion_request \<times> string \<times> int \<Rightarrow> string \<Rightarrow> retention_event" where
  "seal_event cfg d previous =
    (case d of (r, action, now) \<Rightarrow>
      let minimal = \<lparr>ev_request_id = request_id r, ev_actor_id = actor_id (req_context r),
            ev_action = action, ev_target = req_source_id r, ev_timestamp = isoformat cfg now,
            ev_policy_version = policy_version (req_context r),
            ev_trace_id = trace_id (req_context r), ev_previous_hash = previous,
            ev_event_hash = []\<rparr>
      in minimal\<lparr>ev_event_hash := event_digest cfg minimal\<rparr>)"

definition audit_event ::
  "retention_service \<Rightarrow> deletion_request \<Rightarrow> string \<Rightarrow> retention_state \<Rightarrow> retention_state" where
  "audit_event cfg r action s =
    (let previous = chain_head ev_event_hash (audit s);
         (now, s1) = read_clock cfg s
     in s1\<lparr>audit := audit s1 @ [seal_event cfg (r, action, now) previous]\<rparr>)"

section \<open>Handlers\<close>

definition put_request :: "string \<Rightarrow> deletion_request \<Rightarrow> retention_state \<Rightarrow> retention_state" where
  "put_request rid r s = s\<lparr>requests := dict_set rid r (requests s)\<rparr>"

definition put_hold :: "string \<Rightarrow> legal_hold \<Rightarrow> retention_state \<Rightarrow> retention_state" where
  "put_hold hid h s = s\<lparr>holds := dict_set hid h (holds s)\<rparr>"

definition remember ::
  "string \<times> string \<times> string \<Rightarrow> string \<Rightarrow> string \<Rightarrow> retention_state \<Rightarrow> retention_state" where
  "remember key fp v s = s\<lparr>idempotency := dict_set key (fp, v) (idempotency s)\<rparr>"

definition new_item :: "derivative_input \<Rightarrow> cleanup_item" where
  "new_item d = \<lparr>item_value = d,
     item_state = (if disposition d \<in> set [''not_present'', ''not_applicable''] then Completed else Pending),
     item_attempts = 0, item_evidence = Some (disposition d)\<rparr>"

definition create_fingerprint :: "retention_service \<Rightarrow> string \<Rightarrow> derivative_input list \<Rightarrow> string" where
  "create_fingerprint cfg source derivatives = fingerprint (sha256_hex cfg)
     (JArr [JStr source, JArr (map (\<lambda>d. JStr (derivative_str d)) derivatives)])"

text \<open>The part of \<open>create_request\<close> after the replay and the active-request tests.\<close>

definition admit_request ::
  "retention_service \<Rightarrow> retention_context \<Rightarrow> string \<Rightarrow> (string, derivative_input) dict
    \<Rightarrow> string \<times> string \<times> string \<Rightarrow> string \<Rightarrow> retention_state
    \<Rightarrow> (retention_state, retention_error, deletion_request_view) outcome" where
  "admit_request cfg c source by_reference key fp s =
    (let (now, s1) = read_clock cfg s;
         (rid, s2) = fresh_id cfg ''deletion'' s1;
         held = list_ex (hold_covers c source) (dict_values (holds s2));
         r = \<lparr>request_id = rid, req_context = c, req_source_id = source, requested_at = now,
              grace_until = now + grace_period cfg,
              inventory = map (\<lambda>(ref, d). (ref, new_item d)) by_reference,
              req_state = (if held then BlockedByHold else GracePeriod), req_version = 1,
              source_active = False, purge_started = False\<rparr>;
         s3 = put_request rid r s2;
         s4 = s3\<lparr>source_requests :=
                dict_set (tenant_id c, workspace_id c, source) rid (source_requests s3)\<rparr>;
         s5 = remember key fp rid s4;
         s6 = audit_event cfg r ''deletion.requested'' s5;
         s7 = audit_event cfg r ''source.deactivated'' s6;
         s8 = audit_event cfg r ''deletion.grace_period.started'' s7
     in (Inr (request_view r), s8))"

definition create_request ::
  "retention_service \<Rightarrow> retention_context \<Rightarrow> string \<Rightarrow> derivative_input list option \<Rightarrow> string
    \<Rightarrow> if_match \<Rightarrow> retention_state
    \<Rightarrow> (retention_state, retention_error, deletion_request_view) outcome" where
  "create_request cfg c source inv_arg idempotency_key if_match s =
    attempt (write_checked idempotency_key if_match) s (\<lambda>_.
    attempt (safe source) s (\<lambda>_.
    attempt (case inv_arg of Some derivatives \<Rightarrow> Inr derivatives
       | None \<Rightarrow> (case inventory_provider cfg of
           None \<Rightarrow> Inl (retention_error ''DELETION_INVENTORY_INVALID'' 400)
         | Some provider \<Rightarrow> provider c source)) s (\<lambda>derivatives.
    if if_match \<noteq> MatchText ''*'' \<or> derivatives = []
    then (Inl (retention_error ''DELETION_REQUEST_INVALID'' 400), s)
    else let by_reference = dict_by reference_id derivatives in
    if length by_reference \<noteq> length derivatives \<or> set (map kind derivatives) \<noteq> set derivative_kinds
    then (Inl (retention_error ''DELETION_INVENTORY_INVALID'' 400), s)
    else let fp = create_fingerprint cfg source derivatives;
             key = (actor_id c, ''request'', idempotency_key);
             registered = dict_get (source_scopes s) (tenant_id c, source) in
    if registered \<noteq> None \<and> registered \<noteq> Some (workspace_id c)
    then (Inl (retention_error ''CURRENT_ACCESS_DENIED'' 403), s)
    else let s1 = s\<lparr>source_scopes :=
               dict_set (tenant_id c, source) (workspace_id c) (source_scopes s)\<rparr> in
    attempt (replay_lookup (idempotency s1) key fp) s1 (\<lambda>found.
    case found of
      Some rid \<Rightarrow> attempt (find_request s1 c rid) s1 (\<lambda>r. (Inr (request_view r), s1))
    | None \<Rightarrow>
        if dict_get (source_requests s1) (tenant_id c, workspace_id c, source) \<noteq> None
        then (Inl (retention_error ''DELETION_REQUEST_ACTIVE'' 409), s1)
        else admit_request cfg c source by_reference key fp s1))))"

definition get_request ::
  "retention_context \<Rightarrow> string \<Rightarrow> retention_state \<Rightarrow> retention_error + deletion_request_view" where
  "get_request c rid s =
    (case find_request s c rid of Inl e \<Rightarrow> Inl e | Inr r \<Rightarrow> Inr (request_view r))"

definition locate_workspace :: "string \<Rightarrow> string \<Rightarrow> retention_state \<Rightarrow> retention_error + string" where
  "locate_workspace tenant rid s =
    (case dict_get (requests s) rid of
       None \<Rightarrow> Inl (retention_error ''DELETION_REQUEST_UNAVAILABLE'' 404)
     | Some r \<Rightarrow> if tenant_id (req_context r) \<noteq> tenant
         then Inl (retention_error ''DELETION_REQUEST_UNAVAILABLE'' 404)
         else Inr (workspace_id (req_context r)))"

definition register_source ::
  "retention_context \<Rightarrow> string \<Rightarrow> retention_state \<Rightarrow> (retention_state, retention_error, unit) outcome"
where
  "register_source c source s =
    attempt (safe source) s (\<lambda>_.
    let existing = dict_get (source_scopes s) (tenant_id c, source) in
    if existing \<noteq> None \<and> existing \<noteq> Some (workspace_id c)
    then (Inl (retention_error ''CURRENT_ACCESS_DENIED'' 403), s)
    else (Inr (), s\<lparr>source_scopes :=
      dict_set (tenant_id c, source) (workspace_id c) (source_scopes s)\<rparr>))"

definition locate_source_workspace ::
  "string \<Rightarrow> string \<Rightarrow> retention_state \<Rightarrow> retention_error + string" where
  "locate_source_workspace tenant source s =
    (case safe source of Inl e \<Rightarrow> Inl e
     | Inr _ \<Rightarrow> (case dict_get (source_scopes s) (tenant, source) of
         None \<Rightarrow> Inl (retention_error ''SOURCE_UNAVAILABLE'' 404) | Some w \<Rightarrow> Inr w))"

text \<open>
  The lookup \<open>requests[request_id]\<close> of \<open>source_etag\<close> raises a \<open>KeyError\<close> where the registry of
  sources names a request that is not stored; the model answers with that code, and
  the property \<open>one_request_per_source\<close> shows it does not happen.
\<close>

definition source_etag ::
  "string \<Rightarrow> string \<Rightarrow> retention_state \<Rightarrow> retention_error + (string \<times> int)" where
  "source_etag tenant source s =
    (case safe source of Inl e \<Rightarrow> Inl e
     | Inr _ \<Rightarrow> (case dict_get (source_scopes s) (tenant, source) of
         None \<Rightarrow> Inl (retention_error ''SOURCE_UNAVAILABLE'' 404)
       | Some workspace \<Rightarrow>
           (let tag = (\<lambda>v. ([CHR 0x22] @ ''source:'' @ source @ '':'' @ dec_int v @ [CHR 0x22], v)) in
            case dict_get (source_requests s) (tenant, workspace, source) of
              None \<Rightarrow> Inr (tag 1)
            | Some rid \<Rightarrow> (case dict_get (requests s) rid of
                None \<Rightarrow> Inl (retention_error ''KeyError'' 500)
              | Some r \<Rightarrow> Inr (tag (req_version r))))))"

definition locate_hold_workspace :: "string \<Rightarrow> string \<Rightarrow> retention_state \<Rightarrow> retention_error + string"
where
  "locate_hold_workspace tenant hid s =
    (case dict_get (holds s) hid of
       None \<Rightarrow> Inl (retention_error ''LEGAL_HOLD_UNAVAILABLE'' 404)
     | Some h \<Rightarrow> if tenant_id (hold_context h) \<noteq> tenant
         then Inl (retention_error ''LEGAL_HOLD_UNAVAILABLE'' 404)
         else Inr (workspace_id (hold_context h)))"

definition is_source_use_blocked ::
  "retention_context \<Rightarrow> string \<Rightarrow> retention_state \<Rightarrow> retention_error + bool" where
  "is_source_use_blocked c source s =
    (case dict_get (source_requests s) (tenant_id c, workspace_id c, source) of
       None \<Rightarrow> Inr False
     | Some rid \<Rightarrow> (case dict_get (requests s) rid of
         None \<Rightarrow> Inl (retention_error ''KeyError'' 500)
       | Some r \<Rightarrow> Inr (req_state r \<noteq> Cancelled)))"

text \<open>
  \<open>expected_version\<close> is compared with the stored version; \<open>"*"\<close> passes the syntax guard and then
  never equals a version.
\<close>

definition version_is :: "int \<Rightarrow> if_match \<Rightarrow> bool" where
  "version_is v m \<longleftrightarrow> m = MatchInt v"

definition cancel ::
  "retention_service \<Rightarrow> retention_context \<Rightarrow> string \<Rightarrow> if_match \<Rightarrow> string \<Rightarrow> retention_state
    \<Rightarrow> (retention_state, retention_error, deletion_request_view) outcome" where
  "cancel cfg c rid expected idempotency_key s =
    attempt (write_checked idempotency_key expected) s (\<lambda>_.
    let fp = fingerprint (sha256_hex cfg) (JArr [JStr rid, match_json expected]);
        key = (actor_id c, ''cancel'', idempotency_key) in
    attempt (find_request s c rid) s (\<lambda>r.
    attempt (replay_lookup (idempotency s) key fp) s (\<lambda>found.
    if found \<noteq> None then (Inr (request_view r), s)
    else if \<not> version_is (req_version r) expected
    then (Inl (retention_error ''RETENTION_VERSION_CONFLICT'' 409), s)
    else if purge_started r \<or> req_state r = Purged \<or> req_state r = Cancelled
    then (Inl (retention_error ''DELETION_CLEANUP_PENDING'' 409), s)
    else let r' = r\<lparr>req_state := Cancelled, source_active := True,
               req_version := req_version r + 1\<rparr>;
             s' = audit_event cfg r' ''deletion.cancelled''
               (remember key fp (request_id r') (put_request rid r' s))
         in (Inr (request_view r'), s'))))"

definition place_hold ::
  "retention_service \<Rightarrow> retention_context \<Rightarrow> string \<Rightarrow> deletion_request option
    \<Rightarrow> string \<times> string \<times> string \<Rightarrow> string \<Rightarrow> retention_state
    \<Rightarrow> (retention_state, retention_error, legal_hold_view) outcome" where
  "place_hold cfg c source request key fp s =
    (let (hid, s1) = fresh_id cfg ''legal-hold'' s;
         h = \<lparr>hold_id = hid, hold_context = c, hold_source_id = source, hold_state = Active,
              hold_version = 1\<rparr>;
         s2 = put_hold hid h s1
     in case request of
       None \<Rightarrow> (Inr (hold_view h), remember key fp hid s2)
     | Some r \<Rightarrow>
         (let r' = r\<lparr>req_state := BlockedByHold, req_version := req_version r + 1\<rparr>;
              s3 = remember key fp hid (put_request (request_id r) r' s2)
          in (Inr (hold_view h), audit_event cfg r' ''legal_hold.applied'' s3)))"

definition apply_legal_hold ::
  "retention_service \<Rightarrow> retention_context \<Rightarrow> string \<Rightarrow> if_match \<Rightarrow> string \<Rightarrow> bool \<Rightarrow> retention_state
    \<Rightarrow> (retention_state, retention_error, legal_hold_view) outcome" where
  "apply_legal_hold cfg c source expected idempotency_key step_up_verified s =
    attempt (write_checked idempotency_key expected) s (\<lambda>_.
    attempt (require_sensitive c step_up_verified) s (\<lambda>_.
    attempt (safe source) s (\<lambda>_.
    let fp = fingerprint (sha256_hex cfg)
          (JArr [JStr source, match_json expected, JStr (policy_version c)]);
        key = (actor_id c, ''hold'', idempotency_key) in
    attempt (replay_lookup (idempotency s) key fp) s (\<lambda>found.
    case found of
      Some hid \<Rightarrow> attempt (find_hold s c hid) s (\<lambda>h. (Inr (hold_view h), s))
    | None \<Rightarrow>
    if dict_get (source_scopes s) (tenant_id c, source) \<noteq> Some (workspace_id c)
    then (Inl (retention_error ''SOURCE_UNAVAILABLE'' 404), s)
    else attempt
      (case dict_get (source_requests s) (tenant_id c, workspace_id c, source) of
         None \<Rightarrow> Inr None
       | Some rid \<Rightarrow> (case find_request s c rid of Inl e \<Rightarrow> Inl e | Inr r \<Rightarrow> Inr (Some r))) s
      (\<lambda>request.
    if (case request of Some r \<Rightarrow> \<not> version_is (req_version r) expected
          | None \<Rightarrow> \<not> version_is 1 expected)
    then (Inl (retention_error ''RETENTION_VERSION_CONFLICT'' 409), s)
    else place_hold cfg c source request key fp s)))))"

text \<open>
  The request, if any, is looked up after the hold is already marked released; it returns to the
  grace period or to the clean-up queue only when no other hold on the source is active.
\<close>

definition reopen_request ::
  "retention_service \<Rightarrow> deletion_request \<Rightarrow> retention_state \<Rightarrow> deletion_request \<times> retention_state"
where
  "reopen_request cfg r s =
    (if active_holds s r \<noteq> [] then (r, s)
     else let (now, s1) = read_clock cfg s;
              r' = r\<lparr>req_state := (if now < grace_until r then GracePeriod else CleanupPending),
                     req_version := req_version r + 1\<rparr>
          in (r', put_request (request_id r) r' s1))"

definition release_legal_hold ::
  "retention_service \<Rightarrow> retention_context \<Rightarrow> string \<Rightarrow> if_match \<Rightarrow> string \<Rightarrow> bool \<Rightarrow> retention_state
    \<Rightarrow> (retention_state, retention_error, legal_hold_view) outcome" where
  "release_legal_hold cfg c hid expected idempotency_key step_up_verified s =
    attempt (write_checked idempotency_key expected) s (\<lambda>_.
    attempt (require_sensitive c step_up_verified) s (\<lambda>_.
    let fp = fingerprint (sha256_hex cfg)
          (JArr [JStr hid, match_json expected, JStr (policy_version c)]);
        key = (actor_id c, ''release'', idempotency_key) in
    attempt (find_hold s c hid) s (\<lambda>h.
    attempt (replay_lookup (idempotency s) key fp) s (\<lambda>found.
    if found \<noteq> None then (Inr (hold_view h), s)
    else if \<not> version_is (hold_version h) expected \<or> hold_state h \<noteq> Active
    then (Inl (retention_error ''RETENTION_VERSION_CONFLICT'' 409), s)
    else let h' = h\<lparr>hold_state := Released, hold_version := hold_version h + 1\<rparr>;
             s1 = put_hold hid h' s in
    case dict_get (source_requests s1) (tenant_id c, workspace_id c, hold_source_id h') of
      None \<Rightarrow> (Inr (hold_view h'), remember key fp (hold_id h') s1)
    | Some rid \<Rightarrow>
        attempt (find_request s1 c rid) s1 (\<lambda>r.
        let (r', s2) = reopen_request cfg r s1;
            s3 = audit_event cfg r' ''legal_hold.released'' (remember key fp (hold_id h') s2)
        in (Inr (hold_view h'), s3))))))"

definition acknowledge_local_copy ::
  "retention_service \<Rightarrow> retention_context \<Rightarrow> string \<Rightarrow> string \<Rightarrow> string \<Rightarrow> if_match \<Rightarrow> string
    \<Rightarrow> retention_state \<Rightarrow> (retention_state, retention_error, deletion_request_view) outcome" where
  "acknowledge_local_copy cfg c rid ref evidence expected idempotency_key s =
    attempt (write_checked idempotency_key expected) s (\<lambda>_.
    if evidence \<notin> set [''device_ack'', ''device_revoked'', ''key_destroyed'']
    then (Inl (retention_error ''LOCAL_COPY_ACK_INVALID'' 400), s)
    else let fp = fingerprint (sha256_hex cfg)
               (JArr [JStr rid, JStr ref, JStr evidence, match_json expected]);
             key = (actor_id c, ''ack'', idempotency_key) in
    attempt (find_request s c rid) s (\<lambda>r.
    attempt (replay_lookup (idempotency s) key fp) s (\<lambda>found.
    if found \<noteq> None then (Inr (request_view r), s)
    else if \<not> version_is (req_version r) expected
    then (Inl (retention_error ''RETENTION_VERSION_CONFLICT'' 409), s)
    else case dict_get (inventory r) ref of
      None \<Rightarrow> (Inl (retention_error ''LOCAL_COPY_ACK_INVALID'' 400), s)
    | Some item \<Rightarrow>
        if kind (item_value item) \<noteq> ''known_local_copy''
        then (Inl (retention_error ''LOCAL_COPY_ACK_INVALID'' 400), s)
        else let item' = item\<lparr>item_state := Completed, item_evidence := Some evidence\<rparr>;
                 r' = r\<lparr>inventory := dict_set ref item' (inventory r),
                        req_version := req_version r + 1\<rparr>;
                 s' = audit_event cfg r' ''local_copy.access_revoked''
                   (remember key fp rid (put_request rid r' s))
             in (Inr (request_view r'), s'))))"

text \<open>One clean-up pass over the inventory, in its order.\<close>

type_synonym cleanup_log = "(string \<times> string \<times> string \<times> int \<times> item_state) list"

fun cleanup_pass ::
  "string \<Rightarrow> (string, cleanup_item) dict \<Rightarrow> cleanup_port \<Rightarrow> cleanup_log
    \<Rightarrow> (string, cleanup_item) dict \<times> cleanup_port \<times> cleanup_log" where
  "cleanup_pass rid [] p log = ([], p, log)"
| "cleanup_pass rid ((ref, i) # rest) p log =
    (if item_state i = Completed then
       (let (rest', p', log') = cleanup_pass rid rest p log in ((ref, i) # rest', p', log'))
     else if acknowledgement_required (item_value i) then
       (let (rest', p', log') = cleanup_pass rid rest p log
        in ((ref, i\<lparr>item_state := AwaitingAck\<rparr>) # rest', p', log'))
     else
       (let (completed, p1) = port_cleanup (item_value i) p;
            i' = i\<lparr>item_attempts := item_attempts i + 1,
                   item_state := (if completed then Completed else Failed)\<rparr>;
            entry = (rid, reference_id (item_value i), kind (item_value i), item_attempts i',
                     item_state i');
            (rest', p', log') = cleanup_pass rid rest p1 (log @ [entry])
        in ((ref, i') # rest', p', log')))"

definition starts_with :: "string \<Rightarrow> string \<Rightarrow> bool" where
  "starts_with prefix s \<longleftrightarrow> take (length prefix) s = prefix"

text \<open>The part of \<open>purge\<close> after its guards.\<close>

definition run_purge ::
  "retention_service \<Rightarrow> string \<Rightarrow> deletion_request \<Rightarrow> string \<times> string \<times> string \<Rightarrow> string
    \<Rightarrow> retention_state \<Rightarrow> (retention_state, retention_error, deletion_request_view) outcome" where
  "run_purge cfg rid r key fp s =
    (let (items, p', log') = cleanup_pass (request_id r) (inventory r) (port s) (attempts s);
         finished = list_all (\<lambda>i. item_state i = Completed) (dict_values items);
         r' = r\<lparr>inventory := items, purge_started := True, req_version := req_version r + 1,
                req_state := (if finished then Purged else CleanupPending)\<rparr>;
         s1 = (put_request rid r' s)\<lparr>port := p', attempts := log'\<rparr>;
         s2 = audit_event cfg r'
           (if finished then ''deletion.purged'' else ''deletion.cleanup_pending'') s1
     in (Inr (request_view r'), remember key fp rid s2))"

definition purge ::
  "retention_service \<Rightarrow> retention_context \<Rightarrow> string \<Rightarrow> if_match \<Rightarrow> string \<Rightarrow> bool \<Rightarrow> retention_state
    \<Rightarrow> (retention_state, retention_error, deletion_request_view) outcome" where
  "purge cfg c rid expected idempotency_key step_up_verified s =
    attempt (write_checked idempotency_key expected) s (\<lambda>_.
    attempt (require_sensitive c step_up_verified) s (\<lambda>_.
    let fp = fingerprint (sha256_hex cfg)
          (JArr [JStr rid, match_json expected, JStr (policy_version c)]);
        key = (actor_id c, ''purge'', idempotency_key) in
    attempt (find_request s c rid) s (\<lambda>r.
    attempt (replay_lookup (idempotency s) key fp) s (\<lambda>found.
    if found \<noteq> None then (Inr (request_view r), s)
    else if \<not> version_is (req_version r) expected
    then (Inl (retention_error ''RETENTION_VERSION_CONFLICT'' 409), s)
    else if active_holds s r \<noteq> []
    then (Inl (retention_error ''LEGAL_HOLD_ACTIVE'' 409),
          put_request rid (r\<lparr>req_state := BlockedByHold\<rparr>) s)
    else let (now, s1) = read_clock cfg s in
    if now < grace_until r
    then (Inl (retention_error ''DELETION_GRACE_PERIOD_ACTIVE'' 409), s1)
    else if list_ex (\<lambda>i. \<not> starts_with (fixture_prefix cfg) (reference_id (item_value i)))
      (dict_values (inventory r))
    then (Inl (retention_error ''FIXTURE_ONLY_PURGE_REQUIRED'' 403), s1)
    else run_purge cfg rid r key fp s1))))"

definition minimal_lineage ::
  "string \<Rightarrow> retention_state \<Rightarrow> retention_error + (string \<times> int \<times> retention_event list)" where
  "minimal_lineage rid s =
    (case dict_get (requests s) rid of
       None \<Rightarrow> Inl (retention_error ''DELETION_REQUEST_UNAVAILABLE'' 404)
     | Some r \<Rightarrow> Inr (rid, 1, filter (\<lambda>e. ev_request_id e = rid) (audit s)))"

end
