(* ===== verification/Retention_Invariant.thy ===== *)
theory Retention_Invariant
  imports Retention
begin

text \<open>
  The invariant of the retention service. First the frame facts of the small state updates and one
  effect lemma per handler, which says what a call can leave behind; then the step relation of the
  service, the invariant and its preservation; last the interpretations of the shared contracts.
\<close>

section \<open>Frame facts\<close>

named_theorems retention_frame

lemma read_clock_frame [retention_frame]:
  "read_clock cfg s = (now, t) \<Longrightarrow> t = s\<lparr>clock_reads := Suc (clock_reads s)\<rparr>
    \<and> now = clock cfg (clock_reads s)"
  by (auto simp: read_clock_def)

lemma audit_event_eq:
  "audit_event cfg r a s = s\<lparr>clock_reads := Suc (clock_reads s),
     audit := audit s @ [seal_event cfg (r, a, clock cfg (clock_reads s))
       (chain_head ev_event_hash (audit s))]\<rparr>"
  by (simp add: audit_event_def read_clock_def Let_def)

lemma audit_event_simps [simp]:
  "requests (audit_event cfg r a s) = requests s"
  "source_requests (audit_event cfg r a s) = source_requests s"
  "source_scopes (audit_event cfg r a s) = source_scopes s"
  "holds (audit_event cfg r a s) = holds s"
  "idempotency (audit_event cfg r a s) = idempotency s"
  "attempts (audit_event cfg r a s) = attempts s"
  "port (audit_event cfg r a s) = port s"
  "tokens_drawn (audit_event cfg r a s) = tokens_drawn s"
  "clock_reads (audit_event cfg r a s) = Suc (clock_reads s)"
  by (simp_all add: audit_event_eq)

lemma put_request_simps [simp]:
  "requests (put_request rid r s) = dict_set rid r (requests s)"
  "source_requests (put_request rid r s) = source_requests s"
  "source_scopes (put_request rid r s) = source_scopes s"
  "holds (put_request rid r s) = holds s"
  "idempotency (put_request rid r s) = idempotency s"
  "attempts (put_request rid r s) = attempts s"
  "audit (put_request rid r s) = audit s"
  "port (put_request rid r s) = port s"
  "tokens_drawn (put_request rid r s) = tokens_drawn s"
  "clock_reads (put_request rid r s) = clock_reads s"
  by (simp_all add: put_request_def)

lemma put_hold_simps [simp]:
  "requests (put_hold hid h s) = requests s"
  "source_requests (put_hold hid h s) = source_requests s"
  "source_scopes (put_hold hid h s) = source_scopes s"
  "holds (put_hold hid h s) = dict_set hid h (holds s)"
  "idempotency (put_hold hid h s) = idempotency s"
  "attempts (put_hold hid h s) = attempts s"
  "audit (put_hold hid h s) = audit s"
  "port (put_hold hid h s) = port s"
  "tokens_drawn (put_hold hid h s) = tokens_drawn s"
  "clock_reads (put_hold hid h s) = clock_reads s"
  by (simp_all add: put_hold_def)

lemma remember_simps [simp]:
  "requests (remember k f v s) = requests s"
  "source_requests (remember k f v s) = source_requests s"
  "source_scopes (remember k f v s) = source_scopes s"
  "holds (remember k f v s) = holds s"
  "idempotency (remember k f v s) = dict_set k (f, v) (idempotency s)"
  "attempts (remember k f v s) = attempts s"
  "audit (remember k f v s) = audit s"
  "port (remember k f v s) = port s"
  "tokens_drawn (remember k f v s) = tokens_drawn s"
  "clock_reads (remember k f v s) = clock_reads s"
  by (simp_all add: remember_def)

lemma find_request_InrD:
  "find_request s c rid = Inr r \<Longrightarrow>
    dict_get (requests s) rid = Some r \<and> tenant_id (req_context r) = tenant_id c
    \<and> workspace_id (req_context r) = workspace_id c"
  by (auto simp: find_request_def split: option.splits if_splits)

lemma find_hold_InrD:
  "find_hold s c hid = Inr h \<Longrightarrow>
    dict_get (holds s) hid = Some h \<and> tenant_id (hold_context h) = tenant_id c
    \<and> workspace_id (hold_context h) = workspace_id c"
  by (auto simp: find_hold_def split: option.splits if_splits)

lemma replay_lookup_None:
  "replay_lookup l k f = Inr None \<longleftrightarrow> dict_get l k = None"
  by (auto simp: replay_lookup_def split: option.splits prod.splits if_splits)

section \<open>Effects of the handlers\<close>

text \<open>Same repository up to the ledger, the clock and a chained extension of the audit trail.\<close>

definition chain_ok :: "retention_service \<Rightarrow> retention_event list \<Rightarrow> bool" where
  "chain_ok cfg es = chained ev_previous_hash ev_event_hash (event_digest cfg) es"

lemma cancel_effect:
  assumes "cancel cfg c rid m k s = (res, t)"
  shows "t = s \<or> (\<exists>r fp. find_request s c rid = Inr r \<and> MatchInt (req_version r) = m
    \<and> \<not> purge_started r \<and> req_state r \<noteq> Purged \<and> req_state r \<noteq> Cancelled
    \<and> dict_get (idempotency s) (actor_id c, ''cancel'', k) = None
    \<and> (\<exists>r'. r' = r\<lparr>req_state := Cancelled, source_active := True, req_version := req_version r + 1\<rparr>
      \<and> res = Inr (request_view r')
      \<and> t = audit_event cfg r' ''deletion.cancelled''
          (remember (actor_id c, ''cancel'', k) fp (request_id r) (put_request rid r' s))))"
  using assms
  by (auto simp: cancel_def replay_lookup_None Let_def version_is_def split: attempt_splits if_splits)

lemma acknowledge_effect:
  assumes "acknowledge_local_copy cfg c rid ref ev m k s = (res, t)"
  shows "t = s \<or> (\<exists>r fp item. find_request s c rid = Inr r \<and> MatchInt (req_version r) = m
    \<and> ev \<in> {''device_ack'', ''device_revoked'', ''key_destroyed''}
    \<and> dict_get (inventory r) ref = Some item \<and> kind (item_value item) = ''known_local_copy''
    \<and> dict_get (idempotency s) (actor_id c, ''ack'', k) = None
    \<and> (\<exists>r'. r' = r\<lparr>inventory := dict_set ref (item\<lparr>item_state := Completed, item_evidence := Some ev\<rparr>)
              (inventory r), req_version := req_version r + 1\<rparr>
      \<and> res = Inr (request_view r')
      \<and> t = audit_event cfg r' ''local_copy.access_revoked''
          (remember (actor_id c, ''ack'', k) fp rid (put_request rid r' s))))"
  using assms
  by (auto simp: acknowledge_local_copy_def replay_lookup_None Let_def version_is_def
      split: attempt_splits if_splits option.splits)

lemma purge_effect:
  assumes "purge cfg c rid m k v s = (res, t)"
  shows "t = s \<or> t = s\<lparr>clock_reads := Suc (clock_reads s)\<rparr>
    \<or> (\<exists>r. find_request s c rid = Inr r \<and> MatchInt (req_version r) = m \<and> active_holds s r \<noteq> []
        \<and> res = Inl (retention_error ''LEGAL_HOLD_ACTIVE'' 409)
        \<and> t = put_request rid (r\<lparr>req_state := BlockedByHold\<rparr>) s)
    \<or> (\<exists>r fp. find_request s c rid = Inr r \<and> MatchInt (req_version r) = m \<and> active_holds s r = []
        \<and> organization_admin c \<and> v \<and> grace_until r \<le> clock cfg (clock_reads s)
        \<and> dict_get (idempotency s) (actor_id c, ''purge'', k) = None
        \<and> list_all (\<lambda>i. starts_with (fixture_prefix cfg) (reference_id (item_value i)))
            (dict_values (inventory r))
        \<and> run_purge cfg rid r (actor_id c, ''purge'', k) fp
            (s\<lparr>clock_reads := Suc (clock_reads s)\<rparr>) = (res, t))"
  using assms
  by (auto simp: purge_def replay_lookup_None Let_def version_is_def read_clock_def require_sensitive_def
      list_ex_iff list_all_iff split: attempt_splits if_splits)

lemma apply_hold_effect:
  assumes "apply_legal_hold cfg c source m k v s = (res, t)"
  shows "t = s \<or> (\<exists>request fp. organization_admin c \<and> v
    \<and> dict_get (source_scopes s) (tenant_id c, source) = Some (workspace_id c)
    \<and> dict_get (idempotency s) (actor_id c, ''hold'', k) = None
    \<and> (case dict_get (source_requests s) (tenant_id c, workspace_id c, source) of
         None \<Rightarrow> request = None \<and> m = MatchInt 1
       | Some rid \<Rightarrow> \<exists>r. find_request s c rid = Inr r \<and> request = Some r
           \<and> m = MatchInt (req_version r))
    \<and> place_hold cfg c source request (actor_id c, ''hold'', k) fp s = (res, t))"
  using assms
  by (auto simp: apply_legal_hold_def replay_lookup_None Let_def version_is_def require_sensitive_def
      split: attempt_splits if_splits option.splits sum.splits)

lemma release_effect:
  assumes "release_legal_hold cfg c hid m k v s = (res, t)"
  shows "t = s \<or> (\<exists>h h' s1 fp. organization_admin c \<and> v \<and> find_hold s c hid = Inr h
    \<and> hold_state h = Active \<and> m = MatchInt (hold_version h)
    \<and> dict_get (idempotency s) (actor_id c, ''release'', k) = None
    \<and> h' = h\<lparr>hold_state := Released, hold_version := hold_version h + 1\<rparr> \<and> s1 = put_hold hid h' s
    \<and> (case dict_get (source_requests s) (tenant_id c, workspace_id c, hold_source_id h) of
         None \<Rightarrow> t = remember (actor_id c, ''release'', k) fp (hold_id h) s1 \<and> res = Inr (hold_view h')
       | Some rid \<Rightarrow> (case find_request s c rid of
           Inl e \<Rightarrow> res = Inl e \<and> t = s1
         | Inr r \<Rightarrow> (case reopen_request cfg r s1 of (r', s2) \<Rightarrow>
             res = Inr (hold_view h') \<and>
             t = audit_event cfg r' ''legal_hold.released''
               (remember (actor_id c, ''release'', k) fp (hold_id h) s2)))))"
proof -
  have same: "find_request (put_hold hid h s) c rid = find_request s c rid" for h rid
    by (simp add: find_request_def)
  show ?thesis
    using assms
    by (simp add: release_legal_hold_def replay_lookup_None Let_def version_is_def require_sensitive_def same
        split: attempt_splits if_splits)
      (auto simp: same split: option.splits attempt_splits prod.splits sum.splits)
qed

lemma register_effect:
  assumes "register_source c source s = (res, t)"
  shows "t = s \<or> (dict_get (source_scopes s) (tenant_id c, source) \<in> {None, Some (workspace_id c)}
    \<and> t = s\<lparr>source_scopes := dict_set (tenant_id c, source) (workspace_id c) (source_scopes s)\<rparr>)"
  using assms by (auto simp: register_source_def Let_def split: attempt_splits if_splits)

lemma create_effect:
  assumes "create_request cfg c source items k m s = (res, t)"
  shows "t = s \<or> (\<exists>s1. s1 = s\<lparr>source_scopes :=
        dict_set (tenant_id c, source) (workspace_id c) (source_scopes s)\<rparr>
    \<and> dict_get (source_scopes s) (tenant_id c, source) \<in> {None, Some (workspace_id c)}
    \<and> (t = s1 \<or> (\<exists>ds fp. distinct (map reference_id ds) \<and> set (map kind ds) = set derivative_kinds
        \<and> dict_get (source_requests s) (tenant_id c, workspace_id c, source) = None
        \<and> dict_get (idempotency s) (actor_id c, ''request'', k) = None
        \<and> fp = create_fingerprint cfg source ds \<and> safe source = Inr source
        \<and> admit_request cfg c source (map (\<lambda>d. (reference_id d, d)) ds)
            (actor_id c, ''request'', k) fp s1 = (res, t))))"
proof -
  have fresh: "dict_by reference_id ds = map (\<lambda>d. (reference_id d, d)) ds"
    if "length (dict_by reference_id ds) = length ds" for ds :: "derivative_input list"
    using that by (simp add: length_dict_by_iff dict_by_distinct)
  show ?thesis
    using assms
    by (simp add: create_request_def replay_lookup_None Let_def split: attempt_splits if_splits)
      (auto simp: fresh length_dict_by_iff replay_lookup_None safe_def
          split: attempt_splits option.splits if_splits)
qed

lemma replay_lookup_Some: "replay_lookup l k f = Inr (Some v) \<longleftrightarrow> dict_get l k = Some (f, v)"
  by (auto simp: replay_lookup_def split: option.splits if_splits)

lemma create_success:
  assumes "create_request cfg c source (Some ds) k m s = (Inr v, t)"
    and "s1 = s\<lparr>source_scopes := dict_set (tenant_id c, source) (workspace_id c) (source_scopes s)\<rparr>"
  shows "(\<exists>rid r. t = s1 \<and> find_request s1 c rid = Inr r \<and> v = request_view r
      \<and> dict_get (idempotency s) (actor_id c, ''request'', k) = Some (create_fingerprint cfg source ds, rid))
    \<or> admit_request cfg c source (dict_by reference_id ds) (actor_id c, ''request'', k)
        (create_fingerprint cfg source ds) s1 = (Inr v, t)"
  using assms
  by (auto simp: create_request_def Let_def replay_lookup_Some
      split: attempt_splits if_splits option.splits)

section \<open>The clean-up pass\<close>

text \<open>
  A completed item has a ground: its absence was established when the request was made, a device
  answered for it, or the port completed it and the attempt is in the log. Items that need an
  acknowledgement are never handed to the port.
\<close>

definition absence_or_acknowledgement :: "string list" where
  "absence_or_acknowledgement =
    [''not_present'', ''not_applicable'', ''device_ack'', ''device_revoked'', ''key_destroyed'']"

definition item_grounded :: "cleanup_log \<Rightarrow> string \<Rightarrow> cleanup_item \<Rightarrow> bool" where
  "item_grounded log rid i \<longleftrightarrow>
    0 \<le> item_attempts i
    \<and> (acknowledgement_required (item_value i) \<longrightarrow> item_attempts i = 0)
    \<and> (item_state i = Completed \<longrightarrow>
        item_evidence i \<in> Some ` set absence_or_acknowledgement
        \<or> (\<not> acknowledgement_required (item_value i)
          \<and> (rid, reference_id (item_value i), kind (item_value i), item_attempts i, Completed)
              \<in> set log))"

lemma item_grounded_mono: "item_grounded log rid i \<Longrightarrow> set log \<subseteq> set log' \<Longrightarrow> item_grounded log' rid i"
  by (auto simp: item_grounded_def)

text \<open>
  The pass in closed form: each item is cleaned independently of the others, and the port and the
  log see exactly the items that are due, in inventory order.
\<close>

definition due :: "cleanup_item \<Rightarrow> bool" where
  "due i \<longleftrightarrow> item_state i \<noteq> Completed \<and> \<not> acknowledgement_required (item_value i)"

definition cleaned :: "string list \<Rightarrow> cleanup_item \<Rightarrow> cleanup_item" where
  "cleaned fails i =
    (if item_state i = Completed then i
     else if acknowledgement_required (item_value i) then i\<lparr>item_state := AwaitingAck\<rparr>
     else i\<lparr>item_attempts := item_attempts i + 1,
            item_state := (if reference_id (item_value i) \<notin> set fails then Completed else Failed)\<rparr>)"

definition log_entry :: "string \<Rightarrow> cleanup_item \<Rightarrow> string \<times> string \<times> string \<times> int \<times> item_state" where
  "log_entry rid i = (rid, reference_id (item_value i), kind (item_value i), item_attempts i, item_state i)"

lemma port_cleanup_fails [simp]:
  "fail_references (snd (port_cleanup d p)) = fail_references p"
  "fst (port_cleanup d p) \<longleftrightarrow> reference_id d \<notin> set (fail_references p)"
  by (simp_all add: port_cleanup_def)

lemma cleaned_value [simp]: "item_value (cleaned fails i) = item_value i"
  by (simp add: cleaned_def)

lemma cleanup_pass_eq:
  "cleanup_pass rid items p log =
    (map (\<lambda>(ref, i). (ref, cleaned (fail_references p) i)) items,
     foldl (\<lambda>p i. snd (port_cleanup (item_value i) p)) p (filter due (dict_values items)),
     log @ map (\<lambda>i. log_entry rid (cleaned (fail_references p) i)) (filter due (dict_values items)))"
proof (induction items arbitrary: p log)
  case Nil
  then show ?case by simp
next
  case (Cons x items)
  obtain ref i where x: "x = (ref, i)" by fastforce
  obtain ok p1 where port: "port_cleanup (item_value i) p = (ok, p1)" by fastforce
  have "ok \<longleftrightarrow> reference_id (item_value i) \<notin> set (fail_references p)"
    and "fail_references p1 = fail_references p"
    using port_cleanup_fails [of "item_value i" p] by (simp_all add: port)
  then show ?case
    by (simp add: x port Cons.IH cleaned_def due_def log_entry_def Let_def split: prod.split)
qed

lemma cleaned_grounded:
  assumes "item_grounded log rid i" and "i \<in> set items"
  shows "item_grounded (log @ map (\<lambda>i. log_entry rid (cleaned fails i)) (filter due items)) rid
    (cleaned fails i)"
  using assms by (auto simp: item_grounded_def cleaned_def log_entry_def due_def image_iff)

section \<open>Steps\<close>

text \<open>
  Every write of the service as a labelled step; the label is the scope of the calling context.
  The results are not part of the state, and a raise is a step too: it may have written.
\<close>

inductive retention_step ::
  "retention_service \<Rightarrow> scope \<Rightarrow> retention_state \<Rightarrow> retention_state \<Rightarrow> bool" for cfg where
  step_create: "create_request cfg c source items k m s = (res, t)
    \<Longrightarrow> retention_step cfg (context_scope c) s t"
| step_register: "register_source c source s = (res, t)
    \<Longrightarrow> retention_step cfg (context_scope c) s t"
| step_cancel: "cancel cfg c rid m k s = (res, t) \<Longrightarrow> retention_step cfg (context_scope c) s t"
| step_hold: "apply_legal_hold cfg c source m k v s = (res, t)
    \<Longrightarrow> retention_step cfg (context_scope c) s t"
| step_release: "release_legal_hold cfg c hid m k v s = (res, t)
    \<Longrightarrow> retention_step cfg (context_scope c) s t"
| step_acknowledge: "acknowledge_local_copy cfg c rid ref ev m k s = (res, t)
    \<Longrightarrow> retention_step cfg (context_scope c) s t"
| step_purge: "purge cfg c rid m k v s = (res, t) \<Longrightarrow> retention_step cfg (context_scope c) s t"

text \<open>An empty repository and an identifier source that never repeats itself.\<close>

definition retention_start :: "retention_service \<Rightarrow> retention_state \<Rightarrow> bool" where
  "retention_start cfg s \<longleftrightarrow> inj (token_hex cfg) \<and> (\<exists>p. s = empty_repository p)"

section \<open>Invariant\<close>

definition request_key :: "deletion_request \<Rightarrow> string \<times> string \<times> string" where
  "request_key r = (tenant_id (req_context r), workspace_id (req_context r), req_source_id r)"

definition request_ok :: "cleanup_log \<Rightarrow> string \<Rightarrow> deletion_request \<Rightarrow> bool" where
  "request_ok log rid r \<longleftrightarrow>
    request_id r = rid \<and> 1 \<le> req_version r \<and> dict_ok (inventory r)
    \<and> set (map (\<lambda>(ref, i). kind (item_value i)) (inventory r)) = set derivative_kinds
    \<and> (\<forall>(ref, i) \<in> set (inventory r). reference_id (item_value i) = ref \<and> item_grounded log rid i)
    \<and> (req_state r = Purged \<longrightarrow> (\<forall>(ref, i) \<in> set (inventory r). item_state i = Completed))"

definition drawn :: "retention_service \<Rightarrow> retention_state \<Rightarrow> string \<Rightarrow> string \<Rightarrow> bool" where
  "drawn cfg s prefix x \<longleftrightarrow> (\<exists>n < tokens_drawn s. x = prefix @ ''-'' @ token_hex cfg n)"

definition requests_inv :: "retention_service \<Rightarrow> retention_state \<Rightarrow> bool" where
  "requests_inv cfg s \<longleftrightarrow> dict_ok (requests s)
    \<and> (\<forall>rid r. dict_get (requests s) rid = Some r \<longrightarrow>
        request_ok (attempts s) rid r \<and> drawn cfg s ''deletion'' rid)"

text \<open>At most one request per source, and the two registries agree on the workspace.\<close>

definition registry_inv :: "retention_state \<Rightarrow> bool" where
  "registry_inv s \<longleftrightarrow>
    (\<forall>rid r. dict_get (requests s) rid = Some r \<longrightarrow>
      dict_get (source_requests s) (request_key r) = Some rid
      \<and> dict_get (source_scopes s) (tenant_id (req_context r), req_source_id r)
          = Some (workspace_id (req_context r)))
    \<and> (\<forall>k rid. dict_get (source_requests s) k = Some rid \<longrightarrow>
      (\<exists>r. dict_get (requests s) rid = Some r \<and> request_key r = k))"

text \<open>
  A request whose source is under an active hold is blocked or cancelled, and a blocked request
  is under an active hold.
\<close>

definition holds_inv :: "retention_service \<Rightarrow> retention_state \<Rightarrow> bool" where
  "holds_inv cfg s \<longleftrightarrow> dict_ok (holds s)
    \<and> (\<forall>hid h. dict_get (holds s) hid = Some h \<longrightarrow>
        hold_id h = hid \<and> 1 \<le> hold_version h \<and> drawn cfg s ''legal-hold'' hid)
    \<and> (\<forall>rid r. dict_get (requests s) rid = Some r \<longrightarrow>
        (active_holds s r \<noteq> [] \<longrightarrow> req_state r \<in> {BlockedByHold, Cancelled})
        \<and> (req_state r = BlockedByHold \<longrightarrow> active_holds s r \<noteq> []))"

definition retention_inv :: "retention_service \<Rightarrow> retention_state \<Rightarrow> bool" where
  "retention_inv cfg s \<longleftrightarrow> inj (token_hex cfg) \<and> requests_inv cfg s \<and> registry_inv s
    \<and> holds_inv cfg s \<and> chain_ok cfg (audit s)"

section \<open>Preservation\<close>

lemma held_iff:
  "dict_ok (holds s) \<Longrightarrow> active_holds s r \<noteq> [] \<longleftrightarrow>
    (\<exists>hid h. dict_get (holds s) hid = Some h \<and> hold_covers (req_context r) (req_source_id r) h)"
  by (force simp: active_holds_def filter_empty_conv dict_get_mem)

lemma active_holds_cong:
  "holds t = holds s \<Longrightarrow> req_context r' = req_context r \<Longrightarrow> req_source_id r' = req_source_id r
    \<Longrightarrow> active_holds t r' = active_holds s r"
  by (simp add: active_holds_def)

lemma covers_key:
  "hold_covers (req_context q) (req_source_id q) h
    \<Longrightarrow> request_key q = (tenant_id (hold_context h), workspace_id (hold_context h), hold_source_id h)"
  by (simp add: hold_covers_def request_key_def)

lemma drawn_mono: "drawn cfg s p x \<Longrightarrow> tokens_drawn s \<le> tokens_drawn t \<Longrightarrow> drawn cfg t p x"
  by (auto simp: drawn_def intro: less_le_trans)

lemma drawn_cong: "tokens_drawn t = tokens_drawn s \<Longrightarrow> drawn cfg t p x = drawn cfg s p x"
  by (simp add: drawn_def)

lemma not_drawn_next:
  "inj (token_hex cfg) \<Longrightarrow> \<not> drawn cfg s p (p @ ''-'' @ token_hex cfg (tokens_drawn s))"
  by (auto simp: drawn_def dest: injD)

lemma request_ok_mono: "request_ok log rid r \<Longrightarrow> set log \<subseteq> set log' \<Longrightarrow> request_ok log' rid r"
  by (auto simp: request_ok_def dest!: bspec intro: item_grounded_mono)

lemma registry_unique:
  "registry_inv s \<Longrightarrow> dict_get (requests s) rid = Some q \<Longrightarrow> request_key q = k
    \<Longrightarrow> dict_get (source_requests s) k = Some rid"
  by (auto simp: registry_inv_def)

lemma seal_event_simps [simp]:
  "ev_previous_hash (seal_event cfg d p) = p"
  "ev_event_hash (seal_event cfg d p) = event_digest cfg (seal_event cfg d p)"
  by (simp_all add: seal_event_def event_digest_def event_body_def Let_def split: prod.split)

interpretation trail: hash_chain "seal_event cfg" ev_previous_hash ev_event_hash "event_digest cfg"
  for cfg
  by unfold_locales (simp_all del: seal_event_simps(2), simp)

lemma chain_ok_audit [simp]: "chain_ok cfg (audit s) \<Longrightarrow> chain_ok cfg (audit (audit_event cfg r a s))"
  by (simp add: audit_event_eq chain_ok_def trail.chained_seal)

text \<open>Steps that leave requests, holds and the log alone.\<close>

lemma inv_quiet:
  assumes "retention_inv cfg s"
    and "requests t = requests s" "source_requests t = source_requests s" "holds t = holds s"
    and "attempts t = attempts s" "tokens_drawn t = tokens_drawn s"
    and "\<And>k w. dict_get (source_scopes s) k = Some w \<Longrightarrow> dict_get (source_scopes t) k = Some w"
    and "chain_ok cfg (audit t)"
  shows "retention_inv cfg t"
proof -
  have act: "active_holds t q = active_holds s q" for q
    by (simp add: active_holds_def assms(4))
  show ?thesis
    using assms(1,7,8) unfolding retention_inv_def requests_inv_def registry_inv_def holds_inv_def
    by (simp add: assms(2-5) act drawn_cong [OF assms(6)])
qed

lemma registry_update:
  assumes reg: "registry_inv s" and r: "dict_get (requests s) rid = Some r"
    and t: "requests t = dict_set rid r' (requests s)" "source_requests t = source_requests s"
      "source_scopes t = source_scopes s"
    and same: "req_context r' = req_context r" "req_source_id r' = req_source_id r"
  shows "registry_inv t"
proof -
  have key: "request_key r' = request_key r"
    by (simp add: request_key_def same)
  show ?thesis
    using reg r unfolding registry_inv_def by (simp add: t key same) (metis option.inject)
qed

text \<open>Steps that change one request and keep its identity.\<close>

lemma inv_update_request:
  assumes inv: "retention_inv cfg s" and r: "dict_get (requests s) rid = Some r"
    and t: "requests t = dict_set rid r' (requests s)" "source_requests t = source_requests s"
      "source_scopes t = source_scopes s" "holds t = holds s" "tokens_drawn t = tokens_drawn s"
    and same: "req_context r' = req_context r" "req_source_id r' = req_source_id r"
    and ok: "request_ok (attempts t) rid r'" and log: "set (attempts s) \<subseteq> set (attempts t)"
    and hold: "active_holds s r \<noteq> [] \<longrightarrow> req_state r' \<in> {BlockedByHold, Cancelled}"
      "req_state r' = BlockedByHold \<longrightarrow> active_holds s r \<noteq> []"
    and chain: "chain_ok cfg (audit t)"
  shows "retention_inv cfg t"
proof -
  have act: "active_holds t q = active_holds s q" for q
    by (simp add: active_holds_def t)
  have act': "active_holds s r' = active_holds s r"
    by (rule active_holds_cong) (simp_all add: same)
  have "requests_inv cfg t"
    using inv ok r request_ok_mono [OF _ log]
    by (auto simp: retention_inv_def requests_inv_def t drawn_cong [OF t(5)])
  moreover have "registry_inv t"
    using inv by (intro registry_update [OF _ r t(1-3) same]) (simp add: retention_inv_def)
  moreover have "holds_inv cfg t"
    using inv hold r
    by (auto simp: retention_inv_def holds_inv_def t drawn_cong [OF t(5)] act act')
  ultimately show ?thesis
    using inv chain by (simp add: retention_inv_def)
qed

lemma request_okD:
  assumes "retention_inv cfg s" and "dict_get (requests s) rid = Some r"
  shows "request_ok (attempts s) rid r" and "request_id r = rid"
    and "dict_get (source_requests s) (request_key r) = Some rid"
    and "active_holds s r \<noteq> [] \<Longrightarrow> req_state r \<in> {BlockedByHold, Cancelled}"
    and "req_state r = BlockedByHold \<Longrightarrow> active_holds s r \<noteq> []"
  using assms
  by (auto simp: retention_inv_def requests_inv_def registry_inv_def holds_inv_def request_ok_def)

lemma inv_cancel:
  assumes "retention_inv cfg s" and "cancel cfg c rid m k s = (res, t)"
  shows "retention_inv cfg t"
  using cancel_effect [OF assms(2)]
proof (elim disjE exE conjE)
  fix r fp r'
  assume r: "find_request s c rid = Inr r"
    and r': "r' = r\<lparr>req_state := Cancelled, source_active := True, req_version := req_version r + 1\<rparr>"
    and t: "t = audit_event cfg r' ''deletion.cancelled''
          (remember (actor_id c, ''cancel'', k) fp (request_id r) (put_request rid r' s))"
  note r = find_request_InrD [OF r, THEN conjunct1]
  show ?thesis
    by (rule inv_update_request [OF assms(1) r, where r' = r'])
      (use assms(1) request_okD(1) [OF assms(1) r] in
        \<open>simp_all add: t r' request_ok_def retention_inv_def\<close>)
qed (simp add: assms(1))

lemma inv_acknowledge:
  assumes "retention_inv cfg s" and "acknowledge_local_copy cfg c rid ref ev m k s = (res, t)"
  shows "retention_inv cfg t"
  using acknowledge_effect [OF assms(2)]
proof (elim disjE exE conjE)
  fix r fp item r'
  assume r: "find_request s c rid = Inr r"
    and ev: "ev \<in> {''device_ack'', ''device_revoked'', ''key_destroyed''}"
    and item: "dict_get (inventory r) ref = Some item"
    and r': "r' = r\<lparr>inventory := dict_set ref
        (item\<lparr>item_state := Completed, item_evidence := Some ev\<rparr>) (inventory r),
        req_version := req_version r + 1\<rparr>"
    and t: "t = audit_event cfg r' ''local_copy.access_revoked''
          (remember (actor_id c, ''ack'', k) fp rid (put_request rid r' s))"
  note r = find_request_InrD [OF r, THEN conjunct1]
  have ok: "request_ok (attempts s) rid r"
    by (rule request_okD(1) [OF assms(1) r])
  have kinds: "map (\<lambda>(ref, i). kind (item_value i)) (inventory r')
      = map (\<lambda>(ref, i). kind (item_value i)) (inventory r)"
    unfolding r' by (simp add: map_dict_set_same [OF item])
  have mem: "(ref, item) \<in> set (inventory r)"
    using ok item by (simp add: request_ok_def dict_get_mem)
  define item' where "item' = item\<lparr>item_state := Completed, item_evidence := Some ev\<rparr>"
  have item_ok: "reference_id (item_value item) = ref" "item_grounded (attempts s) rid item"
    using ok mem by (auto simp: request_ok_def)
  have ground': "item_grounded (attempts s) rid item'"
    using item_ok(2) ev by (auto simp: item_grounded_def item'_def absence_or_acknowledgement_def)
  have inv': "inventory r' = dict_set ref item' (inventory r)"
    by (simp add: r' item'_def)
  have entries: "(ref', i) \<in> set (inventory r') \<longleftrightarrow>
      (if ref' = ref then i = item' else (ref', i) \<in> set (inventory r))" for ref' i
    unfolding inv' using ok by (intro dict_set_mem) (simp add: request_ok_def)
  have grounded: "\<forall>(ref', i) \<in> set (inventory r').
      reference_id (item_value i) = ref' \<and> item_grounded (attempts s) rid i"
    using ok item_ok(1) ground' by (auto simp: entries request_ok_def item'_def split: if_splits)
  have "req_state r' = req_state r" by (simp add: r')
  then have purged:
    "req_state r' = Purged \<longrightarrow> (\<forall>(ref', i) \<in> set (inventory r'). item_state i = Completed)"
    using ok by (auto simp: entries request_ok_def item'_def split: if_splits)
  have "request_ok (attempts s) rid r'"
    using ok grounded purged unfolding request_ok_def kinds
    by (simp add: inv') (simp add: r')
  then show ?thesis
    by (intro inv_update_request [OF assms(1) r, where r' = r'])
      (use assms(1) request_okD(4,5) [OF assms(1) r] in
        \<open>simp_all add: t r' retention_inv_def\<close>)
qed (simp add: assms(1))

lemma inv_run_purge:
  assumes inv: "retention_inv cfg s" and r: "dict_get (requests s) rid = Some r"
    and free: "active_holds s r = []"
    and run: "run_purge cfg rid r key fp (s\<lparr>clock_reads := n\<rparr>) = (res, t)"
  shows "retention_inv cfg t"
proof -
  define fails where "fails = fail_references (port s)"
  define items where "items = map (\<lambda>(ref, i). (ref, cleaned fails i)) (inventory r)"
  define log where "log = attempts s @ map (\<lambda>i. log_entry rid (cleaned fails i))
    (filter due (dict_values (inventory r)))"
  define finished where "finished = list_all (\<lambda>i. item_state i = Completed) (dict_values items)"
  define r' where "r' = r\<lparr>inventory := items, purge_started := True,
    req_version := req_version r + 1, req_state := (if finished then Purged else CleanupPending)\<rparr>"
  have id: "request_id r = rid" and ok: "request_ok (attempts s) rid r"
    using request_okD [OF inv r] by simp_all
  have upd: "requests t = dict_set rid r' (requests s)" "source_requests t = source_requests s"
    "source_scopes t = source_scopes s" "holds t = holds s" "tokens_drawn t = tokens_drawn s"
    "attempts t = log"
    using run by (auto simp: run_purge_def cleanup_pass_eq id items_def log_def fails_def
        finished_def r'_def Let_def)
  have chain: "chain_ok cfg (audit t)"
    using run inv chain_ok_audit [of cfg "s\<lparr>clock_reads := n\<rparr>"]
    by (auto simp: run_purge_def cleanup_pass_eq Let_def retention_inv_def chain_ok_audit)
  have keys: "map fst items = map fst (inventory r)"
    and kinds: "map (\<lambda>(ref, i). kind (item_value i)) items
      = map (\<lambda>(ref, i). kind (item_value i)) (inventory r)"
    by (auto simp: items_def)
  have grounded: "\<forall>(ref, i) \<in> set items. reference_id (item_value i) = ref \<and> item_grounded log rid i"
  proof (clarify, intro conjI)
    fix ref i' assume "(ref, i') \<in> set items"
    then obtain i where i: "(ref, i) \<in> set (inventory r)" "i' = cleaned fails i"
      by (auto simp: items_def)
    then show "reference_id (item_value i') = ref"
      using ok by (auto simp: request_ok_def)
    have "item_grounded (attempts s) rid i"
      using ok i by (auto simp: request_ok_def)
    then show "item_grounded log rid i'"
      unfolding log_def i(2) by (rule cleaned_grounded) (use i in force)
  qed
  have "request_ok log rid r'"
    using ok grounded keys kinds unfolding request_ok_def
    by (auto simp: r'_def finished_def list_all_iff)
  then show ?thesis
    by (intro inv_update_request [OF inv r, where r' = r'])
      (simp_all add: upd chain free, simp_all add: r'_def log_def)
qed

lemma inv_purge:
  assumes "retention_inv cfg s" and "purge cfg c rid m k v s = (res, t)"
  shows "retention_inv cfg t"
  using purge_effect [OF assms(2)]
proof (elim disjE exE conjE)
  assume "t = s\<lparr>clock_reads := Suc (clock_reads s)\<rparr>"
  then show ?thesis
    by (intro inv_quiet [OF assms(1)]) (use assms(1) in \<open>simp_all add: retention_inv_def\<close>)
next
  fix r
  assume r: "find_request s c rid = Inr r" and act: "active_holds s r \<noteq> []"
    and t: "t = put_request rid (r\<lparr>req_state := BlockedByHold\<rparr>) s"
  note r = find_request_InrD [OF r, THEN conjunct1]
  show ?thesis
    by (rule inv_update_request [OF assms(1) r, where r' = "r\<lparr>req_state := BlockedByHold\<rparr>"])
      (use assms(1) request_okD(1) [OF assms(1) r] act in
        \<open>simp_all add: t request_ok_def retention_inv_def\<close>)
next
  fix r fp
  assume r: "find_request s c rid = Inr r" and act: "active_holds s r = []"
    and run: "run_purge cfg rid r (actor_id c, ''purge'', k) fp
            (s\<lparr>clock_reads := Suc (clock_reads s)\<rparr>) = (res, t)"
  note r = find_request_InrD [OF r, THEN conjunct1]
  show ?thesis
    by (rule inv_run_purge [OF assms(1) r act run])
qed (simp add: assms(1))

lemma inv_register:
  assumes "retention_inv cfg s" and "register_source c source s = (res, t)"
  shows "retention_inv cfg t"
  using register_effect [OF assms(2)]
proof (elim disjE conjE)
  assume known: "dict_get (source_scopes s) (tenant_id c, source) \<in> {None, Some (workspace_id c)}"
    and t: "t = s\<lparr>source_scopes :=
      dict_set (tenant_id c, source) (workspace_id c) (source_scopes s)\<rparr>"
  show ?thesis
    by (intro inv_quiet [OF assms(1)])
      (use assms(1) known in \<open>auto simp: t retention_inv_def split: if_splits\<close>)
qed (simp add: assms(1))

text \<open>A new active hold, with the request on its source, if any, blocked in the same step.\<close>

lemma active_holds_add:
  assumes "dict_get (holds s) hid = None" and "holds t = dict_set hid h (holds s)"
    and "hold_state h = Active"
  shows "active_holds t q \<noteq> [] \<longleftrightarrow> active_holds s q \<noteq> []
    \<or> request_key q = (tenant_id (hold_context h), workspace_id (hold_context h), hold_source_id h)"
proof -
  have "dict_set hid h (holds s) = holds s @ [(hid, h)]"
    using assms(1) by (intro dict_set_fresh) (auto simp: map_of_eq_None_iff)
  then show ?thesis
    by (auto simp: active_holds_def assms hold_covers_def request_key_def)
qed

definition new_hold ::
  "retention_service \<Rightarrow> retention_context \<Rightarrow> string \<Rightarrow> retention_state \<Rightarrow> legal_hold" where
  "new_hold cfg c source s =
    \<lparr>hold_id = ''legal-hold'' @ ''-'' @ token_hex cfg (tokens_drawn s), hold_context = c,
     hold_source_id = source, hold_state = Active, hold_version = 1\<rparr>"

lemma new_hold_simps [simp]:
  "hold_id (new_hold cfg c source s) = ''legal-hold'' @ ''-'' @ token_hex cfg (tokens_drawn s)"
  "hold_context (new_hold cfg c source s) = c" "hold_source_id (new_hold cfg c source s) = source"
  "hold_state (new_hold cfg c source s) = Active" "hold_version (new_hold cfg c source s) = 1"
  by (simp_all add: new_hold_def)

lemma place_hold_state:
  assumes "place_hold cfg c source request key fp s = (res, t)"
  shows "res = Inr (hold_view (new_hold cfg c source s))"
    and "holds t = dict_set (hold_id (new_hold cfg c source s)) (new_hold cfg c source s) (holds s)"
    and "tokens_drawn t = Suc (tokens_drawn s)" and "source_requests t = source_requests s"
    and "source_scopes t = source_scopes s" and "attempts t = attempts s"
    and "chain_ok cfg (audit s) \<Longrightarrow> chain_ok cfg (audit t)"
    and "requests t = (case request of None \<Rightarrow> requests s
      | Some r \<Rightarrow> dict_set (request_id r)
          (r\<lparr>req_state := BlockedByHold, req_version := req_version r + 1\<rparr>) (requests s))"
    and "port t = port s"
  using assms
  by (auto simp: place_hold_def fresh_id_def new_hold_def Let_def split: option.splits
      intro!: chain_ok_audit)

lemma inv_place_hold:
  assumes inv: "retention_inv cfg s"
    and request: "case dict_get (source_requests s) (tenant_id c, workspace_id c, source) of
        None \<Rightarrow> request = None | Some rid \<Rightarrow> \<exists>r. find_request s c rid = Inr r \<and> request = Some r"
    and run: "place_hold cfg c source request key fp s = (res, t)"
  shows "retention_inv cfg t"
proof -
  let ?k = "(tenant_id c, workspace_id c, source)"
  note t = place_hold_state [OF run]
  define h where "h = new_hold cfg c source s"
  have h: "hold_id h = ''legal-hold'' @ ''-'' @ token_hex cfg (tokens_drawn s)"
      "hold_context h = c" "hold_source_id h = source" "hold_state h = Active" "hold_version h = 1"
      "holds t = dict_set (hold_id h) h (holds s)"
    using t(2) by (simp_all add: h_def)
  have ids: "holds_inv cfg s" "requests_inv cfg s" "registry_inv s" "inj (token_hex cfg)"
    and chain: "chain_ok cfg (audit t)"
    using inv t(7) by (simp_all add: retention_inv_def)
  have "dict_get (holds s) (hold_id h) = None"
    using ids(1) not_drawn_next [OF ids(4), of s "''legal-hold''"]
    by (cases "dict_get (holds s) (hold_id h)") (auto simp: holds_inv_def h(1))
  note act = active_holds_add [OF this h(6,4), unfolded h(2,3)]
  have drawn: "drawn cfg s p x \<Longrightarrow> drawn cfg t p x" for p x
    by (erule drawn_mono) (simp add: t(3))
  have "drawn cfg t ''legal-hold'' (hold_id h)"
    by (auto simp: drawn_def t(3) h(1))
  then have hold_ids: "dict_ok (holds t) \<and> (\<forall>i g. dict_get (holds t) i = Some g \<longrightarrow>
      hold_id g = i \<and> 1 \<le> hold_version g \<and> drawn cfg t ''legal-hold'' i)"
    using ids(1) drawn by (simp add: holds_inv_def h(5,6))
  have key: "dict_get (source_requests s) ?k = Some i"
    if "dict_get (requests s) i = Some q" "request_key q = ?k" for i q
    by (rule registry_unique [OF ids(3) that])
  show ?thesis
  proof (cases request)
    case None
    then have same: "requests t = requests s" and "dict_get (source_requests s) ?k = None"
      using t(8) request by (auto split: option.splits)
    then have other: "request_key q \<noteq> ?k" if "dict_get (requests s) i = Some q" for i q
      using key [OF that] by auto
    have "requests_inv cfg t" "registry_inv t" "holds_inv cfg t"
      using ids drawn hold_ids other
      by (simp_all add: requests_inv_def registry_inv_def holds_inv_def same t(4-6) act)
    then show ?thesis
      using chain ids(4) by (simp add: retention_inv_def)
  next
    case (Some r)
    then obtain rid where src: "dict_get (source_requests s) ?k = Some rid"
        and find: "find_request s c rid = Inr r"
      using request by (auto split: option.splits)
    note r = find_request_InrD [OF find, THEN conjunct1]
    define r' where "r' = r\<lparr>req_state := BlockedByHold, req_version := req_version r + 1\<rparr>"
    have ok: "request_ok (attempts s) rid r" and "request_id r = rid"
      using request_okD [OF inv r] by simp_all
    then have same: "requests t = dict_set rid r' (requests s)"
      using t(8) by (simp add: Some r'_def)
    have key_r: "request_key r = ?k"
      using ids(3) src r unfolding registry_inv_def by fastforce
    have "request_ok (attempts s) rid r'"
      using ok by (simp add: request_ok_def r'_def)
    then have "requests_inv cfg t"
      using ids(2) drawn r unfolding requests_inv_def by (simp add: same t(6))
    moreover have "registry_inv t"
      by (rule registry_update [OF ids(3) r same t(4,5)]) (simp_all add: r'_def)
    moreover have "request_key r' = request_key r" "req_state r' = BlockedByHold"
      by (simp_all add: request_key_def r'_def)
    then have "holds_inv cfg t"
      using ids(1) hold_ids key key_r src unfolding holds_inv_def
      by (auto simp: act same)
    ultimately show ?thesis
      using chain ids(4) by (simp add: retention_inv_def)
  qed
qed

lemma inv_apply_hold:
  assumes "retention_inv cfg s" and "apply_legal_hold cfg c source m k v s = (res, t)"
  shows "retention_inv cfg t"
  using apply_hold_effect [OF assms(2)]
proof (elim disjE exE conjE)
  fix request fp
  assume req: "case dict_get (source_requests s) (tenant_id c, workspace_id c, source) of
         None \<Rightarrow> request = None \<and> m = MatchInt 1
       | Some rid \<Rightarrow> \<exists>r. find_request s c rid = Inr r \<and> request = Some r
           \<and> m = MatchInt (req_version r)"
    and run: "place_hold cfg c source request (actor_id c, ''hold'', k) fp s = (res, t)"
  show ?thesis
    by (rule inv_place_hold [OF assms(1) _ run]) (use req in \<open>auto split: option.splits\<close>)
qed (simp add: assms(1))

text \<open>Releasing a hold only removes it from the active ones.\<close>

lemma active_holds_release:
  assumes "dict_ok (holds s)" and "dict_get (holds s) hid = Some h"
    and "holds t = dict_set hid h' (holds s)" and "hold_state h' = Released"
  shows "active_holds t q \<noteq> [] \<Longrightarrow> active_holds s q \<noteq> []"
    and "request_key q \<noteq> (tenant_id (hold_context h), workspace_id (hold_context h), hold_source_id h)
      \<Longrightarrow> active_holds t q \<noteq> [] \<longleftrightarrow> active_holds s q \<noteq> []"
proof -
  have "\<not> hold_covers x y h'" for x y
    using assms(4) by (simp add: hold_covers_def)
  then have t: "active_holds t q \<noteq> [] \<longleftrightarrow> (\<exists>i g. i \<noteq> hid \<and> dict_get (holds s) i = Some g
      \<and> hold_covers (req_context q) (req_source_id q) g)"
    using held_iff [of t q] assms(1,3) by (auto split: if_splits)
  show "active_holds t q \<noteq> [] \<Longrightarrow> active_holds s q \<noteq> []"
    using t held_iff [OF assms(1), of q] by blast
  show "active_holds t q \<noteq> [] \<longleftrightarrow> active_holds s q \<noteq> []"
    if "request_key q \<noteq> (tenant_id (hold_context h), workspace_id (hold_context h), hold_source_id h)"
    using t held_iff [OF assms(1), of q] covers_key [of q h] that assms(2) by (metis option.inject)
qed

lemma reopen_request_state:
  assumes "reopen_request cfg r s = (r', t)"
  shows "r' = r \<and> t = s \<and> active_holds s r \<noteq> []
    \<or> active_holds s r = [] \<and> req_state r' \<in> {GracePeriod, CleanupPending}
      \<and> r' = r\<lparr>req_state := req_state r', req_version := req_version r + 1\<rparr>
      \<and> (req_state r' = GracePeriod \<longleftrightarrow> clock cfg (clock_reads s) < grace_until r)
      \<and> t = put_request (request_id r) r' (s\<lparr>clock_reads := Suc (clock_reads s)\<rparr>)"
  using assms by (auto simp: reopen_request_def read_clock_def Let_def split: if_splits)

text \<open>The invariant after a release, given what became of the request on the source.\<close>

lemma inv_released:
  assumes inv: "retention_inv cfg s" and h: "dict_get (holds s) hid = Some h"
    and t: "holds t = dict_set hid h' (holds s)" "source_requests t = source_requests s"
      "source_scopes t = source_scopes s" "tokens_drawn t = tokens_drawn s" "attempts t = attempts s"
    and h': "hold_state h' = Released" "hold_id h' = hold_id h" "1 \<le> hold_version h'"
    and chain: "chain_ok cfg (audit t)"
    and reqs: "requests_inv cfg t" "registry_inv t"
    and other: "\<And>rid q. dict_get (requests t) rid = Some q
        \<Longrightarrow> request_key q \<noteq> (tenant_id (hold_context h), workspace_id (hold_context h), hold_source_id h)
        \<Longrightarrow> dict_get (requests s) rid = Some q"
    and own: "\<And>rid q. dict_get (requests t) rid = Some q
        \<Longrightarrow> request_key q = (tenant_id (hold_context h), workspace_id (hold_context h), hold_source_id h)
        \<Longrightarrow> (active_holds t q \<noteq> [] \<and> dict_get (requests s) rid = Some q)
          \<or> (active_holds t q = [] \<and> req_state q \<noteq> BlockedByHold)"
  shows "retention_inv cfg t"
proof -
  have ids: "holds_inv cfg s" "inj (token_hex cfg)"
    using inv by (simp_all add: retention_inv_def)
  then have ok: "dict_ok (holds s)" by (simp add: holds_inv_def)
  have hold_ids: "dict_ok (holds t) \<and> (\<forall>i g. dict_get (holds t) i = Some g \<longrightarrow>
      hold_id g = i \<and> 1 \<le> hold_version g \<and> drawn cfg t ''legal-hold'' i)"
    using ids(1) h h' by (simp add: holds_inv_def t(1) drawn_cong [OF t(4)])
  have state: "(active_holds t q \<noteq> [] \<longrightarrow> req_state q \<in> {BlockedByHold, Cancelled})
        \<and> (req_state q = BlockedByHold \<longrightarrow> active_holds t q \<noteq> [])"
    if q: "dict_get (requests t) rid = Some q" for rid q
  proof (cases "request_key q =
      (tenant_id (hold_context h), workspace_id (hold_context h), hold_source_id h)")
    case True
    then show ?thesis
      using own [OF q] request_okD(4) [OF inv] active_holds_release(1) [OF ok h t(1) h'(1)]
      by blast
  next
    case False
    then show ?thesis
      using request_okD(4,5) [OF inv other [OF q False]]
        active_holds_release(2) [OF ok h t(1) h'(1) False] by blast
  qed
  then show ?thesis
    using ids(2) chain reqs hold_ids by (simp add: retention_inv_def holds_inv_def)
qed

lemma find_request_by_source:
  assumes "retention_inv cfg s"
    and "dict_get (source_requests s) (tenant_id c, workspace_id c, source) = Some rid"
  obtains r where "dict_get (requests s) rid = Some r"
    and "request_key r = (tenant_id c, workspace_id c, source)" and "find_request s c rid = Inr r"
proof -
  obtain r where "dict_get (requests s) rid = Some r"
    and "request_key r = (tenant_id c, workspace_id c, source)"
    using assms unfolding retention_inv_def registry_inv_def by blast
  then show thesis
    using that by (simp add: find_request_def request_key_def)
qed

lemma inv_release:
  assumes "retention_inv cfg s" and "release_legal_hold cfg c hid m k v s = (res, t)"
  shows "retention_inv cfg t"
  using release_effect [OF assms(2)]
proof (elim disjE exE conjE)
  fix h h' :: legal_hold and s1 fp
  let ?k = "(tenant_id c, workspace_id c, hold_source_id h)"
  assume find: "find_hold s c hid = Inr h"
    and h': "h' = h\<lparr>hold_state := Released, hold_version := hold_version h + 1\<rparr>"
    and s1: "s1 = put_hold hid h' s"
    and t: "case dict_get (source_requests s) ?k of
         None \<Rightarrow> t = remember (actor_id c, ''release'', k) fp (hold_id h) s1 \<and> res = Inr (hold_view h')
       | Some rid \<Rightarrow> (case find_request s c rid of
           Inl e \<Rightarrow> res = Inl e \<and> t = s1
         | Inr r \<Rightarrow> (case reopen_request cfg r s1 of (r', s2) \<Rightarrow>
             res = Inr (hold_view h') \<and>
             t = audit_event cfg r' ''legal_hold.released''
               (remember (actor_id c, ''release'', k) fp (hold_id h) s2)))"
  note h = find_hold_InrD [OF find]
  have key_h: "(tenant_id (hold_context h), workspace_id (hold_context h), hold_source_id h) = ?k"
    using h by simp
  have ids: "requests_inv cfg s" "registry_inv s" "holds_inv cfg s" "chain_ok cfg (audit s)"
    using assms(1) by (simp_all add: retention_inv_def)
  then have "1 \<le> hold_version h"
    using h unfolding holds_inv_def by blast
  then have ver: "hold_state h' = Released" "hold_id h' = hold_id h" "1 \<le> hold_version h'"
    by (simp_all add: h')
  show ?thesis
  proof (cases "dict_get (source_requests s) ?k")
    case None
    then have t: "t = remember (actor_id c, ''release'', k) fp (hold_id h) s1"
      using t by simp
    have "requests_inv cfg t" "registry_inv t" "chain_ok cfg (audit t)"
      using ids(1,2,4) unfolding requests_inv_def registry_inv_def
      by (simp_all add: t s1 drawn_def)
    moreover have "request_key q \<noteq> ?k" if "dict_get (requests s) i = Some q" for i q
      using registry_unique [OF ids(2) that] None by auto
    ultimately show ?thesis
      using ver by (intro inv_released [OF assms(1) h [THEN conjunct1], where h' = h'])
        (simp_all add: t s1 key_h)
  next
    case (Some rid)
    then obtain r where r: "dict_get (requests s) rid = Some r" and key: "request_key r = ?k"
        and "find_request s c rid = Inr r"
      using find_request_by_source [OF assms(1)] by blast
    then obtain r' s2 where re: "reopen_request cfg r s1 = (r', s2)"
        and t: "t = audit_event cfg r' ''legal_hold.released''
               (remember (actor_id c, ''release'', k) fp (hold_id h) s2)"
      using t Some by (auto split: prod.splits)
    have ok: "request_ok (attempts s) rid r" and id: "request_id r = rid"
      using request_okD [OF assms(1) r] by simp_all
    have uniq: "i = rid" if "dict_get (requests s) i = Some q" "request_key q = ?k" for i q
      using registry_unique [OF ids(2) that] Some by simp
    consider (held) "r' = r" "s2 = s1" "active_holds s1 r \<noteq> []"
      | (free) st where "active_holds s1 r = []" "st \<in> {GracePeriod, CleanupPending}"
        "r' = r\<lparr>req_state := st, req_version := req_version r + 1\<rparr>"
        "s2 = put_request rid r' (s1\<lparr>clock_reads := Suc (clock_reads s1)\<rparr>)"
      using reopen_request_state [OF re] id by blast
    then show ?thesis
    proof cases
      case held
      have "requests_inv cfg t" "registry_inv t" "chain_ok cfg (audit t)"
        using ids(1,2,4) unfolding requests_inv_def registry_inv_def
        by (simp_all add: t s1 held drawn_def)
      moreover have "active_holds t r = active_holds s1 r"
        by (simp add: active_holds_def t held)
      ultimately show ?thesis
        using ver r uniq held(3)
        by (intro inv_released [OF assms(1) h [THEN conjunct1], where h' = h'])
          (auto simp: t s1 held key_h)
    next
      case free
      have same: "req_context r' = req_context r" "req_source_id r' = req_source_id r"
        "request_ok (attempts s) rid r'"
        using ok free(2) by (auto simp: free(3) request_ok_def)
      have reqs: "requests t = dict_set rid r' (requests s)" "source_requests t = source_requests s"
          "source_scopes t = source_scopes s" "attempts t = attempts s"
        and tok: "tokens_drawn t = tokens_drawn s" and hol: "holds t = dict_set hid h' (holds s)"
        by (simp_all add: t free(4) s1)
      have "requests_inv cfg t"
        using ids(1) r same(3) tok unfolding requests_inv_def
        by (simp add: reqs drawn_cong [OF tok])
      moreover have "registry_inv t"
        by (rule registry_update [OF ids(2) r reqs(1-3) same(1,2)])
      moreover have "chain_ok cfg (audit t)"
        using ids(4) by (simp add: t free(4) s1)
      moreover have key': "request_key r' = ?k" and act': "active_holds t r' = []"
        using free(1) key by (simp_all add: request_key_def same active_holds_def t free(4) s1)
      moreover have "dict_get (requests s) i = Some q"
        if "dict_get (requests t) i = Some q" "request_key q \<noteq> ?k" for i q
        using that key' by (auto simp: reqs split: if_splits)
      moreover have "active_holds t q = [] \<and> req_state q \<noteq> BlockedByHold"
        if "dict_get (requests t) i = Some q" "request_key q = ?k" for i q
        using that uniq act' free(2,3) by (cases "i = rid") (auto simp: reqs)
      ultimately show ?thesis
        by (intro inv_released [OF assms(1) h [THEN conjunct1], where h' = h'])
          (use ver in \<open>simp_all only: reqs key_h tok hol simp_thms\<close>)
    qed
  qed
qed (simp add: assms(1))

lemma item_grounded_new: "item_grounded log rid (new_item d)"
  by (auto simp: item_grounded_def new_item_def absence_or_acknowledgement_def)

definition new_request ::
  "retention_service \<Rightarrow> retention_context \<Rightarrow> string \<Rightarrow> (string, derivative_input) dict
    \<Rightarrow> retention_state \<Rightarrow> deletion_request" where
  "new_request cfg c source by_reference s =
    (let now = clock cfg (clock_reads s) in
     \<lparr>request_id = ''deletion'' @ ''-'' @ token_hex cfg (tokens_drawn s), req_context = c,
      req_source_id = source, requested_at = now, grace_until = now + grace_period cfg,
      inventory = map (\<lambda>(ref, d). (ref, new_item d)) by_reference,
      req_state = (if list_ex (hold_covers c source) (dict_values (holds s))
        then BlockedByHold else GracePeriod),
      req_version = 1, source_active = False, purge_started = False\<rparr>)"

lemma admit_request_state:
  assumes "admit_request cfg c source by_reference key fp s = (res, t)"
  shows "res = Inr (request_view (new_request cfg c source by_reference s))"
    and "requests t = dict_set (request_id (new_request cfg c source by_reference s))
      (new_request cfg c source by_reference s) (requests s)"
    and "source_requests t = dict_set (tenant_id c, workspace_id c, source)
      (request_id (new_request cfg c source by_reference s)) (source_requests s)"
    and "source_scopes t = source_scopes s" and "holds t = holds s" and "attempts t = attempts s"
    and "port t = port s" and "tokens_drawn t = Suc (tokens_drawn s)"
    and "chain_ok cfg (audit s) \<Longrightarrow> chain_ok cfg (audit t)"
  using assms
  by (auto simp: admit_request_def new_request_def read_clock_def fresh_id_def Let_def
      intro!: chain_ok_audit)

lemma inv_admit:
  assumes inv: "retention_inv cfg s"
    and scope: "dict_get (source_scopes s) (tenant_id c, source) = Some (workspace_id c)"
    and none: "dict_get (source_requests s) (tenant_id c, workspace_id c, source) = None"
    and ds: "distinct (map reference_id ds)" "set (map kind ds) = set derivative_kinds"
    and run: "admit_request cfg c source (map (\<lambda>d. (reference_id d, d)) ds) key fp s = (res, t)"
  shows "retention_inv cfg t"
proof -
  let ?k = "(tenant_id c, workspace_id c, source)"
  define r where "r = new_request cfg c source (map (\<lambda>d. (reference_id d, d)) ds) s"
  note t = admit_request_state [OF run, folded r_def]
  have ids: "requests_inv cfg s" "registry_inv s" "holds_inv cfg s" "inj (token_hex cfg)"
    using inv by (simp_all add: retention_inv_def)
  have r: "request_id r = ''deletion'' @ ''-'' @ token_hex cfg (tokens_drawn s)"
      "req_context r = c" "req_source_id r = source" "request_key r = ?k"
      "req_state r = (if active_holds s r \<noteq> [] then BlockedByHold else GracePeriod)"
    by (simp_all add: r_def new_request_def request_key_def active_holds_def list_ex_iff
        filter_empty_conv Let_def)
  have "request_ok (attempts s) (request_id r) r"
    using ds by (auto simp: request_ok_def r_def new_request_def comp_def item_grounded_new
        new_item_def [THEN arg_cong [of _ _ item_value]] Let_def)
  have drawn: "drawn cfg s p x \<Longrightarrow> drawn cfg t p x" for p x
    by (erule drawn_mono) (simp add: t(8))
  have "drawn cfg t ''deletion'' (request_id r)"
    by (auto simp: drawn_def t(8) r(1))
  then have "requests_inv cfg t"
    using ids(1) drawn \<open>request_ok (attempts s) (request_id r) r\<close>
    unfolding requests_inv_def by (simp add: t(2,6))
  moreover have new: "dict_get (requests s) (request_id r) = None"
    using ids(1) not_drawn_next [OF ids(4), of s "''deletion''"]
    by (cases "dict_get (requests s) (request_id r)") (auto simp: requests_inv_def r(1))
  have "registry_inv t"
    using ids(2) none new scope unfolding registry_inv_def
    by (simp add: t(2-4) r) (metis option.distinct(1) option.inject)
  moreover have "active_holds t q = active_holds s q" for q
    by (simp add: active_holds_def t(5))
  then have "holds_inv cfg t"
    using ids(3) drawn unfolding holds_inv_def by (simp add: t(2,5) r(5))
  ultimately show ?thesis
    using ids(4) t(9) inv by (simp add: retention_inv_def)
qed

lemma inv_create:
  assumes "retention_inv cfg s" and "create_request cfg c source items k m s = (res, t)"
  shows "retention_inv cfg t"
  using create_effect [OF assms(2)]
proof (elim disjE exE conjE)
  fix s1
  assume s1: "s1 = s\<lparr>source_scopes :=
        dict_set (tenant_id c, source) (workspace_id c) (source_scopes s)\<rparr>"
    and known: "dict_get (source_scopes s) (tenant_id c, source) \<in> {None, Some (workspace_id c)}"
  have inv1: "retention_inv cfg s1"
    by (intro inv_quiet [OF assms(1)])
      (use assms(1) known in \<open>auto simp: s1 retention_inv_def split: if_splits\<close>)
  {
    assume "t = s1"
    with inv1 show ?thesis by simp
  next
    fix ds fp
    assume "distinct (map reference_id ds)" "set (map kind ds) = set derivative_kinds"
      and "dict_get (source_requests s) (tenant_id c, workspace_id c, source) = None"
      and "admit_request cfg c source (map (\<lambda>d. (reference_id d, d)) ds)
            (actor_id c, ''request'', k) fp s1 = (res, t)"
    then show ?thesis
      by (intro inv_admit [OF inv1]) (simp_all add: s1)
  }
qed (simp add: assms(1))

lemma inv_step: "retention_step cfg sc s t \<Longrightarrow> retention_inv cfg s \<Longrightarrow> retention_inv cfg t"
  by (induction rule: retention_step.induct)
    (auto intro: inv_create inv_register inv_cancel inv_apply_hold inv_release inv_acknowledge
      inv_purge)

lemma inv_start: "retention_start cfg s \<Longrightarrow> retention_inv cfg s"
  by (auto simp: retention_start_def retention_inv_def empty_repository_def requests_inv_def
      registry_inv_def holds_inv_def chain_ok_def)

section \<open>What a step does to a request\<close>

definition item_change :: "cleanup_item \<Rightarrow> cleanup_item \<Rightarrow> bool" where
  "item_change i j \<longleftrightarrow> item_value j = item_value i \<and> item_attempts i \<le> item_attempts j
    \<and> (item_state i = Completed \<longrightarrow> item_state j = Completed)"

definition request_change :: "deletion_request \<Rightarrow> deletion_request \<Rightarrow> bool" where
  "request_change x y \<longleftrightarrow> request_id y = request_id x \<and> req_context y = req_context x
    \<and> req_source_id y = req_source_id x \<and> requested_at y = requested_at x
    \<and> grace_until y = grace_until x \<and> (purge_started x \<longrightarrow> purge_started y)
    \<and> map fst (inventory y) = map fst (inventory x)
    \<and> (\<forall>ref i. dict_get (inventory x) ref = Some i \<longrightarrow>
        (\<exists>j. dict_get (inventory y) ref = Some j \<and> item_change i j))
    \<and> (req_version y = req_version x + 1 \<or> y = x\<lparr>req_state := BlockedByHold\<rparr>)"

lemma item_change_refl [simp]: "item_change i i"
  by (simp add: item_change_def)

lemma item_change_cleaned [simp]: "item_change i (cleaned fails i)"
  by (simp add: item_change_def cleaned_def)

lemma dict_get_map_values: "dict_get (map (\<lambda>(k, v). (k, f v)) d) k = map_option f (dict_get d k)"
  by (induction d) auto

lemma dict_set_keys: "dict_get d k = Some v \<Longrightarrow> map fst (dict_set k v' d) = map fst d"
  by (induction d) (auto split: if_splits)

definition touches ::
  "retention_state \<Rightarrow> retention_context \<Rightarrow> retention_state \<Rightarrow> bool" where
  "touches s c t \<longleftrightarrow> requests t = requests s
    \<or> (\<exists>rid r r'. dict_get (requests s) rid = Some r
        \<and> context_scope (req_context r) = context_scope c
        \<and> requests t = dict_set rid r' (requests s) \<and> request_change r r')
    \<or> (\<exists>rid r'. dict_get (requests s) rid = None \<and> requests t = dict_set rid r' (requests s))"

lemma find_request_scope:
  "find_request s c rid = Inr r \<Longrightarrow> dict_get (requests s) rid = Some r
    \<and> context_scope (req_context r) = context_scope c"
  by (drule find_request_InrD) (simp add: context_scope_def)

lemma touches_change:
  "find_request s c rid = Inr r \<Longrightarrow> requests t = dict_set rid r' (requests s)
    \<Longrightarrow> request_change r r' \<Longrightarrow> touches s c t"
  using find_request_scope unfolding touches_def by blast

lemma touches_same: "requests t = requests s \<Longrightarrow> touches s c t"
  by (simp add: touches_def)

lemma cancel_touches: "cancel cfg c rid m k s = (res, t) \<Longrightarrow> touches s c t"
  by (drule cancel_effect)
    (auto simp: request_change_def intro: touches_same touches_change)

lemma request_change_item:
  assumes "dict_get (inventory r) ref = Some i" and "item_change i j"
  shows "request_change r (r\<lparr>inventory := dict_set ref j (inventory r),
    req_version := req_version r + 1\<rparr>)"
  using assms by (auto simp: request_change_def dict_set_keys)

lemma acknowledge_touches:
  assumes "acknowledge_local_copy cfg c rid ref ev m k s = (res, t)"
  shows "touches s c t"
  using acknowledge_effect [OF assms]
proof (elim disjE exE conjE)
  fix r fp item r'
  assume r: "find_request s c rid = Inr r" and item: "dict_get (inventory r) ref = Some item"
    and r': "r' = r\<lparr>inventory := dict_set ref
        (item\<lparr>item_state := Completed, item_evidence := Some ev\<rparr>) (inventory r),
        req_version := req_version r + 1\<rparr>"
    and t: "t = audit_event cfg r' ''local_copy.access_revoked''
          (remember (actor_id c, ''ack'', k) fp rid (put_request rid r' s))"
  show ?thesis
    by (rule touches_change [OF r, where r' = r'], simp add: t, unfold r',
        rule request_change_item [OF item]) (simp add: item_change_def)
qed (auto intro: touches_same)

lemma purge_touches:
  assumes "purge cfg c rid m k v s = (res, t)" and "retention_inv cfg s"
  shows "touches s c t"
  using purge_effect [OF assms(1)]
proof (elim disjE exE conjE)
  fix r fp
  assume r: "find_request s c rid = Inr r"
    and run: "run_purge cfg rid r (actor_id c, ''purge'', k) fp
            (s\<lparr>clock_reads := Suc (clock_reads s)\<rparr>) = (res, t)"
  define items where "items = map (\<lambda>(ref, i). (ref, cleaned (fail_references (port s)) i)) (inventory r)"
  obtain st where "requests t = dict_set rid (r\<lparr>inventory := items, purge_started := True,
      req_version := req_version r + 1, req_state := st\<rparr>) (requests s)"
    using run by (auto simp: run_purge_def cleanup_pass_eq items_def Let_def)
  moreover have "map fst items = map fst (inventory r)"
    by (auto simp: items_def)
  ultimately show ?thesis
    by (intro touches_change [OF r])
      (auto simp: request_change_def items_def dict_get_map_values)
qed (auto simp: request_change_def intro: touches_same touches_change)

lemma apply_hold_touches:
  assumes "apply_legal_hold cfg c source m k v s = (res, t)" and "retention_inv cfg s"
  shows "touches s c t"
  using apply_hold_effect [OF assms(1)]
proof (elim disjE exE conjE)
  fix request fp
  assume req: "case dict_get (source_requests s) (tenant_id c, workspace_id c, source) of
         None \<Rightarrow> request = None \<and> m = MatchInt 1
       | Some rid \<Rightarrow> \<exists>r. find_request s c rid = Inr r \<and> request = Some r
           \<and> m = MatchInt (req_version r)"
    and run: "place_hold cfg c source request (actor_id c, ''hold'', k) fp s = (res, t)"
  show ?thesis
  proof (cases request)
    case None
    then show ?thesis
      using place_hold_state(8) [OF run] by (simp add: touches_same)
  next
    case (Some r)
    then obtain rid where r: "find_request s c rid = Inr r"
      using req by (auto split: option.splits)
    then have "request_id r = rid"
      using request_okD(2) [OF assms(2)] find_request_InrD by blast
    then show ?thesis
      using place_hold_state(8) [OF run]
      by (intro touches_change [OF r]) (auto simp: Some request_change_def)
  qed
qed (simp add: touches_same)

lemma release_touches:
  assumes "release_legal_hold cfg c hid m k v s = (res, t)" and "retention_inv cfg s"
  shows "touches s c t"
  using release_effect [OF assms(1)]
proof (elim disjE exE conjE)
  fix h h' :: legal_hold and s1 fp
  assume s1: "s1 = put_hold hid h' s"
    and t: "case dict_get (source_requests s) (tenant_id c, workspace_id c, hold_source_id h) of
         None \<Rightarrow> t = remember (actor_id c, ''release'', k) fp (hold_id h) s1 \<and> res = Inr (hold_view h')
       | Some rid \<Rightarrow> (case find_request s c rid of
           Inl e \<Rightarrow> res = Inl e \<and> t = s1
         | Inr r \<Rightarrow> (case reopen_request cfg r s1 of (r', s2) \<Rightarrow>
             res = Inr (hold_view h') \<and>
             t = audit_event cfg r' ''legal_hold.released''
               (remember (actor_id c, ''release'', k) fp (hold_id h) s2)))"
  show ?thesis
  proof (cases "dict_get (source_requests s) (tenant_id c, workspace_id c, hold_source_id h)")
    case None
    then show ?thesis using t by (simp add: s1 touches_same)
  next
    case (Some rid)
    then obtain r where r: "find_request s c rid = Inr r" and rid: "dict_get (requests s) rid = Some r"
      using find_request_by_source [OF assms(2)] by blast
    obtain r' s2 where re: "reopen_request cfg r s1 = (r', s2)" by fastforce
    then have t: "requests t = requests s2"
      using t by (simp add: Some r)
    have id: "request_id r = rid"
      by (rule request_okD(2) [OF assms(2) rid])
    show ?thesis
      using reopen_request_state [OF re]
    proof (elim disjE conjE)
      assume "s2 = s1"
      then show ?thesis by (simp add: t s1 touches_same)
    next
      assume r': "r' = r\<lparr>req_state := req_state r', req_version := req_version r + 1\<rparr>"
        and s2: "s2 = put_request (request_id r) r' (s1\<lparr>clock_reads := Suc (clock_reads s1)\<rparr>)"
      have "request_change r r'"
        unfolding request_change_def by (subst (1 2 3 4 5 6 7 8 9) r') simp
      then show ?thesis
        by (intro touches_change [OF r]) (simp_all add: t s2 s1 id)
    qed
  qed
qed (simp add: touches_same)

lemma create_touches:
  assumes "create_request cfg c source items k m s = (res, t)" and "retention_inv cfg s"
  shows "touches s c t"
  using create_effect [OF assms(1)]
proof (elim disjE exE conjE)
  fix s1 ds fp
  assume s1: "s1 = s\<lparr>source_scopes :=
        dict_set (tenant_id c, source) (workspace_id c) (source_scopes s)\<rparr>"
    and run: "admit_request cfg c source (map (\<lambda>d. (reference_id d, d)) ds)
            (actor_id c, ''request'', k) fp s1 = (res, t)"
  define r where "r = new_request cfg c source (map (\<lambda>d. (reference_id d, d)) ds) s1"
  have id: "request_id r = ''deletion'' @ ''-'' @ token_hex cfg (tokens_drawn s)"
    by (simp add: r_def new_request_def s1 Let_def)
  have "dict_get (requests s) (request_id r) = None"
    using assms(2) not_drawn_next [of cfg s "''deletion''"]
    by (cases "dict_get (requests s) (request_id r)")
      (auto simp: retention_inv_def requests_inv_def id)
  moreover have "requests t = dict_set (request_id r) r (requests s)"
    using admit_request_state(2) [OF run] by (simp add: r_def s1)
  ultimately show ?thesis
    unfolding touches_def by blast
qed (simp_all add: touches_same)

lemma register_touches: "register_source c source s = (res, t) \<Longrightarrow> touches s c t"
  by (drule register_effect) (auto intro: touches_same)

lemma step_touches:
  "retention_step cfg sc s t \<Longrightarrow> retention_inv cfg s \<Longrightarrow> \<exists>c. sc = context_scope c \<and> touches s c t"
  by (induction rule: retention_step.induct)
    (blast intro: create_touches register_touches cancel_touches apply_hold_touches
      release_touches acknowledge_touches purge_touches)+

text \<open>
  A step leaves a stored request as it is, or changes it within the bounds of
  \<^const>\<open>request_change\<close>; and then the request is in the scope of the step.
\<close>

lemma step_request:
  assumes "retention_step cfg sc s t" and "retention_inv cfg s"
    and "dict_get (requests s) i = Some x"
  shows "dict_get (requests t) i = Some x
    \<or> (context_scope (req_context x) = sc
      \<and> (\<exists>y. dict_get (requests t) i = Some y \<and> request_change x y))"
proof -
  obtain c where c: "sc = context_scope c" and "touches s c t"
    using step_touches [OF assms(1,2)] by blast
  then consider "requests t = requests s"
    | rid r r' where "dict_get (requests s) rid = Some r" "context_scope (req_context r) = sc"
        "requests t = dict_set rid r' (requests s)" "request_change r r'"
    | rid r' where "dict_get (requests s) rid = None" "requests t = dict_set rid r' (requests s)"
    unfolding touches_def by blast
  then show ?thesis
    using assms(3) by cases auto
qed

lemma request_change_version: "request_change x y \<Longrightarrow> req_version x \<le> req_version y"
  by (auto simp: request_change_def)

interpretation retention: versioned_service "retention_start cfg" "retention_step cfg"
  "retention_inv cfg" "\<lambda>s. dict_get (requests s)" "\<lambda>r. context_scope (req_context r)" req_version
  for cfg
proof unfold_locales
  fix s t sc i x y
  show "retention_start cfg s \<Longrightarrow> retention_inv cfg s"
    by (rule inv_start)
  assume inv: "retention_inv cfg s" and step: "retention_step cfg sc s t"
  show "retention_inv cfg t"
    by (rule inv_step [OF step inv])
  assume x: "dict_get (requests s) i = Some x"
  note cases = step_request [OF step inv x]
  show "context_scope (req_context x) \<noteq> sc \<Longrightarrow> dict_get (requests t) i = Some x"
    using cases by blast
  show "\<exists>y. dict_get (requests t) i = Some y
      \<and> context_scope (req_context y) = context_scope (req_context x)"
    using cases by (auto simp: request_change_def)
  show "dict_get (requests t) i = Some y \<Longrightarrow> req_version x \<le> req_version y"
    using cases request_change_version by auto
qed

lemma step_scopes:
  assumes "retention_step cfg sc s t" and "dict_get (source_scopes s) key = Some w"
  shows "dict_get (source_scopes t) key = Some w"
  using assms
proof (induction rule: retention_step.induct)
  case (step_create c source items k m s res t)
  then show ?case
    by (auto dest!: create_effect admit_request_state(4) split: if_splits)
next
  case (step_hold c source m k v s res t)
  then show ?case by (auto dest!: apply_hold_effect place_hold_state(5))
next
  case (step_release c hid m k v s res t)
  then show ?case
    by (auto dest!: release_effect reopen_request_state split: option.splits sum.splits prod.splits)
next
  case (step_purge c rid m k v s res t)
  then show ?case
    by (auto dest!: purge_effect simp: run_purge_def Let_def split: prod.splits)
qed (auto dest!: register_effect cancel_effect acknowledge_effect)

lemma runs_scopes:
  "runs (retention_step cfg) s cs t \<Longrightarrow> dict_get (source_scopes s) key = Some w
    \<Longrightarrow> dict_get (source_scopes t) key = Some w"
  by (induction rule: runs.induct) (auto intro: step_scopes)

section \<open>The idempotency ledger\<close>

interpretation ledger: replay_ledger replay_lookup "\<lambda>l k f v. dict_set k (f, v) l"
  "retention_error ''IDEMPOTENCY_KEY_REUSED'' 409"
  by unfold_locales (simp_all add: replay_lookup_def)

text \<open>An entry of the ledger is never overwritten.\<close>

lemma audit_event_idem [simp]: "idempotency (audit_event cfg r a s) = idempotency s"
  by (simp add: audit_event_eq)

lemma reopen_idempotency: "reopen_request cfg r s = (r', t) \<Longrightarrow> idempotency t = idempotency s"
  by (auto simp: reopen_request_def read_clock_def Let_def split: if_splits)

lemma step_ledger:
  assumes "retention_step cfg sc s t" and "dict_get (idempotency s) key = Some v"
  shows "dict_get (idempotency t) key = Some v"
  using assms
proof (induction rule: retention_step.induct)
  case (step_create c source items k m s res t)
  then show ?case
    by (auto dest!: create_effect simp: admit_request_def read_clock_def fresh_id_def Let_def)
next
  case (step_register c source s res t)
  then show ?case by (auto dest!: register_effect)
next
  case (step_cancel c rid m k s res t)
  then show ?case by (auto dest!: cancel_effect)
next
  case (step_hold c source m k v s res t)
  then show ?case
    by (auto dest!: apply_hold_effect simp: place_hold_def fresh_id_def Let_def split: option.splits)
next
  case (step_release c hid m k v s res t)
  then show ?case
    by (auto dest!: release_effect reopen_idempotency split: option.splits sum.splits prod.splits)
next
  case (step_acknowledge c rid ref ev m k s res t)
  then show ?case by (auto dest!: acknowledge_effect)
next
  case (step_purge c rid m k v s res t)
  then show ?case
    by (auto dest!: purge_effect simp: run_purge_def Let_def split: prod.splits)
qed

lemma runs_ledger:
  "runs (retention_step cfg) s cs t \<Longrightarrow> dict_get (idempotency s) key = Some v
    \<Longrightarrow> dict_get (idempotency t) key = Some v"
  by (induction rule: runs.induct) (auto intro: step_ledger)

end
