(* ===== verification/Retention_Properties.thy ===== *)
theory Retention_Properties
  imports Retention_Invariant
begin

text \<open>
  The properties of the retention service. The theorems over reachable states start from an empty
  repository and an identifier source that does not repeat itself, and follow any sequence of
  calls in any interleaving of tenants; the others are about one call in an arbitrary state. The
  witnesses run the service on a small scenario, defined first.
\<close>

section \<open>A scenario\<close>

definition demo_service :: retention_service where
  "demo_service = \<lparr>clock = (\<lambda>n. if n < 5 then 0 else 100), token_hex = dec_nat,
     isoformat = (\<lambda>_. ''now''), sha256_hex = (\<lambda>_. ''hash''), grace_period = 30, fixture_prefix = ''fx-'',
     inventory_provider = None\<rparr>"

definition demo_context :: retention_context where
  "demo_context = \<lparr>tenant_id = ''t1'', workspace_id = ''w1'', actor_id = ''amy'',
     trace_id = ''tr'', policy_version = ''p1'', organization_admin = True\<rparr>"

definition demo_admin :: retention_context where
  "demo_admin = demo_context\<lparr>actor_id := ''bob''\<rparr>"

definition demo_inventory :: "derivative_input list" where
  "demo_inventory = map (\<lambda>k. \<lparr>kind = k, reference_id = ''fx-'' @ k,
     acknowledgement_required = (k = ''known_local_copy''),
     disposition = (if k = ''known_local_copy'' then ''not_present'' else ''present'')\<rparr>)
     derivative_kinds"

definition demo_created :: retention_state where
  "demo_created = snd (create_request demo_service demo_context ''src'' (Some demo_inventory) ''k1''
     (MatchText ''*'') (empty_repository \<lparr>fail_references = [], attempt_count = 0,
       attempts_by_reference = []\<rparr>))"

definition demo_cancelled :: retention_state where
  "demo_cancelled = snd (cancel demo_service demo_context ''deletion-0'' (MatchInt 1) ''k2'' demo_created)"

definition demo_purged :: retention_state where
  "demo_purged = snd (purge demo_service demo_admin ''deletion-0'' (MatchInt 2) ''k3'' True demo_cancelled)"

lemma demo_scope [simp]: "context_scope demo_context = (''t1'', ''w1'')"
  "context_scope demo_admin = (''t1'', ''w1'')"
  by (simp_all add: context_scope_def demo_context_def demo_admin_def)

lemma demo_start: "retention_start demo_service (empty_repository p)"
  by (auto simp: retention_start_def demo_service_def dec_nat_inject intro!: injI)

lemma demo_step_create: "retention_step demo_service (''t1'', ''w1'')
  (empty_repository \<lparr>fail_references = [], attempt_count = 0, attempts_by_reference = []\<rparr>)
  demo_created"
  using step_create [of demo_service demo_context] surjective_pairing demo_scope
  unfolding demo_created_def by metis

lemma demo_step_cancel: "retention_step demo_service (''t1'', ''w1'') demo_created demo_cancelled"
  using step_cancel [of demo_service demo_context] surjective_pairing demo_scope
  unfolding demo_cancelled_def by metis

lemma demo_step_purge: "retention_step demo_service (''t1'', ''w1'') demo_cancelled demo_purged"
  using step_purge [of demo_service demo_admin] surjective_pairing demo_scope
  unfolding demo_purged_def by metis

lemma demo_reachable:
  "reachable (retention_start demo_service) (retention_step demo_service) demo_created"
  "reachable (retention_start demo_service) (retention_step demo_service) demo_cancelled"
  "reachable (retention_start demo_service) (retention_step demo_service) demo_purged"
  by (rule reachable_start reachable_step demo_start demo_step_create demo_step_cancel
      demo_step_purge)+

lemma demo_fingerprint [simp]: "fingerprint (sha256_hex demo_service) v = ''hash''"
  by (simp add: fingerprint_def demo_service_def)

lemma demo_safe [simp]: "safe ''k1'' = Inr ''k1''" "safe ''k2'' = Inr ''k2''" "safe ''k3'' = Inr ''k3''"
  "safe ''src'' = Inr ''src''"
  by code_simp+

lemma demo_event_digest [simp]: "event_digest demo_service e = ''hash''"
  by (simp add: event_digest_def)

lemmas demo_data = demo_service_def demo_context_def demo_admin_def demo_inventory_def
  derivative_kinds_def

lemma demo_inventory_distinct [simp]: "length (dict_by reference_id demo_inventory) = 6"
    "length demo_inventory = 6" "demo_inventory \<noteq> []"
  by code_simp+

lemma demo_inventory_kinds [simp]: "kind ` set demo_inventory = set derivative_kinds"
  by (simp add: demo_inventory_def image_image)

definition demo_request :: deletion_request where
  "demo_request = \<lparr>request_id = ''deletion-0'', req_context = demo_context, req_source_id = ''src'',
     requested_at = 0, grace_until = 30,
     inventory = map (\<lambda>d. (reference_id d, new_item d)) demo_inventory, req_state = GracePeriod,
     req_version = 1, source_active = False, purge_started = False\<rparr>"

lemma demo_refs_distinct: "distinct (map reference_id demo_inventory)"
  by code_simp

lemma demo_config [simp]:
  "clock demo_service 0 = 0" "clock demo_service 5 = 100" "grace_period demo_service = 30"
  "fixture_prefix demo_service = ''fx-''" "token_hex demo_service 0 = ''0''"
  "actor_id demo_context = ''amy''" "actor_id demo_admin = ''bob''"
  "tenant_id demo_context = ''t1''" "tenant_id demo_admin = ''t1''"
  "workspace_id demo_context = ''w1''" "workspace_id demo_admin = ''w1''"
  "organization_admin demo_admin" "organization_admin demo_context"
  by (simp_all add: demo_data) code_simp

lemma demo_new_request:
  "map (\<lambda>(ref, d). (ref, new_item d)) (dict_by reference_id demo_inventory)
    = map (\<lambda>d. (reference_id d, new_item d)) demo_inventory"
  by (simp add: dict_by_distinct demo_refs_distinct)

lemma demo_created_state:
  "requests demo_created = [(''deletion-0'', demo_request)]" "holds demo_created = []"
  "idempotency demo_created = [((''amy'', ''request'', ''k1''), (''hash'', ''deletion-0''))]"
  "attempts demo_created = []" "clock_reads demo_created = 4"
  "port demo_created = \<lparr>fail_references = [], attempt_count = 0, attempts_by_reference = []\<rparr>"
  by (simp_all add: demo_created_def create_request_def write_checked_def create_fingerprint_def
      empty_repository_def replay_lookup_def admit_request_def read_clock_def fresh_id_def Let_def
      demo_new_request demo_request_def)

lemma demo_cancelled_state:
  "requests demo_cancelled = [(''deletion-0'', demo_request\<lparr>req_state := Cancelled,
     source_active := True, req_version := 2\<rparr>)]"
  "holds demo_cancelled = []" "attempts demo_cancelled = []" "clock_reads demo_cancelled = 5"
  "idempotency demo_cancelled = [((''amy'', ''request'', ''k1''), (''hash'', ''deletion-0'')),
     ((''amy'', ''cancel'', ''k2''), (''hash'', ''deletion-0''))]"
  "port demo_cancelled = \<lparr>fail_references = [], attempt_count = 0, attempts_by_reference = []\<rparr>"
  by (simp_all add: demo_cancelled_def cancel_def write_checked_def find_request_def
      demo_created_state replay_lookup_def version_is_def demo_request_def Let_def)

lemma demo_items:
  "list_all (\<lambda>i. starts_with ''fx-'' (reference_id (item_value i))) (map new_item demo_inventory)"
  "list_all (\<lambda>i. item_state (cleaned [] i) = Completed) (map new_item demo_inventory)"
  by code_simp+

definition demo_purged_request :: deletion_request where
  "demo_purged_request = demo_request\<lparr>
     inventory := map (\<lambda>d. (reference_id d, cleaned [] (new_item d))) demo_inventory,
     req_state := Purged, source_active := True, req_version := 3, purge_started := True\<rparr>"

lemma demo_purge:
  "purge demo_service demo_admin ''deletion-0'' (MatchInt 2) ''k3'' True demo_cancelled
    = run_purge demo_service ''deletion-0'' (demo_request\<lparr>req_state := Cancelled,
     source_active := True, req_version := 2\<rparr>) (''bob'', ''purge'', ''k3'') ''hash''
     (demo_cancelled\<lparr>clock_reads := 6\<rparr>)"
  using demo_items(1)
  by (simp add: purge_def write_checked_def require_sensitive_def find_request_def
      demo_cancelled_state replay_lookup_def version_is_def demo_request_def Let_def
      active_holds_def read_clock_def list_ex_iff list_all_iff)

lemma demo_purged_state:
  "requests demo_purged = [(''deletion-0'', demo_purged_request)]"
  using demo_items(2)
  by (simp add: demo_purged_def demo_purge run_purge_def cleanup_pass_eq Let_def
      demo_cancelled_state demo_request_def demo_purged_request_def list_all_iff comp_def)

section \<open>Deletion\<close>

lemma purge_changes:
  assumes "purge cfg c rid m k v s = (res, t)" and "attempts t \<noteq> attempts s \<or> port t \<noteq> port s"
  obtains r fp where "write_checked k m = Inr ()" and "organization_admin c" and "v" and "find_request s c rid = Inr r"
    and "m = MatchInt (req_version r)" and "active_holds s r = []" and "grace_until r \<le> clock cfg (clock_reads s)"
    and "list_all (\<lambda>i. starts_with (fixture_prefix cfg) (reference_id (item_value i))) (dict_values (inventory r))"
    and "run_purge cfg rid r (actor_id c, ''purge'', k) fp (s\<lparr>clock_reads := Suc (clock_reads s)\<rparr>) = (res, t)"
proof -
  have "write_checked k m = Inr ()"
    using assms by (auto simp: purge_def split: attempt_splits)
  then show thesis using purge_effect [OF assms(1)] assms(2) that by auto
qed

lemma only_purge_cleans:
  assumes "retention_step cfg sc s t" and "attempts t \<noteq> attempts s \<or> port t \<noteq> port s"
  shows "\<exists>c rid m k v res. sc = context_scope c \<and> purge cfg c rid m k v s = (res, t)"
  using assms
proof (induction rule: retention_step.induct)
  case (step_purge c rid m k v s res t)
  then show ?case by blast
next
  case (step_create c source items k m s res t)
  then show ?case
    by (auto dest!: create_effect dest: admit_request_state(6,7))
next
  case (step_hold c source m k v s res t)
  then show ?case
    by (auto dest!: apply_hold_effect dest: place_hold_state(6,9))
next
  case (step_release c hid m k v s res t)
  then show ?case
    by (auto dest!: release_effect reopen_request_state split: option.splits sum.splits prod.splits)
qed (auto dest!: register_effect cancel_effect acknowledge_effect)

text \<open>
  C1: only a purge touches the clean-up port and the log of attempts: whatever call changes one of
  them is a purge. And the purge that does is called by an organisation administrator whose step-up
  was verified, under a safe key; it names the current version of a request of the tenant and the
  workspace of the caller; no active legal hold of that tenant and workspace is on its source, its
  grace period is over, and every reference carries the fixture prefix. Then the log grows by one
  entry per due item, in inventory order, and the call answers the request.
\<close>

theorem cleanup_only_after_guards:
  assumes "purge cfg c rid m k v s = (res, t)" and "attempts t \<noteq> attempts s \<or> port t \<noteq> port s"
  shows "organization_admin c \<and> v \<and> safe_id k
    \<and> (\<exists>r. dict_get (requests s) rid = Some r \<and> m = MatchInt (req_version r)
        \<and> tenant_id (req_context r) = tenant_id c \<and> workspace_id (req_context r) = workspace_id c
        \<and> (\<nexists>j h. dict_get (holds s) j = Some h \<and> hold_state h = Active \<and> hold_source_id h = req_source_id r
            \<and> tenant_id (hold_context h) = tenant_id c \<and> workspace_id (hold_context h) = workspace_id c)
        \<and> grace_until r \<le> clock cfg (clock_reads s)
        \<and> list_all (\<lambda>i. starts_with (fixture_prefix cfg) (reference_id (item_value i))) (dict_values (inventory r))
        \<and> attempts t = attempts s @ map (\<lambda>i. log_entry (request_id r) (cleaned (fail_references (port s)) i))
            (filter due (dict_values (inventory r))))
    \<and> (\<exists>w. res = Inr w)
    \<and> (retention_step cfg sc s u \<and> (attempts u \<noteq> attempts s \<or> port u \<noteq> port s)
        \<longrightarrow> (\<exists>c rid m k v res. sc = context_scope c \<and> purge cfg c rid m k v s = (res, u)))"
proof -
  from assms obtain r fp where guards: "write_checked k m = Inr ()" "organization_admin c" "v" "find_request s c rid = Inr r"
    "m = MatchInt (req_version r)" "active_holds s r = []" "grace_until r \<le> clock cfg (clock_reads s)"
    "list_all (\<lambda>i. starts_with (fixture_prefix cfg) (reference_id (item_value i))) (dict_values (inventory r))"
    and run: "run_purge cfg rid r (actor_id c, ''purge'', k) fp (s\<lparr>clock_reads := Suc (clock_reads s)\<rparr>) = (res, t)"
    by (rule purge_changes)
  have "safe_id k" using guards(1) by (auto simp: write_checked_def safe_def split: if_splits)
  moreover have r: "dict_get (requests s) rid = Some r" "tenant_id (req_context r) = tenant_id c"
    "workspace_id (req_context r) = workspace_id c"
    using guards(4) by (auto simp: find_request_def split: option.splits if_splits)
  moreover have "\<nexists>j h. dict_get (holds s) j = Some h \<and> hold_state h = Active \<and> hold_source_id h = req_source_id r
      \<and> tenant_id (hold_context h) = tenant_id c \<and> workspace_id (hold_context h) = workspace_id c"
    using guards(6) r(2,3) by (force simp: active_holds_def hold_covers_def filter_empty_conv dest: map_of_SomeD)
  moreover have "attempts t = attempts s @ map (\<lambda>i. log_entry (request_id r) (cleaned (fail_references (port s)) i))
      (filter due (dict_values (inventory r))) \<and> (\<exists>w. res = Inr w)"
    using run by (auto simp: run_purge_def cleanup_pass_eq Let_def)
  ultimately show ?thesis using guards only_purge_cleans by blast
qed

theorem cleanup_only_after_guards_witness:
  "organization_admin demo_admin
    \<and> (\<exists>r. dict_get (requests demo_cancelled) ''deletion-0'' = Some r
      \<and> length (attempts demo_purged) = length (attempts demo_cancelled) + length (filter due (dict_values (inventory r))))"
proof -
  have run: "purge demo_service demo_admin ''deletion-0'' (MatchInt 2) ''k3'' True demo_cancelled
      = (fst (purge demo_service demo_admin ''deletion-0'' (MatchInt 2) ''k3'' True demo_cancelled), demo_purged)"
    by (simp add: demo_purged_def)
  have "attempts demo_purged \<noteq> attempts demo_cancelled"
    by (simp add: demo_purged_def demo_purge run_purge_def cleanup_pass_eq Let_def
        demo_cancelled_state demo_request_def demo_inventory_def derivative_kinds_def due_def
        new_item_def)
  then show ?thesis
    using cleanup_only_after_guards [OF run] by fastforce
qed

text \<open>
  C6: in every reachable state a purged request has an inventory of all six derivative kinds, each
  item is completed, and each completion has a ground: the derivative was absent, a device
  answered for the local copy, or the port completed it in a logged attempt. An item that needs an
  acknowledgement is never completed by the port.
\<close>

theorem purged_is_grounded:
  assumes "reachable (retention_start cfg) (retention_step cfg) s"
    and "dict_get (requests s) rid = Some r" and "req_state r = Purged"
  shows "(\<lambda>(ref, i). kind (item_value i)) ` set (inventory r) = set derivative_kinds
    \<and> (\<forall>(ref, i) \<in> set (inventory r). item_state i = Completed \<and>
        (item_evidence i \<in> Some ` set absence_or_acknowledgement
        \<or> (\<not> acknowledgement_required (item_value i)
          \<and> (rid, ref, kind (item_value i), item_attempts i, Completed) \<in> set (attempts s))))"
proof -
  have "request_ok (attempts s) rid r"
    by (rule request_okD(1) [OF retention.reachable_inv [OF assms(1)] assms(2)])
  then show ?thesis
    using assms(3) by (auto simp: request_ok_def item_grounded_def)
qed

theorem purged_is_grounded_witness:
  "(\<lambda>(ref, i). kind (item_value i)) ` set (inventory demo_purged_request) = set derivative_kinds
    \<and> list_all (\<lambda>(ref, i). item_state i = Completed) (inventory demo_purged_request)"
  using purged_is_grounded [OF demo_reachable(3), of "''deletion-0''" demo_purged_request]
    demo_purged_state
  by (simp add: list_all_iff) (fastforce simp: demo_purged_request_def)

text \<open>
  C29: in every reachable state a request whose source is under an active legal hold is blocked or
  cancelled, never in its grace period, in clean-up or purged; and a blocked request is under an
  active hold.
\<close>

theorem held_requests_blocked:
  assumes "reachable (retention_start cfg) (retention_step cfg) s"
    and "dict_get (requests s) rid = Some r"
  shows "(active_holds s r \<noteq> [] \<longrightarrow> req_state r = BlockedByHold \<or> req_state r = Cancelled)
    \<and> (req_state r = BlockedByHold \<longrightarrow> active_holds s r \<noteq> [])"
  using request_okD(4,5) [OF retention.reachable_inv [OF assms(1)] assms(2)] by blast

theorem held_requests_blocked_witness:
  "active_holds demo_purged demo_purged_request = []"
  using held_requests_blocked [OF demo_reachable(3), of "''deletion-0''" demo_purged_request]
  by (auto simp: demo_purged_state demo_purged_request_def)

text \<open>
  Whatever calls other tenants and workspaces make, in any order, a deletion request stays
  exactly as it is.
\<close>

theorem foreign_calls_leave_requests:
  assumes "reachable (retention_start cfg) (retention_step cfg) s"
    and "runs (retention_step cfg) s cs t"
    and "dict_get (requests s) rid = Some r" and "context_scope (req_context r) \<notin> set cs"
  shows "dict_get (requests t) rid = Some r"
  using retention.isolation [OF assms(2) _ assms(3,4)] retention.reachable_inv [OF assms(1)]
  by simp

definition demo_foreign :: retention_context where
  "demo_foreign = demo_context\<lparr>tenant_id := ''t2''\<rparr>"

theorem foreign_calls_leave_requests_witness:
  "dict_get (requests (snd (cancel demo_service demo_foreign ''deletion-0'' (MatchInt 1) ''k2''
     demo_created))) ''deletion-0'' = Some demo_request"
proof -
  have "retention_step demo_service (context_scope demo_foreign) demo_created
      (snd (cancel demo_service demo_foreign ''deletion-0'' (MatchInt 1) ''k2'' demo_created))"
    using step_cancel surjective_pairing by metis
  then have run: "runs (retention_step demo_service) demo_created [context_scope demo_foreign]
      (snd (cancel demo_service demo_foreign ''deletion-0'' (MatchInt 1) ''k2'' demo_created))"
    by (rule runs_more) (rule runs_none)
  show ?thesis
    by (rule foreign_calls_leave_requests [OF demo_reachable(1) run])
      (simp_all add: demo_created_state demo_request_def demo_foreign_def context_scope_def)
qed

section \<open>Repetition and concurrency\<close>

text \<open>
  A create call is idempotent: after it succeeded, and after any calls of anyone since, the
  same call by the same actor returns the same request and changes nothing.
\<close>

theorem create_is_idempotent:
  assumes reach: "reachable (retention_start cfg) (retention_step cfg) s"
    and create: "create_request cfg c source (Some ds) k (MatchText ''*'') s = (Inr v, t)"
    and run: "runs (retention_step cfg) t cs u"
  shows "\<exists>v'. create_request cfg c source (Some ds) k (MatchText ''*'') u = (Inr v', u)
    \<and> drv_request_id v' = drv_request_id v"
proof -
  let ?key = "(actor_id c, ''request'', k)" and ?fp = "create_fingerprint cfg source ds"
  let ?s1 = "s\<lparr>source_scopes := dict_set (tenant_id c, source) (workspace_id c) (source_scopes s)\<rparr>"
  have guards: "write_checked k (MatchText ''*'') = Inr ()" "safe source = Inr source" "ds \<noteq> []"
      "length (dict_by reference_id ds) = length ds" "set (map kind ds) = set derivative_kinds"
    using create by (auto simp: create_request_def Let_def safe_def split: attempt_splits if_splits)
  have step: "retention_step cfg (context_scope c) s t"
    by (rule step_create [OF create])
  have inv: "retention_inv cfg t"
    by (rule retention.inv_step [OF retention.reachable_inv [OF reach] step])
  obtain rid r where entry: "dict_get (idempotency t) ?key = Some (?fp, rid)"
      and scope: "dict_get (source_scopes t) (tenant_id c, source) = Some (workspace_id c)"
      and find: "find_request t c rid = Inr r" and rid: "drv_request_id v = rid"
    using create_success [OF create refl]
  proof (elim disjE exE conjE)
    fix rid r
    assume t: "t = ?s1" and r: "find_request ?s1 c rid = Inr r" "v = request_view r"
      and e: "dict_get (idempotency s) ?key = Some (?fp, rid)"
    have "request_id r = rid"
      using request_okD(2) [OF inv] find_request_InrD [OF r(1)] by (simp add: t)
    then show thesis
      using r e by (intro that [of rid r]) (simp_all add: t request_view_def Let_def)
  next
    assume "admit_request cfg c source (dict_by reference_id ds) ?key ?fp ?s1 = (Inr v, t)"
    then show thesis
      by (intro that) (auto simp: admit_request_def read_clock_def fresh_id_def Let_def
          find_request_def request_view_def)
  qed
  note r = find_request_InrD [OF find]
  obtain y where y: "dict_get (requests u) rid = Some y"
      and ctx: "context_scope (req_context y) = context_scope (req_context r)"
    using retention.persistence [OF run inv r [THEN conjunct1]] by blast
  have "find_request u c rid = Inr y"
    using y ctx r by (simp add: find_request_def context_scope_def)
  moreover have "request_id y = rid"
    by (rule request_okD(2) [OF retention.runs_inv [OF run inv] y])
  moreover have "dict_get (idempotency u) ?key = Some (?fp, rid)"
    by (rule runs_ledger [OF run entry])
  moreover have reg: "dict_get (source_scopes u) (tenant_id c, source) = Some (workspace_id c)"
    by (rule runs_scopes [OF run scope])
  moreover have "u\<lparr>source_scopes := dict_set (tenant_id c, source) (workspace_id c) (source_scopes u)\<rparr> = u"
    using reg by (simp add: update_triv)
  ultimately show ?thesis
    using guards rid
    by (simp add: create_request_def Let_def replay_lookup_def request_view_def)
qed

definition demo_empty :: retention_state where
  "demo_empty = empty_repository \<lparr>fail_references = [], attempt_count = 0, attempts_by_reference = []\<rparr>"

lemma demo_create_result:
  "create_request demo_service demo_context ''src'' (Some demo_inventory) ''k1'' (MatchText ''*'')
    demo_empty = (Inr (request_view demo_request), demo_created)"
  by (simp add: demo_created_def demo_empty_def create_request_def write_checked_def
      create_fingerprint_def empty_repository_def replay_lookup_def admit_request_def
      read_clock_def fresh_id_def Let_def demo_new_request demo_request_def)

theorem create_is_idempotent_witness:
  "\<exists>v'. create_request demo_service demo_context ''src'' (Some demo_inventory) ''k1''
      (MatchText ''*'') demo_purged = (Inr v', demo_purged)
    \<and> drv_request_id v' = ''deletion-0''"
proof -
  have reach: "reachable (retention_start demo_service) (retention_step demo_service) demo_empty"
    unfolding demo_empty_def by (rule reachable_start) (rule demo_start)
  have run: "runs (retention_step demo_service) demo_created [(''t1'', ''w1''), (''t1'', ''w1'')] demo_purged"
    by (rule runs_more, rule demo_step_cancel, rule runs_more, rule demo_step_purge, rule runs_none)
  show ?thesis
    using create_is_idempotent [OF reach demo_create_result run]
    by (simp add: request_view_def demo_request_def Let_def)
qed

definition accepted_write ::
  "retention_service \<Rightarrow> retention_context \<Rightarrow> string \<Rightarrow> if_match \<Rightarrow> retention_state \<Rightarrow> retention_state
    \<Rightarrow> bool" where
  "accepted_write cfg c rid m s t \<longleftrightarrow> requests t \<noteq> requests s
    \<and> ((\<exists>k v. cancel cfg c rid m k s = (Inr v, t))
      \<or> (\<exists>ref ev k v. acknowledge_local_copy cfg c rid ref ev m k s = (Inr v, t))
      \<or> (\<exists>k b v. purge cfg c rid m k b s = (Inr v, t)))"

lemma accepted_write_version:
  assumes "accepted_write cfg c rid m s t"
  shows "\<exists>r y. find_request s c rid = Inr r \<and> m = MatchInt (req_version r)
    \<and> dict_get (requests t) rid = Some y \<and> req_version y = req_version r + 1"
  using assms unfolding accepted_write_def
proof (elim conjE disjE exE)
  fix k v assume "requests t \<noteq> requests s" "cancel cfg c rid m k s = (Inr v, t)"
  then show ?thesis by (auto dest!: cancel_effect)
next
  fix ref ev k v
  assume "requests t \<noteq> requests s" "acknowledge_local_copy cfg c rid ref ev m k s = (Inr v, t)"
  then show ?thesis by (auto dest!: acknowledge_effect)
next
  fix k b v assume "requests t \<noteq> requests s" "purge cfg c rid m k b s = (Inr v, t)"
  then show ?thesis
    by (auto dest!: purge_effect simp: run_purge_def Let_def split: prod.splits)
qed

lemma accepted_write_step: "accepted_write cfg c rid m s t \<Longrightarrow> retention_step cfg (context_scope c) s t"
  unfolding accepted_write_def by (blast intro: step_cancel step_acknowledge step_purge)

text \<open>
  C30: no lost update: once a conditional write on a request was accepted for a version, every
  later cancel, purge or acknowledgement of the same scope that still names that version, with a
  well-formed idempotency key that served no write yet, is refused and changes nothing, whoever
  calls. The refusal is a version conflict, but that a purge is refused first for a caller who is
  no organisation administrator or whose step-up was not verified, and an acknowledgement first
  for an evidence outside the three kinds.
\<close>

theorem stale_versions_refused:
  assumes reach: "reachable (retention_start cfg) (retention_step cfg) s"
    and acc: "accepted_write cfg c rid m s t" and run: "runs (retention_step cfg) t cs u"
    and scope: "context_scope d = context_scope c" and key: "write_checked k m = Inr ()"
    and unused: "\<forall>op. dict_get (idempotency u) (actor_id d, op, k) = None"
  shows "cancel cfg d rid m k u = (Inl (retention_error ''RETENTION_VERSION_CONFLICT'' 409), u)
    \<and> acknowledge_local_copy cfg d rid ref ev m k u
        = (Inl (if ev \<in> {''device_ack'', ''device_revoked'', ''key_destroyed''}
            then retention_error ''RETENTION_VERSION_CONFLICT'' 409
            else retention_error ''LOCAL_COPY_ACK_INVALID'' 400), u)
    \<and> purge cfg d rid m k v u
        = (Inl (if \<not> organization_admin d then retention_error ''CURRENT_ACCESS_DENIED'' 403
            else if \<not> v then retention_error ''STEP_UP_REQUIRED'' 403
            else retention_error ''RETENTION_VERSION_CONFLICT'' 409), u)"
proof -
  obtain r y where r: "find_request s c rid = Inr r" and m: "m = MatchInt (req_version r)"
      and y: "dict_get (requests t) rid = Some y" and ver: "req_version y = req_version r + 1"
    using accepted_write_version [OF acc] by blast
  note inv = retention.reachable_inv [OF reach] and step = accepted_write_step [OF acc]
  have inv_t: "retention_inv cfg t" by (rule inv_step [OF step inv])
  have "context_scope (req_context y) = context_scope c"
    using retention.scope_kept [OF inv step] find_request_scope [OF r] y by force
  moreover obtain z where z: "dict_get (requests u) rid = Some z"
      and "context_scope (req_context z) = context_scope (req_context y)"
    using retention.persistence [OF run inv_t y] by blast
  ultimately have find: "find_request u d rid = Inr z"
    using scope by (simp add: find_request_def context_scope_def)
  have "req_version y \<le> req_version z"
    by (rule retention.runs_version_mono [OF run inv_t y z])
  then have stale: "\<not> version_is (req_version z) m"
    by (simp add: m ver version_is_def)
  note refused = find stale key replay_lookup_def unused [rule_format]
  show ?thesis
    by (auto simp: cancel_def acknowledge_local_copy_def purge_def require_sensitive_def refused Let_def)
qed

theorem stale_versions_refused_witness:
  "purge demo_service demo_admin ''deletion-0'' (MatchInt 1) ''k3'' True demo_cancelled
    = (Inl (retention_error ''RETENTION_VERSION_CONFLICT'' 409), demo_cancelled)"
proof -
  have "requests demo_cancelled \<noteq> requests demo_created"
    by (simp add: demo_created_state demo_cancelled_state demo_request_def)
  moreover have "\<exists>v. cancel demo_service demo_context ''deletion-0'' (MatchInt 1) ''k2'' demo_created
      = (Inr v, demo_cancelled)"
    by (simp add: demo_cancelled_def cancel_def write_checked_def find_request_def
      demo_created_state replay_lookup_def version_is_def demo_request_def Let_def)
  ultimately have w: "accepted_write demo_service demo_context ''deletion-0'' (MatchInt 1)
      demo_created demo_cancelled"
    by (auto simp: accepted_write_def)
  show ?thesis
    using stale_versions_refused [OF demo_reachable(1) w runs_none, of demo_admin "''k3''" _ "''device_ack''" True]
    by (simp add: write_checked_def demo_cancelled_state)
qed

section \<open>Audit\<close>

text \<open>
  In every reachable state each audit event names the hash of its predecessor and carries the
  digest of its own body; and where the digest has no collision among the events compared, any
  other chained trail of the same length with the same head hash is the same trail, so that no
  past event can be altered, replaced or reordered unnoticed.
\<close>

theorem audit_trail_tamper_evident:
  assumes "reachable (retention_start cfg) (retention_step cfg) s"
    and "chain_ok cfg es" and "length es = length (audit s)"
    and "chain_head ev_event_hash es = chain_head ev_event_hash (audit s)"
    and "\<forall>e \<in> set (audit s). \<forall>e' \<in> set es. event_digest cfg e = event_digest cfg e' \<longrightarrow> e = e'"
  shows "chain_ok cfg (audit s) \<and> es = audit s"
proof -
  have ok: "chain_ok cfg (audit s)"
    using retention.reachable_inv [OF assms(1)] by (simp add: retention_inv_def)
  moreover have "audit s = es"
  proof (cases "audit s = []")
    case True
    then show ?thesis using assms(3) by simp
  next
    case False
    then have "es \<noteq> []" using assms(3) by auto
    with False show ?thesis
      using trail.chained_head_determines [of cfg genesis_hash "audit s" es] ok assms(2-5)
      by (auto simp: chain_ok_def chain_head_def)
  qed
  ultimately show ?thesis by simp
qed

text \<open>The digest of this scenario is the length of the text, which tells its three events apart.\<close>

definition length_service :: retention_service where
  "length_service = demo_service\<lparr>sha256_hex := (\<lambda>x. dec_nat (length x))\<rparr>"

definition length_created :: retention_state where
  "length_created = snd (create_request length_service demo_context ''src'' (Some demo_inventory) ''k1''
     (MatchText ''*'') demo_empty)"

definition length_trail :: "retention_event list" where
  "length_trail = (let
       e1 = seal_event length_service (demo_request, ''deletion.requested'', 0) genesis_hash;
       e2 = seal_event length_service (demo_request, ''source.deactivated'', 0) (ev_event_hash e1)
     in [e1, e2, seal_event length_service (demo_request, ''deletion.grace_period.started'', 0)
          (ev_event_hash e2)])"

lemma length_config [simp]:
  "clock length_service n = clock demo_service n" "token_hex length_service n = token_hex demo_service n"
  "grace_period length_service = 30" "n < 5 \<Longrightarrow> clock demo_service n = 0"
  by (simp_all add: length_service_def demo_data)

lemma length_created_trail: "audit length_created = length_trail"
  by (simp add: length_created_def demo_empty_def create_request_def write_checked_def
      empty_repository_def replay_lookup_def admit_request_def read_clock_def fresh_id_def Let_def
      demo_new_request demo_request_def audit_event_eq remember_def put_request_def length_trail_def
      chain_head_def)

lemma length_trail_digests: "distinct (map (event_digest length_service) length_trail)"
  by code_simp

theorem audit_trail_tamper_evident_witness:
  "chain_ok length_service (audit length_created) \<and> length (audit length_created) = 3"
proof -
  have start: "retention_start length_service demo_empty"
    by (auto simp: retention_start_def length_service_def demo_empty_def demo_service_def
        dec_nat_inject intro!: injI)
  have "retention_step length_service (''t1'', ''w1'') demo_empty length_created"
    using step_create [of length_service demo_context] surjective_pairing demo_scope
    unfolding length_created_def by metis
  then have reach: "reachable (retention_start length_service) (retention_step length_service) length_created"
    by (rule reachable_step [rotated]) (rule reachable_start, rule start)
  have ok: "chain_ok length_service length_trail"
    by code_simp
  have "\<forall>e \<in> set length_trail. \<forall>e' \<in> set length_trail.
      event_digest length_service e = event_digest length_service e' \<longrightarrow> e = e'"
    using length_trail_digests by (simp add: distinct_map inj_on_def)
  then show ?thesis
    using audit_trail_tamper_evident [OF reach, of length_trail] ok
    by (simp add: length_created_trail) (simp add: length_trail_def Let_def)
qed

section \<open>Functional behaviour\<close>

lemma cleaned_completed:
  "item_state (cleaned fails i) = Completed \<longleftrightarrow> item_state i = Completed
    \<or> \<not> acknowledgement_required (item_value i) \<and> reference_id (item_value i) \<notin> set fails"
  by (simp add: cleaned_def)

text \<open>
  What an accepted purge does, whatever the state of the request: every due item is handed
  to the port once and completed unless its reference fails, items that need an acknowledgement
  wait for it, the version grows by one, and the request is purged exactly when no item is left;
  a request that was cancelled, with its source active again, is purged like any other.
\<close>

theorem purge_runs_whatever_the_state:
  assumes "find_request s c rid = Inr r" and "write_checked k (MatchInt (req_version r)) = Inr ()"
    and "organization_admin c" and "dict_get (idempotency s) (actor_id c, ''purge'', k) = None"
    and "active_holds s r = []" and "grace_until r \<le> clock cfg (clock_reads s)"
    and "list_all (\<lambda>i. starts_with (fixture_prefix cfg) (reference_id (item_value i)))
        (dict_values (inventory r))"
  shows "\<exists>v t r'. purge cfg c rid (MatchInt (req_version r)) k True s = (Inr v, t)
    \<and> dict_get (requests t) rid = Some r' \<and> v = request_view r'
    \<and> inventory r' = map (\<lambda>(ref, i). (ref, cleaned (fail_references (port s)) i)) (inventory r)
    \<and> req_version r' = req_version r + 1 \<and> source_active r' = source_active r
    \<and> req_state r' = (if \<forall>i \<in> set (dict_values (inventory r)).
          item_state i = Completed
          \<or> \<not> acknowledgement_required (item_value i)
            \<and> reference_id (item_value i) \<notin> set (fail_references (port s))
        then Purged else CleanupPending)"
proof -
  obtain fp where run: "purge cfg c rid (MatchInt (req_version r)) k True s
      = run_purge cfg rid r (actor_id c, ''purge'', k) fp (s\<lparr>clock_reads := Suc (clock_reads s)\<rparr>)"
    using assms
    by (auto simp: purge_def require_sensitive_def replay_lookup_def version_is_def read_clock_def
        Let_def list_ex_iff list_all_iff)
  show ?thesis
    unfolding run
    by (simp add: run_purge_def cleanup_pass_eq list_all_iff cleaned_completed Let_def case_prod_unfold)
qed

theorem purge_runs_whatever_the_state_witness:
  "\<exists>v t. req_state (demo_request\<lparr>req_state := Cancelled\<rparr>) = Cancelled
    \<and> purge demo_service demo_admin ''deletion-0'' (MatchInt 2) ''k3'' True demo_cancelled = (Inr v, t)
    \<and> drv_source_active v"
proof -
  let ?r = "demo_request\<lparr>req_state := Cancelled, source_active := True, req_version := 2\<rparr>"
  have find: "find_request demo_cancelled demo_admin ''deletion-0'' = Inr ?r"
    by (simp add: find_request_def demo_cancelled_state) (simp add: demo_request_def)
  have fixture: "list_all (\<lambda>i. starts_with (fixture_prefix demo_service) (reference_id (item_value i)))
      (dict_values (inventory ?r))"
    using demo_items(1) by (simp add: demo_request_def comp_def list_all_iff)
  show ?thesis
    using purge_runs_whatever_the_state [OF find, of "''k3''" demo_service] fixture
    by (auto simp: write_checked_def demo_cancelled_state active_holds_def demo_request_def
        request_view_def Let_def)
qed

text \<open>
  A legal hold that is applied and released again reopens the request on its source whatever
  state it was in, a cancelled or purged one included: it ends in the grace period, or, once that
  is over, in pending clean-up, with its version raised by two and its source as active as before.
\<close>

theorem hold_and_release_reopen:
  assumes inv: "retention_inv cfg s"
    and registered: "dict_get (source_requests s) (tenant_id c, workspace_id c, source) = Some rid"
    and r: "dict_get (requests s) rid = Some r" and free: "active_holds s r = []"
    and hold: "apply_legal_hold cfg c source (MatchInt (req_version r)) k True s = (Inr h, t)"
    and fresh: "dict_get (idempotency s) (actor_id c, ''hold'', k) = None"
    and release: "release_legal_hold cfg c (lhv_hold_id h) (MatchInt 1) k' True t = (Inr h', u)"
    and fresh': "dict_get (idempotency t) (actor_id c, ''release'', k') = None"
  shows "\<exists>y. dict_get (requests u) rid = Some y
    \<and> req_state y = (if clock cfg (clock_reads t) < grace_until r then GracePeriod else CleanupPending)
    \<and> req_version y = req_version r + 2 \<and> source_active y = source_active r"
proof -
  let ?h = "new_hold cfg c source s"
  let ?r = "r\<lparr>req_state := BlockedByHold, req_version := req_version r + 1\<rparr>"
  let ?h' = "?h\<lparr>hold_state := Released, hold_version := hold_version ?h + 1\<rparr>"
  obtain r0 where r0: "dict_get (requests s) rid = Some r0" "find_request s c rid = Inr r0"
    using find_request_by_source [OF inv registered] by blast
  then have find: "find_request s c rid = Inr r" using r by simp
  have id: "request_id r = rid" by (rule request_okD(2) [OF inv r])
  obtain fp where place: "place_hold cfg c source (Some r) (actor_id c, ''hold'', k) fp s = (Inr h, t)"
    using hold fresh registered find
    by (auto simp: apply_legal_hold_def Let_def replay_lookup_def split: attempt_splits if_splits)
  note t = place_hold_state [OF place]
  have t_r: "find_request t c rid = Inr ?r"
    using find_request_InrD [OF find] by (simp add: find_request_def t id)
  have hid: "lhv_hold_id h = hold_id ?h" "find_hold t c (hold_id ?h) = Inr ?h"
    using t(1,2) by (simp_all add: hold_view_def find_hold_def)
  let ?s1 = "put_hold (hold_id ?h) ?h' t"
  have ok: "dict_ok (holds ?s1)"
    using inv by (simp add: t(2) retention_inv_def holds_inv_def)
  have "active_holds s ?r = []"
    using free by (simp add: active_holds_def)
  then have none: "\<not> hold_covers (req_context ?r) (req_source_id ?r) g"
    if "dict_get (holds s) i = Some g" for i g
    using held_iff [of s ?r] inv that unfolding retention_inv_def holds_inv_def by blast
  have closed: "active_holds ?s1 ?r = []"
  proof (rule ccontr)
    assume "active_holds ?s1 ?r \<noteq> []"
    then obtain i g where "dict_get (holds ?s1) i = Some g"
        and covers: "hold_covers (req_context ?r) (req_source_id ?r) g"
      using held_iff [OF ok] by blast
    then have "g = ?h' \<or> dict_get (holds s) i = Some g"
      unfolding put_hold_simps t(2) dict_get_set by (simp split: if_splits)
    then show False
      using none covers by (auto simp: hold_covers_def)
  qed
  obtain r' s2 where re: "reopen_request cfg ?r ?s1 = (r', s2)" by fastforce
  have "requests u = requests s2"
    using release fresh' hid t_r registered re
    by (auto simp: release_legal_hold_def Let_def replay_lookup_def version_is_def t(4) find_request_def
        split: attempt_splits if_splits option.splits)
  then show ?thesis
    using reopen_request_state [OF re] closed by (auto simp: id)
qed

definition demo_held :: retention_state where
  "demo_held = snd (apply_legal_hold demo_service demo_admin ''src'' (MatchInt 2) ''k3'' True demo_cancelled)"

definition demo_hold :: legal_hold where
  "demo_hold = \<lparr>hold_id = ''legal-hold-1'', hold_context = demo_admin, hold_source_id = ''src'',
     hold_state = Active, hold_version = 1\<rparr>"

lemma demo_registries:
  "source_requests demo_created = [((''t1'', ''w1'', ''src''), ''deletion-0'')]"
  "source_scopes demo_created = [((''t1'', ''src''), ''w1'')]" "tokens_drawn demo_created = 1"
  "source_requests demo_cancelled = [((''t1'', ''w1'', ''src''), ''deletion-0'')]"
  "source_scopes demo_cancelled = [((''t1'', ''src''), ''w1'')]" "tokens_drawn demo_cancelled = 1"
  "token_hex demo_service (Suc 0) = ''1''"
proof -
  show "token_hex demo_service (Suc 0) = ''1''"
    by (simp add: demo_service_def) code_simp
  show "source_requests demo_created = [((''t1'', ''w1'', ''src''), ''deletion-0'')]"
    and scopes: "source_scopes demo_created = [((''t1'', ''src''), ''w1'')]"
    and tokens: "tokens_drawn demo_created = 1"
    by (simp_all add: demo_created_def create_request_def write_checked_def create_fingerprint_def
      empty_repository_def replay_lookup_def admit_request_def read_clock_def fresh_id_def Let_def)
  then show "source_requests demo_cancelled = [((''t1'', ''w1'', ''src''), ''deletion-0'')]"
    "source_scopes demo_cancelled = [((''t1'', ''src''), ''w1'')]" "tokens_drawn demo_cancelled = 1"
    by (simp_all add: demo_cancelled_def cancel_def write_checked_def find_request_def
      demo_created_state replay_lookup_def version_is_def demo_request_def Let_def)
qed

lemma demo_hold_run:
  "apply_legal_hold demo_service demo_admin ''src'' (MatchInt 2) ''k3'' True demo_cancelled
    = (Inr (hold_view demo_hold), demo_held)"
  by (simp add: demo_held_def apply_legal_hold_def write_checked_def require_sensitive_def
      find_request_def demo_cancelled_state demo_registries replay_lookup_def version_is_def
      demo_request_def place_hold_def fresh_id_def demo_hold_def Let_def)

lemma demo_held_state:
  "requests demo_held = [(''deletion-0'', demo_request\<lparr>req_state := BlockedByHold,
     source_active := True, req_version := 3\<rparr>)]"
  "holds demo_held = [(''legal-hold-1'', demo_hold)]" "clock_reads demo_held = 6"
  "source_requests demo_held = [((''t1'', ''w1'', ''src''), ''deletion-0'')]"
  "dict_get (idempotency demo_held) (''bob'', ''release'', ''k3'') = None"
  by (simp_all add: demo_held_def apply_legal_hold_def write_checked_def require_sensitive_def
      find_request_def demo_cancelled_state demo_registries replay_lookup_def version_is_def
      demo_request_def place_hold_def fresh_id_def demo_hold_def Let_def)

lemma demo_release_run:
  "\<exists>v u. release_legal_hold demo_service demo_admin ''legal-hold-1'' (MatchInt 1) ''k3'' True demo_held
    = (Inr v, u)"
  by (simp add: release_legal_hold_def write_checked_def require_sensitive_def find_hold_def
      find_request_def demo_held_state replay_lookup_def version_is_def demo_hold_def demo_request_def
      Let_def split: prod.split)

theorem hold_and_release_reopen_witness:
  "\<exists>y. dict_get (requests (snd (release_legal_hold demo_service demo_admin ''legal-hold-1'' (MatchInt 1)
      ''k3'' True demo_held))) ''deletion-0'' = Some y
    \<and> req_state y = CleanupPending \<and> source_active y"
proof -
  obtain v u where run: "release_legal_hold demo_service demo_admin ''legal-hold-1'' (MatchInt 1) ''k3'' True
      demo_held = (Inr v, u)"
    using demo_release_run by blast
  let ?r = "demo_request\<lparr>req_state := Cancelled, source_active := True, req_version := 2\<rparr>"
  have hold: "apply_legal_hold demo_service demo_admin ''src'' (MatchInt (req_version ?r)) ''k3'' True
      demo_cancelled = (Inr (hold_view demo_hold), demo_held)"
    using demo_hold_run by simp
  have id: "lhv_hold_id (hold_view demo_hold) = ''legal-hold-1''"
    by (simp add: hold_view_def demo_hold_def)
  show ?thesis
    using hold_and_release_reopen [OF retention.reachable_inv [OF demo_reachable(2)] _ _ _ hold _
        run [folded id]]
    by (simp add: demo_cancelled_state demo_held_state demo_registries active_holds_def run)
      (auto simp: demo_request_def demo_service_def)
qed

section \<open>Clean-up pass, registries and lookups\<close>

text \<open>
  The clean-up pass, written as a loop that updates port and log item by item, equals its
  closed form: each item is cleaned independently of the others, and port and log see exactly the
  due items, each once, in inventory order.
\<close>

theorem cleanup_pass_closed_form:
  "cleanup_pass rid items p log =
    (map (\<lambda>(ref, i). (ref, cleaned (fail_references p) i)) items,
     foldl (\<lambda>p i. snd (port_cleanup (item_value i) p)) p (filter due (dict_values items)),
     log @ map (\<lambda>i. log_entry rid (cleaned (fail_references p) i)) (filter due (dict_values items)))"
  by (rule cleanup_pass_eq)

text \<open>
  In every reachable state a source of a tenant belongs to one workspace and has at most one
  deletion request, ever; and the lookups that index the request store by the source registry
  never miss.
\<close>

theorem one_request_per_source:
  assumes "reachable (retention_start cfg) (retention_step cfg) s"
    and "dict_get (requests s) i = Some x" and "dict_get (requests s) j = Some y"
    and "tenant_id (req_context x) = tenant_id (req_context y)" and "req_source_id x = req_source_id y"
  shows "i = j \<and> x = y \<and> source_etag tenant source s \<noteq> Inl (retention_error ''KeyError'' 500)
    \<and> is_source_use_blocked (req_context x) (req_source_id x) s = Inr (req_state x \<noteq> Cancelled)"
proof -
  have reg: "registry_inv s"
    using retention.reachable_inv [OF assms(1)] by (simp add: retention_inv_def)
  have "dict_get (source_scopes s) (tenant_id (req_context r), req_source_id r)
      = Some (workspace_id (req_context r))" if "dict_get (requests s) rid = Some r" for rid r
    using reg that by (simp add: registry_inv_def)
  from this [OF assms(2)] this [OF assms(3)] have key: "request_key x = request_key y"
    using assms(4,5) by (simp add: request_key_def)
  have ix: "dict_get (source_requests s) (request_key x) = Some i"
    and iy: "dict_get (source_requests s) (request_key y) = Some j"
    using reg assms(2,3) by (simp_all add: registry_inv_def)
  have "i = j" using ix iy key by simp
  moreover from this have "x = y" using assms(2,3) by simp
  moreover have "source_etag tenant source s \<noteq> Inl (retention_error ''KeyError'' 500)"
  proof -
    have "\<exists>r. dict_get (requests s) rid = Some r" if "dict_get (source_requests s) k = Some rid" for k rid
      using reg that unfolding registry_inv_def by blast
    then show ?thesis
      by (force simp: source_etag_def safe_def Let_def split: option.splits sum.splits if_splits)
  qed
  moreover have "is_source_use_blocked (req_context x) (req_source_id x) s = Inr (req_state x \<noteq> Cancelled)"
    using ix assms(2) by (simp add: is_source_use_blocked_def request_key_def)
  ultimately show ?thesis by blast
qed

theorem one_request_per_source_witness:
  "is_source_use_blocked demo_context ''src'' demo_created = Inr True"
  using one_request_per_source [OF demo_reachable(1), of "''deletion-0''" demo_request "''deletion-0''" demo_request]
  by (simp add: demo_created_state) (simp add: demo_request_def)

text \<open>
  The audit event of a cancellation names the requester of the deletion as its actor, under
  the requester's policy version and trace, whoever cancelled it.
\<close>

theorem cancel_event_names_requester:
  assumes "cancel cfg c rid m k s = (Inr v, t)" and "audit t \<noteq> audit s"
  shows "\<exists>r e. find_request s c rid = Inr r \<and> audit t = audit s @ [e]
    \<and> ev_action e = ''deletion.cancelled'' \<and> ev_actor_id e = actor_id (req_context r)
    \<and> ev_trace_id e = trace_id (req_context r) \<and> ev_policy_version e = policy_version (req_context r)"
  using cancel_effect [OF assms(1)] assms(2)
  by (auto simp: audit_event_eq seal_event_def remember_def put_request_def Let_def)

theorem cancel_event_names_requester_witness:
  "\<exists>e. audit (snd (cancel demo_service demo_admin ''deletion-0'' (MatchInt 1) ''k2'' demo_created))
      = audit demo_created @ [e] \<and> ev_actor_id e = ''amy'' \<and> actor_id demo_admin = ''bob''"
proof -
  obtain v t where run: "cancel demo_service demo_admin ''deletion-0'' (MatchInt 1) ''k2'' demo_created = (Inr v, t)"
      and "audit t \<noteq> audit demo_created"
    by (simp add: cancel_def write_checked_def find_request_def demo_created_state replay_lookup_def
        version_is_def demo_request_def audit_event_eq remember_def put_request_def Let_def)
  then show ?thesis
    using cancel_event_names_requester [OF run]
    by (auto simp: find_request_def demo_created_state demo_request_def)
qed

end
