(* ===== verification/Recovery.thy ===== *)
theory Recovery
  imports Contracts Json
begin

text \<open>
  Model of \<open>services/api/src/daon_user_api/recovery.py\<close>: verified backups, the metadata receipt of
  a backup selection, restore previews against the current retention state and the isolated,
  fixture-only restore, over the in-memory repository and restore port of that module. Instants
  and durations are integers; the clock, the identifier source and the digest are parameters, as
  in the retention service.
\<close>

section \<open>Inputs and their checks\<close>

datatype recovery_error = RecoveryError (code: string) (status: int) (retryable: bool)

abbreviation recovery_error :: "string \<Rightarrow> int \<Rightarrow> recovery_error" where
  "recovery_error c st \<equiv> RecoveryError c st False"

definition safe :: "string \<Rightarrow> recovery_error + string" where
  "safe value = (if \<not> safe_id value then Inl (recovery_error ''RECOVERY_INPUT_INVALID'' 400)
     else Inr value)"

definition safe_canon_id :: "string \<Rightarrow> recovery_error + string" where
  "safe_canon_id value = (if \<not> safe_id_upto 255 value
     then Inl (recovery_error ''BACKUP_MANIFEST_INVALID'' 409) else Inr value)"

record recovery_context =
  tenant_id :: string
  workspace_id :: string
  actor_id :: string
  trace_id :: string
  policy_version :: string
  organization_admin :: bool
  session_id :: "string option"
  device_id :: "string option"

definition context_checked :: "recovery_context \<Rightarrow> recovery_error + recovery_context" where
  "context_checked c =
    (if list_all safe_id [tenant_id c, workspace_id c, actor_id c, trace_id c, policy_version c]
        \<and> pred_option safe_id (session_id c) \<and> pred_option safe_id (device_id c)
     then Inr c else Inl (recovery_error ''RECOVERY_INPUT_INVALID'' 400))"

type_synonym scope = "string \<times> string"

definition context_scope :: "recovery_context \<Rightarrow> scope" where
  "context_scope c = (tenant_id c, workspace_id c)"

record backup_object_input =
  object_id :: string
  checksum_sha256 :: string
  byte_size :: int

definition object_checked :: "backup_object_input \<Rightarrow> recovery_error + backup_object_input" where
  "object_checked x =
    (case safe (object_id x) of Inl e \<Rightarrow> Inl e
     | Inr _ \<Rightarrow>
         if \<not> sha256_text (checksum_sha256 x) \<or> byte_size x < 0
         then Inl (recovery_error ''BACKUP_MANIFEST_INVALID'' 400) else Inr x)"

record backup_selection_input =
  notebook_id :: string
  source_version_ids :: "string list"

text \<open>The constructor of \<open>BackupSelectionInput\<close> sorts the version identifiers.\<close>

definition backup_selection ::
  "string \<Rightarrow> string list \<Rightarrow> recovery_error + backup_selection_input" where
  "backup_selection notebook ids =
    (if \<not> safe_id notebook \<or> \<not> (1 \<le> length ids \<and> length ids \<le> 100) \<or> \<not> list_all safe_id ids
        \<or> \<not> distinct ids
     then Inl (recovery_error ''RECOVERY_INPUT_INVALID'' 400)
     else Inr \<lparr>notebook_id = notebook, source_version_ids = sort ids\<rparr>)"

record restore_destination =
  dest_tenant_id :: string
  dest_workspace_id :: string
  database_id :: string
  bucket_id :: string

definition destination_checked :: "restore_destination \<Rightarrow> recovery_error + restore_destination" where
  "destination_checked d =
    (if list_all safe_id [dest_tenant_id d, dest_workspace_id d, database_id d, bucket_id d]
     then Inr d else Inl (recovery_error ''RECOVERY_INPUT_INVALID'' 400))"

section \<open>Text of the inputs in fingerprints\<close>

definition object_str :: "backup_object_input \<Rightarrow> string" where
  "object_str x = py_dataclass ''BackupObjectInput''
     [(''object_id'', py_repr_str (object_id x)),
      (''checksum_sha256'', py_repr_str (checksum_sha256 x)), (''byte_size'', dec_int (byte_size x))]"

definition destination_str :: "restore_destination \<Rightarrow> string" where
  "destination_str d = py_dataclass ''RestoreDestination''
     [(''tenant_id'', py_repr_str (dest_tenant_id d)),
      (''workspace_id'', py_repr_str (dest_workspace_id d)),
      (''database_id'', py_repr_str (database_id d)), (''bucket_id'', py_repr_str (bucket_id d))]"

definition objects_json :: "backup_object_input list \<Rightarrow> json" where
  "objects_json xs = JArr (map (\<lambda>x. JStr (object_str x)) xs)"

section \<open>The metadata receipt of a backup selection\<close>

record resolved_backup_selection =
  selection :: backup_selection_input
  schema_revision :: string
  retention_watermark :: string
  resolved_objects :: "backup_object_input list"
  receipt_fingerprint :: string

definition require_replay ::
  "resolved_backup_selection \<Rightarrow> string \<Rightarrow> recovery_error + unit" where
  "require_replay r fp = (if fp \<noteq> receipt_fingerprint r
     then Inl (recovery_error ''IDEMPOTENCY_KEY_REUSED'' 409) else Inr ())"

definition require_legacy_match ::
  "resolved_backup_selection \<Rightarrow> string \<Rightarrow> string \<Rightarrow> backup_object_input list
    \<Rightarrow> recovery_error + unit" where
  "require_legacy_match r schema watermark objects =
    (if schema \<noteq> schema_revision r \<or> watermark \<noteq> retention_watermark r
        \<or> \<not> distinct (map object_id objects)
        \<or> sort_key object_id objects \<noteq> resolved_objects r
     then Inl (recovery_error ''BACKUP_MANIFEST_INVALID'' 409) else Inr ())"

text \<open>A binding names a source version, its source, the stored object and the canonical digest.\<close>

type_synonym binding = "string \<times> string \<times> backup_object_input \<times> string"

text \<open>The loop over the sorted bindings: the first bad one raises.\<close>

fun collect_objects ::
  "binding list \<Rightarrow> (string, backup_object_input) dict
    \<Rightarrow> recovery_error + (string, backup_object_input) dict" where
  "collect_objects [] objects = Inr objects"
| "collect_objects ((version, source, item, digest) # rest) objects =
    (case safe_canon_id source of Inl e \<Rightarrow> Inl e
     | Inr _ \<Rightarrow>
         if \<not> sha256_text digest then Inl (recovery_error ''BACKUP_MANIFEST_INVALID'' 409)
         else if dict_get objects (object_id item) \<notin> {None, Some item}
         then Inl (recovery_error ''BACKUP_MANIFEST_INVALID'' 409)
         else collect_objects rest (dict_set (object_id item) item objects))"

definition binding_json :: "binding \<Rightarrow> json" where
  "binding_json b = (case b of (version, source, item, digest) \<Rightarrow>
     JArr [JStr version, JStr source, JStr (object_id item), JStr (checksum_sha256 item),
       JInt (byte_size item), JStr digest])"

definition selection_json ::
  "recovery_context \<Rightarrow> backup_selection_input \<Rightarrow> string \<Rightarrow> string \<Rightarrow> string \<Rightarrow> binding list \<Rightarrow> json"
where
  "selection_json c sel schema watermark trigger ordered =
    JArr [JStr ''backup-selection-v1'', JStr (tenant_id c), JStr (workspace_id c),
      JStr (actor_id c), JOpt (session_id c), JOpt (device_id c), JStr (policy_version c),
      JStr (notebook_id sel), JStr trigger, JArr (map JStr (source_version_ids sel)),
      JArr (map binding_json ordered), JStr schema, JStr watermark]"

definition binding_item :: "binding \<Rightarrow> backup_object_input" where
  "binding_item b = fst (snd (snd b))"

definition resolved_backup_metadata ::
  "(string \<Rightarrow> string) \<Rightarrow> recovery_context \<Rightarrow> backup_selection_input \<Rightarrow> string \<Rightarrow> string
    \<Rightarrow> binding list \<Rightarrow> string \<Rightarrow> recovery_error + resolved_backup_selection" where
  "resolved_backup_metadata sha c sel schema watermark bindings trigger =
    (case safe schema of Inl e \<Rightarrow> Inl e | Inr _ \<Rightarrow>
     (case safe watermark of Inl e \<Rightarrow> Inl e | Inr _ \<Rightarrow>
      if trigger \<notin> {''manual'', ''automatic''}
      then Inl (recovery_error ''RECOVERY_INPUT_INVALID'' 400)
      else if \<not> organization_admin c then Inl (recovery_error ''CURRENT_ACCESS_DENIED'' 403)
      else let ordered = sort_key fst bindings in
      if map fst ordered \<noteq> source_version_ids sel
      then Inl (recovery_error ''BACKUP_UNAVAILABLE'' 404)
      else (case collect_objects ordered [] of Inl e \<Rightarrow> Inl e
       | Inr objects \<Rightarrow>
           if 512 * 1024 * 1024 < sum_list (map (byte_size \<circ> binding_item) ordered)
           then Inl (recovery_error ''BACKUP_SELECTION_TOO_LARGE'' 413)
           else Inr \<lparr>selection = sel, schema_revision = schema, retention_watermark = watermark,
             resolved_objects = map snd (sort_key fst objects),
             receipt_fingerprint =
               fingerprint sha (selection_json c sel schema watermark trigger ordered)\<rparr>)))"

section \<open>State\<close>

datatype backup_state = Queued | Capturing | VerifyingBackup | Ready

record backup =
  backup_id :: string
  backup_context :: recovery_context
  trigger :: string
  created_at :: int
  backup_schema :: string
  backup_watermark :: string
  objects :: "backup_object_input list"
  backup_state :: backup_state
  backup_version :: int
  verified_at :: "int option"
  backup_transitions :: "backup_state list"

record restore_preview =
  preview_version :: int
  included :: "string list"
  excluded :: "string list"
  exclusion_reasons :: "(string \<times> string) list"
  destination :: restore_destination
  previewed_at :: int

datatype restore_state =
  Requested | PreviewReady | Authorized | Restoring | Verifying | Completed | Failed | Cancelled

record restore_request =
  request_id :: string
  req_context :: recovery_context
  req_backup_id :: string
  preview :: restore_preview
  req_state :: restore_state
  req_version :: int
  transitions :: "restore_state list"
  verification_digest :: "string option"

record retention_sets =
  purged :: "string list"
  held :: "string list"
  tombstoned :: "string list"

record recovery_event =
  ev_actor_id :: string
  ev_action :: string
  ev_target :: string
  ev_policy_version :: string
  ev_trace_id :: string
  ev_timestamp :: string
  ev_previous_hash :: string
  ev_event_hash :: string

record restore_port =
  restored_object_ids :: "string list"
  destinations :: "restore_destination list"
  original_mutations :: int
  fail_object_ids :: "string list"

record recovery_state =
  backups :: "(string, backup) dict"
  restores :: "(string, restore_request) dict"
  idempotency :: "(string \<times> string \<times> string, string \<times> string) dict"
  retention :: "(string \<times> string, retention_sets) dict"
  audit :: "recovery_event list"
  port :: restore_port
  clock_reads :: nat
  tokens_drawn :: nat

definition empty_repository :: "restore_port \<Rightarrow> recovery_state" where
  "empty_repository p = \<lparr>backups = [], restores = [], idempotency = [], retention = [], audit = [],
     port = p, clock_reads = 0, tokens_drawn = 0\<rparr>"

record recovery_service =
  clock :: "nat \<Rightarrow> int"
  token_hex :: "nat \<Rightarrow> string"
  isoformat :: "int \<Rightarrow> string"
  sha256_hex :: "string \<Rightarrow> string"
  fixture_prefix :: string
  rpo :: int

definition read_clock :: "recovery_service \<Rightarrow> recovery_state \<Rightarrow> int \<times> recovery_state" where
  "read_clock cfg s = (clock cfg (clock_reads s), s\<lparr>clock_reads := Suc (clock_reads s)\<rparr>)"

definition fresh_id :: "recovery_service \<Rightarrow> string \<Rightarrow> recovery_state \<Rightarrow> string \<times> recovery_state" where
  "fresh_id cfg prefix s =
    (prefix @ ''-'' @ token_hex cfg (tokens_drawn s), s\<lparr>tokens_drawn := Suc (tokens_drawn s)\<rparr>)"

text \<open>\<open>ReferenceRestorePort.restore\<close>: all objects or none.\<close>

definition port_restore ::
  "restore_destination \<Rightarrow> backup_object_input list \<Rightarrow> restore_port \<Rightarrow> bool \<times> restore_port" where
  "port_restore d xs p =
    (if list_ex (\<lambda>x. object_id x \<in> set (fail_object_ids p)) xs then (False, p)
     else (True, p\<lparr>destinations := destinations p @ [d],
       restored_object_ids := restored_object_ids p @ map object_id xs\<rparr>))"

section \<open>Views\<close>

record backup_view =
  bv_backup_id :: string
  bv_tenant_id :: string
  bv_workspace_id :: string
  bv_state :: backup_state
  bv_version :: int
  bv_trigger :: string
  bv_created_at :: int
  bv_verified_at :: "int option"
  bv_schema_revision :: string
  bv_retention_watermark :: string
  bv_manifest_digest :: string
  bv_object_count :: nat
  bv_transitions :: "backup_state list"

definition backup_etag :: "backup_view \<Rightarrow> string" where
  "backup_etag v = [CHR 0x22] @ ''backup:'' @ bv_backup_id v @ '':''
     @ dec_int (bv_version v) @ [CHR 0x22]"

record restore_request_view =
  rv_request_id :: string
  rv_backup_id :: string
  rv_tenant_id :: string
  rv_workspace_id :: string
  rv_state :: restore_state
  rv_version :: int
  rv_preview :: restore_preview
  rv_transitions :: "restore_state list"
  rv_verification_digest :: "string option"

definition restore_etag :: "restore_request_view \<Rightarrow> string" where
  "restore_etag v = [CHR 0x22] @ ''restore:'' @ rv_request_id v @ '':''
     @ dec_int (rv_version v) @ [CHR 0x22]"

definition manifest_digest :: "recovery_service \<Rightarrow> backup \<Rightarrow> string" where
  "manifest_digest cfg b = fingerprint (sha256_hex cfg)
     (JArr [JStr (tenant_id (backup_context b)), JStr (workspace_id (backup_context b)),
       JStr (backup_schema b), JStr (backup_watermark b), objects_json (objects b)])"

definition view_backup :: "recovery_service \<Rightarrow> backup \<Rightarrow> backup_view" where
  "view_backup cfg b = \<lparr>bv_backup_id = backup_id b, bv_tenant_id = tenant_id (backup_context b),
     bv_workspace_id = workspace_id (backup_context b), bv_state = backup_state b,
     bv_version = backup_version b, bv_trigger = trigger b, bv_created_at = created_at b,
     bv_verified_at = verified_at b, bv_schema_revision = backup_schema b,
     bv_retention_watermark = backup_watermark b, bv_manifest_digest = manifest_digest cfg b,
     bv_object_count = length (objects b), bv_transitions = backup_transitions b\<rparr>"

definition view_restore :: "restore_request \<Rightarrow> restore_request_view" where
  "view_restore r = \<lparr>rv_request_id = request_id r, rv_backup_id = req_backup_id r,
     rv_tenant_id = tenant_id (req_context r), rv_workspace_id = workspace_id (req_context r),
     rv_state = req_state r, rv_version = req_version r, rv_preview = preview r,
     rv_transitions = transitions r, rv_verification_digest = verification_digest r\<rparr>"

section \<open>Guards, lookups and the audit trail\<close>

definition require_admin :: "recovery_context \<Rightarrow> recovery_error + unit" where
  "require_admin c = (if \<not> organization_admin c
     then Inl (recovery_error ''CURRENT_ACCESS_DENIED'' 403) else Inr ())"

definition require_step_up :: "recovery_context \<Rightarrow> bool \<Rightarrow> recovery_error + unit" where
  "require_step_up c verified =
    (case require_admin c of Inl e \<Rightarrow> Inl e
     | Inr _ \<Rightarrow> if \<not> verified then Inl (recovery_error ''STEP_UP_REQUIRED'' 403) else Inr ())"

definition replay_lookup ::
  "(string \<times> string \<times> string, string \<times> string) dict \<Rightarrow> string \<times> string \<times> string \<Rightarrow> string
    \<Rightarrow> recovery_error + string option" where
  "replay_lookup ledger key fp =
    (case dict_get ledger key of None \<Rightarrow> Inr None
     | Some (f, v) \<Rightarrow> if f \<noteq> fp then Inl (recovery_error ''IDEMPOTENCY_KEY_REUSED'' 409)
         else Inr (Some v))"

definition find_backup ::
  "recovery_state \<Rightarrow> recovery_context \<Rightarrow> string \<Rightarrow> recovery_error + backup" where
  "find_backup s c bid =
    (case dict_get (backups s) bid of
       None \<Rightarrow> Inl (recovery_error ''BACKUP_UNAVAILABLE'' 404)
     | Some b \<Rightarrow>
         if tenant_id (backup_context b) \<noteq> tenant_id c
           \<or> workspace_id (backup_context b) \<noteq> workspace_id c
         then Inl (recovery_error ''BACKUP_UNAVAILABLE'' 404) else Inr b)"

definition find_restore ::
  "recovery_state \<Rightarrow> recovery_context \<Rightarrow> string \<Rightarrow> recovery_error + restore_request" where
  "find_restore s c rid =
    (case dict_get (restores s) rid of
       None \<Rightarrow> Inl (recovery_error ''RESTORE_REQUEST_UNAVAILABLE'' 404)
     | Some r \<Rightarrow>
         if tenant_id (req_context r) \<noteq> tenant_id c \<or> workspace_id (req_context r) \<noteq> workspace_id c
         then Inl (recovery_error ''RESTORE_REQUEST_UNAVAILABLE'' 404) else Inr r)"

definition event_body :: "recovery_event \<Rightarrow> json" where
  "event_body e = JObj [(''actor_id'', JStr (ev_actor_id e)), (''action'', JStr (ev_action e)),
     (''target'', JStr (ev_target e)), (''policy_version'', JStr (ev_policy_version e)),
     (''trace_id'', JStr (ev_trace_id e)), (''timestamp'', JStr (ev_timestamp e)),
     (''previous_hash'', JStr (ev_previous_hash e))]"

definition event_digest :: "recovery_service \<Rightarrow> recovery_event \<Rightarrow> string" where
  "event_digest cfg e = fingerprint (sha256_hex cfg) (event_body e)"

definition seal_event ::
  "recovery_service \<Rightarrow> recovery_context \<times> string \<times> string \<times> int \<Rightarrow> string \<Rightarrow> recovery_event" where
  "seal_event cfg d previous =
    (case d of (c, action, target, now) \<Rightarrow>
      let event = \<lparr>ev_actor_id = actor_id c, ev_action = action, ev_target = target,
            ev_policy_version = policy_version c, ev_trace_id = trace_id c,
            ev_timestamp = isoformat cfg now, ev_previous_hash = previous, ev_event_hash = []\<rparr>
      in event\<lparr>ev_event_hash := event_digest cfg event\<rparr>)"

definition audit_event ::
  "recovery_service \<Rightarrow> recovery_context \<Rightarrow> string \<Rightarrow> string \<Rightarrow> recovery_state \<Rightarrow> recovery_state"
where
  "audit_event cfg c action target s =
    (let previous = chain_head ev_event_hash (audit s);
         (now, s1) = read_clock cfg s
     in s1\<lparr>audit := audit s1 @ [seal_event cfg (c, action, target, now) previous]\<rparr>)"

definition put_backup :: "string \<Rightarrow> backup \<Rightarrow> recovery_state \<Rightarrow> recovery_state" where
  "put_backup bid b s = s\<lparr>backups := dict_set bid b (backups s)\<rparr>"

definition put_restore :: "string \<Rightarrow> restore_request \<Rightarrow> recovery_state \<Rightarrow> recovery_state" where
  "put_restore rid r s = s\<lparr>restores := dict_set rid r (restores s)\<rparr>"

definition remember ::
  "string \<times> string \<times> string \<Rightarrow> string \<Rightarrow> string \<Rightarrow> recovery_state \<Rightarrow> recovery_state" where
  "remember key fp v s = s\<lparr>idempotency := dict_set key (fp, v) (idempotency s)\<rparr>"

section \<open>Backups\<close>

definition create_fingerprint ::
  "recovery_service \<Rightarrow> recovery_context \<Rightarrow> string \<Rightarrow> string \<Rightarrow> string \<Rightarrow> backup_object_input list
    \<Rightarrow> string" where
  "create_fingerprint cfg c trig schema watermark objs = fingerprint (sha256_hex cfg)
     (JArr [JStr (tenant_id c), JStr (workspace_id c), JStr trig, JStr schema, JStr watermark,
       objects_json objs])"

text \<open>One transition of the capture: \<open>backup.state = state; backup.transitions.append(state)\<close>.\<close>

definition advance_backup :: "backup_state \<Rightarrow> backup \<Rightarrow> backup" where
  "advance_backup st b = b\<lparr>backup_state := st, backup_transitions := backup_transitions b @ [st]\<rparr>"

text \<open>The part of \<open>create_backup\<close> after the replay test.\<close>

definition capture_backup ::
  "recovery_service \<Rightarrow> recovery_context \<Rightarrow> string \<Rightarrow> string \<Rightarrow> string \<Rightarrow> backup_object_input list
    \<Rightarrow> string \<times> string \<times> string \<Rightarrow> string \<Rightarrow> recovery_state
    \<Rightarrow> (recovery_state, recovery_error, backup_view) outcome" where
  "capture_backup cfg c trig schema watermark objs key fp s =
    (let (now, s1) = read_clock cfg s;
         (bid, s2) = fresh_id cfg ''backup'' s1;
         b0 = \<lparr>backup_id = bid, backup_context = c, trigger = trig, created_at = now,
           backup_schema = schema, backup_watermark = watermark, objects = objs,
           backup_state = Queued, backup_version = 1, verified_at = None,
           backup_transitions = [Queued]\<rparr>;
         b1 = fold advance_backup [Capturing, VerifyingBackup, Ready] b0;
         b2 = b1\<lparr>verified_at := Some now, backup_version := backup_version b1 + 1\<rparr>;
         s3 = audit_event cfg c ''backup.verified'' bid
           (remember key fp bid (put_backup bid b2 s2))
     in (Inr (view_backup cfg b2), s3))"

definition create_backup ::
  "recovery_service \<Rightarrow> recovery_context \<Rightarrow> string \<Rightarrow> string \<Rightarrow> string \<Rightarrow> backup_object_input list
    \<Rightarrow> string \<Rightarrow> recovery_state \<Rightarrow> (recovery_state, recovery_error, backup_view) outcome" where
  "create_backup cfg c trig schema watermark objs idempotency_key s =
    attempt (require_admin c) s (\<lambda>_.
    attempt (safe idempotency_key) s (\<lambda>_.
    attempt (safe schema) s (\<lambda>_.
    attempt (safe watermark) s (\<lambda>_.
    if trig \<notin> {''automatic'', ''manual''} \<or> objs = []
    then (Inl (recovery_error ''RECOVERY_INPUT_INVALID'' 400), s)
    else if \<not> distinct (map object_id objs)
    then (Inl (recovery_error ''BACKUP_MANIFEST_INVALID'' 400), s)
    else let fp = create_fingerprint cfg c trig schema watermark objs;
             key = (actor_id c, ''backup'', idempotency_key) in
    attempt (replay_lookup (idempotency s) key fp) s (\<lambda>found.
    case found of
      Some bid \<Rightarrow> attempt (find_backup s c bid) s (\<lambda>b. (Inr (view_backup cfg b), s))
    | None \<Rightarrow> capture_backup cfg c trig schema watermark objs key fp s)))))"

definition backup_in_scope :: "recovery_context \<Rightarrow> backup \<Rightarrow> bool" where
  "backup_in_scope c b \<longleftrightarrow>
    tenant_id (backup_context b) = tenant_id c \<and> workspace_id (backup_context b) = workspace_id c"

text \<open>\<open>sorted(..., reverse=True)\<close> keeps the order of equal keys.\<close>

definition sort_key_desc :: "('a \<Rightarrow> int) \<Rightarrow> 'a list \<Rightarrow> 'a list" where
  "sort_key_desc f xs = rev (sort_key f (rev xs))"

definition list_backups ::
  "recovery_service \<Rightarrow> recovery_context \<Rightarrow> recovery_state \<Rightarrow> recovery_error + backup_view list" where
  "list_backups cfg c s =
    (case require_admin c of Inl e \<Rightarrow> Inl e
     | Inr _ \<Rightarrow> Inr (map (view_backup cfg)
         (filter (backup_in_scope c) (sort_key_desc created_at (dict_values (backups s))))))"

definition get_backup ::
  "recovery_service \<Rightarrow> recovery_context \<Rightarrow> string \<Rightarrow> recovery_state \<Rightarrow> recovery_error + backup_view"
where
  "get_backup cfg c bid s =
    (case require_admin c of Inl e \<Rightarrow> Inl e
     | Inr _ \<Rightarrow> (case find_backup s c bid of Inl e \<Rightarrow> Inl e | Inr b \<Rightarrow> Inr (view_backup cfg b)))"

definition locate_backup_workspace :: "string \<Rightarrow> string \<Rightarrow> recovery_state \<Rightarrow> recovery_error + string"
where
  "locate_backup_workspace tenant bid s =
    (case dict_get (backups s) bid of
       None \<Rightarrow> Inl (recovery_error ''BACKUP_UNAVAILABLE'' 404)
     | Some b \<Rightarrow> if tenant_id (backup_context b) \<noteq> tenant
         then Inl (recovery_error ''BACKUP_UNAVAILABLE'' 404)
         else Inr (workspace_id (backup_context b)))"

definition locate_restore_workspace :: "string \<Rightarrow> string \<Rightarrow> recovery_state \<Rightarrow> recovery_error + string"
where
  "locate_restore_workspace tenant rid s =
    (case dict_get (restores s) rid of
       None \<Rightarrow> Inl (recovery_error ''RESTORE_REQUEST_UNAVAILABLE'' 404)
     | Some r \<Rightarrow> if tenant_id (req_context r) \<noteq> tenant
         then Inl (recovery_error ''RESTORE_REQUEST_UNAVAILABLE'' 404)
         else Inr (workspace_id (req_context r)))"

text \<open>The clock is read only when a verified backup exists.\<close>

definition backup_due ::
  "recovery_service \<Rightarrow> recovery_context \<Rightarrow> recovery_state \<Rightarrow> bool \<times> recovery_state" where
  "backup_due cfg c s =
    (let ready = filter (\<lambda>b. backup_in_scope c b \<and> backup_state b = Ready \<and> verified_at b \<noteq> None)
           (dict_values (backups s)) in
     if ready = [] then (True, s)
     else let (now, s1) = read_clock cfg s
          in (rpo cfg \<le> now - Max (set (map (the \<circ> verified_at) ready)), s1))"

definition set_current_retention ::
  "recovery_context \<Rightarrow> retention_sets \<Rightarrow> recovery_state
    \<Rightarrow> (recovery_state, recovery_error, unit) outcome" where
  "set_current_retention c sets s =
    (if \<not> list_all safe_id (purged sets @ held sets @ tombstoned sets)
     then (Inl (recovery_error ''RECOVERY_INPUT_INVALID'' 400), s)
     else (Inr (), s\<lparr>retention := dict_set (tenant_id c, workspace_id c) sets (retention s)\<rparr>))"

section \<open>Restores\<close>

definition starts_with :: "string \<Rightarrow> string \<Rightarrow> bool" where
  "starts_with prefix s \<longleftrightarrow> take (length prefix) s = prefix"

definition current_retention :: "recovery_context \<Rightarrow> recovery_state \<Rightarrow> retention_sets" where
  "current_retention c s = (case dict_get (retention s) (tenant_id c, workspace_id c) of
     None \<Rightarrow> \<lparr>purged = [], held = [], tombstoned = []\<rparr> | Some sets \<Rightarrow> sets)"

definition exclusion_reason :: "retention_sets \<Rightarrow> string \<Rightarrow> string option" where
  "exclusion_reason sets oid =
    (if oid \<in> set (purged sets) then Some ''purged''
     else if oid \<in> set (held sets) then Some ''held''
     else if oid \<in> set (tombstoned sets) then Some ''tombstoned''
     else None)"

text \<open>The loop over the objects: included identifiers and reasons, in manifest order.\<close>

fun split_objects ::
  "retention_sets \<Rightarrow> backup_object_input list \<Rightarrow> string list \<times> (string \<times> string) list" where
  "split_objects sets [] = ([], [])"
| "split_objects sets (x # xs) =
    (let (incl, reasons) = split_objects sets xs in
     (case exclusion_reason sets (object_id x) of
        None \<Rightarrow> (object_id x # incl, reasons)
      | Some reason \<Rightarrow> (incl, (object_id x, reason) # reasons)))"

definition build_preview ::
  "recovery_service \<Rightarrow> recovery_context \<Rightarrow> backup \<Rightarrow> restore_destination \<Rightarrow> int \<Rightarrow> recovery_state
    \<Rightarrow> (recovery_state, recovery_error, restore_preview) outcome" where
  "build_preview cfg c b d version s =
    (if \<not> list_all (starts_with (fixture_prefix cfg))
        [dest_tenant_id d, dest_workspace_id d, database_id d, bucket_id d]
     then (Inl (recovery_error ''FIXTURE_ONLY_RESTORE_REQUIRED'' 403), s)
     else if dest_tenant_id d = tenant_id (backup_context b)
        \<or> dest_workspace_id d = workspace_id (backup_context b)
     then (Inl (recovery_error ''IN_PLACE_RESTORE_FORBIDDEN'' 403), s)
     else let (incl, reasons) = split_objects (current_retention c s) (objects b);
              (now, s1) = read_clock cfg s
          in (Inr \<lparr>preview_version = version, included = incl, excluded = map fst reasons,
                exclusion_reasons = reasons, destination = d, previewed_at = now\<rparr>, s1))"

text \<open>Continue after a step that may already have changed the state.\<close>

definition proceed ::
  "('s, 'e, 'a) outcome \<Rightarrow> ('a \<Rightarrow> 's \<Rightarrow> ('s, 'e, 'b) outcome) \<Rightarrow> ('s, 'e, 'b) outcome" where
  "proceed r k = (case r of (Inl e, s) \<Rightarrow> (Inl e, s) | (Inr a, s) \<Rightarrow> k a s)"

definition advance_restore :: "restore_state \<Rightarrow> restore_request \<Rightarrow> restore_request" where
  "advance_restore st r = r\<lparr>req_state := st, transitions := transitions r @ [st]\<rparr>"

definition bump_version :: "restore_request \<Rightarrow> restore_request" where
  "bump_version r = r\<lparr>req_version := req_version r + 1\<rparr>"

definition create_restore_preview ::
  "recovery_service \<Rightarrow> recovery_context \<Rightarrow> string \<Rightarrow> restore_destination \<Rightarrow> string \<Rightarrow> bool
    \<Rightarrow> recovery_state \<Rightarrow> (recovery_state, recovery_error, restore_request_view) outcome" where
  "create_restore_preview cfg c bid d idempotency_key step_up_verified s =
    attempt (require_step_up c step_up_verified) s (\<lambda>_.
    attempt (safe idempotency_key) s (\<lambda>_.
    let fp = fingerprint (sha256_hex cfg)
          (JArr [JStr bid, JStr (destination_str d), JStr (policy_version c)]);
        key = (actor_id c, ''restore-preview'', idempotency_key) in
    attempt (find_backup s c bid) s (\<lambda>b.
    if backup_state b \<noteq> Ready then (Inl (recovery_error ''BACKUP_NOT_READY'' 409), s)
    else attempt (replay_lookup (idempotency s) key fp) s (\<lambda>found.
    case found of
      Some rid \<Rightarrow> attempt (find_restore s c rid) s (\<lambda>r. (Inr (view_restore r), s))
    | None \<Rightarrow> proceed (build_preview cfg c b d 1 s) (\<lambda>pv s1.
        let (rid, s2) = fresh_id cfg ''restore'' s1;
            r0 = \<lparr>request_id = rid, req_context = c, req_backup_id = bid, preview = pv,
              req_state = Requested, req_version = 1, transitions = [Requested],
              verification_digest = None\<rparr>;
            r1 = bump_version (advance_restore PreviewReady r0);
            s3 = audit_event cfg c ''restore.previewed'' rid
              (remember key fp rid (put_restore rid r1 s2))
        in (Inr (view_restore r1), s3))))))"

definition get_restore_request ::
  "recovery_context \<Rightarrow> string \<Rightarrow> recovery_state \<Rightarrow> recovery_error + restore_request_view" where
  "get_restore_request c rid s =
    (case require_admin c of Inl e \<Rightarrow> Inl e
     | Inr _ \<Rightarrow> (case find_restore s c rid of Inl e \<Rightarrow> Inl e | Inr r \<Rightarrow> Inr (view_restore r)))"

definition allowed_objects :: "restore_preview \<Rightarrow> backup \<Rightarrow> backup_object_input list" where
  "allowed_objects pv b = filter (\<lambda>x. object_id x \<in> set (included pv)) (objects b)"

definition verification_text ::
  "restore_request \<Rightarrow> backup_object_input list \<Rightarrow> recovery_state \<Rightarrow> json" where
  "verification_text r objs s = JArr [JStr (request_id r), JStr (destination_str (destination (preview r))),
     objects_json objs,
     if audit s = [] then JNull else JStr (ev_event_hash (last (audit s)))]"

text \<open>
  The part of \<open>execute_restore\<close> after its guards and the new preview. The request is stored and
  mutable in the source, so that a failed attempt leaves its transitions behind.
\<close>

definition run_restore ::
  "recovery_service \<Rightarrow> recovery_context \<Rightarrow> string \<Rightarrow> restore_request \<Rightarrow> backup \<Rightarrow> restore_preview
    \<Rightarrow> string \<times> string \<times> string \<Rightarrow> string \<Rightarrow> recovery_state
    \<Rightarrow> (recovery_state, recovery_error, restore_request_view) outcome" where
  "run_restore cfg c rid r b pv key fp s =
    (let r1 = fold advance_restore [Authorized, Restoring] (r\<lparr>preview := pv\<rparr>);
         objs = allowed_objects pv b;
         (ok, p') = port_restore (destination pv) objs (port s);
         s1 = s\<lparr>port := p'\<rparr> in
     if \<not> ok then
       (Inl (RecoveryError ''RESOURCE_UNAVAILABLE'' 503 True),
        put_restore rid (bump_version (advance_restore Failed r1)) s1)
     else
       let r2 = (advance_restore Verifying r1)\<lparr>verification_digest :=
                  Some (fingerprint (sha256_hex cfg) (verification_text r1 objs s1))\<rparr>;
           r3 = bump_version (advance_restore Completed r2);
           s2 = audit_event cfg c ''restore.completed'' (request_id r3)
             (remember key fp (request_id r3) (put_restore rid r3 s1))
       in (Inr (view_restore r3), s2))"

definition execute_restore ::
  "recovery_service \<Rightarrow> recovery_context \<Rightarrow> string \<Rightarrow> int \<Rightarrow> int \<Rightarrow> string \<Rightarrow> bool \<Rightarrow> recovery_state
    \<Rightarrow> (recovery_state, recovery_error, restore_request_view) outcome" where
  "execute_restore cfg c rid expected shown idempotency_key step_up_verified s =
    attempt (require_step_up c step_up_verified) s (\<lambda>_.
    attempt (safe idempotency_key) s (\<lambda>_.
    let fp = fingerprint (sha256_hex cfg)
          (JArr [JStr rid, JInt expected, JInt shown, JStr (policy_version c)]);
        key = (actor_id c, ''restore-execute'', idempotency_key) in
    attempt (find_restore s c rid) s (\<lambda>r.
    attempt (replay_lookup (idempotency s) key fp) s (\<lambda>found.
    if found \<noteq> None then (Inr (view_restore r), s)
    else if req_version r \<noteq> expected \<or> preview_version (preview r) \<noteq> shown
    then (Inl (recovery_error ''RESTORE_VERSION_CONFLICT'' 409), s)
    else if req_state r \<noteq> PreviewReady
    then (Inl (recovery_error ''RESTORE_STATE_INVALID'' 409), s)
    else attempt (find_backup s c (req_backup_id r)) s (\<lambda>b.
    proceed (build_preview cfg c b (destination (preview r)) (preview_version (preview r) + 1) s)
      (\<lambda>pv s1. run_restore cfg c rid r b pv key fp s1))))))"

definition cancel_restore ::
  "recovery_service \<Rightarrow> recovery_context \<Rightarrow> string \<Rightarrow> int \<Rightarrow> string \<Rightarrow> recovery_state
    \<Rightarrow> (recovery_state, recovery_error, restore_request_view) outcome" where
  "cancel_restore cfg c rid expected idempotency_key s =
    attempt (require_admin c) s (\<lambda>_.
    attempt (safe idempotency_key) s (\<lambda>_.
    let fp = fingerprint (sha256_hex cfg) (JArr [JStr rid, JInt expected]);
        key = (actor_id c, ''restore-cancel'', idempotency_key) in
    attempt (find_restore s c rid) s (\<lambda>r.
    attempt (replay_lookup (idempotency s) key fp) s (\<lambda>found.
    if found \<noteq> None then (Inr (view_restore r), s)
    else if req_version r \<noteq> expected
    then (Inl (recovery_error ''RESTORE_VERSION_CONFLICT'' 409), s)
    else if req_state r \<notin> {Requested, PreviewReady, Authorized}
    then (Inl (recovery_error ''RESTORE_STATE_INVALID'' 409), s)
    else let r' = bump_version (advance_restore Cancelled r);
             s' = audit_event cfg c ''restore.cancelled'' (request_id r')
               (remember key fp (request_id r') (put_restore rid r' s))
         in (Inr (view_restore r'), s')))))"

text \<open>\<open>UnavailableRecoveryService\<close>: the port of a runtime without durable recovery.\<close>

definition unavailable :: "'s \<Rightarrow> ('s, recovery_error, 'a) outcome" where
  "unavailable s = (Inl (recovery_error ''RESOURCE_UNAVAILABLE'' 503), s)"

end
