(* ===== verification/Recovery_Invariant.thy ===== *)
theory Recovery_Invariant
  imports Recovery
begin

text \<open>
  The invariant of the recovery service: what each handler can leave behind, the step relation,
  the lifecycle of a restore request, its preservation, and the interpretations of the shared
  contracts on backups and on restore requests.
\<close>

section \<open>Frame facts\<close>

lemma recovery_audit_event_eq:
  "audit_event cfg c a g s = s\<lparr>clock_reads := Suc (clock_reads s),
     audit := audit s @ [seal_event cfg (c, a, g, clock cfg (clock_reads s))
       (chain_head ev_event_hash (audit s))]\<rparr>"
  by (simp add: audit_event_def read_clock_def Let_def)

lemma recovery_audit_event_simps [simp]:
  "backups (audit_event cfg c a g s) = backups s"
  "restores (audit_event cfg c a g s) = restores s"
  "idempotency (audit_event cfg c a g s) = idempotency s"
  "retention (audit_event cfg c a g s) = retention s"
  "port (audit_event cfg c a g s) = port s"
  "tokens_drawn (audit_event cfg c a g s) = tokens_drawn s"
  by (simp_all add: recovery_audit_event_eq)

lemma recovery_put_simps [simp]:
  "backups (put_restore i r s) = backups s" "restores (put_restore i r s) = dict_set i r (restores s)"
  "idempotency (put_restore i r s) = idempotency s" "retention (put_restore i r s) = retention s"
  "audit (put_restore i r s) = audit s" "port (put_restore i r s) = port s"
  "tokens_drawn (put_restore i r s) = tokens_drawn s"
  "backups (put_backup i b s) = dict_set i b (backups s)" "restores (put_backup i b s) = restores s"
  "idempotency (put_backup i b s) = idempotency s" "retention (put_backup i b s) = retention s"
  "audit (put_backup i b s) = audit s" "port (put_backup i b s) = port s"
  "tokens_drawn (put_backup i b s) = tokens_drawn s"
  "backups (remember k f v s) = backups s" "restores (remember k f v s) = restores s"
  "idempotency (remember k f v s) = dict_set k (f, v) (idempotency s)"
  "retention (remember k f v s) = retention s" "audit (remember k f v s) = audit s"
  "port (remember k f v s) = port s" "tokens_drawn (remember k f v s) = tokens_drawn s"
  by (simp_all add: put_restore_def put_backup_def remember_def)

lemma advance_restore_simps [simp]:
  "request_id (advance_restore st r) = request_id r"
  "req_context (advance_restore st r) = req_context r"
  "req_backup_id (advance_restore st r) = req_backup_id r"
  "preview (advance_restore st r) = preview r" "req_state (advance_restore st r) = st"
  "req_version (advance_restore st r) = req_version r"
  "transitions (advance_restore st r) = transitions r @ [st]"
  "verification_digest (advance_restore st r) = verification_digest r"
  by (simp_all add: advance_restore_def)

lemma bump_version_simps [simp]:
  "request_id (bump_version r) = request_id r" "req_context (bump_version r) = req_context r"
  "req_backup_id (bump_version r) = req_backup_id r" "preview (bump_version r) = preview r"
  "req_state (bump_version r) = req_state r" "req_version (bump_version r) = req_version r + 1"
  "transitions (bump_version r) = transitions r"
  "verification_digest (bump_version r) = verification_digest r"
  by (simp_all add: bump_version_def)

lemma find_backup_InrD:
  "find_backup s c i = Inr b \<Longrightarrow> dict_get (backups s) i = Some b
    \<and> context_scope (backup_context b) = context_scope c"
  by (auto simp: find_backup_def context_scope_def split: option.splits if_splits)

lemma find_restore_InrD:
  "find_restore s c i = Inr r \<Longrightarrow> dict_get (restores s) i = Some r
    \<and> context_scope (req_context r) = context_scope c"
  by (auto simp: find_restore_def context_scope_def split: option.splits if_splits)

lemma recovery_replay_None: "replay_lookup l k f = Inr None \<longleftrightarrow> dict_get l k = None"
  by (auto simp: replay_lookup_def split: option.splits if_splits)

lemma proceed_split:
  "P (proceed r k) \<longleftrightarrow> (\<forall>e s. r = (Inl e, s) \<longrightarrow> P (Inl e, s)) \<and> (\<forall>a s. r = (Inr a, s) \<longrightarrow> P (k a s))"
  by (cases r; cases "fst r") (auto simp: proceed_def)

lemma proceed_split_asm:
  "P (proceed r k) \<longleftrightarrow> \<not> ((\<exists>e s. r = (Inl e, s) \<and> \<not> P (Inl e, s)) \<or> (\<exists>a s. r = (Inr a, s) \<and> \<not> P (k a s)))"
  by (cases r; cases "fst r") (auto simp: proceed_def)

lemmas outcome_splits = attempt_splits proceed_split proceed_split_asm if_splits option.splits

section \<open>The preview\<close>

lemma split_objects_eq:
  "split_objects sets xs =
    (map object_id (filter (\<lambda>x. exclusion_reason sets (object_id x) = None) xs),
     map (\<lambda>x. (object_id x, the (exclusion_reason sets (object_id x))))
       (filter (\<lambda>x. exclusion_reason sets (object_id x) \<noteq> None) xs))"
  by (induction xs) (auto simp: Let_def split: option.splits)

text \<open>What a preview promises: an isolated destination and a partition of the manifest.\<close>

definition isolated :: "recovery_service \<Rightarrow> backup \<Rightarrow> restore_destination \<Rightarrow> bool" where
  "isolated cfg b d \<longleftrightarrow>
    list_all (starts_with (fixture_prefix cfg))
      [dest_tenant_id d, dest_workspace_id d, database_id d, bucket_id d]
    \<and> dest_tenant_id d \<noteq> tenant_id (backup_context b)
    \<and> dest_workspace_id d \<noteq> workspace_id (backup_context b)"

definition preview_of :: "retention_sets \<Rightarrow> backup \<Rightarrow> restore_preview \<Rightarrow> bool" where
  "preview_of sets b pv \<longleftrightarrow>
    included pv = map object_id (filter (\<lambda>x. exclusion_reason sets (object_id x) = None) (objects b))
    \<and> exclusion_reasons pv = map (\<lambda>x. (object_id x, the (exclusion_reason sets (object_id x))))
        (filter (\<lambda>x. exclusion_reason sets (object_id x) \<noteq> None) (objects b))
    \<and> excluded pv = map fst (exclusion_reasons pv)"

lemma build_preview_effect:
  assumes "build_preview cfg c b d n s = (res, t)"
  shows "(\<exists>e. res = Inl e \<and> t = s) \<or>
    (\<exists>pv. res = Inr pv \<and> t = s\<lparr>clock_reads := Suc (clock_reads s)\<rparr> \<and> isolated cfg b d
      \<and> preview_of (current_retention c s) b pv \<and> destination pv = d \<and> preview_version pv = n)"
  using assms
  by (auto simp: build_preview_def split_objects_eq read_clock_def isolated_def preview_of_def Let_def
      split: if_splits)

section \<open>Effects of the handlers\<close>

lemma create_backup_effect:
  assumes "create_backup cfg c trig schema wm objs k s = (res, t)"
  shows "t = s \<or> (\<exists>fp. organization_admin c \<and> objs \<noteq> [] \<and> distinct (map object_id objs)
    \<and> dict_get (idempotency s) (actor_id c, ''backup'', k) = None
    \<and> fp = create_fingerprint cfg c trig schema wm objs
    \<and> capture_backup cfg c trig schema wm objs (actor_id c, ''backup'', k) fp s = (res, t))"
  using assms
  by (auto simp: create_backup_def require_admin_def recovery_replay_None Let_def split: outcome_splits)

definition captured ::
  "recovery_service \<Rightarrow> recovery_context \<Rightarrow> string \<Rightarrow> string \<Rightarrow> string \<Rightarrow> backup_object_input list
    \<Rightarrow> recovery_state \<Rightarrow> backup" where
  "captured cfg c trig schema wm objs s =
    \<lparr>backup_id = ''backup'' @ ''-'' @ token_hex cfg (tokens_drawn s), backup_context = c, trigger = trig,
     created_at = clock cfg (clock_reads s), backup_schema = schema, backup_watermark = wm,
     objects = objs, backup_state = Ready, backup_version = 2,
     verified_at = Some (clock cfg (clock_reads s)),
     backup_transitions = [Queued, Capturing, VerifyingBackup, Ready]\<rparr>"

lemma capture_backup_eq:
  "capture_backup cfg c trig schema wm objs key fp s =
    (let b = captured cfg c trig schema wm objs s in
     (Inr (view_backup cfg b),
      audit_event cfg c ''backup.verified'' (backup_id b) (remember key fp (backup_id b)
        (put_backup (backup_id b) b (s\<lparr>clock_reads := Suc (clock_reads s),
          tokens_drawn := Suc (tokens_drawn s)\<rparr>)))))"
  by (simp add: capture_backup_def captured_def read_clock_def fresh_id_def advance_backup_def Let_def)

definition previewed ::
  "recovery_service \<Rightarrow> recovery_context \<Rightarrow> string \<Rightarrow> restore_preview \<Rightarrow> recovery_state \<Rightarrow> restore_request"
where
  "previewed cfg c bid pv s =
    \<lparr>request_id = ''restore'' @ ''-'' @ token_hex cfg (tokens_drawn s), req_context = c,
     req_backup_id = bid, preview = pv, req_state = PreviewReady, req_version = 2,
     transitions = [Requested, PreviewReady], verification_digest = None\<rparr>"

lemma create_preview_cases:
  assumes "create_restore_preview cfg c bid d k v s = (res, t)"
  shows "t = s \<or> (\<exists>b pv fp s1. organization_admin c \<and> v \<and> find_backup s c bid = Inr b
    \<and> backup_state b = Ready \<and> build_preview cfg c b d 1 s = (Inr pv, s1)
    \<and> dict_get (idempotency s) (actor_id c, ''restore-preview'', k) = None
    \<and> res = Inr (view_restore (previewed cfg c bid pv s1))
    \<and> t = audit_event cfg c ''restore.previewed'' (request_id (previewed cfg c bid pv s1))
        (remember (actor_id c, ''restore-preview'', k) fp (request_id (previewed cfg c bid pv s1))
          (put_restore (request_id (previewed cfg c bid pv s1)) (previewed cfg c bid pv s1)
            (s1\<lparr>tokens_drawn := Suc (tokens_drawn s1)\<rparr>))))"
  using assms
  by (simp add: create_restore_preview_def require_step_up_def require_admin_def recovery_replay_None
      fresh_id_def previewed_def advance_restore_def bump_version_def Let_def
      split: outcome_splits; fastforce dest: build_preview_effect)

lemma create_preview_effect:
  assumes "create_restore_preview cfg c bid d k v s = (res, t)"
  obtains "t = s"
  | b pv fp r where "organization_admin c" "v" "find_backup s c bid = Inr b"
    "backup_state b = Ready" "isolated cfg b d" "preview_of (current_retention c s) b pv"
    "destination pv = d" "preview_version pv = 1"
    "dict_get (idempotency s) (actor_id c, ''restore-preview'', k) = None"
    "r = previewed cfg c bid pv s" "res = Inr (view_restore r)"
    "t = audit_event cfg c ''restore.previewed'' (request_id r)
        (remember (actor_id c, ''restore-preview'', k) fp (request_id r)
          (put_restore (request_id r) r (s\<lparr>clock_reads := Suc (clock_reads s),
            tokens_drawn := Suc (tokens_drawn s)\<rparr>)))"
proof -
  have same: "previewed cfg c bid pv (s\<lparr>clock_reads := n\<rparr>) = previewed cfg c bid pv s" for pv n
    by (simp add: previewed_def)
  show thesis
    using create_preview_cases [OF assms]
  proof (elim disjE exE conjE)
    fix b pv fp s1
    assume "build_preview cfg c b d 1 s = (Inr pv, s1)"
      and "find_backup s c bid = Inr b" "organization_admin c" v "backup_state b = Ready"
        "dict_get (idempotency s) (actor_id c, ''restore-preview'', k) = None"
        "res = Inr (view_restore (previewed cfg c bid pv s1))"
        "t = audit_event cfg c ''restore.previewed'' (request_id (previewed cfg c bid pv s1))
        (remember (actor_id c, ''restore-preview'', k) fp (request_id (previewed cfg c bid pv s1))
          (put_restore (request_id (previewed cfg c bid pv s1)) (previewed cfg c bid pv s1)
            (s1\<lparr>tokens_drawn := Suc (tokens_drawn s1)\<rparr>)))"
    then show thesis
      using build_preview_effect [of cfg c b d 1 s "Inr pv" s1] that(2) [of b pv "previewed cfg c bid pv s" fp]
      by (simp add: same)
  qed (rule that(1))
qed

lemma execute_effect:
  assumes "execute_restore cfg c rid m pn k v s = (res, t)"
  shows "t = s \<or> (\<exists>r b pv fp. organization_admin c \<and> v \<and> find_restore s c rid = Inr r
    \<and> req_version r = m \<and> preview_version (preview r) = pn \<and> req_state r = PreviewReady
    \<and> find_backup s c (req_backup_id r) = Inr b \<and> isolated cfg b (destination (preview r))
    \<and> preview_of (current_retention c s) b pv \<and> destination pv = destination (preview r)
    \<and> preview_version pv = pn + 1
    \<and> dict_get (idempotency s) (actor_id c, ''restore-execute'', k) = None
    \<and> run_restore cfg c rid r b pv (actor_id c, ''restore-execute'', k) fp
        (s\<lparr>clock_reads := Suc (clock_reads s)\<rparr>) = (res, t))"
  using assms
  by (auto simp: execute_restore_def require_step_up_def require_admin_def recovery_replay_None Let_def
      split: outcome_splits dest!: build_preview_effect)

lemma cancel_restore_effect:
  assumes "cancel_restore cfg c rid m k s = (res, t)"
  shows "t = s \<or> (\<exists>r r' fp. organization_admin c \<and> find_restore s c rid = Inr r \<and> req_version r = m
    \<and> req_state r \<in> {Requested, PreviewReady, Authorized}
    \<and> dict_get (idempotency s) (actor_id c, ''restore-cancel'', k) = None
    \<and> r' = bump_version (advance_restore Cancelled r) \<and> res = Inr (view_restore r')
    \<and> t = audit_event cfg c ''restore.cancelled'' (request_id r')
        (remember (actor_id c, ''restore-cancel'', k) fp (request_id r') (put_restore rid r' s)))"
  using assms
  by (auto simp: cancel_restore_def require_admin_def recovery_replay_None Let_def split: outcome_splits)

lemma set_retention_effect:
  assumes "set_current_retention c sets s = (res, t)"
  shows "t = s \<or> t = s\<lparr>retention := dict_set (tenant_id c, workspace_id c) sets (retention s)\<rparr>"
  using assms by (auto simp: set_current_retention_def split: if_splits)

definition failed_restore :: "restore_preview \<Rightarrow> restore_request \<Rightarrow> restore_request" where
  "failed_restore pv r = bump_version (fold advance_restore [Authorized, Restoring, Failed]
     (r\<lparr>preview := pv\<rparr>))"

definition completed_restore :: "string \<Rightarrow> restore_preview \<Rightarrow> restore_request \<Rightarrow> restore_request" where
  "completed_restore digest pv r = bump_version
     (fold advance_restore [Authorized, Restoring, Verifying, Completed]
       (r\<lparr>preview := pv, verification_digest := Some digest\<rparr>))"

lemma run_restore_cases:
  assumes "run_restore cfg c rid r b pv key fp s = (res, t)"
  obtains "list_ex (\<lambda>x. object_id x \<in> set (fail_object_ids (port s))) (allowed_objects pv b)"
    "res = Inl (RecoveryError ''RESOURCE_UNAVAILABLE'' 503 True)"
    "t = put_restore rid (failed_restore pv r) s"
  | digest r3 where
    "\<not> list_ex (\<lambda>x. object_id x \<in> set (fail_object_ids (port s))) (allowed_objects pv b)"
    "r3 = completed_restore digest pv r" "res = Inr (view_restore r3)"
    "t = audit_event cfg c ''restore.completed'' (request_id r)
       (remember key fp (request_id r) (put_restore rid r3 (s\<lparr>port := (port s)
         \<lparr>destinations := destinations (port s) @ [destination pv],
          restored_object_ids := restored_object_ids (port s)
            @ map object_id (allowed_objects pv b)\<rparr>\<rparr>)))"
  using assms
  by (auto simp: run_restore_def port_restore_def failed_restore_def completed_restore_def
      advance_restore_def bump_version_def Let_def split: if_splits)

section \<open>Steps\<close>

inductive recovery_step ::
  "recovery_service \<Rightarrow> scope \<Rightarrow> recovery_state \<Rightarrow> recovery_state \<Rightarrow> bool" for cfg where
  step_backup: "create_backup cfg c trig schema wm objs k s = (res, t)
    \<Longrightarrow> recovery_step cfg (context_scope c) s t"
| step_due: "backup_due cfg c s = (due, t) \<Longrightarrow> recovery_step cfg (context_scope c) s t"
| step_retention: "set_current_retention c sets s = (res, t)
    \<Longrightarrow> recovery_step cfg (context_scope c) s t"
| step_preview: "create_restore_preview cfg c bid d k v s = (res, t)
    \<Longrightarrow> recovery_step cfg (context_scope c) s t"
| step_execute: "execute_restore cfg c rid m pn k v s = (res, t)
    \<Longrightarrow> recovery_step cfg (context_scope c) s t"
| step_cancel: "cancel_restore cfg c rid m k s = (res, t)
    \<Longrightarrow> recovery_step cfg (context_scope c) s t"

definition recovery_start :: "recovery_service \<Rightarrow> recovery_state \<Rightarrow> bool" where
  "recovery_start cfg s \<longleftrightarrow> inj (token_hex cfg) \<and> (\<exists>p. destinations p = [] \<and> s = empty_repository p)"

section \<open>Invariant\<close>

text \<open>The four lives of a stored restore request.\<close>

definition restore_lives ::
  "(restore_state list \<times> restore_state \<times> int \<times> int \<times> bool) list" where
  "restore_lives =
    [([Requested, PreviewReady], PreviewReady, 2, 1, False),
     ([Requested, PreviewReady, Cancelled], Cancelled, 3, 1, False),
     ([Requested, PreviewReady, Authorized, Restoring, Failed], Failed, 3, 2, False),
     ([Requested, PreviewReady, Authorized, Restoring, Verifying, Completed], Completed, 3, 2, True)]"

definition life :: "restore_request \<Rightarrow> restore_state list \<times> restore_state \<times> int \<times> int \<times> bool" where
  "life r = (transitions r, req_state r, req_version r, preview_version (preview r),
     verification_digest r \<noteq> None)"

definition backup_ok :: "string \<Rightarrow> backup \<Rightarrow> bool" where
  "backup_ok bid b \<longleftrightarrow> backup_id b = bid \<and> backup_state b = Ready \<and> backup_version b = 2
    \<and> backup_transitions b = [Queued, Capturing, VerifyingBackup, Ready]
    \<and> verified_at b = Some (created_at b) \<and> objects b \<noteq> [] \<and> distinct (map object_id (objects b))
    \<and> organization_admin (backup_context b)"

definition restore_ok ::
  "recovery_service \<Rightarrow> (string, backup) dict \<Rightarrow> string \<Rightarrow> restore_request \<Rightarrow> bool" where
  "restore_ok cfg bs rid r \<longleftrightarrow> request_id r = rid \<and> life r \<in> set restore_lives
    \<and> (\<exists>b sets. dict_get bs (req_backup_id r) = Some b
        \<and> context_scope (backup_context b) = context_scope (req_context r)
        \<and> isolated cfg b (destination (preview r)) \<and> preview_of sets b (preview r))"

definition recovery_drawn :: "recovery_service \<Rightarrow> recovery_state \<Rightarrow> string \<Rightarrow> string \<Rightarrow> bool" where
  "recovery_drawn cfg s prefix x \<longleftrightarrow> (\<exists>n < tokens_drawn s. x = prefix @ ''-'' @ token_hex cfg n)"

definition recovery_chain_ok :: "recovery_service \<Rightarrow> recovery_event list \<Rightarrow> bool" where
  "recovery_chain_ok cfg es = chained ev_previous_hash ev_event_hash (event_digest cfg) es"

definition fixture_destination :: "recovery_service \<Rightarrow> restore_destination \<Rightarrow> bool" where
  "fixture_destination cfg d \<longleftrightarrow> list_all (starts_with (fixture_prefix cfg))
      [dest_tenant_id d, dest_workspace_id d, database_id d, bucket_id d]"

definition recovery_inv :: "recovery_service \<Rightarrow> recovery_state \<Rightarrow> bool" where
  "recovery_inv cfg s \<longleftrightarrow> inj (token_hex cfg) \<and> dict_ok (backups s) \<and> dict_ok (restores s)
    \<and> (\<forall>bid b. dict_get (backups s) bid = Some b \<longrightarrow>
        backup_ok bid b \<and> recovery_drawn cfg s ''backup'' bid)
    \<and> (\<forall>rid r. dict_get (restores s) rid = Some r \<longrightarrow>
        restore_ok cfg (backups s) rid r \<and> recovery_drawn cfg s ''restore'' rid)
    \<and> list_all (fixture_destination cfg) (destinations (port s))
    \<and> recovery_chain_ok cfg (audit s)"

section \<open>What a step does\<close>

text \<open>
  Every handler leaves the repository as it is, adds a backup, adds a restore request, or gives
  a request in state preview-ready one of its three ends.
\<close>

definition restore_end ::
  "(string, backup) dict \<Rightarrow> restore_request \<Rightarrow> restore_request \<Rightarrow> bool" where
  "restore_end bs x y \<longleftrightarrow> req_state x = PreviewReady
    \<and> (y = bump_version (advance_restore Cancelled x)
      \<or> (\<exists>pv. (y = failed_restore pv x \<or> (\<exists>digest. y = completed_restore digest pv x))
          \<and> destination pv = destination (preview x)
          \<and> preview_version pv = preview_version (preview x) + 1
          \<and> (\<exists>b sets. dict_get bs (req_backup_id x) = Some b \<and> preview_of sets b pv)))"

lemma ended_simps [simp]:
  "request_id (failed_restore pv r) = request_id r"
  "req_context (failed_restore pv r) = req_context r"
  "req_backup_id (failed_restore pv r) = req_backup_id r"
  "preview (failed_restore pv r) = pv" "req_state (failed_restore pv r) = Failed"
  "req_version (failed_restore pv r) = req_version r + 1"
  "request_id (completed_restore g pv r) = request_id r"
  "req_context (completed_restore g pv r) = req_context r"
  "req_backup_id (completed_restore g pv r) = req_backup_id r"
  "preview (completed_restore g pv r) = pv" "req_state (completed_restore g pv r) = Completed"
  "req_version (completed_restore g pv r) = req_version r + 1"
  "verification_digest (completed_restore g pv r) = Some g"
  by (simp_all add: failed_restore_def completed_restore_def)

lemma restore_end_frame:
  assumes "restore_end bs x y"
  shows "request_id y = request_id x" and "req_context y = req_context x"
    and "req_backup_id y = req_backup_id x" and "req_version y = req_version x + 1"
    and "req_state y \<in> {Cancelled, Failed, Completed}"
    and "destination (preview y) = destination (preview x)"
  using assms by (auto simp: restore_end_def)

lemma restore_end_ok:
  assumes "restore_ok cfg bs rid x" and "restore_end bs x y"
  shows "restore_ok cfg bs rid y"
proof -
  have x: "transitions x = [Requested, PreviewReady]" "req_version x = 2"
      "preview_version (preview x) = 1" "verification_digest x = None"
    using assms by (auto simp: restore_ok_def restore_end_def life_def restore_lives_def)
  have ends: "life (bump_version (advance_restore Cancelled x)) \<in> set restore_lives"
      "preview_version pv = 2 \<Longrightarrow> life (failed_restore pv x) \<in> set restore_lives"
      "preview_version pv = 2 \<Longrightarrow> life (completed_restore g pv x) \<in> set restore_lives" for pv g
    by (simp_all add: x life_def restore_lives_def failed_restore_def completed_restore_def)
  have "life y \<in> set restore_lives"
    using assms(2) ends x(3) unfolding restore_end_def by auto
  moreover obtain b sets where b: "dict_get bs (req_backup_id x) = Some b"
      and "preview_of sets b (preview y)"
    using assms by (auto simp: restore_ok_def restore_end_def)
  moreover have "context_scope (backup_context b) = context_scope (req_context x)"
      "isolated cfg b (destination (preview x))" "request_id x = rid"
    using assms(1) b by (auto simp: restore_ok_def)
  ultimately show ?thesis
    unfolding restore_ok_def restore_end_frame [OF assms(2)] by blast
qed

definition recovery_change :: "recovery_service \<Rightarrow> scope \<Rightarrow> recovery_state \<Rightarrow> recovery_state \<Rightarrow> bool"
where
  "recovery_change cfg sc s t \<longleftrightarrow>
    (backups t = backups s \<and> restores t = restores s \<and> tokens_drawn t = tokens_drawn s)
    \<or> (\<exists>b. backup_ok (backup_id b) b \<and> context_scope (backup_context b) = sc
        \<and> backup_id b = ''backup'' @ ''-'' @ token_hex cfg (tokens_drawn s)
        \<and> backups t = dict_set (backup_id b) b (backups s) \<and> restores t = restores s
        \<and> tokens_drawn t = Suc (tokens_drawn s))
    \<or> (\<exists>r. restore_ok cfg (backups s) (request_id r) r \<and> context_scope (req_context r) = sc
        \<and> request_id r = ''restore'' @ ''-'' @ token_hex cfg (tokens_drawn s)
        \<and> restores t = dict_set (request_id r) r (restores s) \<and> backups t = backups s
        \<and> tokens_drawn t = Suc (tokens_drawn s))
    \<or> (\<exists>rid x y. dict_get (restores s) rid = Some x \<and> context_scope (req_context x) = sc
        \<and> restore_end (backups s) x y \<and> restores t = dict_set rid y (restores s)
        \<and> backups t = backups s \<and> tokens_drawn t = tokens_drawn s)"

lemma change_none:
  "backups t = backups s \<Longrightarrow> restores t = restores s \<Longrightarrow> tokens_drawn t = tokens_drawn s
    \<Longrightarrow> recovery_change cfg sc s t"
  by (simp add: recovery_change_def)

lemma change_backup:
  "backup_ok (backup_id b) b \<Longrightarrow> context_scope (backup_context b) = sc
    \<Longrightarrow> backup_id b = ''backup'' @ ''-'' @ token_hex cfg (tokens_drawn s)
    \<Longrightarrow> backups t = dict_set (backup_id b) b (backups s) \<Longrightarrow> restores t = restores s
    \<Longrightarrow> tokens_drawn t = Suc (tokens_drawn s) \<Longrightarrow> recovery_change cfg sc s t"
  unfolding recovery_change_def by blast

lemma change_restore:
  "restore_ok cfg (backups s) (request_id r) r \<Longrightarrow> context_scope (req_context r) = sc
    \<Longrightarrow> request_id r = ''restore'' @ ''-'' @ token_hex cfg (tokens_drawn s)
    \<Longrightarrow> restores t = dict_set (request_id r) r (restores s) \<Longrightarrow> backups t = backups s
    \<Longrightarrow> tokens_drawn t = Suc (tokens_drawn s) \<Longrightarrow> recovery_change cfg sc s t"
  unfolding recovery_change_def by blast

lemma change_end:
  "dict_get (restores s) rid = Some x \<Longrightarrow> context_scope (req_context x) = sc
    \<Longrightarrow> restore_end (backups s) x y \<Longrightarrow> restores t = dict_set rid y (restores s)
    \<Longrightarrow> backups t = backups s \<Longrightarrow> tokens_drawn t = tokens_drawn s \<Longrightarrow> recovery_change cfg sc s t"
  unfolding recovery_change_def by blast

lemma create_backup_change:
  assumes "create_backup cfg c trig schema wm objs k s = (res, t)"
  shows "recovery_change cfg (context_scope c) s t"
  using create_backup_effect [OF assms]
proof (elim disjE exE conjE)
  fix fp
  let ?b = "captured cfg c trig schema wm objs s"
  assume "organization_admin c" "objs \<noteq> []" "distinct (map object_id objs)"
    and run: "capture_backup cfg c trig schema wm objs (actor_id c, ''backup'', k) fp s = (res, t)"
  then have "backup_ok (backup_id ?b) ?b"
    by (simp add: backup_ok_def captured_def)
  then show ?thesis
    by (rule change_backup) (use run in \<open>auto simp: captured_def capture_backup_eq Let_def\<close>)
qed (simp add: change_none)

lemma create_preview_change:
  assumes "create_restore_preview cfg c bid d k v s = (res, t)"
  shows "recovery_change cfg (context_scope c) s t"
  using assms
proof (cases rule: create_preview_effect)
  case 1
  then show ?thesis by (simp add: change_none)
next
  case (2 b pv fp r)
  have "restore_ok cfg (backups s) (request_id r) r"
    using 2(5-8,10) find_backup_InrD [OF 2(3)]
    by (auto simp: restore_ok_def previewed_def life_def restore_lives_def)
  then show ?thesis
    by (rule change_restore) (simp_all add: 2(10,12), simp_all add: previewed_def)
qed

lemma execute_change:
  assumes "execute_restore cfg c rid m pn k v s = (res, t)"
  shows "recovery_change cfg (context_scope c) s t"
  using execute_effect [OF assms]
proof (elim disjE exE conjE)
  fix r b pv fp
  assume r: "find_restore s c rid = Inr r" "req_state r = PreviewReady" "preview_version (preview r) = pn"
    and b: "find_backup s c (req_backup_id r) = Inr b" and pv: "preview_of (current_retention c s) b pv"
      "destination pv = destination (preview r)" "preview_version pv = pn + 1"
    and run: "run_restore cfg c rid r b pv (actor_id c, ''restore-execute'', k) fp
        (s\<lparr>clock_reads := Suc (clock_reads s)\<rparr>) = (res, t)"
  have ends: "restore_end (backups s) r (failed_restore pv r)"
      "restore_end (backups s) r (completed_restore g pv r)" for g
    using r(2,3) pv find_backup_InrD [OF b] unfolding restore_end_def by blast+
  note get = find_restore_InrD [OF r(1)]
  from run show ?thesis
  proof (cases rule: run_restore_cases)
    case 1
    then show ?thesis
      by (intro change_end [OF _ _ ends(1)]) (use get in simp_all)
  next
    case (2 digest r3)
    then show ?thesis
      by (intro change_end [OF _ _ ends(2)]) (use get in simp_all)
  qed
qed (simp add: change_none)

lemma cancel_change:
  assumes "cancel_restore cfg c rid m k s = (res, t)" and "recovery_inv cfg s"
  shows "recovery_change cfg (context_scope c) s t"
  using cancel_restore_effect [OF assms(1)]
proof (elim disjE exE conjE)
  fix r r' fp
  assume r: "find_restore s c rid = Inr r" "req_state r \<in> {Requested, PreviewReady, Authorized}"
    and r': "r' = bump_version (advance_restore Cancelled r)"
    and t: "t = audit_event cfg c ''restore.cancelled'' (request_id r')
        (remember (actor_id c, ''restore-cancel'', k) fp (request_id r') (put_restore rid r' s))"
  note get = find_restore_InrD [OF r(1)]
  have "restore_ok cfg (backups s) rid r"
    using assms(2) get by (simp add: recovery_inv_def)
  then have "req_state r = PreviewReady"
    using r(2) by (auto simp: restore_ok_def life_def restore_lives_def)
  then have "restore_end (backups s) r r'"
    by (simp add: restore_end_def r')
  then show ?thesis
    by (intro change_end) (use get in \<open>simp_all add: t\<close>)
qed (simp add: change_none)

lemma backup_due_state: "backup_due cfg c s = (due, t) \<Longrightarrow> t = s \<or> t = s\<lparr>clock_reads := Suc (clock_reads s)\<rparr>"
  by (auto simp: backup_due_def read_clock_def Let_def split: if_splits)

lemma step_change:
  "recovery_step cfg sc s t \<Longrightarrow> recovery_inv cfg s \<Longrightarrow> recovery_change cfg sc s t"
proof (induction rule: recovery_step.induct)
  case (step_due c s due t)
  then show ?case by (auto dest!: backup_due_state intro: change_none)
next
  case (step_retention c sets s res t)
  then show ?case by (auto dest!: set_retention_effect intro: change_none)
qed (blast intro: create_backup_change create_preview_change execute_change cancel_change)+

section \<open>Audit trail and restore port\<close>

lemma recovery_seal_simps [simp]:
  "ev_previous_hash (seal_event cfg d p) = p"
  "ev_event_hash (seal_event cfg d p) = event_digest cfg (seal_event cfg d p)"
  by (simp_all add: seal_event_def event_digest_def event_body_def Let_def split: prod.split)

interpretation recovery_trail: hash_chain "seal_event cfg" ev_previous_hash ev_event_hash
  "event_digest cfg" for cfg
  by unfold_locales simp_all

lemma recovery_chain_audit [simp]:
  "recovery_chain_ok cfg (audit s) \<Longrightarrow> recovery_chain_ok cfg (audit (audit_event cfg c a g s))"
  unfolding recovery_chain_ok_def recovery_audit_event_eq
  using recovery_trail.chained_seal by simp

text \<open>
  The port changes only when a restore is executed for an administrator with step-up, from a
  preview-ready request of the own scope: then by one isolated destination and by exactly the
  objects of the manifest that the current retention state does not exclude.
\<close>

definition restored_from ::
  "recovery_service \<Rightarrow> recovery_state \<Rightarrow> recovery_context \<Rightarrow> restore_request \<Rightarrow> backup \<Rightarrow> restore_port \<Rightarrow> bool"
where
  "restored_from cfg s c r b p \<longleftrightarrow>
    p = (port s)\<lparr>destinations := destinations (port s) @ [destination (preview r)],
      restored_object_ids := restored_object_ids (port s)
        @ filter (\<lambda>oid. exclusion_reason (current_retention c s) oid = None)
            (map object_id (objects b))\<rparr>"

lemma filter_map_ids: "filter P (map f xs) = map f (filter (\<lambda>x. P (f x)) xs)"
  by (simp add: filter_map comp_def)

lemma allowed_objects_eq:
  assumes "preview_of sets b pv"
  shows "allowed_objects pv b = filter (\<lambda>x. exclusion_reason sets (object_id x) = None) (objects b)"
  using assms by (auto simp: allowed_objects_def preview_of_def intro!: filter_cong)

lemma execute_port:
  assumes "execute_restore cfg c rid m pn k v s = (res, t)" and "port t \<noteq> port s"
  shows "\<exists>r b. organization_admin c \<and> v \<and> find_restore s c rid = Inr r \<and> req_state r = PreviewReady
    \<and> find_backup s c (req_backup_id r) = Inr b \<and> isolated cfg b (destination (preview r))
    \<and> restored_from cfg s c r b (port t)"
  using execute_effect [OF assms(1)]
proof (elim disjE exE conjE)
  fix r b pv fp
  assume r: "organization_admin c" v "find_restore s c rid = Inr r" "req_state r = PreviewReady"
      "find_backup s c (req_backup_id r) = Inr b" "isolated cfg b (destination (preview r))"
    and pv: "preview_of (current_retention c s) b pv" "destination pv = destination (preview r)"
    and run: "run_restore cfg c rid r b pv (actor_id c, ''restore-execute'', k) fp
        (s\<lparr>clock_reads := Suc (clock_reads s)\<rparr>) = (res, t)"
  have "restored_from cfg s c r b (port t)"
    using run assms(2) pv(2)
    by (cases rule: run_restore_cases)
      (auto simp: restored_from_def allowed_objects_eq [OF pv(1)] filter_map_ids)
  with r show ?thesis by blast
qed (use assms(2) in simp)

lemma other_ports:
  "create_backup cfg c trig schema wm objs k s = (res, t) \<Longrightarrow> port t = port s"
  "create_restore_preview cfg c bid d k v s = (res', t) \<Longrightarrow> port t = port s"
  "cancel_restore cfg c rid m k s = (res', t) \<Longrightarrow> port t = port s"
  "set_current_retention c sets s = (res'', t) \<Longrightarrow> port t = port s"
  "backup_due cfg c s = (due, t) \<Longrightarrow> port t = port s"
  by (auto dest!: create_backup_effect cancel_restore_effect set_retention_effect backup_due_state
      elim!: create_preview_effect simp: capture_backup_eq Let_def)

lemma step_port:
  assumes "recovery_step cfg sc s t" and "port t \<noteq> port s"
  shows "\<exists>c r b rid. sc = context_scope c \<and> organization_admin c \<and> find_restore s c rid = Inr r
    \<and> req_state r = PreviewReady \<and> find_backup s c (req_backup_id r) = Inr b
    \<and> isolated cfg b (destination (preview r)) \<and> restored_from cfg s c r b (port t)"
  using assms
proof (induction rule: recovery_step.induct)
  case (step_execute c rid m pn k v s res t)
  then show ?case by (blast dest: execute_port)
qed (auto dest: other_ports)

lemma step_chain:
  assumes "recovery_step cfg sc s t" and "recovery_chain_ok cfg (audit s)"
  shows "recovery_chain_ok cfg (audit t)"
  using assms
proof (induction rule: recovery_step.induct)
  case (step_backup c trig schema wm objs k s res t)
  then show ?case
    by (auto dest!: create_backup_effect simp: capture_backup_eq Let_def intro!: recovery_chain_audit)
next
  case (step_execute c rid m pn k v s res t)
  then show ?case
    by (auto dest!: execute_effect elim!: run_restore_cases intro!: recovery_chain_audit)
qed (auto dest!: backup_due_state set_retention_effect cancel_restore_effect
    elim!: create_preview_effect intro!: recovery_chain_audit)

section \<open>Preservation\<close>

lemma recovery_drawn_mono:
  "recovery_drawn cfg s p x \<Longrightarrow> tokens_drawn s \<le> tokens_drawn t \<Longrightarrow> recovery_drawn cfg t p x"
  by (auto simp: recovery_drawn_def intro: less_le_trans)

lemma recovery_not_drawn_next:
  "inj (token_hex cfg) \<Longrightarrow> \<not> recovery_drawn cfg s p (p @ ''-'' @ token_hex cfg (tokens_drawn s))"
  by (auto simp: recovery_drawn_def dest: injD)

lemma recovery_drawn_new:
  "tokens_drawn t = Suc (tokens_drawn s)
    \<Longrightarrow> recovery_drawn cfg t p (p @ ''-'' @ token_hex cfg (tokens_drawn s))"
  by (auto simp: recovery_drawn_def)

lemma restore_ok_mono:
  assumes "restore_ok cfg bs rid r" and "\<And>i b. dict_get bs i = Some b \<Longrightarrow> dict_get bs' i = Some b"
  shows "restore_ok cfg bs' rid r"
  using assms unfolding restore_ok_def by blast

lemma recovery_invD:
  assumes "recovery_inv cfg s"
  shows "inj (token_hex cfg)" and "dict_ok (backups s)" and "dict_ok (restores s)"
    and "dict_get (backups s) i = Some b \<Longrightarrow> backup_ok i b \<and> recovery_drawn cfg s ''backup'' i"
    and "dict_get (restores s) i = Some r
      \<Longrightarrow> restore_ok cfg (backups s) i r \<and> recovery_drawn cfg s ''restore'' i"
  using assms unfolding recovery_inv_def by blast+

lemma fresh_recovery_id:
  assumes "recovery_inv cfg s"
  shows "dict_get (backups s) (''backup'' @ ''-'' @ token_hex cfg (tokens_drawn s)) = None"
    and "dict_get (restores s) (''restore'' @ ''-'' @ token_hex cfg (tokens_drawn s)) = None"
  using recovery_invD(4,5) [OF assms] recovery_not_drawn_next [OF recovery_invD(1) [OF assms]]
  by (metis not_None_eq)+

text \<open>Stored backups never change, and restore requests only end.\<close>

lemma change_backups:
  assumes "recovery_change cfg sc s t" and "recovery_inv cfg s" and "dict_get (backups s) i = Some b"
  shows "dict_get (backups t) i = Some b"
proof -
  have "i \<noteq> ''backup'' @ ''-'' @ token_hex cfg (tokens_drawn s)"
    using fresh_recovery_id(1) [OF assms(2)] assms(3) by (metis option.distinct(1))
  then show ?thesis
    using assms(1,3) unfolding recovery_change_def by (elim disjE exE conjE) simp_all
qed

lemma change_restores:
  assumes "recovery_change cfg sc s t" and "recovery_inv cfg s" and "dict_get (restores s) i = Some x"
  shows "dict_get (restores t) i = Some x \<or> (context_scope (req_context x) = sc
    \<and> (\<exists>y. dict_get (restores t) i = Some y \<and> restore_end (backups s) x y))"
proof -
  have "i \<noteq> ''restore'' @ ''-'' @ token_hex cfg (tokens_drawn s)"
    using fresh_recovery_id(2) [OF assms(2)] assms(3) by (metis option.distinct(1))
  then show ?thesis
    using assms(1,3) unfolding recovery_change_def by (elim disjE exE conjE) auto
qed

text \<open>The entries after a step: those of before, the new backup, the new or the ended request.\<close>

lemma change_new_backup:
  assumes "recovery_change cfg sc s t" and "dict_get (backups t) i = Some b"
  shows "dict_get (backups s) i = Some b \<or> backup_ok i b \<and> context_scope (backup_context b) = sc
    \<and> i = ''backup'' @ ''-'' @ token_hex cfg (tokens_drawn s) \<and> tokens_drawn t = Suc (tokens_drawn s)"
  using assms unfolding recovery_change_def by (elim disjE exE conjE) (simp_all split: if_splits)

lemma change_new_restore:
  assumes "recovery_change cfg sc s t" and "dict_get (restores t) i = Some r"
  shows "dict_get (restores s) i = Some r
    \<or> (restore_ok cfg (backups s) i r \<and> i = ''restore'' @ ''-'' @ token_hex cfg (tokens_drawn s)
        \<and> tokens_drawn t = Suc (tokens_drawn s))
    \<or> (\<exists>x. dict_get (restores s) i = Some x \<and> restore_end (backups s) x r)"
  using assms unfolding recovery_change_def by (elim disjE exE conjE) (simp_all split: if_splits)

lemma change_tokens: "recovery_change cfg sc s t \<Longrightarrow> tokens_drawn s \<le> tokens_drawn t"
  unfolding recovery_change_def by auto

lemma change_dicts:
  "recovery_change cfg sc s t \<Longrightarrow> dict_ok (backups s) \<Longrightarrow> dict_ok (restores s)
    \<Longrightarrow> dict_ok (backups t) \<and> dict_ok (restores t)"
  unfolding recovery_change_def by (elim disjE exE conjE) simp_all

lemma recovery_inv_step:
  assumes step: "recovery_step cfg sc s t" and inv: "recovery_inv cfg s"
  shows "recovery_inv cfg t"
proof -
  note change = step_change [OF step inv]
  have mono: "recovery_drawn cfg s p x \<Longrightarrow> recovery_drawn cfg t p x" for p x
    using recovery_drawn_mono change_tokens [OF change] by blast
  have backs: "backup_ok i b \<and> recovery_drawn cfg t ''backup'' i"
    if "dict_get (backups t) i = Some b" for i b
    using change_new_backup [OF change that] recovery_invD(4) [OF inv] mono recovery_drawn_new by blast
  have keep: "restore_ok cfg (backups s) i r \<Longrightarrow> restore_ok cfg (backups t) i r" for i r
    using restore_ok_mono change_backups [OF change inv] by blast
  have rests: "restore_ok cfg (backups t) i r \<and> recovery_drawn cfg t ''restore'' i"
    if "dict_get (restores t) i = Some r" for i r
    using change_new_restore [OF change that] recovery_invD(5) [OF inv] mono recovery_drawn_new keep
      restore_end_ok by blast
  have "list_all (fixture_destination cfg) (destinations (port t))"
  proof (cases "port t = port s")
    case True
    then show ?thesis using inv by (simp add: recovery_inv_def)
  next
    case False
    then show ?thesis
      using step_port [OF step] inv
      by (auto simp: recovery_inv_def restored_from_def isolated_def fixture_destination_def)
  qed
  moreover have "recovery_chain_ok cfg (audit t)"
    using step_chain [OF step] inv by (simp add: recovery_inv_def)
  ultimately show ?thesis
    using change_dicts [OF change] recovery_invD(1-3) [OF inv] backs rests
    unfolding recovery_inv_def by blast
qed

lemma recovery_inv_start: "recovery_start cfg s \<Longrightarrow> recovery_inv cfg s"
  by (auto simp: recovery_start_def recovery_inv_def empty_repository_def recovery_chain_ok_def)

section \<open>The contracts\<close>

interpretation recovery: versioned_service "recovery_start cfg" "recovery_step cfg" "recovery_inv cfg"
  "\<lambda>s. dict_get (restores s)" "\<lambda>r. context_scope (req_context r)" req_version for cfg
proof unfold_locales
  fix s t sc i x y
  show "recovery_start cfg s \<Longrightarrow> recovery_inv cfg s"
    by (rule recovery_inv_start)
  assume inv: "recovery_inv cfg s" and step: "recovery_step cfg sc s t"
  show "recovery_inv cfg t"
    by (rule recovery_inv_step [OF step inv])
  assume "dict_get (restores s) i = Some x"
  note ends = change_restores [OF step_change [OF step inv] inv this]
  show "context_scope (req_context x) \<noteq> sc \<Longrightarrow> dict_get (restores t) i = Some x"
    using ends by blast
  show "\<exists>y. dict_get (restores t) i = Some y \<and> context_scope (req_context y) = context_scope (req_context x)"
    using ends restore_end_frame(2) by fastforce
  show "dict_get (restores t) i = Some y \<Longrightarrow> req_version x \<le> req_version y"
    using ends restore_end_frame(4) by fastforce
qed

interpretation backup_store: versioned_service "recovery_start cfg" "recovery_step cfg" "recovery_inv cfg"
  "\<lambda>s. dict_get (backups s)" "\<lambda>b. context_scope (backup_context b)" backup_version for cfg
  by unfold_locales
    (use step_change change_backups in \<open>fastforce intro: recovery_inv_start recovery_inv_step\<close>)+

interpretation recovery_ledger: replay_ledger replay_lookup "\<lambda>l k f v. dict_set k (f, v) l"
  "recovery_error ''IDEMPOTENCY_KEY_REUSED'' 409"
  by unfold_locales (simp_all add: replay_lookup_def)

text \<open>No run changes a stored backup.\<close>

lemma runs_backups:
  "runs (recovery_step cfg) s cs t \<Longrightarrow> recovery_inv cfg s \<Longrightarrow> dict_get (backups s) i = Some b
    \<Longrightarrow> dict_get (backups t) i = Some b"
  by (induction rule: runs.induct) (blast intro: change_backups step_change recovery_inv_step)+

text \<open>A request that has ended stays as it is.\<close>

lemma runs_ended:
  assumes "runs (recovery_step cfg) s cs t" and "recovery_inv cfg s"
    and "dict_get (restores s) i = Some x" and "req_state x \<noteq> PreviewReady"
  shows "dict_get (restores t) i = Some x"
  using assms
proof (induction rule: runs.induct)
  case (runs_none s)
  then show ?case by simp
next
  case (runs_more c s t cs u)
  have "dict_get (restores t) i = Some x"
    using change_restores [OF step_change [OF runs_more(1,4)] runs_more(4,5)] runs_more(6)
    by (auto simp: restore_end_def)
  then show ?case
    using runs_more(3) [OF recovery_inv_step [OF runs_more(1,4)]] runs_more(6) by blast
qed

lemma step_recovery_ledger:
  assumes "recovery_step cfg sc s t" and "dict_get (idempotency s) key = Some v"
  shows "dict_get (idempotency t) key = Some v"
  using assms
proof (induction rule: recovery_step.induct)
  case (step_backup c trig schema wm objs k s res t)
  then show ?case by (auto dest!: create_backup_effect simp: capture_backup_eq Let_def)
next
  case (step_execute c rid m pn k v s res t)
  then show ?case by (auto dest!: execute_effect elim!: run_restore_cases)
qed (auto dest!: backup_due_state set_retention_effect cancel_restore_effect
    elim!: create_preview_effect)

lemma runs_recovery_ledger:
  "runs (recovery_step cfg) s cs t \<Longrightarrow> dict_get (idempotency s) key = Some v
    \<Longrightarrow> dict_get (idempotency t) key = Some v"
  by (induction rule: runs.induct) (auto intro: step_recovery_ledger)

end
