(* ===== verification/Recovery_Properties.thy ===== *)
theory Recovery_Properties
  imports Recovery_Invariant
begin

text \<open>
  The properties of the recovery service, on reachable states or on single calls, and a scenario
  on which the witnesses run: a backup of two objects, one of them purged afterwards, a preview
  and a restore into a fixture destination, once with a working and once with a failing port.
\<close>

section \<open>A scenario\<close>

definition demo_service :: recovery_service where
  "demo_service = \<lparr>clock = int, token_hex = dec_nat, isoformat = (\<lambda>_. ''now''),
     sha256_hex = (\<lambda>_. ''hash''), fixture_prefix = ''fx-'', rpo = 900\<rparr>"

definition demo_admin :: recovery_context where
  "demo_admin = \<lparr>tenant_id = ''t1'', workspace_id = ''w1'', actor_id = ''bob'', trace_id = ''tr'',
     policy_version = ''p1'', organization_admin = True, session_id = None, device_id = None\<rparr>"

definition demo_objects :: "backup_object_input list" where
  "demo_objects = [\<lparr>object_id = ''a'', checksum_sha256 = ''c'', byte_size = 1\<rparr>,
     \<lparr>object_id = ''b'', checksum_sha256 = ''d'', byte_size = 2\<rparr>]"

definition demo_destination :: restore_destination where
  "demo_destination = \<lparr>dest_tenant_id = ''fx-t'', dest_workspace_id = ''fx-w'', database_id = ''fx-d'',
     bucket_id = ''fx-b''\<rparr>"

definition demo_empty :: "string list \<Rightarrow> recovery_state" where
  "demo_empty fails = empty_repository \<lparr>restored_object_ids = [], destinations = [],
     original_mutations = 0, fail_object_ids = fails\<rparr>"

definition demo_backed :: "string list \<Rightarrow> recovery_state" where
  "demo_backed fails = snd (create_backup demo_service demo_admin ''manual'' ''v1'' ''m1'' demo_objects
     ''k1'' (demo_empty fails))"

definition demo_retained :: "string list \<Rightarrow> recovery_state" where
  "demo_retained fails = snd (set_current_retention demo_admin
     \<lparr>purged = [''a''], held = [], tombstoned = []\<rparr> (demo_backed fails))"

definition demo_previewed :: "string list \<Rightarrow> recovery_state" where
  "demo_previewed fails = snd (create_restore_preview demo_service demo_admin ''backup-0''
     demo_destination ''k1'' True (demo_retained fails))"

definition demo_executed :: "string list \<Rightarrow> recovery_state" where
  "demo_executed fails = snd (execute_restore demo_service demo_admin ''restore-1'' 2 1 ''k1'' True
     (demo_previewed fails))"

lemma recovery_demo_config [simp]:
  "clock demo_service n = int n" "token_hex demo_service = dec_nat" "fixture_prefix demo_service = ''fx-''"
  "rpo demo_service = 900" "fingerprint (sha256_hex demo_service) v = ''hash''"
  "organization_admin demo_admin" "tenant_id demo_admin = ''t1''" "workspace_id demo_admin = ''w1''"
  "actor_id demo_admin = ''bob''" "context_scope demo_admin = (''t1'', ''w1'')"
  by (simp_all add: demo_service_def demo_admin_def fingerprint_def context_scope_def)

lemma recovery_demo_safe [simp]: "safe ''k1'' = Inr ''k1''" "safe ''v1'' = Inr ''v1''" "safe ''m1'' = Inr ''m1''"
  "safe ''k2'' = Inr ''k2''" "safe_id ''a''" "dec_nat 0 = ''0''" "dec_nat (Suc 0) = ''1''"
  by code_simp+

lemma recovery_demo_reach_empty:
  "reachable (recovery_start demo_service) (recovery_step demo_service) (demo_empty fails)"
  by (rule reachable_start)
    (auto simp: recovery_start_def demo_empty_def dec_nat_inject intro!: injI exI [of _ "\<lparr>restored_object_ids = [],
      destinations = [], original_mutations = 0, fail_object_ids = fails\<rparr>"])

lemma outcome_step: "(\<And>res t. p = (res, t) \<Longrightarrow> R t) \<Longrightarrow> R (snd p)"
  by (cases p) simp

lemma demo_step_backup: "recovery_step demo_service (''t1'', ''w1'') (demo_empty fails) (demo_backed fails)"
  unfolding demo_backed_def
  by (rule outcome_step, subst recovery_demo_config(10) [symmetric], erule step_backup)

lemma demo_step_retention: "recovery_step demo_service (''t1'', ''w1'') (demo_backed fails) (demo_retained fails)"
  unfolding demo_retained_def
  by (rule outcome_step, subst recovery_demo_config(10) [symmetric], erule step_retention)

lemma recovery_demo_step_preview: "recovery_step demo_service (''t1'', ''w1'') (demo_retained fails) (demo_previewed fails)"
  unfolding demo_previewed_def
  by (rule outcome_step, subst recovery_demo_config(10) [symmetric], erule step_preview)

lemma demo_step_execute: "recovery_step demo_service (''t1'', ''w1'') (demo_previewed fails) (demo_executed fails)"
  unfolding demo_executed_def
  by (rule outcome_step, subst recovery_demo_config(10) [symmetric], erule step_execute)

lemmas demo_steps = demo_step_backup demo_step_retention recovery_demo_step_preview demo_step_execute

lemma demo_reach_backup: "reachable (recovery_start demo_service) (recovery_step demo_service) (demo_backed fails)"
  by (rule reachable_step [rotated], rule demo_step_backup, rule recovery_demo_reach_empty)

lemma demo_reach_retention: "reachable (recovery_start demo_service) (recovery_step demo_service) (demo_retained fails)"
  by (rule reachable_step [rotated], rule demo_step_retention, rule demo_reach_backup)

lemma demo_reach_preview: "reachable (recovery_start demo_service) (recovery_step demo_service) (demo_previewed fails)"
  by (rule reachable_step [rotated], rule recovery_demo_step_preview, rule demo_reach_retention)

lemma demo_reach_execute: "reachable (recovery_start demo_service) (recovery_step demo_service) (demo_executed fails)"
  by (rule reachable_step [rotated], rule demo_step_execute, rule demo_reach_preview)

definition demo_backup :: backup where
  "demo_backup = captured demo_service demo_admin ''manual'' ''v1'' ''m1'' demo_objects (demo_empty [])"

definition demo_preview :: "int \<Rightarrow> int \<Rightarrow> restore_preview" where
  "demo_preview n now = \<lparr>preview_version = n, included = [''b''], excluded = [''a''],
     exclusion_reasons = [(''a'', ''purged'')], destination = demo_destination, previewed_at = now\<rparr>"

definition demo_request :: restore_request where
  "demo_request = \<lparr>request_id = ''restore-1'', req_context = demo_admin, req_backup_id = ''backup-0'',
     preview = demo_preview 1 2, req_state = PreviewReady, req_version = 2,
     transitions = [Requested, PreviewReady], verification_digest = None\<rparr>"

lemma demo_backed_state:
  "create_backup demo_service demo_admin ''manual'' ''v1'' ''m1'' demo_objects ''k1'' (demo_empty fails)
    = (Inr (view_backup demo_service demo_backup), demo_backed fails)"
  "backups (demo_backed fails) = [(''backup-0'', demo_backup)]" "restores (demo_backed fails) = []"
  "idempotency (demo_backed fails) = [((''bob'', ''backup'', ''k1''), (''hash'', ''backup-0''))]"
  "clock_reads (demo_backed fails) = 2" "tokens_drawn (demo_backed fails) = 1"
  "port (demo_backed fails) = port (demo_empty fails)"
  by (simp_all add: demo_backed_def create_backup_def require_admin_def demo_objects_def
      create_fingerprint_def demo_empty_def empty_repository_def replay_lookup_def capture_backup_eq
      Let_def demo_backup_def captured_def recovery_audit_event_eq put_backup_def remember_def)

lemma demo_retained_state:
  "backups (demo_retained fails) = [(''backup-0'', demo_backup)]" "restores (demo_retained fails) = []"
  "idempotency (demo_retained fails) = [((''bob'', ''backup'', ''k1''), (''hash'', ''backup-0''))]"
  "clock_reads (demo_retained fails) = 2" "tokens_drawn (demo_retained fails) = 1"
  "port (demo_retained fails) = port (demo_empty fails)"
  "current_retention demo_admin (demo_retained fails) = \<lparr>purged = [''a''], held = [], tombstoned = []\<rparr>"
  by (simp_all add: demo_retained_def set_current_retention_def demo_backed_state current_retention_def)

lemma demo_build_preview:
  assumes "current_retention demo_admin s = \<lparr>purged = [''a''], held = [], tombstoned = []\<rparr>"
  shows "build_preview demo_service demo_admin demo_backup demo_destination n s =
    (Inr (demo_preview n (int (clock_reads s))), s\<lparr>clock_reads := Suc (clock_reads s)\<rparr>)"
  by (simp add: build_preview_def starts_with_def demo_destination_def demo_backup_def captured_def assms
      demo_objects_def exclusion_reason_def read_clock_def demo_preview_def Let_def)

lemma demo_previewed_state:
  "backups (demo_previewed fails) = [(''backup-0'', demo_backup)]"
  "restores (demo_previewed fails) = [(''restore-1'', demo_request)]"
  "idempotency (demo_previewed fails) = [((''bob'', ''backup'', ''k1''), (''hash'', ''backup-0'')),
     ((''bob'', ''restore-preview'', ''k1''), (''hash'', ''restore-1''))]"
  "port (demo_previewed fails) = port (demo_empty fails)"
  "current_retention demo_admin (demo_previewed fails) = \<lparr>purged = [''a''], held = [], tombstoned = []\<rparr>"
proof -
  have find: "find_backup (demo_retained fails) demo_admin ''backup-0'' = Inr demo_backup"
    by (simp add: find_backup_def demo_retained_state) (simp add: demo_backup_def captured_def)
  have ready: "backup_state demo_backup = Ready"
    by (simp add: demo_backup_def captured_def)
  note run = demo_previewed_def create_restore_preview_def require_step_up_def require_admin_def find
    ready replay_lookup_def demo_retained_state proceed_def demo_build_preview [OF demo_retained_state(7)]
    fresh_id_def demo_request_def advance_restore_def bump_version_def Let_def
  show "backups (demo_previewed fails) = [(''backup-0'', demo_backup)]"
    "restores (demo_previewed fails) = [(''restore-1'', demo_request)]"
    "idempotency (demo_previewed fails) = [((''bob'', ''backup'', ''k1''), (''hash'', ''backup-0'')),
     ((''bob'', ''restore-preview'', ''k1''), (''hash'', ''restore-1''))]"
    "port (demo_previewed fails) = port (demo_empty fails)"
    by (simp_all add: run)
  have "current_retention demo_admin (demo_previewed fails) = current_retention demo_admin (demo_retained fails)"
    unfolding current_retention_def by (simp add: run)
  then show "current_retention demo_admin (demo_previewed fails)
      = \<lparr>purged = [''a''], held = [], tombstoned = []\<rparr>"
    by (simp add: demo_retained_state)
qed

lemma demo_finds:
  "find_restore (demo_previewed fails) demo_admin ''restore-1'' = Inr demo_request"
  "find_backup (demo_previewed fails) demo_admin ''backup-0'' = Inr demo_backup"
  by (simp_all add: find_restore_def find_backup_def demo_previewed_state)
    (simp_all add: demo_request_def demo_backup_def captured_def)

lemma demo_execute:
  "execute_restore demo_service demo_admin ''restore-1'' 2 1 ''k1'' True (demo_previewed fails)
    = run_restore demo_service demo_admin ''restore-1'' demo_request demo_backup
        (demo_preview 2 (int (clock_reads (demo_previewed fails)))) (''bob'', ''restore-execute'', ''k1'') ''hash''
        ((demo_previewed fails)\<lparr>clock_reads := Suc (clock_reads (demo_previewed fails))\<rparr>)"
proof -
  have r: "req_version demo_request = 2" "preview_version (preview demo_request) = 1"
      "req_state demo_request = PreviewReady" "req_backup_id demo_request = ''backup-0''"
      "destination (preview demo_request) = demo_destination"
    by (simp_all add: demo_request_def demo_preview_def)
  show ?thesis
    by (simp add: execute_restore_def require_step_up_def require_admin_def demo_finds replay_lookup_def
        demo_previewed_state(3) r proceed_def demo_build_preview [OF demo_previewed_state(5)] Let_def)
qed

lemma demo_allowed: "map object_id (allowed_objects (demo_preview n t) demo_backup) = [''b'']"
  "list_ex (\<lambda>x. False) xs \<longleftrightarrow> False" "destination (demo_preview n t) = demo_destination"
  by (induction xs) (simp_all add: allowed_objects_def demo_preview_def demo_backup_def captured_def demo_objects_def)

section \<open>Restores\<close>

lemma only_execute_restores:
  assumes "recovery_step cfg sc s t" and "port t \<noteq> port s"
  shows "\<exists>c rid m pn k v res. sc = context_scope c \<and> execute_restore cfg c rid m pn k v s = (res, t)"
  using assms by (induction rule: recovery_step.induct) (blast dest: other_ports)+

lemma kept_objects:
  "filter (\<lambda>oid. exclusion_reason sets oid = None) xs
    = filter (\<lambda>oid. oid \<notin> set (purged sets) \<union> set (held sets) \<union> set (tombstoned sets)) xs"
  by (rule filter_cong) (auto simp: exclusion_reason_def)

text \<open>
  C7: only the execution of a restore touches the restore port: whatever call changes it is one. And
  the execution that does is called by an organisation administrator whose step-up was verified; it
  names the version and the preview version of a preview-ready request of the tenant and the
  workspace of the caller, whose backup is theirs as well. The port gains one destination, which
  carries the fixture prefix throughout and is neither the tenant nor the workspace of the backup, and
  exactly those objects of the manifest, in its order, that are not purged, held or tombstoned now.
\<close>

theorem restore_respects_retention:
  assumes "execute_restore cfg c rid m pn k v s = (res, t)" and "port t \<noteq> port s"
  shows "organization_admin c \<and> v
    \<and> (\<exists>r b d. dict_get (restores s) rid = Some r \<and> req_state r = PreviewReady
        \<and> req_version r = m \<and> preview_version (preview r) = pn
        \<and> tenant_id (req_context r) = tenant_id c \<and> workspace_id (req_context r) = workspace_id c
        \<and> dict_get (backups s) (req_backup_id r) = Some b
        \<and> tenant_id (backup_context b) = tenant_id c \<and> workspace_id (backup_context b) = workspace_id c
        \<and> d = destination (preview r) \<and> dest_tenant_id d \<noteq> tenant_id c \<and> dest_workspace_id d \<noteq> workspace_id c
        \<and> list_all (starts_with (fixture_prefix cfg)) [dest_tenant_id d, dest_workspace_id d, database_id d, bucket_id d]
        \<and> port t = (port s)\<lparr>destinations := destinations (port s) @ [d],
            restored_object_ids := restored_object_ids (port s)
              @ filter (\<lambda>oid. oid \<notin> set (purged (current_retention c s)) \<union> set (held (current_retention c s))
                  \<union> set (tombstoned (current_retention c s))) (map object_id (objects b))\<rparr>)
    \<and> (recovery_step cfg sc s u \<and> port u \<noteq> port s
        \<longrightarrow> (\<exists>c rid m pn k v res. sc = context_scope c \<and> execute_restore cfg c rid m pn k v s = (res, u)))"
proof -
  obtain r b where call: "organization_admin c" v "find_restore s c rid = Inr r" "req_state r = PreviewReady"
    "find_backup s c (req_backup_id r) = Inr b" "isolated cfg b (destination (preview r))" "restored_from cfg s c r b (port t)"
    using execute_port [OF assms] by blast
  have versions: "req_version r = m" "preview_version (preview r) = pn"
    using execute_effect [OF assms(1)] assms(2) call(3) by auto
  have r: "dict_get (restores s) rid = Some r" "tenant_id (req_context r) = tenant_id c" "workspace_id (req_context r) = workspace_id c"
    using call(3) by (auto simp: find_restore_def split: option.splits if_splits)
  have b: "dict_get (backups s) (req_backup_id r) = Some b" "tenant_id (backup_context b) = tenant_id c"
    "workspace_id (backup_context b) = workspace_id c"
    using call(5) by (auto simp: find_backup_def split: option.splits if_splits)
  show ?thesis
    using call(1,2,4,6,7) versions r b only_execute_restores
    unfolding restored_from_def isolated_def kept_objects by auto
qed

theorem restore_respects_retention_witness:
  "organization_admin demo_admin \<and> restored_object_ids (port (demo_executed [])) = [''b'']
    \<and> (\<exists>r. dict_get (restores (demo_previewed [])) ''restore-1'' = Some r
        \<and> destinations (port (demo_executed [])) = [destination (preview r)])"
proof -
  have port: "restored_object_ids (port (demo_executed [])) = [''b'']"
      "destinations (port (demo_executed [])) = [demo_destination]"
      "destinations (port (demo_previewed [])) = []"
    by (simp_all add: demo_executed_def demo_execute run_restore_def port_restore_def demo_previewed_state
        demo_empty_def empty_repository_def demo_allowed Let_def)
  then have "port (demo_executed []) \<noteq> port (demo_previewed [])" by auto
  moreover have "execute_restore demo_service demo_admin ''restore-1'' 2 1 ''k1'' True (demo_previewed [])
      = (fst (execute_restore demo_service demo_admin ''restore-1'' 2 1 ''k1'' True (demo_previewed [])), demo_executed [])"
    by (simp add: demo_executed_def)
  ultimately have call: "organization_admin demo_admin" "\<exists>r b d. dict_get (restores (demo_previewed [])) ''restore-1'' = Some r
      \<and> d = destination (preview r) \<and> destinations (port (demo_executed [])) = destinations (port (demo_previewed [])) @ [d]"
    using restore_respects_retention by fastforce+
  then show ?thesis using port by auto
qed

text \<open>
  In every reachable state a stored restore request has lived one of four lives, given by its
  transitions, state, version, preview version and verification digest: previewed; previewed and
  cancelled; authorised, restoring and failed; or authorised, restoring, verifying and completed,
  the only one with a verification digest. Its backup is stored, verified and in its scope, its
  destination is isolated, and its preview splits the manifest by one retention state.
\<close>

theorem restore_lifecycle:
  assumes "reachable (recovery_start cfg) (recovery_step cfg) s"
    and "dict_get (restores s) rid = Some r"
  shows "(transitions r, req_state r, req_version r, preview_version (preview r),
      verification_digest r \<noteq> None) \<in> set restore_lives
    \<and> (\<exists>b sets. dict_get (backups s) (req_backup_id r) = Some b \<and> backup_ok (req_backup_id r) b
        \<and> context_scope (backup_context b) = context_scope (req_context r)
        \<and> isolated cfg b (destination (preview r)) \<and> preview_of sets b (preview r))"
proof -
  note inv = recovery.reachable_inv [OF assms(1)]
  have "restore_ok cfg (backups s) rid r"
    using recovery_invD(5) [OF inv assms(2)] by blast
  then show ?thesis
    using recovery_invD(4) [OF inv] unfolding restore_ok_def life_def by blast
qed

theorem restore_lifecycle_witness:
  "(transitions demo_request, req_state demo_request, req_version demo_request,
     preview_version (preview demo_request), verification_digest demo_request \<noteq> None)
    \<in> set restore_lives"
  using restore_lifecycle [OF demo_reach_preview, of "[]" "''restore-1''" demo_request]
  by (simp add: demo_previewed_state)

text \<open>
  A restore request that has ended stays exactly as it is under every later sequence of
  calls: it is executed at most once, and never cancelled afterwards.
\<close>

theorem ended_restores_final:
  assumes "reachable (recovery_start cfg) (recovery_step cfg) s"
    and "runs (recovery_step cfg) s cs t"
    and "dict_get (restores s) rid = Some r" and "req_state r \<in> {Cancelled, Failed, Completed}"
  shows "dict_get (restores t) rid = Some r"
  using runs_ended [OF assms(2) recovery.reachable_inv [OF assms(1)] assms(3)] assms(4) by auto

lemma demo_failed:
  "execute_restore demo_service demo_admin ''restore-1'' 2 1 ''k1'' True (demo_previewed [''b''])
    = (Inl (RecoveryError ''RESOURCE_UNAVAILABLE'' 503 True), demo_executed [''b''])"
  "dict_get (restores (demo_executed [''b''])) ''restore-1''
    = Some (failed_restore (demo_preview 2 (int (clock_reads (demo_previewed [''b''])))) demo_request)"
proof -
  have "list_ex (\<lambda>x. object_id x = ''b'') (allowed_objects (demo_preview 2 n) demo_backup)" for n
    by (simp add: allowed_objects_def demo_preview_def demo_backup_def captured_def demo_objects_def)
  then show "execute_restore demo_service demo_admin ''restore-1'' 2 1 ''k1'' True (demo_previewed [''b''])
      = (Inl (RecoveryError ''RESOURCE_UNAVAILABLE'' 503 True), demo_executed [''b''])"
    "dict_get (restores (demo_executed [''b''])) ''restore-1''
      = Some (failed_restore (demo_preview 2 (int (clock_reads (demo_previewed [''b''])))) demo_request)"
    by (simp_all add: demo_executed_def demo_execute run_restore_def port_restore_def demo_previewed_state
        demo_empty_def empty_repository_def failed_restore_def Let_def)
qed

theorem ended_restores_final_witness:
  "\<exists>r. dict_get (restores (snd (execute_restore demo_service demo_admin ''restore-1'' 3 2 ''k2'' True
      (demo_executed [''b''])))) ''restore-1'' = Some r \<and> req_state r = Failed"
proof -
  let ?u = "snd (execute_restore demo_service demo_admin ''restore-1'' 3 2 ''k2'' True (demo_executed [''b'']))"
  have "recovery_step demo_service (context_scope demo_admin) (demo_executed [''b'']) ?u"
    by (rule outcome_step) (erule step_execute)
  then have "runs (recovery_step demo_service) (demo_executed [''b'']) [context_scope demo_admin] ?u"
    by (rule runs_more) (rule runs_none)
  from ended_restores_final [OF demo_reach_execute this demo_failed(2)] show ?thesis by simp
qed

text \<open>The errors before the port is reached are final.\<close>

lemma guard_errors:
  "require_step_up c v = Inl e \<Longrightarrow> \<not> retryable e" "safe x = Inl e \<Longrightarrow> \<not> retryable e"
  "find_restore s c rid = Inl e \<Longrightarrow> \<not> retryable e" "replay_lookup l key fp = Inl e \<Longrightarrow> \<not> retryable e"
  "find_backup s c bid = Inl e \<Longrightarrow> \<not> retryable e"
  "build_preview cfg c b d n s = (Inl e, t) \<Longrightarrow> \<not> retryable e"
  by (auto simp: require_step_up_def require_admin_def safe_def find_restore_def replay_lookup_def
      find_backup_def build_preview_def Let_def split: if_splits option.splits prod.splits)

lemma run_restore_failed:
  "run_restore cfg c rid r b pv key fp s = (Inl e, t)
    \<Longrightarrow> dict_get (restores t) rid = Some (failed_restore pv r)"
  by (erule run_restore_cases) auto

lemma execute_retryable:
  assumes "execute_restore cfg c rid m pn k v s = (Inl e, t)" and "retryable e"
  shows "\<exists>r pv. dict_get (restores t) rid = Some (failed_restore pv r)"
  using assms
  by (auto simp: execute_restore_def Let_def split: outcome_splits
      dest: guard_errors run_restore_failed)

text \<open>
  The failure of the port is reported as retryable, yet no later call of anyone can execute
  that restore: every attempt with a fresh key, whatever version it names, is refused with an error
  that is not retryable, and changes nothing.
\<close>

theorem failed_restore_not_retryable:
  assumes "reachable (recovery_start cfg) (recovery_step cfg) s"
    and "execute_restore cfg c rid m pn k v s = (Inl e, t)" and "retryable e"
    and "runs (recovery_step cfg) t cs u"
    and "dict_get (idempotency u) (actor_id d, ''restore-execute'', k') = None"
  shows "\<exists>e'. execute_restore cfg d rid m' pn' k' v' u = (Inl e', u) \<and> \<not> retryable e'"
proof -
  have "reachable (recovery_start cfg) (recovery_step cfg) t"
    using assms(1) by (rule reachable_step) (rule step_execute, rule assms(2))
  moreover obtain r pv where "dict_get (restores t) rid = Some (failed_restore pv r)"
    using execute_retryable [OF assms(2,3)] by blast
  ultimately have get: "dict_get (restores u) rid = Some (failed_restore pv r)"
    using runs_ended [OF assms(4) recovery.reachable_inv] by simp
  have find: "find_restore u d rid = Inr (failed_restore pv r) \<or> (\<exists>e'. find_restore u d rid = Inl e')"
    using get by (auto simp: find_restore_def)
  show ?thesis
  proof (cases "require_step_up d v'")
    case (Inl e')
    then show ?thesis by (simp add: execute_restore_def guard_errors(1))
  next
    case step_up: (Inr x)
    show ?thesis
    proof (cases "safe k'")
      case (Inl e')
      then show ?thesis by (simp add: execute_restore_def step_up guard_errors(2))
    next
      case (Inr y)
      then show ?thesis
        using find assms(5) guard_errors(3)
        by (auto simp: execute_restore_def step_up replay_lookup_def Let_def)
    qed
  qed
qed

theorem failed_restore_not_retryable_witness:
  "\<exists>e. execute_restore demo_service demo_admin ''restore-1'' 3 2 ''k2'' True (demo_executed [''b''])
    = (Inl e, demo_executed [''b'']) \<and> \<not> retryable e"
  by (rule failed_restore_not_retryable [OF demo_reach_preview demo_failed(1) _ runs_none])
    (simp_all add: demo_executed_def demo_execute run_restore_def Let_def demo_previewed_state
      split: prod.split)

text \<open>
  Whatever calls other tenants and workspaces make, a restore request stays exactly as it is;
  and a stored backup stays exactly as it is under every sequence of calls of anyone.
\<close>

theorem foreign_calls_leave_recovery:
  assumes "reachable (recovery_start cfg) (recovery_step cfg) s" and "runs (recovery_step cfg) s cs t"
    and "dict_get (restores s) rid = Some r" and "context_scope (req_context r) \<notin> set cs"
    and "dict_get (backups s) bid = Some b"
  shows "dict_get (restores t) rid = Some r \<and> dict_get (backups t) bid = Some b"
proof -
  note inv = recovery.reachable_inv [OF assms(1)]
  show ?thesis
    using recovery.isolation [OF assms(2) inv assms(3,4)] runs_backups [OF assms(2) inv assms(5)]
    by simp
qed

theorem foreign_calls_leave_recovery_witness:
  "dict_get (restores (demo_previewed [])) ''restore-1'' = Some demo_request
    \<and> dict_get (backups (demo_previewed [])) ''backup-0'' = Some demo_backup"
  using foreign_calls_leave_recovery [OF demo_reach_preview runs_none, of "[]" "''restore-1''" demo_request
      "''backup-0''" demo_backup]
  by (simp add: demo_previewed_state)

section \<open>Backups\<close>

text \<open>
  A backup is due for a workspace exactly when every stored backup of that workspace was taken
  at least the recovery point objective ago; so it is due when there is none.
\<close>

theorem backup_due_iff:
  assumes "reachable (recovery_start cfg) (recovery_step cfg) s"
  shows "fst (backup_due cfg c s) \<longleftrightarrow>
    (\<forall>bid b. dict_get (backups s) bid = Some b \<and> backup_in_scope c b
      \<longrightarrow> rpo cfg \<le> clock cfg (clock_reads s) - created_at b)"
proof -
  note inv = recovery.reachable_inv [OF assms]
  define ready where "ready = filter (\<lambda>b. backup_in_scope c b \<and> backup_state b = Ready \<and> verified_at b \<noteq> None)
           (dict_values (backups s))"
  have ok: "backup_state b = Ready \<and> verified_at b = Some (created_at b)"
    if "dict_get (backups s) i = Some b" for i b
    using recovery_invD(4) [OF inv that] by (simp add: backup_ok_def)
  have mem: "b \<in> set ready \<longleftrightarrow> (\<exists>i. dict_get (backups s) i = Some b) \<and> backup_in_scope c b" for b
    using dict_values_mem [OF recovery_invD(2) [OF inv], of b] ok [of _ b]
    unfolding ready_def set_filter mem_Collect_eq by (metis option.distinct(1))
  have "(the \<circ> verified_at) b = created_at b" if "b \<in> set ready" for b
    using that mem ok by fastforce
  then have times: "set (map (the \<circ> verified_at) ready) = created_at ` set ready"
    unfolding set_map by (rule image_cong [OF refl])
  have bound: "Max (set (map (the \<circ> verified_at) ready)) \<le> x \<longleftrightarrow> (\<forall>b \<in> set ready. created_at b \<le> x)"
    if "ready \<noteq> []" for x
    unfolding times using that by (subst Max_le_iff) simp_all
  have latest: "rpo cfg \<le> now - Max (set (map (the \<circ> verified_at) ready))
      \<longleftrightarrow> (\<forall>b \<in> set ready. rpo cfg \<le> now - created_at b)" if "ready \<noteq> []" for now
  proof -
    have flip: "rpo cfg \<le> now - x \<longleftrightarrow> x \<le> now - rpo cfg" for x by linarith
    show ?thesis
      unfolding flip by (rule bound [OF that])
  qed
  have "fst (backup_due cfg c s) \<longleftrightarrow> (\<forall>b \<in> set ready. rpo cfg \<le> clock cfg (clock_reads s) - created_at b)"
    unfolding backup_due_def ready_def [symmetric] read_clock_def Let_def
  proof (cases "ready = []")
    case True
    then show "fst (if ready = [] then (True, s)
        else case (clock cfg (clock_reads s), s\<lparr>clock_reads := Suc (clock_reads s)\<rparr>) of
          (now, s1) \<Rightarrow> (rpo cfg \<le> now - Max (set (map (the \<circ> verified_at) ready)), s1))
      \<longleftrightarrow> (\<forall>b \<in> set ready. rpo cfg \<le> clock cfg (clock_reads s) - created_at b)"
      by simp
  next
    case False
    show "fst (if ready = [] then (True, s)
        else case (clock cfg (clock_reads s), s\<lparr>clock_reads := Suc (clock_reads s)\<rparr>) of
          (now, s1) \<Rightarrow> (rpo cfg \<le> now - Max (set (map (the \<circ> verified_at) ready)), s1))
      \<longleftrightarrow> (\<forall>b \<in> set ready. rpo cfg \<le> clock cfg (clock_reads s) - created_at b)"
      using latest [OF False] by (simp only: False if_False prod.case fst_conv)
  qed
  also have "\<dots> \<longleftrightarrow> (\<forall>bid b. dict_get (backups s) bid = Some b \<and> backup_in_scope c b
      \<longrightarrow> rpo cfg \<le> clock cfg (clock_reads s) - created_at b)"
  proof (intro iffI allI impI ballI)
    fix bid b
    assume all: "\<forall>b \<in> set ready. rpo cfg \<le> clock cfg (clock_reads s) - created_at b"
      and b: "dict_get (backups s) bid = Some b \<and> backup_in_scope c b"
    have "b \<in> set ready" by (rule mem [THEN iffD2]) (use b in blast)
    with all show "rpo cfg \<le> clock cfg (clock_reads s) - created_at b" by (rule bspec)
  next
    fix b
    assume all: "\<forall>bid b. dict_get (backups s) bid = Some b \<and> backup_in_scope c b
      \<longrightarrow> rpo cfg \<le> clock cfg (clock_reads s) - created_at b" and b: "b \<in> set ready"
    then show "rpo cfg \<le> clock cfg (clock_reads s) - created_at b"
      using mem [THEN iffD1, OF b] by blast
  qed
  finally show ?thesis .
qed

theorem backup_due_iff_witness:
  "fst (backup_due demo_service demo_admin (demo_empty [])) \<and> \<not> fst (backup_due demo_service demo_admin (demo_backed []))"
  using backup_due_iff [OF recovery_demo_reach_empty, of demo_admin "[]"] backup_due_iff [OF demo_reach_backup, of demo_admin "[]"]
  by (simp add: demo_backed_state) (simp add: demo_empty_def empty_repository_def demo_backup_def captured_def
      backup_in_scope_def)

text \<open>
  The list of backups of a workspace is newest first, and it shows every backup of that
  workspace and no other.
\<close>

theorem list_backups_newest_first:
  assumes "organization_admin c"
  shows "\<exists>vs. list_backups cfg c s = Inr vs
    \<and> sorted_wrt (\<lambda>v w. bv_created_at w \<le> bv_created_at v) vs
    \<and> mset vs = image_mset (view_backup cfg) (filter_mset (backup_in_scope c) (mset (dict_values (backups s))))"
proof -
  define xs where "xs = sort_key_desc created_at (dict_values (backups s))"
  have "sorted_wrt (\<lambda>x y. created_at y \<le> created_at x) xs"
    by (simp add: xs_def sort_key_desc_def sorted_wrt_rev) (metis sorted_map sorted_sort_key)
  then have "sorted_wrt (\<lambda>v w. bv_created_at w \<le> bv_created_at v) (map (view_backup cfg) (filter (backup_in_scope c) xs))"
    by (simp add: sorted_wrt_map sorted_wrt_filter view_backup_def)
  moreover have "mset (map (view_backup cfg) (filter (backup_in_scope c) xs))
      = image_mset (view_backup cfg) (filter_mset (backup_in_scope c) (mset (dict_values (backups s))))"
    by (simp add: xs_def sort_key_desc_def)
  ultimately show ?thesis
    using assms by (simp add: list_backups_def require_admin_def xs_def)
qed

theorem list_backups_newest_first_witness:
  "\<exists>vs. list_backups demo_service demo_admin (demo_backed []) = Inr vs
    \<and> mset vs = {#view_backup demo_service demo_backup#}"
  using list_backups_newest_first [of demo_admin demo_service "demo_backed []"]
  by (auto simp: demo_backed_state) (simp add: demo_backup_def captured_def backup_in_scope_def)

section \<open>Receipts of a selection\<close>

lemma selection_distinct: "backup_selection nb ids = Inr sel \<Longrightarrow> distinct (source_version_ids sel)"
  by (auto simp: backup_selection_def split: if_splits)

lemma sort_key_perm:
  fixes f :: "'a \<Rightarrow> string"
  assumes "mset xs = mset ys" and "distinct (map f xs)"
  shows "sort_key f xs = sort_key f ys"
proof -
  have "inj_on f (set xs)" using assms(2) by (simp add: distinct_map)
  with assms(1) show ?thesis by (rule sort_key_eq_sort_key)
qed

text \<open>
  The receipt of a backup selection, its fingerprint included, does not depend on the order in
  which the versions are selected nor on the order in which their bindings are read.
\<close>

theorem receipt_order_insensitive:
  assumes "mset ids' = mset ids" and "mset bindings' = mset bindings"
    and "backup_selection notebook ids = Inr sel"
  shows "backup_selection notebook ids' = Inr sel
    \<and> resolved_backup_metadata sha c sel schema watermark bindings' trig
        = resolved_backup_metadata sha c sel schema watermark bindings trig"
proof -
  have "length ids' = length ids" "set ids' = set ids" "distinct ids' = distinct ids" "sort ids' = sort ids"
    by (rule mset_eq_length, rule assms(1), rule mset_eq_setD, rule assms(1),
        rule mset_eq_imp_distinct_iff, rule assms(1))
      (rule properties_for_sort, simp_all add: assms(1))
  then have sel: "backup_selection notebook ids' = backup_selection notebook ids"
    by (simp add: backup_selection_def list_all_iff)
  have "resolved_backup_metadata sha c sel schema watermark bindings' trig
        = resolved_backup_metadata sha c sel schema watermark bindings trig"
  proof (cases "distinct (map fst bindings)")
    case True
    then have "sort_key fst bindings = sort_key fst bindings'"
      by (rule sort_key_perm [OF assms(2) [symmetric]])
    then show ?thesis unfolding resolved_backup_metadata_def by (simp only:)
  next
    case False
    have "mset (map fst bindings') = mset (map fst bindings)"
      using assms(2) by simp
    then have "\<not> distinct (map fst bindings')"
      using False mset_eq_imp_distinct_iff by blast
    moreover have "distinct (map fst (sort_key fst xs)) \<longleftrightarrow> distinct (map fst xs)" for xs :: "binding list"
      by (rule mset_eq_imp_distinct_iff) simp
    ultimately have "map fst (sort_key fst bindings) \<noteq> source_version_ids sel"
        "map fst (sort_key fst bindings') \<noteq> source_version_ids sel"
      using False selection_distinct [OF assms(3)] by metis+
    then show ?thesis
      unfolding resolved_backup_metadata_def Let_def by (simp only: if_True simp_thms)
  qed
  with sel assms(3) show ?thesis by simp
qed

definition demo_bindings :: "binding list" where
  "demo_bindings = [(''v2'', ''s2'', \<lparr>object_id = ''b'', checksum_sha256 = ''d'', byte_size = 2\<rparr>, replicate 64 CHR ''0''),
     (''v1'', ''s1'', \<lparr>object_id = ''a'', checksum_sha256 = ''c'', byte_size = 1\<rparr>, replicate 64 CHR ''1'')]"

lemma demo_selection:
  "backup_selection ''nb'' [''v2'', ''v1''] = Inr \<lparr>notebook_id = ''nb'', source_version_ids = [''v1'', ''v2'']\<rparr>"
  by code_simp

theorem receipt_order_insensitive_witness:
  "backup_selection ''nb'' [''v1'', ''v2''] = backup_selection ''nb'' [''v2'', ''v1'']
    \<and> resolved_backup_metadata (\<lambda>_. ''hash'') demo_admin \<lparr>notebook_id = ''nb'', source_version_ids = [''v1'', ''v2'']\<rparr>
        ''v1'' ''m1'' (rev demo_bindings) ''manual''
      = resolved_backup_metadata (\<lambda>_. ''hash'') demo_admin \<lparr>notebook_id = ''nb'', source_version_ids = [''v1'', ''v2'']\<rparr>
        ''v1'' ''m1'' demo_bindings ''manual''"
  using receipt_order_insensitive [of "[''v1'', ''v2'']" "[''v2'', ''v1'']" "rev demo_bindings" demo_bindings,
      OF _ _ demo_selection]
  by (simp add: demo_selection)

lemma collect_objects_keys:
  assumes "collect_objects bs d = Inr d'" and "dict_ok d"
    and "\<forall>(k, x) \<in> set d. object_id x = k"
  shows "dict_ok d' \<and> (\<forall>(k, x) \<in> set d'. object_id x = k)
    \<and> set (dict_values d') = set (dict_values d) \<union> binding_item ` set bs"
  using assms
proof (induction bs d rule: collect_objects.induct)
  case (1 objects)
  then show ?case by simp
next
  case (2 version source item digest rest objects)
  let ?d = "dict_set (object_id item) item objects"
  have guard: "\<forall>e. safe_canon_id source \<noteq> Inl e" "sha256_text digest"
      and old: "dict_get objects (object_id item) \<in> {None, Some item}"
      and rest: "collect_objects rest ?d = Inr d'"
    using 2(2) by (auto split: sum.splits if_splits)
  have vals: "set (dict_values ?d) = insert item (set (dict_values objects))"
  proof -
    have "x \<in> set (dict_values ?d) \<longleftrightarrow> x = item \<or> x \<in> set (dict_values objects)" for x
      unfolding dict_values_mem [OF dict_ok_set [OF 2(3)]] dict_values_mem [OF 2(3)]
      using old by (auto; metis option.inject option.distinct(1))
    then show ?thesis by blast
  qed
  obtain y where ok: "safe_canon_id source = Inr y"
    using guard(1) by (cases "safe_canon_id source") auto
  have keys: "\<forall>(k, x) \<in> set ?d. object_id x = k"
    using dict_set_mem [OF 2(3)] 2(4) by (auto split: if_splits)
  show ?case
    using 2(1) [OF ok _ _ rest dict_ok_set [OF 2(3)] keys] guard(2) old vals
    by (auto simp: binding_item_def)
qed

lemma sum_set_le:
  fixes f :: "'a \<Rightarrow> int"
  assumes "\<forall>x \<in> set xs. 0 \<le> f x"
  shows "sum f (set xs) \<le> sum_list (map f xs)"
  using assms
proof (induction xs)
  case Nil
  then show ?case by simp
next
  case (Cons x xs)
  then show ?case by (cases "x \<in> set xs") (auto simp: insert_absorb)
qed

text \<open>
  A receipt is only issued to an administrator, for exactly the selected versions; its objects
  are those of the bindings, each once, in the order of their identifiers, and together at most
  512 MiB; and the legacy match accepts exactly the permutations of these objects.
\<close>

theorem receipt_is_exact:
  assumes "resolved_backup_metadata sha c sel schema watermark bindings trig = Inr r"
    and "\<forall>b \<in> set bindings. 0 \<le> byte_size (binding_item b)"
  shows "organization_admin c \<and> sort (map fst bindings) = source_version_ids sel
    \<and> set (resolved_objects r) = binding_item ` set bindings
    \<and> distinct (map object_id (resolved_objects r)) \<and> sorted (map object_id (resolved_objects r))
    \<and> sum_list (map byte_size (resolved_objects r)) \<le> 536870912
    \<and> (\<forall>xs. require_legacy_match r schema watermark xs = Inr () \<longleftrightarrow> mset xs = mset (resolved_objects r))"
proof -
  let ?ordered = "sort_key fst bindings"
  obtain d where d: "collect_objects ?ordered [] = Inr d" and admin: "organization_admin c"
      and ids: "map fst ?ordered = source_version_ids sel"
      and small: "sum_list (map (byte_size \<circ> binding_item) ?ordered) \<le> 536870912"
      and r: "resolved_objects r = map snd (sort_key fst d)" "schema_revision r = schema"
        "retention_watermark r = watermark"
    using assms(1)
    by (auto simp: resolved_backup_metadata_def Let_def split: sum.splits if_splits)
  have keys: "dict_ok d" "\<forall>(k, x) \<in> set d. object_id x = k"
      and vals: "set (dict_values d) = binding_item ` set bindings"
    using collect_objects_keys [OF d] by simp_all
  have fsts: "map object_id (resolved_objects r) = map fst (sort_key fst d)"
    using keys(2) by (auto simp: r)
  have objs: "set (resolved_objects r) = binding_item ` set bindings"
    using vals by (simp add: r)
  have sorted: "sorted (map object_id (resolved_objects r))"
    unfolding fsts by simp
  have "mset (map fst (sort_key fst d)) = mset (map fst d)" by simp
  then have dist: "distinct (map object_id (resolved_objects r))"
    unfolding fsts using keys(1) mset_eq_imp_distinct_iff by blast
  have "sum_list (map byte_size (resolved_objects r)) = sum byte_size (binding_item ` set bindings)"
    using sum_list_distinct_conv_sum_set [of "resolved_objects r" byte_size] dist objs
    by (simp add: distinct_map)
  also have "\<dots> \<le> sum_list (map byte_size (map binding_item ?ordered))"
    using sum_set_le [of "map binding_item ?ordered" byte_size] assms(2) by simp
  finally have size: "sum_list (map byte_size (resolved_objects r)) \<le> 536870912"
    using small by (simp add: comp_def)
  have "sort (map fst bindings) = map fst ?ordered"
    by (rule properties_for_sort) simp_all
  moreover have "require_legacy_match r schema watermark xs = Inr () \<longleftrightarrow> mset xs = mset (resolved_objects r)"
    for xs
  proof
    assume "require_legacy_match r schema watermark xs = Inr ()"
    then have "sort_key object_id xs = resolved_objects r"
      by (auto simp: require_legacy_match_def split: if_splits)
    then show "mset xs = mset (resolved_objects r)" by (metis mset_sort)
  next
    assume perm: "mset xs = mset (resolved_objects r)"
    then have "mset (map object_id xs) = mset (map object_id (resolved_objects r))" by simp
    then have "distinct (map object_id xs)"
      using dist mset_eq_imp_distinct_iff by blast
    moreover have "sort_key object_id xs = sort_key object_id (resolved_objects r)"
      by (rule sort_key_perm [OF perm]) (rule calculation)
    moreover have "sort_key object_id (resolved_objects r) = resolved_objects r"
      using sorted by (rule sort_key_id_if_sorted)
    ultimately show "require_legacy_match r schema watermark xs = Inr ()"
      by (simp add: require_legacy_match_def r)
  qed
  ultimately show ?thesis
    using admin ids objs dist sorted size by simp
qed

lemma demo_receipt:
  "resolved_backup_metadata (\<lambda>_. ''hash'') demo_admin \<lparr>notebook_id = ''nb'', source_version_ids = [''v1'', ''v2'']\<rparr>
      ''v1'' ''m1'' demo_bindings ''manual''
    = Inr \<lparr>selection = \<lparr>notebook_id = ''nb'', source_version_ids = [''v1'', ''v2'']\<rparr>,
        schema_revision = ''v1'', retention_watermark = ''m1'', resolved_objects = demo_objects,
        receipt_fingerprint = ''hash''\<rparr>"
proof -
  have order: "sort_key fst demo_bindings = rev demo_bindings"
    by code_simp
  have collect: "collect_objects (rev demo_bindings) []
      = Inr [(''a'', demo_objects ! 0), (''b'', demo_objects ! 1)]"
    by code_simp
  have "map fst (rev demo_bindings) = [''v1'', ''v2'']"
      "map snd (sort_key fst [(''a'', demo_objects ! 0), (''b'', demo_objects ! 1)]) = demo_objects"
      "sum_list (map (byte_size \<circ> binding_item) (rev demo_bindings)) = 3"
    by code_simp+
  then show ?thesis
    by (simp add: resolved_backup_metadata_def order collect fingerprint_def Let_def)
qed

theorem receipt_is_exact_witness:
  "\<not> sum_list (map byte_size demo_objects) > 536870912
    \<and> sort (map fst demo_bindings) = [''v1'', ''v2'']"
  using receipt_is_exact [OF demo_receipt] by (simp add: demo_bindings_def binding_item_def)

text \<open>
  Creating a backup is idempotent: after it succeeded and after any calls of anyone since, the
  same call by the same actor shows the same backup and changes nothing.
\<close>

theorem create_backup_is_idempotent:
  assumes "reachable (recovery_start cfg) (recovery_step cfg) s"
    and "create_backup cfg c trig schema wm objs k s = (Inr v, t)"
    and "runs (recovery_step cfg) t cs u"
  shows "create_backup cfg c trig schema wm objs k u = (Inr v, u)"
proof -
  let ?key = "(actor_id c, ''backup'', k)" and ?fp = "create_fingerprint cfg c trig schema wm objs"
  have guards: "require_admin c = Inr ()" "safe k = Inr k" "safe schema = Inr schema" "safe wm = Inr wm"
      "trig \<in> {''automatic'', ''manual''}" "objs \<noteq> []" "distinct (map object_id objs)"
    using assms(2)
    by (auto simp: create_backup_def require_admin_def safe_def Let_def split: attempt_splits if_splits)
  have eq: "create_backup cfg c trig schema wm objs k x = attempt (replay_lookup (idempotency x) ?key ?fp) x
      (\<lambda>found. case found of
        Some bid \<Rightarrow> attempt (find_backup x c bid) x (\<lambda>b. (Inr (view_backup cfg b), x))
      | None \<Rightarrow> capture_backup cfg c trig schema wm objs ?key ?fp x)" for x
    using guards by (auto simp: create_backup_def Let_def)
  have step: "recovery_step cfg (context_scope c) s t"
    by (rule step_backup [OF assms(2)])
  have inv: "recovery_inv cfg t"
    by (rule recovery_inv_step [OF step recovery.reachable_inv [OF assms(1)]])
  obtain bid b where entry: "dict_get (idempotency t) ?key = Some (?fp, bid)"
      and find: "find_backup t c bid = Inr b" and v: "v = view_backup cfg b"
  proof (cases "dict_get (idempotency s) ?key")
    case None
    have "capture_backup cfg c trig schema wm objs ?key ?fp s = (Inr v, t)"
      using assms(2) None by (simp add: eq replay_lookup_def)
    then have "t = audit_event cfg c ''backup.verified'' (backup_id (captured cfg c trig schema wm objs s))
          (remember ?key ?fp (backup_id (captured cfg c trig schema wm objs s))
            (put_backup (backup_id (captured cfg c trig schema wm objs s)) (captured cfg c trig schema wm objs s)
              (s\<lparr>clock_reads := Suc (clock_reads s), tokens_drawn := Suc (tokens_drawn s)\<rparr>)))"
        and "v = view_backup cfg (captured cfg c trig schema wm objs s)"
      by (simp_all add: capture_backup_eq Let_def)
    then show thesis
      by (intro that) (simp_all add: find_backup_def, simp add: captured_def)
  next
    case (Some e)
    then show thesis
      using assms(2) that
      by (cases e) (auto simp: eq replay_lookup_def split: attempt_splits if_splits)
  qed
  have "dict_get (backups u) bid = Some b"
    by (rule runs_backups [OF assms(3) inv]) (use find_backup_InrD [OF find] in blast)
  then have "find_backup u c bid = Inr b"
    using find by (auto simp: find_backup_def split: option.splits if_splits)
  then show ?thesis
    using runs_recovery_ledger [OF assms(3) entry] by (simp add: eq replay_lookup_def v)
qed

theorem create_backup_is_idempotent_witness:
  "create_backup demo_service demo_admin ''manual'' ''v1'' ''m1'' demo_objects ''k1'' (demo_retained [])
    = (Inr (view_backup demo_service demo_backup), demo_retained [])"
  by (rule create_backup_is_idempotent [OF recovery_demo_reach_empty demo_backed_state(1)])
    (rule runs_more, rule demo_step_retention, rule runs_none)

end
