(* ===== verification/Sync.thy ===== *)
theory Sync
  imports Contracts Json
begin

text \<open>
  Model of \<open>services/api/src/daon_user_api/sync.py\<close>: the approved copy of local items to the cloud,
  over the in-memory repository and the bounded transfer port of that module. An operation is
  previewed, approved, transferred in batches and its conflicts resolved; the source mutates the
  stored operation while a batch runs, so that the model returns the operation a raise leaves
  behind. Contents are byte strings.
\<close>

section \<open>Inputs and their checks\<close>

datatype sync_error = SyncError (code: string) (status: int) (retryable: bool)

abbreviation sync_error :: "string \<Rightarrow> int \<Rightarrow> sync_error" where
  "sync_error c st \<equiv> SyncError c st False"

datatype if_match = MatchText string | MatchInt int | MatchBool bool

datatype conflict_choice = KeepLocalAsNewVersion | KeepCloud | KeepBoth

fun choice_value :: "conflict_choice \<Rightarrow> string" where
  "choice_value KeepLocalAsNewVersion = ''keep_local_as_new_version''"
| "choice_value KeepCloud = ''keep_cloud''"
| "choice_value KeepBoth = ''keep_both''"

datatype item_kind = SourceVersion | OutputVersion

fun kind_value :: "item_kind \<Rightarrow> string" where
  "kind_value SourceVersion = ''source_version''"
| "kind_value OutputVersion = ''output_version''"

definition item_kind_of :: "string \<Rightarrow> item_kind option" where
  "item_kind_of t = (if t = ''source_version'' then Some SourceVersion
     else if t = ''output_version'' then Some OutputVersion else None)"

record sync_context =
  tenant_id :: string
  workspace_id :: string
  actor_id :: string
  trace_id :: string
  policy_version :: string

definition context_checked :: "sync_context \<Rightarrow> sync_error + sync_context" where
  "context_checked c =
    (if list_all safe_id [tenant_id c, workspace_id c, actor_id c, trace_id c, policy_version c]
     then Inr c else Inl (sync_error ''SYNC_CONTEXT_INVALID'' 400))"

type_synonym scope = "string \<times> string"

definition context_scope :: "sync_context \<Rightarrow> scope" where
  "context_scope c = (tenant_id c, workspace_id c)"

text \<open>\<open>[A-Za-z0-9][A-Za-z0-9!#$&^_.+\-/]{0,254}\<close>.\<close>

definition content_type_ok :: "string \<Rightarrow> bool" where
  "content_type_ok s = (case s of [] \<Rightarrow> False
     | c # cs \<Rightarrow> ascii_alnum c \<and> length cs \<le> 254
         \<and> list_all (\<lambda>x. ascii_alnum x \<or> x \<in> set ''!#$&^_.+-/'') cs)"

record sync_item_input =
  item_id :: string
  source_version_id :: "string option"
  local_object_id :: string
  digest_sha256 :: string
  byte_size :: int
  content_type :: string
  base_cloud_version_id :: "string option"
  base_cloud_digest :: "string option"
  item_kind :: item_kind
  output_version_id :: "string option"
  dependency_item_ids :: "string list"

definition version_contract_valid :: "sync_item_input \<Rightarrow> bool" where
  "version_contract_valid i \<longleftrightarrow>
    (let source_valid = (case source_version_id i of None \<Rightarrow> False | Some v \<Rightarrow> safe_id v);
         output_valid = (case output_version_id i of None \<Rightarrow> False | Some v \<Rightarrow> safe_id v) in
     (item_kind i = SourceVersion \<and> source_valid \<and> \<not> output_valid \<and> dependency_item_ids i = [])
     \<or> (item_kind i = OutputVersion \<and> output_valid \<and> \<not> source_valid \<and> dependency_item_ids i \<noteq> []
        \<and> content_type i = ''application/vnd.daon.offline-studio-output+json''))"

definition dependencies_valid :: "sync_item_input \<Rightarrow> bool" where
  "dependencies_valid i \<longleftrightarrow>
    sort (remdups (dependency_item_ids i)) = dependency_item_ids i
    \<and> list_all safe_id (dependency_item_ids i)"

text \<open>\<open>SyncItemInput.__post_init__\<close>; the kind arrives as text and is converted first.\<close>

definition sync_item_checked :: "string \<Rightarrow> sync_item_input \<Rightarrow> sync_error + sync_item_input" where
  "sync_item_checked kind_text i0 =
    (case item_kind_of kind_text of None \<Rightarrow> Inl (sync_error ''SYNC_ITEM_INVALID'' 400)
     | Some k \<Rightarrow>
        (let i = i0\<lparr>item_kind := k\<rparr> in
         if \<not> list_all safe_id [item_id i, local_object_id i]
           \<or> \<not> version_contract_valid i \<or> \<not> dependencies_valid i
           \<or> \<not> sha256_text (digest_sha256 i) \<or> byte_size i < 0 \<or> \<not> content_type_ok (content_type i)
           \<or> (base_cloud_version_id i = None) \<noteq> (base_cloud_digest i = None)
           \<or> \<not> pred_option safe_id (base_cloud_version_id i)
           \<or> \<not> pred_option sha256_text (base_cloud_digest i)
         then Inl (sync_error ''SYNC_ITEM_INVALID'' 400) else Inr i))"

text \<open>
  The property \<open>version_id\<close>, whose assertion holds for every checked item
  (lemma \<open>version_id_checked\<close>).
\<close>

definition version_id_opt :: "sync_item_input \<Rightarrow> string option" where
  "version_id_opt i = (case item_kind i of SourceVersion \<Rightarrow> source_version_id i
     | OutputVersion \<Rightarrow> output_version_id i)"

definition version_id :: "sync_item_input \<Rightarrow> string" where
  "version_id i = (case version_id_opt i of None \<Rightarrow> [] | Some v \<Rightarrow> v)"

lemma version_id_checked:
  "sync_item_checked k i0 = Inr i \<Longrightarrow> version_id_opt i = Some (version_id i) \<and> safe_id (version_id i)"
  by (auto simp: sync_item_checked_def version_contract_valid_def version_id_opt_def version_id_def Let_def
      split: option.splits if_splits item_kind.splits)

record transfer_payload =
  pay_item_id :: string
  content :: string
  current_cloud_version_id :: "string option"
  current_cloud_digest :: "string option"

record target_version =
  target_version_id :: string
  target_object_id :: string
  target_item_id :: string
  target_digest :: string
  previous_cloud_version_id :: "string option"
  relation :: string

section \<open>State\<close>

datatype conflict_state = Unresolved | Resolved

record conflict =
  conflict_id :: string
  conf_item_id :: string
  local_version_id :: string
  local_digest :: string
  cloud_version_id :: "string option"
  cloud_digest :: "string option"
  base_version_id :: "string option"
  base_digest :: "string option"
  conf_state :: conflict_state

datatype batch_state = BatchConflict | BatchTransferred

record transfer_batch_view =
  batch_id :: string
  batch_state :: batch_state
  sequence :: nat
  cursor :: "string option"
  next_cursor :: "string option"
  transferred_item_ids :: "string list"
  conflict_ids :: "string list"
  batch_replayed :: bool

record conflict_resolution_view =
  resolution_id :: string
  res_conflict_id :: string
  choice :: conflict_choice
  res_target_version_id :: "string option"
  res_replayed :: bool

datatype operation_state =
  AwaitingApproval | Approved | Transferring | InConflict | ReindexRequested

text \<open>The set \<open>completed_item_ids\<close> is a list without repetitions.\<close>

record operation =
  operation_id :: string
  op_context :: sync_context
  target_area :: string
  items :: "(string, sync_item_input) dict"
  manifest_digest :: string
  op_state :: operation_state
  op_version :: int
  approved_item_ids :: "string list"
  approval_snapshot_id :: "string option"
  batches :: "transfer_batch_view list"
  conflicts :: "conflict list"
  target_versions :: "target_version list"
  completed_item_ids :: "string list"
  reindex_state :: "string option"

text \<open>The values of the idempotency table, shared by the four writing operations.\<close>

datatype ledger_value =
    OperationRef string
  | SnapshotRef string
  | BatchRef string
  | ResolutionRef conflict_resolution_view

record transfer_port =
  transmission_count :: int
  replays :: "(string \<times> string, target_version) dict"

record sync_state =
  operations :: "(string, operation) dict"
  idempotency :: "(string \<times> string \<times> string \<times> string, string \<times> ledger_value) dict"
  audit :: "(string \<times> string \<times> string) list"
  port :: transfer_port
  tokens_drawn :: nat

definition empty_repository :: "transfer_port \<Rightarrow> sync_state" where
  "empty_repository p = \<lparr>operations = [], idempotency = [], audit = [], port = p, tokens_drawn = 0\<rparr>"

record sync_service =
  token_hex :: "nat \<Rightarrow> string"
  sha256_hex :: "string \<Rightarrow> string"

definition fresh_id :: "sync_service \<Rightarrow> string \<Rightarrow> sync_state \<Rightarrow> string \<times> sync_state" where
  "fresh_id cfg prefix s =
    (prefix @ ''-'' @ token_hex cfg (tokens_drawn s), s\<lparr>tokens_drawn := Suc (tokens_drawn s)\<rparr>)"

section \<open>The transfer port\<close>

definition transmitted ::
  "sync_service \<Rightarrow> sync_item_input \<Rightarrow> string \<Rightarrow> string \<Rightarrow> string \<Rightarrow> target_version" where
  "transmitted cfg item digest key rel =
    (let suffix = take 24 (sha256_hex cfg (item_id item @ ''|'' @ key))
     in \<lparr>target_version_id = ''cloud-version-'' @ suffix, target_object_id = ''cloud-object-'' @ suffix,
         target_item_id = item_id item, target_digest = digest,
         previous_cloud_version_id = base_cloud_version_id item, relation = rel\<rparr>)"

definition transmit ::
  "sync_service \<Rightarrow> sync_item_input \<Rightarrow> string \<Rightarrow> string \<Rightarrow> string \<Rightarrow> transfer_port
    \<Rightarrow> (transfer_port, sync_error, target_version) outcome" where
  "transmit cfg item body key rel p =
    (case dict_get (replays p) (item_id item, key) of
       Some v \<Rightarrow> (Inr v, p)
     | None \<Rightarrow>
         if int (length body) \<noteq> byte_size item
         then (Inl (sync_error ''SYNC_CONTENT_INVALID'' 400), p)
         else let digest = sha256_hex cfg body in
         if digest \<noteq> digest_sha256 item
         then (Inl (sync_error ''SYNC_CONTENT_DIGEST_MISMATCH'' 400), p)
         else let v = transmitted cfg item digest key rel
              in (Inr v, p\<lparr>transmission_count := transmission_count p + 1,
                    replays := dict_set (item_id item, key) v (replays p)\<rparr>))"

section \<open>Views and texts\<close>

record sync_operation_view =
  sov_operation_id :: string
  sov_tenant_id :: string
  sov_workspace_id :: string
  sov_actor_id :: string
  sov_target_area :: string
  sov_state :: operation_state
  sov_version :: int
  sov_manifest_digest :: string
  sov_approved_item_ids :: "string list"
  sov_completed_item_ids :: "string list"
  sov_batches :: "transfer_batch_view list"
  sov_conflicts :: "conflict list"
  sov_target_versions :: "target_version list"
  sov_reindex_state :: "string option"
  sov_source_mutations :: int
  sov_overwrite_count :: int
  sov_item_ids :: "string list"

definition view_operation :: "operation \<Rightarrow> sync_operation_view" where
  "view_operation opn = \<lparr>sov_operation_id = operation_id opn, sov_tenant_id = tenant_id (op_context opn),
     sov_workspace_id = workspace_id (op_context opn), sov_actor_id = actor_id (op_context opn),
     sov_target_area = target_area opn, sov_state = op_state opn, sov_version = op_version opn,
     sov_manifest_digest = manifest_digest opn, sov_approved_item_ids = approved_item_ids opn,
     sov_completed_item_ids = sort (completed_item_ids opn), sov_batches = batches opn,
     sov_conflicts = conflicts opn, sov_target_versions = target_versions opn,
     sov_reindex_state = reindex_state opn, sov_source_mutations = 0, sov_overwrite_count = 0,
     sov_item_ids = sort (map fst (items opn))\<rparr>"

definition operation_etag :: "sync_operation_view \<Rightarrow> string" where
  "operation_etag v = [CHR 0x22] @ ''sync:'' @ sov_operation_id v @ '':''
     @ dec_int (sov_version v) @ [CHR 0x22]"

fun kind_repr :: "item_kind \<Rightarrow> string" where
  "kind_repr SourceVersion = ''<SyncItemKind.SOURCE_VERSION: '' @ py_repr_str ''source_version'' @ ''>''"
| "kind_repr OutputVersion = ''<SyncItemKind.OUTPUT_VERSION: '' @ py_repr_str ''output_version'' @ ''>''"

definition item_str :: "sync_item_input \<Rightarrow> string" where
  "item_str i = py_dataclass ''SyncItemInput''
     [(''item_id'', py_repr_str (item_id i)),
      (''source_version_id'', py_repr_opt (source_version_id i)),
      (''local_object_id'', py_repr_str (local_object_id i)),
      (''digest_sha256'', py_repr_str (digest_sha256 i)), (''byte_size'', dec_int (byte_size i)),
      (''content_type'', py_repr_str (content_type i)),
      (''base_cloud_version_id'', py_repr_opt (base_cloud_version_id i)),
      (''base_cloud_digest'', py_repr_opt (base_cloud_digest i)),
      (''item_kind'', kind_repr (item_kind i)),
      (''output_version_id'', py_repr_opt (output_version_id i)),
      (''dependency_item_ids'', py_repr_tuple (map py_repr_str (dependency_item_ids i)))]"

fun match_json :: "if_match \<Rightarrow> json" where
  "match_json (MatchText t) = JStr t"
| "match_json (MatchInt v) = JInt v"
| "match_json (MatchBool b) = JBool b"

definition manifest_line :: "sync_item_input \<Rightarrow> string" where
  "manifest_line i = item_id i @ '':'' @ kind_value (item_kind i) @ '':'' @ version_id i @ '':''
     @ join_with '','' (dependency_item_ids i) @ '':'' @ digest_sha256 i"

definition manifest_of :: "sync_service \<Rightarrow> sync_item_input list \<Rightarrow> string" where
  "manifest_of cfg xs = sha256_hex cfg (join_with ''|'' (map manifest_line (sort_key item_id xs)))"

section \<open>Guards and lookups\<close>

definition validate_write :: "string \<Rightarrow> if_match \<Rightarrow> sync_error + unit" where
  "validate_write key expected =
    (if \<not> safe_id key then Inl (sync_error ''IDEMPOTENCY_KEY_INVALID'' 400)
     else (case expected of
         MatchText t \<Rightarrow> if t = ''*'' then Inr () else Inl (sync_error ''IF_MATCH_INVALID'' 400)
       | MatchInt v \<Rightarrow> if v < 1 then Inl (sync_error ''IF_MATCH_INVALID'' 400) else Inr ()
       | MatchBool _ \<Rightarrow> Inl (sync_error ''IF_MATCH_INVALID'' 400)))"

definition version_is :: "int \<Rightarrow> if_match \<Rightarrow> bool" where
  "version_is v m \<longleftrightarrow> m = MatchInt v"

definition find_operation :: "sync_state \<Rightarrow> sync_context \<Rightarrow> string \<Rightarrow> sync_error + operation" where
  "find_operation s c oid =
    (case dict_get (operations s) oid of
       None \<Rightarrow> Inl (sync_error ''SYNC_OPERATION_UNAVAILABLE'' 404)
     | Some opn \<Rightarrow>
         if tenant_id (op_context opn) \<noteq> tenant_id c \<or> workspace_id (op_context opn) \<noteq> workspace_id c
         then Inl (sync_error ''SYNC_OPERATION_UNAVAILABLE'' 404) else Inr opn)"

type_synonym ledger = "(string \<times> string \<times> string \<times> string, string \<times> ledger_value) dict"

definition replay_lookup ::
  "ledger \<Rightarrow> string \<times> string \<times> string \<times> string \<Rightarrow> string \<Rightarrow> sync_error + ledger_value option" where
  "replay_lookup l key fp =
    (case dict_get l key of None \<Rightarrow> Inr None
     | Some (f, v) \<Rightarrow> if f \<noteq> fp then Inl (sync_error ''IDEMPOTENCY_KEY_REUSED'' 409)
         else Inr (Some v))"

definition put_operation :: "string \<Rightarrow> operation \<Rightarrow> sync_state \<Rightarrow> sync_state" where
  "put_operation oid opn s = s\<lparr>operations := dict_set oid opn (operations s)\<rparr>"

definition remember ::
  "string \<times> string \<times> string \<times> string \<Rightarrow> string \<Rightarrow> ledger_value \<Rightarrow> sync_state \<Rightarrow> sync_state" where
  "remember key fp v s = s\<lparr>idempotency := dict_set key (fp, v) (idempotency s)\<rparr>"

definition audit_event :: "operation \<Rightarrow> string \<Rightarrow> string \<Rightarrow> sync_state \<Rightarrow> sync_state" where
  "audit_event opn action trace s = s\<lparr>audit := audit s @ [(operation_id opn, action, trace)]\<rparr>"

text \<open>\<open>str(replay[1])\<close>; a resolution's text names no operation.\<close>

definition choice_repr :: "conflict_choice \<Rightarrow> string" where
  "choice_repr ch = ''<ConflictResolutionChoice.''
     @ (case ch of KeepLocalAsNewVersion \<Rightarrow> ''KEEP_LOCAL_AS_NEW_VERSION''
        | KeepCloud \<Rightarrow> ''KEEP_CLOUD'' | KeepBoth \<Rightarrow> ''KEEP_BOTH'')
     @ '': '' @ py_repr_str (choice_value ch) @ ''>''"

definition ledger_text :: "ledger_value \<Rightarrow> string" where
  "ledger_text v = (case v of OperationRef x \<Rightarrow> x | SnapshotRef x \<Rightarrow> x | BatchRef x \<Rightarrow> x
     | ResolutionRef r \<Rightarrow> py_dataclass ''ConflictResolutionView''
         [(''resolution_id'', py_repr_str (resolution_id r)),
          (''conflict_id'', py_repr_str (res_conflict_id r)), (''choice'', choice_repr (choice r)),
          (''target_version_id'', py_repr_opt (res_target_version_id r)),
          (''replayed'', py_repr_bool (res_replayed r))])"

definition is_text :: "ledger_value \<Rightarrow> bool" where
  "is_text v = (case v of ResolutionRef _ \<Rightarrow> False | _ \<Rightarrow> True)"

section \<open>Preview and approval\<close>

definition create_operation ::
  "sync_service \<Rightarrow> sync_context \<Rightarrow> string \<Rightarrow> sync_item_input list \<Rightarrow> string \<Rightarrow> if_match \<Rightarrow> sync_state
    \<Rightarrow> (sync_state, sync_error, sync_operation_view) outcome" where
  "create_operation cfg c area xs idempotency_key if_match s =
    attempt (validate_write idempotency_key if_match) s (\<lambda>_.
    if if_match \<noteq> MatchText ''*'' \<or> area \<noteq> ''cloud_sync'' \<or> xs = []
    then (Inl (sync_error ''SYNC_PREVIEW_INVALID'' 400), s)
    else let by_id = dict_by item_id xs in
    if length by_id \<noteq> length xs then (Inl (sync_error ''SYNC_PREVIEW_INVALID'' 400), s)
    else let fp = fingerprint (sha256_hex cfg)
               (JArr [JStr area, JArr (map (\<lambda>i. JStr (item_str i)) xs)]);
             key = (tenant_id c, workspace_id c, actor_id c, idempotency_key) in
    attempt (replay_lookup (idempotency s) key fp) s (\<lambda>found.
    case found of
      Some v \<Rightarrow> attempt (find_operation s c (ledger_text v)) s (\<lambda>opn. (Inr (view_operation opn), s))
    | None \<Rightarrow>
        let (oid, s1) = fresh_id cfg ''sync'' s;
            opn = \<lparr>operation_id = oid, op_context = c, target_area = area, items = by_id,
              manifest_digest = manifest_of cfg xs, op_state = AwaitingApproval, op_version = 1,
              approved_item_ids = [], approval_snapshot_id = None, batches = [], conflicts = [],
              target_versions = [], completed_item_ids = [], reindex_state = None\<rparr>;
            s2 = audit_event opn ''sync.preview.created'' (trace_id c)
              (remember key fp (OperationRef oid) (put_operation oid opn s1))
        in (Inr (view_operation opn), s2)))"

definition get_operation ::
  "sync_context \<Rightarrow> string \<Rightarrow> sync_state \<Rightarrow> sync_error + sync_operation_view" where
  "get_operation c oid s =
    (case find_operation s c oid of Inl e \<Rightarrow> Inl e | Inr opn \<Rightarrow> Inr (view_operation opn))"

definition list_operations :: "sync_context \<Rightarrow> sync_state \<Rightarrow> sync_operation_view list" where
  "list_operations c s = map view_operation (rev (sort_key operation_id (rev
     (filter (\<lambda>opn. tenant_id (op_context opn) = tenant_id c
         \<and> workspace_id (op_context opn) = workspace_id c) (dict_values (operations s))))))"

definition locate_workspace :: "string \<Rightarrow> string \<Rightarrow> sync_state \<Rightarrow> sync_error + string" where
  "locate_workspace tenant oid s =
    (case dict_get (operations s) oid of
       None \<Rightarrow> Inl (sync_error ''SYNC_OPERATION_UNAVAILABLE'' 404)
     | Some opn \<Rightarrow> if tenant_id (op_context opn) \<noteq> tenant
         then Inl (sync_error ''SYNC_OPERATION_UNAVAILABLE'' 404)
         else Inr (workspace_id (op_context opn)))"

text \<open>\<open>tuple(dict.fromkeys(ids))\<close>: first occurrences, in order.\<close>

definition first_occurrences :: "string list \<Rightarrow> string list" where
  "first_occurrences ids = map fst (dict_by (\<lambda>x. x) ids)"

text \<open>Every dependency of an approved item is approved too.\<close>

definition dependencies_within ::
  "(string, sync_item_input) dict \<Rightarrow> string list \<Rightarrow> string list \<Rightarrow> bool" where
  "dependencies_within its ids allowed \<longleftrightarrow>
    list_all (\<lambda>i. case dict_get its i of None \<Rightarrow> True
      | Some item \<Rightarrow> list_all (\<lambda>dep. dep \<in> set allowed) (dependency_item_ids item)) ids"

definition approve ::
  "sync_service \<Rightarrow> sync_context \<Rightarrow> string \<Rightarrow> string list \<Rightarrow> string \<Rightarrow> if_match \<Rightarrow> string \<Rightarrow> bool
    \<Rightarrow> sync_state \<Rightarrow> (sync_state, sync_error, sync_operation_view) outcome" where
  "approve cfg c oid ids step_up expected idempotency_key approval_verified s =
    attempt (validate_write idempotency_key expected) s (\<lambda>_.
    if \<not> approval_verified \<or> step_up = [] then (Inl (sync_error ''STEP_UP_REQUIRED'' 403), s)
    else let fp = fingerprint (sha256_hex cfg)
               (JArr [JStr oid, JArr (map JStr ids), JStr step_up, match_json expected]);
             key = (oid, actor_id c, ''approve'', idempotency_key) in
    attempt (find_operation s c oid) s (\<lambda>opn.
    attempt (replay_lookup (idempotency s) key fp) s (\<lambda>found.
    if found \<noteq> None then (Inr (view_operation opn), s)
    else if \<not> version_is (op_version opn) expected
    then (Inl (sync_error ''SYNC_VERSION_CONFLICT'' 409), s)
    else let approved = first_occurrences ids in
    if approved = [] \<or> list_ex (\<lambda>i. dict_get (items opn) i = None) approved
    then (Inl (sync_error ''SYNC_SCOPE_EXPANSION_DENIED'' 403), s)
    else if \<not> dependencies_within (items opn) approved approved
    then (Inl (sync_error ''SYNC_DEPENDENCY_REQUIRED'' 409), s)
    else let (snapshot, s1) = fresh_id cfg ''sync-approval'' s;
             o1 = opn\<lparr>approved_item_ids := approved, approval_snapshot_id := Some snapshot,
               op_state := Approved, op_version := op_version opn + 1\<rparr>;
             s2 = audit_event o1 ''sync.approved'' (trace_id c)
               (remember key fp (SnapshotRef snapshot) (put_operation oid o1 s1))
         in (Inr (view_operation o1), s2))))"

section \<open>Transfer of a batch\<close>

definition new_conflict :: "string \<Rightarrow> sync_item_input \<Rightarrow> transfer_payload \<Rightarrow> conflict" where
  "new_conflict cid item p = \<lparr>conflict_id = cid, conf_item_id = item_id item,
     local_version_id = version_id item, local_digest = digest_sha256 item,
     cloud_version_id = current_cloud_version_id p, cloud_digest = current_cloud_digest p,
     base_version_id = base_cloud_version_id item, base_digest = base_cloud_digest item,
     conf_state = Unresolved\<rparr>"

text \<open>
  The loop over the payloads, on the working copy of the operation: a raise returns the copy as
  far as it got. A payload of an item outside the manifest raises \<open>KeyError\<close>; the guard of the
  caller excludes it.
\<close>

fun transfer_payloads ::
  "sync_service \<Rightarrow> string \<Rightarrow> transfer_payload list \<Rightarrow> operation \<Rightarrow> sync_state \<Rightarrow> string list
    \<Rightarrow> string list \<Rightarrow> (sync_error + string list \<times> string list) \<times> operation \<times> sync_state" where
  "transfer_payloads cfg k [] opn s sent clash = (Inr (sent, clash), opn, s)"
| "transfer_payloads cfg k (p # ps) opn s sent clash =
    (if pay_item_id p \<in> set (completed_item_ids opn) then transfer_payloads cfg k ps opn s sent clash
     else case dict_get (items opn) (pay_item_id p) of
       None \<Rightarrow> (Inl (sync_error ''KeyError'' 500), opn, s)
     | Some item \<Rightarrow>
       if list_ex (\<lambda>dep. dep \<notin> set (completed_item_ids opn)) (dependency_item_ids item)
       then (Inl (sync_error ''SYNC_DEPENDENCY_REQUIRED'' 409), opn, s)
       else if (current_cloud_version_id p, current_cloud_digest p)
           \<noteq> (base_cloud_version_id item, base_cloud_digest item)
       then let (cid, s1) = fresh_id cfg ''sync-conflict'' s
            in transfer_payloads cfg k ps
                 (opn\<lparr>conflicts := conflicts opn @ [new_conflict cid item p]\<rparr>) s1 sent (clash @ [cid])
       else (case transmit cfg item (content p) (k @ '':'' @ item_id item) ''copy'' (port s) of
           (Inl e, p') \<Rightarrow> (Inl e, opn, s\<lparr>port := p'\<rparr>)
         | (Inr target, p') \<Rightarrow>
             transfer_payloads cfg k ps
               (opn\<lparr>target_versions := target_versions opn @ [target],
                 completed_item_ids := List.insert (item_id item) (completed_item_ids opn)\<rparr>)
               (s\<lparr>port := p'\<rparr>) (sent @ [item_id item]) clash))"

definition batch_fingerprint ::
  "sync_service \<Rightarrow> string \<Rightarrow> if_match \<Rightarrow> string option \<Rightarrow> transfer_payload list \<Rightarrow> string" where
  "batch_fingerprint cfg oid expected cur ps = fingerprint (sha256_hex cfg)
    (JArr [JStr oid, match_json expected, JOpt cur,
      JArr (map (\<lambda>p. JArr [JStr (pay_item_id p), JStr (sha256_hex cfg (content p)),
        JOpt (current_cloud_version_id p), JOpt (current_cloud_digest p)]) ps)])"

definition all_approved_completed :: "operation \<Rightarrow> bool" where
  "all_approved_completed opn \<longleftrightarrow> set (approved_item_ids opn) \<subseteq> set (completed_item_ids opn)"

definition record_batch ::
  "string \<Rightarrow> string option \<Rightarrow> string list \<Rightarrow> string list \<Rightarrow> operation \<Rightarrow> transfer_batch_view \<times> operation"
where
  "record_batch bid cur sent clash opn =
    (let b = \<lparr>batch_id = bid, batch_state = (if clash \<noteq> [] then BatchConflict else BatchTransferred),
           sequence = length (batches opn) + 1, cursor = cur,
           next_cursor = Some (dec_nat (length (completed_item_ids opn))),
           transferred_item_ids = sent, conflict_ids = clash, batch_replayed = False\<rparr>;
         o1 = opn\<lparr>batches := batches opn @ [b], op_version := op_version opn + 1\<rparr>
     in (b, if clash \<noteq> [] then o1\<lparr>op_state := InConflict\<rparr>
            else if all_approved_completed o1
            then o1\<lparr>op_state := ReindexRequested, reindex_state := Some ''reindex_requested''\<rparr>
            else o1\<lparr>op_state := Transferring\<rparr>))"

definition prior_batch :: "operation \<Rightarrow> ledger_value \<Rightarrow> sync_error + transfer_batch_view" where
  "prior_batch opn v = (case find (\<lambda>b. is_text v \<and> ledger_text v = batch_id b) (batches opn) of
     None \<Rightarrow> Inl (sync_error ''StopIteration'' 500)
   | Some b \<Rightarrow> Inr (b\<lparr>batch_replayed := True\<rparr>))"

definition transfer_batch ::
  "sync_service \<Rightarrow> sync_context \<Rightarrow> string \<Rightarrow> if_match \<Rightarrow> string \<Rightarrow> string option
    \<Rightarrow> transfer_payload list \<Rightarrow> sync_state
    \<Rightarrow> (sync_state, sync_error, transfer_batch_view) outcome" where
  "transfer_batch cfg c oid expected idempotency_key cur payloads s =
    attempt (validate_write idempotency_key expected) s (\<lambda>_.
    if payloads = [] then (Inl (sync_error ''SYNC_BATCH_INVALID'' 400), s)
    else let fp = batch_fingerprint cfg oid expected cur payloads;
             key = (oid, actor_id c, ''transfer'', idempotency_key) in
    attempt (find_operation s c oid) s (\<lambda>opn.
    attempt (replay_lookup (idempotency s) key fp) s (\<lambda>found.
    case found of
      Some v \<Rightarrow> attempt (prior_batch opn v) s (\<lambda>b. (Inr b, s))
    | None \<Rightarrow>
    if approval_snapshot_id opn = None
    then (Inl (sync_error ''SYNC_APPROVAL_REQUIRED'' 403),
          audit_event opn ''sync.transfer.denied'' (trace_id c) s)
    else if \<not> version_is (op_version opn) expected
    then (Inl (sync_error ''SYNC_VERSION_CONFLICT'' 409), s)
    else if list_ex (\<lambda>p. pay_item_id p \<notin> set (approved_item_ids opn)) payloads
    then (Inl (sync_error ''SYNC_SCOPE_EXPANSION_DENIED'' 403), s)
    else let (bid, s1) = fresh_id cfg ''sync-batch'' s in
      (case transfer_payloads cfg idempotency_key payloads opn s1 [] [] of
         (Inl e, o1, s2) \<Rightarrow> (Inl e, put_operation oid o1 s2)
       | (Inr (sent, clash), o1, s2) \<Rightarrow>
           let (b, o2) = record_batch bid cur sent clash o1;
               s3 = audit_event o2 ''sync.transfer.batch_recorded'' (trace_id c)
                 (remember key fp (BatchRef bid) (put_operation oid o2 s2))
           in (Inr b, s3)))))"

section \<open>Resolution of a conflict\<close>

text \<open>The first conflict with that identifier is marked resolved.\<close>

fun resolve_in :: "string \<Rightarrow> conflict list \<Rightarrow> conflict list" where
  "resolve_in cid [] = []"
| "resolve_in cid (x # xs) =
    (if conflict_id x = cid then x\<lparr>conf_state := Resolved\<rparr> # xs else x # resolve_in cid xs)"

definition settle :: "string \<Rightarrow> string \<Rightarrow> operation \<Rightarrow> operation" where
  "settle cid iid opn =
    (let o1 = opn\<lparr>conflicts := resolve_in cid (conflicts opn),
           completed_item_ids := List.insert iid (completed_item_ids opn),
           op_version := op_version opn + 1\<rparr>
     in if list_all (\<lambda>x. conf_state x = Resolved) (conflicts o1) \<and> all_approved_completed o1
        then o1\<lparr>op_state := ReindexRequested, reindex_state := Some ''reindex_requested''\<rparr>
        else o1)"

definition resolution_fingerprint ::
  "sync_service \<Rightarrow> string \<Rightarrow> string \<Rightarrow> if_match \<Rightarrow> conflict_choice \<Rightarrow> string option \<Rightarrow> string" where
  "resolution_fingerprint cfg oid cid expected ch body = fingerprint (sha256_hex cfg)
    (JArr [JStr oid, JStr cid, match_json expected, JStr (choice_value ch),
      JOpt (map_option (sha256_hex cfg) body)])"

text \<open>The target of the resolution, if the choice keeps the local content.\<close>

definition keep_local ::
  "sync_service \<Rightarrow> conflict_choice \<Rightarrow> sync_item_input \<Rightarrow> string option \<Rightarrow> string \<Rightarrow> operation \<Rightarrow> sync_state
    \<Rightarrow> (sync_error + string option) \<times> operation \<times> sync_state" where
  "keep_local cfg ch item body k opn s =
    (if ch = KeepCloud then (Inr None, opn, s)
     else case body of None \<Rightarrow> (Inl (sync_error ''SYNC_CONTENT_REQUIRED'' 400), opn, s)
       | Some b \<Rightarrow>
         (case transmit cfg item b (k @ '':'' @ item_id item) (choice_value ch) (port s) of
            (Inl e, p') \<Rightarrow> (Inl e, opn, s\<lparr>port := p'\<rparr>)
          | (Inr target, p') \<Rightarrow> (Inr (Some (target_version_id target)),
              opn\<lparr>target_versions := target_versions opn @ [target]\<rparr>, s\<lparr>port := p'\<rparr>)))"

definition resolve_conflict ::
  "sync_service \<Rightarrow> sync_context \<Rightarrow> string \<Rightarrow> string \<Rightarrow> if_match \<Rightarrow> string \<Rightarrow> conflict_choice
    \<Rightarrow> string option \<Rightarrow> sync_state \<Rightarrow> (sync_state, sync_error, conflict_resolution_view) outcome" where
  "resolve_conflict cfg c oid cid expected idempotency_key ch body s =
    attempt (validate_write idempotency_key expected) s (\<lambda>_.
    let fp = resolution_fingerprint cfg oid cid expected ch body;
        key = (oid, actor_id c, ''resolution'', idempotency_key) in
    attempt (find_operation s c oid) s (\<lambda>opn.
    attempt (replay_lookup (idempotency s) key fp) s (\<lambda>found.
    case found of
      Some (ResolutionRef r) \<Rightarrow> (Inr (r\<lparr>res_replayed := True\<rparr>), s)
    | Some _ \<Rightarrow> (Inl (sync_error ''AssertionError'' 500), s)
    | None \<Rightarrow>
    if \<not> version_is (op_version opn) expected
    then (Inl (sync_error ''SYNC_VERSION_CONFLICT'' 409), s)
    else case find (\<lambda>x. conflict_id x = cid) (conflicts opn) of
      None \<Rightarrow> (Inl (sync_error ''SYNC_CONFLICT_UNAVAILABLE'' 404), s)
    | Some x \<Rightarrow>
    if conf_state x \<noteq> Unresolved then (Inl (sync_error ''SYNC_CONFLICT_UNAVAILABLE'' 404), s)
    else case dict_get (items opn) (conf_item_id x) of
      None \<Rightarrow> (Inl (sync_error ''KeyError'' 500), s)
    | Some item \<Rightarrow>
      (case keep_local cfg ch item body idempotency_key opn s of
         (Inl e, o1, s1) \<Rightarrow> (Inl e, put_operation oid o1 s1)
       | (Inr target, o1, s1) \<Rightarrow>
           let o2 = settle cid (item_id item) o1;
               (rid, s2) = fresh_id cfg ''sync-resolution'' s1;
               r = \<lparr>resolution_id = rid, res_conflict_id = cid, choice = ch,
                 res_target_version_id = target, res_replayed = False\<rparr>;
               s3 = audit_event o2 ''sync.conflict.resolved'' (trace_id c)
                 (remember key fp (ResolutionRef r) (put_operation oid o2 s2))
           in (Inr r, s3)))))"

end
