(* ===== verification/Sync_Invariant.thy ===== *)
theory Sync_Invariant
  imports Sync
begin

text \<open>
  The invariant of the sync service: the transfer loop and the port first, then what each handler
  can leave behind, the step relation, the invariant of operations and its preservation, and the
  interpretations of the shared contracts.
\<close>

section \<open>Frame facts\<close>

lemma sync_put_simps [simp]:
  "operations (put_operation i x s) = dict_set i x (operations s)"
  "idempotency (put_operation i x s) = idempotency s" "audit (put_operation i x s) = audit s"
  "port (put_operation i x s) = port s" "tokens_drawn (put_operation i x s) = tokens_drawn s"
  "operations (remember k f v s) = operations s"
  "idempotency (remember k f v s) = dict_set k (f, v) (idempotency s)"
  "audit (remember k f v s) = audit s" "port (remember k f v s) = port s"
  "tokens_drawn (remember k f v s) = tokens_drawn s"
  "operations (audit_event x a t s) = operations s"
  "idempotency (audit_event x a t s) = idempotency s" "port (audit_event x a t s) = port s"
  "tokens_drawn (audit_event x a t s) = tokens_drawn s"
  by (simp_all add: put_operation_def remember_def audit_event_def)

lemma fresh_id_state:
  "fresh_id cfg prefix s = (i, t) \<Longrightarrow> i = prefix @ ''-'' @ token_hex cfg (tokens_drawn s)
    \<and> t = s\<lparr>tokens_drawn := Suc (tokens_drawn s)\<rparr>"
  by (auto simp: fresh_id_def)

lemma find_operation_InrD:
  "find_operation s c i = Inr x \<Longrightarrow> dict_get (operations s) i = Some x
    \<and> context_scope (op_context x) = context_scope c"
  by (auto simp: find_operation_def context_scope_def split: option.splits if_splits)

lemma sync_replay_None: "replay_lookup l k f = Inr None \<longleftrightarrow> dict_get l k = None"
  by (auto simp: replay_lookup_def split: option.splits if_splits)

lemma sync_replay_Some: "replay_lookup l k f = Inr (Some v) \<longleftrightarrow> dict_get l k = Some (f, v)"
  by (auto simp: replay_lookup_def split: option.splits if_splits)

section \<open>The port\<close>

definition port_ok :: "transfer_port \<Rightarrow> bool" where
  "port_ok p \<longleftrightarrow> (\<forall>iid k v. dict_get (replays p) (iid, k) = Some v \<longrightarrow> target_item_id v = iid)"

lemma transmit_ok:
  assumes "transmit cfg item body key rel p = (res, p')" and "port_ok p"
  shows "port_ok p'" and "res = Inr v \<Longrightarrow> target_item_id v = item_id item"
  using assms by (auto simp: transmit_def port_ok_def transmitted_def Let_def split: option.splits if_splits)

section \<open>Working copies\<close>

text \<open>What holds of an operation at every point of a batch, also when it is cut short.\<close>

definition conflict_ok :: "operation \<Rightarrow> conflict \<Rightarrow> bool" where
  "conflict_ok x cf \<longleftrightarrow>
    (\<exists>item. dict_get (items x) (conf_item_id cf) = Some item
      \<and> set (dependency_item_ids item) \<subseteq> set (completed_item_ids x)
      \<and> local_digest cf = digest_sha256 item
      \<and> base_version_id cf = base_cloud_version_id item \<and> base_digest cf = base_cloud_digest item)
    \<and> (cloud_version_id cf, cloud_digest cf) \<noteq> (base_version_id cf, base_digest cf)
    \<and> (conf_state cf = Resolved \<longrightarrow> conf_item_id cf \<in> set (completed_item_ids x))"

definition working_ok :: "operation \<Rightarrow> bool" where
  "working_ok x \<longleftrightarrow>
    (\<forall>k item. dict_get (items x) k = Some item \<longrightarrow> item_id item = k)
    \<and> (\<forall>i \<in> set (approved_item_ids x). dict_get (items x) i \<noteq> None)
    \<and> dependencies_within (items x) (approved_item_ids x) (approved_item_ids x)
    \<and> (\<forall>i \<in> set (completed_item_ids x). dict_get (items x) i \<noteq> None)
    \<and> dependencies_within (items x) (completed_item_ids x) (completed_item_ids x)
    \<and> distinct (completed_item_ids x)
    \<and> (\<forall>cf \<in> set (conflicts x). conflict_ok x cf)
    \<and> target_item_id ` set (target_versions x) \<subseteq> set (completed_item_ids x)"

definition same_plan :: "operation \<Rightarrow> operation \<Rightarrow> bool" where
  "same_plan x y \<longleftrightarrow> operation_id y = operation_id x \<and> op_context y = op_context x
    \<and> target_area y = target_area x \<and> items y = items x \<and> manifest_digest y = manifest_digest x"

text \<open>The loop may only extend what the operation records.\<close>

definition extends :: "operation \<Rightarrow> operation \<Rightarrow> bool" where
  "extends x y \<longleftrightarrow> same_plan x y \<and> approved_item_ids y = approved_item_ids x
    \<and> approval_snapshot_id y = approval_snapshot_id x \<and> op_state y = op_state x
    \<and> op_version y = op_version x \<and> batches y = batches x \<and> reindex_state y = reindex_state x
    \<and> set (completed_item_ids x) \<subseteq> set (completed_item_ids y)
    \<and> take (length (conflicts x)) (conflicts y) = conflicts x
    \<and> take (length (target_versions x)) (target_versions y) = target_versions x"

lemma extends_refl [simp]: "extends x x"
  by (simp add: extends_def same_plan_def)

lemma take_prefix_trans: "take (length xs) ys = xs \<Longrightarrow> take (length ys) zs = ys \<Longrightarrow> take (length xs) zs = xs"
  by (metis append_eq_conv_conj append_assoc append_take_drop_id)

lemma extends_trans: "extends x y \<Longrightarrow> extends y z \<Longrightarrow> extends x z"
  unfolding extends_def same_plan_def
  by (elim conjE, intro conjI; (rule subset_trans | rule take_prefix_trans)?; (assumption | simp))

lemma dependencies_within_mono:
  "dependencies_within its ids allowed \<Longrightarrow> set allowed \<subseteq> set allowed'
    \<Longrightarrow> dependencies_within its ids allowed'"
  by (fastforce simp: dependencies_within_def list_all_iff split: option.splits)

lemma dependencies_within_insert:
  assumes "dependencies_within its ids ids" and "dict_get its i = Some item"
    and "set (dependency_item_ids item) \<subseteq> set ids"
  shows "dependencies_within its (List.insert i ids) (List.insert i ids)"
  using assms by (fastforce simp: dependencies_within_def list_all_iff split: option.splits)

lemma conflict_ok_mono:
  "conflict_ok x cf \<Longrightarrow> items y = items x \<Longrightarrow> set (completed_item_ids x) \<subseteq> set (completed_item_ids y)
    \<Longrightarrow> conflict_ok y cf"
  unfolding conflict_ok_def by auto

lemma working_conflict:
  assumes "working_ok x" and "dict_get (items x) (pay_item_id p) = Some item"
    and "set (dependency_item_ids item) \<subseteq> set (completed_item_ids x)"
    and "(current_cloud_version_id p, current_cloud_digest p)
      \<noteq> (base_cloud_version_id item, base_cloud_digest item)"
  shows "working_ok (x\<lparr>conflicts := conflicts x @ [new_conflict cid item p]\<rparr>)"
proof -
  have "item_id item = pay_item_id p"
    using assms(1,2) by (simp add: working_ok_def)
  moreover have "conflict_ok (x\<lparr>conflicts := cs\<rparr>) cf \<longleftrightarrow> conflict_ok x cf" for cs cf
    by (simp add: conflict_ok_def)
  ultimately show ?thesis
    using assms by (auto simp: working_ok_def) (auto simp: conflict_ok_def new_conflict_def)
qed

lemma working_complete:
  assumes "working_ok x" and "dict_get (items x) i = Some item"
    and "set (dependency_item_ids item) \<subseteq> set (completed_item_ids x)"
    and "target_item_id ` set vs \<subseteq> {i}"
  shows "working_ok (x\<lparr>target_versions := target_versions x @ vs,
    completed_item_ids := List.insert i (completed_item_ids x)\<rparr>)"
proof -
  let ?y = "x\<lparr>target_versions := target_versions x @ vs,
    completed_item_ids := List.insert i (completed_item_ids x)\<rparr>"
  have "conflict_ok ?y cf" if "cf \<in> set (conflicts x)" for cf
    by (rule conflict_ok_mono [of x]) (use assms(1) that in \<open>auto simp: working_ok_def\<close>)
  moreover have "dependencies_within (items x) (List.insert i (completed_item_ids x))
      (List.insert i (completed_item_ids x))"
    by (rule dependencies_within_insert [OF _ assms(2,3)]) (use assms(1) in \<open>simp add: working_ok_def\<close>)
  ultimately show ?thesis
    using assms by (auto simp: working_ok_def)
qed

section \<open>The transfer loop\<close>

definition same_store :: "sync_state \<Rightarrow> sync_state \<Rightarrow> bool" where
  "same_store s t \<longleftrightarrow> operations t = operations s \<and> idempotency t = idempotency s
    \<and> audit t = audit s \<and> tokens_drawn s \<le> tokens_drawn t"

lemma transmit_error: "transmit cfg item body key rel p = (Inl e, p') \<Longrightarrow> p' = p"
  by (auto simp: transmit_def Let_def split: option.splits if_splits)

text \<open>One round of the loop: skip, stop, record a conflict, or copy.\<close>

lemma transfer_round:
  assumes "transfer_payloads cfg k (p # ps) x s sent clash = (res, y, t)"
  obtains (skip) "pay_item_id p \<in> set (completed_item_ids x)"
      "transfer_payloads cfg k ps x s sent clash = (res, y, t)"
  | (stop) e where "res = Inl e" "y = x" "t = s"
  | (conflict) item cid where "dict_get (items x) (pay_item_id p) = Some item"
      "pay_item_id p \<notin> set (completed_item_ids x)"
      "set (dependency_item_ids item) \<subseteq> set (completed_item_ids x)"
      "(current_cloud_version_id p, current_cloud_digest p)
        \<noteq> (base_cloud_version_id item, base_cloud_digest item)"
      "cid = ''sync-conflict'' @ ''-'' @ token_hex cfg (tokens_drawn s)"
      "transfer_payloads cfg k ps (x\<lparr>conflicts := conflicts x @ [new_conflict cid item p]\<rparr>)
        (s\<lparr>tokens_drawn := Suc (tokens_drawn s)\<rparr>) sent (clash @ [cid]) = (res, y, t)"
  | (copy) item target p' where "dict_get (items x) (pay_item_id p) = Some item"
      "pay_item_id p \<notin> set (completed_item_ids x)"
      "set (dependency_item_ids item) \<subseteq> set (completed_item_ids x)"
      "(current_cloud_version_id p, current_cloud_digest p)
        = (base_cloud_version_id item, base_cloud_digest item)"
      "transmit cfg item (content p) (k @ '':'' @ item_id item) ''copy'' (port s) = (Inr target, p')"
      "transfer_payloads cfg k ps (x\<lparr>target_versions := target_versions x @ [target],
          completed_item_ids := List.insert (item_id item) (completed_item_ids x)\<rparr>)
        (s\<lparr>port := p'\<rparr>) (sent @ [item_id item]) clash = (res, y, t)"
proof (cases "pay_item_id p \<in> set (completed_item_ids x)")
  case True
  then show thesis using assms skip by simp
next
  case new: False
  show thesis
  proof (cases "dict_get (items x) (pay_item_id p)")
    case None
    then show thesis using assms new by (auto intro: stop)
  next
    case (Some item)
    show thesis
    proof (cases "list_ex (\<lambda>dep. dep \<notin> set (completed_item_ids x)) (dependency_item_ids item)")
      case True
      then show thesis using assms new Some by (auto intro: stop)
    next
      case closed: False
      then have deps: "set (dependency_item_ids item) \<subseteq> set (completed_item_ids x)"
        by (auto simp: list_ex_iff)
      show thesis
      proof (cases "(current_cloud_version_id p, current_cloud_digest p)
          = (base_cloud_version_id item, base_cloud_digest item)")
        case False
        then show thesis
          using assms conflict [OF Some new deps False refl] new Some closed
          by (auto simp: fresh_id_def Let_def)
      next
        case True
        obtain r p' where tr: "transmit cfg item (content p) (k @ '':'' @ item_id item) ''copy'' (port s) = (r, p')"
          by fastforce
        show thesis
        proof (cases r)
          case (Inl e)
          then have "p' = port s" using transmit_error tr by blast
          then show thesis using assms new Some closed True tr Inl by (auto intro: stop)
        next
          case (Inr target)
          then show thesis
            using assms copy [OF Some new deps True tr [unfolded Inr]] new Some closed True tr by simp
        qed
      qed
    qed
  qed
qed

text \<open>What a pass over the payloads does, whether it ends or raises.\<close>

lemma transfer_payloads_ok:
  assumes "transfer_payloads cfg k ps x s sent clash = (res, y, t)" and "working_ok x"
    and "port_ok (port s)"
  shows "working_ok y \<and> extends x y \<and> same_store s t \<and> port_ok (port t)"
  using assms
proof (induction ps arbitrary: x s sent clash)
  case Nil
  then show ?case by (simp add: same_store_def)
next
  case (Cons p ps)
  from Cons(2) show ?case
  proof (cases rule: transfer_round)
    case skip
    then show ?thesis using Cons by blast
  next
    case (stop e)
    then show ?thesis using Cons(3,4) by (simp add: same_store_def)
  next
    case (conflict item cid)
    let ?x = "x\<lparr>conflicts := conflicts x @ [new_conflict cid item p]\<rparr>"
    have "working_ok ?x"
      by (rule working_conflict [OF Cons(3) conflict(1,3,4)])
    then have "working_ok y \<and> extends ?x y \<and> same_store (s\<lparr>tokens_drawn := Suc (tokens_drawn s)\<rparr>) t
        \<and> port_ok (port t)"
      using Cons(1) [OF conflict(6)] Cons(4) by simp
    moreover have "extends x ?x"
      by (simp add: extends_def same_plan_def)
    ultimately show ?thesis
      using extends_trans by (auto simp: same_store_def)
  next
    case (copy item target p')
    let ?x = "x\<lparr>target_versions := target_versions x @ [target],
          completed_item_ids := List.insert (item_id item) (completed_item_ids x)\<rparr>"
    have id: "item_id item = pay_item_id p"
      using Cons(3) copy(1) by (simp add: working_ok_def)
    note port = transmit_ok [OF copy(5) Cons(4)]
    have "working_ok ?x"
      unfolding id by (rule working_complete [OF Cons(3) copy(1,3)]) (simp add: port(2) id)
    then have "working_ok y \<and> extends ?x y \<and> same_store (s\<lparr>port := p'\<rparr>) t \<and> port_ok (port t)"
      using Cons(1) [OF copy(6)] port(1) by simp
    moreover have "extends x ?x"
      by (auto simp: extends_def same_plan_def)
    ultimately show ?thesis
      using extends_trans by (auto simp: same_store_def)
  qed
qed

text \<open>
  The report of a pass: every new target is an item of the payloads that was not completed, whose
  cloud version is still the base of the manifest; every new conflict one whose cloud version moved.
\<close>

definition copied_from :: "operation \<Rightarrow> transfer_payload list \<Rightarrow> string \<Rightarrow> bool" where
  "copied_from x ps iid \<longleftrightarrow> iid \<notin> set (completed_item_ids x)
    \<and> (\<exists>p \<in> set ps. \<exists>item. pay_item_id p = iid \<and> dict_get (items x) iid = Some item
        \<and> (current_cloud_version_id p, current_cloud_digest p)
          = (base_cloud_version_id item, base_cloud_digest item))"

definition clashed_from :: "operation \<Rightarrow> transfer_payload list \<Rightarrow> conflict \<Rightarrow> bool" where
  "clashed_from x ps cf \<longleftrightarrow> conf_state cf = Unresolved
    \<and> (\<exists>p \<in> set ps. \<exists>item. dict_get (items x) (pay_item_id p) = Some item
        \<and> cf = new_conflict (conflict_id cf) item p
        \<and> (current_cloud_version_id p, current_cloud_digest p)
          \<noteq> (base_cloud_version_id item, base_cloud_digest item))"

lemma transfer_payloads_report:
  assumes "transfer_payloads cfg k ps x s sent clash = (res, y, t)" and "working_ok x"
    and "port_ok (port s)"
  shows "\<exists>vs cfs. target_versions y = target_versions x @ vs \<and> conflicts y = conflicts x @ cfs
    \<and> set (completed_item_ids y) = set (completed_item_ids x) \<union> target_item_id ` set vs
    \<and> (\<forall>v \<in> set vs. copied_from x ps (target_item_id v)) \<and> (\<forall>cf \<in> set cfs. clashed_from x ps cf)
    \<and> (\<forall>sent' clash'. res = Inr (sent', clash') \<longrightarrow>
        sent' = sent @ map target_item_id vs \<and> clash' = clash @ map conflict_id cfs)"
  using assms
proof (induction ps arbitrary: x s sent clash)
  case Nil
  then show ?case by auto
next
  case (Cons p ps)
  from Cons(2) show ?case
  proof (cases rule: transfer_round)
    case skip
    from Cons(1) [OF skip(2) Cons(3,4)] show ?thesis
      by (elim exE conjE, intro exI conjI; assumption?) (auto simp: copied_from_def clashed_from_def)
  next
    case (stop e)
    then show ?thesis by simp
  next
    case (conflict item cid)
    let ?c = "new_conflict cid item p" and ?s = "s\<lparr>tokens_drawn := Suc (tokens_drawn s)\<rparr>"
    let ?x = "x\<lparr>conflicts := conflicts x @ [?c]\<rparr>"
    have "working_ok ?x" "port_ok (port ?s)"
      using working_conflict [OF Cons(3) conflict(1,3,4)] Cons(4) by simp_all
    from Cons(1) [OF conflict(6) this] obtain vs cfs where
      rest: "target_versions y = target_versions ?x @ vs" "conflicts y = conflicts ?x @ cfs"
        "set (completed_item_ids y) = set (completed_item_ids ?x) \<union> target_item_id ` set vs"
        "\<forall>v \<in> set vs. copied_from ?x ps (target_item_id v)" "\<forall>cf \<in> set cfs. clashed_from ?x ps cf"
        "\<forall>sent' clash'. res = Inr (sent', clash') \<longrightarrow>
          sent' = sent @ map target_item_id vs \<and> clash' = (clash @ [cid]) @ map conflict_id cfs"
      by blast
    have "clashed_from x (p # ps) ?c"
      using conflict(1,4) by (auto simp: clashed_from_def new_conflict_def)
    moreover have "clashed_from ?x ps cf \<Longrightarrow> clashed_from x (p # ps) cf"
        "copied_from ?x ps i \<Longrightarrow> copied_from x (p # ps) i" for cf i
      by (auto simp: clashed_from_def copied_from_def)
    moreover have "conflict_id ?c = cid" by (simp add: new_conflict_def)
    ultimately show ?thesis
      by (intro exI [of _ vs] exI [of _ "?c # cfs"]) (use rest in simp)
  next
    case (copy item v p')
    let ?x = "x\<lparr>target_versions := target_versions x @ [v],
          completed_item_ids := List.insert (item_id item) (completed_item_ids x)\<rparr>"
    have id: "item_id item = pay_item_id p"
      using Cons(3) copy(1) by (simp add: working_ok_def)
    note port = transmit_ok [OF copy(5) Cons(4)]
    have v: "target_item_id v = pay_item_id p" using port(2) id by simp
    have "working_ok ?x" "port_ok (port (s\<lparr>port := p'\<rparr>))"
      unfolding id by (rule working_complete [OF Cons(3) copy(1,3)], simp add: v, simp add: port(1))
    from Cons(1) [OF copy(6) this] obtain vs cfs where
      rest: "target_versions y = target_versions ?x @ vs" "conflicts y = conflicts ?x @ cfs"
        "set (completed_item_ids y) = set (completed_item_ids ?x) \<union> target_item_id ` set vs"
        "\<forall>v \<in> set vs. copied_from ?x ps (target_item_id v)" "\<forall>cf \<in> set cfs. clashed_from ?x ps cf"
        "\<forall>sent' clash'. res = Inr (sent', clash') \<longrightarrow>
          sent' = (sent @ [item_id item]) @ map target_item_id vs \<and> clash' = clash @ map conflict_id cfs"
      by blast
    have "copied_from x (p # ps) (pay_item_id p)"
      using copy(1,2,4) by (auto simp: copied_from_def)
    moreover have "clashed_from ?x ps cf \<Longrightarrow> clashed_from x (p # ps) cf"
        "copied_from ?x ps i \<Longrightarrow> copied_from x (p # ps) i" for cf i
      by (auto simp: clashed_from_def copied_from_def)
    ultimately show ?thesis
      by (intro exI [of _ "v # vs"] exI [of _ cfs]) (use rest in \<open>simp add: id v\<close>)
  qed
qed

section \<open>Effects of the handlers\<close>

definition planned ::
  "sync_service \<Rightarrow> sync_context \<Rightarrow> string \<Rightarrow> sync_item_input list \<Rightarrow> sync_state \<Rightarrow> operation" where
  "planned cfg c area xs s = \<lparr>operation_id = ''sync'' @ ''-'' @ token_hex cfg (tokens_drawn s),
     op_context = c, target_area = area, items = dict_by item_id xs,
     manifest_digest = manifest_of cfg xs, op_state = AwaitingApproval, op_version = 1,
     approved_item_ids = [], approval_snapshot_id = None, batches = [], conflicts = [],
     target_versions = [], completed_item_ids = [], reindex_state = None\<rparr>"

lemma create_operation_effect:
  assumes "create_operation cfg c area xs k m s = (res, t)"
  shows "t = s \<or> (\<exists>fp x. distinct (map item_id xs) \<and> xs \<noteq> []
    \<and> dict_get (idempotency s) (tenant_id c, workspace_id c, actor_id c, k) = None
    \<and> x = planned cfg c area xs s \<and> res = Inr (view_operation x)
    \<and> t = audit_event x ''sync.preview.created'' (trace_id c)
        (remember (tenant_id c, workspace_id c, actor_id c, k) fp (OperationRef (operation_id x))
          (put_operation (operation_id x) x (s\<lparr>tokens_drawn := Suc (tokens_drawn s)\<rparr>))))"
  using assms
  by (auto simp: create_operation_def sync_replay_None fresh_id_def planned_def length_dict_by_iff Let_def
      split: attempt_splits if_splits option.splits)

definition approved_operation :: "string list \<Rightarrow> string \<Rightarrow> operation \<Rightarrow> operation" where
  "approved_operation ids snapshot x = x\<lparr>approved_item_ids := ids,
     approval_snapshot_id := Some snapshot, op_state := Approved, op_version := op_version x + 1\<rparr>"

lemma approve_effect:
  assumes "approve cfg c oid ids auth m k v s = (res, t)"
  shows "t = s \<or> (\<exists>x y fp ids' snapshot. v \<and> auth \<noteq> [] \<and> find_operation s c oid = Inr x
    \<and> m = MatchInt (op_version x) \<and> ids' = first_occurrences ids \<and> ids' \<noteq> []
    \<and> (\<forall>i \<in> set ids'. dict_get (items x) i \<noteq> None) \<and> dependencies_within (items x) ids' ids'
    \<and> dict_get (idempotency s) (oid, actor_id c, ''approve'', k) = None
    \<and> snapshot = ''sync-approval'' @ ''-'' @ token_hex cfg (tokens_drawn s)
    \<and> y = approved_operation ids' snapshot x \<and> res = Inr (view_operation y)
    \<and> t = audit_event y ''sync.approved'' (trace_id c)
        (remember (oid, actor_id c, ''approve'', k) fp (SnapshotRef snapshot)
          (put_operation oid y (s\<lparr>tokens_drawn := Suc (tokens_drawn s)\<rparr>))))"
  using assms
  by (auto simp: approve_def sync_replay_None fresh_id_def approved_operation_def version_is_def
      list_ex_iff Let_def split: attempt_splits if_splits)

lemma transfer_effect:
  assumes "transfer_batch cfg c oid m k cur ps s = (res, t)"
  obtains (none) "operations t = operations s" "idempotency t = idempotency s" "port t = port s"
      "tokens_drawn t = tokens_drawn s"
      "(\<exists>e. res = Inl e) \<or> dict_get (idempotency s) (oid, actor_id c, ''transfer'', k) \<noteq> None"
  | (aborted) x e y s2 where "find_operation s c oid = Inr x" "approval_snapshot_id x \<noteq> None"
      "m = MatchInt (op_version x)" "\<forall>p \<in> set ps. pay_item_id p \<in> set (approved_item_ids x)"
      "transfer_payloads cfg k ps x (s\<lparr>tokens_drawn := Suc (tokens_drawn s)\<rparr>) [] [] = (Inl e, y, s2)"
      "res = Inl e" "t = put_operation oid y s2"
  | (recorded) x sent clash y s2 b z fp bid where "find_operation s c oid = Inr x" "approval_snapshot_id x \<noteq> None"
      "m = MatchInt (op_version x)" "\<forall>p \<in> set ps. pay_item_id p \<in> set (approved_item_ids x)"
      "bid = ''sync-batch'' @ ''-'' @ token_hex cfg (tokens_drawn s)"
      "dict_get (idempotency s) (oid, actor_id c, ''transfer'', k) = None"
      "fp = batch_fingerprint cfg oid m cur ps"
      "transfer_payloads cfg k ps x (s\<lparr>tokens_drawn := Suc (tokens_drawn s)\<rparr>) [] []
        = (Inr (sent, clash), y, s2)"
      "record_batch bid cur sent clash y = (b, z)" "res = Inr b"
      "t = audit_event z ''sync.transfer.batch_recorded'' (trace_id c)
        (remember (oid, actor_id c, ''transfer'', k) fp (BatchRef bid) (put_operation oid z s2))"
proof -
  let ?fp = "batch_fingerprint cfg oid m cur ps" and ?key = "(oid, actor_id c, ''transfer'', k)"
  let ?bid = "''sync-batch'' @ ''-'' @ token_hex cfg (tokens_drawn s)"
  let ?s1 = "s\<lparr>tokens_drawn := Suc (tokens_drawn s)\<rparr>"
  have same: thesis if "t = s" "(\<exists>e. res = Inl e) \<or> dict_get (idempotency s) ?key \<noteq> None"
    using none that by simp
  show thesis
  proof (cases "find_operation s c oid")
    case (Inl e)
    then show thesis
      using assms same by (auto simp: transfer_batch_def Let_def split: attempt_splits if_splits)
  next
    case find: (Inr x)
    show thesis
    proof (cases "replay_lookup (idempotency s) ?key ?fp = Inr None")
      case False
      then show thesis
        using assms same find
        by (auto simp: transfer_batch_def sync_replay_Some Let_def split: attempt_splits if_splits option.splits)
    next
      case fresh: True
      then have unused: "dict_get (idempotency s) ?key = None" by (simp add: sync_replay_None)
      obtain r y s2 where loop: "transfer_payloads cfg k ps x ?s1 [] [] = (r, y, s2)"
        by (cases "transfer_payloads cfg k ps x ?s1 [] []") auto
      show thesis
      proof (cases "validate_write k m = Inr () \<and> ps \<noteq> [] \<and> approval_snapshot_id x \<noteq> None
          \<and> version_is (op_version x) m \<and> \<not> list_ex (\<lambda>p. pay_item_id p \<notin> set (approved_item_ids x)) ps")
        case False
        then show thesis
          using assms same none find fresh
          by (auto simp: transfer_batch_def Let_def audit_event_def split: attempt_splits if_splits)
      next
        case True
        then have guards: "approval_snapshot_id x \<noteq> None" "m = MatchInt (op_version x)"
            "\<forall>p \<in> set ps. pay_item_id p \<in> set (approved_item_ids x)"
          by (auto simp: version_is_def list_ex_iff)
        have run: "transfer_batch cfg c oid m k cur ps s =
            (case transfer_payloads cfg k ps x ?s1 [] [] of
               (Inl e, o1, s2) \<Rightarrow> (Inl e, put_operation oid o1 s2)
             | (Inr (sent, clash), o1, s2) \<Rightarrow>
                 let (b, o2) = record_batch ?bid cur sent clash o1
                 in (Inr b, audit_event o2 ''sync.transfer.batch_recorded'' (trace_id c)
                   (remember ?key ?fp (BatchRef ?bid) (put_operation oid o2 s2))))"
          using True find fresh unfolding transfer_batch_def fresh_id_def Let_def
          by (auto split: sum.split prod.split)
        show thesis
        proof (cases r)
          case (Inl e)
          then show thesis
            using aborted [OF find guards loop [unfolded Inl]] assms run loop by simp
        next
          case (Inr q)
          obtain sent clash where q: "q = (sent, clash)" by fastforce
          obtain b z where "record_batch ?bid cur sent clash y = (b, z)" by fastforce
          then show thesis
            using recorded [OF find guards refl unused refl loop [unfolded Inr q]] assms run loop
            by (simp add: Inr q)
        qed
      qed
    qed
  qed
qed

lemma keep_local_cases:
  assumes "keep_local cfg ch item body k x s = (res, y, t)" and "port_ok (port s)"
  obtains (error) e where "res = Inl e" "y = x" "t = s"
  | (cloud) "ch = KeepCloud" "res = Inr None" "y = x" "t = s"
  | (sent) v b p' where "ch \<noteq> KeepCloud" "body = Some b"
      "transmit cfg item b (k @ '':'' @ item_id item) (choice_value ch) (port s) = (Inr v, p')"
      "res = Inr (Some (target_version_id v))"
      "y = x\<lparr>target_versions := target_versions x @ [v]\<rparr>" "t = s\<lparr>port := p'\<rparr>"
      "target_item_id v = item_id item" "port_ok p'"
proof (cases "ch = KeepCloud")
  case True
  then have "res = Inr None" "y = x" "t = s"
    using assms(1) by (auto simp: keep_local_def)
  then show thesis by (rule cloud [OF True])
next
  case keep: False
  show thesis
  proof (cases body)
    case None
    then have "res = Inl (sync_error ''SYNC_CONTENT_REQUIRED'' 400)" "y = x" "t = s"
      using assms(1) keep by (auto simp: keep_local_def)
    then show thesis by (rule error)
  next
    case (Some b)
    obtain r p' where tr: "transmit cfg item b (k @ '':'' @ item_id item) (choice_value ch) (port s) = (r, p')"
      by fastforce
    show thesis
    proof (cases r)
      case (Inl e)
      then have "p' = port s" using tr transmit_error by blast
      then have "res = Inl e" "y = x" "t = s"
        using assms(1) keep Some tr Inl by (auto simp: keep_local_def)
      then show thesis by (rule error)
    next
      case (Inr v)
      then show thesis
        using assms keep Some tr sent [OF keep Some tr [unfolded Inr]] transmit_ok [OF tr assms(2)]
        by (simp add: keep_local_def)
    qed
  qed
qed

lemma resolve_effect:
  assumes "resolve_conflict cfg c oid cid m k ch body s = (res, t)" and "port_ok (port s)"
  obtains (none) "operations t = operations s" "idempotency t = idempotency s" "port t = port s"
      "tokens_drawn t = tokens_drawn s"
  | (resolved) x cf item y s1 r z fp target where "find_operation s c oid = Inr x"
      "m = MatchInt (op_version x)"
      "find (\<lambda>x. conflict_id x = cid) (conflicts x) = Some cf" "conf_state cf = Unresolved"
      "dict_get (items x) (conf_item_id cf) = Some item"
      "dict_get (idempotency s) (oid, actor_id c, ''resolution'', k) = None"
      "keep_local cfg ch item body k x s = (Inr target, y, s1)" "z = settle cid (item_id item) y"
      "res = Inr r" "res_target_version_id r = target"
      "t = audit_event z ''sync.conflict.resolved'' (trace_id c)
        (remember (oid, actor_id c, ''resolution'', k) fp (ResolutionRef r)
          (put_operation oid z (s1\<lparr>tokens_drawn := Suc (tokens_drawn s1)\<rparr>)))"
proof -
  let ?fp = "resolution_fingerprint cfg oid cid m ch body" and ?key = "(oid, actor_id c, ''resolution'', k)"
  have same: thesis if "t = s" using none that by simp
  show thesis
  proof (cases "find_operation s c oid")
    case (Inl e)
    then show thesis
      using assms(1) same by (auto simp: resolve_conflict_def Let_def split: attempt_splits)
  next
    case find: (Inr x)
    show thesis
    proof (cases "replay_lookup (idempotency s) ?key ?fp = Inr None")
      case False
      then show thesis
        using assms(1) same find
        by (auto simp: resolve_conflict_def Let_def split: attempt_splits option.splits ledger_value.splits)
    next
      case fresh: True
      then have unused: "dict_get (idempotency s) ?key = None" by (simp add: sync_replay_None)
      show thesis
      proof (cases "validate_write k m = Inr () \<and> version_is (op_version x) m
          \<and> (\<exists>cf item. find (\<lambda>x. conflict_id x = cid) (conflicts x) = Some cf \<and> conf_state cf = Unresolved
            \<and> dict_get (items x) (conf_item_id cf) = Some item)")
        case False
        then show thesis
          using assms(1) same find fresh
          by (auto simp: resolve_conflict_def Let_def split: attempt_splits if_splits option.splits)
      next
        case True
        then obtain cf item where cf: "find (\<lambda>x. conflict_id x = cid) (conflicts x) = Some cf"
            "conf_state cf = Unresolved" "dict_get (items x) (conf_item_id cf) = Some item"
            and m: "m = MatchInt (op_version x)" and valid: "validate_write k m = Inr ()"
          by (auto simp: version_is_def)
        obtain q y s1 where keep: "keep_local cfg ch item body k x s = (q, y, s1)"
          by (cases "keep_local cfg ch item body k x s") auto
        have run: "resolve_conflict cfg c oid cid m k ch body s =
            (case keep_local cfg ch item body k x s of
               (Inl e, o1, s1) \<Rightarrow> (Inl e, put_operation oid o1 s1)
             | (Inr target, o1, s1) \<Rightarrow>
                 let o2 = settle cid (item_id item) o1;
                     (rid, s2) = fresh_id cfg ''sync-resolution'' s1;
                     r = \<lparr>resolution_id = rid, res_conflict_id = cid, choice = ch,
                       res_target_version_id = target, res_replayed = False\<rparr>
                 in (Inr r, audit_event o2 ''sync.conflict.resolved'' (trace_id c)
                   (remember ?key ?fp (ResolutionRef r) (put_operation oid o2 s2))))"
          using cf m valid find fresh unfolding resolve_conflict_def Let_def
          by (auto simp: version_is_def split: sum.split prod.split)
        show thesis
        proof (cases q)
          case (Inl e)
          have "y = x" "s1 = s"
            using keep_local_cases [OF keep assms(2)] Inl by auto
          moreover have "dict_set oid x (operations s) = operations s"
            using find_operation_InrD [OF find] by (simp add: update_triv)
          moreover have "t = put_operation oid y s1"
            using assms(1) run keep Inl by auto
          ultimately show thesis
            by (intro none) simp_all
        next
          case (Inr target)
          let ?r = "\<lparr>resolution_id = ''sync-resolution'' @ ''-'' @ token_hex cfg (tokens_drawn s1),
            res_conflict_id = cid, choice = ch, res_target_version_id = target, res_replayed = False\<rparr>"
          show thesis
            using assms(1) run keep
            by (intro resolved [OF find m cf unused keep [unfolded Inr] refl, of ?r ?fp])
              (simp_all add: Inr fresh_id_def Let_def)
        qed
      qed
    qed
  qed
qed

section \<open>Steps and invariant\<close>

inductive sync_step :: "sync_service \<Rightarrow> scope \<Rightarrow> sync_state \<Rightarrow> sync_state \<Rightarrow> bool" for cfg where
  step_preview: "create_operation cfg c area xs k m s = (res, t) \<Longrightarrow> sync_step cfg (context_scope c) s t"
| step_approve: "approve cfg c oid ids auth m k v s = (res, t) \<Longrightarrow> sync_step cfg (context_scope c) s t"
| step_transfer: "transfer_batch cfg c oid m k cur ps s = (res, t)
    \<Longrightarrow> sync_step cfg (context_scope c) s t"
| step_resolve: "resolve_conflict cfg c oid cid m k ch body s = (res, t)
    \<Longrightarrow> sync_step cfg (context_scope c) s t"

definition sync_start :: "sync_service \<Rightarrow> sync_state \<Rightarrow> bool" where
  "sync_start cfg s \<longleftrightarrow> inj (token_hex cfg)
    \<and> s = empty_repository \<lparr>transmission_count = 0, replays = []\<rparr>"

definition operation_ok :: "string \<Rightarrow> operation \<Rightarrow> bool" where
  "operation_ok oid x \<longleftrightarrow> operation_id x = oid \<and> working_ok x \<and> 1 \<le> op_version x
    \<and> (op_state x = ReindexRequested \<longrightarrow>
        all_approved_completed x \<and> reindex_state x = Some ''reindex_requested'')
    \<and> (op_state x = AwaitingApproval \<longleftrightarrow> approval_snapshot_id x = None)
    \<and> (approval_snapshot_id x = None \<longrightarrow> approved_item_ids x = [] \<and> completed_item_ids x = []
        \<and> conflicts x = [] \<and> target_versions x = [] \<and> batches x = [])
    \<and> map sequence (batches x) = [1..<Suc (length (batches x))]"

definition sync_drawn :: "sync_service \<Rightarrow> sync_state \<Rightarrow> string \<Rightarrow> bool" where
  "sync_drawn cfg s x \<longleftrightarrow> (\<exists>n < tokens_drawn s. x = ''sync'' @ ''-'' @ token_hex cfg n)"

definition sync_inv :: "sync_service \<Rightarrow> sync_state \<Rightarrow> bool" where
  "sync_inv cfg s \<longleftrightarrow> inj (token_hex cfg) \<and> dict_ok (operations s) \<and> port_ok (port s)
    \<and> (\<forall>oid x. dict_get (operations s) oid = Some x \<longrightarrow> operation_ok oid x \<and> sync_drawn cfg s oid)"

text \<open>A stored operation only grows, and stays within its plan.\<close>

definition operation_change :: "operation \<Rightarrow> operation \<Rightarrow> bool" where
  "operation_change x y \<longleftrightarrow> same_plan x y \<and> op_version x \<le> op_version y
    \<and> set (completed_item_ids x) \<subseteq> set (completed_item_ids y)
    \<and> take (length (target_versions x)) (target_versions y) = target_versions x
    \<and> take (length (batches x)) (batches y) = batches x"

lemma first_occurrences_set: "set (first_occurrences ids) = set ids"
  using keys_dict_by [of "\<lambda>x. x" ids] by (simp add: first_occurrences_def)

lemma approved_ok:
  assumes "operation_ok oid x" and "ids \<noteq> []" and "\<forall>i \<in> set ids. dict_get (items x) i \<noteq> None"
    and "dependencies_within (items x) ids ids"
  shows "operation_ok oid (approved_operation ids snapshot x)"
    and "operation_change x (approved_operation ids snapshot x)"
proof -
  have "conflict_ok (approved_operation ids snapshot x) cf \<longleftrightarrow> conflict_ok x cf" for cf
    by (simp add: conflict_ok_def approved_operation_def)
  then have "working_ok (approved_operation ids snapshot x)"
    using assms by (simp add: operation_ok_def working_ok_def) (simp add: approved_operation_def)
  then show "operation_ok oid (approved_operation ids snapshot x)"
    using assms(1) by (simp add: operation_ok_def approved_operation_def)
  show "operation_change x (approved_operation ids snapshot x)"
    by (simp add: operation_change_def same_plan_def approved_operation_def)
qed

lemma aborted_ok:
  assumes "operation_ok oid x" and "working_ok y" and "extends x y" and "approval_snapshot_id x \<noteq> None"
  shows "operation_ok oid y" and "operation_change x y"
proof -
  show "operation_ok oid y"
    using assms by (auto simp: operation_ok_def extends_def same_plan_def all_approved_completed_def)
  show "operation_change x y"
    using assms(3) by (auto simp: operation_change_def extends_def)
qed

lemma record_batch_fields:
  assumes "record_batch bid cur sent clash y = (b, z)"
  shows "z = y\<lparr>batches := batches y @ [b], op_version := op_version y + 1, op_state := op_state z,
      reindex_state := reindex_state z\<rparr>"
    and "sequence b = length (batches y) + 1" and "batch_id b = bid"
    and "transferred_item_ids b = sent" and "conflict_ids b = clash"
    and "op_state z = (if clash \<noteq> [] then InConflict
      else if all_approved_completed y then ReindexRequested else Transferring)"
    and "op_state z = ReindexRequested \<Longrightarrow> reindex_state z = Some ''reindex_requested''"
  using assms by (auto simp: record_batch_def all_approved_completed_def Let_def split: if_splits)

lemma recorded_ok:
  assumes "operation_ok oid x" and "working_ok y" and "extends x y" and "approval_snapshot_id x \<noteq> None"
    and "record_batch bid cur sent clash y = (b, z)"
  shows "operation_ok oid z" and "operation_change x z"
proof -
  note z = record_batch_fields [OF assms(5)]
  have fields: "items z = items y" "conflicts z = conflicts y" "target_versions z = target_versions y"
      "completed_item_ids z = completed_item_ids y" "approved_item_ids z = approved_item_ids y"
      "approval_snapshot_id z = approval_snapshot_id y" "batches z = batches y @ [b]"
      "op_version z = op_version y + 1" "same_plan y z"
    by (subst z(1), simp add: same_plan_def)+
  have "conflict_ok z cf \<longleftrightarrow> conflict_ok y cf" for cf
    by (simp add: conflict_ok_def fields)
  then have "working_ok z"
    using assms(2) by (simp add: working_ok_def fields)
  moreover have "all_approved_completed z \<longleftrightarrow> all_approved_completed y"
    by (simp add: all_approved_completed_def fields)
  ultimately show "operation_ok oid z"
    using assms(1,3,4) fields z(2,6,7)
    by (auto simp: operation_ok_def extends_def same_plan_def)
  show "operation_change x z"
    using assms(3) fields by (auto simp: operation_change_def extends_def same_plan_def)
qed

lemma resolve_in_mem:
  "find (\<lambda>x. conflict_id x = cid) cs = Some cf \<Longrightarrow> x \<in> set (resolve_in cid cs)
    \<Longrightarrow> x \<in> set cs \<or> x = cf\<lparr>conf_state := Resolved\<rparr>"
  by (induction cs) (auto split: if_splits)

lemma find_mem: "find P xs = Some x \<Longrightarrow> x \<in> set xs \<and> P x"
  by (induction xs) (auto split: if_splits)

lemma settle_fields:
  shows "operation_id (settle cid i y) = operation_id y" and "op_context (settle cid i y) = op_context y"
    and "target_area (settle cid i y) = target_area y" and "items (settle cid i y) = items y"
    and "manifest_digest (settle cid i y) = manifest_digest y"
    and "op_version (settle cid i y) = op_version y + 1"
    and "approved_item_ids (settle cid i y) = approved_item_ids y"
    and "approval_snapshot_id (settle cid i y) = approval_snapshot_id y"
    and "batches (settle cid i y) = batches y" and "target_versions (settle cid i y) = target_versions y"
    and "conflicts (settle cid i y) = resolve_in cid (conflicts y)"
    and "completed_item_ids (settle cid i y) = List.insert i (completed_item_ids y)"
    and "op_state (settle cid i y) = (if list_all (\<lambda>x. conf_state x = Resolved) (resolve_in cid (conflicts y))
        \<and> set (approved_item_ids y) \<subseteq> insert i (set (completed_item_ids y))
      then ReindexRequested else op_state y)"
    and "reindex_state (settle cid i y) = (if list_all (\<lambda>x. conf_state x = Resolved) (resolve_in cid (conflicts y))
        \<and> set (approved_item_ids y) \<subseteq> insert i (set (completed_item_ids y))
      then Some ''reindex_requested'' else reindex_state y)"
  by (simp_all add: settle_def all_approved_completed_def Let_def)

lemma resolved_ok:
  assumes ok: "operation_ok oid x" and cf: "find (\<lambda>x. conflict_id x = cid) (conflicts x) = Some cf"
    and item: "dict_get (items x) (conf_item_id cf) = Some item"
    and keep: "keep_local cfg ch item body k x s = (Inr target, y, s1)" and port: "port_ok (port s)"
  shows "operation_ok oid (settle cid (item_id item) y)"
    and "operation_change x (settle cid (item_id item) y)"
proof -
  have work: "working_ok x" using ok by (simp add: operation_ok_def)
  have mem: "cf \<in> set (conflicts x)" using find_mem [OF cf] by blast
  have id: "item_id item = conf_item_id cf"
    using work item by (simp add: working_ok_def)
  have "conflict_ok x cf" using work mem by (simp add: working_ok_def)
  then have deps: "set (dependency_item_ids item) \<subseteq> set (completed_item_ids x)"
    using item by (simp add: conflict_ok_def)
  obtain vs where y: "y = x\<lparr>target_versions := target_versions x @ vs\<rparr>"
      and vs: "target_item_id ` set vs \<subseteq> {conf_item_id cf}"
    using keep port
  proof (cases rule: keep_local_cases)
    case cloud
    then show ?thesis by (intro that [of "[]"]) simp_all
  next
    case (sent v b p')
    then show ?thesis by (intro that [of "[v]"]) (simp_all add: id)
  qed (rule that [of "[]"], simp_all)
  let ?w = "x\<lparr>target_versions := target_versions x @ vs,
    completed_item_ids := List.insert (conf_item_id cf) (completed_item_ids x)\<rparr>"
  let ?z = "settle cid (item_id item) y"
  have w: "working_ok ?w" by (rule working_complete [OF work item deps vs])
  have fields: "items ?z = items ?w" "target_versions ?z = target_versions ?w"
      "completed_item_ids ?z = completed_item_ids ?w" "approved_item_ids ?z = approved_item_ids ?w"
      "conflicts ?z = resolve_in cid (conflicts x)"
    by (simp_all add: settle_fields y id)
  have same: "conflict_ok ?z q \<longleftrightarrow> conflict_ok ?w q" for q
    by (simp add: conflict_ok_def fields)
  have "conflict_ok ?w (cf\<lparr>conf_state := Resolved\<rparr>)"
    using w mem by (simp add: working_ok_def) (simp add: conflict_ok_def)
  then have "conflict_ok ?z q" if "q \<in> set (conflicts ?z)" for q
    using resolve_in_mem [OF cf] that w unfolding same fields working_ok_def by fastforce
  then have "working_ok ?z"
    using w by (simp add: working_ok_def fields)
  moreover have "approval_snapshot_id x \<noteq> None"
    using ok mem by (auto simp: operation_ok_def)
  ultimately show "operation_ok oid ?z"
    using ok by (auto simp: operation_ok_def settle_fields y all_approved_completed_def)
  show "operation_change x ?z"
    by (auto simp: operation_change_def same_plan_def settle_fields y)
qed

lemma planned_ok:
  assumes "distinct (map item_id xs)"
  shows "operation_ok (operation_id (planned cfg c area xs s)) (planned cfg c area xs s)"
proof -
  have key: "dict_get (map (\<lambda>x. (item_id x, x)) ys) k = Some item \<Longrightarrow> item_id item = k" for ys k item
    by (induction ys) (auto split: if_splits)
  show ?thesis
    using assms
    by (auto simp: operation_ok_def working_ok_def planned_def dependencies_within_def dict_by_distinct
        intro: key)
qed

section \<open>What a step does\<close>

text \<open>
  A step leaves every operation as it is, adds a fresh one, or changes one of its own scope within
  its plan; the port, the ledger and the identifier source only grow.
\<close>

definition sync_change :: "sync_service \<Rightarrow> scope \<Rightarrow> sync_state \<Rightarrow> sync_state \<Rightarrow> bool" where
  "sync_change cfg sc s t \<longleftrightarrow> port_ok (port t) \<and> tokens_drawn s \<le> tokens_drawn t
    \<and> (operations t = operations s
      \<or> (\<exists>oid x y. dict_get (operations s) oid = Some x \<and> context_scope (op_context x) = sc
          \<and> operation_ok oid y \<and> operation_change x y \<and> operations t = dict_set oid y (operations s))
      \<or> (\<exists>y. operation_ok (operation_id y) y \<and> context_scope (op_context y) = sc
          \<and> operation_id y = ''sync'' @ ''-'' @ token_hex cfg (tokens_drawn s)
          \<and> tokens_drawn t = Suc (tokens_drawn s) \<and> operations t = dict_set (operation_id y) y (operations s)))"

lemma sync_change_same:
  "operations t = operations s \<Longrightarrow> port_ok (port t) \<Longrightarrow> tokens_drawn s \<le> tokens_drawn t
    \<Longrightarrow> sync_change cfg sc s t"
  by (simp add: sync_change_def)

lemma sync_change_at:
  "find_operation s c oid = Inr x \<Longrightarrow> operation_ok oid y \<Longrightarrow> operation_change x y
    \<Longrightarrow> operations t = dict_set oid y (operations s) \<Longrightarrow> port_ok (port t)
    \<Longrightarrow> tokens_drawn s \<le> tokens_drawn t \<Longrightarrow> sync_change cfg (context_scope c) s t"
  unfolding sync_change_def using find_operation_InrD by blast

lemma sync_invD:
  assumes "sync_inv cfg s"
  shows "inj (token_hex cfg)" and "dict_ok (operations s)" and "port_ok (port s)"
    and "dict_get (operations s) oid = Some x \<Longrightarrow> operation_ok oid x \<and> sync_drawn cfg s oid"
  using assms unfolding sync_inv_def by blast+

lemma found_ok:
  assumes "sync_inv cfg s" and "find_operation s c oid = Inr x"
  shows "operation_ok oid x" and "working_ok x"
proof -
  show "operation_ok oid x"
    using sync_invD(4) [OF assms(1)] find_operation_InrD [OF assms(2)] by blast
  then show "working_ok x" unfolding operation_ok_def by blast
qed

lemma create_change:
  assumes "create_operation cfg c area xs k m s = (res, t)" and "sync_inv cfg s"
  shows "sync_change cfg (context_scope c) s t"
  using create_operation_effect [OF assms(1)]
proof (elim disjE exE conjE)
  fix fp x
  assume xs: "distinct (map item_id xs)" and x: "x = planned cfg c area xs s"
    and t: "t = audit_event x ''sync.preview.created'' (trace_id c)
        (remember (tenant_id c, workspace_id c, actor_id c, k) fp (OperationRef (operation_id x))
          (put_operation (operation_id x) x (s\<lparr>tokens_drawn := Suc (tokens_drawn s)\<rparr>)))"
  have "operation_ok (operation_id x) x"
    unfolding x by (rule planned_ok [OF xs])
  moreover have "context_scope (op_context x) = context_scope c"
      "operation_id x = ''sync'' @ ''-'' @ token_hex cfg (tokens_drawn s)"
    by (simp_all add: x planned_def)
  moreover have "operations t = dict_set (operation_id x) x (operations s)"
      "tokens_drawn t = Suc (tokens_drawn s)" "port_ok (port t)"
    using sync_invD(3) [OF assms(2)] by (simp_all add: t)
  ultimately show ?thesis
    unfolding sync_change_def by auto
qed (use sync_invD(3) [OF assms(2)] in \<open>simp add: sync_change_same\<close>)

lemma approve_change:
  assumes "approve cfg c oid ids auth m k v s = (res, t)" and "sync_inv cfg s"
  shows "sync_change cfg (context_scope c) s t"
  using approve_effect [OF assms(1)]
proof (elim disjE exE conjE)
  fix x y fp ids' snapshot
  assume find: "find_operation s c oid = Inr x"
    and ids: "ids' \<noteq> []" "\<forall>i \<in> set ids'. dict_get (items x) i \<noteq> None" "dependencies_within (items x) ids' ids'"
    and y: "y = approved_operation ids' snapshot x"
    and t: "t = audit_event y ''sync.approved'' (trace_id c)
        (remember (oid, actor_id c, ''approve'', k) fp (SnapshotRef snapshot)
          (put_operation oid y (s\<lparr>tokens_drawn := Suc (tokens_drawn s)\<rparr>)))"
  note ok = approved_ok [OF found_ok(1) [OF assms(2) find] ids, of snapshot, folded y]
  show ?thesis
    by (rule sync_change_at [OF find ok]) (use sync_invD(3) [OF assms(2)] in \<open>simp_all add: t\<close>)
qed (use sync_invD(3) [OF assms(2)] in \<open>simp add: sync_change_same\<close>)

lemma transfer_change:
  assumes "transfer_batch cfg c oid m k cur ps s = (res, t)" and "sync_inv cfg s"
  shows "sync_change cfg (context_scope c) s t"
  using assms(1)
proof (cases rule: transfer_effect)
  case none
  then show ?thesis using sync_invD(3) [OF assms(2)] by (simp add: sync_change_same)
next
  case (aborted x e y s2)
  note found = found_ok [OF assms(2) aborted(1)]
  note loop = transfer_payloads_ok [OF aborted(5) found(2)]
  have "port_ok (port (s\<lparr>tokens_drawn := Suc (tokens_drawn s)\<rparr>))"
    using sync_invD(3) [OF assms(2)] by simp
  note loop = loop [OF this]
  show ?thesis
    by (rule sync_change_at [OF aborted(1)], rule aborted_ok(1) [OF found(1) _ _ aborted(2)],
        use loop in blast, use loop in blast, rule aborted_ok(2) [OF found(1) _ _ aborted(2)])
      (use loop in \<open>auto simp: aborted(7) same_store_def\<close>)
next
  case (recorded x sent clash y s2 b z fp bid)
  note found = found_ok [OF assms(2) recorded(1)]
  have "port_ok (port (s\<lparr>tokens_drawn := Suc (tokens_drawn s)\<rparr>))"
    using sync_invD(3) [OF assms(2)] by simp
  note loop = transfer_payloads_ok [OF recorded(8) found(2) this]
  have ok: "operation_ok oid z" "operation_change x z"
    using recorded_ok [OF found(1) _ _ recorded(2,9)] loop by blast+
  show ?thesis
    by (rule sync_change_at [OF recorded(1) ok]) (use loop in \<open>auto simp: recorded(11) same_store_def\<close>)
qed

lemma resolve_change:
  assumes "resolve_conflict cfg c oid cid m k ch body s = (res, t)" and "sync_inv cfg s"
  shows "sync_change cfg (context_scope c) s t"
  using assms(1) sync_invD(3) [OF assms(2)]
proof (cases rule: resolve_effect)
  case none
  then show ?thesis using sync_invD(3) [OF assms(2)] by (simp add: sync_change_same)
next
  case (resolved x cf item y s1 r z fp target)
  note port = sync_invD(3) [OF assms(2)]
  note ok = resolved_ok [OF found_ok(1) [OF assms(2) resolved(1)] resolved(3,5,7) port, folded resolved(8)]
  have "operations s1 = operations s \<and> tokens_drawn s1 = tokens_drawn s \<and> port_ok (port s1)"
    using keep_local_cases [OF resolved(7) port] port by cases auto
  then show ?thesis
    by (intro sync_change_at [OF resolved(1) ok]) (simp_all add: resolved(11))
qed

lemma sync_step_change: "sync_step cfg sc s t \<Longrightarrow> sync_inv cfg s \<Longrightarrow> sync_change cfg sc s t"
  by (induction rule: sync_step.induct)
    (blast intro: create_change approve_change transfer_change resolve_change)+

section \<open>Preservation\<close>

lemma sync_drawn_mono: "sync_drawn cfg s x \<Longrightarrow> tokens_drawn s \<le> tokens_drawn t \<Longrightarrow> sync_drawn cfg t x"
  by (auto simp: sync_drawn_def intro: less_le_trans)

lemma fresh_sync_id:
  assumes "sync_inv cfg s"
  shows "dict_get (operations s) (''sync'' @ ''-'' @ token_hex cfg (tokens_drawn s)) = None"
proof -
  have "\<not> sync_drawn cfg s (''sync'' @ ''-'' @ token_hex cfg (tokens_drawn s))"
    using sync_invD(1) [OF assms] by (auto simp: sync_drawn_def dest: injD)
  then show ?thesis
    using sync_invD(4) [OF assms] by (metis not_None_eq)
qed

lemma change_operations:
  assumes "sync_change cfg sc s t" and "sync_inv cfg s" and "dict_get (operations s) i = Some x"
  shows "dict_get (operations t) i = Some x \<or> (context_scope (op_context x) = sc
    \<and> (\<exists>y. dict_get (operations t) i = Some y \<and> operation_change x y))"
proof -
  have "i \<noteq> ''sync'' @ ''-'' @ token_hex cfg (tokens_drawn s)"
    using fresh_sync_id [OF assms(2)] assms(3) by (metis option.distinct(1))
  then show ?thesis
    using assms(1,3) unfolding sync_change_def by (elim conjE disjE exE) auto
qed

lemma sync_inv_step:
  assumes step: "sync_step cfg sc s t" and inv: "sync_inv cfg s"
  shows "sync_inv cfg t"
proof -
  have change: "sync_change cfg sc s t" by (rule sync_step_change [OF step inv])
  then have grows: "port_ok (port t)" "tokens_drawn s \<le> tokens_drawn t"
    by (simp_all add: sync_change_def)
  have old: "operation_ok i x \<and> sync_drawn cfg t i" if "dict_get (operations s) i = Some x" for i x
    using sync_invD(4) [OF inv that] sync_drawn_mono grows(2) by blast
  have new: "sync_drawn cfg t (''sync'' @ ''-'' @ token_hex cfg (tokens_drawn s))"
    if "tokens_drawn t = Suc (tokens_drawn s)"
    using that by (auto simp: sync_drawn_def)
  have "dict_ok (operations t) \<and> (\<forall>i x. dict_get (operations t) i = Some x \<longrightarrow>
      operation_ok i x \<and> sync_drawn cfg t i)"
    using change unfolding sync_change_def
  proof (elim conjE disjE exE)
    assume "operations t = operations s"
    then show ?thesis using old sync_invD(2) [OF inv] by simp
  next
    fix oid x y
    assume "dict_get (operations s) oid = Some x" "operation_ok oid y"
      "operations t = dict_set oid y (operations s)"
    then show ?thesis
      using old sync_invD(2) [OF inv] by (simp split: if_splits)
  next
    fix y
    assume "operation_ok (operation_id y) y" "tokens_drawn t = Suc (tokens_drawn s)"
      "operation_id y = ''sync'' @ ''-'' @ token_hex cfg (tokens_drawn s)"
      "operations t = dict_set (operation_id y) y (operations s)"
    then show ?thesis
      using old new sync_invD(2) [OF inv] by (simp split: if_splits)
  qed
  then show ?thesis
    using sync_invD(1) [OF inv] grows by (simp add: sync_inv_def)
qed

lemma sync_inv_start: "sync_start cfg s \<Longrightarrow> sync_inv cfg s"
  by (auto simp: sync_start_def sync_inv_def empty_repository_def port_ok_def)

section \<open>The contracts\<close>

interpretation sync_ops: versioned_service "sync_start cfg" "sync_step cfg" "sync_inv cfg"
  "\<lambda>s. dict_get (operations s)" "\<lambda>x. context_scope (op_context x)" op_version for cfg
proof unfold_locales
  fix s t sc i x y
  show "sync_start cfg s \<Longrightarrow> sync_inv cfg s"
    by (rule sync_inv_start)
  assume inv: "sync_inv cfg s" and step: "sync_step cfg sc s t"
  show "sync_inv cfg t"
    by (rule sync_inv_step [OF step inv])
  assume "dict_get (operations s) i = Some x"
  note cases = change_operations [OF sync_step_change [OF step inv] inv this]
  show "context_scope (op_context x) \<noteq> sc \<Longrightarrow> dict_get (operations t) i = Some x"
    using cases by blast
  show "\<exists>y. dict_get (operations t) i = Some y \<and> context_scope (op_context y) = context_scope (op_context x)"
    using cases by (auto simp: operation_change_def same_plan_def)
  show "dict_get (operations t) i = Some y \<Longrightarrow> op_version x \<le> op_version y"
    using cases by (auto simp: operation_change_def)
qed

interpretation sync_ledger: replay_ledger replay_lookup "\<lambda>l k f v. dict_set k (f, v) l"
  "sync_error ''IDEMPOTENCY_KEY_REUSED'' 409"
  by unfold_locales (simp_all add: replay_lookup_def)

lemma operation_change_refl [simp]: "operation_change x x"
  by (simp add: operation_change_def same_plan_def)

lemma operation_change_trans: "operation_change x y \<Longrightarrow> operation_change y z \<Longrightarrow> operation_change x z"
  unfolding operation_change_def same_plan_def
  by (elim conjE, intro conjI; (rule subset_trans | rule take_prefix_trans | rule order_trans)?; (assumption | simp))

text \<open>Along a run an operation stays stored and only grows.\<close>

lemma runs_operation:
  assumes "runs (sync_step cfg) s cs t" and "sync_inv cfg s" and "dict_get (operations s) i = Some x"
  shows "\<exists>y. dict_get (operations t) i = Some y \<and> operation_change x y"
  using assms
proof (induction arbitrary: x rule: runs.induct)
  case (runs_none s)
  then show ?case by simp
next
  case (runs_more c s t cs u)
  obtain y where y: "dict_get (operations t) i = Some y" "operation_change x y"
    using change_operations [OF sync_step_change [OF runs_more(1,4)] runs_more(4,5)] by auto
  then show ?case
    using runs_more(3) [OF sync_inv_step [OF runs_more(1,4)] y(1)] operation_change_trans by blast
qed

lemma step_sync_ledger:
  assumes "sync_step cfg sc s t" and "sync_inv cfg s" and "dict_get (idempotency s) key = Some v"
  shows "dict_get (idempotency t) key = Some v"
  using assms
proof (induction rule: sync_step.induct)
  case (step_preview c area xs k m s res t)
  then show ?case by (auto dest!: create_operation_effect)
next
  case (step_approve c oid ids auth m k v s res t)
  then show ?case by (auto dest!: approve_effect)
next
  case (step_transfer c oid m k cur ps s res t)
  note port = sync_invD(3) [OF step_transfer(2)]
  from step_transfer(1) show ?case
  proof (cases rule: transfer_effect)
    case (aborted x e y s2)
    then show ?thesis
      using transfer_payloads_ok [OF aborted(5) found_ok(2) [OF step_transfer(2) aborted(1)]] port step_transfer(3)
      by (simp add: same_store_def)
  next
    case (recorded x sent clash y s2 b z fp bid)
    then show ?thesis
      using transfer_payloads_ok [OF recorded(8) found_ok(2) [OF step_transfer(2) recorded(1)]] port step_transfer(3)
      by (auto simp: same_store_def)
  qed (use step_transfer(3) in simp)
next
  case (step_resolve c oid cid m k ch body s res t)
  note port = sync_invD(3) [OF step_resolve(2)]
  from step_resolve(1) port show ?case
  proof (cases rule: resolve_effect)
    case (resolved x cf item y s1 r z fp target)
    have "idempotency s1 = idempotency s"
      using resolved(7) port by (cases rule: keep_local_cases) auto
    then show ?thesis using resolved(6,11) step_resolve(3) by auto
  qed (use step_resolve(3) in simp)
qed

lemma runs_sync_ledger:
  assumes "runs (sync_step cfg) s cs t" and "sync_inv cfg s" and "dict_get (idempotency s) key = Some v"
  shows "dict_get (idempotency t) key = Some v"
  using assms
  by (induction rule: runs.induct) (auto intro: step_sync_ledger sync_inv_step)

end
