(* ===== verification/Sync_Properties.thy ===== *)
theory Sync_Properties
  imports Sync_Invariant
begin

text \<open>
  The properties of the sync service and the scenario of their witnesses: an operation of two
  items that is approved and transferred, once with a batch that is cut short and once with a
  conflict that is resolved after the approval shrank, and an operation of another tenant.
\<close>

section \<open>A scenario\<close>

text \<open>The digest of the scenario is the first character, so that all fingerprints are equal.\<close>

definition demo_service :: sync_service where
  "demo_service = \<lparr>token_hex = dec_nat, sha256_hex = take (Suc 0)\<rparr>"

definition demo_context :: "string \<Rightarrow> sync_context" where
  "demo_context t = \<lparr>tenant_id = t, workspace_id = ''w1'', actor_id = ''amy'', trace_id = ''tr'',
     policy_version = ''p1''\<rparr>"

definition demo_item :: "string \<Rightarrow> string \<Rightarrow> sync_item_input" where
  "demo_item i d = \<lparr>item_id = i, source_version_id = Some ''sv'', local_object_id = ''lo'',
     digest_sha256 = d, byte_size = 1, content_type = ''text/plain'', base_cloud_version_id = None,
     base_cloud_digest = None, item_kind = SourceVersion, output_version_id = None,
     dependency_item_ids = []\<rparr>"

definition demo_payload :: "string \<Rightarrow> string \<Rightarrow> string option \<Rightarrow> transfer_payload" where
  "demo_payload i body v = \<lparr>pay_item_id = i, content = body, current_cloud_version_id = v,
     current_cloud_digest = v\<rparr>"

definition demo_empty :: sync_state where
  "demo_empty = empty_repository \<lparr>transmission_count = 0, replays = []\<rparr>"

definition demo_planned :: sync_state where
  "demo_planned = snd (create_operation demo_service (demo_context ''t1'') ''cloud_sync''
     [demo_item ''a'' ''A'', demo_item ''b'' ''B''] ''k1'' (MatchText ''*'') demo_empty)"

definition demo_approved :: sync_state where
  "demo_approved = snd (approve demo_service (demo_context ''t1'') ''sync-0'' [''a'', ''b''] ''auth''
     (MatchInt 1) ''k1'' True demo_planned)"

lemma sync_demo_fingerprint [simp]: "fingerprint (take (Suc 0)) (JArr xs) = ''[''"
  by (simp add: fingerprint_def json_text.simps)

lemma sync_demo_config [simp]:
  "token_hex demo_service = dec_nat" "sha256_hex demo_service = take (Suc 0)"
  "tenant_id (demo_context t) = t" "workspace_id (demo_context t) = ''w1''"
  "actor_id (demo_context t) = ''amy''" "context_scope (demo_context t) = (t, ''w1'')"
  "item_id (demo_item i d) = i" "digest_sha256 (demo_item i d) = d" "byte_size (demo_item i d) = 1"
  "base_cloud_version_id (demo_item i d) = None" "base_cloud_digest (demo_item i d) = None"
  "dependency_item_ids (demo_item i d) = []" "pay_item_id (demo_payload i b v) = i"
  "content (demo_payload i b v) = b" "current_cloud_version_id (demo_payload i b v) = v"
  "current_cloud_digest (demo_payload i b v) = v"
  by (simp_all add: demo_service_def demo_context_def demo_item_def demo_payload_def context_scope_def)

lemma demo_write [simp]:
  "validate_write ''k1'' (MatchText ''*'') = Inr ()"
  "1 \<le> n \<Longrightarrow> validate_write ''k1'' (MatchInt n) = Inr ()"
  "1 \<le> n \<Longrightarrow> validate_write ''k2'' (MatchInt n) = Inr ()"
proof -
  have "safe_id ''k1''" "safe_id ''k2''" by code_simp+
  then show "validate_write ''k1'' (MatchText ''*'') = Inr ()"
    "1 \<le> n \<Longrightarrow> validate_write ''k1'' (MatchInt n) = Inr ()"
    "1 \<le> n \<Longrightarrow> validate_write ''k2'' (MatchInt n) = Inr ()"
    by (simp_all add: validate_write_def)
qed

lemma demo_numbers [simp]: "dec_nat 0 = ''0''" "dec_nat (Suc 0) = ''1''" "dec_nat 2 = ''2''" "dec_nat 3 = ''3''"
    "dec_nat 4 = ''4''" "dec_nat 5 = ''5''"
  by code_simp+

definition demo_plan :: operation where
  "demo_plan = planned demo_service (demo_context ''t1'') ''cloud_sync''
     [demo_item ''a'' ''A'', demo_item ''b'' ''B''] demo_empty"

lemma demo_plan_fields:
  "operation_id demo_plan = ''sync-0''" "op_context demo_plan = demo_context ''t1''"
  "items demo_plan = [(''a'', demo_item ''a'' ''A''), (''b'', demo_item ''b'' ''B'')]"
  "op_version demo_plan = 1" "op_state demo_plan = AwaitingApproval" "conflicts demo_plan = []"
  "target_versions demo_plan = []" "completed_item_ids demo_plan = []" "batches demo_plan = []"
  by (simp_all add: demo_plan_def planned_def demo_empty_def empty_repository_def dict_by_def)

lemma demo_planned_state:
  "operations demo_planned = [(''sync-0'', demo_plan)]" "port demo_planned = \<lparr>transmission_count = 0, replays = []\<rparr>"
  "idempotency demo_planned = [((''t1'', ''w1'', ''amy'', ''k1''), (''['', OperationRef ''sync-0''))]"
  "tokens_drawn demo_planned = 1"
  by (simp_all add: demo_planned_def create_operation_def demo_empty_def empty_repository_def
      replay_lookup_def fresh_id_def Let_def demo_plan_def planned_def dict_by_def)

definition demo_approved_plan :: operation where
  "demo_approved_plan = approved_operation [''a'', ''b''] ''sync-approval-1'' demo_plan"

lemma demo_approved_state:
  "operations demo_approved = [(''sync-0'', demo_approved_plan)]"
  "port demo_approved = \<lparr>transmission_count = 0, replays = []\<rparr>" "tokens_drawn demo_approved = 2"
  "idempotency demo_approved = [((''t1'', ''w1'', ''amy'', ''k1''), (''['', OperationRef ''sync-0'')),
     ((''sync-0'', ''amy'', ''approve'', ''k1''), (''['', SnapshotRef ''sync-approval-1''))]"
  by (simp_all add: demo_approved_def approve_def demo_planned_state find_operation_def demo_plan_fields
      replay_lookup_def fresh_id_def version_is_def first_occurrences_def dict_by_def
      dependencies_within_def demo_approved_plan_def approved_operation_def Let_def)

section \<open>Safety of operations\<close>

text \<open>
  In every reachable state the approved items of an operation are items of its manifest that
  bring their dependencies along; the completed items contain the dependencies of each; every
  copied version belongs to a completed item; every conflict is about an item of the manifest whose
  cloud version is not its base; and re-indexing is requested only when all approved items are
  completed.
\<close>

theorem operations_well_formed:
  assumes "reachable (sync_start cfg) (sync_step cfg) s" and "dict_get (operations s) oid = Some x"
  shows "(\<forall>i \<in> set (approved_item_ids x) \<union> set (completed_item_ids x). dict_get (items x) i \<noteq> None)
    \<and> dependencies_within (items x) (approved_item_ids x) (approved_item_ids x)
    \<and> dependencies_within (items x) (completed_item_ids x) (completed_item_ids x)
    \<and> target_item_id ` set (target_versions x) \<subseteq> set (completed_item_ids x)
    \<and> (\<forall>cf \<in> set (conflicts x). dict_get (items x) (conf_item_id cf) \<noteq> None
        \<and> (cloud_version_id cf, cloud_digest cf) \<noteq> (base_version_id cf, base_digest cf))
    \<and> (op_state x = ReindexRequested \<longrightarrow> set (approved_item_ids x) \<subseteq> set (completed_item_ids x))"
proof -
  have ok: "operation_ok oid x"
    using sync_invD(4) [OF sync_ops.reachable_inv [OF assms(1)] assms(2)] by blast
  then have "working_ok x" by (simp add: operation_ok_def)
  then show ?thesis
    using ok by (auto simp: operation_ok_def working_ok_def conflict_ok_def all_approved_completed_def)
qed

lemma sync_demo_start: "sync_start demo_service demo_empty"
  by (auto simp: sync_start_def demo_empty_def dec_nat_inject intro!: injI)

lemma sync_outcome: "(\<And>res t. p = (res, t) \<Longrightarrow> R t) \<Longrightarrow> R (snd p)"
  by (cases p) simp

lemma sync_demo_step_preview: "sync_step demo_service (''t1'', ''w1'') demo_empty demo_planned"
  unfolding demo_planned_def
  by (rule sync_outcome, subst sync_demo_config(6) [symmetric], erule step_preview)

lemma demo_step_approve: "sync_step demo_service (''t1'', ''w1'') demo_planned demo_approved"
  unfolding demo_approved_def
  by (rule sync_outcome, subst sync_demo_config(6) [symmetric], erule step_approve)

lemma sync_demo_reach_empty: "reachable (sync_start demo_service) (sync_step demo_service) demo_empty"
  by (rule reachable_start, rule sync_demo_start)

lemma demo_reach_planned: "reachable (sync_start demo_service) (sync_step demo_service) demo_planned"
  by (rule reachable_step [rotated], rule sync_demo_step_preview, rule sync_demo_reach_empty)

lemma demo_reach_approved: "reachable (sync_start demo_service) (sync_step demo_service) demo_approved"
  by (rule reachable_step [rotated], rule demo_step_approve, rule demo_reach_planned)

theorem operations_well_formed_witness:
  "dependencies_within (items demo_approved_plan) [''a'', ''b''] [''a'', ''b'']"
  using operations_well_formed [OF demo_reach_approved, of "''sync-0''" demo_approved_plan]
  by (simp add: demo_approved_state) (simp add: demo_approved_plan_def approved_operation_def)

text \<open>
  What a batch does with a payload: its item is copied when the cloud version the caller saw is still
  the base of the manifest, and otherwise reported as an unresolved conflict with the versions and
  digests of both sides.
\<close>

definition unmoved :: "operation \<Rightarrow> transfer_payload \<Rightarrow> bool" where
  "unmoved x p \<longleftrightarrow> (\<exists>item. dict_get (items x) (pay_item_id p) = Some item
    \<and> current_cloud_version_id p = base_cloud_version_id item
    \<and> current_cloud_digest p = base_cloud_digest item)"

definition reports_conflict :: "operation \<Rightarrow> transfer_payload \<Rightarrow> conflict \<Rightarrow> bool" where
  "reports_conflict x p cf \<longleftrightarrow> (\<exists>item. dict_get (items x) (pay_item_id p) = Some item
    \<and> conf_item_id cf = pay_item_id p \<and> conf_state cf = Unresolved
    \<and> cloud_version_id cf = current_cloud_version_id p \<and> cloud_digest cf = current_cloud_digest p
    \<and> base_version_id cf = base_cloud_version_id item \<and> base_digest cf = base_cloud_digest item
    \<and> local_version_id cf = version_id item \<and> local_digest cf = digest_sha256 item)"

lemma unmoved_cong: "items y = items x \<Longrightarrow> unmoved y p = unmoved x p"
  by (simp add: unmoved_def)

lemma reports_cong: "items y = items x \<Longrightarrow> reports_conflict y p cf = reports_conflict x p cf"
  by (simp add: reports_conflict_def)

lemma copied_unmoved: "copied_from x ps i \<Longrightarrow> i \<notin> set (completed_item_ids x)
    \<and> (\<exists>p \<in> set ps. pay_item_id p = i \<and> unmoved x p)"
  by (auto simp: copied_from_def unmoved_def)

lemma new_conflict_reports:
  "working_ok x \<Longrightarrow> dict_get (items x) (pay_item_id p) = Some item
    \<Longrightarrow> reports_conflict x p (new_conflict cid item p)"
  by (auto simp: reports_conflict_def new_conflict_def working_ok_def)

lemma clashed_reports:
  assumes "working_ok x" and "clashed_from x ps cf"
  shows "\<exists>p \<in> set ps. \<not> unmoved x p \<and> reports_conflict x p cf"
proof -
  obtain p item where p: "p \<in> set ps" "dict_get (items x) (pay_item_id p) = Some item"
      "cf = new_conflict (conflict_id cf) item p"
      "(current_cloud_version_id p, current_cloud_digest p) \<noteq> (base_cloud_version_id item, base_cloud_digest item)"
    using assms(2) by (auto simp: clashed_from_def)
  moreover have "reports_conflict x p cf"
    by (subst p(3)) (rule new_conflict_reports [OF assms(1) p(2)])
  moreover have "\<not> unmoved x p" using p(2,4) by (simp add: unmoved_def)
  ultimately show ?thesis by blast
qed

text \<open>
  No payload is passed over: an item that was not completed when the pass began, and that no earlier
  payload of the pass brought unmoved, is copied or reported.
\<close>

lemma transfer_covers:
  assumes "transfer_payloads cfg k (qs @ p # rs) x s sent clash = (Inr (sent', clash'), y, t)"
    and "working_ok x" and "port_ok (port s)" and "pay_item_id p \<notin> set (completed_item_ids x)"
    and "\<forall>q \<in> set qs. pay_item_id q = pay_item_id p \<longrightarrow> \<not> unmoved x q"
  shows "if unmoved x p then pay_item_id p \<in> set sent'
    else \<exists>cf \<in> set (drop (length (conflicts x)) (conflicts y)). reports_conflict x p cf"
  using assms
proof (induction qs arbitrary: x s sent clash)
  case Nil
  from Nil(1) [simplified append_Nil] show ?case
  proof (cases rule: transfer_round)
    case skip
    then show ?thesis using Nil(4) by simp
  next
    case (stop e)
    then show ?thesis by simp
  next
    case (conflict item cid)
    let ?c = "new_conflict cid item p"
    let ?x = "x\<lparr>conflicts := conflicts x @ [?c]\<rparr>"
    have ok: "working_ok ?x" "port_ok (port (s\<lparr>tokens_drawn := Suc (tokens_drawn s)\<rparr>))"
      using working_conflict [OF Nil(2) conflict(1,3,4)] Nil(3) by simp_all
    obtain cfs where "conflicts y = conflicts ?x @ cfs"
      using transfer_payloads_report [OF conflict(6) ok] by blast
    then have "?c \<in> set (drop (length (conflicts x)) (conflicts y))" by simp
    moreover have "\<not> unmoved x p" using conflict(1,4) by (auto simp: unmoved_def)
    ultimately show ?thesis using new_conflict_reports [OF Nil(2) conflict(1)] by auto
  next
    case (copy item v p')
    let ?x = "x\<lparr>target_versions := target_versions x @ [v],
          completed_item_ids := List.insert (item_id item) (completed_item_ids x)\<rparr>"
    have id: "item_id item = pay_item_id p"
      using Nil(2) copy(1) by (simp add: working_ok_def)
    note port = transmit_ok [OF copy(5) Nil(3)]
    have ok: "working_ok ?x" "port_ok (port (s\<lparr>port := p'\<rparr>))"
      unfolding id by (rule working_complete [OF Nil(2) copy(1,3)], simp add: port(2) id, simp add: port(1))
    have "\<exists>more. sent' = (sent @ [item_id item]) @ more"
      using transfer_payloads_report [OF copy(6) ok] by (elim exE conjE) simp
    moreover have "unmoved x p" using copy(1,4) by (auto simp: unmoved_def)
    ultimately show ?thesis by (auto simp: id)
  qed
next
  case (Cons q qs)
  have later: "\<forall>r \<in> set qs. pay_item_id r = pay_item_id p \<longrightarrow> \<not> unmoved x r"
    using Cons(6) by simp
  from Cons(2) [simplified append_Cons] show ?case
  proof (cases rule: transfer_round)
    case skip
    show ?thesis by (rule Cons(1) [OF skip(2) Cons(3,4,5) later])
  next
    case (stop e)
    then show ?thesis by simp
  next
    case (conflict item cid)
    let ?x = "x\<lparr>conflicts := conflicts x @ [new_conflict cid item q]\<rparr>"
    have ok: "working_ok ?x" "port_ok (port (s\<lparr>tokens_drawn := Suc (tokens_drawn s)\<rparr>))"
      using working_conflict [OF Cons(3) conflict(1,3,4)] Cons(4) by simp_all
    have "if unmoved x p then pay_item_id p \<in> set sent'
        else \<exists>cf \<in> set (drop (Suc (length (conflicts x))) (conflicts y)). reports_conflict x p cf"
      using Cons(1) [OF conflict(6) ok] Cons(5) later
      by (simp add: unmoved_cong [of ?x x] reports_cong [of ?x x] cong: if_cong)
    then show ?thesis
      using set_drop_subset_set_drop [of "length (conflicts x)" "Suc (length (conflicts x))" "conflicts y"]
      by (auto split: if_splits)
  next
    case (copy item v p')
    let ?x = "x\<lparr>target_versions := target_versions x @ [v],
          completed_item_ids := List.insert (item_id item) (completed_item_ids x)\<rparr>"
    have id: "item_id item = pay_item_id q"
      using Cons(3) copy(1) by (simp add: working_ok_def)
    note port = transmit_ok [OF copy(5) Cons(4)]
    have ok: "working_ok ?x" "port_ok (port (s\<lparr>port := p'\<rparr>))"
      unfolding id by (rule working_complete [OF Cons(3) copy(1,3)], simp add: port(2) id, simp add: port(1))
    have "unmoved x q" using copy(1,4) by (auto simp: unmoved_def)
    then have "pay_item_id q \<noteq> pay_item_id p" using Cons(6) by auto
    then have "pay_item_id p \<notin> set (completed_item_ids ?x)"
      using Cons(5) id by simp
    then show ?thesis
      using Cons(1) [OF copy(6) ok] later
      by (simp add: unmoved_cong [of ?x x] reports_cong [of ?x x] cong: if_cong)
  qed
qed

text \<open>
  C40: a recorded batch copies or reports every payload of an item that was not completed: it is
  copied exactly when its cloud version still is the base of the manifest, and otherwise reported as
  an unresolved conflict that names both versions and digests (a payload of an item that an earlier
  payload of the batch brought unmoved is passed over). Nothing else is copied or reported: copies are
  of approved items. The version grows by one, the batch gets
  the next sequence number, and the operation is in conflict, to be re-indexed when all approved
  items are completed, or still transferring.
\<close>

theorem batch_copies_only_unmoved:
  assumes "reachable (sync_start cfg) (sync_step cfg) s"
    and "transfer_batch cfg c oid m k cur ps s = (Inr b, t)" and "find_operation s c oid = Inr x"
    and "dict_get (idempotency s) (oid, actor_id c, ''transfer'', k) = None"
  shows "\<exists>y vs cfs. dict_get (operations t) oid = Some y
    \<and> target_versions y = target_versions x @ vs \<and> map target_item_id vs = transferred_item_ids b
    \<and> conflicts y = conflicts x @ cfs \<and> map conflict_id cfs = conflict_ids b
    \<and> set (completed_item_ids y) = set (completed_item_ids x) \<union> set (transferred_item_ids b)
    \<and> (\<forall>i \<in> set (transferred_item_ids b). i \<in> set (approved_item_ids x)
        \<and> i \<notin> set (completed_item_ids x) \<and> (\<exists>p \<in> set ps. pay_item_id p = i \<and> unmoved x p))
    \<and> (\<forall>cf \<in> set cfs. \<exists>p \<in> set ps. \<not> unmoved x p \<and> reports_conflict x p cf)
    \<and> (\<forall>qs p rs. ps = qs @ p # rs \<longrightarrow> pay_item_id p \<notin> set (completed_item_ids x) \<longrightarrow>
        (\<forall>q \<in> set qs. pay_item_id q = pay_item_id p \<longrightarrow> \<not> unmoved x q) \<longrightarrow>
        (if unmoved x p then pay_item_id p \<in> set (transferred_item_ids b)
         else \<exists>cf \<in> set cfs. reports_conflict x p cf))
    \<and> op_version y = op_version x + 1 \<and> batches y = batches x @ [b]
    \<and> sequence b = length (batches x) + 1
    \<and> op_state y = (if conflict_ids b \<noteq> [] then InConflict
        else if set (approved_item_ids y) \<subseteq> set (completed_item_ids y) then ReindexRequested
        else Transferring)"
proof -
  note inv = sync_ops.reachable_inv [OF assms(1)]
  from assms(2) show ?thesis
  proof (cases rule: transfer_effect)
    case (recorded x' sent clash y s2 b' z fp bid)
    have [simp]: "x' = x" "b' = b"
      using recorded(1,10) assms(3) by simp_all
    have port: "port_ok (port (s\<lparr>tokens_drawn := Suc (tokens_drawn s)\<rparr>))"
      using sync_invD(3) [OF inv] by simp
    note work = found_ok(2) [OF inv assms(3)]
    note loop = recorded(8) [simplified \<open>x' = x\<close>]
    have ext: "extends x y" using transfer_payloads_ok [OF loop work port] by blast
    obtain vs cfs where report: "target_versions y = target_versions x @ vs" "conflicts y = conflicts x @ cfs"
        "set (completed_item_ids y) = set (completed_item_ids x) \<union> target_item_id ` set vs"
        "\<forall>v \<in> set vs. copied_from x ps (target_item_id v)" "\<forall>cf \<in> set cfs. clashed_from x ps cf"
        "sent = map target_item_id vs" "clash = map conflict_id cfs"
      using transfer_payloads_report [OF loop work port] by auto
    note z = record_batch_fields [OF recorded(9) [simplified \<open>b' = b\<close>]]
    have zs: "items z = items y" "conflicts z = conflicts y" "target_versions z = target_versions y"
      "completed_item_ids z = completed_item_ids y" "approved_item_ids z = approved_item_ids y"
      "batches z = batches y @ [b]" "op_version z = op_version y + 1"
      by (subst z(1), simp)+
    have b: "transferred_item_ids b = map target_item_id vs" using z report(6) by simp
    have copies: "\<forall>i \<in> set (transferred_item_ids b). i \<in> set (approved_item_ids x)
        \<and> i \<notin> set (completed_item_ids x) \<and> (\<exists>p \<in> set ps. pay_item_id p = i \<and> unmoved x p)"
      unfolding b using report(4) recorded(4) copied_unmoved by fastforce
    have clashes: "\<forall>cf \<in> set cfs. \<exists>p \<in> set ps. \<not> unmoved x p \<and> reports_conflict x p cf"
      using report(5) clashed_reports [OF work] by blast
    have covered: "\<forall>qs p rs. ps = qs @ p # rs \<longrightarrow> pay_item_id p \<notin> set (completed_item_ids x) \<longrightarrow>
        (\<forall>q \<in> set qs. pay_item_id q = pay_item_id p \<longrightarrow> \<not> unmoved x q) \<longrightarrow>
        (if unmoved x p then pay_item_id p \<in> set (transferred_item_ids b)
         else \<exists>cf \<in> set cfs. reports_conflict x p cf)"
      unfolding b using transfer_covers [of cfg k _ _ _ x _ "[]" "[]", OF _ work port] loop report(2,6) by fastforce
    show ?thesis
      by (rule exI [of _ z], rule exI [of _ vs], rule exI [of _ cfs],
          intro conjI; (rule copies | rule clashes | rule covered)?)
        (use recorded(11) report(1,2,3,6,7) ext zs z(2,4,5,6) in
          \<open>simp add: extends_def all_approved_completed_def\<close>)+
  qed (use assms(4) in auto)
qed

definition demo_batch_run :: "string \<Rightarrow> string option \<Rightarrow> (sync_state, sync_error, transfer_batch_view) outcome" where
  "demo_batch_run body v = transfer_batch demo_service (demo_context ''t1'') ''sync-0'' (MatchInt 2) ''k1'' None
     [demo_payload ''a'' ''A'' None, demo_payload ''b'' body v] demo_approved"

definition demo_target :: "string \<Rightarrow> target_version" where
  "demo_target i = \<lparr>target_version_id = ''cloud-version-'' @ i, target_object_id = ''cloud-object-'' @ i,
     target_item_id = i, target_digest = (if i = ''a'' then ''A'' else ''B''),
     previous_cloud_version_id = None, relation = ''copy''\<rparr>"

lemma demo_approved_fields:
  "operation_id demo_approved_plan = ''sync-0''" "op_context demo_approved_plan = demo_context ''t1''"
  "items demo_approved_plan = [(''a'', demo_item ''a'' ''A''), (''b'', demo_item ''b'' ''B'')]"
  "op_version demo_approved_plan = 2" "op_state demo_approved_plan = Approved"
  "conflicts demo_approved_plan = []" "target_versions demo_approved_plan = []"
  "completed_item_ids demo_approved_plan = []" "batches demo_approved_plan = []"
  "approved_item_ids demo_approved_plan = [''a'', ''b'']"
  "approval_snapshot_id demo_approved_plan = Some ''sync-approval-1''"
  by (simp_all add: demo_approved_plan_def approved_operation_def demo_plan_fields)

lemma demo_find [simp]: "find_operation demo_approved (demo_context ''t1'') ''sync-0'' = Inr demo_approved_plan"
  by (simp add: find_operation_def demo_approved_state demo_approved_fields)

lemma demo_batch_moved:
  "\<exists>b. fst (demo_batch_run ''B'' (Some ''v9'')) = Inr b \<and> transferred_item_ids b = [''a'']
    \<and> conflict_ids b = [''sync-conflict-3'']"
  by (simp add: demo_batch_run_def transfer_batch_def replay_lookup_def demo_approved_state
      demo_approved_fields version_is_def fresh_id_def transmit_def transmitted_def record_batch_def Let_def)

theorem batch_copies_only_unmoved_witness:
  "\<exists>y. dict_get (operations (snd (demo_batch_run ''B'' (Some ''v9'')))) ''sync-0'' = Some y
    \<and> set (completed_item_ids y) = {''a''} \<and> op_state y = InConflict \<and> op_version y = 3"
proof -
  obtain b where b: "fst (demo_batch_run ''B'' (Some ''v9'')) = Inr b" "transferred_item_ids b = [''a'']"
      "conflict_ids b = [''sync-conflict-3'']"
    using demo_batch_moved by blast
  then have "transfer_batch demo_service (demo_context ''t1'') ''sync-0'' (MatchInt 2) ''k1'' None
      [demo_payload ''a'' ''A'' None, demo_payload ''b'' ''B'' (Some ''v9'')] demo_approved
      = (Inr b, snd (demo_batch_run ''B'' (Some ''v9'')))"
    by (simp add: demo_batch_run_def prod_eq_iff)
  from batch_copies_only_unmoved [OF demo_reach_approved this demo_find] show ?thesis
    using b by (auto simp: demo_approved_state demo_approved_fields)
qed

text \<open>
  A transfer that raises keeps version, state, approval, batches and ledger as they were, but
  may leave copies behind: the completed items, the copied versions and the conflicts only grow, so
  that the caller finds an operation of the old version with new copies that no batch reports.
\<close>

theorem aborted_batch_leaves_copies:
  assumes "reachable (sync_start cfg) (sync_step cfg) s"
    and "transfer_batch cfg c oid m k cur ps s = (Inl e, t)" and "dict_get (operations s) oid = Some x"
  shows "\<exists>y vs cfs. dict_get (operations t) oid = Some y \<and> op_version y = op_version x
    \<and> op_state y = op_state x \<and> approved_item_ids y = approved_item_ids x \<and> batches y = batches x
    \<and> idempotency t = idempotency s
    \<and> target_versions y = target_versions x @ vs \<and> conflicts y = conflicts x @ cfs
    \<and> set (completed_item_ids y) = set (completed_item_ids x) \<union> target_item_id ` set vs"
proof -
  note inv = sync_ops.reachable_inv [OF assms(1)]
  from assms(2) show ?thesis
  proof (cases rule: transfer_effect)
    case none
    then show ?thesis using assms(3) by (intro exI [of _ x] exI [of _ "[]"]) simp
  next
    case (aborted x' e' y s2)
    have [simp]: "x' = x"
      using find_operation_InrD [OF aborted(1)] assms(3) by simp
    have port: "port_ok (port (s\<lparr>tokens_drawn := Suc (tokens_drawn s)\<rparr>))"
      using sync_invD(3) [OF inv] by simp
    note work = found_ok(2) [OF inv aborted(1)]
    have "extends x y \<and> same_store (s\<lparr>tokens_drawn := Suc (tokens_drawn s)\<rparr>) s2"
      using transfer_payloads_ok [OF aborted(5) work port] by simp
    moreover obtain vs cfs where "target_versions y = target_versions x @ vs" "conflicts y = conflicts x @ cfs"
        "set (completed_item_ids y) = set (completed_item_ids x) \<union> target_item_id ` set vs"
      using transfer_payloads_report [OF aborted(5) work port] by auto
    ultimately show ?thesis
      by (intro exI [of _ y] exI [of _ vs] exI [of _ cfs]) (simp add: aborted(7) extends_def same_store_def)
  next
    case (recorded x sent clash y s2 b z fp bid)
    then show ?thesis by simp
  qed
qed

theorem aborted_batch_leaves_copies_witness:
  "\<exists>y. dict_get (operations (snd (demo_batch_run ''XX'' None))) ''sync-0'' = Some y
    \<and> op_version y = 2 \<and> batches y = [] \<and> completed_item_ids y = [''a'']"
proof -
  have run: "transfer_batch demo_service (demo_context ''t1'') ''sync-0'' (MatchInt 2) ''k1'' None
      [demo_payload ''a'' ''A'' None, demo_payload ''b'' ''XX'' None] demo_approved
      = (Inl (sync_error ''SYNC_CONTENT_INVALID'' 400), snd (demo_batch_run ''XX'' None))"
    and completed: "\<exists>y. dict_get (operations (snd (demo_batch_run ''XX'' None))) ''sync-0'' = Some y
      \<and> completed_item_ids y = [''a'']"
    by (simp_all add: demo_batch_run_def transfer_batch_def replay_lookup_def demo_approved_state
        demo_approved_fields version_is_def fresh_id_def transmit_def transmitted_def Let_def)
  show ?thesis
    using aborted_batch_leaves_copies [OF demo_reach_approved run, of demo_approved_plan] completed
    by (auto simp: demo_approved_state demo_approved_fields)
qed

text \<open>
  A resolution that keeps the local content copies and completes the item of the conflict
  whether or not it is approved now: the guards are the version, an unresolved conflict and a
  content that passes the port, and the approved items play no part.
\<close>

theorem resolution_needs_no_approval:
  assumes "sync_inv cfg s" and "find_operation s c oid = Inr x"
    and "validate_write k (MatchInt (op_version x)) = Inr ()"
    and "dict_get (idempotency s) (oid, actor_id c, ''resolution'', k) = None"
    and "find (\<lambda>q. conflict_id q = cid) (conflicts x) = Some cf" and "conf_state cf = Unresolved"
    and "dict_get (items x) (conf_item_id cf) = Some item" and "ch \<noteq> KeepCloud"
    and "transmit cfg item body (k @ '':'' @ item_id item) (choice_value ch) (port s) = (Inr v, p')"
  shows "\<exists>r t y. resolve_conflict cfg c oid cid (MatchInt (op_version x)) k ch (Some body) s = (Inr r, t)
    \<and> dict_get (operations t) oid = Some y \<and> approved_item_ids y = approved_item_ids x
    \<and> target_versions y = target_versions x @ [v] \<and> target_item_id v = conf_item_id cf
    \<and> conf_item_id cf \<in> set (completed_item_ids y) \<and> op_version y = op_version x + 1
    \<and> res_target_version_id r = Some (target_version_id v)"
proof -
  have id: "item_id item = conf_item_id cf"
    using found_ok(2) [OF assms(1,2)] assms(7) by (simp add: working_ok_def)
  have "target_item_id v = conf_item_id cf"
    using transmit_ok(2) [OF assms(9) sync_invD(3) [OF assms(1)]] id by simp
  then show ?thesis
    using assms(2-9) id
    by (auto simp: resolve_conflict_def keep_local_def replay_lookup_def version_is_def fresh_id_def
        settle_fields Let_def)
qed

text \<open>The conflict on item \<open>b\<close> of the second batch above, after the approval shrank to item \<open>a\<close>.\<close>

definition demo_conflicted :: sync_state where
  "demo_conflicted = snd (demo_batch_run ''B'' (Some ''v9''))"

definition demo_shrunk :: sync_state where
  "demo_shrunk = snd (approve demo_service (demo_context ''t1'') ''sync-0'' [''a''] ''auth'' (MatchInt 3)
     ''k2'' True demo_conflicted)"

lemma demo_step_batch: "sync_step demo_service (''t1'', ''w1'') demo_approved demo_conflicted"
  unfolding demo_conflicted_def demo_batch_run_def
  by (rule sync_outcome, subst sync_demo_config(6) [symmetric], erule step_transfer)

lemma demo_step_shrink: "sync_step demo_service (''t1'', ''w1'') demo_conflicted demo_shrunk"
  unfolding demo_shrunk_def
  by (rule sync_outcome, subst sync_demo_config(6) [symmetric], erule step_approve)

lemma demo_reach_conflicted: "reachable (sync_start demo_service) (sync_step demo_service) demo_conflicted"
  by (rule reachable_step [rotated], rule demo_step_batch, rule demo_reach_approved)

lemma demo_reach_shrunk: "reachable (sync_start demo_service) (sync_step demo_service) demo_shrunk"
  by (rule reachable_step [rotated], rule demo_step_shrink, rule demo_reach_conflicted)

definition demo_conflict :: conflict where
  "demo_conflict = new_conflict ''sync-conflict-3'' (demo_item ''b'' ''B'') (demo_payload ''b'' ''B'' (Some ''v9''))"

lemma demo_conflicted_state:
  "\<exists>x. operations demo_conflicted = [(''sync-0'', x)] \<and> conflicts x = [demo_conflict]
    \<and> items x = [(''a'', demo_item ''a'' ''A''), (''b'', demo_item ''b'' ''B'')] \<and> op_version x = 3
    \<and> op_context x = demo_context ''t1'' \<and> operation_id x = ''sync-0'' \<and> length (target_versions x) = 1"
  "map fst (replays (port demo_conflicted)) = [(''a'', ''k1:a'')]" "tokens_drawn demo_conflicted = 4"
  "dict_get (idempotency demo_conflicted) (''sync-0'', ''amy'', op, ''k2'') = None"
  by (simp_all add: demo_conflicted_def demo_batch_run_def transfer_batch_def replay_lookup_def demo_approved_state
      demo_approved_fields version_is_def fresh_id_def transmit_def transmitted_def record_batch_def
      demo_conflict_def Let_def)

lemma demo_shrunk_state:
  "\<exists>x. operations demo_shrunk = [(''sync-0'', x)] \<and> conflicts x = [demo_conflict]
    \<and> items x = [(''a'', demo_item ''a'' ''A''), (''b'', demo_item ''b'' ''B'')] \<and> op_version x = 4
    \<and> op_context x = demo_context ''t1'' \<and> approved_item_ids x = [''a''] \<and> length (target_versions x) = 1"
  "port demo_shrunk = port demo_conflicted"
  "dict_get (idempotency demo_shrunk) (''sync-0'', ''amy'', ''resolution'', ''k2'') = None"
proof -
  obtain x where x: "operations demo_conflicted = [(''sync-0'', x)]" "conflicts x = [demo_conflict]"
      "items x = [(''a'', demo_item ''a'' ''A''), (''b'', demo_item ''b'' ''B'')]" "op_version x = 3"
      "op_context x = demo_context ''t1''" "length (target_versions x) = 1"
    using demo_conflicted_state(1) by blast
  note run = demo_shrunk_def approve_def find_operation_def x replay_lookup_def fresh_id_def version_is_def
    first_occurrences_def dict_by_def dependencies_within_def Let_def demo_conflicted_state
  show "\<exists>x. operations demo_shrunk = [(''sync-0'', x)] \<and> conflicts x = [demo_conflict]
    \<and> items x = [(''a'', demo_item ''a'' ''A''), (''b'', demo_item ''b'' ''B'')] \<and> op_version x = 4
    \<and> op_context x = demo_context ''t1'' \<and> approved_item_ids x = [''a''] \<and> length (target_versions x) = 1"
    "port demo_shrunk = port demo_conflicted"
    "dict_get (idempotency demo_shrunk) (''sync-0'', ''amy'', ''resolution'', ''k2'') = None"
    by (simp_all add: run)
qed

theorem resolution_needs_no_approval_witness:
  "\<exists>r t y. resolve_conflict demo_service (demo_context ''t1'') ''sync-0'' ''sync-conflict-3'' (MatchInt 4) ''k2''
      KeepBoth (Some ''B'') demo_shrunk = (Inr r, t)
    \<and> dict_get (operations t) ''sync-0'' = Some y \<and> approved_item_ids y = [''a'']
    \<and> ''b'' \<in> set (completed_item_ids y) \<and> length (target_versions y) = 2"
proof -
  obtain x where x: "operations demo_shrunk = [(''sync-0'', x)]" "conflicts x = [demo_conflict]"
      "items x = [(''a'', demo_item ''a'' ''A''), (''b'', demo_item ''b'' ''B'')]" "op_version x = 4"
      "op_context x = demo_context ''t1''" "approved_item_ids x = [''a'']" "length (target_versions x) = 1"
    using demo_shrunk_state(1) by blast
  have find: "find_operation demo_shrunk (demo_context ''t1'') ''sync-0'' = Inr x"
    by (simp add: find_operation_def x)
  have cf: "find (\<lambda>q. conflict_id q = ''sync-conflict-3'') (conflicts x) = Some demo_conflict"
      "conf_state demo_conflict = Unresolved" "conf_item_id demo_conflict = ''b''"
    by (simp_all add: x demo_conflict_def new_conflict_def)
  have item: "dict_get (items x) (conf_item_id demo_conflict) = Some (demo_item ''b'' ''B'')"
    by (simp add: x cf)
  have "dict_get (replays (port demo_shrunk)) (''b'', ''k2:b'') = None"
    using demo_conflicted_state(2) by (auto simp: demo_shrunk_state map_of_eq_None_iff)
  then obtain v p' where tr: "transmit demo_service (demo_item ''b'' ''B'') ''B''
      (''k2'' @ '':'' @ item_id (demo_item ''b'' ''B'')) (choice_value KeepBoth) (port demo_shrunk) = (Inr v, p')"
    by (simp add: transmit_def Let_def)
  show ?thesis
    using resolution_needs_no_approval [OF sync_ops.reachable_inv [OF demo_reach_shrunk] find _ _ cf(1,2) item _ tr]
    by (fastforce simp: x cf demo_shrunk_state)
qed

section \<open>The port\<close>

text \<open>
  A first transmission succeeds exactly for a content of the declared size and digest; it then
  counts once and returns a version of that item with that digest on top of the declared base, and
  the same item and key are answered with it ever after, without another transmission.
\<close>

theorem transmission_checks_content:
  assumes "dict_get (replays p) (item_id item, key) = None"
  shows "(if int (length body) = byte_size item \<and> sha256_hex cfg body = digest_sha256 item
      then \<exists>v p'. transmit cfg item body key rel p = (Inr v, p')
        \<and> transmission_count p' = transmission_count p + 1 \<and> target_item_id v = item_id item
        \<and> target_digest v = digest_sha256 item \<and> previous_cloud_version_id v = base_cloud_version_id item
        \<and> (\<forall>body' rel'. transmit cfg item body' key rel' p' = (Inr v, p'))
      else \<exists>e. transmit cfg item body key rel p = (Inl e, p))"
  using assms by (auto simp: transmit_def transmitted_def Let_def)

theorem transmission_checks_content_witness:
  "\<exists>e. transmit demo_service (demo_item ''a'' ''A'') ''X'' ''k'' ''copy''
      \<lparr>transmission_count = 0, replays = []\<rparr> = (Inl e, \<lparr>transmission_count = 0, replays = []\<rparr>)"
  using transmission_checks_content [of "\<lparr>transmission_count = 0, replays = []\<rparr>" "demo_item ''a'' ''A''" "''k''"
      "''X''" demo_service "''copy''"]
  by simp

text \<open>
  The port remembers versions by item identifier and idempotency key alone: an accepted
  transfer of an item whose identifier and key were used before, by any tenant, records the version
  of that earlier transfer without transmitting anything, whatever the content and its digest.
\<close>

theorem port_replays_across_tenants:
  assumes "find_operation s c oid = Inr x" and "validate_write k (MatchInt (op_version x)) = Inr ()"
    and "dict_get (idempotency s) (oid, actor_id c, ''transfer'', k) = None"
    and "approval_snapshot_id x \<noteq> None" and "pay_item_id p \<in> set (approved_item_ids x)"
    and "pay_item_id p \<notin> set (completed_item_ids x)" and "dict_get (items x) (pay_item_id p) = Some item"
    and "set (dependency_item_ids item) \<subseteq> set (completed_item_ids x)"
    and "(current_cloud_version_id p, current_cloud_digest p) = (base_cloud_version_id item, base_cloud_digest item)"
    and "dict_get (replays (port s)) (item_id item, k @ '':'' @ item_id item) = Some v"
  shows "\<exists>b t y. transfer_batch cfg c oid (MatchInt (op_version x)) k cur [p] s = (Inr b, t)
    \<and> port t = port s \<and> dict_get (operations t) oid = Some y
    \<and> target_versions y = target_versions x @ [v] \<and> transferred_item_ids b = [item_id item]"
proof -
  have deps: "\<not> list_ex (\<lambda>dep. dep \<notin> set (completed_item_ids x)) (dependency_item_ids item)"
    using assms(8) by (auto simp: list_ex_iff)
  obtain bid s1 where bid: "fresh_id cfg ''sync-batch'' s = (bid, s1)" by fastforce
  then have s1: "port s1 = port s" by (auto simp: fresh_id_def)
  show ?thesis
    using assms deps
    by (auto simp: transfer_batch_def replay_lookup_def version_is_def bid s1 transmit_def record_batch_def
        Let_def)
qed

text \<open>Another tenant plans its own item \<open>a\<close>, with another digest, and transfers it under the same key.\<close>

definition demo_other_planned :: sync_state where
  "demo_other_planned = snd (create_operation demo_service (demo_context ''t2'') ''cloud_sync''
     [demo_item ''a'' ''Z''] ''k1'' (MatchText ''*'') demo_conflicted)"

definition demo_other :: sync_state where
  "demo_other = snd (approve demo_service (demo_context ''t2'') ''sync-4'' [''a''] ''auth''
     (MatchInt 1) ''k1'' True demo_other_planned)"

lemma demo_conflicted_tables:
  "map fst (idempotency demo_conflicted) = [(''t1'', ''w1'', ''amy'', ''k1''),
     (''sync-0'', ''amy'', ''approve'', ''k1''), (''sync-0'', ''amy'', ''transfer'', ''k1'')]"
  "\<exists>v. replays (port demo_conflicted) = [((''a'', ''k1:a''), v)] \<and> target_digest v = ''A''"
  by (simp_all add: demo_conflicted_def demo_batch_run_def transfer_batch_def replay_lookup_def demo_approved_state
      demo_approved_fields version_is_def fresh_id_def transmit_def transmitted_def record_batch_def Let_def)

lemma demo_unused:
  "key \<notin> set (map fst (idempotency demo_conflicted)) \<Longrightarrow> dict_get (idempotency demo_conflicted) key = None"
  by (simp add: map_of_eq_None_iff)

lemma demo_other_planned_state:
  "\<exists>x. operations demo_other_planned = operations demo_conflicted @ [(''sync-4'', x)] \<and> op_version x = 1
    \<and> op_context x = demo_context ''t2'' \<and> operation_id x = ''sync-4''
    \<and> items x = [(''a'', demo_item ''a'' ''Z'')] \<and> completed_item_ids x = [] \<and> target_versions x = []"
  "port demo_other_planned = port demo_conflicted" "tokens_drawn demo_other_planned = 5"
  "idempotency demo_other_planned = idempotency demo_conflicted
    @ [((''t2'', ''w1'', ''amy'', ''k1''), (''['', OperationRef ''sync-4''))]"
proof -
  have unused: "dict_get (idempotency demo_conflicted) (''t2'', ''w1'', ''amy'', ''k1'') = None"
    by (rule demo_unused) (simp add: demo_conflicted_tables)
  obtain x where ops: "operations demo_conflicted = [(''sync-0'', x)]"
    using demo_conflicted_state(1) by blast
  have ledger: "dict_set (''t2'', ''w1'', ''amy'', ''k1'') v (idempotency demo_conflicted)
      = idempotency demo_conflicted @ [((''t2'', ''w1'', ''amy'', ''k1''), v)]" for v
    using unused by (intro dict_set_fresh) (simp add: map_of_eq_None_iff)
  note run = demo_other_planned_def create_operation_def replay_lookup_def unused fresh_id_def Let_def
    demo_conflicted_state(3) dict_by_def ops ledger
  show "\<exists>x. operations demo_other_planned = operations demo_conflicted @ [(''sync-4'', x)] \<and> op_version x = 1
    \<and> op_context x = demo_context ''t2'' \<and> operation_id x = ''sync-4''
    \<and> items x = [(''a'', demo_item ''a'' ''Z'')] \<and> completed_item_ids x = [] \<and> target_versions x = []"
    "port demo_other_planned = port demo_conflicted" "tokens_drawn demo_other_planned = 5"
    "idempotency demo_other_planned = idempotency demo_conflicted
      @ [((''t2'', ''w1'', ''amy'', ''k1''), (''['', OperationRef ''sync-4''))]"
    by (simp_all add: run)
qed

lemma demo_other_state:
  "\<exists>x. find_operation demo_other (demo_context ''t2'') ''sync-4'' = Inr x \<and> op_version x = 2
    \<and> items x = [(''a'', demo_item ''a'' ''Z'')] \<and> approved_item_ids x = [''a''] \<and> completed_item_ids x = []
    \<and> approval_snapshot_id x \<noteq> None \<and> target_versions x = []"
  "port demo_other = port demo_conflicted"
  "dict_get (idempotency demo_other) (''sync-4'', ''amy'', ''transfer'', ''k1'') = None"
proof -
  obtain z where ops: "operations demo_conflicted = [(''sync-0'', z)]"
    using demo_conflicted_state(1) by blast
  obtain x where x: "operations demo_other_planned = [(''sync-0'', z), (''sync-4'', x)]" "op_version x = 1"
      "op_context x = demo_context ''t2''" "items x = [(''a'', demo_item ''a'' ''Z'')]"
      "completed_item_ids x = []" "target_versions x = []"
    using demo_other_planned_state(1) ops by auto
  have unused: "dict_get (idempotency demo_other_planned) (''sync-4'', ''amy'', op, ''k1'') = None" for op
    using demo_unused [of "(''sync-4'', ''amy'', op, ''k1'')"]
    by (simp add: demo_other_planned_state(4) demo_conflicted_tables map_add_def)
  note run = demo_other_def approve_def find_operation_def x replay_lookup_def unused fresh_id_def version_is_def
    first_occurrences_def dict_by_def dependencies_within_def Let_def demo_other_planned_state(2,3)
  show "\<exists>x. find_operation demo_other (demo_context ''t2'') ''sync-4'' = Inr x \<and> op_version x = 2
    \<and> items x = [(''a'', demo_item ''a'' ''Z'')] \<and> approved_item_ids x = [''a''] \<and> completed_item_ids x = []
    \<and> approval_snapshot_id x \<noteq> None \<and> target_versions x = []"
    "port demo_other = port demo_conflicted"
    "dict_get (idempotency demo_other) (''sync-4'', ''amy'', ''transfer'', ''k1'') = None"
    by (simp_all add: run)
qed

theorem port_replays_across_tenants_witness:
  "\<exists>b t y v. transfer_batch demo_service (demo_context ''t2'') ''sync-4'' (MatchInt 2) ''k1'' None
      [demo_payload ''a'' ''Z'' None] demo_other = (Inr b, t)
    \<and> dict_get (operations t) ''sync-4'' = Some y \<and> target_versions y = [v] \<and> target_digest v = ''A''"
proof -
  obtain x where x: "find_operation demo_other (demo_context ''t2'') ''sync-4'' = Inr x" "op_version x = 2"
      "items x = [(''a'', demo_item ''a'' ''Z'')]" "approved_item_ids x = [''a'']" "completed_item_ids x = []"
      "approval_snapshot_id x \<noteq> None" "target_versions x = []"
    using demo_other_state(1) by blast
  obtain v where v: "replays (port demo_conflicted) = [((''a'', ''k1:a''), v)]" "target_digest v = ''A''"
    using demo_conflicted_tables(2) by blast
  have "\<exists>b t y. transfer_batch demo_service (demo_context ''t2'') ''sync-4'' (MatchInt (op_version x)) ''k1'' None
      [demo_payload ''a'' ''Z'' None] demo_other = (Inr b, t)
    \<and> port t = port demo_other \<and> dict_get (operations t) ''sync-4'' = Some y
    \<and> target_versions y = target_versions x @ [v] \<and> transferred_item_ids b = [item_id (demo_item ''a'' ''Z'')]"
    by (rule port_replays_across_tenants [OF x(1)])
      (simp_all add: x(2-5,7) x(6) [simplified] v demo_other_state(2,3))
  then show ?thesis using v(2) x by auto
qed

section \<open>Isolation and repetition\<close>

text \<open>
  Whatever calls other tenants and workspaces make, an operation stays exactly as it is; and
  no sequence of calls at all shrinks what it has completed, copied or recorded, changes its items,
  or lowers its version.
\<close>

theorem operations_isolated_and_growing:
  assumes "reachable (sync_start cfg) (sync_step cfg) s" and "runs (sync_step cfg) s cs t"
    and "dict_get (operations s) oid = Some x"
  shows "\<exists>y. dict_get (operations t) oid = Some y \<and> (context_scope (op_context x) \<notin> set cs \<longrightarrow> y = x)
    \<and> items y = items x \<and> op_version x \<le> op_version y
    \<and> set (completed_item_ids x) \<subseteq> set (completed_item_ids y)
    \<and> take (length (target_versions x)) (target_versions y) = target_versions x
    \<and> take (length (batches x)) (batches y) = batches x"
proof -
  note inv = sync_ops.reachable_inv [OF assms(1)]
  obtain y where y: "dict_get (operations t) oid = Some y" and change: "operation_change x y"
    using runs_operation [OF assms(2) inv assms(3)] by blast
  moreover have "y = x" if "context_scope (op_context x) \<notin> set cs"
    using sync_ops.isolation [OF assms(2) inv assms(3) that] y by simp
  ultimately show ?thesis
    by (auto simp: operation_change_def same_plan_def)
qed

theorem operations_isolated_and_growing_witness:
  "\<exists>y. dict_get (operations demo_conflicted) ''sync-0'' = Some y \<and> items demo_approved_plan = items y"
proof -
  have "runs (sync_step demo_service) demo_approved [(''t1'', ''w1'')] demo_conflicted"
    by (rule runs_more, rule demo_step_batch, rule runs_none)
  from operations_isolated_and_growing [OF demo_reach_approved this, of "''sync-0''" demo_approved_plan]
  show ?thesis by (auto simp: demo_approved_state)
qed

text \<open>
  A recorded batch is idempotent: after any calls of anyone since, the same call by the same
  actor returns the recorded batch, marked as replayed, and changes nothing.
\<close>

theorem batch_is_idempotent:
  assumes "reachable (sync_start cfg) (sync_step cfg) s"
    and "transfer_batch cfg c oid m k cur ps s = (Inr b, t)"
    and "dict_get (idempotency s) (oid, actor_id c, ''transfer'', k) = None"
    and "runs (sync_step cfg) t cs u"
  shows "\<exists>b'. transfer_batch cfg c oid m k cur ps u = (Inr b', u) \<and> batch_id b' = batch_id b \<and> batch_replayed b'"
proof -
  let ?key = "(oid, actor_id c, ''transfer'', k)" and ?fp = "batch_fingerprint cfg oid m cur ps"
  note inv = sync_ops.reachable_inv [OF assms(1)]
  have guards: "validate_write k m = Inr ()" "ps \<noteq> []"
    using assms(2) by (auto simp: transfer_batch_def Let_def split: attempt_splits if_splits)
  have step: "sync_step cfg (context_scope c) s t"
    by (rule step_transfer [OF assms(2)])
  have inv_t: "sync_inv cfg t" by (rule sync_inv_step [OF step inv])
  from assms(2) obtain z where entry: "dict_get (idempotency t) ?key = Some (?fp, BatchRef (batch_id b))"
      and z: "find_operation t c oid = Inr z" and b: "b \<in> set (batches z)"
  proof (cases rule: transfer_effect)
    case none
    then show thesis using assms(3) by simp
  next
    case (aborted x e y s2)
    then show thesis by simp
  next
    case (recorded x sent clash y s2 b' z fp bid)
    note rec = record_batch_fields [OF recorded(9)]
    have port: "port_ok (port (s\<lparr>tokens_drawn := Suc (tokens_drawn s)\<rparr>))"
      using sync_invD(3) [OF inv] by simp
    have "extends x y"
      using transfer_payloads_ok [OF recorded(8) found_ok(2) [OF inv recorded(1)] port] by blast
    then have "op_context z = op_context x"
      by (subst rec(1)) (simp add: extends_def same_plan_def)
    then have "find_operation t c oid = Inr z"
      using recorded(1,11) by (auto simp: find_operation_def split: option.splits if_splits)
    moreover have "b \<in> set (batches z)"
      using recorded(10) by (subst rec(1)) simp
    moreover have "dict_get (idempotency t) ?key = Some (?fp, BatchRef (batch_id b))"
      using recorded(7,10,11) rec(3) by simp
    ultimately show thesis using that by blast
  qed
  obtain y where y: "dict_get (operations u) oid = Some y" "operation_change z y"
    using runs_operation [OF assms(4) inv_t] find_operation_InrD [OF z] by blast
  have find: "find_operation u c oid = Inr y"
    using y z find_operation_InrD [OF z]
    by (simp add: find_operation_def operation_change_def same_plan_def context_scope_def)
  have "b \<in> set (batches y)"
    using y(2) b unfolding operation_change_def by (metis in_set_takeD)
  then obtain b' where "find (\<lambda>q. is_text (BatchRef (batch_id b)) \<and> ledger_text (BatchRef (batch_id b)) = batch_id q)
      (batches y) = Some b'"
    by (cases "find (\<lambda>q. is_text (BatchRef (batch_id b)) \<and> ledger_text (BatchRef (batch_id b)) = batch_id q) (batches y)")
      (auto simp: find_None_iff is_text_def ledger_text_def)
  moreover from this have "batch_id b' = batch_id b"
    using find_mem by (fastforce simp: ledger_text_def)
  moreover have "dict_get (idempotency u) ?key = Some (?fp, BatchRef (batch_id b))"
    by (rule runs_sync_ledger [OF assms(4) inv_t entry])
  ultimately show ?thesis
    using guards find by (simp add: transfer_batch_def replay_lookup_def prior_batch_def Let_def)
qed

theorem batch_is_idempotent_witness:
  "\<exists>b'. transfer_batch demo_service (demo_context ''t1'') ''sync-0'' (MatchInt 2) ''k1'' None
      [demo_payload ''a'' ''A'' None, demo_payload ''b'' ''B'' (Some ''v9'')] demo_shrunk = (Inr b', demo_shrunk)
    \<and> batch_replayed b'"
proof -
  obtain b where "fst (demo_batch_run ''B'' (Some ''v9'')) = Inr b"
    using demo_batch_moved by blast
  then have first: "transfer_batch demo_service (demo_context ''t1'') ''sync-0'' (MatchInt 2) ''k1'' None
      [demo_payload ''a'' ''A'' None, demo_payload ''b'' ''B'' (Some ''v9'')] demo_approved = (Inr b, demo_conflicted)"
    by (simp add: demo_conflicted_def demo_batch_run_def prod_eq_iff)
  have "runs (sync_step demo_service) demo_conflicted [(''t1'', ''w1'')] demo_shrunk"
    by (rule runs_more, rule demo_step_shrink, rule runs_none)
  from batch_is_idempotent [OF demo_reach_approved first _ this] show ?thesis
    by (auto simp: demo_approved_state)
qed

end
