(* ===== verification/Egress.thy ===== *)
theory Egress
  imports Complex_Main Contracts Json
begin

text \<open>
  Model of \<open>services/api/src/daon_user_api/egress_policy.py\<close>: versioned egress policies of an
  organization and its workspaces, the effective policy that both determine together, and the
  in-memory repository with its entity tags and idempotency ledger; of the decision
  \<open>external_question_policy_matches\<close> of \<open>question_egress.py\<close> that enforces an effective policy; and
  of \<open>routing.py\<close>, which picks a deployment under that decision. The digest of the policies is a
  parameter \<open>sha256_hex\<close> on byte strings.
\<close>

declare map_of_eq_Some_iff [simp del]

section \<open>Contexts and policy payloads\<close>

text \<open>
  \<open>KeyError\<close> is what Python raises for an absent dictionary key; no property of this library rests
  on how it is reported.
\<close>

datatype egress_error =
    EgressPolicyError (egress_code: string) (egress_status: int)
  | KeyErrorRaised string

record egress_context =
  tenant_id :: string
  organization_id :: string
  workspace_id :: string
  actor_id :: string
  trace_id :: string
  authorization_policy_version :: string

definition context_checked :: "egress_context \<Rightarrow> egress_error + egress_context" where
  "context_checked c =
    (if \<not> list_all safe_id [tenant_id c, organization_id c, workspace_id c, actor_id c,
        trace_id c, authorization_policy_version c]
     then Inl (EgressPolicyError ''EGRESS_POLICY_CONTEXT_INVALID'' 400)
     else if tenant_id c \<noteq> organization_id c
     then Inl (EgressPolicyError ''EGRESS_POLICY_SCOPE_MISMATCH'' 400)
     else Inr c)"

text \<open>The dictionaries of ranks; a text that is no key has no rank.\<close>

definition classification_rank :: "(string, nat) dict" where
  "classification_rank =
    [(''public'', 0), (''internal'', 1), (''confidential'', 2), (''restricted'', 3)]"

definition approver_rank :: "(string, nat) dict" where
  "approver_rank = [(''workspace_manager'', 0), (''organization_admin'', 1)]"

definition provider_kinds :: "string list" where
  "provider_kinds = [''external_api'', ''server_internal'', ''local_runtime'']"

text \<open>\<open>[A-Za-z0-9](?:[A-Za-z0-9.-]{0,251}[A-Za-z0-9])?\<close>.\<close>

definition destination_ok :: "string \<Rightarrow> bool" where
  "destination_ok s = (case s of [] \<Rightarrow> False
     | c # cs \<Rightarrow> ascii_alnum c
         \<and> (cs = [] \<or> (length cs \<le> 252 \<and> ascii_alnum (last cs)
              \<and> list_all (\<lambda>x. ascii_alnum x \<or> x \<in> set ''.-'') (butlast cs))))"

record egress_payload =
  mode :: string
  allowed_provider_kinds :: "string list"
  allowed_destinations :: "string list"
  classification :: string
  max_bytes :: int
  masking_required :: bool
  redaction_required :: bool
  required_approver :: string
  question_step_up_required :: bool

text \<open>
  \<open>EgressPolicyPayload.__post_init__\<close>; all of its checks raise the same error. The checks that a
  Boolean or an integer is one are the types of the record.
\<close>

definition payload_valid :: "egress_payload \<Rightarrow> bool" where
  "payload_valid p \<longleftrightarrow>
    \<not> (mode p = ''deny_external'' \<and> \<not> question_step_up_required p)
    \<and> mode p \<in> {''deny_external'', ''allow_approved_external''}
    \<and> dict_get classification_rank (classification p) \<noteq> None
    \<and> dict_get approver_rank (required_approver p) \<noteq> None
    \<and> 0 \<le> max_bytes p \<and> max_bytes p \<le> 104857600
    \<and> length (allowed_provider_kinds p) \<le> 32 \<and> length (allowed_destinations p) \<le> 64
    \<and> distinct (allowed_provider_kinds p)
    \<and> list_all (\<lambda>k. k \<in> set provider_kinds) (allowed_provider_kinds p)
    \<and> distinct (allowed_destinations p)
    \<and> list_all destination_ok (allowed_destinations p)
    \<and> \<not> (mode p = ''deny_external''
         \<and> (allowed_provider_kinds p \<noteq> [] \<or> allowed_destinations p \<noteq> [] \<or> max_bytes p \<noteq> 0))"

definition payload_checked :: "egress_payload \<Rightarrow> egress_error + egress_payload" where
  "payload_checked p =
    (if payload_valid p then Inr p else Inl (EgressPolicyError ''EGRESS_POLICY_PAYLOAD_INVALID'' 400))"

definition deny_external :: egress_payload where
  "deny_external = \<lparr>mode = ''deny_external'', allowed_provider_kinds = [], allowed_destinations = [],
     classification = ''restricted'', max_bytes = 0, masking_required = True,
     redaction_required = True, required_approver = ''organization_admin'',
     question_step_up_required = True\<rparr>"

definition as_dict :: "egress_payload \<Rightarrow> (string \<times> json) list" where
  "as_dict p =
    [(''allowed_destinations'', JArr (map JStr (allowed_destinations p))),
     (''allowed_provider_kinds'', JArr (map JStr (allowed_provider_kinds p))),
     (''classification'', JStr (classification p)),
     (''masking_required'', JBool (masking_required p)),
     (''max_bytes'', JInt (max_bytes p)),
     (''mode'', JStr (mode p)),
     (''redaction_required'', JBool (redaction_required p)),
     (''required_approver'', JStr (required_approver p))]
    @ (if question_step_up_required p then [] else [(''question_step_up_required'', JBool False)])"

definition payload_digest :: "(string \<Rightarrow> string) \<Rightarrow> egress_payload \<Rightarrow> string" where
  "payload_digest sha256_hex p = sha256_hex (canonical_json_bytes (as_dict p))"

section \<open>Bindings and the effective policy\<close>

record egress_binding =
  bound_tenant_id :: string
  bound_organization_id :: string
  bound_workspace_id :: "string option"
  scope_type :: string
  policy_version_id :: string
  policy_version :: int
  policy_state :: string
  binding_id :: string
  binding_version :: int
  active :: bool
  current :: bool
  payload :: egress_payload

definition binding_etag :: "(string \<Rightarrow> string) \<Rightarrow> egress_binding \<Rightarrow> string" where
  "binding_etag sha256_hex b =
    CHR 0x22 # ''egress-policy:'' @ scope_type b @ '':'' @ dec_int (binding_version b) @ '':''
      @ payload_digest sha256_hex (payload b) @ [CHR 0x22]"

record effective_policy =
  organization_policy_version_id :: string
  organization_binding_id :: string
  workspace_policy_version_id :: string
  workspace_binding_id :: string
  effective_payload :: egress_payload
  parent_locked :: bool
  policy_fingerprint :: string
  effective_etag :: string
  organization_etag :: string
  workspace_etag :: string
  organization_policy :: "(string \<times> json) list"
  workspace_policy :: "(string \<times> json) list"

definition scope_workspace :: "egress_context \<Rightarrow> string \<Rightarrow> string option" where
  "scope_workspace c scope = (if scope = ''organization'' then None else Some (workspace_id c))"

definition validate_binding ::
  "egress_context \<Rightarrow> egress_binding \<Rightarrow> string \<Rightarrow> egress_error + unit" where
  "validate_binding c b scope =
    (if bound_tenant_id b \<noteq> tenant_id c \<or> bound_organization_id b \<noteq> organization_id c
       \<or> bound_workspace_id b \<noteq> scope_workspace c scope \<or> scope_type b \<noteq> scope
     then Inl (EgressPolicyError ''EGRESS_POLICY_UNAVAILABLE'' 503)
     else if \<not> active b \<or> \<not> current b \<or> policy_state b \<noteq> ''active''
     then Inl (EgressPolicyError ''EGRESS_POLICY_STALE'' 503)
     else Inr ())"

text \<open>\<open>max((a, b), key=rank.__getitem__)\<close>: the first of the maximal arguments.\<close>

definition higher :: "(string, nat) dict \<Rightarrow> string \<Rightarrow> string \<Rightarrow> egress_error + string" where
  "higher rank a b =
    (case dict_get rank a of None \<Rightarrow> Inl (KeyErrorRaised a)
     | Some m \<Rightarrow> (case dict_get rank b of None \<Rightarrow> Inl (KeyErrorRaised b)
         | Some n \<Rightarrow> Inr (if m < n then b else a)))"

text \<open>\<open>tuple(sorted(set(xs) & set(ys)))\<close>.\<close>

definition common :: "string list \<Rightarrow> string list \<Rightarrow> string list" where
  "common xs ys = sort (remdups (filter (\<lambda>x. x \<in> set ys) xs))"

definition resolve_effective_payload ::
  "egress_payload \<Rightarrow> egress_payload \<Rightarrow> egress_error + egress_payload \<times> bool" where
  "resolve_effective_payload organization workspace =
    (let locked = (mode organization = ''deny_external'') in
     if locked \<or> mode workspace = ''deny_external'' then Inr (deny_external, locked)
     else case higher classification_rank (classification organization) (classification workspace) of
         Inl e \<Rightarrow> Inl e
       | Inr cls \<Rightarrow>
           (case higher approver_rank (required_approver organization) (required_approver workspace) of
              Inl e \<Rightarrow> Inl e
            | Inr approver \<Rightarrow>
                map_sum (\<lambda>e. e) (\<lambda>p. (p, False)) (payload_checked
                  \<lparr>mode = ''allow_approved_external'',
                   allowed_provider_kinds =
                     common (allowed_provider_kinds organization) (allowed_provider_kinds workspace),
                   allowed_destinations =
                     common (allowed_destinations organization) (allowed_destinations workspace),
                   classification = cls,
                   max_bytes = min (max_bytes organization) (max_bytes workspace),
                   masking_required = (masking_required organization \<or> masking_required workspace),
                   redaction_required = (redaction_required organization \<or> redaction_required workspace),
                   required_approver = approver,
                   question_step_up_required =
                     (question_step_up_required organization \<or> question_step_up_required workspace)\<rparr>)))"

definition frozen_context :: "effective_policy \<Rightarrow> (string \<times> json) list" where
  "frozen_context e =
    [(''organization_policy_version_id'', JStr (organization_policy_version_id e)),
     (''organization_binding_id'', JStr (organization_binding_id e)),
     (''workspace_policy_version_id'', JStr (workspace_policy_version_id e)),
     (''workspace_binding_id'', JStr (workspace_binding_id e)),
     (''mode'', JStr (mode (effective_payload e))),
     (''allowed_provider_kinds'', JArr (map JStr (allowed_provider_kinds (effective_payload e)))),
     (''allowed_destinations'', JArr (map JStr (allowed_destinations (effective_payload e)))),
     (''classification'', JStr (classification (effective_payload e))),
     (''max_bytes'', JInt (max_bytes (effective_payload e))),
     (''masking_required'', JBool (masking_required (effective_payload e))),
     (''redaction_required'', JBool (redaction_required (effective_payload e))),
     (''required_approver'', JStr (required_approver (effective_payload e))),
     (''fingerprint'', JStr (policy_fingerprint e))]
    @ (if question_step_up_required (effective_payload e) then []
       else [(''question_step_up_required'', JBool False)])"

section \<open>The reference repository\<close>

type_synonym binding_key = "string \<times> string \<times> string \<times> string option"
type_synonym replay_key = "string \<times> string \<times> string \<times> string"

record egress_state =
  current_bindings :: "(binding_key, egress_binding) dict"
  replays :: "(replay_key, string \<times> egress_binding) dict"
  audit_outcomes :: "(string \<times> string) list"
  write_count :: int

definition empty_repository :: egress_state where
  "empty_repository = \<lparr>current_bindings = [], replays = [], audit_outcomes = [], write_count = 0\<rparr>"

definition binding_key :: "egress_context \<Rightarrow> string \<Rightarrow> binding_key" where
  "binding_key c scope = (tenant_id c, organization_id c, scope, scope_workspace c scope)"

definition new_binding ::
  "egress_context \<Rightarrow> string \<Rightarrow> int \<Rightarrow> egress_payload \<Rightarrow> egress_binding" where
  "new_binding c scope v p =
    \<lparr>bound_tenant_id = tenant_id c, bound_organization_id = organization_id c,
     bound_workspace_id = scope_workspace c scope, scope_type = scope,
     policy_version_id = ''policy-'' @ scope @ ''-'' @ dec_int v, policy_version = v,
     policy_state = ''active'', binding_id = ''binding-'' @ scope @ ''-'' @ dec_int v,
     binding_version = v, active = True, current = True, payload = p\<rparr>"

definition put_binding :: "binding_key \<Rightarrow> egress_binding \<Rightarrow> egress_state \<Rightarrow> egress_state" where
  "put_binding k b s = s\<lparr>current_bindings := dict_set k b (current_bindings s)\<rparr>"

definition seed ::
  "egress_context \<Rightarrow> string \<Rightarrow> egress_payload \<Rightarrow> egress_state \<Rightarrow> egress_binding \<times> egress_state" where
  "seed c scope p s =
    (let view = new_binding c scope 1 p in (view, put_binding (binding_key c scope) view s))"

definition current_binding ::
  "egress_context \<Rightarrow> string \<Rightarrow> egress_state \<Rightarrow> egress_error + egress_binding" where
  "current_binding c scope s =
    (case dict_get (current_bindings s) (binding_key c scope) of
       None \<Rightarrow> Inl (EgressPolicyError ''EGRESS_POLICY_UNAVAILABLE'' 503)
     | Some b \<Rightarrow> Inr b)"

text \<open>\<open>replace(current, **changes)\<close> with the changed fields given as a function.\<close>

definition corrupt_current ::
  "egress_context \<Rightarrow> string \<Rightarrow> (egress_binding \<Rightarrow> egress_binding) \<Rightarrow> egress_state
    \<Rightarrow> (egress_state, egress_error, unit) outcome" where
  "corrupt_current c scope change s =
    (case dict_get (current_bindings s) (binding_key c scope) of
       None \<Rightarrow> (Inl (KeyErrorRaised scope), s)
     | Some b \<Rightarrow> (Inr (), put_binding (binding_key c scope) (change b) s))"

definition record_outcome :: "string \<Rightarrow> string \<Rightarrow> egress_state \<Rightarrow> egress_state" where
  "record_outcome action result s = s\<lparr>audit_outcomes := audit_outcomes s @ [(action, result)]\<rparr>"

definition record_denial :: "egress_context \<Rightarrow> string \<Rightarrow> string \<Rightarrow> egress_state \<Rightarrow> egress_state" where
  "record_denial c action code s = record_outcome action ''denied'' s"

definition activation_fingerprint ::
  "(string \<Rightarrow> string) \<Rightarrow> string \<Rightarrow> egress_payload \<Rightarrow> string \<Rightarrow> string" where
  "activation_fingerprint sha256_hex scope p expected_etag =
    sha256_hex (canonical_json_bytes
      [(''scope_type'', JStr scope), (''payload'', JObj (as_dict p)),
       (''expected_etag'', JStr expected_etag)])"

definition replay_lookup ::
  "(replay_key, string \<times> egress_binding) dict \<Rightarrow> replay_key \<Rightarrow> string
    \<Rightarrow> egress_error + egress_binding option" where
  "replay_lookup l k f =
    (case dict_get l k of None \<Rightarrow> Inr None
     | Some (f', b) \<Rightarrow>
         if f' \<noteq> f then Inl (EgressPolicyError ''IDEMPOTENCY_KEY_REUSED'' 409) else Inr (Some b))"

text \<open>The writes of an accepted activation.\<close>

definition store_binding ::
  "egress_context \<Rightarrow> string \<Rightarrow> replay_key \<Rightarrow> string \<Rightarrow> egress_binding \<Rightarrow> egress_state \<Rightarrow> egress_state" where
  "store_binding c scope k f stored s =
    (let s1 = put_binding (binding_key c scope) stored s;
         s2 = s1\<lparr>replays := dict_set k (f, stored) (replays s1)\<rparr>;
         s3 = record_outcome ''egress_policy.activate'' ''succeeded'' s2
     in s3\<lparr>write_count := write_count s3 + 1\<rparr>)"

definition repository_activate ::
  "(string \<Rightarrow> string) \<Rightarrow> egress_context \<Rightarrow> string \<Rightarrow> egress_payload \<Rightarrow> string \<Rightarrow> string \<Rightarrow> egress_state
    \<Rightarrow> (egress_state, egress_error, egress_binding) outcome" where
  "repository_activate sha256_hex c scope p expected_etag idem s =
    (let f = activation_fingerprint sha256_hex scope p expected_etag;
         k = (tenant_id c, actor_id c, scope, idem)
     in attempt (replay_lookup (replays s) k f) s (\<lambda>replay.
        (case replay of
           Some stored \<Rightarrow> (Inr stored, s)
         | None \<Rightarrow> attempt (current_binding c scope s) s (\<lambda>cur.
             if binding_etag sha256_hex cur \<noteq> expected_etag
             then (Inl (EgressPolicyError ''VERSION_CONFLICT'' 409), s)
             else let stored = new_binding c scope (binding_version cur + 1) p
                  in (Inr stored, store_binding c scope k f stored s)))))"

section \<open>The service\<close>

definition build_effective ::
  "(string \<Rightarrow> string) \<Rightarrow> egress_binding \<Rightarrow> egress_binding \<Rightarrow> egress_payload \<times> bool \<Rightarrow> effective_policy" where
  "build_effective sha256_hex org ws pl =
    (let frozen = [(''organization_policy_version_id'', JStr (policy_version_id org)),
           (''organization_binding_id'', JStr (binding_id org)),
           (''workspace_policy_version_id'', JStr (policy_version_id ws)),
           (''workspace_binding_id'', JStr (binding_id ws))] @ as_dict (fst pl);
         fp = ''sha256:'' @ sha256_hex (canonical_json_bytes frozen);
         etag_seed = binding_etag sha256_hex org @ ''|'' @ binding_etag sha256_hex ws @ ''|'' @ fp
     in \<lparr>organization_policy_version_id = policy_version_id org,
         organization_binding_id = binding_id org,
         workspace_policy_version_id = policy_version_id ws, workspace_binding_id = binding_id ws,
         effective_payload = fst pl, parent_locked = snd pl, policy_fingerprint = fp,
         effective_etag = CHR 0x22 # ''egress-effective:'' @ sha256_hex (utf8 etag_seed) @ [CHR 0x22],
         organization_etag = binding_etag sha256_hex org, workspace_etag = binding_etag sha256_hex ws,
         organization_policy = as_dict (payload org), workspace_policy = as_dict (payload ws)\<rparr>)"

definition get_effective ::
  "(string \<Rightarrow> string) \<Rightarrow> egress_context \<Rightarrow> egress_state \<Rightarrow> egress_error + effective_policy" where
  "get_effective sha256_hex c s =
    fst (attempt (current_binding c ''organization'' s) s (\<lambda>org.
      attempt (current_binding c ''workspace'' s) s (\<lambda>ws.
      attempt (validate_binding c org ''organization'') s (\<lambda>_.
      attempt (validate_binding c ws ''workspace'') s (\<lambda>_.
      attempt (resolve_effective_payload (payload org) (payload ws)) s (\<lambda>pl.
        (Inr (build_effective sha256_hex org ws pl), s)))))))"

text \<open>The guard of the service: a workspace cannot open what the organization denies.\<close>

definition parent_guard ::
  "egress_context \<Rightarrow> string \<Rightarrow> egress_payload \<Rightarrow> egress_state
    \<Rightarrow> (egress_state, egress_error, unit) outcome" where
  "parent_guard c scope p s =
    (if scope = ''workspace'' \<and> mode p = ''allow_approved_external''
     then attempt (current_binding c ''organization'' s) s (\<lambda>org.
       attempt (validate_binding c org ''organization'') s (\<lambda>_.
         if mode (payload org) = ''deny_external''
         then (Inl (EgressPolicyError ''EGRESS_POLICY_DENIED'' 403),
               record_denial c ''egress_policy.activate'' ''EGRESS_POLICY_DENIED'' s)
         else (Inr (), s)))
     else (Inr (), s))"

definition create_and_activate ::
  "(string \<Rightarrow> string) \<Rightarrow> egress_context \<Rightarrow> string \<Rightarrow> egress_payload \<Rightarrow> string \<Rightarrow> string \<Rightarrow> egress_state
    \<Rightarrow> (egress_state, egress_error, egress_binding) outcome" where
  "create_and_activate sha256_hex c scope p expected_etag idem s =
    (if scope \<notin> {''organization'', ''workspace''}
     then (Inl (EgressPolicyError ''EGRESS_POLICY_SCOPE_INVALID'' 400), s)
     else case parent_guard c scope p s of
         (Inl e, s1) \<Rightarrow> (Inl e, s1)
       | (Inr _, s1) \<Rightarrow>
           (case repository_activate sha256_hex c scope p expected_etag idem s1 of
              (Inr stored, s2) \<Rightarrow> (Inr stored, s2)
            | (Inl e, s2) \<Rightarrow>
                (Inl e, (case e of
                   EgressPolicyError code st \<Rightarrow>
                     if code = ''VERSION_CONFLICT''
                     then record_denial c ''egress_policy.activate'' ''VERSION_CONFLICT'' s2 else s2
                 | KeyErrorRaised _ \<Rightarrow> s2))))"

section \<open>The decision on a question\<close>

definition external_question_policy_matches ::
  "egress_payload \<Rightarrow> string \<Rightarrow> string \<Rightarrow> int \<Rightarrow> string \<Rightarrow> bool \<Rightarrow> bool \<Rightarrow> bool" where
  "external_question_policy_matches e provider_kind destination payload_bytes cls masking redaction \<longleftrightarrow>
    mode e = ''allow_approved_external''
    \<and> provider_kind \<in> set (allowed_provider_kinds e)
    \<and> casefold destination \<in> set (map casefold (allowed_destinations e))
    \<and> 0 \<le> payload_bytes \<and> payload_bytes \<le> max_bytes e
    \<and> classification e = cls
    \<and> masking_required e = masking
    \<and> redaction_required e = redaction"

section \<open>Routing to a deployment\<close>

text \<open>The costs are floats in the source; the model has the rational numbers they denote.\<close>

record routing_context =
  route_actor_id :: string
  route_tenant_id :: string
  route_workspace_id :: string
  route_mode :: string
  required_role :: string
  data_realm :: string
  external_egress_allowed :: bool
  route_policy_version :: string
  cost_limit :: rat
  estimated_cost :: rat
  payload_bytes :: int

record candidate_deployment =
  deployment_id :: string
  artifact_digest :: string
  role :: string
  candidate_realm :: string
  health :: string
  provider_kind :: string

record egress_decision =
  decision_destination :: string
  decision_payload_bytes :: int
  decision_allowed :: bool
  decision_reason :: string
  decision_policy_version :: string

record routing_result =
  route_status :: string
  route_code :: "string option"
  route_deployment_id :: "string option"
  route_artifact_digest :: "string option"
  result_policy_version :: string
  egress :: egress_decision

definition route_refused ::
  "routing_context \<Rightarrow> string \<Rightarrow> string \<Rightarrow> string \<Rightarrow> routing_result" where
  "route_refused c result_status err reason =
    \<lparr>route_status = result_status, route_code = Some err, route_deployment_id = None,
     route_artifact_digest = None, result_policy_version = route_policy_version c,
     egress = \<lparr>decision_destination = ''unknown'', decision_payload_bytes = payload_bytes c,
       decision_allowed = False, decision_reason = reason,
       decision_policy_version = route_policy_version c\<rparr>\<rparr>"

definition route_blocked :: "routing_context \<Rightarrow> string \<Rightarrow> string \<Rightarrow> routing_result" where
  "route_blocked c err reason = route_refused c ''policy_blocked'' err reason"

text \<open>The loop over the candidates, with the flag and the list it accumulates.\<close>

fun sift_candidates ::
  "routing_context \<Rightarrow> candidate_deployment list \<Rightarrow> bool \<Rightarrow> candidate_deployment list
    \<Rightarrow> bool \<times> candidate_deployment list" where
  "sift_candidates c [] denied allowed = (denied, allowed)"
| "sift_candidates c (x # xs) denied allowed =
    (if provider_kind x = ''external_api'' \<and> data_realm c = ''local_private''
         \<and> \<not> external_egress_allowed c
     then sift_candidates c xs True allowed
     else if role x \<noteq> required_role c \<or> candidate_realm x \<noteq> data_realm c
     then sift_candidates c xs denied allowed
     else if health x \<noteq> ''ready'' then sift_candidates c xs denied allowed
     else if provider_kind x = ''external_api'' \<and> \<not> external_egress_allowed c
     then sift_candidates c xs True allowed
     else sift_candidates c xs denied (allowed @ [x]))"

definition selected_result :: "routing_context \<Rightarrow> candidate_deployment \<Rightarrow> routing_result" where
  "selected_result c selected =
    \<lparr>route_status = ''selected'', route_code = None,
     route_deployment_id = Some (deployment_id selected),
     route_artifact_digest = Some (artifact_digest selected),
     result_policy_version = route_policy_version c,
     egress = \<lparr>decision_destination =
         (if provider_kind selected = [] then ''server_internal'' else provider_kind selected),
       decision_payload_bytes = payload_bytes c, decision_allowed = True,
       decision_reason = ''approved candidate matched frozen context'',
       decision_policy_version = route_policy_version c\<rparr>\<rparr>"

definition route_single_model ::
  "routing_context \<Rightarrow> candidate_deployment list \<Rightarrow> routing_result" where
  "route_single_model c candidates =
    (if estimated_cost c > cost_limit c
     then route_blocked c ''COST_LIMIT_EXCEEDED'' ''frozen cost limit exceeded''
     else
       (let considered = (if route_mode c = ''pinned'' then take 1 candidates else candidates);
            (denied, allowed) = sift_candidates c considered False []
        in case allowed of
            [] \<Rightarrow> if denied
                  then route_blocked c ''EXTERNAL_EGRESS_DENIED'' ''external egress is not allowed''
                  else route_refused c ''failed'' ''NO_AVAILABLE_DEPLOYMENT''
                    ''no ready candidate matched the frozen context''
          | selected # _ \<Rightarrow> selected_result c selected))"

end
