(* ===== verification/Egress_Invariant.thy ===== *)
theory Egress_Invariant
  imports Egress
begin

text \<open>
  Facts of the egress policies: when two payloads resolve and to what, what an activation can leave
  behind, the step relation and the invariant of the repository, and its interpretation of the
  shared contracts.
\<close>

section \<open>Resolving two payloads\<close>

text \<open>What a payload lets out: a kind of provider, a destination and a number of bytes.\<close>

definition permits :: "egress_payload \<Rightarrow> string \<Rightarrow> string \<Rightarrow> int \<Rightarrow> bool" where
  "permits p kind destination n \<longleftrightarrow>
    mode p = ''allow_approved_external'' \<and> kind \<in> set (allowed_provider_kinds p)
    \<and> destination \<in> set (allowed_destinations p) \<and> 0 \<le> n \<and> n \<le> max_bytes p"

definition rank_in :: "(string, nat) dict \<Rightarrow> string \<Rightarrow> nat" where
  "rank_in rank x = (case dict_get rank x of None \<Rightarrow> 0 | Some n \<Rightarrow> n)"

lemma higher_ranks:
  assumes "higher rank a b = Inr x"
  shows "dict_get rank x \<noteq> None" and "rank_in rank x = max (rank_in rank a) (rank_in rank b)"
  using assms by (auto simp: higher_def rank_in_def split: option.splits if_splits)

lemma higher_exists:
  "dict_get rank a \<noteq> None \<Longrightarrow> dict_get rank b \<noteq> None \<Longrightarrow> \<exists>x. higher rank a b = Inr x"
  by (auto simp: higher_def)

lemma set_common [simp]: "set (common xs ys) = set xs \<inter> set ys"
  by (auto simp: common_def)

lemma distinct_common [simp]: "distinct (common xs ys)"
  by (simp add: common_def)

lemma length_common: "length (common xs ys) \<le> length xs"
  unfolding common_def by (simp add: le_trans [OF length_remdups_leq length_filter_le])

lemma deny_external_valid [simp]: "payload_valid deny_external"
  by (simp add: payload_valid_def deny_external_def classification_rank_def approver_rank_def)

lemma deny_external_mode [simp]: "mode deny_external = ''deny_external''"
  by (simp add: deny_external_def)

text \<open>A resolution either denies or is the common part of two payloads that both allow.\<close>

lemma resolve_cases:
  assumes "resolve_effective_payload o1 w = Inr (p, locked)"
  obtains (denied) "p = deny_external" and "locked \<longleftrightarrow> mode o1 = ''deny_external''"
      and "mode o1 = ''deny_external'' \<or> mode w = ''deny_external''"
    | (allowed) "mode o1 \<noteq> ''deny_external''" and "mode w \<noteq> ''deny_external''" and "\<not> locked"
      and "payload_valid p" and "mode p = ''allow_approved_external''"
      and "set (allowed_provider_kinds p) = set (allowed_provider_kinds o1) \<inter> set (allowed_provider_kinds w)"
      and "set (allowed_destinations p) = set (allowed_destinations o1) \<inter> set (allowed_destinations w)"
      and "max_bytes p = min (max_bytes o1) (max_bytes w)"
      and "masking_required p \<longleftrightarrow> masking_required o1 \<or> masking_required w"
      and "redaction_required p \<longleftrightarrow> redaction_required o1 \<or> redaction_required w"
      and "question_step_up_required p \<longleftrightarrow> question_step_up_required o1 \<or> question_step_up_required w"
      and "rank_in classification_rank (classification p)
        = max (rank_in classification_rank (classification o1)) (rank_in classification_rank (classification w))"
      and "rank_in approver_rank (required_approver p)
        = max (rank_in approver_rank (required_approver o1)) (rank_in approver_rank (required_approver w))"
proof (cases "mode o1 = ''deny_external'' \<or> mode w = ''deny_external''")
  case True
  then show thesis
    using assms by (intro denied) (auto simp: resolve_effective_payload_def Let_def)
next
  case False
  then obtain cls ap where "higher classification_rank (classification o1) (classification w) = Inr cls"
    and "higher approver_rank (required_approver o1) (required_approver w) = Inr ap"
    using assms by (auto simp: resolve_effective_payload_def Let_def split: sum.splits)
  then show thesis
    using False assms higher_ranks(2) [of classification_rank "classification o1" "classification w" cls]
      higher_ranks(2) [of approver_rank "required_approver o1" "required_approver w" ap]
    by (intro allowed) (auto simp: resolve_effective_payload_def Let_def payload_checked_def split: if_splits)
qed

lemma valid_mode:
  "payload_valid p \<Longrightarrow> mode p = ''deny_external'' \<or> mode p = ''allow_approved_external''"
  by (auto simp: payload_valid_def)

lemma resolve_valid:
  assumes "payload_valid o1" and "payload_valid w"
  shows "\<exists>p locked. resolve_effective_payload o1 w = Inr (p, locked) \<and> payload_valid p"
proof (cases "mode o1 = ''deny_external'' \<or> mode w = ''deny_external''")
  case True
  then show ?thesis
    by (auto simp: resolve_effective_payload_def Let_def)
next
  case False
  have ranks: "dict_get classification_rank (classification o1) \<noteq> None"
      "dict_get classification_rank (classification w) \<noteq> None"
      "dict_get approver_rank (required_approver o1) \<noteq> None"
      "dict_get approver_rank (required_approver w) \<noteq> None"
    using assms by (auto simp: payload_valid_def)
  obtain cls where cls: "higher classification_rank (classification o1) (classification w) = Inr cls"
    using higher_exists [OF ranks(1,2)] by blast
  obtain ap where ap: "higher approver_rank (required_approver o1) (required_approver w) = Inr ap"
    using higher_exists [OF ranks(3,4)] by blast
  have sizes: "length (common (allowed_provider_kinds o1) (allowed_provider_kinds w)) \<le> 32"
      "length (common (allowed_destinations o1) (allowed_destinations w)) \<le> 64"
    using assms length_common [of "allowed_provider_kinds o1" "allowed_provider_kinds w"]
      length_common [of "allowed_destinations o1" "allowed_destinations w"]
    by (auto simp: payload_valid_def)
  show ?thesis
    using False assms sizes higher_ranks(1) [OF cls] higher_ranks(1) [OF ap]
    by (auto simp: resolve_effective_payload_def Let_def cls ap payload_checked_def payload_valid_def list_all_iff)
qed

section \<open>Entity tags\<close>

lemma dec_nat_digits: "c \<in> set (dec_nat n) \<Longrightarrow> c \<noteq> CHR '':''"
proof (induction n rule: dec_nat.induct)
  case (1 n)
  have digit: "char_of (48 + m) \<noteq> CHR '':''" if "m < 10" for m :: nat
  proof
    assume "char_of (48 + m) = CHR '':''"
    then have "of_char (char_of (48 + m) :: char) = (58 :: nat)" by simp
    with that show False by simp
  qed
  from 1 show ?case
    by (subst (asm) (2) dec_nat.simps) (auto simp: digit digit [symmetric] split: if_splits)
qed

lemma dec_int_colon:
  assumes "0 \<le> v" and "0 \<le> w" and "dec_int v @ CHR '':'' # x = dec_int w @ CHR '':'' # y"
  shows "v = w"
proof -
  have front: "takeWhile (\<lambda>c. c \<noteq> CHR '':'') (dec_int u @ CHR '':'' # z) = dec_int u"
    if "0 \<le> u" for u z
    using that by (subst takeWhile_append2) (auto simp: dec_int_def dest: dec_nat_digits)
  have "dec_int v = dec_int w"
    using front [OF assms(1), of x] front [OF assms(2), of y] assms(3) by simp
  then show ?thesis
    using assms(1,2) by (simp add: dec_int_def dec_nat_inject)
qed

lemma binding_etag_version:
  assumes "binding_etag h b = binding_etag h b'" and "scope_type b = scope_type b'"
    and "0 \<le> binding_version b" and "0 \<le> binding_version b'"
  shows "binding_version b = binding_version b'"
  using assms by (auto simp: binding_etag_def intro: dec_int_colon)

section \<open>What an activation leaves behind\<close>

definition activation_key :: "egress_context \<Rightarrow> string \<Rightarrow> string \<Rightarrow> replay_key" where
  "activation_key c scope idem = (tenant_id c, actor_id c, scope, idem)"

text \<open>A refused call writes at most a denial into the audit outcomes.\<close>

definition only_denied :: "egress_state \<Rightarrow> egress_state \<Rightarrow> bool" where
  "only_denied s t \<longleftrightarrow> t = s \<or> t = record_outcome ''egress_policy.activate'' ''denied'' s"

lemma parent_guard_cases:
  assumes "parent_guard c scope p s = (r, t)"
  obtains (refused) e where "r = Inl e" and "only_denied s t"
    | (passed) "r = Inr ()" and "t = s"
  using assms
  by (cases r) (auto simp: parent_guard_def only_denied_def record_denial_def split: if_splits attempt_splits)

lemma activate_cases:
  assumes "create_and_activate h c scope p etag idem s = (r, t)"
  obtains (refused) e where "r = Inl e" and "only_denied s t"
    | (replayed) b where "r = Inr b" and "t = s" and "scope \<in> {''organization'', ''workspace''}"
      and "dict_get (replays s) (activation_key c scope idem)
        = Some (activation_fingerprint h scope p etag, b)"
    | (stored) b where "r = Inr (new_binding c scope (binding_version b + 1) p)"
      and "scope \<in> {''organization'', ''workspace''}"
      and "dict_get (replays s) (activation_key c scope idem) = None"
      and "dict_get (current_bindings s) (binding_key c scope) = Some b"
      and "binding_etag h b = etag"
      and "t = store_binding c scope (activation_key c scope idem)
        (activation_fingerprint h scope p etag) (new_binding c scope (binding_version b + 1) p) s"
proof (cases "scope \<in> {''organization'', ''workspace''}")
  case False
  with assms refused show thesis
    by (auto simp: create_and_activate_def only_denied_def)
next
  case scope: True
  obtain g s1 where g: "parent_guard c scope p s = (g, s1)" by fastforce
  show thesis
  proof (cases rule: parent_guard_cases [OF g])
    case (1 e)
    with g assms scope show thesis
      by (auto simp: create_and_activate_def intro: refused split: if_splits)
  next
    case 2
    obtain r1 s2 where ra: "repository_activate h c scope p etag idem s = (r1, s2)" by fastforce
    show thesis
    proof (cases r1)
      case (Inl e)
      then have "s2 = s"
        using ra by (auto simp: repository_activate_def Let_def split: attempt_splits option.splits if_splits)
      with Inl 2 g ra assms scope show thesis
        by (auto simp: create_and_activate_def only_denied_def record_denial_def
            intro!: refused split: egress_error.splits if_splits)
    next
      case (Inr b)
      with 2 g ra assms scope have rt: "r = Inr b" "t = s2"
        by (auto simp: create_and_activate_def split: if_splits)
      show thesis
      proof (cases "dict_get (replays s) (activation_key c scope idem)")
        case None
        with Inr ra obtain cur where "dict_get (current_bindings s) (binding_key c scope) = Some cur"
          and "binding_etag h cur = etag" and "b = new_binding c scope (binding_version cur + 1) p"
          and "s2 = store_binding c scope (activation_key c scope idem)
            (activation_fingerprint h scope p etag) b s"
          by (auto simp: repository_activate_def Let_def replay_lookup_def current_binding_def
              activation_key_def split: attempt_splits option.splits if_splits)
        with None rt scope show thesis
          by (intro stored [of cur]) simp_all
      next
        case (Some fb)
        with Inr ra rt scope show thesis
          by (intro replayed [of b])
            (auto simp: repository_activate_def Let_def replay_lookup_def activation_key_def
              split: attempt_splits option.splits if_splits prod.splits)
      qed
    qed
  qed
qed

lemma get_effective_InrD:
  assumes "get_effective h c s = Inr e"
  obtains org ws pl where "current_binding c ''organization'' s = Inr org"
    and "current_binding c ''workspace'' s = Inr ws"
    and "resolve_effective_payload (payload org) (payload ws) = Inr pl"
    and "e = build_effective h org ws pl"
proof (cases "current_binding c ''organization'' s")
  case (Inr org)
  show thesis
  proof (cases "current_binding c ''workspace'' s")
    case ws: (Inr ws)
    then show thesis
      using that [of org ws] Inr assms
      by (cases "validate_binding c org ''organization''"; cases "validate_binding c ws ''workspace''";
          cases "resolve_effective_payload (payload org) (payload ws)") (simp_all add: get_effective_def)
  qed (use Inr assms in \<open>simp add: get_effective_def\<close>)
qed (use assms in \<open>simp add: get_effective_def\<close>)

lemma current_binding_Inr:
  "current_binding c scope s = Inr b \<longleftrightarrow> dict_get (current_bindings s) (binding_key c scope) = Some b"
  by (simp add: current_binding_def split: option.splits)

section \<open>Steps and the invariant\<close>

text \<open>
  A step is an activation by any context with any arguments; its payload went through
  \<open>payload_checked\<close>. Tests seed bindings before the first step; \<open>corrupt_current\<close>, which breaks
  bindings on purpose, is no step.
\<close>

inductive egress_step ::
  "(string \<Rightarrow> string) \<Rightarrow> binding_key \<Rightarrow> egress_state \<Rightarrow> egress_state \<Rightarrow> bool" for h where
  step_activate: "payload_valid p \<Longrightarrow> create_and_activate h c scope p etag idem s = (r, t)
    \<Longrightarrow> egress_step h (binding_key c scope) s t"

fun seeds :: "(egress_context \<times> string \<times> egress_payload) list \<Rightarrow> egress_state \<Rightarrow> egress_state" where
  "seeds [] s = s"
| "seeds ((c, scope, p) # xs) s = seeds xs (snd (seed c scope p s))"

definition egress_start :: "egress_state \<Rightarrow> bool" where
  "egress_start s \<longleftrightarrow>
    (\<exists>xs. list_all (\<lambda>(c, scope, p). payload_valid p) xs \<and> s = seeds xs empty_repository)"

definition key_of :: "egress_binding \<Rightarrow> binding_key" where
  "key_of b = (bound_tenant_id b, bound_organization_id b, scope_type b, bound_workspace_id b)"

definition binding_sound :: "egress_binding \<Rightarrow> bool" where
  "binding_sound b \<longleftrightarrow> active b \<and> current b \<and> policy_state b = ''active''
    \<and> policy_version b = binding_version b \<and> 1 \<le> binding_version b \<and> payload_valid (payload b)"

definition activations :: "egress_state \<Rightarrow> int" where
  "activations s =
    int (length (filter (\<lambda>x. x = (''egress_policy.activate'', ''succeeded'')) (audit_outcomes s)))"

definition versions_above :: "egress_state \<Rightarrow> int" where
  "versions_above s = sum_list (map (\<lambda>b. binding_version b - 1) (dict_values (current_bindings s)))"

definition egress_inv :: "egress_state \<Rightarrow> bool" where
  "egress_inv s \<longleftrightarrow> dict_ok (current_bindings s)
    \<and> (\<forall>k b. dict_get (current_bindings s) k = Some b \<longrightarrow> key_of b = k \<and> binding_sound b)
    \<and> write_count s = int (length (replays s))
    \<and> write_count s = activations s
    \<and> write_count s = versions_above s"

lemma new_binding_simps [simp]:
  "key_of (new_binding c scope v p) = binding_key c scope"
  "binding_version (new_binding c scope v p) = v"
  "payload (new_binding c scope v p) = p"
  "scope_type (new_binding c scope v p) = scope"
  "bound_workspace_id (new_binding c scope v p) = scope_workspace c scope"
  "binding_sound (new_binding c scope v p) \<longleftrightarrow> 1 \<le> v \<and> payload_valid p"
  by (simp_all add: new_binding_def key_of_def binding_key_def binding_sound_def)

lemma store_binding_simps [simp]:
  "current_bindings (store_binding c scope k f b s) = dict_set (binding_key c scope) b (current_bindings s)"
  "replays (store_binding c scope k f b s) = dict_set k (f, b) (replays s)"
  "write_count (store_binding c scope k f b s) = write_count s + 1"
  "audit_outcomes (store_binding c scope k f b s)
    = audit_outcomes s @ [(''egress_policy.activate'', ''succeeded'')]"
  by (simp_all add: store_binding_def put_binding_def record_outcome_def Let_def)

lemma record_outcome_simps [simp]:
  "current_bindings (record_outcome a x s) = current_bindings s"
  "replays (record_outcome a x s) = replays s"
  "write_count (record_outcome a x s) = write_count s"
  "audit_outcomes (record_outcome a x s) = audit_outcomes s @ [(a, x)]"
  by (simp_all add: record_outcome_def)

lemma only_denied_frame:
  assumes "only_denied s t"
  shows "current_bindings t = current_bindings s" and "replays t = replays s"
    and "write_count t = write_count s" and "activations t = activations s"
    and "versions_above t = versions_above s"
  using assms by (auto simp: only_denied_def activations_def versions_above_def)

lemma egress_inv_denied: "egress_inv s \<Longrightarrow> only_denied s t \<Longrightarrow> egress_inv t"
  by (simp add: egress_inv_def only_denied_frame)

lemma egress_invD:
  assumes "egress_inv s" and "dict_get (current_bindings s) k = Some b"
  shows "key_of b = k" and "binding_sound b"
  using assms unfolding egress_inv_def by blast+

lemma sum_dict_set:
  fixes f :: "'v \<Rightarrow> int"
  assumes "dict_get d k = Some v"
  shows "sum_list (map f (dict_values (dict_set k v' d))) = sum_list (map f (dict_values d)) - f v + f v'"
  using assms by (induction d) (auto split: if_splits)

lemma length_dict_set_new: "dict_get d k = None \<Longrightarrow> length (dict_set k v d) = Suc (length d)"
  by (induction d) (auto split: if_splits)

lemma egress_inv_stored:
  assumes inv: "egress_inv s" and p: "payload_valid p"
    and b: "dict_get (current_bindings s) (binding_key c scope) = Some b"
    and k: "dict_get (replays s) k = None"
  shows "egress_inv (store_binding c scope k f (new_binding c scope (binding_version b + 1) p) s)"
proof -
  have "1 \<le> binding_version b"
    using egress_invD(2) [OF inv b] by (simp add: binding_sound_def)
  then show ?thesis
    using inv p sum_dict_set [OF b, of "\<lambda>b. binding_version b - 1" "new_binding c scope (binding_version b + 1) p"]
    by (simp add: egress_inv_def length_dict_set_new [OF k] activations_def versions_above_def
        split: if_splits)
qed

lemma egress_inv_step:
  assumes "egress_step h i s t" and "egress_inv s"
  shows "egress_inv t"
  using assms
proof (induction rule: egress_step.induct)
  case (step_activate p c scope etag idem s r t)
  from step_activate(2) show ?case
  proof (cases rule: activate_cases)
    case (stored b)
    then show ?thesis
      using egress_inv_stored step_activate by simp
  qed (use step_activate egress_inv_denied in auto)
qed

lemma egress_inv_seed: "payload_valid p \<Longrightarrow> egress_inv s \<Longrightarrow> write_count s = 0
    \<Longrightarrow> list_all (\<lambda>b. binding_version b = 1) (dict_values (current_bindings s))
    \<Longrightarrow> egress_inv (snd (seed c scope p s)) \<and> write_count (snd (seed c scope p s)) = 0
      \<and> list_all (\<lambda>b. binding_version b = 1) (dict_values (current_bindings (snd (seed c scope p s))))"
proof -
  assume *: "payload_valid p" "egress_inv s" "write_count s = 0"
    "list_all (\<lambda>b. binding_version b = 1) (dict_values (current_bindings s))"
  let ?d = "dict_set (binding_key c scope) (new_binding c scope 1 p) (current_bindings s)"
  have ones: "list_all (\<lambda>b. binding_version b = 1) (dict_values ?d)"
    using * by (auto simp: list_all_iff egress_inv_def dict_set_mem split: if_splits)
  have "list_all (\<lambda>b. binding_version b = 1) xs \<Longrightarrow> sum_list (map (\<lambda>b. binding_version b - 1) xs) = 0" for xs
    by (induction xs) auto
  with ones have "sum_list (map (\<lambda>b. binding_version b - 1) (dict_values ?d)) = 0"
    by blast
  with * ones show ?thesis
    by (simp add: egress_inv_def seed_def put_binding_def Let_def activations_def versions_above_def)
qed

lemma egress_inv_seeds:
  assumes "list_all (\<lambda>(c, scope, p). payload_valid p) xs" and "egress_inv s" and "write_count s = 0"
    and "list_all (\<lambda>b. binding_version b = 1) (dict_values (current_bindings s))"
  shows "egress_inv (seeds xs s)"
  using assms
proof (induction xs s rule: seeds.induct)
  case (2 c scope p xs s)
  then show ?case
    using egress_inv_seed [of p s c scope] by simp
qed simp

lemma egress_inv_start: "egress_start s \<Longrightarrow> egress_inv s"
proof -
  have "egress_inv empty_repository"
    by (simp add: egress_inv_def empty_repository_def activations_def versions_above_def)
  then show "egress_start s \<Longrightarrow> egress_inv s"
    by (auto simp: egress_start_def empty_repository_def intro: egress_inv_seeds)
qed

section \<open>The contracts\<close>

lemma activate_binding:
  assumes "egress_step h i s t" and "egress_inv s" and "dict_get (current_bindings s) k = Some b"
  shows "dict_get (current_bindings t) k = Some b \<or> (i = k \<and>
    (\<exists>b'. dict_get (current_bindings t) k = Some b' \<and> key_of b' = k
      \<and> binding_version b' = binding_version b + 1))"
  using assms
proof (induction rule: egress_step.induct)
  case (step_activate p c scope etag idem s r t)
  from step_activate(2) show ?case
  proof (cases rule: activate_cases)
    case (stored b')
    then show ?thesis
      using step_activate(3,4) by auto
  qed (use step_activate in \<open>auto simp: only_denied_frame\<close>)
qed

interpretation egress: versioned_service egress_start "egress_step h" egress_inv
  "\<lambda>s. dict_get (current_bindings s)" key_of binding_version for h
proof unfold_locales
  fix s t i k x y
  show "egress_start s \<Longrightarrow> egress_inv s"
    by (rule egress_inv_start)
  assume inv: "egress_inv s" and step: "egress_step h i s t"
  show "egress_inv t"
    by (rule egress_inv_step [OF step inv])
  assume x: "dict_get (current_bindings s) k = Some x"
  note cases = activate_binding [OF step inv x] egress_invD(1) [OF inv x]
  show "key_of x \<noteq> i \<Longrightarrow> dict_get (current_bindings t) k = Some x"
    using cases by auto
  show "\<exists>y. dict_get (current_bindings t) k = Some y \<and> key_of y = key_of x"
    using cases by auto
  show "dict_get (current_bindings t) k = Some y \<Longrightarrow> binding_version x \<le> binding_version y"
    using cases by auto
qed

interpretation egress_ledger: replay_ledger replay_lookup "\<lambda>l k f b. dict_set k (f, b) l"
  "EgressPolicyError ''IDEMPOTENCY_KEY_REUSED'' 409"
  by unfold_locales (simp_all add: replay_lookup_def)

lemma runs_egress_ledger:
  assumes "runs (egress_step h) s cs t" and "dict_get (replays s) k = Some v"
  shows "dict_get (replays t) k = Some v"
  using assms
proof (induction rule: runs.induct)
  case (runs_more c s t cs u)
  from runs_more(1) have "dict_get (replays t) k = Some v"
  proof (cases rule: egress_step.cases)
    case (step_activate p c scope etag idem r)
    from step_activate(3) show ?thesis
      by (cases rule: activate_cases) (use runs_more(4) in \<open>auto simp: only_denied_frame\<close>)
  qed
  with runs_more show ?case by blast
qed

end
