(* ===== verification/Egress_Properties.thy ===== *)
theory Egress_Properties
  imports Egress_Invariant
begin

text \<open>
  The properties of the egress policies: what the effective policy of two payloads lets out, what a
  question needs, what a run of activations leaves, and how routing picks a deployment. The
  scenario of the witnesses has one organization with two workspaces and a digest that is constant,
  so that no property hides behind distinct digests.
\<close>

section \<open>The scenario\<close>

definition demo_digest :: "string \<Rightarrow> string" where
  "demo_digest s = ''d''"

definition demo_context :: "string \<Rightarrow> egress_context" where
  "demo_context w = \<lparr>tenant_id = ''t1'', organization_id = ''t1'', workspace_id = w, actor_id = ''u1'',
     trace_id = ''x1'', authorization_policy_version = ''v1''\<rparr>"

definition demo_open :: egress_payload where
  "demo_open = \<lparr>mode = ''allow_approved_external'', allowed_provider_kinds = [''external_api''],
     allowed_destinations = [''api.example.com'', ''b.example.com''], classification = ''internal'',
     max_bytes = 1000, masking_required = True, redaction_required = True,
     required_approver = ''workspace_manager'', question_step_up_required = False\<rparr>"

definition demo_narrow :: egress_payload where
  "demo_narrow = demo_open\<lparr>allowed_destinations := [''api.example.com''], max_bytes := 500,
     required_approver := ''organization_admin''\<rparr>"

definition demo_state :: egress_state where
  "demo_state = seeds [(demo_context ''w1'', ''organization'', demo_open),
     (demo_context ''w1'', ''workspace'', demo_narrow), (demo_context ''w2'', ''workspace'', demo_narrow)]
     empty_repository"

lemma demo_payloads_valid [simp]: "payload_valid demo_open" "payload_valid demo_narrow"
  by code_simp+

lemma egress_demo_start: "egress_start demo_state"
  unfolding egress_start_def demo_state_def
  by (intro exI [of _ "[(demo_context ''w1'', ''organization'', demo_open),
     (demo_context ''w1'', ''workspace'', demo_narrow), (demo_context ''w2'', ''workspace'', demo_narrow)]"])
    simp

lemma egress_demo_reach: "reachable egress_start (egress_step demo_digest) demo_state"
  by (rule reachable_start [where start = egress_start, OF egress_demo_start])

lemma demo_digest_simps [simp]:
  "payload_digest demo_digest p = ''d''" "activation_fingerprint demo_digest scope p e = ''d''"
  by (simp_all add: payload_digest_def activation_fingerprint_def demo_digest_def)

lemma demo_context_simps [simp]:
  "tenant_id (demo_context w) = ''t1''" "organization_id (demo_context w) = ''t1''"
  "workspace_id (demo_context w) = w" "actor_id (demo_context w) = ''u1''"
  by (simp_all add: demo_context_def)

lemma demo_key [simp]:
  "binding_key (demo_context w) ''organization'' = (''t1'', ''t1'', ''organization'', None)"
  "binding_key (demo_context w) ''workspace'' = (''t1'', ''t1'', ''workspace'', Some w)"
  by (simp_all add: binding_key_def scope_workspace_def)

lemma demo_bindings [simp]:
  "dict_get (current_bindings demo_state) (''t1'', ''t1'', ''organization'', None)
    = Some (new_binding (demo_context ''w1'') ''organization'' 1 demo_open)"
  "dict_get (current_bindings demo_state) (''t1'', ''t1'', ''workspace'', Some ''w1'')
    = Some (new_binding (demo_context ''w1'') ''workspace'' 1 demo_narrow)"
  "dict_get (current_bindings demo_state) (''t1'', ''t1'', ''workspace'', Some ''w2'')
    = Some (new_binding (demo_context ''w2'') ''workspace'' 1 demo_narrow)"
  "replays demo_state = []"
  by (simp_all add: demo_state_def seed_def put_binding_def empty_repository_def Let_def)

text \<open>The tag of every seeded binding, since the digest is constant.\<close>

definition demo_etag :: "string \<Rightarrow> string" where
  "demo_etag scope = CHR 0x22 # ''egress-policy:'' @ scope @ '':1:d'' @ [CHR 0x22]"

lemma demo_etag_first [simp]: "binding_etag demo_digest (new_binding c scope 1 p) = demo_etag scope"
proof -
  have "dec_int 1 = ''1''" by code_simp
  then show ?thesis by (simp add: binding_etag_def demo_etag_def)
qed

definition demo_active :: egress_state where
  "demo_active = store_binding (demo_context ''w1'') ''workspace''
     (activation_key (demo_context ''w1'') ''workspace'' ''k1'') ''d''
     (new_binding (demo_context ''w1'') ''workspace'' 2 deny_external) demo_state"

lemma demo_activation:
  "create_and_activate demo_digest (demo_context ''w1'') ''workspace'' deny_external
      (demo_etag ''workspace'') ''k1'' demo_state
    = (Inr (new_binding (demo_context ''w1'') ''workspace'' 2 deny_external), demo_active)"
  by (simp add: create_and_activate_def parent_guard_def repository_activate_def replay_lookup_def
      current_binding_def demo_active_def activation_key_def Let_def)

lemma demo_active_reach: "reachable egress_start (egress_step demo_digest) demo_active"
  by (rule reachable_step [rotated], rule step_activate [OF deny_external_valid demo_activation],
      rule egress_demo_reach)

definition demo_effective :: egress_payload where
  "demo_effective = demo_narrow"

lemma demo_resolved: "resolve_effective_payload demo_open demo_narrow = Inr (demo_effective, False)"
  by code_simp

section \<open>The effective policy\<close>

text \<open>C8: the effective policy of two valid payloads always exists, is itself valid and lets out exactly
  what both let out, for every provider kind, destination and size. It demands masking, redaction
  and step-up as soon as one of them does and takes the higher classification and approver; where
  it does not allow, it is the denying policy, and it is locked exactly when the organization
  denies.\<close>

theorem effective_permits_iff_both:
  assumes "payload_valid organization" and "payload_valid workspace"
  shows "\<exists>p locked. resolve_effective_payload organization workspace = Inr (p, locked) \<and> payload_valid p
    \<and> (locked \<longleftrightarrow> mode organization = ''deny_external'')
    \<and> (\<forall>kind d n. permits p kind d n \<longleftrightarrow> permits organization kind d n \<and> permits workspace kind d n)
    \<and> (if mode p = ''allow_approved_external''
       then (masking_required p \<longleftrightarrow> masking_required organization \<or> masking_required workspace)
         \<and> (redaction_required p \<longleftrightarrow> redaction_required organization \<or> redaction_required workspace)
         \<and> (question_step_up_required p
              \<longleftrightarrow> question_step_up_required organization \<or> question_step_up_required workspace)
         \<and> rank_in classification_rank (classification p)
              = max (rank_in classification_rank (classification organization))
                  (rank_in classification_rank (classification workspace))
         \<and> rank_in approver_rank (required_approver p)
              = max (rank_in approver_rank (required_approver organization))
                  (rank_in approver_rank (required_approver workspace))
       else p = deny_external)"
proof -
  obtain p locked where p: "resolve_effective_payload organization workspace = Inr (p, locked)"
    and valid: "payload_valid p"
    using resolve_valid [OF assms] by blast
  from p show ?thesis
  proof (cases rule: resolve_cases)
    case denied
    then show ?thesis
      using p valid by (auto simp: permits_def)
  next
    case allowed
    then show ?thesis
      using p valid_mode [OF assms(1)] valid_mode [OF assms(2)] by (auto simp: permits_def)
  qed
qed

theorem effective_permits_iff_both_witness:
  "\<exists>p. resolve_effective_payload demo_open demo_narrow = Inr (p, False) \<and> payload_valid p
    \<and> permits p ''external_api'' ''api.example.com'' 500 \<and> \<not> permits p ''external_api'' ''b.example.com'' 10"
proof -
  have "permits demo_open ''external_api'' ''api.example.com'' 500"
      "permits demo_narrow ''external_api'' ''api.example.com'' 500"
      "\<not> permits demo_narrow ''external_api'' ''b.example.com'' 10"
      "mode demo_open \<noteq> ''deny_external''"
    by code_simp+
  moreover obtain p locked where "resolve_effective_payload demo_open demo_narrow = Inr (p, locked)"
    and "payload_valid p" and "locked \<longleftrightarrow> mode demo_open = ''deny_external''"
    and "\<forall>k d n. permits p k d n \<longleftrightarrow> permits demo_open k d n \<and> permits demo_narrow k d n"
    using effective_permits_iff_both [OF demo_payloads_valid] by blast
  ultimately show ?thesis
    by (intro exI [of _ p]) simp
qed

text \<open>C11: a question matches the effective policy of a reachable repository only if the current, active
  policies of the organization and of the workspace of the caller both let out its provider kind,
  its destination up to letter case and its size, and ask for no higher classification and no
  masking or redaction beyond that of the question.\<close>

theorem question_needs_both_policies:
  assumes "reachable egress_start (egress_step h) s" and "get_effective h c s = Inr e"
    and "external_question_policy_matches (effective_payload e) kind destination n cls masked redacted"
  shows "\<exists>org ws d. dict_get (current_bindings s) (binding_key c ''organization'') = Some org
    \<and> dict_get (current_bindings s) (binding_key c ''workspace'') = Some ws
    \<and> binding_sound org \<and> binding_sound ws \<and> bound_workspace_id ws = Some (workspace_id c)
    \<and> casefold d = casefold destination \<and> permits (payload org) kind d n \<and> permits (payload ws) kind d n
    \<and> rank_in classification_rank (classification (payload org)) \<le> rank_in classification_rank cls
    \<and> rank_in classification_rank (classification (payload ws)) \<le> rank_in classification_rank cls
    \<and> (masked \<or> \<not> masking_required (payload org) \<and> \<not> masking_required (payload ws))
    \<and> (redacted \<or> \<not> redaction_required (payload org) \<and> \<not> redaction_required (payload ws))"
proof -
  obtain org ws pl where org: "dict_get (current_bindings s) (binding_key c ''organization'') = Some org"
    and ws: "dict_get (current_bindings s) (binding_key c ''workspace'') = Some ws"
    and pl: "resolve_effective_payload (payload org) (payload ws) = Inr pl"
    and e: "effective_payload e = fst pl"
    by (rule get_effective_InrD [OF assms(2)]) (simp add: current_binding_Inr build_effective_def Let_def)
  note inv = egress.reachable_inv [OF assms(1)]
  have sound: "binding_sound org" "binding_sound ws" "key_of ws = binding_key c ''workspace''"
    using egress_invD [OF inv org] egress_invD [OF inv ws] by simp_all
  then have modes: "mode (payload org) = ''deny_external'' \<or> mode (payload org) = ''allow_approved_external''"
      "mode (payload ws) = ''deny_external'' \<or> mode (payload ws) = ''allow_approved_external''"
    by (simp_all add: binding_sound_def valid_mode)
  have match: "mode (fst pl) = ''allow_approved_external''" "kind \<in> set (allowed_provider_kinds (fst pl))"
      "0 \<le> n" "n \<le> max_bytes (fst pl)" "classification (fst pl) = cls"
      "masking_required (fst pl) = masked" "redaction_required (fst pl) = redacted"
    using assms(3) e by (simp_all add: external_question_policy_matches_def)
  obtain d where d: "d \<in> set (allowed_destinations (fst pl))" "casefold d = casefold destination"
    using assms(3) e by (auto simp: external_question_policy_matches_def)
  have "resolve_effective_payload (payload org) (payload ws) = Inr (fst pl, snd pl)"
    using pl by simp
  then show ?thesis
  proof (cases rule: resolve_cases)
    case denied
    with match show ?thesis by simp
  next
    case allowed
    have bound: "bound_workspace_id ws = Some (workspace_id c)"
      using sound(3) by (simp add: key_of_def binding_key_def scope_workspace_def)
    have "permits (payload org) kind d n" and "permits (payload ws) kind d n"
      using allowed(1,2,6-8) modes match(2-4) d(1) by (simp_all add: permits_def)
    moreover have "rank_in classification_rank (classification (payload org)) \<le> rank_in classification_rank cls"
        "rank_in classification_rank (classification (payload ws)) \<le> rank_in classification_rank cls"
      using allowed(12) match(5) by simp_all
    moreover have "masked \<or> \<not> masking_required (payload org) \<and> \<not> masking_required (payload ws)"
        "redacted \<or> \<not> redaction_required (payload org) \<and> \<not> redaction_required (payload ws)"
      using allowed(9,10) match(6,7) by blast+
    ultimately show ?thesis
      using org ws sound(1,2) bound d(2) by blast
  qed
qed

theorem question_needs_both_policies_witness:
  "\<exists>org ws d. dict_get (current_bindings demo_state) (binding_key (demo_context ''w1'') ''organization'') = Some org
    \<and> dict_get (current_bindings demo_state) (binding_key (demo_context ''w1'') ''workspace'') = Some ws
    \<and> casefold d = casefold ''API.example.com''
    \<and> permits (payload org) ''external_api'' d 400 \<and> permits (payload ws) ''external_api'' d 400"
proof -
  have "\<exists>e. get_effective demo_digest (demo_context ''w1'') demo_state = Inr e
    \<and> external_question_policy_matches (effective_payload e) ''external_api'' ''API.example.com'' 400
        ''internal'' True True"
    by (simp add: get_effective_def current_binding_def validate_binding_def new_binding_def scope_workspace_def
        demo_resolved build_effective_def Let_def) code_simp
  then show ?thesis
    using question_needs_both_policies [OF egress_demo_reach] by meson
qed

text \<open>While the policy of the organization denies, in every reachable repository an attempt to
  open a workspace is refused with EGRESS_POLICY_DENIED, whatever its tag and idempotency key,
  repetitions of earlier accepted calls included; it writes only the denial into the audit
  outcomes. Whatever the workspace says, an effective policy is then locked and no question
  matches it.\<close>

theorem locked_parent_denies:
  assumes "reachable egress_start (egress_step h) s"
    and "dict_get (current_bindings s) (binding_key c ''organization'') = Some org"
    and "mode (payload org) = ''deny_external''" and "mode p = ''allow_approved_external''"
  shows "create_and_activate h c ''workspace'' p etag idem s
      = (Inl (EgressPolicyError ''EGRESS_POLICY_DENIED'' 403),
         record_outcome ''egress_policy.activate'' ''denied'' s)
    \<and> (case get_effective h c s of Inl _ \<Rightarrow> True
       | Inr e \<Rightarrow> parent_locked e \<and> (\<forall>kind d n cls m r.
           \<not> external_question_policy_matches (effective_payload e) kind d n cls m r))"
proof -
  note inv = egress.reachable_inv [OF assms(1)]
  have "validate_binding c org ''organization'' = Inr ()"
    using egress_invD [OF inv assms(2)]
    by (simp add: validate_binding_def binding_sound_def key_of_def binding_key_def)
  moreover have "current_binding c ''organization'' s = Inr org"
    using assms(2) by (simp add: current_binding_def)
  ultimately show ?thesis
    using assms(3,4)
    by (auto simp: create_and_activate_def parent_guard_def record_denial_def get_effective_def
        resolve_effective_payload_def build_effective_def external_question_policy_matches_def Let_def
        split: sum.split attempt_splits)
qed

definition demo_denied :: egress_state where
  "demo_denied = seeds [(demo_context ''w1'', ''organization'', deny_external)] empty_repository"

theorem locked_parent_denies_witness:
  "create_and_activate demo_digest (demo_context ''w1'') ''workspace'' demo_open ''e'' ''k1'' demo_denied
    = (Inl (EgressPolicyError ''EGRESS_POLICY_DENIED'' 403),
       record_outcome ''egress_policy.activate'' ''denied'' demo_denied)"
proof -
  have "egress_start demo_denied"
    unfolding egress_start_def demo_denied_def
    by (intro exI [of _ "[(demo_context ''w1'', ''organization'', deny_external)]"]) simp
  then have "reachable egress_start (egress_step demo_digest) demo_denied"
    by (rule reachable_start [where start = egress_start])
  moreover have "dict_get (current_bindings demo_denied) (binding_key (demo_context ''w1'') ''organization'')
      = Some (new_binding (demo_context ''w1'') ''organization'' 1 deny_external)"
    by (simp add: demo_denied_def seed_def put_binding_def empty_repository_def Let_def)
  moreover have "mode demo_open = ''allow_approved_external''"
    by (simp add: demo_open_def)
  ultimately show ?thesis
    using locked_parent_denies [of demo_digest demo_denied] by simp
qed

section \<open>Runs of activations\<close>

text \<open>In every reachable repository each stored binding lies under the key of its own tenant,
  organization, scope and workspace, is active and current with a valid payload and a policy
  version equal to its binding version; and the writes are accounted for: the number of writes is
  the number of idempotency entries, the number of activations in the audit outcomes, and the
  number of versions that all bindings together are above their first.\<close>

theorem bindings_sound_and_counted:
  assumes "reachable egress_start (egress_step h) s"
    and "dict_get (current_bindings s) k = Some b"
  shows "key_of b = k \<and> active b \<and> current b \<and> policy_state b = ''active'' \<and> payload_valid (payload b)
    \<and> policy_version b = binding_version b \<and> 1 \<le> binding_version b
    \<and> write_count s = int (length (replays s)) \<and> write_count s = activations s
    \<and> write_count s = versions_above s"
  using egress.reachable_inv [OF assms(1)] egress_invD [OF egress.reachable_inv [OF assms(1)] assms(2)]
  by (simp add: egress_inv_def binding_sound_def)

theorem bindings_sound_and_counted_witness:
  "\<exists>b. dict_get (current_bindings demo_active) (''t1'', ''t1'', ''workspace'', Some ''w1'') = Some b
    \<and> active b \<and> binding_version b = 2 \<and> write_count demo_active = 1 \<and> versions_above demo_active = 1"
proof -
  have b: "dict_get (current_bindings demo_active) (''t1'', ''t1'', ''workspace'', Some ''w1'')
      = Some (new_binding (demo_context ''w1'') ''workspace'' 2 deny_external)"
    and k: "length (replays demo_active) = 1"
    by (simp_all add: demo_active_def)
  show ?thesis
    using bindings_sound_and_counted [OF demo_active_reach b] b k by simp
qed

text \<open>C37: after an activation that was not a repetition was accepted for a tag, no later call with a fresh
  idempotency key for the same organization or workspace is accepted for that tag, whatever ran in
  between: it fails and leaves bindings and ledger as they are. Of two concurrent edits of the same
  policy at most one succeeds.\<close>

theorem stale_activation_refused:
  assumes "reachable egress_start (egress_step h) s" and "payload_valid p"
    and "create_and_activate h c scope p etag idem s = (Inr b, s1)"
    and "dict_get (replays s) (activation_key c scope idem) = None"
    and "runs (egress_step h) s1 cs t" and "binding_key c' scope' = binding_key c scope"
    and "dict_get (replays t) (activation_key c' scope' idem') = None"
    and "create_and_activate h c' scope' p' etag idem' t = (r, u)"
  shows "(\<exists>err. r = Inl err) \<and> current_bindings u = current_bindings t \<and> replays u = replays t"
proof -
  note inv = egress.reachable_inv [OF assms(1)]
  from assms(3) obtain b0 where b0: "dict_get (current_bindings s) (binding_key c scope) = Some b0"
    and tag0: "binding_etag h b0 = etag"
    and s1: "dict_get (current_bindings s1) (binding_key c scope)
      = Some (new_binding c scope (binding_version b0 + 1) p)"
    by (cases rule: activate_cases) (use assms(4) in auto)
  have step: "egress_step h (binding_key c scope) s s1"
    using assms(2,3) by (rule step_activate)
  have inv1: "egress_inv s1" and invt: "egress_inv t"
    using egress_inv_step [OF step inv] egress.runs_inv [OF assms(5)] by auto
  from assms(8) show ?thesis
  proof (cases rule: activate_cases)
    case (stored b1)
    then have b1: "dict_get (current_bindings t) (binding_key c scope) = Some b1"
      using assms(6) by simp
    have "binding_version b0 + 1 \<le> binding_version b1"
      using egress.runs_version_mono [OF assms(5) inv1 s1 b1] by simp
    moreover have "binding_version b0 = binding_version b1"
      using egress_invD [OF inv b0] egress_invD [OF invt b1] stored(5) tag0
      by (intro binding_etag_version [of h]) (auto simp: binding_sound_def key_of_def binding_key_def)
    ultimately show ?thesis by simp
  qed (use assms(7) in \<open>auto simp: only_denied_frame\<close>)
qed

theorem stale_activation_refused_witness:
  "\<exists>err u. create_and_activate demo_digest (demo_context ''w1'') ''workspace'' demo_open
      (demo_etag ''workspace'') ''k2'' demo_active = (Inl err, u)
    \<and> current_bindings u = current_bindings demo_active"
proof -
  obtain r u where ru: "create_and_activate demo_digest (demo_context ''w1'') ''workspace'' demo_open
      (demo_etag ''workspace'') ''k2'' demo_active = (r, u)" by fastforce
  have fresh: "dict_get (replays demo_state) (activation_key (demo_context ''w1'') ''workspace'' ''k1'') = None"
      "dict_get (replays demo_active) (activation_key (demo_context ''w1'') ''workspace'' ''k2'') = None"
    by (simp_all add: demo_active_def activation_key_def)
  have "(\<exists>err. r = Inl err) \<and> current_bindings u = current_bindings demo_active
      \<and> replays u = replays demo_active"
    by (rule stale_activation_refused [OF egress_demo_reach deny_external_valid demo_activation
          fresh(1) runs_none refl fresh(2) ru])
  with ru show ?thesis by auto
qed

text \<open>A repetition is recognised by tenant, actor, scope and idempotency key alone: after a workspace
  was set to deny, the same call for another workspace of the tenant, at any later time, reports
  success with the binding of the first workspace and changes nothing, so that the policy of the
  other workspace stays what it was. For the same workspace this makes the call idempotent.\<close>

theorem denial_replayed_for_other_workspaces:
  assumes "create_and_activate h c ''workspace'' p etag idem s = (Inr b, s1)"
    and "dict_get (replays s) (activation_key c ''workspace'' idem) = None"
    and "mode p = ''deny_external''" and "runs (egress_step h) s1 cs t"
    and "tenant_id c' = tenant_id c" and "actor_id c' = actor_id c"
  shows "create_and_activate h c' ''workspace'' p etag idem t = (Inr b, t)
    \<and> bound_workspace_id b = Some (workspace_id c)"
proof -
  from assms(1) have "dict_get (replays s1) (activation_key c ''workspace'' idem)
      = Some (activation_fingerprint h ''workspace'' p etag, b)"
    and b: "bound_workspace_id b = Some (workspace_id c)"
    by (cases rule: activate_cases; use assms(2) in \<open>simp add: scope_workspace_def\<close>)+
  then have "dict_get (replays t) (activation_key c' ''workspace'' idem)
      = Some (activation_fingerprint h ''workspace'' p etag, b)"
    using runs_egress_ledger [OF assms(4)] assms(5,6) by (simp add: activation_key_def)
  then show ?thesis
    using b assms(3)
    by (simp add: create_and_activate_def parent_guard_def repository_activate_def replay_lookup_def
        activation_key_def Let_def)
qed

theorem denial_replayed_for_other_workspaces_witness:
  "create_and_activate demo_digest (demo_context ''w2'') ''workspace'' deny_external
      (demo_etag ''workspace'') ''k1'' demo_active
    = (Inr (new_binding (demo_context ''w1'') ''workspace'' 2 deny_external), demo_active)
  \<and> dict_get (current_bindings demo_active) (binding_key (demo_context ''w2'') ''workspace'')
    = Some (new_binding (demo_context ''w2'') ''workspace'' 1 demo_narrow)"
proof -
  have fresh: "dict_get (replays demo_state) (activation_key (demo_context ''w1'') ''workspace'' ''k1'') = None"
    by simp
  show ?thesis
    using denial_replayed_for_other_workspaces [OF demo_activation fresh deny_external_mode runs_none,
        of "demo_context ''w2''"]
    by (simp add: demo_active_def)
qed

section \<open>Routing\<close>

definition eligible :: "routing_context \<Rightarrow> candidate_deployment \<Rightarrow> bool" where
  "eligible c x \<longleftrightarrow> role x = required_role c \<and> candidate_realm x = data_realm c \<and> health x = ''ready''
    \<and> (provider_kind x = ''external_api'' \<longrightarrow> external_egress_allowed c)"

text \<open>Refused for egress: private data, or a candidate that would be eligible otherwise.\<close>

definition egress_refused :: "routing_context \<Rightarrow> candidate_deployment \<Rightarrow> bool" where
  "egress_refused c x \<longleftrightarrow> provider_kind x = ''external_api'' \<and> \<not> external_egress_allowed c
    \<and> (data_realm c = ''local_private''
       \<or> role x = required_role c \<and> candidate_realm x = data_realm c \<and> health x = ''ready'')"

lemma sift_candidates_eq:
  "sift_candidates c xs denied allowed
    = (denied \<or> list_ex (egress_refused c) xs, allowed @ filter (eligible c) xs)"
  by (induction xs arbitrary: denied allowed) (auto simp: eligible_def egress_refused_def)

lemma find_filter: "find P xs = (case filter P xs of [] \<Rightarrow> None | x # _ \<Rightarrow> Some x)"
  by (induction xs) auto

text \<open>Routing selects the first candidate it considers (the first of all when pinned) that has the
  required role, realm and health and, if external, may receive data; it reports the decision
  allowed only then. Without one it is blocked when some candidate was refused for egress and fails
  otherwise; and it is blocked before anything else when the estimated cost exceeds the limit.\<close>

theorem routing_selects_first_eligible:
  "let considered = (if route_mode c = ''pinned'' then take 1 xs else xs); res = route_single_model c xs in
    (if estimated_cost c > cost_limit c
     then route_status res = ''policy_blocked'' \<and> route_code res = Some ''COST_LIMIT_EXCEEDED''
       \<and> route_deployment_id res = None \<and> \<not> decision_allowed (egress res)
     else case find (eligible c) considered of
         Some x \<Rightarrow> route_status res = ''selected'' \<and> route_code res = None
           \<and> route_deployment_id res = Some (deployment_id x)
           \<and> route_artifact_digest res = Some (artifact_digest x) \<and> decision_allowed (egress res)
       | None \<Rightarrow> route_deployment_id res = None \<and> \<not> decision_allowed (egress res)
           \<and> (if list_ex (egress_refused c) considered
              then route_status res = ''policy_blocked'' \<and> route_code res = Some ''EXTERNAL_EGRESS_DENIED''
              else route_status res = ''failed'' \<and> route_code res = Some ''NO_AVAILABLE_DEPLOYMENT''))"
proof (cases "estimated_cost c > cost_limit c")
  case True
  then show ?thesis
    by (simp add: route_single_model_def route_blocked_def route_refused_def)
next
  case False
  define ys where "ys = (if route_mode c = ''pinned'' then take 1 xs else xs)"
  have "route_single_model c xs = (case filter (eligible c) ys of
        [] \<Rightarrow> if list_ex (egress_refused c) ys
          then route_blocked c ''EXTERNAL_EGRESS_DENIED'' ''external egress is not allowed''
          else route_refused c ''failed'' ''NO_AVAILABLE_DEPLOYMENT''
            ''no ready candidate matched the frozen context''
      | x # _ \<Rightarrow> selected_result c x)"
    using False unfolding route_single_model_def ys_def [symmetric]
    by (simp only: Let_def sift_candidates_eq case_prod_conv simp_thms append_Nil if_False
        selected_result_def)
  then show ?thesis
    using False unfolding Let_def ys_def [symmetric] find_filter
    by (cases "filter (eligible c) ys") (simp_all add: route_blocked_def route_refused_def selected_result_def)
qed

end
