(* ===== verification/License.thy ===== *)
theory License
  imports Contracts Json
begin

text \<open>
  Model of \<open>services/api/src/daon_user_api/license.py\<close>: signed licence documents, their RS256
  verification, the verified licences of each tenant in the in-memory repository, the projection
  shown to clients and the guards that creations consult. Documents are JSON values without
  fractions; a Boolean equals its number in Python, so that \<open>true\<close> passes a test for 1. Moduli,
  exponents and signatures are natural numbers. The advice in Korean that accompanies a warning and
  the ellipsis before the licence hint have no counterpart: the model shows the warning's code and
  the last characters.
\<close>

section \<open>Syntax of codes and contexts\<close>

datatype license_error = LicenseError (license_code: string) (license_status: int)

abbreviation license_error :: "string \<Rightarrow> license_error" where
  "license_error c \<equiv> LicenseError c 400"

definition lower :: "char \<Rightarrow> bool" where
  "lower c \<longleftrightarrow> CHR ''a'' \<le> c \<and> c \<le> CHR ''z''"

text \<open>\<open>[a-z][a-z0-9_]{0,63}\<close>.\<close>

definition safe_code :: "string \<Rightarrow> bool" where
  "safe_code s = (case s of [] \<Rightarrow> False
     | c # cs \<Rightarrow> lower c \<and> length cs \<le> 63
         \<and> list_all (\<lambda>x. lower x \<or> (CHR ''0'' \<le> x \<and> x \<le> CHR ''9'') \<or> x = CHR ''_'') cs)"

definition resource_codes :: "string list" where
  "resource_codes = [''users'', ''notebooks'']"

definition default_resource_limits :: "(string, int) dict" where
  "default_resource_limits = [(''users'', 1), (''notebooks'', 1)]"

definition default_features :: "string list" where
  "default_features = [''llm_access'']"

definition envelope_keys :: "string list" where
  "envelope_keys = [''schema_version'', ''key_id'', ''algorithm'', ''claims'', ''signature'']"

definition claim_keys :: "string list" where
  "claim_keys = [''schema_version'', ''license_id'', ''product'', ''edition'', ''organization_id'',
     ''issued_at'', ''expires_at'', ''features'', ''resource_limits'']"

definition creation_actions :: "(string, string \<times> string list) dict" where
  "creation_actions = [(''studio.generate'', (''llm_access'', [])),
     (''notebook.create'', (''notebook_management'', [''notebooks'']))]"

record license_context =
  tenant_id :: string
  workspace_id :: string
  actor_id :: string
  trace_id :: string
  policy_version :: string

definition context_checked :: "license_context \<Rightarrow> license_error + license_context" where
  "context_checked c =
    (if list_all safe_id [tenant_id c, workspace_id c, actor_id c, trace_id c, policy_version c]
     then Inr c else Inl (license_error ''LICENSE_CONTEXT_INVALID''))"

section \<open>Keys and signatures\<close>

fun bit_length :: "nat \<Rightarrow> nat" where
  "bit_length n = (if n = 0 then 0 else Suc (bit_length (n div 2)))"

declare bit_length.simps [simp del]

record rsa_public_key =
  modulus :: nat
  exponent :: nat

definition rsa_key_checked :: "nat \<Rightarrow> nat \<Rightarrow> license_error + rsa_public_key" where
  "rsa_key_checked n e =
    (if bit_length n < 2048 \<or> e < 3 \<or> e mod 2 = 0
     then Inl (LicenseError ''LICENSE_PUBLIC_KEY_INVALID'' 503)
     else Inr \<lparr>modulus = n, exponent = e\<rparr>)"

text \<open>
  \<open>base64.b64decode(value + padding, altchars=b"-_", validate=True)\<close>: both alphabets are accepted,
  four digits give three bytes, a rest of two or three digits gives one or two, a rest of one none.
\<close>

definition base64_digit :: "char \<Rightarrow> nat option" where
  "base64_digit c =
    (if CHR ''A'' \<le> c \<and> c \<le> CHR ''Z'' then Some (of_char c - 65)
     else if CHR ''a'' \<le> c \<and> c \<le> CHR ''z'' then Some (of_char c - 71)
     else if CHR ''0'' \<le> c \<and> c \<le> CHR ''9'' then Some (of_char c + 4)
     else if c = CHR ''+'' \<or> c = CHR ''-'' then Some 62
     else if c = CHR ''/'' \<or> c = CHR ''_'' then Some 63
     else None)"

fun base64_bytes :: "nat list \<Rightarrow> string option" where
  "base64_bytes [] = Some []"
| "base64_bytes [a] = None"
| "base64_bytes [a, b] = Some [char_of ((64 * a + b) div 16)]"
| "base64_bytes [a, b, c] =
    (let n = 4096 * a + 64 * b + c in Some [char_of (n div 1024), char_of (n div 4)])"
| "base64_bytes (a # b # c # d # ds) =
    (let n = 262144 * a + 4096 * b + 64 * c + d in
     map_option (\<lambda>rest. char_of (n div 65536) # char_of (n div 256) # char_of n # rest) (base64_bytes ds))"

fun digits_of :: "string \<Rightarrow> nat list option" where
  "digits_of [] = Some []"
| "digits_of (c # cs) = (case base64_digit c of None \<Rightarrow> None | Some d \<Rightarrow> map_option ((#) d) (digits_of cs))"

definition decode_base64url :: "json option \<Rightarrow> license_error + string" where
  "decode_base64url v =
    (case v of
       Some (JStr s) \<Rightarrow>
         (if s = [] \<or> length s > 4096 \<or> CHR ''='' \<in> set s then Inl (license_error ''LICENSE_SIGNATURE_INVALID'')
          else case digits_of s of None \<Rightarrow> Inl (license_error ''LICENSE_SIGNATURE_INVALID'')
            | Some ds \<Rightarrow> (case base64_bytes ds of None \<Rightarrow> Inl (license_error ''LICENSE_SIGNATURE_INVALID'')
                | Some bytes \<Rightarrow> Inr bytes))
     | _ \<Rightarrow> Inl (license_error ''LICENSE_SIGNATURE_INVALID''))"

text \<open>\<open>int.from_bytes(bytes, "big")\<close> and \<open>n.to_bytes(width, "big")\<close>.\<close>

definition from_bytes :: "string \<Rightarrow> nat" where
  "from_bytes s = foldl (\<lambda>n c. 256 * n + of_char c) 0 s"

fun to_bytes :: "nat \<Rightarrow> nat \<Rightarrow> string" where
  "to_bytes 0 n = []"
| "to_bytes (Suc w) n = to_bytes w (n div 256) @ [char_of n]"

text \<open>\<open>pow(base, exponent, modulus)\<close>, by repeated squaring.\<close>

fun pow_mod :: "nat \<Rightarrow> nat \<Rightarrow> nat \<Rightarrow> nat" where
  "pow_mod b e n =
    (if e = 0 then 1 mod n
     else let h = pow_mod (b * b mod n) (e div 2) n in if e mod 2 = 1 then b * h mod n else h)"

declare pow_mod.simps [simp del]

text \<open>
  \<open>json.loads(path.read_text())\<close> is the argument, \<open>None\<close> where reading or parsing fails.
\<close>

definition is_one :: "json option \<Rightarrow> bool" where
  "is_one v \<longleftrightarrow> v = Some (JInt 1) \<or> v = Some (JBool True)"

definition has_keys :: "string list \<Rightarrow> (string \<times> json) list \<Rightarrow> bool" where
  "has_keys ks m \<longleftrightarrow> set (map fst m) = set ks"

definition load_key ::
  "json \<Rightarrow> (string, rsa_public_key) dict \<Rightarrow> license_error + (string, rsa_public_key) dict" where
  "load_key item keys =
    (let bad = Inl (LicenseError ''LICENSE_PUBLIC_KEY_INVALID'' 503) in
     case item of
       JObj m \<Rightarrow>
         (if \<not> has_keys [''key_id'', ''algorithm'', ''n'', ''e''] m \<or> dict_get m ''algorithm'' \<noteq> Some (JStr ''RS256'')
          then bad
          else case dict_get m ''key_id'' of
              Some (JStr k) \<Rightarrow>
                (if \<not> safe_id k \<or> dict_get keys k \<noteq> None then bad
                 else case decode_base64url (dict_get m ''n'') of Inl e \<Rightarrow> Inl e
                   | Inr n \<Rightarrow> (case decode_base64url (dict_get m ''e'') of Inl e \<Rightarrow> Inl e
                       | Inr x \<Rightarrow> (case rsa_key_checked (from_bytes n) (from_bytes x) of Inl e \<Rightarrow> Inl e
                           | Inr key \<Rightarrow> Inr (dict_set k key keys))))
            | _ \<Rightarrow> bad)
     | _ \<Rightarrow> bad)"

fun load_keys ::
  "json list \<Rightarrow> (string, rsa_public_key) dict \<Rightarrow> license_error + (string, rsa_public_key) dict" where
  "load_keys [] keys = Inr keys"
| "load_keys (x # xs) keys = (case load_key x keys of Inl e \<Rightarrow> Inl e | Inr keys' \<Rightarrow> load_keys xs keys')"

definition load_rsa_public_keys :: "json option \<Rightarrow> license_error + (string, rsa_public_key) dict" where
  "load_rsa_public_keys file =
    (let bad = Inl (LicenseError ''LICENSE_PUBLIC_KEY_INVALID'' 503) in
     case file of None \<Rightarrow> Inl (LicenseError ''LICENSE_SIGNING_KEY_UNAVAILABLE'' 503)
     | Some (JObj m) \<Rightarrow>
         (if \<not> has_keys [''schema_version'', ''keys''] m \<or> \<not> is_one (dict_get m ''schema_version'') then bad
          else case dict_get m ''keys'' of
              Some (JArr items) \<Rightarrow> (case load_keys items [] of Inl e \<Rightarrow> Inl e
                | Inr keys \<Rightarrow> if keys = [] then bad else Inr keys)
            | _ \<Rightarrow> bad)
     | Some _ \<Rightarrow> bad)"

section \<open>The verifiers\<close>

type_synonym claims = "(string \<times> json) list"

text \<open>
  \<open>bytes.fromhex\<close> on lower-case digits without blanks, the form of the one literal it is applied to.
\<close>

definition hex_digit_value :: "char \<Rightarrow> nat" where
  "hex_digit_value c = (if c \<le> CHR ''9'' then of_char c - 48 else of_char c - 87)"

fun fromhex :: "string \<Rightarrow> string" where
  "fromhex (h # l # s) = char_of (16 * hex_digit_value h + hex_digit_value l) # fromhex s"
| "fromhex _ = []"

definition digest_info_sha256 :: string where
  "digest_info_sha256 = fromhex ''3031300d060960864801650304020105000420''"

definition canonical_claims :: "claims \<Rightarrow> string" where
  "canonical_claims m = utf8 (json_dumps (JObj m))"

definition hexdigest :: "(string \<Rightarrow> string) \<Rightarrow> string \<Rightarrow> string" where
  "hexdigest sha256 s = concat (map hex_byte (sha256 s))"

text \<open>The padded digest a signature must decrypt to (EMSA-PKCS1-v1_5).\<close>

definition padding_length :: "(string \<Rightarrow> string) \<Rightarrow> nat \<Rightarrow> string \<Rightarrow> int" where
  "padding_length sha256 width msg = int width - int (length (digest_info_sha256 @ sha256 msg)) - 3"

definition expected_block :: "(string \<Rightarrow> string) \<Rightarrow> nat \<Rightarrow> string \<Rightarrow> string" where
  "expected_block sha256 width msg =
    [CHR 0x00, CHR 0x01] @ replicate (nat (padding_length sha256 width msg)) CHR 0xFF @ [CHR 0x00]
      @ digest_info_sha256 @ sha256 msg"

definition signature_valid ::
  "(string \<Rightarrow> string) \<Rightarrow> rsa_public_key \<Rightarrow> string \<Rightarrow> string \<Rightarrow> bool" where
  "signature_valid sha256 key msg sig \<longleftrightarrow>
    (let width = (bit_length (modulus key) + 7) div 8; s = from_bytes sig in
     length sig = width \<and> s < modulus key
     \<and> padding_length sha256 width msg \<ge> 8
     \<and> to_bytes width (pow_mod s (exponent key) (modulus key)) = expected_block sha256 width msg)"

definition verify_rsa ::
  "(string \<Rightarrow> string) \<Rightarrow> (string, rsa_public_key) dict \<Rightarrow> json
    \<Rightarrow> license_error + claims \<times> string \<times> string" where
  "verify_rsa sha256 keys doc =
    (case doc of
       JObj m \<Rightarrow>
         (if \<not> has_keys envelope_keys m then Inl (license_error ''LICENSE_DOCUMENT_INVALID'')
          else if \<not> is_one (dict_get m ''schema_version'') \<or> dict_get m ''algorithm'' \<noteq> Some (JStr ''RS256'')
          then Inl (license_error ''LICENSE_SCHEMA_UNSUPPORTED'')
          else case dict_get m ''key_id'' of
              Some (JStr key_id) \<Rightarrow>
                (case (if safe_id key_id then dict_get keys key_id else None) of
                   None \<Rightarrow> Inl (LicenseError ''LICENSE_SIGNING_KEY_UNAVAILABLE'' 503)
                 | Some key \<Rightarrow>
                     (case dict_get m ''claims'' of
                        Some (JObj claims) \<Rightarrow>
                          (let msg = canonical_claims claims in
                           case decode_base64url (dict_get m ''signature'') of Inl e \<Rightarrow> Inl e
                           | Inr sig \<Rightarrow>
                               (if signature_valid sha256 key msg sig
                                then Inr (claims, hexdigest sha256 msg, key_id)
                                else Inl (license_error ''LICENSE_SIGNATURE_INVALID'')))
                      | _ \<Rightarrow> Inl (license_error ''LICENSE_DOCUMENT_INVALID'')))
            | _ \<Rightarrow> Inl (LicenseError ''LICENSE_SIGNING_KEY_UNAVAILABLE'' 503))
     | _ \<Rightarrow> Inl (license_error ''LICENSE_DOCUMENT_INVALID''))"

definition verify_unavailable :: "json \<Rightarrow> license_error + claims \<times> string \<times> string" where
  "verify_unavailable doc = Inl (LicenseError ''LICENSE_SIGNING_KEY_UNAVAILABLE'' 503)"

section \<open>State, configuration and the repository\<close>

text \<open>Instants are microseconds of the epoch in UTC.\<close>

record verified_license =
  license_id :: string
  product :: string
  edition :: string
  organization_id :: string
  issued_at :: int
  expires_at :: int
  features :: "string list"
  resource_limits :: "(string \<times> int) list"
  claims_digest :: string
  key_id :: string

type_synonym replay_key = "string \<times> string \<times> string"

record license_state =
  license_values :: "(string, verified_license list) dict"
  idempotency :: "(replay_key, string \<times> verified_license) dict"
  clock_reads :: nat

text \<open>
  The configuration: the clock, SHA-256 on bytes, \<open>datetime.fromisoformat\<close> as the instant and the
  offset it finds, the text of an instant in seconds, the product, the verifier, and the usage the
  runtime counts for the tenant of a context.
\<close>

record license_service =
  clock :: "nat \<Rightarrow> int"
  sha256 :: "string \<Rightarrow> string"
  fromisoformat :: "string \<Rightarrow> (int \<times> int) option"
  iso_seconds :: "int \<Rightarrow> string"
  product_code :: string
  verifier :: "json \<Rightarrow> license_error + claims \<times> string \<times> string"
  usage_reader :: "license_context \<Rightarrow> (string, int) dict"

definition safe_claim_text :: "json option \<Rightarrow> license_error + string" where
  "safe_claim_text v = (case v of
       Some (JStr s) \<Rightarrow> if safe_id s then Inr s else Inl (license_error ''LICENSE_DOCUMENT_INVALID'')
     | _ \<Rightarrow> Inl (license_error ''LICENSE_DOCUMENT_INVALID''))"

definition service_checked :: "license_service \<Rightarrow> license_error + license_service" where
  "service_checked cfg =
    (case safe_claim_text (Some (JStr (product_code cfg))) of Inl e \<Rightarrow> Inl e | Inr _ \<Rightarrow> Inr cfg)"

definition empty_repository :: license_state where
  "empty_repository = \<lparr>license_values = [], idempotency = [], clock_reads = 0\<rparr>"

definition read_clock :: "license_service \<Rightarrow> license_state \<Rightarrow> int \<times> license_state" where
  "read_clock cfg s = (clock cfg (clock_reads s), s\<lparr>clock_reads := Suc (clock_reads s)\<rparr>)"

definition tenant_licenses :: "string \<Rightarrow> license_state \<Rightarrow> verified_license list" where
  "tenant_licenses t s = (case dict_get (license_values s) t of None \<Rightarrow> [] | Some ls \<Rightarrow> ls)"

definition current_license :: "license_context \<Rightarrow> license_state \<Rightarrow> verified_license option" where
  "current_license c s =
    (case tenant_licenses (tenant_id c) s of [] \<Rightarrow> None | ls \<Rightarrow> Some (last ls))"

definition license_key :: "license_context \<Rightarrow> string \<Rightarrow> replay_key" where
  "license_key c k = (tenant_id c, actor_id c, k)"

definition replay_lookup ::
  "(replay_key, string \<times> verified_license) dict \<Rightarrow> replay_key \<Rightarrow> string
    \<Rightarrow> license_error + verified_license option" where
  "replay_lookup l k f = (case dict_get l k of None \<Rightarrow> Inr None
     | Some (f', v) \<Rightarrow> if f' \<noteq> f then Inl (LicenseError ''IDEMPOTENCY_KEY_REUSED'' 409) else Inr (Some v))"

definition repository_replay ::
  "license_context \<Rightarrow> string \<Rightarrow> string \<Rightarrow> license_state \<Rightarrow> license_error + verified_license option" where
  "repository_replay c k f s = replay_lookup (idempotency s) (license_key c k) f"

definition repository_apply ::
  "license_context \<Rightarrow> verified_license \<Rightarrow> string \<Rightarrow> string \<Rightarrow> license_state
    \<Rightarrow> (license_state, license_error, verified_license \<times> bool) outcome" where
  "repository_apply c lic k f s =
    (case replay_lookup (idempotency s) (license_key c k) f of
       Inl e \<Rightarrow> (Inl e, s)
     | Inr (Some v) \<Rightarrow> (Inr (v, True), s)
     | Inr None \<Rightarrow> (Inr (lic, False),
         s\<lparr>license_values := dict_set (tenant_id c) (tenant_licenses (tenant_id c) s @ [lic]) (license_values s),
           idempotency := dict_set (license_key c k) (f, lic) (idempotency s)\<rparr>))"

definition license_count :: "license_context \<Rightarrow> license_state \<Rightarrow> nat" where
  "license_count c s = length (tenant_licenses (tenant_id c) s)"

section \<open>Verifying a document\<close>

definition utc_timestamp :: "license_service \<Rightarrow> json option \<Rightarrow> license_error + int" where
  "utc_timestamp cfg v = (case v of
       Some (JStr s) \<Rightarrow>
         (if s = [] \<or> last s \<noteq> CHR ''Z'' then Inl (license_error ''LICENSE_DOCUMENT_INVALID'')
          else case fromisoformat cfg (butlast s @ ''+00:00'') of
              None \<Rightarrow> Inl (license_error ''LICENSE_DOCUMENT_INVALID'')
            | Some (t, offset) \<Rightarrow>
                if offset \<noteq> 0 then Inl (license_error ''LICENSE_DOCUMENT_INVALID'') else Inr t)
     | _ \<Rightarrow> Inl (license_error ''LICENSE_DOCUMENT_INVALID''))"

text \<open>The features of a document, sorted, without repetitions and each a code.\<close>

fun code_list :: "json list \<Rightarrow> string list option" where
  "code_list [] = Some []"
| "code_list (JStr x # xs) = (if safe_code x then map_option ((#) x) (code_list xs) else None)"
| "code_list (_ # xs) = None"

definition features_checked :: "json option \<Rightarrow> string list option" where
  "features_checked v = (case v of
       Some (JArr xs) \<Rightarrow>
         (if 1 \<le> length xs \<and> length xs \<le> 64
          then (case code_list xs of None \<Rightarrow> None
             | Some fs \<Rightarrow> if fs = sort (remdups fs) then Some fs else None)
          else None)
     | _ \<Rightarrow> None)"

text \<open>The limits of a document, in the order of its members, which must be the sorted one.\<close>

fun limit_list :: "(string \<times> json) list \<Rightarrow> (string \<times> int) list option" where
  "limit_list [] = Some []"
| "limit_list ((r, JInt n) # xs) =
    (if r \<in> set resource_codes \<and> 1 \<le> n \<and> n \<le> 9223372036854775807
     then map_option ((#) (r, n)) (limit_list xs) else None)"
| "limit_list (_ # xs) = None"

definition limits_checked :: "json option \<Rightarrow> (string \<times> int) list option" where
  "limits_checked v = (case v of
       Some (JObj m) \<Rightarrow>
         (if 1 \<le> length m \<and> length m \<le> 64
          then (case limit_list m of None \<Rightarrow> None
             | Some ls \<Rightarrow> if ls = sort_key fst ls then Some ls else None)
          else None)
     | _ \<Rightarrow> None)"

text \<open>The checks after the clock was read at \<open>now\<close>.\<close>

definition license_from_claims ::
  "claims \<Rightarrow> string \<Rightarrow> string \<Rightarrow> string \<Rightarrow> string \<Rightarrow> int \<Rightarrow> int \<Rightarrow> int \<Rightarrow> license_error + verified_license" where
  "license_from_claims m digest kid prd org issued expires now =
    (if issued > now + 300000000 \<or> expires \<le> issued then Inl (license_error ''LICENSE_PERIOD_INVALID'')
     else if expires \<le> now then Inl (LicenseError ''LICENSE_EXPIRED'' 409)
     else case (features_checked (dict_get m ''features''), limits_checked (dict_get m ''resource_limits'')) of
         (Some fs, Some limits) \<Rightarrow>
           (case safe_claim_text (dict_get m ''license_id'') of Inl e \<Rightarrow> Inl e
            | Inr lid \<Rightarrow>
                (if length lid < 5 then Inl (license_error ''LICENSE_DOCUMENT_INVALID'')
                 else case safe_claim_text (dict_get m ''edition'') of Inl e \<Rightarrow> Inl e
                   | Inr ed \<Rightarrow> Inr \<lparr>license_id = lid, product = prd, edition = ed, organization_id = org,
                       issued_at = issued, expires_at = expires, features = fs, resource_limits = limits,
                       claims_digest = digest, key_id = kid\<rparr>))
       | _ \<Rightarrow> Inl (license_error ''LICENSE_DOCUMENT_INVALID''))"

definition verify_document ::
  "license_service \<Rightarrow> license_context \<Rightarrow> json \<Rightarrow> license_state
    \<Rightarrow> (license_state, license_error, verified_license) outcome" where
  "verify_document cfg c doc s =
    attempt (verifier cfg doc) s (\<lambda>(m, digest, kid).
      if \<not> has_keys claim_keys m \<or> \<not> is_one (dict_get m ''schema_version'')
      then (Inl (license_error ''LICENSE_SCHEMA_UNSUPPORTED''), s)
      else attempt (safe_claim_text (dict_get m ''product'')) s (\<lambda>prd.
        if prd \<noteq> product_code cfg then (Inl (license_error ''LICENSE_PRODUCT_MISMATCH''), s)
        else attempt (safe_claim_text (dict_get m ''organization_id'')) s (\<lambda>org.
          if org \<noteq> tenant_id c then (Inl (LicenseError ''LICENSE_ORGANIZATION_MISMATCH'' 403), s)
          else attempt (utc_timestamp cfg (dict_get m ''issued_at'')) s (\<lambda>issued.
            attempt (utc_timestamp cfg (dict_get m ''expires_at'')) s (\<lambda>expires.
              let (now, s1) = read_clock cfg s
              in (license_from_claims m digest kid prd org issued expires now, s1))))))"

section \<open>The projection\<close>

record resource_view =
  resource :: string
  resource_limit :: int
  resource_used :: int
  resource_remaining :: int
  limit_reached :: bool

datatype license_status = NotConfigured | Expired | LimitReached | ExpiringSoon | Active

text \<open>The status as the source spells it, and the code of the warning it goes with.\<close>

fun status_text :: "license_status \<Rightarrow> string" where
  "status_text NotConfigured = ''not_configured''"
| "status_text Expired = ''expired''"
| "status_text LimitReached = ''limit_reached''"
| "status_text ExpiringSoon = ''expiring_soon''"
| "status_text Active = ''active''"

fun warning_code :: "license_status \<Rightarrow> string option" where
  "warning_code NotConfigured = Some ''LICENSE_NOT_CONFIGURED''"
| "warning_code Expired = Some ''LICENSE_EXPIRED''"
| "warning_code LimitReached = Some ''LICENSE_RESOURCE_LIMIT_REACHED''"
| "warning_code ExpiringSoon = Some ''LICENSE_EXPIRES_WITHIN_30_DAYS''"
| "warning_code Active = None"

record license_view =
  view_product :: string
  view_edition :: "string option"
  license_id_hint :: "string option"
  view_issued_at :: "string option"
  view_expires_at :: "string option"
  view_status :: license_status
  view_features :: "string list"
  resources :: "resource_view list"
  warning :: "string option"
  creation_allowed :: bool
  existing_read_allowed :: bool
  existing_export_allowed :: bool

definition used_of :: "(string, int) dict \<Rightarrow> string \<Rightarrow> int" where
  "used_of usage r = (case dict_get usage r of None \<Rightarrow> 0 | Some n \<Rightarrow> n)"

definition resource_line :: "string \<Rightarrow> int \<Rightarrow> int \<Rightarrow> resource_view" where
  "resource_line r limit used = \<lparr>resource = r, resource_limit = limit, resource_used = used,
     resource_remaining = max 0 (limit - used), limit_reached = (used \<ge> limit)\<rparr>"

fun resource_lines ::
  "(string, int) dict \<Rightarrow> (string \<times> int) list \<Rightarrow> license_error + resource_view list" where
  "resource_lines usage [] = Inr []"
| "resource_lines usage ((r, limit) # xs) =
    (let used = used_of usage r in
     if used < 0 then Inl (LicenseError ''LICENSE_USAGE_UNAVAILABLE'' 503)
     else case resource_lines usage xs of Inl e \<Rightarrow> Inl e
       | Inr ls \<Rightarrow> Inr (resource_line r limit used # ls))"

definition last_five :: "string \<Rightarrow> string" where
  "last_five s = drop (length s - 5) s"

definition license_projection ::
  "license_service \<Rightarrow> verified_license \<Rightarrow> resource_view list \<Rightarrow> int \<Rightarrow> license_view" where
  "license_projection cfg stored lines now =
    (let reached = list_ex limit_reached lines;
         expired = (expires_at stored \<le> now);
         expiring = (\<not> expired \<and> expires_at stored - now \<le> 2592000000000);
         status = (if expired then Expired else if reached then LimitReached
           else if expiring then ExpiringSoon else Active)
     in \<lparr>view_product = product stored, view_edition = Some (edition stored),
         license_id_hint = Some (last_five (license_id stored)),
         view_issued_at = Some (iso_seconds cfg (issued_at stored)),
         view_expires_at = Some (iso_seconds cfg (expires_at stored)),
         view_status = status, view_features = features stored, resources = lines,
         warning = warning_code status, creation_allowed = (\<not> expired \<and> \<not> reached),
         existing_read_allowed = True, existing_export_allowed = True\<rparr>)"

definition view_license ::
  "license_service \<Rightarrow> license_context \<Rightarrow> verified_license \<Rightarrow> license_state
    \<Rightarrow> (license_state, license_error, license_view) outcome" where
  "view_license cfg c stored s =
    (let (now, s1) = read_clock cfg s in
     attempt (resource_lines (usage_reader cfg c) (resource_limits stored)) s1 (\<lambda>lines.
       (Inr (license_projection cfg stored lines now), s1)))"

definition get_license ::
  "license_service \<Rightarrow> license_context \<Rightarrow> license_state
    \<Rightarrow> (license_state, license_error, license_view) outcome" where
  "get_license cfg c s =
    (case current_license c s of
       None \<Rightarrow>
         attempt (resource_lines (usage_reader cfg c) default_resource_limits) s (\<lambda>lines.
           (Inr \<lparr>view_product = product_code cfg, view_edition = None, license_id_hint = None,
              view_issued_at = None, view_expires_at = None, view_status = NotConfigured,
              view_features = default_features, resources = lines,
              warning = warning_code NotConfigured,
              creation_allowed = (used_of (usage_reader cfg c) ''notebooks'' < 1),
              existing_read_allowed = True, existing_export_allowed = True\<rparr>, s))
     | Some stored \<Rightarrow> view_license cfg c stored s)"

section \<open>Applying a document\<close>

definition idempotency_key_checked :: "string \<Rightarrow> license_error + string" where
  "idempotency_key_checked k =
    (if 16 \<le> length k \<and> length k \<le> 128 \<and> safe_id k then Inr k
     else Inl (license_error ''IDEMPOTENCY_KEY_INVALID''))"

definition request_fingerprint ::
  "license_service \<Rightarrow> license_context \<Rightarrow> json \<Rightarrow> license_error + string" where
  "request_fingerprint cfg c doc =
    (case doc of
       JObj m \<Rightarrow>
         (if \<not> has_keys envelope_keys m then Inl (license_error ''LICENSE_DOCUMENT_INVALID'')
          else case dict_get m ''claims'' of
              Some (JObj _) \<Rightarrow> Inr (hexdigest (sha256 cfg) (utf8 (json_dumps (JObj
                [(''tenant_id'', JStr (tenant_id c)), (''workspace_id'', JStr (workspace_id c)),
                 (''document'', doc)]))))
            | _ \<Rightarrow> Inl (license_error ''LICENSE_DOCUMENT_INVALID''))
     | _ \<Rightarrow> Inl (license_error ''LICENSE_DOCUMENT_INVALID''))"

definition apply_verified ::
  "license_service \<Rightarrow> license_context \<Rightarrow> verified_license \<Rightarrow> string \<Rightarrow> string \<Rightarrow> license_state
    \<Rightarrow> (license_state, license_error, license_view \<times> bool) outcome" where
  "apply_verified cfg c lic k f s =
    (case repository_apply c lic k f s of
       (Inl e, s1) \<Rightarrow> (Inl e, s1)
     | (Inr (stored, replayed), s1) \<Rightarrow>
         (case view_license cfg c stored s1 of
            (Inl e, s2) \<Rightarrow> (Inl e, s2)
          | (Inr v, s2) \<Rightarrow> (Inr (v, replayed), s2)))"

definition show_replayed ::
  "license_service \<Rightarrow> license_context \<Rightarrow> verified_license \<Rightarrow> license_state
    \<Rightarrow> (license_state, license_error, license_view \<times> bool) outcome" where
  "show_replayed cfg c stored s =
    (case view_license cfg c stored s of
       (Inl e, s1) \<Rightarrow> (Inl e, s1)
     | (Inr v, s1) \<Rightarrow> (Inr (v, True), s1))"

definition apply_license ::
  "license_service \<Rightarrow> license_context \<Rightarrow> json \<Rightarrow> string \<Rightarrow> license_state
    \<Rightarrow> (license_state, license_error, license_view \<times> bool) outcome" where
  "apply_license cfg c doc idem s =
    attempt (idempotency_key_checked idem) s (\<lambda>k.
    attempt (request_fingerprint cfg c doc) s (\<lambda>f.
    attempt (repository_replay c k f s) s (\<lambda>stored.
      case stored of
        Some lic \<Rightarrow> show_replayed cfg c lic s
      | None \<Rightarrow>
          (case verify_document cfg c doc s of
             (Inl e, s1) \<Rightarrow> (Inl e, s1)
           | (Inr lic, s1) \<Rightarrow> apply_verified cfg c lic k f s1))))"

definition replay_license ::
  "license_service \<Rightarrow> license_context \<Rightarrow> json \<Rightarrow> string \<Rightarrow> license_state
    \<Rightarrow> (license_state, license_error, (license_view \<times> bool) option) outcome" where
  "replay_license cfg c doc idem s =
    attempt (idempotency_key_checked idem) s (\<lambda>k.
    attempt (request_fingerprint cfg c doc) s (\<lambda>f.
    attempt (repository_replay c k f s) s (\<lambda>stored.
      case stored of
        None \<Rightarrow> (Inr None, s)
      | Some lic \<Rightarrow>
          (case show_replayed cfg c lic s of (Inl e, s1) \<Rightarrow> (Inl e, s1) | (Inr v, s1) \<Rightarrow> (Inr (Some v), s1)))))"

section \<open>The guards\<close>

definition require_llm_access ::
  "license_service \<Rightarrow> license_context \<Rightarrow> license_state \<Rightarrow> (license_state, license_error, unit) outcome" where
  "require_llm_access cfg c s =
    (case current_license c s of None \<Rightarrow> (Inr (), s)
     | Some stored \<Rightarrow>
         (let (now, s1) = read_clock cfg s in
          if expires_at stored \<le> now then (Inl (LicenseError ''LICENSE_EXPIRED'' 409), s1)
          else if ''llm_access'' \<notin> set (features stored)
          then (Inl (LicenseError ''LICENSE_FEATURE_NOT_ALLOWED'' 409), s1)
          else (Inr (), s1)))"

definition require_new_generation ::
  "license_service \<Rightarrow> license_context \<Rightarrow> license_state \<Rightarrow> (license_state, license_error, unit) outcome" where
  "require_new_generation cfg c s = require_llm_access cfg c s"

definition require_user_capacity ::
  "license_service \<Rightarrow> license_context \<Rightarrow> license_state \<Rightarrow> license_error + unit" where
  "require_user_capacity cfg c s =
    (let used = used_of (usage_reader cfg c) ''users'' in
     if used < 0 then Inl (LicenseError ''LICENSE_USAGE_UNAVAILABLE'' 503)
     else let limit = (case current_license c s of None \<Rightarrow> Some 1
            | Some stored \<Rightarrow> dict_get (resource_limits stored) ''users'')
          in case limit of None \<Rightarrow> Inr ()
           | Some l \<Rightarrow> if used + 1 > l then Inl (LicenseError ''LICENSE_RESOURCE_LIMIT_REACHED'' 409) else Inr ())"

fun within_limits ::
  "(string, int) dict \<Rightarrow> (string \<times> int) list \<Rightarrow> (string \<times> int) list \<Rightarrow> license_error + unit" where
  "within_limits usage limits [] = Inr ()"
| "within_limits usage limits ((r, amount) # xs) =
    (case dict_get limits r of None \<Rightarrow> within_limits usage limits xs
     | Some limit \<Rightarrow>
         (let used = used_of usage r in
          if used < 0 then Inl (LicenseError ''LICENSE_USAGE_UNAVAILABLE'' 503)
          else if used + amount > limit then Inl (LicenseError ''LICENSE_RESOURCE_LIMIT_REACHED'' 409)
          else within_limits usage limits xs))"

text \<open>Without a licence the defaults are compared and a negative usage is not refused.\<close>

fun within_defaults :: "(string, int) dict \<Rightarrow> (string \<times> int) list \<Rightarrow> license_error + unit" where
  "within_defaults usage [] = Inr ()"
| "within_defaults usage ((r, amount) # xs) =
    (case dict_get default_resource_limits r of
       Some limit \<Rightarrow> if used_of usage r + amount > limit
         then Inl (LicenseError ''LICENSE_RESOURCE_LIMIT_REACHED'' 409) else within_defaults usage xs
     | None \<Rightarrow> within_defaults usage xs)"

definition require_creation ::
  "license_service \<Rightarrow> license_context \<Rightarrow> string \<Rightarrow> (string \<times> int) list \<Rightarrow> license_state
    \<Rightarrow> (license_state, license_error, unit) outcome" where
  "require_creation cfg c action increments s =
    (if action = ''source.create'' then (Inr (), s)
     else if action = ''studio.generate'' then require_llm_access cfg c s
     else case dict_get creation_actions action of
         None \<Rightarrow> (Inl (license_error ''LICENSE_CREATION_ACTION_INVALID''), s)
       | Some (feature, allowed) \<Rightarrow>
           (if increments = [] \<or> list_ex (\<lambda>(r, n). r \<notin> set allowed \<or> n < 1) increments
            then (Inl (license_error ''LICENSE_CREATION_ACTION_INVALID''), s)
            else case current_license c s of
                None \<Rightarrow> (within_defaults (usage_reader cfg c) increments, s)
              | Some stored \<Rightarrow>
                  (let (now, s1) = read_clock cfg s in
                   if expires_at stored \<le> now then (Inl (LicenseError ''LICENSE_EXPIRED'' 409), s1)
                   else if feature \<notin> set (features stored)
                   then (Inl (LicenseError ''LICENSE_FEATURE_NOT_ALLOWED'' 409), s1)
                   else (within_limits (usage_reader cfg c) (resource_limits stored) increments, s1))))"

end
