(* ===== verification/Json_Roundtrip.thy ===== *)
theory Json_Roundtrip
  imports Json
begin

text \<open>
  The JSON text of a value determines the value up to the order of the members of its objects. The
  fingerprints and canonical bytes of the services therefore identify requests, documents and
  policies exactly, as far as the digest has no collisions. Characters are decoded one by one; a
  value is recovered from its text and from whatever delimiter follows it.
\<close>

section \<open>Characters\<close>

definition unhex :: "char \<Rightarrow> nat" where
  "unhex c = (let n = of_char c :: nat in if n < 58 then n - 48 else n - 87)"

text \<open>Reads one character of a JSON string, escaped or not.\<close>

fun unescape :: "string \<Rightarrow> char \<times> string" where
  "unescape (b # u # z1 # z2 # h # l # s) =
    (if b \<noteq> CHR 0x5C then (b, u # z1 # z2 # h # l # s)
     else if u = CHR ''u'' then (char_of (16 * unhex h + unhex l), s)
     else (if u = CHR ''n'' then CHR 0x0A else if u = CHR ''r'' then CHR 0x0D
        else if u = CHR ''t'' then CHR 0x09 else if u = CHR ''f'' then CHR 0x0C
        else if u = CHR ''b'' then CHR 0x08 else u, z1 # z2 # h # l # s))"
| "unescape (b # u # s) =
    (if b \<noteq> CHR 0x5C then (b, u # s)
     else (if u = CHR ''n'' then CHR 0x0A else if u = CHR ''r'' then CHR 0x0D
        else if u = CHR ''t'' then CHR 0x09 else if u = CHR ''f'' then CHR 0x0C
        else if u = CHR ''b'' then CHR 0x08 else u, s))"
| "unescape [b] = (b, [])"
| "unescape [] = (CHR 0x00, [])"

lemma unhex_digit: "n < 16 \<Longrightarrow> unhex (hex_digit n) = n"
  by (auto simp: unhex_def hex_digit_def Let_def)

lemma unescape_plain: "b \<noteq> CHR 0x5C \<Longrightarrow> unescape (b # s) = (b, s)"
  by (cases "b # s" rule: unescape.cases) auto

lemma unescape_short:
  "u \<noteq> CHR ''u'' \<Longrightarrow> unescape (CHR 0x5C # u # s) =
    (if u = CHR ''n'' then CHR 0x0A else if u = CHR ''r'' then CHR 0x0D
        else if u = CHR ''t'' then CHR 0x09 else if u = CHR ''f'' then CHR 0x0C
        else if u = CHR ''b'' then CHR 0x08 else u, s)"
  by (cases "CHR 0x5C # u # s" rule: unescape.cases) auto

lemma unescape_hex:
  "unescape (CHR 0x5C # CHR ''u'' # CHR ''0'' # CHR ''0'' # hex_byte c @ s) = (c, s)"
proof -
  have "16 * (of_char c div 16) + of_char c mod 16 = (of_char c :: nat)"
    by simp
  moreover have "of_char c div 16 < (16 :: nat)"
    by (simp add: less_mult_imp_div_less)
  ultimately show ?thesis
    by (simp add: hex_byte_def Let_def unhex_digit)
qed

text \<open>An escape function is readable when one character can be read back, whatever follows it.\<close>

definition readable :: "(char \<Rightarrow> string) \<Rightarrow> bool" where
  "readable esc \<longleftrightarrow> (\<forall>c s. unescape (esc c @ s) = (c, s) \<and> esc c \<noteq> [] \<and> hd (esc c) \<noteq> CHR 0x22)"

lemma readable_json_char: "readable json_char"
  unfolding readable_def
proof (intro allI)
  fix c s
  show "unescape (json_char c @ s) = (c, s) \<and> json_char c \<noteq> [] \<and> hd (json_char c) \<noteq> CHR 0x22"
    using unescape_hex [of c s] by (auto simp: json_char_def unescape_plain unescape_short)
qed

lemma readable_json_char_raw: "readable json_char_raw"
  using readable_json_char unfolding readable_def
  by (auto simp: json_char_raw_def unescape_plain)

lemma readable_no_quote: "readable esc \<Longrightarrow> esc c @ x \<noteq> CHR 0x22 # y"
  unfolding readable_def by (cases "esc c") (force, metis append_Cons list.inject list.sel(1))

lemma json_string_unique:
  assumes "readable esc" and "json_string esc s @ r = json_string esc t @ r'"
  shows "s = t \<and> r = r'"
proof -
  have "concat (map esc s) @ CHR 0x22 # r = concat (map esc t) @ CHR 0x22 # r'"
    using assms(2) by (simp add: json_string_def)
  then show ?thesis
  proof (induction s arbitrary: t)
    case Nil
    with readable_no_quote [OF assms(1)] show ?case
      by (cases t) (auto dest: sym)
  next
    case (Cons c s)
    show ?case
    proof (cases t)
      case Nil
      with Cons.prems readable_no_quote [OF assms(1)] show ?thesis
        by auto
    next
      case t: (Cons d u)
      have "unescape (esc c @ concat (map esc s) @ CHR 0x22 # r) = unescape (esc d @ concat (map esc u) @ CHR 0x22 # r')"
        using Cons.prems t by simp
      then have "c = d" and "concat (map esc s) @ CHR 0x22 # r = concat (map esc u) @ CHR 0x22 # r'"
        using assms(1) by (simp_all add: readable_def)
      with Cons.IH t show ?thesis by auto
    qed
  qed
qed

section \<open>Numbers\<close>

definition delimited :: "string \<Rightarrow> bool" where
  "delimited r \<longleftrightarrow> r = [] \<or> hd r \<in> {CHR '','', CHR '']'', CHR ''}''}"

definition digit_or_sign :: "char \<Rightarrow> bool" where
  "digit_or_sign c \<longleftrightarrow> c = CHR ''-'' \<or> (CHR ''0'' \<le> c \<and> c \<le> CHR ''9'')"

lemma digit_char: "(n :: nat) < 10 \<Longrightarrow> CHR ''0'' \<le> char_of (48 + n) \<and> char_of (48 + n) \<le> CHR ''9''"
proof -
  assume "n < 10"
  then have "of_char (char_of (48 + n) :: char) = 48 + n" by simp
  with \<open>n < 10\<close> show ?thesis by (simp add: less_eq_char_def)
qed

lemma dec_nat_chars: "dec_nat n \<noteq> [] \<and> list_all (\<lambda>c. CHR ''0'' \<le> c \<and> c \<le> CHR ''9'') (dec_nat n)"
proof (induction n rule: dec_nat.induct)
  case (1 n)
  show ?case
  proof (cases "n < 10")
    case True
    then show ?thesis by (subst (1 2) dec_nat.simps) (simp add: digit_char)
  next
    case False
    then show ?thesis
      using 1 digit_char [of "n mod 10"] by (subst (1 2) dec_nat.simps) simp
  qed
qed

lemma dec_int_chars: "dec_int i \<noteq> [] \<and> list_all digit_or_sign (dec_int i)"
  using dec_nat_chars [of "nat i"] dec_nat_chars [of "nat (- i)"]
  by (auto simp: dec_int_def digit_or_sign_def list_all_iff)

lemma dec_int_inject: "dec_int i = dec_int j \<longleftrightarrow> i = j"
proof
  have minus: "CHR ''-'' \<notin> set (dec_nat n)" for n
    using dec_nat_chars [of n] by (auto simp: list_all_iff less_eq_char_def)
  assume eq: "dec_int i = dec_int j"
  then have "i < 0 \<longleftrightarrow> j < 0"
    using minus [of "nat i"] minus [of "nat j"] by (auto simp: dec_int_def split: if_splits dest: sym)
  with eq show "i = j"
    by (auto simp: dec_int_def dec_nat_inject split: if_splits)
qed simp

lemma dec_int_unique:
  assumes "dec_int i @ r = dec_int j @ r'" and "delimited r" and "delimited r'"
  shows "i = j \<and> r = r'"
proof -
  have stop: "takeWhile digit_or_sign (dec_int k @ x) = dec_int k" if "delimited x" for k x
  proof -
    have "takeWhile digit_or_sign x = []"
      using that by (cases x) (auto simp: delimited_def digit_or_sign_def less_eq_char_def)
    then show ?thesis
      using dec_int_chars [of k] by (simp add: takeWhile_append2 list_all_iff)
  qed
  have "dec_int i = dec_int j"
    using stop [of r i] stop [of r' j] assms by simp
  with assms(1) show ?thesis by (simp add: dec_int_inject)
qed

section \<open>Values\<close>

text \<open>The order of members is irrelevant: the normal form sorts them by name at every level.\<close>

primrec normal :: "json \<Rightarrow> json" where
  "normal JNull = JNull"
| "normal (JBool b) = JBool b"
| "normal (JInt i) = JInt i"
| "normal (JStr s) = JStr s"
| "normal (JArr xs) = JArr (map normal xs)"
| "normal (JObj kvs) = JObj (sort_key fst (map (map_prod (\<lambda>k. k) normal) kvs))"

lemma sort_key_map_snd:
  "sort_key fst (map (map_prod (\<lambda>k. k) f) xs) = map (map_prod (\<lambda>k. k) f) (sort_key fst xs)"
proof -
  have ins: "insort_key fst (map_prod (\<lambda>k. k) f x) (map (map_prod (\<lambda>k. k) f) ys)
      = map (map_prod (\<lambda>k. k) f) (insort_key fst x ys)" for x ys
    by (induction ys) auto
  show ?thesis by (induction xs) (simp_all add: ins)
qed

definition member_text :: "(char \<Rightarrow> string) \<Rightarrow> string \<times> json \<Rightarrow> string" where
  "member_text esc m = json_string esc (fst m) @ CHR '':'' # json_text esc (snd m)"

lemma json_text_JObj:
  "json_text esc (JObj kvs) = CHR ''{'' # join_with '','' (map (member_text esc) (sort_key fst kvs)) @ ''}''"
  by (simp add: json_text.simps sort_key_map_snd member_text_def [abs_def] split_beta comp_def)

lemma normal_JObj: "normal (JObj kvs) = JObj (map (map_prod (\<lambda>k. k) normal) (sort_key fst kvs))"
  by (simp add: sort_key_map_snd)

text \<open>The first character of a text tells the constructor and is no delimiter.\<close>

lemma json_text_first:
  "json_text esc JNull = CHR ''n'' # ''ull''"
  "json_text esc (JBool True) = CHR ''t'' # ''rue''"
  "json_text esc (JBool False) = CHR ''f'' # ''alse''"
  "json_text esc (JStr s) = CHR 0x22 # concat (map esc s) @ [CHR 0x22]"
  "json_text esc (JArr xs) = CHR ''['' # join_with '','' (map (json_text esc) xs) @ '']''"
  by (simp_all add: json_text.simps json_string_def)

definition first_char :: "char \<Rightarrow> bool" where
  "first_char c \<longleftrightarrow> digit_or_sign c \<or> c \<in> {CHR ''n'', CHR ''t'', CHR ''f'', CHR 0x22, CHR ''['', CHR ''{''}"

lemma json_text_first_char: "\<exists>c x. json_text esc j = c # x \<and> first_char c"
proof (cases j)
  case (JInt i)
  then show ?thesis
    using dec_int_chars [of i] by (cases "dec_int i") (auto simp: json_text.simps first_char_def)
next
  case (JBool b)
  then show ?thesis by (cases b) (simp_all add: json_text_first first_char_def)
qed (simp_all add: json_text_first json_text_JObj first_char_def)

lemma digit_or_sign_marks [simp]:
  "\<not> digit_or_sign CHR ''n''" "\<not> digit_or_sign CHR ''t''" "\<not> digit_or_sign CHR ''f''"
  "\<not> digit_or_sign CHR 0x22" "\<not> digit_or_sign CHR ''[''" "\<not> digit_or_sign CHR ''{''"
  by (simp_all add: digit_or_sign_def less_eq_char_def)

lemma json_hd:
  "hd (json_text esc JNull) = CHR ''n''" "hd (json_text esc (JBool t)) = (if t then CHR ''t'' else CHR ''f'')"
  "hd (json_text esc (JStr s)) = CHR 0x22" "hd (json_text esc (JArr xs)) = CHR ''[''"
  "hd (json_text esc (JObj kvs)) = CHR ''{''"
  by (cases t; simp add: json_text_first json_text_JObj)+

lemma json_hd_int: "digit_or_sign (hd (json_text esc (JInt i)))"
  using dec_int_chars [of i] by (cases "dec_int i") (simp_all add: json_text.simps)

lemma json_hd_decides:
  "(hd (json_text esc j) = CHR ''n'' \<longrightarrow> j = JNull) \<and> (hd (json_text esc j) = CHR ''t'' \<longrightarrow> j = JBool True)
    \<and> (hd (json_text esc j) = CHR ''f'' \<longrightarrow> j = JBool False) \<and> (hd (json_text esc j) = CHR 0x22 \<longrightarrow> (\<exists>s. j = JStr s))
    \<and> (hd (json_text esc j) = CHR ''['' \<longrightarrow> (\<exists>xs. j = JArr xs)) \<and> (hd (json_text esc j) = CHR ''{'' \<longrightarrow> (\<exists>kvs. j = JObj kvs))
    \<and> (digit_or_sign (hd (json_text esc j)) \<longrightarrow> (\<exists>i. j = JInt i))"
proof (cases j)
  case (JInt i)
  then show ?thesis
    using json_hd_int [of esc i] by (metis digit_or_sign_marks)
qed (simp_all add: json_hd)

lemma json_hd_cases:
  "hd (json_text esc j) = CHR ''n'' \<Longrightarrow> j = JNull"
  "hd (json_text esc j) = CHR ''t'' \<Longrightarrow> j = JBool True"
  "hd (json_text esc j) = CHR ''f'' \<Longrightarrow> j = JBool False"
  "hd (json_text esc j) = CHR 0x22 \<Longrightarrow> \<exists>s. j = JStr s"
  "hd (json_text esc j) = CHR ''['' \<Longrightarrow> \<exists>xs. j = JArr xs"
  "hd (json_text esc j) = CHR ''{'' \<Longrightarrow> \<exists>kvs. j = JObj kvs"
  "digit_or_sign (hd (json_text esc j)) \<Longrightarrow> \<exists>i. j = JInt i"
  using json_hd_decides [of esc j] by blast+

lemma first_char_not_delimiter: "first_char c \<Longrightarrow> c \<noteq> CHR '','' \<and> c \<noteq> CHR '']'' \<and> c \<noteq> CHR ''}''"
  by (auto simp: first_char_def digit_or_sign_def less_eq_char_def)

text \<open>
  A rendering of elements is unambiguous when an element is determined, up to \<open>N\<close>, by its rendering
  followed by a delimiter; a list of renderings separated by commas is then determined, too.
\<close>

definition unambiguous :: "('a \<Rightarrow> string) \<Rightarrow> ('a \<Rightarrow> 'b) \<Rightarrow> 'a \<Rightarrow> bool" where
  "unambiguous f N x \<longleftrightarrow> (\<forall>y r r'. delimited r \<longrightarrow> delimited r' \<longrightarrow> f x @ r = f y @ r' \<longrightarrow> N x = N y \<and> r = r')"

lemma unambiguousD:
  "unambiguous f N x \<Longrightarrow> f x @ r = f y @ r' \<Longrightarrow> delimited r \<Longrightarrow> delimited r' \<Longrightarrow> N x = N y \<and> r = r'"
  by (simp add: unambiguous_def)

lemma delimited_simps [simp]:
  "delimited (CHR '','' # r)" "delimited (CHR '']'' # r)" "delimited (CHR ''}'' # r)" "delimited []"
  by (simp_all add: delimited_def)

lemma join_with_Cons: "join_with sep (x # xs) = x @ (if xs = [] then [] else sep @ join_with sep xs)"
  by (cases xs) simp_all

lemma join_unambiguous:
  assumes "\<And>x. x \<in> set xs \<Longrightarrow> unambiguous f N x"
    and opens: "\<And>x. \<exists>c t. f x = c # t \<and> first_char c"
    and e: "e = CHR '']'' \<or> e = CHR ''}''"
    and "join_with '','' (map f xs) @ e # r = join_with '','' (map f ys) @ e # r'"
  shows "map N xs = map N ys \<and> r = r'"
  using assms(1,4)
proof (induction xs arbitrary: ys)
  case Nil
  show ?case
  proof (cases ys)
    case Nil
    with Nil.prems show ?thesis by simp
  next
    case (Cons y zs)
    obtain c t where "f y = c # t" and "first_char c" using opens by blast
    with Cons Nil.prems(2) e first_char_not_delimiter show ?thesis
      by (auto simp: join_with_Cons split: if_splits)
  qed
next
  case (Cons x xs)
  show ?case
  proof (cases ys)
    case Nil
    obtain c t where "f x = c # t" and "first_char c" using opens by blast
    with Nil Cons.prems(2) e first_char_not_delimiter show ?thesis
      by (auto simp: join_with_Cons split: if_splits)
  next
    case ys: (Cons y zs)
    let ?tail = "\<lambda>xs r. (if xs = [] then e # r else CHR '','' # join_with '','' (map f xs) @ e # r)"
    have "f x @ ?tail xs r = f y @ ?tail zs r'"
      using Cons.prems(2) by (simp add: ys join_with_Cons split: if_splits)
    moreover have "delimited (?tail xs r)" and "delimited (?tail zs r')"
      using e by auto
    ultimately have "N x = N y \<and> ?tail xs r = ?tail zs r'"
      by (rule unambiguousD [OF Cons.prems(1) [OF list.set_intros(1)]])
    then have "N x = N y" and tails: "?tail xs r = ?tail zs r'" by blast+
    have "map N xs = map N zs \<and> r = r'"
    proof (cases "xs = [] \<or> zs = []")
      case True
      with tails e show ?thesis by (auto split: if_splits)
    next
      case False
      with tails show ?thesis by (intro Cons.IH Cons.prems(1)) auto
    qed
    with \<open>N x = N y\<close> show ?thesis by (simp add: ys)
  qed
qed

lemma member_unambiguous:
  assumes "readable esc" and "unambiguous (json_text esc) normal (snd m)"
  shows "unambiguous (member_text esc) (map_prod (\<lambda>k. k) normal) m"
  unfolding unambiguous_def
proof (intro allI impI)
  fix m' r r'
  assume *: "delimited r" "delimited r'" "member_text esc m @ r = member_text esc m' @ r'"
  then have "fst m = fst m'" and "CHR '':'' # json_text esc (snd m) @ r = CHR '':'' # json_text esc (snd m') @ r'"
    using json_string_unique [OF assms(1), of "fst m" "CHR '':'' # json_text esc (snd m) @ r" "fst m'"]
    by (simp_all add: member_text_def)
  moreover from this(2) have "json_text esc (snd m) @ r = json_text esc (snd m') @ r'"
    by simp
  then have "normal (snd m) = normal (snd m') \<and> r = r'"
    by (rule unambiguousD [OF assms(2) _ *(1,2)])
  ultimately show "map_prod (\<lambda>k. k) normal m = map_prod (\<lambda>k. k) normal m' \<and> r = r'"
    by (simp add: prod_eq_iff)
qed

lemma first_differs:
  assumes "json_text esc a @ r = json_text esc b @ r'"
  shows "hd (json_text esc a) = hd (json_text esc b)"
  using assms json_text_first_char [of esc a] json_text_first_char [of esc b] by auto

text \<open>It suffices to compare with values that start with the same character.\<close>

lemma unambiguousI:
  assumes "\<And>b r r'. delimited r \<Longrightarrow> delimited r' \<Longrightarrow> json_text esc a @ r = json_text esc b @ r'
    \<Longrightarrow> hd (json_text esc b) = hd (json_text esc a) \<Longrightarrow> normal a = normal b \<and> r = r'"
  shows "unambiguous (json_text esc) normal a"
  unfolding unambiguous_def
proof (intro allI impI)
  fix b r r'
  assume *: "delimited r" "delimited r'" "json_text esc a @ r = json_text esc b @ r'"
  show "normal a = normal b \<and> r = r'"
    by (rule assms [OF *]) (rule first_differs [OF *(3), symmetric])
qed

lemma json_text_unambiguous:
  assumes esc: "readable esc"
  shows "unambiguous (json_text esc) normal a"
proof (induction a)
  case JNull
  show ?case
    by (rule unambiguousI) (auto simp: json_hd dest!: json_hd_cases)
next
  case (JBool t)
  show ?case
    by (rule unambiguousI) (cases t; auto simp: json_hd dest!: json_hd_cases)
next
  case (JInt i)
  show ?case
  proof (rule unambiguousI)
    fix b r r'
    assume *: "delimited r" "delimited r'" "json_text esc (JInt i) @ r = json_text esc b @ r'"
      "hd (json_text esc b) = hd (json_text esc (JInt i))"
    then obtain j where "b = JInt j"
      using json_hd_int json_hd_cases(7) by metis
    with * dec_int_unique show "normal (JInt i) = normal b \<and> r = r'"
      by (auto simp: json_text.simps)
  qed
next
  case (JStr s)
  show ?case
  proof (rule unambiguousI)
    fix b r r'
    assume *: "json_text esc (JStr s) @ r = json_text esc b @ r'"
      "hd (json_text esc b) = hd (json_text esc (JStr s))"
    then obtain t where "b = JStr t"
      by (auto simp: json_hd dest: json_hd_cases)
    with * json_string_unique [OF esc, of s r t r'] show "normal (JStr s) = normal b \<and> r = r'"
      by (simp add: json_text.simps)
  qed
next
  case (JArr xs)
  show ?case
  proof (rule unambiguousI)
    fix b r r'
    assume *: "json_text esc (JArr xs) @ r = json_text esc b @ r'"
      "hd (json_text esc b) = hd (json_text esc (JArr xs))"
    then obtain ys where b: "b = JArr ys"
      by (auto simp: json_hd dest: json_hd_cases)
    have "join_with '','' (map (json_text esc) xs) @ CHR '']'' # r
        = join_with '','' (map (json_text esc) ys) @ CHR '']'' # r'"
      using *(1) by (simp add: b json_text_first)
    then have "map normal xs = map normal ys \<and> r = r'"
      by (rule join_unambiguous [where f = "json_text esc" and N = normal and e = "CHR '']''",
            rotated 3]) (rule JArr json_text_first_char disjI1 refl | assumption)+
    then show "normal (JArr xs) = normal b \<and> r = r'"
      by (simp add: b)
  qed
next
  case (JObj kvs)
  show ?case
  proof (rule unambiguousI)
    fix b r r'
    assume *: "json_text esc (JObj kvs) @ r = json_text esc b @ r'"
      "hd (json_text esc b) = hd (json_text esc (JObj kvs))"
    then obtain kvs' where b: "b = JObj kvs'"
      by (auto simp: json_hd dest: json_hd_cases)
    have ms: "unambiguous (member_text esc) (map_prod (\<lambda>k. k) normal) m" if "m \<in> set (sort_key fst kvs)" for m
      using that JObj by (intro member_unambiguous esc) (cases m; force)
    have first: "\<exists>c t. member_text esc m = c # t \<and> first_char c" for m
      by (simp add: member_text_def json_string_def first_char_def)
    have "join_with '','' (map (member_text esc) (sort_key fst kvs)) @ CHR ''}'' # r
        = join_with '','' (map (member_text esc) (sort_key fst kvs')) @ CHR ''}'' # r'"
      using *(1) by (simp add: b json_text_JObj)
    then have "map (map_prod (\<lambda>k. k) normal) (sort_key fst kvs)
        = map (map_prod (\<lambda>k. k) normal) (sort_key fst kvs') \<and> r = r'"
      by (rule join_unambiguous [where f = "member_text esc" and N = "map_prod (\<lambda>k. k) normal"
            and e = "CHR ''}''", rotated 3]) (rule ms first disjI2 refl | assumption)+
    then show "normal (JObj kvs) = normal b \<and> r = r'"
      by (simp add: b normal_JObj del: normal.simps)
  qed
qed

lemma json_text_normal: "json_text esc (normal j) = json_text esc j"
proof (induction j)
  case (JArr xs)
  then have "map (json_text esc \<circ> normal) xs = map (json_text esc) xs"
    by (intro map_cong) simp_all
  then show ?case by (simp only: normal.simps json_text.simps list.map_comp)
next
  case (JObj kvs)
  have "sort_key fst (map (map_prod (\<lambda>k. k) normal) (sort_key fst kvs))
      = map (map_prod (\<lambda>k. k) normal) (sort_key fst kvs)"
    by (simp add: sort_key_map_snd sort_key_id_if_sorted)
  moreover have "map (member_text esc \<circ> map_prod (\<lambda>k. k) normal) (sort_key fst kvs)
      = map (member_text esc) (sort_key fst kvs)"
    using JObj by (intro map_cong) (auto simp: member_text_def)
  ultimately show ?case
    by (simp only: json_text_JObj normal_JObj list.map_comp)
qed (simp_all add: json_text.simps)

lemma json_text_iff:
  assumes "readable esc"
  shows "json_text esc a = json_text esc b \<longleftrightarrow> normal a = normal b"
proof
  assume "json_text esc a = json_text esc b"
  then have "json_text esc a @ [] = json_text esc b @ []" by simp
  from unambiguousD [OF json_text_unambiguous [OF assms] this] show "normal a = normal b" by simp
next
  assume "normal a = normal b"
  then show "json_text esc a = json_text esc b" by (metis json_text_normal)
qed

section \<open>Bytes and digests\<close>

lemma utf8_char_unique:
  assumes "utf8_char c @ x = utf8_char d @ y"
  shows "c = d \<and> x = y"
proof -
  have lead: "of_char (char_of (192 + n div 64) :: char) = 192 + n div 64"
      "of_char (char_of (128 + n mod 64) :: char) = 128 + n mod 64" if "n < 256" for n :: nat
    using that by simp_all
  have bound: "of_char a < (256 :: nat)" for a :: char
    by (rule nat_of_char_less_256)
  have eqI: "c = d" if "of_char c = (of_char d :: nat)"
    using that by simp
  show ?thesis
  proof (cases "of_char c < (128 :: nat)"; cases "of_char d < (128 :: nat)")
    assume "\<not> of_char c < (128 :: nat)" "\<not> of_char d < (128 :: nat)"
    then have *: "char_of (192 + of_char c div 64 :: nat) = (char_of (192 + of_char d div 64 :: nat) :: char)"
        "char_of (128 + of_char c mod 64 :: nat) = (char_of (128 + of_char d mod 64 :: nat) :: char)" "x = y"
      using assms by (simp_all add: utf8_char_def Let_def)
    have "of_char c div 64 = (of_char d div 64 :: nat)" "of_char c mod 64 = (of_char d mod 64 :: nat)"
      using arg_cong [OF *(1), of "of_char :: char \<Rightarrow> nat"] arg_cong [OF *(2), of "of_char :: char \<Rightarrow> nat"]
        lead [OF bound] by simp_all
    then have "of_char c = (of_char d :: nat)"
      by (metis div_mult_mod_eq)
    with *(3) eqI show ?thesis by simp
  next
    assume c: "of_char c < (128 :: nat)" and d: "\<not> of_char d < (128 :: nat)"
    then have "c = char_of (192 + of_char d div 64 :: nat)"
      using assms by (simp add: utf8_char_def Let_def)
    then have "of_char c = (192 + of_char d div 64 :: nat)"
      using lead(1) [OF bound] by metis
    with c show ?thesis by simp
  next
    assume c: "\<not> of_char c < (128 :: nat)" and d: "of_char d < (128 :: nat)"
    then have "d = char_of (192 + of_char c div 64 :: nat)"
      using assms by (simp add: utf8_char_def Let_def)
    then have "of_char d = (192 + of_char c div 64 :: nat)"
      using lead(1) [OF bound] by metis
    with d show ?thesis by simp
  qed (use assms in \<open>simp add: utf8_char_def Let_def\<close>)
qed

lemma utf8_inject: "utf8 s = utf8 t \<longleftrightarrow> s = t"
proof
  assume "utf8 s = utf8 t"
  then show "s = t"
  proof (induction s arbitrary: t)
    case Nil
    then show ?case by (cases t) (auto simp: utf8_def utf8_char_def Let_def split: if_splits)
  next
    case (Cons c s)
    then obtain d u where "t = d # u"
      by (cases t) (auto simp: utf8_def utf8_char_def Let_def split: if_splits)
    with Cons utf8_char_unique [of c "utf8 s" d "utf8 u"] show ?case
      by (simp add: utf8_def)
  qed
qed simp

definition collision :: "(string \<Rightarrow> string) \<Rightarrow> string \<Rightarrow> string \<Rightarrow> bool" where
  "collision h x y \<longleftrightarrow> x \<noteq> y \<and> h x = h y"

text \<open>
  C31: the canonical bytes of two documents agree exactly when the documents agree up to the order of
  object members, at every level; and two request fingerprints agree exactly when the requests do
  or the digest collides on their texts. Escapes, numbers next to delimiters and UTF-8 lose nothing.
\<close>

theorem canonical_text_identifies:
  "(canonical_json_bytes m = canonical_json_bytes m' \<longleftrightarrow> normal (JObj m) = normal (JObj m'))
    \<and> (fingerprint h a = fingerprint h b
        \<longleftrightarrow> normal a = normal b \<or> collision h (json_dumps a) (json_dumps b))"
  using json_text_iff [OF readable_json_char, of a b]
  by (auto simp: canonical_json_bytes_def utf8_inject json_text_iff [OF readable_json_char_raw]
      fingerprint_def collision_def simp del: normal.simps)

end
