(* ===== verification/License_Invariant.thy ===== *)
theory License_Invariant
  imports License Json_Roundtrip
begin

text \<open>
  Facts of the licence service: the arithmetic of signatures, what the checks of a document accept,
  what an application leaves behind, the step relation, the invariant of the repository and its
  contracts.
\<close>

section \<open>Arithmetic of signatures\<close>

lemma pow_mod_eq: "pow_mod b e n = b ^ e mod n"
proof (induction b e n rule: pow_mod.induct)
  case (1 b e n)
  show ?case
  proof (cases "e = 0")
    case True
    then show ?thesis by (subst pow_mod.simps) simp
  next
    case False
    have half: "pow_mod (b * b mod n) (e div 2) n = (b * b) ^ (e div 2) mod n"
      using 1 False by (simp add: power_mod)
    have "b ^ e = (if e mod 2 = 1 then b * (b * b) ^ (e div 2) else (b * b) ^ (e div 2))"
    proof -
      have "b ^ (2 * (e div 2) + e mod 2) = (b * b) ^ (e div 2) * b ^ (e mod 2)"
        by (simp only: power_add power_mult power2_eq_square)
      moreover have "e mod 2 = 0 \<or> e mod 2 = 1" by auto
      ultimately show ?thesis by auto
    qed
    then show ?thesis
      using False half by (subst pow_mod.simps) (simp add: Let_def mod_mult_right_eq)
  qed
qed

lemma bit_length_bound: "n < 2 ^ bit_length n"
proof (induction n rule: bit_length.induct)
  case (1 n)
  show ?case
  proof (cases "n = 0")
    case True
    then show ?thesis by (simp add: bit_length.simps [of 0])
  next
    case False
    then have "n div 2 < 2 ^ bit_length (n div 2)" by (rule 1)
    then show ?thesis
      using False by (subst bit_length.simps) simp
  qed
qed

lemma from_bytes_snoc: "from_bytes (s @ [c]) = 256 * from_bytes s + of_char c"
  by (simp add: from_bytes_def)

lemma from_to_bytes: "from_bytes (to_bytes w n) = n mod 256 ^ w"
proof (induction w arbitrary: n)
  case 0
  then show ?case by (simp add: from_bytes_def)
next
  case (Suc w)
  have "256 * (n div 256 mod 256 ^ w) + n mod 256 = n mod (256 * 256 ^ w)"
    by (simp add: mod_mult2_eq)
  then show ?case
    by (simp add: from_bytes_snoc Suc)
qed

lemma signature_validD:
  assumes "signature_valid h key msg sig"
  shows "from_bytes sig ^ exponent key mod modulus key
      = from_bytes (expected_block h ((bit_length (modulus key) + 7) div 8) msg)"
    and "8 \<le> padding_length h ((bit_length (modulus key) + 7) div 8) msg"
    and "from_bytes sig < modulus key"
proof -
  define w where "w = (bit_length (modulus key) + 7) div 8"
  have block: "to_bytes w (from_bytes sig ^ exponent key mod modulus key) = expected_block h w msg"
    and "from_bytes sig < modulus key" and "8 \<le> padding_length h w msg"
    using assms by (simp_all add: signature_valid_def w_def [symmetric] Let_def pow_mod_eq)
  then show "from_bytes sig < modulus key" "8 \<le> padding_length h w msg" by simp_all
  have "modulus key < 2 ^ bit_length (modulus key)"
    by (rule bit_length_bound)
  also have "\<dots> \<le> 2 ^ (8 * w)"
    by (intro power_increasing) (simp_all add: w_def)
  also have "\<dots> = 256 ^ w"
    by (simp add: power_mult)
  finally have "from_bytes sig ^ exponent key mod modulus key < 256 ^ w"
    using \<open>from_bytes sig < modulus key\<close> less_trans [OF mod_less_divisor] by simp
  then show "from_bytes sig ^ exponent key mod modulus key = from_bytes (expected_block h w msg)"
    using from_to_bytes [of w] block by (metis mod_less)
qed

lemma expected_block_digest:
  assumes "expected_block h w msg = expected_block h w msg'"
    and "8 \<le> padding_length h w msg" and "8 \<le> padding_length h w msg'"
  shows "h msg = h msg'"
proof -
  have stop: "takeWhile (\<lambda>c. c = CHR 0xFF) (replicate n CHR 0xFF @ CHR 0x00 # x) = replicate n CHR 0xFF" for n x
    by (induction n) simp_all
  have eq: "replicate (nat (padding_length h w msg)) CHR 0xFF @ CHR 0x00 # digest_info_sha256 @ h msg
      = replicate (nat (padding_length h w msg')) CHR 0xFF @ CHR 0x00 # digest_info_sha256 @ h msg'"
    using assms(1) by (simp add: expected_block_def)
  then have "nat (padding_length h w msg) = nat (padding_length h w msg')"
    using stop by (metis length_replicate)
  with eq show ?thesis by simp
qed

text \<open>What an accepted document looks like.\<close>

lemma verify_rsa_cases:
  assumes "verify_rsa h keys doc = Inr (m, digest, kid)"
  obtains d key enc sig where "doc = JObj d" and "dict_get d ''claims'' = Some (JObj m)"
    and "dict_get d ''key_id'' = Some (JStr kid)" and "dict_get keys kid = Some key"
    and "dict_get d ''signature'' = Some (JStr enc)" and "decode_base64url (Some (JStr enc)) = Inr sig"
    and "signature_valid h key (canonical_claims m) sig" and "digest = hexdigest h (canonical_claims m)"
  using assms
  by (auto simp: verify_rsa_def decode_base64url_def Let_def split: json.splits if_splits option.splits sum.splits)

section \<open>What the checks accept\<close>

lemma code_list_codes: "code_list xs = Some fs \<Longrightarrow> list_all safe_code fs \<and> length fs = length xs"
  by (induction xs arbitrary: fs rule: code_list.induct) (auto split: if_splits)

lemma features_checkedD:
  assumes "features_checked v = Some fs"
  shows "list_all safe_code fs" and "1 \<le> length fs" and "length fs \<le> 64" and "sorted fs" and "distinct fs"
proof -
  obtain xs where "code_list xs = Some fs" "1 \<le> length xs" "length xs \<le> 64" and fs: "fs = sort (remdups fs)"
    using assms by (auto simp: features_checked_def split: option.splits json.splits if_splits)
  then show "list_all safe_code fs" "1 \<le> length fs" "length fs \<le> 64"
    using code_list_codes by auto
  show "sorted fs" "distinct fs"
    by (subst fs, simp)+
qed

definition limit_ok :: "string \<times> int \<Rightarrow> bool" where
  "limit_ok x \<longleftrightarrow> fst x \<in> set resource_codes \<and> 1 \<le> snd x \<and> snd x \<le> 9223372036854775807"

lemma limit_list_ok: "limit_list m = Some ls \<Longrightarrow> list_all limit_ok ls \<and> length ls = length m"
  by (induction m arbitrary: ls rule: limit_list.induct) (auto simp: limit_ok_def split: if_splits)

lemma limits_checkedD:
  assumes "limits_checked v = Some ls"
  shows "list_all limit_ok ls" and "ls \<noteq> []" and "sorted (map fst ls)"
proof -
  obtain m where "limit_list m = Some ls" "1 \<le> length m" and ls: "ls = sort_key fst ls"
    using assms by (auto simp: limits_checked_def split: option.splits json.splits if_splits)
  then show "list_all limit_ok ls" "ls \<noteq> []"
    using limit_list_ok by fastforce+
  show "sorted (map fst ls)"
    by (subst ls) simp
qed

text \<open>A licence that is sound for a product and an organization at an instant.\<close>

definition license_sound :: "string \<Rightarrow> string \<Rightarrow> verified_license \<Rightarrow> bool" where
  "license_sound prd org l \<longleftrightarrow> product l = prd \<and> organization_id l = org \<and> issued_at l < expires_at l
    \<and> list_all safe_code (features l) \<and> 1 \<le> length (features l) \<and> length (features l) \<le> 64
    \<and> sorted (features l) \<and> distinct (features l)
    \<and> list_all limit_ok (resource_limits l) \<and> resource_limits l \<noteq> [] \<and> sorted (map fst (resource_limits l))
    \<and> safe_id (license_id l) \<and> 5 \<le> length (license_id l)"

lemma license_from_claims_sound:
  assumes "license_from_claims m digest kid prd org issued expires now = Inr l"
  shows "license_sound prd org l" and "issued_at l \<le> now + 300000000" and "now < expires_at l"
    and "claims_digest l = digest" and "key_id l = kid"
proof -
  obtain fs limits lid ed where "features_checked (dict_get m ''features'') = Some fs"
    and "limits_checked (dict_get m ''resource_limits'') = Some limits"
    and "safe_claim_text (dict_get m ''license_id'') = Inr lid" and "5 \<le> length lid"
    and l: "l = \<lparr>license_id = lid, product = prd, edition = ed, organization_id = org,
       issued_at = issued, expires_at = expires, features = fs, resource_limits = limits,
       claims_digest = digest, key_id = kid\<rparr>"
    and "issued \<le> now + 300000000" and "issued < expires" and "now < expires"
    using assms by (auto simp: license_from_claims_def split: if_splits option.splits sum.splits)
  moreover from this(3) have "safe_id lid"
    by (auto simp: safe_claim_text_def split: option.splits json.splits if_splits)
  ultimately show "license_sound prd org l" "issued_at l \<le> now + 300000000" "now < expires_at l"
      "claims_digest l = digest" "key_id l = kid"
    using features_checkedD limits_checkedD by (simp_all add: license_sound_def)
qed

lemma verify_document_cases:
  assumes "verify_document cfg c doc s = (r, t)"
  obtains (refused) e where "r = Inl e" and "t = s \<or> t = snd (read_clock cfg s)"
    | (verified) l m digest kid issued expires where "r = Inr l" and "t = snd (read_clock cfg s)"
      and "verifier cfg doc = Inr (m, digest, kid)"
      and "license_from_claims m digest kid (product_code cfg) (tenant_id c) issued expires
        (clock cfg (clock_reads s)) = Inr l"
proof (cases "verifier cfg doc")
  case (Inl e)
  with assms refused show thesis by (auto simp: verify_document_def)
next
  case (Inr v)
  obtain m digest kid where v: "v = (m, digest, kid)" by (cases v)
  show thesis
  proof (cases r)
    case (Inl e)
    with assms Inr v show thesis
      by (intro refused) (auto simp: verify_document_def read_clock_def split: attempt_splits if_splits)
  next
    case (Inr l)
    with assms \<open>verifier cfg doc = Inr v\<close> v show thesis
      by (auto simp: verify_document_def read_clock_def intro: verified split: attempt_splits if_splits)
  qed
qed

section \<open>What an application leaves behind\<close>

definition same_licenses :: "license_state \<Rightarrow> license_state \<Rightarrow> bool" where
  "same_licenses s t \<longleftrightarrow> license_values t = license_values s \<and> idempotency t = idempotency s"

lemma same_licenses_refl [simp]: "same_licenses s s"
  by (simp add: same_licenses_def)

lemma same_licenses_clock [simp]: "same_licenses s (snd (read_clock cfg s))"
  by (simp add: same_licenses_def read_clock_def)

lemma same_licenses_tenant: "same_licenses s t \<Longrightarrow> tenant_licenses o1 t = tenant_licenses o1 s"
  by (simp add: same_licenses_def tenant_licenses_def)

lemma view_license_frame: "view_license cfg c l s = (r, t) \<Longrightarrow> same_licenses s t"
  by (auto simp: view_license_def read_clock_def same_licenses_def split: attempt_splits)

lemma show_replayed_frame: "show_replayed cfg c l s = (r, t) \<Longrightarrow> same_licenses s t"
  by (auto simp: show_replayed_def dest!: view_license_frame split: prod.splits sum.splits)

lemma same_licenses_trans: "same_licenses s t \<Longrightarrow> same_licenses t u \<Longrightarrow> same_licenses s u"
  by (simp add: same_licenses_def)

text \<open>The store after a licence was recorded.\<close>

definition recorded ::
  "license_context \<Rightarrow> string \<Rightarrow> string \<Rightarrow> verified_license \<Rightarrow> license_state \<Rightarrow> license_state \<Rightarrow> bool" where
  "recorded c k f l s t \<longleftrightarrow>
    license_values t = dict_set (tenant_id c) (tenant_licenses (tenant_id c) s @ [l]) (license_values s)
    \<and> idempotency t = dict_set (license_key c k) (f, l) (idempotency s)"

lemma recorded_tenant:
  "recorded c k f l s t \<Longrightarrow> tenant_licenses o1 t
    = (if o1 = tenant_id c then tenant_licenses o1 s @ [l] else tenant_licenses o1 s)"
  by (auto simp: recorded_def tenant_licenses_def)

lemma apply_verified_cases:
  assumes "apply_verified cfg c l k f s = (r, t)" and "dict_get (idempotency s) (license_key c k) = None"
  obtains "recorded c k f l s t" and "\<forall>v b. r = Inr (v, b) \<longrightarrow> \<not> b"
proof -
  define s1 where "s1 = s\<lparr>license_values := dict_set (tenant_id c) (tenant_licenses (tenant_id c) s @ [l]) (license_values s),
      idempotency := dict_set (license_key c k) (f, l) (idempotency s)\<rparr>"
  obtain r1 t1 where v: "view_license cfg c l s1 = (r1, t1)" by fastforce
  have "repository_apply c l k f s = (Inr (l, False), s1)"
    using assms(2) by (simp add: repository_apply_def replay_lookup_def s1_def)
  then have "t = t1" and "\<forall>v b. r = Inr (v, b) \<longrightarrow> \<not> b"
    using assms(1) v by (auto simp: apply_verified_def split: sum.splits)
  moreover from this have "recorded c k f l s t"
    using view_license_frame [OF v] by (simp add: recorded_def same_licenses_def s1_def)
  ultimately show thesis using that by blast
qed

lemma apply_cases:
  assumes "apply_license cfg c doc k s = (r, t)"
  obtains (refused) e where "r = Inl e" and "same_licenses s t"
    | (replayed) f l where "request_fingerprint cfg c doc = Inr f" and "idempotency_key_checked k = Inr k"
      and "dict_get (idempotency s) (license_key c k) = Some (f, l)"
      and "show_replayed cfg c l s = (r, t)" and "same_licenses s t"
    | (stored) f l s1 where "request_fingerprint cfg c doc = Inr f" and "idempotency_key_checked k = Inr k"
      and "dict_get (idempotency s) (license_key c k) = None"
      and "verify_document cfg c doc s = (Inr l, s1)" and "recorded c k f l s t"
      and "\<forall>v b. r = Inr (v, b) \<longrightarrow> \<not> b"
proof (cases "idempotency_key_checked k")
  case (Inl e)
  with assms refused show thesis by (auto simp: apply_license_def)
next
  case k: (Inr k')
  then have "k' = k" by (auto simp: idempotency_key_checked_def split: if_splits)
  note k = k [unfolded this]
  show thesis
  proof (cases "request_fingerprint cfg c doc")
    case (Inl e)
    with assms k refused show thesis by (auto simp: apply_license_def)
  next
    case f: (Inr f)
    show thesis
    proof (cases "dict_get (idempotency s) (license_key c k)")
      case None
      obtain r1 s1 where v: "verify_document cfg c doc s = (r1, s1)" by fastforce
      show thesis
      proof (cases r1)
        case (Inl e)
        have "same_licenses s s1"
          using v by (cases rule: verify_document_cases) auto
        with Inl assms k f None v show thesis
          by (intro refused) (auto simp: apply_license_def repository_replay_def replay_lookup_def)
      next
        case (Inr l)
        have frame: "same_licenses s s1"
          using v by (cases rule: verify_document_cases) auto
        have "apply_verified cfg c l k f s1 = (r, t)"
          using Inr assms k f None v by (simp add: apply_license_def repository_replay_def replay_lookup_def)
        moreover have "dict_get (idempotency s1) (license_key c k) = None"
          using None frame by (simp add: same_licenses_def)
        ultimately obtain "recorded c k f l s1 t" and "\<forall>v b. r = Inr (v, b) \<longrightarrow> \<not> b"
          by (rule apply_verified_cases)
        moreover from this(1) frame have "recorded c k f l s t"
          by (simp add: recorded_def same_licenses_def tenant_licenses_def)
        ultimately show thesis
          using stored [OF f k None] v Inr by blast
      qed
    next
      case (Some fl)
      obtain f' l where fl: "fl = (f', l)" by (cases fl)
      show thesis
      proof (cases "f' = f")
        case True
        then have "show_replayed cfg c l s = (r, t)"
          using assms k f Some fl by (simp add: apply_license_def repository_replay_def replay_lookup_def)
        with True show thesis
          using replayed [OF f k] Some fl show_replayed_frame by blast
      next
        case False
        with assms k f Some fl refused show thesis
          by (auto simp: apply_license_def repository_replay_def replay_lookup_def)
      qed
    qed
  qed
qed

section \<open>Steps and the invariant\<close>

inductive license_step ::
  "license_service \<Rightarrow> string \<Rightarrow> license_state \<Rightarrow> license_state \<Rightarrow> bool" for cfg where
  step_apply: "apply_license cfg c doc k s = (r, t) \<Longrightarrow> license_step cfg (tenant_id c) s t"
| step_replay: "replay_license cfg c doc k s = (p, t) \<Longrightarrow> license_step cfg (tenant_id c) s t"
| step_get: "get_license cfg c s = (v, t) \<Longrightarrow> license_step cfg (tenant_id c) s t"
| step_creation: "require_creation cfg c action increments s = (u, t) \<Longrightarrow> license_step cfg (tenant_id c) s t"
| step_generation: "require_new_generation cfg c s = (u, t) \<Longrightarrow> license_step cfg (tenant_id c) s t"

definition license_start :: "license_state \<Rightarrow> bool" where
  "license_start s \<longleftrightarrow> s = empty_repository"

definition entries_of :: "string \<Rightarrow> license_state \<Rightarrow> nat" where
  "entries_of t s = length (filter (\<lambda>e. fst (fst e) = t) (idempotency s))"

definition license_inv :: "license_service \<Rightarrow> license_state \<Rightarrow> bool" where
  "license_inv cfg s \<longleftrightarrow>
    (\<forall>t l. l \<in> set (tenant_licenses t s) \<longrightarrow> license_sound (product_code cfg) t l)
    \<and> (\<forall>k f l. dict_get (idempotency s) k = Some (f, l) \<longrightarrow> l \<in> set (tenant_licenses (fst k) s))
    \<and> (\<forall>t. length (tenant_licenses t s) = entries_of t s)"

lemma same_licenses_inv: "same_licenses s t \<Longrightarrow> license_inv cfg s \<Longrightarrow> license_inv cfg t"
  unfolding license_inv_def entries_of_def by (simp add: same_licenses_tenant) (simp add: same_licenses_def)

lemma require_llm_frame: "require_llm_access cfg c s = (u, t) \<Longrightarrow> same_licenses s t"
  by (auto simp: require_llm_access_def read_clock_def same_licenses_def split: option.splits if_splits)

lemma require_creation_frame: "require_creation cfg c a xs s = (u, t) \<Longrightarrow> same_licenses s t"
  by (auto simp: require_creation_def read_clock_def same_licenses_def Let_def
      dest!: require_llm_frame split: option.splits if_splits prod.splits)

lemma replay_license_frame: "replay_license cfg c doc k s = (p, t) \<Longrightarrow> same_licenses s t"
  by (auto simp: replay_license_def dest!: show_replayed_frame
      split: attempt_splits option.splits prod.splits sum.splits)

lemma get_license_frame: "get_license cfg c s = (v, t) \<Longrightarrow> same_licenses s t"
  by (auto simp: get_license_def dest: view_license_frame split: option.splits attempt_splits)

text \<open>A step records at most one licence, verified for the tenant of the caller.\<close>

lemma license_step_cases:
  assumes "license_step cfg o1 s t"
  obtains (quiet) "same_licenses s t"
    | (recorded) c k f l where "o1 = tenant_id c" and "recorded c k f l s t"
      and "dict_get (idempotency s) (license_key c k) = None"
      and "license_sound (product_code cfg) (tenant_id c) l"
  using assms
proof (cases rule: license_step.cases)
  case (step_apply c doc k r)
  from step_apply(2) show thesis
  proof (cases rule: apply_cases)
    case (stored f l s1)
    from stored(4) have "license_sound (product_code cfg) (tenant_id c) l"
      by (cases rule: verify_document_cases) (auto dest: license_from_claims_sound)
    with stored step_apply(1) show thesis by (intro recorded)
  qed (use quiet in blast)+
qed (auto simp: require_new_generation_def intro: quiet
    dest: replay_license_frame get_license_frame require_creation_frame require_llm_frame)

lemma filter_dict_set_new:
  "dict_get d k = None \<Longrightarrow> length (filter P (dict_set k v d)) = length (filter P d) + (if P (k, v) then 1 else 0)"
  by (induction d) (auto split: if_splits)

lemma license_inv_step:
  assumes "license_step cfg o1 s t" and "license_inv cfg s"
  shows "license_inv cfg t"
  using assms(1)
proof (cases rule: license_step_cases)
  case quiet
  with assms(2) show ?thesis by (simp add: same_licenses_inv)
next
  case (recorded c k f l)
  note new = recorded_tenant [OF recorded(2)]
  have "idempotency t = dict_set (license_key c k) (f, l) (idempotency s)"
    using recorded(2) by (simp add: recorded_def)
  then show ?thesis
    using assms(2) recorded(3,4) filter_dict_set_new [OF recorded(3), of "\<lambda>e. fst (fst e) = o2" for o2]
    unfolding license_inv_def entries_of_def
    by (auto simp: new license_key_def split: if_splits)
qed

lemma license_inv_start: "license_start s \<Longrightarrow> license_inv cfg s"
  by (simp add: license_start_def license_inv_def empty_repository_def tenant_licenses_def entries_of_def)

section \<open>The contracts\<close>

definition nth_license :: "license_state \<Rightarrow> string \<times> nat \<Rightarrow> verified_license option" where
  "nth_license s x = (let ls = tenant_licenses (fst x) s in if snd x < length ls then Some (ls ! snd x) else None)"

lemma step_nth_license:
  assumes "license_step cfg o1 s t" and "nth_license s x = Some l"
  shows "nth_license t x = Some l"
  using assms(1)
proof (cases rule: license_step_cases)
  case quiet
  with assms(2) show ?thesis by (simp add: nth_license_def same_licenses_tenant)
next
  case (recorded c k f l')
  with assms(2) show ?thesis
    by (auto simp: nth_license_def recorded_tenant nth_append Let_def split: if_splits)
qed

interpretation licenses: scoped_service license_start "license_step cfg" "license_inv cfg"
  nth_license organization_id for cfg
proof unfold_locales
  fix s t o1 x l
  show "license_start s \<Longrightarrow> license_inv cfg s"
    by (rule license_inv_start)
  assume inv: "license_inv cfg s" and step: "license_step cfg o1 s t"
  show "license_inv cfg t"
    by (rule license_inv_step [OF step inv])
  assume "nth_license s x = Some l"
  then have "nth_license t x = Some l"
    by (rule step_nth_license [OF step])
  then show "nth_license t x = Some l" "\<exists>l'. nth_license t x = Some l' \<and> organization_id l' = organization_id l"
    by simp_all
qed

interpretation license_ledger: replay_ledger replay_lookup "\<lambda>d k f l. dict_set k (f, l) d"
  "LicenseError ''IDEMPOTENCY_KEY_REUSED'' 409"
  by unfold_locales (simp_all add: replay_lookup_def)

lemma runs_license_ledger:
  assumes "runs (license_step cfg) s cs t" and "dict_get (idempotency s) k = Some v"
  shows "dict_get (idempotency t) k = Some v"
  using assms
proof (induction rule: runs.induct)
  case (runs_more o1 s t cs u)
  from runs_more(1) have "dict_get (idempotency t) k = Some v"
    by (cases rule: license_step_cases)
      (use runs_more(4) in \<open>auto simp: same_licenses_def recorded_def\<close>)
  with runs_more show ?case by blast
qed

end
