(* ===== verification/License_Properties.thy ===== *)
theory License_Properties
  imports License_Invariant
begin

text \<open>
  The properties of the licence service. The witnesses use a signed document that is checked in
  full: the signature is a power of two whose cube the modulus was chosen to reduce to the padded
  digest of the claims, so that the verification runs on a modulus of 2100 bits.
\<close>

section \<open>A signed document\<close>

lemma to_from_bytes: "length s = w \<Longrightarrow> to_bytes w (from_bytes s) = s"
proof (induction s arbitrary: w rule: rev_induct)
  case (snoc c s)
  have byte: "of_char c < (256 :: nat)" by (rule nat_of_char_less_256)
  have "(256 * from_bytes s + of_char c) div 256 = from_bytes s"
    using byte by simp
  moreover have "char_of (256 * from_bytes s + of_char c :: nat) = c"
    using char_of_mod_256 [of "256 * from_bytes s + of_char c :: nat"] byte by simp
  ultimately show ?case
    using snoc by (cases w) (simp_all add: from_bytes_snoc)
qed (simp add: from_bytes_def)

definition demo_sha :: "string \<Rightarrow> string" where
  "demo_sha s = []"

definition demo_claims :: claims where
  "demo_claims = [(''schema_version'', JInt 1), (''license_id'', JStr ''L-100''), (''product'', JStr ''daon''),
     (''edition'', JStr ''team''), (''organization_id'', JStr ''t1''), (''issued_at'', JStr ''1Z''),
     (''expires_at'', JStr ''2Z''), (''features'', JArr [JStr ''notebook_management'']),
     (''resource_limits'', JObj [(''notebooks'', JInt 5)])]"

definition demo_text :: string where
  "demo_text = replicate (4 * 58) CHR ''A'' @ ''ABAA'' @ replicate (4 * 28) CHR ''A'' @ ''AAA''"

definition demo_document :: json where
  "demo_document = JObj [(''schema_version'', JInt 1), (''key_id'', JStr ''k1''), (''algorithm'', JStr ''RS256''),
     (''claims'', JObj demo_claims), (''signature'', JStr demo_text)]"

definition demo_block :: string where
  "demo_block = expected_block demo_sha 263 []"

definition demo_modulus :: nat where
  "demo_modulus = 2 ^ 2100 - from_bytes demo_block"

definition demo_keys :: "(string, rsa_public_key) dict" where
  "demo_keys = [(''k1'', \<lparr>modulus = demo_modulus, exponent = 3\<rparr>)]"

definition demo_service :: license_service where
  "demo_service = \<lparr>clock = (\<lambda>n. 1000), sha256 = demo_sha,
     fromisoformat = (\<lambda>s. Some (if s = ''1+00:00'' then 900 else 5000, 0)),
     iso_seconds = (\<lambda>n. dec_int n), product_code = ''daon'',
     verifier = verify_rsa demo_sha demo_keys, usage_reader = (\<lambda>c. [(''notebooks'', 4)])\<rparr>"

definition demo_context :: license_context where
  "demo_context = \<lparr>tenant_id = ''t1'', workspace_id = ''w1'', actor_id = ''u1'', trace_id = ''x1'',
     policy_version = ''v1''\<rparr>"

definition demo_license :: verified_license where
  "demo_license = \<lparr>license_id = ''L-100'', product = ''daon'', edition = ''team'', organization_id = ''t1'',
     issued_at = 900, expires_at = 5000, features = [''notebook_management''],
     resource_limits = [(''notebooks'', 5)], claims_digest = [], key_id = ''k1''\<rparr>"

lemma demo_block_eq: "expected_block demo_sha 263 msg = demo_block" "padding_length demo_sha 263 msg = 241"
  "length demo_block = 263"
  by (simp_all add: demo_block_def expected_block_def padding_length_def demo_sha_def digest_info_sha256_def)

lemma from_bytes_bound: "from_bytes s < 256 ^ length s"
proof (induction s rule: rev_induct)
  case (snoc c s)
  have "from_bytes (s @ [c]) < 256 * (from_bytes s + 1)"
    using nat_of_char_less_256 [of c] by (simp add: from_bytes_snoc del: nat_of_char_less_256)
  also have "\<dots> \<le> 256 * 256 ^ length s"
    using snoc by (intro mult_le_mono) simp_all
  finally show ?case by simp
qed (simp add: from_bytes_def)

lemma from_bytes_append: "from_bytes (s @ t) = from_bytes s * 256 ^ length t + from_bytes t"
proof (induction t rule: rev_induct)
  case (snoc c t)
  then show ?case
    by (simp add: from_bytes_snoc algebra_simps flip: append_assoc)
qed (simp add: from_bytes_def)

lemma from_bytes_zeros [simp]: "from_bytes (replicate n CHR 0x00) = 0"
  by (induction n) (simp_all add: from_bytes_def)

lemma demo_block_small: "from_bytes demo_block < 2 ^ 2089" "0 < from_bytes demo_block"
proof -
  obtain rest where rest: "demo_block = [CHR 0x00, CHR 0x01] @ rest"
    by (simp add: demo_block_def expected_block_def)
  have "length demo_block = 2 + length rest" unfolding rest by simp
  with demo_block_eq(3) have len: "length rest = 261" by simp
  have val: "from_bytes demo_block = 256 ^ 261 + from_bytes rest"
    by (simp add: rest from_bytes_append [of _ rest] len del: append_Cons append_Nil)
      (simp add: from_bytes_def)
  also have "\<dots> < 256 ^ 261 + 256 ^ 261"
    using from_bytes_bound [of rest] len by simp
  also have "\<dots> = (2 :: nat) ^ 2089"
    by simp
  finally show "from_bytes demo_block < 2 ^ 2089" .
  show "0 < from_bytes demo_block" by (simp add: val)
qed

lemma bit_length_0 [simp]: "bit_length 0 = 0"
  by (subst bit_length.simps) simp

lemma bit_length_eq: "2 ^ k \<le> n \<Longrightarrow> n < 2 ^ Suc k \<Longrightarrow> bit_length n = Suc k"
proof (induction k arbitrary: n)
  case 0
  then have "n = 1" by simp
  then show ?case by (subst bit_length.simps) simp
next
  case (Suc k)
  then have "bit_length (n div 2) = Suc k" by (intro Suc.IH) auto
  moreover have "n \<noteq> 0" using Suc.prems(1) by (metis not_one_le_zero power_eq_0_iff le_zero_eq zero_neq_numeral)
  ultimately show ?case by (subst bit_length.simps) simp
qed

lemma demo_modulus_size: "bit_length demo_modulus = 2100" "2 ^ 2089 \<le> demo_modulus"
proof -
  have "(2 :: nat) ^ 2089 + 2 ^ 2099 \<le> 2 ^ 2100"
    by simp
  with demo_block_small show "2 ^ 2089 \<le> demo_modulus"
    by (simp add: demo_modulus_def)
  have "2 ^ 2099 \<le> demo_modulus" "demo_modulus < 2 ^ Suc 2099"
    using \<open>2 ^ 2089 + 2 ^ 2099 \<le> 2 ^ 2100\<close> demo_block_small
    by (simp_all add: demo_modulus_def)
  then have "bit_length demo_modulus = Suc 2099" by (rule bit_length_eq)
  then show "bit_length demo_modulus = 2100" by simp
qed

text \<open>The signature decodes to 263 bytes that denote \<open>2 ^ 700\<close>.\<close>

definition demo_signature :: string where
  "demo_signature = replicate (3 * 58) CHR 0x00 @ [CHR 0x00, CHR 0x10, CHR 0x00]
     @ replicate (3 * 28) CHR 0x00 @ [CHR 0x00, CHR 0x00]"

lemma digits_of_append:
  "digits_of s = Some ds \<Longrightarrow> digits_of t = Some es \<Longrightarrow> digits_of (s @ t) = Some (ds @ es)"
  by (induction s arbitrary: ds) (auto split: option.splits)

lemma digits_of_zeros: "digits_of (replicate n CHR ''A'') = Some (replicate n 0)"
  by (induction n) (simp_all add: base64_digit_def)

lemma base64_zeros:
  "base64_bytes ds = Some bs \<Longrightarrow> base64_bytes (replicate (4 * n) 0 @ ds) = Some (replicate (3 * n) CHR 0x00 @ bs)"
proof (induction n)
  case (Suc n)
  have "replicate (4 * Suc n) (0 :: nat) = 0 # 0 # 0 # 0 # replicate (4 * n) 0"
    "replicate (3 * Suc n) CHR 0x00 = CHR 0x00 # CHR 0x00 # CHR 0x00 # replicate (3 * n) CHR 0x00"
    by (simp_all add: numeral_eq_Suc)
  moreover have "char_of (0 :: nat) = CHR 0x00" by code_simp
  ultimately show ?case
    using Suc by simp
qed simp

lemma demo_decoded: "decode_base64url (Some (JStr demo_text)) = Inr demo_signature"
proof -
  have groups: "digits_of ''ABAA'' = Some [0, 1, 0, 0]" "digits_of ''AAA'' = Some [0, 0, 0]"
      "base64_bytes [0, 0, 0] = Some [CHR 0x00, CHR 0x00]"
    by code_simp+
  have digits: "digits_of demo_text
      = Some (replicate (4 * 58) 0 @ [0, 1, 0, 0] @ replicate (4 * 28) 0 @ [0, 0, 0])"
    unfolding demo_text_def by (intro digits_of_append digits_of_zeros groups)
  have "char_of (0 :: nat) = CHR 0x00" "char_of (16 :: nat) = CHR 0x10"
    by code_simp+
  then have bytes: "char_of (4096 div 65536 :: nat) = CHR 0x00" "char_of (4096 div 256 :: nat) = CHR 0x10"
      "char_of (4096 :: nat) = CHR 0x00"
    using char_of_mod_256 [of "4096 :: nat"] by simp_all
  have "base64_bytes ([0, 1, 0, 0] @ replicate (4 * 28) 0 @ [0, 0, 0])
      = Some ([CHR 0x00, CHR 0x10, CHR 0x00] @ replicate (3 * 28) CHR 0x00 @ [CHR 0x00, CHR 0x00])"
    using base64_zeros [OF groups(3), of 28]
    by (simp only: append_Cons append_Nil base64_bytes.simps Let_def option.map mult_0_right mult_1_right
        add_0_left add_0_right bytes)
  from base64_zeros [OF this, of 58] have "base64_bytes (replicate (4 * 58) 0 @ [0, 1, 0, 0]
      @ replicate (4 * 28) 0 @ [0, 0, 0]) = Some demo_signature"
    unfolding demo_signature_def .
  moreover have "demo_text \<noteq> []" "length demo_text \<le> 4096" "CHR ''='' \<notin> set demo_text"
    by (simp_all add: demo_text_def)
  ultimately show ?thesis
    using digits by (simp add: decode_base64url_def)
qed

lemma demo_signature_value: "from_bytes demo_signature = 2 ^ 700" "length demo_signature = 263"
proof -
  have "from_bytes demo_signature
      = from_bytes [CHR 0x00, CHR 0x10, CHR 0x00] * 256 ^ length (replicate (3 * 28) CHR 0x00 @ [CHR 0x00, CHR 0x00])"
    unfolding demo_signature_def
    by (simp only: from_bytes_append [of "replicate n CHR 0x00" for n] from_bytes_zeros
        from_bytes_append [of "[CHR 0x00, CHR 0x10, CHR 0x00]"]) (simp add: from_bytes_def)
  also have "\<dots> = 4096 * 256 ^ 86"
    by (simp add: from_bytes_def)
  also have "\<dots> = (2 :: nat) ^ 700" by simp
  finally show "from_bytes demo_signature = 2 ^ 700" .
qed (simp add: demo_signature_def)

lemma demo_signature_valid:
  "signature_valid demo_sha \<lparr>modulus = demo_modulus, exponent = 3\<rparr> msg demo_signature"
proof -
  have small: "(2 :: nat) ^ 700 < demo_modulus"
    using demo_modulus_size(2) by (rule less_le_trans [rotated]) simp
  have "(2 ^ 700) ^ 3 = demo_modulus + from_bytes demo_block"
    using demo_block_small(1) demo_modulus_size by (simp add: demo_modulus_def)
  moreover have "from_bytes demo_block < demo_modulus"
    using demo_block_small(1) demo_modulus_size(2) by (rule less_le_trans)
  ultimately have "(2 ^ 700) ^ 3 mod demo_modulus = from_bytes demo_block"
    by (simp del: power_numeral flip: power_mult)
  then show ?thesis
    using small by (simp add: signature_valid_def Let_def demo_modulus_size(1) demo_signature_value pow_mod_eq
        demo_block_eq to_from_bytes [OF demo_block_eq(3)] del: power_numeral)
qed

lemma demo_verified: "verify_rsa demo_sha demo_keys demo_document = Inr (demo_claims, [], ''k1'')"
proof -
  have "safe_id ''k1''" by code_simp
  moreover have "has_keys envelope_keys [(''schema_version'', JInt 1), (''key_id'', JStr ''k1''),
      (''algorithm'', JStr ''RS256''), (''claims'', JObj demo_claims), (''signature'', JStr demo_text)]"
    by (simp add: has_keys_def envelope_keys_def)
  ultimately show ?thesis
    by (simp add: verify_rsa_def demo_document_def is_one_def demo_keys_def demo_decoded demo_signature_valid
        hexdigest_def demo_sha_def [of "canonical_claims demo_claims"])
qed

lemma demo_document_verified:
  "verify_document demo_service demo_context demo_document s = (Inr demo_license, snd (read_clock demo_service s))"
proof -
  have keys: "has_keys claim_keys demo_claims"
    by (simp add: has_keys_def claim_keys_def demo_claims_def)
  have ids: "safe_claim_text (dict_get demo_claims ''product'') = Inr ''daon''"
      "safe_claim_text (dict_get demo_claims ''organization_id'') = Inr ''t1''"
      "safe_claim_text (dict_get demo_claims ''license_id'') = Inr ''L-100''"
      "safe_claim_text (dict_get demo_claims ''edition'') = Inr ''team''"
      "features_checked (dict_get demo_claims ''features'') = Some [''notebook_management'']"
      "limits_checked (dict_get demo_claims ''resource_limits'') = Some [(''notebooks'', 5)]"
      "is_one (dict_get demo_claims ''schema_version'')"
      "dict_get demo_claims ''issued_at'' = Some (JStr ''1Z'')" "dict_get demo_claims ''expires_at'' = Some (JStr ''2Z'')"
    by code_simp+
  have times: "utc_timestamp demo_service (Some (JStr ''1Z'')) = Inr 900"
      "utc_timestamp demo_service (Some (JStr ''2Z'')) = Inr 5000"
    by (simp_all add: utc_timestamp_def demo_service_def)
  have "license_from_claims demo_claims [] ''k1'' ''daon'' ''t1'' 900 5000 1000 = Inr demo_license"
    by (simp add: license_from_claims_def ids demo_license_def)
  then show ?thesis
    using keys ids times
    by (simp add: verify_document_def demo_verified demo_service_def demo_context_def read_clock_def)
qed

definition demo_key :: string where
  "demo_key = ''key-0123456789-0123''"

lemma demo_key_checked: "idempotency_key_checked demo_key = Inr demo_key"
  by code_simp

lemma license_context_simps [simp]: "tenant_id demo_context = ''t1''" "actor_id demo_context = ''u1''"
  by (simp_all add: demo_context_def)

lemma demo_service_simps [simp]:
  "clock demo_service n = 1000" "sha256 demo_service = demo_sha" "product_code demo_service = ''daon''"
  "verifier demo_service = verify_rsa demo_sha demo_keys" "usage_reader demo_service c = [(''notebooks'', 4)]"
  by (simp_all add: demo_service_def)

lemma license_demo_fingerprint: "request_fingerprint demo_service demo_context demo_document = Inr []"
proof -
  have "has_keys envelope_keys [(''schema_version'', JInt 1), (''key_id'', JStr ''k1''),
      (''algorithm'', JStr ''RS256''), (''claims'', JObj demo_claims), (''signature'', JStr demo_text)]"
    by (simp add: has_keys_def envelope_keys_def)
  then show ?thesis
    by (simp add: request_fingerprint_def demo_document_def hexdigest_def demo_sha_def)
qed

definition demo_applied :: license_state where
  "demo_applied = snd (apply_license demo_service demo_context demo_document demo_key empty_repository)"

definition demo_view :: license_view where
  "demo_view = license_projection demo_service demo_license [resource_line ''notebooks'' 5 4] 1000"

lemma demo_shown: "view_license demo_service demo_context demo_license s = (Inr demo_view, snd (read_clock demo_service s))"
  by (simp add: view_license_def read_clock_def demo_license_def demo_view_def used_of_def Let_def)

lemma demo_application:
  "apply_license demo_service demo_context demo_document demo_key empty_repository = (Inr (demo_view, False), demo_applied)"
  "tenant_licenses ''t1'' demo_applied = [demo_license]" "clock_reads demo_applied = 2"
  "idempotency demo_applied = [((''t1'', ''u1'', demo_key), ([], demo_license))]"
  by (simp_all add: demo_applied_def apply_license_def demo_key_checked license_demo_fingerprint repository_replay_def
      replay_lookup_def empty_repository_def demo_document_verified apply_verified_def repository_apply_def
      demo_shown license_key_def read_clock_def tenant_licenses_def)

lemma license_demo_reach:
  "reachable license_start (license_step demo_service) empty_repository"
  "reachable license_start (license_step demo_service) demo_applied"
proof -
  show start: "reachable license_start (license_step demo_service) empty_repository"
    by (rule reachable_start) (simp add: license_start_def)
  show "reachable license_start (license_step demo_service) demo_applied"
    by (rule reachable_step [rotated], rule step_apply [OF demo_application(1)], rule start)
qed

section \<open>Signed documents\<close>

text \<open>C16: a licence that the service accepts with the RS256 verifier stands on a signature: the signature
  of the document, raised to the public exponent of the named key, is the padded digest of the
  canonical claims; and the licence is for the product and the organization of the caller, was not
  issued more than five minutes ahead, has not expired, and has sorted, distinct feature codes and
  limits between 1 and 2^63 - 1 on known resources.\<close>

theorem accepted_license_is_signed_and_sound:
  assumes "verifier cfg = verify_rsa (sha256 cfg) keys" and "verify_document cfg c doc s = (Inr l, t)"
  shows "\<exists>d m enc sig key. doc = JObj d \<and> dict_get d ''claims'' = Some (JObj m)
      \<and> dict_get d ''signature'' = Some (JStr enc) \<and> decode_base64url (Some (JStr enc)) = Inr sig
      \<and> dict_get keys (key_id l) = Some key
      \<and> from_bytes sig ^ exponent key mod modulus key
        = from_bytes (expected_block (sha256 cfg) ((bit_length (modulus key) + 7) div 8) (canonical_claims m))
      \<and> claims_digest l = hexdigest (sha256 cfg) (canonical_claims m)
      \<and> license_sound (product_code cfg) (tenant_id c) l
      \<and> issued_at l \<le> clock cfg (clock_reads s) + 300000000 \<and> clock cfg (clock_reads s) < expires_at l"
  using assms(2)
proof (cases rule: verify_document_cases)
  case (verified l' m digest kid issued expires)
  note sound = license_from_claims_sound [OF verified(4)]
  from verified(3) have "verify_rsa (sha256 cfg) keys doc = Inr (m, digest, kid)"
    by (simp add: assms(1))
  then obtain d key enc sig where "doc = JObj d" and "dict_get d ''claims'' = Some (JObj m)"
    and "dict_get keys kid = Some key" and "dict_get d ''signature'' = Some (JStr enc)"
    and "decode_base64url (Some (JStr enc)) = Inr sig"
    and "signature_valid (sha256 cfg) key (canonical_claims m) sig"
    and "digest = hexdigest (sha256 cfg) (canonical_claims m)"
    by (rule verify_rsa_cases)
  with sound verified(1) signature_validD(1) show ?thesis
    by auto
qed simp

theorem accepted_license_is_signed_and_sound_witness:
  "\<exists>d m enc sig. demo_document = JObj d \<and> dict_get d ''claims'' = Some (JObj m)
    \<and> dict_get d ''signature'' = Some (JStr enc) \<and> decode_base64url (Some (JStr enc)) = Inr sig
    \<and> license_sound ''daon'' ''t1'' demo_license \<and> 1000 < expires_at demo_license"
proof -
  have "verifier demo_service = verify_rsa (sha256 demo_service) demo_keys" by simp
  from accepted_license_is_signed_and_sound [OF this demo_document_verified [of empty_repository]]
  show ?thesis by auto
qed

text \<open>C25: a signature is good for one set of claims: two documents accepted for the same key with the same
  signature have the same claims up to the order of members, or the digest collides on them.\<close>

theorem one_signature_one_claims:
  assumes "verify_rsa h keys (JObj d) = Inr (m, g, kid)" and "verify_rsa h keys (JObj d') = Inr (m', g', kid)"
    and "dict_get d ''signature'' = dict_get d' ''signature''"
  shows "normal (JObj m) = normal (JObj m') \<or> collision h (canonical_claims m) (canonical_claims m')"
proof -
  obtain key enc sig where 1: "dict_get keys kid = Some key" "dict_get d ''signature'' = Some (JStr enc)"
    "decode_base64url (Some (JStr enc)) = Inr sig" "signature_valid h key (canonical_claims m) sig"
    by (rule verify_rsa_cases [OF assms(1)]) auto
  obtain key' enc' sig' where 2: "dict_get keys kid = Some key'" "dict_get d' ''signature'' = Some (JStr enc')"
    "decode_base64url (Some (JStr enc')) = Inr sig'" "signature_valid h key' (canonical_claims m') sig'"
    by (rule verify_rsa_cases [OF assms(2)]) auto
  from 1 2 assms(3) have same: "key' = key" "sig' = sig" by simp_all
  then have "expected_block h ((bit_length (modulus key) + 7) div 8) (canonical_claims m)
      = expected_block h ((bit_length (modulus key) + 7) div 8) (canonical_claims m')"
    using 1(4) 2(4) by (simp add: signature_valid_def Let_def)
  then have "h (canonical_claims m) = h (canonical_claims m')"
    using signature_validD(2) [OF 1(4)] signature_validD(2) [OF 2(4)] same by (blast intro: expected_block_digest)
  moreover have "canonical_claims m = canonical_claims m' \<longleftrightarrow> normal (JObj m) = normal (JObj m')"
    by (simp add: canonical_claims_def utf8_inject json_text_iff [OF readable_json_char] del: normal.simps)
  ultimately show ?thesis
    by (auto simp: collision_def simp del: normal.simps)
qed

theorem one_signature_one_claims_witness:
  "verify_rsa demo_sha demo_keys demo_document = Inr (demo_claims, [], ''k1'')
    \<and> (normal (JObj demo_claims) = normal (JObj demo_claims)
      \<or> collision demo_sha (canonical_claims demo_claims) (canonical_claims demo_claims))"
  using one_signature_one_claims [OF demo_verified [unfolded demo_document_def]
      demo_verified [unfolded demo_document_def] refl] demo_verified by blast

section \<open>The licences of a tenant\<close>

lemma step_tenant_licenses:
  assumes "license_step cfg o2 s t"
  shows "\<exists>more. tenant_licenses o1 t = tenant_licenses o1 s @ more \<and> (o1 \<noteq> o2 \<longrightarrow> more = [])"
  using assms by (cases rule: license_step_cases) (auto simp: same_licenses_tenant recorded_tenant)

lemma runs_tenant_licenses:
  assumes "runs (license_step cfg) s cs t"
  shows "\<exists>more. tenant_licenses o1 t = tenant_licenses o1 s @ more \<and> (o1 \<notin> set cs \<longrightarrow> more = [])"
  using assms
proof (induction rule: runs.induct)
  case (runs_more o2 s t cs u)
  then show ?case
    using step_tenant_licenses [OF runs_more(1), of o1] by force
qed simp

text \<open>In every reachable repository each licence of a tenant is sound for the product and for that
  tenant, and a tenant has one licence for each entry of its idempotency ledger. Calls only append
  licences; calls of other tenants leave a tenant's licences as they are.\<close>

theorem licenses_sound_and_append_only:
  assumes "reachable license_start (license_step cfg) s" and "runs (license_step cfg) s cs t"
  shows "list_all (license_sound (product_code cfg) o1) (tenant_licenses o1 t)
    \<and> length (tenant_licenses o1 t) = entries_of o1 t
    \<and> (\<exists>more. tenant_licenses o1 t = tenant_licenses o1 s @ more \<and> (o1 \<in> set cs \<or> more = []))"
proof -
  have "license_inv cfg t"
    using licenses.runs_inv [OF assms(2) licenses.reachable_inv [OF assms(1)]] .
  then have "list_all (license_sound (product_code cfg) o1) (tenant_licenses o1 t)"
      "length (tenant_licenses o1 t) = entries_of o1 t"
    by (simp_all add: license_inv_def list_all_iff)
  then show ?thesis
    using runs_tenant_licenses [OF assms(2), of o1] by blast
qed

theorem licenses_sound_and_append_only_witness:
  "tenant_licenses ''t1'' demo_applied = [demo_license] \<and> license_sound ''daon'' ''t1'' demo_license
    \<and> entries_of ''t1'' demo_applied = 1"
  using licenses_sound_and_append_only [OF license_demo_reach(2) runs_none, of "''t1''"] demo_application(2)
  by simp

text \<open>After an application succeeded and whatever ran since, the same call with the same idempotency
  key shows a licence the tenant already had, marks it as replayed, and records nothing - even if
  the document has expired in between, since the ledger is consulted before the document.\<close>

theorem application_is_idempotent:
  assumes "reachable license_start (license_step cfg) s"
    and "apply_license cfg c doc k s = (Inr (v, replayed), s1)" and "runs (license_step cfg) s1 cs t"
  shows "\<exists>l. l \<in> set (tenant_licenses (tenant_id c) s1)
    \<and> apply_license cfg c doc k t = show_replayed cfg c l t
    \<and> same_licenses t (snd (apply_license cfg c doc k t))"
proof -
  have inv: "license_inv cfg s1"
    using license_inv_step [OF step_apply [OF assms(2)] licenses.reachable_inv [OF assms(1)]] .
  from assms(2) obtain f l where f: "request_fingerprint cfg c doc = Inr f" and k: "idempotency_key_checked k = Inr k"
    and l: "dict_get (idempotency s1) (license_key c k) = Some (f, l)"
    by (cases rule: apply_cases) (auto simp: same_licenses_def recorded_def)
  have "l \<in> set (tenant_licenses (tenant_id c) s1)"
    using inv l unfolding license_inv_def by (metis fst_conv license_key_def)
  moreover have "apply_license cfg c doc k t = show_replayed cfg c l t"
    using runs_license_ledger [OF assms(3) l] f k
    by (simp add: apply_license_def repository_replay_def replay_lookup_def)
  moreover have "same_licenses t (snd (show_replayed cfg c l t))"
    by (cases "show_replayed cfg c l t") (simp add: show_replayed_frame)
  ultimately show ?thesis by metis
qed

theorem application_is_idempotent_witness:
  "apply_license demo_service demo_context demo_document demo_key demo_applied
    = show_replayed demo_service demo_context demo_license demo_applied"
  using application_is_idempotent [OF license_demo_reach(1) demo_application(1) runs_none] demo_application(2)
  by auto

section \<open>The creation guard\<close>

lemma within_limits_ok:
  assumes "within_limits usage limits xs = Inr ()" and "(r, n) \<in> set xs" and "dict_get limits r = Some limit"
  shows "0 \<le> used_of usage r" and "used_of usage r + n \<le> limit"
  using assms(1,2)
  by (induction xs; use assms(3) in \<open>auto simp: Let_def split: if_splits option.splits\<close>)+

lemma within_defaults_ok:
  assumes "within_defaults usage xs = Inr ()" and "(r, n) \<in> set xs" and "dict_get default_resource_limits r = Some limit"
  shows "used_of usage r + n \<le> limit"
  using assms(1,2)
  by (induction xs) (use assms(3) in \<open>auto simp: Let_def split: if_splits option.splits\<close>)

text \<open>Where the guard of notebook creation passes, the request asked for at least one notebook and
  nothing else, and the tenant's usage with it stays within the default of one without a licence;
  with a licence that has not expired and allows notebook management, within its limit if it has
  one.\<close>

theorem granted_creation_within_limit:
  assumes "require_creation cfg c ''notebook.create'' increments s = (Inr (), t)" and "(r, n) \<in> set increments"
  shows "r = ''notebooks'' \<and> 1 \<le> n \<and> (case current_license c s of
      None \<Rightarrow> used_of (usage_reader cfg c) ''notebooks'' + n \<le> 1
    | Some l \<Rightarrow> clock cfg (clock_reads s) < expires_at l \<and> ''notebook_management'' \<in> set (features l)
        \<and> (case dict_get (resource_limits l) ''notebooks'' of None \<Rightarrow> True
           | Some limit \<Rightarrow> 0 \<le> used_of (usage_reader cfg c) ''notebooks''
               \<and> used_of (usage_reader cfg c) ''notebooks'' + n \<le> limit))"
proof -
  have "dict_get creation_actions ''notebook.create'' = Some (''notebook_management'', [''notebooks''])"
    by (simp add: creation_actions_def)
  then have ok: "\<not> list_ex (\<lambda>(r, n). r \<notin> {''notebooks''} \<or> n < 1) increments"
    and passed: "case current_license c s of
        None \<Rightarrow> within_defaults (usage_reader cfg c) increments = Inr ()
      | Some l \<Rightarrow> clock cfg (clock_reads s) < expires_at l \<and> ''notebook_management'' \<in> set (features l)
          \<and> within_limits (usage_reader cfg c) (resource_limits l) increments = Inr ()"
    using assms(1) by (auto simp: require_creation_def read_clock_def split: option.splits if_splits)
  have r: "r = ''notebooks''" "1 \<le> n"
    using ok assms(2) by (auto simp: list_ex_iff)
  have "dict_get default_resource_limits ''notebooks'' = Some 1"
    by (simp add: default_resource_limits_def)
  then show ?thesis
    using passed r assms(2) within_limits_ok within_defaults_ok by (fastforce split: option.splits)
qed

theorem granted_creation_within_limit_witness:
  "require_creation demo_service demo_context ''notebook.create'' [(''notebooks'', 1)] demo_applied
    = (Inr (), snd (read_clock demo_service demo_applied)) \<and> 4 + 1 \<le> (5 :: int)"
proof -
  have cur: "current_license demo_context demo_applied = Some demo_license"
    by (simp add: current_license_def demo_application(2))
  have granted: "require_creation demo_service demo_context ''notebook.create'' [(''notebooks'', 1)] demo_applied
      = (Inr (), snd (read_clock demo_service demo_applied))"
    by (simp add: require_creation_def creation_actions_def cur read_clock_def demo_license_def used_of_def)
  from granted_creation_within_limit [OF this, of "''notebooks''" 1] granted show ?thesis
    by (simp add: cur demo_license_def used_of_def)
qed

lemma resource_lines_below:
  assumes "resource_lines usage limits = Inr lines" and "\<not> list_ex limit_reached lines"
    and "dict_get limits r = Some limit"
  shows "0 \<le> used_of usage r \<and> used_of usage r < limit"
  using assms
proof (induction limits arbitrary: lines)
  case (Cons x limits)
  obtain q m where "x = (q, m)" by (cases x)
  with Cons show ?case
    by (auto simp: Let_def resource_line_def split: if_splits sum.splits)
qed simp

text \<open>What the projection shows is what the guard does: where it shows that creation is allowed, the
  creation of one notebook right afterwards is granted, unless the licence lacks notebook
  management or expires between the two readings of the clock.\<close>

theorem shown_creation_is_granted:
  assumes "get_license cfg c s = (Inr v, s1)" and "creation_allowed v"
    and "pred_option (\<lambda>l. ''notebook_management'' \<in> set (features l) \<and> clock cfg (clock_reads s1) < expires_at l)
      (current_license c s1)"
  shows "fst (require_creation cfg c ''notebook.create'' [(''notebooks'', 1)] s1) = Inr ()"
proof -
  have cur: "current_license c s1 = current_license c s"
    using get_license_frame [OF assms(1)] by (simp add: current_license_def same_licenses_tenant)
  show ?thesis
  proof (cases "current_license c s")
    case None
    with assms(1,2) have "used_of (usage_reader cfg c) ''notebooks'' < 1"
      by (auto simp: get_license_def split: attempt_splits)
    with None cur show ?thesis
      by (simp add: require_creation_def creation_actions_def default_resource_limits_def)
  next
    case (Some l)
    with assms(1) obtain lines where lines: "resource_lines (usage_reader cfg c) (resource_limits l) = Inr lines"
      and v: "v = license_projection cfg l lines (clock cfg (clock_reads s))"
      by (auto simp: get_license_def view_license_def read_clock_def split: attempt_splits)
    with assms(2) have "\<not> list_ex limit_reached lines"
      by (simp add: license_projection_def Let_def)
    then have "0 \<le> used_of (usage_reader cfg c) ''notebooks'' \<and> used_of (usage_reader cfg c) ''notebooks'' < limit"
      if "dict_get (resource_limits l) ''notebooks'' = Some limit" for limit
      using resource_lines_below [OF lines _ that] by simp
    with Some cur assms(3) show ?thesis
      by (force simp: require_creation_def creation_actions_def read_clock_def Let_def split: option.splits)
  qed
qed

theorem shown_creation_is_granted_witness:
  "fst (require_creation demo_service demo_context ''notebook.create'' [(''notebooks'', 1)]
    (snd (read_clock demo_service demo_applied))) = Inr ()"
proof -
  have cur: "current_license demo_context demo_applied = Some demo_license"
    by (simp add: current_license_def demo_application(2))
  have "get_license demo_service demo_context demo_applied = (Inr demo_view, snd (read_clock demo_service demo_applied))"
    by (simp add: get_license_def cur demo_shown)
  moreover have "creation_allowed demo_view"
    by (simp add: demo_view_def license_projection_def resource_line_def demo_license_def Let_def)
  moreover have "current_license demo_context (snd (read_clock demo_service demo_applied)) = Some demo_license"
    using cur by (simp add: current_license_def tenant_licenses_def read_clock_def)
  ultimately show ?thesis
    using shown_creation_is_granted [of demo_service demo_context demo_applied demo_view]
    by (simp add: demo_license_def)
qed

end
