(* ===== verification/Authorization.thy ===== *)
theory Authorization
  imports Contracts Json
begin

text \<open>
  Model of \<open>services/api/src/daon_user_api/authorization.py\<close>: roles of tenants and workspaces, the
  matrix of their actions, permission policies, access to the evidence of historical results, and
  the admission of reruns, over the tables of \<open>SqliteAuthorizationRepository\<close>. A table is a
  dictionary from its primary key to its row; the SQL statements of the service are the lookups and
  updates of these dictionaries, a violated primary or foreign key is the error the repository
  reports for it, and a transaction that raises leaves the tables as they were. Columns that hold
  the text of a time or of a list of strings have the time or the list.
\<close>

section \<open>Roles, actions and permissions\<close>

datatype role =
    PersonalOwner | OrganizationAdmin | WorkspaceAdmin | Editor | Reviewer | Approver | Viewer

fun role_value :: "role \<Rightarrow> string" where
  "role_value PersonalOwner = ''personal_owner''"
| "role_value OrganizationAdmin = ''organization_admin''"
| "role_value WorkspaceAdmin = ''workspace_admin''"
| "role_value Editor = ''editor''"
| "role_value Reviewer = ''reviewer''"
| "role_value Approver = ''approver''"
| "role_value Viewer = ''viewer''"

datatype role_scope = TenantScope | WorkspaceScope

fun scope_value :: "role_scope \<Rightarrow> string" where
  "scope_value TenantScope = ''tenant''"
| "scope_value WorkspaceScope = ''workspace''"

definition TENANT_ROLES :: "role set" where
  "TENANT_ROLES = {PersonalOwner, OrganizationAdmin}"

definition WORKSPACE_ROLES :: "role set" where
  "WORKSPACE_ROLES = {WorkspaceAdmin, Editor, Reviewer, Approver, Viewer}"

datatype action =
    View | Query | Analyze | Generate | Edit | Review | RevisionRequest | Approve | Deliver
  | KnowledgeRegister | PolicyManage | MemberManage

fun action_value :: "action \<Rightarrow> string" where
  "action_value View = ''view''"
| "action_value Query = ''query''"
| "action_value Analyze = ''analyze''"
| "action_value Generate = ''generate''"
| "action_value Edit = ''edit''"
| "action_value Review = ''review''"
| "action_value RevisionRequest = ''revision_request''"
| "action_value Approve = ''approve''"
| "action_value Deliver = ''deliver''"
| "action_value KnowledgeRegister = ''knowledge_register''"
| "action_value PolicyManage = ''policy_manage''"
| "action_value MemberManage = ''member_manage''"

datatype permission =
    ExternalLlm | InternetSearch | LocalInternalLlm | DaonKnowledge | FileDownloadShare
  | ProductionKnowledgeRegistration | DataAreaMove | FinalApprovalExternalDelivery

fun permission_value :: "permission \<Rightarrow> string" where
  "permission_value ExternalLlm = ''external_llm''"
| "permission_value InternetSearch = ''internet_search''"
| "permission_value LocalInternalLlm = ''local_internal_llm''"
| "permission_value DaonKnowledge = ''daon_knowledge''"
| "permission_value FileDownloadShare = ''file_download_share''"
| "permission_value ProductionKnowledgeRegistration = ''production_knowledge_registration''"
| "permission_value DataAreaMove = ''data_area_move''"
| "permission_value FinalApprovalExternalDelivery = ''final_approval_external_delivery''"

datatype policy_effect = GrantEffect | DenyEffect

fun effect_value :: "policy_effect \<Rightarrow> string" where
  "effect_value GrantEffect = ''grant''"
| "effect_value DenyEffect = ''deny''"

datatype access_action =
    ReadAccess | CitationAccess | OpenSource | ExportAccess | DeliveryAccess
  | KnowledgeRegistrationAccess | RerunAccess

fun access_action_value :: "access_action \<Rightarrow> string" where
  "access_action_value ReadAccess = ''read''"
| "access_action_value CitationAccess = ''citation''"
| "access_action_value OpenSource = ''open_source''"
| "access_action_value ExportAccess = ''export''"
| "access_action_value DeliveryAccess = ''delivery''"
| "access_action_value KnowledgeRegistrationAccess = ''knowledge_registration''"
| "access_action_value RerunAccess = ''rerun''"

datatype access_state = Available | PartiallyRedacted | AccessBlocked

fun access_state_value :: "access_state \<Rightarrow> string" where
  "access_state_value Available = ''available''"
| "access_state_value PartiallyRedacted = ''partially_redacted''"
| "access_state_value AccessBlocked = ''access_blocked''"

fun role_action_matrix :: "role \<Rightarrow> action set" where
  "role_action_matrix PersonalOwner = UNIV"
| "role_action_matrix OrganizationAdmin = UNIV"
| "role_action_matrix WorkspaceAdmin =
    {View, Query, Analyze, Generate, Edit, Review, RevisionRequest, PolicyManage, MemberManage}"
| "role_action_matrix Editor = {View, Query, Analyze, Generate, Edit}"
| "role_action_matrix Reviewer = {View, Query, Analyze, Review, RevisionRequest}"
| "role_action_matrix Approver = {View, Query, Analyze, Review, Approve, Deliver, KnowledgeRegister}"
| "role_action_matrix Viewer = {View}"

fun role_permission_defaults :: "role \<Rightarrow> permission set" where
  "role_permission_defaults PersonalOwner = UNIV"
| "role_permission_defaults OrganizationAdmin = UNIV"
| "role_permission_defaults WorkspaceAdmin =
    {InternetSearch, LocalInternalLlm, DaonKnowledge, FileDownloadShare}"
| "role_permission_defaults Editor =
    {InternetSearch, LocalInternalLlm, DaonKnowledge, FileDownloadShare}"
| "role_permission_defaults Reviewer = {LocalInternalLlm, DaonKnowledge, FileDownloadShare}"
| "role_permission_defaults Approver =
    {LocalInternalLlm, DaonKnowledge, FileDownloadShare, ProductionKnowledgeRegistration,
     FinalApprovalExternalDelivery}"
| "role_permission_defaults Viewer = {LocalInternalLlm, DaonKnowledge}"

text \<open>
  The permissions an action needs, in the order in which the set of the source is iterated. That
  order is not determined by the language for the two permissions of a delivery: the flag chooses
  one of the two.
\<close>

fun action_permissions :: "bool \<Rightarrow> action \<Rightarrow> permission list" where
  "action_permissions download_first Approve = [FinalApprovalExternalDelivery]"
| "action_permissions download_first Deliver =
    (if download_first then [FileDownloadShare, FinalApprovalExternalDelivery]
     else [FinalApprovalExternalDelivery, FileDownloadShare])"
| "action_permissions download_first KnowledgeRegister = [ProductionKnowledgeRegistration]"
| "action_permissions download_first _ = []"

fun access_actions :: "access_action \<Rightarrow> action" where
  "access_actions ReadAccess = View"
| "access_actions CitationAccess = View"
| "access_actions OpenSource = View"
| "access_actions ExportAccess = Deliver"
| "access_actions DeliveryAccess = Deliver"
| "access_actions KnowledgeRegistrationAccess = KnowledgeRegister"
| "access_actions RerunAccess = Generate"

section \<open>Values\<close>

record principal =
  user_id :: string
  session_id :: string
  device_id :: string
  tenant_id :: string

record effective_permission =
  permission :: permission
  requested :: bool
  effective :: bool
  locked_by :: "string option"
  reason :: string
  eff_policy_version :: string

record authorization_grant =
  allowed :: bool
  grant_actor_id :: string
  grant_tenant_id :: string
  grant_workspace_id :: string
  grant_role :: role
  grant_scope :: role_scope
  grant_action :: action
  effective_permissions :: "effective_permission list"
  required_step_up_action :: "string option"
  grant_membership_version :: int
  grant_acl_version :: int
  grant_policy_version :: string

record evidence_dependency =
  reference_id :: string
  source_version_id :: string
  segment_ids :: "string list"
  decisive :: bool
  safe_separation :: bool

record historical_result =
  result_id :: string
  result_kind :: string
  res_tenant_id :: string
  res_workspace_id :: string
  source_version_ids :: "string list"
  evidence_reference_ids :: "string list"
  dependencies :: "evidence_dependency list"
  original_policy_version :: string
  original_membership_version :: int

record access_decision =
  decision_id :: string
  dec_actor_id :: string
  dec_action :: access_action
  dec_resource_id :: string
  dec_tenant_id :: string
  dec_workspace_id :: string
  dec_role_scope :: "role_scope option"
  dec_membership_version :: int
  dec_acl_version :: int
  dec_policy_version :: string
  evaluated_at :: int
  access_state :: access_state
  reason_codes :: "string list"
  allowed_reference_ids :: "string list"
  masked_reference_ids :: "string list"
  allowed_segment_ids :: "string list"
  masked_segment_ids :: "string list"

record rerun_snapshot =
  snap_tenant_id :: string
  snap_workspace_id :: string
  snap_actor_id :: string
  snap_role_scope :: role_scope
  snap_membership_version :: int
  snap_acl_version :: int
  snap_policy_version :: string
  snap_data_area :: string
  snap_cost_limit_cents :: int
  snap_source_version_ids :: "string list"

record rerun_authorization =
  run_request_id :: string
  access_decision_id :: string
  snapshot :: rerun_snapshot

record role_binding =
  bound_role :: role
  bound_scope :: role_scope
  bound_version :: int

datatype authorization_error =
    AuthorizationError (code: string) (http_status: int) (refused: "access_decision option")
  | PythonError string
  | IdentityRaised string

abbreviation authorization_error :: "string \<Rightarrow> int \<Rightarrow> authorization_error" where
  "authorization_error c st \<equiv> AuthorizationError c st None"

abbreviation invalid_input :: authorization_error where
  "invalid_input \<equiv> authorization_error ''INVALID_INPUT'' 400"

text \<open>
  \<open>_validate_descriptor\<close>; all of its checks raise the same error. Its loop keeps the references
  seen so far.
\<close>

fun dependencies_valid :: "string set \<Rightarrow> string set \<Rightarrow> evidence_dependency list \<Rightarrow> string set \<Rightarrow> bool" where
  "dependencies_valid refs srcs [] seen = True"
| "dependencies_valid refs srcs (d # ds) seen =
    (safe_id (reference_id d) \<and> safe_id (source_version_id d)
     \<and> reference_id d \<in> refs \<and> source_version_id d \<in> srcs
     \<and> reference_id d \<notin> seen
     \<and> segment_ids d \<noteq> [] \<and> list_all safe_id (segment_ids d)
     \<and> dependencies_valid refs srcs ds (insert (reference_id d) seen))"

definition descriptor_valid :: "historical_result \<Rightarrow> bool" where
  "descriptor_valid d \<longleftrightarrow>
    list_all safe_id ([result_id d, result_kind d, res_tenant_id d, res_workspace_id d,
      original_policy_version d] @ source_version_ids d @ evidence_reference_ids d)
    \<and> original_membership_version d \<ge> 1
    \<and> distinct (source_version_ids d) \<and> distinct (evidence_reference_ids d)
    \<and> dependencies_valid (set (evidence_reference_ids d)) (set (source_version_ids d)) (dependencies d) {}"

definition validate_descriptor :: "historical_result \<Rightarrow> authorization_error + unit" where
  "validate_descriptor d = (if descriptor_valid d then Inr () else Inl invalid_input)"

section \<open>The tables\<close>

record workspace_row =
  workspace_id :: string
  ws_tenant_id :: string
  workspace_kind :: string
  data_area :: string
  cost_limit_cents :: int
  acl_version :: int
  ws_version :: int
  ws_updated_at :: int

record role_row =
  row_role :: role
  row_state :: string
  row_version :: int
  row_updated_at :: int

record rule_row =
  rule_effect :: policy_effect
  rule_locked :: bool

record policy_row =
  pol_version :: int
  pol_updated_at :: int

record access_row =
  source_allowed :: bool
  access_version :: int
  access_updated_at :: int

record result_row =
  hist_kind :: string
  hist_tenant_id :: string
  hist_workspace_id :: string
  hist_source_version_ids :: "string list"
  hist_evidence_reference_ids :: "string list"
  hist_policy_version :: string
  hist_membership_version :: int
  hist_created_at :: int

record dependency_row =
  dep_source_version_id :: string
  dep_segment_ids :: "string list"
  dep_decisive :: bool
  dep_safe_separation :: bool

record rerun_row =
  rerun_result_id :: string
  rerun_decision_id :: string
  rerun_tenant_id :: string
  rerun_workspace_id :: string
  rerun_actor_id :: string
  rerun_snapshot :: rerun_snapshot
  rerun_created_at :: int

text \<open>
  \<open>organization_members\<close> is the state column of the table \<open>tenant_memberships\<close> of the organization
  workflow, where that table exists.
\<close>

record auth_tables =
  workspaces :: "(string, workspace_row) dict"
  tenant_roles :: "(string \<times> string, role_row) dict"
  memberships :: "(string \<times> string \<times> string, role_row) dict"
  tenant_policies :: "(string, policy_row) dict"
  tenant_rules :: "(string \<times> permission, rule_row) dict"
  workspace_policies :: "(string \<times> string, policy_row) dict"
  workspace_rules :: "(string \<times> string \<times> permission, rule_row) dict"
  source_access :: "(string \<times> string \<times> string \<times> string, access_row) dict"
  historical_results :: "(string, result_row) dict"
  result_dependencies :: "(string \<times> string, dependency_row) dict"
  access_decisions :: "(string, access_decision) dict"
  rerun_requests :: "(string, rerun_row) dict"
  organization_members :: "(string \<times> string, string) dict option"

definition empty_tables :: auth_tables where
  "empty_tables = \<lparr>workspaces = [], tenant_roles = [], memberships = [], tenant_policies = [],
     tenant_rules = [], workspace_policies = [], workspace_rules = [], source_access = [],
     historical_results = [], result_dependencies = [], access_decisions = [], rerun_requests = [],
     organization_members = None\<rparr>"

section \<open>The service and its state\<close>

datatype audit_outcome = Succeeded | Denied

record audit_draft =
  event_id :: string
  occurred_at :: int
  draft_actor_id :: string
  draft_tenant_id :: string
  draft_workspace_id :: "string option"
  draft_action :: string
  target_type :: string
  target_id :: string
  draft_outcome :: audit_outcome
  draft_trace_id :: string
  draft_policy_version :: string
  before :: "json option"
  after :: "json option"
  metadata :: "(string \<times> json) list"

text \<open>
  The state: the tables, the drafts the audit store accepted, and how often the clock, the random
  tokens and the identity service were asked. What the service is built with: \<open>clock n\<close> is the
  n-th answer of the clock, \<^term>\<open>None\<close> where it is no UTC time; \<open>token_urlsafe n\<close> the n-th draw of
  \<open>secrets.token_urlsafe(18)\<close>; \<open>audit_accepts\<close> tells whether the injected audit store, which holds the
  given drafts, accepts another one or raises; \<open>identity\<close> is the injected identity service, where
  there is one: its n-th answer to \<open>validate_access\<close> and to \<open>consume_step_up\<close>, the code of what it
  raises or its value.
\<close>

record identity_service =
  validate_access :: "nat \<Rightarrow> string \<Rightarrow> string \<Rightarrow> string \<Rightarrow> string + principal"
  consume_step_up ::
    "nat \<Rightarrow> string option \<Rightarrow> string \<Rightarrow> string \<Rightarrow> string \<Rightarrow> string \<Rightarrow> string \<Rightarrow> string + unit"

record auth_service =
  clock :: "nat \<Rightarrow> int option"
  token_urlsafe :: "nat \<Rightarrow> string"
  audit_accepts :: "audit_draft list \<Rightarrow> audit_draft \<Rightarrow> bool"
  identity :: "identity_service option"
  download_first :: bool

record auth_state =
  tables :: auth_tables
  audit_log :: "audit_draft list"
  clock_reads :: nat
  tokens_drawn :: nat
  identity_calls :: nat
  repository_closed :: bool

definition empty_repository :: auth_state where
  "empty_repository = \<lparr>tables = empty_tables, audit_log = [], clock_reads = 0, tokens_drawn = 0,
     identity_calls = 0, repository_closed = False\<rparr>"

definition close_repository :: "auth_state \<Rightarrow> auth_state" where
  "close_repository s = s\<lparr>repository_closed := True\<rparr>"

definition checked_id :: "string \<Rightarrow> authorization_error + string" where
  "checked_id v = (if safe_id v then Inr v else Inl invalid_input)"

definition read_now :: "auth_service \<Rightarrow> auth_state \<Rightarrow> (auth_state, authorization_error, int) outcome" where
  "read_now cfg s =
    ((case clock cfg (clock_reads s) of None \<Rightarrow> Inl (authorization_error ''INVALID_TIME'' 400)
      | Some t \<Rightarrow> Inr t),
     s\<lparr>clock_reads := Suc (clock_reads s)\<rparr>)"

definition fresh_id :: "auth_service \<Rightarrow> string \<Rightarrow> auth_state \<Rightarrow> string \<times> auth_state" where
  "fresh_id cfg prefix s =
    (prefix @ ''-'' @ token_urlsafe cfg (tokens_drawn s), s\<lparr>tokens_drawn := Suc (tokens_drawn s)\<rparr>)"

text \<open>
  \<open>transaction\<close>: what the body raises is raised, over the tables of the beginning; the audit store
  is not part of the transaction.
\<close>

definition transaction ::
  "(auth_state \<Rightarrow> (auth_state, authorization_error, 'a) outcome) \<Rightarrow> auth_state
    \<Rightarrow> (auth_state, authorization_error, 'a) outcome" where
  "transaction body s =
    (if repository_closed s then (Inl (authorization_error ''PERSISTENCE_UNAVAILABLE'' 503), s)
     else case body s of
         (Inl e, t) \<Rightarrow> (Inl e, t\<lparr>tables := tables s\<rparr>)
       | (Inr v, t) \<Rightarrow> (Inr v, t))"

definition persistence_conflict :: authorization_error where
  "persistence_conflict = authorization_error ''PERSISTENCE_CONFLICT'' 409"

text \<open>Binding an integer of more than 64 bits to a statement is an \<open>OverflowError\<close>.\<close>

definition sqlite_int :: "int \<Rightarrow> authorization_error + int" where
  "sqlite_int i =
    (if - (2 ^ 63) \<le> i \<and> i < 2 ^ 63 then Inr i else Inl (PythonError ''OverflowError''))"

section \<open>Audit\<close>

record audit_request =
  req_action :: string
  req_outcome :: audit_outcome
  req_workspace_id :: "string option"
  req_target_type :: string
  req_target_id :: string
  req_before :: "json option"
  req_after :: "json option"
  req_metadata :: "(string \<times> json) list"

definition audit_ids_ok :: "principal \<Rightarrow> string \<Rightarrow> string \<Rightarrow> audit_request \<Rightarrow> bool" where
  "audit_ids_ok p trace pv r \<longleftrightarrow>
    list_all safe_id [user_id p, tenant_id p] \<and> pred_option safe_id (req_workspace_id r)
    \<and> list_all safe_id [req_action r, req_target_type r, req_target_id r, trace, pv]"

definition new_draft ::
  "string \<Rightarrow> int \<Rightarrow> principal \<Rightarrow> string \<Rightarrow> string \<Rightarrow> audit_request \<Rightarrow> audit_draft" where
  "new_draft i t p trace pv r =
    \<lparr>event_id = i, occurred_at = t, draft_actor_id = user_id p, draft_tenant_id = tenant_id p,
     draft_workspace_id = req_workspace_id r, draft_action = req_action r,
     target_type = req_target_type r, target_id = req_target_id r, draft_outcome = req_outcome r,
     draft_trace_id = trace, draft_policy_version = pv, before = req_before r,
     after = req_after r, metadata = req_metadata r\<rparr>"

definition audit ::
  "auth_service \<Rightarrow> principal \<Rightarrow> string \<Rightarrow> string \<Rightarrow> audit_request \<Rightarrow> auth_state
    \<Rightarrow> (auth_state, authorization_error, unit) outcome" where
  "audit cfg p trace pv r s =
    (let (i, s1) = fresh_id cfg ''audit'' s in
     chain (read_now cfg s1) (\<lambda>t s2.
       if \<not> audit_ids_ok p trace pv r then (Inl invalid_input, s2)
       else let draft = new_draft i t p trace pv r in
         if audit_accepts cfg (audit_log s2) draft
         then (Inr (), s2\<lparr>audit_log := audit_log s2 @ [draft]\<rparr>)
         else (Inl (authorization_error ''AUDIT_WRITE_FAILED'' 503), s2)))"

definition denial :: "string \<Rightarrow> string option \<Rightarrow> string \<Rightarrow> string \<Rightarrow> string \<Rightarrow> audit_request" where
  "denial act w ttype tid reason_code =
    \<lparr>req_action = act, req_outcome = Denied, req_workspace_id = w, req_target_type = ttype,
     req_target_id = tid, req_before = None, req_after = None,
     req_metadata = [(''reason_code'', JStr reason_code)]\<rparr>"

text \<open>An audited refusal: the denial is written, then the error is raised.\<close>

definition refuse ::
  "auth_service \<Rightarrow> principal \<Rightarrow> string \<Rightarrow> string \<Rightarrow> audit_request \<Rightarrow> authorization_error \<Rightarrow> auth_state
    \<Rightarrow> (auth_state, authorization_error, 'a) outcome" where
  "refuse cfg p trace pv r e s = chain (audit cfg p trace pv r s) (\<lambda>_ t. (Inl e, t))"

section \<open>Bindings and permissions\<close>

definition lookup_workspace :: "auth_tables \<Rightarrow> string \<Rightarrow> string \<Rightarrow> workspace_row option" where
  "lookup_workspace db t w =
    (case dict_get (workspaces db) w of None \<Rightarrow> None
     | Some r \<Rightarrow> if ws_tenant_id r = t then Some r else None)"

text \<open>
  \<open>OrganizationAccessBridge.assert_organization_active\<close> on the SQLite tables, and \<open>_id\<close> of
  \<open>organization_membership.py\<close>.
\<close>

definition organization_id_ok :: "string \<Rightarrow> bool" where
  "organization_id_ok s \<longleftrightarrow> s \<noteq> [] \<and> s = py_strip s \<and> length s \<le> 160"

definition organization_active :: "auth_tables \<Rightarrow> string \<Rightarrow> string \<Rightarrow> authorization_error + unit" where
  "organization_active db t u =
    (if \<not> organization_id_ok t \<or> \<not> organization_id_ok u
     then Inl (authorization_error ''INVALID_ID'' 400)
     else case organization_members db of None \<Rightarrow> Inr ()
       | Some rows \<Rightarrow> (case dict_get rows (t, u) of None \<Rightarrow> Inr ()
           | Some st \<Rightarrow> if st \<noteq> ''active''
               then Inl (authorization_error ''ORGANIZATION_MEMBERSHIP_SUSPENDED'' 403) else Inr ()))"

definition assert_organization_active ::
  "auth_tables \<Rightarrow> principal \<Rightarrow> workspace_row option \<Rightarrow> authorization_error + unit" where
  "assert_organization_active db p w =
    (if (case w of None \<Rightarrow> False | Some r \<Rightarrow> workspace_kind r \<noteq> ''organization'') then Inr ()
     else organization_active db (tenant_id p) (user_id p))"

definition resource_unavailable :: authorization_error where
  "resource_unavailable = authorization_error ''RESOURCE_UNAVAILABLE'' 404"

definition find_workspace ::
  "auth_service \<Rightarrow> principal \<Rightarrow> string \<Rightarrow> string \<Rightarrow> string \<Rightarrow> auth_state
    \<Rightarrow> (auth_state, authorization_error, workspace_row) outcome" where
  "find_workspace cfg p w trace pv s =
    (if \<not> safe_id (tenant_id p) \<or> \<not> safe_id w then (Inl invalid_input, s)
     else case lookup_workspace (tables s) (tenant_id p) w of
         None \<Rightarrow> refuse cfg p trace pv (denial ''authorization.resource.denied'' None ''resource''
             ''unavailable-resource'' ''RESOURCE_UNAVAILABLE'') resource_unavailable s
       | Some r \<Rightarrow> attempt (assert_organization_active (tables s) p (Some r)) s (\<lambda>_. (Inr r, s)))"

definition active_row :: "role_row option \<Rightarrow> role_row option" where
  "active_row r = (case r of None \<Rightarrow> None | Some x \<Rightarrow> if row_state x = ''active'' then Some x else None)"

definition active_membership :: "auth_tables \<Rightarrow> principal \<Rightarrow> string \<Rightarrow> role_row option" where
  "active_membership db p w = active_row (dict_get (memberships db) (tenant_id p, w, user_id p))"

definition active_tenant_role :: "auth_tables \<Rightarrow> principal \<Rightarrow> role_row option" where
  "active_tenant_role db p = active_row (dict_get (tenant_roles db) (tenant_id p, user_id p))"

definition kind_of_role :: "role \<Rightarrow> string option" where
  "kind_of_role r = (if r = PersonalOwner then Some ''personal''
     else if r = OrganizationAdmin then Some ''organization'' else None)"

definition role_binding_of :: "auth_tables \<Rightarrow> principal \<Rightarrow> workspace_row \<Rightarrow> role_binding option" where
  "role_binding_of db p w =
    (case active_tenant_role db p of
       Some t \<Rightarrow>
         if kind_of_role (row_role t) = Some (workspace_kind w)
         then Some \<lparr>bound_role = row_role t, bound_scope = TenantScope, bound_version = row_version t\<rparr>
         else None
     | None \<Rightarrow>
         (case active_membership db p (workspace_id w) of None \<Rightarrow> None
          | Some m \<Rightarrow> if row_role m \<notin> WORKSPACE_ROLES then None
              else Some \<lparr>bound_role = row_role m, bound_scope = WorkspaceScope,
                     bound_version = row_version m\<rparr>))"

definition version_of :: "policy_row option \<Rightarrow> int" where
  "version_of r = (case r of None \<Rightarrow> 0 | Some x \<Rightarrow> pol_version x)"

definition policy_versions :: "auth_tables \<Rightarrow> string \<Rightarrow> string \<Rightarrow> int \<times> int \<times> string" where
  "policy_versions db t w =
    (let tv = version_of (dict_get (tenant_policies db) t);
         wv = version_of (dict_get (workspace_policies db) (t, w))
     in (tv, wv, ''tenant-'' @ dec_int tv @ '':workspace-'' @ dec_int wv))"

abbreviation policy_text :: "auth_tables \<Rightarrow> string \<Rightarrow> string \<Rightarrow> string" where
  "policy_text db t w \<equiv> snd (snd (policy_versions db t w))"

definition effective_permission_of ::
  "auth_tables \<Rightarrow> role \<Rightarrow> string \<Rightarrow> string \<Rightarrow> permission \<Rightarrow> bool \<Rightarrow> effective_permission" where
  "effective_permission_of db r t w perm req =
    (let pv = policy_text db t w;
         answer = (\<lambda>q e l why. \<lparr>permission = perm, requested = q, effective = e, locked_by = l,
           reason = why, eff_policy_version = pv\<rparr>) in
     if \<not> req then answer False False None ''NOT_REQUESTED''
     else
       (let tenant_rule = dict_get (tenant_rules db) (t, perm);
            workspace_rule = dict_get (workspace_rules db) (t, w, perm);
            by_workspace =
              (case workspace_rule of
                 Some x \<Rightarrow>
                   (let e = (rule_effect x = GrantEffect) in
                    answer True e (if rule_locked x then Some ''workspace-policy'' else None)
                      (if e then ''WORKSPACE_GRANT'' else ''WORKSPACE_DENY''))
               | None \<Rightarrow>
                   if tenant_rule \<noteq> None then answer True True None ''ORGANIZATION_GRANT''
                   else
                     (let e = perm \<in> role_permission_defaults r in
                      answer True e None (if e then ''ROLE_DEFAULT_GRANT'' else ''ROLE_DEFAULT_DENY'')))
        in case tenant_rule of
            None \<Rightarrow> by_workspace
          | Some x \<Rightarrow>
              if rule_locked x \<or> rule_effect x = DenyEffect
              then answer True (rule_effect x = GrantEffect) (Some ''tenant-policy'')
                (if rule_locked x then ''ORGANIZATION_LOCK'' else ''ORGANIZATION_DENY'')
              else by_workspace))"

definition action_denied :: authorization_error where
  "action_denied = authorization_error ''ACTION_DENIED'' 403"

definition evaluate_permission ::
  "principal \<Rightarrow> string \<Rightarrow> permission \<Rightarrow> bool \<Rightarrow> auth_state
    \<Rightarrow> (auth_state, authorization_error, effective_permission) outcome" where
  "evaluate_permission p w perm req = transaction (\<lambda>s.
    attempt (checked_id w) s (\<lambda>_.
    case lookup_workspace (tables s) (tenant_id p) w of
      None \<Rightarrow> (Inl resource_unavailable, s)
    | Some r \<Rightarrow> attempt (assert_organization_active (tables s) p (Some r)) s (\<lambda>_.
        case role_binding_of (tables s) p r of None \<Rightarrow> (Inl action_denied, s)
        | Some b \<Rightarrow> (Inr (effective_permission_of (tables s) (bound_role b) (tenant_id p) w perm req), s))))"

text \<open>\<open>_required_step_up\<close>: the first group, in the given order, whose permission is asked for.\<close>

definition step_up_order :: "(permission \<times> string) list" where
  "step_up_order =
    [(DataAreaMove, ''data_area_move''),
     (ProductionKnowledgeRegistration, ''final_approval_or_knowledge_registration''),
     (FinalApprovalExternalDelivery, ''final_approval_or_knowledge_registration''),
     (FileDownloadShare, ''external_share_or_download''),
     (ExternalLlm, ''external_transfer'')]"

definition policy_change_group :: string where
  "policy_change_group = ''organization_security_or_connector_policy_change''"

definition required_step_up :: "action \<Rightarrow> permission list \<Rightarrow> string option" where
  "required_step_up a perms =
    (if a = PolicyManage then Some policy_change_group
     else map_option snd (find (\<lambda>(perm, _). perm \<in> set perms) step_up_order))"

text \<open>\<open>tuple(dict.fromkeys(xs))\<close>: every element once, in the order of first occurrence.\<close>

definition from_keys :: "'a list \<Rightarrow> 'a list" where
  "from_keys xs = map fst (dict_by (\<lambda>x. x) xs)"

definition action_grant ::
  "auth_service \<Rightarrow> auth_tables \<Rightarrow> principal \<Rightarrow> workspace_row \<Rightarrow> role_binding option \<Rightarrow> action
    \<Rightarrow> permission list \<Rightarrow> authorization_grant option" where
  "action_grant cfg db p w binding a extra =
    (case binding of None \<Rightarrow> None
     | Some b \<Rightarrow>
         if a \<notin> role_action_matrix (bound_role b) then None
         else
           (let perms = from_keys (action_permissions (download_first cfg) a @ extra);
                eff = map (\<lambda>perm. effective_permission_of db (bound_role b) (tenant_id p)
                         (workspace_id w) perm True) perms
            in if \<not> list_all effective eff then None
               else Some
                 \<lparr>allowed = True, grant_actor_id = user_id p, grant_tenant_id = tenant_id p,
                  grant_workspace_id = workspace_id w, grant_role = bound_role b,
                  grant_scope = bound_scope b, grant_action = a, effective_permissions = eff,
                  required_step_up_action = required_step_up a perms,
                  grant_membership_version = bound_version b, grant_acl_version = acl_version w,
                  grant_policy_version = policy_text db (tenant_id p) (workspace_id w)\<rparr>))"

definition action_denial :: "string \<Rightarrow> action \<Rightarrow> audit_request" where
  "action_denial w a =
    (denial ''authorization.action.denied'' (Some w) ''workspace_action'' w ''ACTION_DENIED'')
      \<lparr>req_metadata := [(''reason_code'', JStr ''ACTION_DENIED''),
        (''requested_action'', JStr (action_value a))]\<rparr>"

definition action_audit :: "string \<Rightarrow> action \<Rightarrow> authorization_grant \<Rightarrow> audit_request" where
  "action_audit w a g =
    \<lparr>req_action = ''authorization.action.allowed'', req_outcome = Succeeded,
     req_workspace_id = Some w, req_target_type = ''workspace_action'', req_target_id = w,
     req_before = None, req_after = None,
     req_metadata = [(''requested_action'', JStr (action_value a)),
       (''role'', JStr (role_value (grant_role g))),
       (''role_scope'', JStr (scope_value (grant_scope g)))]\<rparr>"

text \<open>The answer once the workspace is found.\<close>

definition answer_action ::
  "auth_service \<Rightarrow> principal \<Rightarrow> string \<Rightarrow> action \<Rightarrow> string \<Rightarrow> string \<Rightarrow> authorization_grant option
    \<Rightarrow> auth_state \<Rightarrow> (auth_state, authorization_error, authorization_grant) outcome" where
  "answer_action cfg p w a trace pv grant s =
    (case grant of
       None \<Rightarrow> refuse cfg p trace pv (action_denial w a) action_denied s
     | Some g \<Rightarrow> chain (audit cfg p trace pv (action_audit w a g) s) (\<lambda>_ t. (Inr g, t)))"

definition authorize_action ::
  "auth_service \<Rightarrow> principal \<Rightarrow> string \<Rightarrow> action \<Rightarrow> string \<Rightarrow> string \<Rightarrow> permission list \<Rightarrow> auth_state
    \<Rightarrow> (auth_state, authorization_error, authorization_grant) outcome" where
  "authorize_action cfg p w a trace pv extra = transaction (\<lambda>s.
    chain (find_workspace cfg p w trace pv s) (\<lambda>r s1.
      answer_action cfg p w a trace pv
        (action_grant cfg (tables s1) p r (role_binding_of (tables s1) p r) a extra) s1))"

definition authorize_audit_read ::
  "auth_service \<Rightarrow> principal \<Rightarrow> string option \<Rightarrow> string \<Rightarrow> string \<Rightarrow> auth_state
    \<Rightarrow> (auth_state, authorization_error, unit) outcome" where
  "authorize_audit_read cfg p w trace pv s =
    (case w of
       Some wid \<Rightarrow> chain (authorize_action cfg p wid View trace pv [] s) (\<lambda>_ t. (Inr (), t))
     | None \<Rightarrow> transaction (\<lambda>s.
         let r = map_option row_role (active_tenant_role (tables s) p) in
         attempt (if r = Some OrganizationAdmin then assert_organization_active (tables s) p None
                  else Inr ()) s (\<lambda>_.
         let ok = (case r of None \<Rightarrow> False | Some x \<Rightarrow> x \<in> TENANT_ROLES) in
         chain (audit cfg p trace pv
           \<lparr>req_action = (if ok then ''authorization.audit_read.allowed''
               else ''authorization.audit_read.denied''),
            req_outcome = (if ok then Succeeded else Denied), req_workspace_id = None,
            req_target_type = ''audit_scope'', req_target_id = ''tenant-audit'',
            req_before = None, req_after = None,
            req_metadata = [(''scope'', JStr ''tenant''),
              (''reason_code'', JStr (if ok then ''TENANT_ROLE_ALLOWED'' else ''ACTION_DENIED''))]\<rparr> s)
           (\<lambda>_ t. (if ok then Inr () else Inl action_denied, t)))) s)"

text \<open>\<open>str.upper\<close> on the names of the roles.\<close>

definition ascii_upper :: "string \<Rightarrow> string" where
  "ascii_upper = map (\<lambda>c. if CHR ''a'' \<le> c \<and> c \<le> CHR ''z'' then char_of (of_char c - 32 :: nat) else c)"

definition tenant_workspaces :: "auth_tables \<Rightarrow> string \<Rightarrow> string \<Rightarrow> string list" where
  "tenant_workspaces db t kind =
    sort (map fst (filter (\<lambda>(_, r). ws_tenant_id r = t \<and> workspace_kind r = kind) (workspaces db)))"

definition organization_admin_workspace ::
  "auth_service \<Rightarrow> principal \<Rightarrow> string \<Rightarrow> string \<Rightarrow> auth_state
    \<Rightarrow> (auth_state, authorization_error, string) outcome" where
  "organization_admin_workspace cfg p trace pv = transaction (\<lambda>s.
    let r = map_option row_role (active_tenant_role (tables s) p);
        rows = (case Option.bind r kind_of_role of None \<Rightarrow> []
                | Some k \<Rightarrow> take 2 (tenant_workspaces (tables s) (tenant_id p) k));
        ok = (length rows = 1)
    in chain (audit cfg p trace pv
        \<lparr>req_action = (if ok then ''authorization.organization_policy.allowed''
            else ''authorization.organization_policy.denied''),
         req_outcome = (if ok then Succeeded else Denied), req_workspace_id = None,
         req_target_type = ''organization_policy'', req_target_id = tenant_id p,
         req_before = None, req_after = None,
         req_metadata =
           [(''reason_code'', JStr (case r of Some x \<Rightarrow>
                if ok then ascii_upper (role_value x) else ''ACTION_DENIED'' | None \<Rightarrow> ''ACTION_DENIED'')),
            (''role'', JStr (case r of None \<Rightarrow> ''none'' | Some x \<Rightarrow> role_value x)),
            (''candidate_count'', JInt (int (length rows)))]\<rparr> s)
        (\<lambda>_ t. (if ok then Inr (hd rows) else Inl action_denied, t)))"

section \<open>Changing memberships and tenant roles\<close>

definition touch_acl :: "string \<Rightarrow> string \<Rightarrow> int \<Rightarrow> auth_tables \<Rightarrow> auth_tables" where
  "touch_acl t w now db =
    (case lookup_workspace db t w of None \<Rightarrow> db
     | Some r \<Rightarrow> db\<lparr>workspaces :=
         dict_set w (r\<lparr>acl_version := acl_version r + 1, ws_updated_at := now\<rparr>) (workspaces db)\<rparr>)"

definition role_version :: "role_row option \<Rightarrow> int" where
  "role_version r = (case r of None \<Rightarrow> 0 | Some x \<Rightarrow> row_version x)"

definition role_json :: "string \<Rightarrow> string \<Rightarrow> int \<Rightarrow> json" where
  "role_json r st v = JObj [(''role'', JStr r), (''state'', JStr st), (''version'', JInt v)]"

definition row_json :: "role_row \<Rightarrow> json" where
  "row_json x = role_json (role_value (row_role x)) (row_state x) (row_version x)"

text \<open>The roles a role may give to others; a role that is no key gives none.\<close>

fun assignable :: "role \<Rightarrow> role set option" where
  "assignable PersonalOwner = Some WORKSPACE_ROLES"
| "assignable OrganizationAdmin = Some WORKSPACE_ROLES"
| "assignable WorkspaceAdmin = Some {Editor, Reviewer, Approver, Viewer}"
| "assignable _ = None"

definition may_assign :: "role_binding option \<Rightarrow> role \<Rightarrow> bool" where
  "may_assign b r = (case b of None \<Rightarrow> False
     | Some x \<Rightarrow> (case assignable (bound_role x) of None \<Rightarrow> False | Some rs \<Rightarrow> r \<in> rs))"

definition membership_denial :: "string \<Rightarrow> string \<Rightarrow> audit_request" where
  "membership_denial w why =
    denial ''authorization.membership.change_denied'' (Some w) ''membership'' ''protected-membership'' why"

definition version_conflict :: authorization_error where
  "version_conflict = authorization_error ''VERSION_CONFLICT'' 412"

definition privilege_escalation :: authorization_error where
  "privilege_escalation = authorization_error ''PRIVILEGE_ESCALATION_DENIED'' 403"

definition invalid_role_scope :: authorization_error where
  "invalid_role_scope = authorization_error ''INVALID_ROLE_SCOPE'' 400"

definition set_membership ::
  "auth_service \<Rightarrow> principal \<Rightarrow> string \<Rightarrow> string \<Rightarrow> role \<Rightarrow> int \<Rightarrow> string \<Rightarrow> string \<Rightarrow> auth_state
    \<Rightarrow> (auth_state, authorization_error, int) outcome" where
  "set_membership cfg p w u r expected trace pv s0 =
    (if expected < 0 \<or> \<not> safe_id u then (Inl invalid_input, s0)
     else chain (read_now cfg s0) (\<lambda>now. transaction (\<lambda>s.
       chain (find_workspace cfg p w trace pv s) (\<lambda>ws s1.
       if r \<notin> WORKSPACE_ROLES
       then refuse cfg p trace pv (membership_denial w ''INVALID_ROLE_SCOPE'') invalid_role_scope s1
       else if \<not> may_assign (role_binding_of (tables s1) p ws) r
       then refuse cfg p trace pv (membership_denial w ''PRIVILEGE_ESCALATION_DENIED'')
         privilege_escalation s1
       else
         (let current = dict_get (memberships (tables s1)) (tenant_id p, w, u);
              cv = role_version current
          in if cv \<noteq> expected
             then refuse cfg p trace pv (membership_denial w ''VERSION_CONFLICT'') version_conflict s1
             else
               (let row = \<lparr>row_role = r, row_state = ''active'', row_version = cv + 1,
                      row_updated_at = now\<rparr>;
                    db1 = (tables s1)\<lparr>memberships :=
                      dict_set (tenant_id p, w, u) row (memberships (tables s1))\<rparr>;
                    s2 = s1\<lparr>tables := touch_acl (tenant_id p) w now db1\<rparr>
                in chain (audit cfg p trace pv
                  \<lparr>req_action = ''authorization.membership.changed'', req_outcome = Succeeded,
                   req_workspace_id = Some w, req_target_type = ''membership'', req_target_id = u,
                   req_before = map_option row_json current, req_after = Some (row_json row),
                   req_metadata = []\<rparr> s2) (\<lambda>_ s3. (Inr (cv + 1), s3))))))))"

definition tenant_kinds :: "auth_tables \<Rightarrow> string \<Rightarrow> string set" where
  "tenant_kinds db t =
    set (map (\<lambda>(_, r). workspace_kind r) (filter (\<lambda>(_, r). ws_tenant_id r = t) (workspaces db)))"

definition tenant_role_of_kinds :: "string set \<Rightarrow> role option" where
  "tenant_role_of_kinds kinds =
    (if kinds = {''personal''} then Some PersonalOwner
     else if kinds = {''organization''} then Some OrganizationAdmin else None)"

definition tenant_role_denial :: "string \<Rightarrow> audit_request" where
  "tenant_role_denial why =
    denial ''authorization.tenant_role.change_denied'' None ''tenant_role'' ''protected-tenant-role'' why"

definition set_tenant_role ::
  "auth_service \<Rightarrow> principal \<Rightarrow> string \<Rightarrow> role option \<Rightarrow> int \<Rightarrow> string \<Rightarrow> string \<Rightarrow> auth_state
    \<Rightarrow> (auth_state, authorization_error, int) outcome" where
  "set_tenant_role cfg p u r expected trace pv s0 =
    (if (case r of None \<Rightarrow> False | Some x \<Rightarrow> x \<notin> TENANT_ROLES) then (Inl invalid_role_scope, s0)
     else if expected < 0 \<or> \<not> safe_id u then (Inl invalid_input, s0)
     else chain (read_now cfg s0) (\<lambda>now. transaction (\<lambda>s.
       if (case active_tenant_role (tables s) p of None \<Rightarrow> True | Some x \<Rightarrow> row_role x \<notin> TENANT_ROLES)
       then refuse cfg p trace pv (tenant_role_denial ''PRIVILEGE_ESCALATION_DENIED'')
         privilege_escalation s
       else
         (let expected_role = tenant_role_of_kinds (tenant_kinds (tables s) (tenant_id p)) in
          if expected_role = None \<or> (r \<noteq> None \<and> r \<noteq> expected_role)
          then (Inl invalid_role_scope, s)
          else
            (let current = dict_get (tenant_roles (tables s)) (tenant_id p, u);
                 cv = role_version current
             in if cv \<noteq> expected
                then refuse cfg p trace pv (tenant_role_denial ''VERSION_CONFLICT'') version_conflict s
                else
                  (case (case r of Some x \<Rightarrow> Some x | None \<Rightarrow> map_option row_role current) of
                     None \<Rightarrow> (Inl invalid_role_scope, s)
                   | Some next_role \<Rightarrow>
                       (let row = \<lparr>row_role = next_role,
                              row_state = (if r \<noteq> None then ''active'' else ''revoked''),
                              row_version = cv + 1, row_updated_at = now\<rparr>;
                            s1 = s\<lparr>tables := (tables s)\<lparr>tenant_roles :=
                              dict_set (tenant_id p, u) row (tenant_roles (tables s))\<rparr>\<rparr>
                        in chain (audit cfg p trace pv
                          \<lparr>req_action = ''authorization.tenant_role.changed'', req_outcome = Succeeded,
                           req_workspace_id = None, req_target_type = ''tenant_role'',
                           req_target_id = u, req_before = map_option row_json current,
                           req_after = Some (row_json row), req_metadata = []\<rparr> s1)
                          (\<lambda>_ s2. (Inr (cv + 1), s2)))))))))"

definition manager_binding :: "role_binding option \<Rightarrow> bool" where
  "manager_binding b = (case b of None \<Rightarrow> False
     | Some x \<Rightarrow> bound_role x \<in> {PersonalOwner, OrganizationAdmin, WorkspaceAdmin})"

definition set_source_access ::
  "auth_service \<Rightarrow> principal \<Rightarrow> string \<Rightarrow> string \<Rightarrow> string \<Rightarrow> bool \<Rightarrow> int \<Rightarrow> string \<Rightarrow> string \<Rightarrow> auth_state
    \<Rightarrow> (auth_state, authorization_error, int) outcome" where
  "set_source_access cfg p w u src ok expected trace pv s0 =
    (if \<not> safe_id u \<or> \<not> safe_id src \<or> expected < 0 then (Inl invalid_input, s0)
     else chain (read_now cfg s0) (\<lambda>now. transaction (\<lambda>s.
       chain (find_workspace cfg p w trace pv s) (\<lambda>ws s1.
       if \<not> manager_binding (role_binding_of (tables s1) p ws) then (Inl action_denied, s1)
       else
         (let k = (tenant_id p, w, u, src);
              current = dict_get (source_access (tables s1)) k;
              cv = (case current of None \<Rightarrow> 0 | Some x \<Rightarrow> access_version x)
          in if cv \<noteq> expected then (Inl version_conflict, s1)
             else
               (let row = \<lparr>source_allowed = ok, access_version = cv + 1, access_updated_at = now\<rparr>;
                    db1 = (tables s1)\<lparr>source_access := dict_set k row (source_access (tables s1))\<rparr>;
                    s2 = s1\<lparr>tables := touch_acl (tenant_id p) w now db1\<rparr>
                in chain (audit cfg p trace pv
                  \<lparr>req_action = ''authorization.source_access.changed'', req_outcome = Succeeded,
                   req_workspace_id = Some w, req_target_type = ''source_access'', req_target_id = src,
                   req_before = map_option (\<lambda>x. JObj [(''allowed'', JBool (source_allowed x)),
                       (''version'', JInt cv)]) current,
                   req_after = Some (JObj [(''allowed'', JBool ok), (''version'', JInt (cv + 1))]),
                   req_metadata = []\<rparr> s2) (\<lambda>_ s3. (Inr (cv + 1), s3))))))))"

section \<open>Changing permission policies\<close>

definition ask_identity ::
  "(nat \<Rightarrow> string + 'a) \<Rightarrow> auth_state \<Rightarrow> (auth_state, authorization_error, 'a) outcome" where
  "ask_identity f s =
    ((case f (identity_calls s) of Inl c \<Rightarrow> Inl (IdentityRaised c) | Inr a \<Rightarrow> Inr a),
     s\<lparr>identity_calls := Suc (identity_calls s)\<rparr>)"

definition policy_manager :: "string \<Rightarrow> role_binding option \<Rightarrow> bool" where
  "policy_manager scope b =
    (if scope = ''tenant'' then (case b of None \<Rightarrow> False | Some x \<Rightarrow> bound_scope x = TenantScope)
     else manager_binding b)"

definition policy_denial :: "string \<Rightarrow> string \<Rightarrow> string \<Rightarrow> audit_request" where
  "policy_denial scope w why =
    denial ''authorization.policy.change_denied'' (Some w) (scope @ ''_policy'') ''protected-policy'' why"

text \<open>The guard that both transactions of \<open>set_permission_policy\<close> begin with.\<close>

definition policy_guard ::
  "auth_service \<Rightarrow> principal \<Rightarrow> string \<Rightarrow> string \<Rightarrow> string \<Rightarrow> string \<Rightarrow> auth_state
    \<Rightarrow> (auth_state, authorization_error, workspace_row) outcome" where
  "policy_guard cfg p scope w trace pv s =
    chain (find_workspace cfg p w trace pv s) (\<lambda>ws s1.
      if policy_manager scope (role_binding_of (tables s1) p ws) then (Inr ws, s1)
      else refuse cfg p trace pv (policy_denial scope w ''PRIVILEGE_ESCALATION_DENIED'')
        privilege_escalation s1)"

definition policy_header :: "string \<Rightarrow> string \<Rightarrow> string \<Rightarrow> auth_tables \<Rightarrow> policy_row option" where
  "policy_header scope t w db =
    (if scope = ''tenant'' then dict_get (tenant_policies db) t
     else dict_get (workspace_policies db) (t, w))"

definition policy_rule :: "string \<Rightarrow> string \<Rightarrow> string \<Rightarrow> permission \<Rightarrow> auth_tables \<Rightarrow> rule_row option" where
  "policy_rule scope t w perm db =
    (if scope = ''tenant'' then dict_get (tenant_rules db) (t, perm)
     else dict_get (workspace_rules db) (t, w, perm))"

text \<open>The update of the version, of no effect without a row, and the insertion of the rule.\<close>

definition store_rule ::
  "string \<Rightarrow> string \<Rightarrow> string \<Rightarrow> permission \<Rightarrow> rule_row \<Rightarrow> int \<Rightarrow> int \<Rightarrow> auth_tables \<Rightarrow> auth_tables" where
  "store_rule scope t w perm x v now db =
    (let header = \<lparr>pol_version = v, pol_updated_at = now\<rparr> in
     if scope = ''tenant''
     then db\<lparr>tenant_policies := (if dict_get (tenant_policies db) t = None then tenant_policies db
              else dict_set t header (tenant_policies db)),
             tenant_rules := dict_set (t, perm) x (tenant_rules db)\<rparr>
     else db\<lparr>workspace_policies := (if dict_get (workspace_policies db) (t, w) = None
                then workspace_policies db else dict_set (t, w) header (workspace_policies db)),
             workspace_rules := dict_set (t, w, perm) x (workspace_rules db)\<rparr>)"

definition rule_json :: "permission \<Rightarrow> rule_row \<Rightarrow> int \<Rightarrow> json" where
  "rule_json perm x v =
    JObj [(''permission'', JStr (permission_value perm)), (''effect'', JStr (effect_value (rule_effect x))),
      (''locked'', JBool (rule_locked x)), (''version'', JInt v)]"

definition change_policy ::
  "auth_service \<Rightarrow> principal \<Rightarrow> string \<Rightarrow> string \<Rightarrow> permission \<Rightarrow> rule_row \<Rightarrow> int \<Rightarrow> string \<Rightarrow> int
    \<Rightarrow> string \<Rightarrow> string \<Rightarrow> auth_state \<Rightarrow> (auth_state, authorization_error, int) outcome" where
  "change_policy cfg p scope w perm x expected target now trace pv = transaction (\<lambda>s.
    chain (policy_guard cfg p scope w trace pv s) (\<lambda>ws s1.
    let header = policy_header scope (tenant_id p) w (tables s1);
        rule = policy_rule scope (tenant_id p) w perm (tables s1);
        cv = version_of header
    in if cv \<noteq> expected
       then refuse cfg p trace pv (policy_denial scope w ''VERSION_CONFLICT'') version_conflict s1
       else
         (let s2 = s1\<lparr>tables := store_rule scope (tenant_id p) w perm x (cv + 1) now (tables s1)\<rparr>
          in chain (audit cfg p trace pv
            \<lparr>req_action = ''authorization.policy.changed'', req_outcome = Succeeded,
             req_workspace_id = Some (workspace_id ws), req_target_type = scope @ ''_policy'',
             req_target_id = target,
             req_before = map_option (\<lambda>y. rule_json perm y cv) rule,
             req_after = Some (rule_json perm x (cv + 1)), req_metadata = []\<rparr> s2)
            (\<lambda>_ s3. (Inr (cv + 1), s3)))))"

definition set_permission_policy ::
  "auth_service \<Rightarrow> string \<Rightarrow> string option \<Rightarrow> string \<Rightarrow> string \<Rightarrow> permission \<Rightarrow> rule_row \<Rightarrow> int
    \<Rightarrow> string \<Rightarrow> string \<Rightarrow> auth_state \<Rightarrow> (auth_state, authorization_error, int) outcome" where
  "set_permission_policy cfg access_token step_up scope w perm x expected trace pv s0 =
    (case identity cfg of
       None \<Rightarrow> (Inl (authorization_error ''IDENTITY_BOUNDARY_REQUIRED'' 503), s0)
     | Some ids \<Rightarrow>
         if scope \<notin> {''tenant'', ''workspace''} \<or> expected < 1 then (Inl invalid_input, s0)
         else chain (ask_identity (\<lambda>n. validate_access ids n access_token trace pv) s0) (\<lambda>p s1.
           attempt (if scope = ''tenant'' then Inr (tenant_id p) else checked_id w) s1 (\<lambda>target.
           chain (transaction (policy_guard cfg p scope w trace pv) s1) (\<lambda>_ s2.
           chain (ask_identity (\<lambda>n. consume_step_up ids n step_up access_token policy_change_group
               target pv trace) s2) (\<lambda>_ s3.
           chain (read_now cfg s3) (\<lambda>now.
             change_policy cfg p scope w perm x expected target now trace pv))))))"

section \<open>Historical results\<close>

definition dependency_row_of :: "evidence_dependency \<Rightarrow> dependency_row" where
  "dependency_row_of d =
    \<lparr>dep_source_version_id = source_version_id d, dep_segment_ids = segment_ids d,
     dep_decisive = decisive d, dep_safe_separation = safe_separation d\<rparr>"

fun insert_dependencies ::
  "string \<Rightarrow> evidence_dependency list \<Rightarrow> (string \<times> string, dependency_row) dict
    \<Rightarrow> authorization_error + (string \<times> string, dependency_row) dict" where
  "insert_dependencies rid [] m = Inr m"
| "insert_dependencies rid (d # ds) m =
    (if dict_get m (rid, reference_id d) \<noteq> None then Inl persistence_conflict
     else insert_dependencies rid ds (dict_set (rid, reference_id d) (dependency_row_of d) m))"

definition result_row_of :: "historical_result \<Rightarrow> int \<Rightarrow> result_row" where
  "result_row_of d now =
    \<lparr>hist_kind = result_kind d, hist_tenant_id = res_tenant_id d,
     hist_workspace_id = res_workspace_id d, hist_source_version_ids = source_version_ids d,
     hist_evidence_reference_ids = evidence_reference_ids d,
     hist_policy_version = original_policy_version d,
     hist_membership_version = original_membership_version d, hist_created_at = now\<rparr>"

definition insert_descriptor ::
  "historical_result \<Rightarrow> int \<Rightarrow> auth_tables \<Rightarrow> authorization_error + auth_tables" where
  "insert_descriptor d now db =
    (case validate_descriptor d of Inl e \<Rightarrow> Inl e
     | Inr _ \<Rightarrow> (case sqlite_int (original_membership_version d) of Inl e \<Rightarrow> Inl e
         | Inr _ \<Rightarrow>
            if dict_get (historical_results db) (result_id d) \<noteq> None
              \<or> lookup_workspace db (res_tenant_id d) (res_workspace_id d) = None
            then Inl persistence_conflict
            else (case insert_dependencies (result_id d) (dependencies d) (result_dependencies db) of
                Inl e \<Rightarrow> Inl e
              | Inr m \<Rightarrow> Inr (db\<lparr>historical_results :=
                    dict_set (result_id d) (result_row_of d now) (historical_results db),
                  result_dependencies := m\<rparr>))))"

definition insert_historical_result ::
  "historical_result \<Rightarrow> int \<Rightarrow> auth_state \<Rightarrow> (auth_state, authorization_error, unit) outcome" where
  "insert_historical_result d now = transaction (\<lambda>s.
    attempt (insert_descriptor d now (tables s)) s (\<lambda>db. (Inr (), s\<lparr>tables := db\<rparr>)))"

definition read_dependencies :: "auth_tables \<Rightarrow> string \<Rightarrow> evidence_dependency list" where
  "read_dependencies db rid =
    sort_key reference_id
      (map (\<lambda>((_, ref), x). \<lparr>reference_id = ref, source_version_id = dep_source_version_id x,
          segment_ids = dep_segment_ids x, decisive = dep_decisive x,
          safe_separation = dep_safe_separation x\<rparr>)
        (filter (\<lambda>((r, _), _). r = rid) (result_dependencies db)))"

definition read_descriptor ::
  "auth_tables \<Rightarrow> string \<Rightarrow> string \<Rightarrow> string \<Rightarrow> historical_result option" where
  "read_descriptor db t w rid =
    (case dict_get (historical_results db) rid of None \<Rightarrow> None
     | Some x \<Rightarrow>
         if hist_tenant_id x = t \<and> hist_workspace_id x = w
         then Some \<lparr>result_id = rid, result_kind = hist_kind x, res_tenant_id = hist_tenant_id x,
           res_workspace_id = hist_workspace_id x, source_version_ids = hist_source_version_ids x,
           evidence_reference_ids = hist_evidence_reference_ids x,
           dependencies = read_dependencies db rid, original_policy_version = hist_policy_version x,
           original_membership_version = hist_membership_version x\<rparr>
         else None)"

definition read_historical_result ::
  "string \<Rightarrow> string \<Rightarrow> string \<Rightarrow> auth_state
    \<Rightarrow> (auth_state, authorization_error, historical_result option) outcome" where
  "read_historical_result t w rid = transaction (\<lambda>s.
    if list_all safe_id [t, w, rid] then (Inr (read_descriptor (tables s) t w rid), s)
    else (Inl invalid_input, s))"

definition register_historical_result ::
  "auth_service \<Rightarrow> principal \<Rightarrow> historical_result \<Rightarrow> string \<Rightarrow> string \<Rightarrow> auth_state
    \<Rightarrow> (auth_state, authorization_error, unit) outcome" where
  "register_historical_result cfg p d trace pv s0 =
    attempt (validate_descriptor d) s0 (\<lambda>_.
    if res_tenant_id d \<noteq> tenant_id p then (Inl resource_unavailable, s0)
    else chain (authorize_action cfg p (res_workspace_id d) Generate trace pv [] s0) (\<lambda>_.
      transaction (\<lambda>s.
        chain (find_workspace cfg p (res_workspace_id d) trace pv s) (\<lambda>_ s1.
        if dict_get (historical_results (tables s1)) (result_id d) \<noteq> None
        then (Inl (authorization_error ''HISTORICAL_RESULT_IMMUTABLE'' 409), s1)
        else chain (read_now cfg s1) (\<lambda>now s2.
          attempt (insert_descriptor d now (tables s2)) s2 (\<lambda>db.
          audit cfg p trace pv
            \<lparr>req_action = ''authorization.historical_result.registered'', req_outcome = Succeeded,
             req_workspace_id = Some (res_workspace_id d), req_target_type = ''historical_result'',
             req_target_id = result_id d, req_before = None,
             req_after = Some (JObj [(''result_kind'', JStr (result_kind d)),
               (''source_count'', JInt (int (length (source_version_ids d)))),
               (''reference_count'', JInt (int (length (evidence_reference_ids d))))]),
             req_metadata = []\<rparr> (s2\<lparr>tables := db\<rparr>)))))))"

definition find_descriptor ::
  "auth_service \<Rightarrow> principal \<Rightarrow> string \<Rightarrow> string \<Rightarrow> string \<Rightarrow> auth_state
    \<Rightarrow> (auth_state, authorization_error, historical_result) outcome" where
  "find_descriptor cfg p rid trace pv s =
    attempt (checked_id rid) s (\<lambda>_.
    case (case dict_get (historical_results (tables s)) rid of None \<Rightarrow> None
          | Some x \<Rightarrow> if hist_tenant_id x = tenant_id p then Some (hist_workspace_id x) else None) of
      None \<Rightarrow> refuse cfg p trace pv (denial ''authorization.resource.denied'' None ''historical_result''
          ''unavailable-resource'' ''RESOURCE_UNAVAILABLE'') resource_unavailable s
    | Some w \<Rightarrow>
        (case read_descriptor (tables s) (tenant_id p) w rid of
           None \<Rightarrow> (Inl resource_unavailable, s)
         | Some d \<Rightarrow> (Inr d, s)))"

section \<open>Access to historical results\<close>

text \<open>The local variables of the evaluation.\<close>

record evidence_view =
  view_state :: access_state
  reasons :: "string list"
  allowed_references :: "string list"
  masked_references :: "string list"
  allowed_segments :: "string list"
  masked_segments :: "string list"

definition blocked_view :: "historical_result \<Rightarrow> evidence_view" where
  "blocked_view d =
    \<lparr>view_state = AccessBlocked, reasons = [''CURRENT_MEMBERSHIP_OR_PERMISSION_DENIED''],
     allowed_references = [], masked_references = evidence_reference_ids d, allowed_segments = [],
     masked_segments = concat (map segment_ids (dependencies d))\<rparr>"

definition source_open :: "auth_tables \<Rightarrow> string \<Rightarrow> string \<Rightarrow> string \<Rightarrow> string \<Rightarrow> bool" where
  "source_open db t w u src =
    (case dict_get (source_access db) (t, w, u, src) of None \<Rightarrow> True | Some x \<Rightarrow> source_allowed x)"

fun sift_dependencies ::
  "(string \<Rightarrow> bool) \<Rightarrow> evidence_dependency list \<Rightarrow> evidence_view \<Rightarrow> evidence_view" where
  "sift_dependencies src_open [] v = v"
| "sift_dependencies src_open (d # ds) v =
    sift_dependencies src_open ds
      (if src_open (source_version_id d)
       then v\<lparr>allowed_references := allowed_references v @ [reference_id d],
              allowed_segments := allowed_segments v @ segment_ids d\<rparr>
       else
         (let v1 = v\<lparr>masked_references := masked_references v @ [reference_id d],
                     masked_segments := masked_segments v @ segment_ids d\<rparr> in
          if decisive d
          then v1\<lparr>reasons := reasons v @ [''DECISIVE_DEPENDENCY_DENIED''], view_state := AccessBlocked\<rparr>
          else if \<not> safe_separation d
          then v1\<lparr>reasons := reasons v @ [''SAFE_SEPARATION_UNAVAILABLE''], view_state := AccessBlocked\<rparr>
          else if view_state v \<noteq> AccessBlocked
          then v1\<lparr>reasons := reasons v @ [''SOURCE_ACCESS_REVOKED''], view_state := PartiallyRedacted\<rparr>
          else v1))"

definition available_view :: evidence_view where
  "available_view = \<lparr>view_state = Available, reasons = [], allowed_references = [],
     masked_references = [], allowed_segments = [], masked_segments = []\<rparr>"

definition evidence_view_of ::
  "auth_tables \<Rightarrow> principal \<Rightarrow> historical_result \<Rightarrow> authorization_grant option \<Rightarrow> evidence_view" where
  "evidence_view_of db p d grant =
    (if grant = None then blocked_view d
     else sift_dependencies (source_open db (tenant_id p) (res_workspace_id d) (user_id p))
       (dependencies d) available_view)"

definition decide_access ::
  "string \<Rightarrow> int \<Rightarrow> auth_tables \<Rightarrow> principal \<Rightarrow> historical_result \<Rightarrow> workspace_row
    \<Rightarrow> role_binding option \<Rightarrow> access_action \<Rightarrow> evidence_view \<Rightarrow> access_decision" where
  "decide_access i now db p d w binding a v =
    \<lparr>decision_id = i, dec_actor_id = user_id p, dec_action = a, dec_resource_id = result_id d,
     dec_tenant_id = tenant_id p, dec_workspace_id = res_workspace_id d,
     dec_role_scope = map_option bound_scope binding,
     dec_membership_version = (case binding of None \<Rightarrow> 0 | Some b \<Rightarrow> bound_version b),
     dec_acl_version = acl_version w,
     dec_policy_version = policy_text db (tenant_id p) (res_workspace_id d), evaluated_at = now,
     access_state = view_state v,
     reason_codes = (if reasons v = [] then [''CURRENT_ACCESS_ALLOWED''] else sort (remdups (reasons v))),
     allowed_reference_ids = sort (allowed_references v),
     masked_reference_ids = sort (masked_references v),
     allowed_segment_ids = sort (allowed_segments v), masked_segment_ids = sort (masked_segments v)\<rparr>"

definition decision_audit :: "access_decision \<Rightarrow> audit_request" where
  "decision_audit d =
    \<lparr>req_action = ''authorization.access.decided'',
     req_outcome = (if access_state d \<noteq> AccessBlocked then Succeeded else Denied),
     req_workspace_id = Some (dec_workspace_id d), req_target_type = ''access_decision'',
     req_target_id = decision_id d, req_before = None, req_after = None,
     req_metadata =
       [(''access_state'', JStr (access_state_value (access_state d))),
        (''requested_action'', JStr (access_action_value (dec_action d))),
        (''reason_codes'', JArr (map JStr (reason_codes d))),
        (''allowed_reference_count'', JInt (int (length (allowed_reference_ids d)))),
        (''masked_reference_count'', JInt (int (length (masked_reference_ids d))))]\<rparr>"

text \<open>The end of the evaluation: the decision gets its name and time, is stored and audited.\<close>

definition record_decision ::
  "auth_service \<Rightarrow> principal \<Rightarrow> historical_result \<Rightarrow> workspace_row \<Rightarrow> role_binding option
    \<Rightarrow> access_action \<Rightarrow> evidence_view \<Rightarrow> string \<Rightarrow> string \<Rightarrow> auth_state
    \<Rightarrow> (auth_state, authorization_error, access_decision) outcome" where
  "record_decision cfg p d w binding a v trace pv s =
    (let (i, s1) = fresh_id cfg ''acd'' s in
     chain (read_now cfg s1) (\<lambda>now s2.
       let x = decide_access i now (tables s2) p d w binding a v in
       if dict_get (access_decisions (tables s2)) i \<noteq> None then (Inl persistence_conflict, s2)
       else chain (audit cfg p trace pv (decision_audit x)
           (s2\<lparr>tables := (tables s2)\<lparr>access_decisions := dict_set i x (access_decisions (tables s2))\<rparr>\<rparr>))
         (\<lambda>_ s3. (Inr x, s3))))"

definition evaluate_historical_access ::
  "auth_service \<Rightarrow> principal \<Rightarrow> string \<Rightarrow> access_action \<Rightarrow> string \<Rightarrow> string \<Rightarrow> auth_state
    \<Rightarrow> (auth_state, authorization_error, access_decision) outcome" where
  "evaluate_historical_access cfg p rid a trace pv = transaction (\<lambda>s.
    chain (find_descriptor cfg p rid trace pv s) (\<lambda>d s1.
    chain (find_workspace cfg p (res_workspace_id d) trace pv s1) (\<lambda>w s2.
    let binding = role_binding_of (tables s2) p w;
        v = evidence_view_of (tables s2) p d
              (action_grant cfg (tables s2) p w binding (access_actions a) [])
    in record_decision cfg p d w binding a v trace pv s2)))"

definition require_historical_access ::
  "auth_service \<Rightarrow> principal \<Rightarrow> string \<Rightarrow> access_action \<Rightarrow> string \<Rightarrow> string \<Rightarrow> auth_state
    \<Rightarrow> (auth_state, authorization_error, access_decision) outcome" where
  "require_historical_access cfg p rid a trace pv s =
    chain (evaluate_historical_access cfg p rid a trace pv s) (\<lambda>x t.
      if access_state x = AccessBlocked
      then (Inl (AuthorizationError ''CURRENT_ACCESS_DENIED'' 403 (Some x)), t) else (Inr x, t))"

section \<open>Reruns\<close>

definition rerun_sources :: "access_decision \<Rightarrow> historical_result \<Rightarrow> string list" where
  "rerun_sources x d =
    sort (remdups (map source_version_id
      (filter (\<lambda>y. reference_id y \<in> set (allowed_reference_ids x)) (dependencies d))))"

definition rerun_snapshot_of ::
  "principal \<Rightarrow> historical_result \<Rightarrow> workspace_row \<Rightarrow> role_binding \<Rightarrow> access_decision \<Rightarrow> rerun_snapshot" where
  "rerun_snapshot_of p d w b x =
    \<lparr>snap_tenant_id = tenant_id p, snap_workspace_id = res_workspace_id d, snap_actor_id = user_id p,
     snap_role_scope = bound_scope b, snap_membership_version = bound_version b,
     snap_acl_version = acl_version w, snap_policy_version = dec_policy_version x,
     snap_data_area = data_area w, snap_cost_limit_cents = cost_limit_cents w,
     snap_source_version_ids = rerun_sources x d\<rparr>"

definition rerun_audit :: "access_decision \<Rightarrow> historical_result \<Rightarrow> string \<Rightarrow> rerun_snapshot \<Rightarrow> audit_request" where
  "rerun_audit x d i snap =
    \<lparr>req_action = ''authorization.rerun.authorized'', req_outcome = Succeeded,
     req_workspace_id = Some (res_workspace_id d), req_target_type = ''run_request'',
     req_target_id = i, req_before = None, req_after = None,
     req_metadata = [(''access_state'', JStr (access_state_value (access_state x))),
       (''source_count'', JInt (int (length (snap_source_version_ids snap)))),
       (''current_snapshot'', JBool True)]\<rparr>"

definition record_rerun ::
  "auth_service \<Rightarrow> principal \<Rightarrow> historical_result \<Rightarrow> access_decision \<Rightarrow> rerun_snapshot \<Rightarrow> string \<Rightarrow> string
    \<Rightarrow> auth_state \<Rightarrow> (auth_state, authorization_error, rerun_authorization) outcome" where
  "record_rerun cfg p d x snap trace pv s =
    (let (i, s1) = fresh_id cfg ''rrq'' s in
     chain (read_now cfg s1) (\<lambda>now s2.
       if dict_get (rerun_requests (tables s2)) i \<noteq> None
         \<or> dict_get (access_decisions (tables s2)) (decision_id x) = None
       then (Inl persistence_conflict, s2)
       else
         (let row = \<lparr>rerun_result_id = result_id d, rerun_decision_id = decision_id x,
                rerun_tenant_id = tenant_id p, rerun_workspace_id = res_workspace_id d,
                rerun_actor_id = user_id p, rerun_snapshot = snap, rerun_created_at = now\<rparr>
          in chain (audit cfg p trace pv (rerun_audit x d i snap)
              (s2\<lparr>tables := (tables s2)\<lparr>rerun_requests := dict_set i row (rerun_requests (tables s2))\<rparr>\<rparr>))
            (\<lambda>_ s3. (Inr \<lparr>run_request_id = i, access_decision_id = decision_id x,
              snapshot = snap\<rparr>, s3)))))"

text \<open>The second transaction of \<open>authorize_rerun\<close>, which runs under the decision of the first.\<close>

definition admit_rerun ::
  "auth_service \<Rightarrow> principal \<Rightarrow> string \<Rightarrow> access_decision \<Rightarrow> string \<Rightarrow> string \<Rightarrow> auth_state
    \<Rightarrow> (auth_state, authorization_error, rerun_authorization) outcome" where
  "admit_rerun cfg p rid x trace pv = transaction (\<lambda>s.
    chain (find_descriptor cfg p rid trace pv s) (\<lambda>d s1.
    chain (find_workspace cfg p (res_workspace_id d) trace pv s1) (\<lambda>w s2.
    case role_binding_of (tables s2) p w of
      None \<Rightarrow> (Inl (AuthorizationError ''CURRENT_ACCESS_DENIED'' 403 (Some x)), s2)
    | Some b \<Rightarrow> record_rerun cfg p d x (rerun_snapshot_of p d w b x) trace pv s2)))"

definition authorize_rerun ::
  "auth_service \<Rightarrow> principal \<Rightarrow> string \<Rightarrow> string \<Rightarrow> string \<Rightarrow> auth_state
    \<Rightarrow> (auth_state, authorization_error, rerun_authorization) outcome" where
  "authorize_rerun cfg p rid trace pv s =
    chain (require_historical_access cfg p rid RerunAccess trace pv s) (\<lambda>x.
      admit_rerun cfg p rid x trace pv)"

section \<open>The repository\<close>

definition role_of_kind :: "string \<Rightarrow> role option" where
  "role_of_kind kind = (if kind = ''personal'' then Some PersonalOwner
     else if kind = ''organization'' then Some OrganizationAdmin else None)"

text \<open>The row of the owner is the one the caller names, and active.\<close>

definition owner_row_ok :: "role \<Rightarrow> role_row \<Rightarrow> bool" where
  "owner_row_ok r x \<longleftrightarrow> row_role x = r \<and> row_state x = ''active''"

definition insert_or_ignore :: "'k \<Rightarrow> 'v \<Rightarrow> ('k, 'v) dict \<Rightarrow> ('k, 'v) dict" where
  "insert_or_ignore k v m = (if dict_get m k = None then dict_set k v m else m)"

definition bootstrap_tables ::
  "string \<Rightarrow> string \<Rightarrow> string \<Rightarrow> role \<Rightarrow> string \<Rightarrow> string \<Rightarrow> int \<Rightarrow> int \<Rightarrow> auth_tables
    \<Rightarrow> authorization_error + auth_tables" where
  "bootstrap_tables t w owner r kind area cost now db =
    (let header = \<lparr>pol_version = 1, pol_updated_at = now\<rparr> in
     case sqlite_int cost of Inl e \<Rightarrow> Inl e
     | Inr _ \<Rightarrow>
        if dict_get (workspace_policies db) (t, w) \<noteq> None then Inl persistence_conflict
        else Inr (db\<lparr>
          workspaces := dict_set w \<lparr>workspace_id = w, ws_tenant_id = t, workspace_kind = kind,
            data_area = area, cost_limit_cents = cost, acl_version = 1, ws_version = 1,
            ws_updated_at = now\<rparr> (workspaces db),
          tenant_roles := insert_or_ignore (t, owner) \<lparr>row_role = r, row_state = ''active'',
            row_version = 1, row_updated_at = now\<rparr> (tenant_roles db),
          tenant_policies := insert_or_ignore t header (tenant_policies db),
          workspace_policies := dict_set (t, w) header (workspace_policies db)\<rparr>))"

definition bootstrap_workspace ::
  "string \<Rightarrow> string \<Rightarrow> string \<Rightarrow> role \<Rightarrow> string \<Rightarrow> string \<Rightarrow> int \<Rightarrow> int \<Rightarrow> auth_state
    \<Rightarrow> (auth_state, authorization_error, unit) outcome" where
  "bootstrap_workspace t w owner r kind area cost now s0 =
    (if \<not> list_all safe_id [t, w, owner, kind, area] \<or> cost < 0 then (Inl invalid_input, s0)
     else if role_of_kind kind \<noteq> Some r then (Inl invalid_role_scope, s0)
     else transaction (\<lambda>s.
       let db = tables s; owner_row = dict_get (tenant_roles db) (t, owner) in
       case dict_get (workspaces db) w of
         Some x \<Rightarrow>
           if ws_tenant_id x \<noteq> t \<or> workspace_kind x \<noteq> kind \<or> data_area x \<noteq> area
             \<or> (case owner_row of None \<Rightarrow> True | Some y \<Rightarrow> \<not> owner_row_ok r y)
           then (Inl persistence_conflict, s) else (Inr (), s)
       | None \<Rightarrow>
           if list_ex (\<lambda>(_, x). ws_tenant_id x = t \<and> workspace_kind x \<noteq> kind) (workspaces db)
           then (Inl invalid_role_scope, s)
           else if (case owner_row of None \<Rightarrow> False | Some y \<Rightarrow> \<not> owner_row_ok r y)
           then (Inl invalid_role_scope, s)
           else attempt (bootstrap_tables t w owner r kind area cost now db) s (\<lambda>db1.
             (Inr (), s\<lparr>tables := db1\<rparr>))) s0)"

definition primary_workspace_id ::
  "string \<Rightarrow> auth_state \<Rightarrow> authorization_error + string option" where
  "primary_workspace_id t s =
    (if \<not> safe_id t then Inl invalid_input
     else if repository_closed s then Inl (authorization_error ''PERSISTENCE_UNAVAILABLE'' 503)
     else
       (let own = filter (\<lambda>(_, r). ws_tenant_id r = t) (workspaces (tables s));
            ids = (\<lambda>b. sort (map fst (filter (\<lambda>(_, r). (workspace_kind r = ''personal'') = b) own)))
        in Inr (case ids True @ ids False of [] \<Rightarrow> None | i # _ \<Rightarrow> Some i)))"

definition membership_version ::
  "string \<Rightarrow> string \<Rightarrow> string \<Rightarrow> auth_state
    \<Rightarrow> (auth_state, authorization_error, int option) outcome" where
  "membership_version t w u = transaction (\<lambda>s.
    if list_all safe_id [t, w, u]
    then (Inr (map_option row_version (dict_get (memberships (tables s)) (t, w, u))), s)
    else (Inl invalid_input, s))"

definition tenant_role_version ::
  "string \<Rightarrow> string \<Rightarrow> auth_state \<Rightarrow> (auth_state, authorization_error, int option) outcome" where
  "tenant_role_version t u = transaction (\<lambda>s.
    if list_all safe_id [t, u]
    then (Inr (map_option row_version (dict_get (tenant_roles (tables s)) (t, u))), s)
    else (Inl invalid_input, s))"

definition access_decision_count :: "auth_state \<Rightarrow> (auth_state, authorization_error, int) outcome" where
  "access_decision_count = transaction (\<lambda>s. (Inr (int (length (access_decisions (tables s)))), s))"

end
