(* ===== verification/Authorization_Invariant.thy ===== *)
theory Authorization_Invariant
  imports Authorization
begin

text \<open>
  What each operation of the authorization service does to the tables, the well-formedness of the
  tables, which every operation preserves, and the step relation of the service with the contracts
  it fulfils.
\<close>

section \<open>The parts every operation is made of\<close>

named_theorems auth_tables_frame

lemma read_now_tables [auth_tables_frame]:
  "read_now cfg s = (x, t) \<Longrightarrow> tables t = tables s"
  "read_now cfg s = (x, t) \<Longrightarrow> audit_log t = audit_log s"
  "read_now cfg s = (x, t) \<Longrightarrow> repository_closed t = repository_closed s"
  "read_now cfg s = (x, t) \<Longrightarrow> identity_calls t = identity_calls s"
  by (auto simp: read_now_def)

lemma fresh_id_tables [auth_tables_frame]:
  "fresh_id cfg q s = (i, t) \<Longrightarrow> tables t = tables s"
  "fresh_id cfg q s = (i, t) \<Longrightarrow> audit_log t = audit_log s"
  "fresh_id cfg q s = (i, t) \<Longrightarrow> repository_closed t = repository_closed s"
  by (auto simp: fresh_id_def)

lemma ask_identity_tables [auth_tables_frame]:
  "ask_identity f s = (x, t) \<Longrightarrow> tables t = tables s"
  "ask_identity f s = (x, t) \<Longrightarrow> audit_log t = audit_log s"
  by (auto simp: ask_identity_def)

lemma audit_cases:
  assumes "audit cfg p trace pv r s = (x, t)"
  obtains (written) i now where "x = Inr ()" "tables t = tables s"
      "audit_log t = audit_log s @ [new_draft i now p trace pv r]" "audit_ids_ok p trace pv r"
      "repository_closed t = repository_closed s"
  | (failed) e where "x = Inl e" "tables t = tables s" "audit_log t = audit_log s"
      "repository_closed t = repository_closed s"
proof -
  obtain i s1 where i: "fresh_id cfg ''audit'' s = (i, s1)"
    by (metis surj_pair)
  obtain y s2 where y: "read_now cfg s1 = (y, s2)"
    by (metis surj_pair)
  note same = fresh_id_tables [OF i] read_now_tables [OF y]
  show thesis
  proof (cases y)
    case (Inl e)
    then show thesis
      using assms same by (intro failed [of e]) (auto simp: audit_def i y)
  next
    case (Inr now)
    note r = assms [unfolded audit_def Let_def i prod.case y Inr chain_simps]
    show thesis
    proof (cases "audit_ids_ok p trace pv r
        \<and> audit_accepts cfg (audit_log s2) (new_draft i now p trace pv r)")
      case True
      then show thesis
        using r same by (intro written [of i now]) auto
    next
      case False
      then show thesis
        using r same by (cases "audit_ids_ok p trace pv r") (auto intro: failed)
    qed
  qed
qed

lemma audit_tables [auth_tables_frame]: "audit cfg p trace pv r s = (x, t) \<Longrightarrow> tables t = tables s"
  by (erule audit_cases) simp_all

lemma refuse_cases:
  assumes "refuse cfg p trace pv r e s = (x, t)"
  obtains e' where "x = Inl e'" "tables t = tables s" "repository_closed t = repository_closed s"
    "audit_log t = audit_log s \<or> (\<exists>i now. audit_log t = audit_log s @ [new_draft i now p trace pv r] \<and> e' = e)"
  using assms unfolding refuse_def by (auto elim!: chain_cases audit_cases)

lemma refuse_not_Inr [simp]: "refuse cfg p trace pv r e s \<noteq> (Inr v, t)"
  by (auto elim!: refuse_cases)

lemma find_workspace_InrD:
  assumes "find_workspace cfg p w trace pv s = (Inr r, t)"
  shows "t = s" and "lookup_workspace (tables s) (tenant_id p) w = Some r"
    and "safe_id w" and "safe_id (tenant_id p)"
    and "assert_organization_active (tables s) p (Some r) = Inr ()"
  using assms by (auto simp: find_workspace_def attempt_def split: if_splits option.splits sum.splits)

lemma find_workspace_InrE:
  assumes "find_workspace cfg p w trace pv s = (Inr r, t)"
  obtains "t = s" "lookup_workspace (tables s) (tenant_id p) w = Some r" "safe_id w"
    "safe_id (tenant_id p)" "assert_organization_active (tables s) p (Some r) = Inr ()"
  using find_workspace_InrD [OF assms] by blast

lemma transaction_InrE:
  assumes "transaction body s = (Inr v, t)"
  obtains "body s = (Inr v, t)" "\<not> repository_closed s"
  using assms by (auto simp: transaction_def split: if_splits prod.splits sum.splits)

lemma audit_InrE:
  assumes "audit cfg p trace pv r s = (Inr u, t)"
  obtains i now where "tables t = tables s" "audit_log t = audit_log s @ [new_draft i now p trace pv r]"
    "audit_ids_ok p trace pv r" "repository_closed t = repository_closed s"
  using assms by (auto elim: audit_cases)

lemma read_now_InrE:
  assumes "read_now cfg s = (Inr now, t)"
  obtains "t = s\<lparr>clock_reads := Suc (clock_reads s)\<rparr>" "clock cfg (clock_reads s) = Some now"
  using assms by (auto simp: read_now_def split: option.splits)

lemmas success_elims = transaction_InrE chain_InrD find_workspace_InrE audit_InrE read_now_InrE
  attempt_InrD

lemma transaction_cases:
  assumes "transaction body s = (x, t)"
  obtains (raised) e where "x = Inl e" "tables t = tables s"
  | (committed) v where "x = Inr v" "body s = (Inr v, t)" "\<not> repository_closed s"
  using assms by (auto simp: transaction_def split: if_splits prod.splits sum.splits)

lemma transaction_InrD:
  "transaction body s = (Inr v, t) \<Longrightarrow> body s = (Inr v, t)"
  "transaction body s = (Inr v, t) \<Longrightarrow> \<not> repository_closed s"
  by (auto elim: transaction_cases)

lemma transaction_InlD: "transaction body s = (Inl e, t) \<Longrightarrow> tables t = tables s"
  by (auto elim: transaction_cases)

section \<open>What each operation does to the tables\<close>

lemma authorize_action_effect:
  assumes "authorize_action cfg p w a trace pv extra s = (Inr g, t)"
  obtains r where "lookup_workspace (tables s) (tenant_id p) w = Some r"
    "assert_organization_active (tables s) p (Some r) = Inr ()"
    "action_grant cfg (tables s) p r (role_binding_of (tables s) p r) a extra = Some g"
    "tables t = tables s" "safe_id w"
  using assms unfolding authorize_action_def answer_action_def
  by (elim success_elims) (auto elim!: success_elims split: option.splits)

lemma authorize_action_tables:
  "authorize_action cfg p w a trace pv extra s = (x, t) \<Longrightarrow> tables t = tables s"
proof (cases x)
  case (Inl e)
  then show "authorize_action cfg p w a trace pv extra s = (x, t) \<Longrightarrow> tables t = tables s"
    by (auto simp: authorize_action_def dest: transaction_InlD)
next
  case (Inr g)
  then show "authorize_action cfg p w a trace pv extra s = (x, t) \<Longrightarrow> tables t = tables s"
    by (blast elim: authorize_action_effect)
qed

lemma authorize_audit_read_tables:
  assumes "authorize_audit_read cfg p w trace pv s = (x, t)"
  shows "tables t = tables s"
proof (cases w)
  case (Some wid)
  then show ?thesis
    using assms by (auto simp: authorize_audit_read_def elim!: chain_cases dest: authorize_action_tables)
next
  case None
  then show ?thesis
    using assms unfolding authorize_audit_read_def
    by (auto simp: Let_def attempt_def elim!: transaction_cases chain_cases audit_cases
        split: sum.splits if_splits)
qed

lemma organization_admin_workspace_tables:
  assumes "organization_admin_workspace cfg p trace pv s = (x, t)"
  shows "tables t = tables s"
  using assms unfolding organization_admin_workspace_def Let_def
  by (elim transaction_cases) (auto elim!: chain_InrD audit_cases split: if_splits)

definition member_row :: "role \<Rightarrow> int \<Rightarrow> int \<Rightarrow> role_row" where
  "member_row r v now =
    \<lparr>row_role = r, row_state = ''active'', row_version = v, row_updated_at = now\<rparr>"

definition put_membership ::
  "string \<Rightarrow> string \<Rightarrow> string \<Rightarrow> role_row \<Rightarrow> int \<Rightarrow> auth_tables \<Rightarrow> auth_tables" where
  "put_membership t w u row now db =
    touch_acl t w now (db\<lparr>memberships := dict_set (t, w, u) row (memberships db)\<rparr>)"

lemma set_membership_effect:
  assumes "set_membership cfg p w u r expected trace pv s = (Inr v, t)"
  obtains ws now where
    "lookup_workspace (tables s) (tenant_id p) w = Some ws"
    "assert_organization_active (tables s) p (Some ws) = Inr ()"
    "r \<in> WORKSPACE_ROLES" "may_assign (role_binding_of (tables s) p ws) r"
    "role_version (dict_get (memberships (tables s)) (tenant_id p, w, u)) = expected"
    "v = expected + 1" "0 \<le> expected" "safe_id u" "safe_id w"
    "tables t = put_membership (tenant_id p) w u (member_row r v now) now (tables s)"
  using assms unfolding set_membership_def Let_def
  by (auto elim!: success_elims split: if_splits simp: put_membership_def member_row_def)

lemma set_membership_error:
  "set_membership cfg p w u r expected trace pv s = (Inl e, t) \<Longrightarrow> tables t = tables s"
  unfolding set_membership_def
  by (auto elim!: chain_cases transaction_cases split: if_splits simp: auth_tables_frame)

lemma set_tenant_role_effect:
  assumes "set_tenant_role cfg p u r expected trace pv s = (Inr v, t)"
  obtains actor next_role now where
    "active_tenant_role (tables s) p = Some actor" "row_role actor \<in> TENANT_ROLES"
    "role_version (dict_get (tenant_roles (tables s)) (tenant_id p, u)) = expected"
    "tenant_role_of_kinds (tenant_kinds (tables s) (tenant_id p)) \<noteq> None"
    "(case r of
        None \<Rightarrow> map_option row_role (dict_get (tenant_roles (tables s)) (tenant_id p, u)) = Some next_role
      | Some q \<Rightarrow> tenant_role_of_kinds (tenant_kinds (tables s) (tenant_id p)) = Some q \<and> next_role = q)"
    "v = expected + 1" "0 \<le> expected"
    "tables t = (tables s)\<lparr>tenant_roles := dict_set (tenant_id p, u)
       \<lparr>row_role = next_role, row_state = (if r \<noteq> None then ''active'' else ''revoked''),
        row_version = v, row_updated_at = now\<rparr> (tenant_roles (tables s))\<rparr>"
  using assms unfolding set_tenant_role_def Let_def
  by (cases r) (auto elim!: success_elims split: if_splits option.splits)

lemma set_tenant_role_error:
  "set_tenant_role cfg p u r expected trace pv s = (Inl e, t) \<Longrightarrow> tables t = tables s"
  unfolding set_tenant_role_def
  by (auto elim!: chain_cases transaction_cases split: if_splits simp: auth_tables_frame)

definition put_source_access ::
  "string \<Rightarrow> string \<Rightarrow> string \<Rightarrow> string \<Rightarrow> access_row \<Rightarrow> int \<Rightarrow> auth_tables \<Rightarrow> auth_tables" where
  "put_source_access t w u src row now db =
    touch_acl t w now (db\<lparr>source_access := dict_set (t, w, u, src) row (source_access db)\<rparr>)"

lemma set_source_access_effect:
  assumes "set_source_access cfg p w u src ok expected trace pv s = (Inr v, t)"
  obtains ws now where
    "lookup_workspace (tables s) (tenant_id p) w = Some ws"
    "manager_binding (role_binding_of (tables s) p ws)"
    "(case dict_get (source_access (tables s)) (tenant_id p, w, u, src) of None \<Rightarrow> 0
        | Some x \<Rightarrow> access_version x) = expected"
    "v = expected + 1" "0 \<le> expected"
    "tables t = put_source_access (tenant_id p) w u src
       \<lparr>source_allowed = ok, access_version = v, access_updated_at = now\<rparr> now (tables s)"
  using assms unfolding set_source_access_def Let_def
  by (auto elim!: success_elims split: if_splits simp: put_source_access_def)

lemma set_source_access_error:
  "set_source_access cfg p w u src ok expected trace pv s = (Inl e, t) \<Longrightarrow> tables t = tables s"
  unfolding set_source_access_def
  by (auto elim!: chain_cases transaction_cases split: if_splits simp: auth_tables_frame)

lemma policy_guard_InrE:
  assumes "policy_guard cfg p scope w trace pv s = (Inr ws, t)"
  obtains "t = s" "lookup_workspace (tables s) (tenant_id p) w = Some ws"
    "policy_manager scope (role_binding_of (tables s) p ws)"
  using assms unfolding policy_guard_def by (auto elim!: success_elims split: if_splits)

lemma ask_identity_InrE:
  assumes "ask_identity f s = (Inr a, t)"
  obtains "f (identity_calls s) = Inr a" "t = s\<lparr>identity_calls := Suc (identity_calls s)\<rparr>"
  using assms by (auto simp: ask_identity_def split: sum.splits)

lemma change_policy_effect:
  assumes "change_policy cfg p scope w perm x expected target now trace pv s = (Inr v, t)"
  obtains ws where "lookup_workspace (tables s) (tenant_id p) w = Some ws"
    "policy_manager scope (role_binding_of (tables s) p ws)"
    "version_of (policy_header scope (tenant_id p) w (tables s)) = expected" "v = expected + 1"
    "tables t = store_rule scope (tenant_id p) w perm x v now (tables s)"
  using assms unfolding change_policy_def Let_def
  by (auto elim!: success_elims policy_guard_InrE split: if_splits)

lemma set_permission_policy_effect:
  assumes "set_permission_policy cfg tok su scope w perm x expected trace pv s = (Inr v, t)"
  obtains ids p ws target now where "identity cfg = Some ids"
    "validate_access ids (identity_calls s) tok trace pv = Inr p"
    "consume_step_up ids (Suc (identity_calls s)) su tok policy_change_group target pv trace = Inr ()"
    "target = (if scope = ''tenant'' then tenant_id p else w)"
    "scope \<in> {''tenant'', ''workspace''}"
    "lookup_workspace (tables s) (tenant_id p) w = Some ws"
    "policy_manager scope (role_binding_of (tables s) p ws)"
    "version_of (policy_header scope (tenant_id p) w (tables s)) = expected" "1 \<le> expected"
    "v = expected + 1" "tables t = store_rule scope (tenant_id p) w perm x v now (tables s)"
proof -
  from assms obtain ids where ids: "identity cfg = Some ids" and scope: "scope \<in> {''tenant'', ''workspace''}"
    and e: "1 \<le> expected"
    by (auto simp: set_permission_policy_def split: option.splits if_splits)
  show thesis
    using assms ids scope e unfolding set_permission_policy_def
    by (auto elim!: chain_InrD ask_identity_InrE transaction_InrE policy_guard_InrE read_now_InrE
        attempt_InrD change_policy_effect intro!: that [OF ids] simp: checked_id_def split: if_splits)
qed

lemma policy_guard_tables: "policy_guard cfg p scope w trace pv s = (x, t) \<Longrightarrow> tables t = tables s"
  unfolding policy_guard_def find_workspace_def attempt_def
  by (auto elim!: chain_cases refuse_cases split: if_splits option.splits sum.splits)

lemma transaction_guard_tables:
  assumes "transaction body s = (x, t)" and "\<And>u y. body s = (y, u) \<Longrightarrow> tables u = tables s"
  shows "tables t = tables s"
  using assms by (auto elim!: transaction_cases)

lemma guard_transaction_tables:
  "transaction (policy_guard cfg p scope w trace pv) s = (y, t) \<Longrightarrow> tables t = tables s"
  by (rule transaction_guard_tables) (auto dest: policy_guard_tables)

lemma change_policy_error:
  "change_policy cfg p scope w perm x expected target now trace pv s = (Inl e, t) \<Longrightarrow> tables t = tables s"
  unfolding change_policy_def by (rule transaction_InlD)

lemma set_permission_policy_error:
  "set_permission_policy cfg tok su scope w perm x expected trace pv s = (Inl e, t)
    \<Longrightarrow> tables t = tables s"
  unfolding set_permission_policy_def attempt_def
  by (auto elim!: chain_cases dest!: guard_transaction_tables change_policy_error
      simp: auth_tables_frame split: option.splits sum.splits if_splits)

lemma find_descriptor_InrE:
  assumes "find_descriptor cfg p rid trace pv s = (Inr d, t)"
  obtains x where "t = s" "dict_get (historical_results (tables s)) rid = Some x"
    "hist_tenant_id x = tenant_id p"
    "read_descriptor (tables s) (tenant_id p) (hist_workspace_id x) rid = Some d" "safe_id rid"
  using assms unfolding find_descriptor_def
  by (auto elim!: attempt_InrD simp: checked_id_def split: option.splits if_splits)

lemma read_descriptor_fields:
  assumes "read_descriptor db t w rid = Some d"
  shows "result_id d = rid" "res_tenant_id d = t" "res_workspace_id d = w"
    "dependencies d = read_dependencies db rid"
  using assms by (auto simp: read_descriptor_def split: option.splits if_splits)

lemma insert_historical_result_effect:
  assumes "insert_historical_result d now s = (x, t)"
  obtains (same) e where "x = Inl e" "tables t = tables s"
  | (inserted) "x = Inr ()" "insert_descriptor d now (tables s) = Inr (tables t)"
  using assms unfolding insert_historical_result_def
  by (auto elim!: transaction_cases attempt_InrD)

lemma register_historical_result_effect:
  assumes "register_historical_result cfg p d trace pv s = (Inr v, t)"
  obtains now where "insert_descriptor d now (tables s) = Inr (tables t)" "descriptor_valid d"
    "res_tenant_id d = tenant_id p" "dict_get (historical_results (tables s)) (result_id d) = None"
  using assms unfolding register_historical_result_def
  by (auto elim!: attempt_InrD chain_InrD transaction_InrE find_workspace_InrE read_now_InrE audit_InrE
      dest!: authorize_action_tables simp: validate_descriptor_def split: if_splits)

lemma register_historical_result_error:
  assumes "register_historical_result cfg p d trace pv s = (Inl e, t)"
  shows "tables t = tables s"
  using assms unfolding register_historical_result_def attempt_def
  by (auto elim!: chain_cases transaction_cases dest: authorize_action_tables
      split: sum.splits if_splits)

lemma record_decision_InrE:
  assumes "record_decision cfg p d w binding a v trace pv s = (Inr x, t)"
  obtains i now j n where "x = decide_access i now (tables s) p d w binding a v"
    "dict_get (access_decisions (tables s)) i = None"
    "tables t = (tables s)\<lparr>access_decisions := dict_set i x (access_decisions (tables s))\<rparr>"
    "audit_log t = audit_log s @ [new_draft j n p trace pv (decision_audit x)]"
  using assms unfolding record_decision_def Let_def
  by (auto elim!: chain_InrD audit_InrE read_now_InrE simp: fresh_id_def split: if_splits)

lemma evaluate_historical_access_effect:
  assumes "evaluate_historical_access cfg p rid a trace pv s = (Inr x, t)"
  obtains d w i now j n where
    "result_id d = rid" "safe_id rid"
    "read_descriptor (tables s) (tenant_id p) (res_workspace_id d) rid = Some d"
    "lookup_workspace (tables s) (tenant_id p) (res_workspace_id d) = Some w"
    "assert_organization_active (tables s) p (Some w) = Inr ()"
    "x = decide_access i now (tables s) p d w (role_binding_of (tables s) p w) a
       (evidence_view_of (tables s) p d
         (action_grant cfg (tables s) p w (role_binding_of (tables s) p w) (access_actions a) []))"
    "dict_get (access_decisions (tables s)) i = None"
    "tables t = (tables s)\<lparr>access_decisions := dict_set i x (access_decisions (tables s))\<rparr>"
    "audit_log t = audit_log s @ [new_draft j n p trace pv (decision_audit x)]"
proof -
  from assms obtain d w where "find_descriptor cfg p rid trace pv s = (Inr d, s)"
    and w: "find_workspace cfg p (res_workspace_id d) trace pv s = (Inr w, s)"
    and x: "record_decision cfg p d w (role_binding_of (tables s) p w) a
      (evidence_view_of (tables s) p d
        (action_grant cfg (tables s) p w (role_binding_of (tables s) p w) (access_actions a) []))
      trace pv s = (Inr x, t)"
    unfolding evaluate_historical_access_def Let_def
    by (elim transaction_InrE chain_InrD) (metis find_descriptor_InrE find_workspace_InrE)
  then have d: "result_id d = rid" "safe_id rid"
    "read_descriptor (tables s) (tenant_id p) (res_workspace_id d) rid = Some d"
    by (auto elim!: find_descriptor_InrE simp: read_descriptor_fields)
  show thesis
    by (rule record_decision_InrE [OF x], rule that [OF d find_workspace_InrD(2) [OF w]
          find_workspace_InrD(5) [OF w]])
qed

lemma evaluate_historical_access_error:
  "evaluate_historical_access cfg p rid a trace pv s = (Inl e, t) \<Longrightarrow> tables t = tables s"
  unfolding evaluate_historical_access_def by (rule transaction_InlD)

lemma record_rerun_InrE:
  assumes "record_rerun cfg p d x snap trace pv s = (Inr r, t)"
  obtains i now where "r = \<lparr>run_request_id = i, access_decision_id = decision_id x, snapshot = snap\<rparr>"
    "dict_get (rerun_requests (tables s)) i = None"
    "dict_get (access_decisions (tables s)) (decision_id x) \<noteq> None"
    "tables t = (tables s)\<lparr>rerun_requests := dict_set i
       \<lparr>rerun_result_id = result_id d, rerun_decision_id = decision_id x,
        rerun_tenant_id = tenant_id p, rerun_workspace_id = res_workspace_id d,
        rerun_actor_id = user_id p, rerun_snapshot = snap, rerun_created_at = now\<rparr>
       (rerun_requests (tables s))\<rparr>"
  using assms unfolding record_rerun_def Let_def
  by (auto elim!: chain_InrD audit_InrE read_now_InrE simp: fresh_id_def split: if_splits)

lemma case_option_InrD:
  assumes "(case b of None \<Rightarrow> (Inl e, s) | Some x \<Rightarrow> f x) = (Inr v, t)"
  obtains x where "b = Some x" "f x = (Inr v, t)"
  using assms by (cases b) auto

lemma admit_rerun_effect:
  assumes "admit_rerun cfg p rid x trace pv s = (Inr r, t)"
  obtains d w b i now where
    "result_id d = rid" "read_descriptor (tables s) (tenant_id p) (res_workspace_id d) rid = Some d"
    "lookup_workspace (tables s) (tenant_id p) (res_workspace_id d) = Some w"
    "role_binding_of (tables s) p w = Some b"
    "r = \<lparr>run_request_id = i, access_decision_id = decision_id x,
       snapshot = rerun_snapshot_of p d w b x\<rparr>"
    "dict_get (rerun_requests (tables s)) i = None"
    "dict_get (access_decisions (tables s)) (decision_id x) \<noteq> None"
    "tables t = (tables s)\<lparr>rerun_requests := dict_set i
       \<lparr>rerun_result_id = rid, rerun_decision_id = decision_id x,
        rerun_tenant_id = tenant_id p, rerun_workspace_id = res_workspace_id d,
        rerun_actor_id = user_id p, rerun_snapshot = rerun_snapshot_of p d w b x,
        rerun_created_at = now\<rparr> (rerun_requests (tables s))\<rparr>"
proof -
  from assms obtain d w b where "find_descriptor cfg p rid trace pv s = (Inr d, s)"
    and w: "find_workspace cfg p (res_workspace_id d) trace pv s = (Inr w, s)"
    and b: "role_binding_of (tables s) p w = Some b"
    and r: "record_rerun cfg p d x (rerun_snapshot_of p d w b x) trace pv s = (Inr r, t)"
    unfolding admit_rerun_def
    by (elim transaction_InrE chain_InrD case_option_InrD) (metis find_descriptor_InrE find_workspace_InrE)
  then have d: "result_id d = rid"
    "read_descriptor (tables s) (tenant_id p) (res_workspace_id d) rid = Some d"
    by (auto elim!: find_descriptor_InrE simp: read_descriptor_fields)
  show thesis
    by (rule record_rerun_InrE [OF r], rule that [OF d find_workspace_InrD(2) [OF w] b])
      (simp_all add: d)
qed

lemma bootstrap_workspace_effect:
  assumes "bootstrap_workspace tn w owner r kind area cost now s = (x, t)"
  obtains (same) "tables t = tables s"
  | (created) "x = Inr ()" "dict_get (workspaces (tables s)) w = None" "safe_id tn" "safe_id w" "0 \<le> cost"
      "role_of_kind kind = Some r"
      "\<forall>(i, y) \<in> set (workspaces (tables s)). ws_tenant_id y = tn \<longrightarrow> workspace_kind y = kind"
      "\<forall>y. dict_get (tenant_roles (tables s)) (tn, owner) = Some y \<longrightarrow> owner_row_ok r y"
      "bootstrap_tables tn w owner r kind area cost now (tables s) = Inr (tables t)"
proof (cases "tables t = tables s")
  case False
  then show thesis
    using assms created unfolding bootstrap_workspace_def Let_def
    by (auto elim!: transaction_cases attempt_InrD simp: list_ex_iff case_prod_beta
        split: if_splits option.splits)
qed (rule same)

section \<open>Well-formed tables\<close>

lemma lookup_workspace_Some:
  "lookup_workspace db t w = Some r \<longleftrightarrow> dict_get (workspaces db) w = Some r \<and> ws_tenant_id r = t"
  by (auto simp: lookup_workspace_def split: option.splits)

definition with_acl :: "int \<Rightarrow> workspace_row \<Rightarrow> workspace_row" where
  "with_acl now r = r\<lparr>acl_version := acl_version r + 1, ws_updated_at := now\<rparr>"

lemma with_acl_simps [simp]:
  "ws_tenant_id (with_acl now r) = ws_tenant_id r" "workspace_id (with_acl now r) = workspace_id r"
  "workspace_kind (with_acl now r) = workspace_kind r" "data_area (with_acl now r) = data_area r"
  "cost_limit_cents (with_acl now r) = cost_limit_cents r" "acl_version (with_acl now r) = acl_version r + 1"
  by (simp_all add: with_acl_def)

lemma touch_acl_simps [simp]:
  "tenant_roles (touch_acl t w now db) = tenant_roles db"
  "memberships (touch_acl t w now db) = memberships db"
  "tenant_policies (touch_acl t w now db) = tenant_policies db"
  "tenant_rules (touch_acl t w now db) = tenant_rules db"
  "workspace_policies (touch_acl t w now db) = workspace_policies db"
  "workspace_rules (touch_acl t w now db) = workspace_rules db"
  "source_access (touch_acl t w now db) = source_access db"
  "historical_results (touch_acl t w now db) = historical_results db"
  "result_dependencies (touch_acl t w now db) = result_dependencies db"
  "access_decisions (touch_acl t w now db) = access_decisions db"
  "rerun_requests (touch_acl t w now db) = rerun_requests db"
  by (simp_all add: touch_acl_def split: option.split)

lemma touch_acl_workspaces:
  "dict_get (workspaces (touch_acl t w now db)) w' =
    map_option (\<lambda>r. if w' = w \<and> ws_tenant_id r = t then with_acl now r else r) (dict_get (workspaces db) w')"
proof (cases "dict_get (workspaces db) w")
  case None
  then show ?thesis
    by (cases "w' = w") (simp_all add: touch_acl_def lookup_workspace_def option.map_ident)
next
  case (Some r)
  then show ?thesis
    by (cases "w' = w"; cases "ws_tenant_id r = t")
      (simp_all add: touch_acl_def lookup_workspace_def with_acl_def option.map_ident)
qed

lemma touch_acl_get:
  assumes "dict_get (workspaces (touch_acl t w now db)) w' = Some r'"
  obtains r where "dict_get (workspaces db) w' = Some r" "ws_tenant_id r' = ws_tenant_id r"
    "workspace_id r' = workspace_id r" "workspace_kind r' = workspace_kind r" "data_area r' = data_area r"
    "cost_limit_cents r' = cost_limit_cents r" "acl_version r \<le> acl_version r'"
  using assms unfolding touch_acl_workspaces map_option_eq_Some
  by (metis with_acl_simps order_refl zle_add1_eq_le order_less_imp_le)

lemma touch_acl_dict_ok [simp]: "dict_ok (workspaces db) \<Longrightarrow> dict_ok (workspaces (touch_acl t w now db))"
  by (simp add: touch_acl_def split: option.split)

definition workspaces_ok :: "auth_tables \<Rightarrow> bool" where
  "workspaces_ok db \<longleftrightarrow> dict_ok (workspaces db) \<and>
    (\<forall>w r. dict_get (workspaces db) w = Some r \<longrightarrow>
      workspace_id r = w \<and> 1 \<le> acl_version r \<and> 0 \<le> cost_limit_cents r
      \<and> workspace_kind r \<in> {''personal'', ''organization''}
      \<and> dict_get (tenant_policies db) (ws_tenant_id r) \<noteq> None
      \<and> dict_get (workspace_policies db) (ws_tenant_id r, w) \<noteq> None)"

definition one_kind :: "auth_tables \<Rightarrow> bool" where
  "one_kind db \<longleftrightarrow>
    (\<forall>w r w' r'. dict_get (workspaces db) w = Some r \<longrightarrow> dict_get (workspaces db) w' = Some r'
      \<longrightarrow> ws_tenant_id r = ws_tenant_id r' \<longrightarrow> workspace_kind r = workspace_kind r')"

definition has_kind :: "auth_tables \<Rightarrow> string \<Rightarrow> string \<Rightarrow> bool" where
  "has_kind db t k \<longleftrightarrow> (\<exists>w r. dict_get (workspaces db) w = Some r \<and> ws_tenant_id r = t \<and> workspace_kind r = k)"

definition roles_ok :: "auth_tables \<Rightarrow> bool" where
  "roles_ok db \<longleftrightarrow>
    (\<forall>t u x. dict_get (tenant_roles db) (t, u) = Some x \<longrightarrow>
      1 \<le> row_version x \<and> (\<exists>k. kind_of_role (row_role x) = Some k \<and> has_kind db t k))"

definition has_workspace :: "auth_tables \<Rightarrow> string \<Rightarrow> string \<Rightarrow> bool" where
  "has_workspace db t w \<longleftrightarrow> (\<exists>r. dict_get (workspaces db) w = Some r \<and> ws_tenant_id r = t)"

definition members_ok :: "auth_tables \<Rightarrow> bool" where
  "members_ok db \<longleftrightarrow>
    (\<forall>t w u x. dict_get (memberships db) (t, w, u) = Some x \<longrightarrow>
      1 \<le> row_version x \<and> row_role x \<in> WORKSPACE_ROLES \<and> has_workspace db t w)"

definition policies_ok :: "auth_tables \<Rightarrow> bool" where
  "policies_ok db \<longleftrightarrow>
    (\<forall>t perm. dict_get (tenant_rules db) (t, perm) \<noteq> None \<longrightarrow> dict_get (tenant_policies db) t \<noteq> None)
    \<and> (\<forall>t w perm. dict_get (workspace_rules db) (t, w, perm) \<noteq> None
        \<longrightarrow> dict_get (workspace_policies db) (t, w) \<noteq> None)
    \<and> (\<forall>t w. dict_get (workspace_policies db) (t, w) \<noteq> None \<longrightarrow> has_workspace db t w)
    \<and> (\<forall>t x. dict_get (tenant_policies db) t = Some x \<longrightarrow> 1 \<le> pol_version x)
    \<and> (\<forall>k x. dict_get (workspace_policies db) k = Some x \<longrightarrow> 1 \<le> pol_version x)"

definition access_ok :: "auth_tables \<Rightarrow> bool" where
  "access_ok db \<longleftrightarrow>
    (\<forall>t w u src x. dict_get (source_access db) (t, w, u, src) = Some x \<longrightarrow>
      1 \<le> access_version x \<and> has_workspace db t w)"

definition dependency_ok :: "result_row \<Rightarrow> string \<Rightarrow> dependency_row \<Rightarrow> bool" where
  "dependency_ok x ref y \<longleftrightarrow>
    ref \<in> set (hist_evidence_reference_ids x) \<and> dep_source_version_id y \<in> set (hist_source_version_ids x)
    \<and> dep_segment_ids y \<noteq> []"

definition results_ok :: "auth_tables \<Rightarrow> bool" where
  "results_ok db \<longleftrightarrow> dict_ok (result_dependencies db) \<and>
    (\<forall>rid x. dict_get (historical_results db) rid = Some x \<longrightarrow>
      has_workspace db (hist_tenant_id x) (hist_workspace_id x) \<and> 1 \<le> hist_membership_version x)
    \<and> (\<forall>rid ref y. dict_get (result_dependencies db) (rid, ref) = Some y \<longrightarrow>
      (\<exists>x. dict_get (historical_results db) rid = Some x \<and> dependency_ok x ref y))"

definition decisions_ok :: "auth_tables \<Rightarrow> bool" where
  "decisions_ok db \<longleftrightarrow>
    (\<forall>i x. dict_get (access_decisions db) i = Some x \<longrightarrow>
      decision_id x = i
      \<and> (\<exists>y. dict_get (historical_results db) (dec_resource_id x) = Some y
          \<and> hist_tenant_id y = dec_tenant_id x \<and> hist_workspace_id y = dec_workspace_id x))"

text \<open>
  An admitted rerun rests on a stored decision for the same person and result that was not
  blocked, runs within the budget and the data area of the workspace, and reads no source but those
  of the references the decision allowed.
\<close>

definition rerun_fits ::
  "(string \<times> string, dependency_row) dict \<Rightarrow> rerun_row \<Rightarrow> access_decision \<Rightarrow> workspace_row \<Rightarrow> bool" where
  "rerun_fits deps y x w \<longleftrightarrow>
    ws_tenant_id w = rerun_tenant_id y
    \<and> access_state x \<noteq> AccessBlocked \<and> dec_action x = RerunAccess
    \<and> dec_actor_id x = rerun_actor_id y \<and> dec_tenant_id x = rerun_tenant_id y
    \<and> dec_workspace_id x = rerun_workspace_id y \<and> dec_resource_id x = rerun_result_id y
    \<and> snap_cost_limit_cents (rerun_snapshot y) = cost_limit_cents w
    \<and> snap_data_area (rerun_snapshot y) = data_area w
    \<and> (\<forall>src \<in> set (snap_source_version_ids (rerun_snapshot y)).
        \<exists>ref z. dict_get deps (rerun_result_id y, ref) = Some z
          \<and> dep_source_version_id z = src \<and> ref \<in> set (allowed_reference_ids x))"

definition rerun_ok :: "auth_tables \<Rightarrow> rerun_row \<Rightarrow> bool" where
  "rerun_ok db y \<longleftrightarrow>
    (\<exists>x w. dict_get (access_decisions db) (rerun_decision_id y) = Some x
      \<and> dict_get (workspaces db) (rerun_workspace_id y) = Some w
      \<and> rerun_fits (result_dependencies db) y x w)"

definition reruns_ok :: "auth_tables \<Rightarrow> bool" where
  "reruns_ok db \<longleftrightarrow> (\<forall>i y. dict_get (rerun_requests db) i = Some y \<longrightarrow> rerun_ok db y)"

definition tables_ok :: "auth_tables \<Rightarrow> bool" where
  "tables_ok db \<longleftrightarrow> workspaces_ok db \<and> one_kind db \<and> roles_ok db \<and> members_ok db \<and> policies_ok db
    \<and> access_ok db \<and> results_ok db \<and> decisions_ok db \<and> reruns_ok db"

lemmas tables_ok_defs = workspaces_ok_def one_kind_def has_kind_def roles_ok_def has_workspace_def
  members_ok_def policies_ok_def access_ok_def results_ok_def decisions_ok_def rerun_ok_def reruns_ok_def

lemma tables_ok_empty: "tables_ok empty_tables"
  by (simp add: tables_ok_def tables_ok_defs empty_tables_def)

section \<open>Every change of the tables keeps them well-formed\<close>

lemma touch_acl_has_kind [simp]: "has_kind (touch_acl t w now db) = has_kind db"
  unfolding has_kind_def fun_eq_iff touch_acl_workspaces map_option_eq_Some
  by (metis with_acl_simps(1,3))

lemma touch_acl_has_workspace [simp]: "has_workspace (touch_acl t w now db) = has_workspace db"
  unfolding has_workspace_def fun_eq_iff touch_acl_workspaces map_option_eq_Some
  by (metis with_acl_simps(1))

lemma workspaces_ok_touch:
  assumes "workspaces_ok db"
  shows "workspaces_ok (touch_acl t w now db)"
proof -
  have "workspace_id r' = w' \<and> 1 \<le> acl_version r' \<and> 0 \<le> cost_limit_cents r'
      \<and> workspace_kind r' \<in> {''personal'', ''organization''}
      \<and> dict_get (tenant_policies db) (ws_tenant_id r') \<noteq> None
      \<and> dict_get (workspace_policies db) (ws_tenant_id r', w') \<noteq> None"
    if row: "dict_get (workspaces (touch_acl t w now db)) w' = Some r'" for w' r'
  proof -
    obtain r where r: "dict_get (workspaces db) w' = Some r" and same: "ws_tenant_id r' = ws_tenant_id r"
      "workspace_id r' = workspace_id r" "workspace_kind r' = workspace_kind r"
      "cost_limit_cents r' = cost_limit_cents r" "acl_version r \<le> acl_version r'"
      by (rule touch_acl_get [OF row]) blast
    have "workspace_id r = w' \<and> 1 \<le> acl_version r \<and> 0 \<le> cost_limit_cents r
      \<and> workspace_kind r \<in> {''personal'', ''organization''}
      \<and> dict_get (tenant_policies db) (ws_tenant_id r) \<noteq> None
      \<and> dict_get (workspace_policies db) (ws_tenant_id r, w') \<noteq> None"
      using assms r unfolding workspaces_ok_def by blast
    then show ?thesis
      unfolding same(1-4) using same(5) by simp
  qed
  then show ?thesis
    using assms by (simp add: workspaces_ok_def)
qed

lemma one_kind_touch:
  assumes "one_kind db"
  shows "one_kind (touch_acl t w now db)"
  unfolding one_kind_def
proof (intro allI impI)
  fix v r v' r'
  assume r: "dict_get (workspaces (touch_acl t w now db)) v = Some r"
    and r': "dict_get (workspaces (touch_acl t w now db)) v' = Some r'"
    and same: "ws_tenant_id r = ws_tenant_id r'"
  obtain q where q: "dict_get (workspaces db) v = Some q" "ws_tenant_id r = ws_tenant_id q"
    "workspace_kind r = workspace_kind q"
    using r by (rule touch_acl_get) blast
  obtain q' where q': "dict_get (workspaces db) v' = Some q'" "ws_tenant_id r' = ws_tenant_id q'"
    "workspace_kind r' = workspace_kind q'"
    using r' by (rule touch_acl_get) blast
  have "ws_tenant_id q = ws_tenant_id q'"
    using same unfolding q(2) q'(2) .
  then show "workspace_kind r = workspace_kind r'"
    using assms q(1) q'(1) unfolding one_kind_def q(3) q'(3) by blast
qed

lemma rerun_fits_with_acl [simp]: "rerun_fits deps y x (with_acl now w) = rerun_fits deps y x w"
  by (simp add: rerun_fits_def)

lemma rerun_fits_mono:
  assumes "rerun_fits deps y x w"
    and "\<And>k z. dict_get deps k = Some z \<Longrightarrow> dict_get deps' k = Some z"
  shows "rerun_fits deps' y x w"
  using assms unfolding rerun_fits_def by meson

lemma rerun_ok_touch: "rerun_ok db y \<Longrightarrow> rerun_ok (touch_acl t w now db) y"
  unfolding rerun_ok_def touch_acl_workspaces by (elim exE conjE) simp

lemma tables_ok_touch: "tables_ok db \<Longrightarrow> tables_ok (touch_acl t w now db)"
  unfolding tables_ok_def
  by (simp add: workspaces_ok_touch one_kind_touch reruns_ok_def rerun_ok_touch)
    (simp add: roles_ok_def members_ok_def policies_ok_def access_ok_def results_ok_def decisions_ok_def)

lemma rerun_ok_cong:
  assumes "rerun_ok db y" and "workspaces db' = workspaces db"
    and "result_dependencies db' = result_dependencies db"
    and "\<And>i x. dict_get (access_decisions db) i = Some x \<Longrightarrow> dict_get (access_decisions db') i = Some x"
  shows "rerun_ok db' y"
  using assms unfolding rerun_ok_def by fastforce

text \<open>Each predicate reads some of the tables only.\<close>

lemma has_update [simp]:
  "has_kind (db\<lparr>memberships := m\<rparr>) = has_kind db" "has_workspace (db\<lparr>memberships := m\<rparr>) = has_workspace db"
  "has_kind (db\<lparr>tenant_roles := m2\<rparr>) = has_kind db" "has_workspace (db\<lparr>tenant_roles := m2\<rparr>) = has_workspace db"
  "has_kind (db\<lparr>source_access := m3\<rparr>) = has_kind db" "has_workspace (db\<lparr>source_access := m3\<rparr>) = has_workspace db"
  "has_kind (db\<lparr>access_decisions := m4\<rparr>) = has_kind db"
  "has_workspace (db\<lparr>access_decisions := m4\<rparr>) = has_workspace db"
  "has_kind (db\<lparr>rerun_requests := m5\<rparr>) = has_kind db" "has_workspace (db\<lparr>rerun_requests := m5\<rparr>) = has_workspace db"
  by (simp_all add: has_kind_def has_workspace_def fun_eq_iff)

lemma rerun_ok_update [simp]:
  "rerun_ok (db\<lparr>memberships := m\<rparr>) = rerun_ok db" "rerun_ok (db\<lparr>tenant_roles := m2\<rparr>) = rerun_ok db"
  "rerun_ok (db\<lparr>source_access := m3\<rparr>) = rerun_ok db" "rerun_ok (db\<lparr>rerun_requests := m5\<rparr>) = rerun_ok db"
  by (simp_all add: rerun_ok_def fun_eq_iff)

lemma ok_update_memberships [simp]:
  "workspaces_ok (db\<lparr>memberships := m\<rparr>) = workspaces_ok db"
  "one_kind (db\<lparr>memberships := m\<rparr>) = one_kind db"
  "roles_ok (db\<lparr>memberships := m\<rparr>) = roles_ok db"
  "policies_ok (db\<lparr>memberships := m\<rparr>) = policies_ok db"
  "access_ok (db\<lparr>memberships := m\<rparr>) = access_ok db"
  "results_ok (db\<lparr>memberships := m\<rparr>) = results_ok db"
  "decisions_ok (db\<lparr>memberships := m\<rparr>) = decisions_ok db"
  "reruns_ok (db\<lparr>memberships := m\<rparr>) = reruns_ok db"
  by (simp_all add: workspaces_ok_def one_kind_def roles_ok_def policies_ok_def access_ok_def results_ok_def decisions_ok_def reruns_ok_def)

lemma ok_update_tenant_roles [simp]:
  "workspaces_ok (db\<lparr>tenant_roles := m\<rparr>) = workspaces_ok db"
  "one_kind (db\<lparr>tenant_roles := m\<rparr>) = one_kind db"
  "members_ok (db\<lparr>tenant_roles := m\<rparr>) = members_ok db"
  "policies_ok (db\<lparr>tenant_roles := m\<rparr>) = policies_ok db"
  "access_ok (db\<lparr>tenant_roles := m\<rparr>) = access_ok db"
  "results_ok (db\<lparr>tenant_roles := m\<rparr>) = results_ok db"
  "decisions_ok (db\<lparr>tenant_roles := m\<rparr>) = decisions_ok db"
  "reruns_ok (db\<lparr>tenant_roles := m\<rparr>) = reruns_ok db"
  by (simp_all add: workspaces_ok_def one_kind_def members_ok_def policies_ok_def access_ok_def results_ok_def decisions_ok_def reruns_ok_def)

lemma ok_update_source_access [simp]:
  "workspaces_ok (db\<lparr>source_access := m\<rparr>) = workspaces_ok db"
  "one_kind (db\<lparr>source_access := m\<rparr>) = one_kind db"
  "roles_ok (db\<lparr>source_access := m\<rparr>) = roles_ok db"
  "members_ok (db\<lparr>source_access := m\<rparr>) = members_ok db"
  "policies_ok (db\<lparr>source_access := m\<rparr>) = policies_ok db"
  "results_ok (db\<lparr>source_access := m\<rparr>) = results_ok db"
  "decisions_ok (db\<lparr>source_access := m\<rparr>) = decisions_ok db"
  "reruns_ok (db\<lparr>source_access := m\<rparr>) = reruns_ok db"
  by (simp_all add: workspaces_ok_def one_kind_def roles_ok_def members_ok_def policies_ok_def results_ok_def decisions_ok_def reruns_ok_def)

lemma ok_update_access_decisions [simp]:
  "workspaces_ok (db\<lparr>access_decisions := m\<rparr>) = workspaces_ok db"
  "one_kind (db\<lparr>access_decisions := m\<rparr>) = one_kind db"
  "roles_ok (db\<lparr>access_decisions := m\<rparr>) = roles_ok db"
  "members_ok (db\<lparr>access_decisions := m\<rparr>) = members_ok db"
  "policies_ok (db\<lparr>access_decisions := m\<rparr>) = policies_ok db"
  "access_ok (db\<lparr>access_decisions := m\<rparr>) = access_ok db"
  "results_ok (db\<lparr>access_decisions := m\<rparr>) = results_ok db"
  by (simp_all add: workspaces_ok_def one_kind_def roles_ok_def members_ok_def policies_ok_def access_ok_def results_ok_def)

lemma ok_update_rerun_requests [simp]:
  "workspaces_ok (db\<lparr>rerun_requests := m\<rparr>) = workspaces_ok db"
  "one_kind (db\<lparr>rerun_requests := m\<rparr>) = one_kind db"
  "roles_ok (db\<lparr>rerun_requests := m\<rparr>) = roles_ok db"
  "members_ok (db\<lparr>rerun_requests := m\<rparr>) = members_ok db"
  "policies_ok (db\<lparr>rerun_requests := m\<rparr>) = policies_ok db"
  "access_ok (db\<lparr>rerun_requests := m\<rparr>) = access_ok db"
  "results_ok (db\<lparr>rerun_requests := m\<rparr>) = results_ok db"
  "decisions_ok (db\<lparr>rerun_requests := m\<rparr>) = decisions_ok db"
  by (simp_all add: workspaces_ok_def one_kind_def roles_ok_def members_ok_def policies_ok_def access_ok_def results_ok_def decisions_ok_def)

lemma tables_ok_membership:
  assumes "tables_ok db" and "has_workspace db t w" and "1 \<le> row_version row"
    and "row_role row \<in> WORKSPACE_ROLES"
  shows "tables_ok (db\<lparr>memberships := dict_set (t, w, u) row (memberships db)\<rparr>)"
  using assms by (simp add: tables_ok_def) (simp add: members_ok_def)

lemma tables_ok_tenant_role:
  assumes "tables_ok db" and "1 \<le> row_version row"
    and "kind_of_role (row_role row) = Some k" and "has_kind db t k"
  shows "tables_ok (db\<lparr>tenant_roles := dict_set (t, u) row (tenant_roles db)\<rparr>)"
  using assms by (simp add: tables_ok_def) (simp add: roles_ok_def)

lemma tables_ok_source_access:
  assumes "tables_ok db" and "has_workspace db t w" and "1 \<le> access_version row"
  shows "tables_ok (db\<lparr>source_access := dict_set (t, w, u, src) row (source_access db)\<rparr>)"
  using assms by (simp add: tables_ok_def) (simp add: access_ok_def)

lemma tables_ok_decision:
  assumes "tables_ok db" and "dict_get (access_decisions db) (decision_id x) = None"
    and "dict_get (historical_results db) (dec_resource_id x) = Some y"
    and "hist_tenant_id y = dec_tenant_id x" and "hist_workspace_id y = dec_workspace_id x"
  shows "tables_ok (db\<lparr>access_decisions := dict_set (decision_id x) x (access_decisions db)\<rparr>)"
proof -
  have "rerun_ok (db\<lparr>access_decisions := dict_set (decision_id x) x (access_decisions db)\<rparr>) r"
    if "rerun_ok db r" for r
    using assms(2) by (auto intro!: rerun_ok_cong [OF that])
  then show ?thesis
    using assms by (simp add: tables_ok_def) (simp add: decisions_ok_def reruns_ok_def)
qed

lemma tables_ok_rerun:
  assumes "tables_ok db" and "rerun_ok db row"
  shows "tables_ok (db\<lparr>rerun_requests := dict_set i row (rerun_requests db)\<rparr>)"
  using assms by (simp add: tables_ok_def) (simp add: reruns_ok_def)

lemma has_update_policies [simp]:
  "has_kind (db\<lparr>tenant_policies := m1\<rparr>) = has_kind db"
  "has_workspace (db\<lparr>tenant_policies := m1\<rparr>) = has_workspace db"
  "has_kind (db\<lparr>tenant_rules := m2\<rparr>) = has_kind db"
  "has_workspace (db\<lparr>tenant_rules := m2\<rparr>) = has_workspace db"
  "has_kind (db\<lparr>workspace_policies := m3\<rparr>) = has_kind db"
  "has_workspace (db\<lparr>workspace_policies := m3\<rparr>) = has_workspace db"
  "has_kind (db\<lparr>workspace_rules := m4\<rparr>) = has_kind db"
  "has_workspace (db\<lparr>workspace_rules := m4\<rparr>) = has_workspace db"
  "has_kind (db\<lparr>historical_results := m5\<rparr>) = has_kind db"
  "has_workspace (db\<lparr>historical_results := m5\<rparr>) = has_workspace db"
  "has_kind (db\<lparr>result_dependencies := m6\<rparr>) = has_kind db"
  "has_workspace (db\<lparr>result_dependencies := m6\<rparr>) = has_workspace db"
  by (simp_all add: has_kind_def has_workspace_def fun_eq_iff)

lemma rerun_ok_update_policies [simp]:
  "rerun_ok (db\<lparr>tenant_policies := m1\<rparr>) = rerun_ok db"
  "rerun_ok (db\<lparr>tenant_rules := m2\<rparr>) = rerun_ok db"
  "rerun_ok (db\<lparr>workspace_policies := m3\<rparr>) = rerun_ok db"
  "rerun_ok (db\<lparr>workspace_rules := m4\<rparr>) = rerun_ok db"
  "rerun_ok (db\<lparr>historical_results := m5\<rparr>) = rerun_ok db"
  by (simp_all add: rerun_ok_def fun_eq_iff)

lemma ok_update_tenant_policies [simp]:
  "one_kind (db\<lparr>tenant_policies := m\<rparr>) = one_kind db"
  "roles_ok (db\<lparr>tenant_policies := m\<rparr>) = roles_ok db"
  "members_ok (db\<lparr>tenant_policies := m\<rparr>) = members_ok db"
  "access_ok (db\<lparr>tenant_policies := m\<rparr>) = access_ok db"
  "results_ok (db\<lparr>tenant_policies := m\<rparr>) = results_ok db"
  "decisions_ok (db\<lparr>tenant_policies := m\<rparr>) = decisions_ok db"
  "reruns_ok (db\<lparr>tenant_policies := m\<rparr>) = reruns_ok db"
  by (simp_all add: one_kind_def roles_ok_def members_ok_def access_ok_def results_ok_def decisions_ok_def reruns_ok_def)

lemma ok_update_tenant_rules [simp]:
  "workspaces_ok (db\<lparr>tenant_rules := m\<rparr>) = workspaces_ok db"
  "one_kind (db\<lparr>tenant_rules := m\<rparr>) = one_kind db"
  "roles_ok (db\<lparr>tenant_rules := m\<rparr>) = roles_ok db"
  "members_ok (db\<lparr>tenant_rules := m\<rparr>) = members_ok db"
  "access_ok (db\<lparr>tenant_rules := m\<rparr>) = access_ok db"
  "results_ok (db\<lparr>tenant_rules := m\<rparr>) = results_ok db"
  "decisions_ok (db\<lparr>tenant_rules := m\<rparr>) = decisions_ok db"
  "reruns_ok (db\<lparr>tenant_rules := m\<rparr>) = reruns_ok db"
  by (simp_all add: workspaces_ok_def one_kind_def roles_ok_def members_ok_def access_ok_def results_ok_def decisions_ok_def reruns_ok_def)

lemma ok_update_workspace_policies [simp]:
  "one_kind (db\<lparr>workspace_policies := m\<rparr>) = one_kind db"
  "roles_ok (db\<lparr>workspace_policies := m\<rparr>) = roles_ok db"
  "members_ok (db\<lparr>workspace_policies := m\<rparr>) = members_ok db"
  "access_ok (db\<lparr>workspace_policies := m\<rparr>) = access_ok db"
  "results_ok (db\<lparr>workspace_policies := m\<rparr>) = results_ok db"
  "decisions_ok (db\<lparr>workspace_policies := m\<rparr>) = decisions_ok db"
  "reruns_ok (db\<lparr>workspace_policies := m\<rparr>) = reruns_ok db"
  by (simp_all add: one_kind_def roles_ok_def members_ok_def access_ok_def results_ok_def decisions_ok_def reruns_ok_def)

lemma ok_update_workspace_rules [simp]:
  "workspaces_ok (db\<lparr>workspace_rules := m\<rparr>) = workspaces_ok db"
  "one_kind (db\<lparr>workspace_rules := m\<rparr>) = one_kind db"
  "roles_ok (db\<lparr>workspace_rules := m\<rparr>) = roles_ok db"
  "members_ok (db\<lparr>workspace_rules := m\<rparr>) = members_ok db"
  "access_ok (db\<lparr>workspace_rules := m\<rparr>) = access_ok db"
  "results_ok (db\<lparr>workspace_rules := m\<rparr>) = results_ok db"
  "decisions_ok (db\<lparr>workspace_rules := m\<rparr>) = decisions_ok db"
  "reruns_ok (db\<lparr>workspace_rules := m\<rparr>) = reruns_ok db"
  by (simp_all add: workspaces_ok_def one_kind_def roles_ok_def members_ok_def access_ok_def results_ok_def decisions_ok_def reruns_ok_def)

lemma ok_update_historical_results [simp]:
  "workspaces_ok (db\<lparr>historical_results := m\<rparr>) = workspaces_ok db"
  "one_kind (db\<lparr>historical_results := m\<rparr>) = one_kind db"
  "roles_ok (db\<lparr>historical_results := m\<rparr>) = roles_ok db"
  "members_ok (db\<lparr>historical_results := m\<rparr>) = members_ok db"
  "policies_ok (db\<lparr>historical_results := m\<rparr>) = policies_ok db"
  "access_ok (db\<lparr>historical_results := m\<rparr>) = access_ok db"
  "reruns_ok (db\<lparr>historical_results := m\<rparr>) = reruns_ok db"
  by (simp_all add: workspaces_ok_def one_kind_def roles_ok_def members_ok_def policies_ok_def access_ok_def reruns_ok_def)

lemma ok_update_result_dependencies [simp]:
  "workspaces_ok (db\<lparr>result_dependencies := m\<rparr>) = workspaces_ok db"
  "one_kind (db\<lparr>result_dependencies := m\<rparr>) = one_kind db"
  "roles_ok (db\<lparr>result_dependencies := m\<rparr>) = roles_ok db"
  "members_ok (db\<lparr>result_dependencies := m\<rparr>) = members_ok db"
  "policies_ok (db\<lparr>result_dependencies := m\<rparr>) = policies_ok db"
  "access_ok (db\<lparr>result_dependencies := m\<rparr>) = access_ok db"
  "decisions_ok (db\<lparr>result_dependencies := m\<rparr>) = decisions_ok db"
  by (simp_all add: workspaces_ok_def one_kind_def roles_ok_def members_ok_def policies_ok_def access_ok_def decisions_ok_def)

lemma store_tenant_rule:
  "dict_get (tenant_policies db) t \<noteq> None \<Longrightarrow> store_rule ''tenant'' t w perm x v now db =
    db\<lparr>tenant_policies := dict_set t \<lparr>pol_version = v, pol_updated_at = now\<rparr> (tenant_policies db),
       tenant_rules := dict_set (t, perm) x (tenant_rules db)\<rparr>"
  unfolding store_rule_def Let_def by auto

lemma store_workspace_rule:
  "scope \<noteq> ''tenant'' \<Longrightarrow> dict_get (workspace_policies db) (t, w) \<noteq> None
    \<Longrightarrow> store_rule scope t w perm x v now db =
    db\<lparr>workspace_policies := dict_set (t, w) \<lparr>pol_version = v, pol_updated_at = now\<rparr> (workspace_policies db),
       workspace_rules := dict_set (t, w, perm) x (workspace_rules db)\<rparr>"
  unfolding store_rule_def Let_def by auto

lemma tables_ok_tenant_rule:
  assumes ok: "tables_ok db" and v: "1 \<le> v" and header: "dict_get (tenant_policies db) t \<noteq> None"
  shows "tables_ok (store_rule ''tenant'' t w perm x v now db)"
proof -
  have "workspaces_ok db" "policies_ok db"
    using ok by (simp_all add: tables_ok_def)
  then have "workspaces_ok (store_rule ''tenant'' t w perm x v now db)"
    and "policies_ok (store_rule ''tenant'' t w perm x v now db)"
    unfolding store_tenant_rule [OF header] using v header
    by (simp_all add: workspaces_ok_def policies_ok_def, blast?)
  then show ?thesis
    using ok unfolding store_tenant_rule [OF header] tables_ok_def by simp
qed

lemma tables_ok_workspace_rule:
  assumes ok: "tables_ok db" and v: "1 \<le> v" and header: "dict_get (workspace_policies db) (t, w) \<noteq> None"
    and scope: "scope \<noteq> ''tenant''"
  shows "tables_ok (store_rule scope t w perm x v now db)"
proof -
  have "workspaces_ok db" "policies_ok db"
    using ok by (simp_all add: tables_ok_def)
  moreover have "has_workspace db t w"
    using \<open>policies_ok db\<close> header by (simp add: policies_ok_def)
  ultimately have "workspaces_ok (store_rule scope t w perm x v now db)"
    and "policies_ok (store_rule scope t w perm x v now db)"
    unfolding store_workspace_rule [OF scope header] using v header
    by (simp_all add: workspaces_ok_def policies_ok_def, blast?)
  then show ?thesis
    using ok unfolding store_workspace_rule [OF scope header] tables_ok_def by simp
qed

lemma tables_ok_store_rule:
  assumes "tables_ok db" and "1 \<le> v" and "policy_header scope t w db \<noteq> None"
  shows "tables_ok (store_rule scope t w perm x v now db)"
  using assms tables_ok_tenant_rule tables_ok_workspace_rule
  by (cases "scope = ''tenant''") (simp_all add: policy_header_def)

lemma dependencies_validD:
  assumes "dependencies_valid refs srcs ds seen"
  shows "distinct (map reference_id ds)" and "set (map reference_id ds) \<inter> seen = {}"
    and "\<forall>d \<in> set ds. reference_id d \<in> refs \<and> source_version_id d \<in> srcs \<and> segment_ids d \<noteq> []"
proof -
  have "distinct (map reference_id ds) \<and> set (map reference_id ds) \<inter> seen = {}
    \<and> (\<forall>d \<in> set ds. reference_id d \<in> refs \<and> source_version_id d \<in> srcs \<and> segment_ids d \<noteq> [])"
    using assms by (induction ds arbitrary: seen) auto
  then show "distinct (map reference_id ds)" and "set (map reference_id ds) \<inter> seen = {}"
    and "\<forall>d \<in> set ds. reference_id d \<in> refs \<and> source_version_id d \<in> srcs \<and> segment_ids d \<noteq> []"
    by simp_all
qed

text \<open>The loop appends the rows of the dependencies; it fails where one of them is there already.\<close>

lemma insert_dependencies_InrD:
  assumes "insert_dependencies rid ds m = Inr m'"
  shows "m' = m @ map (\<lambda>d. ((rid, reference_id d), dependency_row_of d)) ds"
    and "\<forall>d \<in> set ds. dict_get m (rid, reference_id d) = None"
proof -
  have "m' = m @ map (\<lambda>d. ((rid, reference_id d), dependency_row_of d)) ds
    \<and> (\<forall>d \<in> set ds. dict_get m (rid, reference_id d) = None)"
    using assms
  proof (induction ds arbitrary: m)
    case Nil
    then show ?case by simp
  next
    case (Cons d ds)
    then have new: "dict_get m (rid, reference_id d) = None"
      and rest: "insert_dependencies rid ds (dict_set (rid, reference_id d) (dependency_row_of d) m) = Inr m'"
      by (simp_all split: if_splits)
    have app: "dict_set (rid, reference_id d) (dependency_row_of d) m
        = m @ [((rid, reference_id d), dependency_row_of d)]"
      using new by (intro dict_set_fresh) (simp add: map_of_eq_None_iff)
    have "m' = dict_set (rid, reference_id d) (dependency_row_of d) m
        @ map (\<lambda>d. ((rid, reference_id d), dependency_row_of d)) ds"
      and "\<forall>e \<in> set ds. dict_get (dict_set (rid, reference_id d) (dependency_row_of d) m) (rid, reference_id e) = None"
      using Cons.IH [OF rest] by simp_all
    then show ?case
      using new unfolding app by (auto simp: map_of_append map_add_def split: option.splits)
  qed
  then show "m' = m @ map (\<lambda>d. ((rid, reference_id d), dependency_row_of d)) ds"
    and "\<forall>d \<in> set ds. dict_get m (rid, reference_id d) = None" by simp_all
qed

lemma insert_dependencies_InrE:
  assumes "insert_dependencies rid ds m = Inr m'"
  obtains "m' = m @ map (\<lambda>d. ((rid, reference_id d), dependency_row_of d)) ds"
    "\<forall>d \<in> set ds. dict_get m (rid, reference_id d) = None"
  using insert_dependencies_InrD [OF assms] by blast

lemma insert_descriptor_InrE:
  assumes "insert_descriptor d now db = Inr db'"
  obtains "descriptor_valid d" "dict_get (historical_results db) (result_id d) = None"
    "has_workspace db (res_tenant_id d) (res_workspace_id d)"
    "\<forall>e \<in> set (dependencies d). dict_get (result_dependencies db) (result_id d, reference_id e) = None"
    "db' = db\<lparr>historical_results := dict_set (result_id d) (result_row_of d now) (historical_results db),
       result_dependencies := result_dependencies db
         @ map (\<lambda>e. ((result_id d, reference_id e), dependency_row_of e)) (dependencies d)\<rparr>"
  using assms unfolding insert_descriptor_def validate_descriptor_def
  by (auto simp: has_workspace_def lookup_workspace_Some elim!: insert_dependencies_InrE
      split: if_splits sum.splits)

lemma descriptor_validD:
  assumes "descriptor_valid d"
  shows "distinct (map reference_id (dependencies d))" and "1 \<le> original_membership_version d"
    and "e \<in> set (dependencies d) \<Longrightarrow> dependency_ok (result_row_of d now) (reference_id e) (dependency_row_of e)"
  using assms dependencies_validD [of "set (evidence_reference_ids d)" "set (source_version_ids d)" "dependencies d" "{}"]
  by (auto simp: descriptor_valid_def dependency_ok_def result_row_of_def dependency_row_of_def)

lemma map_of_dependency_rows:
  "distinct (map reference_id ds) \<Longrightarrow>
    map_of (map (\<lambda>e. ((rid, reference_id e), dependency_row_of e)) ds) (rid', ref) = Some y
    \<longleftrightarrow> rid' = rid \<and> (\<exists>e \<in> set ds. reference_id e = ref \<and> y = dependency_row_of e)"
  by (induction ds) (auto split: if_splits simp: image_iff)

lemma tables_ok_insert_descriptor:
  assumes ok: "tables_ok db" and insert: "insert_descriptor d now db = Inr db'"
  shows "tables_ok db'"
proof -
  define new where "new = map (\<lambda>e. ((result_id d, reference_id e), dependency_row_of e)) (dependencies d)"
  obtain valid: "descriptor_valid d" and fresh: "dict_get (historical_results db) (result_id d) = None"
    and w: "has_workspace db (res_tenant_id d) (res_workspace_id d)"
    and deps: "\<forall>e \<in> set (dependencies d). dict_get (result_dependencies db) (result_id d, reference_id e) = None"
    and db': "db' = db\<lparr>historical_results := dict_set (result_id d) (result_row_of d now) (historical_results db),
       result_dependencies := result_dependencies db @ new\<rparr>"
    using insert unfolding new_def by (rule insert_descriptor_InrE)
  note distinct = descriptor_validD(1) [OF valid]
  have res: "results_ok db" and dec: "decisions_ok db" and rer: "reruns_ok db"
    using ok by (simp_all add: tables_ok_def)
  have new: "dict_get new (rid, ref) = Some y \<longleftrightarrow> rid = result_id d
      \<and> (\<exists>e \<in> set (dependencies d). reference_id e = ref \<and> y = dependency_row_of e)" for rid ref y
    unfolding new_def by (rule map_of_dependency_rows [OF distinct])
  have apart: "dict_get (result_dependencies db) k = None" if "dict_get new k = Some z" for k z
    using that deps by (cases k) (auto simp: new)
  have get: "dict_get (result_dependencies db @ new) k = Some y \<longleftrightarrow>
      dict_get (result_dependencies db) k = Some y \<or> dict_get new k = Some y" for k y
    using apart [of k y] by (auto simp: map_of_append map_add_Some_iff)
  then have kept: "\<And>k y. dict_get (result_dependencies db) k = Some y
      \<Longrightarrow> dict_get (result_dependencies db @ new) k = Some y"
    by blast
  have "reruns_ok db'"
    unfolding reruns_ok_def
  proof (intro allI impI)
    fix i y
    assume "dict_get (rerun_requests db') i = Some y"
    then have "rerun_ok db y"
      using rer by (simp add: reruns_ok_def db')
    then show "rerun_ok db' y"
      unfolding rerun_ok_def db' using rerun_fits_mono [OF _ kept]
      by (elim exE conjE) (simp del: map_of_append)
  qed
  moreover have "decisions_ok db'"
    using dec fresh unfolding decisions_ok_def db' by force
  moreover have "results_ok db'"
    unfolding results_ok_def
  proof (intro conjI allI impI)
    have "dict_ok new"
      using distinct by (simp add: new_def comp_def distinct_map inj_on_def)
    moreover have "fst ` set (result_dependencies db) \<inter> fst ` set new = {}"
      using deps unfolding new_def by (force simp: map_of_eq_None_iff)
    ultimately show "dict_ok (result_dependencies db')"
      using res by (simp add: results_ok_def db')
  next
    fix rid x
    assume "dict_get (historical_results db') rid = Some x"
    then have "x = result_row_of d now \<or> dict_get (historical_results db) rid = Some x"
      by (simp add: db' split: if_splits)
    then show "has_workspace db' (hist_tenant_id x) (hist_workspace_id x)" and "1 \<le> hist_membership_version x"
      using res w descriptor_validD(2) [OF valid]
      by (auto simp: results_ok_def db' result_row_of_def)
  next
    fix rid ref y
    assume "dict_get (result_dependencies db') (rid, ref) = Some y"
    then consider "dict_get (result_dependencies db) (rid, ref) = Some y"
      | "rid = result_id d" "\<exists>e \<in> set (dependencies d). reference_id e = ref \<and> y = dependency_row_of e"
      unfolding db' using get [of "(rid, ref)" y] new [of rid ref y] by auto
    then show "\<exists>x. dict_get (historical_results db') rid = Some x \<and> dependency_ok x ref y"
    proof cases
      case 1
      then obtain x where "dict_get (historical_results db) rid = Some x" "dependency_ok x ref y"
        using res unfolding results_ok_def by blast
      then show ?thesis
        using fresh by (auto simp: db')
    next
      case 2
      then show ?thesis
        using descriptor_validD(3) [OF valid] by (auto simp: db')
    qed
  qed
  ultimately show ?thesis
    using ok unfolding tables_ok_def db' by simp
qed

lemma insert_or_ignore_get [simp]:
  "dict_get (insert_or_ignore k v m) k' =
    (if k' = k then Some (case dict_get m k of None \<Rightarrow> v | Some x \<Rightarrow> x) else dict_get m k')"
  by (simp add: insert_or_ignore_def split: option.split)

definition new_workspace :: "string \<Rightarrow> string \<Rightarrow> string \<Rightarrow> string \<Rightarrow> int \<Rightarrow> int \<Rightarrow> workspace_row" where
  "new_workspace t w kind area cost now =
    \<lparr>workspace_id = w, ws_tenant_id = t, workspace_kind = kind, data_area = area,
     cost_limit_cents = cost, acl_version = 1, ws_version = 1, ws_updated_at = now\<rparr>"

lemma bootstrap_tables_InrE:
  assumes "bootstrap_tables t w owner r kind area cost now db = Inr db'"
  obtains "dict_get (workspace_policies db) (t, w) = None"
    "db' = db\<lparr>workspaces := dict_set w (new_workspace t w kind area cost now) (workspaces db),
       tenant_roles := insert_or_ignore (t, owner)
         \<lparr>row_role = r, row_state = ''active'', row_version = 1, row_updated_at = now\<rparr> (tenant_roles db),
       tenant_policies := insert_or_ignore t \<lparr>pol_version = 1, pol_updated_at = now\<rparr> (tenant_policies db),
       workspace_policies := dict_set (t, w) \<lparr>pol_version = 1, pol_updated_at = now\<rparr>
         (workspace_policies db)\<rparr>"
  using assms unfolding bootstrap_tables_def Let_def new_workspace_def
  by (auto split: sum.splits if_splits)

lemma role_of_kind_inverse: "role_of_kind k = Some r \<Longrightarrow> kind_of_role r = Some k"
  by (auto simp: role_of_kind_def kind_of_role_def split: if_splits)

lemma role_of_kind_known: "role_of_kind k = Some r \<Longrightarrow> k \<in> {''personal'', ''organization''}"
  by (auto simp: role_of_kind_def split: if_splits)

lemma tables_ok_bootstrap:
  assumes ok: "tables_ok db" and boot: "bootstrap_tables t w owner r kind area cost now db = Inr db'"
    and fresh: "dict_get (workspaces db) w = None" and cost: "0 \<le> cost"
    and kind: "role_of_kind kind = Some r"
    and same: "\<forall>(i, y) \<in> set (workspaces db). ws_tenant_id y = t \<longrightarrow> workspace_kind y = kind"
  shows "tables_ok db'"
proof -
  let ?row = "new_workspace t w kind area cost now"
  have parts: "workspaces_ok db" "one_kind db" "roles_ok db" "members_ok db" "policies_ok db" "access_ok db"
    "results_ok db" "decisions_ok db" "reruns_ok db"
    using ok by (simp_all add: tables_ok_def)
  obtain no_header: "dict_get (workspace_policies db) (t, w) = None" and db': "db' = db\<lparr>workspaces := dict_set w ?row (workspaces db),
       tenant_roles := insert_or_ignore (t, owner)
         \<lparr>row_role = r, row_state = ''active'', row_version = 1, row_updated_at = now\<rparr> (tenant_roles db),
       tenant_policies := insert_or_ignore t \<lparr>pol_version = 1, pol_updated_at = now\<rparr> (tenant_policies db),
       workspace_policies := dict_set (t, w) \<lparr>pol_version = 1, pol_updated_at = now\<rparr>
         (workspace_policies db)\<rparr>"
    using boot by (rule bootstrap_tables_InrE)
  have row: "workspace_id ?row = w" "ws_tenant_id ?row = t" "workspace_kind ?row = kind" "acl_version ?row = 1"
    "cost_limit_cents ?row = cost"
    by (simp_all add: new_workspace_def)
  have get: "dict_get (workspaces db') v = (if v = w then Some ?row else dict_get (workspaces db) v)" for v
    by (simp add: db')
  have has_workspace: "has_workspace db' t' v \<longleftrightarrow> has_workspace db t' v \<or> t' = t \<and> v = w" for t' v
    using fresh by (auto simp: has_workspace_def get row)
  have has_kind: "has_kind db' t' k \<longleftrightarrow> has_kind db t' k \<or> t' = t \<and> k = kind" for t' k
  proof
    assume "has_kind db' t' k"
    then show "has_kind db t' k \<or> t' = t \<and> k = kind"
      unfolding has_kind_def get by (auto simp: row split: if_splits)
  next
    assume "has_kind db t' k \<or> t' = t \<and> k = kind"
    moreover have "has_kind db' t' k" if "has_kind db t' k"
      using that fresh unfolding has_kind_def get by (metis option.distinct(1))
    moreover have "has_kind db' t kind"
      unfolding has_kind_def get using row by (intro exI [of _ w] exI [of _ ?row]) simp
    ultimately show "has_kind db' t' k" by blast
  qed
  have "workspaces_ok db'"
    using parts(1) role_of_kind_known [OF kind] cost
    unfolding workspaces_ok_def get by (auto simp: db' row split: if_splits)
  moreover have "one_kind db'"
    unfolding one_kind_def
  proof (intro allI impI)
    fix v y v' y'
    assume "dict_get (workspaces db') v = Some y" and "dict_get (workspaces db') v' = Some y'"
      and tenant: "ws_tenant_id y = ws_tenant_id y'"
    then have y: "if v = w then y = ?row else dict_get (workspaces db) v = Some y"
      and y': "if v' = w then y' = ?row else dict_get (workspaces db) v' = Some y'"
      unfolding get by (simp_all split: if_splits)
    have kind: "workspace_kind z = kind" if "dict_get (workspaces db) i = Some z" "ws_tenant_id z = t" for i z
      using same that by (auto dest: map_of_SomeD)
    show "workspace_kind y = workspace_kind y'"
    proof (cases "v = w \<or> v' = w")
      case True
      then have "ws_tenant_id y = t" "ws_tenant_id y' = t"
        using y y' tenant row(2) by auto
      then have "workspace_kind y = kind" "workspace_kind y' = kind"
        using y y' kind row(3) by (auto split: if_splits)
      then show ?thesis by simp
    next
      case False
      then have "dict_get (workspaces db) v = Some y" "dict_get (workspaces db) v' = Some y'"
        using y y' by simp_all
      then show ?thesis
        using tenant parts(2) unfolding one_kind_def by blast
    qed
  qed
  moreover have "roles_ok db'"
    using parts(3) role_of_kind_inverse [OF kind] unfolding roles_ok_def has_kind
    by (auto simp: db' split: if_splits option.splits) blast+
  moreover have "members_ok db'"
    using parts(4) unfolding members_ok_def has_workspace by (auto simp: db')
  moreover have "policies_ok db'"
    using parts(5) unfolding policies_ok_def has_workspace by (auto simp: db' split: if_splits option.splits)
  moreover have "access_ok db'"
    using parts(6) unfolding access_ok_def has_workspace by (auto simp: db')
  moreover have "results_ok db'"
    using parts(7) unfolding results_ok_def has_workspace by (auto simp: db')
  moreover have "decisions_ok db'"
    using parts(8) unfolding decisions_ok_def by (simp add: db')
  moreover have "reruns_ok db'"
  proof -
    have "rerun_ok db' y" if "rerun_ok db y" for y
      using that fresh unfolding rerun_ok_def get by (auto simp: db')
    then show ?thesis
      using parts(9) by (simp add: reruns_ok_def db')
  qed
  ultimately show ?thesis by (simp add: tables_ok_def)
qed

end
