(* ===== verification/Authorization_Steps.thy ===== *)
theory Authorization_Steps
  imports Authorization_Invariant
begin

text \<open>
  The authorization service as a labelled transition system: a step is one call on behalf of a
  tenant, whatever its outcome. The two transactions of a rerun, and the second transaction of a
  policy change, are steps of their own as well, so that a run has every interleaving of them with
  other calls. The states are well-formed, and the service fulfils the contracts of scopes and
  versions: no step of a tenant touches a row of another one, and versions never go back.
\<close>

section \<open>Steps\<close>

text \<open>A decision under which a rerun may be admitted.\<close>

definition rerun_decision :: "auth_tables \<Rightarrow> principal \<Rightarrow> string \<Rightarrow> access_decision \<Rightarrow> bool" where
  "rerun_decision db p rid x \<longleftrightarrow>
    dict_get (access_decisions db) (decision_id x) = Some x \<and> access_state x \<noteq> AccessBlocked
    \<and> dec_action x = RerunAccess \<and> dec_resource_id x = rid
    \<and> dec_actor_id x = user_id p \<and> dec_tenant_id x = tenant_id p"

inductive auth_step :: "auth_service \<Rightarrow> string \<Rightarrow> auth_state \<Rightarrow> auth_state \<Rightarrow> bool" for cfg where
  step_authorize_action:
    "authorize_action cfg p w a trace pv extra s = (x1, t) \<Longrightarrow> auth_step cfg (tenant_id p) s t"
| step_authorize_audit_read:
    "authorize_audit_read cfg p wo trace pv s = (x2, t) \<Longrightarrow> auth_step cfg (tenant_id p) s t"
| step_organization_admin_workspace:
    "organization_admin_workspace cfg p trace pv s = (x3, t) \<Longrightarrow> auth_step cfg (tenant_id p) s t"
| step_evaluate_permission:
    "evaluate_permission p w perm req s = (x4, t) \<Longrightarrow> auth_step cfg (tenant_id p) s t"
| step_set_membership:
    "set_membership cfg p w u r expected trace pv s = (x5, t) \<Longrightarrow> auth_step cfg (tenant_id p) s t"
| step_set_tenant_role:
    "set_tenant_role cfg p u ro expected trace pv s = (x6, t) \<Longrightarrow> auth_step cfg (tenant_id p) s t"
| step_set_source_access:
    "set_source_access cfg p w u src ok expected trace pv s = (x7, t) \<Longrightarrow> auth_step cfg (tenant_id p) s t"
| step_set_permission_policy:
    "set_permission_policy cfg tok su scope w perm rule expected trace pv s = (x8, t)
      \<Longrightarrow> (\<And>ids p. identity cfg = Some ids
            \<Longrightarrow> validate_access ids (identity_calls s) tok trace pv = Inr p \<Longrightarrow> c = tenant_id p)
      \<Longrightarrow> auth_step cfg c s t"
| step_change_policy:
    "change_policy cfg p scope w perm rule expected target now trace pv s = (x8, t)
      \<Longrightarrow> 1 \<le> expected \<Longrightarrow> auth_step cfg (tenant_id p) s t"
| step_register_historical_result:
    "register_historical_result cfg p d trace pv s = (x9, t) \<Longrightarrow> auth_step cfg (tenant_id p) s t"
| step_evaluate_historical_access:
    "evaluate_historical_access cfg p rid act trace pv s = (x10, t) \<Longrightarrow> auth_step cfg (tenant_id p) s t"
| step_require_historical_access:
    "require_historical_access cfg p rid act trace pv s = (x10, t) \<Longrightarrow> auth_step cfg (tenant_id p) s t"
| step_admit_rerun:
    "admit_rerun cfg p rid x trace pv s = (x11, t) \<Longrightarrow> rerun_decision (tables s) p rid x
      \<Longrightarrow> auth_step cfg (tenant_id p) s t"
| step_authorize_rerun:
    "authorize_rerun cfg p rid trace pv s = (x11, t) \<Longrightarrow> auth_step cfg (tenant_id p) s t"
| step_bootstrap_workspace:
    "bootstrap_workspace c w owner r kind area cost now s = (x12, t) \<Longrightarrow> auth_step cfg c s t"
| step_insert_historical_result:
    "insert_historical_result d now s = (x12, t) \<Longrightarrow> auth_step cfg (res_tenant_id d) s t"
| step_close_repository: "auth_step cfg c s (close_repository s)"
| step_organization_workflow:
    "auth_step cfg c s (s\<lparr>tables := (tables s)\<lparr>organization_members := m\<rparr>\<rparr>)"

definition auth_start :: "auth_state \<Rightarrow> bool" where
  "auth_start s \<longleftrightarrow> s = empty_repository"

definition auth_inv :: "auth_state \<Rightarrow> bool" where
  "auth_inv s \<longleftrightarrow> tables_ok (tables s)"

section \<open>Well-formedness is kept\<close>

lemma has_workspace_lookup: "lookup_workspace db t w = Some r \<Longrightarrow> has_workspace db t w"
  by (auto simp: lookup_workspace_Some has_workspace_def)

lemma tables_ok_version:
  assumes "tables_ok db"
  shows "0 \<le> role_version (dict_get (memberships db) k)" and "0 \<le> role_version (dict_get (tenant_roles db) k2)"
proof -
  have "1 \<le> row_version x" if "dict_get (memberships db) k = Some x" for x
    using assms that unfolding tables_ok_def members_ok_def by (cases k) blast
  then show "0 \<le> role_version (dict_get (memberships db) k)"
    unfolding role_version_def by (fastforce split: option.split)
  have "1 \<le> row_version x" if "dict_get (tenant_roles db) k2 = Some x" for x
    using assms that unfolding tables_ok_def roles_ok_def by (cases k2) blast
  then show "0 \<le> role_version (dict_get (tenant_roles db) k2)"
    unfolding role_version_def by (fastforce split: option.split)
qed

lemma set_membership_ok:
  assumes "tables_ok (tables s)" and "set_membership cfg p w u r expected trace pv s = (x, t)"
  shows "tables_ok (tables t)"
proof (cases x)
  case (Inl e)
  then show ?thesis
    using assms set_membership_error [of cfg p w u r expected trace pv s e t] by simp
next
  case (Inr v)
  note call = assms(2) [unfolded Inr]
  show ?thesis
    by (rule set_membership_effect [OF call])
      (simp add: put_membership_def tables_ok_touch tables_ok_membership assms(1) has_workspace_lookup
        member_row_def)
qed

lemma tenant_kinds_has:
  assumes "workspaces_ok db" and "k \<in> tenant_kinds db t"
  shows "has_kind db t k"
  using assms by (auto simp: tenant_kinds_def has_kind_def workspaces_ok_def dict_get_mem)

lemma tenant_role_of_kindsD:
  assumes "tenant_role_of_kinds ks = Some r"
  obtains k where "k \<in> ks" "kind_of_role r = Some k"
  using assms by (auto simp: tenant_role_of_kinds_def kind_of_role_def split: if_splits)

lemma set_tenant_role_ok:
  assumes ok: "tables_ok (tables s)" and "set_tenant_role cfg p u r expected trace pv s = (x, t)"
  shows "tables_ok (tables t)"
proof (cases x)
  case (Inl e)
  then show ?thesis
    using assms set_tenant_role_error [of cfg p u r expected trace pv s e t] by simp
next
  case (Inr v)
  have kind: "\<exists>k. kind_of_role q = Some k \<and> has_kind (tables s) (tenant_id p) k"
    if source: "case r of None \<Rightarrow> map_option row_role (dict_get (tenant_roles (tables s)) (tenant_id p, u)) = Some q
      | Some q' \<Rightarrow> tenant_role_of_kinds (tenant_kinds (tables s) (tenant_id p)) = Some q' \<and> q = q'" for q
  proof (cases r)
    case None
    then obtain y where "dict_get (tenant_roles (tables s)) (tenant_id p, u) = Some y" "row_role y = q"
      using source by auto
    then show ?thesis
      using ok unfolding tables_ok_def roles_ok_def by blast
  next
    case (Some q')
    then have "tenant_role_of_kinds (tenant_kinds (tables s) (tenant_id p)) = Some q"
      using source by simp
    then obtain k where "k \<in> tenant_kinds (tables s) (tenant_id p)" "kind_of_role q = Some k"
      by (rule tenant_role_of_kindsD)
    then show ?thesis
      using ok tenant_kinds_has unfolding tables_ok_def by blast
  qed
  show ?thesis
    using assms(2) unfolding Inr
  proof (rule set_tenant_role_effect)
    fix actor q now
    assume "case r of None \<Rightarrow> map_option row_role (dict_get (tenant_roles (tables s)) (tenant_id p, u)) = Some q
      | Some q' \<Rightarrow> tenant_role_of_kinds (tenant_kinds (tables s) (tenant_id p)) = Some q' \<and> q = q'"
      and v: "v = expected + 1" "0 \<le> expected"
      and t: "tables t = (tables s)\<lparr>tenant_roles := dict_set (tenant_id p, u)
       \<lparr>row_role = q, row_state = (if r \<noteq> None then ''active'' else ''revoked''), row_version = v,
          row_updated_at = now\<rparr> (tenant_roles (tables s))\<rparr>"
    then obtain k where "kind_of_role q = Some k" "has_kind (tables s) (tenant_id p) k"
      using kind by blast
    then show ?thesis
      unfolding t using ok v by (intro tables_ok_tenant_role) auto
  qed
qed

lemma set_source_access_ok:
  assumes ok: "tables_ok (tables s)" and "set_source_access cfg p w u src b expected trace pv s = (x, t)"
  shows "tables_ok (tables t)"
proof (cases x)
  case (Inl e)
  then show ?thesis
    using assms set_source_access_error [of cfg p w u src b expected trace pv s e t] by simp
next
  case (Inr v)
  note call = assms(2) [unfolded Inr]
  show ?thesis
    by (rule set_source_access_effect [OF call])
      (simp add: put_source_access_def tables_ok_touch tables_ok_source_access ok has_workspace_lookup)
qed

lemma version_of_header: "1 \<le> version_of h \<Longrightarrow> h \<noteq> None"
  by (cases h) (auto simp: version_of_def)

lemma change_policy_ok:
  assumes ok: "tables_ok (tables s)" and expected: "1 \<le> expected"
    and "change_policy cfg p scope w perm rule expected target now trace pv s = (x, t)"
  shows "tables_ok (tables t)"
proof (cases x)
  case (Inl e)
  then show ?thesis
    using assms change_policy_error [of cfg p scope w perm rule expected target now trace pv s e t] by simp
next
  case (Inr v)
  note call = assms(3) [unfolded Inr]
  show ?thesis
    by (rule change_policy_effect [OF call])
      (use expected in \<open>simp add: tables_ok_store_rule ok version_of_header\<close>)
qed

lemma set_permission_policy_ok:
  assumes ok: "tables_ok (tables s)"
    and "set_permission_policy cfg tok su scope w perm rule expected trace pv s = (x, t)"
  shows "tables_ok (tables t)"
proof (cases x)
  case (Inl e)
  then show ?thesis
    using assms set_permission_policy_error [of cfg tok su scope w perm rule expected trace pv s e t] by simp
next
  case (Inr v)
  note call = assms(2) [unfolded Inr]
  show ?thesis
    by (rule set_permission_policy_effect [OF call]) (simp add: tables_ok_store_rule ok version_of_header)
qed

lemma register_historical_result_ok:
  assumes ok: "tables_ok (tables s)" and "register_historical_result cfg p d trace pv s = (x, t)"
  shows "tables_ok (tables t)"
proof (cases x)
  case (Inl e)
  then show ?thesis
    using assms register_historical_result_error [of cfg p d trace pv s e t] by simp
next
  case (Inr v)
  note call = assms(2) [unfolded Inr]
  show ?thesis
    by (rule register_historical_result_effect [OF call]) (rule tables_ok_insert_descriptor [OF ok])
qed

lemma insert_historical_result_ok:
  assumes ok: "tables_ok (tables s)" and call: "insert_historical_result d now s = (x, t)"
  shows "tables_ok (tables t)"
  using call
proof (cases rule: insert_historical_result_effect)
  case (same e)
  then show ?thesis using ok by simp
next
  case inserted
  then show ?thesis by (rule_tac tables_ok_insert_descriptor [OF ok])
qed

lemma bootstrap_workspace_ok:
  assumes ok: "tables_ok (tables s)" and call: "bootstrap_workspace c w owner r kind area cost now s = (x, t)"
  shows "tables_ok (tables t)"
  using call
proof (cases rule: bootstrap_workspace_effect)
  case same
  then show ?thesis using ok by simp
next
  case created
  then show ?thesis by (auto intro: tables_ok_bootstrap [OF ok])
qed

lemma read_descriptor_row:
  assumes "read_descriptor db t w rid = Some d"
  obtains x where "dict_get (historical_results db) rid = Some x" "hist_tenant_id x = t" "hist_workspace_id x = w"
  using assms by (auto simp: read_descriptor_def split: option.splits if_splits)

lemma decide_access_simps [simp]:
  "decision_id (decide_access i now db p d w b a v) = i"
  "dec_actor_id (decide_access i now db p d w b a v) = user_id p"
  "dec_action (decide_access i now db p d w b a v) = a"
  "dec_resource_id (decide_access i now db p d w b a v) = result_id d"
  "dec_tenant_id (decide_access i now db p d w b a v) = tenant_id p"
  "dec_workspace_id (decide_access i now db p d w b a v) = res_workspace_id d"
  "access_state (decide_access i now db p d w b a v) = view_state v"
  "allowed_reference_ids (decide_access i now db p d w b a v) = sort (allowed_references v)"
  "masked_reference_ids (decide_access i now db p d w b a v) = sort (masked_references v)"
  by (simp_all add: decide_access_def)

lemma evaluate_historical_access_ok:
  assumes ok: "tables_ok (tables s)" and "evaluate_historical_access cfg p rid a trace pv s = (x, t)"
  shows "tables_ok (tables t)"
proof (cases x)
  case (Inl e)
  then show ?thesis
    using assms evaluate_historical_access_error [of cfg p rid a trace pv s e t] by simp
next
  case (Inr y)
  show ?thesis
    using assms(2) unfolding Inr
  proof (rule evaluate_historical_access_effect)
    fix d w i now j n
    assume d: "result_id d = rid" "read_descriptor (tables s) (tenant_id p) (res_workspace_id d) rid = Some d"
      and y: "y = decide_access i now (tables s) p d w (role_binding_of (tables s) p w) a
       (evidence_view_of (tables s) p d
         (action_grant cfg (tables s) p w (role_binding_of (tables s) p w) (access_actions a) []))"
      and i: "dict_get (access_decisions (tables s)) i = None"
      and t: "tables t = (tables s)\<lparr>access_decisions := dict_set i y (access_decisions (tables s))\<rparr>"
    obtain z where "dict_get (historical_results (tables s)) rid = Some z" "hist_tenant_id z = tenant_id p"
      "hist_workspace_id z = res_workspace_id d"
      using d(2) by (rule read_descriptor_row)
    then show ?thesis
      using tables_ok_decision [OF ok, of y z] i d(1) by (simp add: t y)
  qed
qed

lemma require_historical_access_tables:
  assumes "require_historical_access cfg p rid a trace pv s = (x, t)"
  obtains e where "x = Inl e" "evaluate_historical_access cfg p rid a trace pv s = (Inl e, t)"
  | y where "evaluate_historical_access cfg p rid a trace pv s = (Inr y, t)"
      "x = (if access_state y = AccessBlocked
        then Inl (AuthorizationError ''CURRENT_ACCESS_DENIED'' 403 (Some y)) else Inr y)"
  using assms unfolding require_historical_access_def by (auto elim!: chain_cases split: if_splits)

lemma require_historical_access_ok:
  assumes ok: "tables_ok (tables s)" and "require_historical_access cfg p rid a trace pv s = (x, t)"
  shows "tables_ok (tables t)"
  using assms(2) by (rule require_historical_access_tables) (auto intro: evaluate_historical_access_ok [OF ok])

lemma read_dependencies_get:
  assumes "dict_ok (result_dependencies db)" and "d \<in> set (read_dependencies db rid)"
  obtains z where "dict_get (result_dependencies db) (rid, reference_id d) = Some z"
    "dep_source_version_id z = source_version_id d" "d = \<lparr>reference_id = reference_id d,
       source_version_id = dep_source_version_id z, segment_ids = dep_segment_ids z,
       decisive = dep_decisive z, safe_separation = dep_safe_separation z\<rparr>"
  using assms by (auto simp: read_dependencies_def dict_get_mem)

lemma rerun_sources_from_allowed:
  assumes "dict_ok (result_dependencies db)" and "dependencies d = read_dependencies db rid"
    and "src \<in> set (rerun_sources x d)"
  shows "\<exists>ref z. dict_get (result_dependencies db) (rid, ref) = Some z
    \<and> dep_source_version_id z = src \<and> ref \<in> set (allowed_reference_ids x)"
proof -
  obtain y where y: "y \<in> set (read_dependencies db rid)" "source_version_id y = src"
    "reference_id y \<in> set (allowed_reference_ids x)"
    using assms(2,3) by (auto simp: rerun_sources_def)
  show ?thesis
    by (rule read_dependencies_get [OF assms(1) y(1)]) (use y in blast)
qed

lemma admit_rerun_ok:
  assumes ok: "tables_ok (tables s)" and under: "rerun_decision (tables s) p rid x"
    and "admit_rerun cfg p rid x trace pv s = (r, t)"
  shows "tables_ok (tables t)"
proof (cases r)
  case (Inl e)
  then show ?thesis
    using assms unfolding admit_rerun_def by (auto dest: transaction_InlD)
next
  case (Inr y)
  show ?thesis
    using assms(3) unfolding Inr
  proof (rule admit_rerun_effect)
    fix d w b i now
    assume d: "result_id d = rid" "read_descriptor (tables s) (tenant_id p) (res_workspace_id d) rid = Some d"
      and w: "lookup_workspace (tables s) (tenant_id p) (res_workspace_id d) = Some w"
      and t: "tables t = (tables s)\<lparr>rerun_requests := dict_set i
       \<lparr>rerun_result_id = rid, rerun_decision_id = decision_id x,
        rerun_tenant_id = tenant_id p, rerun_workspace_id = res_workspace_id d,
        rerun_actor_id = user_id p, rerun_snapshot = rerun_snapshot_of p d w b x,
        rerun_created_at = now\<rparr> (rerun_requests (tables s))\<rparr>"
    obtain z where z: "dict_get (historical_results (tables s)) rid = Some z"
      "hist_workspace_id z = res_workspace_id d"
      using d(2) by (rule read_descriptor_row)
    have x: "dict_get (access_decisions (tables s)) (decision_id x) = Some x" "dec_resource_id x = rid"
      using under by (simp_all add: rerun_decision_def)
    have "decisions_ok (tables s)" and deps: "dict_ok (result_dependencies (tables s))"
      using ok by (simp_all add: tables_ok_def results_ok_def)
    then have "hist_workspace_id z = dec_workspace_id x"
      using x z unfolding decisions_ok_def by fastforce
    then have "rerun_fits (result_dependencies (tables s))
        \<lparr>rerun_result_id = rid, rerun_decision_id = decision_id x, rerun_tenant_id = tenant_id p,
         rerun_workspace_id = res_workspace_id d, rerun_actor_id = user_id p,
         rerun_snapshot = rerun_snapshot_of p d w b x, rerun_created_at = now\<rparr> x w"
      using under w z rerun_sources_from_allowed [OF deps read_descriptor_fields(4) [OF d(2)]]
      unfolding rerun_fits_def
      by (simp add: rerun_snapshot_of_def rerun_decision_def lookup_workspace_Some)
    then show ?thesis
      unfolding t using x w by (intro tables_ok_rerun [OF ok])
        (auto simp: rerun_ok_def lookup_workspace_Some)
  qed
qed

lemma authorize_rerun_cases:
  assumes "authorize_rerun cfg p rid trace pv s = (x, t)"
  obtains (refused) e where "x = Inl e"
      "require_historical_access cfg p rid RerunAccess trace pv s = (Inl e, t)"
  | (decided) y u where "require_historical_access cfg p rid RerunAccess trace pv s = (Inr y, u)"
      "admit_rerun cfg p rid y trace pv u = (x, t)" "rerun_decision (tables u) p rid y"
  using assms unfolding authorize_rerun_def
proof (rule chain_cases)
  fix e
  assume "require_historical_access cfg p rid RerunAccess trace pv s = (Inl e, t)" "x = Inl e"
  then show thesis by (intro refused)
next
  fix y u
  assume first: "require_historical_access cfg p rid RerunAccess trace pv s = (Inr y, u)"
    and second: "admit_rerun cfg p rid y trace pv u = (x, t)"
  have evaluated: "evaluate_historical_access cfg p rid RerunAccess trace pv s = (Inr y, u)"
    and "access_state y \<noteq> AccessBlocked"
    using first by (auto elim!: require_historical_access_tables split: if_splits)
  then have "rerun_decision (tables u) p rid y"
    by (auto elim!: evaluate_historical_access_effect simp: rerun_decision_def)
  with first second show thesis by (rule decided)
qed

lemma authorize_rerun_ok:
  assumes ok: "tables_ok (tables s)" and call: "authorize_rerun cfg p rid trace pv s = (x, t)"
  shows "tables_ok (tables t)"
  using call
proof (cases rule: authorize_rerun_cases)
  case (refused e)
  then show ?thesis by (auto intro: require_historical_access_ok [OF ok])
next
  case (decided y u)
  then have "tables_ok (tables u)"
    by (intro require_historical_access_ok [OF ok])
  with decided show ?thesis by (auto intro: admit_rerun_ok)
qed

lemma evaluate_permission_tables:
  "evaluate_permission p w perm req s = (x, t) \<Longrightarrow> tables t = tables s"
  unfolding evaluate_permission_def attempt_def
  by (auto elim!: transaction_cases split: sum.splits option.splits)

lemma tables_ok_organization: "tables_ok (db\<lparr>organization_members := m\<rparr>) = tables_ok db"
  by (simp add: tables_ok_def tables_ok_defs)

lemma quiet_ok:
  "tables_ok (tables s) \<Longrightarrow> authorize_action cfg p w a trace pv extra s = (x1, t) \<Longrightarrow> tables_ok (tables t)"
  "tables_ok (tables s) \<Longrightarrow> authorize_audit_read cfg p wo trace pv s = (x2, t) \<Longrightarrow> tables_ok (tables t)"
  "tables_ok (tables s) \<Longrightarrow> organization_admin_workspace cfg p trace pv s = (x3, t) \<Longrightarrow> tables_ok (tables t)"
  "tables_ok (tables s) \<Longrightarrow> evaluate_permission p w perm req s = (x4, t) \<Longrightarrow> tables_ok (tables t)"
  using authorize_action_tables [of cfg p w a trace pv extra s x1 t]
    authorize_audit_read_tables [of cfg p wo trace pv s x2 t]
    organization_admin_workspace_tables [of cfg p trace pv s x3 t]
    evaluate_permission_tables [of p w perm req s x4 t]
  by simp_all

lemma auth_inv_step:
  assumes "auth_inv s" and "auth_step cfg c s t"
  shows "auth_inv t"
proof -
  have ok: "tables_ok (tables s)"
    using assms(1) by (simp add: auth_inv_def)
  have "tables_ok (tables t)"
    using assms(2)
  proof cases
    case step_close_repository
    then show ?thesis using ok by (simp add: close_repository_def)
  next
    case (step_organization_workflow m)
    then show ?thesis using ok by (simp add: tables_ok_organization)
  qed (elim quiet_ok [OF ok] set_membership_ok [OF ok] set_tenant_role_ok [OF ok]
      set_source_access_ok [OF ok] set_permission_policy_ok [OF ok] change_policy_ok [OF ok, rotated]
      register_historical_result_ok [OF ok] evaluate_historical_access_ok [OF ok]
      require_historical_access_ok [OF ok] admit_rerun_ok [OF ok, rotated] authorize_rerun_ok [OF ok]
      bootstrap_workspace_ok [OF ok] insert_historical_result_ok [OF ok]; assumption)+
  then show ?thesis by (simp add: auth_inv_def)
qed

lemma auth_inv_start: "auth_start s \<Longrightarrow> auth_inv s"
  by (simp add: auth_start_def auth_inv_def empty_repository_def tables_ok_empty)

section \<open>Rows, their tenants and versions\<close>

datatype row_key =
    WorkspaceKey string | TenantRoleKey string string | MembershipKey string string string
  | TenantPolicyKey string | TenantRuleKey string permission | WorkspacePolicyKey string string
  | WorkspaceRuleKey string string permission | AccessKey string string string string
  | ResultKey string | DependencyKey string string | DecisionKey string | RerunKey string

datatype auth_row =
    WorkspaceRow workspace_row | RoleRow role_row | PolicyRow policy_row | RuleRow rule_row
  | AccessRow access_row | ResultRow result_row | DependencyRow dependency_row
  | DecisionRow access_decision | RerunRow rerun_row

text \<open>The row of a key with the tenant it belongs to.\<close>

fun row_at :: "auth_tables \<Rightarrow> row_key \<Rightarrow> (string \<times> auth_row) option" where
  "row_at db (WorkspaceKey w) = map_option (\<lambda>r. (ws_tenant_id r, WorkspaceRow r)) (dict_get (workspaces db) w)"
| "row_at db (TenantRoleKey t u) = map_option (\<lambda>x. (t, RoleRow x)) (dict_get (tenant_roles db) (t, u))"
| "row_at db (MembershipKey t w u) = map_option (\<lambda>x. (t, RoleRow x)) (dict_get (memberships db) (t, w, u))"
| "row_at db (TenantPolicyKey t) = map_option (\<lambda>x. (t, PolicyRow x)) (dict_get (tenant_policies db) t)"
| "row_at db (TenantRuleKey t q) = map_option (\<lambda>x. (t, RuleRow x)) (dict_get (tenant_rules db) (t, q))"
| "row_at db (WorkspacePolicyKey t w) =
    map_option (\<lambda>x. (t, PolicyRow x)) (dict_get (workspace_policies db) (t, w))"
| "row_at db (WorkspaceRuleKey t w q) =
    map_option (\<lambda>x. (t, RuleRow x)) (dict_get (workspace_rules db) (t, w, q))"
| "row_at db (AccessKey t w u src) =
    map_option (\<lambda>x. (t, AccessRow x)) (dict_get (source_access db) (t, w, u, src))"
| "row_at db (ResultKey i) =
    map_option (\<lambda>x. (hist_tenant_id x, ResultRow x)) (dict_get (historical_results db) i)"
| "row_at db (DependencyKey i ref) =
    (case (dict_get (historical_results db) i, dict_get (result_dependencies db) (i, ref)) of
       (Some x, Some y) \<Rightarrow> Some (hist_tenant_id x, DependencyRow y) | _ \<Rightarrow> None)"
| "row_at db (DecisionKey i) =
    map_option (\<lambda>x. (dec_tenant_id x, DecisionRow x)) (dict_get (access_decisions db) i)"
| "row_at db (RerunKey i) =
    map_option (\<lambda>x. (rerun_tenant_id x, RerunRow x)) (dict_get (rerun_requests db) i)"

fun row_version_of :: "auth_row \<Rightarrow> int" where
  "row_version_of (WorkspaceRow r) = acl_version r"
| "row_version_of (RoleRow x) = row_version x"
| "row_version_of (PolicyRow x) = pol_version x"
| "row_version_of (AccessRow x) = access_version x"
| "row_version_of _ = 0"

text \<open>The records of what was decided are written once.\<close>

fun recorded :: "row_key \<Rightarrow> bool" where
  "recorded (ResultKey i) = True"
| "recorded (DependencyKey i ref) = True"
| "recorded (DecisionKey i) = True"
| "recorded (RerunKey i) = True"
| "recorded _ = False"

definition touches :: "string \<Rightarrow> auth_tables \<Rightarrow> auth_tables \<Rightarrow> bool" where
  "touches c db db' \<longleftrightarrow>
    (\<forall>k t x. row_at db k = Some (t, x) \<longrightarrow>
      (\<exists>y. row_at db' k = Some (t, y) \<and> row_version_of x \<le> row_version_of y
        \<and> (t \<noteq> c \<or> recorded k \<longrightarrow> y = x)))"

lemma touches_refl [simp]: "touches c db db"
  by (simp add: touches_def)

lemma rows_touched_same: "db' = db \<Longrightarrow> touches c db db'"
  by simp

lemma touches_trans:
  assumes "touches c db db1" and "touches c db1 db2"
  shows "touches c db db2"
  unfolding touches_def
proof (intro allI impI)
  fix k t x
  assume "row_at db k = Some (t, x)"
  then obtain y where y: "row_at db1 k = Some (t, y)" "row_version_of x \<le> row_version_of y"
    "t \<noteq> c \<or> recorded k \<longrightarrow> y = x"
    using assms(1) unfolding touches_def by blast
  then obtain z where "row_at db2 k = Some (t, z)" "row_version_of y \<le> row_version_of z"
    "t \<noteq> c \<or> recorded k \<longrightarrow> z = y"
    using assms(2) unfolding touches_def by blast
  with y show "\<exists>z. row_at db2 k = Some (t, z) \<and> row_version_of x \<le> row_version_of z
      \<and> (t \<noteq> c \<or> recorded k \<longrightarrow> z = x)"
    by (intro exI [of _ z]) auto
qed

text \<open>One row is written, or rows are added only.\<close>

lemma touches_upd:
  assumes "row_at db' = (row_at db)(k0 \<mapsto> (c, y))"
    and "\<And>t x. row_at db k0 = Some (t, x) \<Longrightarrow> t = c \<and> row_version_of x \<le> row_version_of y \<and> \<not> recorded k0"
  shows "touches c db db'"
  using assms unfolding touches_def by simp

lemma touches_extend:
  assumes "\<And>k v. row_at db k = Some v \<Longrightarrow> row_at db' k = Some v"
  shows "touches c db db'"
  using assms unfolding touches_def by blast

lemma row_at_workspace:
  "row_at (db\<lparr>workspaces := dict_set w r (workspaces db)\<rparr>) =
    (row_at db)(WorkspaceKey w \<mapsto> (ws_tenant_id r, WorkspaceRow r))"
proof
  fix k
  show "row_at (db\<lparr>workspaces := dict_set w r (workspaces db)\<rparr>) k =
    ((row_at db)(WorkspaceKey w \<mapsto> (ws_tenant_id r, WorkspaceRow r))) k"
    by (cases k) (auto split: option.split)
qed

lemma touches_acl: "touches c db (touch_acl c w now db)"
proof (cases "lookup_workspace db c w")
  case None
  then show ?thesis by (simp add: touch_acl_def)
next
  case (Some r)
  then have r: "dict_get (workspaces db) w = Some r" "ws_tenant_id r = c"
    by (simp_all add: lookup_workspace_Some)
  have "touch_acl c w now db = db\<lparr>workspaces := dict_set w (with_acl now r) (workspaces db)\<rparr>"
    by (simp add: touch_acl_def with_acl_def Some)
  then have "row_at (touch_acl c w now db)
      = (row_at db)(WorkspaceKey w \<mapsto> (c, WorkspaceRow (with_acl now r)))"
    by (simp add: row_at_workspace r)
  then show ?thesis
    by (rule touches_upd) (use r in auto)
qed

lemma row_at_membership:
  "row_at (db\<lparr>memberships := dict_set (c, w, u) row (memberships db)\<rparr>) =
    (row_at db)(MembershipKey c w u \<mapsto> (c, RoleRow row))"
proof
  fix k
  show "row_at (db\<lparr>memberships := dict_set (c, w, u) row (memberships db)\<rparr>) k =
    ((row_at db)(MembershipKey c w u \<mapsto> (c, RoleRow row))) k"
    by (cases k) (auto split: option.split)
qed

lemma row_at_tenant_role:
  "row_at (db\<lparr>tenant_roles := dict_set (c, u) row (tenant_roles db)\<rparr>) =
    (row_at db)(TenantRoleKey c u \<mapsto> (c, RoleRow row))"
proof
  fix k
  show "row_at (db\<lparr>tenant_roles := dict_set (c, u) row (tenant_roles db)\<rparr>) k =
    ((row_at db)(TenantRoleKey c u \<mapsto> (c, RoleRow row))) k"
    by (cases k) (auto split: option.split)
qed

lemma row_at_source_access:
  "row_at (db\<lparr>source_access := dict_set (c, w, u, src) row (source_access db)\<rparr>) =
    (row_at db)(AccessKey c w u src \<mapsto> (c, AccessRow row))"
proof
  fix k
  show "row_at (db\<lparr>source_access := dict_set (c, w, u, src) row (source_access db)\<rparr>) k =
    ((row_at db)(AccessKey c w u src \<mapsto> (c, AccessRow row))) k"
    by (cases k) (auto split: option.split)
qed

lemma row_at_decision:
  "row_at (db\<lparr>access_decisions := dict_set i x (access_decisions db)\<rparr>) =
    (row_at db)(DecisionKey i \<mapsto> (dec_tenant_id x, DecisionRow x))"
proof
  fix k
  show "row_at (db\<lparr>access_decisions := dict_set i x (access_decisions db)\<rparr>) k =
    ((row_at db)(DecisionKey i \<mapsto> (dec_tenant_id x, DecisionRow x))) k"
    by (cases k) (auto split: option.split)
qed

lemma row_at_rerun:
  "row_at (db\<lparr>rerun_requests := dict_set i x (rerun_requests db)\<rparr>) =
    (row_at db)(RerunKey i \<mapsto> (rerun_tenant_id x, RerunRow x))"
proof
  fix k
  show "row_at (db\<lparr>rerun_requests := dict_set i x (rerun_requests db)\<rparr>) k =
    ((row_at db)(RerunKey i \<mapsto> (rerun_tenant_id x, RerunRow x))) k"
    by (cases k) (auto split: option.split)
qed

lemma touches_membership:
  assumes "role_version (dict_get (memberships db) (c, w, u)) \<le> row_version row"
  shows "touches c db (db\<lparr>memberships := dict_set (c, w, u) row (memberships db)\<rparr>)"
  by (rule touches_upd [OF row_at_membership]) (use assms in \<open>auto simp: role_version_def\<close>)

lemma touches_tenant_role:
  assumes "role_version (dict_get (tenant_roles db) (c, u)) \<le> row_version row"
  shows "touches c db (db\<lparr>tenant_roles := dict_set (c, u) row (tenant_roles db)\<rparr>)"
  by (rule touches_upd [OF row_at_tenant_role]) (use assms in \<open>auto simp: role_version_def\<close>)

lemma touches_source_access:
  assumes "(case dict_get (source_access db) (c, w, u, src) of None \<Rightarrow> 0 | Some x \<Rightarrow> access_version x)
    \<le> access_version row"
  shows "touches c db (db\<lparr>source_access := dict_set (c, w, u, src) row (source_access db)\<rparr>)"
  by (rule touches_upd [OF row_at_source_access]) (use assms in auto)

lemma touches_decision:
  "dict_get (access_decisions db) i = None
    \<Longrightarrow> touches (dec_tenant_id x) db (db\<lparr>access_decisions := dict_set i x (access_decisions db)\<rparr>)"
  by (rule touches_upd [OF row_at_decision]) simp

lemma touches_rerun:
  "dict_get (rerun_requests db) i = None
    \<Longrightarrow> touches (rerun_tenant_id x) db (db\<lparr>rerun_requests := dict_set i x (rerun_requests db)\<rparr>)"
  by (rule touches_upd [OF row_at_rerun]) simp

lemma row_at_tenant_rule:
  "row_at (db\<lparr>tenant_policies := dict_set c h (tenant_policies db),
      tenant_rules := dict_set (c, q) x (tenant_rules db)\<rparr>) =
    (row_at db)(TenantPolicyKey c \<mapsto> (c, PolicyRow h), TenantRuleKey c q \<mapsto> (c, RuleRow x))"
proof
  fix k
  show "row_at (db\<lparr>tenant_policies := dict_set c h (tenant_policies db),
      tenant_rules := dict_set (c, q) x (tenant_rules db)\<rparr>) k =
    ((row_at db)(TenantPolicyKey c \<mapsto> (c, PolicyRow h), TenantRuleKey c q \<mapsto> (c, RuleRow x))) k"
    by (cases k) (auto split: option.split)
qed

lemma row_at_workspace_rule:
  "row_at (db\<lparr>workspace_policies := dict_set (c, w) h (workspace_policies db),
      workspace_rules := dict_set (c, w, q) x (workspace_rules db)\<rparr>) =
    (row_at db)(WorkspacePolicyKey c w \<mapsto> (c, PolicyRow h), WorkspaceRuleKey c w q \<mapsto> (c, RuleRow x))"
proof
  fix k
  show "row_at (db\<lparr>workspace_policies := dict_set (c, w) h (workspace_policies db),
      workspace_rules := dict_set (c, w, q) x (workspace_rules db)\<rparr>) k =
    ((row_at db)(WorkspacePolicyKey c w \<mapsto> (c, PolicyRow h), WorkspaceRuleKey c w q \<mapsto> (c, RuleRow x))) k"
    by (cases k) (auto split: option.split)
qed

lemma touches_store_rule:
  assumes "1 \<le> version_of (policy_header scope c w db)" and "version_of (policy_header scope c w db) \<le> v"
  shows "touches c db (store_rule scope c w q x v now db)"
proof (cases "scope = ''tenant''")
  case True
  then have header: "dict_get (tenant_policies db) c \<noteq> None"
    using version_of_header [OF assms(1)] by (simp add: policy_header_def)
  show ?thesis
    unfolding True store_tenant_rule [OF header] touches_def row_at_tenant_rule
    using assms True by (auto simp: policy_header_def version_of_def)
next
  case False
  then have header: "dict_get (workspace_policies db) (c, w) \<noteq> None"
    using version_of_header [OF assms(1)] by (simp add: policy_header_def)
  show ?thesis
    unfolding store_workspace_rule [OF False header] touches_def row_at_workspace_rule
    using assms False by (auto simp: policy_header_def version_of_def)
qed

lemma touches_insert_descriptor:
  assumes "insert_descriptor d now db = Inr db'"
  shows "touches c db db'"
  using assms
proof (rule insert_descriptor_InrE)
  assume fresh: "dict_get (historical_results db) (result_id d) = None"
    and db': "db' = db\<lparr>historical_results := dict_set (result_id d) (result_row_of d now) (historical_results db),
       result_dependencies := result_dependencies db
         @ map (\<lambda>e. ((result_id d, reference_id e), dependency_row_of e)) (dependencies d)\<rparr>"
  show ?thesis
  proof (rule touches_extend)
    fix k v
    show "row_at db k = Some v \<Longrightarrow> row_at db' k = Some v"
      unfolding db' using fresh by (cases k) (auto simp: map_add_Some_iff split: option.splits)
  qed
qed

lemma touches_bootstrap:
  assumes "bootstrap_tables t w owner r kind area cost now db = Inr db'"
    and "dict_get (workspaces db) w = None"
  shows "touches c db db'"
  using assms(1)
proof (rule bootstrap_tables_InrE)
  assume "dict_get (workspace_policies db) (t, w) = None" and db': "db' = db\<lparr>
       workspaces := dict_set w (new_workspace t w kind area cost now) (workspaces db),
       tenant_roles := insert_or_ignore (t, owner)
         \<lparr>row_role = r, row_state = ''active'', row_version = 1, row_updated_at = now\<rparr> (tenant_roles db),
       tenant_policies := insert_or_ignore t \<lparr>pol_version = 1, pol_updated_at = now\<rparr> (tenant_policies db),
       workspace_policies := dict_set (t, w) \<lparr>pol_version = 1, pol_updated_at = now\<rparr>
         (workspace_policies db)\<rparr>"
  then show ?thesis
  proof (intro touches_extend)
    fix k v
    show "row_at db k = Some v \<Longrightarrow> row_at db' k = Some v"
      if "dict_get (workspace_policies db) (t, w) = None"
      unfolding db' using assms(2) that by (cases k) (auto split: option.splits)
  qed
qed

text \<open>A step touches the rows of its tenant only.\<close>

lemma set_membership_touches:
  assumes "set_membership cfg p w u r expected trace pv s = (x, t)"
  shows "touches (tenant_id p) (tables s) (tables t)"
proof (cases x)
  case (Inl e)
  then show ?thesis
    using assms set_membership_error [of cfg p w u r expected trace pv s e t] by simp
next
  case (Inr v)
  note call = assms [unfolded Inr]
  show ?thesis
    by (rule set_membership_effect [OF call])
      (auto simp: put_membership_def member_row_def intro!: touches_trans [OF touches_membership touches_acl])
qed

lemma set_tenant_role_touches:
  assumes "set_tenant_role cfg p u r expected trace pv s = (x, t)"
  shows "touches (tenant_id p) (tables s) (tables t)"
proof (cases x)
  case (Inl e)
  then show ?thesis
    using assms set_tenant_role_error [of cfg p u r expected trace pv s e t] by simp
next
  case (Inr v)
  note call = assms [unfolded Inr]
  show ?thesis
    by (rule set_tenant_role_effect [OF call]) (auto intro!: touches_tenant_role)
qed

lemma set_source_access_touches:
  assumes "set_source_access cfg p w u src b expected trace pv s = (x, t)"
  shows "touches (tenant_id p) (tables s) (tables t)"
proof (cases x)
  case (Inl e)
  then show ?thesis
    using assms set_source_access_error [of cfg p w u src b expected trace pv s e t] by simp
next
  case (Inr v)
  note call = assms [unfolded Inr]
  show ?thesis
    by (rule set_source_access_effect [OF call])
      (auto simp: put_source_access_def intro!: touches_trans [OF touches_source_access touches_acl])
qed

lemma change_policy_touches:
  assumes "1 \<le> expected" and "change_policy cfg p scope w perm rule expected target now trace pv s = (x, t)"
  shows "touches (tenant_id p) (tables s) (tables t)"
proof (cases x)
  case (Inl e)
  then show ?thesis
    using assms change_policy_error [of cfg p scope w perm rule expected target now trace pv s e t] by simp
next
  case (Inr v)
  note call = assms(2) [unfolded Inr]
  show ?thesis
    by (rule change_policy_effect [OF call])
      (use assms(1) in \<open>auto intro!: touches_store_rule\<close>)
qed

lemma set_permission_policy_touches:
  assumes "set_permission_policy cfg tok su scope w perm rule expected trace pv s = (x, t)"
    and "\<And>ids p. identity cfg = Some ids
      \<Longrightarrow> validate_access ids (identity_calls s) tok trace pv = Inr p \<Longrightarrow> c = tenant_id p"
  shows "touches c (tables s) (tables t)"
proof (cases x)
  case (Inl e)
  then show ?thesis
    using assms set_permission_policy_error [of cfg tok su scope w perm rule expected trace pv s e t] by simp
next
  case (Inr v)
  note call = assms(1) [unfolded Inr]
  show ?thesis
  proof (rule set_permission_policy_effect [OF call])
    fix ids p now
    assume "identity cfg = Some ids" "validate_access ids (identity_calls s) tok trace pv = Inr p"
      and header: "version_of (policy_header scope (tenant_id p) w (tables s)) = expected" "1 \<le> expected"
      and v: "v = expected + 1"
      and t: "tables t = store_rule scope (tenant_id p) w perm rule v now (tables s)"
    then have "c = tenant_id p" by (intro assms(2))
    then show ?thesis
      unfolding t using header v by (auto intro!: touches_store_rule)
  qed
qed

lemma register_historical_result_touches:
  assumes "register_historical_result cfg p d trace pv s = (x, t)"
  shows "touches (tenant_id p) (tables s) (tables t)"
proof (cases x)
  case (Inl e)
  then show ?thesis
    using assms register_historical_result_error [of cfg p d trace pv s e t] by simp
next
  case (Inr v)
  note call = assms [unfolded Inr]
  show ?thesis
    by (rule register_historical_result_effect [OF call]) (rule touches_insert_descriptor)
qed

lemma evaluate_historical_access_touches:
  assumes "evaluate_historical_access cfg p rid a trace pv s = (x, t)"
  shows "touches (tenant_id p) (tables s) (tables t)"
proof (cases x)
  case (Inl e)
  then show ?thesis
    using assms evaluate_historical_access_error [of cfg p rid a trace pv s e t] by simp
next
  case (Inr y)
  note call = assms [unfolded Inr]
  have "dec_tenant_id y = tenant_id p"
    by (rule evaluate_historical_access_effect [OF call]) simp
  then show ?thesis
    using evaluate_historical_access_effect [OF call] touches_decision [of "tables s" _ y] by metis
qed

lemma require_historical_access_touches:
  "require_historical_access cfg p rid a trace pv s = (x, t) \<Longrightarrow> touches (tenant_id p) (tables s) (tables t)"
  by (auto elim!: require_historical_access_tables dest: evaluate_historical_access_touches)

lemma admit_rerun_touches:
  assumes "admit_rerun cfg p rid y trace pv s = (x, t)"
  shows "touches (tenant_id p) (tables s) (tables t)"
proof (cases x)
  case (Inl e)
  then show ?thesis
    using assms unfolding admit_rerun_def by (auto dest: transaction_InlD)
next
  case (Inr r)
  note call = assms [unfolded Inr]
  show ?thesis
  proof (rule admit_rerun_effect [OF call])
    fix d w b i now
    assume "dict_get (rerun_requests (tables s)) i = None"
      and t: "tables t = (tables s)\<lparr>rerun_requests := dict_set i
       \<lparr>rerun_result_id = rid, rerun_decision_id = decision_id y,
        rerun_tenant_id = tenant_id p, rerun_workspace_id = res_workspace_id d,
        rerun_actor_id = user_id p, rerun_snapshot = rerun_snapshot_of p d w b y,
        rerun_created_at = now\<rparr> (rerun_requests (tables s))\<rparr>"
    then show ?thesis
      unfolding t using touches_rerun [of "tables s" i] by (metis rerun_row.select_convs(3))
  qed
qed

lemma authorize_rerun_touches:
  assumes "authorize_rerun cfg p rid trace pv s = (x, t)"
  shows "touches (tenant_id p) (tables s) (tables t)"
  using assms
proof (cases rule: authorize_rerun_cases)
  case (refused e)
  then show ?thesis by (auto dest: require_historical_access_touches)
next
  case (decided y u)
  then show ?thesis
    by (intro touches_trans [OF require_historical_access_touches admit_rerun_touches])
qed

lemma insert_historical_result_touches:
  assumes "insert_historical_result d now s = (x, t)"
  shows "touches c (tables s) (tables t)"
  using assms by (cases rule: insert_historical_result_effect) (auto intro: touches_insert_descriptor)

lemma bootstrap_workspace_touches:
  assumes "bootstrap_workspace c w owner r kind area cost now s = (x, t)"
  shows "touches c (tables s) (tables t)"
  using assms by (cases rule: bootstrap_workspace_effect) (auto intro: touches_bootstrap)

lemma quiet_touches:
  "authorize_action cfg p w a trace pv extra s = (x1, t) \<Longrightarrow> touches c (tables s) (tables t)"
  "authorize_audit_read cfg p wo trace pv s = (x2, t) \<Longrightarrow> touches c (tables s) (tables t)"
  "organization_admin_workspace cfg p trace pv s = (x3, t) \<Longrightarrow> touches c (tables s) (tables t)"
  "evaluate_permission p w perm req s = (x4, t) \<Longrightarrow> touches c (tables s) (tables t)"
  using authorize_action_tables [of cfg p w a trace pv extra s x1 t]
    authorize_audit_read_tables [of cfg p wo trace pv s x2 t]
    organization_admin_workspace_tables [of cfg p trace pv s x3 t]
    evaluate_permission_tables [of p w perm req s x4 t]
  by simp_all

lemma touches_organization: "touches c db (db\<lparr>organization_members := m\<rparr>)"
proof (rule touches_extend)
  fix k v
  show "row_at db k = Some v \<Longrightarrow> row_at (db\<lparr>organization_members := m\<rparr>) k = Some v"
    by (cases k) simp_all
qed

lemma auth_step_touches:
  assumes "auth_step cfg c s t"
  shows "touches c (tables s) (tables t)"
  using assms
proof cases
  case step_close_repository
  then show ?thesis by (simp add: close_repository_def)
next
  case (step_organization_workflow m)
  then show ?thesis by (simp add: touches_organization)
next
  case (step_set_permission_policy tok su scope w perm rule expected trace pv x)
  then show ?thesis by (blast intro: set_permission_policy_touches)
qed ((hypsubst)?, (erule quiet_touches set_membership_touches set_tenant_role_touches
      set_source_access_touches change_policy_touches [rotated] register_historical_result_touches
      evaluate_historical_access_touches require_historical_access_touches admit_rerun_touches
      authorize_rerun_touches bootstrap_workspace_touches insert_historical_result_touches; assumption))+

section \<open>The contracts\<close>

interpretation auth: service auth_start "auth_step cfg" auth_inv for cfg
  by unfold_locales (auto intro: auth_inv_start auth_inv_step)

interpretation auth_rows: versioned_service auth_start "auth_step cfg" auth_inv
    "\<lambda>s. row_at (tables s)" fst "\<lambda>x. row_version_of (snd x)" for cfg
proof unfold_locales
  fix c s t i x
  assume "auth_step cfg c s t" and x: "row_at (tables s) i = Some x"
  then have "\<exists>y. row_at (tables t) i = Some (fst x, y) \<and> row_version_of (snd x) \<le> row_version_of y
      \<and> (fst x \<noteq> c \<or> recorded i \<longrightarrow> y = snd x)"
    using auth_step_touches unfolding touches_def by (metis prod.collapse)
  then obtain y where y: "row_at (tables t) i = Some (fst x, y)" "row_version_of (snd x) \<le> row_version_of y"
    "fst x \<noteq> c \<or> recorded i \<longrightarrow> y = snd x"
    by blast
  show "fst x \<noteq> c \<Longrightarrow> row_at (tables t) i = Some x"
    using y by simp
  show "\<exists>y. row_at (tables t) i = Some y \<and> fst y = fst x"
    using y by simp
  show "row_version_of (snd x) \<le> row_version_of (snd z)" if "row_at (tables t) i = Some z" for z
    using y that by simp
qed

text \<open>What was recorded stays as it is, in every run.\<close>

lemma recorded_kept:
  assumes "runs (auth_step cfg) s cs t" and "row_at (tables s) k = Some x" and "recorded k"
  shows "row_at (tables t) k = Some x"
  using assms
proof (induction rule: runs.induct)
  case (runs_none s)
  then show ?case by simp
next
  case (runs_more c s t cs u)
  then have "touches c (tables s) (tables t)"
    by (auto intro: auth_step_touches)
  then have "row_at (tables t) k = Some x"
    using runs_more.prems by (cases x) (auto simp: touches_def)
  then show ?case using runs_more by blast
qed

end
