(* ===== verification/Authorization_Demo.thy ===== *)
theory Authorization_Demo
  imports Authorization_Steps
begin

text \<open>
  The states at which the properties of the authorization service are applied: a small organization,
  evaluated call by call.
\<close>

section \<open>A small organization\<close>

definition owner :: principal where
  "owner = \<lparr>user_id = ''o1'', session_id = ''s1'', device_id = ''d1'', tenant_id = ''t1''\<rparr>"

definition editor :: principal where
  "editor = \<lparr>user_id = ''e1'', session_id = ''s2'', device_id = ''d2'', tenant_id = ''t1''\<rparr>"

definition auth_demo_service :: auth_service where
  "auth_demo_service = \<lparr>clock = (\<lambda>n. Some (int n)), token_urlsafe = (\<lambda>n. replicate n CHR ''a''),
     audit_accepts = (\<lambda>_ _. True),
     identity = Some \<lparr>validate_access = (\<lambda>_ _ _ _. Inr owner), consume_step_up = (\<lambda>_ _ _ _ _ _ _. Inr ())\<rparr>,
     download_first = True\<rparr>"

definition auth_demo_result :: historical_result where
  "auth_demo_result = \<lparr>result_id = ''r1'', result_kind = ''report'', res_tenant_id = ''t1'',
     res_workspace_id = ''w1'', source_version_ids = [''sv1'', ''sv2''],
     evidence_reference_ids = [''ref2'', ''ref1''],
     dependencies =
       [\<lparr>reference_id = ''ref2'', source_version_id = ''sv2'', segment_ids = [''g2''], decisive = False,
         safe_separation = True\<rparr>,
        \<lparr>reference_id = ''ref1'', source_version_id = ''sv1'', segment_ids = [''g1''], decisive = True,
         safe_separation = False\<rparr>],
     original_policy_version = ''v1'', original_membership_version = 1\<rparr>"

text \<open>
  The organization is set up, gets an editor and a result, the editor loses one of its sources, and
  asks for a rerun.
\<close>

definition auth_demo_created :: auth_state where
  "auth_demo_created = snd (bootstrap_workspace ''t1'' ''w1'' ''o1'' OrganizationAdmin ''organization'' ''cloud''
     500 0 empty_repository)"

definition auth_demo_staffed :: auth_state where
  "auth_demo_staffed = snd (set_membership auth_demo_service owner ''w1'' ''e1'' Editor 0 ''x1'' ''v1'' auth_demo_created)"

definition auth_demo_registered :: auth_state where
  "auth_demo_registered = snd (register_historical_result auth_demo_service editor auth_demo_result ''x2'' ''v1'' auth_demo_staffed)"

definition auth_demo_restricted :: auth_state where
  "auth_demo_restricted = snd (set_source_access auth_demo_service owner ''w1'' ''e1'' ''sv2'' False 0 ''x3'' ''v1''
     auth_demo_registered)"

definition auth_demo_rerun :: auth_state where
  "auth_demo_rerun = snd (authorize_rerun auth_demo_service editor ''r1'' ''x4'' ''v1'' auth_demo_restricted)"

lemma auth_demo_safe [simp]:
  "safe_id ''t1''" "safe_id ''w1''" "safe_id ''o1''" "safe_id ''e1''" "safe_id ''organization''"
  "safe_id ''cloud''" "safe_id ''x1''" "safe_id ''x2''" "safe_id ''x3''" "safe_id ''x4''" "safe_id ''v1''"
  "safe_id ''r1''" "safe_id ''report''" "safe_id ''sv1''" "safe_id ''sv2''" "safe_id ''ref1''"
  "safe_id ''ref2''" "safe_id ''g1''" "safe_id ''g2''"
  "safe_id ''authorization.membership.changed''" "safe_id ''membership''"
  "safe_id ''authorization.action.allowed''" "safe_id ''workspace_action''"
  "safe_id ''authorization.historical_result.registered''" "safe_id ''historical_result''"
  "safe_id ''authorization.source_access.changed''" "safe_id ''source_access''"
  "safe_id ''authorization.access.decided''" "safe_id ''access_decision''"
  "safe_id ''authorization.rerun.authorized''" "safe_id ''run_request''"
  by code_simp+

lemma auth_demo_tokens [simp]:
  "replicate 4 CHR ''a'' = ''aaaa''" "replicate 6 CHR ''a'' = ''aaaaaa''"
  "safe_id ''acd-aaaa''" "safe_id ''rrq-aaaaaa''"
  by code_simp+

lemma auth_demo_people [simp]:
  "user_id owner = ''o1''" "tenant_id owner = ''t1''" "user_id editor = ''e1''" "tenant_id editor = ''t1''"
  by (simp_all add: owner_def editor_def)

lemma auth_demo_service_simps [simp]:
  "clock auth_demo_service n = Some (int n)" "token_urlsafe auth_demo_service n = replicate n CHR ''a''"
  "audit_accepts auth_demo_service ds d" "download_first auth_demo_service"
  by (simp_all add: auth_demo_service_def)

lemmas auth_calls = transaction_def find_workspace_def lookup_workspace_def assert_organization_active_def
  organization_active_def role_binding_of_def active_tenant_role_def active_membership_def active_row_def
  kind_of_role_def read_now_def fresh_id_def audit_def audit_ids_ok_def checked_id_def Let_def

lemma auth_demo_organization_ids [simp]: "organization_id_ok ''t1''" "organization_id_ok ''o1''" "organization_id_ok ''e1''"
  by code_simp+

lemma auth_demo_created_eq:
  "auth_demo_created = empty_repository\<lparr>tables := empty_tables\<lparr>
     workspaces := [(''w1'', new_workspace ''t1'' ''w1'' ''organization'' ''cloud'' 500 0)],
     tenant_roles := [((''t1'', ''o1''), member_row OrganizationAdmin 1 0)],
     tenant_policies := [(''t1'', \<lparr>pol_version = 1, pol_updated_at = 0\<rparr>)],
     workspace_policies := [((''t1'', ''w1''), \<lparr>pol_version = 1, pol_updated_at = 0\<rparr>)]\<rparr>\<rparr>"
  by (simp add: auth_demo_created_def bootstrap_workspace_def auth_calls empty_repository_def empty_tables_def
      role_of_kind_def bootstrap_tables_def sqlite_int_def insert_or_ignore_def new_workspace_def member_row_def)

lemma auth_demo_set_membership:
  "set_membership auth_demo_service owner ''w1'' ''e1'' Editor 0 ''x1'' ''v1'' auth_demo_created = (Inr 1, auth_demo_staffed)"
  by (simp add: auth_demo_staffed_def auth_demo_created_eq set_membership_def auth_calls empty_repository_def empty_tables_def
      new_workspace_def member_row_def WORKSPACE_ROLES_def may_assign_def role_version_def)

lemmas auth_demo_rows = new_workspace_def member_row_def with_acl_def

lemma auth_demo_staffed_eq:
  "tables auth_demo_staffed = empty_tables\<lparr>
     workspaces := [(''w1'', with_acl 0 (new_workspace ''t1'' ''w1'' ''organization'' ''cloud'' 500 0))],
     tenant_roles := [((''t1'', ''o1''), member_row OrganizationAdmin 1 0)],
     memberships := [((''t1'', ''w1'', ''e1''), member_row Editor 1 0)],
     tenant_policies := [(''t1'', \<lparr>pol_version = 1, pol_updated_at = 0\<rparr>)],
     workspace_policies := [((''t1'', ''w1''), \<lparr>pol_version = 1, pol_updated_at = 0\<rparr>)]\<rparr>"
  "repository_closed auth_demo_staffed = False" "clock_reads auth_demo_staffed = 2" "tokens_drawn auth_demo_staffed = 1"
  by (simp_all add: auth_demo_staffed_def auth_demo_created_eq set_membership_def auth_calls empty_repository_def empty_tables_def
      auth_demo_rows WORKSPACE_ROLES_def may_assign_def role_version_def touch_acl_def)

lemma auth_demo_register:
  "register_historical_result auth_demo_service editor auth_demo_result ''x2'' ''v1'' auth_demo_staffed = (Inr (), auth_demo_registered)"
  by (simp add: auth_demo_registered_def register_historical_result_def authorize_action_def answer_action_def
      action_grant_def from_keys_def dict_by_def auth_calls auth_demo_staffed_eq empty_tables_def auth_demo_rows
      WORKSPACE_ROLES_def action_audit_def validate_descriptor_def descriptor_valid_def
      insert_descriptor_def sqlite_int_def auth_demo_result_def)

lemma auth_demo_registered_eq:
  "tables auth_demo_registered = (tables auth_demo_staffed)\<lparr>
     historical_results := [(''r1'', result_row_of auth_demo_result 3)],
     result_dependencies :=
       [((''r1'', ''ref2''), dependency_row_of (dependencies auth_demo_result ! 0)),
        ((''r1'', ''ref1''), dependency_row_of (dependencies auth_demo_result ! 1))]\<rparr>"
  "repository_closed auth_demo_registered = False" "clock_reads auth_demo_registered = 5" "tokens_drawn auth_demo_registered = 3"
  by (simp_all add: auth_demo_registered_def register_historical_result_def authorize_action_def answer_action_def
      action_grant_def from_keys_def dict_by_def auth_calls auth_demo_staffed_eq empty_tables_def auth_demo_rows
      WORKSPACE_ROLES_def action_audit_def validate_descriptor_def descriptor_valid_def
      insert_descriptor_def sqlite_int_def auth_demo_result_def)

lemma auth_demo_restrict:
  "set_source_access auth_demo_service owner ''w1'' ''e1'' ''sv2'' False 0 ''x3'' ''v1'' auth_demo_registered
    = (Inr 1, auth_demo_restricted)"
  by (simp add: auth_demo_restricted_def set_source_access_def auth_calls auth_demo_registered_eq auth_demo_staffed_eq
      empty_tables_def auth_demo_rows manager_binding_def touch_acl_def)

lemma auth_demo_restricted_eq:
  "tables auth_demo_restricted = (tables auth_demo_registered)\<lparr>
     workspaces := [(''w1'', with_acl 5 (with_acl 0 (new_workspace ''t1'' ''w1'' ''organization'' ''cloud'' 500 0)))],
     source_access := [((''t1'', ''w1'', ''e1'', ''sv2''),
       \<lparr>source_allowed = False, access_version = 1, access_updated_at = 5\<rparr>)]\<rparr>"
  "repository_closed auth_demo_restricted = False" "clock_reads auth_demo_restricted = 7" "tokens_drawn auth_demo_restricted = 4"
  by (simp_all add: auth_demo_restricted_def set_source_access_def auth_calls auth_demo_registered_eq auth_demo_staffed_eq
      empty_tables_def auth_demo_rows manager_binding_def touch_acl_def)

lemma auth_demo_descriptor:
  "read_descriptor (tables auth_demo_restricted) ''t1'' ''w1'' ''r1'' =
    Some (auth_demo_result\<lparr>dependencies := [dependencies auth_demo_result ! 1, dependencies auth_demo_result ! 0]\<rparr>)"
  by (simp add: read_descriptor_def read_dependencies_def auth_demo_restricted_eq auth_demo_registered_eq
      result_row_of_def dependency_row_of_def auth_demo_result_def insort_key_def)

lemmas auth_demo_evaluation = evaluate_historical_access_def find_descriptor_def record_decision_def
  evidence_view_of_def action_grant_def from_keys_def dict_by_def auth_calls auth_demo_rows WORKSPACE_ROLES_def
  available_view_def source_open_def decision_audit_def read_descriptor_def read_dependencies_def
  dependency_row_of_def result_row_of_def

lemma auth_demo_evaluated:
  "fst (evaluate_historical_access auth_demo_service editor ''r1'' RerunAccess ''x4'' ''v1'' auth_demo_restricted) =
    Inr \<lparr>decision_id = ''acd-aaaa'', dec_actor_id = ''e1'', dec_action = RerunAccess, dec_resource_id = ''r1'',
      dec_tenant_id = ''t1'', dec_workspace_id = ''w1'', dec_role_scope = Some WorkspaceScope,
      dec_membership_version = 1, dec_acl_version = 3, dec_policy_version = policy_text (tables auth_demo_restricted) ''t1'' ''w1'',
      evaluated_at = 7, access_state = PartiallyRedacted, reason_codes = [''SOURCE_ACCESS_REVOKED''],
      allowed_reference_ids = [''ref1''], masked_reference_ids = [''ref2''],
      allowed_segment_ids = [''g1''], masked_segment_ids = [''g2'']\<rparr>"
  by (simp add: auth_demo_evaluation auth_demo_restricted_eq auth_demo_registered_eq auth_demo_staffed_eq
      empty_tables_def result_row_of_def decide_access_def auth_demo_result_def)

definition auth_demo_decision :: access_decision where
  "auth_demo_decision = \<lparr>decision_id = ''acd-aaaa'', dec_actor_id = ''e1'', dec_action = RerunAccess, dec_resource_id = ''r1'',
      dec_tenant_id = ''t1'', dec_workspace_id = ''w1'', dec_role_scope = Some WorkspaceScope,
      dec_membership_version = 1, dec_acl_version = 3, dec_policy_version = policy_text (tables auth_demo_restricted) ''t1'' ''w1'',
      evaluated_at = 7, access_state = PartiallyRedacted, reason_codes = [''SOURCE_ACCESS_REVOKED''],
      allowed_reference_ids = [''ref1''], masked_reference_ids = [''ref2''],
      allowed_segment_ids = [''g1''], masked_segment_ids = [''g2'']\<rparr>"

definition auth_demo_evaluated_state :: auth_state where
  "auth_demo_evaluated_state =
    snd (evaluate_historical_access auth_demo_service editor ''r1'' RerunAccess ''x4'' ''v1'' auth_demo_restricted)"

lemma auth_demo_evaluate:
  "evaluate_historical_access auth_demo_service editor ''r1'' RerunAccess ''x4'' ''v1'' auth_demo_restricted
    = (Inr auth_demo_decision, auth_demo_evaluated_state)"
  using auth_demo_evaluated by (simp add: auth_demo_evaluated_state_def auth_demo_decision_def prod_eq_iff)

lemma auth_demo_evaluated_eq:
  "tables auth_demo_evaluated_state = (tables auth_demo_restricted)\<lparr>access_decisions := [(''acd-aaaa'', auth_demo_decision)]\<rparr>"
  "repository_closed auth_demo_evaluated_state = False"
  "clock_reads auth_demo_evaluated_state = 9" "tokens_drawn auth_demo_evaluated_state = 6"
  by (simp_all add: auth_demo_evaluated_state_def auth_demo_evaluation auth_demo_restricted_eq auth_demo_registered_eq
      auth_demo_staffed_eq empty_tables_def result_row_of_def decide_access_def auth_demo_result_def auth_demo_decision_def)

lemma auth_demo_authorize_rerun:
  "\<exists>r. authorize_rerun auth_demo_service editor ''r1'' ''x4'' ''v1'' auth_demo_restricted = (Inr r, auth_demo_rerun)
    \<and> snap_source_version_ids (snapshot r) = [''sv1'']"
proof -
  have "require_historical_access auth_demo_service editor ''r1'' RerunAccess ''x4'' ''v1'' auth_demo_restricted
      = (Inr auth_demo_decision, auth_demo_evaluated_state)"
    by (simp add: require_historical_access_def auth_demo_evaluate) (simp add: auth_demo_decision_def)
  then show ?thesis
    by (simp add: auth_demo_rerun_def authorize_rerun_def admit_rerun_def record_rerun_def auth_demo_evaluation
        auth_demo_evaluated_eq auth_demo_restricted_eq auth_demo_registered_eq auth_demo_staffed_eq empty_tables_def
        auth_demo_result_def auth_demo_decision_def rerun_audit_def rerun_snapshot_of_def rerun_sources_def)
qed

section \<open>The states are reached\<close>

lemma auth_demo_reachable_created: "reachable auth_start (auth_step auth_demo_service) auth_demo_created"
proof -
  have "auth_step auth_demo_service ''t1'' empty_repository auth_demo_created"
    unfolding auth_demo_created_def by (rule step_bootstrap_workspace) (rule prod.collapse [symmetric])
  moreover have "reachable auth_start (auth_step auth_demo_service) empty_repository"
    by (rule reachable_start) (simp add: auth_start_def)
  ultimately show ?thesis
    by (rule reachable_step [rotated])
qed

lemma auth_demo_reachable_staffed: "reachable auth_start (auth_step auth_demo_service) auth_demo_staffed"
  using reachable_step [OF auth_demo_reachable_created step_set_membership [OF auth_demo_set_membership]] .

lemma auth_demo_reachable_registered: "reachable auth_start (auth_step auth_demo_service) auth_demo_registered"
  using reachable_step [OF auth_demo_reachable_staffed step_register_historical_result [OF auth_demo_register]] .

lemma auth_demo_reachable_restricted: "reachable auth_start (auth_step auth_demo_service) auth_demo_restricted"
  using reachable_step [OF auth_demo_reachable_registered step_set_source_access [OF auth_demo_restrict]] .

lemma auth_demo_reachable_rerun: "reachable auth_start (auth_step auth_demo_service) auth_demo_rerun"
  using auth_demo_authorize_rerun reachable_step [OF auth_demo_reachable_restricted step_authorize_rerun] by blast

end
