(* ===== verification/Authorization_Properties.thy ===== *)
theory Authorization_Properties
  imports Authorization_Demo
begin

text \<open>The properties of the authorization service, each with a witness at a state of the small organization.\<close>

section \<open>Specifications\<close>

text \<open>
  The permission a role has under the policies, said by precedence: a lock of the organization
  decides; without one, everybody may restrict and only the organization, then the workspace, then
  the defaults of the role may open.
\<close>

definition permission_open :: "auth_tables \<Rightarrow> role \<Rightarrow> string \<Rightarrow> string \<Rightarrow> permission \<Rightarrow> bool" where
  "permission_open db r t w q \<longleftrightarrow>
    (let org = dict_get (tenant_rules db) (t, q); ws = dict_get (workspace_rules db) (t, w, q);
         opens = (\<lambda>x. rule_effect x = GrantEffect) in
     case org of
       Some x \<Rightarrow> opens x \<and> (rule_locked x \<or> pred_option opens ws)
     | None \<Rightarrow> (case ws of Some y \<Rightarrow> opens y | None \<Rightarrow> q \<in> role_permission_defaults r))"

definition needed_permissions :: "action \<Rightarrow> permission set" where
  "needed_permissions a = set (action_permissions True a)"

text \<open>What a person may do in a workspace, as a function of the tables.\<close>

definition permitted :: "auth_tables \<Rightarrow> principal \<Rightarrow> string \<Rightarrow> action \<Rightarrow> permission list \<Rightarrow> bool" where
  "permitted db p w a extra \<longleftrightarrow>
    (\<exists>r b. lookup_workspace db (tenant_id p) w = Some r \<and> role_binding_of db p r = Some b
      \<and> a \<in> role_action_matrix (bound_role b)
      \<and> (\<forall>q \<in> needed_permissions a \<union> set extra.
          permission_open db (bound_role b) (tenant_id p) (workspace_id r) q))"

text \<open>
  The role a person holds in a workspace, said of the rows: the active tenant role, where it is the
  one of the kind of the workspace; without an active tenant role, the active membership.
\<close>

definition holds_role :: "auth_tables \<Rightarrow> principal \<Rightarrow> workspace_row \<Rightarrow> role \<Rightarrow> bool" where
  "holds_role db p r x \<longleftrightarrow>
    (\<exists>y. dict_get (tenant_roles db) (tenant_id p, user_id p) = Some y \<and> row_state y = ''active'' \<and> row_role y = x
      \<and> (x = PersonalOwner \<and> workspace_kind r = ''personal'' \<or> x = OrganizationAdmin \<and> workspace_kind r = ''organization''))
    \<or> (\<nexists>y. dict_get (tenant_roles db) (tenant_id p, user_id p) = Some y \<and> row_state y = ''active'')
      \<and> (\<exists>y. dict_get (memberships db) (tenant_id p, workspace_id r, user_id p) = Some y \<and> row_state y = ''active''
          \<and> row_role y = x \<and> x \<noteq> PersonalOwner \<and> x \<noteq> OrganizationAdmin)"

lemma active_row_Some: "active_row q = Some y \<longleftrightarrow> q = Some y \<and> row_state y = ''active''"
  by (auto simp: active_row_def split: option.splits)

lemma active_row_None: "active_row q = None \<longleftrightarrow> (\<nexists>y. q = Some y \<and> row_state y = ''active'')"
  by (auto simp: active_row_def split: option.splits)

lemma workspace_role_iff: "x \<in> WORKSPACE_ROLES \<longleftrightarrow> x \<noteq> PersonalOwner \<and> x \<noteq> OrganizationAdmin"
  by (cases x) (simp_all add: WORKSPACE_ROLES_def)

lemma role_binding_holds:
  assumes "role_binding_of db p r = Some b"
  shows "holds_role db p r (bound_role b)"
proof (cases "active_tenant_role db p")
  case (Some y)
  then have "dict_get (tenant_roles db) (tenant_id p, user_id p) = Some y" "row_state y = ''active''"
    by (simp_all add: active_tenant_role_def active_row_Some)
  moreover have "kind_of_role (row_role y) = Some (workspace_kind r)" "bound_role b = row_role y"
    using assms Some by (auto simp: role_binding_of_def split: if_splits)
  ultimately show ?thesis by (auto simp: holds_role_def kind_of_role_def split: if_splits)
next
  case None
  then obtain m where m: "active_membership db p (workspace_id r) = Some m" "row_role m \<in> WORKSPACE_ROLES" "bound_role b = row_role m"
    using assms by (auto simp: role_binding_of_def split: option.splits if_splits)
  then show ?thesis
    using None unfolding active_tenant_role_def active_membership_def active_row_None active_row_Some workspace_role_iff
      holds_role_def by auto
qed

text \<open>A member of an organization whose organization membership is not active, in a workspace of it.\<close>

definition suspended :: "auth_tables \<Rightarrow> principal \<Rightarrow> workspace_row \<Rightarrow> bool" where
  "suspended db p r \<longleftrightarrow> workspace_kind r = ''organization''
    \<and> (\<exists>rows st. organization_members db = Some rows \<and> dict_get rows (tenant_id p, user_id p) = Some st \<and> st \<noteq> ''active'')"

lemma active_not_suspended: "assert_organization_active db p (Some r) = Inr () \<Longrightarrow> \<not> suspended db p r"
  by (auto simp: assert_organization_active_def organization_active_def suspended_def split: if_splits)

lemma id_char_not_space: "id_char c \<Longrightarrow> \<not> py_space c"
  by (cases c) (auto simp: id_char_def ascii_alnum_def py_space_def)

lemma safe_id_stripped: "safe_id v \<Longrightarrow> organization_id_ok v"
proof -
  assume safe: "safe_id v"
  then have chars: "list_all id_char v" by (auto simp: safe_id_def safe_id_upto_def id_char_def split: list.splits)
  have keep: "dropWhile py_space u = u" if "list_all id_char u" for u
    using that id_char_not_space by (cases u) auto
  have "py_strip v = v" using chars by (simp add: py_strip_def keep)
  then show ?thesis using safe_id_nonempty [OF safe] safe_id_length [OF safe] by (simp add: organization_id_ok_def)
qed

definition membership_suspended :: authorization_error where
  "membership_suspended = authorization_error ''ORGANIZATION_MEMBERSHIP_SUSPENDED'' 403"

lemma assert_active_suspended:
  assumes "safe_id (tenant_id p)" and "safe_id (user_id p)"
  shows "assert_organization_active db p (Some r) = (if suspended db p r then Inl membership_suspended else Inr ())"
  using assms [THEN safe_id_stripped]
  by (auto simp: assert_organization_active_def organization_active_def suspended_def membership_suspended_def split: option.splits)

lemma set_from_keys [simp]: "set (from_keys xs) = set xs"
  using keys_dict_by [of "\<lambda>x. x" xs] by (simp add: from_keys_def)

lemma set_action_permissions: "set (action_permissions b a) = needed_permissions a"
  by (cases a) (auto simp: needed_permissions_def)

lemma two_effects: "rule_effect x = DenyEffect \<longleftrightarrow> rule_effect x \<noteq> GrantEffect" for x :: rule_row
  by (cases "rule_effect x") simp_all

lemma effective_iff: "effective (effective_permission_of db r t w q req) \<longleftrightarrow> req \<and> permission_open db r t w q"
  unfolding effective_permission_of_def permission_open_def Let_def
  by (cases "dict_get (tenant_rules db) (t, q)"; cases "dict_get (workspace_rules db) (t, w, q)")
    (simp_all add: two_effects)

text \<open>
  The effective permission of a role, computed by the service through its chain of cases, is the
  permission the precedence of organization lock, organization, workspace and role default gives;
  what was not asked for is not effective; and a rule of the organization that is locked or denies
  is named as what locks the answer.
\<close>

theorem permission_precedence:
  "(effective (effective_permission_of db r t w q req) \<longleftrightarrow> req \<and> permission_open db r t w q)
  \<and> (locked_by (effective_permission_of db r t w q req) = Some ''tenant-policy'' \<longleftrightarrow>
    req \<and> (\<exists>x. dict_get (tenant_rules db) (t, q) = Some x \<and> (rule_locked x \<or> rule_effect x = DenyEffect)))"
proof
  show "locked_by (effective_permission_of db r t w q req) = Some ''tenant-policy'' \<longleftrightarrow>
    req \<and> (\<exists>x. dict_get (tenant_rules db) (t, q) = Some x \<and> (rule_locked x \<or> rule_effect x = DenyEffect))"
    unfolding effective_permission_of_def Let_def
    by (cases "dict_get (tenant_rules db) (t, q)"; cases "dict_get (workspace_rules db) (t, w, q)")
      (simp_all add: two_effects)
qed (rule effective_iff)

lemma action_grant_iff:
  "(\<exists>g. action_grant cfg db p r (role_binding_of db p r) a extra = Some g) \<longleftrightarrow>
    (\<exists>b. role_binding_of db p r = Some b \<and> a \<in> role_action_matrix (bound_role b)
      \<and> (\<forall>q \<in> needed_permissions a \<union> set extra.
          permission_open db (bound_role b) (tenant_id p) (workspace_id r) q))"
  unfolding action_grant_def Let_def
  by (auto simp: list_all_iff effective_iff set_action_permissions split: option.split)

section \<open>Decisions on actions\<close>

text \<open>The audit store and the clock do their part.\<close>

definition auditing :: "auth_service \<Rightarrow> bool" where
  "auditing cfg \<longleftrightarrow> (\<forall>n. clock cfg n \<noteq> None) \<and> (\<forall>ds d. audit_accepts cfg ds d)"

lemma audit_runs:
  assumes "auditing cfg" and "audit_ids_ok p trace pv r"
  shows "\<exists>t i now. audit cfg p trace pv r s = (Inr (), t) \<and> tables t = tables s
    \<and> audit_log t = audit_log s @ [new_draft i now p trace pv r]"
proof -
  obtain x t where call: "audit cfg p trace pv r s = (x, t)"
    by (metis surj_pair)
  obtain now where "clock cfg (clock_reads s) = Some now"
    using assms(1) unfolding auditing_def by blast
  then have "x = Inr ()"
    using call assms by (auto simp: audit_def Let_def fresh_id_def read_now_def auditing_def)
  then have call: "audit cfg p trace pv r s = (Inr (), t)"
    using call by simp
  then show ?thesis by (rule audit_InrE) (use call in blast)
qed

lemma refuse_runs:
  assumes "auditing cfg" and "audit_ids_ok p trace pv r"
  shows "\<exists>t i now. refuse cfg p trace pv r e s = (Inl e, t) \<and> tables t = tables s
    \<and> audit_log t = audit_log s @ [new_draft i now p trace pv r]"
proof -
  obtain t i now where "audit cfg p trace pv r s = (Inr (), t)" "tables t = tables s"
    "audit_log t = audit_log s @ [new_draft i now p trace pv r]"
    using audit_runs [OF assms] by blast
  then show ?thesis by (auto simp: refuse_def)
qed

lemma audit_names_safe:
  "list_all safe_id [''authorization.resource.denied'', ''resource'', ''unavailable-resource'',
    ''authorization.action.denied'', ''authorization.action.allowed'', ''workspace_action'']"
  by code_simp

lemma new_draft_simps [simp]:
  "draft_actor_id (new_draft i now p trace pv r) = user_id p"
  "draft_outcome (new_draft i now p trace pv r) = req_outcome r"
  by (simp_all add: new_draft_def)

lemma answer_action_result:
  assumes "auditing cfg" and "list_all safe_id [user_id p, tenant_id p, w, trace, pv]"
  shows "\<exists>y u d. answer_action cfg p w a trace pv grant s = (y, u)
    \<and> ((\<exists>g. y = Inr g) \<longleftrightarrow> grant \<noteq> None) \<and> tables u = tables s
    \<and> audit_log u = audit_log s @ [d] \<and> draft_actor_id d = user_id p
    \<and> (draft_outcome d = Succeeded \<longleftrightarrow> grant \<noteq> None)"
proof (cases grant)
  case None
  have "audit_ids_ok p trace pv (action_denial w a)"
    using assms(2) audit_names_safe by (simp add: audit_ids_ok_def action_denial_def denial_def)
  then obtain t i now where t: "refuse cfg p trace pv (action_denial w a) action_denied s
      = (Inl action_denied :: _ + authorization_grant, t)" "tables t = tables s"
    "audit_log t = audit_log s @ [new_draft i now p trace pv (action_denial w a)]"
    using refuse_runs [OF assms(1), of p trace pv "action_denial w a" action_denied s] by blast
  have "req_outcome (action_denial w a) = Denied"
    by (simp add: action_denial_def denial_def)
  then show ?thesis
    unfolding None answer_action_def option.case t(1) using t(2,3) by auto
next
  case (Some g)
  have "audit_ids_ok p trace pv (action_audit w a g)"
    using assms(2) audit_names_safe by (simp add: audit_ids_ok_def action_audit_def)
  then obtain t i now where t: "audit cfg p trace pv (action_audit w a g) s = (Inr (), t)"
    "tables t = tables s" "audit_log t = audit_log s @ [new_draft i now p trace pv (action_audit w a g)]"
    using audit_runs [OF assms(1), of p trace pv "action_audit w a g" s] by blast
  have "req_outcome (action_audit w a g) = Succeeded"
    by (simp add: action_audit_def)
  then show ?thesis
    unfolding Some answer_action_def option.case t(1) chain_simps using t(2,3) by auto
qed

text \<open>
  C14: where the repository is open, the identifiers are safe and the audit store accepts what it is
  given, an action is granted exactly to those the tables permit it and whose membership of the
  organization of the workspace is not suspended; the decision leaves the tables as they are. A
  suspended member is refused with that error and without an audit event; in every other case the
  decision writes one audit event, for the person who asked, which says whether it was granted.
\<close>

theorem granted_iff_permitted:
  assumes "auditing cfg" and "\<not> repository_closed s"
    and ids: "list_all safe_id [user_id p, tenant_id p, w, trace, pv]"
    and "authorize_action cfg p w a trace pv extra s = (x, t)"
  shows "((\<exists>g. x = Inr g) \<longleftrightarrow> permitted (tables s) p w a extra
        \<and> (\<nexists>r. lookup_workspace (tables s) (tenant_id p) w = Some r \<and> suspended (tables s) p r))
    \<and> tables t = tables s
    \<and> (if \<exists>r. lookup_workspace (tables s) (tenant_id p) w = Some r \<and> suspended (tables s) p r
       then x = Inl membership_suspended \<and> audit_log t = audit_log s
       else \<exists>d. audit_log t = audit_log s @ [d] \<and> draft_actor_id d = user_id p
        \<and> (draft_outcome d = Succeeded \<longleftrightarrow> permitted (tables s) p w a extra))"
proof (cases "\<exists>r. lookup_workspace (tables s) (tenant_id p) w = Some r \<and> suspended (tables s) p r")
  case True
  then have "authorize_action cfg p w a trace pv extra s = (Inl membership_suspended, s)"
    using ids assms(2) by (auto simp: authorize_action_def find_workspace_def transaction_def assert_active_suspended)
  then show ?thesis using True assms(4) by simp
next
  case free: False
  define ok where "ok = permitted (tables s) p w a extra"
  let ?out = "\<lambda>y u. ((\<exists>g. y = Inr g) \<longleftrightarrow> ok) \<and> tables u = tables s
    \<and> (\<exists>d. audit_log u = audit_log s @ [d] \<and> draft_actor_id d = user_id p \<and> (draft_outcome d = Succeeded \<longleftrightarrow> ok))"
  have "\<exists>y u. authorize_action cfg p w a trace pv extra s = (y, u) \<and> ?out y u"
  proof (cases "lookup_workspace (tables s) (tenant_id p) w")
    case None
    let ?r = "denial ''authorization.resource.denied'' None ''resource'' ''unavailable-resource'' ''RESOURCE_UNAVAILABLE''"
    have "audit_ids_ok p trace pv ?r"
      using ids audit_names_safe by (simp add: audit_ids_ok_def denial_def)
    then obtain u i now where u: "refuse cfg p trace pv ?r resource_unavailable s
        = (Inl resource_unavailable :: _ + workspace_row, u)"
      "tables u = tables s" "audit_log u = audit_log s @ [new_draft i now p trace pv ?r]"
      using refuse_runs [OF assms(1), of p trace pv ?r resource_unavailable s] by blast
    have "\<not> ok"
      using None by (simp add: ok_def permitted_def)
    moreover have "req_outcome ?r = Denied"
      by (simp add: denial_def)
    moreover have "authorize_action cfg p w a trace pv extra s
        = (Inl resource_unavailable, u\<lparr>tables := tables s\<rparr>)"
      using ids None u(1) assms(2) by (simp add: authorize_action_def transaction_def find_workspace_def)
    ultimately show ?thesis
      using u(2,3) by auto
  next
    case (Some r)
    let ?grant = "action_grant cfg (tables s) p r (role_binding_of (tables s) p r) a extra"
    have "find_workspace cfg p w trace pv s = (Inr r, s)"
      using Some ids free by (simp add: find_workspace_def assert_active_suspended)
    moreover have ok_iff: "?grant \<noteq> None \<longleftrightarrow> ok"
      using action_grant_iff [of cfg "tables s" p r a extra] Some by (simp add: ok_def permitted_def)
    moreover obtain y u d where "answer_action cfg p w a trace pv ?grant s = (y, u)"
      "(\<exists>g. y = Inr g) \<longleftrightarrow> ok" "tables u = tables s"
      "audit_log u = audit_log s @ [d]" "draft_actor_id d = user_id p" "draft_outcome d = Succeeded \<longleftrightarrow> ok"
      using answer_action_result [OF assms(1) ids, of a ?grant s] unfolding ok_iff by blast
    ultimately show ?thesis
      using assms(2) by (cases y) (auto simp: authorize_action_def transaction_def)
  qed
  then show ?thesis
    using assms(4) free unfolding ok_def by auto
qed

lemma auth_demo_auditing: "auditing auth_demo_service"
  by (simp add: auditing_def)

lemma auth_demo_permitted: "permitted (tables auth_demo_staffed) editor ''w1'' Generate []"
  by (simp add: permitted_def needed_permissions_def auth_calls auth_demo_staffed_eq empty_tables_def auth_demo_rows
      WORKSPACE_ROLES_def)

theorem granted_iff_permitted_witness:
  "(\<exists>g. fst (authorize_action auth_demo_service editor ''w1'' Generate ''x1'' ''v1'' [] auth_demo_staffed) = Inr g)
    \<and> permitted (tables auth_demo_staffed) editor ''w1'' Generate []"
proof -
  have open_repository: "\<not> repository_closed auth_demo_staffed"
    by (simp add: auth_demo_staffed_eq)
  have ids: "list_all safe_id [user_id editor, tenant_id editor, ''w1'', ''x1'', ''v1'']"
    by simp
  have active: "\<not> suspended (tables auth_demo_staffed) editor r" for r
    by (simp add: suspended_def auth_demo_staffed_eq empty_tables_def)
  show ?thesis
    using granted_iff_permitted [OF auth_demo_auditing open_repository ids prod.collapse [symmetric],
        of Generate "[]"] auth_demo_permitted active by blast
qed

section \<open>Who changes roles\<close>

text \<open>Every other operation leaves the memberships and the tenant roles as they are.\<close>

definition roles_same :: "auth_tables \<Rightarrow> auth_tables \<Rightarrow> bool" where
  "roles_same db db' \<longleftrightarrow> memberships db' = memberships db \<and> tenant_roles db' = tenant_roles db"

lemma roles_same_refl [simp]: "roles_same db db"
  by (simp add: roles_same_def)

lemma quiet_roles:
  "authorize_action cfg p w a trace pv extra s = (x1, t) \<Longrightarrow> roles_same (tables s) (tables t)"
  "authorize_audit_read cfg p wo trace pv s = (x2, t) \<Longrightarrow> roles_same (tables s) (tables t)"
  "organization_admin_workspace cfg p trace pv s = (x3, t) \<Longrightarrow> roles_same (tables s) (tables t)"
  "evaluate_permission p w perm req s = (x4, t) \<Longrightarrow> roles_same (tables s) (tables t)"
  using authorize_action_tables [of cfg p w a trace pv extra s x1 t]
    authorize_audit_read_tables [of cfg p wo trace pv s x2 t]
    organization_admin_workspace_tables [of cfg p trace pv s x3 t]
    evaluate_permission_tables [of p w perm req s x4 t]
  by simp_all

lemma set_source_access_roles:
  assumes "set_source_access cfg p w u src b expected trace pv s = (x, t)"
  shows "roles_same (tables s) (tables t)"
proof (cases x)
  case (Inl e)
  then show ?thesis
    using assms set_source_access_error [of cfg p w u src b expected trace pv s e t] by simp
next
  case (Inr v)
  note call = assms [unfolded Inr]
  show ?thesis
    by (rule set_source_access_effect [OF call]) (simp add: roles_same_def put_source_access_def)
qed

lemma store_rule_roles: "roles_same db (store_rule scope t w q x v now db)"
  unfolding store_rule_def Let_def roles_same_def by simp

lemma change_policy_roles:
  assumes "change_policy cfg p scope w perm rule expected target now trace pv s = (x, t)"
  shows "roles_same (tables s) (tables t)"
proof (cases x)
  case (Inl e)
  then show ?thesis
    using assms change_policy_error [of cfg p scope w perm rule expected target now trace pv s e t] by simp
next
  case (Inr v)
  note call = assms [unfolded Inr]
  show ?thesis
    by (rule change_policy_effect [OF call]) (simp add: store_rule_roles)
qed

lemma set_permission_policy_roles:
  assumes "set_permission_policy cfg tok su scope w perm rule expected trace pv s = (x, t)"
  shows "roles_same (tables s) (tables t)"
proof (cases x)
  case (Inl e)
  then show ?thesis
    using assms set_permission_policy_error [of cfg tok su scope w perm rule expected trace pv s e t] by simp
next
  case (Inr v)
  note call = assms [unfolded Inr]
  show ?thesis
    by (rule set_permission_policy_effect [OF call]) (simp add: store_rule_roles)
qed

lemma insert_descriptor_roles: "insert_descriptor d now db = Inr db' \<Longrightarrow> roles_same db db'"
  by (erule insert_descriptor_InrE) (simp add: roles_same_def)

lemma register_historical_result_roles:
  assumes "register_historical_result cfg p d trace pv s = (x, t)"
  shows "roles_same (tables s) (tables t)"
proof (cases x)
  case (Inl e)
  then show ?thesis
    using assms register_historical_result_error [of cfg p d trace pv s e t] by simp
next
  case (Inr v)
  note call = assms [unfolded Inr]
  show ?thesis
    by (rule register_historical_result_effect [OF call]) (rule insert_descriptor_roles)
qed

lemma insert_historical_result_roles:
  "insert_historical_result d now s = (x, t) \<Longrightarrow> roles_same (tables s) (tables t)"
  by (erule insert_historical_result_effect) (simp_all add: insert_descriptor_roles)

lemma evaluate_historical_access_roles:
  assumes "evaluate_historical_access cfg p rid a trace pv s = (x, t)"
  shows "roles_same (tables s) (tables t)"
proof (cases x)
  case (Inl e)
  then show ?thesis
    using assms evaluate_historical_access_error [of cfg p rid a trace pv s e t] by simp
next
  case (Inr y)
  note call = assms [unfolded Inr]
  show ?thesis
    by (rule evaluate_historical_access_effect [OF call]) (simp add: roles_same_def)
qed

lemma require_historical_access_roles:
  "require_historical_access cfg p rid a trace pv s = (x, t) \<Longrightarrow> roles_same (tables s) (tables t)"
  by (erule require_historical_access_tables) (auto dest: evaluate_historical_access_roles)

lemma admit_rerun_roles:
  assumes "admit_rerun cfg p rid y trace pv s = (x, t)"
  shows "roles_same (tables s) (tables t)"
proof (cases x)
  case (Inl e)
  then show ?thesis
    using assms unfolding admit_rerun_def by (auto dest: transaction_InlD)
next
  case (Inr r)
  note call = assms [unfolded Inr]
  show ?thesis
    by (rule admit_rerun_effect [OF call]) (simp add: roles_same_def)
qed

lemma authorize_rerun_roles:
  assumes "authorize_rerun cfg p rid trace pv s = (x, t)"
  shows "roles_same (tables s) (tables t)"
  using assms
proof (cases rule: authorize_rerun_cases)
  case (refused e)
  then show ?thesis by (auto dest: require_historical_access_roles)
next
  case (decided y u)
  then have "roles_same (tables s) (tables u)" "roles_same (tables u) (tables t)"
    by (auto dest: require_historical_access_roles admit_rerun_roles)
  then show ?thesis by (simp add: roles_same_def)
qed

text \<open>The steps that change roles.\<close>

lemma auth_step_roles:
  assumes "auth_step cfg c s t"
  obtains (same) "roles_same (tables s) (tables t)"
  | (member) p w u r expected trace pv v where "tenant_id p = c"
      "set_membership cfg p w u r expected trace pv s = (Inr v, t)"
  | (tenant) p u r expected trace pv v where "tenant_id p = c"
      "set_tenant_role cfg p u r expected trace pv s = (Inr v, t)"
  | (created) w owner r kind area cost now where "dict_get (workspaces (tables s)) w = None"
      "bootstrap_tables c w owner r kind area cost now (tables s) = Inr (tables t)"
  using assms
proof cases
  case (step_set_membership p w u r expected trace pv x)
  show thesis
  proof (cases x)
    case (Inl e)
    then show thesis
      using step_set_membership set_membership_error [of cfg p w u r expected trace pv s e t]
      by (intro same) simp
  next
    case (Inr v)
    then show thesis using step_set_membership by (intro member) simp_all
  qed
next
  case (step_set_tenant_role p u r expected trace pv x)
  show thesis
  proof (cases x)
    case (Inl e)
    then show thesis
      using step_set_tenant_role set_tenant_role_error [of cfg p u r expected trace pv s e t]
      by (intro same) simp
  next
    case (Inr v)
    then show thesis using step_set_tenant_role by (intro tenant) simp_all
  qed
next
  case (step_bootstrap_workspace w owner r kind area cost now x)
  then show thesis
    by (cases rule: bootstrap_workspace_effect) (auto intro: same created)
next
  case step_close_repository
  then show thesis by (intro same) (simp add: close_repository_def)
next
  case (step_organization_workflow m)
  then show thesis by (intro same) (simp add: roles_same_def)
qed (rule same, (erule quiet_roles set_source_access_roles set_permission_policy_roles change_policy_roles
      register_historical_result_roles evaluate_historical_access_roles require_historical_access_roles
      admit_rerun_roles authorize_rerun_roles insert_historical_result_roles))+

lemma may_assignD:
  assumes "may_assign b r"
  obtains x where "b = Some x" "bound_role x \<in> {PersonalOwner, OrganizationAdmin, WorkspaceAdmin}"
    "r \<in> WORKSPACE_ROLES" "\<not> (bound_role x = WorkspaceAdmin \<and> r = WorkspaceAdmin)"
proof -
  obtain x where b: "b = Some x"
    using assms by (cases b) (simp_all add: may_assign_def)
  show thesis
    using assms unfolding b by (cases "bound_role x") (auto simp: may_assign_def WORKSPACE_ROLES_def intro: that [OF b])
qed

lemma only_set_membership:
  assumes "auth_step cfg c s t" and "memberships (tables t) \<noteq> memberships (tables s)"
  shows "\<exists>p w u r expected trace pv x. c = tenant_id p \<and> set_membership cfg p w u r expected trace pv s = (x, t)"
  using assms(1)
proof (cases rule: auth_step_roles)
  case same
  then show ?thesis using assms(2) by (simp add: roles_same_def)
next
  case (tenant p u' r expected trace pv v)
  show ?thesis
    by (rule set_tenant_role_effect [OF tenant(2)]) (use assms(2) in simp)
next
  case (created w' owner r kind area cost now)
  show ?thesis
    by (rule bootstrap_tables_InrE [OF created(2)]) (use assms(2) in simp)
qed blast

text \<open>
  C12: no privilege escalation. Only an assignment of a membership changes the memberships: whatever
  call changes them is one. And the assignment that does is called by a person who is not suspended
  and who holds, by the rows of that person and in that workspace of the tenant of the person, the
  role of an owner or an administrator; a workspace administrator makes no other one. It gives a
  workspace role, with the next version after the one the call named, to the user of the call, and
  changes no other membership.
\<close>

theorem memberships_change_by_authority:
  assumes "set_membership cfg p w u r expected trace pv s = (x, t)" and "memberships (tables t) \<noteq> memberships (tables s)"
  shows "(\<exists>ws b now. dict_get (workspaces (tables s)) w = Some ws \<and> ws_tenant_id ws = tenant_id p
        \<and> \<not> suspended (tables s) p ws \<and> holds_role (tables s) p ws b
        \<and> b \<in> {PersonalOwner, OrganizationAdmin, WorkspaceAdmin} \<and> \<not> (b = WorkspaceAdmin \<and> r = WorkspaceAdmin)
        \<and> r \<in> {WorkspaceAdmin, Editor, Reviewer, Approver, Viewer}
        \<and> expected = (case dict_get (memberships (tables s)) (tenant_id p, w, u) of None \<Rightarrow> 0 | Some y \<Rightarrow> row_version y)
        \<and> memberships (tables t) = dict_set (tenant_id p, w, u)
            \<lparr>row_role = r, row_state = ''active'', row_version = expected + 1, row_updated_at = now\<rparr> (memberships (tables s)))
    \<and> x = Inr (expected + 1)
    \<and> (auth_step cfg c s t' \<and> memberships (tables t') \<noteq> memberships (tables s)
        \<longrightarrow> (\<exists>p w u r expected trace pv x. c = tenant_id p \<and> set_membership cfg p w u r expected trace pv s = (x, t')))"
proof -
  obtain v where x: "x = Inr v"
    using assms set_membership_error [of cfg p w u r expected trace pv s _ t] by (cases x) auto
  show ?thesis
  proof (rule set_membership_effect [OF assms(1) [unfolded x]])
    fix ws now
    assume ws: "lookup_workspace (tables s) (tenant_id p) w = Some ws"
      and active: "assert_organization_active (tables s) p (Some ws) = Inr ()"
      and may: "may_assign (role_binding_of (tables s) p ws) r"
      and version: "role_version (dict_get (memberships (tables s)) (tenant_id p, w, u)) = expected" "v = expected + 1"
      and t: "tables t = put_membership (tenant_id p) w u (member_row r v now) now (tables s)"
    obtain b where b: "role_binding_of (tables s) p ws = Some b"
      "bound_role b \<in> {PersonalOwner, OrganizationAdmin, WorkspaceAdmin}"
      "r \<in> WORKSPACE_ROLES" "\<not> (bound_role b = WorkspaceAdmin \<and> r = WorkspaceAdmin)"
      using may by (rule may_assignD)
    have "memberships (tables t) = dict_set (tenant_id p, w, u)
        \<lparr>row_role = r, row_state = ''active'', row_version = expected + 1, row_updated_at = now\<rparr> (memberships (tables s))"
      using t version by (simp add: put_membership_def member_row_def)
    moreover have "expected = (case dict_get (memberships (tables s)) (tenant_id p, w, u) of None \<Rightarrow> 0 | Some y \<Rightarrow> row_version y)"
      using version(1) by (simp add: role_version_def)
    ultimately show ?thesis
      using ws x version b(2-4) active_not_suspended [OF active] role_binding_holds [OF b(1)] only_set_membership
      unfolding lookup_workspace_Some WORKSPACE_ROLES_def by blast
  qed
qed

theorem memberships_change_by_authority_witness:
  "\<exists>ws b. dict_get (workspaces (tables auth_demo_created)) ''w1'' = Some ws \<and> holds_role (tables auth_demo_created) owner ws b
    \<and> b \<in> {PersonalOwner, OrganizationAdmin, WorkspaceAdmin}"
proof -
  have "memberships (tables auth_demo_staffed) \<noteq> memberships (tables auth_demo_created)"
    by (simp add: auth_demo_staffed_eq auth_demo_created_eq empty_tables_def)
  then show ?thesis
    using memberships_change_by_authority [OF auth_demo_set_membership] by blast
qed

text \<open>
  A tenant role appears or changes only on behalf of its tenant: either by a person who holds an
  active tenant role, with the next version, or for the owner of a workspace that the same call
  creates, where the owner had none.
\<close>

theorem tenant_roles_change_by_authority:
  assumes "auth_step cfg c s t"
    and new: "dict_get (tenant_roles (tables t)) (tn, u) = Some row"
    and old: "dict_get (tenant_roles (tables s)) (tn, u) \<noteq> Some row"
  shows "c = tn
    \<and> ((\<exists>p x. tenant_id p = tn \<and> active_tenant_role (tables s) p = Some x \<and> row_role x \<in> TENANT_ROLES
          \<and> row_version row = role_version (dict_get (tenant_roles (tables s)) (tn, u)) + 1)
       \<or> dict_get (tenant_roles (tables s)) (tn, u) = None \<and> row_version row = 1
          \<and> (\<exists>w. dict_get (workspaces (tables s)) w = None \<and> has_workspace (tables t) tn w))"
  using assms(1)
proof (cases rule: auth_step_roles)
  case same
  then show ?thesis using new old by (simp add: roles_same_def)
next
  case (member p w u' r expected trace pv v)
  show ?thesis
    by (rule set_membership_effect [OF member(2)]) (use new old in \<open>simp add: put_membership_def\<close>)
next
  case (tenant p u' r expected trace pv v)
  show ?thesis
  proof (rule set_tenant_role_effect [OF tenant(2)])
    fix actor q now
    assume actor: "active_tenant_role (tables s) p = Some actor" "row_role actor \<in> TENANT_ROLES"
      and version: "role_version (dict_get (tenant_roles (tables s)) (tenant_id p, u')) = expected"
        "v = expected + 1"
      and t: "tables t = (tables s)\<lparr>tenant_roles := dict_set (tenant_id p, u')
        \<lparr>row_role = q, row_state = (if r \<noteq> None then ''active'' else ''revoked''), row_version = v,
         row_updated_at = now\<rparr> (tenant_roles (tables s))\<rparr>"
    have "tn = tenant_id p" "u = u'" "row_version row = v"
      using new old unfolding t by (auto split: if_splits)
    then show ?thesis
      using actor version tenant(1) by blast
  qed
next
  case (created w owner r kind area cost now)
  show ?thesis
  proof (rule bootstrap_tables_InrE [OF created(2)])
    assume t: "tables t = (tables s)\<lparr>workspaces := dict_set w (new_workspace c w kind area cost now) (workspaces (tables s)),
       tenant_roles := insert_or_ignore (c, owner)
         \<lparr>row_role = r, row_state = ''active'', row_version = 1, row_updated_at = now\<rparr> (tenant_roles (tables s)),
       tenant_policies := insert_or_ignore c \<lparr>pol_version = 1, pol_updated_at = now\<rparr> (tenant_policies (tables s)),
       workspace_policies := dict_set (c, w) \<lparr>pol_version = 1, pol_updated_at = now\<rparr>
         (workspace_policies (tables s))\<rparr>"
    have "tn = c" "dict_get (tenant_roles (tables s)) (tn, u) = None" "row_version row = 1"
      using new old unfolding t by (auto split: if_splits option.splits)
    moreover have "has_workspace (tables t) c w"
      unfolding t by (simp add: has_workspace_def new_workspace_def)
    ultimately show ?thesis
      using created(1) by blast
  qed
qed

theorem tenant_roles_change_by_authority_witness:
  "dict_get (tenant_roles (tables empty_repository)) (''t1'', ''o1'') = None
    \<and> (\<exists>w. has_workspace (tables auth_demo_created) ''t1'' w)"
proof -
  have step: "auth_step auth_demo_service ''t1'' empty_repository auth_demo_created"
    unfolding auth_demo_created_def by (rule step_bootstrap_workspace) (rule prod.collapse [symmetric])
  have new: "dict_get (tenant_roles (tables auth_demo_created)) (''t1'', ''o1'') = Some (member_row OrganizationAdmin 1 0)"
    by (simp add: auth_demo_created_eq)
  have old: "dict_get (tenant_roles (tables empty_repository)) (''t1'', ''o1'') = None"
    by (simp add: empty_repository_def empty_tables_def)
  then have "dict_get (tenant_roles (tables empty_repository)) (''t1'', ''o1'')
      \<noteq> Some (member_row OrganizationAdmin 1 0)"
    by simp
  moreover have "active_tenant_role (tables empty_repository) p = None" for p
    by (simp add: active_tenant_role_def active_row_def empty_repository_def empty_tables_def)
  ultimately show ?thesis
    using tenant_roles_change_by_authority [OF step new] old by auto
qed

section \<open>Access to evidence\<close>

text \<open>The outcome of an evaluation, said without its loop.\<close>

definition must_block :: "(evidence_dependency \<Rightarrow> bool) \<Rightarrow> evidence_dependency list \<Rightarrow> bool" where
  "must_block opn ds \<longleftrightarrow> (\<exists>e \<in> set ds. \<not> opn e \<and> (decisive e \<or> \<not> safe_separation e))"

definition evidence_state ::
  "bool \<Rightarrow> (evidence_dependency \<Rightarrow> bool) \<Rightarrow> evidence_dependency list \<Rightarrow> access_state" where
  "evidence_state may opn ds =
    (if \<not> may \<or> must_block opn ds then AccessBlocked
     else if list_all opn ds then Available else PartiallyRedacted)"

lemma sift_references:
  "allowed_references (sift_dependencies f ds v)
    = allowed_references v @ map reference_id (filter (\<lambda>e. f (source_version_id e)) ds)"
  "masked_references (sift_dependencies f ds v)
    = masked_references v @ map reference_id (filter (\<lambda>e. \<not> f (source_version_id e)) ds)"
  "allowed_segments (sift_dependencies f ds v)
    = allowed_segments v @ concat (map segment_ids (filter (\<lambda>e. f (source_version_id e)) ds))"
  by (induction ds arbitrary: v) (simp_all add: Let_def)

lemma sift_state:
  "view_state (sift_dependencies f ds v) =
    (if view_state v = AccessBlocked \<or> must_block (\<lambda>e. f (source_version_id e)) ds then AccessBlocked
     else if list_all (\<lambda>e. f (source_version_id e)) ds then view_state v else PartiallyRedacted)"
  by (induction ds arbitrary: v) (auto simp: Let_def must_block_def)

lemma action_grant_permitted:
  assumes "lookup_workspace db (tenant_id p) w = Some r"
  shows "action_grant cfg db p r (role_binding_of db p r) a extra \<noteq> None \<longleftrightarrow> permitted db p w a extra"
  using action_grant_iff [of cfg db p r a extra] assms by (simp add: permitted_def)

text \<open>
  C13: access to a historical result follows the rights of the moment, not those of its making. The
  decision is blocked for who may not act now, and where a closed source is decisive or cannot be
  separated; it is partial where closed sources can be left out, and full where none is closed. The
  references it allows are those of the open sources, the references it masks are the others, and
  the decision is stored and audited before it is given.
\<close>

theorem access_follows_current_rights:
  assumes "evaluate_historical_access cfg p rid a trace pv s = (Inr x, t)"
  shows "\<exists>d. read_descriptor (tables s) (tenant_id p) (dec_workspace_id x) rid = Some d
    \<and> (let w = dec_workspace_id x; may = permitted (tables s) p w (access_actions a) [];
           opn = (\<lambda>e. source_open (tables s) (tenant_id p) w (user_id p) (source_version_id e)) in
       access_state x = evidence_state may opn (dependencies d)
       \<and> allowed_reference_ids x
           = (if may then sort (map reference_id (filter opn (dependencies d))) else [])
       \<and> masked_reference_ids x
           = sort (if may then map reference_id (filter (\<lambda>e. \<not> opn e) (dependencies d)) else evidence_reference_ids d))
    \<and> dict_get (access_decisions (tables t)) (decision_id x) = Some x
    \<and> (\<exists>e. audit_log t = audit_log s @ [e] \<and> target_id e = decision_id x)"
  using assms
proof (rule evaluate_historical_access_effect)
  fix d w i now j n
  define grant where "grant = action_grant cfg (tables s) p w (role_binding_of (tables s) p w) (access_actions a) []"
  assume d: "read_descriptor (tables s) (tenant_id p) (res_workspace_id d) rid = Some d"
    and w: "lookup_workspace (tables s) (tenant_id p) (res_workspace_id d) = Some w"
    and x: "x = decide_access i now (tables s) p d w (role_binding_of (tables s) p w) a
       (evidence_view_of (tables s) p d
         (action_grant cfg (tables s) p w (role_binding_of (tables s) p w) (access_actions a) []))"
    and t: "tables t = (tables s)\<lparr>access_decisions := dict_set i x (access_decisions (tables s))\<rparr>"
    and log: "audit_log t = audit_log s @ [new_draft j n p trace pv (decision_audit x)]"
  have may: "grant \<noteq> None \<longleftrightarrow> permitted (tables s) p (res_workspace_id d) (access_actions a) []"
    unfolding grant_def by (rule action_grant_permitted [OF w])
  have stored: "dict_get (access_decisions (tables t)) (decision_id x) = Some x"
    and audited: "target_id (new_draft j n p trace pv (decision_audit x)) = decision_id x"
    by (simp_all add: t) (simp_all add: x new_draft_def decision_audit_def)
  note x = x [folded grant_def]
  show ?thesis
  proof (cases "grant = None")
    case True
    then show ?thesis
      using d may stored audited log
      by (intro exI [of _ d]) (simp add: x evidence_view_of_def blocked_view_def evidence_state_def)
  next
    case False
    then show ?thesis
      using d may stored audited log
      by (intro exI [of _ d])
        (auto simp: x evidence_view_of_def available_view_def evidence_state_def sift_references sift_state)
  qed
qed

theorem access_follows_current_rights_witness:
  "evaluate_historical_access auth_demo_service editor ''r1'' RerunAccess ''x4'' ''v1'' auth_demo_restricted
      = (Inr auth_demo_decision, auth_demo_evaluated_state)
    \<and> access_state auth_demo_decision = PartiallyRedacted
    \<and> (\<exists>d. read_descriptor (tables auth_demo_restricted) ''t1'' ''w1'' ''r1'' = Some d)"
proof -
  have "dec_workspace_id auth_demo_decision = ''w1''" "access_state auth_demo_decision = PartiallyRedacted"
    by (simp_all add: auth_demo_decision_def)
  then show ?thesis
    using access_follows_current_rights [OF auth_demo_evaluate] auth_demo_evaluate by auto
qed

section \<open>Reruns, records and tenants\<close>

text \<open>
  In every reachable state, also when the access of the person changes between the decision and
  the admission, an admitted rerun rests on a stored decision for the same person, result and
  workspace that is not blocked; it reads only sources of references that decision allowed, and has
  the budget and the data area of its workspace.
\<close>

theorem reruns_rest_on_decisions:
  assumes "reachable auth_start (auth_step cfg) s"
    and "dict_get (rerun_requests (tables s)) i = Some y"
  shows "\<exists>x w. dict_get (access_decisions (tables s)) (rerun_decision_id y) = Some x
    \<and> access_state x \<noteq> AccessBlocked \<and> dec_action x = RerunAccess
    \<and> dec_actor_id x = rerun_actor_id y \<and> dec_resource_id x = rerun_result_id y
    \<and> lookup_workspace (tables s) (rerun_tenant_id y) (dec_workspace_id x) = Some w
    \<and> snap_cost_limit_cents (rerun_snapshot y) = cost_limit_cents w
    \<and> snap_data_area (rerun_snapshot y) = data_area w
    \<and> set (snap_source_version_ids (rerun_snapshot y)) \<subseteq>
        {dep_source_version_id z | ref z. dict_get (result_dependencies (tables s)) (rerun_result_id y, ref) = Some z
           \<and> ref \<in> set (allowed_reference_ids x)}"
proof -
  have "tables_ok (tables s)"
    using auth.reachable_inv [OF assms(1)] by (simp add: auth_inv_def)
  then have "rerun_ok (tables s) y"
    using assms(2) unfolding tables_ok_def reruns_ok_def by blast
  then obtain x w where x: "dict_get (access_decisions (tables s)) (rerun_decision_id y) = Some x"
    and w: "dict_get (workspaces (tables s)) (rerun_workspace_id y) = Some w"
    and fits: "rerun_fits (result_dependencies (tables s)) y x w"
    unfolding rerun_ok_def by blast
  have "set (snap_source_version_ids (rerun_snapshot y)) \<subseteq>
        {dep_source_version_id z | ref z. dict_get (result_dependencies (tables s)) (rerun_result_id y, ref) = Some z
           \<and> ref \<in> set (allowed_reference_ids x)}"
    using fits unfolding rerun_fits_def subset_iff mem_Collect_eq by metis
  with x w fits show ?thesis
    by (intro exI [of _ x] exI [of _ w]) (simp add: rerun_fits_def lookup_workspace_Some)
qed

lemma auth_demo_rerun_rows: "\<exists>i y. dict_get (rerun_requests (tables auth_demo_rerun)) i = Some y"
proof -
  obtain r where call: "authorize_rerun auth_demo_service editor ''r1'' ''x4'' ''v1'' auth_demo_restricted = (Inr r, auth_demo_rerun)"
    using auth_demo_authorize_rerun by blast
  then show ?thesis
  proof (cases rule: authorize_rerun_cases)
    case (refused e)
    then show ?thesis by simp
  next
    case (decided x u)
    show ?thesis
      by (rule admit_rerun_effect [OF decided(2)]) auto
  qed
qed

theorem reruns_rest_on_decisions_witness:
  "\<exists>i y x. dict_get (rerun_requests (tables auth_demo_rerun)) i = Some y
    \<and> dict_get (access_decisions (tables auth_demo_rerun)) (rerun_decision_id y) = Some x
    \<and> access_state x \<noteq> AccessBlocked"
  using auth_demo_rerun_rows reruns_rest_on_decisions [OF auth_demo_reachable_rerun] by blast

text \<open>
  C15: isolation of tenants. Whatever calls run on behalf of other tenants, in whatever order and with
  whatever outcome, every row of a tenant in every table stays as it is; and along any run no row
  disappears or moves to another tenant, and its version never goes back.
\<close>

theorem tenants_are_isolated:
  assumes "reachable auth_start (auth_step cfg) s" and "runs (auth_step cfg) s cs t"
    and "row_at (tables s) k = Some (tn, x)"
  shows "\<exists>y. row_at (tables t) k = Some (tn, y) \<and> row_version_of x \<le> row_version_of y
    \<and> (tn \<in> set cs \<or> y = x)"
proof -
  have ok: "auth_inv s"
    by (rule auth.reachable_inv [OF assms(1)])
  obtain y where y: "row_at (tables t) k = Some (tn, y)"
    using auth_rows.persistence [OF assms(2) ok assms(3)] by (metis prod.collapse fst_conv)
  have "row_version_of x \<le> row_version_of y"
    using auth_rows.runs_version_mono [OF assms(2) ok assms(3) y] by simp
  moreover have "y = x" if "tn \<notin> set cs"
    using auth_rows.isolation [OF assms(2) ok assms(3)] that y by simp
  ultimately show ?thesis using y by blast
qed

lemma auth_demo_other_tenant: "\<exists>t. auth_step auth_demo_service ''t2'' auth_demo_created t"
  using step_bootstrap_workspace [of "''t2''" "''w2''" "''o2''" PersonalOwner "''personal''" "''cloud''" 1 1
      auth_demo_created] surjective_pairing by metis

theorem tenants_are_isolated_witness:
  "\<exists>t y. runs (auth_step auth_demo_service) auth_demo_created [''t2''] t
    \<and> row_at (tables t) (TenantRoleKey ''t1'' ''o1'') = Some (''t1'', y)
    \<and> y = RoleRow (member_row OrganizationAdmin 1 0)"
proof -
  obtain t where run: "runs (auth_step auth_demo_service) auth_demo_created [''t2''] t"
    using auth_demo_other_tenant by (auto intro: runs_more runs_none)
  have row: "row_at (tables auth_demo_created) (TenantRoleKey ''t1'' ''o1'')
      = Some (''t1'', RoleRow (member_row OrganizationAdmin 1 0))"
    by (simp add: auth_demo_created_eq)
  show ?thesis
    using tenants_are_isolated [OF auth_demo_reachable_created run row] run by auto
qed

text \<open>
  What was recorded is final: a registered result with its dependencies, a decision and an
  admitted rerun are the same rows after any run, also of their own tenant.
\<close>

theorem records_are_final:
  assumes "runs (auth_step cfg) s cs t" and "row_at (tables s) k = Some x" and "recorded k"
  shows "row_at (tables t) k = Some x"
  using assms by (rule recorded_kept)

theorem records_are_final_witness:
  "row_at (tables auth_demo_restricted) (ResultKey ''r1'') = Some (''t1'', ResultRow (result_row_of auth_demo_result 3))"
proof -
  have run: "runs (auth_step auth_demo_service) auth_demo_registered [tenant_id owner] auth_demo_restricted"
    using step_set_source_access [OF auth_demo_restrict] by (auto intro: runs_more runs_none)
  have row: "row_at (tables auth_demo_registered) (ResultKey ''r1'') = Some (''t1'', ResultRow (result_row_of auth_demo_result 3))"
    by (simp add: auth_demo_registered_eq) (simp add: result_row_of_def auth_demo_result_def)
  show ?thesis
    by (rule records_are_final [OF run row]) simp
qed

text \<open>
  A result that was registered reads back as it was given, with its dependencies in the order of
  their references.
\<close>

theorem registered_result_reads_back:
  assumes "reachable auth_start (auth_step cfg) s"
    and "register_historical_result cfg p d trace pv s = (Inr (), t)"
  shows "read_descriptor (tables t) (res_tenant_id d) (res_workspace_id d) (result_id d)
    = Some (d\<lparr>dependencies := sort_key reference_id (dependencies d)\<rparr>)"
  using assms(2)
proof (rule register_historical_result_effect)
  fix now
  assume insert: "insert_descriptor d now (tables s) = Inr (tables t)"
    and valid: "descriptor_valid d" and tenant: "res_tenant_id d = tenant_id p"
    and fresh: "dict_get (historical_results (tables s)) (result_id d) = None"
  have ok: "results_ok (tables s)"
    using auth.reachable_inv [OF assms(1)] by (simp add: auth_inv_def tables_ok_def)
  have none: "filter (\<lambda>((r, _), _). r = result_id d) (result_dependencies (tables s)) = []"
  proof -
    have "r \<noteq> result_id d" if "((r, ref), y) \<in> set (result_dependencies (tables s))" for r ref y
    proof -
      have "dict_get (result_dependencies (tables s)) (r, ref) = Some y"
        using ok that by (simp add: results_ok_def dict_get_mem)
      then show ?thesis
        using ok fresh unfolding results_ok_def by force
    qed
    then show ?thesis by (auto simp: filter_empty_conv)
  qed
  show ?thesis
  proof (rule insert_descriptor_InrE [OF insert])
    assume t: "tables t = (tables s)\<lparr>
       historical_results := dict_set (result_id d) (result_row_of d now) (historical_results (tables s)),
       result_dependencies := result_dependencies (tables s)
         @ map (\<lambda>e. ((result_id d, reference_id e), dependency_row_of e)) (dependencies d)\<rparr>"
    have same: "(\<lambda>e. \<lparr>reference_id = reference_id e, source_version_id = source_version_id e,
        segment_ids = segment_ids e, decisive = decisive e, safe_separation = safe_separation e\<rparr>) = (\<lambda>e. e)"
      by (rule ext) simp
    have "read_dependencies (tables t) (result_id d) = sort_key reference_id (dependencies d)"
      unfolding read_dependencies_def t
      by (simp add: none comp_def dependency_row_of_def filter_map same del: evidence_dependency.surjective)
    then show ?thesis
      by (simp add: read_descriptor_def) (simp add: t result_row_of_def)
  qed
qed

theorem registered_result_reads_back_witness:
  "read_descriptor (tables auth_demo_registered) ''t1'' ''w1'' ''r1''
    = Some (auth_demo_result\<lparr>dependencies := sort_key reference_id (dependencies auth_demo_result)\<rparr>)"
  using registered_result_reads_back [OF auth_demo_reachable_staffed auth_demo_register]
  by (simp add: auth_demo_result_def)

section \<open>Policies and the kinds of tenants\<close>

text \<open>
  A permission policy changes only for a person the identity service vouched for, who then
  spent a step-up made for policy changes on exactly this target, and who may manage that scope: for
  the organization only by a tenant role. The expected version was the current one, the rule is
  stored as given under the next version, and no other rule changes.
\<close>

theorem policy_change_needs_step_up:
  assumes "set_permission_policy cfg tok su scope w perm rule expected trace pv s = (Inr v, t)"
  shows "\<exists>ids p ws. identity cfg = Some ids
    \<and> validate_access ids (identity_calls s) tok trace pv = Inr p
    \<and> consume_step_up ids (Suc (identity_calls s)) su tok policy_change_group
        (if scope = ''tenant'' then tenant_id p else w) pv trace = Inr ()
    \<and> lookup_workspace (tables s) (tenant_id p) w = Some ws
    \<and> policy_manager scope (role_binding_of (tables s) p ws)
    \<and> version_of (policy_header scope (tenant_id p) w (tables s)) = expected
    \<and> v = expected + 1 \<and> version_of (policy_header scope (tenant_id p) w (tables t)) = v
    \<and> policy_rule scope' t' w' q (tables t) =
        (if (scope' = ''tenant'') = (scope = ''tenant'') \<and> t' = tenant_id p \<and> q = perm
            \<and> (scope = ''tenant'' \<or> w' = w)
         then Some rule else policy_rule scope' t' w' q (tables s))"
  using assms
proof (rule set_permission_policy_effect)
  fix ids p ws target now
  assume who: "identity cfg = Some ids" "validate_access ids (identity_calls s) tok trace pv = Inr p"
      "lookup_workspace (tables s) (tenant_id p) w = Some ws"
      "policy_manager scope (role_binding_of (tables s) p ws)"
    and su: "consume_step_up ids (Suc (identity_calls s)) su tok policy_change_group target pv trace = Inr ()"
      "target = (if scope = ''tenant'' then tenant_id p else w)"
    and version: "version_of (policy_header scope (tenant_id p) w (tables s)) = expected" "1 \<le> expected"
      "v = expected + 1"
    and t: "tables t = store_rule scope (tenant_id p) w perm rule v now (tables s)"
  have header: "policy_header scope (tenant_id p) w (tables s) \<noteq> None"
    using version by (intro version_of_header) simp
  have stored: "version_of (policy_header scope (tenant_id p) w (tables t)) = v
    \<and> policy_rule scope' t' w' q (tables t) =
        (if (scope' = ''tenant'') = (scope = ''tenant'') \<and> t' = tenant_id p \<and> q = perm
            \<and> (scope = ''tenant'' \<or> w' = w)
         then Some rule else policy_rule scope' t' w' q (tables s))"
  proof (cases "scope = ''tenant''")
    case True
    then have "dict_get (tenant_policies (tables s)) (tenant_id p) \<noteq> None"
      using header by (simp add: policy_header_def)
    then show ?thesis
      unfolding t True by (subst (1 2) store_tenant_rule) (simp_all add: policy_header_def policy_rule_def version_of_def)
  next
    case False
    then have "dict_get (workspace_policies (tables s)) (tenant_id p, w) \<noteq> None"
      using header by (simp add: policy_header_def)
    then show ?thesis
      unfolding t by (subst (1 2) store_workspace_rule [OF False])
        (simp_all add: False policy_header_def policy_rule_def version_of_def)
  qed
  show ?thesis
    by (intro exI [of _ ids] exI [of _ p] exI [of _ ws]) (use who su version stored in simp)
qed

lemma auth_demo_identity: "identity auth_demo_service = Some
    \<lparr>validate_access = (\<lambda>_ _ _ _. Inr owner), consume_step_up = (\<lambda>_ _ _ _ _ _ _. Inr ())\<rparr>"
  by (simp add: auth_demo_service_def)

lemma auth_demo_policy_change:
  "set_permission_policy auth_demo_service ''token'' None ''tenant'' ''w1'' ExternalLlm
    \<lparr>rule_effect = DenyEffect, rule_locked = True\<rparr> 1 ''x1'' ''v1'' auth_demo_created
    = (Inr 2, snd (set_permission_policy auth_demo_service ''token'' None ''tenant'' ''w1'' ExternalLlm
        \<lparr>rule_effect = DenyEffect, rule_locked = True\<rparr> 1 ''x1'' ''v1'' auth_demo_created))"
proof -
  have names: "safe_id ''authorization.policy.changed''" "safe_id ''tenant_policy''"
    by code_simp+
  show ?thesis
    by (simp add: set_permission_policy_def change_policy_def policy_guard_def ask_identity_def auth_calls
        auth_demo_created_eq empty_repository_def empty_tables_def auth_demo_rows policy_manager_def policy_header_def
        version_of_def names auth_demo_identity store_rule_def policy_rule_def role_binding_of_def)
qed

theorem policy_change_needs_step_up_witness:
  "\<exists>ws. lookup_workspace (tables auth_demo_created) ''t1'' ''w1'' = Some ws
    \<and> policy_manager ''tenant'' (role_binding_of (tables auth_demo_created) owner ws)"
  using policy_change_needs_step_up [OF auth_demo_policy_change, where scope' = "''tenant''" and t' = "''t1''"
      and w' = "''w1''" and q = ExternalLlm]
  by (auto simp: auth_demo_identity)

text \<open>
  C32: in every reachable state the tables are typed. Any two workspaces of a tenant are of one kind.
  Every tenant role, active or not, is the one of a person in a tenant that has workspaces: personal
  owner where they are personal, organization administrator where they are of an organization.
  Every membership holds one of the five workspace roles, in a workspace of its tenant. And so an
  active tenant role binds in every workspace of its tenant, as tenant role.
\<close>

theorem tenant_roles_fit_their_tenant:
  assumes "reachable auth_start (auth_step cfg) s"
  shows "(\<forall>w r w' r'. dict_get (workspaces (tables s)) w = Some r \<longrightarrow> dict_get (workspaces (tables s)) w' = Some r'
        \<longrightarrow> ws_tenant_id r = ws_tenant_id r' \<longrightarrow> workspace_kind r = workspace_kind r')
    \<and> (\<forall>tn u x. dict_get (tenant_roles (tables s)) (tn, u) = Some x \<longrightarrow>
        (\<exists>w r. dict_get (workspaces (tables s)) w = Some r \<and> ws_tenant_id r = tn)
        \<and> (\<forall>w r. dict_get (workspaces (tables s)) w = Some r \<longrightarrow> ws_tenant_id r = tn \<longrightarrow>
            row_role x = PersonalOwner \<and> workspace_kind r = ''personal''
            \<or> row_role x = OrganizationAdmin \<and> workspace_kind r = ''organization''))
    \<and> (\<forall>tn w u x. dict_get (memberships (tables s)) (tn, w, u) = Some x \<longrightarrow>
        row_role x \<in> {WorkspaceAdmin, Editor, Reviewer, Approver, Viewer}
        \<and> (\<exists>r. dict_get (workspaces (tables s)) w = Some r \<and> ws_tenant_id r = tn))
    \<and> (\<forall>p x w r. dict_get (tenant_roles (tables s)) (tenant_id p, user_id p) = Some x \<longrightarrow> row_state x = ''active'' \<longrightarrow>
        dict_get (workspaces (tables s)) w = Some r \<longrightarrow> ws_tenant_id r = tenant_id p \<longrightarrow>
        role_binding_of (tables s) p r
          = Some \<lparr>bound_role = row_role x, bound_scope = TenantScope, bound_version = row_version x\<rparr>)"
proof -
  have ok: "one_kind (tables s)" "roles_ok (tables s)" "members_ok (tables s)"
    using auth.reachable_inv [OF assms(1)] by (simp_all add: auth_inv_def tables_ok_def)
  have kind: "kind_of_role (row_role x) = Some (workspace_kind r)"
    if x: "dict_get (tenant_roles (tables s)) (tn, u) = Some x"
      and r: "dict_get (workspaces (tables s)) w = Some r" "ws_tenant_id r = tn" for tn u x w r
  proof -
    obtain k where k: "kind_of_role (row_role x) = Some k" "has_kind (tables s) tn k"
      using ok(2) x unfolding roles_ok_def by blast
    then show ?thesis using ok(1) r unfolding one_kind_def has_kind_def by metis
  qed
  have "\<exists>w r. dict_get (workspaces (tables s)) w = Some r \<and> ws_tenant_id r = tn"
    if x: "dict_get (tenant_roles (tables s)) (tn, u) = Some x" for tn u x
    using ok(2) x unfolding roles_ok_def has_kind_def by blast
  moreover have "row_role x = PersonalOwner \<and> workspace_kind r = ''personal''
      \<or> row_role x = OrganizationAdmin \<and> workspace_kind r = ''organization''"
    if "dict_get (tenant_roles (tables s)) (tn, u) = Some x" "dict_get (workspaces (tables s)) w = Some r" "ws_tenant_id r = tn"
    for tn u x w r
    using kind [OF that] by (simp add: kind_of_role_def split: if_splits)
  moreover have "row_role x \<in> {WorkspaceAdmin, Editor, Reviewer, Approver, Viewer}
      \<and> (\<exists>r. dict_get (workspaces (tables s)) w = Some r \<and> ws_tenant_id r = tn)"
    if "dict_get (memberships (tables s)) (tn, w, u) = Some x" for tn w u x
    using ok(3) that unfolding members_ok_def WORKSPACE_ROLES_def has_workspace_def by blast
  moreover have "role_binding_of (tables s) p r
      = Some \<lparr>bound_role = row_role x, bound_scope = TenantScope, bound_version = row_version x\<rparr>"
    if x: "dict_get (tenant_roles (tables s)) (tenant_id p, user_id p) = Some x" "row_state x = ''active''"
      and r: "dict_get (workspaces (tables s)) w = Some r" "ws_tenant_id r = tenant_id p" for p x w r
  proof -
    have "active_tenant_role (tables s) p = Some x" using x by (simp add: active_tenant_role_def active_row_Some)
    then show ?thesis using kind [OF x(1) r] by (simp add: role_binding_of_def)
  qed
  ultimately show ?thesis using ok(1) unfolding one_kind_def by blast
qed

theorem tenant_roles_fit_their_tenant_witness:
  "\<exists>r. dict_get (workspaces (tables auth_demo_created)) ''w1'' = Some r \<and> workspace_kind r = ''organization''
    \<and> role_binding_of (tables auth_demo_created) owner r
      = Some \<lparr>bound_role = OrganizationAdmin, bound_scope = TenantScope, bound_version = 1\<rparr>"
proof -
  have role: "dict_get (tenant_roles (tables auth_demo_created)) (tenant_id owner, user_id owner) = Some (member_row OrganizationAdmin 1 0)"
    by (simp add: auth_demo_created_eq)
  obtain r where r: "dict_get (workspaces (tables auth_demo_created)) ''w1'' = Some r" "ws_tenant_id r = tenant_id owner"
    by (simp add: auth_demo_created_eq new_workspace_def)
  note typed = tenant_roles_fit_their_tenant [OF auth_demo_reachable_created]
  have "workspace_kind r = ''organization''"
    using typed [THEN conjunct2, THEN conjunct1, rule_format, OF role, THEN conjunct2, rule_format, OF r]
    by (simp add: member_row_def)
  moreover have "role_binding_of (tables auth_demo_created) owner r
      = Some \<lparr>bound_role = OrganizationAdmin, bound_scope = TenantScope, bound_version = 1\<rparr>"
    using typed [THEN conjunct2, THEN conjunct2, THEN conjunct2, rule_format, OF role _ r] by (simp add: member_row_def)
  ultimately show ?thesis using r by blast
qed

end
