(* ===== verification/Object_Queue.thy ===== *)
theory Object_Queue
  imports Complex_Main Contracts Json "HOL-Library.Product_Lexorder"
begin

text \<open>
  Model of \<open>services/api/src/daon_user_api/object_queue.py\<close>: the keys of stored objects, the retry
  policy, the durable queue of object jobs with its leases, attempts and dead letters, the
  coordinator that submits objects and the worker that promotes them. The queue lives in the tables
  of \<open>services/api/migrations/versions/0002_object_queue_worker.py\<close>, whose row security confines
  every statement to the tenant and workspace of its transaction: a table is a dictionary from scope
  and primary key to the row. Seconds are rational numbers where the source has floating point;
  times are microseconds of the epoch. Text that reaches the database has no NUL character.
\<close>

section \<open>Errors and contexts\<close>

datatype queue_error =
    ObjectQueueError (code: string) (retryable: bool)
  | PythonError string
  | Raised string

abbreviation queue_error :: "string \<Rightarrow> queue_error" where
  "queue_error c \<equiv> ObjectQueueError c False"

record cloud_context =
  tenant_id :: string
  workspace_id :: string
  actor_id :: string
  capability :: string

type_synonym scope = "string \<times> string"

definition scope_of :: "cloud_context \<Rightarrow> scope" where
  "scope_of c = (tenant_id c, workspace_id c)"

definition context_checked :: "cloud_context \<Rightarrow> bool" where
  "context_checked c \<longleftrightarrow> list_all safe_id [tenant_id c, workspace_id c, actor_id c, capability c]"

text \<open>How the database refuses: the pool gives no connection, or a statement or the commit fails.\<close>

datatype db_failure = PoolTimedOut | SqlState "string option"

definition classify_database_error :: "string option \<Rightarrow> queue_error" where
  "classify_database_error st =
    (if st = Some ''57014'' then ObjectQueueError ''DATABASE_TIMEOUT'' True
     else if st = Some ''40P01'' \<or> st = Some ''40001''
     then ObjectQueueError ''DATABASE_RETRYABLE_CONFLICT'' True
     else if (case st of None \<Rightarrow> False | Some x \<Rightarrow> take 2 x = ''23'')
     then ObjectQueueError ''DATABASE_CONSTRAINT_VIOLATION'' False
     else if st = Some ''42501'' \<or> st = Some ''55000''
     then ObjectQueueError ''DATABASE_ACCESS_DENIED'' False
     else ObjectQueueError ''DATABASE_UNAVAILABLE'' True)"

definition database_error :: "db_failure \<Rightarrow> queue_error" where
  "database_error f = (case f of PoolTimedOut \<Rightarrow> ObjectQueueError ''DATABASE_UNAVAILABLE'' True
     | SqlState st \<Rightarrow> classify_database_error st)"

definition unique_violation :: queue_error where
  "unique_violation = classify_database_error (Some ''23505'')"

section \<open>Object keys\<close>

definition allowed_areas :: "string list" where
  "allowed_areas = [''source'', ''output'']"

text \<open>\<open>[0-9a-f]{32}\<close> and \<open>[A-Za-z0-9][A-Za-z0-9!#$&^_.+-/]{0,254}\<close>.\<close>

definition opaque_id :: "string \<Rightarrow> bool" where
  "opaque_id s \<longleftrightarrow> length s = 32 \<and> list_all hex_char s"

definition content_type_ok :: "string \<Rightarrow> bool" where
  "content_type_ok s = (case s of [] \<Rightarrow> False
     | c # cs \<Rightarrow> ascii_alnum c \<and> length cs \<le> 254
         \<and> list_all (\<lambda>x. ascii_alnum x \<or> x \<in> set ''!#$&^_.+-/'') cs)"

definition key_invalid :: queue_error where
  "key_invalid = queue_error ''OBJECT_KEY_INVALID''"

definition key_parts_ok :: "cloud_context \<Rightarrow> string \<Rightarrow> string \<Rightarrow> bool" where
  "key_parts_ok c area oid \<longleftrightarrow>
    area \<in> set allowed_areas \<and> opaque_id oid \<and> safe_id (tenant_id c) \<and> safe_id (workspace_id c)"

definition final_key :: "cloud_context \<Rightarrow> string \<Rightarrow> string \<Rightarrow> queue_error + string" where
  "final_key c area oid =
    (if key_parts_ok c area oid
     then Inr (tenant_id c @ ''/'' @ workspace_id c @ ''/'' @ area @ ''/'' @ oid)
     else Inl key_invalid)"

definition staging_key_of :: "cloud_context \<Rightarrow> string \<Rightarrow> string \<Rightarrow> queue_error + string" where
  "staging_key_of c area oid =
    (if key_parts_ok c area oid
     then Inr (''_staging/'' @ tenant_id c @ ''/'' @ workspace_id c @ ''/'' @ area @ ''/'' @ oid)
     else Inl key_invalid)"

text \<open>\<open>key.rsplit("/", 1)[-1]\<close>.\<close>

definition last_segment :: "string \<Rightarrow> string" where
  "last_segment s = rev (takeWhile (\<lambda>c. c \<noteq> CHR ''/'') (rev s))"

definition plain_ascii :: "string \<Rightarrow> bool" where
  "plain_ascii s \<longleftrightarrow> list_all (\<lambda>c. CHR 0x20 \<le> c \<and> c < CHR 0x80) s"

definition validate_final :: "cloud_context \<Rightarrow> string \<Rightarrow> string \<Rightarrow> queue_error + unit" where
  "validate_final c area key =
    (if \<not> plain_ascii key then Inl key_invalid
     else and_then (final_key c area (last_segment key)) (\<lambda>k.
       if key \<noteq> k then Inl key_invalid else Inr ()))"

definition validate_staging :: "cloud_context \<Rightarrow> string \<Rightarrow> string \<Rightarrow> queue_error + unit" where
  "validate_staging c area key =
    (if \<not> plain_ascii key then Inl key_invalid
     else and_then (staging_key_of c area (last_segment key)) (\<lambda>k.
       if key \<noteq> k then Inl key_invalid else Inr ()))"

section \<open>Retry policy\<close>

record retry_policy =
  policy_max_attempts :: int
  base_seconds :: rat
  max_seconds :: rat
  jitter_ratio :: rat

definition default_policy :: retry_policy where
  "default_policy = \<lparr>policy_max_attempts = 5, base_seconds = 2, max_seconds = 300, jitter_ratio = 1 / 5\<rparr>"

definition policy_checked :: "retry_policy \<Rightarrow> bool" where
  "policy_checked p \<longleftrightarrow> 1 \<le> policy_max_attempts p \<and> policy_max_attempts p \<le> 100
    \<and> base_seconds p > 0 \<and> max_seconds p \<ge> base_seconds p
    \<and> 0 \<le> jitter_ratio p \<and> jitter_ratio p \<le> 1"

text \<open>The power is an integer; it becomes a floating point number only up to 1023 doublings.\<close>

definition delay_seconds :: "retry_policy \<Rightarrow> int \<Rightarrow> rat \<Rightarrow> queue_error + rat" where
  "delay_seconds p n u =
    (if n < 1 \<or> u < 0 \<or> 1 < u then Inl (Raised ''RETRY_POLICY_INPUT_INVALID'')
     else if n > 1024 then Inl (PythonError ''OverflowError'')
     else
       (let bounded = min (max_seconds p) (base_seconds p * 2 ^ nat (n - 1));
            factor = 1 - jitter_ratio p + 2 * jitter_ratio p * u
        in Inr (min (max_seconds p) (bounded * factor))))"

definition exhausted :: "retry_policy \<Rightarrow> int \<Rightarrow> bool" where
  "exhausted p n \<longleftrightarrow> n \<ge> policy_max_attempts p"

text \<open>\<open>timedelta(seconds=x)\<close> in microseconds: rounded half to even.\<close>

definition timedelta_us :: "rat \<Rightarrow> int" where
  "timedelta_us x =
    (let y = x * 1000000; f = floor y; d = y - of_int f in
     if d < 1 / 2 then f else if d > 1 / 2 then f + 1 else if even f then f else f + 1)"

section \<open>Rows\<close>

datatype job_state = Pending | Leased | RetryWait | Completed | DeadLetter

record object_job =
  job_id :: string
  event_id :: string
  object_id :: string
  state :: job_state
  attempt_number :: int
  max_attempts :: int
  next_attempt_at :: int
  lease_owner :: "string option"
  lease_until :: "int option"
  last_safe_error_code :: "string option"
  retry_of_job_id :: "string option"
  job_trace_id :: string
  version :: int
  created_at :: int

record job_row =
  the_job :: object_job
  deduplication_key :: string
  job_created_by :: string
  job_completed_at :: "int option"

datatype object_status = ObjectPending | ObjectCompleted | ObjectFailed

record object_record =
  rec_object_id :: string
  area :: string
  staging_key :: string
  object_key :: string
  digest_sha256 :: string
  byte_size :: int
  content_type :: string
  status :: object_status
  storage_etag :: "string option"
  storage_version_id :: "string option"
  object_version :: int

record object_row =
  the_object :: object_record
  object_created_by :: string
  object_trace_id :: string
  idempotency_key :: string
  request_fingerprint :: string
  object_created_at :: int
  object_completed_at :: "int option"

datatype outbox_status = OutboxPending | OutboxDispatched | OutboxCompleted | OutboxFailed

record outbox_row =
  out_object_id :: string
  out_status :: outbox_status
  out_trace_id :: string
  out_created_at :: int
  out_completed_at :: "int option"

record attempt_row =
  att_worker_id :: string
  att_outcome :: job_state
  att_safe_error_code :: "string option"
  att_trace_id :: string
  started_at :: int
  finished_at :: int

record audit_row =
  aud_workspace_id :: string
  aud_actor_id :: string
  aud_action :: string
  aud_target_type :: string
  aud_target_id :: string
  aud_succeeded :: bool
  aud_trace_id :: string
  aud_metadata :: "(string \<times> string) list"

record queue_tables =
  workspaces :: "scope list"
  objects :: "(scope \<times> string, object_row) dict"
  outbox :: "(scope \<times> string, outbox_row) dict"
  jobs :: "(scope \<times> string, job_row) dict"
  attempts :: "(scope \<times> string \<times> int, attempt_row) dict"
  audit_events :: "(string \<times> string, audit_row) dict"

definition empty_tables :: queue_tables where
  "empty_tables =
    \<lparr>workspaces = [], objects = [], outbox = [], jobs = [], attempts = [], audit_events = []\<rparr>"

record staged_object =
  staged_key :: string
  staged_digest :: string
  staged_size :: int
  staged_type :: string
  staged_etag :: string
  staged_version_id :: "string option"

record stored_object =
  stored_key :: string
  stored_digest :: string
  stored_size :: int
  stored_type :: string
  stored_etag :: string
  stored_version_id :: "string option"

text \<open>
  What the queue is built with. \<open>sha256\<close> is the hexadecimal digest of bytes; \<open>utcnow n\<close> the n-th
  reading of the clock; \<open>id_factory n\<close> the n-th identifier; \<open>database n\<close> tells whether the n-th
  transaction is refused by the database for a reason outside the tables; the storage port answers
  its n-th call, and raises object queue errors only, as the adapter ensures; the enforcer of the
  licence, where there is one, reads the tables and accepts or raises.
\<close>

record queue_config =
  sha256 :: "string \<Rightarrow> string"
  utcnow :: "nat \<Rightarrow> int"
  id_factory :: "nat \<Rightarrow> string"
  database :: "nat \<Rightarrow> db_failure option"
  put_staged :: "nat \<Rightarrow> string \<Rightarrow> string \<Rightarrow> string \<Rightarrow> string \<Rightarrow> (string \<times> bool) + staged_object"
  promote :: "nat \<Rightarrow> staged_object \<Rightarrow> string \<Rightarrow> (string \<times> bool) + stored_object"
  creation_enforcer :: "(queue_tables \<Rightarrow> string \<Rightarrow> int \<Rightarrow> string option) option"
  policy :: retry_policy

record queue_state =
  tables :: queue_tables
  transactions :: nat
  clock_reads :: nat
  ids_drawn :: nat
  storage_calls :: nat

definition empty_queue :: queue_state where
  "empty_queue = \<lparr>tables = empty_tables, transactions = 0, clock_reads = 0, ids_drawn = 0,
     storage_calls = 0\<rparr>"

text \<open>\<open>_transaction\<close>: the tables change only where the body returns and the database commits.\<close>

definition transaction ::
  "queue_config \<Rightarrow> (queue_tables \<Rightarrow> queue_error + ('a \<times> queue_tables)) \<Rightarrow> queue_state
    \<Rightarrow> (queue_state, queue_error, 'a) outcome" where
  "transaction cfg body s =
    (let s1 = s\<lparr>transactions := Suc (transactions s)\<rparr> in
     case database cfg (transactions s) of
       Some f \<Rightarrow> (Inl (database_error f), s1)
     | None \<Rightarrow> (case body (tables s) of Inl e \<Rightarrow> (Inl e, s1)
         | Inr (v, db) \<Rightarrow> (Inr v, s1\<lparr>tables := db\<rparr>)))"

definition read_utc :: "queue_config \<Rightarrow> queue_state \<Rightarrow> int \<times> queue_state" where
  "read_utc cfg s = (utcnow cfg (clock_reads s), s\<lparr>clock_reads := Suc (clock_reads s)\<rparr>)"

definition storage_error :: "string \<times> bool \<Rightarrow> queue_error" where
  "storage_error e = ObjectQueueError (fst e) (snd e)"

definition safe_or :: "string \<Rightarrow> string \<Rightarrow> queue_error + unit" where
  "safe_or v c = (if safe_id v then Inr () else Inl (queue_error c))"

section \<open>Statements\<close>

definition insert_attempt ::
  "scope \<Rightarrow> object_job \<Rightarrow> string \<Rightarrow> job_state \<Rightarrow> string option \<Rightarrow> int \<Rightarrow> queue_tables
    \<Rightarrow> queue_error + queue_tables" where
  "insert_attempt sc j wid outcome err now db =
    (if attempt_number j < 1 \<or> dict_get (attempts db) (sc, job_id j, attempt_number j) \<noteq> None
     then Inl unique_violation
     else Inr (db\<lparr>attempts := dict_set (sc, job_id j, attempt_number j)
       \<lparr>att_worker_id = wid, att_outcome = outcome, att_safe_error_code = err,
        att_trace_id = job_trace_id j, started_at = created_at j, finished_at = now\<rparr> (attempts db)\<rparr>))"

text \<open>The key of an audit event is unique in its tenant, its workspace must exist.\<close>

definition insert_audit ::
  "cloud_context \<Rightarrow> string \<Rightarrow> string \<Rightarrow> string \<Rightarrow> string \<Rightarrow> bool \<Rightarrow> string \<Rightarrow> (string \<times> string) list
    \<Rightarrow> queue_tables \<Rightarrow> queue_error + queue_tables" where
  "insert_audit c i action ttype tid ok trace meta db =
    (if dict_get (audit_events db) (tenant_id c, i) \<noteq> None \<or> scope_of c \<notin> set (workspaces db)
     then Inl unique_violation
     else Inr (db\<lparr>audit_events := dict_set (tenant_id c, i)
       \<lparr>aud_workspace_id = workspace_id c, aud_actor_id = actor_id c, aud_action = action,
        aud_target_type = ttype, aud_target_id = tid, aud_succeeded = ok, aud_trace_id = trace,
        aud_metadata = meta\<rparr> (audit_events db)\<rparr>))"

text \<open>Updates of the row with a key, of no effect where there is none.\<close>

definition update_row :: "'k \<Rightarrow> ('v \<Rightarrow> 'v) \<Rightarrow> ('k, 'v) dict \<Rightarrow> ('k, 'v) dict" where
  "update_row k f d = (case dict_get d k of None \<Rightarrow> d | Some x \<Rightarrow> dict_set k (f x) d)"

definition set_outbox :: "scope \<Rightarrow> string \<Rightarrow> outbox_status \<Rightarrow> int option \<Rightarrow> queue_tables \<Rightarrow> queue_tables" where
  "set_outbox sc i st t db = db\<lparr>outbox :=
    update_row (sc, i) (\<lambda>r. r\<lparr>out_status := st, out_completed_at := t\<rparr>) (outbox db)\<rparr>"

definition dispatch_outbox :: "scope \<Rightarrow> string \<Rightarrow> queue_tables \<Rightarrow> queue_tables" where
  "dispatch_outbox sc i db = db\<lparr>outbox :=
    update_row (sc, i) (\<lambda>r. r\<lparr>out_status := OutboxDispatched\<rparr>) (outbox db)\<rparr>"

definition set_object_status :: "scope \<Rightarrow> string \<Rightarrow> object_status \<Rightarrow> queue_tables \<Rightarrow> queue_tables" where
  "set_object_status sc oid st db = db\<lparr>objects := update_row (sc, oid)
    (\<lambda>r. r\<lparr>the_object := (the_object r)\<lparr>status := st, object_version := object_version (the_object r) + 1\<rparr>\<rparr>)
    (objects db)\<rparr>"

definition rows_of :: "scope \<Rightarrow> (scope \<times> string, 'v) dict \<Rightarrow> 'v list" where
  "rows_of sc d = map snd (filter (\<lambda>((k, _), _). k = sc) d)"

section \<open>Submission\<close>

record object_submission =
  sub_object_id :: string
  sub_job_id :: string
  sub_event_id :: string
  replayed :: bool

definition payload_keys :: "string set" where
  "payload_keys = {''schema_version'', ''object_id''}"

definition payload_invalid :: queue_error where
  "payload_invalid = queue_error ''JOB_PAYLOAD_INVALID''"

text \<open>A Boolean \<open>True\<close> equals the number 1.\<close>

definition validate_payload :: "string \<Rightarrow> (string, json) dict \<Rightarrow> queue_error + (string, json) dict" where
  "validate_payload kind payload =
    (if kind \<noteq> ''object.promote'' \<or> fst ` set payload \<noteq> payload_keys then Inl payload_invalid
     else if dict_get payload ''schema_version'' \<notin> {Some (JInt 1), Some (JBool True)}
     then Inl payload_invalid
     else (case dict_get payload ''object_id'' of
         Some (JStr oid) \<Rightarrow>
           if opaque_id oid
           then Inr [(''schema_version'', JInt 1), (''object_id'', JStr oid)] else Inl payload_invalid
       | _ \<Rightarrow> Inl payload_invalid))"

definition promote_payload :: "string \<Rightarrow> (string, json) dict" where
  "promote_payload oid = [(''schema_version'', JInt 1), (''object_id'', JStr oid)]"

definition submission_fingerprint :: "queue_config \<Rightarrow> string \<Rightarrow> staged_object \<Rightarrow> string" where
  "submission_fingerprint cfg ar st =
    sha256 cfg (utf8 (join_with ''|'' [ar, staged_digest st, dec_int (staged_size st), staged_type st]))"

definition find_submission :: "scope \<Rightarrow> string \<Rightarrow> string \<Rightarrow> queue_tables \<Rightarrow> object_row option" where
  "find_submission sc actor key db =
    find (\<lambda>r. object_created_by r = actor \<and> idempotency_key r = key) (rows_of sc (objects db))"

definition submission_of :: "string \<Rightarrow> bool \<Rightarrow> object_submission" where
  "submission_of oid rep = \<lparr>sub_object_id = oid, sub_job_id = ''job-'' @ oid,
     sub_event_id = ''outbox-'' @ oid, replayed = rep\<rparr>"

definition new_job :: "string \<Rightarrow> string \<Rightarrow> string \<Rightarrow> int \<Rightarrow> string option \<Rightarrow> string \<Rightarrow> int \<Rightarrow> object_job" where
  "new_job i ev oid mx retry trace now =
    \<lparr>job_id = i, event_id = ev, object_id = oid, state = Pending, attempt_number = 0,
     max_attempts = mx, next_attempt_at = now, lease_owner = None, lease_until = None,
     last_safe_error_code = None, retry_of_job_id = retry, job_trace_id = trace, version = 1,
     created_at = now\<rparr>"

definition insert_outbox ::
  "scope \<Rightarrow> string \<Rightarrow> string \<Rightarrow> string \<Rightarrow> int \<Rightarrow> queue_tables \<Rightarrow> queue_error + queue_tables" where
  "insert_outbox sc i oid trace now db =
    (if dict_get (outbox db) (sc, i) \<noteq> None \<or> dict_get (objects db) (sc, oid) = None
     then Inl unique_violation
     else Inr (db\<lparr>outbox := dict_set (sc, i)
       \<lparr>out_object_id = oid, out_status = OutboxPending, out_trace_id = trace, out_created_at = now,
        out_completed_at = None\<rparr> (outbox db)\<rparr>))"

definition insert_job ::
  "scope \<Rightarrow> object_job \<Rightarrow> string \<Rightarrow> string \<Rightarrow> queue_tables \<Rightarrow> queue_error + queue_tables" where
  "insert_job sc j dedup actor db =
    (if dict_get (jobs db) (sc, job_id j) \<noteq> None
       \<or> list_ex (\<lambda>r. deduplication_key r = dedup) (rows_of sc (jobs db))
     then Inl unique_violation
     else Inr (db\<lparr>jobs := dict_set (sc, job_id j)
       \<lparr>the_job = j, deduplication_key = dedup, job_created_by = actor, job_completed_at = None\<rparr>
       (jobs db)\<rparr>))"

definition insert_object :: "scope \<Rightarrow> object_row \<Rightarrow> queue_tables \<Rightarrow> queue_error + queue_tables" where
  "insert_object sc r db =
    (if byte_size (the_object r) \<ge> 2 ^ 63 then Inl (classify_database_error (Some ''22003''))
     else if dict_get (objects db) (sc, rec_object_id (the_object r)) \<noteq> None
       \<or> list_ex (\<lambda>x. object_key (the_object x) = object_key (the_object r)) (rows_of sc (objects db))
       \<or> sc \<notin> set (workspaces db)
     then Inl unique_violation
     else Inr (db\<lparr>objects := dict_set (sc, rec_object_id (the_object r)) r (objects db)\<rparr>))"

definition new_object ::
  "cloud_context \<Rightarrow> string \<Rightarrow> string \<Rightarrow> staged_object \<Rightarrow> string \<Rightarrow> string \<Rightarrow> string \<Rightarrow> string \<Rightarrow> int
    \<Rightarrow> object_row" where
  "new_object c oid ar st final key trace fp now =
    \<lparr>the_object = \<lparr>rec_object_id = oid, area = ar, staging_key = staged_key st, object_key = final,
       digest_sha256 = staged_digest st, byte_size = staged_size st, content_type = staged_type st,
       status = ObjectPending, storage_etag = None, storage_version_id = None, object_version = 1\<rparr>,
     object_created_by = actor_id c, object_trace_id = trace, idempotency_key = key,
     request_fingerprint = fp, object_created_at = now, object_completed_at = None\<rparr>"

text \<open>The body of the transaction that registers an object.\<close>

definition store_object_job ::
  "queue_config \<Rightarrow> cloud_context \<Rightarrow> string \<Rightarrow> string \<Rightarrow> staged_object \<Rightarrow> string \<Rightarrow> string \<Rightarrow> string \<Rightarrow> int
    \<Rightarrow> int \<Rightarrow> bool \<Rightarrow> queue_tables \<Rightarrow> queue_error + (object_submission \<times> queue_tables)" where
  "store_object_job cfg c oid ar st final key trace mx now rollback db =
    (let sc = scope_of c; fp = submission_fingerprint cfg ar st in
     case find_submission sc (actor_id c) key db of
       Some r \<Rightarrow>
         if request_fingerprint r \<noteq> fp then Inl (queue_error ''IDEMPOTENCY_KEY_REUSED'')
         else Inr (submission_of (rec_object_id (the_object r)) True, db)
     | None \<Rightarrow>
         and_then (case creation_enforcer cfg of
             Some f \<Rightarrow> if ar = ''source'' then (case f db (tenant_id c) (staged_size st) of
                 Some e \<Rightarrow> Inl (Raised e) | None \<Rightarrow> Inr ()) else Inr ()
           | None \<Rightarrow> Inr ()) (\<lambda>_.
         and_then (insert_object sc (new_object c oid ar st final key trace fp now) db) (\<lambda>db1.
         and_then (insert_outbox sc (''outbox-'' @ oid) oid trace now db1) (\<lambda>db2.
         and_then (insert_job sc (new_job (''job-'' @ oid) (''outbox-'' @ oid) oid mx None trace now)
           key (actor_id c) db2) (\<lambda>db3.
         and_then (insert_audit c (''audit-request-'' @ oid) ''object.store.requested'' ''object'' oid
           True trace [(''area'', ar), (''job_id'', ''job-'' @ oid)] db3) (\<lambda>db4.
         if rollback then Inl (queue_error ''FORCED_TRANSACTION_ROLLBACK'')
         else Inr (submission_of oid False, db4)))))))"

definition register_object_job ::
  "queue_config \<Rightarrow> cloud_context \<Rightarrow> string \<Rightarrow> string \<Rightarrow> staged_object \<Rightarrow> string \<Rightarrow> string \<Rightarrow> string \<Rightarrow> int
    \<Rightarrow> int option \<Rightarrow> bool \<Rightarrow> queue_state \<Rightarrow> (queue_state, queue_error, object_submission) outcome" where
  "register_object_job cfg c oid ar st final key trace mx now rollback s =
    (if capability c \<noteq> ''object.write'' then (Inl (queue_error ''OBJECT_ACCESS_DENIED''), s)
     else attempt (validate_staging c ar (staged_key st)) s (\<lambda>_.
     attempt (validate_final c ar final) s (\<lambda>_.
     attempt (safe_or key ''IDEMPOTENCY_KEY_INVALID'') s (\<lambda>_.
     attempt (safe_or trace ''TRACE_ID_INVALID'') s (\<lambda>_.
     if \<not> sha256_text (staged_digest st) \<or> \<not> content_type_ok (staged_type st)
       \<or> staged_size st < 0 \<or> mx < 1 \<or> 100 < mx
     then (Inl (queue_error ''OBJECT_METADATA_INVALID''), s)
     else
       (let (t, s1) = (case now of Some t \<Rightarrow> (t, s) | None \<Rightarrow> read_utc cfg s)
        in transaction cfg (store_object_job cfg c oid ar st final key trace mx t rollback) s1))))))"

definition seed_scope :: "queue_config \<Rightarrow> cloud_context \<Rightarrow> queue_state \<Rightarrow> (queue_state, queue_error, unit) outcome" where
  "seed_scope cfg c = transaction cfg (\<lambda>db. Inr ((), db\<lparr>workspaces :=
    (if scope_of c \<in> set (workspaces db) then workspaces db else workspaces db @ [scope_of c])\<rparr>))"

section \<open>Leases\<close>

definition due :: "int \<Rightarrow> object_job \<Rightarrow> bool" where
  "due now j \<longleftrightarrow> (state j \<in> {Pending, RetryWait} \<and> next_attempt_at j \<le> now)
    \<or> (state j = Leased \<and> (case lease_until j of None \<Rightarrow> False | Some t \<Rightarrow> t \<le> now))"

definition claim_order :: "object_job \<Rightarrow> int \<times> int \<times> string" where
  "claim_order j = (next_attempt_at j, created_at j, job_id j)"

definition first_due :: "scope \<Rightarrow> int \<Rightarrow> queue_tables \<Rightarrow> job_row option" where
  "first_due sc now db =
    (case sort_key (\<lambda>r. claim_order (the_job r)) (filter (\<lambda>r. due now (the_job r)) (rows_of sc (jobs db))) of
       [] \<Rightarrow> None | r # _ \<Rightarrow> Some r)"

definition leased_to :: "string \<Rightarrow> int \<Rightarrow> object_job \<Rightarrow> object_job" where
  "leased_to wid until j =
    j\<lparr>state := Leased, attempt_number := attempt_number j + 1, lease_owner := Some wid,
      lease_until := Some until, last_safe_error_code := None, version := version j + 1\<rparr>"

definition put_job :: "scope \<Rightarrow> job_row \<Rightarrow> object_job \<Rightarrow> int option \<Rightarrow> queue_tables \<Rightarrow> queue_tables" where
  "put_job sc r j done db = db\<lparr>jobs :=
    dict_set (sc, job_id j) (r\<lparr>the_job := j, job_completed_at := done\<rparr>) (jobs db)\<rparr>"

definition claim_first ::
  "cloud_context \<Rightarrow> string \<Rightarrow> int \<Rightarrow> int \<Rightarrow> queue_tables
    \<Rightarrow> queue_error + (object_job option \<times> queue_tables)" where
  "claim_first c wid now until db =
    (case first_due (scope_of c) now db of
       None \<Rightarrow> Inr (None, db)
     | Some r \<Rightarrow>
         (let j = leased_to wid until (the_job r);
              db1 = put_job (scope_of c) r j (job_completed_at r) db
          in and_then (validate_payload ''object.promote'' (promote_payload (object_id j)))
            (\<lambda>_. Inr (Some j, dispatch_outbox (scope_of c) (event_id j) db1))))"

definition claim ::
  "queue_config \<Rightarrow> cloud_context \<Rightarrow> string \<Rightarrow> int \<Rightarrow> rat \<Rightarrow> queue_state
    \<Rightarrow> (queue_state, queue_error, object_job option) outcome" where
  "claim cfg c wid now lease s =
    attempt (safe_or wid ''WORKER_ID_INVALID'') s (\<lambda>_.
    if lease \<le> 0 \<or> lease > 3600 then (Inl (queue_error ''LEASE_INVALID''), s)
    else transaction cfg (claim_first c wid now (now + timedelta_us lease)) s)"

definition get_object ::
  "queue_config \<Rightarrow> cloud_context \<Rightarrow> string \<Rightarrow> queue_state
    \<Rightarrow> (queue_state, queue_error, object_record) outcome" where
  "get_object cfg c oid = transaction cfg (\<lambda>db.
    case dict_get (objects db) (scope_of c, oid) of
      None \<Rightarrow> Inl (queue_error ''OBJECT_NOT_FOUND'') | Some r \<Rightarrow> Inr (the_object r, db))"

definition get_job ::
  "queue_config \<Rightarrow> cloud_context \<Rightarrow> string \<Rightarrow> queue_state
    \<Rightarrow> (queue_state, queue_error, object_job) outcome" where
  "get_job cfg c i = transaction cfg (\<lambda>db.
    case dict_get (jobs db) (scope_of c, i) of
      None \<Rightarrow> Inl (queue_error ''JOB_NOT_FOUND'') | Some r \<Rightarrow> Inr (the_job r, db))"

definition lease_lost :: queue_error where
  "lease_lost = ObjectQueueError ''JOB_LEASE_LOST'' True"

definition assert_lease :: "object_job \<Rightarrow> object_job \<Rightarrow> string \<Rightarrow> int \<Rightarrow> queue_error + unit" where
  "assert_lease j cur wid now =
    (if state cur \<noteq> Leased \<or> version cur \<noteq> version j \<or> lease_owner cur \<noteq> Some wid
       \<or> (case lease_until cur of None \<Rightarrow> True | Some t \<Rightarrow> t \<le> now)
     then Inl lease_lost else Inr ())"

definition stored_as_registered :: "stored_object \<Rightarrow> object_record \<Rightarrow> bool" where
  "stored_as_registered x r \<longleftrightarrow> stored_key x = object_key r \<and> stored_digest x = digest_sha256 r
    \<and> stored_size x = byte_size r \<and> stored_type x = content_type r"

definition ended :: "job_state \<Rightarrow> object_job \<Rightarrow> object_job" where
  "ended st j = j\<lparr>state := st, lease_owner := None, lease_until := None, version := version j + 1\<rparr>"

definition complete_job ::
  "cloud_context \<Rightarrow> object_job \<Rightarrow> string \<Rightarrow> stored_object \<Rightarrow> int \<Rightarrow> queue_tables
    \<Rightarrow> queue_error + (object_job \<times> queue_tables)" where
  "complete_job c j wid x now db =
    (let sc = scope_of c in
     case dict_get (jobs db) (sc, job_id j) of
       None \<Rightarrow> Inl (queue_error ''JOB_NOT_FOUND'')
     | Some r \<Rightarrow> and_then (assert_lease j (the_job r) wid now) (\<lambda>_.
         case dict_get (objects db) (sc, object_id j) of
           None \<Rightarrow> Inl (queue_error ''OBJECT_NOT_FOUND'')
         | Some o' \<Rightarrow>
             if \<not> stored_as_registered x (the_object o')
             then Inl (queue_error ''OBJECT_CHECKSUM_MISMATCH'')
             else
               (let o1 = o'\<lparr>the_object := (the_object o')\<lparr>status := ObjectCompleted,
                      storage_etag := Some (stored_etag x), storage_version_id := stored_version_id x,
                      object_version := object_version (the_object o') + 1\<rparr>,
                      object_completed_at := Some now\<rparr>;
                    db1 = db\<lparr>objects := dict_set (sc, object_id j) o1 (objects db)\<rparr>;
                    j1 = ended Completed (the_job r);
                    db2 = set_outbox sc (event_id j) OutboxCompleted (Some now)
                      (put_job sc r j1 (Some now) db1)
                in and_then (insert_attempt sc j wid Completed None now db2) (\<lambda>db3.
                and_then (insert_audit c (''audit-complete-'' @ job_id j @ ''-'' @ dec_int (attempt_number j))
                  ''object.store.completed'' ''object'' (object_id j) True (job_trace_id j)
                  [(''job_id'', job_id j)] db3) (\<lambda>db4. Inr (j1, db4))))))"

definition complete ::
  "queue_config \<Rightarrow> cloud_context \<Rightarrow> object_job \<Rightarrow> string \<Rightarrow> stored_object \<Rightarrow> int \<Rightarrow> queue_state
    \<Rightarrow> (queue_state, queue_error, object_job) outcome" where
  "complete cfg c j wid x now = transaction cfg (complete_job c j wid x now)"

definition state_value :: "job_state \<Rightarrow> string" where
  "state_value st = (case st of Pending \<Rightarrow> ''pending'' | Leased \<Rightarrow> ''leased'' | RetryWait \<Rightarrow> ''retry_wait''
     | Completed \<Rightarrow> ''completed'' | DeadLetter \<Rightarrow> ''dead_letter'')"

text \<open>The error is given by its code and its flag.\<close>

definition fail_job ::
  "cloud_context \<Rightarrow> object_job \<Rightarrow> string \<Rightarrow> string \<times> bool \<Rightarrow> int \<Rightarrow> int \<Rightarrow> queue_tables
    \<Rightarrow> queue_error + (object_job \<times> queue_tables)" where
  "fail_job c j wid err now retry_at db =
    (let sc = scope_of c in
     case dict_get (jobs db) (sc, job_id j) of
       None \<Rightarrow> Inl (queue_error ''JOB_NOT_FOUND'')
     | Some r \<Rightarrow> and_then (assert_lease j (the_job r) wid now) (\<lambda>_.
         let retry = snd err \<and> attempt_number j < max_attempts j;
             st = (if retry then RetryWait else DeadLetter);
             done = (if retry then None else Some now);
             j1 = (ended st (the_job r))\<lparr>next_attempt_at := retry_at,
                    last_safe_error_code := Some (fst err)\<rparr>;
             db1 = set_outbox sc (event_id j) (if retry then OutboxDispatched else OutboxFailed) done
                     (put_job sc r j1 done db);
             db2 = (if retry then db1 else set_object_status sc (object_id j) ObjectFailed db1)
         in and_then (insert_attempt sc j wid st (Some (fst err)) now db2) (\<lambda>db3.
         and_then (insert_audit c (''audit-attempt-'' @ job_id j @ ''-'' @ dec_int (attempt_number j))
           ''object.store.attempt'' ''job'' (job_id j) False (job_trace_id j)
           [(''state'', state_value st), (''safe_error_code'', fst err)] db3) (\<lambda>db4. Inr (j1, db4)))))"

definition fail ::
  "queue_config \<Rightarrow> cloud_context \<Rightarrow> object_job \<Rightarrow> string \<Rightarrow> string \<times> bool \<Rightarrow> int \<Rightarrow> int \<Rightarrow> queue_state
    \<Rightarrow> (queue_state, queue_error, object_job) outcome" where
  "fail cfg c j wid err now retry_at = transaction cfg (fail_job c j wid err now retry_at)"

section \<open>Dead letters\<close>

definition find_job_by_key :: "scope \<Rightarrow> string \<Rightarrow> queue_tables \<Rightarrow> job_row option" where
  "find_job_by_key sc key db = find (\<lambda>r. deduplication_key r = key) (rows_of sc (jobs db))"

definition reprocess_digest :: "queue_config \<Rightarrow> cloud_context \<Rightarrow> string \<Rightarrow> string \<Rightarrow> string" where
  "reprocess_digest cfg c i key =
    take 32 (sha256 cfg (utf8 (join_with ''|'' [tenant_id c, workspace_id c, i, key])))"

definition reprocess_key :: "string \<Rightarrow> string \<Rightarrow> string" where
  "reprocess_key i key = ''reprocess:'' @ i @ '':'' @ key"

definition reprocess_job ::
  "queue_config \<Rightarrow> cloud_context \<Rightarrow> string \<Rightarrow> string \<Rightarrow> int \<Rightarrow> queue_tables
    \<Rightarrow> queue_error + (object_job \<times> queue_tables)" where
  "reprocess_job cfg c i key now db =
    (let sc = scope_of c; digest = reprocess_digest cfg c i key; dedup = reprocess_key i key in
     case find_job_by_key sc dedup db of
       Some r \<Rightarrow> Inr (the_job r, db)
     | None \<Rightarrow> (case dict_get (jobs db) (sc, i) of
         None \<Rightarrow> Inl (queue_error ''JOB_NOT_FOUND'')
       | Some r \<Rightarrow>
           (let old = the_job r in
            if state old \<noteq> DeadLetter then Inl (queue_error ''JOB_NOT_DEAD_LETTER'')
            else
              (let j = new_job (''job-'' @ digest) (''outbox-'' @ digest) (object_id old)
                     (max_attempts old) (Some (job_id old)) (job_trace_id old) now
               in and_then (insert_outbox sc (''outbox-'' @ digest) (object_id old) (job_trace_id old) now db) (\<lambda>db1.
               and_then (insert_job sc j dedup (actor_id c) db1) (\<lambda>db2.
               and_then (insert_audit c (''audit-reprocess-'' @ digest) ''object.store.reprocessed'' ''job''
                 (job_id j) True (job_trace_id old) [(''retry_of_job_id'', job_id old)]
                 (set_object_status sc (object_id old) ObjectPending db2)) (\<lambda>db3. Inr (j, db3))))))))"

definition reprocess ::
  "queue_config \<Rightarrow> cloud_context \<Rightarrow> string \<Rightarrow> string \<Rightarrow> queue_state
    \<Rightarrow> (queue_state, queue_error, object_job) outcome" where
  "reprocess cfg c i key s =
    (if capability c \<noteq> ''queue.reprocess'' then (Inl (queue_error ''QUEUE_REPROCESS_DENIED''), s)
     else attempt (safe_or key ''IDEMPOTENCY_KEY_INVALID'') s (\<lambda>_.
       let (now, s1) = read_utc cfg s in transaction cfg (reprocess_job cfg c i key now) s1))"

section \<open>Counters\<close>

record queue_metrics =
  pending :: nat
  retry_wait :: nat
  leased :: nat
  dead_letter :: nat
  oldest_pending_seconds :: rat

definition count_state :: "job_state \<Rightarrow> object_job list \<Rightarrow> nat" where
  "count_state st js = length (filter (\<lambda>j. state j = st) js)"

definition oldest_pending :: "int \<Rightarrow> object_job list \<Rightarrow> rat" where
  "oldest_pending now js =
    (case sort (map created_at (filter (\<lambda>j. state j \<in> {Pending, RetryWait}) js)) of
       [] \<Rightarrow> 0 | t # _ \<Rightarrow> max 0 (of_int (now - t) / 1000000))"

definition metrics ::
  "queue_config \<Rightarrow> cloud_context \<Rightarrow> int \<Rightarrow> queue_state
    \<Rightarrow> (queue_state, queue_error, queue_metrics) outcome" where
  "metrics cfg c now = transaction cfg (\<lambda>db.
    let js = map the_job (rows_of (scope_of c) (jobs db)) in
    Inr (\<lparr>pending = count_state Pending js, retry_wait = count_state RetryWait js,
      leased = count_state Leased js, dead_letter = count_state DeadLetter js,
      oldest_pending_seconds = oldest_pending now js\<rparr>, db))"

definition entity_counts ::
  "queue_config \<Rightarrow> cloud_context \<Rightarrow> string \<Rightarrow> queue_state
    \<Rightarrow> (queue_state, queue_error, nat \<times> nat \<times> nat \<times> nat) outcome" where
  "entity_counts cfg c oid = transaction cfg (\<lambda>db.
    let sc = scope_of c;
        js = filter (\<lambda>j. object_id j = oid) (map the_job (rows_of sc (jobs db)))
    in Inr ((if dict_get (objects db) (sc, oid) = None then 0 else 1,
       length (filter (\<lambda>r. out_object_id r = oid) (rows_of sc (outbox db))),
       length js,
       length (filter (\<lambda>((k, i, _), _). k = sc \<and> i \<in> job_id ` set js) (attempts db))), db))"

section \<open>Coordinator and worker\<close>

definition call_storage :: "(nat \<Rightarrow> (string \<times> bool) + 'a) \<Rightarrow> queue_state \<Rightarrow> (queue_state, queue_error, 'a) outcome" where
  "call_storage f s =
    ((case f (storage_calls s) of Inl e \<Rightarrow> Inl (storage_error e) | Inr a \<Rightarrow> Inr a),
     s\<lparr>storage_calls := Suc (storage_calls s)\<rparr>)"

definition submit ::
  "queue_config \<Rightarrow> cloud_context \<Rightarrow> string \<Rightarrow> string \<Rightarrow> string \<Rightarrow> string \<Rightarrow> string \<Rightarrow> string option \<Rightarrow> queue_state
    \<Rightarrow> (queue_state, queue_error, object_submission) outcome" where
  "submit cfg c ar content ctype key trace given s0 =
    (if \<not> content_type_ok ctype then (Inl (queue_error ''OBJECT_METADATA_INVALID''), s0)
     else
       (let (oid, s) = (case given of Some i \<Rightarrow> (i, s0)
              | None \<Rightarrow> (id_factory cfg (ids_drawn s0), s0\<lparr>ids_drawn := Suc (ids_drawn s0)\<rparr>))
        in if \<not> opaque_id oid then (Inl (queue_error ''OBJECT_ID_INVALID''), s)
           else attempt (staging_key_of c ar oid) s (\<lambda>stage.
             attempt (final_key c ar oid) s (\<lambda>final.
             chain (call_storage (\<lambda>n. put_staged cfg n stage content ctype (sha256 cfg content)) s) (\<lambda>st s1.
             register_object_job cfg c oid ar st final key trace
               (policy_max_attempts (policy cfg)) None False s1)))))"

definition staged_of :: "object_record \<Rightarrow> staged_object" where
  "staged_of r = \<lparr>staged_key = staging_key r, staged_digest = digest_sha256 r, staged_size = byte_size r,
     staged_type = content_type r, staged_etag = [], staged_version_id = None\<rparr>"

text \<open>The handler of \<open>process_claimed\<close>: object queue errors fail the job, others are raised.\<close>

definition record_failure ::
  "queue_config \<Rightarrow> cloud_context \<Rightarrow> object_job \<Rightarrow> string \<Rightarrow> int \<Rightarrow> rat \<Rightarrow> queue_error \<Rightarrow> queue_state
    \<Rightarrow> (queue_state, queue_error, object_job) outcome" where
  "record_failure cfg c j wid now u e s =
    (case e of
       ObjectQueueError cd rt \<Rightarrow>
         attempt (delay_seconds (policy cfg) (attempt_number j) u) s (\<lambda>d.
           fail cfg c j wid (cd, rt) now (now + timedelta_us d) s)
     | _ \<Rightarrow> (Inl e, s))"

definition process_claimed ::
  "queue_config \<Rightarrow> cloud_context \<Rightarrow> string \<Rightarrow> object_job \<Rightarrow> int \<Rightarrow> rat \<Rightarrow> queue_state
    \<Rightarrow> (queue_state, queue_error, object_job) outcome" where
  "process_claimed cfg c wid j now u s =
    chain (get_object cfg c (object_id j) s) (\<lambda>r s1.
      case chain (call_storage (\<lambda>n. promote cfg n (staged_of r) (object_key r)) s1) (\<lambda>x.
             complete cfg c j wid x now) of
        (Inl e, s2) \<Rightarrow> record_failure cfg c j wid now u e s2
      | (Inr v, s2) \<Rightarrow> (Inr v, s2))"

definition run_once ::
  "queue_config \<Rightarrow> cloud_context \<Rightarrow> string \<Rightarrow> rat \<Rightarrow> bool \<Rightarrow> int option \<Rightarrow> rat \<Rightarrow> queue_state
    \<Rightarrow> (queue_state, queue_error, object_job option) outcome" where
  "run_once cfg c wid lease stopped given u s =
    (if stopped then (Inr None, s)
     else
       (let (now, s1) = (case given of Some t \<Rightarrow> (t, s) | None \<Rightarrow> read_utc cfg s)
        in chain (claim cfg c wid now lease s1) (\<lambda>claimed s2.
          case claimed of None \<Rightarrow> (Inr None, s2)
          | Some j \<Rightarrow> chain (process_claimed cfg c wid j now u s2) (\<lambda>v s3. (Inr (Some v), s3)))))"

text \<open>
  One pass of the thread over its scopes, and any number of passes: a retryable error is waited
  out, every other error ends the thread. Waiting changes nothing here; time passes by the clock.
\<close>

fun poll_scopes ::
  "queue_config \<Rightarrow> string \<Rightarrow> rat \<Rightarrow> cloud_context list \<Rightarrow> queue_state
    \<Rightarrow> (queue_state, queue_error, unit) outcome" where
  "poll_scopes cfg wid lease [] s = (Inr (), s)"
| "poll_scopes cfg wid lease (c # cs) s =
    (case run_once cfg c wid lease False None (1 / 2) s of
       (Inl (ObjectQueueError cd True), t) \<Rightarrow> poll_scopes cfg wid lease cs t
     | (Inl e, t) \<Rightarrow> (Inl e, t)
     | (Inr v, t) \<Rightarrow> poll_scopes cfg wid lease cs t)"

fun worker_passes ::
  "queue_config \<Rightarrow> string \<Rightarrow> rat \<Rightarrow> cloud_context list \<Rightarrow> nat \<Rightarrow> queue_state
    \<Rightarrow> (queue_state, queue_error, unit) outcome" where
  "worker_passes cfg wid lease cs 0 s = (Inr (), s)"
| "worker_passes cfg wid lease cs (Suc n) s =
    chain (poll_scopes cfg wid lease cs s) (\<lambda>_. worker_passes cfg wid lease cs n)"

end
