(* ===== verification/Object_Queue_Invariant.thy ===== *)
theory Object_Queue_Invariant
  imports Object_Queue
begin

text \<open>
  What each operation of the object queue can leave behind, the steps of the queue, and its
  invariant. A step is one transaction, or a use of the clock or of the object store. A worker
  reports about a job with the copy its claim returned; the steps keep the copies handed out so far
  beside the state, and a report is made with one of them, at any time and by any worker.
\<close>

declare map_of_eq_Some_iff [simp del]

section \<open>Rows and statements\<close>

lemma update_row_get:
  "dict_get (update_row k f d) k' = (if k' = k then map_option f (dict_get d k) else dict_get d k')"
  by (auto simp: update_row_def split: option.splits)

lemma dict_ok_update_row [simp]: "dict_ok d \<Longrightarrow> dict_ok (update_row k f d)"
  by (simp add: update_row_def split: option.splits)

named_theorems statements

lemma statement_fields [statements]:
  "workspaces (set_outbox sc i st u db) = workspaces db" "objects (set_outbox sc i st u db) = objects db"
  "jobs (set_outbox sc i st u db) = jobs db" "attempts (set_outbox sc i st u db) = attempts db"
  "audit_events (set_outbox sc i st u db) = audit_events db"
  "workspaces (dispatch_outbox sc i db) = workspaces db" "objects (dispatch_outbox sc i db) = objects db"
  "jobs (dispatch_outbox sc i db) = jobs db" "attempts (dispatch_outbox sc i db) = attempts db"
  "audit_events (dispatch_outbox sc i db) = audit_events db"
  "workspaces (put_job sc r j d db) = workspaces db" "objects (put_job sc r j d db) = objects db"
  "outbox (put_job sc r j d db) = outbox db" "attempts (put_job sc r j d db) = attempts db"
  "audit_events (put_job sc r j d db) = audit_events db"
  "workspaces (set_object_status sc oid q db) = workspaces db"
  "outbox (set_object_status sc oid q db) = outbox db" "jobs (set_object_status sc oid q db) = jobs db"
  "attempts (set_object_status sc oid q db) = attempts db"
  "audit_events (set_object_status sc oid q db) = audit_events db"
  by (simp_all add: set_outbox_def dispatch_outbox_def put_job_def set_object_status_def)

lemma put_job_jobs [statements]:
  "jobs (put_job sc r j d db) = dict_set (sc, job_id j) (r\<lparr>the_job := j, job_completed_at := d\<rparr>) (jobs db)"
  by (simp add: put_job_def)

lemma insert_attempt_effect:
  assumes "insert_attempt sc j wid st err now db = Inr db'"
  obtains a where "1 \<le> attempt_number j" and "dict_get (attempts db) (sc, job_id j, attempt_number j) = None"
    and "db' = db\<lparr>attempts := dict_set (sc, job_id j, attempt_number j) a (attempts db)\<rparr>"
    and "att_outcome a = st" and "att_worker_id a = wid"
  by (rule that [of "\<lparr>att_worker_id = wid, att_outcome = st, att_safe_error_code = err,
      att_trace_id = job_trace_id j, started_at = created_at j, finished_at = now\<rparr>"])
    (use assms in \<open>auto simp: insert_attempt_def split: if_splits\<close>)

lemma insert_audit_effect:
  assumes "insert_audit c i ac tt ti ok tr meta db = Inr db'"
  obtains a where "dict_get (audit_events db) (tenant_id c, i) = None"
    and "db' = db\<lparr>audit_events := dict_set (tenant_id c, i) a (audit_events db)\<rparr>"
    and "aud_workspace_id a = workspace_id c"
  by (rule that [of "\<lparr>aud_workspace_id = workspace_id c, aud_actor_id = actor_id c, aud_action = ac,
      aud_target_type = tt, aud_target_id = ti, aud_succeeded = ok, aud_trace_id = tr, aud_metadata = meta\<rparr>"])
    (use assms in \<open>auto simp: insert_audit_def split: if_splits\<close>)

lemma insert_outbox_effect:
  assumes "insert_outbox sc i oid tr now db = Inr db'"
  obtains a where "dict_get (objects db) (sc, oid) \<noteq> None"
    and "db' = db\<lparr>outbox := dict_set (sc, i) a (outbox db)\<rparr>"
    and "dict_get (outbox db) (sc, i) = None"
  by (rule that [of "\<lparr>out_object_id = oid, out_status = OutboxPending, out_trace_id = tr,
      out_created_at = now, out_completed_at = None\<rparr>"])
    (use assms in \<open>auto simp: insert_outbox_def split: if_splits\<close>)

lemma insert_job_effect:
  assumes "insert_job sc j k actor db = Inr db'"
  shows "dict_get (jobs db) (sc, job_id j) = None
    \<and> \<not> list_ex (\<lambda>r. deduplication_key r = k) (rows_of sc (jobs db))
    \<and> db' = db\<lparr>jobs := dict_set (sc, job_id j) \<lparr>the_job = j, deduplication_key = k, job_created_by = actor,
        job_completed_at = None\<rparr> (jobs db)\<rparr>"
  using assms by (auto simp: insert_job_def split: if_splits)

lemma insert_object_effect:
  assumes "insert_object sc r db = Inr db'"
  shows "dict_get (objects db) (sc, rec_object_id (the_object r)) = None \<and> sc \<in> set (workspaces db)
    \<and> db' = db\<lparr>objects := dict_set (sc, rec_object_id (the_object r)) r (objects db)\<rparr>"
  using assms by (auto simp: insert_object_def split: if_splits)

text \<open>The records that a report about an attempt leaves beside the rows it changes.\<close>

lemma report_effect:
  assumes "and_then (insert_attempt sc j wid st err now db) (\<lambda>db3.
      and_then (insert_audit c i ac tt ti ok tr meta db3) (\<lambda>db4. Inr (v, db4))) = Inr (v', db')"
  obtains a u where "v' = v" and "1 \<le> attempt_number j"
    and "dict_get (attempts db) (sc, job_id j, attempt_number j) = None"
    and "attempts db' = dict_set (sc, job_id j, attempt_number j) a (attempts db)"
    and "att_outcome a = st" and "att_worker_id a = wid"
    and "audit_events db' = dict_set (tenant_id c, i) u (audit_events db)"
    and "aud_workspace_id u = workspace_id c"
    and "jobs db' = jobs db" and "objects db' = objects db" and "workspaces db' = workspaces db"
proof -
  obtain db3 where att: "insert_attempt sc j wid st err now db = Inr db3"
    and rest: "and_then (insert_audit c i ac tt ti ok tr meta db3) (\<lambda>db4. Inr (v, db4)) = Inr (v', db')"
    using assms by (rule and_then_InrD)
  from rest obtain db4 where aud: "insert_audit c i ac tt ti ok tr meta db3 = Inr db4"
    and v: "v' = v" "db' = db4"
    by (auto elim!: and_then_InrD)
  from att obtain a where a: "1 \<le> attempt_number j"
    "dict_get (attempts db) (sc, job_id j, attempt_number j) = None"
    "db3 = db\<lparr>attempts := dict_set (sc, job_id j, attempt_number j) a (attempts db)\<rparr>"
    "att_outcome a = st" "att_worker_id a = wid"
    by (rule insert_attempt_effect)
  from aud obtain u where u: "db4 = db3\<lparr>audit_events := dict_set (tenant_id c, i) u (audit_events db3)\<rparr>"
    "aud_workspace_id u = workspace_id c"
    by (rule insert_audit_effect)
  show thesis
    by (rule that [of a u]) (use a(1,2,4,5) u(2) in \<open>simp_all add: v u(1) a(3)\<close>)
qed

lemma rows_of_mem:
  "dict_ok d \<Longrightarrow> r \<in> set (rows_of sc d) \<longleftrightarrow> (\<exists>i. dict_get d (sc, i) = Some r)"
  by (force simp: rows_of_def dict_get_mem)

section \<open>Effects\<close>

lemma transaction_effect:
  assumes "transaction cfg body s = (x, t)"
  obtains (rejected) e where "x = Inl e" and "tables t = tables s"
  | (committed) v where "x = Inr v" and "body (tables s) = Inr (v, tables t)"
      and "database cfg (transactions s) = None"
  using assms by (auto simp: transaction_def Let_def split: option.splits sum.splits prod.splits)

lemma transaction_counters:
  assumes "transaction cfg body s = (x, t)"
  shows "clock_reads t = clock_reads s" "ids_drawn t = ids_drawn s" "storage_calls t = storage_calls s"
    "transactions t = Suc (transactions s)"
  using assms by (auto simp: transaction_def Let_def split: option.splits sum.splits prod.splits)

lemma validate_promote_payload:
  "validate_payload ''object.promote'' (promote_payload oid) =
    (if opaque_id oid then Inr (promote_payload oid) else Inl payload_invalid)"
  by (auto simp: validate_payload_def promote_payload_def payload_keys_def)

lemma first_due_mem:
  assumes "dict_ok (jobs db)" and "first_due sc now db = Some r"
  obtains i where "dict_get (jobs db) (sc, i) = Some r" and "due now (the_job r)"
proof -
  have "r \<in> set (filter (\<lambda>r. due now (the_job r)) (rows_of sc (jobs db)))"
    using assms(2) by (metis (no_types, lifting) first_due_def list.case_eq_if list.collapse list.set_intros(1)
        option.discI option.inject set_sort)
  then show thesis using that assms(1) by (auto simp: rows_of_mem)
qed

lemma claim_effect:
  assumes "claim cfg c wid now lease s = (x, t)"
  obtains (none) "tables t = tables s" and "\<And>j. x \<noteq> Inr (Some j)"
  | (leased) r where "first_due (scope_of c) now (tables s) = Some r"
      and "x = Inr (Some (leased_to wid (now + timedelta_us lease) (the_job r)))"
      and "opaque_id (object_id (the_job r))"
      and "tables t = dispatch_outbox (scope_of c) (event_id (the_job r))
        (put_job (scope_of c) r (leased_to wid (now + timedelta_us lease) (the_job r)) (job_completed_at r) (tables s))"
proof (cases "x = Inl (queue_error ''WORKER_ID_INVALID'') \<or> x = Inl (queue_error ''LEASE_INVALID'')")
  case True
  then have "tables t = tables s" and "\<And>j. x \<noteq> Inr (Some j)"
    using assms by (auto simp: claim_def safe_or_def elim: transaction_effect split: if_splits)
  then show thesis by (rule none)
next
  case False
  then have "transaction cfg (claim_first c wid now (now + timedelta_us lease)) s = (x, t)"
    using assms by (auto simp: claim_def safe_or_def split: if_splits)
  then show thesis
  proof (cases rule: transaction_effect)
    case (rejected e)
    then show ?thesis using none by simp
  next
    case (committed v)
    show ?thesis
    proof (cases "first_due (scope_of c) now (tables s)")
      case None
      then show ?thesis using committed none by (simp add: claim_first_def)
    next
      case (Some r)
      then show ?thesis using committed leased [OF Some]
        by (auto simp: claim_first_def Let_def validate_promote_payload leased_to_def split: if_splits)
    qed
  qed
qed

lemma assert_lease_ok:
  "assert_lease j cur wid now = Inr () \<longleftrightarrow>
    state cur = Leased \<and> version cur = version j \<and> lease_owner cur = Some wid
    \<and> (\<exists>u. lease_until cur = Some u \<and> now < u)"
  by (auto simp: assert_lease_def split: option.splits)

lemma complete_effect:
  assumes "complete cfg c j wid x now s = (y, t)"
  obtains (same) e where "y = Inl e" and "tables t = tables s"
  | (completed) r b a u where "y = Inr (ended Completed (the_job r))"
      and "dict_get (jobs (tables s)) (scope_of c, job_id j) = Some r"
      and "assert_lease j (the_job r) wid now = Inr ()"
      and "dict_get (objects (tables s)) (scope_of c, object_id j) = Some b"
      and "stored_as_registered x (the_object b)"
      and "jobs (tables t) = dict_set (scope_of c, job_id (the_job r))
        (r\<lparr>the_job := ended Completed (the_job r), job_completed_at := Some now\<rparr>) (jobs (tables s))"
      and "objects (tables t) = dict_set (scope_of c, object_id j)
        (b\<lparr>the_object := (the_object b)\<lparr>status := ObjectCompleted, storage_etag := Some (stored_etag x),
            storage_version_id := stored_version_id x, object_version := object_version (the_object b) + 1\<rparr>,
          object_completed_at := Some now\<rparr>) (objects (tables s))"
      and "1 \<le> attempt_number j"
      and "attempts (tables t) = dict_set (scope_of c, job_id j, attempt_number j) a (attempts (tables s))"
      and "att_outcome a = Completed" and "att_worker_id a = wid"
      and "audit_events (tables t) = dict_set (tenant_id c,
        ''audit-complete-'' @ job_id j @ ''-'' @ dec_int (attempt_number j)) u (audit_events (tables s))"
      and "aud_workspace_id u = workspace_id c"
      and "workspaces (tables t) = workspaces (tables s)"
  using assms [unfolded complete_def]
proof (cases rule: transaction_effect)
  case (rejected e)
  then show ?thesis using same by blast
next
  case (committed v)
  obtain r where r: "dict_get (jobs (tables s)) (scope_of c, job_id j) = Some r"
    using committed(2) by (auto simp: complete_job_def Let_def split: option.splits)
  have lease: "assert_lease j (the_job r) wid now = Inr ()"
    using committed(2) r
    by (cases "assert_lease j (the_job r) wid now") (auto simp: complete_job_def Let_def)
  obtain b where b: "dict_get (objects (tables s)) (scope_of c, object_id j) = Some b"
    using committed(2) r lease by (auto simp: complete_job_def Let_def split: option.splits)
  have stored: "stored_as_registered x (the_object b)"
    using committed(2) r lease b by (auto simp: complete_job_def Let_def split: if_splits)
  note body = committed(2) [unfolded complete_job_def Let_def r option.case lease and_then_simps b
      eqTrueI [OF stored] not_True_eq_False if_False]
  from body show ?thesis
  proof (rule report_effect, goal_cases)
    case (1 a u)
    then show ?case
      by (intro completed [of r b a u]) (use committed(1) r lease b stored in \<open>simp_all add: statements ended_def\<close>)
  qed
qed

lemma fail_effect:
  assumes "fail cfg c j wid err now retry_at s = (y, t)"
  obtains (same) e where "y = Inl e" and "tables t = tables s"
  | (failed) r a u st j1 where "y = Inr j1" and "j1 = (ended st (the_job r))\<lparr>next_attempt_at := retry_at,
        last_safe_error_code := Some (fst err)\<rparr>"
      and "st = (if snd err \<and> attempt_number j < max_attempts j then RetryWait else DeadLetter)"
      and "dict_get (jobs (tables s)) (scope_of c, job_id j) = Some r"
      and "assert_lease j (the_job r) wid now = Inr ()"
      and "jobs (tables t) = dict_set (scope_of c, job_id (the_job r))
        (r\<lparr>the_job := j1, job_completed_at := (if st = RetryWait then None else Some now)\<rparr>) (jobs (tables s))"
      and "objects (tables t) = (if st = RetryWait then objects (tables s)
        else objects (set_object_status (scope_of c) (object_id j) ObjectFailed (tables s)))"
      and "1 \<le> attempt_number j"
      and "attempts (tables t) = dict_set (scope_of c, job_id j, attempt_number j) a (attempts (tables s))"
      and "att_outcome a = st" and "att_worker_id a = wid"
      and "audit_events (tables t) = dict_set (tenant_id c,
        ''audit-attempt-'' @ job_id j @ ''-'' @ dec_int (attempt_number j)) u (audit_events (tables s))"
      and "aud_workspace_id u = workspace_id c"
      and "workspaces (tables t) = workspaces (tables s)"
  using assms [unfolded fail_def]
proof (cases rule: transaction_effect)
  case (rejected e)
  then show ?thesis using same by blast
next
  case (committed v)
  obtain r where r: "dict_get (jobs (tables s)) (scope_of c, job_id j) = Some r"
    using committed(2) by (auto simp: fail_job_def Let_def split: option.splits)
  have lease: "assert_lease j (the_job r) wid now = Inr ()"
    using committed(2) r
    by (cases "assert_lease j (the_job r) wid now") (auto simp: fail_job_def Let_def)
  note body = committed(2) [unfolded fail_job_def Let_def r option.case lease and_then_simps]
  from body show ?thesis
  proof (rule report_effect, goal_cases)
    case (1 a u)
    then show ?case
      by (intro failed [of v _ r a u]) (use committed(1) r lease in
        \<open>simp_all add: statements ended_def set_object_status_def set_outbox_def put_job_def\<close>)
  qed
qed

lemma store_object_job_effect:
  assumes "store_object_job cfg c oid ar st final key trace mx now rollback db = Inr (v, db')"
  obtains (replay) r where "find_submission (scope_of c) (actor_id c) key db = Some r"
      and "request_fingerprint r = submission_fingerprint cfg ar st"
      and "v = submission_of (rec_object_id (the_object r)) True" and "db' = db"
  | (fresh) u where "find_submission (scope_of c) (actor_id c) key db = None"
      and "v = submission_of oid False"
      and "dict_get (objects db) (scope_of c, oid) = None" and "scope_of c \<in> set (workspaces db)"
      and "dict_get (jobs db) (scope_of c, ''job-'' @ oid) = None"
      and "jobs db' = dict_set (scope_of c, ''job-'' @ oid)
        \<lparr>the_job = new_job (''job-'' @ oid) (''outbox-'' @ oid) oid mx None trace now,
         deduplication_key = key, job_created_by = actor_id c, job_completed_at = None\<rparr> (jobs db)"
      and "objects db' = dict_set (scope_of c, oid)
        (new_object c oid ar st final key trace (submission_fingerprint cfg ar st) now) (objects db)"
      and "attempts db' = attempts db" and "workspaces db' = workspaces db"
      and "audit_events db' = dict_set (tenant_id c, ''audit-request-'' @ oid) u (audit_events db)"
      and "dict_get (audit_events db) (tenant_id c, ''audit-request-'' @ oid) = None"
      and "\<not> list_ex (\<lambda>r. deduplication_key r = key) (rows_of (scope_of c) (jobs db))"
proof (cases "find_submission (scope_of c) (actor_id c) key db")
  case (Some r)
  then show ?thesis
    using assms replay [OF Some] by (auto simp: store_object_job_def Let_def split: if_splits)
next
  case None
  note body = assms [unfolded store_object_job_def Let_def None option.case]
  from body obtain db1 db2 db3 db4 where
    o1: "insert_object (scope_of c) (new_object c oid ar st final key trace
      (submission_fingerprint cfg ar st) now) db = Inr db1"
    and o2: "insert_outbox (scope_of c) (''outbox-'' @ oid) oid trace now db1 = Inr db2"
    and o3: "insert_job (scope_of c) (new_job (''job-'' @ oid) (''outbox-'' @ oid) oid mx None trace now)
      key (actor_id c) db2 = Inr db3"
    and o4: "insert_audit c (''audit-request-'' @ oid) ''object.store.requested'' ''object'' oid
      True trace [(''area'', ar), (''job_id'', ''job-'' @ oid)] db3 = Inr db4"
    and v: "v = submission_of oid False" "db' = db4"
    by (elim and_then_InrD) (auto split: if_splits)
  have oid: "rec_object_id (the_object (new_object c oid ar st final key trace fp now)) = oid" for fp
    by (simp add: new_object_def)
  have jid: "job_id (new_job (''job-'' @ oid) (''outbox-'' @ oid) oid mx None trace now) = ''job-'' @ oid"
    by (simp add: new_job_def)
  note e1 = insert_object_effect [OF o1, unfolded oid]
  note e3 = insert_job_effect [OF o3, unfolded jid]
  from o2 obtain a where a: "db2 = db1\<lparr>outbox := dict_set (scope_of c, ''outbox-'' @ oid) a (outbox db1)\<rparr>"
    by (rule insert_outbox_effect)
  from o4 obtain u where u: "db4 = db3\<lparr>audit_events :=
      dict_set (tenant_id c, ''audit-request-'' @ oid) u (audit_events db3)\<rparr>"
      "dict_get (audit_events db3) (tenant_id c, ''audit-request-'' @ oid) = None"
    by (rule insert_audit_effect)
  show ?thesis
    by (rule fresh [of u]) (use e1 e3 u(2) in \<open>simp_all add: None v u(1) a\<close>)
qed

lemma register_job_effect:
  assumes "register_object_job cfg c oid ar st final key trace mx now rollback s = (x, t)"
  obtains (same) "tables t = tables s"
  | (stored) n v where "x = Inr v" and "1 \<le> mx" and "mx \<le> 100" and "safe_id key"
      and "validate_staging c ar (staged_key st) = Inr ()" and "validate_final c ar final = Inr ()"
      and "capability c = ''object.write''"
      and "store_object_job cfg c oid ar st final key trace mx n rollback (tables s) = Inr (v, tables t)"
proof -
  have "tables t = tables s \<or> (\<exists>n v. x = Inr v \<and> 1 \<le> mx \<and> mx \<le> 100 \<and> safe_id key
      \<and> validate_staging c ar (staged_key st) = Inr () \<and> validate_final c ar final = Inr ()
      \<and> capability c = ''object.write''
      \<and> store_object_job cfg c oid ar st final key trace mx n rollback (tables s) = Inr (v, tables t))"
    using assms unfolding register_object_job_def
    by (auto simp: attempt_def safe_or_def read_utc_def elim!: transaction_effect
        split: if_splits sum.splits option.splits)
  then show thesis using same stored by blast
qed

lemma reprocess_effect:
  assumes "reprocess cfg c i key s = (x, t)"
  obtains (same) "tables t = tables s"
  | (fresh) r u now where "find_job_by_key (scope_of c) (reprocess_key i key) (tables s) = None"
      and "dict_get (jobs (tables s)) (scope_of c, i) = Some r" and "state (the_job r) = DeadLetter"
      and "x = Inr (new_job (''job-'' @ reprocess_digest cfg c i key) (''outbox-'' @ reprocess_digest cfg c i key)
        (object_id (the_job r)) (max_attempts (the_job r)) (Some (job_id (the_job r))) (job_trace_id (the_job r)) now)"
      and "dict_get (objects (tables s)) (scope_of c, object_id (the_job r)) \<noteq> None"
      and "dict_get (jobs (tables s)) (scope_of c, ''job-'' @ reprocess_digest cfg c i key) = None"
      and "jobs (tables t) = dict_set (scope_of c, ''job-'' @ reprocess_digest cfg c i key)
        \<lparr>the_job = new_job (''job-'' @ reprocess_digest cfg c i key) (''outbox-'' @ reprocess_digest cfg c i key)
          (object_id (the_job r)) (max_attempts (the_job r)) (Some (job_id (the_job r))) (job_trace_id (the_job r)) now,
         deduplication_key = reprocess_key i key, job_created_by = actor_id c, job_completed_at = None\<rparr>
        (jobs (tables s))"
      and "objects (tables t) = objects (set_object_status (scope_of c) (object_id (the_job r)) ObjectPending (tables s))"
      and "attempts (tables t) = attempts (tables s)" and "workspaces (tables t) = workspaces (tables s)"
      and "audit_events (tables t) = dict_set (tenant_id c, ''audit-reprocess-'' @ reprocess_digest cfg c i key) u
        (audit_events (tables s))"
proof (cases "tables t = tables s")
  case True
  then show ?thesis by (rule same)
next
  case False
  obtain s1 now v where s1: "read_utc cfg s = (now, s1)" and x: "x = Inr v"
    and body: "reprocess_job cfg c i key now (tables s) = Inr (v, tables t)"
    using assms False unfolding reprocess_def
    by (auto simp: attempt_def safe_or_def read_utc_def elim!: transaction_effect split: if_splits sum.splits)
  obtain r where none: "find_job_by_key (scope_of c) (reprocess_key i key) (tables s) = None"
    and r: "dict_get (jobs (tables s)) (scope_of c, i) = Some r" and dead: "state (the_job r) = DeadLetter"
    using body False by (auto simp: reprocess_job_def Let_def split: option.splits if_splits)
  define d where "d = reprocess_digest cfg c i key"
  define j where "j = new_job (''job-'' @ d) (''outbox-'' @ d) (object_id (the_job r)) (max_attempts (the_job r))
    (Some (job_id (the_job r))) (job_trace_id (the_job r)) now"
  have jid: "job_id j = ''job-'' @ d" by (simp add: j_def new_job_def)
  note body' = body [unfolded reprocess_job_def Let_def none option.case r eqTrueI [OF dead] not_True_eq_False if_False,
      folded d_def, folded j_def]
  from body' obtain db1 where
    o1: "insert_outbox (scope_of c) (''outbox-'' @ d) (object_id (the_job r)) (job_trace_id (the_job r)) now (tables s) = Inr db1"
    and rest1: "and_then (insert_job (scope_of c) j (reprocess_key i key) (actor_id c) db1) (\<lambda>db2.
      and_then (insert_audit c (''audit-reprocess-'' @ d) ''object.store.reprocessed'' ''job'' (job_id j) True
        (job_trace_id (the_job r)) [(''retry_of_job_id'', job_id (the_job r))]
        (set_object_status (scope_of c) (object_id (the_job r)) ObjectPending db2)) (\<lambda>db3. Inr (j, db3))) = Inr (v, tables t)"
    by (rule and_then_InrD)
  from rest1 obtain db2 where
    o2: "insert_job (scope_of c) j (reprocess_key i key) (actor_id c) db1 = Inr db2"
    and rest2: "and_then (insert_audit c (''audit-reprocess-'' @ d) ''object.store.reprocessed'' ''job'' (job_id j) True
        (job_trace_id (the_job r)) [(''retry_of_job_id'', job_id (the_job r))]
        (set_object_status (scope_of c) (object_id (the_job r)) ObjectPending db2)) (\<lambda>db3. Inr (j, db3)) = Inr (v, tables t)"
    by (rule and_then_InrD)
  from rest2 obtain db3 where
    o3: "insert_audit c (''audit-reprocess-'' @ d) ''object.store.reprocessed'' ''job'' (job_id j) True
      (job_trace_id (the_job r)) [(''retry_of_job_id'', job_id (the_job r))]
      (set_object_status (scope_of c) (object_id (the_job r)) ObjectPending db2) = Inr db3"
    and last: "(Inr (j, db3) :: queue_error + object_job \<times> queue_tables) = Inr (v, tables t)"
    by (rule and_then_InrD)
  have v: "v = j" "tables t = db3"
    using last by simp_all
  from o1 obtain a where a: "dict_get (objects (tables s)) (scope_of c, object_id (the_job r)) \<noteq> None"
    "db1 = tables s\<lparr>outbox := dict_set (scope_of c, ''outbox-'' @ d) a (outbox (tables s))\<rparr>"
    by (rule insert_outbox_effect)
  note e2 = insert_job_effect [OF o2, unfolded jid]
  from o3 obtain u where u: "db3 = (set_object_status (scope_of c) (object_id (the_job r)) ObjectPending db2)\<lparr>audit_events :=
      dict_set (tenant_id c, ''audit-reprocess-'' @ d) u
        (audit_events (set_object_status (scope_of c) (object_id (the_job r)) ObjectPending db2))\<rparr>"
    by (rule insert_audit_effect)
  show ?thesis
    by (rule fresh [OF none r dead, folded d_def, folded j_def, of now u])
      (use a(1) e2 in \<open>simp_all add: x v u a(2) statements set_object_status_def j_def\<close>)
qed

lemma seed_scope_effect:
  assumes "seed_scope cfg c s = (x, t)"
  shows "jobs (tables t) = jobs (tables s) \<and> objects (tables t) = objects (tables s)
    \<and> attempts (tables t) = attempts (tables s) \<and> audit_events (tables t) = audit_events (tables s)
    \<and> outbox (tables t) = outbox (tables s)
    \<and> set (workspaces (tables s)) \<subseteq> set (workspaces (tables t))"
  using assms [unfolded seed_scope_def]
  by (rule transaction_effect) (auto dest: sym [of _ "tables t"])

section \<open>Steps\<close>

type_synonym handed = "(scope \<times> object_job) set"

type_synonym world = "queue_state \<times> handed"

text \<open>A claim hands out the job it returns.\<close>

definition handed_over :: "cloud_context \<Rightarrow> queue_error + object_job option \<Rightarrow> handed \<Rightarrow> handed" where
  "handed_over c x H = (case x of Inr (Some j) \<Rightarrow> insert (scope_of c, j) H | _ \<Rightarrow> H)"

inductive queue_step :: "queue_config \<Rightarrow> scope \<Rightarrow> world \<Rightarrow> world \<Rightarrow> bool" for cfg where
  step_use: "tables t = tables s \<Longrightarrow> queue_step cfg sc (s, H) (t, H)"
| step_seed: "context_checked c \<Longrightarrow> seed_scope cfg c s = (x, t) \<Longrightarrow> queue_step cfg (scope_of c) (s, H) (t, H)"
| step_register: "context_checked c
    \<Longrightarrow> register_object_job cfg c oid ar st final key trace mx now rollback s = (x, t)
    \<Longrightarrow> queue_step cfg (scope_of c) (s, H) (t, H)"
| step_claim: "context_checked c \<Longrightarrow> claim cfg c wid now lease s = (x, t)
    \<Longrightarrow> queue_step cfg (scope_of c) (s, H) (t, handed_over c x H)"
| step_complete: "context_checked c \<Longrightarrow> (scope_of c, j) \<in> H \<Longrightarrow> complete cfg c j wid o' now s = (y, t)
    \<Longrightarrow> queue_step cfg (scope_of c) (s, H) (t, H)"
| step_fail: "context_checked c \<Longrightarrow> (scope_of c, j) \<in> H \<Longrightarrow> fail cfg c j wid err now retry_at s = (y, t)
    \<Longrightarrow> queue_step cfg (scope_of c) (s, H) (t, H)"
| step_reprocess: "context_checked c \<Longrightarrow> reprocess cfg c i key s = (y, t)
    \<Longrightarrow> queue_step cfg (scope_of c) (s, H) (t, H)"

definition queue_start :: "world \<Rightarrow> bool" where
  "queue_start w \<longleftrightarrow> tables (fst w) = empty_tables \<and> snd w = {}"

section \<open>The invariant\<close>

text \<open>A row of the job table, by itself.\<close>

definition job_ok :: "object_job \<Rightarrow> bool" where
  "job_ok j \<longleftrightarrow> 1 \<le> version j \<and> 1 \<le> max_attempts j \<and> max_attempts j \<le> 100
    \<and> (state j = Leased \<longleftrightarrow> lease_owner j \<noteq> None) \<and> (state j = Leased \<longleftrightarrow> lease_until j \<noteq> None)
    \<and> (state j = Pending \<longrightarrow> attempt_number j = 0)
    \<and> (state j \<noteq> Pending \<longrightarrow> 1 \<le> attempt_number j)
    \<and> (state j = RetryWait \<longrightarrow> attempt_number j < max_attempts j)"

text \<open>
  The record of an attempt, against the row of its job: earlier attempts were to be retried, the
  record of the current attempt is the state of the job, and no retry was left beyond the limit.
\<close>

definition attempt_ok :: "object_job \<Rightarrow> int \<Rightarrow> attempt_row \<Rightarrow> bool" where
  "attempt_ok j n a \<longleftrightarrow> 1 \<le> n \<and> n \<le> attempt_number j
    \<and> (n < attempt_number j \<longrightarrow> att_outcome a = RetryWait)
    \<and> (n = attempt_number j \<longrightarrow> att_outcome a = state j \<and> state j \<noteq> Leased)
    \<and> (att_outcome a = RetryWait \<longrightarrow> n < max_attempts j)"

definition job_rows_ok :: "queue_tables \<Rightarrow> bool" where
  "job_rows_ok db \<longleftrightarrow> (\<forall>sc i r. dict_get (jobs db) (sc, i) = Some r \<longrightarrow>
    job_id (the_job r) = i \<and> job_ok (the_job r)
    \<and> dict_get (objects db) (sc, object_id (the_job r)) \<noteq> None
    \<and> (state (the_job r) \<in> {RetryWait, Completed, DeadLetter} \<longrightarrow>
        (\<exists>a. dict_get (attempts db) (sc, i, attempt_number (the_job r)) = Some a)))"

definition attempt_rows_ok :: "queue_tables \<Rightarrow> bool" where
  "attempt_rows_ok db \<longleftrightarrow> (\<forall>sc i n a. dict_get (attempts db) (sc, i, n) = Some a \<longrightarrow>
    (\<exists>r. dict_get (jobs db) (sc, i) = Some r \<and> attempt_ok (the_job r) n a))"

text \<open>A copy that was handed out is the row itself, or the row went on to a later version.\<close>

definition handed_ok :: "queue_tables \<Rightarrow> handed \<Rightarrow> bool" where
  "handed_ok db H \<longleftrightarrow> (\<forall>sc j. (sc, j) \<in> H \<longrightarrow> state j = Leased \<and> (\<exists>r. dict_get (jobs db) (sc, job_id j) = Some r
    \<and> (the_job r = j \<or> version j < version (the_job r))))"

text \<open>The audit events about an attempt belong to a record of it.\<close>

definition audit_key :: "string \<Rightarrow> string \<Rightarrow> int \<Rightarrow> string" where
  "audit_key kind i n = kind @ i @ ''-'' @ dec_int n"

definition audit_ok :: "queue_tables \<Rightarrow> bool" where
  "audit_ok db \<longleftrightarrow> (\<forall>tn i n kind. 1 \<le> n \<and> kind \<in> {''audit-complete-'', ''audit-attempt-''} \<and>
    dict_get (audit_events db) (tn, audit_key kind i n) \<noteq> None \<longrightarrow>
    (\<exists>ws. dict_get (attempts db) ((tn, ws), i, n) \<noteq> None))"

definition completed_ok :: "queue_tables \<Rightarrow> bool" where
  "completed_ok db \<longleftrightarrow> (\<forall>sc oid b. dict_get (objects db) (sc, oid) = Some b \<longrightarrow>
    rec_object_id (the_object b) = oid \<and>
    (status (the_object b) = ObjectCompleted \<longrightarrow> storage_etag (the_object b) \<noteq> None
      \<and> (\<exists>i r. dict_get (jobs db) (sc, i) = Some r \<and> object_id (the_job r) = oid
          \<and> state (the_job r) = Completed)))"

definition keys_ok :: "queue_tables \<Rightarrow> bool" where
  "keys_ok db \<longleftrightarrow> dict_ok (jobs db) \<and> dict_ok (objects db) \<and> dict_ok (attempts db)
    \<and> dict_ok (audit_events db)"

definition queue_inv :: "world \<Rightarrow> bool" where
  "queue_inv w \<longleftrightarrow> keys_ok (tables (fst w)) \<and> job_rows_ok (tables (fst w))
    \<and> attempt_rows_ok (tables (fst w)) \<and> handed_ok (tables (fst w)) (snd w)
    \<and> audit_ok (tables (fst w)) \<and> completed_ok (tables (fst w))"

section \<open>What keeps the invariant\<close>

lemma job_rows_okD:
  assumes "job_rows_ok db" and "dict_get (jobs db) (sc, i) = Some r"
  shows "job_id (the_job r) = i" "job_ok (the_job r)"
    "dict_get (objects db) (sc, object_id (the_job r)) \<noteq> None"
    "state (the_job r) \<in> {RetryWait, Completed, DeadLetter} \<Longrightarrow>
      \<exists>a. dict_get (attempts db) (sc, i, attempt_number (the_job r)) = Some a"
  using assms unfolding job_rows_ok_def by blast+

lemma job_rows_put:
  assumes "job_rows_ok db" and "jobs db' = dict_set (sc, i) r' (jobs db)"
    and "job_id (the_job r') = i" and "job_ok (the_job r')"
    and "dict_get (objects db') (sc, object_id (the_job r')) \<noteq> None"
    and "state (the_job r') \<in> {RetryWait, Completed, DeadLetter} \<Longrightarrow>
      dict_get (attempts db') (sc, i, attempt_number (the_job r')) \<noteq> None"
    and "\<And>k. dict_get (objects db) k \<noteq> None \<Longrightarrow> dict_get (objects db') k \<noteq> None"
    and "\<And>k. dict_get (attempts db) k \<noteq> None \<Longrightarrow> dict_get (attempts db') k \<noteq> None"
  shows "job_rows_ok db'"
  unfolding job_rows_ok_def
proof (intro allI impI)
  fix sc0 i0 r
  assume r: "dict_get (jobs db') (sc0, i0) = Some r"
  show "job_id (the_job r) = i0 \<and> job_ok (the_job r)
    \<and> dict_get (objects db') (sc0, object_id (the_job r)) \<noteq> None
    \<and> (state (the_job r) \<in> {RetryWait, Completed, DeadLetter} \<longrightarrow>
        (\<exists>a. dict_get (attempts db') (sc0, i0, attempt_number (the_job r)) = Some a))"
  proof (cases "(sc0, i0) = (sc, i)")
    case True
    with r assms(2) have "r = r'" by simp
    with True assms(3-6) show ?thesis by auto
  next
    case False
    with r assms(2) have "dict_get (jobs db) (sc0, i0) = Some r" by (simp split: if_splits)
    note old = job_rows_okD [OF assms(1) this]
    show ?thesis
      using old(1,2) assms(7) [OF old(3)] old(4) assms(8) by (metis not_None_eq)
  qed
qed

lemma attempt_rows_put:
  assumes "attempt_rows_ok db" and "jobs db' = dict_set (sc, i) r' (jobs db)"
    and "\<And>n a. dict_get (attempts db') (sc, i, n) = Some a \<Longrightarrow> attempt_ok (the_job r') n a"
    and "\<And>sc0 i0 n. (sc0, i0) \<noteq> (sc, i) \<Longrightarrow>
      dict_get (attempts db') (sc0, i0, n) = dict_get (attempts db) (sc0, i0, n)"
  shows "attempt_rows_ok db'"
  unfolding attempt_rows_ok_def
proof (intro allI impI)
  fix sc0 i0 n a
  assume a: "dict_get (attempts db') (sc0, i0, n) = Some a"
  show "\<exists>r. dict_get (jobs db') (sc0, i0) = Some r \<and> attempt_ok (the_job r) n a"
  proof (cases "(sc0, i0) = (sc, i)")
    case True
    with a assms(2,3) show ?thesis by simp
  next
    case False
    with a assms(4) have "dict_get (attempts db) (sc0, i0, n) = Some a" by simp
    with assms(1) obtain r where "dict_get (jobs db) (sc0, i0) = Some r" "attempt_ok (the_job r) n a"
      unfolding attempt_rows_ok_def by blast
    with False assms(2) show ?thesis by auto
  qed
qed

lemma handed_put:
  assumes "handed_ok db H" and "jobs db' = dict_set (sc, i) r' (jobs db)"
    and "\<And>r. dict_get (jobs db) (sc, i) = Some r \<Longrightarrow> version (the_job r) < version (the_job r')"
  shows "handed_ok db' H"
  unfolding handed_ok_def
proof (intro allI impI)
  fix sc0 j
  assume "(sc0, j) \<in> H"
  with assms(1) obtain r where "state j = Leased" and r: "dict_get (jobs db) (sc0, job_id j) = Some r"
    and v: "the_job r = j \<or> version j < version (the_job r)"
    unfolding handed_ok_def by blast
  moreover have "version j < version (the_job r')" if "(sc0, job_id j) = (sc, i)"
    using assms(3) [of r] r v that by auto
  ultimately show "state j = Leased \<and> (\<exists>r. dict_get (jobs db') (sc0, job_id j) = Some r
      \<and> (the_job r = j \<or> version j < version (the_job r)))"
    using assms(2) by auto
qed

lemma completed_put:
  assumes "completed_ok db" and "jobs db' = dict_set (sc, i) r' (jobs db)"
    and "\<And>r. dict_get (jobs db) (sc, i) = Some r \<Longrightarrow> state (the_job r) \<noteq> Completed"
    and "\<And>sc0 oid b. dict_get (objects db') (sc0, oid) = Some b \<Longrightarrow> rec_object_id (the_object b) = oid
      \<and> (status (the_object b) = ObjectCompleted \<longrightarrow>
          dict_get (objects db) (sc0, oid) = Some b
          \<or> sc0 = sc \<and> storage_etag (the_object b) \<noteq> None \<and> object_id (the_job r') = oid
              \<and> state (the_job r') = Completed)"
  shows "completed_ok db'"
  unfolding completed_ok_def
proof (intro allI impI conjI)
  fix sc0 oid b
  assume b: "dict_get (objects db') (sc0, oid) = Some b"
  then show "rec_object_id (the_object b) = oid" using assms(4) by blast
  assume c: "status (the_object b) = ObjectCompleted"
  consider (old) "dict_get (objects db) (sc0, oid) = Some b"
    | (new) "sc0 = sc" "storage_etag (the_object b) \<noteq> None" "object_id (the_job r') = oid"
        "state (the_job r') = Completed"
    using assms(4) [OF b] c by blast
  then have "storage_etag (the_object b) \<noteq> None \<and> (\<exists>i r. dict_get (jobs db') (sc0, i) = Some r
      \<and> object_id (the_job r) = oid \<and> state (the_job r) = Completed)"
  proof cases
    case old
    with assms(1) c obtain i0 r where e: "storage_etag (the_object b) \<noteq> None"
      and r: "dict_get (jobs db) (sc0, i0) = Some r" "object_id (the_job r) = oid" "state (the_job r) = Completed"
      unfolding completed_ok_def by blast
    then have "(sc0, i0) \<noteq> (sc, i)" using assms(3) by blast
    with e r assms(2) show ?thesis by (intro conjI exI [of _ i0] exI [of _ r]) auto
  next
    case new
    with assms(2) show ?thesis by (intro conjI exI [of _ i] exI [of _ r']) auto
  qed
  then show "storage_etag (the_object b) \<noteq> None"
    and "\<exists>i r. dict_get (jobs db') (sc0, i) = Some r \<and> object_id (the_job r) = oid
      \<and> state (the_job r) = Completed" by blast+
qed

lemma object_row_id:
  "completed_ok db \<Longrightarrow> dict_get (objects db) (sc, oid) = Some b \<Longrightarrow> rec_object_id (the_object b) = oid"
  unfolding completed_ok_def by blast

text \<open>The number of an attempt is the digits behind the last dash of the key of its event.\<close>

lemma dec_int_digits: "0 \<le> n \<Longrightarrow> CHR ''-'' \<notin> set (dec_int n)"
proof -
  have "CHR ''-'' \<notin> set (dec_nat m)" for m
  proof (induction m rule: dec_nat.induct)
    case (1 m)
    have digit: "CHR ''-'' \<noteq> char_of (48 + k)" if "k < 10" for k :: nat
    proof
      assume "CHR ''-'' = char_of (48 + k)"
      then have "of_char (CHR ''-'') = (of_char (char_of (48 + k)) :: nat)" by simp
      with that show False by (simp add: of_char_of)
    qed
    show ?case
      using 1 digit [of m] digit [of "m mod 10"] by (subst dec_nat.simps) auto
  qed
  then show "0 \<le> n \<Longrightarrow> ?thesis" by (simp add: dec_int_def)
qed

lemma first_split:
  "x \<notin> set xs \<Longrightarrow> x \<notin> set us \<Longrightarrow> xs @ x # ys = us @ x # vs \<Longrightarrow> xs = us \<and> ys = vs"
proof (induction xs arbitrary: us)
  case Nil
  then show ?case by (cases us) auto
next
  case (Cons y xs)
  then show ?case by (cases us) auto
qed

lemma audit_key_inject:
  assumes "audit_key kind i n = audit_key kind i' n'" and "0 \<le> n" and "0 \<le> n'"
  shows "i = i' \<and> n = n'"
proof -
  have eq: "i @ CHR ''-'' # dec_int n = i' @ CHR ''-'' # dec_int n'"
    using assms(1) by (simp add: audit_key_def)
  have "rev (dec_int n) @ CHR ''-'' # rev i = rev (dec_int n') @ CHR ''-'' # rev i'"
    using arg_cong [OF eq, of rev] by simp
  then have "rev (dec_int n) = rev (dec_int n') \<and> rev i = rev i'"
    using dec_int_digits [OF assms(2)] dec_int_digits [OF assms(3)] by (intro first_split) auto
  then have "i = i' \<and> dec_int n = dec_int n'" by simp
  then show ?thesis using assms(2,3) by (auto simp: dec_int_def dec_nat_inject)
qed

lemma audit_put:
  assumes "audit_ok db" and "audit_events db' = dict_set (tn, k) u (audit_events db)"
    and "\<And>key. dict_get (attempts db) key \<noteq> None \<Longrightarrow> dict_get (attempts db') key \<noteq> None"
    and "\<And>kind i n. kind \<in> {''audit-complete-'', ''audit-attempt-''} \<Longrightarrow> 1 \<le> n \<Longrightarrow> k = audit_key kind i n
      \<Longrightarrow> \<exists>ws. dict_get (attempts db') ((tn, ws), i, n) \<noteq> None"
  shows "audit_ok db'"
  unfolding audit_ok_def
proof (intro allI impI)
  fix tn0 i n kind
  assume a: "1 \<le> n \<and> kind \<in> {''audit-complete-'', ''audit-attempt-''}
    \<and> dict_get (audit_events db') (tn0, audit_key kind i n) \<noteq> None"
  show "\<exists>ws. dict_get (attempts db') ((tn0, ws), i, n) \<noteq> None"
  proof (cases "(tn0, audit_key kind i n) = (tn, k)")
    case True
    then have "tn0 = tn" and "k = audit_key kind i n" by simp_all
    with a assms(4) [of kind n i] show ?thesis by blast
  next
    case False
    with a assms(2) have "dict_get (audit_events db) (tn0, audit_key kind i n) \<noteq> None" by auto
    with a assms(1) obtain ws where "dict_get (attempts db) ((tn0, ws), i, n) \<noteq> None"
      unfolding audit_ok_def by blast
    then show ?thesis using assms(3) by blast
  qed
qed

section \<open>Every step keeps the invariant\<close>

lemma queue_invI:
  assumes "keys_ok (tables t)" and "job_rows_ok (tables t)" and "attempt_rows_ok (tables t)"
    and "handed_ok (tables t) H" and "audit_ok (tables t)" and "completed_ok (tables t)"
  shows "queue_inv (t, H)"
  using assms by (simp add: queue_inv_def)

lemma queue_invD:
  assumes "queue_inv (s, H)"
  shows "keys_ok (tables s)" "job_rows_ok (tables s)" "attempt_rows_ok (tables s)"
    "handed_ok (tables s) H" "audit_ok (tables s)" "completed_ok (tables s)"
  using assms by (simp_all add: queue_inv_def)

lemma queue_inv_same: "queue_inv (s, H) \<Longrightarrow> tables t = tables s \<Longrightarrow> queue_inv (t, H)"
  by (simp add: queue_inv_def)

lemma queue_inv_start: "queue_start w \<Longrightarrow> queue_inv w"
  by (auto simp: queue_start_def queue_inv_def empty_tables_def keys_ok_def job_rows_ok_def
      attempt_rows_ok_def handed_ok_def audit_ok_def completed_ok_def)

lemma queue_inv_seed:
  assumes "queue_inv (s, H)" and "seed_scope cfg c s = (x, t)"
  shows "queue_inv (t, H)"
proof -
  have e: "jobs (tables t) = jobs (tables s)" "objects (tables t) = objects (tables s)"
    "attempts (tables t) = attempts (tables s)" "audit_events (tables t) = audit_events (tables s)"
    using seed_scope_effect [OF assms(2)] by simp_all
  show ?thesis
    using assms(1) unfolding queue_inv_def keys_ok_def job_rows_ok_def attempt_rows_ok_def handed_ok_def
      audit_ok_def completed_ok_def fst_conv snd_conv e .
qed

text \<open>A new job starts pending, under a key that was free, with no attempts.\<close>

lemma no_job_no_attempts:
  assumes "attempt_rows_ok db" and "dict_get (jobs db) (sc, i) = None"
  shows "dict_get (attempts db) (sc, i, n) = None"
proof (rule ccontr)
  assume "dict_get (attempts db) (sc, i, n) \<noteq> None"
  then obtain a where "dict_get (attempts db) (sc, i, n) = Some a" by blast
  with assms show False unfolding attempt_rows_ok_def by fastforce
qed

lemma queue_inv_new_job:
  assumes inv: "queue_inv (s, H)"
    and free: "dict_get (jobs (tables s)) (sc, i) = None"
    and put: "jobs (tables t) = dict_set (sc, i) r' (jobs (tables s))"
    and r': "the_job r' = new_job i ev oid mx retry trace now" "1 \<le> mx" "mx \<le> 100"
    and att: "attempts (tables t) = attempts (tables s)"
    and objs: "\<And>k. dict_get (objects (tables s)) k \<noteq> None \<Longrightarrow> dict_get (objects (tables t)) k \<noteq> None"
      "dict_get (objects (tables t)) (sc, oid) \<noteq> None" "dict_ok (objects (tables t))"
      "\<And>sc0 oid b. dict_get (objects (tables t)) (sc0, oid) = Some b \<Longrightarrow> rec_object_id (the_object b) = oid
        \<and> (status (the_object b) = ObjectCompleted \<longrightarrow> dict_get (objects (tables s)) (sc0, oid) = Some b)"
    and aud: "audit_events (tables t) = dict_set (tn, k) u (audit_events (tables s))"
      "\<And>kind i n. kind \<in> {''audit-complete-'', ''audit-attempt-''} \<Longrightarrow> k \<noteq> audit_key kind i n"
  shows "queue_inv (t, H)"
proof (rule queue_invI)
  note old = queue_invD [OF inv]
  show "keys_ok (tables t)"
    using old(1) objs(3) by (simp add: keys_ok_def put att aud(1))
  show "job_rows_ok (tables t)"
    by (rule job_rows_put [OF old(2) put])
      (use r' objs(1,2) in \<open>simp_all add: new_job_def job_ok_def att\<close>)
  show "attempt_rows_ok (tables t)"
    by (rule attempt_rows_put [OF old(3) put])
      (use no_job_no_attempts [OF old(3) free] in \<open>simp_all add: att\<close>)
  show "handed_ok (tables t) H"
    by (rule handed_put [OF old(4) put]) (simp add: free)
  show "audit_ok (tables t)"
    by (rule audit_put [OF old(5) aud(1)]) (use aud(2) in \<open>auto simp: att\<close>)
  show "completed_ok (tables t)"
    by (rule completed_put [OF old(6) put]) (use free objs(4) in auto)
qed

lemma audit_key_kinds:
  assumes "kind \<in> {''audit-complete-'', ''audit-attempt-''}"
  shows "''audit-request-'' @ x \<noteq> audit_key kind i n" "''audit-reprocess-'' @ x \<noteq> audit_key kind i n"
  using assms by (auto simp: audit_key_def)

lemma queue_inv_register:
  assumes inv: "queue_inv (s, H)"
    and "register_object_job cfg c oid ar st final key trace mx now rollback s = (x, t)"
  shows "queue_inv (t, H)"
  using assms(2)
proof (rule register_job_effect)
  assume "tables t = tables s"
  then show ?thesis by (rule queue_inv_same [OF inv])
next
  fix n v
  assume mx: "1 \<le> mx" "mx \<le> 100"
    and st: "store_object_job cfg c oid ar st final key trace mx n rollback (tables s) = Inr (v, tables t)"
  from st show ?thesis
  proof (rule store_object_job_effect)
    assume "tables t = tables s"
    then show ?thesis by (rule queue_inv_same [OF inv])
  next
    fix u
    assume free: "dict_get (jobs (tables s)) (scope_of c, ''job-'' @ oid) = None"
      and none: "dict_get (objects (tables s)) (scope_of c, oid) = None"
      and jobs: "jobs (tables t) = dict_set (scope_of c, ''job-'' @ oid)
        \<lparr>the_job = new_job (''job-'' @ oid) (''outbox-'' @ oid) oid mx None trace n,
         deduplication_key = key, job_created_by = actor_id c, job_completed_at = None\<rparr> (jobs (tables s))"
      and objs: "objects (tables t) = dict_set (scope_of c, oid)
        (new_object c oid ar st final key trace (submission_fingerprint cfg ar st) n) (objects (tables s))"
      and att: "attempts (tables t) = attempts (tables s)"
      and aud: "audit_events (tables t) = dict_set (tenant_id c, ''audit-request-'' @ oid) u (audit_events (tables s))"
    have old: "completed_ok (tables s)" "keys_ok (tables s)" using queue_invD [OF inv] by simp_all
    show ?thesis
      by (rule queue_inv_new_job [OF inv free jobs job_row.select_convs(1) mx att _ _ _ _ aud])
        (use old none audit_key_kinds(1) in \<open>auto simp: objs new_object_def completed_ok_def keys_ok_def split: if_splits\<close>)
  qed
qed

lemma queue_inv_reprocess:
  assumes inv: "queue_inv (s, H)" and "reprocess cfg c i key s = (x, t)"
  shows "queue_inv (t, H)"
  using assms(2)
proof (rule reprocess_effect)
  assume "tables t = tables s"
  then show ?thesis by (rule queue_inv_same [OF inv])
next
  fix r u now
  define d where "d = reprocess_digest cfg c i key"
  assume r: "dict_get (jobs (tables s)) (scope_of c, i) = Some r"
    and b: "dict_get (objects (tables s)) (scope_of c, object_id (the_job r)) \<noteq> None"
    and free: "dict_get (jobs (tables s)) (scope_of c, ''job-'' @ reprocess_digest cfg c i key) = None"
    and jobs: "jobs (tables t) = dict_set (scope_of c, ''job-'' @ reprocess_digest cfg c i key)
        \<lparr>the_job = new_job (''job-'' @ reprocess_digest cfg c i key) (''outbox-'' @ reprocess_digest cfg c i key)
          (object_id (the_job r)) (max_attempts (the_job r)) (Some (job_id (the_job r))) (job_trace_id (the_job r)) now,
         deduplication_key = reprocess_key i key, job_created_by = actor_id c, job_completed_at = None\<rparr>
        (jobs (tables s))"
    and objs: "objects (tables t) = objects (set_object_status (scope_of c) (object_id (the_job r)) ObjectPending (tables s))"
    and att: "attempts (tables t) = attempts (tables s)"
    and aud: "audit_events (tables t) = dict_set (tenant_id c, ''audit-reprocess-'' @ reprocess_digest cfg c i key) u
        (audit_events (tables s))"
  have old: "completed_ok (tables s)" "keys_ok (tables s)" "job_ok (the_job r)"
    using queue_invD [OF inv] job_rows_okD(2) [OF _ r] by simp_all
  then have mx: "1 \<le> max_attempts (the_job r)" "max_attempts (the_job r) \<le> 100"
    by (simp_all add: job_ok_def)
  show ?thesis
    by (rule queue_inv_new_job [OF inv free jobs job_row.select_convs(1) mx att _ _ _ _ aud])
      (use old(2) b audit_key_kinds(2) in \<open>auto simp: objs set_object_status_def update_row_get keys_ok_def
        intro: object_row_id [OF old(1)] split: if_splits\<close>)
qed

text \<open>A claim moves a job that is due to a lease of the next version and attempt.\<close>

lemma leased_to_simps [simp]:
  "job_id (leased_to wid u j) = job_id j" "object_id (leased_to wid u j) = object_id j"
  "event_id (leased_to wid u j) = event_id j"
  "state (leased_to wid u j) = Leased" "version (leased_to wid u j) = version j + 1"
  "attempt_number (leased_to wid u j) = attempt_number j + 1"
  "max_attempts (leased_to wid u j) = max_attempts j"
  "lease_owner (leased_to wid u j) = Some wid" "lease_until (leased_to wid u j) = Some u"
  by (simp_all add: leased_to_def)

lemma due_live: "due now j \<Longrightarrow> state j \<in> {Pending, RetryWait, Leased}"
  by (auto simp: due_def)

lemma attempt_rows_okD:
  assumes "attempt_rows_ok db" and "dict_get (attempts db) (sc, i, n) = Some a"
    and "dict_get (jobs db) (sc, i) = Some r"
  shows "attempt_ok (the_job r) n a"
proof -
  obtain r' where "dict_get (jobs db) (sc, i) = Some r'" "attempt_ok (the_job r') n a"
    using assms(1,2) unfolding attempt_rows_ok_def by blast
  with assms(3) show ?thesis by simp
qed

lemma attempt_ok_leased:
  assumes "attempt_ok j n a" and "due now j" and "job_ok j"
  shows "attempt_ok (leased_to wid u j) n a"
  using assms due_live [OF assms(2)] by (auto simp: attempt_ok_def job_ok_def)

lemma queue_inv_claim:
  assumes inv: "queue_inv (s, H)" and "claim cfg c wid now lease s = (x, t)"
  shows "queue_inv (t, handed_over c x H)"
  using assms(2)
proof (cases rule: claim_effect)
  case none
  have "handed_over c x H = H"
    using none(2) by (auto simp: handed_over_def split: sum.splits option.splits)
  with queue_inv_same [OF inv none(1)] show ?thesis by simp
next
  case (leased r)
  note old = queue_invD [OF inv]
  have ok: "dict_ok (jobs (tables s))" using old(1) by (simp add: keys_ok_def)
  obtain i where i: "dict_get (jobs (tables s)) (scope_of c, i) = Some r" and due: "due now (the_job r)"
    using first_due_mem [OF ok leased(1)] by blast
  note row = job_rows_okD [OF old(2) i]
  define j where "j = leased_to wid (now + timedelta_us lease) (the_job r)"
  have put: "jobs (tables t) = dict_set (scope_of c, i) (r\<lparr>the_job := j\<rparr>) (jobs (tables s))"
    using row(1) by (simp add: leased(4) statements j_def)
  have rest: "objects (tables t) = objects (tables s)" "attempts (tables t) = attempts (tables s)"
    "audit_events (tables t) = audit_events (tables s)"
    by (simp_all add: leased(4) statements)
  have live: "state (the_job r) \<in> {Pending, RetryWait, Leased}" by (rule due_live [OF due])
  have H: "handed_over c x H = insert (scope_of c, j) H"
    by (simp add: handed_over_def leased(2) j_def)
  show ?thesis
    unfolding H
  proof (rule queue_invI)
    show "keys_ok (tables t)" using old(1) by (simp add: keys_ok_def put rest)
    show "job_rows_ok (tables t)"
      by (rule job_rows_put [OF old(2) put])
        (use row live in \<open>auto simp: j_def rest job_ok_def\<close>)
    show "attempt_rows_ok (tables t)"
      by (rule attempt_rows_put [OF old(3) put])
        (use attempt_ok_leased [OF attempt_rows_okD [OF old(3) _ i] due row(2)] in \<open>simp_all add: rest j_def\<close>)
    have "handed_ok (tables t) H"
      by (rule handed_put [OF old(4) put]) (use i in \<open>simp add: j_def\<close>)
    then show "handed_ok (tables t) (insert (scope_of c, j) H)"
      using row(1) by (auto simp: handed_ok_def put j_def)
    show "audit_ok (tables t)" using old(5) unfolding audit_ok_def rest .
    show "completed_ok (tables t)"
      by (rule completed_put [OF old(6) put])
        (use i live object_row_id [OF old(6)] in \<open>auto simp: rest\<close>)
  qed
qed

text \<open>A report that is accepted is about the row as it was handed out.\<close>

lemma lease_copy:
  assumes "handed_ok db H" and "(sc, j) \<in> H" and "dict_get (jobs db) (sc, job_id j) = Some r"
    and "assert_lease j (the_job r) wid now = Inr ()"
  shows "the_job r = j"
  using assms unfolding handed_ok_def assert_lease_ok by fastforce

lemma ended_job_simps [simp]:
  "job_id (ended st j) = job_id j" "object_id (ended st j) = object_id j"
  "state (ended st j) = st" "version (ended st j) = version j + 1"
  "attempt_number (ended st j) = attempt_number j" "max_attempts (ended st j) = max_attempts j"
  "lease_owner (ended st j) = None" "lease_until (ended st j) = None"
  by (simp_all add: ended_def)

lemma queue_inv_report:
  assumes inv: "queue_inv (s, H)"
    and r: "dict_get (jobs (tables s)) (sc, i) = Some r" and leased: "state (the_job r) = Leased"
    and put: "jobs (tables t) = dict_set (sc, i) r' (jobs (tables s))"
    and r': "job_id (the_job r') = i" "object_id (the_job r') = object_id (the_job r)"
      "attempt_number (the_job r') = attempt_number (the_job r)"
      "max_attempts (the_job r') = max_attempts (the_job r)" "version (the_job r') = version (the_job r) + 1"
      "lease_owner (the_job r') = None" "lease_until (the_job r') = None"
      "state (the_job r') = st" "st \<in> {RetryWait, Completed, DeadLetter}"
      "st = RetryWait \<Longrightarrow> attempt_number (the_job r) < max_attempts (the_job r)"
    and att: "attempts (tables t) = dict_set (sc, i, attempt_number (the_job r)) a (attempts (tables s))"
      "att_outcome a = st"
    and objs: "\<And>k. dict_get (objects (tables s)) k \<noteq> None \<Longrightarrow> dict_get (objects (tables t)) k \<noteq> None"
      "dict_ok (objects (tables t))"
      "\<And>sc0 oid b. dict_get (objects (tables t)) (sc0, oid) = Some b \<Longrightarrow> rec_object_id (the_object b) = oid
        \<and> (status (the_object b) = ObjectCompleted \<longrightarrow> dict_get (objects (tables s)) (sc0, oid) = Some b
          \<or> sc0 = sc \<and> storage_etag (the_object b) \<noteq> None \<and> object_id (the_job r) = oid \<and> st = Completed)"
    and aud: "audit_events (tables t) = dict_set (fst sc, audit_key kind i (attempt_number (the_job r))) u
        (audit_events (tables s))"
      "kind \<in> {''audit-complete-'', ''audit-attempt-''}"
  shows "queue_inv (t, H)"
proof (rule queue_invI)
  note old = queue_invD [OF inv] and row = job_rows_okD [OF queue_invD(2) [OF inv] r]
  have pos: "1 \<le> attempt_number (the_job r)"
    using row(2) leased by (simp add: job_ok_def)
  show "keys_ok (tables t)"
    using old(1) objs(2) by (simp add: keys_ok_def put att(1) aud(1))
  show "job_rows_ok (tables t)"
    by (rule job_rows_put [OF old(2) put])
      (use r' row objs(1) pos in \<open>auto simp: att(1) job_ok_def\<close>)
  have stays: "attempt_ok (the_job r') n b" if "attempt_ok (the_job r) n b" for n b
    using that leased r' by (auto simp: attempt_ok_def)
  show "attempt_rows_ok (tables t)"
    by (rule attempt_rows_put [OF old(3) put])
      (use stays [OF attempt_rows_okD [OF old(3) _ r]] r' pos att(2) in
        \<open>auto simp: att(1) attempt_ok_def split: if_splits\<close>)
  show "handed_ok (tables t) H"
    by (rule handed_put [OF old(4) put]) (use r r'(5) in simp)
  show "audit_ok (tables t)"
  proof (rule audit_put [OF old(5) aud(1)])
    fix kind' i' n'
    assume k: "kind' \<in> {''audit-complete-'', ''audit-attempt-''}" "1 \<le> n'"
      and eq: "audit_key kind i (attempt_number (the_job r)) = audit_key kind' i' n'"
    have "kind = kind'" using k(1) aud(2) eq by (auto simp: audit_key_def)
    then have "i' = i \<and> n' = attempt_number (the_job r)"
      using audit_key_inject [of kind i "attempt_number (the_job r)" i' n'] eq k(2) pos by simp
    then show "\<exists>ws. dict_get (attempts (tables t)) ((fst sc, ws), i', n') \<noteq> None"
      by (intro exI [of _ "snd sc"]) (simp add: att(1))
  qed (simp add: att(1))
  show "completed_ok (tables t)"
    by (rule completed_put [OF old(6) put]) (use r r' leased objs(3) in auto)
qed

lemma queue_inv_complete:
  assumes inv: "queue_inv (s, H)" and "(scope_of c, j) \<in> H"
    and "complete cfg c j wid x now s = (y, t)"
  shows "queue_inv (t, H)"
  using assms(3)
proof (cases rule: complete_effect)
  case (same e)
  show ?thesis by (rule queue_inv_same [OF inv same(2)])
next
  case (completed r b a u)
  note old = queue_invD [OF inv]
  have j: "the_job r = j"
    by (rule lease_copy [OF old(4) assms(2) completed(2,3)])
  have leased: "state (the_job r) = Leased"
    using completed(3) by (simp add: assert_lease_ok)
  have tn: "fst (scope_of c) = tenant_id c" by (simp add: scope_of_def)
  show ?thesis
  proof (rule queue_inv_report [OF inv completed(2) leased completed(6) [unfolded j], where st = Completed and a = a and u = u
        and kind = "''audit-complete-''"])
    show "audit_events (tables t) = dict_set (fst (scope_of c),
        audit_key ''audit-complete-'' (job_id j) (attempt_number (the_job r))) u (audit_events (tables s))"
      by (simp add: completed(12) tn audit_key_def j)
    fix sc0 oid b'
    assume b': "dict_get (objects (tables t)) (sc0, oid) = Some b'"
    show "rec_object_id (the_object b') = oid
      \<and> (status (the_object b') = ObjectCompleted \<longrightarrow> dict_get (objects (tables s)) (sc0, oid) = Some b'
        \<or> sc0 = scope_of c \<and> storage_etag (the_object b') \<noteq> None \<and> object_id (the_job r) = oid
          \<and> Completed = Completed)"
    proof (cases "(sc0, oid) = (scope_of c, object_id j)")
      case True
      with b' completed(7) object_row_id [OF old(6) completed(4)] show ?thesis by (auto simp: j)
    next
      case False
      with b' completed(7) have "dict_get (objects (tables s)) (sc0, oid) = Some b'" by auto
      with object_row_id [OF old(6)] show ?thesis by blast
    qed
  qed (use completed old(1) in \<open>simp_all add: j keys_ok_def\<close>)
qed

lemma queue_inv_fail:
  assumes inv: "queue_inv (s, H)" and "(scope_of c, j) \<in> H"
    and "fail cfg c j wid err now retry_at s = (y, t)"
  shows "queue_inv (t, H)"
  using assms(3)
proof (cases rule: fail_effect)
  case (same e)
  show ?thesis by (rule queue_inv_same [OF inv same(2)])
next
  case (failed r a u st j1)
  note old = queue_invD [OF inv]
  have j: "the_job r = j"
    by (rule lease_copy [OF old(4) assms(2) failed(4,5)])
  have leased: "state (the_job r) = Leased"
    using failed(5) by (simp add: assert_lease_ok)
  have tn: "fst (scope_of c) = tenant_id c" by (simp add: scope_of_def)
  have objs: "rec_object_id (the_object b) = oid
      \<and> (status (the_object b) = ObjectCompleted \<longrightarrow> dict_get (objects (tables s)) (sc0, oid) = Some b)"
    if b: "dict_get (objects (tables t)) (sc0, oid) = Some b" for sc0 oid b
  proof (cases "st \<noteq> RetryWait \<and> (sc0, oid) = (scope_of c, object_id j)")
    case True
    with b failed(7) obtain b0 where "dict_get (objects (tables s)) (sc0, oid) = Some b0"
      and "b = b0\<lparr>the_object := (the_object b0)\<lparr>status := ObjectFailed,
        object_version := object_version (the_object b0) + 1\<rparr>\<rparr>"
      by (auto simp: set_object_status_def update_row_get)
    with object_row_id [OF old(6)] show ?thesis by fastforce
  next
    case False
    with b failed(7) have "dict_get (objects (tables s)) (sc0, oid) = Some b"
      by (auto simp: set_object_status_def update_row_get split: if_splits)
    with object_row_id [OF old(6)] show ?thesis by blast
  qed
  show ?thesis
  proof (rule queue_inv_report [OF inv failed(4) leased failed(6) [unfolded j], where st = st and a = a and u = u
        and kind = "''audit-attempt-''"])
    show "audit_events (tables t) = dict_set (fst (scope_of c),
        audit_key ''audit-attempt-'' (job_id j) (attempt_number (the_job r))) u (audit_events (tables s))"
      by (simp add: failed(12) tn audit_key_def j)
    show "dict_get (objects (tables t)) k \<noteq> None" if "dict_get (objects (tables s)) k \<noteq> None" for k
      using that by (auto simp: failed(7) set_object_status_def update_row_get)
    show "dict_ok (objects (tables t))"
      using old(1) by (simp add: failed(7) set_object_status_def keys_ok_def)
    show "st \<in> {RetryWait, Completed, DeadLetter}" by (simp add: failed(3))
    show "attempt_number (the_job r) < max_attempts (the_job r)" if "st = RetryWait"
      using that by (simp add: failed(3) j split: if_splits)
  qed (use objs in \<open>simp_all add: failed(2,9,10) j\<close>)
qed

lemma queue_inv_step:
  assumes "queue_inv w" and "queue_step cfg sc w w'"
  shows "queue_inv w'"
  using assms(2,1)
proof (induction rule: queue_step.induct)
  case (step_use t s sc H)
  then show ?case by (blast intro: queue_inv_same)
qed (blast intro: queue_inv_seed queue_inv_register queue_inv_claim queue_inv_complete queue_inv_fail
    queue_inv_reprocess)+

interpretation queue: service queue_start "queue_step cfg" queue_inv
  by unfold_locales (auto intro: queue_inv_start queue_inv_step)

section \<open>Rows, their scopes and versions\<close>

datatype queue_key = JobAt scope string | ObjectAt scope string

datatype queue_row = JobRow job_row | ObjectRow object_row

fun key_scope :: "queue_key \<Rightarrow> scope" where
  "key_scope (JobAt sc _) = sc"
| "key_scope (ObjectAt sc _) = sc"

fun row_version :: "queue_row \<Rightarrow> int" where
  "row_version (JobRow r) = version (the_job r)"
| "row_version (ObjectRow b) = object_version (the_object b)"

fun row_at :: "queue_tables \<Rightarrow> queue_key \<Rightarrow> queue_row option" where
  "row_at db (JobAt sc i) = map_option JobRow (dict_get (jobs db) (sc, i))"
| "row_at db (ObjectAt sc i) = map_option ObjectRow (dict_get (objects db) (sc, i))"

definition scoped_row :: "world \<Rightarrow> queue_key \<Rightarrow> (scope \<times> queue_row) option" where
  "scoped_row w k = map_option (Pair (key_scope k)) (row_at (tables (fst w)) k)"

text \<open>A step changes rows of its own scope only, and raises the version of each row it changes.\<close>

definition moves_on :: "scope \<Rightarrow> queue_tables \<Rightarrow> queue_tables \<Rightarrow> bool" where
  "moves_on sc db db' \<longleftrightarrow> (\<forall>k. row_at db' k = row_at db k
    \<or> key_scope k = sc \<and> (\<exists>y. row_at db' k = Some y
        \<and> (\<forall>x. row_at db k = Some x \<longrightarrow> row_version x < row_version y)))"

lemma moves_onI:
  assumes "\<And>k. dict_get (jobs db') k \<noteq> dict_get (jobs db) k \<Longrightarrow> fst k = sc
      \<and> (\<exists>y. dict_get (jobs db') k = Some y
          \<and> (\<forall>x. dict_get (jobs db) k = Some x \<longrightarrow> version (the_job x) < version (the_job y)))"
    and "\<And>k. dict_get (objects db') k \<noteq> dict_get (objects db) k \<Longrightarrow> fst k = sc
      \<and> (\<exists>y. dict_get (objects db') k = Some y
          \<and> (\<forall>x. dict_get (objects db) k = Some x
              \<longrightarrow> object_version (the_object x) < object_version (the_object y)))"
  shows "moves_on sc db db'"
  unfolding moves_on_def
proof
  fix k
  show "row_at db' k = row_at db k \<or> key_scope k = sc \<and> (\<exists>y. row_at db' k = Some y
        \<and> (\<forall>x. row_at db k = Some x \<longrightarrow> row_version x < row_version y))"
  proof (cases k)
    case (JobAt sc0 i)
    then show ?thesis using assms(1) [of "(sc0, i)"] by fastforce
  next
    case (ObjectAt sc0 i)
    then show ?thesis using assms(2) [of "(sc0, i)"] by fastforce
  qed
qed

lemma moves_on_same: "tables t = tables s \<Longrightarrow> moves_on sc (tables s) (tables t)"
  by (simp add: moves_on_def)

lemma set_object_status_moves:
  assumes "dict_get (objects (set_object_status sc oid q db)) k \<noteq> dict_get (objects db) k"
  shows "fst k = sc \<and> (\<exists>y. dict_get (objects (set_object_status sc oid q db)) k = Some y
    \<and> (\<forall>x. dict_get (objects db) k = Some x \<longrightarrow> object_version (the_object x) < object_version (the_object y)))"
  using assms
  by (cases "dict_get (objects db) (sc, oid)") (auto simp: set_object_status_def update_row_get split: if_splits)

lemma step_moves_on:
  assumes "queue_step cfg sc w w'" and "queue_inv w"
  shows "moves_on sc (tables (fst w)) (tables (fst w'))"
  using assms
proof (induction rule: queue_step.induct)
  case (step_use t s sc H)
  then show ?case by (simp add: moves_on_same)
next
  case (step_seed c s x t H)
  show ?case
    using seed_scope_effect [OF step_seed(2)] by (intro moves_onI) auto
next
  case (step_register c oid ar st final key trace mx now rollback s x t H)
  from step_register(2) show ?case
  proof (cases rule: register_job_effect)
    case same
    then show ?thesis by (simp add: moves_on_same)
  next
    case (stored n v)
    from stored(8) show ?thesis
      by (cases rule: store_object_job_effect) (auto intro!: moves_onI simp: moves_on_same split: if_splits)
  qed
next
  case (step_claim c wid now lease s x t H)
  from step_claim(2) show ?case
  proof (cases rule: claim_effect)
    case none
    then show ?thesis by (simp add: moves_on_same)
  next
    case (leased r)
    have "dict_ok (jobs (tables s))" using queue_invD(1) [OF step_claim(3)] by (simp add: keys_ok_def)
    then obtain i where i: "dict_get (jobs (tables s)) (scope_of c, i) = Some r"
      using first_due_mem leased(1) by blast
    then show ?thesis
      using job_rows_okD(1) [OF queue_invD(2) [OF step_claim(3)] i]
      by (intro moves_onI) (auto simp: leased(4) statements split: if_splits)
  qed
next
  case (step_complete c j H wid o' now s y t)
  from step_complete(3) show ?case
  proof (cases rule: complete_effect)
    case (same e)
    then show ?thesis by (simp add: moves_on_same)
  next
    case (completed r b a u)
    then show ?thesis
      using job_rows_okD(1) [OF queue_invD(2) [OF step_complete(4)] completed(2)]
      by (intro moves_onI) (auto split: if_splits)
  qed
next
  case (step_fail c j H wid err now retry_at s y t)
  from step_fail(3) show ?case
  proof (cases rule: fail_effect)
    case (same e)
    then show ?thesis by (simp add: moves_on_same)
  next
    case (failed r a u st j1)
    have "version j1 = version (the_job r) + 1" by (simp add: failed(2))
    then show ?thesis
      using job_rows_okD(1) [OF queue_invD(2) [OF step_fail(4)] failed(4)] failed(4)
      by (intro moves_onI) (use set_object_status_moves in \<open>auto simp: failed(6,7) split: if_splits\<close>)
  qed
next
  case (step_reprocess c i key s y t H)
  from step_reprocess(2) show ?case
  proof (cases rule: reprocess_effect)
    case same
    then show ?thesis by (simp add: moves_on_same)
  next
    case (fresh r u now)
    then show ?thesis
      by (intro moves_onI) (use set_object_status_moves in \<open>auto simp: fresh(7,8) split: if_splits\<close>)
  qed
qed

interpretation queue_rows: versioned_service queue_start "queue_step cfg" queue_inv scoped_row fst
  "\<lambda>x. row_version (snd x)"
proof unfold_locales
  fix w w' :: world and sc k x y
  assume inv: "queue_inv w" and step: "queue_step cfg sc w w'" and x: "scoped_row w k = Some x"
  obtain r where r: "row_at (tables (fst w)) k = Some r" "x = (key_scope k, r)"
    using x by (auto simp: scoped_row_def)
  have move: "row_at (tables (fst w')) k = row_at (tables (fst w)) k
    \<or> key_scope k = sc \<and> (\<exists>y. row_at (tables (fst w')) k = Some y
        \<and> (\<forall>x. row_at (tables (fst w)) k = Some x \<longrightarrow> row_version x < row_version y))"
    using step_moves_on [OF step inv] unfolding moves_on_def by blast
  show "scoped_row w' k = Some x" if "fst x \<noteq> sc"
    using that move r by (auto simp: scoped_row_def)
  show "\<exists>y. scoped_row w' k = Some y \<and> fst y = fst x"
    using move r by (auto simp: scoped_row_def)
  show "row_version (snd x) \<le> row_version (snd y)" if "scoped_row w' k = Some y"
    using that move r by (auto simp: scoped_row_def)
qed

end
