(* ===== verification/Object_Queue_Properties.thy ===== *)
theory Object_Queue_Properties
  imports Object_Queue_Invariant
begin

text \<open>
  Properties of the object queue: keys confine objects to their scope, the delays of the retry
  policy, the order and the exclusiveness of leases, the records of attempts, what a completed
  object stands for, how the worker drains the queue, submission and dead letters.
\<close>

section \<open>Keys\<close>

lemma safe_id_chars:
  assumes "safe_id s"
  shows "CHR ''/'' \<notin> set s" "plain_ascii s" "CHR ''_'' \<noteq> hd s" "s \<noteq> []"
proof -
  have char: "c \<noteq> CHR ''/'' \<and> CHR 0x20 \<le> c \<and> c < CHR 0x80" if "id_char c" for c
    using that by (auto simp: id_char_def ascii_alnum_def less_eq_char_def less_char_def)
  obtain c cs where s: "s = c # cs" "ascii_alnum c" "list_all id_char (c # cs)"
    using assms by (auto simp: safe_id_def safe_id_upto_def id_char_def split: list.splits)
  show "CHR ''/'' \<notin> set s" "plain_ascii s" "s \<noteq> []"
    using s char by (auto simp: plain_ascii_def list_all_iff)
  show "CHR ''_'' \<noteq> hd s"
    using s(1,2) by (auto simp: ascii_alnum_def less_eq_char_def)
qed

lemma opaque_id_chars:
  assumes "opaque_id s"
  shows "CHR ''/'' \<notin> set s" "plain_ascii s"
proof -
  have "c \<noteq> CHR ''/'' \<and> CHR 0x20 \<le> c \<and> c < CHR 0x80" if "hex_char c" for c
    using that by (auto simp: hex_char_def less_eq_char_def less_char_def)
  then show "CHR ''/'' \<notin> set s" "plain_ascii s"
    using assms by (auto simp: opaque_id_def plain_ascii_def list_all_iff)
qed

lemma area_chars:
  assumes "ar \<in> set allowed_areas"
  shows "CHR ''/'' \<notin> set ar" "plain_ascii ar"
  using assms by (auto simp: allowed_areas_def plain_ascii_def less_eq_char_def less_char_def)

lemma last_segment_append: "CHR ''/'' \<notin> set s \<Longrightarrow> last_segment (p @ ''/'' @ s) = s"
proof -
  assume s: "CHR ''/'' \<notin> set s"
  then have "takeWhile (\<lambda>c. c \<noteq> CHR ''/'') (rev s @ CHR ''/'' # rev p) = rev s"
    by (subst takeWhile_append2) auto
  then show ?thesis by (simp add: last_segment_def)
qed

lemma plain_ascii_append [simp]: "plain_ascii (a @ b) \<longleftrightarrow> plain_ascii a \<and> plain_ascii b"
  by (simp add: plain_ascii_def)

text \<open>The parts of a key between its slashes.\<close>

lemma key_parts:
  assumes "t @ ''/'' @ w @ ''/'' @ a @ ''/'' @ i = t' @ ''/'' @ w' @ ''/'' @ a' @ ''/'' @ i'"
    and "CHR ''/'' \<notin> set t" "CHR ''/'' \<notin> set w" "CHR ''/'' \<notin> set a"
    and "CHR ''/'' \<notin> set t'" "CHR ''/'' \<notin> set w'" "CHR ''/'' \<notin> set a'"
  shows "t = t' \<and> w = w' \<and> a = a' \<and> i = i'"
proof -
  have 1: "t = t' \<and> w @ CHR ''/'' # a @ CHR ''/'' # i = w' @ CHR ''/'' # a' @ CHR ''/'' # i'"
    by (rule first_split [OF assms(2,5)]) (use assms(1) in simp)
  have 2: "w = w' \<and> a @ CHR ''/'' # i = a' @ CHR ''/'' # i'"
    by (rule first_split [OF assms(3,6)]) (use 1 in blast)
  have "a = a' \<and> i = i'"
    by (rule first_split [OF assms(4,7)]) (use 2 in blast)
  with 1 2 show ?thesis by blast
qed

lemma final_key_iff:
  "final_key c ar oid = Inr k \<longleftrightarrow> key_parts_ok c ar oid
    \<and> k = tenant_id c @ ''/'' @ workspace_id c @ ''/'' @ ar @ ''/'' @ oid"
  by (auto simp: final_key_def)

lemma staging_key_iff:
  "staging_key_of c ar oid = Inr k \<longleftrightarrow> key_parts_ok c ar oid
    \<and> k = ''_staging/'' @ tenant_id c @ ''/'' @ workspace_id c @ ''/'' @ ar @ ''/'' @ oid"
  by (auto simp: staging_key_of_def)

lemma key_part_chars:
  assumes "key_parts_ok c ar oid"
  shows "CHR ''/'' \<notin> set (tenant_id c)" "CHR ''/'' \<notin> set (workspace_id c)" "CHR ''/'' \<notin> set ar"
    "CHR ''/'' \<notin> set oid" "plain_ascii (tenant_id c)" "plain_ascii (workspace_id c)" "plain_ascii ar"
    "plain_ascii oid"
  using assms safe_id_chars opaque_id_chars area_chars by (simp_all add: key_parts_ok_def)

lemma validate_final_iff:
  "validate_final c ar k = Inr () \<longleftrightarrow> plain_ascii k \<and> final_key c ar (last_segment k) = Inr k"
  by (cases "final_key c ar (last_segment k)") (auto simp: validate_final_def)

lemma validate_staging_iff:
  "validate_staging c ar k = Inr () \<longleftrightarrow> plain_ascii k \<and> staging_key_of c ar (last_segment k) = Inr k"
  by (cases "staging_key_of c ar (last_segment k)") (auto simp: validate_staging_def)

text \<open>
  The key of an object names its object, and is accepted exactly for the tenant, the workspace
  and the area it was built for; the same holds for staging keys, and no key is both.
\<close>

theorem keys_confine_objects:
  assumes final: "final_key c ar oid = Inr k" and staging: "staging_key_of c ar oid = Inr k'"
  shows "last_segment k = oid \<and> last_segment k' = oid
    \<and> (validate_final c2 ar2 k = Inr () \<longleftrightarrow> scope_of c2 = scope_of c \<and> ar2 = ar)
    \<and> (validate_staging c2 ar2 k' = Inr () \<longleftrightarrow> scope_of c2 = scope_of c \<and> ar2 = ar)
    \<and> validate_staging c2 ar2 k \<noteq> Inr () \<and> validate_final c2 ar2 k' \<noteq> Inr ()"
proof -
  have ok: "key_parts_ok c ar oid" and k: "k = tenant_id c @ ''/'' @ workspace_id c @ ''/'' @ ar @ ''/'' @ oid"
    and k': "k' = ''_staging/'' @ k"
    using final staging by (simp_all add: final_key_iff staging_key_iff)
  note chars = key_part_chars [OF ok]
  have last: "last_segment k = oid" "last_segment k' = oid"
    using last_segment_append [OF chars(4), of "tenant_id c @ ''/'' @ workspace_id c @ ''/'' @ ar"]
      last_segment_append [OF chars(4), of "''_staging/'' @ tenant_id c @ ''/'' @ workspace_id c @ ''/'' @ ar"]
    by (simp_all add: k k')
  have ascii: "plain_ascii k" "plain_ascii k'"
    using chars by (simp_all add: k k') (simp_all add: plain_ascii_def less_eq_char_def less_char_def)
  have fin: "validate_final c2 ar2 k = Inr () \<longleftrightarrow> scope_of c2 = scope_of c \<and> ar2 = ar"
  proof
    assume "validate_final c2 ar2 k = Inr ()"
    then have "key_parts_ok c2 ar2 oid"
      and e: "k = tenant_id c2 @ ''/'' @ workspace_id c2 @ ''/'' @ ar2 @ ''/'' @ oid"
      by (simp_all only: validate_final_iff final_key_iff last)
    from key_parts [OF e [unfolded k] chars(1-3) key_part_chars(1-3) [OF this(1)]]
    show "scope_of c2 = scope_of c \<and> ar2 = ar" by (simp add: scope_of_def)
  next
    assume "scope_of c2 = scope_of c \<and> ar2 = ar"
    then have "final_key c2 ar2 oid = Inr k"
      using ok by (simp add: final_key_iff key_parts_ok_def scope_of_def k)
    with ascii(1) show "validate_final c2 ar2 k = Inr ()"
      by (simp only: validate_final_iff last)
  qed
  have stage: "validate_staging c2 ar2 k' = Inr () \<longleftrightarrow> validate_final c2 ar2 k = Inr ()"
    using ascii by (simp only: validate_staging_iff validate_final_iff staging_key_iff final_key_iff last(1) k'
        last(2) [unfolded k'] same_append_eq)
  have apart: "tenant_id x @ y \<noteq> ''_staging/'' @ z" if "safe_id (tenant_id x)" for x y z
    using safe_id_chars(3,4) [OF that] by (cases "tenant_id x") auto
  have "validate_staging c2 ar2 k \<noteq> Inr ()"
    using apart [of c] ok by (simp only: validate_staging_iff staging_key_iff k key_parts_ok_def) blast
  moreover have "validate_final c2 ar2 k' \<noteq> Inr ()"
    using apart [of c2] by (simp only: validate_final_iff final_key_iff k' key_parts_ok_def) metis
  ultimately show ?thesis using last fin stage by simp
qed

definition queue_demo_context :: cloud_context where
  "queue_demo_context = \<lparr>tenant_id = ''t1'', workspace_id = ''w1'', actor_id = ''a1'', capability = ''object.write''\<rparr>"

definition queue_demo_oid :: string where
  "queue_demo_oid = replicate 32 CHR ''a''"

lemma queue_demo_parts: "key_parts_ok queue_demo_context ''source'' queue_demo_oid"
  by (simp add: key_parts_ok_def allowed_areas_def opaque_id_def queue_demo_oid_def queue_demo_context_def safe_id_def
      safe_id_upto_def id_char_def ascii_alnum_def hex_char_def less_eq_char_def list_all_iff)

theorem keys_confine_objects_witness:
  "validate_final (queue_demo_context\<lparr>workspace_id := ''w2''\<rparr>) ''source''
    (''t1/w1/source/'' @ queue_demo_oid) \<noteq> Inr ()"
proof -
  have "final_key queue_demo_context ''source'' queue_demo_oid = Inr (''t1/w1/source/'' @ queue_demo_oid)"
    using queue_demo_parts by (simp add: final_key_iff) (simp add: queue_demo_context_def)
  moreover have "staging_key_of queue_demo_context ''source'' queue_demo_oid = Inr (''_staging/t1/w1/source/'' @ queue_demo_oid)"
    using queue_demo_parts by (simp add: staging_key_iff) (simp add: queue_demo_context_def)
  ultimately show ?thesis
    using keys_confine_objects [of queue_demo_context "''source''" queue_demo_oid _ _ "queue_demo_context\<lparr>workspace_id := ''w2''\<rparr>" "''source''"]
    by (simp add: scope_of_def queue_demo_context_def)
qed

section \<open>Delays\<close>

text \<open>
  C38: a checked retry policy gives a delay for every attempt up to the 1024th and every jitter: it
  is never negative, never longer than the limit, and off the doubled base by the jitter at most.
\<close>

theorem delay_within_policy:
  assumes "policy_checked p" and "1 \<le> n" and "n \<le> 1024" and "0 \<le> u" and "u \<le> 1"
  shows "\<exists>d. delay_seconds p n u = Inr d \<and> 0 \<le> d \<and> d \<le> max_seconds p
    \<and> (1 - jitter_ratio p) * min (max_seconds p) (base_seconds p * 2 ^ nat (n - 1)) \<le> d
    \<and> d \<le> (1 + jitter_ratio p) * base_seconds p * 2 ^ nat (n - 1)"
proof -
  define b where "b = min (max_seconds p) (base_seconds p * 2 ^ nat (n - 1))"
  define f where "f = 1 - jitter_ratio p + 2 * jitter_ratio p * u"
  have pol: "0 < base_seconds p" "base_seconds p \<le> max_seconds p" "0 \<le> jitter_ratio p" "jitter_ratio p \<le> 1"
    using assms(1) by (simp_all add: policy_checked_def)
  have ju: "0 \<le> jitter_ratio p * u" "jitter_ratio p * u \<le> jitter_ratio p"
    using pol(3) assms(4,5) by (simp_all add: mult_left_le)
  have two: "2 * jitter_ratio p * u = 2 * (jitter_ratio p * u)" by simp
  have f: "1 - jitter_ratio p \<le> f" "f \<le> 1 + jitter_ratio p" "0 \<le> f"
    using ju pol(4) two unfolding f_def by linarith+
  have b: "0 \<le> b" "b \<le> max_seconds p" "b \<le> base_seconds p * 2 ^ nat (n - 1)"
    using pol by (auto simp: b_def)
  have d: "delay_seconds p n u = Inr (min (max_seconds p) (b * f))"
    using assms by (simp add: delay_seconds_def Let_def b_def f_def)
  have low: "(1 - jitter_ratio p) * b \<le> b * f"
    using mult_left_mono [OF f(1) b(1)] by (simp add: mult.commute)
  have "(1 - jitter_ratio p) * b \<le> 1 * b"
    by (rule mult_right_mono) (use pol b in auto)
  then have low': "(1 - jitter_ratio p) * b \<le> max_seconds p"
    using b(2) by simp
  have "b * f \<le> (base_seconds p * 2 ^ nat (n - 1)) * (1 + jitter_ratio p)"
    by (rule mult_mono) (use b f pol in auto)
  then have high: "b * f \<le> (1 + jitter_ratio p) * base_seconds p * 2 ^ nat (n - 1)"
    by (simp add: algebra_simps)
  show ?thesis
    unfolding b_def [symmetric]
    by (rule exI [of _ "min (max_seconds p) (b * f)"])
      (use d low low' high b f pol in \<open>auto simp: min_le_iff_disj\<close>)
qed

theorem delay_within_policy_witness:
  "\<exists>d. delay_seconds default_policy 3 (1 / 2) = Inr d \<and> 0 \<le> d \<and> d \<le> 300"
  using delay_within_policy [of default_policy 3 "1 / 2"] by (auto simp: policy_checked_def default_policy_def)

section \<open>A queue at work\<close>

definition queue_demo_staged :: staged_object where
  "queue_demo_staged = \<lparr>staged_key = ''_staging/t1/w1/source/'' @ queue_demo_oid, staged_digest = replicate 64 CHR ''a'',
     staged_size = 5, staged_type = ''text/plain'', staged_etag = ''e'', staged_version_id = None\<rparr>"

definition queue_demo_config :: queue_config where
  "queue_demo_config = \<lparr>sha256 = (\<lambda>_. replicate 64 CHR ''a''), utcnow = (\<lambda>n. int n * 1000000),
     id_factory = (\<lambda>_. queue_demo_oid), database = (\<lambda>_. None),
     put_staged = (\<lambda>_ k content ctype d. Inr queue_demo_staged),
     promote = (\<lambda>n st key. Inr \<lparr>stored_key = key, stored_digest = staged_digest st,
       stored_size = staged_size st, stored_type = staged_type st, stored_etag = ''e'', stored_version_id = None\<rparr>),
     creation_enforcer = None, policy = default_policy\<rparr>"

definition queue_demo_final :: string where
  "queue_demo_final = ''t1/w1/source/'' @ queue_demo_oid"

definition queue_demo_seeded :: queue_state where
  "queue_demo_seeded = snd (seed_scope queue_demo_config queue_demo_context empty_queue)"

definition queue_demo_registered :: queue_state where
  "queue_demo_registered = snd (register_object_job queue_demo_config queue_demo_context queue_demo_oid ''source'' queue_demo_staged
     queue_demo_final ''key1'' ''x1'' 5 None False queue_demo_seeded)"

definition queue_demo_claimed :: queue_state where
  "queue_demo_claimed = snd (claim queue_demo_config queue_demo_context ''worker1'' 10 30 queue_demo_registered)"

definition queue_demo_job :: object_job where
  "queue_demo_job = leased_to ''worker1'' 30000010 (new_job (''job-'' @ queue_demo_oid) (''outbox-'' @ queue_demo_oid)
     queue_demo_oid 5 None ''x1'' 0)"

lemma queue_demo_claim:
  "claim queue_demo_config queue_demo_context ''worker1'' 10 30 queue_demo_registered = (Inr (Some queue_demo_job), queue_demo_claimed)"
proof -
  have "fst (claim queue_demo_config queue_demo_context ''worker1'' 10 30 queue_demo_registered) = Inr (Some queue_demo_job)"
    by code_simp
  then show ?thesis by (simp add: queue_demo_claimed_def prod_eq_iff)
qed

lemma queue_demo_checked: "context_checked queue_demo_context"
  by (simp add: context_checked_def queue_demo_context_def safe_id_def safe_id_upto_def id_char_def ascii_alnum_def
      less_eq_char_def)

lemma queue_demo_registered_row:
  "dict_get (jobs (tables queue_demo_registered)) (scope_of queue_demo_context, job_id queue_demo_job)
    = Some \<lparr>the_job = new_job (''job-'' @ queue_demo_oid) (''outbox-'' @ queue_demo_oid) queue_demo_oid 5 None ''x1'' 0,
        deduplication_key = ''key1'', job_created_by = ''a1'', job_completed_at = None\<rparr>"
  by code_simp

lemma queue_demo_reachable_registered:
  "reachable queue_start (queue_step queue_demo_config) (queue_demo_registered, {})"
proof -
  have "queue_start (empty_queue, {})" by (simp add: queue_start_def empty_queue_def)
  then have r0: "reachable queue_start (queue_step queue_demo_config) (empty_queue, {})"
    by (rule reachable_start)
  have r1: "reachable queue_start (queue_step queue_demo_config) (queue_demo_seeded, {})"
    by (rule reachable_step [OF r0 step_seed [OF queue_demo_checked]]) (simp add: queue_demo_seeded_def prod_eq_iff)
  show ?thesis
    by (rule reachable_step [OF r1 step_register [OF queue_demo_checked]]) (simp add: queue_demo_registered_def prod_eq_iff)
qed

lemma queue_demo_reachable_claimed:
  "reachable queue_start (queue_step queue_demo_config) (queue_demo_claimed, {((''t1'', ''w1''), queue_demo_job)})"
proof -
  have "reachable queue_start (queue_step queue_demo_config)
      (queue_demo_claimed, handed_over queue_demo_context (Inr (Some queue_demo_job)) {})"
    by (rule reachable_step [OF queue_demo_reachable_registered step_claim [OF queue_demo_checked queue_demo_claim]])
  then show ?thesis by (simp add: handed_over_def scope_of_def queue_demo_context_def)
qed

definition queue_demo_stored :: stored_object where
  "queue_demo_stored = \<lparr>stored_key = queue_demo_final, stored_digest = replicate 64 CHR ''a'', stored_size = 5,
     stored_type = ''text/plain'', stored_etag = ''e'', stored_version_id = None\<rparr>"

definition queue_demo_completed :: queue_state where
  "queue_demo_completed = snd (complete queue_demo_config queue_demo_context queue_demo_job ''worker1'' queue_demo_stored 20 queue_demo_claimed)"

lemma queue_demo_complete:
  "complete queue_demo_config queue_demo_context queue_demo_job ''worker1'' queue_demo_stored 20 queue_demo_claimed
    = (Inr (ended Completed queue_demo_job), queue_demo_completed)"
proof -
  have "fst (complete queue_demo_config queue_demo_context queue_demo_job ''worker1'' queue_demo_stored 20 queue_demo_claimed)
      = Inr (ended Completed queue_demo_job)"
    by code_simp
  then show ?thesis by (simp add: queue_demo_completed_def prod_eq_iff)
qed

lemma queue_demo_scope: "scope_of queue_demo_context = (''t1'', ''w1'')"
  by (simp add: scope_of_def queue_demo_context_def)

lemma queue_demo_step_complete:
  "queue_step queue_demo_config (''t1'', ''w1'') (queue_demo_claimed, {((''t1'', ''w1''), queue_demo_job)})
    (queue_demo_completed, {((''t1'', ''w1''), queue_demo_job)})"
  using step_complete [OF queue_demo_checked _ queue_demo_complete, of "{((''t1'', ''w1''), queue_demo_job)}"]
  by (simp add: queue_demo_scope)

lemma queue_demo_reachable_completed:
  "reachable queue_start (queue_step queue_demo_config) (queue_demo_completed, {((''t1'', ''w1''), queue_demo_job)})"
  using queue_demo_reachable_claimed queue_demo_step_complete by (rule reachable_step)

section \<open>Leases\<close>

text \<open>A row, looked up or listed, is the same row.\<close>

lemma reachable_keys_ok:
  "reachable queue_start (queue_step cfg) (s, H) \<Longrightarrow> keys_ok (tables s)"
  using queue.reachable_inv queue_invD(1) by blast

lemma first_due_least:
  assumes "dict_ok (jobs db)" and "first_due sc now db = Some r"
    and "dict_get (jobs db) (sc, i) = Some r'" and "due now (the_job r')"
  shows "claim_order (the_job r) \<le> claim_order (the_job r')"
proof -
  define rs where "rs = sort_key (\<lambda>r. claim_order (the_job r))
    (filter (\<lambda>r. due now (the_job r)) (rows_of sc (jobs db)))"
  have "r' \<in> set rs" using assms(1,3,4) by (auto simp: rs_def rows_of_mem)
  moreover obtain rest where "rs = r # rest"
    using assms(2) by (auto simp: first_due_def rs_def [symmetric] split: list.splits)
  moreover have "sorted (map (\<lambda>r. claim_order (the_job r)) rs)"
    unfolding rs_def by (rule sorted_sort_key)
  ultimately show ?thesis by auto
qed

lemma first_due_none:
  assumes "dict_ok (jobs db)" and "first_due sc now db = None"
    and "dict_get (jobs db) (sc, i) = Some r"
  shows "\<not> due now (the_job r)"
proof -
  have "sort_key (\<lambda>r. claim_order (the_job r)) (filter (\<lambda>r. due now (the_job r)) (rows_of sc (jobs db))) = []"
    using assms(2) by (auto simp: first_due_def split: list.splits)
  then have "set (filter (\<lambda>r. due now (the_job r)) (rows_of sc (jobs db))) = {}"
    by (metis list.set(1) set_sort)
  moreover have "r \<in> set (rows_of sc (jobs db))" using assms(1,3) by (auto simp: rows_of_mem)
  ultimately show ?thesis by auto
qed

lemma claim_leases_least:
  assumes inv: "queue_inv (s, H)" and call: "claim cfg c wid now lease s = (Inr x, t)"
  shows "(case x of
      None \<Rightarrow> tables t = tables s \<and> (\<forall>i r. dict_get (jobs (tables s)) (scope_of c, i) = Some r \<longrightarrow> \<not> due now (the_job r))
    | Some j \<Rightarrow> \<exists>r. dict_get (jobs (tables s)) (scope_of c, job_id j) = Some r \<and> job_id (the_job r) = job_id j
        \<and> due now (the_job r)
        \<and> j = (the_job r)\<lparr>state := Leased, attempt_number := attempt_number (the_job r) + 1, lease_owner := Some wid,
            lease_until := Some (now + timedelta_us lease), last_safe_error_code := None, version := version (the_job r) + 1\<rparr>
        \<and> (\<forall>i r'. dict_get (jobs (tables s)) (scope_of c, i) = Some r' \<and> due now (the_job r') \<longrightarrow>
              claim_order (the_job r) \<le> claim_order (the_job r'))
        \<and> (\<forall>k. dict_get (jobs (tables t)) k = (if k = (scope_of c, job_id j)
              then Some (r\<lparr>the_job := j\<rparr>) else dict_get (jobs (tables s)) k)))"
proof -
  have ok: "dict_ok (jobs (tables s))" using queue_invD(1) [OF inv] by (simp add: keys_ok_def)
  from call show ?thesis
  proof (cases rule: claim_effect)
    case none
    with call have "x = None" by (cases x) auto
    with call have "first_due (scope_of c) now (tables s) = None"
      by (auto simp: claim_def safe_or_def claim_first_def Let_def attempt_def elim!: transaction_effect
          and_then_InrD split: if_splits option.splits)
    then show ?thesis
      using none \<open>x = None\<close> first_due_none [OF ok] by simp
  next
    case (leased r)
    obtain i where i: "dict_get (jobs (tables s)) (scope_of c, i) = Some r" and due: "due now (the_job r)"
      using first_due_mem [OF ok leased(1)] by blast
    have id: "job_id (the_job r) = i" by (rule job_rows_okD(1) [OF queue_invD(2) [OF inv] i])
    have rest: "dict_get (jobs (tables t)) k = (if k = (scope_of c, i)
        then Some (r\<lparr>the_job := leased_to wid (now + timedelta_us lease) (the_job r)\<rparr>) else dict_get (jobs (tables s)) k)" for k
      using id by (simp add: leased(4) statements)
    show ?thesis
      using leased(2) i due id first_due_least [OF ok leased(1)] rest
      by (auto simp: leased_to_def intro!: exI [of _ r])
  qed
qed

lemma due_iff: "due now j \<longleftrightarrow> state j = Pending \<and> next_attempt_at j \<le> now \<or> state j = RetryWait \<and> next_attempt_at j \<le> now
    \<or> state j = Leased \<and> (\<exists>u. lease_until j = Some u \<and> u \<le> now)"
  by (cases "lease_until j") (auto simp: due_def)

lemma claim_order_iff: "claim_order j \<le> claim_order j' \<longleftrightarrow> next_attempt_at j < next_attempt_at j'
    \<or> next_attempt_at j = next_attempt_at j' \<and> (created_at j < created_at j'
      \<or> created_at j = created_at j' \<and> job_id j \<le> job_id j')"
  by (auto simp: claim_order_def)

text \<open>
  C33: a claim takes the job that is due first. A job is due where it waits for its first or its
  next attempt and the time of that attempt has come, or where it is leased and the lease has run
  out. Of the due jobs of the scope the claim takes one of the earliest next attempt, among those one
  created first, and among those the one first by name; it leases that job to the worker for the time
  asked for, with its attempt and its version raised by one and its error cleared, and leaves every
  other job as it is. It finds nothing only if no job of the scope is due, and then changes nothing.
\<close>

theorem claim_takes_first_due:
  assumes "reachable queue_start (queue_step cfg) (s, H)"
    and call: "claim cfg c wid now lease s = (Inr x, t)"
  shows "let ready = (\<lambda>j. state j = Pending \<and> next_attempt_at j \<le> now \<or> state j = RetryWait \<and> next_attempt_at j \<le> now
          \<or> state j = Leased \<and> (\<exists>u. lease_until j = Some u \<and> u \<le> now))
    in case x of
      None \<Rightarrow> tables t = tables s
        \<and> (\<forall>i r. dict_get (jobs (tables s)) (scope_of c, i) = Some r \<longrightarrow> \<not> ready (the_job r))
    | Some j \<Rightarrow> \<exists>r. dict_get (jobs (tables s)) (scope_of c, job_id j) = Some r \<and> job_id (the_job r) = job_id j
        \<and> ready (the_job r)
        \<and> j = (the_job r)\<lparr>state := Leased, attempt_number := attempt_number (the_job r) + 1, lease_owner := Some wid,
            lease_until := Some (now + timedelta_us lease), last_safe_error_code := None, version := version (the_job r) + 1\<rparr>
        \<and> (\<forall>i r'. dict_get (jobs (tables s)) (scope_of c, i) = Some r' \<and> ready (the_job r') \<longrightarrow>
              next_attempt_at (the_job r) < next_attempt_at (the_job r')
              \<or> next_attempt_at (the_job r) = next_attempt_at (the_job r')
                \<and> (created_at (the_job r) < created_at (the_job r')
                  \<or> created_at (the_job r) = created_at (the_job r') \<and> job_id (the_job r) \<le> job_id (the_job r')))
        \<and> (\<forall>k. dict_get (jobs (tables t)) k = (if k = (scope_of c, job_id j)
              then Some (r\<lparr>the_job := j\<rparr>) else dict_get (jobs (tables s)) k))"
  unfolding Let_def due_iff [symmetric] claim_order_iff [symmetric]
  by (rule claim_leases_least [OF queue.reachable_inv [OF assms(1)] call])

theorem claim_takes_first_due_witness:
  "\<exists>r. dict_get (jobs (tables queue_demo_registered)) (scope_of queue_demo_context, job_id queue_demo_job) = Some r
    \<and> queue_demo_job = (the_job r)\<lparr>state := Leased, attempt_number := attempt_number (the_job r) + 1,
        lease_owner := Some ''worker1'', lease_until := Some (10 + timedelta_us 30), last_safe_error_code := None,
        version := version (the_job r) + 1\<rparr>"
  using claim_takes_first_due [OF queue_demo_reachable_registered queue_demo_claim] by (simp add: Let_def) blast

lemma report_holds_lease:
  assumes inv: "queue_inv (s, H)" and j: "(scope_of c, j) \<in> H"
    and call: "complete cfg c j wid x now s = (Inr y, t) \<or> fail cfg c j wid err now retry_at s = (Inr y, t)"
  obtains r r' until where "dict_get (jobs (tables s)) (scope_of c, job_id j) = Some r" "the_job r = j"
    "lease_owner j = Some wid" "lease_until j = Some until" "now < until"
    "dict_get (jobs (tables t)) (scope_of c, job_id j) = Some r'" "version (the_job r') = version j + 1"
proof -
  note handed = queue_invD(4) [OF inv]
  show thesis
    using call
  proof
    assume "complete cfg c j wid x now s = (Inr y, t)"
    then show ?thesis
    proof (cases rule: complete_effect)
      case (completed r b a u)
      then show ?thesis
        using that lease_copy [OF handed j completed(2,3)] by (auto simp: assert_lease_ok)
    qed simp
  next
    assume "fail cfg c j wid err now retry_at s = (Inr y, t)"
    then show ?thesis
    proof (cases rule: fail_effect)
      case (failed r a u st j1)
      then show ?thesis
        using that lease_copy [OF handed j failed(4,5)] by (auto simp: assert_lease_ok)
    qed simp
  qed
qed

lemma stale_report_refused:
  assumes "dict_get (jobs (tables u)) (scope_of c, job_id j) = Some r" and "version j < version (the_job r)"
  shows "tables (snd (complete cfg c j wid x now u)) = tables u \<and> fst (complete cfg c j wid x now u) \<noteq> Inr y"
    and "tables (snd (fail cfg c j wid err now retry_at u)) = tables u
      \<and> fst (fail cfg c j wid err now retry_at u) \<noteq> Inr y"
proof -
  have no: "assert_lease j (the_job r) wid now \<noteq> Inr ()"
    using assms(2) by (simp add: assert_lease_ok)
  obtain y1 t1 where e1: "complete cfg c j wid x now u = (y1, t1)" by (rule prod.exhaust)
  from e1 show "tables (snd (complete cfg c j wid x now u)) = tables u \<and> fst (complete cfg c j wid x now u) \<noteq> Inr y"
    by (cases rule: complete_effect) (use assms(1) no e1 in auto)
  obtain y2 t2 where e2: "fail cfg c j wid err now retry_at u = (y2, t2)" by (rule prod.exhaust)
  from e2 show "tables (snd (fail cfg c j wid err now retry_at u)) = tables u
      \<and> fst (fail cfg c j wid err now retry_at u) \<noteq> Inr y"
    by (cases rule: fail_effect) (use assms(1) no e2 in auto)
qed

text \<open>
  C18: a report about a job counts once. It is accepted only from the worker that holds the lease,
  before the lease ends, while the row is the copy that was handed out; and once a report with a
  copy was accepted, no report with that copy is accepted in any later state, whoever makes it and
  whatever else was called in between.
\<close>

theorem reports_count_once:
  assumes "reachable queue_start (queue_step cfg) (s, H)" and "(scope_of c, j) \<in> H"
    and "complete cfg c j wid x now s = (Inr y, t) \<or> fail cfg c j wid err now retry_at s = (Inr y, t)"
    and "runs (queue_step cfg) (t, H) scs (u, H')" and "scope_of c' = scope_of c"
  shows "(\<exists>r. dict_get (jobs (tables s)) (scope_of c, job_id j) = Some r \<and> the_job r = j)
    \<and> lease_owner j = Some wid \<and> (\<exists>until. lease_until j = Some until \<and> now < until)
    \<and> tables (snd (complete cfg c' j wid' x' now' u)) = tables u
    \<and> fst (complete cfg c' j wid' x' now' u) \<noteq> Inr y'
    \<and> tables (snd (fail cfg c' j wid' err' now' retry_at' u)) = tables u
    \<and> fst (fail cfg c' j wid' err' now' retry_at' u) \<noteq> Inr y'"
proof -
  note inv = queue.reachable_inv [OF assms(1)]
  obtain r r' until where r: "dict_get (jobs (tables s)) (scope_of c, job_id j) = Some r" "the_job r = j"
    "lease_owner j = Some wid" "lease_until j = Some until" "now < until"
    and r': "dict_get (jobs (tables t)) (scope_of c, job_id j) = Some r'" "version (the_job r') = version j + 1"
    by (rule report_holds_lease [OF inv assms(2,3)])
  have inv_t: "queue_inv (t, H)"
    using assms(3) queue_inv_complete [OF inv assms(2)] queue_inv_fail [OF inv assms(2)] by blast
  have at: "scoped_row (t, H) (JobAt (scope_of c) (job_id j)) = Some (scope_of c, JobRow r')"
    using r'(1) by (simp add: scoped_row_def)
  obtain z where z: "scoped_row (u, H') (JobAt (scope_of c) (job_id j)) = Some z"
    using queue_rows.persistence [OF assms(4) inv_t at] by blast
  then obtain q where q: "dict_get (jobs (tables u)) (scope_of c, job_id j) = Some q" "z = (scope_of c, JobRow q)"
    by (auto simp: scoped_row_def)
  have "version j < version (the_job q)"
    using queue_rows.runs_version_mono [OF assms(4) inv_t at z] r'(2) q(2) by simp
  then show ?thesis
    using r stale_report_refused [of u c' j q] q(1) assms(5) by auto
qed

theorem reports_count_once_witness:
  "tables (snd (fail queue_demo_config queue_demo_context queue_demo_job ''worker2'' (''LATE'', True) 40 50 queue_demo_completed))
    = tables queue_demo_completed"
proof -
  have in_hand: "(scope_of queue_demo_context, queue_demo_job) \<in> {((''t1'', ''w1''), queue_demo_job)}"
    by (simp add: queue_demo_scope)
  have run: "runs (queue_step queue_demo_config) (queue_demo_completed, {((''t1'', ''w1''), queue_demo_job)}) []
      (queue_demo_completed, {((''t1'', ''w1''), queue_demo_job)})"
    by simp
  from reports_count_once [OF queue_demo_reachable_claimed in_hand disjI1 [OF queue_demo_complete] run refl]
  show ?thesis by blast
qed

section \<open>Attempts\<close>

text \<open>
  C19: in every reachable state the records of a job account for its attempts: a job that waits, is
  completed or is a dead letter has the record of its last attempt, which says so; earlier records
  are of attempts to be retried, and those are fewer than the attempts allowed. So no job fails
  retryably as often as it may be tried, and none has two final outcomes.
\<close>

theorem attempts_are_accounted:
  assumes "reachable queue_start (queue_step cfg) (s, H)"
    and "dict_get (jobs (tables s)) (sc, i) = Some r"
  shows "(state (the_job r) \<in> {RetryWait, Completed, DeadLetter} \<longrightarrow>
      (\<exists>a. dict_get (attempts (tables s)) (sc, i, attempt_number (the_job r)) = Some a
        \<and> att_outcome a = state (the_job r)))
    \<and> (state (the_job r) = RetryWait \<longrightarrow> attempt_number (the_job r) < max_attempts (the_job r))
    \<and> (\<forall>n a. dict_get (attempts (tables s)) (sc, i, n) = Some a \<longrightarrow>
        1 \<le> n \<and> n \<le> attempt_number (the_job r)
        \<and> (if att_outcome a = RetryWait then n < max_attempts (the_job r)
            else n = attempt_number (the_job r) \<and> att_outcome a = state (the_job r)))"
proof -
  note inv = queue.reachable_inv [OF assms(1)]
  note row = job_rows_okD [OF queue_invD(2) [OF inv] assms(2)]
  note records = attempt_rows_okD [OF queue_invD(3) [OF inv] _ assms(2)]
  have "\<exists>a. dict_get (attempts (tables s)) (sc, i, attempt_number (the_job r)) = Some a
      \<and> att_outcome a = state (the_job r)"
    if "state (the_job r) \<in> {RetryWait, Completed, DeadLetter}"
    using row(4) [OF that] records by (fastforce simp: attempt_ok_def)
  moreover have "1 \<le> n \<and> n \<le> attempt_number (the_job r)
      \<and> (if att_outcome a = RetryWait then n < max_attempts (the_job r)
          else n = attempt_number (the_job r) \<and> att_outcome a = state (the_job r))"
    if "dict_get (attempts (tables s)) (sc, i, n) = Some a" for n a
    using records [OF that] by (auto simp: attempt_ok_def)
  ultimately show ?thesis
    using row(2) unfolding job_ok_def by blast
qed

theorem attempts_are_accounted_witness:
  "\<exists>a. dict_get (attempts (tables queue_demo_completed)) ((''t1'', ''w1''), job_id queue_demo_job, 1) = Some a
    \<and> att_outcome a = Completed"
proof -
  have r: "dict_get (jobs (tables queue_demo_completed)) ((''t1'', ''w1''), job_id queue_demo_job)
    = Some \<lparr>the_job = ended Completed queue_demo_job, deduplication_key = ''key1'', job_created_by = ''a1'',
        job_completed_at = Some 20\<rparr>"
    by code_simp
  have n: "attempt_number queue_demo_job = 1" by (simp add: queue_demo_job_def new_job_def)
  note account = attempts_are_accounted [OF queue_demo_reachable_completed r]
  have done': "state (the_job \<lparr>the_job = ended Completed queue_demo_job, deduplication_key = ''key1'',
      job_created_by = ''a1'', job_completed_at = Some 20\<rparr>) = Completed"
    by simp
  from account show ?thesis
    unfolding done' by (simp add: n)
qed

section \<open>Completed objects\<close>

lemma only_complete_completes:
  assumes "queue_step cfg sc (s, H) (t, H')"
    and new: "dict_get (objects (tables t)) (sc', oid) = Some b" "status (the_object b) = ObjectCompleted"
    and old: "dict_get (objects (tables s)) (sc', oid) \<noteq> Some b"
  shows "\<exists>c j wid x now y. sc = scope_of c \<and> (sc, j) \<in> H \<and> complete cfg c j wid x now s = (y, t)"
  using assms(1)
proof (cases rule: queue_step.cases)
  case (step_complete c j wid o' now y)
  then show ?thesis by blast
next
  case (step_register c oid' ar st final key trace mx now rollback x)
  from step_register(4) show ?thesis
  proof (cases rule: register_job_effect)
    case (stored n v)
    from stored(8) show ?thesis
      by (cases rule: store_object_job_effect) (use new old in \<open>auto simp: new_object_def split: if_splits\<close>)
  qed (use new old in simp)
next
  case (step_claim c wid now lease x)
  from step_claim(4) show ?thesis
    by (cases rule: claim_effect) (use new old in \<open>auto simp: statements\<close>)
next
  case (step_fail c j wid err now retry_at y)
  from step_fail(5) show ?thesis
    by (cases rule: fail_effect)
      (use new old in \<open>auto simp: set_object_status_def update_row_get split: if_splits\<close>)
next
  case (step_reprocess c i key y)
  from step_reprocess(4) show ?thesis
    by (cases rule: reprocess_effect)
      (use new old in \<open>auto simp: set_object_status_def update_row_get split: if_splits\<close>)
next
  case (step_seed c x)
  then show ?thesis using new old seed_scope_effect by metis
qed (use new old in simp)

text \<open>
  C20: only a report of completion makes an object completed: whatever call does is one. And the
  report that does is about the object of the job it reports; the job is leased, as the worker was
  handed it, to the worker that reports, until after the time of the report; and the stored object it
  names has the registered key, digest, size and content type. The entity tag and the version of
  that stored object are kept, and the job is completed with the object. In every reachable state a
  completed object has a completed job.
\<close>

theorem completed_objects_are_stored:
  assumes "reachable queue_start (queue_step cfg) (s, H)" and "context_checked c" and "(scope_of c, j) \<in> H"
    and call: "complete cfg c j wid x now s = (y, t)"
    and new: "dict_get (objects (tables t)) (sc', oid) = Some b" "status (the_object b) = ObjectCompleted"
    and old: "dict_get (objects (tables s)) (sc', oid) \<noteq> Some b"
  shows "sc' = scope_of c \<and> oid = object_id j
    \<and> (\<exists>r until. dict_get (jobs (tables s)) (scope_of c, job_id j) = Some r \<and> the_job r = j
        \<and> state j = Leased \<and> lease_owner j = Some wid \<and> lease_until j = Some until \<and> now < until)
    \<and> (\<exists>b0. dict_get (objects (tables s)) (scope_of c, oid) = Some b0
        \<and> stored_key x = object_key (the_object b0) \<and> stored_digest x = digest_sha256 (the_object b0)
        \<and> stored_size x = byte_size (the_object b0) \<and> stored_type x = content_type (the_object b0)
        \<and> the_object b = (the_object b0)\<lparr>status := ObjectCompleted, storage_etag := Some (stored_etag x),
            storage_version_id := stored_version_id x, object_version := object_version (the_object b0) + 1\<rparr>)
    \<and> (\<exists>r. dict_get (jobs (tables t)) (scope_of c, job_id j) = Some r \<and> object_id (the_job r) = oid
        \<and> state (the_job r) = Completed)
    \<and> (queue_step cfg sc (s, H) (u, H') \<and> dict_get (objects (tables u)) k = Some b' \<and> status (the_object b') = ObjectCompleted
        \<and> dict_get (objects (tables s)) k \<noteq> Some b'
        \<longrightarrow> (\<exists>c j wid x now y. sc = scope_of c \<and> (sc, j) \<in> H \<and> complete cfg c j wid x now s = (y, u)))
    \<and> (dict_get (objects (tables s)) (sc'', oid'') = Some b'' \<and> status (the_object b'') = ObjectCompleted
        \<longrightarrow> (\<exists>i r. dict_get (jobs (tables s)) (sc'', i) = Some r \<and> object_id (the_job r) = oid''
          \<and> state (the_job r) = Completed))"
proof -
  note inv = queue.reachable_inv [OF assms(1)]
  have always: "completed_ok (tables s)" using queue_invD(6) [OF inv] .
  have others: "queue_step cfg sc (s, H) (u, H') \<and> dict_get (objects (tables u)) k = Some b' \<and> status (the_object b') = ObjectCompleted
        \<and> dict_get (objects (tables s)) k \<noteq> Some b'
        \<longrightarrow> (\<exists>c j wid x now y. sc = scope_of c \<and> (sc, j) \<in> H \<and> complete cfg c j wid x now s = (y, u))"
    using only_complete_completes [of cfg sc s H u H' "fst k" "snd k" b'] by auto
  from call show ?thesis
  proof (cases rule: complete_effect)
    case (same e)
    then show ?thesis using new old by simp
  next
    case (completed r b0 a v)
    have at: "sc' = scope_of c" "oid = object_id j"
      using new(1) old completed(7) by (auto split: if_splits)
    have copy: "the_job r = j"
      using lease_copy [OF queue_invD(4) [OF inv] assms(3) completed(2,3)] .
    have lease: "state j = Leased \<and> lease_owner j = Some wid \<and> (\<exists>until. lease_until j = Some until \<and> now < until)"
      using completed(3) copy by (simp add: assert_lease_ok)
    have stored: "stored_key x = object_key (the_object b0) \<and> stored_digest x = digest_sha256 (the_object b0)
        \<and> stored_size x = byte_size (the_object b0) \<and> stored_type x = content_type (the_object b0)"
      using completed(5) by (simp add: stored_as_registered_def)
    have b: "the_object b = (the_object b0)\<lparr>status := ObjectCompleted, storage_etag := Some (stored_etag x),
        storage_version_id := stored_version_id x, object_version := object_version (the_object b0) + 1\<rparr>"
      using new(1) at completed(7) by auto
    have "dict_get (jobs (tables t)) (scope_of c, job_id j)
        = Some (r\<lparr>the_job := ended Completed (the_job r), job_completed_at := Some now\<rparr>)"
      using completed(6) copy by simp
    then have "\<exists>r. dict_get (jobs (tables t)) (scope_of c, job_id j) = Some r \<and> object_id (the_job r) = oid
        \<and> state (the_job r) = Completed"
      using at copy by simp
    with at copy lease stored b completed(2,4) others always show ?thesis unfolding completed_ok_def by blast
  qed
qed

theorem completed_objects_are_stored_witness:
  "\<exists>r. dict_get (jobs (tables queue_demo_completed)) (scope_of queue_demo_context, job_id queue_demo_job) = Some r
    \<and> object_id (the_job r) = queue_demo_oid \<and> state (the_job r) = Completed"
proof -
  have "map_option (\<lambda>b. status (the_object b)) (dict_get (objects (tables queue_demo_completed)) ((''t1'', ''w1''), queue_demo_oid))
      = Some ObjectCompleted"
    by code_simp
  then obtain b where b: "dict_get (objects (tables queue_demo_completed)) ((''t1'', ''w1''), queue_demo_oid) = Some b"
    "status (the_object b) = ObjectCompleted" by auto
  have "map_option (\<lambda>b. status (the_object b)) (dict_get (objects (tables queue_demo_claimed)) ((''t1'', ''w1''), queue_demo_oid))
      = Some ObjectPending"
    by code_simp
  then have "dict_get (objects (tables queue_demo_claimed)) ((''t1'', ''w1''), queue_demo_oid) \<noteq> Some b"
    using b(2) by auto
  from completed_objects_are_stored [OF queue_demo_reachable_claimed queue_demo_checked _ queue_demo_complete b this]
  show ?thesis by (simp add: queue_demo_scope)
qed

section \<open>Isolation\<close>

text \<open>
  Isolation. Jobs and objects of a workspace stay exactly as they are while only other
  workspaces call, along any run none disappears, and their versions never go back.
\<close>

theorem queue_scopes_isolated:
  assumes "reachable queue_start (queue_step cfg) w" and "runs (queue_step cfg) w scs w'"
    and "row_at (tables (fst w)) k = Some x"
  shows "\<exists>y. row_at (tables (fst w')) k = Some y \<and> row_version x \<le> row_version y
    \<and> (key_scope k \<in> set scs \<or> y = x)"
proof -
  note inv = queue.reachable_inv [OF assms(1)]
  have at: "scoped_row w k = Some (key_scope k, x)" using assms(3) by (simp add: scoped_row_def)
  obtain z where z: "scoped_row w' k = Some z"
    using queue_rows.persistence [OF assms(2) inv at] by blast
  then obtain y where y: "row_at (tables (fst w')) k = Some y" "z = (key_scope k, y)"
    by (auto simp: scoped_row_def)
  have "row_version x \<le> row_version y"
    using queue_rows.runs_version_mono [OF assms(2) inv at z] y(2) by simp
  moreover have "y = x" if "key_scope k \<notin> set scs"
    using queue_rows.isolation [OF assms(2) inv at] that z y(2) by simp
  ultimately show ?thesis using y(1) by blast
qed

theorem queue_scopes_isolated_witness:
  "\<exists>y. row_at (tables queue_demo_claimed) (JobAt (''t1'', ''w1'') (job_id queue_demo_job)) = Some y \<and> 1 \<le> row_version y"
proof -
  have start: "reachable queue_start (queue_step queue_demo_config) (queue_demo_registered, {})"
    by (rule queue_demo_reachable_registered)
  have run: "runs (queue_step queue_demo_config) (queue_demo_registered, {}) [scope_of queue_demo_context]
      (queue_demo_claimed, handed_over queue_demo_context (Inr (Some queue_demo_job)) {})"
    using step_claim [OF queue_demo_checked queue_demo_claim] by (auto intro: runs_more runs_none)
  have "row_at (tables (fst (queue_demo_registered, {}))) (JobAt (''t1'', ''w1'') (job_id queue_demo_job)) = Some (JobRow
      \<lparr>the_job = new_job (''job-'' @ queue_demo_oid) (''outbox-'' @ queue_demo_oid) queue_demo_oid 5 None ''x1'' 0,
       deduplication_key = ''key1'', job_created_by = ''a1'', job_completed_at = None\<rparr>)"
    using queue_demo_registered_row by (simp add: queue_demo_scope)
  from queue_scopes_isolated [OF start run this] show ?thesis
    by (auto simp: new_job_def)
qed

end
