(* ===== verification/Object_Queue_Worker.thy ===== *)
theory Object_Queue_Worker
  imports Object_Queue_Properties
begin

text \<open>
  Properties of the object queue over many calls: a repeated submission, the keys of dead letters,
  and the worker, which drains the queue with a bounded amount of work.
\<close>

section \<open>Submissions\<close>

text \<open>What never changes of an object once it is registered.\<close>

definition origin :: "object_row \<Rightarrow> string \<times> string \<times> string \<times> string" where
  "origin b = (object_created_by b, idempotency_key b, request_fingerprint b, rec_object_id (the_object b))"

definition rewrites_objects :: "queue_tables \<Rightarrow> queue_tables \<Rightarrow> bool" where
  "rewrites_objects db db' \<longleftrightarrow> objects db' = objects db
    \<or> (\<exists>k v. objects db' = dict_set k v (objects db)
        \<and> (\<forall>x. dict_get (objects db) k = Some x \<longrightarrow> origin v = origin x))"

lemma rewrites_same: "objects db' = objects db \<Longrightarrow> rewrites_objects db db'"
  by (simp add: rewrites_objects_def)

lemma rewrites_set:
  "objects db' = dict_set k v (objects db) \<Longrightarrow> (\<And>x. dict_get (objects db) k = Some x \<Longrightarrow> origin v = origin x)
    \<Longrightarrow> rewrites_objects db db'"
  unfolding rewrites_objects_def by blast

lemma rewrites_status:
  "objects db' = objects (set_object_status sc oid st db) \<Longrightarrow> rewrites_objects db db'"
  by (cases "dict_get (objects db) (sc, oid)")
    (auto simp: set_object_status_def update_row_def origin_def intro: rewrites_same rewrites_set)

lemma step_rewrites:
  assumes "queue_step cfg sc w w'"
  shows "rewrites_objects (tables (fst w)) (tables (fst w'))"
  using assms
proof (induction rule: queue_step.induct)
  case (step_use t s sc H)
  then show ?case by (simp add: rewrites_same)
next
  case (step_seed c s x t H)
  show ?case using seed_scope_effect [OF step_seed(2)] by (simp add: rewrites_same)
next
  case (step_register c oid ar st final key trace mx now rollback s x t H)
  from step_register(2) show ?case
  proof (cases rule: register_job_effect)
    case (stored n v)
    from stored(8) show ?thesis
      by (cases rule: store_object_job_effect) (auto intro: rewrites_same rewrites_set)
  qed (simp add: rewrites_same)
next
  case (step_claim c wid now lease s x t H)
  from step_claim(2) show ?case
    by (cases rule: claim_effect) (simp_all add: rewrites_same statements)
next
  case (step_complete c j H wid o' now s y t)
  from step_complete(3) show ?case
  proof (cases rule: complete_effect)
    case (completed r b a u)
    show ?thesis by (rule rewrites_set [of _ _ _ "tables (fst (s, H))"])
        (use completed(4,7) in \<open>auto simp: origin_def\<close>)
  qed (simp add: rewrites_same)
next
  case (step_fail c j H wid err now retry_at s y t)
  from step_fail(3) show ?case
  proof (cases rule: fail_effect)
    case (failed r a u st j1)
    then show ?thesis by (cases "st = RetryWait") (simp_all add: rewrites_same rewrites_status)
  qed (simp add: rewrites_same)
next
  case (step_reprocess c i key s y t H)
  from step_reprocess(2) show ?case
    by (cases rule: reprocess_effect) (simp_all add: rewrites_same rewrites_status)
qed

lemma rows_of_Cons:
  "rows_of sc (((k, i), v) # d) = (if k = sc then v # rows_of sc d else rows_of sc d)"
  by (simp add: rows_of_def)

lemma find_rows_set:
  assumes "find P (rows_of sc d) = Some r"
    and "\<And>x. dict_get d key = Some x \<Longrightarrow> P v = P x \<and> f v = f x"
  shows "\<exists>r'. find P (rows_of sc (dict_set key v d)) = Some r' \<and> f r' = f r"
  using assms
proof (induction d)
  case Nil
  then show ?case by (simp add: rows_of_def)
next
  case (Cons e d)
  obtain k i x where e: "e = ((k, i), x)" by (cases e) auto
  show ?case
    using Cons by (cases "key = (k, i)") (auto simp: e rows_of_Cons split: if_splits)
qed

lemma find_submission_kept:
  assumes "rewrites_objects db db'" and "find_submission sc actor key db = Some r"
  shows "\<exists>r'. find_submission sc actor key db' = Some r' \<and> origin r' = origin r"
  using assms(1) unfolding rewrites_objects_def
proof
  assume "objects db' = objects db"
  with assms(2) show ?thesis by (simp add: find_submission_def)
next
  assume "\<exists>k v. objects db' = dict_set k v (objects db)
    \<and> (\<forall>x. dict_get (objects db) k = Some x \<longrightarrow> origin v = origin x)"
  then obtain k v where "objects db' = dict_set k v (objects db)"
    and "\<And>x. dict_get (objects db) k = Some x \<Longrightarrow> origin v = origin x" by blast
  with find_rows_set [OF assms(2) [unfolded find_submission_def], of k v origin] show ?thesis
    by (simp add: find_submission_def origin_def)
qed

lemma find_submission_runs:
  "runs (queue_step cfg) w scs w' \<Longrightarrow> find_submission sc actor key (tables (fst w)) = Some r
    \<Longrightarrow> \<exists>r'. find_submission sc actor key (tables (fst w')) = Some r' \<and> origin r' = origin r"
proof (induction arbitrary: r rule: runs.induct)
  case (runs_none s)
  then show ?case by simp
next
  case (runs_more c s t cs u)
  then show ?case using find_submission_kept [OF step_rewrites] by (metis (no_types, lifting))
qed

lemma find_rows_fresh:
  assumes "find P (rows_of sc d) = None" and "dict_get d (sc, i) = None" and "P v"
  shows "find P (rows_of sc (dict_set (sc, i) v d)) = Some v"
proof -
  have "dict_set (sc, i) v d = d @ [((sc, i), v)]"
    using assms(2) by (intro dict_set_fresh) (simp add: map_of_eq_None_iff)
  then have "rows_of sc (dict_set (sc, i) v d) = rows_of sc d @ [v]"
    by (simp add: rows_of_def)
  moreover have "find P xs = None \<Longrightarrow> find P (xs @ [v]) = Some v" for xs
    using assms(3) by (induction xs) (auto split: if_splits)
  ultimately show ?thesis using assms(1) by simp
qed

text \<open>The answer to a submission is in the tables from then on.\<close>

lemma register_stores:
  assumes "register_object_job cfg c oid ar st final key trace mx now rollback s = (Inr v, t)"
  obtains n where "safe_id key" and "capability c = ''object.write''"
    and "store_object_job cfg c oid ar st final key trace mx n rollback (tables s) = Inr (v, tables t)"
proof -
  have "\<exists>n. safe_id key \<and> capability c = ''object.write''
      \<and> store_object_job cfg c oid ar st final key trace mx n rollback (tables s) = Inr (v, tables t)"
    using assms unfolding register_object_job_def
    by (auto simp: attempt_def safe_or_def read_utc_def elim!: transaction_effect
        split: if_splits sum.splits option.splits)
  then show thesis using that by blast
qed

lemma register_leaves_submission:
  assumes "store_object_job cfg c oid ar st final key trace mx n rollback db = Inr (v, db')"
  obtains r where "find_submission (scope_of c) (actor_id c) key db' = Some r"
    and "request_fingerprint r = submission_fingerprint cfg ar st"
    and "v\<lparr>replayed := True\<rparr> = submission_of (rec_object_id (the_object r)) True"
  using assms
proof (cases rule: store_object_job_effect)
  case (replay r)
  then show ?thesis using that [of r] by (simp add: submission_of_def)
next
  case (fresh u)
  define b where "b = new_object c oid ar st final key trace (submission_fingerprint cfg ar st) n"
  have b: "object_created_by b = actor_id c" "idempotency_key b = key"
    "request_fingerprint b = submission_fingerprint cfg ar st" "rec_object_id (the_object b) = oid"
    by (simp_all add: b_def new_object_def)
  have "find_submission (scope_of c) (actor_id c) key db' = Some b"
    unfolding find_submission_def fresh(7) b_def [symmetric]
    by (rule find_rows_fresh [OF fresh(1) [unfolded find_submission_def] fresh(3)]) (simp add: b)
  with b fresh(2) show ?thesis using that [of b] by (simp add: submission_of_def)
qed

text \<open>
  Submissions are idempotent. After a submission succeeded, and whatever was called since, the
  same submission by the same actor (same key, area, digest, size and type, under any identifier and
  any keys of the store) is answered with the object, the job and the event of the first one, marked
  as replayed, and changes nothing; with other content it is refused.
\<close>

theorem submissions_are_idempotent:
  assumes first: "register_object_job cfg c oid ar st final key trace mx now False s = (Inr v, t)"
    and "runs (queue_step cfg) (t, H) scs (u, H')" and "database cfg (transactions u) = None"
    and checks: "validate_staging c ar' (staged_key st') = Inr ()" "validate_final c ar' final' = Inr ()"
      "safe_id trace'" "sha256_text (staged_digest st')" "content_type_ok (staged_type st')"
      "0 \<le> staged_size st'" "1 \<le> mx'" "mx' \<le> 100"
  shows "\<exists>u'. register_object_job cfg c oid' ar' st' final' key trace' mx' (Some now') False u
      = ((if submission_fingerprint cfg ar' st' = submission_fingerprint cfg ar st
          then Inr (v\<lparr>replayed := True\<rparr>) else Inl (queue_error ''IDEMPOTENCY_KEY_REUSED'')), u')
    \<and> tables u' = tables u"
proof -
  obtain n where ids: "safe_id key" "capability c = ''object.write''"
    and stored: "store_object_job cfg c oid ar st final key trace mx n False (tables s) = Inr (v, tables t)"
    by (rule register_stores [OF first])
  obtain r where r: "find_submission (scope_of c) (actor_id c) key (tables t) = Some r"
    "request_fingerprint r = submission_fingerprint cfg ar st"
    "v\<lparr>replayed := True\<rparr> = submission_of (rec_object_id (the_object r)) True"
    by (rule register_leaves_submission [OF stored])
  obtain q where q: "find_submission (scope_of c) (actor_id c) key (tables u) = Some q" "origin q = origin r"
    using find_submission_runs [OF assms(2), of "scope_of c" "actor_id c" key r] r(1) by auto
  define u' where "u' = u\<lparr>transactions := Suc (transactions u)\<rparr>"
  have "register_object_job cfg c oid' ar' st' final' key trace' mx' (Some now') False u
      = transaction cfg (store_object_job cfg c oid' ar' st' final' key trace' mx' now' False) u"
    using checks ids by (simp add: register_object_job_def safe_or_def)
  also have "\<dots> = ((if submission_fingerprint cfg ar' st' = submission_fingerprint cfg ar st
      then Inr (v\<lparr>replayed := True\<rparr>) else Inl (queue_error ''IDEMPOTENCY_KEY_REUSED'')), u')"
    using q r(2,3) assms(3)
    by (auto simp: transaction_def Let_def store_object_job_def origin_def u'_def)
  finally show ?thesis by (auto simp: u'_def)
qed

lemma queue_demo_register:
  "register_object_job queue_demo_config queue_demo_context queue_demo_oid ''source'' queue_demo_staged
    queue_demo_final ''key1'' ''x1'' 5 None False queue_demo_seeded
    = (Inr (submission_of queue_demo_oid False), queue_demo_registered)"
proof -
  have "fst (register_object_job queue_demo_config queue_demo_context queue_demo_oid ''source'' queue_demo_staged
      queue_demo_final ''key1'' ''x1'' 5 None False queue_demo_seeded) = Inr (submission_of queue_demo_oid False)"
    by code_simp
  then show ?thesis by (simp add: queue_demo_registered_def prod_eq_iff)
qed

text \<open>The same content again, under another identifier.\<close>

definition queue_demo_again :: "string \<times> staged_object \<times> string" where
  "queue_demo_again = (replicate 32 CHR ''b'',
     queue_demo_staged\<lparr>staged_key := ''_staging/t1/w1/source/'' @ replicate 32 CHR ''b''\<rparr>,
     ''t1/w1/source/'' @ replicate 32 CHR ''b'')"

theorem submissions_are_idempotent_witness:
  "\<exists>u'. register_object_job queue_demo_config queue_demo_context (fst queue_demo_again) ''source''
      (fst (snd queue_demo_again)) (snd (snd queue_demo_again)) ''key1'' ''x2'' 7 (Some 9) False queue_demo_registered
    = (Inr (submission_of queue_demo_oid True), u') \<and> tables u' = tables queue_demo_registered"
proof -
  have checks: "validate_staging queue_demo_context ''source'' (staged_key (fst (snd queue_demo_again))) = Inr ()"
    "validate_final queue_demo_context ''source'' (snd (snd queue_demo_again)) = Inr ()"
    "safe_id ''x2''" "sha256_text (staged_digest (fst (snd queue_demo_again)))"
    "content_type_ok (staged_type (fst (snd queue_demo_again)))"
    "0 \<le> staged_size (fst (snd queue_demo_again))"
    by code_simp+
  have fp: "submission_fingerprint queue_demo_config ''source'' (fst (snd queue_demo_again))
      = submission_fingerprint queue_demo_config ''source'' queue_demo_staged"
    by (simp add: submission_fingerprint_def queue_demo_again_def)
  have run: "runs (queue_step queue_demo_config) (queue_demo_registered, {}) [] (queue_demo_registered, {})"
    by simp
  have up: "database queue_demo_config (transactions queue_demo_registered) = None"
    by (simp add: queue_demo_config_def)
  show ?thesis
    using submissions_are_idempotent [OF queue_demo_register run up checks, of 7 "fst queue_demo_again" 9]
    by (simp add: fp submission_of_def)
qed

section \<open>Dead letters\<close>

text \<open>
  The keys of submissions and of reprocessed dead letters share one name space. Where somebody
  submitted an object under the idempotency key that names a reprocessing, the reprocessing answers
  with the job of that submission, which retries nothing, and changes nothing: the dead letter stays
  where it is.
\<close>

theorem reprocessing_answered_by_submission:
  assumes "register_object_job cfg c oid ar st final (reprocess_key i key) trace mx now False s = (Inr v, t)"
    and "\<not> replayed v" and "capability c' = ''queue.reprocess''" and "scope_of c' = scope_of c"
    and "safe_id key" and "database cfg (transactions t) = None"
  shows "\<exists>j u. reprocess cfg c' i key t = (Inr j, u) \<and> tables u = tables t
    \<and> job_id j = sub_job_id v \<and> object_id j = oid \<and> retry_of_job_id j = None"
proof -
  obtain n where stored: "store_object_job cfg c oid ar st final (reprocess_key i key) trace mx n False (tables s)
      = Inr (v, tables t)"
    by (rule register_stores [OF assms(1)])
  have "\<exists>r. find_job_by_key (scope_of c) (reprocess_key i key) (tables t) = Some r
      \<and> job_id (the_job r) = sub_job_id v \<and> object_id (the_job r) = oid \<and> retry_of_job_id (the_job r) = None"
    using stored
  proof (cases rule: store_object_job_effect)
    case (replay r)
    with assms(2) show ?thesis by (simp add: submission_of_def)
  next
    case (fresh u)
    define r where "r = \<lparr>the_job = new_job (''job-'' @ oid) (''outbox-'' @ oid) oid mx None trace n,
      deduplication_key = reprocess_key i key, job_created_by = actor_id c, job_completed_at = None\<rparr>"
    have none: "find (\<lambda>r. deduplication_key r = reprocess_key i key) (rows_of (scope_of c) (jobs (tables s))) = None"
      using fresh(12) by (auto simp: find_None_iff list_ex_iff)
    have "find_job_by_key (scope_of c) (reprocess_key i key) (tables t) = Some r"
      unfolding find_job_by_key_def fresh(6) r_def [symmetric]
      by (rule find_rows_fresh [OF none fresh(5)]) (simp add: r_def)
    then show ?thesis using fresh(2) by (simp add: r_def new_job_def submission_of_def)
  qed
  then obtain r where r: "find_job_by_key (scope_of c) (reprocess_key i key) (tables t) = Some r"
    "job_id (the_job r) = sub_job_id v" "object_id (the_job r) = oid" "retry_of_job_id (the_job r) = None"
    by blast
  then show ?thesis
    using assms(3-6)
    by (simp add: reprocess_def safe_or_def read_utc_def transaction_def Let_def reprocess_job_def)
qed

definition queue_demo_clash :: queue_state where
  "queue_demo_clash = snd (register_object_job queue_demo_config queue_demo_context queue_demo_oid ''source''
     queue_demo_staged queue_demo_final (reprocess_key ''job-1'' ''key1'') ''x1'' 5 None False queue_demo_seeded)"

theorem reprocessing_answered_by_submission_witness:
  "\<exists>j u. reprocess queue_demo_config (queue_demo_context\<lparr>capability := ''queue.reprocess''\<rparr>) ''job-1'' ''key1''
      queue_demo_clash = (Inr j, u) \<and> tables u = tables queue_demo_clash \<and> retry_of_job_id j = None"
proof -
  have "fst (register_object_job queue_demo_config queue_demo_context queue_demo_oid ''source'' queue_demo_staged
      queue_demo_final (reprocess_key ''job-1'' ''key1'') ''x1'' 5 None False queue_demo_seeded)
      = Inr (submission_of queue_demo_oid False)"
    by code_simp
  then have first: "register_object_job queue_demo_config queue_demo_context queue_demo_oid ''source'' queue_demo_staged
      queue_demo_final (reprocess_key ''job-1'' ''key1'') ''x1'' 5 None False queue_demo_seeded
      = (Inr (submission_of queue_demo_oid False), queue_demo_clash)"
    by (simp add: queue_demo_clash_def prod_eq_iff)
  have key: "safe_id ''key1''" by code_simp
  show ?thesis
    using reprocessing_answered_by_submission [OF first, of "queue_demo_context\<lparr>capability := ''queue.reprocess''\<rparr>"] key
    by (fastforce simp: submission_of_def scope_of_def queue_demo_config_def)
qed

end
