(* ===== verification/Object_Queue_Drain.thy ===== *)
theory Object_Queue_Drain
  imports Object_Queue_Worker
begin

text \<open>
  The worker of the object queue: where the database answers and the clock goes on, its passes over
  the scopes never raise, each that changes anything uses up some of a bounded amount of work, and
  after finitely many passes every job of the scopes is completed or a dead letter.
\<close>

section \<open>Work\<close>

text \<open>How many more attempts a job can take of a worker that reports about each.\<close>

definition job_work :: "object_job \<Rightarrow> nat" where
  "job_work j = (if state j \<in> {Completed, DeadLetter} then 0
     else nat (max 1 (max_attempts j - attempt_number j)))"

definition work_left :: "scope list \<Rightarrow> queue_tables \<Rightarrow> nat" where
  "work_left scs db = sum_list (map (\<lambda>((sc, _), r). if sc \<in> set scs then job_work (the_job r) else 0) (jobs db))"

definition drained :: "scope list \<Rightarrow> queue_tables \<Rightarrow> bool" where
  "drained scs db \<longleftrightarrow> list_all (\<lambda>((sc, _), r). sc \<in> set scs \<longrightarrow>
     state (the_job r) \<in> {Completed, DeadLetter}) (jobs db)"

text \<open>
  What the jobs of the scopes must be for a worker to get rid of them: the payload of each names an
  object, none lost more leases than the delay of the next attempt can be computed for, and no job
  of another workspace of the tenant has the same name (the events in the audit trail of the tenant
  are named after jobs).
\<close>

definition drainable :: "scope list \<Rightarrow> queue_tables \<Rightarrow> bool" where
  "drainable scs db \<longleftrightarrow> set scs \<subseteq> set (workspaces db)
    \<and> list_all (\<lambda>((sc, i), r). sc \<in> set scs \<longrightarrow>
        opaque_id (object_id (the_job r))
        \<and> (state (the_job r) = Leased \<longrightarrow> attempt_number (the_job r) < 1024)
        \<and> list_all (\<lambda>((sc', i'), _). fst sc' = fst sc \<and> i' = i \<longrightarrow> sc' = sc) (jobs db)) (jobs db)"

text \<open>The surroundings of the worker: its arguments are accepted and the database answers.\<close>

definition worker_set_up :: "queue_config \<Rightarrow> string \<Rightarrow> rat \<Rightarrow> cloud_context list \<Rightarrow> bool" where
  "worker_set_up cfg wid lease cs \<longleftrightarrow> (\<forall>n. database cfg n = None) \<and> policy_checked (policy cfg)
    \<and> safe_id wid \<and> 1 / 1000000 \<le> lease \<and> lease \<le> 3600 \<and> list_all context_checked cs"

lemma worker_set_upD:
  assumes "worker_set_up cfg wid lease cs"
  shows "database cfg n = None" "policy_checked (policy cfg)" "safe_id wid" "0 < lease" "lease \<le> 3600"
    "0 < timedelta_us lease"
proof -
  show "database cfg n = None" "policy_checked (policy cfg)" "safe_id wid" "lease \<le> 3600"
    using assms by (simp_all add: worker_set_up_def)
  have one: "1 \<le> lease * 1000000" using assms by (simp add: worker_set_up_def)
  then show "0 < lease" by linarith
  have "1 \<le> floor (lease * 1000000)" using one by (simp add: le_floor_iff)
  then show "0 < timedelta_us lease" by (simp add: timedelta_us_def Let_def)
qed

lemma work_left_set:
  assumes "dict_get (jobs db) (sc, i) = Some r" and "jobs db' = dict_set (sc, i) r' (jobs db)" and "sc \<in> set scs"
    and "dict_ok (jobs db)"
  shows "work_left scs db' + job_work (the_job r) = work_left scs db + job_work (the_job r')"
proof -
  have "sum_list (map f (dict_set k v' d)) + f (k, v) = sum_list (map f d) + f (k, v')"
    if "dict_get d k = Some v" "dict_ok d" for f :: "(scope \<times> string) \<times> job_row \<Rightarrow> nat" and k v v' d
    using that
  proof (induction d)
    case (Cons e d)
    then show ?case by (cases e) (auto simp: add.assoc add.commute split: if_splits)
  qed simp
  from this [OF assms(1,4), of "\<lambda>((sc, _), r). if sc \<in> set scs then job_work (the_job r) else 0" r'] assms(2,3)
  show ?thesis by (simp add: work_left_def)
qed

lemma work_left_pos:
  assumes "dict_ok (jobs db)" and "\<not> drained scs db"
  obtains sc i r where "sc \<in> set scs" and "dict_get (jobs db) (sc, i) = Some r"
    and "state (the_job r) \<notin> {Completed, DeadLetter}"
proof -
  obtain sc i r where "((sc, i), r) \<in> set (jobs db)" "sc \<in> set scs" "state (the_job r) \<notin> {Completed, DeadLetter}"
    using assms(2) by (auto simp: drained_def list_all_iff)
  with that assms(1) show thesis by (simp add: dict_get_mem)
qed

lemma drainableD:
  assumes "drainable scs db" and "dict_ok (jobs db)" and "sc \<in> set scs"
  shows "sc \<in> set (workspaces db)"
    and "dict_get (jobs db) (sc, i) = Some r \<Longrightarrow> opaque_id (object_id (the_job r))"
    and "dict_get (jobs db) (sc, i) = Some r \<Longrightarrow> state (the_job r) = Leased \<Longrightarrow> attempt_number (the_job r) < 1024"
    and "dict_get (jobs db) (sc, i) = Some r \<Longrightarrow> dict_get (jobs db) ((fst sc, ws), i) = Some r' \<Longrightarrow> (fst sc, ws) = sc"
  using assms by (fastforce simp: drainable_def list_all_iff dict_get_mem)+

lemma drainableI:
  assumes "dict_ok (jobs db)" and "set scs \<subseteq> set (workspaces db)"
    and "\<And>sc i r. sc \<in> set scs \<Longrightarrow> dict_get (jobs db) (sc, i) = Some r \<Longrightarrow> opaque_id (object_id (the_job r))
      \<and> (state (the_job r) = Leased \<longrightarrow> attempt_number (the_job r) < 1024)"
    and "\<And>sc ws i r r'. sc \<in> set scs \<Longrightarrow> dict_get (jobs db) (sc, i) = Some r
      \<Longrightarrow> dict_get (jobs db) ((fst sc, ws), i) = Some r' \<Longrightarrow> (fst sc, ws) = sc"
  shows "drainable scs db"
  unfolding drainable_def list_all_iff
proof (intro conjI ballI assms(2))
  fix e assume "e \<in> set (jobs db)"
  moreover obtain sc i r where e: "e = ((sc, i), r)" by (cases e) auto
  ultimately have r: "dict_get (jobs db) (sc, i) = Some r" using assms(1) by (simp add: dict_get_mem)
  have "sc' = sc" if "((sc', i), r') \<in> set (jobs db)" "fst sc' = fst sc" "sc \<in> set scs" for sc' r'
    using assms(4) [OF that(3) r, of "snd sc'" r'] that assms(1) by (simp add: dict_get_mem) (metis prod.collapse)
  with e show "case e of (x, xa) \<Rightarrow> (case x of (sc, i) \<Rightarrow> \<lambda>r. sc \<in> set scs \<longrightarrow>
      opaque_id (object_id (the_job r)) \<and> (state (the_job r) = Leased \<longrightarrow> attempt_number (the_job r) < 1024)
      \<and> (\<forall>x\<in>set (jobs db). case x of (x, xa) \<Rightarrow> (case x of (sc', i') \<Rightarrow> \<lambda>_. fst sc' = fst sc \<and> i' = i \<longrightarrow> sc' = sc) xa)) xa"
    using assms(3) r by auto
qed

text \<open>A job changes, and nothing that matters to a worker of another.\<close>

lemma drainable_put:
  assumes "drainable scs db" and "dict_ok (jobs db)" and "dict_get (jobs db) (sc, i) = Some r"
    and "jobs db' = dict_set (sc, i) r' (jobs db)" and "workspaces db' = workspaces db"
    and "object_id (the_job r') = object_id (the_job r)" and "state (the_job r') \<noteq> Leased"
  shows "drainable scs db'"
proof (rule drainableI)
  show "dict_ok (jobs db')" by (simp add: assms(2,4))
  show "set scs \<subseteq> set (workspaces db')" using assms(1,5) by (simp add: drainable_def)
next
  fix sc0 i0 x
  assume "sc0 \<in> set scs" "dict_get (jobs db') (sc0, i0) = Some x"
  then show "opaque_id (object_id (the_job x)) \<and> (state (the_job x) = Leased \<longrightarrow> attempt_number (the_job x) < 1024)"
    using assms(3,4,6,7) drainableD(2,3) [OF assms(1,2)] by (auto split: if_splits)
next
  fix sc0 ws i0 x y
  assume "sc0 \<in> set scs" "dict_get (jobs db') (sc0, i0) = Some x" "dict_get (jobs db') ((fst sc0, ws), i0) = Some y"
  then obtain x' y' where "dict_get (jobs db) (sc0, i0) = Some x'" "dict_get (jobs db) ((fst sc0, ws), i0) = Some y'"
    using assms(3,4) by (auto split: if_splits)
  with \<open>sc0 \<in> set scs\<close> show "(fst sc0, ws) = sc0" by (rule drainableD(4) [OF assms(1,2)])
qed

section \<open>A report is accepted\<close>

lemma insert_report_ok:
  assumes "1 \<le> attempt_number j" and "dict_get (attempts db) (sc, job_id j, attempt_number j) = None"
    and "dict_get (audit_events db) (tenant_id c, i) = None" and "scope_of c \<in> set (workspaces db)"
  shows "\<exists>db'. and_then (insert_attempt sc j wid st err now db) (\<lambda>db3.
    and_then (insert_audit c i ac tt ti ok tr meta db3) (\<lambda>db4. Inr (v, db4))) = Inr (v, db')"
  using assms by (simp add: insert_attempt_def insert_audit_def)

text \<open>The row of a job that was just claimed, and what its reports will find.\<close>

definition in_work :: "cloud_context \<Rightarrow> string \<Rightarrow> int \<Rightarrow> object_job \<Rightarrow> queue_tables \<Rightarrow> bool" where
  "in_work c wid now j db \<longleftrightarrow> (\<exists>r. dict_get (jobs db) (scope_of c, job_id j) = Some r \<and> the_job r = j)
    \<and> assert_lease j j wid now = Inr () \<and> 1 \<le> attempt_number j
    \<and> dict_get (attempts db) (scope_of c, job_id j, attempt_number j) = None
    \<and> (\<forall>kind \<in> {''audit-complete-'', ''audit-attempt-''}.
        dict_get (audit_events db) (tenant_id c, audit_key kind (job_id j) (attempt_number j)) = None)
    \<and> scope_of c \<in> set (workspaces db)
    \<and> dict_get (objects db) (scope_of c, object_id j) \<noteq> None"

lemma in_workD:
  assumes "in_work c wid now j db"
  obtains r b where "dict_get (jobs db) (scope_of c, job_id j) = Some r" and "the_job r = j"
    and "assert_lease j j wid now = Inr ()" and "1 \<le> attempt_number j"
    and "dict_get (attempts db) (scope_of c, job_id j, attempt_number j) = None"
    and "dict_get (audit_events db) (tenant_id c, audit_key ''audit-complete-'' (job_id j) (attempt_number j)) = None"
    and "dict_get (audit_events db) (tenant_id c, audit_key ''audit-attempt-'' (job_id j) (attempt_number j)) = None"
    and "scope_of c \<in> set (workspaces db)" and "dict_get (objects db) (scope_of c, object_id j) = Some b"
  using assms by (auto simp: in_work_def)

lemma complete_job_ok:
  assumes "in_work c wid now j db"
  shows "complete_job c j wid x now db = Inl (queue_error ''OBJECT_CHECKSUM_MISMATCH'')
    \<or> (\<exists>v db'. complete_job c j wid x now db = Inr (v, db'))"
  using assms
proof (rule in_workD, goal_cases)
  case (1 r b)
  show ?case
  proof (cases "stored_as_registered x (the_object b)")
    case True
    show ?thesis
      unfolding complete_job_def Let_def 1 option.case and_then_simps eqTrueI [OF True] not_True_eq_False if_False
      by (intro disjI2, rule exI, rule insert_report_ok) (use 1 in \<open>simp_all add: statements audit_key_def\<close>)
  qed (use 1 in \<open>simp add: complete_job_def\<close>)
qed

lemma fail_job_ok:
  assumes "in_work c wid now j db"
  shows "\<exists>v db'. fail_job c j wid err now retry_at db = Inr (v, db')"
  using assms
proof (rule in_workD, goal_cases)
  case (1 r b)
  show ?case
    unfolding fail_job_def Let_def 1 option.case and_then_simps
    by (rule exI, rule insert_report_ok) (use 1 in \<open>simp_all add: statements audit_key_def\<close>)
qed

section \<open>A claimed job is reported\<close>

text \<open>What a report leaves: the job waits for another attempt that it may take, or it is done with.\<close>

definition settles :: "cloud_context \<Rightarrow> object_job \<Rightarrow> handed \<Rightarrow> queue_state \<Rightarrow> queue_state \<Rightarrow> bool" where
  "settles c j H s t \<longleftrightarrow> queue_inv (t, H) \<and> clock_reads t = clock_reads s
    \<and> workspaces (tables t) = workspaces (tables s)
    \<and> (\<exists>r'. jobs (tables t) = dict_set (scope_of c, job_id j) r' (jobs (tables s))
        \<and> object_id (the_job r') = object_id j \<and> attempt_number (the_job r') = attempt_number j
        \<and> max_attempts (the_job r') = max_attempts j
        \<and> (state (the_job r') \<in> {Completed, DeadLetter}
            \<or> state (the_job r') = RetryWait \<and> attempt_number j < max_attempts j))"

lemma settles_same:
  "tables s' = tables s \<Longrightarrow> clock_reads s' = clock_reads s \<Longrightarrow> settles c j H s' t = settles c j H s t"
  by (simp add: settles_def)

lemma transaction_up:
  assumes "database cfg (transactions s) = None"
  shows "body (tables s) = Inl e \<Longrightarrow> \<exists>t. transaction cfg body s = (Inl e, t) \<and> tables t = tables s
      \<and> clock_reads t = clock_reads s"
    and "body (tables s) = Inr (v, db) \<Longrightarrow> \<exists>t. transaction cfg body s = (Inr v, t) \<and> tables t = db
      \<and> clock_reads t = clock_reads s"
  using assms by (simp_all add: transaction_def Let_def)

lemma fail_settles:
  assumes up: "worker_set_up cfg wid lease cs" and inv: "queue_inv (s, H)" and j: "(scope_of c, j) \<in> H"
    and work: "in_work c wid now j (tables s)"
  shows "\<exists>v t. fail cfg c j wid err now retry_at s = (Inr v, t) \<and> settles c j H s t"
proof -
  obtain v db where "fail_job c j wid err now retry_at (tables s) = Inr (v, db)"
    using fail_job_ok [OF work] by blast
  from transaction_up(2) [where s = s and body = "fail_job c j wid err now retry_at", OF worker_set_upD(1) [OF up] this]
  obtain t where call: "fail cfg c j wid err now retry_at s = (Inr v, t)" and t: "clock_reads t = clock_reads s"
    unfolding fail_def by blast
  note inv' = queue_inv_fail [OF inv j call]
  from call have "settles c j H s t"
  proof (cases rule: fail_effect)
    case (failed r a u st j1)
    have r: "the_job r = j" by (rule lease_copy [OF queue_invD(4) [OF inv] j failed(4,5)])
    show ?thesis
      unfolding settles_def
      by (intro conjI exI [of _ "r\<lparr>the_job := j1, job_completed_at := (if st = RetryWait then None else Some now)\<rparr>"])
        (use inv' t failed(2,3,14) in \<open>simp_all add: failed(6) r\<close>)
  qed simp
  with call show ?thesis by blast
qed

lemma complete_settles:
  assumes up: "worker_set_up cfg wid lease cs" and inv: "queue_inv (s, H)" and j: "(scope_of c, j) \<in> H"
    and work: "in_work c wid now j (tables s)"
  shows "(\<exists>t. complete cfg c j wid x now s = (Inl (queue_error ''OBJECT_CHECKSUM_MISMATCH''), t)
      \<and> tables t = tables s \<and> clock_reads t = clock_reads s)
    \<or> (\<exists>v t. complete cfg c j wid x now s = (Inr v, t) \<and> settles c j H s t)"
  using complete_job_ok [OF work, of x]
proof
  assume "complete_job c j wid x now (tables s) = Inl (queue_error ''OBJECT_CHECKSUM_MISMATCH'')"
  from transaction_up(1) [where s = s and body = "complete_job c j wid x now", OF worker_set_upD(1) [OF up] this] show ?thesis by (simp add: complete_def)
next
  assume "\<exists>v db. complete_job c j wid x now (tables s) = Inr (v, db)"
  then obtain v db where "complete_job c j wid x now (tables s) = Inr (v, db)" by blast
  from transaction_up(2) [where s = s and body = "complete_job c j wid x now", OF worker_set_upD(1) [OF up] this]
  obtain t where call: "complete cfg c j wid x now s = (Inr v, t)" and t: "clock_reads t = clock_reads s"
    unfolding complete_def by blast
  note inv' = queue_inv_complete [OF inv j call]
  from call have "settles c j H s t"
  proof (cases rule: complete_effect)
    case (completed r b a u)
    have r: "the_job r = j" by (rule lease_copy [OF queue_invD(4) [OF inv] j completed(2,3)])
    show ?thesis
      unfolding settles_def
      by (intro conjI exI [of _ "r\<lparr>the_job := ended Completed j, job_completed_at := Some now\<rparr>"])
        (use inv' t completed(14) in \<open>simp_all add: completed(6) r\<close>)
  qed simp
  with call show ?thesis by blast
qed

lemma record_failure_settles:
  assumes up: "worker_set_up cfg wid lease cs" and inv: "queue_inv (s, H)" and j: "(scope_of c, j) \<in> H"
    and work: "in_work c wid now j (tables s)" and "attempt_number j \<le> 1024" and "0 \<le> u" and "u \<le> 1"
  shows "\<exists>v t. record_failure cfg c j wid now u (ObjectQueueError cd rt) s = (Inr v, t) \<and> settles c j H s t"
proof -
  have "1 \<le> attempt_number j" using work by (rule in_workD)
  then obtain d where "delay_seconds (policy cfg) (attempt_number j) u = Inr d"
    using assms(5-7) by (auto simp: delay_seconds_def Let_def)
  then show ?thesis
    using fail_settles [OF up inv j work] by (simp add: record_failure_def)
qed

lemma process_claimed_settles:
  assumes up: "worker_set_up cfg wid lease cs" and inv: "queue_inv (s, H)" and j: "(scope_of c, j) \<in> H"
    and work: "in_work c wid now j (tables s)" and "attempt_number j \<le> 1024" and "0 \<le> u" and "u \<le> 1"
  shows "\<exists>v t. process_claimed cfg c wid j now u s = (Inr v, t) \<and> settles c j H s t"
proof -
  obtain b where b: "dict_get (objects (tables s)) (scope_of c, object_id j) = Some b"
    using work by (rule in_workD)
  then obtain s1 where get: "get_object cfg c (object_id j) s = (Inr (the_object b), s1)"
    and s1: "tables s1 = tables s" "clock_reads s1 = clock_reads s"
    using transaction_up(2) [OF worker_set_upD(1) [OF up]] unfolding get_object_def
    by (metis (no_types, lifting) option.simps(5))
  define s2 where "s2 = s1\<lparr>storage_calls := Suc (storage_calls s1)\<rparr>"
  have s2: "tables s2 = tables s" "clock_reads s2 = clock_reads s" by (simp_all add: s2_def s1)
  have failure: "\<exists>v t. record_failure cfg c j wid now u (ObjectQueueError cd rt) s3 = (Inr v, t) \<and> settles c j H s t"
    if "tables s3 = tables s" "clock_reads s3 = clock_reads s" for cd rt s3
    using record_failure_settles [OF up queue_inv_same [OF inv that(1)] j work [folded that(1)] assms(5-7)]
    by (simp add: settles_same [OF that])
  note done' = complete_settles [OF up queue_inv_same [OF inv s2(1)] j work [folded s2(1)], unfolded settles_same [OF s2]]
  show ?thesis
  proof (cases "promote cfg (storage_calls s1) (staged_of (the_object b)) (object_key (the_object b))")
    case (Inl e)
    then show ?thesis
      using failure [OF s2] by (simp add: process_claimed_def get call_storage_def storage_error_def s2_def [symmetric])
  next
    case (Inr x)
    then have eq: "process_claimed cfg c wid j now u s = (case complete cfg c j wid x now s2 of
        (Inl e, s3) \<Rightarrow> record_failure cfg c j wid now u e s3 | (Inr v, s3) \<Rightarrow> (Inr v, s3))"
      by (simp add: process_claimed_def get call_storage_def s2_def [symmetric])
    from done' [of x] show ?thesis
    proof
      assume "\<exists>t. complete cfg c j wid x now s2 = (Inl (queue_error ''OBJECT_CHECKSUM_MISMATCH''), t)
        \<and> tables t = tables s2 \<and> clock_reads t = clock_reads s2"
      then obtain s3 where s3: "complete cfg c j wid x now s2 = (Inl (queue_error ''OBJECT_CHECKSUM_MISMATCH''), s3)"
        "tables s3 = tables s2" "clock_reads s3 = clock_reads s2" by blast
      then show ?thesis using failure [of s3] s2 by (simp add: eq)
    next
      assume "\<exists>v t. complete cfg c j wid x now s2 = (Inr v, t) \<and> settles c j H s t"
      then show ?thesis by (auto simp: eq)
    qed
  qed
qed

section \<open>A turn of the worker\<close>

definition ready :: "scope list \<Rightarrow> queue_state \<Rightarrow> bool" where
  "ready scs s \<longleftrightarrow> (\<exists>H. queue_inv (s, H)) \<and> drainable scs (tables s)"

lemma ready_keys: "ready scs s \<Longrightarrow> dict_ok (jobs (tables s))"
  by (auto simp: ready_def dest!: queue_invD(1) simp: keys_ok_def)

lemma claim_idle:
  assumes "worker_set_up cfg wid lease cs" and "first_due (scope_of c) now (tables s) = None"
  shows "\<exists>t. claim cfg c wid now lease s = (Inr None, t) \<and> tables t = tables s \<and> clock_reads t = clock_reads s"
  using assms(2) worker_set_upD [OF assms(1)]
  by (simp add: claim_def safe_or_def transaction_def claim_first_def)

lemma audit_okD:
  assumes "audit_ok db" and "1 \<le> n" and "kind \<in> {''audit-complete-'', ''audit-attempt-''}"
    and "dict_get (audit_events db) (tn, audit_key kind i n) \<noteq> None"
  obtains ws a where "dict_get (attempts db) ((tn, ws), i, n) = Some a"
  using assms unfolding audit_ok_def by blast

lemma claimed_in_work:
  assumes inv: "queue_inv (s, H)" and drain: "drainable scs (tables s)" and c: "scope_of c \<in> set scs"
    and r: "dict_get (jobs (tables s)) (scope_of c, i) = Some r" and due: "due now (the_job r)" and "now < until"
    and t: "tables t = dispatch_outbox (scope_of c) ev
      (put_job (scope_of c) r (leased_to wid until (the_job r)) d (tables s))"
  shows "in_work c wid now (leased_to wid until (the_job r)) (tables t)"
proof -
  note old = queue_invD [OF inv] and row = job_rows_okD [OF queue_invD(2) [OF inv] r]
  have keys: "dict_ok (jobs (tables s))" using old(1) by (simp add: keys_ok_def)
  have n: "0 \<le> attempt_number (the_job r)"
    using row(2) by (cases "state (the_job r) = Pending") (auto simp: job_ok_def)
  have n1: "1 \<le> attempt_number (the_job r) + 1" using n by linarith
  have att: "dict_get (attempts (tables s)) (scope_of c, i, attempt_number (the_job r) + 1) = None"
  proof (rule ccontr)
    assume "dict_get (attempts (tables s)) (scope_of c, i, attempt_number (the_job r) + 1) \<noteq> None"
    then obtain a where "dict_get (attempts (tables s)) (scope_of c, i, attempt_number (the_job r) + 1) = Some a" by blast
    from attempt_rows_okD [OF old(3) this r] show False by (simp add: attempt_ok_def)
  qed
  have aud: "dict_get (audit_events (tables s)) (tenant_id c, audit_key kind i (attempt_number (the_job r) + 1)) = None"
    if k: "kind \<in> {''audit-complete-'', ''audit-attempt-''}" for kind
  proof (rule ccontr)
    assume "dict_get (audit_events (tables s)) (tenant_id c, audit_key kind i (attempt_number (the_job r) + 1)) \<noteq> None"
    then obtain ws a where a: "dict_get (attempts (tables s)) ((tenant_id c, ws), i, attempt_number (the_job r) + 1) = Some a"
      by (rule audit_okD [OF old(5) n1 k])
    then obtain r' where "dict_get (jobs (tables s)) ((fst (scope_of c), ws), i) = Some r'"
      using old(3) unfolding attempt_rows_ok_def scope_of_def by fastforce
    from drainableD(4) [OF drain keys c r this] a att show False by (simp add: scope_of_def)
  qed
  show ?thesis
    unfolding in_work_def
    using att aud row(1,3) n drainableD(1) [OF drain keys c] assms(6)
    by (auto simp: t statements assert_lease_ok)
qed

lemma claim_job:
  assumes up: "worker_set_up cfg wid lease cs" and inv: "queue_inv (s, H)" and drain: "drainable scs (tables s)"
    and c: "scope_of c \<in> set scs" and first: "first_due (scope_of c) now (tables s) = Some r"
  obtains t where "claim cfg c wid now lease s = (Inr (Some (leased_to wid (now + timedelta_us lease) (the_job r))), t)"
    and "dict_get (jobs (tables s)) (scope_of c, job_id (the_job r)) = Some r" and "due now (the_job r)"
    and "jobs (tables t) = dict_set (scope_of c, job_id (the_job r))
      (r\<lparr>the_job := leased_to wid (now + timedelta_us lease) (the_job r)\<rparr>) (jobs (tables s))"
    and "workspaces (tables t) = workspaces (tables s)" and "clock_reads t = clock_reads s"
    and "in_work c wid now (leased_to wid (now + timedelta_us lease) (the_job r)) (tables t)"
    and "attempt_number (the_job r) < 1024"
proof -
  note old = queue_invD [OF inv] and set_up = worker_set_upD [OF up]
  have keys: "dict_ok (jobs (tables s))" using old(1) by (simp add: keys_ok_def)
  obtain i where i: "dict_get (jobs (tables s)) (scope_of c, i) = Some r" and due: "due now (the_job r)"
    using first_due_mem [OF keys first] by blast
  note row = job_rows_okD [OF old(2) i]
  have "opaque_id (object_id (the_job r))" by (rule drainableD(2) [OF drain keys c i])
  then have "claim_first c wid now (now + timedelta_us lease) (tables s)
      = Inr (Some (leased_to wid (now + timedelta_us lease) (the_job r)), dispatch_outbox (scope_of c) (event_id (the_job r))
        (put_job (scope_of c) r (leased_to wid (now + timedelta_us lease) (the_job r)) (job_completed_at r) (tables s)))"
    by (simp add: claim_first_def first Let_def validate_promote_payload leased_to_def)
  from transaction_up(2) [where s = s and body = "claim_first c wid now (now + timedelta_us lease)", OF set_up(1) this]
  obtain t where t: "claim cfg c wid now lease s = (Inr (Some (leased_to wid (now + timedelta_us lease) (the_job r))), t)"
    "tables t = dispatch_outbox (scope_of c) (event_id (the_job r))
      (put_job (scope_of c) r (leased_to wid (now + timedelta_us lease) (the_job r)) (job_completed_at r) (tables s))"
    "clock_reads t = clock_reads s"
    using set_up by (auto simp: claim_def safe_or_def)
  have "attempt_number (the_job r) < 1024"
    using row(2) due_live [OF due] drainableD(3) [OF drain keys c i] by (auto simp: job_ok_def)
  moreover have "in_work c wid now (leased_to wid (now + timedelta_us lease) (the_job r)) (tables t)"
    by (rule claimed_in_work [OF inv drain c i due _ t(2)]) (use set_up(6) in simp)
  ultimately show thesis
    using that [of t] t i due row(1) by (simp add: statements)
qed

lemma run_once_turn:
  assumes up: "worker_set_up cfg wid lease cs" and rdy: "ready scs s" and c: "scope_of c \<in> set scs"
    and u: "0 \<le> u" "u \<le> 1"
  shows "\<exists>v t. run_once cfg c wid lease False None u s = (Inr v, t) \<and> ready scs t
    \<and> clock_reads t = Suc (clock_reads s)
    \<and> (if first_due (scope_of c) (utcnow cfg (clock_reads s)) (tables s) = None then tables t = tables s
        else work_left scs (tables t) < work_left scs (tables s))"
proof -
  define now where "now = utcnow cfg (clock_reads s)"
  define s1 where "s1 = s\<lparr>clock_reads := Suc (clock_reads s)\<rparr>"
  obtain H where inv: "queue_inv (s, H)" and drain: "drainable scs (tables s)"
    using rdy by (auto simp: ready_def)
  have s1: "tables s1 = tables s" "clock_reads s1 = Suc (clock_reads s)" by (simp_all add: s1_def)
  note inv1 = queue_inv_same [OF inv s1(1)]
  have eq: "run_once cfg c wid lease False None u s = chain (claim cfg c wid now lease s1) (\<lambda>claimed s2.
      case claimed of None \<Rightarrow> (Inr None, s2)
      | Some j \<Rightarrow> chain (process_claimed cfg c wid j now u s2) (\<lambda>v s3. (Inr (Some v), s3)))"
    unfolding now_def s1_def run_once_def read_utc_def by simp
  show ?thesis
  proof (cases "first_due (scope_of c) now (tables s)")
    case None
    then obtain t where "claim cfg c wid now lease s1 = (Inr None, t)" "tables t = tables s" "clock_reads t = clock_reads s1"
      using claim_idle [OF up, of c now s1] s1 by auto
    then show ?thesis
      using None inv queue_inv_same [OF inv] drain by (auto simp: eq ready_def now_def [symmetric] s1)
  next
    case (Some r)
    define j where "j = leased_to wid (now + timedelta_us lease) (the_job r)"
    obtain t1 where t1: "claim cfg c wid now lease s1 = (Inr (Some j), t1)"
      and r: "dict_get (jobs (tables s)) (scope_of c, job_id (the_job r)) = Some r" and due: "due now (the_job r)"
      and jobs1: "jobs (tables t1) = dict_set (scope_of c, job_id (the_job r)) (r\<lparr>the_job := j\<rparr>) (jobs (tables s))"
      and rest: "workspaces (tables t1) = workspaces (tables s)" "clock_reads t1 = Suc (clock_reads s)"
      and work: "in_work c wid now j (tables t1)" and n: "attempt_number (the_job r) < 1024"
      using claim_job [OF up inv1 drain [folded s1(1)] c, of now r] Some by (metis j_def s1)
    have inv2: "queue_inv (t1, insert (scope_of c, j) H)"
      using queue_inv_claim [OF inv1 t1] by (simp add: handed_over_def)
    obtain v t where t: "process_claimed cfg c wid j now u t1 = (Inr v, t)"
      and settled: "settles c j (insert (scope_of c, j) H) t1 t"
      using process_claimed_settles [OF up inv2 _ work _ u] n by (auto simp: j_def)
    from settled obtain r' where jobs2: "jobs (tables t) = dict_set (scope_of c, job_id j) r' (jobs (tables t1))"
      and r': "object_id (the_job r') = object_id j" "attempt_number (the_job r') = attempt_number j"
        "max_attempts (the_job r') = max_attempts j" "state (the_job r') \<in> {Completed, DeadLetter}
          \<or> state (the_job r') = RetryWait \<and> attempt_number j < max_attempts j"
      and t': "queue_inv (t, insert (scope_of c, j) H)" "clock_reads t = clock_reads t1"
        "workspaces (tables t) = workspaces (tables t1)"
      unfolding settles_def by blast
    have jobs: "jobs (tables t) = dict_set (scope_of c, job_id (the_job r)) r' (jobs (tables s))"
      using jobs2 by (simp add: jobs1 j_def)
    have keys: "dict_ok (jobs (tables s))" by (rule ready_keys [OF rdy])
    have "drainable scs (tables t)"
      by (rule drainable_put [OF drain keys r jobs]) (use t'(3) rest(1) r'(1,4) in \<open>auto simp: j_def\<close>)
    moreover have "job_work (the_job r') < job_work (the_job r)"
      using r'(2-4) due_live [OF due] by (auto simp: job_work_def j_def)
    then have "work_left scs (tables t) < work_left scs (tables s)"
      using work_left_set [OF r jobs c keys] by linarith
    ultimately show ?thesis
      using t' rest(2) by (auto simp: eq t1 t ready_def Some now_def [symmetric])
  qed
qed

section \<open>Passes\<close>

lemma no_job_due:
  assumes "ready scs s" and "first_due sc now (tables s) = None" and "dict_get (jobs (tables s)) (sc, i) = Some r"
  shows "\<not> due now (the_job r)"
  by (rule first_due_none [OF ready_keys [OF assms(1)] assms(2,3)])

text \<open>A job of one of the scopes that is due from now on.\<close>

definition overdue :: "queue_config \<Rightarrow> cloud_context list \<Rightarrow> queue_state \<Rightarrow> bool" where
  "overdue cfg cs s \<longleftrightarrow> (\<exists>c i r. c \<in> set cs \<and> dict_get (jobs (tables s)) (scope_of c, i) = Some r
    \<and> (\<forall>n \<ge> clock_reads s. due (utcnow cfg n) (the_job r)))"

lemma poll_scopes_pass:
  assumes "worker_set_up cfg wid lease all" and "ready scs s" and "scope_of ` set cs \<subseteq> set scs"
  shows "\<exists>t. poll_scopes cfg wid lease cs s = (Inr (), t) \<and> ready scs t
    \<and> clock_reads t = clock_reads s + length cs
    \<and> (tables t = tables s \<and> \<not> overdue cfg cs s \<or> work_left scs (tables t) < work_left scs (tables s))"
  using assms(2,3)
proof (induction cs arbitrary: s)
  case Nil
  then show ?case by (simp add: overdue_def)
next
  case (Cons c cs)
  have c: "scope_of c \<in> set scs" using Cons.prems(2) by simp
  obtain v t where t: "run_once cfg c wid lease False None (1 / 2) s = (Inr v, t)" "ready scs t"
    "clock_reads t = Suc (clock_reads s)"
    and turn: "if first_due (scope_of c) (utcnow cfg (clock_reads s)) (tables s) = None then tables t = tables s
        else work_left scs (tables t) < work_left scs (tables s)"
    using run_once_turn [OF assms(1) Cons.prems(1) c, of "1 / 2"] by auto
  obtain t' where t': "poll_scopes cfg wid lease cs t = (Inr (), t')" "ready scs t'"
    "clock_reads t' = clock_reads t + length cs"
    and rest: "tables t' = tables t \<and> \<not> overdue cfg cs t \<or> work_left scs (tables t') < work_left scs (tables t)"
    using Cons.IH [OF t(2)] Cons.prems(2) by auto
  have "tables t' = tables s \<and> \<not> overdue cfg (c # cs) s \<or> work_left scs (tables t') < work_left scs (tables s)"
  proof (cases "first_due (scope_of c) (utcnow cfg (clock_reads s)) (tables s) = None")
    case True
    have "overdue cfg cs t" if "overdue cfg (c # cs) s"
      using that True turn no_job_due [OF Cons.prems(1) True] t(3) by (fastforce simp: overdue_def)
    then show ?thesis using True turn rest by auto
  next
    case False
    then show ?thesis using turn rest by auto
  qed
  then show ?case using t t' by simp
qed

lemma worker_passes_add:
  "worker_passes cfg wid lease cs (m + n) s
    = chain (worker_passes cfg wid lease cs m s) (\<lambda>_. worker_passes cfg wid lease cs n)"
proof (induction m arbitrary: s)
  case (Suc m)
  show ?case
    by (cases "poll_scopes cfg wid lease cs s"; cases "fst (poll_scopes cfg wid lease cs s)") (auto simp: Suc)
qed simp

lemma passes_succeed:
  assumes "worker_set_up cfg wid lease cs" and "ready (map scope_of cs) s"
  shows "\<exists>t. worker_passes cfg wid lease cs n s = (Inr (), t) \<and> ready (map scope_of cs) t
    \<and> clock_reads t = clock_reads s + n * length cs
    \<and> (tables t = tables s \<or> work_left (map scope_of cs) (tables t) < work_left (map scope_of cs) (tables s))"
  using assms(2)
proof (induction n arbitrary: s)
  case 0
  then show ?case by simp
next
  case (Suc n)
  obtain t where t: "poll_scopes cfg wid lease cs s = (Inr (), t)" "ready (map scope_of cs) t"
    "clock_reads t = clock_reads s + length cs"
    "tables t = tables s \<or> work_left (map scope_of cs) (tables t) < work_left (map scope_of cs) (tables s)"
    using poll_scopes_pass [OF assms(1) Suc.prems, of cs] by auto
  obtain u where "worker_passes cfg wid lease cs n t = (Inr (), u)" "ready (map scope_of cs) u"
    "clock_reads u = clock_reads t + n * length cs"
    "tables u = tables t \<or> work_left (map scope_of cs) (tables u) < work_left (map scope_of cs) (tables t)"
    using Suc.IH [OF t(2)] by blast
  with t show ?case by auto
qed

lemma job_work_zero: "job_work j = 0 \<longleftrightarrow> state j \<in> {Completed, DeadLetter}"
  by (auto simp: job_work_def)

lemma drained_iff: "drained scs db \<longleftrightarrow> work_left scs db = 0"
proof -
  have "(\<Sum>e\<leftarrow>d. case e of (x, r) \<Rightarrow> (case x of (sc, _) \<Rightarrow> \<lambda>r. if sc \<in> set scs then job_work (the_job r) else 0) r) = 0
    \<longleftrightarrow> list_all (\<lambda>((sc, _), r). sc \<in> set scs \<longrightarrow> state (the_job r) \<in> {Completed, DeadLetter}) d"
    for d :: "(scope \<times> string, job_row) dict"
  proof (induction d)
    case (Cons e d)
    obtain sc i r where "e = ((sc, i), r)" by (cases e) auto
    then show ?case using Cons job_work_zero [of "the_job r"] by simp
  qed simp
  then show ?thesis by (simp add: drained_def work_left_def)
qed

lemma reachable_ready:
  "reachable queue_start (queue_step cfg) (s, H) \<Longrightarrow> drainable scs (tables s) \<Longrightarrow> ready scs s"
  using queue.reachable_inv by (auto simp: ready_def)

lemma eventually_due:
  assumes "job_ok j" and "state j \<notin> {Completed, DeadLetter}"
  shows "\<exists>T. \<forall>now \<ge> T. due now j"
proof -
  have "\<forall>now \<ge> (if state j = Leased then the (lease_until j) else next_attempt_at j). due now j"
    using assms by (cases "state j") (auto simp: due_def job_ok_def)
  then show ?thesis by blast
qed

lemma passes_make_progress:
  assumes up: "worker_set_up cfg wid lease cs" and rdy: "ready (map scope_of cs) s"
    and clock: "\<And>T. \<exists>N. \<forall>n \<ge> N. T \<le> utcnow cfg n" and busy: "work_left (map scope_of cs) (tables s) \<noteq> 0"
  shows "\<exists>n t. worker_passes cfg wid lease cs n s = (Inr (), t)
    \<and> work_left (map scope_of cs) (tables t) < work_left (map scope_of cs) (tables s)"
proof -
  have "\<not> drained (map scope_of cs) (tables s)" using busy by (simp add: drained_iff)
  then obtain sc i r where sc: "sc \<in> set (map scope_of cs)" and row: "dict_get (jobs (tables s)) (sc, i) = Some r"
    and live: "state (the_job r) \<notin> {Completed, DeadLetter}"
    by (rule work_left_pos [OF ready_keys [OF rdy]])
  from sc row obtain c where c: "c \<in> set cs" and r: "dict_get (jobs (tables s)) (scope_of c, i) = Some r"
    by auto
  obtain H where "queue_inv (s, H)" using rdy by (auto simp: ready_def)
  then have "job_ok (the_job r)" using job_rows_okD(2) [OF queue_invD(2) r] by blast
  then obtain T where T: "\<forall>now \<ge> T. due now (the_job r)" using eventually_due live by blast
  obtain N where N: "\<forall>n \<ge> N. T \<le> utcnow cfg n" using clock by blast
  obtain t where t: "worker_passes cfg wid lease cs N s = (Inr (), t)" "ready (map scope_of cs) t"
    "clock_reads t = clock_reads s + N * length cs"
    "tables t = tables s \<or> work_left (map scope_of cs) (tables t) < work_left (map scope_of cs) (tables s)"
    using passes_succeed [OF up rdy] by blast
  show ?thesis
  proof (cases "tables t = tables s")
    case False
    with t show ?thesis by blast
  next
    case True
    have "N * 1 \<le> N * length cs" using c by (intro mult_le_mono) (auto simp: Suc_le_eq)
    then have late: "N \<le> clock_reads t" using t(3) by linarith
    have "due (utcnow cfg n) (the_job r)" if "clock_reads t \<le> n" for n
      using that late N T by simp
    then have "overdue cfg cs t"
      using c r True by (auto simp: overdue_def)
    then obtain u where u: "poll_scopes cfg wid lease cs t = (Inr (), u)"
      "work_left (map scope_of cs) (tables u) < work_left (map scope_of cs) (tables t)"
      using poll_scopes_pass [OF up t(2), of cs] by auto
    then have "worker_passes cfg wid lease cs (N + 1) s = (Inr (), u)"
      unfolding worker_passes_add t(1) by simp
    with u(2) True show ?thesis by metis
  qed
qed

lemma passes_drain:
  assumes up: "worker_set_up cfg wid lease cs" and clock: "\<And>T. \<exists>N. \<forall>n \<ge> N. T \<le> utcnow cfg n"
  shows "ready (map scope_of cs) s \<Longrightarrow> \<exists>n t. worker_passes cfg wid lease cs n s = (Inr (), t)
    \<and> work_left (map scope_of cs) (tables t) = 0"
proof (induction "work_left (map scope_of cs) (tables s)" arbitrary: s rule: less_induct)
  case less
  show ?case
  proof (cases "work_left (map scope_of cs) (tables s) = 0")
    case True
    then show ?thesis by (intro exI [of _ 0]) simp
  next
    case False
    obtain m t where t: "worker_passes cfg wid lease cs m s = (Inr (), t)"
      "work_left (map scope_of cs) (tables t) < work_left (map scope_of cs) (tables s)"
      using passes_make_progress [OF up less.prems clock False] by blast
    have "ready (map scope_of cs) t"
      using passes_succeed [OF up less.prems, of m] t(1) by auto
    with less.hyps [OF t(2)] obtain n u where "worker_passes cfg wid lease cs n t = (Inr (), u)"
      "work_left (map scope_of cs) (tables u) = 0" by blast
    with t(1) have "worker_passes cfg wid lease cs (m + n) s = (Inr (), u)
        \<and> work_left (map scope_of cs) (tables u) = 0"
      by (simp add: worker_passes_add)
    then show ?thesis by blast
  qed
qed

section \<open>The worker\<close>

text \<open>
  C17: the worker drains the queue. It is set up: the database answers always, the retry policy and
  the contexts of its scopes are checked, its name is safe, and it leases for a microsecond to an hour.
  And the queue is drainable: the scopes are registered workspaces; every job of them names an object;
  no leased job of them is beyond its 1023rd attempt, since the delay of a later one overflows and
  raises; and no job of another workspace of the same tenant has the name of one of theirs, since the
  audit events of the two would have the same key. Then, if the clock passes every time, the passes of
  the worker never raise, whatever the object store answers, and from some pass on every job of the
  scopes is completed or a dead letter.
\<close>

theorem worker_drains_queue:
  assumes "worker_set_up cfg wid lease cs" and "reachable queue_start (queue_step cfg) (s, H)"
    and "drainable (map scope_of cs) (tables s)" and "\<forall>T. \<exists>N. \<forall>n \<ge> N. T \<le> utcnow cfg n"
  shows "\<exists>n. \<forall>k \<ge> n. \<exists>t. worker_passes cfg wid lease cs k s = (Inr (), t)
    \<and> drained (map scope_of cs) (tables t)"
proof -
  have rdy: "ready (map scope_of cs) s" by (rule reachable_ready [OF assms(2,3)])
  obtain n t where t: "worker_passes cfg wid lease cs n s = (Inr (), t)"
    "work_left (map scope_of cs) (tables t) = 0"
    using passes_drain [OF assms(1) spec [OF assms(4)] rdy] by blast
  have rdy': "ready (map scope_of cs) t"
    using passes_succeed [OF assms(1) rdy, of n] t(1) by auto
  have "\<exists>u. worker_passes cfg wid lease cs k s = (Inr (), u) \<and> drained (map scope_of cs) (tables u)"
    if "n \<le> k" for k
  proof -
    obtain u where "worker_passes cfg wid lease cs (k - n) t = (Inr (), u)"
      "tables u = tables t \<or> work_left (map scope_of cs) (tables u) < work_left (map scope_of cs) (tables t)"
      using passes_succeed [OF assms(1) rdy'] by blast
    with t worker_passes_add [of cfg wid lease cs n "k - n" s] that show ?thesis
      by (auto simp: drained_iff)
  qed
  then show ?thesis by blast
qed

lemma queue_demo_worker:
  "worker_set_up queue_demo_config ''worker1'' 30 [queue_demo_context]"
  "drainable (map scope_of [queue_demo_context]) (tables queue_demo_registered)"
  "work_left (map scope_of [queue_demo_context]) (tables queue_demo_registered) = 5"
proof -
  have "safe_id ''worker1''" by code_simp
  then show "worker_set_up queue_demo_config ''worker1'' 30 [queue_demo_context]"
    by (simp add: worker_set_up_def queue_demo_checked) (simp add: queue_demo_config_def policy_checked_def default_policy_def)
  show "drainable (map scope_of [queue_demo_context]) (tables queue_demo_registered)"
    "work_left (map scope_of [queue_demo_context]) (tables queue_demo_registered) = 5"
    by code_simp+
qed

theorem worker_drains_queue_witness:
  "\<exists>n t. worker_passes queue_demo_config ''worker1'' 30 [queue_demo_context] n queue_demo_registered = (Inr (), t)
    \<and> drained [scope_of queue_demo_context] (tables t)"
proof -
  have "\<forall>T. \<exists>N. \<forall>n \<ge> N. T \<le> utcnow queue_demo_config n"
  proof
    fix T
    have "T \<le> utcnow queue_demo_config n" if "nat T \<le> n" for n
      using that by (simp add: queue_demo_config_def)
    then show "\<exists>N. \<forall>n \<ge> N. T \<le> utcnow queue_demo_config n" by blast
  qed
  from worker_drains_queue [OF queue_demo_worker(1) queue_demo_reachable_registered queue_demo_worker(2) this]
  show ?thesis by (simp del: worker_passes.simps) blast
qed

text \<open>
  The work of the worker is bounded. However many passes it makes, none raises, and the passes
  that change anything in the tables are no more than the attempts that the jobs of its scopes have
  left; so a job that always fails is tried no more often than it may be.
\<close>

theorem worker_work_bounded:
  assumes "worker_set_up cfg wid lease cs" and "reachable queue_start (queue_step cfg) (s, H)"
    and "drainable (map scope_of cs) (tables s)"
  shows "fst (worker_passes cfg wid lease cs n s) = Inr ()
    \<and> card {i. i < n \<and> tables (snd (worker_passes cfg wid lease cs (Suc i) s))
          \<noteq> tables (snd (worker_passes cfg wid lease cs i s))}
        + work_left (map scope_of cs) (tables (snd (worker_passes cfg wid lease cs n s)))
      \<le> work_left (map scope_of cs) (tables s)"
proof (induction n)
  case 0
  then show ?case by simp
next
  case (Suc n)
  define changed where "changed k = {i. i < k \<and> tables (snd (worker_passes cfg wid lease cs (Suc i) s))
    \<noteq> tables (snd (worker_passes cfg wid lease cs i s))}" for k
  have rdy: "ready (map scope_of cs) s" by (rule reachable_ready [OF assms(2,3)])
  obtain t where t: "worker_passes cfg wid lease cs n s = (Inr (), t)" "ready (map scope_of cs) t"
    using passes_succeed [OF assms(1) rdy] by blast
  obtain u where u: "poll_scopes cfg wid lease cs t = (Inr (), u)"
    "tables u = tables t \<or> work_left (map scope_of cs) (tables u) < work_left (map scope_of cs) (tables t)"
    using poll_scopes_pass [OF assms(1) t(2), of cs] by auto
  have next': "worker_passes cfg wid lease cs (Suc n) s = (Inr (), u)"
    using worker_passes_add [of cfg wid lease cs n 1 s] t(1) u(1) by simp
  have fin: "finite (changed n)" by (simp add: changed_def)
  have "changed (Suc n) = (if tables u = tables t then changed n else insert n (changed n))"
    using next' t(1) by (auto simp: changed_def less_Suc_eq)
  then have "card (changed (Suc n)) \<le> card (changed n) + (if tables u = tables t then 0 else 1)"
    using fin by (simp add: card_insert_if)
  moreover have "card (changed n) + work_left (map scope_of cs) (tables t) \<le> work_left (map scope_of cs) (tables s)"
    using Suc.IH t(1) by (simp add: changed_def)
  ultimately show ?case
    using u(2) next' by (auto simp: changed_def [symmetric] simp del: worker_passes.simps split: if_splits)
qed

theorem worker_work_bounded_witness:
  "card {i. i < 100 \<and> tables (snd (worker_passes queue_demo_config ''worker1'' 30 [queue_demo_context] (Suc i)
        queue_demo_registered))
      \<noteq> tables (snd (worker_passes queue_demo_config ''worker1'' 30 [queue_demo_context] i queue_demo_registered))}
    \<le> 5"
  using worker_work_bounded [OF queue_demo_worker(1) queue_demo_reachable_registered queue_demo_worker(2), of 100]
    queue_demo_worker(3) by simp

end
