(* ===== verification/Security_Audit.thy ===== *)
theory Security_Audit
  imports Contracts Json
begin

text \<open>
  Model of \<open>services/api/src/daon_user_api/audit.py\<close>: the validation of audit events, their hash
  chain, the in-memory store, its pages and cursors, the verification of a trail, and the durable
  store, whose rows form one chain for each tenant. Values are JSON values and the values that are
  none; finite floating point numbers are not modelled. Text that reaches the database has no NUL
  character. Locks and connections are left out: each operation runs in its critical section.
\<close>

section \<open>Errors and enumerations\<close>

datatype audit_error = AuditValidationError string | AuditDuplicateEventError

datatype actor_type = UserActor | ServiceActor | SystemActor

definition actor_type_value :: "actor_type \<Rightarrow> string" where
  "actor_type_value t = (case t of UserActor \<Rightarrow> ''user'' | ServiceActor \<Rightarrow> ''service''
     | SystemActor \<Rightarrow> ''system'')"

datatype audit_outcome = Succeeded | Denied | Failed

definition outcome_value :: "audit_outcome \<Rightarrow> string" where
  "outcome_value o' = (case o' of Succeeded \<Rightarrow> ''succeeded'' | Denied \<Rightarrow> ''denied'' | Failed \<Rightarrow> ''failed'')"

datatype integrity_code = IntegrityOk | InvalidEvent | DuplicateEventId | SequenceMismatch
  | PreviousHashMismatch | EventHashMismatch

definition integrity_value :: "integrity_code \<Rightarrow> string" where
  "integrity_value c = (case c of IntegrityOk \<Rightarrow> ''OK'' | InvalidEvent \<Rightarrow> ''INVALID_EVENT''
     | DuplicateEventId \<Rightarrow> ''DUPLICATE_EVENT_ID'' | SequenceMismatch \<Rightarrow> ''SEQUENCE_MISMATCH''
     | PreviousHashMismatch \<Rightarrow> ''PREVIOUS_HASH_MISMATCH'' | EventHashMismatch \<Rightarrow> ''EVENT_HASH_MISMATCH'')"

text \<open>
  What the standard library computes: SHA-256 in hexadecimal, the canonical text of an instant, the
  text of the IP address that a text is, whether the address of a text is private, loopback,
  link-local, reserved or unspecified, and the host of a URL (\<^term>\<open>None\<close> where parsing it raises).
\<close>

record audit_config =
  sha256 :: "string \<Rightarrow> string"
  canonical_time :: "int \<Rightarrow> string"
  ip_address :: "string \<Rightarrow> string option"
  closed_address :: "string \<Rightarrow> bool"
  url_hostname :: "string \<Rightarrow> string option option"

section \<open>Texts and times\<close>

abbreviation invalid :: "string \<Rightarrow> audit_error + 'a" where
  "invalid c \<equiv> Inl (AuditValidationError c)"

definition ascii_upper :: "string \<Rightarrow> string" where
  "ascii_upper = map (\<lambda>c. if CHR ''a'' \<le> c \<and> c \<le> CHR ''z'' then char_of (of_char c - 32 :: nat) else c)"

definition invalid_field :: "string \<Rightarrow> string" where
  "invalid_field f = ''INVALID_'' @ ascii_upper f"

definition text_ok :: "string \<Rightarrow> bool" where
  "text_ok v \<longleftrightarrow> v = py_strip v \<and> v \<noteq> [] \<and> length v \<le> 128 \<and> list_all (\<lambda>c. CHR 0x20 \<le> c) v"

definition validate_text :: "string \<Rightarrow> string \<Rightarrow> audit_error + string" where
  "validate_text v f = (if text_ok v then Inr v else invalid (invalid_field f))"

text \<open>A time without a zone, or with the offset of its zone and the instant it denotes.\<close>

datatype moment = Naive int | Aware int int

definition validate_utc :: "moment \<Rightarrow> string \<Rightarrow> audit_error + int" where
  "validate_utc m f = (case m of Naive _ \<Rightarrow> invalid (invalid_field f)
     | Aware off t \<Rightarrow> if off \<noteq> 0 then invalid (invalid_field f) else Inr t)"

section \<open>Forbidden keys and values\<close>

definition forbidden_key_parts :: "string list" where
  "forbidden_key_parts = [''password'', ''secret'', ''token'', ''credential'', ''apikey'',
     ''rawprovidererror'', ''internalurl'', ''internalhost'', ''dbhost'', ''dockerhost'']"

definition forbidden_value_hosts :: "string list" where
  "forbidden_value_hosts = [''localhost'', ''host.docker.internal'', ''docker.internal'']"

definition lower_or_digit :: "char \<Rightarrow> bool" where
  "lower_or_digit c \<longleftrightarrow> (CHR ''a'' \<le> c \<and> c \<le> CHR ''z'') \<or> (CHR ''0'' \<le> c \<and> c \<le> CHR ''9'')"

definition normalized_key :: "string \<Rightarrow> string" where
  "normalized_key k = filter lower_or_digit (casefold k)"

fun contains :: "string \<Rightarrow> string \<Rightarrow> bool" where
  "contains p [] = (p = [])"
| "contains p (c # s) = (take (length p) (c # s) = p \<or> contains p s)"

definition forbidden_key :: "string \<Rightarrow> bool" where
  "forbidden_key k \<longleftrightarrow> list_ex (\<lambda>p. contains p (normalized_key k)) forbidden_key_parts"

definition ends_with :: "string \<Rightarrow> string \<Rightarrow> bool" where
  "ends_with s e \<longleftrightarrow> length e \<le> length s \<and> drop (length s - length e) s = e"

definition rstrip_dots :: "string \<Rightarrow> string" where
  "rstrip_dots s = rev (dropWhile (\<lambda>c. c = CHR ''.'') (rev s))"

definition forbidden_host :: "audit_config \<Rightarrow> string \<Rightarrow> bool" where
  "forbidden_host cfg h =
    (let n = rstrip_dots (casefold h) in
     n \<in> set forbidden_value_hosts \<or> ends_with n ''.internal'' \<or> ends_with n ''.local''
     \<or> (ip_address cfg n \<noteq> None \<and> closed_address cfg n))"

text \<open>\<open>^[a-z][a-z0-9+.-]*://\<close>, ignoring case.\<close>

definition ascii_alpha :: "char \<Rightarrow> bool" where
  "ascii_alpha c \<longleftrightarrow> (CHR ''A'' \<le> c \<and> c \<le> CHR ''Z'') \<or> (CHR ''a'' \<le> c \<and> c \<le> CHR ''z'')"

definition scheme_char :: "char \<Rightarrow> bool" where
  "scheme_char c \<longleftrightarrow> ascii_alnum c \<or> c \<in> set ''+.-''"

definition absolute_endpoint :: "string \<Rightarrow> bool" where
  "absolute_endpoint s = (case s of [] \<Rightarrow> False
     | c # cs \<Rightarrow> ascii_alpha c \<and> take 3 (dropWhile scheme_char cs) = ''://'')"

text \<open>A host and a port: \<open>[...]:digits\<close> or \<open>host:digits\<close>.\<close>

definition port_text :: "string \<Rightarrow> bool" where
  "port_text s = (case s of c # ds \<Rightarrow> c = CHR '':'' \<and> ds \<noteq> [] \<and> length ds \<le> 5
       \<and> list_all (\<lambda>d. CHR ''0'' \<le> d \<and> d \<le> CHR ''9'') ds
     | [] \<Rightarrow> False)"

definition host_of_port :: "string \<Rightarrow> string option" where
  "host_of_port s = (case s of
       [] \<Rightarrow> None
     | c # cs \<Rightarrow>
         if c = CHR ''[''
         then (let h = takeWhile (\<lambda>x. x \<noteq> CHR '']'') cs; r = dropWhile (\<lambda>x. x \<noteq> CHR '']'') cs
               in if h \<noteq> [] \<and> r \<noteq> [] \<and> port_text (tl r) then Some h else None)
         else (let h = takeWhile (\<lambda>x. ascii_alnum x \<or> x \<in> set ''.-'') s;
                   r = dropWhile (\<lambda>x. ascii_alnum x \<or> x \<in> set ''.-'') s
               in if h \<noteq> [] \<and> port_text r then Some h else None))"

fun split_dots :: "string \<Rightarrow> string list" where
  "split_dots [] = [[]]"
| "split_dots (c # s) = (if c = CHR ''.'' then [] # split_dots s
     else (case split_dots s of h # t \<Rightarrow> (c # h) # t | [] \<Rightarrow> [[c]]))"

definition host_label :: "string \<Rightarrow> bool" where
  "host_label s \<longleftrightarrow> s \<noteq> [] \<and> length s \<le> 63 \<and> ascii_alnum (hd s) \<and> ascii_alnum (last s)
    \<and> list_all (\<lambda>c. ascii_alnum c \<or> c = CHR ''-'') s"

text \<open>Labels between dots, at most 253 characters, and perhaps one more dot.\<close>

definition raw_host :: "string \<Rightarrow> bool" where
  "raw_host s =
    (let body = (if s \<noteq> [] \<and> last s = CHR ''.'' then butlast s else s) in
     body \<noteq> [] \<and> length body \<le> 253 \<and> list_all host_label (split_dots body))"

definition validate_string_value :: "audit_config \<Rightarrow> string \<Rightarrow> audit_error + unit" where
  "validate_string_value cfg v =
    (let candidate = py_strip v;
         raw = (if 2 \<le> length candidate \<and> hd candidate = CHR ''['' \<and> last candidate = CHR '']''
                then butlast (tl candidate) else candidate)
     in if (case ip_address cfg raw of None \<Rightarrow> False | Some a \<Rightarrow> forbidden_host cfg a)
        then invalid ''UNSAFE_JSON_VALUE''
        else if take 2 candidate = ''//'' \<or> absolute_endpoint candidate
        then (case url_hostname cfg candidate of
            None \<Rightarrow> invalid ''UNSAFE_JSON_VALUE''
          | Some None \<Rightarrow> Inr ()
          | Some (Some h) \<Rightarrow> if h \<noteq> [] \<and> forbidden_host cfg h then invalid ''UNSAFE_JSON_VALUE'' else Inr ())
        else (case host_of_port candidate of
            Some h \<Rightarrow> if forbidden_host cfg h then invalid ''UNSAFE_JSON_VALUE'' else Inr ()
          | None \<Rightarrow> if raw_host candidate \<and> forbidden_host cfg candidate
              then invalid ''UNSAFE_JSON_VALUE'' else Inr ()))"

section \<open>Projections\<close>

text \<open>
  Values as a caller gives them; a key of a mapping is \<^term>\<open>None\<close> where it is no string, and
  \<open>AOther\<close> stands for values of all other types.
\<close>

datatype audit_value = ANone | ABool bool | AInt int | AText string | ANonFinite
  | AList "audit_value list" | AMap "(string option \<times> audit_value) list" | AOther

definition max_json_depth :: nat where
  "max_json_depth = 8"

definition key_ok :: "string option \<Rightarrow> bool" where
  "key_ok k = (case k of None \<Rightarrow> False | Some t \<Rightarrow> t \<noteq> [] \<and> length t \<le> 128)"

fun freeze_json :: "audit_config \<Rightarrow> nat \<Rightarrow> audit_value \<Rightarrow> audit_error + json"
  and freeze_elements :: "audit_config \<Rightarrow> nat \<Rightarrow> audit_value list \<Rightarrow> audit_error + json list"
  and freeze_members :: "audit_config \<Rightarrow> nat \<Rightarrow> (string option \<times> audit_value) list \<Rightarrow> (string, json) dict
    \<Rightarrow> audit_error + (string, json) dict"
where
  "freeze_json cfg d v =
    (if d > max_json_depth then invalid ''JSON_DEPTH_EXCEEDED''
     else case v of
       ANone \<Rightarrow> Inr JNull
     | ABool b \<Rightarrow> Inr (JBool b)
     | AInt i \<Rightarrow> Inr (JInt i)
     | AText t \<Rightarrow> and_then (validate_string_value cfg t) (\<lambda>_. Inr (JStr t))
     | ANonFinite \<Rightarrow> invalid ''NON_FINITE_JSON_NUMBER''
     | AMap kvs \<Rightarrow> and_then (freeze_members cfg (Suc d) kvs []) (\<lambda>m. Inr (JObj m))
     | AList xs \<Rightarrow> and_then (freeze_elements cfg (Suc d) xs) (\<lambda>ys. Inr (JArr ys))
     | AOther \<Rightarrow> invalid ''NON_JSON_VALUE'')"
| "freeze_elements cfg d [] = Inr []"
| "freeze_elements cfg d (x # xs) =
    and_then (freeze_json cfg d x) (\<lambda>y. and_then (freeze_elements cfg d xs) (\<lambda>ys. Inr (y # ys)))"
| "freeze_members cfg d [] m = Inr m"
| "freeze_members cfg d ((k, v) # kvs) m =
    (if \<not> key_ok k then invalid ''INVALID_JSON_KEY''
     else if forbidden_key (the k) then invalid ''FORBIDDEN_JSON_KEY''
     else and_then (freeze_json cfg d v) (\<lambda>y. freeze_members cfg d kvs (dict_set (the k) y m)))"

fun thaw_json :: "json \<Rightarrow> audit_value" where
  "thaw_json JNull = ANone"
| "thaw_json (JBool b) = ABool b"
| "thaw_json (JInt i) = AInt i"
| "thaw_json (JStr t) = AText t"
| "thaw_json (JArr xs) = AList (map thaw_json xs)"
| "thaw_json (JObj kvs) = AMap (map (\<lambda>(k, v). (Some k, thaw_json v)) kvs)"

definition canonical_bytes :: "json \<Rightarrow> string" where
  "canonical_bytes j = utf8 (json_text json_char_raw j)"

definition max_json_bytes :: nat where
  "max_json_bytes = 16384"

type_synonym projection = "(string, json) dict"

definition validate_projection :: "audit_config \<Rightarrow> audit_value \<Rightarrow> string \<Rightarrow> audit_error + projection option" where
  "validate_projection cfg v f = (case v of
       ANone \<Rightarrow> Inr None
     | AMap kvs \<Rightarrow> and_then (freeze_json cfg 0 v) (\<lambda>j.
         if length (canonical_bytes j) > max_json_bytes then invalid (ascii_upper f @ ''_TOO_LARGE'')
         else (case j of JObj m \<Rightarrow> Inr (Some m) | _ \<Rightarrow> Inr None))
     | _ \<Rightarrow> invalid (invalid_field f))"

section \<open>Events\<close>

record audit_event_draft =
  event_id :: string
  occurred_at :: moment
  actor_id :: string
  actor_type :: actor_type
  tenant_id :: string
  workspace_id :: "string option"
  action :: string
  target_type :: string
  target_id :: string
  outcome :: audit_outcome
  trace_id :: string
  policy_version :: string
  before :: audit_value
  after :: audit_value
  metadata :: audit_value

text \<open>The validated fields of a draft, and an event: those fields and its place in the chain.\<close>

record event_fields =
  ev_event_id :: string
  ev_occurred_at :: int
  ev_actor_id :: string
  ev_actor_type :: actor_type
  ev_tenant_id :: string
  ev_workspace_id :: "string option"
  ev_action :: string
  ev_target_type :: string
  ev_target_id :: string
  ev_outcome :: audit_outcome
  ev_trace_id :: string
  ev_policy_version :: string
  ev_before :: "projection option"
  ev_after :: "projection option"
  ev_metadata :: projection

record audit_event = event_fields +
  ev_sequence :: int
  ev_previous_hash :: string
  ev_hash :: string

definition validate_draft :: "audit_config \<Rightarrow> audit_event_draft \<Rightarrow> audit_error + event_fields" where
  "validate_draft cfg d =
    and_then (case workspace_id d of None \<Rightarrow> Inr None
       | Some w \<Rightarrow> and_then (validate_text w ''workspace_id'') (\<lambda>w. Inr (Some w))) (\<lambda>ws.
    and_then (validate_projection cfg (metadata d) ''metadata'') (\<lambda>meta.
    case meta of None \<Rightarrow> invalid ''INVALID_METADATA'' | Some m \<Rightarrow>
    and_then (validate_text (event_id d) ''event_id'') (\<lambda>i.
    and_then (validate_utc (occurred_at d) ''occurred_at'') (\<lambda>t.
    and_then (validate_text (actor_id d) ''actor_id'') (\<lambda>actor.
    and_then (validate_text (tenant_id d) ''tenant_id'') (\<lambda>tenant.
    and_then (validate_text (action d) ''action'') (\<lambda>act.
    and_then (validate_text (target_type d) ''target_type'') (\<lambda>tt.
    and_then (validate_text (target_id d) ''target_id'') (\<lambda>ti.
    and_then (validate_text (trace_id d) ''trace_id'') (\<lambda>trace.
    and_then (validate_text (policy_version d) ''policy_version'') (\<lambda>pv.
    and_then (validate_projection cfg (before d) ''before'') (\<lambda>b.
    and_then (validate_projection cfg (after d) ''after'') (\<lambda>a.
      Inr \<lparr>ev_event_id = i, ev_occurred_at = t, ev_actor_id = actor, ev_actor_type = actor_type d,
        ev_tenant_id = tenant, ev_workspace_id = ws, ev_action = act, ev_target_type = tt,
        ev_target_id = ti, ev_outcome = outcome d, ev_trace_id = trace, ev_policy_version = pv,
        ev_before = b, ev_after = a, ev_metadata = m\<rparr>)))))))))))))"

definition json_of_projection :: "projection option \<Rightarrow> json" where
  "json_of_projection p = (case p of None \<Rightarrow> JNull | Some m \<Rightarrow> JObj m)"

definition event_payload :: "audit_config \<Rightarrow> audit_event \<Rightarrow> json" where
  "event_payload cfg e = JObj
    [(''sequence'', JInt (ev_sequence e)), (''event_id'', JStr (ev_event_id e)),
     (''occurred_at'', JStr (canonical_time cfg (ev_occurred_at e))),
     (''actor_id'', JStr (ev_actor_id e)), (''actor_type'', JStr (actor_type_value (ev_actor_type e))),
     (''tenant_id'', JStr (ev_tenant_id e)), (''workspace_id'', JOpt (ev_workspace_id e)),
     (''action'', JStr (ev_action e)), (''target_type'', JStr (ev_target_type e)),
     (''target_id'', JStr (ev_target_id e)), (''outcome'', JStr (outcome_value (ev_outcome e))),
     (''trace_id'', JStr (ev_trace_id e)), (''policy_version'', JStr (ev_policy_version e)),
     (''before'', json_of_projection (ev_before e)), (''after'', json_of_projection (ev_after e)),
     (''metadata'', JObj (ev_metadata e)), (''previous_event_hash'', JStr (ev_previous_hash e))]"

definition calculate_event_hash :: "audit_config \<Rightarrow> audit_event \<Rightarrow> string" where
  "calculate_event_hash cfg e = sha256 cfg (canonical_bytes (event_payload cfg e))"

definition thawed :: "projection option \<Rightarrow> audit_value" where
  "thawed p = thaw_json (json_of_projection p)"

definition validate_event_contract :: "audit_config \<Rightarrow> audit_event \<Rightarrow> audit_error + unit" where
  "validate_event_contract cfg e =
    (if ev_sequence e < 1 then invalid ''INVALID_SEQUENCE''
     else if \<not> sha256_text (ev_previous_hash e) then invalid ''INVALID_PREVIOUS_EVENT_HASH''
     else if \<not> sha256_text (ev_hash e) then invalid ''INVALID_EVENT_HASH''
     else and_then (validate_draft cfg
       \<lparr>event_id = ev_event_id e, occurred_at = Aware 0 (ev_occurred_at e), actor_id = ev_actor_id e,
        actor_type = ev_actor_type e, tenant_id = ev_tenant_id e, workspace_id = ev_workspace_id e,
        action = ev_action e, target_type = ev_target_type e, target_id = ev_target_id e,
        outcome = ev_outcome e, trace_id = ev_trace_id e, policy_version = ev_policy_version e,
        before = thawed (ev_before e), after = thawed (ev_after e),
        metadata = thaw_json (JObj (ev_metadata e))\<rparr>) (\<lambda>_. Inr ()))"

section \<open>Cursors\<close>

text \<open>URL-safe base 64 without padding.\<close>

definition b64_alphabet :: string where
  "b64_alphabet = ''ABCDEFGHIJKLMNOPQRSTUVWXYZabcdefghijklmnopqrstuvwxyz0123456789-_''"

definition b64_char :: "nat \<Rightarrow> char" where
  "b64_char n = b64_alphabet ! n"

definition b64_value :: "char \<Rightarrow> nat option" where
  "b64_value c = map_of (zip b64_alphabet [0..<64]) c"

fun b64_encode :: "nat list \<Rightarrow> string" where
  "b64_encode [] = []"
| "b64_encode [a] = map b64_char [a div 4, a mod 4 * 16]"
| "b64_encode [a, b] = map b64_char [a div 4, a mod 4 * 16 + b div 16, b mod 16 * 4]"
| "b64_encode (a # b # c # s) =
    map b64_char [a div 4, a mod 4 * 16 + b div 16, b mod 16 * 4 + c div 64, c mod 64] @ b64_encode s"

fun b64_bytes :: "nat list \<Rightarrow> nat list option" where
  "b64_bytes [] = Some []"
| "b64_bytes [x] = None"
| "b64_bytes [x, y] = Some [x * 4 + y div 16]"
| "b64_bytes [x, y, z] = Some [x * 4 + y div 16, y mod 16 * 16 + z div 4]"
| "b64_bytes (x # y # z # w # s) =
    map_option (\<lambda>r. [x * 4 + y div 16, y mod 16 * 16 + z div 4, z mod 4 * 64 + w] @ r) (b64_bytes s)"

definition b64_decode :: "string \<Rightarrow> nat list option" where
  "b64_decode s = Option.bind (those (map b64_value s)) b64_bytes"

definition cursor_prefix :: string where
  "cursor_prefix = ''audit-v1:''"

definition encode_cursor :: "int \<Rightarrow> string" where
  "encode_cursor n = b64_encode (map of_char (cursor_prefix @ dec_int n))"

text \<open>
  The text of a number. What \<open>int\<close> accepts beyond it, and what the decoder of Python ignores, is
  never the cursor of a number and is refused all the same.
\<close>

definition cursor_number :: "nat list \<Rightarrow> int option" where
  "cursor_number bs =
    (let t = map char_of bs; n = length cursor_prefix in
     if take n t = cursor_prefix \<and> drop n t \<noteq> [] \<and> list_all (\<lambda>d. CHR ''0'' \<le> d \<and> d \<le> CHR ''9'') (drop n t)
     then Some (int (dec_value (drop n t))) else None)"

definition invalid_cursor :: "audit_error + 'a" where
  "invalid_cursor = invalid ''INVALID_CURSOR''"

definition decode_cursor :: "string option \<Rightarrow> audit_error + int" where
  "decode_cursor cur = (case cur of
       None \<Rightarrow> Inr 0
     | Some c \<Rightarrow>
         if c = [] \<or> 512 < length c then invalid_cursor
         else (case Option.bind (b64_decode c) cursor_number of
             None \<Rightarrow> invalid_cursor
           | Some n \<Rightarrow> if n < 0 \<or> encode_cursor n \<noteq> c then invalid_cursor else Inr n))"

section \<open>The store in memory\<close>

record audit_store =
  events :: "audit_event list"
  event_ids :: "string list"

definition empty_store :: audit_store where
  "empty_store = \<lparr>events = [], event_ids = []\<rparr>"

text \<open>The event made of validated fields, in the place after the given ones.\<close>

definition seal :: "audit_config \<Rightarrow> event_fields \<times> int \<Rightarrow> string \<Rightarrow> audit_event" where
  "seal cfg d p =
    (let provisional = event_fields.extend (fst d)
           \<lparr>ev_sequence = snd d, ev_previous_hash = p, ev_hash = genesis_hash\<rparr>
     in provisional\<lparr>ev_hash := calculate_event_hash cfg provisional\<rparr>)"

definition append_event :: "audit_config \<Rightarrow> audit_event_draft \<Rightarrow> audit_store
    \<Rightarrow> (audit_store, audit_error, audit_event) outcome" where
  "append_event cfg d s = attempt (validate_draft cfg d) s (\<lambda>v.
     if ev_event_id v \<in> set (event_ids s) then (Inl AuditDuplicateEventError, s)
     else (let e = seal cfg (v, int (length (events s)) + 1) (chain_head ev_hash (events s))
           in (Inr e, s\<lparr>events := events s @ [e], event_ids := ev_event_id e # event_ids s\<rparr>)))"

definition read :: "string \<Rightarrow> audit_store \<Rightarrow> audit_error + audit_event option" where
  "read i s = and_then (validate_text i ''event_id'') (\<lambda>i.
     Inr (find (\<lambda>e. ev_event_id e = i) (events s)))"

text \<open>The filters of a listing.\<close>

record audit_query =
  q_tenant_id :: string
  q_workspace_id :: "string option"
  q_action :: "string option"
  q_outcome :: "audit_outcome option"
  q_trace_id :: "string option"
  q_after :: "moment option"
  q_before :: "moment option"
  q_limit :: int

record audit_page =
  items :: "audit_event list"
  next_cursor :: "string option"

definition max_page_limit :: int where
  "max_page_limit = 200"

definition optional :: "('a \<Rightarrow> audit_error + 'b) \<Rightarrow> 'a option \<Rightarrow> audit_error + 'b option" where
  "optional f v = (case v of None \<Rightarrow> Inr None | Some x \<Rightarrow> and_then (f x) (\<lambda>y. Inr (Some y)))"

text \<open>The checks of a listing: the instants it lies between.\<close>

definition check_query :: "audit_query \<Rightarrow> audit_error + int option \<times> int option" where
  "check_query q =
    and_then (validate_text (q_tenant_id q) ''tenant_id'') (\<lambda>_.
    and_then (optional (\<lambda>v. validate_text v ''workspace_id'') (q_workspace_id q)) (\<lambda>_.
    and_then (optional (\<lambda>v. validate_text v ''action'') (q_action q)) (\<lambda>_.
    and_then (optional (\<lambda>v. validate_text v ''trace_id'') (q_trace_id q)) (\<lambda>_.
    and_then (optional (\<lambda>v. validate_utc v ''occurred_after'') (q_after q)) (\<lambda>after.
    and_then (optional (\<lambda>v. validate_utc v ''occurred_before'') (q_before q)) (\<lambda>before.
    if (case (after, before) of (Some a, Some b) \<Rightarrow> b < a | _ \<Rightarrow> False)
    then invalid ''INVALID_TIME_RANGE''
    else if q_limit q < 1 \<or> max_page_limit < q_limit q then invalid ''INVALID_LIMIT''
    else Inr (after, before)))))))"

definition is_or_any :: "'a option \<Rightarrow> 'a \<Rightarrow> bool" where
  "is_or_any w x \<longleftrightarrow> (case w of None \<Rightarrow> True | Some y \<Rightarrow> x = y)"

definition matches :: "audit_query \<Rightarrow> int option \<times> int option \<Rightarrow> audit_event \<Rightarrow> bool" where
  "matches q span e \<longleftrightarrow> ev_tenant_id e = q_tenant_id q
    \<and> (case q_workspace_id q of None \<Rightarrow> True | Some w \<Rightarrow> ev_workspace_id e = Some w)
    \<and> is_or_any (q_action q) (ev_action e) \<and> is_or_any (q_outcome q) (ev_outcome e)
    \<and> is_or_any (q_trace_id q) (ev_trace_id e)
    \<and> (case fst span of None \<Rightarrow> True | Some a \<Rightarrow> a \<le> ev_occurred_at e)
    \<and> (case snd span of None \<Rightarrow> True | Some b \<Rightarrow> ev_occurred_at e \<le> b)"

definition page_of :: "nat \<Rightarrow> audit_event list \<Rightarrow> audit_page" where
  "page_of n matched =
    (let page = take n matched in
     \<lparr>items = page,
      next_cursor = (if length matched > n then Some (encode_cursor (ev_sequence (last page))) else None)\<rparr>)"

definition list_events :: "audit_query \<Rightarrow> audit_event list \<Rightarrow> string option \<Rightarrow> audit_error + audit_page" where
  "list_events q es cur =
    and_then (check_query q) (\<lambda>span.
    and_then (decode_cursor cur) (\<lambda>after.
      Inr (page_of (nat (q_limit q)) (filter (\<lambda>e. after < ev_sequence e \<and> matches q span e) es))))"

text \<open>Following the cursors from page to page, which might go on for ever.\<close>

partial_function (option) follow_pages ::
  "(string option \<Rightarrow> audit_error + audit_page) \<Rightarrow> string option \<Rightarrow> audit_event list
    \<Rightarrow> (audit_error + audit_event list) option" where
  "follow_pages get cur acc = (case get cur of
       Inl e \<Rightarrow> Some (Inl e)
     | Inr p \<Rightarrow> (case next_cursor p of
         None \<Rightarrow> Some (Inr (acc @ items p))
       | Some c \<Rightarrow> follow_pages get (Some c) (acc @ items p)))"

section \<open>Verification\<close>

record integrity_result =
  valid :: bool
  integrity_code :: integrity_code
  position :: "int option"
  checked_count :: int
  head_hash :: string
  message :: string

definition integrity_failure :: "integrity_code \<Rightarrow> int \<Rightarrow> string \<Rightarrow> integrity_result" where
  "integrity_failure c i head =
    \<lparr>valid = False, integrity_code = c, position = Some i, checked_count = i - 1, head_hash = head,
     message = ''AUDIT_INTEGRITY_FAILED:'' @ integrity_value c\<rparr>"

fun verify_from :: "audit_config \<Rightarrow> int \<Rightarrow> string \<Rightarrow> string list \<Rightarrow> audit_event list \<Rightarrow> integrity_result" where
  "verify_from cfg i p seen [] =
    \<lparr>valid = True, integrity_code = IntegrityOk, position = None, checked_count = i - 1, head_hash = p,
     message = ''AUDIT_CHAIN_VALID''\<rparr>"
| "verify_from cfg i p seen (e # es) =
    (case validate_event_contract cfg e of
       Inl _ \<Rightarrow> integrity_failure InvalidEvent i p
     | Inr _ \<Rightarrow>
         if ev_event_id e \<in> set seen then integrity_failure DuplicateEventId i p
         else if ev_sequence e \<noteq> i then integrity_failure SequenceMismatch i p
         else if ev_previous_hash e \<noteq> p then integrity_failure PreviousHashMismatch i p
         else if ev_hash e \<noteq> calculate_event_hash cfg e then integrity_failure EventHashMismatch i p
         else verify_from cfg (i + 1) (ev_hash e) (ev_event_id e # seen) es)"

definition verify_integrity :: "audit_config \<Rightarrow> audit_event list \<Rightarrow> integrity_result" where
  "verify_integrity cfg es = verify_from cfg 1 genesis_hash [] es"

section \<open>The durable store\<close>

text \<open>
  The table of \<open>security_audit_events\<close>, in the order of insertion: one chain for each tenant, an
  event identifier unique among all of them. Nothing is updated or deleted, which a trigger sees to.
  The order in which the database keeps the members of a projection is left out, no hash depends on
  it; so is the column with a copy of the member \<open>reason_code\<close>, which is a text or absent.
\<close>

type_synonym audit_rows = "audit_event list"

definition rows_of_tenant :: "string \<Rightarrow> audit_rows \<Rightarrow> audit_event list" where
  "rows_of_tenant t rows = sort_key ev_sequence (filter (\<lambda>e. ev_tenant_id e = t) rows)"

definition append_row :: "audit_config \<Rightarrow> audit_event_draft \<Rightarrow> audit_rows
    \<Rightarrow> (audit_rows, audit_error, audit_event) outcome" where
  "append_row cfg d rows = attempt (validate_draft cfg d) rows (\<lambda>v.
     let mine = rows_of_tenant (ev_tenant_id v) rows;
         n = (if mine = [] then 1 else ev_sequence (last mine) + 1);
         e = seal cfg (v, n) (chain_head ev_hash mine)
     in if list_ex (\<lambda>x. ev_event_id x = ev_event_id e
            \<or> ev_tenant_id x = ev_tenant_id e \<and> ev_sequence x = ev_sequence e) rows
        then (Inl AuditDuplicateEventError, rows)
        else (Inr e, rows @ [e]))"

text \<open>A row read back is validated again.\<close>

definition event_from_row :: "audit_config \<Rightarrow> audit_event \<Rightarrow> audit_error + audit_event" where
  "event_from_row cfg e = and_then (validate_event_contract cfg e) (\<lambda>_. Inr e)"

fun events_from_rows :: "audit_config \<Rightarrow> audit_event list \<Rightarrow> audit_error + audit_event list" where
  "events_from_rows cfg [] = Inr []"
| "events_from_rows cfg (e # es) = and_then (event_from_row cfg e) (\<lambda>x.
     and_then (events_from_rows cfg es) (\<lambda>xs. Inr (x # xs)))"

definition read_row :: "audit_config \<Rightarrow> string \<Rightarrow> string option \<Rightarrow> audit_rows \<Rightarrow> audit_error + audit_event option" where
  "read_row cfg i tenant rows =
    and_then (validate_text i ''event_id'') (\<lambda>i.
    case tenant of None \<Rightarrow> invalid ''TENANT_SCOPE_REQUIRED'' | Some t \<Rightarrow>
    and_then (validate_text t ''tenant_id'') (\<lambda>t.
    case find (\<lambda>e. ev_tenant_id e = t \<and> ev_event_id e = i) rows of
      None \<Rightarrow> Inr None
    | Some e \<Rightarrow> and_then (event_from_row cfg e) (\<lambda>e. Inr (Some e))))"

definition list_rows :: "audit_config \<Rightarrow> audit_query \<Rightarrow> audit_rows \<Rightarrow> string option \<Rightarrow> audit_error + audit_page" where
  "list_rows cfg q rows cur =
    and_then (check_query q) (\<lambda>span.
    and_then (decode_cursor cur) (\<lambda>after.
      let found = take (nat (q_limit q) + 1)
            (filter (\<lambda>e. after < ev_sequence e \<and> matches q span e) (rows_of_tenant (q_tenant_id q) rows))
      in and_then (events_from_rows cfg (take (nat (q_limit q)) found)) (\<lambda>page.
        Inr \<lparr>items = page, next_cursor =
          (if length found > nat (q_limit q) then Some (encode_cursor (ev_sequence (last page))) else None)\<rparr>)))"

definition tenant_query :: "string \<Rightarrow> audit_query" where
  "tenant_query t = \<lparr>q_tenant_id = t, q_workspace_id = None, q_action = None, q_outcome = None,
     q_trace_id = None, q_after = None, q_before = None, q_limit = max_page_limit\<rparr>"

definition verify_rows :: "audit_config \<Rightarrow> audit_event list option \<Rightarrow> string option \<Rightarrow> audit_rows
    \<Rightarrow> (audit_error + integrity_result) option" where
  "verify_rows cfg given tenant rows = (case given of
       Some es \<Rightarrow> Some (Inr (verify_integrity cfg es))
     | None \<Rightarrow> (case tenant of
         None \<Rightarrow> Some (invalid ''TENANT_SCOPE_REQUIRED'')
       | Some t \<Rightarrow> map_option (\<lambda>r. and_then r (\<lambda>es. Inr (verify_integrity cfg es)))
           (follow_pages (list_rows cfg (tenant_query t) rows) None [])))"

end
