(* ===== verification/Security_Audit_Invariant.thy ===== *)
theory Security_Audit_Invariant
  imports Security_Audit Json_Roundtrip
begin

text \<open>
  What the audit trail rests on: cursors are read back, frozen values stay frozen, verification
  accepts exactly the chained trails of valid events; then the steps of the two stores, their
  invariants and the interpretations of the contracts.
\<close>

section \<open>Cursors\<close>

lemma b64_value_char: "n < 64 \<Longrightarrow> b64_value (b64_char n) = Some n"
proof -
  assume n: "n < 64"
  have len: "length b64_alphabet = length [0..<64]"
    unfolding b64_alphabet_def by simp
  have dist: "distinct b64_alphabet"
    unfolding b64_alphabet_def by simp
  show ?thesis
    unfolding b64_value_def b64_char_def
    using map_of_zip_nth [OF len dist, of n] n by simp
qed

lemma those_map_b64: "\<forall>n \<in> set ns. n < 64 \<Longrightarrow> those (map b64_value (map b64_char ns)) = Some ns"
  by (induction ns) (simp_all add: b64_value_char)

lemma those_append: "those xs = Some a \<Longrightarrow> those (xs @ ys) = map_option ((@) a) (those ys)"
  by (induction xs arbitrary: a; cases "those ys") (auto split: option.splits)

lemma b64_roundtrip: "\<forall>b \<in> set bs. b < 256 \<Longrightarrow> b64_decode (b64_encode bs) = Some bs"
proof (induction bs rule: b64_encode.induct)
  case (4 a b c s)
  define q where "q = [a div 4, a mod 4 * 16 + b div 16, b mod 16 * 4 + c div 64, c mod 64]"
  have abc: "a < 256" "b < 256" "c < 256" using 4(2) by simp_all
  then have "\<forall>n \<in> set q. n < 64" by (auto simp: q_def)
  then have q: "those (map b64_value (map b64_char q)) = Some q" by (rule those_map_b64)
  obtain r where r: "those (map b64_value (b64_encode s)) = Some r" "b64_bytes r = Some s"
    using 4 by (auto simp: b64_decode_def bind_eq_Some_conv)
  have "those (map b64_value (b64_encode (a # b # c # s))) = Some (q @ r)"
    using those_append [OF q, of "map b64_value (b64_encode s)"] r(1) by (simp add: q_def)
  moreover have "b64_bytes (q @ r) = Some (a # b # c # s)"
    using abc r(2) by (simp add: q_def)
  ultimately show ?case by (simp add: b64_decode_def)
qed (auto simp: b64_decode_def b64_value_char)

lemma length_b64_encode: "length (b64_encode bs) \<le> 4 * ((length bs + 2) div 3)"
proof (induction bs rule: b64_encode.induct)
  case (4 a b c s)
  have "(length (a # b # c # s) + 2) div 3 = (length s + 2) div 3 + 1" by simp
  with 4 show ?case by simp
qed auto

lemma length_dec_nat: "n < 10 ^ Suc k \<Longrightarrow> length (dec_nat n) \<le> Suc k"
proof (induction k arbitrary: n)
  case 0
  then show ?case by (subst dec_nat.simps) simp
next
  case (Suc k)
  show ?case
  proof (cases "n < 10")
    case True
    then show ?thesis by (subst dec_nat.simps) simp
  next
    case False
    have "n div 10 < 10 ^ Suc k" using Suc.prems by (simp add: less_mult_imp_div_less)
    from Suc.IH [OF this] False show ?thesis by (subst dec_nat.simps) simp
  qed
qed

lemma cursor_number_text: "0 \<le> n \<Longrightarrow> cursor_number (map of_char (cursor_prefix @ dec_int n)) = Some n"
  using dec_nat_chars [of "nat n"]
  by (simp add: cursor_number_def Let_def comp_def dec_int_def dec_value_dec_nat)

lemma encode_cursor_inverse:
  assumes "0 \<le> n"
  shows "Option.bind (b64_decode (encode_cursor n)) cursor_number = Some n"
proof -
  have "b64_decode (encode_cursor n) = Some (map of_char (cursor_prefix @ dec_int n))"
    unfolding encode_cursor_def by (rule b64_roundtrip) auto
  then show ?thesis by (simp only: bind.simps cursor_number_text [OF assms])
qed

lemma encode_cursor_nonempty: "encode_cursor n \<noteq> []"
  by (simp add: encode_cursor_def cursor_prefix_def)

lemma length_encode_cursor:
  assumes "0 \<le> n" and "n < 10 ^ 300"
  shows "length (encode_cursor n) \<le> 512"
proof -
  have "nat n < 10 ^ Suc 299" using assms by (simp add: nat_less_iff)
  then have "length (dec_int n) \<le> 300" using length_dec_nat [of "nat n" 299] assms(1) by (simp add: dec_int_def)
  moreover have "length cursor_prefix = 9" by (simp add: cursor_prefix_def)
  ultimately have "length (map of_char (cursor_prefix @ dec_int n) :: nat list) \<le> 309" by simp
  then have "4 * ((length (map of_char (cursor_prefix @ dec_int n) :: nat list) + 2) div 3) \<le> 4 * ((309 + 2) div 3)"
    by (intro mult_le_mono div_le_mono) simp_all
  with length_b64_encode [of "map of_char (cursor_prefix @ dec_int n)"] show ?thesis
    unfolding encode_cursor_def by linarith
qed

lemma decode_encode_cursor:
  "0 \<le> n \<Longrightarrow> length (encode_cursor n) \<le> 512 \<Longrightarrow> decode_cursor (Some (encode_cursor n)) = Inr n"
  by (simp add: decode_cursor_def encode_cursor_nonempty encode_cursor_inverse)

lemma decode_cursor_Some:
  "decode_cursor (Some c) = Inr n \<longleftrightarrow> c = encode_cursor n \<and> 0 \<le> n \<and> length c \<le> 512"
proof
  assume "decode_cursor (Some c) = Inr n"
  then show "c = encode_cursor n \<and> 0 \<le> n \<and> length c \<le> 512"
    by (simp add: decode_cursor_def invalid_cursor_def split: option.splits if_splits)
qed (auto intro: decode_encode_cursor)

lemma decode_cursor_error: "decode_cursor cur = Inl e \<Longrightarrow> e = AuditValidationError ''INVALID_CURSOR''"
  by (auto simp: decode_cursor_def invalid_cursor_def split: option.splits if_splits)

section \<open>Frozen values\<close>

declare freeze_json.simps [simp del]

text \<open>What a stored value is: not too deep, with allowed texts and keys at every level.\<close>

fun json_safe :: "audit_config \<Rightarrow> nat \<Rightarrow> json \<Rightarrow> bool" where
  "json_safe cfg d (JStr t) = (d \<le> max_json_depth \<and> validate_string_value cfg t = Inr ())"
| "json_safe cfg d (JArr xs) = (d \<le> max_json_depth \<and> list_all (json_safe cfg (Suc d)) xs)"
| "json_safe cfg d (JObj kvs) = (d \<le> max_json_depth \<and> distinct (map fst kvs)
     \<and> list_all (\<lambda>(k, v). key_ok (Some k) \<and> \<not> forbidden_key k \<and> json_safe cfg (Suc d) v) kvs)"
| "json_safe cfg d j = (d \<le> max_json_depth)"

definition members_safe :: "audit_config \<Rightarrow> nat \<Rightarrow> (string, json) dict \<Rightarrow> bool" where
  "members_safe cfg d m \<longleftrightarrow> distinct (map fst m)
    \<and> (\<forall>(k, v) \<in> set m. key_ok (Some k) \<and> \<not> forbidden_key k \<and> json_safe cfg d v)"

lemma members_safe_set:
  assumes "members_safe cfg d m" and "k \<noteq> []" and "length k \<le> 128" and "\<not> forbidden_key k" and "json_safe cfg d v"
  shows "members_safe cfg d (dict_set k v m)"
  using assms dict_set_mem [of m _ _ k v] by (auto simp: members_safe_def key_ok_def split: if_splits)

lemma json_safe_JObj: "json_safe cfg d (JObj m) \<longleftrightarrow> d \<le> max_json_depth \<and> members_safe cfg (Suc d) m"
  by (auto simp: members_safe_def list_all_iff)

lemma freeze_safe:
  "freeze_json cfg d v = Inr j \<Longrightarrow> json_safe cfg d j"
  "freeze_elements cfg d xs = Inr ys \<Longrightarrow> list_all (json_safe cfg d) ys"
  "freeze_members cfg d kvs m = Inr m' \<Longrightarrow> members_safe cfg d m \<Longrightarrow> members_safe cfg d m'"
proof (induction cfg d v and cfg d xs and cfg d kvs m arbitrary: j and ys and m'
    rule: freeze_json_freeze_elements_freeze_members.induct)
  case (1 cfg d v)
  then show ?case
    by (cases v) (auto simp: freeze_json.simps json_safe_JObj members_safe_def elim!: and_then_InrD
        split: if_splits simp del: json_safe.simps(3))
next
  case (5 cfg d k v kvs m)
  then show ?case
    by (cases k) (auto simp: key_ok_def intro: members_safe_set elim!: and_then_InrD split: if_splits)
qed (auto elim!: and_then_InrD)

lemma thaw_freeze: "json_safe cfg d j \<Longrightarrow> freeze_json cfg d (thaw_json j) = Inr j"
proof (induction j arbitrary: d)
  case (JArr xs)
  have "freeze_elements cfg (Suc d) (map thaw_json ys) = Inr ys" if "set ys \<subseteq> set xs" for ys
    using that JArr by (induction ys) (auto simp: list_all_iff)
  with JArr.prems show ?case by (simp add: freeze_json.simps)
next
  case (JObj kvs)
  have safe: "members_safe cfg (Suc d) kvs" and d: "d \<le> max_json_depth"
    using JObj.prems by (simp_all add: json_safe_JObj del: json_safe.simps)
  have "freeze_members cfg (Suc d) (map (\<lambda>(k, v). (Some k, thaw_json v)) ys) m = Inr (m @ ys)"
    if "distinct (map fst (m @ ys))" and "set ys \<subseteq> set kvs" for m ys
    using that
  proof (induction ys arbitrary: m)
    case (Cons y ys)
    obtain k v where y: "y = (k, v)" by (cases y) auto
    have kv: "(k, v) \<in> set kvs" using Cons.prems(2) by (simp add: y)
    have "json_safe cfg (Suc d) v" using safe kv by (auto simp: members_safe_def)
    then have v: "freeze_json cfg (Suc d) (thaw_json v) = Inr v"
      by (intro JObj.IH [OF kv]) simp_all
    have k: "key_ok (Some k)" "\<not> forbidden_key k" using safe kv by (auto simp: members_safe_def)
    have "dict_set k v m = m @ [(k, v)]"
      using Cons.prems(1) by (intro dict_set_fresh) (auto simp: y)
    then show ?case
      using Cons.IH [of "m @ [(k, v)]"] Cons.prems k v by (simp add: y)
  qed simp
  from this [of "[]" kvs] safe d show ?case by (simp add: members_safe_def freeze_json.simps)
qed (simp_all add: freeze_json.simps)

definition projection_safe :: "audit_config \<Rightarrow> projection \<Rightarrow> bool" where
  "projection_safe cfg m \<longleftrightarrow> json_safe cfg 0 (JObj m) \<and> length (canonical_bytes (JObj m)) \<le> max_json_bytes"

lemma validate_projection_safe:
  assumes "validate_projection cfg v f = Inr p"
  shows "pred_option (projection_safe cfg) p"
proof (cases v)
  case (AMap kvs)
  with assms obtain j where j: "freeze_json cfg 0 v = Inr j" "length (canonical_bytes j) \<le> max_json_bytes"
    and p: "(case j of JObj m \<Rightarrow> Inr (Some m) | _ \<Rightarrow> Inr None) = (Inr p :: audit_error + projection option)"
    unfolding validate_projection_def
    by (auto elim!: and_then_InrD split: if_splits)
  from freeze_safe(1) [OF j(1)] j(2) p show ?thesis
    by (cases j) (auto simp: projection_safe_def simp del: json_safe.simps)
qed (use assms in \<open>auto simp: validate_projection_def\<close>)

lemma validate_projection_thawed:
  assumes "pred_option (projection_safe cfg) p"
  shows "validate_projection cfg (thawed p) f = Inr p"
proof (cases p)
  case (Some m)
  then have "freeze_json cfg 0 (thaw_json (JObj m)) = Inr (JObj m)"
    using assms by (intro thaw_freeze) (simp add: projection_safe_def)
  with Some assms show ?thesis
    by (simp add: thawed_def json_of_projection_def validate_projection_def projection_safe_def
        del: json_safe.simps)
qed (simp add: thawed_def json_of_projection_def validate_projection_def)

section \<open>Valid events\<close>

definition fields_ok :: "audit_config \<Rightarrow> 'a event_fields_scheme \<Rightarrow> bool" where
  "fields_ok cfg v \<longleftrightarrow> list_all text_ok [ev_event_id v, ev_actor_id v, ev_tenant_id v, ev_action v,
      ev_target_type v, ev_target_id v, ev_trace_id v, ev_policy_version v]
    \<and> pred_option text_ok (ev_workspace_id v) \<and> pred_option (projection_safe cfg) (ev_before v)
    \<and> pred_option (projection_safe cfg) (ev_after v) \<and> projection_safe cfg (ev_metadata v)"

lemma validate_text_iff [simp]: "validate_text v f = Inr w \<longleftrightarrow> text_ok v \<and> w = v"
  by (auto simp: validate_text_def)

lemma validate_draft_fields:
  assumes "validate_draft cfg d = Inr v"
  shows "fields_ok cfg v \<and> ev_tenant_id v = tenant_id d \<and> ev_event_id v = event_id d"
proof -
  from assms obtain w where ws: "(case workspace_id d of None \<Rightarrow> Inr None
      | Some w \<Rightarrow> and_then (validate_text w ''workspace_id'') (\<lambda>w. Inr (Some w))) = Inr w"
    unfolding validate_draft_def by (elim and_then_InrD)
  then have w: "pred_option text_ok w" by (auto elim!: and_then_InrD split: option.splits)
  from assms show ?thesis
    unfolding validate_draft_def ws and_then_simps
    by (auto elim!: and_then_InrD split: option.splits dest!: validate_projection_safe
        simp: fields_ok_def w)
qed

definition hashes :: "audit_config \<Rightarrow> bool" where
  "hashes cfg \<longleftrightarrow> (\<forall>x. sha256_text (sha256 cfg x))"

definition event_ok :: "audit_config \<Rightarrow> audit_event \<Rightarrow> bool" where
  "event_ok cfg e \<longleftrightarrow> validate_event_contract cfg e = Inr ()"

lemma event_okI:
  assumes "fields_ok cfg e" and "1 \<le> ev_sequence e" and "sha256_text (ev_previous_hash e)" and "sha256_text (ev_hash e)"
  shows "event_ok cfg e"
proof -
  have meta: "validate_projection cfg (thaw_json (JObj (ev_metadata e))) ''metadata'' = Inr (Some (ev_metadata e))"
    using assms(1) validate_projection_thawed [of cfg "Some (ev_metadata e)"]
    by (simp add: fields_ok_def thawed_def json_of_projection_def del: thaw_json.simps)
  have checked: "validate_text w f = Inr w" if "text_ok w" for w f using that by simp
  show ?thesis
    using assms
    by (cases "ev_workspace_id e") (auto simp: event_ok_def validate_event_contract_def validate_draft_def meta checked fields_ok_def
        validate_projection_thawed validate_utc_def simp del: validate_text_iff thaw_json.simps)
qed

lemma seal_simps [simp]:
  "ev_event_id (seal cfg d p) = ev_event_id (fst d)" "ev_tenant_id (seal cfg d p) = ev_tenant_id (fst d)"
  "ev_sequence (seal cfg d p) = snd d" "ev_previous_hash (seal cfg d p) = p"
  "fields_ok cfg' (seal cfg d p) = fields_ok cfg' (fst d)"
  by (simp_all add: seal_def Let_def event_fields.defs fields_ok_def)

lemma calculate_event_hash_own [simp]:
  "calculate_event_hash cfg (e\<lparr>ev_hash := h\<rparr>) = calculate_event_hash cfg e"
  by (simp add: calculate_event_hash_def event_payload_def)

lemma seal_hash: "ev_hash (seal cfg d p) = calculate_event_hash cfg (seal cfg d p)"
  by (simp add: seal_def Let_def)

interpretation audit_chain: hash_chain "seal cfg" ev_previous_hash ev_hash "calculate_event_hash cfg" for cfg
  by unfold_locales (simp_all add: seal_hash)

section \<open>Verified trails\<close>

fun numbered :: "int \<Rightarrow> audit_event list \<Rightarrow> bool" where
  "numbered i [] = True"
| "numbered i (e # es) = (ev_sequence e = i \<and> numbered (i + 1) es)"

lemma numbered_append: "numbered i (es @ fs) \<longleftrightarrow> numbered i es \<and> numbered (i + int (length es)) fs"
  by (induction es arbitrary: i) (auto simp: algebra_simps)

lemma numbered_nth: "numbered i es \<Longrightarrow> k < length es \<Longrightarrow> ev_sequence (es ! k) = i + int k"
  by (induction es arbitrary: i k) (auto simp: nth_Cons' algebra_simps)

lemma numbered_bounds:
  assumes "numbered i es" and "e \<in> set es"
  shows "i \<le> ev_sequence e" "ev_sequence e < i + int (length es)"
proof -
  obtain k where "k < length es" "e = es ! k" using assms(2) by (auto simp: in_set_conv_nth)
  with numbered_nth [OF assms(1)] show "i \<le> ev_sequence e" "ev_sequence e < i + int (length es)" by simp_all
qed

lemma numbered_sorted: "numbered i es \<Longrightarrow> sorted_wrt (\<lambda>x y. ev_sequence x < ev_sequence y) es"
proof (induction es arbitrary: i)
  case (Cons e es)
  then show ?case using numbered_bounds(1) [of "i + 1" es] by fastforce
qed simp

definition trail_ok :: "audit_config \<Rightarrow> audit_event list \<Rightarrow> bool" where
  "trail_ok cfg es \<longleftrightarrow> list_all (event_ok cfg) es \<and> distinct (map ev_event_id es) \<and> numbered 1 es
    \<and> chained ev_previous_hash ev_hash (calculate_event_hash cfg) es"

lemma verify_from_valid:
  "valid (verify_from cfg i p seen es) \<longleftrightarrow> list_all (event_ok cfg) es \<and> distinct (map ev_event_id es)
    \<and> set (map ev_event_id es) \<inter> set seen = {} \<and> numbered i es
    \<and> chained_from ev_previous_hash ev_hash (calculate_event_hash cfg) p es"
proof (induction es arbitrary: i p seen)
  case (Cons e es)
  show ?case
    by (cases "validate_event_contract cfg e") (auto simp: Cons.IH event_ok_def integrity_failure_def)
qed simp

lemma verify_from_result:
  "valid (verify_from cfg i p seen es) \<Longrightarrow> verify_from cfg i p seen es =
    \<lparr>valid = True, integrity_code = IntegrityOk, position = None, checked_count = i - 1 + int (length es),
     head_hash = (if es = [] then p else ev_hash (last es)), message = ''AUDIT_CHAIN_VALID''\<rparr>"
proof (induction es arbitrary: i p seen)
  case (Cons e es)
  show ?case
    using Cons.IH [of "i + 1" "ev_hash e" "ev_event_id e # seen"] Cons.prems
    by (cases "validate_event_contract cfg e") (auto simp: integrity_failure_def split: if_splits)
qed simp

lemma verify_integrity_valid: "valid (verify_integrity cfg es) \<longleftrightarrow> trail_ok cfg es"
  by (auto simp: verify_integrity_def verify_from_valid trail_ok_def)

lemma verify_integrity_ok:
  "trail_ok cfg es \<Longrightarrow> verify_integrity cfg es =
    \<lparr>valid = True, integrity_code = IntegrityOk, position = None, checked_count = int (length es),
     head_hash = chain_head ev_hash es, message = ''AUDIT_CHAIN_VALID''\<rparr>"
  using verify_from_result [of cfg 1 genesis_hash "[]" es]
  by (simp add: verify_integrity_valid [symmetric] verify_integrity_def chain_head_def)

lemma sha256_genesis: "sha256_text genesis_hash"
  by (simp add: sha256_text_def genesis_hash_def list_all_iff hex_char_def)

lemma chain_head_sha256:
  assumes "list_all (event_ok cfg) es"
  shows "sha256_text (chain_head ev_hash es)"
proof (cases "es = []")
  case False
  then have "event_ok cfg (last es)" using assms by (simp add: list_all_iff)
  with False show ?thesis
    by (auto simp: chain_head_def event_ok_def validate_event_contract_def split: if_splits)
qed (simp add: chain_head_def sha256_genesis)

text \<open>A sealed event goes on with a trail.\<close>

lemma trail_ok_seal:
  assumes "hashes cfg" and "trail_ok cfg es" and "fields_ok cfg v" and "ev_event_id v \<notin> ev_event_id ` set es"
  shows "trail_ok cfg (es @ [seal cfg (v, int (length es) + 1) (chain_head ev_hash es)])"
proof -
  define e where "e = seal cfg (v, int (length es) + 1) (chain_head ev_hash es)"
  have "event_ok cfg e"
    using assms chain_head_sha256 [of cfg es]
    by (intro event_okI) (simp_all add: e_def trail_ok_def seal_hash calculate_event_hash_def hashes_def)
  moreover have "chained ev_previous_hash ev_hash (calculate_event_hash cfg) (es @ [e])"
    using assms(2) unfolding e_def by (intro audit_chain.chained_seal) (simp add: trail_ok_def)
  ultimately show ?thesis
    using assms(2,4) unfolding e_def [symmetric]
    by (auto simp: trail_ok_def numbered_append e_def)
qed

section \<open>The store in memory\<close>

lemma append_event_effect:
  assumes "append_event cfg d s = (x, t)"
  obtains (refused) c where "x = Inl c" and "t = s"
  | (appended) v e where "validate_draft cfg d = Inr v" and "ev_event_id v \<notin> set (event_ids s)"
      and "e = seal cfg (v, int (length (events s)) + 1) (chain_head ev_hash (events s))" and "x = Inr e"
      and "events t = events s @ [e]" and "event_ids t = ev_event_id v # event_ids s"
proof (cases "validate_draft cfg d")
  case (Inl c)
  then have "x = Inl c" "t = s" using assms by (simp_all add: append_event_def)
  then show ?thesis by (rule refused)
next
  case (Inr v)
  define e where "e = seal cfg (v, int (length (events s)) + 1) (chain_head ev_hash (events s))"
  have id: "ev_event_id e = ev_event_id v" by (simp add: e_def)
  show ?thesis
  proof (cases "ev_event_id v \<in> set (event_ids s)")
    case True
    then have "x = Inl AuditDuplicateEventError" "t = s" using assms Inr by (simp_all add: append_event_def)
    then show ?thesis by (rule refused)
  next
    case False
    then have "x = Inr e" "t = s\<lparr>events := events s @ [e], event_ids := ev_event_id v # event_ids s\<rparr>"
      using assms Inr id by (simp_all add: append_event_def Let_def e_def)
    then show ?thesis using appended [OF Inr False e_def] by simp
  qed
qed

inductive store_step :: "audit_config \<Rightarrow> string \<Rightarrow> audit_store \<Rightarrow> audit_store \<Rightarrow> bool" for cfg where
  step_append: "append_event cfg d s = (x, t) \<Longrightarrow> store_step cfg (tenant_id d) s t"

definition store_start :: "audit_store \<Rightarrow> bool" where
  "store_start s \<longleftrightarrow> s = empty_store"

definition store_ok :: "audit_config \<Rightarrow> audit_store \<Rightarrow> bool" where
  "store_ok cfg s \<longleftrightarrow> trail_ok cfg (events s) \<and> list_all (fields_ok cfg) (events s)
    \<and> set (event_ids s) = ev_event_id ` set (events s)"

definition store_inv :: "audit_config \<Rightarrow> audit_store \<Rightarrow> bool" where
  "store_inv cfg s \<longleftrightarrow> (hashes cfg \<longrightarrow> store_ok cfg s)"

lemma trail_ok_Nil: "trail_ok cfg []"
  by (simp add: trail_ok_def)

lemma store_ok_append:
  assumes "hashes cfg" and ok: "store_ok cfg s" and call: "append_event cfg d s = (x, t)"
  shows "store_ok cfg t"
  using call
proof (cases rule: append_event_effect)
  case refused
  with ok show ?thesis by simp
next
  case (appended v e)
  have v: "fields_ok cfg v" using validate_draft_fields [OF appended(1)] by simp
  have "trail_ok cfg (events s @ [e])"
    unfolding appended(3)
    by (rule trail_ok_seal) (use assms(1) ok v appended(2) in \<open>simp_all add: store_ok_def\<close>)
  with ok v show ?thesis
    by (auto simp: store_ok_def appended(5,6) appended(3))
qed

interpretation audit: service store_start "store_step cfg" "store_inv cfg" for cfg
proof
  show "store_inv cfg s" if "store_start s" for s
    using that by (simp add: store_start_def store_inv_def store_ok_def empty_store_def trail_ok_Nil)
  show "store_inv cfg t" if "store_inv cfg s" "store_step cfg c s t" for c s t
    using that(2,1) store_ok_append by (auto simp: store_inv_def elim!: store_step.cases)
qed

definition event_at :: "audit_store \<Rightarrow> nat \<Rightarrow> audit_event option" where
  "event_at s i = (if i < length (events s) then Some (events s ! i) else None)"

lemma event_at_kept:
  assumes "store_step cfg c s t" and "event_at s i = Some e"
  shows "event_at t i = Some e"
  using assms
proof (induction rule: store_step.induct)
  case (step_append d s x t)
  from step_append(1) show ?case
    by (cases rule: append_event_effect) (use step_append(2) in \<open>auto simp: event_at_def nth_append split: if_splits\<close>)
qed

interpretation audit_log: versioned_service store_start "store_step cfg" "store_inv cfg" event_at
  ev_tenant_id ev_sequence for cfg
  by unfold_locales (auto dest: event_at_kept)

text \<open>Events are only added.\<close>

lemma store_step_extends: "store_step cfg c s t \<Longrightarrow> \<exists>new. events t = events s @ new"
  by (auto elim!: store_step.cases append_event_effect)

lemma runs_extend: "runs (store_step cfg) s cs t \<Longrightarrow> \<exists>new. events t = events s @ new"
proof (induction rule: runs.induct)
  case (runs_more c s t cs u)
  with store_step_extends show ?case by fastforce
qed simp

section \<open>The durable store\<close>

definition tenant_events :: "string \<Rightarrow> audit_rows \<Rightarrow> audit_event list" where
  "tenant_events t rows = filter (\<lambda>e. ev_tenant_id e = t) rows"

definition rows_ok :: "audit_config \<Rightarrow> audit_rows \<Rightarrow> bool" where
  "rows_ok cfg rows \<longleftrightarrow> distinct (map ev_event_id rows) \<and> list_all (fields_ok cfg) rows
    \<and> (\<forall>t. trail_ok cfg (tenant_events t rows))"

lemma rows_of_tenant_sorted:
  assumes "trail_ok cfg (tenant_events t rows)"
  shows "rows_of_tenant t rows = tenant_events t rows"
proof -
  have "sorted_wrt (\<lambda>x y. ev_sequence x < ev_sequence y) (tenant_events t rows)"
    using assms numbered_sorted by (auto simp: trail_ok_def)
  then have "sorted (map ev_sequence (tenant_events t rows))"
    unfolding sorted_map by (rule sorted_wrt_mono_rel [rotated]) simp
  then show ?thesis
    unfolding rows_of_tenant_def tenant_events_def by (rule sort_key_id_if_sorted)
qed

text \<open>The rows of a tenant as a store of its own, which knows the identifiers of all events.\<close>

definition tenant_store :: "string \<Rightarrow> audit_rows \<Rightarrow> audit_store" where
  "tenant_store t rows = \<lparr>events = rows_of_tenant t rows, event_ids = rev (map ev_event_id rows)\<rparr>"

lemma last_sequence:
  assumes "trail_ok cfg es"
  shows "(if es = [] then 1 else ev_sequence (last es) + 1) = int (length es) + 1"
  using assms numbered_nth [of 1 es "length es - 1"]
  by (auto simp: trail_ok_def last_conv_nth)

lemma append_row_store:
  assumes ok: "rows_ok cfg rows"
  shows "append_row cfg d rows =
    (case append_event cfg d (tenant_store (tenant_id d) rows) of
       (Inl c, _) \<Rightarrow> (Inl c, rows) | (Inr e, _) \<Rightarrow> (Inr e, rows @ [e]))"
proof (cases "validate_draft cfg d")
  case (Inl c)
  then show ?thesis by (simp add: append_row_def append_event_def)
next
  case (Inr v)
  define mine where "mine = rows_of_tenant (tenant_id d) rows"
  have tenant: "ev_tenant_id v = tenant_id d" using validate_draft_fields [OF Inr] by simp
  have trail: "trail_ok cfg (tenant_events (tenant_id d) rows)" using ok by (simp add: rows_ok_def)
  then have mine: "trail_ok cfg mine" "mine = tenant_events (tenant_id d) rows"
    using rows_of_tenant_sorted by (simp_all add: mine_def)
  define e where "e = seal cfg (v, int (length mine) + 1) (chain_head ev_hash mine)"
  have "ev_sequence x \<noteq> ev_sequence e" if "x \<in> set rows" "ev_tenant_id x = ev_tenant_id e" for x
    using that numbered_bounds(2) [of 1 mine x] mine
    by (auto simp: e_def tenant tenant_events_def trail_ok_def)
  then have clash: "list_ex (\<lambda>x. ev_event_id x = ev_event_id e
      \<or> ev_tenant_id x = ev_tenant_id e \<and> ev_sequence x = ev_sequence e) rows
    \<longleftrightarrow> ev_event_id v \<in> set (map ev_event_id rows)"
    by (simp add: list_ex_iff e_def image_iff) metis
  have row: "append_row cfg d rows = (if ev_event_id v \<in> set (map ev_event_id rows)
      then (Inl AuditDuplicateEventError, rows) else (Inr e, rows @ [e]))"
    unfolding append_row_def Inr attempt_simps Let_def tenant mine_def [symmetric] last_sequence [OF mine(1)]
      e_def [symmetric] clash ..
  show ?thesis
    by (simp add: row append_event_def Inr tenant_store_def mine_def [symmetric] e_def [symmetric] Let_def
        del: set_map)
qed

inductive rows_step :: "audit_config \<Rightarrow> string \<Rightarrow> audit_rows \<Rightarrow> audit_rows \<Rightarrow> bool" for cfg where
  step_row: "append_row cfg d rows = (x, rows') \<Longrightarrow> rows_step cfg (tenant_id d) rows rows'"

definition rows_start :: "audit_rows \<Rightarrow> bool" where
  "rows_start rows \<longleftrightarrow> rows = []"

definition rows_inv :: "audit_config \<Rightarrow> audit_rows \<Rightarrow> bool" where
  "rows_inv cfg rows \<longleftrightarrow> (hashes cfg \<longrightarrow> rows_ok cfg rows)"

lemma append_row_effect:
  assumes "rows_ok cfg rows" and "append_row cfg d rows = (x, rows')"
  obtains (refused) c where "x = Inl c" and "rows' = rows"
  | (appended) v e where "validate_draft cfg d = Inr v" and "ev_event_id v \<notin> ev_event_id ` set rows"
      and "e = seal cfg (v, int (length (tenant_events (tenant_id d) rows)) + 1)
        (chain_head ev_hash (tenant_events (tenant_id d) rows))"
      and "x = Inr e" and "rows' = rows @ [e]"
proof -
  obtain y s where call: "append_event cfg d (tenant_store (tenant_id d) rows) = (y, s)"
    by (rule prod.exhaust)
  have mine: "rows_of_tenant (tenant_id d) rows = tenant_events (tenant_id d) rows"
    using assms(1) rows_of_tenant_sorted by (auto simp: rows_ok_def)
  from call show thesis
  proof (cases rule: append_event_effect)
    case (refused c)
    then have "x = Inl c" "rows' = rows" using assms(2) call by (simp_all add: append_row_store [OF assms(1)])
    then show ?thesis by (rule that(1))
  next
    case (appended v e)
    then show ?thesis
      using that(2) [of v e] assms(2) call
      by (simp add: append_row_store [OF assms(1)] tenant_store_def mine)
  qed
qed

lemma rows_ok_append:
  assumes "hashes cfg" and ok: "rows_ok cfg rows" and call: "append_row cfg d rows = (x, rows')"
  shows "rows_ok cfg rows'"
  using ok call
proof (cases rule: append_row_effect)
  case refused
  with ok show ?thesis by simp
next
  case (appended v e)
  have v: "fields_ok cfg v" "ev_tenant_id v = tenant_id d" using validate_draft_fields [OF appended(1)] by simp_all
  have "trail_ok cfg (tenant_events (tenant_id d) rows @ [e])"
    unfolding appended(3)
    by (rule trail_ok_seal)
      (use assms(1) ok v appended(2) in \<open>auto simp: rows_ok_def tenant_events_def\<close>)
  then have "trail_ok cfg (tenant_events t rows')" for t
    using ok v(2) by (cases "t = tenant_id d") (simp_all add: appended(5) appended(3) tenant_events_def rows_ok_def)
  then show ?thesis
    using ok v(1) appended(2) by (simp add: rows_ok_def appended(5) appended(3))
qed

interpretation audit_table: service rows_start "rows_step cfg" "rows_inv cfg" for cfg
proof
  show "rows_inv cfg rows" if "rows_start rows" for rows
    using that by (simp add: rows_start_def rows_inv_def rows_ok_def tenant_events_def trail_ok_Nil)
  show "rows_inv cfg rows'" if "rows_inv cfg rows" "rows_step cfg c rows rows'" for c rows rows'
    using that(2,1) rows_ok_append by (auto simp: rows_inv_def elim!: rows_step.cases)
qed

end
