(* ===== verification/Security_Audit_Properties.thy ===== *)
theory Security_Audit_Properties
  imports Security_Audit_Invariant
begin

text \<open>
  The properties of the audit trail: every stored trail verifies and keeps its events, a verified
  head pins the trail, nothing forbidden is stored, cursors and pages lose no event, and the durable
  store is a store in memory for each tenant.
\<close>

section \<open>The payload of an event identifies it\<close>

lemma normal_idem: "normal (normal j) = normal j"
  using json_text_iff [OF readable_json_char_raw, of "normal j" j] by (simp add: json_text_normal)

lemma canonical_bytes_iff: "canonical_bytes a = canonical_bytes b \<longleftrightarrow> normal a = normal b"
  by (simp add: canonical_bytes_def utf8_inject json_text_iff [OF readable_json_char_raw])

lemma normal_members:
  assumes eq: "normal (JObj xs) = normal (JObj ys)" and keys: "map fst xs = map fst ys" and "distinct (map fst xs)"
  shows "map (normal \<circ> snd) xs = map (normal \<circ> snd) ys"
proof -
  define f where "f = map_prod (\<lambda>k :: string. k) normal"
  have "set (map f (sort_key fst xs)) = set (map f (sort_key fst ys))"
    using eq by (simp only: normal_JObj json.inject f_def)
  then have sets: "f ` set xs = f ` set ys" by simp
  have keys': "fst (xs ! i) = fst (ys ! i)" if "i < length xs" for i
    using keys that by (metis map_eq_imp_length_eq nth_map)
  have len: "length xs = length ys" using keys by (rule map_eq_imp_length_eq)
  have "normal (snd (xs ! i)) = normal (snd (ys ! i))" if i: "i < length xs" for i
  proof -
    have "f (xs ! i) \<in> f ` set ys" using i sets by (metis image_eqI nth_mem)
    then obtain j where j: "j < length ys" "f (xs ! i) = f (ys ! j)" by (auto simp: in_set_conv_nth)
    then have "fst (xs ! i) = fst (xs ! j)" using keys' len by (simp add: f_def prod_eq_iff)
    then have "i = j" using assms(3) i j(1) len by (simp add: distinct_conv_nth) metis
    with j(2) show ?thesis by (simp add: f_def prod_eq_iff)
  qed
  with len show ?thesis by (simp add: list_eq_iff_nth_eq)
qed

text \<open>An event with the members of its projections in order.\<close>

definition tidy_projection :: "projection \<Rightarrow> projection" where
  "tidy_projection m = (case normal (JObj m) of JObj m' \<Rightarrow> m' | _ \<Rightarrow> m)"

definition tidy :: "audit_event \<Rightarrow> audit_event" where
  "tidy e = e\<lparr>ev_before := map_option tidy_projection (ev_before e),
     ev_after := map_option tidy_projection (ev_after e), ev_metadata := tidy_projection (ev_metadata e)\<rparr>"

lemma JObj_tidy: "JObj (tidy_projection m) = normal (JObj m)"
  by (simp add: tidy_projection_def normal_JObj)

lemma json_of_tidy: "json_of_projection (map_option tidy_projection p) = normal (json_of_projection p)"
  by (cases p) (simp_all add: json_of_projection_def JObj_tidy del: normal.simps(6))

lemma json_of_projection_inject: "json_of_projection p = json_of_projection q \<longleftrightarrow> p = q"
  by (auto simp: json_of_projection_def split: option.splits)

lemma actor_type_value_inject: "actor_type_value a = actor_type_value b \<longleftrightarrow> a = b"
  by (cases a; cases b) (simp_all add: actor_type_value_def)

lemma outcome_value_inject: "outcome_value a = outcome_value b \<longleftrightarrow> a = b"
  by (cases a; cases b) (simp_all add: outcome_value_def)

lemma JOpt_inject: "normal (JOpt a) = normal (JOpt b) \<longleftrightarrow> a = b"
  by (cases a; cases b) (simp_all add: JOpt_def)

lemma normal_payload:
  assumes "normal (event_payload cfg e) = normal (event_payload cfg e')"
    and "inj_on (canonical_time cfg) {ev_occurred_at e, ev_occurred_at e'}" and "ev_hash e = ev_hash e'"
  shows "tidy e = tidy e'"
proof -
  note payload = assms(1) [unfolded event_payload_def]
  have members: "ev_sequence e = ev_sequence e'" "ev_event_id e = ev_event_id e'"
    "canonical_time cfg (ev_occurred_at e) = canonical_time cfg (ev_occurred_at e')"
    "ev_actor_id e = ev_actor_id e'" "ev_actor_type e = ev_actor_type e'" "ev_tenant_id e = ev_tenant_id e'"
    "ev_workspace_id e = ev_workspace_id e'" "ev_action e = ev_action e'" "ev_target_type e = ev_target_type e'"
    "ev_target_id e = ev_target_id e'" "ev_outcome e = ev_outcome e'" "ev_trace_id e = ev_trace_id e'"
    "ev_policy_version e = ev_policy_version e'" "ev_previous_hash e = ev_previous_hash e'"
    "normal (json_of_projection (ev_before e)) = normal (json_of_projection (ev_before e'))"
    "normal (json_of_projection (ev_after e)) = normal (json_of_projection (ev_after e'))"
    "normal (JObj (ev_metadata e)) = normal (JObj (ev_metadata e'))"
    using normal_members [OF payload]
    by (simp_all add: JOpt_inject actor_type_value_inject outcome_value_inject del: normal.simps(6))
  have "ev_occurred_at e = ev_occurred_at e'"
    using members(3) assms(2) by (simp add: inj_on_eq_iff)
  moreover have "map_option tidy_projection (ev_before e) = map_option tidy_projection (ev_before e')"
    "map_option tidy_projection (ev_after e) = map_option tidy_projection (ev_after e')"
    using members(15,16) by (simp_all flip: json_of_projection_inject add: json_of_tidy)
  moreover have "tidy_projection (ev_metadata e) = tidy_projection (ev_metadata e')"
    using members(17) by (metis JObj_tidy json.inject(5))
  ultimately show ?thesis
    using members assms(3) by (cases e; cases e') (simp add: tidy_def)
qed

text \<open>Tidying keeps the hash of an event and its place.\<close>

lemma normal_JObj_cong:
  assumes "map (map_prod (\<lambda>k. k) normal) xs = map (map_prod (\<lambda>k. k) normal) ys"
  shows "normal (JObj xs) = normal (JObj ys)"
  using assms by (simp only: normal_JObj sort_key_map_snd [symmetric])

lemma normal_tidy: "normal (JObj (tidy_projection m)) = normal (JObj m)"
  using normal_idem [of "JObj m"] by (simp only: JObj_tidy)

lemma hash_tidy [simp]: "calculate_event_hash cfg (tidy e) = calculate_event_hash cfg e"
proof -
  have "normal (event_payload cfg (tidy e)) = normal (event_payload cfg e)"
    unfolding event_payload_def
    by (rule normal_JObj_cong) (simp add: tidy_def json_of_tidy normal_tidy normal_idem del: normal.simps(6))
  then show ?thesis by (simp add: calculate_event_hash_def canonical_bytes_iff [symmetric])
qed

lemma tidy_simps [simp]: "ev_hash (tidy e) = ev_hash e" "ev_previous_hash (tidy e) = ev_previous_hash e"
  by (simp_all add: tidy_def)

lemma chained_from_tidy:
  "chained_from ev_previous_hash ev_hash (calculate_event_hash cfg) p (map tidy es)
    \<longleftrightarrow> chained_from ev_previous_hash ev_hash (calculate_event_hash cfg) p es"
  by (induction es arbitrary: p) simp_all

lemma chained_from_hash:
  "chained_from prev hash digest p es \<Longrightarrow> e \<in> set es \<Longrightarrow> hash e = digest e"
  by (induction es arbitrary: p) auto

text \<open>
  C10: tamper evidence. Two trails that both verify, with the same number of events and the same head
  hash, hold the same events in the same order, but for the order of the members of their
  projections: so long as the digest does not collide on their payloads and the times among them
  have different texts, no past event was altered, dropped, inserted or reordered.
\<close>

theorem verified_trails_agree:
  assumes "valid (verify_integrity cfg es)" and "valid (verify_integrity cfg es')"
    and "checked_count (verify_integrity cfg es) = checked_count (verify_integrity cfg es')"
    and "head_hash (verify_integrity cfg es) = head_hash (verify_integrity cfg es')"
    and times: "inj_on (canonical_time cfg) (ev_occurred_at ` (set es \<union> set es'))"
    and "\<forall>e \<in> set es. \<forall>e' \<in> set es'. \<not> collision (sha256 cfg)
      (canonical_bytes (event_payload cfg e)) (canonical_bytes (event_payload cfg e'))"
  shows "map tidy es = map tidy es'"
proof (cases "es = []")
  case True
  then show ?thesis
    using assms(2,3) by (simp add: verify_integrity_valid verify_integrity_ok trail_ok_Nil)
next
  case False
  have trails: "trail_ok cfg es" "trail_ok cfg es'" using assms(1,2) by (simp_all add: verify_integrity_valid)
  then have same: "length es = length es'" "chain_head ev_hash es = chain_head ev_hash es'"
    using assms(3,4) by (simp_all add: verify_integrity_ok)
  have chains: "chained ev_previous_hash ev_hash (calculate_event_hash cfg) es"
    "chained ev_previous_hash ev_hash (calculate_event_hash cfg) es'"
    using trails by (simp_all add: trail_ok_def)
  have "tidy e = tidy e'"
    if e: "e \<in> set es" "e' \<in> set es'" and h: "calculate_event_hash cfg e = calculate_event_hash cfg e'" for e e'
  proof (rule normal_payload)
    show "normal (event_payload cfg e) = normal (event_payload cfg e')"
      using e h assms(6) by (auto simp: collision_def calculate_event_hash_def canonical_bytes_iff)
    show "inj_on (canonical_time cfg) {ev_occurred_at e, ev_occurred_at e'}"
      using e by (intro inj_on_subset [OF times]) auto
    show "ev_hash e = ev_hash e'"
      using chains e h chained_from_hash by metis
  qed
  then show ?thesis
    using False same chains
    by (intro audit_chain.chained_head_determines [of cfg genesis_hash])
      (auto simp: chained_from_tidy chain_head_def last_map split: if_splits)
qed

section \<open>Stored projections\<close>

fun json_parts :: "json \<Rightarrow> json list" where
  "json_parts (JArr xs) = JArr xs # concat (map json_parts xs)"
| "json_parts (JObj kvs) = JObj kvs # concat (map (\<lambda>(k, v). json_parts v) kvs)"
| "json_parts j = [j]"

fun json_depth :: "json \<Rightarrow> nat" where
  "json_depth (JArr xs) = fold (\<lambda>x n. max (Suc (json_depth x)) n) xs 0"
| "json_depth (JObj kvs) = fold (\<lambda>(k, v) n. max (Suc (json_depth v)) n) kvs 0"
| "json_depth j = 0"

lemma fold_max_le: "fold (\<lambda>x n. max (f x) n) xs m \<le> b \<longleftrightarrow> m \<le> b \<and> (\<forall>x \<in> set xs. f x \<le> b)" for b :: nat
  by (induction xs arbitrary: m) auto

lemma json_safe_depth: "json_safe cfg d j \<Longrightarrow> d + json_depth j \<le> max_json_depth"
proof (induction j arbitrary: d)
  case (JArr xs)
  have "Suc (json_depth x) \<le> max_json_depth - d" if "x \<in> set xs" for x
    using JArr.IH [OF that, of "Suc d"] JArr.prems that by (auto simp: list_all_iff)
  then show ?case
    using JArr.prems fold_max_le [of "\<lambda>x. Suc (json_depth x)" xs 0 "max_json_depth - d"] by auto
next
  case (JObj kvs)
  have "Suc (json_depth (snd x)) \<le> max_json_depth - d" if "x \<in> set kvs" for x
    using JObj.IH [of x "snd x" "Suc d"] JObj.prems that by (cases x) (auto simp: list_all_iff snds.simps)
  moreover have "(\<lambda>(k :: string, v). max (Suc (json_depth v))) = (\<lambda>x. max (Suc (json_depth (snd x))))"
    by (simp add: fun_eq_iff)
  ultimately show ?case
    using JObj.prems fold_max_le [of "\<lambda>x. Suc (json_depth (snd x))" kvs 0 "max_json_depth - d"]
    by auto
qed simp_all

lemma json_safe_parts:
  "json_safe cfg d j \<Longrightarrow> x \<in> set (json_parts j) \<Longrightarrow> \<exists>d'. json_safe cfg d' x"
proof (induction j arbitrary: d)
  case (JArr xs)
  then show ?case by (auto simp: list_all_iff simp del: json_safe.simps) (auto simp: list_all_iff)
next
  case (JObj kvs)
  show ?case
  proof (cases "x = JObj kvs")
    case False
    then obtain k v where kv: "(k, v) \<in> set kvs" "x \<in> set (json_parts v)" using JObj.prems(2) by auto
    then show ?thesis using JObj.IH [OF kv(1), of v "Suc d"] JObj.prems(1) by (auto simp: list_all_iff)
  qed (use JObj.prems in blast)
qed auto

text \<open>The projections an event carries.\<close>

definition projections :: "audit_event \<Rightarrow> projection set" where
  "projections e = insert (ev_metadata e) (set_option (ev_before e) \<union> set_option (ev_after e))"

lemma fields_ok_projection: "fields_ok cfg e \<Longrightarrow> m \<in> projections e \<Longrightarrow> projection_safe cfg m"
  by (auto simp: fields_ok_def projections_def option.pred_set)

text \<open>
  C22: no secrets. In the projections of a stored event, at every level, no name of a member contains
  a forbidden word, whatever its case and punctuation, names are distinct, not empty and at most 128
  characters, every text passed the check for closed addresses, the nesting is at most eight levels
  and the canonical bytes at most 16384.
\<close>

theorem no_secrets_recorded:
  assumes "hashes cfg" and "reachable store_start (store_step cfg) s" and "e \<in> set (events s)" and "m \<in> projections e"
  shows "length (canonical_bytes (JObj m)) \<le> 16384 \<and> json_depth (JObj m) \<le> 8
    \<and> (\<forall>t. JStr t \<in> set (json_parts (JObj m)) \<longrightarrow> validate_string_value cfg t = Inr ())
    \<and> (\<forall>kvs. JObj kvs \<in> set (json_parts (JObj m)) \<longrightarrow> distinct (map fst kvs)
      \<and> (\<forall>k \<in> set (map fst kvs). k \<noteq> [] \<and> length k \<le> 128
        \<and> (\<forall>p \<in> set forbidden_key_parts. \<not> contains p (normalized_key k))))"
proof -
  have "projection_safe cfg m"
    using audit.reachable_inv [OF assms(2)] assms(1,3,4) fields_ok_projection
    by (auto simp: store_inv_def store_ok_def list_all_iff)
  then have safe: "json_safe cfg 0 (JObj m)" and bytes: "length (canonical_bytes (JObj m)) \<le> 16384"
    by (simp_all add: projection_safe_def max_json_bytes_def)
  have "json_depth (JObj m) \<le> 8"
    using json_safe_depth [OF safe] by (simp add: max_json_depth_def)
  moreover have "validate_string_value cfg t = Inr ()" if "JStr t \<in> set (json_parts (JObj m))" for t
    using json_safe_parts [OF safe that] by auto
  moreover have "distinct (map fst kvs) \<and> (\<forall>k \<in> set (map fst kvs). k \<noteq> [] \<and> length k \<le> 128
        \<and> (\<forall>p \<in> set forbidden_key_parts. \<not> contains p (normalized_key k)))"
    if kvs: "JObj kvs \<in> set (json_parts (JObj m))" for kvs
  proof -
    obtain d where "json_safe cfg d (JObj kvs)" using json_safe_parts [OF safe kvs] by blast
    then show ?thesis by (auto simp: list_all_iff key_ok_def forbidden_key_def list_ex_iff)
  qed
  ultimately show ?thesis using bytes by blast
qed

section \<open>Cursors and pages\<close>

text \<open>
  Cursors. The cursor of a number below 10 to the 300 is read back as that number; a text is
  read as a number only if it is the cursor of that number, so that no two texts stand for the same
  place, and every other text is refused with the same code.
\<close>

theorem cursor_roundtrip:
  assumes "0 \<le> n" and "n < 10 ^ 300"
  shows "decode_cursor (Some (encode_cursor n)) = Inr n
    \<and> (decode_cursor (Some c) = Inr n \<longleftrightarrow> c = encode_cursor n)
    \<and> (decode_cursor cur = Inl e \<longrightarrow> e = AuditValidationError ''INVALID_CURSOR'')"
  using assms length_encode_cursor [OF assms] decode_cursor_error [of cur e]
  by (auto simp: decode_cursor_Some intro: decode_encode_cursor)

text \<open>After the last event of a page come the ones the page left out.\<close>

lemma filter_after_page:
  assumes "sorted_wrt (\<lambda>x y. ev_sequence x < ev_sequence y) es" and "0 < n" and "n < length es"
  shows "filter (\<lambda>e. ev_sequence (last (take n es)) < ev_sequence e) es = drop n es"
proof -
  define z where "z = last (take n es)"
  have "take n es \<noteq> []" using assms(2,3) by auto
  then have z: "z = es ! (n - 1)" using assms(2,3) by (simp add: z_def last_conv_nth)
  have "\<not> ev_sequence z < ev_sequence e" if e: "e \<in> set (take n es)" for e
  proof -
    obtain i where i: "i < n" "e = es ! i" using e assms(3) by (auto simp: in_set_conv_nth)
    show ?thesis
    proof (cases "i = n - 1")
      case False
      then have "ev_sequence e < ev_sequence z"
        using sorted_wrt_nth_less [OF assms(1), of i "n - 1"] i assms(2,3) by (simp add: z)
      then show ?thesis by simp
    qed (simp add: i z)
  qed
  moreover have "ev_sequence z < ev_sequence e" if e: "e \<in> set (drop n es)" for e
  proof -
    obtain i where "i < length es - n" "e = es ! (n + i)" using e assms(3) by (auto simp: in_set_conv_nth)
    then show ?thesis
      using sorted_wrt_nth_less [OF assms(1), of "n - 1" "n + i"] assms(2,3) by (simp add: z)
  qed
  ultimately have "filter (\<lambda>e. ev_sequence z < ev_sequence e) (take n es @ drop n es) = drop n es"
    unfolding filter_append by (simp add: filter_empty_conv filter_id_conv)
  then show ?thesis by (simp add: z_def)
qed

lemma check_query_limit: "check_query q = Inr span \<Longrightarrow> 1 \<le> q_limit q \<and> q_limit q \<le> 200"
  by (auto simp: check_query_def max_page_limit_def elim!: and_then_InrD split: if_splits)

lemma follow_pages_from:
  assumes "numbered 1 es" and "int (length es) < 10 ^ 300" and q: "check_query q = Inr span"
    and "decode_cursor cur = Inr k"
  shows "follow_pages (list_events q es) cur acc
    = Some (Inr (acc @ filter (\<lambda>e. k < ev_sequence e \<and> matches q span e) es))"
  using assms(4)
proof (induction "length (filter (\<lambda>e. k < ev_sequence e \<and> matches q span e) es)" arbitrary: cur k acc
    rule: less_induct)
  case less
  define n where "n = nat (q_limit q)"
  define found where "found = filter (\<lambda>e. k < ev_sequence e \<and> matches q span e) es"
  have n: "0 < n" using check_query_limit [OF q] by (simp add: n_def)
  have page: "list_events q es cur = Inr (page_of n found)"
    by (simp add: list_events_def q less.prems n_def found_def)
  show ?case
  proof (cases "length found > n")
    case False
    then show ?thesis
      by (subst follow_pages.simps) (simp add: page page_of_def flip: found_def)
  next
    case True
    define z where "z = last (take n found)"
    have "take n found \<noteq> []" using n True by auto
    then have z: "z \<in> set found" unfolding z_def by (meson in_set_takeD last_in_set)
    then have zs: "1 \<le> ev_sequence z" "ev_sequence z < 10 ^ 300" "k < ev_sequence z"
      using numbered_bounds [OF assms(1), of z] assms(2) by (auto simp: found_def)
    have decode: "decode_cursor (Some (encode_cursor (ev_sequence z))) = Inr (ev_sequence z)"
      using zs length_encode_cursor by (intro decode_encode_cursor) simp_all
    have "sorted_wrt (\<lambda>x y. ev_sequence x < ev_sequence y) found"
      unfolding found_def by (intro sorted_wrt_filter numbered_sorted [OF assms(1)])
    from filter_after_page [OF this n True]
    have after: "filter (\<lambda>e. ev_sequence z < ev_sequence e) found = drop n found"
      by (simp add: z_def)
    have rest: "filter (\<lambda>e. ev_sequence z < ev_sequence e \<and> matches q span e) es = drop n found"
      unfolding after [symmetric] unfolding found_def filter_filter
      using zs(3) by (intro filter_cong) auto
    have "follow_pages (list_events q es) (Some (encode_cursor (ev_sequence z))) (acc @ take n found)
        = Some (Inr ((acc @ take n found) @ drop n found))"
      using less.hyps [OF _ decode] n True by (simp add: rest flip: found_def)
    then show ?thesis
      using True
      by (subst follow_pages.simps) (simp add: page page_of_def flip: found_def z_def)
  qed
qed

text \<open>
  C34: pages. Following the cursors of a listing of a numbered trail of fewer than 10 to the 300
  events from the first page on ends, and the pages together hold every event that fits the filters,
  each once and in the order of the trail; no page holds more than the limit of the query.
\<close>

theorem pages_cover_matches:
  assumes "hashes cfg" and "reachable store_start (store_step cfg) s" and "check_query q = Inr span"
    and "int (length (events s)) < 10 ^ 300"
  shows "follow_pages (list_events q (events s)) None [] = Some (Inr (filter (matches q span) (events s)))
    \<and> (\<forall>cur p. list_events q (events s) cur = Inr p \<longrightarrow> length (items p) \<le> nat (q_limit q) \<and> length (items p) \<le> 200)"
proof -
  have trail: "numbered 1 (events s)"
    using audit.reachable_inv [OF assms(2)] assms(1) by (simp add: store_inv_def store_ok_def trail_ok_def)
  have "filter (\<lambda>e. 0 < ev_sequence e \<and> matches q span e) (events s) = filter (matches q span) (events s)"
    using numbered_bounds(1) [OF trail] by (intro filter_cong) fastforce+
  then have "follow_pages (list_events q (events s)) None [] = Some (Inr (filter (matches q span) (events s)))"
    using follow_pages_from [OF trail assms(4,3), of None 0 "[]"] by (simp add: decode_cursor_def)
  moreover have "length (items p) \<le> nat (q_limit q) \<and> length (items p) \<le> 200"
    if "list_events q (events s) cur = Inr p" for cur p
    using that check_query_limit [OF assms(3)]
    by (auto simp: list_events_def page_of_def Let_def elim!: and_then_InrD)
  ultimately show ?thesis by blast
qed

section \<open>Stored trails verify\<close>

text \<open>
  C9: every stored trail verifies. In a reachable store verification accepts the whole trail, with
  its length and its last hash, and whatever is appended later keeps the events as they are, in
  their places.
\<close>

theorem store_always_verifies:
  assumes "hashes cfg" and "reachable store_start (store_step cfg) s" and "runs (store_step cfg) s cs t"
  shows "verify_integrity cfg (events s) =
      \<lparr>valid = True, integrity_code = IntegrityOk, position = None, checked_count = int (length (events s)),
       head_hash = chain_head ev_hash (events s), message = ''AUDIT_CHAIN_VALID''\<rparr>
    \<and> valid (verify_integrity cfg (events t)) \<and> take (length (events s)) (events t) = events s"
proof -
  have "trail_ok cfg (events u)" if "reachable store_start (store_step cfg) u" for u
    using audit.reachable_inv [OF that] assms(1) by (simp add: store_inv_def store_ok_def)
  moreover note reachable_runs [OF assms(3,2)] assms(2)
  ultimately have trails: "trail_ok cfg (events s)" "trail_ok cfg (events t)" by simp_all
  obtain new where "events t = events s @ new" using runs_extend [OF assms(3)] by blast
  with trails show ?thesis by (simp add: verify_integrity_valid verify_integrity_ok)
qed

section \<open>The durable store\<close>

lemma reachable_rows_ok:
  "hashes cfg \<Longrightarrow> reachable rows_start (rows_step cfg) rows \<Longrightarrow> rows_ok cfg rows"
  using audit_table.reachable_inv by (auto simp: rows_inv_def)

lemma rows_ok_sorted: "rows_ok cfg rows \<Longrightarrow> rows_of_tenant t rows = tenant_events t rows"
  using rows_of_tenant_sorted by (auto simp: rows_ok_def)

text \<open>
  C21: the durable store is a store in memory for each tenant. An append to the table answers as the
  same append to the store that holds the events of its tenant and knows the identifiers of all
  events, and leaves the table in the state that append leaves that store in; the events of every
  other tenant stay as they are.
\<close>

theorem durable_store_refines:
  assumes "hashes cfg" and "reachable rows_start (rows_step cfg) rows" and "append_row cfg d rows = (x, rows')"
  shows "append_event cfg d (tenant_store (tenant_id d) rows) = (x, tenant_store (tenant_id d) rows')
    \<and> (\<forall>t. t \<noteq> tenant_id d \<longrightarrow> rows_of_tenant t rows' = rows_of_tenant t rows)"
proof -
  note ok = reachable_rows_ok [OF assms(1,2)]
  note ok' = rows_ok_append [OF assms(1) ok assms(3)]
  obtain y s where call: "append_event cfg d (tenant_store (tenant_id d) rows) = (y, s)"
    by (rule prod.exhaust)
  from call show ?thesis
  proof (cases rule: append_event_effect)
    case (refused c)
    then show ?thesis using assms(3) call by (simp add: append_row_store [OF ok])
  next
    case (appended v e)
    have rows': "x = Inr e" "rows' = rows @ [e]"
      using assms(3) call appended(4) by (simp_all add: append_row_store [OF ok])
    have e: "ev_tenant_id e = tenant_id d" "ev_event_id e = ev_event_id v"
      using validate_draft_fields [OF appended(1)] by (simp_all add: appended(3))
    have "events s = rows_of_tenant (tenant_id d) rows'"
      unfolding rows_ok_sorted [OF ok'] using appended(5) e
      by (simp add: tenant_store_def rows_ok_sorted [OF ok] rows'(2) tenant_events_def)
    moreover have "event_ids s = rev (map ev_event_id rows')"
      using appended(6) e by (simp add: tenant_store_def rows'(2))
    ultimately have "s = tenant_store (tenant_id d) rows'" by (simp add: tenant_store_def)
    moreover have "rows_of_tenant t rows' = rows_of_tenant t rows" if "t \<noteq> tenant_id d" for t
      using that e by (simp add: rows_ok_sorted [OF ok] rows_ok_sorted [OF ok']) (simp add: rows'(2) tenant_events_def)
    ultimately show ?thesis using call appended(4) rows'(1) by simp
  qed
qed

lemma events_from_rows_ok: "list_all (event_ok cfg) es \<Longrightarrow> events_from_rows cfg es = Inr es"
  by (induction es) (simp_all add: event_from_row_def event_ok_def)

text \<open>A listing of the table is the listing of the events of its tenant.\<close>

lemma list_rows_events:
  assumes "rows_ok cfg rows"
  shows "list_rows cfg q rows cur = list_events q (rows_of_tenant (q_tenant_id q) rows) cur"
proof -
  have "list_all (event_ok cfg) (tenant_events t rows)" for t using assms by (simp add: rows_ok_def trail_ok_def)
  then have read: "events_from_rows cfg (take n (filter P (rows_of_tenant t rows))) = Inr (take n (filter P (rows_of_tenant t rows)))"
    for n P t
    by (intro events_from_rows_ok) (fastforce simp: rows_ok_sorted [OF assms] list_all_iff dest: in_set_takeD)
  have more: "n < min L (n + 1) \<longleftrightarrow> n < L" for n L :: nat by auto
  show ?thesis
    unfolding list_rows_def list_events_def Let_def take_take length_take more
    by (simp add: read page_of_def Let_def)
qed

text \<open>
  C35: the durable verification ends. In a reachable table with fewer than 10 to the 300 events of a
  tenant, the verification of that tenant reads all its pages, without looping, and accepts them
  with their number and their last hash.
\<close>

theorem durable_verification_ends:
  assumes "hashes cfg" and "reachable rows_start (rows_step cfg) rows" and "text_ok t"
    and "int (length (rows_of_tenant t rows)) < 10 ^ 300"
  shows "verify_rows cfg None (Some t) rows = Some (Inr
    \<lparr>valid = True, integrity_code = IntegrityOk, position = None,
     checked_count = int (length (rows_of_tenant t rows)),
     head_hash = chain_head ev_hash (rows_of_tenant t rows), message = ''AUDIT_CHAIN_VALID''\<rparr>)"
proof -
  note ok = reachable_rows_ok [OF assms(1,2)]
  define es where "es = rows_of_tenant t rows"
  have es: "es = tenant_events t rows" "trail_ok cfg es"
    using ok by (simp_all add: es_def rows_ok_sorted [OF ok]) (simp add: rows_ok_def)
  have q: "check_query (tenant_query t) = Inr (None, None)"
    using assms(3) by (simp add: check_query_def tenant_query_def optional_def max_page_limit_def validate_text_def)
  have pages: "list_rows cfg (tenant_query t) rows = list_events (tenant_query t) es"
    using list_rows_events [OF ok, of "tenant_query t"] by (simp add: fun_eq_iff es_def tenant_query_def)
  have "filter (\<lambda>e. 0 < ev_sequence e \<and> matches (tenant_query t) (None, None) e) es = es"
  proof -
    have "numbered 1 es" using es(2) by (simp add: trail_ok_def)
    then have "0 < ev_sequence e" if "e \<in> set es" for e using that numbered_bounds(1) by fastforce
    moreover have "ev_tenant_id e = t" if "e \<in> set es" for e using that by (simp add: es(1) tenant_events_def)
    ultimately show ?thesis by (simp add: filter_id_conv matches_def tenant_query_def is_or_any_def)
  qed
  then have "follow_pages (list_rows cfg (tenant_query t) rows) None [] = Some (Inr es)"
    using follow_pages_from [OF _ _ q, of es None 0 "[]"] es(2) assms(4)
    by (simp add: pages decode_cursor_def trail_ok_def flip: es_def)
  then show ?thesis
    by (simp add: verify_rows_def verify_integrity_ok [OF es(2)] flip: es_def)
qed

section \<open>An example\<close>

text \<open>Times are written as numbers, the digest has the last byte of a text.\<close>

definition audit_demo_config :: audit_config where
  "audit_demo_config =
    \<lparr>sha256 = (\<lambda>x. replicate 62 (CHR ''0'') @ (if x = [] then ''00'' else hex_byte (last x))),
     canonical_time = dec_int, ip_address = (\<lambda>_. None), closed_address = (\<lambda>_. False),
     url_hostname = (\<lambda>_. Some None)\<rparr>"

definition audit_demo_members :: "bool \<Rightarrow> (string \<times> json) list" where
  "audit_demo_members b = (if b then [(''why'', JArr [JStr ''ok'']), (''n'', JInt 1)]
     else [(''n'', JInt 1), (''why'', JArr [JStr ''ok''])])"

definition audit_demo_draft :: "string \<Rightarrow> bool \<Rightarrow> audit_event_draft" where
  "audit_demo_draft i b = \<lparr>event_id = i, occurred_at = Aware 0 7, actor_id = ''u1'', actor_type = UserActor,
     tenant_id = ''t1'', workspace_id = None, action = ''sync'', target_type = ''file'', target_id = ''f1'',
     outcome = Succeeded, trace_id = ''tr'', policy_version = ''1'', before = ANone, after = ANone,
     metadata = thaw_json (JObj (audit_demo_members b))\<rparr>"

definition audit_demo_fields :: "string \<Rightarrow> bool \<Rightarrow> event_fields" where
  "audit_demo_fields i b = \<lparr>ev_event_id = i, ev_occurred_at = 7, ev_actor_id = ''u1'', ev_actor_type = UserActor,
     ev_tenant_id = ''t1'', ev_workspace_id = None, ev_action = ''sync'', ev_target_type = ''file'', ev_target_id = ''f1'',
     ev_outcome = Succeeded, ev_trace_id = ''tr'', ev_policy_version = ''1'', ev_before = None, ev_after = None,
     ev_metadata = audit_demo_members b\<rparr>"

lemma audit_demo_valid:
  "validate_draft audit_demo_config (audit_demo_draft ''e1'' True) = Inr (audit_demo_fields ''e1'' True)"
  "validate_draft audit_demo_config (audit_demo_draft ''e2'' False) = Inr (audit_demo_fields ''e2'' False)"
  "validate_draft audit_demo_config (audit_demo_draft ''e1'' False) = Inr (audit_demo_fields ''e1'' False)"
  by code_simp+

lemma audit_demo_hashes: "hashes audit_demo_config"
proof -
  have "hex_char (hex_digit n)" if "n < 16" for n
    using that by (auto simp: hex_char_def hex_digit_def less_eq_char_def)
  moreover have "(of_char c :: nat) div 16 < 16" for c :: char
    by (rule less_mult_imp_div_less) simp
  moreover have "hex_char (CHR ''0'')" by (simp add: hex_char_def)
  ultimately show ?thesis
    by (simp add: hashes_def audit_demo_config_def sha256_text_def hex_byte_def Let_def list_all_iff)
qed

lemma step_of_append: "store_step cfg (tenant_id d) s (snd (append_event cfg d s))"
  by (rule step_append) (rule prod.collapse [symmetric])

lemma step_of_row: "rows_step cfg (tenant_id d) rows (snd (append_row cfg d rows))"
  by (rule step_row) (rule prod.collapse [symmetric])

text \<open>A store with one event, and the same store with one event more.\<close>

definition audit_demo_one :: "bool \<Rightarrow> audit_store" where
  "audit_demo_one b = snd (append_event audit_demo_config (audit_demo_draft ''e1'' b) empty_store)"

definition audit_demo_two :: audit_store where
  "audit_demo_two = snd (append_event audit_demo_config (audit_demo_draft ''e2'' False) (audit_demo_one True))"

definition audit_demo_row :: audit_rows where
  "audit_demo_row = snd (append_row audit_demo_config (audit_demo_draft ''e1'' True) [])"

lemma audit_demo_one_reachable: "reachable store_start (store_step audit_demo_config) (audit_demo_one b)"
  unfolding audit_demo_one_def
  by (rule reachable_step, rule reachable_start) (simp add: store_start_def, rule step_of_append)

lemma audit_demo_row_reachable: "reachable rows_start (rows_step audit_demo_config) audit_demo_row"
  unfolding audit_demo_row_def
  by (rule reachable_step, rule reachable_start) (simp add: rows_start_def, rule step_of_row)

lemma audit_demo_step: "store_step audit_demo_config ''t1'' (audit_demo_one True) audit_demo_two"
  using step_of_append [of audit_demo_config "audit_demo_draft ''e2'' False" "audit_demo_one True"]
  by (simp add: audit_demo_two_def audit_demo_draft_def)

definition audit_demo_event :: "bool \<Rightarrow> audit_event" where
  "audit_demo_event b = seal audit_demo_config (audit_demo_fields ''e1'' b, 1) genesis_hash"

lemma audit_demo_one: "events (audit_demo_one b) = [audit_demo_event b]" "event_ids (audit_demo_one b) = [''e1'']"
  by (cases b; simp add: audit_demo_one_def append_event_def audit_demo_valid empty_store_def Let_def chain_head_def
      audit_demo_event_def audit_demo_fields_def)+

lemma audit_demo_row: "audit_demo_row = [audit_demo_event True]"
  by (simp add: audit_demo_row_def append_row_def audit_demo_valid rows_of_tenant_def Let_def chain_head_def
      audit_demo_event_def)

lemma audit_demo_event: "ev_metadata (audit_demo_event b) = audit_demo_members b" "ev_tenant_id (audit_demo_event b) = ''t1''"
  "ev_occurred_at (audit_demo_event b) = 7" "ev_sequence (audit_demo_event b) = 1"
  by (simp_all add: audit_demo_event_def seal_def Let_def event_fields.defs audit_demo_fields_def)

lemma audit_demo_same_payload: "normal (event_payload cfg (audit_demo_event True)) = normal (event_payload cfg (audit_demo_event False))"
  unfolding event_payload_def
  by (rule normal_JObj_cong) (simp add: audit_demo_event_def seal_def Let_def event_fields.defs audit_demo_fields_def
      audit_demo_members_def less_list_code)

text \<open>The witnesses.\<close>

theorem verified_trails_agree_witness:
  "map tidy [audit_demo_event True] = map tidy [audit_demo_event False] \<and> audit_demo_event True \<noteq> audit_demo_event False"
proof -
  have trail: "trail_ok audit_demo_config [audit_demo_event b]" for b
    using audit.reachable_inv [OF audit_demo_one_reachable [of b]] audit_demo_hashes
    by (simp add: store_inv_def store_ok_def audit_demo_one)
  have same: "canonical_bytes (event_payload cfg (audit_demo_event True)) = canonical_bytes (event_payload cfg (audit_demo_event False))"
    for cfg by (simp only: canonical_bytes_iff audit_demo_same_payload)
  have "ev_hash (audit_demo_event True) = ev_hash (audit_demo_event False)"
    using trail by (simp add: trail_ok_def calculate_event_hash_def same)
  then have "map tidy [audit_demo_event True] = map tidy [audit_demo_event False]"
    using trail same
    by (intro verified_trails_agree [where cfg = audit_demo_config])
      (simp_all add: verify_integrity_valid verify_integrity_ok chain_head_def audit_demo_event collision_def canonical_bytes_iff)
  moreover have "audit_demo_event True \<noteq> audit_demo_event False"
    using audit_demo_event(1) [of True] audit_demo_event(1) [of False] by (auto simp: audit_demo_members_def)
  ultimately show ?thesis by simp
qed

theorem no_secrets_recorded_witness:
  "\<not> contains ''secret'' (normalized_key ''why'') \<and> json_depth (JObj (audit_demo_members True)) \<le> 8"
proof -
  have "audit_demo_members True \<in> projections (audit_demo_event True)"
    by (simp add: projections_def audit_demo_event)
  from no_secrets_recorded [OF audit_demo_hashes audit_demo_one_reachable [of True] _ this]
  show ?thesis by (auto simp: audit_demo_one audit_demo_members_def forbidden_key_parts_def)
qed

theorem cursor_roundtrip_witness: "decode_cursor (Some (encode_cursor 17)) = Inr 17"
  using cursor_roundtrip [of 17] by simp

theorem pages_cover_matches_witness:
  "follow_pages (list_events (tenant_query ''t1'') (events (audit_demo_one True))) None []
    = Some (Inr [audit_demo_event True])"
proof -
  have "check_query (tenant_query ''t1'') = Inr (None, None)" by code_simp
  from pages_cover_matches [OF audit_demo_hashes audit_demo_one_reachable [of True] this]
  show ?thesis by (simp add: audit_demo_one matches_def tenant_query_def is_or_any_def audit_demo_event)
qed

theorem store_always_verifies_witness:
  "checked_count (verify_integrity audit_demo_config (events (audit_demo_one True))) = 1
    \<and> hd (events audit_demo_two) = audit_demo_event True"
proof -
  have "runs (store_step audit_demo_config) (audit_demo_one True) [''t1''] audit_demo_two"
    using audit_demo_step by (rule runs_more) (rule runs_none)
  from store_always_verifies [OF audit_demo_hashes audit_demo_one_reachable this]
  show ?thesis by (cases "events audit_demo_two") (simp_all add: audit_demo_one)
qed

theorem durable_store_refines_witness:
  "fst (append_row audit_demo_config (audit_demo_draft ''e1'' False) audit_demo_row) = Inl AuditDuplicateEventError"
proof -
  obtain x rows' where call: "append_row audit_demo_config (audit_demo_draft ''e1'' False) audit_demo_row = (x, rows')"
    by (rule prod.exhaust)
  have "append_event audit_demo_config (audit_demo_draft ''e1'' False)
      (tenant_store (tenant_id (audit_demo_draft ''e1'' False)) audit_demo_row) = (x,
      tenant_store (tenant_id (audit_demo_draft ''e1'' False)) rows')"
    using durable_store_refines [OF audit_demo_hashes audit_demo_row_reachable call] by simp
  then have "x = Inl AuditDuplicateEventError"
    by (simp add: append_event_def audit_demo_valid tenant_store_def audit_demo_row audit_demo_event_def audit_demo_fields_def)
  then show ?thesis by (simp add: call)
qed

theorem durable_verification_ends_witness:
  "map_option (map_sum (\<lambda>_. ()) checked_count) (verify_rows audit_demo_config None (Some ''t1'') audit_demo_row) = Some (Inr 1)"
proof -
  have mine: "rows_of_tenant ''t1'' audit_demo_row = [audit_demo_event True]"
    by (simp add: audit_demo_row rows_of_tenant_def audit_demo_event)
  have "text_ok ''t1''" by code_simp
  from durable_verification_ends [OF audit_demo_hashes audit_demo_row_reachable this] show ?thesis by (simp add: mine)
qed

end
