(* ===== verification/Identity.thy ===== *)
theory Identity
  imports Authorization Security_Audit
begin

text \<open>
  Model of \<open>services/api/src/daon_user_api/identity.py\<close>, first part: the tables of
  \<open>SqliteIdentityRepository\<close>, transactions, the audit of the service, accounts with their mail
  tokens and passwords, the initial administrator, and the logins. A table is a dictionary from its
  primary key to its row; a violated primary key or unique index is \<open>PERSISTENCE_UNAVAILABLE\<close>;
  foreign keys cannot fail, since rows are inserted after those they name and no modelled operation
  deletes one. The deletion of an account by \<open>delete_user\<close> of \<open>admin_users.py\<close>, which takes sessions,
  token families and devices with it, is not modelled: what the library shows of rows that stay holds
  up to such a deletion.
  Columns that hold the text of a time have the time. The audit store is the one of
  \<open>Security_Audit\<close>, the tables of the authorization service lie in the same database.
\<close>

section \<open>Errors, constants and checks\<close>

datatype identity_error = IdentityError (error_code: string) int | PythonError string

definition persistence_unavailable :: identity_error where
  "persistence_unavailable = IdentityError ''PERSISTENCE_UNAVAILABLE'' 503"

definition invalid_input :: identity_error where
  "invalid_input = IdentityError ''INVALID_INPUT'' 400"

definition authentication_required :: identity_error where
  "authentication_required = IdentityError ''AUTHENTICATION_REQUIRED'' 401"

datatype client_kind = Web | Native

definition client_kind_value :: "client_kind \<Rightarrow> string" where
  "client_kind_value k = (case k of Web \<Rightarrow> ''web'' | Native \<Rightarrow> ''native'')"

datatype device_platform = WebPlatform | Windows | Android | Ios

definition seconds :: "int \<Rightarrow> int" where
  "seconds n = 1000000 * n"

definition mail_request_cooldown :: int where "mail_request_cooldown = seconds 60"
definition mail_request_window :: int where "mail_request_window = seconds 3600"
definition mail_request_max_per_window :: nat where "mail_request_max_per_window = 3"
definition oidc_transaction_ttl :: int where "oidc_transaction_ttl = seconds 300"
definition access_ttl :: int where "access_ttl = seconds 3600"
definition refresh_ttl :: int where "refresh_ttl = seconds 2592000"
definition max_step_up_ttl_seconds :: int where "max_step_up_ttl_seconds = 600"

text \<open>The last and the first instant a \<open>datetime\<close> can have.\<close>

definition web_session_expiry :: int where "web_session_expiry = 253402300799999999"
definition first_instant :: int where "first_instant = - 62135596800000000"

definition minimum_step_up_action_groups :: "string list" where
  "minimum_step_up_action_groups =
    [''external_transfer'', ''data_area_move'', ''external_share_or_download'',
     ''final_approval_or_knowledge_registration'', ''organization_security_or_connector_policy_change'',
     ''device_session_or_sync_key_revoke'', ''permanent_delete_or_restore_rollback'']"

definition initial_admin :: string where "initial_admin = ''admin''"

definition printable :: "string \<Rightarrow> bool" where
  "printable v \<longleftrightarrow> list_all (\<lambda>c. CHR 0x20 \<le> c) v"

definition opaque_text :: "string \<Rightarrow> bool" where
  "opaque_text v \<longleftrightarrow> v \<noteq> [] \<and> v = py_strip v \<and> length v \<le> 512 \<and> printable v"

definition checked_opaque :: "string \<Rightarrow> identity_error + string" where
  "checked_opaque v = (if opaque_text v then Inr v else Inl invalid_input)"

definition checked_text :: "string \<Rightarrow> identity_error + string" where
  "checked_text v = (if opaque_text v \<and> safe_id v then Inr v else Inl invalid_input)"

fun checked_texts :: "string list \<Rightarrow> identity_error + unit" where
  "checked_texts [] = Inr ()"
| "checked_texts (v # vs) = and_then (checked_text v) (\<lambda>_. checked_texts vs)"

text \<open>\<open>str.lower\<close> below code point 256.\<close>

definition lower_char :: "char \<Rightarrow> char" where
  "lower_char c =
    (if CHR ''A'' \<le> c \<and> c \<le> CHR ''Z'' \<or> CHR 0xC0 \<le> c \<and> c \<le> CHR 0xDE \<and> c \<noteq> CHR 0xD7
     then char_of (of_char c + 32 :: nat) else c)"

definition py_lower :: "string \<Rightarrow> string" where
  "py_lower = map lower_char"

text \<open>\<open>[^@\s]+@[^@\s]+\.[^@\s]+\<close>.\<close>

definition email_shape :: "string \<Rightarrow> bool" where
  "email_shape v =
    (let name = takeWhile (\<lambda>c. c \<noteq> CHR ''@'') v; domain = tl (dropWhile (\<lambda>c. c \<noteq> CHR ''@'') v) in
     \<not> list_ex py_space v \<and> name \<noteq> [] \<and> CHR ''@'' \<in> set v \<and> CHR ''@'' \<notin> set domain
     \<and> domain \<noteq> [] \<and> CHR ''.'' \<in> set (butlast (tl domain)))"

definition email_address :: "string \<Rightarrow> identity_error + string" where
  "email_address v =
    (if v \<noteq> py_strip v \<or> 320 < length v \<or> \<not> email_shape (py_lower v) then Inl invalid_input
     else Inr (py_lower v))"

definition password_ok :: "string \<Rightarrow> bool" where
  "password_ok v \<longleftrightarrow> 12 \<le> length v \<and> length v \<le> 256 \<and> printable v"

definition checked_password :: "string \<Rightarrow> identity_error + string" where
  "checked_password v = (if password_ok v then Inr v else Inl (IdentityError ''PASSWORD_POLICY_FAILED'' 400))"

section \<open>Tables\<close>

record user_row =
  u_issuer :: string
  u_subject :: string
  u_login_id :: "string option"
  u_email :: "string option"
  u_password_digest :: "string option"
  u_email_verified_at :: "int option"
  u_password_change_required :: bool
  u_state :: string

record mail_token_row =
  mt_user_id :: string
  mt_digest :: string
  mt_expires_at :: int
  mt_used_at :: "int option"
  mt_attempts :: int
  mt_created_at :: int

datatype device_state = Registered | Trusted | DeviceRevoked

record device_row =
  dev_tenant_id :: string
  dev_user_id :: string
  dev_platform :: device_platform
  dev_state :: device_state
  dev_last_seen_at :: int
  dev_created_at :: int
  dev_updated_at :: int

datatype session_state = Active | Revoked

record session_row =
  ses_tenant_id :: string
  ses_user_id :: string
  ses_device_id :: string
  ses_client_kind :: client_kind
  ses_access_digest :: string
  ses_access_expires_at :: int
  ses_state :: session_state
  ses_created_at :: int
  ses_updated_at :: int

record family_row =
  fam_session_id :: string
  fam_state :: session_state
  fam_created_at :: int
  fam_updated_at :: int

record refresh_row =
  ref_family_id :: string
  ref_digest :: string
  ref_expires_at :: int
  ref_used_at :: "int option"
  ref_created_at :: int

record oidc_row =
  ot_state_digest :: string
  ot_nonce_digest :: string
  ot_code_challenge :: string
  ot_issuer :: string
  ot_client_id :: string
  ot_audience :: string
  ot_redirect_uri :: string
  ot_client_kind :: client_kind
  ot_tenant_id :: string
  ot_expires_at :: int
  ot_used_at :: "int option"
  ot_created_at :: int

record step_up_row =
  su_digest :: string
  su_tenant_id :: string
  su_actor_id :: string
  su_session_id :: string
  su_device_id :: string
  su_action_group :: string
  su_target_id :: string
  su_policy_version :: string
  su_issued_at :: int
  su_expires_at :: int
  su_used_at :: "int option"

record step_up_replay_row =
  rp_fingerprint :: string
  rp_step_up_id :: string
  rp_digest :: string
  rp_action_group :: string
  rp_target_id :: string
  rp_policy_version :: string
  rp_key_id :: string
  rp_key_version :: int
  rp_issued_at :: int
  rp_expires_at :: int

record consumption_row =
  co_fingerprint :: string
  co_step_up_id :: string
  co_consumed_at :: int

text \<open>The outboxes: \<open>session_audit_outbox\<close>, \<open>session_tenant_switch_outbox\<close>, \<open>admin_audit_outbox\<close>.\<close>

record logout_row =
  lo_session_id :: string
  lo_tenant_id :: string
  lo_actor_id :: string
  lo_occurred_at :: int
  lo_trace_id :: string
  lo_policy_version :: string
  lo_delivered_at :: "int option"
  lo_created_at :: int

record switch_row =
  sw_prior_session_id :: string
  sw_new_session_id :: string
  sw_prior_tenant_id :: string
  sw_target_tenant_id :: string
  sw_actor_id :: string
  sw_occurred_at :: int
  sw_trace_id :: string
  sw_policy_version :: string
  sw_delivered_at :: "int option"
  sw_created_at :: int

record admin_row =
  ad_operation :: string
  ad_idempotency_scope :: "string option"
  ad_actor_id :: string
  ad_actor_type :: actor_type
  ad_tenant_id :: string
  ad_action :: string
  ad_target_type :: string
  ad_target_id :: string
  ad_occurred_at :: int
  ad_trace_id :: string
  ad_policy_version :: string
  ad_before_state :: "string option"
  ad_after_state :: "string option"
  ad_metadata :: "(string \<times> json) list"
  ad_delivered_at :: "int option"
  ad_created_at :: int

record identity_tables =
  tenants :: "string list"
  users :: "(string, user_row) dict"
  bootstrap_state :: "(string, int) dict"
  verification_tokens :: "(string, mail_token_row) dict"
  reset_tokens :: "(string, mail_token_row) dict"
  identity_memberships :: "(string \<times> string, string) dict"
  devices :: "(string, device_row) dict"
  sessions :: "(string, session_row) dict"
  refresh_families :: "(string, family_row) dict"
  refresh_tokens :: "(string, refresh_row) dict"
  logout_outbox :: "(string, logout_row) dict"
  switch_outbox :: "(string, switch_row) dict"
  admin_outbox :: "(string, admin_row) dict"
  oidc_transactions :: "(string, oidc_row) dict"
  step_up_actions :: "(string \<times> string, bool) dict"
  step_ups :: "(string, step_up_row) dict"
  step_up_replays :: "(string \<times> string \<times> string, step_up_replay_row) dict"
  step_up_consumptions :: "(string \<times> string \<times> string \<times> string, consumption_row) dict"

definition empty_identity :: identity_tables where
  "empty_identity = \<lparr>tenants = [], users = [], bootstrap_state = [], verification_tokens = [],
     reset_tokens = [], identity_memberships = [], devices = [], sessions = [], refresh_families = [],
     refresh_tokens = [], logout_outbox = [], switch_outbox = [], admin_outbox = [],
     oidc_transactions = [], step_up_actions = [], step_ups = [], step_up_replays = [],
     step_up_consumptions = []\<rparr>"

text \<open>An \<open>INSERT\<close>, where \<open>clash\<close> are the unique indexes beside the primary key; \<open>INSERT OR IGNORE\<close>.\<close>

definition insert_row :: "('v \<Rightarrow> 'v \<Rightarrow> bool) \<Rightarrow> 'k \<Rightarrow> 'v \<Rightarrow> ('k, 'v) dict \<Rightarrow> identity_error + ('k, 'v) dict" where
  "insert_row clash k v d =
    (if dict_get d k \<noteq> None \<or> list_ex (clash v) (dict_values d) then Inl persistence_unavailable
     else Inr (dict_set k v d))"

definition insert_or_ignore :: "'k \<Rightarrow> 'v \<Rightarrow> ('k, 'v) dict \<Rightarrow> ('k, 'v) dict" where
  "insert_or_ignore k v d = (if dict_get d k = None then dict_set k v d else d)"

definition no_index :: "'v \<Rightarrow> 'v \<Rightarrow> bool" where
  "no_index v w = False"

text \<open>\<open>UPDATE ... WHERE\<close> over a table, and the first row that a condition selects.\<close>

definition update_where :: "('k \<Rightarrow> 'v \<Rightarrow> bool) \<Rightarrow> ('v \<Rightarrow> 'v) \<Rightarrow> ('k, 'v) dict \<Rightarrow> ('k, 'v) dict" where
  "update_where P f d = map (\<lambda>(k, v). (k, if P k v then f v else v)) d"

definition select_row :: "('v \<Rightarrow> bool) \<Rightarrow> ('k, 'v) dict \<Rightarrow> ('k \<times> 'v) option" where
  "select_row P d = find (\<lambda>(k, v). P v) d"

definition user_clash :: "user_row \<Rightarrow> user_row \<Rightarrow> bool" where
  "user_clash v w \<longleftrightarrow> u_issuer v = u_issuer w \<and> u_subject v = u_subject w
    \<or> u_login_id v \<noteq> None \<and> u_login_id v = u_login_id w
    \<or> u_email v \<noteq> None \<and> u_email v = u_email w"

section \<open>The service and its state\<close>

record oidc_client_policy =
  op_issuer :: string
  op_client_id :: string
  op_audience :: string
  op_redirect_uris :: "string list"
  op_client_kind :: client_kind
  op_tenant_id :: string

text \<open>
  What the service is built with and what is outside the source: the n-th answer of the clock
  (\<^term>\<open>None\<close> where it is no UTC time), the n-th draw of \<open>secrets.token_urlsafe\<close> for a number of bytes,
  the bytes of SHA-256 and of HMAC-SHA-256, the n-th hash of a password and its verification by
  Argon2, whether the n-th mail is delivered, whether the audit store answers the n-th time and with
  which parameters it works, and whether the n-th look at the monotonic clock is past the deadline of a
  dispatch. The times stay more than thirty days before the year 10000.
\<close>

record identity_service =
  clock :: "nat \<Rightarrow> int option"
  token_urlsafe :: "nat \<Rightarrow> nat \<Rightarrow> string"
  sha256_bytes :: "string \<Rightarrow> nat list"
  hmac_bytes :: "string \<Rightarrow> string \<Rightarrow> nat list"
  hash_password :: "nat \<Rightarrow> string \<Rightarrow> string"
  verify_password :: "string \<Rightarrow> string \<Rightarrow> bool"
  mail_delivered :: "nat \<Rightarrow> bool"
  audit_answers :: "nat \<Rightarrow> bool"
  audit_parameters :: audit_config
  deadline_passed :: "nat \<Rightarrow> bool"
  oidc_policies :: "oidc_client_policy list"
  step_up_token_key :: string

text \<open>The state: the tables, those of the authorization service, the audit store, the mails sent.\<close>

record identity_state =
  tables :: identity_tables
  auth :: auth_tables
  trail :: audit_store
  mails :: "(string \<times> string) list"
  closed :: bool
  clock_reads :: nat
  draws :: nat
  audit_calls :: nat
  deadline_reads :: nat

type_synonym 'a call = "identity_state \<Rightarrow> (identity_state, identity_error, 'a) outcome"

definition empty_service :: "auth_tables \<Rightarrow> identity_state" where
  "empty_service a = \<lparr>tables = empty_identity, auth = a, trail = empty_store, mails = [], closed = False,
     clock_reads = 0, draws = 0, audit_calls = 0, deadline_reads = 0\<rparr>"

definition close_service :: "identity_state \<Rightarrow> identity_state" where
  "close_service s = s\<lparr>closed := True\<rparr>"

definition hex_of :: "nat list \<Rightarrow> string" where
  "hex_of bs = concat (map (\<lambda>b. hex_byte (char_of b)) bs)"

definition digest :: "identity_service \<Rightarrow> string \<Rightarrow> string" where
  "digest cfg v = hex_of (sha256_bytes cfg (utf8 v))"

definition code_challenge_of :: "identity_service \<Rightarrow> string \<Rightarrow> string" where
  "code_challenge_of cfg v = b64_encode (sha256_bytes cfg v)"

definition raising :: "identity_error \<Rightarrow> 'a call" where
  "raising e s = (Inl e, s)"

definition returning :: "'a \<Rightarrow> 'a call" where
  "returning x s = (Inr x, s)"

definition read_now :: "identity_service \<Rightarrow> int call" where
  "read_now cfg s =
    ((case clock cfg (clock_reads s) of None \<Rightarrow> Inl (IdentityError ''INVALID_TIME'' 400) | Some t \<Rightarrow> Inr t),
     s\<lparr>clock_reads := Suc (clock_reads s)\<rparr>)"

definition draw :: "identity_service \<Rightarrow> nat \<Rightarrow> string call" where
  "draw cfg n s = (Inr (token_urlsafe cfg n (draws s)), s\<lparr>draws := Suc (draws s)\<rparr>)"

abbreviation opaque :: "identity_service \<Rightarrow> string call" where
  "opaque cfg \<equiv> draw cfg 48"

definition fresh_id :: "identity_service \<Rightarrow> string \<Rightarrow> string call" where
  "fresh_id cfg prefix s = chain (draw cfg 18 s) (\<lambda>t. returning (prefix @ ''-'' @ t))"

definition hashed :: "identity_service \<Rightarrow> string \<Rightarrow> string call" where
  "hashed cfg v s = (Inr (hash_password cfg (draws s) v), s\<lparr>draws := Suc (draws s)\<rparr>)"

text \<open>A statement over the tables, and a query.\<close>

definition statement :: "(identity_tables \<Rightarrow> identity_error + identity_tables) \<Rightarrow> unit call" where
  "statement f s = (case f (tables s) of Inl e \<Rightarrow> (Inl e, s) | Inr db \<Rightarrow> (Inr (), s\<lparr>tables := db\<rparr>))"

abbreviation updating :: "(identity_tables \<Rightarrow> identity_tables) \<Rightarrow> unit call" where
  "updating f \<equiv> statement (\<lambda>db. Inr (f db))"

definition query :: "(identity_tables \<Rightarrow> 'a) \<Rightarrow> 'a call" where
  "query f s = (Inr (f (tables s)), s)"

definition transaction :: "'a call \<Rightarrow> 'a call" where
  "transaction body s =
    (if closed s then (Inl persistence_unavailable, s)
     else case body s of
         (Inl e, t) \<Rightarrow> (Inl e, t\<lparr>tables := tables s\<rparr>)
       | (Inr v, t) \<Rightarrow> (Inr v, t))"

section \<open>Audit and mail\<close>

text \<open>\<open>append\<close> of the audit store: the event, or \<^term>\<open>None\<close> where it cannot be reached, or what it raises.\<close>

definition store_append ::
  "identity_service \<Rightarrow> audit_event_draft \<Rightarrow> identity_state \<Rightarrow> (audit_error option + audit_event) \<times> identity_state" where
  "store_append cfg d s =
    (let s1 = s\<lparr>audit_calls := Suc (audit_calls s)\<rparr> in
     if \<not> audit_answers cfg (audit_calls s) then (Inl None, s1)
     else case append_event (audit_parameters cfg) d (trail s1) of
         (Inl e, tr) \<Rightarrow> (Inl (Some e), s1\<lparr>trail := tr\<rparr>)
       | (Inr x, tr) \<Rightarrow> (Inr x, s1\<lparr>trail := tr\<rparr>))"

definition details :: "(string \<times> audit_value) list \<Rightarrow> audit_value" where
  "details kvs = AMap (map (\<lambda>(k, v). (Some k, v)) kvs)"

abbreviation reason :: "string \<Rightarrow> (string \<times> audit_value) list" where
  "reason c \<equiv> [(''reason_code'', AText c)]"

record audit_entry =
  en_action :: string
  en_outcome :: audit_outcome
  en_tenant_id :: string
  en_actor_id :: string
  en_target_type :: string
  en_target_id :: string
  en_metadata :: "(string \<times> audit_value) list"

definition new_draft :: "string \<Rightarrow> int \<Rightarrow> string \<Rightarrow> string \<Rightarrow> actor_type \<Rightarrow> audit_entry \<Rightarrow> audit_event_draft" where
  "new_draft i t trace pv kind e =
    \<lparr>event_id = i, occurred_at = Aware 0 t, actor_id = en_actor_id e, actor_type = kind,
     tenant_id = en_tenant_id e, workspace_id = None, action = en_action e,
     target_type = en_target_type e, target_id = en_target_id e, outcome = en_outcome e,
     trace_id = trace, policy_version = pv, before = ANone, after = ANone,
     metadata = details (en_metadata e)\<rparr>"

definition anonymous :: string where "anonymous = ''anonymous''"

definition audit_write_failed :: identity_error where
  "audit_write_failed = IdentityError ''AUDIT_WRITE_FAILED'' 503"

definition audit :: "identity_service \<Rightarrow> string \<Rightarrow> string \<Rightarrow> audit_entry \<Rightarrow> unit call" where
  "audit cfg trace pv e s =
    chain (fresh_id cfg ''audit'' s) (\<lambda>i s.
    chain (read_now cfg s) (\<lambda>t s.
    attempt (checked_text trace) s (\<lambda>_.
    attempt (checked_text pv) s (\<lambda>_.
    case store_append cfg (new_draft i t trace pv
        (if en_actor_id e \<noteq> anonymous then UserActor else SystemActor) e) s of
      (Inl _, s) \<Rightarrow> (Inl audit_write_failed, s)
    | (Inr _, s) \<Rightarrow> (Inr (), s)))))"

text \<open>An entry about an actor, and one about nobody known.\<close>

definition entry :: "string \<Rightarrow> audit_outcome \<Rightarrow> string \<Rightarrow> string \<Rightarrow> string \<Rightarrow> string
    \<Rightarrow> (string \<times> audit_value) list \<Rightarrow> audit_entry" where
  "entry act out tenant actor ttype tid md = \<lparr>en_action = act, en_outcome = out, en_tenant_id = tenant,
     en_actor_id = actor, en_target_type = ttype, en_target_id = tid, en_metadata = md\<rparr>"

text \<open>An audited refusal: the denial is written, then the error is raised.\<close>

definition refuse :: "identity_service \<Rightarrow> string \<Rightarrow> string \<Rightarrow> audit_entry \<Rightarrow> identity_error \<Rightarrow> 'a call" where
  "refuse cfg trace pv e err s = chain (audit cfg trace pv e s) (\<lambda>_. raising err)"

definition send_mail :: "identity_service \<Rightarrow> string option \<Rightarrow> string \<Rightarrow> unit call" where
  "send_mail cfg recipient token s =
    (if mail_delivered cfg (length (mails s))
     then (Inr (), s\<lparr>mails := mails s @ [(case recipient of None \<Rightarrow> ''None'' | Some a \<Rightarrow> a, token)]\<rparr>)
     else (Inl (IdentityError ''EMAIL_DELIVERY_UNAVAILABLE'' 503), s))"

section \<open>Tenants and step-up actions\<close>

definition ensure_tenant :: "string \<Rightarrow> identity_tables \<Rightarrow> identity_tables" where
  "ensure_tenant t db = (if t \<in> set (tenants db) then db else db\<lparr>tenants := tenants db @ [t]\<rparr>)"

definition seed_minimum_step_up_actions :: "string \<Rightarrow> identity_tables \<Rightarrow> identity_tables" where
  "seed_minimum_step_up_actions t db =
    db\<lparr>step_up_actions := foldl (\<lambda>d a. insert_or_ignore (t, a) True d) (step_up_actions db) minimum_step_up_action_groups\<rparr>"

definition add_tenant_membership :: "string \<Rightarrow> string \<Rightarrow> string \<Rightarrow> unit call" where
  "add_tenant_membership t u r s =
    attempt (checked_texts [t, u, r]) s (\<lambda>_. transaction (\<lambda>s.
      if dict_get (users (tables s)) u = None then (Inl (IdentityError ''USER_NOT_FOUND'' 404), s)
      else updating (\<lambda>db. seed_minimum_step_up_actions t
        ((ensure_tenant t db)\<lparr>identity_memberships := dict_set (t, u) r (identity_memberships db)\<rparr>)) s) s)"

definition required_step_up_actions :: "string \<Rightarrow> string list call" where
  "required_step_up_actions t s =
    attempt (checked_text t) s (\<lambda>_. transaction (\<lambda>s.
      chain (updating (ensure_tenant t) s) (\<lambda>_.
        query (\<lambda>db. map (\<lambda>((_, a), _). a) (filter (\<lambda>((u, _), _). u = t) (step_up_actions db))))) s)"

definition add_step_up_action :: "string \<Rightarrow> string \<Rightarrow> unit call" where
  "add_step_up_action t a s =
    attempt (checked_texts [t, a]) s (\<lambda>_. transaction (updating (\<lambda>db.
      (ensure_tenant t db)\<lparr>step_up_actions := insert_or_ignore (t, a) False (step_up_actions db)\<rparr>)) s)"

definition remove_step_up_action :: "string \<Rightarrow> string \<Rightarrow> unit call" where
  "remove_step_up_action t a s =
    attempt (checked_texts [t, a]) s (\<lambda>_. raising (IdentityError ''STEP_UP_ACTION_REMOVE_DENIED'' 403) s)"

definition requires_step_up :: "string \<Rightarrow> string \<Rightarrow> bool call" where
  "requires_step_up t a s =
    attempt (checked_text a) s (\<lambda>_.
    chain (required_step_up_actions t s) (\<lambda>required. returning (a \<in> set required)))"

definition state_of_device :: "string \<Rightarrow> device_state option call" where
  "state_of_device i s =
    (if closed s then (Inl persistence_unavailable, s)
     else attempt (checked_text i) s (\<lambda>_. query (\<lambda>db. map_option dev_state (dict_get (devices db) i)) s))"

definition device_last_seen :: "string \<Rightarrow> int option call" where
  "device_last_seen i s =
    (if closed s then (Inl persistence_unavailable, s)
     else attempt (checked_text i) s (\<lambda>_. query (\<lambda>db. map_option dev_last_seen_at (dict_get (devices db) i)) s))"

section \<open>Accounts\<close>

definition mail_token_clash :: "mail_token_row \<Rightarrow> mail_token_row \<Rightarrow> bool" where
  "mail_token_clash v w \<longleftrightarrow> mt_digest v = mt_digest w"

datatype mail_token_table = VerificationTokens | ResetTokens

definition mail_tokens :: "mail_token_table \<Rightarrow> identity_tables \<Rightarrow> (string, mail_token_row) dict" where
  "mail_tokens k db = (case k of VerificationTokens \<Rightarrow> verification_tokens db | ResetTokens \<Rightarrow> reset_tokens db)"

definition put_mail_tokens :: "mail_token_table \<Rightarrow> (string, mail_token_row) dict \<Rightarrow> identity_tables \<Rightarrow> identity_tables" where
  "put_mail_tokens k d db = (case k of VerificationTokens \<Rightarrow> db\<lparr>verification_tokens := d\<rparr>
     | ResetTokens \<Rightarrow> db\<lparr>reset_tokens := d\<rparr>)"

definition issue_token :: "identity_service \<Rightarrow> mail_token_table \<Rightarrow> string \<Rightarrow> int \<Rightarrow> int \<Rightarrow> string call" where
  "issue_token cfg k u now ttl s =
    chain (opaque cfg s) (\<lambda>token s.
    chain (fresh_id cfg ''tok'' s) (\<lambda>i s.
    chain (statement (\<lambda>db. and_then (insert_row mail_token_clash i
        \<lparr>mt_user_id = u, mt_digest = digest cfg token, mt_expires_at = now + ttl, mt_used_at = None,
         mt_attempts = 0, mt_created_at = now\<rparr> (mail_tokens k db)) (\<lambda>d. Inr (put_mail_tokens k d db))) s) (\<lambda>_.
    returning token)))"

definition spend_mail_token :: "int \<Rightarrow> mail_token_row \<Rightarrow> mail_token_row" where
  "spend_mail_token now r = r\<lparr>mt_used_at := Some now, mt_attempts := mt_attempts r + 1\<rparr>"

text \<open>The token of a digest, where it is neither used nor expired.\<close>

definition usable_mail_token :: "identity_service \<Rightarrow> mail_token_table \<Rightarrow> string \<Rightarrow> int \<Rightarrow> identity_tables
    \<Rightarrow> (string \<times> mail_token_row) option" where
  "usable_mail_token cfg k token now db =
    (case select_row (\<lambda>r. mt_digest r = digest cfg token) (mail_tokens k db) of
       None \<Rightarrow> None
     | Some (i, r) \<Rightarrow> if mt_used_at r \<noteq> None \<or> mt_expires_at r \<le> now then None else Some (i, r))"

definition enforce_mail_rate_limit :: "mail_token_table \<Rightarrow> string \<Rightarrow> int \<Rightarrow> identity_tables \<Rightarrow> identity_error + unit" where
  "enforce_mail_rate_limit k u now db =
    (let recent = filter (\<lambda>t. t > now - mail_request_window)
           (map mt_created_at (filter (\<lambda>r. mt_user_id r = u) (dict_values (mail_tokens k db)))) in
     if recent \<noteq> [] \<and> now - last (sort recent) < mail_request_cooldown
        \<or> mail_request_max_per_window \<le> length recent
     then Inl (IdentityError ''RATE_LIMITED'' 429) else Inr ())"

text \<open>The user that logs in or has the mail address under a name.\<close>

definition known_as :: "string \<Rightarrow> user_row \<Rightarrow> bool" where
  "known_as v r \<longleftrightarrow> u_login_id r = Some v \<or> u_email r = Some v"

definition local_user :: "string \<Rightarrow> string option \<Rightarrow> string option \<Rightarrow> string \<Rightarrow> user_row" where
  "local_user login email pw st =
    \<lparr>u_issuer = ''local'', u_subject = login, u_login_id = Some login, u_email = email, u_password_digest = pw,
     u_email_verified_at = None, u_password_change_required = False, u_state = st\<rparr>"

definition insert_user :: "string \<Rightarrow> user_row \<Rightarrow> identity_tables \<Rightarrow> identity_error + identity_tables" where
  "insert_user i r db = and_then (insert_row user_clash i r (users db)) (\<lambda>d. Inr (db\<lparr>users := d\<rparr>))"

definition insert_membership :: "string \<Rightarrow> string \<Rightarrow> string \<Rightarrow> identity_tables \<Rightarrow> identity_error + identity_tables" where
  "insert_membership t u r db =
    and_then (insert_row no_index (t, u) r (identity_memberships db)) (\<lambda>d. Inr (db\<lparr>identity_memberships := d\<rparr>))"

definition signup :: "identity_service \<Rightarrow> string \<Rightarrow> string \<Rightarrow> string \<Rightarrow> string \<Rightarrow> string \<Rightarrow> unit call" where
  "signup cfg login_id email password trace pv s =
    attempt (checked_text login_id) s (\<lambda>_.
    attempt (email_address email) s (\<lambda>address.
    attempt (checked_password password) s (\<lambda>secret.
    chain (hashed cfg secret s) (\<lambda>pw s.
    attempt (checked_texts [trace, pv]) s (\<lambda>_.
    chain (read_now cfg s) (\<lambda>now s.
    chain (fresh_id cfg ''usr'' s) (\<lambda>u s.
    chain (fresh_id cfg ''tenant'' s) (\<lambda>t.
    transaction (\<lambda>s.
      let login = py_lower login_id in
      if select_row (\<lambda>r. u_login_id r = Some login \<or> u_email r = Some address) (users (tables s)) \<noteq> None
      then (Inr (), s)
      else
        chain (statement (insert_user u (local_user login (Some address) (Some pw) ''pending_email'')) s) (\<lambda>_ s.
        chain (updating (ensure_tenant t) s) (\<lambda>_ s.
        chain (statement (insert_membership t u ''personal_owner'') s) (\<lambda>_ s.
        chain (updating (seed_minimum_step_up_actions t) s) (\<lambda>_ s.
        chain (issue_token cfg VerificationTokens u now (seconds 86400) s) (\<lambda>token s.
        chain (send_mail cfg (Some address) token s) (\<lambda>_.
        audit cfg trace pv (entry ''identity.signup.accepted'' Succeeded t u ''user'' u []))))))))))))))))"

definition verify_email :: "identity_service \<Rightarrow> string \<Rightarrow> string \<Rightarrow> string \<Rightarrow> unit call" where
  "verify_email cfg token trace pv s =
    attempt (checked_opaque token) s (\<lambda>_.
    attempt (checked_texts [trace, pv]) s (\<lambda>_.
    chain (read_now cfg s) (\<lambda>now.
    transaction (\<lambda>s.
      case usable_mail_token cfg VerificationTokens token now (tables s) of
        None \<Rightarrow> (Inl (IdentityError ''EMAIL_TOKEN_INVALID'' 400), s)
      | Some (i, r) \<Rightarrow>
          chain (updating (\<lambda>db. db\<lparr>verification_tokens := dict_set i (spend_mail_token now r) (verification_tokens db),
            users := update_where (\<lambda>u _. u = mt_user_id r)
              (\<lambda>x. x\<lparr>u_email_verified_at := Some now, u_state := ''active''\<rparr>) (users db)\<rparr>) s) (\<lambda>_.
          audit cfg trace pv (entry ''identity.email_verified'' Succeeded ''identity-public'' (mt_user_id r)
            ''user'' (mt_user_id r) []))))))"

definition resend_verification :: "identity_service \<Rightarrow> string \<Rightarrow> string \<Rightarrow> string \<Rightarrow> unit call" where
  "resend_verification cfg identifier trace pv s =
    attempt (checked_texts [identifier, trace, pv]) s (\<lambda>_.
    chain (read_now cfg s) (\<lambda>now.
    transaction (\<lambda>s.
      case select_row (known_as (py_lower identifier)) (users (tables s)) of
        None \<Rightarrow> (Inr (), s)
      | Some (u, r) \<Rightarrow>
          if u_state r \<noteq> ''pending_email'' then (Inr (), s)
          else
            attempt (enforce_mail_rate_limit VerificationTokens u now (tables s)) s (\<lambda>_.
            chain (issue_token cfg VerificationTokens u now (seconds 86400) s) (\<lambda>token.
            send_mail cfg (u_email r) token)))))"

section \<open>Revocation\<close>

text \<open>\<open>UPDATE sessions SET state='revoked'\<close> where a condition holds, and of the refresh families of these sessions.\<close>

definition revoke_where :: "(string \<Rightarrow> session_row \<Rightarrow> bool) \<Rightarrow> int \<Rightarrow> identity_tables \<Rightarrow> identity_tables" where
  "revoke_where P now db =
    db\<lparr>sessions := update_where P (\<lambda>r. r\<lparr>ses_state := Revoked, ses_updated_at := now\<rparr>) (sessions db),
       refresh_families := update_where
         (\<lambda>_ f. case dict_get (sessions db) (fam_session_id f) of None \<Rightarrow> False | Some r \<Rightarrow> P (fam_session_id f) r)
         (\<lambda>f. f\<lparr>fam_state := Revoked, fam_updated_at := now\<rparr>) (refresh_families db)\<rparr>"

definition revoke_user_sessions :: "string \<Rightarrow> int \<Rightarrow> identity_tables \<Rightarrow> identity_tables" where
  "revoke_user_sessions u = revoke_where (\<lambda>_ r. ses_user_id r = u)"

section \<open>Passwords\<close>

definition set_user :: "string \<Rightarrow> (user_row \<Rightarrow> user_row) \<Rightarrow> identity_tables \<Rightarrow> identity_tables" where
  "set_user u f db = db\<lparr>users := update_where (\<lambda>i _. i = u) f (users db)\<rparr>"

text \<open>Without the hook through which an administrator asks for a reset.\<close>

definition request_password_reset :: "identity_service \<Rightarrow> string \<Rightarrow> bool \<Rightarrow> string \<Rightarrow> string \<Rightarrow> unit call" where
  "request_password_reset cfg identifier revoke trace pv s =
    attempt (checked_texts [identifier, trace, pv]) s (\<lambda>_.
    chain (read_now cfg s) (\<lambda>now.
    transaction (\<lambda>s.
      case select_row (\<lambda>r. known_as (py_lower identifier) r \<and> u_issuer r = ''local'' \<and> u_email_verified_at r \<noteq> None)
          (users (tables s)) of
        None \<Rightarrow> (Inr (), s)
      | Some (u, r) \<Rightarrow>
          attempt (enforce_mail_rate_limit ResetTokens u now (tables s)) s (\<lambda>_.
          chain (issue_token cfg ResetTokens u now (seconds 1800) s) (\<lambda>token s.
          chain (updating (\<lambda>db. if revoke then revoke_user_sessions u now db else db) s) (\<lambda>_.
          send_mail cfg (u_email r) token))))))"

definition confirm_password_reset :: "identity_service \<Rightarrow> string \<Rightarrow> string \<Rightarrow> string \<Rightarrow> string \<Rightarrow> unit call" where
  "confirm_password_reset cfg token new_password trace pv s =
    attempt (checked_opaque token) s (\<lambda>_.
    attempt (checked_password new_password) s (\<lambda>secret.
    attempt (checked_texts [trace, pv]) s (\<lambda>_.
    chain (read_now cfg s) (\<lambda>now.
    transaction (\<lambda>s.
      case usable_mail_token cfg ResetTokens token now (tables s) of
        None \<Rightarrow> (Inl (IdentityError ''PASSWORD_RESET_TOKEN_INVALID'' 400), s)
      | Some (i, r) \<Rightarrow>
          chain (hashed cfg secret s) (\<lambda>pw.
          updating (\<lambda>db. revoke_user_sessions (mt_user_id r) now
            ((set_user (mt_user_id r) (\<lambda>u. u\<lparr>u_password_digest := Some pw\<rparr>) db)
              \<lparr>reset_tokens := dict_set i (spend_mail_token now r) (reset_tokens db)\<rparr>))))))))"

section \<open>Sessions\<close>

record session_credentials =
  cr_access_token :: string
  cr_refresh_token :: "string option"
  cr_user_id :: string
  cr_session_id :: string
  cr_device_id :: string
  cr_tenant_id :: string
  cr_client_kind :: client_kind
  cr_delivery :: string

definition web_delivery :: string where "web_delivery = ''web_session_cookie_boundary_m4_05''"
definition native_delivery :: string where "native_delivery = ''native_opaque_refresh_rotation''"

definition session_clash :: "session_row \<Rightarrow> session_row \<Rightarrow> bool" where
  "session_clash v w \<longleftrightarrow> ses_access_digest v = ses_access_digest w"

definition refresh_clash :: "refresh_row \<Rightarrow> refresh_row \<Rightarrow> bool" where
  "refresh_clash v w \<longleftrightarrow> ref_digest v = ref_digest w"

text \<open>A new device and a new session on it; a new refresh family of a session with its first token.\<close>

definition insert_session :: "string \<Rightarrow> string \<Rightarrow> device_platform \<Rightarrow> string \<Rightarrow> string \<Rightarrow> client_kind
    \<Rightarrow> string \<Rightarrow> int \<Rightarrow> int \<Rightarrow> identity_tables \<Rightarrow> identity_error + identity_tables" where
  "insert_session t u platform d i kind access expires now db =
    and_then (insert_row no_index d \<lparr>dev_tenant_id = t, dev_user_id = u, dev_platform = platform,
      dev_state = Registered, dev_last_seen_at = now, dev_created_at = now, dev_updated_at = now\<rparr> (devices db)) (\<lambda>ds.
    and_then (insert_row session_clash i \<lparr>ses_tenant_id = t, ses_user_id = u, ses_device_id = d,
      ses_client_kind = kind, ses_access_digest = access, ses_access_expires_at = expires,
      ses_state = Active, ses_created_at = now, ses_updated_at = now\<rparr> (sessions db)) (\<lambda>ss.
    Inr (db\<lparr>devices := ds, sessions := ss\<rparr>)))"

definition insert_refresh :: "string \<Rightarrow> string \<Rightarrow> string \<Rightarrow> int \<Rightarrow> identity_tables \<Rightarrow> identity_error + identity_tables" where
  "insert_refresh i f dig now db =
    and_then (insert_row refresh_clash i \<lparr>ref_family_id = f, ref_digest = dig, ref_expires_at = now + refresh_ttl,
      ref_used_at = None, ref_created_at = now\<rparr> (refresh_tokens db)) (\<lambda>rs. Inr (db\<lparr>refresh_tokens := rs\<rparr>))"

definition insert_family :: "string \<Rightarrow> string \<Rightarrow> int \<Rightarrow> identity_tables \<Rightarrow> identity_error + identity_tables" where
  "insert_family f i now db =
    and_then (insert_row no_index f \<lparr>fam_session_id = i, fam_state = Active, fam_created_at = now,
      fam_updated_at = now\<rparr> (refresh_families db)) (\<lambda>fs. Inr (db\<lparr>refresh_families := fs\<rparr>))"

text \<open>Where notifications are off, or the tables are those of SQLite, a login is audited after its body.\<close>

definition login_scope :: "identity_service \<Rightarrow> string \<Rightarrow> string \<Rightarrow> string \<Rightarrow> string \<Rightarrow> string
    \<Rightarrow> (string \<times> audit_value) list \<Rightarrow> unit call \<Rightarrow> unit call" where
  "login_scope cfg trace pv t u i md body s =
    chain (body s) (\<lambda>_. audit cfg trace pv (entry ''identity.login.succeeded'' Succeeded t u ''session'' i md))"

text \<open>What a login writes: device, session, and for a native client the family with its first token.\<close>

definition open_session :: "identity_service \<Rightarrow> string \<Rightarrow> string \<Rightarrow> device_platform \<Rightarrow> string \<Rightarrow> string \<Rightarrow> client_kind
    \<Rightarrow> string \<Rightarrow> int \<Rightarrow> int \<Rightarrow> (string \<times> string) option \<Rightarrow> unit call" where
  "open_session cfg t u platform d i kind access expires now fam s =
    chain (statement (insert_session t u platform d i kind (digest cfg access) expires now) s) (\<lambda>_ s.
    case fam of
      None \<Rightarrow> (Inr (), s)
    | Some (f, refresh) \<Rightarrow>
        chain (statement (insert_family f i now) s) (\<lambda>_ s.
        chain (fresh_id cfg ''ref'' s) (\<lambda>r.
        statement (insert_refresh r f (digest cfg refresh) now))))"

section \<open>Local logins\<close>

text \<open>The tenant of a login: an own one before others, by name.\<close>

definition login_tenant :: "string \<Rightarrow> identity_tables \<Rightarrow> string option" where
  "login_tenant u db =
    (let mine = filter (\<lambda>((t, v), r). v = u) (identity_memberships db);
         own = sort (map (\<lambda>((t, v), r). t) (filter (\<lambda>(k, r). r = ''personal_owner'') mine));
         others = sort (map (\<lambda>((t, v), r). t) (filter (\<lambda>(k, r). r \<noteq> ''personal_owner'') mine))
     in case own @ others of [] \<Rightarrow> None | t # _ \<Rightarrow> Some t)"

definition local_login_row :: "string \<Rightarrow> identity_tables \<Rightarrow> (string \<times> user_row) option" where
  "local_login_row login db = select_row (\<lambda>r. u_login_id r = Some login \<and> u_issuer r = ''local'') (users db)"

definition password_matches :: "identity_service \<Rightarrow> user_row \<Rightarrow> string \<Rightarrow> bool" where
  "password_matches cfg r secret \<longleftrightarrow>
    (case u_password_digest r of None \<Rightarrow> False | Some h \<Rightarrow> verify_password cfg h secret)"

definition local_login :: "identity_service \<Rightarrow> string \<Rightarrow> string \<Rightarrow> device_platform \<Rightarrow> string \<Rightarrow> string
    \<Rightarrow> session_credentials call" where
  "local_login cfg login_id password platform trace pv s =
    attempt (checked_text login_id) s (\<lambda>_.
    attempt (if length password \<le> 256 \<and> printable password then Inr password
      else Inl (IdentityError ''PASSWORD_POLICY_FAILED'' 400)) s (\<lambda>secret.
    attempt (checked_texts [trace, pv]) s (\<lambda>_.
    chain (read_now cfg s) (\<lambda>now.
    transaction (\<lambda>s.
      let row = local_login_row (py_lower login_id) (tables s);
          initial_login = (case row of None \<Rightarrow> False
            | Some (u, r) \<Rightarrow> u = initial_admin \<and> u_password_change_required r \<and> secret = initial_admin)
      in attempt (if initial_login then Inr secret else checked_password secret) s (\<lambda>_.
      case row of None \<Rightarrow> (Inl authentication_required, s)
      | Some (u, r) \<Rightarrow>
          if u_email_verified_at r = None \<and> u \<noteq> initial_admin \<or> u_state r \<noteq> ''active''
             \<or> \<not> password_matches cfg r secret
          then (Inl authentication_required, s)
          else (case login_tenant u (tables s) of None \<Rightarrow> (Inl authentication_required, s)
            | Some t \<Rightarrow>
                chain (fresh_id cfg ''dev'' s) (\<lambda>d s.
                chain (fresh_id cfg ''ses'' s) (\<lambda>i s.
                chain (opaque cfg s) (\<lambda>access s.
                chain (login_scope cfg trace pv t u i
                  [(''client_type'', AText ''web''), (''auth_method'', AText ''local'')]
                  (open_session cfg t u platform d i Web access web_session_expiry now None) s) (\<lambda>_.
                returning \<lparr>cr_access_token = access, cr_refresh_token = None, cr_user_id = u, cr_session_id = i,
                  cr_device_id = d, cr_tenant_id = t, cr_client_kind = Web, cr_delivery = web_delivery\<rparr>)))))))))))"

definition local_native_login :: "identity_service \<Rightarrow> string \<Rightarrow> string \<Rightarrow> string \<Rightarrow> string \<Rightarrow> session_credentials call" where
  "local_native_login cfg login_id password trace pv s =
    attempt (checked_text login_id) s (\<lambda>_.
    attempt (checked_password password) s (\<lambda>secret.
    attempt (checked_texts [trace, pv]) s (\<lambda>_.
    chain (read_now cfg s) (\<lambda>now.
    transaction (\<lambda>s.
      case local_login_row (py_lower login_id) (tables s) of None \<Rightarrow> (Inl authentication_required, s)
      | Some (u, r) \<Rightarrow>
          if u_email_verified_at r = None \<or> u_state r \<noteq> ''active'' \<or> \<not> password_matches cfg r secret
          then (Inl authentication_required, s)
          else (case login_tenant u (tables s) of None \<Rightarrow> (Inl authentication_required, s)
            | Some t \<Rightarrow>
                chain (fresh_id cfg ''dev'' s) (\<lambda>d s.
                chain (fresh_id cfg ''ses'' s) (\<lambda>i s.
                chain (opaque cfg s) (\<lambda>access s.
                chain (opaque cfg s) (\<lambda>refresh s.
                chain (fresh_id cfg ''fam'' s) (\<lambda>f s.
                chain (login_scope cfg trace pv t u i
                  [(''client_type'', AText ''native''), (''auth_method'', AText ''local'')]
                  (open_session cfg t u Windows d i Native access (now + access_ttl) now (Some (f, refresh))) s) (\<lambda>_.
                returning \<lparr>cr_access_token = access, cr_refresh_token = Some refresh, cr_user_id = u, cr_session_id = i,
                  cr_device_id = d, cr_tenant_id = t, cr_client_kind = Native, cr_delivery = native_delivery\<rparr>))))))))))))"

section \<open>Logins through an OIDC provider\<close>

record oidc_login_start =
  ol_transaction_id :: string
  ol_state :: string
  ol_nonce :: string
  ol_code_verifier :: string
  ol_code_challenge :: string
  ol_expires_at :: int

text \<open>The answer of the provider: it raises, it gives something else, or it gives verified claims.\<close>

record oidc_claims =
  verification_complete :: bool
  cl_issuer :: string
  cl_audience :: string
  cl_subject :: string
  cl_nonce :: string
  cl_expires_at :: "int option"

datatype provider_answer = ProviderRaises | NoClaims | Claims oidc_claims

record exchange_request =
  ex_authorization_code :: string
  ex_code_verifier :: string
  ex_code_challenge :: string
  ex_issuer :: string
  ex_audience :: string
  ex_nonce_digest :: string
  ex_now :: int

definition find_policy :: "identity_service \<Rightarrow> string \<Rightarrow> string \<Rightarrow> string \<Rightarrow> string \<Rightarrow> client_kind \<Rightarrow> string
    \<Rightarrow> identity_error + oidc_client_policy" where
  "find_policy cfg issuer client audience redirect kind t =
    (case find (\<lambda>p. op_issuer p = issuer \<and> op_client_id p = client \<and> op_audience p = audience
        \<and> redirect \<in> set (op_redirect_uris p) \<and> op_client_kind p = kind \<and> op_tenant_id p = t) (oidc_policies cfg) of
       None \<Rightarrow> Inl (IdentityError ''OIDC_POLICY_DENIED'' 403) | Some p \<Rightarrow> Inr p)"

definition oidc_clash :: "oidc_row \<Rightarrow> oidc_row \<Rightarrow> bool" where
  "oidc_clash v w \<longleftrightarrow> ot_state_digest v = ot_state_digest w"

fun checked_opaques :: "string list \<Rightarrow> identity_error + unit" where
  "checked_opaques [] = Inr ()"
| "checked_opaques (v # vs) = and_then (checked_opaque v) (\<lambda>_. checked_opaques vs)"

definition begin_oidc_login :: "identity_service \<Rightarrow> string \<Rightarrow> string \<Rightarrow> string \<Rightarrow> string \<Rightarrow> client_kind
    \<Rightarrow> string \<Rightarrow> string \<Rightarrow> string \<Rightarrow> oidc_login_start call" where
  "begin_oidc_login cfg issuer client audience redirect kind t trace pv s =
    attempt (checked_opaques [issuer, redirect]) s (\<lambda>_.
    attempt (checked_texts [client, audience, t, trace, pv]) s (\<lambda>_.
    attempt (find_policy cfg issuer client audience redirect kind t) s (\<lambda>p.
    chain (read_now cfg s) (\<lambda>now s.
    chain (opaque cfg s) (\<lambda>st s.
    chain (opaque cfg s) (\<lambda>nonce s.
    chain (opaque cfg s) (\<lambda>verifier s.
    chain (fresh_id cfg ''oidc'' s) (\<lambda>i.
    transaction (\<lambda>s.
      chain (updating (ensure_tenant t) s) (\<lambda>_ s.
      chain (statement (\<lambda>db. and_then (insert_row oidc_clash i
        \<lparr>ot_state_digest = digest cfg st, ot_nonce_digest = digest cfg nonce,
         ot_code_challenge = code_challenge_of cfg verifier, ot_issuer = op_issuer p, ot_client_id = op_client_id p,
         ot_audience = op_audience p, ot_redirect_uri = redirect, ot_client_kind = kind, ot_tenant_id = t,
         ot_expires_at = now + oidc_transaction_ttl, ot_used_at = None, ot_created_at = now\<rparr>
        (oidc_transactions db)) (\<lambda>d. Inr (db\<lparr>oidc_transactions := d\<rparr>))) s) (\<lambda>_ s.
      chain (audit cfg trace pv (entry ''identity.login.started'' Succeeded t anonymous ''oidc_transaction'' i
        [(''client_type'', AText (client_kind_value kind))]) s) (\<lambda>_.
      returning \<lparr>ol_transaction_id = i, ol_state = st, ol_nonce = nonce, ol_code_verifier = verifier,
        ol_code_challenge = code_challenge_of cfg verifier, ol_expires_at = now + oidc_transaction_ttl\<rparr>))))))))))))"

definition ascii_text :: "string \<Rightarrow> bool" where
  "ascii_text v \<longleftrightarrow> list_all (\<lambda>c. c < CHR 0x80) v"

text \<open>The transaction of a state that is not used.\<close>

definition open_transaction :: "identity_service \<Rightarrow> string \<Rightarrow> identity_tables \<Rightarrow> (string \<times> oidc_row) option" where
  "open_transaction cfg st db =
    (case select_row (\<lambda>r. ot_state_digest r = digest cfg st) (oidc_transactions db) of
       None \<Rightarrow> None | Some (i, r) \<Rightarrow> if ot_used_at r \<noteq> None then None else Some (i, r))"

text \<open>The checks of a login in progress: the code to refuse with, or the claims.\<close>

definition login_denial :: "oidc_row \<Rightarrow> string \<Rightarrow> string \<Rightarrow> int \<Rightarrow> (string \<times> int) option" where
  "login_denial r client redirect now =
    (if ot_expires_at r \<le> now then Some (''OIDC_TRANSACTION_EXPIRED'', 401)
     else if client \<noteq> ot_client_id r \<or> redirect \<noteq> ot_redirect_uri r then Some (''OIDC_POLICY_DENIED'', 403)
     else None)"

definition claims_fit :: "identity_service \<Rightarrow> oidc_row \<Rightarrow> oidc_claims \<Rightarrow> bool" where
  "claims_fit cfg r c \<longleftrightarrow> verification_complete c \<and> cl_issuer c = ot_issuer r \<and> cl_audience c = ot_audience r
    \<and> digest cfg (cl_nonce c) = ot_nonce_digest r"

text \<open>The user of an issuer and a subject, who is made where there is none.\<close>

definition user_of_claims :: "identity_service \<Rightarrow> string \<Rightarrow> string \<Rightarrow> string call" where
  "user_of_claims cfg issuer subject s =
    (case select_row (\<lambda>r. u_issuer r = issuer \<and> u_subject r = subject) (users (tables s)) of
       Some (u, _) \<Rightarrow> (Inr u, s)
     | None \<Rightarrow>
         chain (fresh_id cfg ''usr'' s) (\<lambda>u s.
         chain (statement (insert_user u \<lparr>u_issuer = issuer, u_subject = subject, u_login_id = None, u_email = None,
           u_password_digest = None, u_email_verified_at = None, u_password_change_required = False,
           u_state = ''active''\<rparr>) s) (\<lambda>_. returning u)))"

definition finish_oidc_login :: "identity_service \<Rightarrow> string \<Rightarrow> oidc_row \<Rightarrow> oidc_claims \<Rightarrow> device_platform \<Rightarrow> int
    \<Rightarrow> string \<Rightarrow> string \<Rightarrow> session_credentials call" where
  "finish_oidc_login cfg tx r c platform now trace pv s =
    attempt (checked_opaque (cl_subject c)) s (\<lambda>subject.
    chain (updating (\<lambda>db. db\<lparr>oidc_transactions := dict_set tx (r\<lparr>ot_used_at := Some now\<rparr>) (oidc_transactions db)\<rparr>) s) (\<lambda>_ s.
    chain (user_of_claims cfg (cl_issuer c) subject s) (\<lambda>u s.
    chain (updating (\<lambda>db. seed_minimum_step_up_actions (ot_tenant_id r)
      (db\<lparr>identity_memberships := insert_or_ignore (ot_tenant_id r, u) ''member'' (identity_memberships db)\<rparr>)) s) (\<lambda>_ s.
    chain (fresh_id cfg ''dev'' s) (\<lambda>d s.
    chain (fresh_id cfg ''ses'' s) (\<lambda>i s.
    chain (opaque cfg s) (\<lambda>access s.
    let kind = ot_client_kind r; t = ot_tenant_id r in
    chain (if kind = Native
        then chain (opaque cfg s) (\<lambda>refresh s. chain (fresh_id cfg ''fam'' s) (\<lambda>f. returning (Some (f, refresh))))
        else (Inr None, s)) (\<lambda>fam s.
    chain (login_scope cfg trace pv t u i [(''client_type'', AText (client_kind_value kind))]
      (open_session cfg t u platform d i kind access (now + access_ttl) now fam) s) (\<lambda>_.
    returning \<lparr>cr_access_token = access, cr_refresh_token = map_option snd fam, cr_user_id = u, cr_session_id = i,
      cr_device_id = d, cr_tenant_id = t, cr_client_kind = kind,
      cr_delivery = (if kind = Web then web_delivery else native_delivery)\<rparr>)))))))))"

definition complete_oidc_login :: "identity_service \<Rightarrow> string \<Rightarrow> string \<Rightarrow> string \<Rightarrow> string \<Rightarrow> string
    \<Rightarrow> (exchange_request \<Rightarrow> provider_answer) \<Rightarrow> device_platform \<Rightarrow> string \<Rightarrow> string \<Rightarrow> session_credentials call" where
  "complete_oidc_login cfg st auth_code verifier client redirect provider platform trace pv s =
    attempt (checked_opaques [st, auth_code, verifier, redirect]) s (\<lambda>_.
    attempt (checked_texts [client, trace, pv]) s (\<lambda>_.
    chain (read_now cfg s) (\<lambda>now.
    transaction (\<lambda>s.
      case open_transaction cfg st (tables s) of
        None \<Rightarrow> refuse cfg trace pv (entry ''identity.login.denied'' Denied ''identity-public'' anonymous ''identity''
            ''identity-public'' (reason ''OIDC_STATE_INVALID'')) (IdentityError ''OIDC_STATE_INVALID'' 401) s
      | Some (tx, r) \<Rightarrow>
          let deny = (\<lambda>c n. refuse cfg trace pv (entry ''identity.login.denied'' Denied (ot_tenant_id r) anonymous
                ''oidc_transaction'' tx (reason c)) (IdentityError c n) s)
          in case login_denial r client redirect now of
            Some (c, n) \<Rightarrow> deny c n
          | None \<Rightarrow>
              if \<not> ascii_text verifier then (Inl (PythonError ''UnicodeEncodeError''), s)
              else if code_challenge_of cfg verifier \<noteq> ot_code_challenge r then deny ''OIDC_PKCE_INVALID'' 401
              else (case provider \<lparr>ex_authorization_code = auth_code, ex_code_verifier = verifier,
                  ex_code_challenge = ot_code_challenge r, ex_issuer = ot_issuer r, ex_audience = ot_audience r,
                  ex_nonce_digest = ot_nonce_digest r, ex_now = now\<rparr> of
                ProviderRaises \<Rightarrow> deny ''OIDC_PROVIDER_REJECTED'' 401
              | NoClaims \<Rightarrow> deny ''OIDC_CLAIMS_INVALID'' 401
              | Claims c \<Rightarrow>
                  if \<not> claims_fit cfg r c then deny ''OIDC_CLAIMS_INVALID'' 401
                  else (case cl_expires_at c of
                      None \<Rightarrow> (Inl (IdentityError ''INVALID_TIME'' 400), s)
                    | Some e \<Rightarrow>
                        if e \<le> now then deny ''OIDC_CLAIMS_EXPIRED'' 401
                        else finish_oidc_login cfg tx r c platform now trace pv s))))))"

end
