(* ===== verification/Identity_Sessions.thy ===== *)
theory Identity_Sessions
  imports Identity
begin

text \<open>
  Model of \<open>services/api/src/daon_user_api/identity.py\<close>, second part: the outboxes and their dispatch,
  the initial administrator, access with a session, the switch of its tenant, changed passwords, the
  rotation of refresh tokens, step-up authorizations, and the revocation of sessions and devices.
\<close>

section \<open>Outboxes\<close>

definition dispatch_limit :: nat where "dispatch_limit = 32"

text \<open>Undelivered rows by creation and identifier.\<close>

definition pending_rows :: "('v \<Rightarrow> int) \<Rightarrow> ('v \<Rightarrow> int option) \<Rightarrow> (string, 'v) dict \<Rightarrow> (string \<times> 'v) list" where
  "pending_rows created delivered d =
    take dispatch_limit (sort_key (created \<circ> snd) (sort_key fst (filter (\<lambda>(_, r). delivered r = None) d)))"

definition pending_self_logout_audits :: "string option \<Rightarrow> identity_tables \<Rightarrow> (string \<times> logout_row) list" where
  "pending_self_logout_audits only db = pending_rows lo_created_at lo_delivered_at
    (case only of None \<Rightarrow> logout_outbox db
     | Some i \<Rightarrow> filter (\<lambda>(_, r). lo_session_id r = i) (logout_outbox db))"

definition pending_tenant_switch_audits :: "identity_tables \<Rightarrow> (string \<times> switch_row) list" where
  "pending_tenant_switch_audits db = pending_rows sw_created_at sw_delivered_at (switch_outbox db)"

definition pending_admin_audits :: "string option \<Rightarrow> identity_tables \<Rightarrow> (string \<times> admin_row) list" where
  "pending_admin_audits only db = (case only of
       None \<Rightarrow> pending_rows ad_created_at ad_delivered_at (admin_outbox db)
     | Some i \<Rightarrow> filter (\<lambda>(j, r). j = i \<and> ad_delivered_at r = None) (admin_outbox db))"

definition mark_logout_delivered :: "string \<Rightarrow> int \<Rightarrow> unit call" where
  "mark_logout_delivered i now = transaction (updating (\<lambda>db. db\<lparr>logout_outbox :=
     update_where (\<lambda>j r. j = i \<and> lo_delivered_at r = None) (\<lambda>r. r\<lparr>lo_delivered_at := Some now\<rparr>) (logout_outbox db)\<rparr>))"

definition mark_switch_delivered :: "string \<Rightarrow> int \<Rightarrow> unit call" where
  "mark_switch_delivered i now = transaction (updating (\<lambda>db. db\<lparr>switch_outbox :=
     update_where (\<lambda>j r. j = i \<and> sw_delivered_at r = None) (\<lambda>r. r\<lparr>sw_delivered_at := Some now\<rparr>) (switch_outbox db)\<rparr>))"

definition mark_admin_delivered :: "string \<Rightarrow> int \<Rightarrow> unit call" where
  "mark_admin_delivered i now = transaction (updating (\<lambda>db. db\<lparr>admin_outbox :=
     update_where (\<lambda>j r. j = i \<and> ad_delivered_at r = None) (\<lambda>r. r\<lparr>ad_delivered_at := Some now\<rparr>) (admin_outbox db)\<rparr>))"

definition logout_draft :: "string \<Rightarrow> logout_row \<Rightarrow> audit_event_draft" where
  "logout_draft i r = new_draft i (lo_occurred_at r) (lo_trace_id r) (lo_policy_version r) UserActor
     (entry ''identity.session.self_revoked'' Succeeded (lo_tenant_id r) (lo_actor_id r) ''session'' (lo_session_id r)
       (reason ''USER_LOGOUT''))"

definition switch_draft :: "string \<Rightarrow> switch_row \<Rightarrow> audit_event_draft" where
  "switch_draft i r = new_draft i (sw_occurred_at r) (sw_trace_id r) (sw_policy_version r) UserActor
     (entry ''identity.session.tenant_switched'' Succeeded (sw_target_tenant_id r) (sw_actor_id r) ''session''
       (sw_new_session_id r) [(''prior_session_id'', AText (sw_prior_session_id r)),
        (''prior_tenant_id'', AText (sw_prior_tenant_id r)), (''reason_code'', AText ''USER_SELECTED'')])"

definition admin_draft :: "string \<Rightarrow> admin_row \<Rightarrow> audit_event_draft" where
  "admin_draft i r = (new_draft i (ad_occurred_at r) (ad_trace_id r) (ad_policy_version r) (ad_actor_type r)
     (entry (ad_action r) Succeeded (ad_tenant_id r) (ad_actor_id r) (ad_target_type r) (ad_target_id r) []))
     \<lparr>before := (case ad_before_state r of None \<Rightarrow> ANone | Some x \<Rightarrow> details [(''state'', AText x)]),
      after := (case ad_after_state r of None \<Rightarrow> ANone | Some x \<Rightarrow> details [(''state'', AText x)]),
      metadata := thaw_json (JObj (ad_metadata r))\<rparr>"

text \<open>
  One row after another: an event that is stored, now or before, is marked as delivered, with a time
  of its own; whatever fails leaves the row for the next dispatch. \<open>timed\<close> tells whether the deadline
  is looked at.
\<close>

fun dispatch_rows :: "identity_service \<Rightarrow> bool \<Rightarrow> (string \<Rightarrow> 'v \<Rightarrow> audit_event_draft) \<Rightarrow> (string \<Rightarrow> int \<Rightarrow> unit call)
    \<Rightarrow> (string \<times> 'v) list \<Rightarrow> identity_state \<Rightarrow> identity_state" where
  "dispatch_rows cfg timed draft mark [] s = s"
| "dispatch_rows cfg timed draft mark ((i, r) # rows) s =
    (let s1 = (if timed then s\<lparr>deadline_reads := Suc (deadline_reads s)\<rparr> else s) in
     if timed \<and> deadline_passed cfg (deadline_reads s) then s1
     else case store_append cfg (draft i r) s1 of
         (Inl e, s2) \<Rightarrow>
           if e = Some AuditDuplicateEventError
           then dispatch_rows cfg timed draft mark rows (snd (chain (read_now cfg s2) (mark i)))
           else dispatch_rows cfg timed draft mark rows s2
       | (Inr _, s2) \<Rightarrow> dispatch_rows cfg timed draft mark rows (snd (chain (read_now cfg s2) (mark i))))"

definition dispatch_pending_self_logout_audits :: "identity_service \<Rightarrow> string option \<Rightarrow> identity_state \<Rightarrow> identity_state" where
  "dispatch_pending_self_logout_audits cfg only s =
    (if closed s then s
     else dispatch_rows cfg True logout_draft mark_logout_delivered (pending_self_logout_audits only (tables s)) s)"

definition dispatch_pending_tenant_switch_audits :: "identity_service \<Rightarrow> identity_state \<Rightarrow> identity_state" where
  "dispatch_pending_tenant_switch_audits cfg s =
    (if closed s then s
     else dispatch_rows cfg True switch_draft mark_switch_delivered (pending_tenant_switch_audits (tables s)) s)"

definition dispatch_pending_admin_audits :: "identity_service \<Rightarrow> string option \<Rightarrow> identity_state \<Rightarrow> identity_state" where
  "dispatch_pending_admin_audits cfg only s =
    (if closed s then s
     else dispatch_rows cfg False admin_draft mark_admin_delivered (pending_admin_audits only (tables s)) s)"

section \<open>The initial administrator\<close>

definition bootstrap_marker :: string where "bootstrap_marker = ''initial_admin_v1''"

definition is_protected_initial_admin_record :: "string \<Rightarrow> user_row \<Rightarrow> bool" where
  "is_protected_initial_admin_record u r \<longleftrightarrow> u = initial_admin \<and> u_issuer r = ''local'' \<and> u_subject r = initial_admin
    \<and> u_login_id r = Some initial_admin \<and> u_email r = None \<and> u_state r = ''active''
    \<and> (case u_password_digest r of None \<Rightarrow> False | Some h \<Rightarrow> h \<noteq> [])"

abbreviation admin_conflict :: identity_error where
  "admin_conflict \<equiv> IdentityError ''INITIAL_ADMIN_CONFLICT'' 503"

abbreviation admin_missing :: identity_error where
  "admin_missing \<equiv> IdentityError ''INITIAL_ADMIN_MISSING'' 503"

definition ensure_initial_admin :: "identity_service \<Rightarrow> unit call" where
  "ensure_initial_admin cfg = transaction (\<lambda>s.
    let marker = dict_get (bootstrap_state (tables s)) bootstrap_marker;
        existing = dict_get (users (tables s)) initial_admin
    in if marker \<noteq> None \<and> existing = None then (Inl admin_missing, s)
    else
      chain (case existing of
          None \<Rightarrow>
            if select_row (\<lambda>r. u_login_id r = Some initial_admin) (users (tables s)) \<noteq> None then (Inl admin_conflict, s)
            else chain (hashed cfg initial_admin s) (\<lambda>pw.
              statement (insert_user initial_admin ((local_user initial_admin None (Some pw) ''active'')
                \<lparr>u_password_change_required := True\<rparr>)))
        | Some r \<Rightarrow> if is_protected_initial_admin_record initial_admin r then (Inr (), s) else (Inl admin_conflict, s)) (\<lambda>_ s.
      chain (updating (\<lambda>db. let db' = ensure_tenant initial_admin db in seed_minimum_step_up_actions initial_admin
        (db'\<lparr>identity_memberships := insert_or_ignore (initial_admin, initial_admin) ''personal_owner''
           (identity_memberships db')\<rparr>)) s) (\<lambda>_ s.
      if marker = None
      then chain (read_now cfg s) (\<lambda>now. updating (\<lambda>db. db\<lparr>bootstrap_state := dict_set bootstrap_marker now (bootstrap_state db)\<rparr>))
      else (Inr (), s))))"

definition initial_admin_target :: "identity_tables \<Rightarrow> identity_error + user_row" where
  "initial_admin_target db =
    (if dict_get (bootstrap_state db) bootstrap_marker = None then Inl admin_missing
     else case dict_get (users db) initial_admin of None \<Rightarrow> Inl admin_missing
       | Some r \<Rightarrow> if is_protected_initial_admin_record initial_admin r then Inr r else Inl admin_conflict)"

definition require_initial_admin_recovery_target :: "string call" where
  "require_initial_admin_recovery_target = transaction (\<lambda>s.
    attempt (initial_admin_target (tables s)) s (\<lambda>_. (Inr initial_admin, s)))"

definition admin_clash :: "admin_row \<Rightarrow> admin_row \<Rightarrow> bool" where
  "admin_clash v w \<longleftrightarrow> ad_operation v = ad_operation w \<and> ad_idempotency_scope v \<noteq> None
    \<and> ad_idempotency_scope v = ad_idempotency_scope w"

definition reset_initial_admin_password :: "identity_service \<Rightarrow> string \<Rightarrow> string \<Rightarrow> unit call" where
  "reset_initial_admin_password cfg trace pv s =
    attempt (checked_texts [trace, pv]) s (\<lambda>_.
    chain (read_now cfg s) (\<lambda>now s.
    chain (hashed cfg initial_admin s) (\<lambda>pw s.
    chain (fresh_id cfg ''audit-admin-reset'' s) (\<lambda>i s.
    chain (transaction (\<lambda>s.
      attempt (initial_admin_target (tables s)) s (\<lambda>_.
      chain (updating (\<lambda>db. revoke_user_sessions initial_admin now (set_user initial_admin
        (\<lambda>u. u\<lparr>u_password_digest := Some pw, u_password_change_required := True\<rparr>) db)) s) (\<lambda>_.
      statement (\<lambda>db. and_then (insert_row admin_clash i
        \<lparr>ad_operation = ''reset_initial_password'', ad_idempotency_scope = None, ad_actor_id = ''server-console'',
         ad_actor_type = SystemActor, ad_tenant_id = initial_admin,
         ad_action = ''identity.initial_admin_password.reset'', ad_target_type = ''user'', ad_target_id = initial_admin,
         ad_occurred_at = now, ad_trace_id = trace, ad_policy_version = pv, ad_before_state = None,
         ad_after_state = None, ad_metadata = [(''reason_code'', JStr ''SERVER_CONSOLE_RECOVERY'')],
         ad_delivered_at = None, ad_created_at = now\<rparr> (admin_outbox db)) (\<lambda>d. Inr (db\<lparr>admin_outbox := d\<rparr>)))))) s) (\<lambda>_ s.
    (Inr (), dispatch_pending_admin_audits cfg (Some i) s))))))"

section \<open>Access\<close>

record identity_principal =
  ip_user_id :: string
  ip_session_id :: string
  ip_device_id :: string
  ip_tenant_id :: string

text \<open>The session of an access token, and whether it is alive.\<close>

definition session_of :: "identity_service \<Rightarrow> string \<Rightarrow> identity_tables \<Rightarrow> (string \<times> session_row) option" where
  "session_of cfg access db = select_row (\<lambda>r. ses_access_digest r = digest cfg access) (sessions db)"

definition live_session :: "identity_service \<Rightarrow> string \<Rightarrow> int \<Rightarrow> identity_tables \<Rightarrow> identity_error + string \<times> session_row" where
  "live_session cfg access now db =
    and_then (checked_opaque access) (\<lambda>_. case session_of cfg access db of
      None \<Rightarrow> Inl (IdentityError ''ACCESS_INVALID'' 401)
    | Some (i, r) \<Rightarrow>
        if ses_state r \<noteq> Active then Inl (IdentityError ''SESSION_REVOKED'' 401)
        else if ses_client_kind r \<noteq> Web \<and> ses_access_expires_at r \<le> now
        then Inl (IdentityError ''ACCESS_EXPIRED'' 401)
        else Inr (i, r))"

definition touch_device :: "string \<Rightarrow> int \<Rightarrow> identity_tables \<Rightarrow> identity_tables" where
  "touch_device d now db = db\<lparr>devices :=
     update_where (\<lambda>i _. i = d) (\<lambda>r. r\<lparr>dev_last_seen_at := now, dev_updated_at := now\<rparr>) (devices db)\<rparr>"

definition principal_of :: "identity_service \<Rightarrow> string \<Rightarrow> int \<Rightarrow> (string \<times> session_row) call" where
  "principal_of cfg access now s =
    attempt (live_session cfg access now (tables s)) s (\<lambda>(i, r).
    chain (updating (touch_device (ses_device_id r) now) s) (\<lambda>_. returning (i, r)))"

definition view_of :: "string \<Rightarrow> session_row \<Rightarrow> identity_principal" where
  "view_of i r = \<lparr>ip_user_id = ses_user_id r, ip_session_id = i, ip_device_id = ses_device_id r,
     ip_tenant_id = ses_tenant_id r\<rparr>"

definition access_denial :: "(string \<times> session_row) option \<Rightarrow> string \<Rightarrow> audit_entry" where
  "access_denial known c =
    (let act = (if c = ''ACCESS_EXPIRED'' then ''identity.access.expired'' else ''identity.access.denied'') in
     case known of
       None \<Rightarrow> entry act Denied ''identity-public'' anonymous ''access_credential'' ''unknown-access'' (reason c)
     | Some (i, r) \<Rightarrow> entry act Denied (ses_tenant_id r) (ses_user_id r) ''session'' i (reason c))"

definition validate_access :: "identity_service \<Rightarrow> string \<Rightarrow> string \<Rightarrow> string \<Rightarrow> identity_principal call" where
  "validate_access cfg access trace pv s =
    attempt (checked_texts [trace, pv]) s (\<lambda>_. transaction (\<lambda>s.
      chain (read_now cfg s) (\<lambda>now s.
      case principal_of cfg access now s of
        (Inr (i, r), s) \<Rightarrow> (Inr (view_of i r), s)
      | (Inl e, s) \<Rightarrow>
          let c = (if error_code e \<in> {''ACCESS_EXPIRED'', ''SESSION_REVOKED''} then error_code e else ''ACCESS_INVALID'')
          in refuse cfg trace pv (access_denial (session_of cfg access (tables s)) c)
              (if c \<noteq> error_code e then IdentityError c 401 else e) s)) s)"

record identity_session_view =
  iv_principal :: identity_principal
  iv_login_id :: "string option"
  iv_client_kind :: client_kind
  iv_expires_at :: int
  iv_password_change_required :: bool

definition describe_access :: "identity_service \<Rightarrow> string \<Rightarrow> string \<Rightarrow> string \<Rightarrow> identity_session_view call" where
  "describe_access cfg access trace pv s =
    chain (validate_access cfg access trace pv s) (\<lambda>p. transaction (\<lambda>s.
      case dict_get (sessions (tables s)) (ip_session_id p) of
        None \<Rightarrow> (Inl (IdentityError ''ACCESS_INVALID'' 401), s)
      | Some r \<Rightarrow> (case dict_get (users (tables s)) (ses_user_id r) of
            None \<Rightarrow> (Inl (IdentityError ''ACCESS_INVALID'' 401), s)
          | Some u \<Rightarrow> (Inr \<lparr>iv_principal = p, iv_login_id = u_login_id u, iv_client_kind = ses_client_kind r,
              iv_expires_at = ses_access_expires_at r, iv_password_change_required = u_password_change_required u\<rparr>, s))))"

section \<open>The tenant of a session\<close>

text \<open>
  The workspaces through which a user can work in a tenant: memberships of the identity tables joined
  with the workspaces and the active roles and memberships of the authorization tables.
\<close>

definition effective_binding :: "auth_tables \<Rightarrow> string \<Rightarrow> workspace_row \<Rightarrow> bool" where
  "effective_binding a u w \<longleftrightarrow>
    (case dict_get (tenant_roles a) (ws_tenant_id w, u) of None \<Rightarrow> False
     | Some r \<Rightarrow> row_state r = ''active''
         \<and> (workspace_kind w = ''personal'' \<and> row_role r = PersonalOwner
            \<or> workspace_kind w = ''organization'' \<and> row_role r = OrganizationAdmin))
    \<or> (case dict_get (memberships a) (ws_tenant_id w, Authorization.workspace_id w, u) of None \<Rightarrow> False
       | Some r \<Rightarrow> row_state r = ''active'')"

definition kind_fits :: "string \<Rightarrow> workspace_row \<Rightarrow> bool" where
  "kind_fits r w \<longleftrightarrow> r = ''personal_owner'' \<and> workspace_kind w = ''personal''
    \<or> r \<noteq> ''personal_owner'' \<and> workspace_kind w = ''organization''"

definition workspace_choices :: "identity_tables \<Rightarrow> auth_tables \<Rightarrow> string \<Rightarrow> (string \<times> workspace_row) list" where
  "workspace_choices db a u =
    (if (case dict_get (users db) u of None \<Rightarrow> True | Some r \<Rightarrow> u_state r \<noteq> ''active'') then []
     else sort_key (ws_tenant_id \<circ> snd) (sort_key (Authorization.workspace_id \<circ> snd)
       (concat (map (\<lambda>((t, v), r). if v \<noteq> u then []
         else map (\<lambda>w. (r, w)) (filter (\<lambda>w. ws_tenant_id w = t \<and> kind_fits r w \<and> effective_binding a u w)
           (dict_values (workspaces a)))) (identity_memberships db)))))"

text \<open>The first workspace of every tenant whose organization the user is not suspended in.\<close>

fun select_tenants :: "auth_tables \<Rightarrow> string \<Rightarrow> (string \<times> workspace_row) list
    \<Rightarrow> (string, string \<times> string) dict \<Rightarrow> identity_error + (string, string \<times> string) dict" where
  "select_tenants a u [] sel = Inr sel"
| "select_tenants a u ((r, w) # rows) sel =
    (let t = ws_tenant_id w;
         kept = (if dict_get sel t = None
           then dict_set t (if r = ''personal_owner'' then ''personal'' else ''organization'', Authorization.workspace_id w) sel
           else sel)
     in if workspace_kind w = ''organization''
        then (case organization_active a t u of
            Inr _ \<Rightarrow> select_tenants a u rows kept
          | Inl e \<Rightarrow> if e = authorization_error ''ORGANIZATION_MEMBERSHIP_SUSPENDED'' 403
              then select_tenants a u rows sel else Inl (PythonError ''OrganizationWorkflowError''))
        else select_tenants a u rows kept)"

definition selectable_of :: "identity_tables \<Rightarrow> auth_tables \<Rightarrow> string \<Rightarrow> identity_error + (string, string \<times> string) dict" where
  "selectable_of db a u = and_then (checked_text u) (\<lambda>_. select_tenants a u (workspace_choices db a u) [])"

definition selectable_tenant_workspaces :: "string \<Rightarrow> (string, string \<times> string) dict call" where
  "selectable_tenant_workspaces u = transaction (\<lambda>s. (selectable_of (tables s) (auth s) u, s))"

definition audit_tenant_switch_denied :: "identity_service \<Rightarrow> identity_principal \<Rightarrow> string option \<Rightarrow> string
    \<Rightarrow> string \<Rightarrow> string \<Rightarrow> unit call" where
  "audit_tenant_switch_denied cfg p target why trace pv s =
    (if why \<notin> {''TENANT_UNAVAILABLE'', ''INVALID_INPUT'', ''CSRF_VALIDATION_FAILED''}
     then (Inl (IdentityError ''INVALID_INPUT'' 422), s)
     else attempt (case target of None \<Rightarrow> Inr ''unknown-tenant'' | Some t \<Rightarrow> checked_text t) s (\<lambda>t.
       audit cfg trace pv (entry ''identity.session.tenant_switch_denied'' Denied (ip_tenant_id p) (ip_user_id p)
         ''tenant'' t [(''prior_session_id'', AText (ip_session_id p)), (''prior_tenant_id'', AText (ip_tenant_id p)),
          (''target_tenant_id'', AText t), (''reason_code'', AText why)]) s))"

definition switch_clash :: "switch_row \<Rightarrow> switch_row \<Rightarrow> bool" where
  "switch_clash v w \<longleftrightarrow> sw_prior_session_id v = sw_prior_session_id w \<or> sw_new_session_id v = sw_new_session_id w"

definition insert_switch :: "string \<Rightarrow> switch_row \<Rightarrow> identity_tables \<Rightarrow> identity_error + identity_tables" where
  "insert_switch i r db = and_then (insert_row switch_clash i r (switch_outbox db)) (\<lambda>d. Inr (db\<lparr>switch_outbox := d\<rparr>))"

text \<open>The second half of a switch, from the session \<open>i\<close> with row \<open>r\<close> to another tenant.\<close>

definition move_session :: "identity_service \<Rightarrow> string \<Rightarrow> session_row \<Rightarrow> device_platform \<Rightarrow> string \<Rightarrow> int
    \<Rightarrow> string \<Rightarrow> string \<Rightarrow> session_credentials call" where
  "move_session cfg i r platform t now trace pv s =
    (let u = ses_user_id r; kind = ses_client_kind r in
    chain (fresh_id cfg ''dev'' s) (\<lambda>d s.
    chain (fresh_id cfg ''ses'' s) (\<lambda>j s.
    chain (opaque cfg s) (\<lambda>access s.
    chain (statement (insert_session t u platform d j kind (digest cfg access)
      (if kind = Web then web_session_expiry else now + access_ttl) now) s) (\<lambda>_ s.
    chain (if kind = Native
        then chain (fresh_id cfg ''fam'' s) (\<lambda>f s.
          chain (opaque cfg s) (\<lambda>refresh s.
          chain (statement (insert_family f j now) s) (\<lambda>_ s.
          chain (fresh_id cfg ''ref'' s) (\<lambda>n s.
          chain (statement (insert_refresh n f (digest cfg refresh) now) s) (\<lambda>_.
          returning (Some refresh))))))
        else (Inr None, s)) (\<lambda>refresh s.
    chain (updating (revoke_where (\<lambda>k _. k = i) now) s) (\<lambda>_ s.
    chain (fresh_id cfg ''audit'' s) (\<lambda>e s.
    chain (statement (insert_switch e \<lparr>sw_prior_session_id = i, sw_new_session_id = j,
      sw_prior_tenant_id = ses_tenant_id r, sw_target_tenant_id = t, sw_actor_id = u, sw_occurred_at = now,
      sw_trace_id = trace, sw_policy_version = pv, sw_delivered_at = None, sw_created_at = now\<rparr>) s) (\<lambda>_.
    returning \<lparr>cr_access_token = access, cr_refresh_token = refresh, cr_user_id = u, cr_session_id = j,
      cr_device_id = d, cr_tenant_id = t, cr_client_kind = kind,
      cr_delivery = (if kind = Web then web_delivery else native_delivery)\<rparr>)))))))))"

definition switch_in_transaction :: "identity_service \<Rightarrow> string \<Rightarrow> string \<Rightarrow> int \<Rightarrow> string \<Rightarrow> string
    \<Rightarrow> (session_credentials \<times> string \<times> bool) call" where
  "switch_in_transaction cfg access t now trace pv s =
    chain (principal_of cfg access now s) (\<lambda>(i, r) s.
    attempt (selectable_of (tables s) (auth s) (ses_user_id r)) s (\<lambda>choices.
    case dict_get choices t of
      None \<Rightarrow> (Inl (IdentityError ''TENANT_UNAVAILABLE'' 404), s)
    | Some (_, w) \<Rightarrow>
        if t = ses_tenant_id r
        then (Inr (\<lparr>cr_access_token = access, cr_refresh_token = None, cr_user_id = ses_user_id r, cr_session_id = i,
          cr_device_id = ses_device_id r, cr_tenant_id = t, cr_client_kind = ses_client_kind r,
          cr_delivery = (if ses_client_kind r = Native then ''native_https_opaque_bearer'' else web_delivery)\<rparr>, w, False), s)
        else (case dict_get (devices (tables s)) (ses_device_id r) of
            None \<Rightarrow> (Inl (IdentityError ''ACCESS_INVALID'' 401), s)
          | Some dev \<Rightarrow>
              if dev_user_id dev \<noteq> ses_user_id r then (Inl (IdentityError ''ACCESS_INVALID'' 401), s)
              else chain (move_session cfg i r (dev_platform dev) t now trace pv s) (\<lambda>c.
                returning (c, w, True)))))"

definition switch_session_tenant :: "identity_service \<Rightarrow> string \<Rightarrow> string \<Rightarrow> string \<Rightarrow> string
    \<Rightarrow> (session_credentials \<times> string) call" where
  "switch_session_tenant cfg access t trace pv s =
    attempt (checked_texts [t, trace, pv]) s (\<lambda>_.
    chain (read_now cfg s) (\<lambda>now s.
    chain (transaction (switch_in_transaction cfg access t now trace pv) s) (\<lambda>(c, w, moved) s.
    (Inr (c, w), if moved then dispatch_pending_tenant_switch_audits cfg s else s))))"

section \<open>A new password\<close>

definition change_current_password :: "identity_service \<Rightarrow> string \<Rightarrow> string \<Rightarrow> string \<Rightarrow> string \<Rightarrow> string \<Rightarrow> unit call" where
  "change_current_password cfg access current_password new_password trace pv s =
    attempt (checked_password new_password) s (\<lambda>replacement.
    attempt (checked_texts [trace, pv]) s (\<lambda>_.
    if \<not> (length current_password \<le> 256 \<and> printable current_password) then (Inl authentication_required, s)
    else chain (read_now cfg s) (\<lambda>now. transaction (\<lambda>s.
      chain (principal_of cfg access now s) (\<lambda>(i, r) s.
      if (case dict_get (users (tables s)) (ses_user_id r) of None \<Rightarrow> True
          | Some u \<Rightarrow> u_issuer u \<noteq> ''local'' \<or> \<not> password_matches cfg u current_password)
      then (Inl authentication_required, s)
      else
        chain (hashed cfg replacement s) (\<lambda>pw s.
        chain (updating (\<lambda>db. revoke_user_sessions (ses_user_id r) now (set_user (ses_user_id r)
          (\<lambda>u. u\<lparr>u_password_digest := Some pw, u_password_change_required := False\<rparr>) db)) s) (\<lambda>_.
        audit cfg trace pv (entry ''identity.password.changed'' Succeeded (ses_tenant_id r) (ses_user_id r)
          ''user'' (ses_user_id r) (reason ''CURRENT_PASSWORD_CHANGED'')))))))))"

section \<open>Rotation of refresh tokens\<close>

text \<open>A refresh token with its family and its session.\<close>

definition refresh_context :: "identity_service \<Rightarrow> string option \<Rightarrow> identity_tables
    \<Rightarrow> (string \<times> refresh_row \<times> family_row \<times> session_row) option" where
  "refresh_context cfg token db =
    (case token of None \<Rightarrow> None | Some v \<Rightarrow>
       if \<not> opaque_text v then None
       else (case select_row (\<lambda>r. ref_digest r = digest cfg v) (refresh_tokens db) of None \<Rightarrow> None
         | Some (n, r) \<Rightarrow> (case dict_get (refresh_families db) (ref_family_id r) of None \<Rightarrow> None
             | Some f \<Rightarrow> (case dict_get (sessions db) (fam_session_id f) of None \<Rightarrow> None
                 | Some x \<Rightarrow> Some (n, r, f, x)))))"

definition revoke_family :: "string \<Rightarrow> string \<Rightarrow> int \<Rightarrow> identity_tables \<Rightarrow> identity_tables" where
  "revoke_family f i now db =
    db\<lparr>refresh_families := update_where (\<lambda>k _. k = f) (\<lambda>x. x\<lparr>fam_state := Revoked, fam_updated_at := now\<rparr>) (refresh_families db),
       sessions := update_where (\<lambda>k _. k = i) (\<lambda>x. x\<lparr>ses_state := Revoked, ses_updated_at := now\<rparr>) (sessions db)\<rparr>"

definition set_access :: "string \<Rightarrow> session_row \<Rightarrow> identity_tables \<Rightarrow> identity_error + identity_tables" where
  "set_access i x db =
    (if list_ex (\<lambda>(k, y). k \<noteq> i \<and> session_clash x y) (sessions db) then Inl persistence_unavailable
     else Inr (db\<lparr>sessions := update_where (\<lambda>k _. k = i) (\<lambda>_. x) (sessions db)\<rparr>))"

text \<open>What happens inside the transaction: new credentials, or \<^term>\<open>None\<close> after a replay.\<close>

definition rotate_in_transaction :: "identity_service \<Rightarrow> string option \<Rightarrow> int \<Rightarrow> string \<Rightarrow> string
    \<Rightarrow> session_credentials option call" where
  "rotate_in_transaction cfg token now trace pv s =
    (case refresh_context cfg token (tables s) of
       None \<Rightarrow> refuse cfg trace pv (entry ''identity.refresh.denied'' Denied ''identity-public'' anonymous
         ''refresh_credential'' ''unknown-refresh'' (reason ''REFRESH_INVALID'')) (IdentityError ''REFRESH_INVALID'' 401) s
     | Some (n, r, f, x) \<Rightarrow>
         let fid = ref_family_id r; i = fam_session_id f; t = ses_tenant_id x; u = ses_user_id x;
             about = (\<lambda>act md. entry act Denied t u ''refresh_family'' fid md)
         in if ref_used_at r \<noteq> None
         then
           chain (updating (revoke_family fid i now) s) (\<lambda>_ s.
           chain (audit cfg trace pv (about ''identity.refresh.replay_denied'' (reason ''REFRESH_REPLAYED'')) s) (\<lambda>_ s.
           chain (audit cfg trace pv (entry ''identity.session.revoked'' Succeeded t u ''session'' i
             (reason ''REFRESH_REPLAYED'')) s) (\<lambda>_. returning None)))
         else if fam_state f \<noteq> Active \<or> ses_state x \<noteq> Active
         then refuse cfg trace pv (about ''identity.refresh.denied''
           (reason ''SESSION_REVOKED'' @ [(''session_id'', AText i)])) (IdentityError ''SESSION_REVOKED'' 401) s
         else if ref_expires_at r \<le> now
         then refuse cfg trace pv (about ''identity.refresh.expired''
           (reason ''REFRESH_EXPIRED'' @ [(''session_id'', AText i)])) (IdentityError ''REFRESH_EXPIRED'' 401) s
         else
           chain (opaque cfg s) (\<lambda>access s.
           chain (opaque cfg s) (\<lambda>refresh s.
           chain (updating (\<lambda>db. db\<lparr>refresh_tokens := dict_set n (r\<lparr>ref_used_at := Some now\<rparr>) (refresh_tokens db)\<rparr>) s) (\<lambda>_ s.
           chain (statement (set_access i (x\<lparr>ses_access_digest := digest cfg access,
             ses_access_expires_at := now + access_ttl, ses_updated_at := now\<rparr>)) s) (\<lambda>_ s.
           chain (fresh_id cfg ''ref'' s) (\<lambda>m s.
           chain (statement (insert_refresh m fid (digest cfg refresh) now) s) (\<lambda>_ s.
           chain (audit cfg trace pv (entry ''identity.refresh.rotated'' Succeeded t u ''session'' i []) s) (\<lambda>_.
           returning (Some \<lparr>cr_access_token = access, cr_refresh_token = Some refresh, cr_user_id = u,
             cr_session_id = i, cr_device_id = ses_device_id x, cr_tenant_id = t, cr_client_kind = Native,
             cr_delivery = native_delivery\<rparr>)))))))))"

definition rotate_refresh :: "identity_service \<Rightarrow> string option \<Rightarrow> string \<Rightarrow> string \<Rightarrow> session_credentials call" where
  "rotate_refresh cfg token trace pv s =
    attempt (checked_texts [trace, pv]) s (\<lambda>_.
    chain (read_now cfg s) (\<lambda>now s.
    chain (transaction (rotate_in_transaction cfg token now trace pv) s) (\<lambda>c s.
    case c of None \<Rightarrow> (Inl (IdentityError ''REFRESH_REPLAYED'' 401), s) | Some c \<Rightarrow> (Inr c, s))))"

section \<open>Step-up authorizations\<close>

record step_up_grant =
  sg_authorization :: string
  sg_issued_at :: int
  sg_expires_at :: int

definition step_up_clash :: "step_up_row \<Rightarrow> step_up_row \<Rightarrow> bool" where
  "step_up_clash v w \<longleftrightarrow> su_digest v = su_digest w"

definition insert_step_up :: "string \<Rightarrow> step_up_row \<Rightarrow> identity_tables \<Rightarrow> identity_error + identity_tables" where
  "insert_step_up i r db = and_then (insert_row step_up_clash i r (step_ups db)) (\<lambda>d. Inr (db\<lparr>step_ups := d\<rparr>))"

definition new_step_up :: "identity_service \<Rightarrow> string \<Rightarrow> string \<times> session_row \<Rightarrow> string \<Rightarrow> string \<Rightarrow> string
    \<Rightarrow> int \<Rightarrow> int \<Rightarrow> step_up_row" where
  "new_step_up cfg raw p grp target pv now expires =
    \<lparr>su_digest = digest cfg raw, su_tenant_id = ses_tenant_id (snd p), su_actor_id = ses_user_id (snd p),
     su_session_id = fst p, su_device_id = ses_device_id (snd p), su_action_group = grp, su_target_id = target,
     su_policy_version = pv, su_issued_at = now, su_expires_at = expires, su_used_at = None\<rparr>"

definition issued_entry :: "string \<times> session_row \<Rightarrow> string \<Rightarrow> string \<Rightarrow> audit_entry" where
  "issued_entry p n grp = entry ''identity.step_up.issued'' Succeeded (ses_tenant_id (snd p)) (ses_user_id (snd p))
     ''step_up'' n [(''action_group'', AText grp)]"

definition issue_step_up :: "identity_service \<Rightarrow> string \<Rightarrow> string \<Rightarrow> string \<Rightarrow> string \<Rightarrow> string \<Rightarrow> int \<Rightarrow> step_up_grant call" where
  "issue_step_up cfg access grp target pv trace ttl s =
    attempt (checked_texts [grp, target, pv, trace]) s (\<lambda>_.
    if \<not> (1 \<le> ttl \<and> ttl \<le> max_step_up_ttl_seconds) then (Inl (IdentityError ''STEP_UP_TTL_INVALID'' 400), s)
    else
      chain (read_now cfg s) (\<lambda>now s.
      chain (opaque cfg s) (\<lambda>raw.
      transaction (\<lambda>s.
        chain (principal_of cfg access now s) (\<lambda>p s.
        if dict_get (step_up_actions (tables s)) (ses_tenant_id (snd p), grp) = None
        then (Inl (IdentityError ''STEP_UP_ACTION_NOT_REQUIRED'' 403), s)
        else
          chain (fresh_id cfg ''sup'' s) (\<lambda>n s.
          chain (statement (insert_step_up n (new_step_up cfg raw p grp target pv now (now + seconds ttl))) s) (\<lambda>_ s.
          chain (audit cfg trace pv (issued_entry p n grp) s) (\<lambda>_.
          returning \<lparr>sg_authorization = raw, sg_issued_at = now, sg_expires_at = now + seconds ttl\<rparr>))))))))"

definition step_up_key_id :: string where "step_up_key_id = ''daon-step-up-hmac''"
definition step_up_key_version :: int where "step_up_key_version = 1"

definition step_up_fingerprint :: "identity_service \<Rightarrow> string \<times> session_row \<Rightarrow> string \<Rightarrow> string \<Rightarrow> string \<Rightarrow> int \<Rightarrow> string" where
  "step_up_fingerprint cfg p grp target pv ttl = digest cfg (json_dumps (JArr
     [JStr (ses_tenant_id (snd p)), JStr (ses_user_id (snd p)), JStr (fst p), JStr grp, JStr target, JStr pv, JInt ttl]))"

definition step_up_hmac :: "identity_service \<Rightarrow> string \<times> session_row \<Rightarrow> string \<Rightarrow> string \<Rightarrow> string \<Rightarrow> string" where
  "step_up_hmac cfg p key fp n = ''sup_'' @ hex_of (hmac_bytes cfg (step_up_token_key cfg) (utf8
     (join_with ''|'' [''daon-step-up-v1'', ses_tenant_id (snd p), ses_user_id (snd p), key, fp, n])))"

text \<open>The answer to a repetition, which looks at the stored grant and not at the password.\<close>

definition replay_step_up :: "identity_service \<Rightarrow> string \<times> session_row \<Rightarrow> string \<Rightarrow> string \<Rightarrow> string \<Rightarrow> string \<Rightarrow> string
    \<Rightarrow> step_up_replay_row \<Rightarrow> step_up_row \<Rightarrow> identity_error + step_up_grant" where
  "replay_step_up cfg p key fp grp target pv x a =
    (let raw = step_up_hmac cfg p key fp (rp_step_up_id x) in
     if rp_fingerprint x \<noteq> fp then Inl (IdentityError ''IDEMPOTENCY_KEY_REUSED'' 409)
     else if rp_key_id x \<noteq> step_up_key_id \<or> rp_key_version x \<noteq> step_up_key_version
     then Inl (IdentityError ''STEP_UP_TOKEN_KEY_VERSION_UNAVAILABLE'' 503)
     else if (digest cfg raw, fst p, grp, target, pv)
         \<noteq> (rp_digest x, su_session_id a, su_action_group a, su_target_id a, su_policy_version a)
       \<or> su_digest a \<noteq> rp_digest x
     then Inl (IdentityError ''STEP_UP_REPLAY_INVALID'' 503)
     else Inr \<lparr>sg_authorization = raw, sg_issued_at = rp_issued_at x, sg_expires_at = rp_expires_at x\<rparr>)"

definition step_up_replay :: "string \<times> session_row \<Rightarrow> string option \<Rightarrow> identity_tables
    \<Rightarrow> (step_up_replay_row \<times> step_up_row) option" where
  "step_up_replay p key db =
    (case key of None \<Rightarrow> None | Some k \<Rightarrow>
       (case dict_get (step_up_replays db) (ses_tenant_id (snd p), ses_user_id (snd p), k) of None \<Rightarrow> None
        | Some x \<Rightarrow> map_option (Pair x) (dict_get (step_ups db) (rp_step_up_id x))))"

definition issue_step_up_after_reauthentication :: "identity_service \<Rightarrow> string \<Rightarrow> string \<Rightarrow> string \<Rightarrow> string \<Rightarrow> string
    \<Rightarrow> string \<Rightarrow> int \<Rightarrow> string option \<Rightarrow> step_up_grant call" where
  "issue_step_up_after_reauthentication cfg access password grp target pv trace ttl key s =
    attempt (checked_password password) s (\<lambda>secret.
    chain (read_now cfg s) (\<lambda>now. transaction (\<lambda>s.
      chain (principal_of cfg access now s) (\<lambda>p s.
      attempt (case key of None \<Rightarrow> Inr () | Some k \<Rightarrow> and_then (checked_text k) (\<lambda>_.
        if 16 \<le> length k \<and> length k \<le> 128 then Inr () else Inl invalid_input)) s (\<lambda>_.
      let fp = step_up_fingerprint cfg p grp target pv ttl in
      case step_up_replay p key (tables s) of
        Some (x, a) \<Rightarrow> (replay_step_up cfg p (the key) fp grp target pv x a, s)
      | None \<Rightarrow>
          (case dict_get (users (tables s)) (ses_user_id (snd p)) of
             None \<Rightarrow> (Inl (IdentityError ''STEP_UP_REAUTH_UNAVAILABLE'' 403), s)
           | Some u \<Rightarrow>
               if u_issuer u \<noteq> ''local'' \<or> u_password_digest u = None
               then (Inl (IdentityError ''STEP_UP_REAUTH_UNAVAILABLE'' 403), s)
               else if \<not> password_matches cfg u secret then (Inl (IdentityError ''STEP_UP_REAUTH_REQUIRED'' 403), s)
               else if now + seconds ttl < first_instant \<or> web_session_expiry < now + seconds ttl
               then (Inl (PythonError ''OverflowError''), s)
               else
                 chain (fresh_id cfg ''sup'' s) (\<lambda>n s.
                 chain (case key of None \<Rightarrow> opaque cfg s | Some k \<Rightarrow> (Inr (step_up_hmac cfg p k fp n), s)) (\<lambda>raw s.
                 chain (statement (insert_step_up n (new_step_up cfg raw p grp target pv now (now + seconds ttl))) s) (\<lambda>_ s.
                 chain (statement (\<lambda>db. case key of None \<Rightarrow> Inr db | Some k \<Rightarrow>
                   and_then (insert_row no_index (ses_tenant_id (snd p), ses_user_id (snd p), k)
                     \<lparr>rp_fingerprint = fp, rp_step_up_id = n, rp_digest = digest cfg raw, rp_action_group = grp,
                      rp_target_id = target, rp_policy_version = pv, rp_key_id = step_up_key_id,
                      rp_key_version = step_up_key_version, rp_issued_at = now, rp_expires_at = now + seconds ttl\<rparr>
                     (step_up_replays db)) (\<lambda>d. Inr (db\<lparr>step_up_replays := d\<rparr>))) s) (\<lambda>_ s.
                 chain (audit cfg trace pv (issued_entry p n grp) s) (\<lambda>_.
                 returning \<lparr>sg_authorization = raw, sg_issued_at = now, sg_expires_at = now + seconds ttl\<rparr>)))))))))))"

definition consumption_fingerprint :: "identity_service \<Rightarrow> string \<Rightarrow> string \<times> session_row \<Rightarrow> string \<Rightarrow> string \<Rightarrow> string \<Rightarrow> string" where
  "consumption_fingerprint cfg n p grp target pv = digest cfg (json_dumps (JArr
     [JStr n, JStr (ses_user_id (snd p)), JStr (fst p), JStr (ses_device_id (snd p)), JStr (ses_tenant_id (snd p)),
      JStr grp, JStr target, JStr pv]))"

text \<open>Both or neither: the operation and the key under which a consumption can be repeated.\<close>

definition checked_operation :: "string option \<Rightarrow> string option \<Rightarrow> identity_error + (string \<times> string) option" where
  "checked_operation op key = (case (op, key) of
       (None, None) \<Rightarrow> Inr None
     | (Some o', Some k) \<Rightarrow> and_then (checked_texts [o', k]) (\<lambda>_.
         if 128 < length k then Inl invalid_input else Inr (Some (o', k)))
     | _ \<Rightarrow> Inl invalid_input)"

definition bound_to :: "step_up_row \<Rightarrow> string \<times> session_row \<Rightarrow> string \<Rightarrow> string \<Rightarrow> string \<Rightarrow> bool" where
  "bound_to a p grp target pv \<longleftrightarrow> su_actor_id a = ses_user_id (snd p) \<and> su_session_id a = fst p
    \<and> su_device_id a = ses_device_id (snd p) \<and> su_tenant_id a = ses_tenant_id (snd p)
    \<and> su_action_group a = grp \<and> su_target_id a = target \<and> su_policy_version a = pv"

definition step_up_entry :: "string \<Rightarrow> audit_outcome \<Rightarrow> string \<times> session_row \<Rightarrow> string \<Rightarrow> (string \<times> audit_value) list \<Rightarrow> audit_entry" where
  "step_up_entry act out p n md = entry act out (ses_tenant_id (snd p)) (ses_user_id (snd p)) ''step_up'' n md"

definition spend_step_up :: "identity_service \<Rightarrow> string option \<Rightarrow> string \<times> session_row \<Rightarrow> string \<Rightarrow> string \<Rightarrow> string
    \<Rightarrow> string \<Rightarrow> int \<Rightarrow> string option \<Rightarrow> string option \<Rightarrow> unit call" where
  "spend_step_up cfg raw p grp target pv trace now op key s =
    attempt (checked_operation op key) s (\<lambda>under.
    case raw of None \<Rightarrow> (Inl (IdentityError ''STEP_UP_REQUIRED'' 403), s) | Some v \<Rightarrow>
    attempt (checked_opaque v) s (\<lambda>_.
    case select_row (\<lambda>a. su_digest a = digest cfg v) (step_ups (tables s)) of
      None \<Rightarrow> (Inl (IdentityError ''STEP_UP_REQUIRED'' 403), s)
    | Some (n, a) \<Rightarrow>
        let fp = consumption_fingerprint cfg n p grp target pv;
            place = (\<lambda>(o', k). (ses_tenant_id (snd p), ses_user_id (snd p), o', k));
            deny = (\<lambda>act c. refuse cfg trace pv (step_up_entry act Denied p n (reason c)) (IdentityError c 403) s)
        in if su_used_at a \<noteq> None
        then (if (case under of None \<Rightarrow> False | Some u \<Rightarrow>
              (case dict_get (step_up_consumptions (tables s)) (place u) of None \<Rightarrow> False
               | Some x \<Rightarrow> co_fingerprint x = fp \<and> co_step_up_id x = n))
          then (Inr (), s) else deny ''identity.step_up.reuse_denied'' ''STEP_UP_REUSED'')
        else if su_expires_at a \<le> now then deny ''identity.step_up.expired'' ''STEP_UP_EXPIRED''
        else if \<not> bound_to a p grp target pv then deny ''identity.step_up.binding_denied'' ''STEP_UP_BINDING_DENIED''
        else
          chain (updating (\<lambda>db. db\<lparr>step_ups := dict_set n (a\<lparr>su_used_at := Some now\<rparr>) (step_ups db)\<rparr>) s) (\<lambda>_ s.
          chain (statement (\<lambda>db. case under of None \<Rightarrow> Inr db | Some u \<Rightarrow>
            and_then (insert_row no_index (place u) \<lparr>co_fingerprint = fp, co_step_up_id = n, co_consumed_at = now\<rparr>
              (step_up_consumptions db)) (\<lambda>d. Inr (db\<lparr>step_up_consumptions := d\<rparr>))) s) (\<lambda>_.
          audit cfg trace pv (step_up_entry ''identity.step_up.used'' Succeeded p n [(''action_group'', AText grp)])))))"

definition consume_step_up :: "identity_service \<Rightarrow> string option \<Rightarrow> string \<Rightarrow> string \<Rightarrow> string \<Rightarrow> string \<Rightarrow> string
    \<Rightarrow> string option \<Rightarrow> string option \<Rightarrow> unit call" where
  "consume_step_up cfg raw access grp target pv trace op key s =
    attempt (checked_texts [grp, target, pv, trace]) s (\<lambda>_.
    chain (read_now cfg s) (\<lambda>now. transaction (\<lambda>s.
      chain (principal_of cfg access now s) (\<lambda>p. spend_step_up cfg raw p grp target pv trace now op key))))"

section \<open>Devices and revocation\<close>

definition owned_device :: "string \<times> session_row \<Rightarrow> string \<Rightarrow> identity_tables \<Rightarrow> identity_error + unit" where
  "owned_device p d db = (case dict_get (devices db) d of
       None \<Rightarrow> Inl (IdentityError ''DEVICE_TARGET_UNAVAILABLE'' 404)
     | Some x \<Rightarrow> if dev_tenant_id x = ses_tenant_id (snd p) \<and> dev_user_id x = ses_user_id (snd p)
           \<and> dev_state x \<noteq> DeviceRevoked then Inr ()
         else Inl (IdentityError ''DEVICE_TARGET_UNAVAILABLE'' 404))"

definition owned_session :: "string \<times> session_row \<Rightarrow> string \<Rightarrow> identity_tables \<Rightarrow> identity_error + unit" where
  "owned_session p i db = (case dict_get (sessions db) i of
       None \<Rightarrow> Inl (IdentityError ''SESSION_TARGET_UNAVAILABLE'' 404)
     | Some x \<Rightarrow> if ses_tenant_id x = ses_tenant_id (snd p) \<and> ses_user_id x = ses_user_id (snd p)
           \<and> ses_state x \<noteq> Revoked then Inr ()
         else Inl (IdentityError ''SESSION_TARGET_UNAVAILABLE'' 404))"

definition device_entry :: "string \<Rightarrow> audit_outcome \<Rightarrow> string \<times> session_row \<Rightarrow> string \<Rightarrow> (string \<times> audit_value) list \<Rightarrow> audit_entry" where
  "device_entry act out p d md = entry act out (ses_tenant_id (snd p)) (ses_user_id (snd p)) ''device'' d md"

definition trust_device :: "identity_service \<Rightarrow> string \<Rightarrow> string \<Rightarrow> string \<Rightarrow> string \<Rightarrow> unit call" where
  "trust_device cfg access d trace pv s =
    attempt (checked_texts [d, trace, pv]) s (\<lambda>_.
    chain (read_now cfg s) (\<lambda>now. transaction (\<lambda>s.
      chain (principal_of cfg access now s) (\<lambda>p s.
      if ses_device_id (snd p) \<noteq> d
      then refuse cfg trace pv (device_entry ''identity.device.trust_denied'' Denied p d (reason ''DEVICE_BINDING_DENIED''))
        (IdentityError ''DEVICE_BINDING_DENIED'' 403) s
      else (case owned_device p d (tables s) of
          Inl e \<Rightarrow> refuse cfg trace pv (device_entry ''identity.device.trust_denied'' Denied p ''unavailable-device''
            (reason ''DEVICE_BINDING_DENIED'')) e s
        | Inr _ \<Rightarrow>
            chain (updating (\<lambda>db. db\<lparr>devices := update_where (\<lambda>k _. k = d)
              (\<lambda>x. x\<lparr>dev_state := Trusted, dev_updated_at := now\<rparr>) (devices db)\<rparr>) s) (\<lambda>_.
            audit cfg trace pv (device_entry ''identity.device.trusted'' Succeeded p d [])))))))"

definition session_entry :: "string \<Rightarrow> audit_outcome \<Rightarrow> string \<times> session_row \<Rightarrow> string \<Rightarrow> string \<Rightarrow> audit_entry" where
  "session_entry act out p i c = entry act out (ses_tenant_id (snd p)) (ses_user_id (snd p)) ''session'' i (reason c)"

definition revoke_group :: string where "revoke_group = ''device_session_or_sync_key_revoke''"

definition revoke_session :: "identity_service \<Rightarrow> string \<Rightarrow> string \<Rightarrow> string option \<Rightarrow> string \<Rightarrow> string \<Rightarrow> unit call" where
  "revoke_session cfg access i raw pv trace s =
    attempt (checked_texts [i, pv, trace]) s (\<lambda>_.
    chain (read_now cfg s) (\<lambda>now. transaction (\<lambda>s.
      chain (principal_of cfg access now s) (\<lambda>p s.
      case owned_session p i (tables s) of
        Inl e \<Rightarrow> refuse cfg trace pv (session_entry ''identity.session.revoke_denied'' Denied p ''unavailable-session''
          ''SESSION_TARGET_UNAVAILABLE'') e s
      | Inr _ \<Rightarrow>
          chain (spend_step_up cfg raw p revoke_group i pv trace now None None s) (\<lambda>_ s.
          chain (updating (revoke_where (\<lambda>k _. k = i) now) s) (\<lambda>_.
          audit cfg trace pv (session_entry ''identity.session.revoked'' Succeeded p i ''USER_REQUESTED'')))))))"

fun audit_revoked :: "identity_service \<Rightarrow> string \<Rightarrow> string \<Rightarrow> string \<times> session_row \<Rightarrow> string list \<Rightarrow> unit call" where
  "audit_revoked cfg trace pv p [] s = (Inr (), s)"
| "audit_revoked cfg trace pv p (i # is) s =
    chain (audit cfg trace pv (session_entry ''identity.session.revoked'' Succeeded p i ''DEVICE_REVOKED'') s)
      (\<lambda>_. audit_revoked cfg trace pv p is)"

definition on_device :: "string \<times> session_row \<Rightarrow> string \<Rightarrow> session_row \<Rightarrow> bool" where
  "on_device p d r \<longleftrightarrow> ses_device_id r = d \<and> ses_tenant_id r = ses_tenant_id (snd p) \<and> ses_user_id r = ses_user_id (snd p)"

definition revoke_device :: "identity_service \<Rightarrow> string \<Rightarrow> string \<Rightarrow> string option \<Rightarrow> string \<Rightarrow> string \<Rightarrow> (string \<times> bool) call" where
  "revoke_device cfg access d raw pv trace s =
    attempt (checked_texts [d, pv, trace]) s (\<lambda>_.
    chain (read_now cfg s) (\<lambda>now. transaction (\<lambda>s.
      chain (principal_of cfg access now s) (\<lambda>p s.
      attempt (owned_device p d (tables s)) s (\<lambda>_.
      let targets = sort (map fst (filter (\<lambda>(_, r). on_device p d r \<and> ses_state r = Active) (sessions (tables s)))) in
      chain (spend_step_up cfg raw p revoke_group d pv trace now None None s) (\<lambda>_ s.
      chain (updating (\<lambda>db. revoke_where (\<lambda>_ r. on_device p d r) now
        (db\<lparr>devices := update_where (\<lambda>k x. k = d \<and> dev_tenant_id x = ses_tenant_id (snd p) \<and> dev_user_id x = ses_user_id (snd p))
          (\<lambda>x. x\<lparr>dev_state := DeviceRevoked, dev_updated_at := now\<rparr>) (devices db)\<rparr>)) s) (\<lambda>_ s.
      chain (audit_revoked cfg trace pv p targets s) (\<lambda>_ s.
      chain (audit cfg trace pv (device_entry ''identity.device.revoked'' Succeeded p d
        [(''sync_key_revoke_required'', ABool True)]) s) (\<lambda>_. returning (d, True))))))))))"

section \<open>Logout\<close>

definition logout_clash :: "logout_row \<Rightarrow> logout_row \<Rightarrow> bool" where
  "logout_clash v w \<longleftrightarrow> lo_session_id v = lo_session_id w"

definition logout_event_id :: "identity_service \<Rightarrow> string \<Rightarrow> string" where
  "logout_event_id cfg i = ''audit-self-logout-'' @ take 32 (digest cfg (''SELF_LOGOUT'' @ CHR 0x00 # i))"

definition end_session :: "identity_service \<Rightarrow> string \<Rightarrow> session_row \<Rightarrow> int \<Rightarrow> string \<Rightarrow> string \<Rightarrow> unit call" where
  "end_session cfg i r now trace pv s =
    chain (updating (revoke_where (\<lambda>k _. k = i) now) s) (\<lambda>_.
    statement (\<lambda>db. and_then (insert_row logout_clash (logout_event_id cfg i)
      \<lparr>lo_session_id = i, lo_tenant_id = ses_tenant_id r, lo_actor_id = ses_user_id r, lo_occurred_at = now,
       lo_trace_id = trace, lo_policy_version = pv, lo_delivered_at = None, lo_created_at = now\<rparr> (logout_outbox db))
      (\<lambda>d. Inr (db\<lparr>logout_outbox := d\<rparr>))))"

text \<open>
  The logout of the session of an access token: whether it was a repetition. For a session in the
  web an expired access counts as ended, although it still gives access.
\<close>

definition logout :: "identity_service \<Rightarrow> client_kind \<Rightarrow> string \<Rightarrow> string \<Rightarrow> string \<Rightarrow> bool call" where
  "logout cfg kind access pv trace s =
    attempt (checked_texts [pv, trace]) s (\<lambda>_.
    if \<not> opaque_text access then (Inl (IdentityError ''ACCESS_INVALID'' 401), s)
    else chain (read_now cfg s) (\<lambda>now s.
      chain (transaction (\<lambda>s.
        case session_of cfg access (tables s) of
          None \<Rightarrow> (Inl (IdentityError ''ACCESS_INVALID'' 401), s)
        | Some (i, r) \<Rightarrow>
            if ses_client_kind r \<noteq> kind then (Inl (IdentityError ''ACCESS_INVALID'' 401), s)
            else if ses_state r \<noteq> Active \<or> kind = Web \<and> ses_access_expires_at r \<le> now then (Inr (i, True), s)
            else chain (end_session cfg i r now trace pv s) (\<lambda>_. returning (i, False))) s) (\<lambda>(i, replayed) s.
      (Inr replayed, dispatch_pending_self_logout_audits cfg (Some i) s))))"

definition revoke_current_web_session :: "identity_service \<Rightarrow> string \<Rightarrow> string \<Rightarrow> string \<Rightarrow> bool call" where
  "revoke_current_web_session cfg = logout cfg Web"

definition revoke_current_native_session :: "identity_service \<Rightarrow> string \<Rightarrow> string \<Rightarrow> string \<Rightarrow> bool call" where
  "revoke_current_native_session cfg = logout cfg Native"

section \<open>The state of a user\<close>

text \<open>
  What \<open>change_state\<close> of \<open>admin_users.py\<close> writes to these tables, after its checks: the state, the
  verification of an approved account, and the revocation of all sessions where the state changed.
\<close>

definition set_user_state :: "string \<Rightarrow> string \<Rightarrow> int \<Rightarrow> identity_tables \<Rightarrow> identity_tables" where
  "set_user_state u st now db =
    (case dict_get (users db) u of None \<Rightarrow> db
     | Some r \<Rightarrow>
         let db' = set_user u (\<lambda>x. if st = ''active'' \<and> u_state r = ''pending_approval''
               then x\<lparr>u_state := st, u_email_verified_at := (case u_email_verified_at x of None \<Rightarrow> Some now | Some v \<Rightarrow> Some v)\<rparr>
               else x\<lparr>u_state := st\<rparr>) db
         in if u_state r \<noteq> st then revoke_user_sessions u now db' else db')"

end
