(* ===== verification/Identity_Invariant.thy ===== *)
theory Identity_Invariant
  imports Identity_Sessions Security_Audit_Invariant
begin

text \<open>
  What every call of the identity service keeps: the invariant of the tables (unique digests, families
  alive exactly with their sessions, one unspent token in a family, revoked devices without live
  sessions), how rows can change (nothing comes back to life, nothing spent is spent again), and that
  every session was audited. A calculus of outcomes carries these facts through the calls.
\<close>

section \<open>Tables\<close>

lemma get_update_where [simp]:
  "dict_get (update_where P f d) k = map_option (\<lambda>v. if P k v then f v else v) (dict_get d k)"
  by (induction d) (auto simp: update_where_def)

lemma keys_update_where [simp]: "map fst (update_where P f d) = map fst d"
  by (induction d) (auto simp: update_where_def)

lemma values_update_where:
  "(\<And>v. g (f v) = g v) \<Longrightarrow> map (g \<circ> snd) (update_where P f d) = map (g \<circ> snd) d"
  by (induction d) (auto simp: update_where_def)

lemma insert_rowD:
  assumes "insert_row clash k v d = Inr d'"
  shows "dict_get d k = None" "d' = dict_set k v d" "\<And>w j. dict_get d j = Some w \<Longrightarrow> \<not> clash v w"
proof -
  show "dict_get d k = None" "d' = dict_set k v d"
    using assms by (auto simp: insert_row_def split: if_splits)
  show "\<not> clash v w" if "dict_get d j = Some w" for w j
    using assms map_of_SomeD [OF that] by (force simp: insert_row_def list_ex_iff split: if_splits)
qed

lemma get_insert_or_ignore:
  "dict_get (insert_or_ignore k v d) j = (if j = k \<and> dict_get d k = None then Some v else dict_get d j)"
  by (auto simp: insert_or_ignore_def)

lemma select_row_Some:
  assumes "dict_ok d" and "select_row P d = Some (k, v)"
  shows "dict_get d k = Some v" "P v"
proof -
  have "(k, v) \<in> set d" "P v" using assms(2) by (auto simp: select_row_def find_Some_iff in_set_conv_nth)
  then show "dict_get d k = Some v" "P v" using assms(1) by (simp_all add: dict_get_mem)
qed

lemma select_row_None: "select_row P d = None \<Longrightarrow> dict_get d k = Some v \<Longrightarrow> \<not> P v"
  by (auto simp: select_row_def find_None_iff dest: map_of_SomeD)

text \<open>Where at most one row has a property, a selection finds it.\<close>

lemma select_row_unique:
  assumes "dict_ok d" and "dict_get d k = Some v" and "P v"
    and "\<And>j w. dict_get d j = Some w \<Longrightarrow> P w \<Longrightarrow> j = k"
  shows "select_row P d = Some (k, v)"
proof (cases "select_row P d")
  case None
  then show ?thesis using select_row_None [of P d k v] assms(2,3) by simp
next
  case (Some x)
  then obtain j w where jw: "select_row P d = Some (j, w)" by (cases x) simp
  with select_row_Some [OF assms(1)] have "dict_get d j = Some w" "P w" by blast+
  with assms(2,4) have "j = k" "w = v" by auto
  with jw show ?thesis by simp
qed

section \<open>How rows change\<close>

text \<open>Every row stays, and is related to what it was.\<close>

definition grows :: "('v \<Rightarrow> 'v \<Rightarrow> bool) \<Rightarrow> ('k, 'v) dict \<Rightarrow> ('k, 'v) dict \<Rightarrow> bool" where
  "grows R d d' \<longleftrightarrow> (\<forall>k v. dict_get d k = Some v \<longrightarrow> (\<exists>v'. dict_get d' k = Some v' \<and> R v v'))"

lemma growsE:
  assumes "grows R d d'" and "dict_get d k = Some v"
  obtains v' where "dict_get d' k = Some v'" and "R v v'"
  using assms unfolding grows_def by blast

lemma grows_refl: "(\<And>v. R v v) \<Longrightarrow> grows R d d"
  by (simp add: grows_def)

lemma grows_trans: "grows R a b \<Longrightarrow> grows R b c \<Longrightarrow> (\<And>x y z. R x y \<Longrightarrow> R y z \<Longrightarrow> R x z) \<Longrightarrow> grows R a c"
  unfolding grows_def by meson

lemma grows_insert: "dict_get d k = None \<Longrightarrow> (\<And>v. R v v) \<Longrightarrow> grows R d (dict_set k v d)"
  by (auto simp: grows_def)

lemma grows_set: "dict_get d k = Some v \<Longrightarrow> R v v' \<Longrightarrow> (\<And>v. R v v) \<Longrightarrow> grows R d (dict_set k v' d)"
  by (auto simp: grows_def)

lemma grows_where: "(\<And>k v. dict_get d k = Some v \<Longrightarrow> P k v \<Longrightarrow> R v (f v)) \<Longrightarrow> (\<And>v. R v v) \<Longrightarrow> grows R d (update_where P f d)"
  by (auto simp: grows_def)

text \<open>A field that is empty is set at most once.\<close>

definition set_once :: "'a option \<Rightarrow> 'a option \<Rightarrow> bool" where
  "set_once a b \<longleftrightarrow> a = None \<or> b = a"

definition session_later :: "session_row \<Rightarrow> session_row \<Rightarrow> bool" where
  "session_later r r' \<longleftrightarrow> ses_tenant_id r' = ses_tenant_id r \<and> ses_user_id r' = ses_user_id r
    \<and> ses_device_id r' = ses_device_id r \<and> ses_client_kind r' = ses_client_kind r
    \<and> (ses_state r = Revoked \<longrightarrow> ses_state r' = Revoked \<and> ses_access_digest r' = ses_access_digest r)"

definition family_later :: "family_row \<Rightarrow> family_row \<Rightarrow> bool" where
  "family_later f f' \<longleftrightarrow> fam_session_id f' = fam_session_id f \<and> (fam_state f = Revoked \<longrightarrow> fam_state f' = Revoked)"

definition refresh_later :: "refresh_row \<Rightarrow> refresh_row \<Rightarrow> bool" where
  "refresh_later r r' \<longleftrightarrow> r' = r\<lparr>ref_used_at := ref_used_at r'\<rparr> \<and> set_once (ref_used_at r) (ref_used_at r')"

definition step_up_later :: "step_up_row \<Rightarrow> step_up_row \<Rightarrow> bool" where
  "step_up_later r r' \<longleftrightarrow> r' = r\<lparr>su_used_at := su_used_at r'\<rparr> \<and> set_once (su_used_at r) (su_used_at r')"

definition oidc_later :: "oidc_row \<Rightarrow> oidc_row \<Rightarrow> bool" where
  "oidc_later r r' \<longleftrightarrow> r' = r\<lparr>ot_used_at := ot_used_at r'\<rparr> \<and> set_once (ot_used_at r) (ot_used_at r')"

definition switch_later :: "switch_row \<Rightarrow> switch_row \<Rightarrow> bool" where
  "switch_later r r' \<longleftrightarrow> r' = r\<lparr>sw_delivered_at := sw_delivered_at r'\<rparr>"

definition device_later :: "device_row \<Rightarrow> device_row \<Rightarrow> bool" where
  "device_later r r' \<longleftrightarrow> dev_tenant_id r' = dev_tenant_id r \<and> dev_user_id r' = dev_user_id r
    \<and> (dev_state r = DeviceRevoked \<longrightarrow> dev_state r' = DeviceRevoked)"

lemmas later_defs = session_later_def family_later_def refresh_later_def step_up_later_def oidc_later_def
  switch_later_def device_later_def set_once_def

lemma later_refl [simp]:
  "session_later r1 r1" "family_later r2 r2" "refresh_later r3 r3" "step_up_later r4 r4" "oidc_later r5 r5"
  "switch_later r6 r6" "device_later r7 r7"
  by (simp_all add: later_defs)

lemma refresh_later_trans: "refresh_later a b \<Longrightarrow> refresh_later b c \<Longrightarrow> refresh_later a c"
  by (cases a; cases b; cases c) (auto simp: later_defs)

lemma step_up_later_trans: "step_up_later a b \<Longrightarrow> step_up_later b c \<Longrightarrow> step_up_later a c"
  by (cases a; cases b; cases c) (auto simp: later_defs)

lemma oidc_later_trans: "oidc_later a b \<Longrightarrow> oidc_later b c \<Longrightarrow> oidc_later a c"
  by (cases a; cases b; cases c) (auto simp: later_defs)

lemma later_trans:
  "session_later s1 s2 \<Longrightarrow> session_later s2 s3 \<Longrightarrow> session_later s1 s3"
  "family_later f1 f2 \<Longrightarrow> family_later f2 f3 \<Longrightarrow> family_later f1 f3"
  "device_later d1 d2 \<Longrightarrow> device_later d2 d3 \<Longrightarrow> device_later d1 d3"
  by (auto simp: session_later_def family_later_def device_later_def)

lemma switch_later_trans: "switch_later a b \<Longrightarrow> switch_later b c \<Longrightarrow> switch_later a c"
  by (cases a; cases b; cases c) (auto simp: switch_later_def)

text \<open>A consumption that is new is one of an authorization that was unused.\<close>

definition keeps_spent :: "(string, step_up_row) dict \<Rightarrow> ('k, consumption_row) dict \<Rightarrow> ('k, consumption_row) dict \<Rightarrow> bool" where
  "keeps_spent su cs cs' \<longleftrightarrow> (\<forall>q x a. dict_get cs' q = Some x \<longrightarrow> dict_get su (co_step_up_id x) = Some a
    \<longrightarrow> su_used_at a \<noteq> None \<longrightarrow> dict_get cs q = Some x)"

lemma keeps_spent_refl [simp]: "keeps_spent su cs cs"
  by (simp add: keeps_spent_def)

lemma keeps_spent_trans:
  assumes "keeps_spent su cs cs'" and "keeps_spent su' cs' cs''" and "grows step_up_later su su'"
  shows "keeps_spent su cs cs''"
proof -
  have "dict_get cs q = Some x"
    if row: "dict_get cs'' q = Some x" and su: "dict_get su (co_step_up_id x) = Some a" "su_used_at a \<noteq> None" for q x a
  proof -
    obtain a' where a': "dict_get su' (co_step_up_id x) = Some a'" "step_up_later a a'"
      using assms(3) su(1) by (rule growsE)
    then have "su_used_at a' \<noteq> None" using su(2) by (auto simp: step_up_later_def set_once_def)
    then have "dict_get cs' q = Some x" using assms(2) row a'(1) unfolding keeps_spent_def by blast
    then show ?thesis using assms(1) su unfolding keeps_spent_def by blast
  qed
  then show ?thesis by (auto simp: keeps_spent_def)
qed

definition evolves :: "identity_tables \<Rightarrow> identity_tables \<Rightarrow> bool" where
  "evolves db db' \<longleftrightarrow> grows session_later (sessions db) (sessions db')
    \<and> grows family_later (refresh_families db) (refresh_families db')
    \<and> grows refresh_later (refresh_tokens db) (refresh_tokens db')
    \<and> grows step_up_later (step_ups db) (step_ups db')
    \<and> grows oidc_later (oidc_transactions db) (oidc_transactions db')
    \<and> grows switch_later (switch_outbox db) (switch_outbox db')
    \<and> grows device_later (devices db) (devices db')
    \<and> grows (=) (step_up_consumptions db) (step_up_consumptions db')
    \<and> keeps_spent (step_ups db) (step_up_consumptions db) (step_up_consumptions db')"

lemma evolvesD:
  assumes "evolves db db'"
  shows "grows session_later (sessions db) (sessions db')" "grows family_later (refresh_families db) (refresh_families db')"
    "grows refresh_later (refresh_tokens db) (refresh_tokens db')" "grows step_up_later (step_ups db) (step_ups db')"
    "grows oidc_later (oidc_transactions db) (oidc_transactions db')" "grows switch_later (switch_outbox db) (switch_outbox db')"
    "grows device_later (devices db) (devices db')" "grows (=) (step_up_consumptions db) (step_up_consumptions db')"
    "keeps_spent (step_ups db) (step_up_consumptions db) (step_up_consumptions db')"
  using assms unfolding evolves_def by blast+

lemma evolves_refl: "evolves db db"
  by (simp add: evolves_def grows_refl)

lemma evolves_trans: "evolves a b \<Longrightarrow> evolves b c \<Longrightarrow> evolves a c"
  unfolding evolves_def
  by (elim conjE, intro conjI; (erule (1) grows_trans | erule (2) keeps_spent_trans))
    (erule (1) later_trans refresh_later_trans step_up_later_trans oidc_later_trans switch_later_trans | simp)+

section \<open>The invariant of the tables\<close>

text \<open>No two rows have the same value of a column.\<close>

definition unique_column :: "('v \<Rightarrow> 'c) \<Rightarrow> ('k, 'v) dict \<Rightarrow> bool" where
  "unique_column c d \<longleftrightarrow> (\<forall>j k v w. dict_get d j = Some v \<longrightarrow> dict_get d k = Some w \<longrightarrow> c v = c w \<longrightarrow> j = k)"

lemma unique_column_insert:
  assumes "unique_column c d" and "insert_row clash k v d = Inr d'" and "\<And>w. c v = c w \<Longrightarrow> clash v w"
  shows "unique_column c d'"
  using assms(1) insert_rowD [OF assms(2)] assms(3) by (auto simp: unique_column_def split: if_splits) metis+

lemma unique_column_where: "(\<And>v. c (f v) = c v) \<Longrightarrow> unique_column c d \<Longrightarrow> unique_column c (update_where P f d)"
  by (auto simp: unique_column_def split: if_splits)

lemma unique_column_set: "unique_column c d \<Longrightarrow> dict_get d k = Some v \<Longrightarrow> c v' = c v \<Longrightarrow> unique_column c (dict_set k v' d)"
  by (auto simp: unique_column_def split: if_splits)

definition session_ok :: "(string, device_row) dict \<Rightarrow> session_row \<Rightarrow> bool" where
  "session_ok ds r \<longleftrightarrow> (\<exists>d. dict_get ds (ses_device_id r) = Some d \<and> dev_tenant_id d = ses_tenant_id r
    \<and> dev_user_id d = ses_user_id r \<and> (dev_state d = DeviceRevoked \<longrightarrow> ses_state r = Revoked))"

definition family_ok :: "(string, session_row) dict \<Rightarrow> family_row \<Rightarrow> bool" where
  "family_ok ss f \<longleftrightarrow> (\<exists>r. dict_get ss (fam_session_id f) = Some r \<and> ses_state r = fam_state f \<and> ses_client_kind r = Native)"

definition sessions_ok :: "identity_tables \<Rightarrow> bool" where
  "sessions_ok db \<longleftrightarrow> dict_ok (sessions db) \<and> dict_ok (refresh_families db) \<and> dict_ok (devices db)
    \<and> unique_column ses_access_digest (sessions db) \<and> unique_column fam_session_id (refresh_families db)
    \<and> (\<forall>i r. dict_get (sessions db) i = Some r \<longrightarrow> session_ok (devices db) r)
    \<and> (\<forall>i f. dict_get (refresh_families db) i = Some f \<longrightarrow> family_ok (sessions db) f)"

definition refresh_ok :: "(string, family_row) dict \<Rightarrow> (string, refresh_row) dict \<Rightarrow> bool" where
  "refresh_ok fs rs \<longleftrightarrow> dict_ok rs \<and> unique_column ref_digest rs
    \<and> (\<forall>n r. dict_get rs n = Some r \<longrightarrow> dict_get fs (ref_family_id r) \<noteq> None)
    \<and> (\<forall>m n r q. dict_get rs m = Some r \<longrightarrow> dict_get rs n = Some q \<longrightarrow> ref_family_id r = ref_family_id q
        \<longrightarrow> ref_used_at r = None \<longrightarrow> ref_used_at q = None \<longrightarrow> m = n)"

text \<open>Every consumption is of a used authorization, which has no other.\<close>

definition spent_ok :: "(string, step_up_row) dict \<Rightarrow> ('k, consumption_row) dict \<Rightarrow> bool" where
  "spent_ok su cs \<longleftrightarrow> unique_column co_step_up_id cs
    \<and> (\<forall>q x. dict_get cs q = Some x \<longrightarrow> (\<exists>a. dict_get su (co_step_up_id x) = Some a \<and> su_used_at a \<noteq> None))"

lemma spent_ok_grows:
  assumes "spent_ok su cs" and "grows step_up_later su su'"
  shows "spent_ok su' cs"
proof -
  have "\<exists>a'. dict_get su' n = Some a' \<and> su_used_at a' \<noteq> None" if "dict_get su n = Some a" "su_used_at a \<noteq> None" for n a
    using assms(2) that by (elim growsE) (auto simp: step_up_later_def set_once_def)
  then show ?thesis using assms(1) unfolding spent_ok_def by meson
qed

lemma spent_ok_unused:
  assumes "spent_ok su cs" and "dict_get su n = Some a" and "su_used_at a = None" and "dict_get cs q = Some y"
  shows "co_step_up_id y \<noteq> n"
proof
  assume "co_step_up_id y = n"
  moreover have "\<exists>b. dict_get su (co_step_up_id y) = Some b \<and> su_used_at b \<noteq> None"
    using assms(1,4) unfolding spent_ok_def by blast
  ultimately show False using assms(2,3) by simp
qed

lemma spent_ok_insert:
  assumes "spent_ok su cs" and "dict_get su n = Some a" and "su_used_at a \<noteq> None" and "co_step_up_id x = n"
    and "\<And>q y. dict_get cs q = Some y \<Longrightarrow> co_step_up_id y \<noteq> n"
  shows "spent_ok su (dict_set k x cs)"
  using assms(1) unfolding spent_ok_def unique_column_def
  by (intro conjI allI impI; elim conjE) (use assms(2-5) in \<open>auto split: if_splits\<close>)

definition db_ok :: "identity_tables \<Rightarrow> bool" where
  "db_ok db \<longleftrightarrow> sessions_ok db \<and> refresh_ok (refresh_families db) (refresh_tokens db)
    \<and> dict_ok (step_ups db) \<and> unique_column su_digest (step_ups db)
    \<and> dict_ok (oidc_transactions db) \<and> unique_column ot_state_digest (oidc_transactions db)
    \<and> spent_ok (step_ups db) (step_up_consumptions db)"

text \<open>What a statement may do, where only the sessions of a given set are new.\<close>

definition fits :: "string set \<Rightarrow> identity_tables \<Rightarrow> identity_tables \<Rightarrow> bool" where
  "fits X db db' \<longleftrightarrow> (db_ok db \<longrightarrow> db_ok db' \<and> evolves db db'
    \<and> (\<forall>i. dict_get (sessions db') i \<noteq> None \<longrightarrow> i \<in> X \<or> dict_get (sessions db) i \<noteq> None))"

lemma fits_refl: "fits X db db"
  by (simp add: fits_def evolves_refl)

lemma fits_trans: "fits X a b \<Longrightarrow> fits X b c \<Longrightarrow> fits X a c"
  unfolding fits_def using evolves_trans by blast

text \<open>Tables that the invariant does not speak about.\<close>

lemma fits_untouched:
  assumes "sessions db' = sessions db" "refresh_families db' = refresh_families db" "refresh_tokens db' = refresh_tokens db"
    "step_ups db' = step_ups db" "oidc_transactions db' = oidc_transactions db" "switch_outbox db' = switch_outbox db"
    "devices db' = devices db" "step_up_consumptions db' = step_up_consumptions db"
  shows "fits X db db'"
  using assms by (simp add: fits_def db_ok_def sessions_ok_def evolves_def grows_refl)

section \<open>What the statements do\<close>

lemma session_ok_revoked: "session_ok ds r \<Longrightarrow> session_ok ds (r\<lparr>ses_state := Revoked, ses_updated_at := now\<rparr>)"
  by (auto simp: session_ok_def)

lemma fits_revoke_where: "fits X db (revoke_where P now db)"
proof -
  let ?db = "revoke_where P now db"
  have sessions: "dict_get (sessions ?db) i = map_option (\<lambda>r. if P i r then r\<lparr>ses_state := Revoked, ses_updated_at := now\<rparr> else r)
      (dict_get (sessions db) i)" for i
    by (simp add: revoke_where_def)
  have "evolves db ?db"
    by (auto simp: evolves_def revoke_where_def grows_refl session_later_def family_later_def intro!: grows_where)
  moreover have "sessions_ok ?db" if ok: "sessions_ok db"
  proof -
    have "session_ok (devices db) r" if "dict_get (sessions ?db) i = Some r" for i r
      using that ok by (auto simp: sessions sessions_ok_def session_ok_revoked split: if_splits)
    moreover have "family_ok (sessions ?db) f" if f: "dict_get (refresh_families ?db) k = Some f" for k f
    proof -
      obtain f0 where f0: "dict_get (refresh_families db) k = Some f0" "fam_session_id f = fam_session_id f0"
        using f by (auto simp: revoke_where_def split: if_splits)
      have "family_ok (sessions db) f0" using ok f0(1) by (auto simp: sessions_ok_def)
      then obtain r where r: "dict_get (sessions db) (fam_session_id f0) = Some r" "ses_state r = fam_state f0"
        "ses_client_kind r = Native"
        by (auto simp: family_ok_def)
      have "f = (if P (fam_session_id f0) r then f0\<lparr>fam_state := Revoked, fam_updated_at := now\<rparr> else f0)"
        using f f0(1) r(1) by (auto simp: revoke_where_def)
      then show ?thesis using r by (auto simp: family_ok_def sessions)
    qed
    ultimately show ?thesis
      using ok by (auto simp: sessions_ok_def revoke_where_def intro!: unique_column_where)
  qed
  moreover have "refresh_ok (refresh_families ?db) (refresh_tokens ?db)" if "refresh_ok (refresh_families db) (refresh_tokens db)"
    using that by (auto simp: refresh_ok_def revoke_where_def)
  ultimately show ?thesis
    by (auto simp: fits_def db_ok_def revoke_where_def)
qed

lemma fits_revoke_family:
  assumes "dict_get (refresh_families db) f = Some x" and "fam_session_id x = i"
  shows "fits X db (revoke_family f i now db)"
proof -
  let ?db = "revoke_family f i now db"
  have "evolves db ?db"
    by (auto simp: evolves_def revoke_family_def grows_refl session_later_def family_later_def intro!: grows_where)
  moreover have "sessions_ok ?db" if ok: "sessions_ok db"
  proof -
    have "session_ok (devices db) r" if "dict_get (sessions ?db) i = Some r" for i r
      using that ok by (auto simp: revoke_family_def sessions_ok_def session_ok_revoked split: if_splits)
    moreover have "family_ok (sessions ?db) y" if y: "dict_get (refresh_families ?db) k = Some y" for k y
    proof -
      obtain y0 where y0: "dict_get (refresh_families db) k = Some y0"
        and yk: "y = (if k = f then y0\<lparr>fam_state := Revoked, fam_updated_at := now\<rparr> else y0)"
        using y by (auto simp: revoke_family_def)
      have "family_ok (sessions db) y0" using ok y0 by (auto simp: sessions_ok_def)
      then obtain r where r: "dict_get (sessions db) (fam_session_id y0) = Some r" "ses_state r = fam_state y0"
        "ses_client_kind r = Native"
        by (auto simp: family_ok_def)
      have "k = f" if "fam_session_id y0 = i"
        using that ok y0 assms by (auto simp: sessions_ok_def unique_column_def)
      then show ?thesis using r yk assms y0 by (auto simp: family_ok_def revoke_family_def)
    qed
    ultimately show ?thesis
      using ok by (auto simp: sessions_ok_def revoke_family_def intro!: unique_column_where)
  qed
  moreover have "refresh_ok (refresh_families ?db) (refresh_tokens ?db)" if "refresh_ok (refresh_families db) (refresh_tokens db)"
    using that by (auto simp: refresh_ok_def revoke_family_def)
  ultimately show ?thesis
    by (auto simp: fits_def db_ok_def revoke_family_def)
qed

lemma and_then_InrE:
  assumes "and_then r k = Inr b"
  obtains a where "r = Inr a" and "k a = Inr b"
  using assms by (cases r) auto

lemma insert_sessionD:
  assumes "insert_session t u pl d i kind dig ex now db = Inr db'"
  obtains ds ss where "insert_row no_index d \<lparr>dev_tenant_id = t, dev_user_id = u, dev_platform = pl,
      dev_state = Registered, dev_last_seen_at = now, dev_created_at = now, dev_updated_at = now\<rparr> (devices db) = Inr ds"
    and "insert_row session_clash i \<lparr>ses_tenant_id = t, ses_user_id = u, ses_device_id = d,
      ses_client_kind = kind, ses_access_digest = dig, ses_access_expires_at = ex,
      ses_state = Active, ses_created_at = now, ses_updated_at = now\<rparr> (sessions db) = Inr ss"
    and "db' = db\<lparr>devices := ds, sessions := ss\<rparr>"
  using assms unfolding insert_session_def by (auto elim!: and_then_InrE)

lemma session_ok_new_device:
  assumes "session_ok ds r" and "dict_get ds d = None"
  shows "session_ok (dict_set d x ds) r"
  using assms by (auto simp: session_ok_def)

lemma family_ok_new_session:
  assumes "family_ok ss f" and "dict_get ss i = None"
  shows "family_ok (dict_set i x ss) f"
  using assms by (auto simp: family_ok_def)

lemma fits_insert_session:
  assumes "insert_session t u pl d i kind dig ex now db = Inr db'" and "i \<in> X"
  shows "fits X db db'"
  using assms(1)
proof (rule insert_sessionD)
  fix ds ss
  define r where "r = \<lparr>ses_tenant_id = t, ses_user_id = u, ses_device_id = d, ses_client_kind = kind,
    ses_access_digest = dig, ses_access_expires_at = ex, ses_state = Active, ses_created_at = now, ses_updated_at = now\<rparr>"
  define x where "x = \<lparr>dev_tenant_id = t, dev_user_id = u, dev_platform = pl, dev_state = Registered,
    dev_last_seen_at = now, dev_created_at = now, dev_updated_at = now\<rparr>"
  assume ins: "insert_row no_index d x (devices db) = Inr ds" "insert_row session_clash i r (sessions db) = Inr ss"
    and db': "db' = db\<lparr>devices := ds, sessions := ss\<rparr>"
  note ds = insert_rowD(1,2) [OF ins(1)] and ss = insert_rowD(1,2) [OF ins(2)]
  have "session_ok (dict_set d x (devices db)) r" by (simp add: session_ok_def r_def x_def)
  then have "sessions_ok db'" if "sessions_ok db"
    using that ds ss unique_column_insert [OF _ ins(2), of ses_access_digest]
    by (auto simp: sessions_ok_def db' session_clash_def session_ok_new_device family_ok_new_session split: if_splits)
  moreover have "evolves db db'"
    using ds ss by (simp add: evolves_def db' grows_refl grows_insert)
  ultimately show "fits X db db'"
    using ss assms(2) by (auto simp: fits_def db_ok_def db')
qed

lemma fits_insert_family:
  assumes "insert_family f i now db = Inr db'" and "dict_get (sessions db) i = Some r" and "ses_state r = Active"
    and "ses_client_kind r = Native" and "\<And>k x. dict_get (refresh_families db) k = Some x \<Longrightarrow> fam_session_id x \<noteq> i"
  shows "fits X db db'"
proof -
  obtain fs where ins: "insert_row no_index f \<lparr>fam_session_id = i, fam_state = Active, fam_created_at = now,
      fam_updated_at = now\<rparr> (refresh_families db) = Inr fs" and db': "db' = db\<lparr>refresh_families := fs\<rparr>"
    using assms(1) by (auto simp: insert_family_def elim!: and_then_InrE)
  note fs = insert_rowD(1,2) [OF ins]
  have "sessions_ok db'" if "sessions_ok db"
    using that fs assms(2-5) by (auto simp: sessions_ok_def db' family_ok_def unique_column_def split: if_splits)
  moreover have "refresh_ok (refresh_families db') (refresh_tokens db')" if "refresh_ok (refresh_families db) (refresh_tokens db)"
    using that fs by (auto simp: refresh_ok_def db')
  moreover have "evolves db db'" using fs by (simp add: evolves_def db' grows_refl grows_insert)
  ultimately show ?thesis by (auto simp: fits_def db_ok_def db')
qed

lemma fits_insert_refresh:
  assumes "insert_refresh n f dig now db = Inr db'" and "dict_get (refresh_families db) f \<noteq> None"
    and "\<And>m q. dict_get (refresh_tokens db) m = Some q \<Longrightarrow> ref_family_id q = f \<Longrightarrow> ref_used_at q \<noteq> None"
  shows "fits X db db'"
proof -
  obtain rs where ins: "insert_row refresh_clash n \<lparr>ref_family_id = f, ref_digest = dig, ref_expires_at = now + refresh_ttl,
      ref_used_at = None, ref_created_at = now\<rparr> (refresh_tokens db) = Inr rs" and db': "db' = db\<lparr>refresh_tokens := rs\<rparr>"
    using assms(1) by (auto simp: insert_refresh_def elim!: and_then_InrE)
  note rs = insert_rowD(1,2) [OF ins]
  have "refresh_ok (refresh_families db') (refresh_tokens db')" if "refresh_ok (refresh_families db) (refresh_tokens db)"
    using that rs assms(2,3) unique_column_insert [OF _ ins, of ref_digest]
    by (auto simp: refresh_ok_def db' refresh_clash_def split: if_splits)
  moreover have "evolves db db'" using rs by (simp add: evolves_def db' grows_refl grows_insert)
  ultimately show ?thesis by (auto simp: fits_def db_ok_def sessions_ok_def db')
qed

lemma fits_spend_refresh:
  assumes "dict_get (refresh_tokens db) n = Some r" and "ref_used_at r = None"
  shows "fits X db (db\<lparr>refresh_tokens := dict_set n (r\<lparr>ref_used_at := Some now\<rparr>) (refresh_tokens db)\<rparr>)"
  using assms unique_column_set [of ref_digest "refresh_tokens db" n r "r\<lparr>ref_used_at := Some now\<rparr>"]
  by (auto simp: fits_def db_ok_def sessions_ok_def evolves_def grows_refl refresh_ok_def refresh_later_def set_once_def
      intro!: grows_set)

lemma fits_set_access:
  assumes "set_access i y db = Inr db'" and "dict_get (sessions db) i = Some x" and "ses_state x = Active"
    and "y = x\<lparr>ses_access_digest := ses_access_digest y, ses_access_expires_at := ses_access_expires_at y,
      ses_updated_at := ses_updated_at y\<rparr>"
  shows "fits X db db'"
proof -
  have db': "db' = db\<lparr>sessions := update_where (\<lambda>k _. k = i) (\<lambda>_. y) (sessions db)\<rparr>"
    and free: "\<And>k z. dict_get (sessions db) k = Some z \<Longrightarrow> k \<noteq> i \<Longrightarrow> ses_access_digest y \<noteq> ses_access_digest z"
    using assms(1) by (force simp: set_access_def session_clash_def list_ex_iff split: if_splits dest: map_of_SomeD)+
  have same: "ses_tenant_id y = ses_tenant_id x" "ses_user_id y = ses_user_id x" "ses_device_id y = ses_device_id x"
    "ses_client_kind y = ses_client_kind x" "ses_state y = Active"
    using assms(3) by (subst assms(4), simp)+
  have "unique_column ses_access_digest (sessions db')" if "unique_column ses_access_digest (sessions db)"
    using that free by (auto simp: unique_column_def db' split: if_splits) metis+
  moreover have "session_ok (devices db) r" if "dict_get (sessions db') k = Some r" "sessions_ok db" for k r
    using that same assms(2,3) by (fastforce simp: db' sessions_ok_def session_ok_def split: if_splits)
  moreover have "family_ok (sessions db') f" if "dict_get (refresh_families db) k = Some f" "sessions_ok db" for k f
  proof -
    have "family_ok (sessions db) f" using that by (auto simp: sessions_ok_def)
    then show ?thesis using same assms(2,3) by (cases "fam_session_id f = i") (auto simp: db' family_ok_def)
  qed
  ultimately have "sessions_ok db'" if "sessions_ok db"
    using that by (auto simp: sessions_ok_def db')
  moreover have "evolves db db'"
    using same assms(2,3) by (auto simp: evolves_def db' grows_refl session_later_def intro!: grows_where)
  ultimately show ?thesis by (auto simp: fits_def db_ok_def db')
qed

lemma fits_insert_step_up:
  assumes "insert_step_up n r db = Inr db'"
  shows "fits X db db'"
proof -
  obtain d where ins: "insert_row step_up_clash n r (step_ups db) = Inr d" and db': "db' = db\<lparr>step_ups := d\<rparr>"
    using assms by (auto simp: insert_step_up_def elim!: and_then_InrE)
  note d = insert_rowD(1,2) [OF ins]
  have grown: "grows step_up_later (step_ups db) d" using d by (simp add: grows_insert)
  then have "spent_ok d cs" if "spent_ok (step_ups db) cs" for cs using that by (rule spent_ok_grows [rotated])
  then show ?thesis
    using d grown unique_column_insert [OF _ ins, of su_digest]
    by (auto simp: fits_def db_ok_def sessions_ok_def evolves_def grows_refl step_up_clash_def db')
qed

text \<open>A use of an authorization, with the consumption under its key, if it has one.\<close>

lemma grows_spend_step_up:
  "dict_get su n = Some a \<Longrightarrow> su_used_at a = None \<Longrightarrow> grows step_up_later su (dict_set n (a\<lparr>su_used_at := Some now\<rparr>) su)"
  by (rule grows_set) (auto simp: step_up_later_def set_once_def)

lemma fits_spend_step_up:
  assumes "dict_get (step_ups db) n = Some a" and "su_used_at a = None"
  shows "fits X db (db\<lparr>step_ups := dict_set n (a\<lparr>su_used_at := Some now\<rparr>) (step_ups db)\<rparr>)"
  using assms unique_column_set [of su_digest "step_ups db" n a "a\<lparr>su_used_at := Some now\<rparr>"]
    grows_spend_step_up [OF assms, of now] spent_ok_grows [OF _ grows_spend_step_up [OF assms, of now]]
  by (auto simp: fits_def db_ok_def sessions_ok_def evolves_def grows_refl)

lemma fits_spend_under_key:
  assumes "dict_get (step_ups db) n = Some a" and "su_used_at a = None"
    and "insert_row no_index k x (step_up_consumptions db) = Inr d" and "co_step_up_id x = n"
  shows "fits X db (db\<lparr>step_ups := dict_set n (a\<lparr>su_used_at := Some now\<rparr>) (step_ups db), step_up_consumptions := d\<rparr>)"
proof -
  let ?su = "dict_set n (a\<lparr>su_used_at := Some now\<rparr>) (step_ups db)"
  note d = insert_rowD(1,2) [OF assms(3)]
  have "spent_ok ?su d" if ok: "spent_ok (step_ups db) (step_up_consumptions db)"
  proof -
    have "spent_ok ?su (step_up_consumptions db)" using ok grows_spend_step_up [OF assms(1,2)] by (rule spent_ok_grows)
    moreover have "dict_get (step_up_consumptions db) q = Some y \<Longrightarrow> co_step_up_id y \<noteq> n" for q y
      using ok assms(1,2) by (rule spent_ok_unused)
    ultimately show ?thesis
      using spent_ok_insert [of ?su "step_up_consumptions db" n _ x k] d assms(4) by simp
  qed
  moreover have "keeps_spent (step_ups db) (step_up_consumptions db) d"
    using d assms(1,2,4) by (auto simp: keeps_spent_def split: if_splits)
  ultimately show ?thesis
    using assms(1,2) d unique_column_set [of su_digest "step_ups db" n a "a\<lparr>su_used_at := Some now\<rparr>"]
      grows_spend_step_up [OF assms(1,2), of now]
    by (auto simp: fits_def db_ok_def sessions_ok_def evolves_def grows_refl grows_insert)
qed

lemma fits_insert_oidc:
  assumes "insert_row oidc_clash i r (oidc_transactions db) = Inr d"
  shows "fits X db (db\<lparr>oidc_transactions := d\<rparr>)"
  using insert_rowD(1,2) [OF assms] unique_column_insert [OF _ assms, of ot_state_digest]
  by (auto simp: fits_def db_ok_def sessions_ok_def evolves_def grows_refl oidc_clash_def intro!: grows_insert)

lemma fits_spend_oidc:
  assumes "dict_get (oidc_transactions db) i = Some r" and "ot_used_at r = None"
  shows "fits X db (db\<lparr>oidc_transactions := dict_set i (r\<lparr>ot_used_at := Some now\<rparr>) (oidc_transactions db)\<rparr>)"
  using assms unique_column_set [of ot_state_digest "oidc_transactions db" i r "r\<lparr>ot_used_at := Some now\<rparr>"]
  by (auto simp: fits_def db_ok_def sessions_ok_def evolves_def grows_refl oidc_later_def set_once_def intro!: grows_set)

lemma fits_insert_switch: "insert_switch i r db = Inr db' \<Longrightarrow> fits X db db'"
  unfolding insert_switch_def
  by (erule and_then_InrE, frule insert_rowD(1), frule insert_rowD(2))
    (auto simp: fits_def db_ok_def sessions_ok_def evolves_def grows_refl grows_insert)

lemma fits_mark_switch:
  "fits X db (db\<lparr>switch_outbox := update_where P (\<lambda>r. r\<lparr>sw_delivered_at := Some now\<rparr>) (switch_outbox db)\<rparr>)"
  by (auto simp: fits_def db_ok_def sessions_ok_def evolves_def grows_refl switch_later_def intro!: grows_where)

lemma fits_devices:
  assumes "\<And>k x. dict_get (devices db) k = Some x \<Longrightarrow> P k x \<Longrightarrow> device_later x (f x)
    \<and> (dev_state (f x) = DeviceRevoked \<longrightarrow> dev_state x = DeviceRevoked
      \<or> (\<forall>i r. dict_get (sessions db) i = Some r \<longrightarrow> ses_device_id r = k \<longrightarrow> ses_tenant_id r = dev_tenant_id x
          \<longrightarrow> ses_user_id r = dev_user_id x \<longrightarrow> ses_state r = Revoked))"
  shows "fits X db (db\<lparr>devices := update_where P f (devices db)\<rparr>)"
proof -
  have "session_ok (update_where P f (devices db)) r"
    if r: "session_ok (devices db) r" and i: "dict_get (sessions db) i = Some r" for i r
  proof -
    obtain d where d: "dict_get (devices db) (ses_device_id r) = Some d" "dev_tenant_id d = ses_tenant_id r"
      "dev_user_id d = ses_user_id r" "dev_state d = DeviceRevoked \<longrightarrow> ses_state r = Revoked"
      using r by (auto simp: session_ok_def)
    have "dev_state (f d) = DeviceRevoked \<longrightarrow> ses_state r = Revoked" if "P (ses_device_id r) d"
      using assms [OF d(1) that] d i by auto
    then show ?thesis
      using d assms [OF d(1)] by (auto simp: session_ok_def device_later_def)
  qed
  moreover have "grows device_later (devices db) (update_where P f (devices db))"
    using assms by (intro grows_where) simp_all
  ultimately show ?thesis
    by (auto simp: fits_def db_ok_def sessions_ok_def evolves_def grows_refl)
qed

lemma fits_touch_device: "fits X db (touch_device d now db)"
  unfolding touch_device_def by (rule fits_devices) (auto simp: device_later_def)

section \<open>The audit trail\<close>

definition trail_extends :: "identity_service \<Rightarrow> audit_store \<Rightarrow> audit_store \<Rightarrow> bool" where
  "trail_extends cfg tr tr' \<longleftrightarrow> (\<exists>new. events tr' = events tr @ new)
    \<and> (store_inv (audit_parameters cfg) tr \<longrightarrow> store_inv (audit_parameters cfg) tr')"

lemma trail_extends_refl: "trail_extends cfg tr tr"
  by (simp add: trail_extends_def)

lemma trail_extends_trans: "trail_extends cfg a b \<Longrightarrow> trail_extends cfg b c \<Longrightarrow> trail_extends cfg a c"
  unfolding trail_extends_def by (metis append.assoc)

lemma store_append_effect:
  assumes "store_append cfg d s = (x, t)"
  obtains (failed) e where "x = Inl e" and "tables t = tables s" and "auth t = auth s" and "mails t = mails s"
      and "closed t = closed s" and "trail_extends cfg (trail s) (trail t)"
  | (stored) e where "x = Inr e" and "tables t = tables s" and "auth t = auth s" and "mails t = mails s"
      and "closed t = closed s" and "trail_extends cfg (trail s) (trail t)" and "e \<in> set (events (trail t))"
      and "ev_target_id e = target_id d" and "ev_tenant_id e = Security_Audit.tenant_id d"
      and "ev_actor_id e = actor_id d" and "ev_action e = action d" and "ev_outcome e = outcome d"
proof (cases "audit_answers cfg (audit_calls s)")
  case False
  then show ?thesis using assms failed by (auto simp: store_append_def trail_extends_refl)
next
  case True
  obtain y tr where call: "append_event (audit_parameters cfg) d (trail s) = (y, tr)" by (rule prod.exhaust)
  have step: "store_step (audit_parameters cfg) (Security_Audit.tenant_id d) (trail s) tr" using call by (rule step_append)
  then have ext: "trail_extends cfg (trail s) tr"
    using store_step_extends audit.inv_step by (auto simp: trail_extends_def)
  from call show ?thesis
  proof (cases rule: append_event_effect)
    case (refused c)
    then show ?thesis using assms call True failed ext by (auto simp: store_append_def)
  next
    case (appended v e)
    have "ev_target_id v = target_id d \<and> ev_tenant_id v = Security_Audit.tenant_id d \<and> ev_actor_id v = actor_id d
      \<and> ev_action v = action d \<and> ev_outcome v = outcome d"
      using appended(1) by (auto simp: validate_draft_def elim!: and_then_InrD split: option.splits)
    moreover have "ev_target_id e = ev_target_id v" "ev_actor_id e = ev_actor_id v" "ev_tenant_id e = ev_tenant_id v"
      "ev_action e = ev_action v" "ev_outcome e = ev_outcome v"
      by (simp_all add: appended(3) seal_def Let_def event_fields.defs)
    moreover have "e \<in> set (events tr)" by (simp add: appended(5))
    ultimately show ?thesis using assms call True appended(4) ext by (intro stored [of e]) (auto simp: store_append_def)
  qed
qed

section \<open>A calculus of outcomes\<close>

text \<open>The event of a login, or the intent of a switch.\<close>

definition logged_in :: "audit_store \<Rightarrow> string \<Rightarrow> session_row \<Rightarrow> bool" where
  "logged_in tr i r \<longleftrightarrow> (\<exists>e \<in> set (events tr). ev_action e = ''identity.login.succeeded'' \<and> ev_outcome e = Succeeded
    \<and> ev_target_id e = i \<and> ev_actor_id e = ses_user_id r \<and> ev_tenant_id e = ses_tenant_id r)"

definition switched_to :: "identity_tables \<Rightarrow> string \<Rightarrow> session_row \<Rightarrow> bool" where
  "switched_to db i r \<longleftrightarrow> (\<exists>k w. dict_get (switch_outbox db) k = Some w \<and> sw_new_session_id w = i
    \<and> sw_actor_id w = ses_user_id r \<and> sw_target_tenant_id w = ses_tenant_id r)"

definition recorded :: "string set \<Rightarrow> identity_state \<Rightarrow> bool" where
  "recorded X s \<longleftrightarrow> (\<forall>i r. dict_get (sessions (tables s)) i = Some r \<longrightarrow>
    i \<in> X \<or> logged_in (trail s) i r \<or> switched_to (tables s) i r)"

definition inv :: "string set \<Rightarrow> identity_state \<Rightarrow> bool" where
  "inv X s \<longleftrightarrow> db_ok (tables s) \<and> recorded X s"

text \<open>The state moved on: with an extended trail, and with tables that fit.\<close>

definition moved :: "identity_service \<Rightarrow> string set \<Rightarrow> identity_state \<Rightarrow> identity_state \<Rightarrow> bool" where
  "moved cfg X s t \<longleftrightarrow> trail_extends cfg (trail s) (trail t) \<and> fits X (tables s) (tables t)"

lemma moved_refl: "moved cfg X s s"
  by (simp add: moved_def trail_extends_refl fits_refl)

lemma moved_trans: "moved cfg X a b \<Longrightarrow> moved cfg X b c \<Longrightarrow> moved cfg X a c"
  unfolding moved_def using trail_extends_trans fits_trans by blast

lemma moved_inv:
  assumes "moved cfg X s t" and "inv X s"
  shows "inv X t"
proof -
  have fit: "db_ok (tables t)" "evolves (tables s) (tables t)"
    "\<And>i. dict_get (sessions (tables t)) i \<noteq> None \<Longrightarrow> i \<in> X \<or> dict_get (sessions (tables s)) i \<noteq> None"
    using assms by (auto simp: moved_def fits_def inv_def)
  have "logged_in (trail t) i r \<or> switched_to (tables t) i r"
    if r: "dict_get (sessions (tables t)) i = Some r" and i: "i \<notin> X" for i r
  proof -
    obtain q where q: "dict_get (sessions (tables s)) i = Some q" using fit(3) [of i] r i by auto
    obtain q' where "dict_get (sessions (tables t)) i = Some q'" "session_later q q'"
      using evolvesD(1) [OF fit(2)] q by (rule growsE)
    then have later: "session_later q r" using r by simp
    consider "logged_in (trail s) i q" | "switched_to (tables s) i q"
      using assms(2) q i by (auto simp: inv_def recorded_def)
    then show ?thesis
    proof cases
      case 1
      then show ?thesis
        using assms(1) later by (auto simp: moved_def trail_extends_def logged_in_def session_later_def)
    next
      case 2
      then obtain k w where w: "dict_get (switch_outbox (tables s)) k = Some w" "sw_new_session_id w = i"
        "sw_actor_id w = ses_user_id q" "sw_target_tenant_id w = ses_tenant_id q"
        by (auto simp: switched_to_def)
      obtain w' where w': "dict_get (switch_outbox (tables t)) k = Some w'" "switch_later w w'"
        using evolvesD(6) [OF fit(2)] w(1) by (rule growsE)
      have "sw_new_session_id w' = i" "sw_actor_id w' = ses_user_id r" "sw_target_tenant_id w' = ses_tenant_id r"
        using w' w(2-4) later by (cases w; cases w'; simp add: switch_later_def session_later_def)+
      then show ?thesis using w'(1) by (auto simp: switched_to_def)
    qed
  qed
  then show ?thesis using fit(1) by (auto simp: inv_def recorded_def)
qed

text \<open>
  \<open>good X b s r\<close>: from a state with the invariant the outcome keeps it and its rows grew, where it
  succeeded or, with \<open>b\<close>, in any case; the trail is extended whatever happens.
\<close>

definition good :: "identity_service \<Rightarrow> string set \<Rightarrow> bool \<Rightarrow> identity_state \<Rightarrow> (identity_state, identity_error, 'a) outcome \<Rightarrow> bool" where
  "good cfg X b s r \<longleftrightarrow> (inv X s \<longrightarrow> trail_extends cfg (trail s) (trail (snd r))
    \<and> (b \<or> (\<exists>v. fst r = Inr v) \<longrightarrow> inv X (snd r) \<and> evolves (tables s) (tables (snd r))))"

lemma moved_good: "moved cfg X s (snd r) \<Longrightarrow> good cfg X b s r"
  using moved_inv by (auto simp: good_def moved_def fits_def inv_def)

lemma good_weaken: "good cfg X True s r \<Longrightarrow> good cfg X b s r"
  by (simp add: good_def)

text \<open>Calls that leave the tables alone.\<close>

definition quiet :: "identity_service \<Rightarrow> identity_state \<Rightarrow> (identity_state, identity_error, 'a) outcome \<Rightarrow> bool" where
  "quiet cfg s r \<longleftrightarrow> tables (snd r) = tables s \<and> trail_extends cfg (trail s) (trail (snd r))"

lemma quiet_good: "quiet cfg s r \<Longrightarrow> good cfg X b s r"
  by (simp add: quiet_def moved_good moved_def fits_refl)

lemma quiet_simps [simp]:
  "quiet cfg s (Inl e, s)" "quiet cfg s (Inr v, s)" "quiet cfg s (raising e' s)" "quiet cfg s (returning v' s)"
  "quiet cfg s (read_now cfg' s)" "quiet cfg s (draw cfg' n s)" "quiet cfg s (fresh_id cfg' p s)"
  "quiet cfg s (hashed cfg' secret s)" "quiet cfg s (send_mail cfg' a token s)" "quiet cfg s (query f s)"
  by (simp_all add: quiet_def raising_def returning_def read_now_def draw_def fresh_id_def hashed_def send_mail_def
      query_def trail_extends_refl)

lemma quiet_chain:
  assumes "quiet cfg s r" and "\<And>a t. tables t = tables s \<Longrightarrow> r = (Inr a, t) \<Longrightarrow> quiet cfg t (k a t)"
  shows "quiet cfg s (chain r k)"
proof (cases "fst r")
  case (Inl e)
  then have "chain r k = (Inl e, snd r)" by (cases r) simp
  then show ?thesis using assms(1) by (simp add: quiet_def)
next
  case (Inr a)
  then have r: "r = (Inr a, snd r)" by (metis prod.collapse)
  then have "tables (snd r) = tables s" using assms(1) by (simp add: quiet_def)
  then have "quiet cfg (snd r) (k a (snd r))" using r by (rule assms(2))
  then show ?thesis
    using assms(1) r by (metis (no_types, lifting) chain_simps(2) quiet_def trail_extends_trans)
qed

lemma quiet_attempt: "(\<And>a. c = Inr a \<Longrightarrow> quiet cfg s (k a)) \<Longrightarrow> quiet cfg s (attempt c s k)"
  by (cases c) simp_all

lemma quiet_audit [simp]: "quiet cfg s (audit cfg trace pv e s)"
  unfolding audit_def
proof (intro quiet_chain quiet_attempt quiet_simps)
  fix i s1 t s2 a b
  let ?d = "new_draft i t trace pv (if en_actor_id e \<noteq> anonymous then UserActor else SystemActor) e"
  obtain x u where call: "store_append cfg ?d s2 = (x, u)" by (rule prod.exhaust)
  from call show "quiet cfg s2 (case store_append cfg ?d s2 of (Inl _, s) \<Rightarrow> (Inl audit_write_failed, s) | (Inr _, s) \<Rightarrow> (Inr (), s))"
    by (cases rule: store_append_effect) (simp_all add: quiet_def call)
qed

lemma quiet_refuse [simp]: "quiet cfg s (refuse cfg trace pv e err s)"
  unfolding refuse_def by (intro quiet_chain) simp_all

text \<open>The rules of the calculus.\<close>

lemma good_chain:
  assumes "good cfg X b s r"
    and "\<And>a t. r = (Inr a, t) \<Longrightarrow> inv X s \<Longrightarrow> inv X t \<Longrightarrow> evolves (tables s) (tables t) \<Longrightarrow> good cfg X b t (k a t)"
  shows "good cfg X b s (chain r k)"
proof (cases "inv X s")
  case True
  obtain x t where r: "r = (x, t)" by (rule prod.exhaust)
  show ?thesis
  proof (cases x)
    case (Inl e)
    then show ?thesis using assms(1) by (simp add: r good_def)
  next
    case (Inr a)
    have t: "inv X t" "evolves (tables s) (tables t)" "trail_extends cfg (trail s) (trail t)"
      using assms(1) True by (simp_all add: r Inr good_def)
    have "good cfg X b t (k a t)" using assms(2) [of a t] True t r Inr by simp
    then have "trail_extends cfg (trail s) (trail (snd (k a t)))"
      "b \<or> (\<exists>v. fst (k a t) = Inr v) \<longrightarrow> inv X (snd (k a t)) \<and> evolves (tables s) (tables (snd (k a t)))"
      using t trail_extends_trans evolves_trans unfolding good_def by blast+
    then show ?thesis by (simp add: r Inr good_def)
  qed
qed (simp add: good_def)

lemma good_quiet_chain:
  assumes "quiet cfg s r"
    and "\<And>a t. tables t = tables s \<Longrightarrow> r = (Inr a, t) \<Longrightarrow> inv X s \<Longrightarrow> inv X t \<Longrightarrow> good cfg X b t (k a t)"
  shows "good cfg X b s (chain r k)"
  using quiet_good [OF assms(1)]
proof (rule good_chain)
  fix a t
  assume r: "r = (Inr a, t)" and i: "inv X s" "inv X t"
  then have "tables t = tables s" using assms(1) by (simp add: quiet_def)
  from assms(2) [OF this r i] show "good cfg X b t (k a t)" .
qed

lemma good_attempt: "(\<And>a. c = Inr a \<Longrightarrow> good cfg X b s (k a)) \<Longrightarrow> good cfg X b s (attempt c s k)"
  by (cases c) (simp_all add: quiet_good)

lemma good_if: "(P \<Longrightarrow> good cfg X b s r) \<Longrightarrow> (\<not> P \<Longrightarrow> good cfg X b s q) \<Longrightarrow> good cfg X b s (if P then r else q)"
  by simp

lemma good_statement:
  assumes "\<And>db. f (tables s) = Inr db \<Longrightarrow> inv X s \<Longrightarrow> fits X (tables s) db"
  shows "good cfg X b s (statement f s)"
proof (cases "inv X s")
  case True
  with assms show ?thesis
    by (cases "f (tables s)") (auto simp: statement_def trail_extends_refl fits_refl moved_def intro!: moved_good)
qed (simp add: good_def)

lemma good_transaction:
  assumes "good cfg X False s (body s)"
  shows "good cfg X b s (transaction body s)"
proof (cases "inv X s")
  case True
  obtain x t where body: "body s = (x, t)" by (rule prod.exhaust)
  show ?thesis
  proof (cases "closed s \<or> (\<exists>e. x = Inl e)")
    case True
    then have "moved cfg X s (snd (transaction body s))"
      using assms \<open>inv X s\<close> by (auto simp: transaction_def body good_def moved_def trail_extends_refl fits_refl)
    then show ?thesis by (rule moved_good)
  next
    case False
    then show ?thesis using assms by (cases x) (simp_all add: transaction_def body good_def)
  qed
qed (simp add: good_def)

lemma statementD: "statement f s = (Inr u, t) \<Longrightarrow> f (tables s) = Inr (tables t) \<and> trail t = trail s"
  by (cases "f (tables s)") (auto simp: statement_def)

end
