(* ===== verification/Identity_Steps.thy ===== *)
theory Identity_Steps
  imports Identity_Invariant
begin

text \<open>
  Every call of the identity service moves on within the invariant; the step relation of the service
  and its contract.
\<close>

section \<open>Rules for the calls\<close>

lemma good_updating: "fits X (tables s) (f (tables s)) \<Longrightarrow> good cfg X b s (updating f s)"
  by (rule good_statement) auto

lemma good_updating_chain:
  assumes "fits X (tables s) (f (tables s))"
    and "\<And>t. tables t = f (tables s) \<Longrightarrow> trail t = trail s \<Longrightarrow> inv X t \<Longrightarrow> good cfg X b t (k () t)"
  shows "good cfg X b s (chain (updating f s) k)"
proof (rule good_chain, rule good_updating, rule assms(1))
  fix a :: unit and t
  assume "updating f s = (Inr a, t)" and t: "inv X t"
  then have "tables t = f (tables s)" "trail t = trail s" using statementD by force+
  then show "good cfg X b t (k a t)" using assms(2) t by simp
qed

lemma good_statement_chain:
  assumes "\<And>db. f (tables s) = Inr db \<Longrightarrow> inv X s \<Longrightarrow> fits X (tables s) db"
    and "\<And>t. f (tables s) = Inr (tables t) \<Longrightarrow> trail t = trail s \<Longrightarrow> inv X s \<Longrightarrow> inv X t \<Longrightarrow> good cfg X b t (k () t)"
  shows "good cfg X b s (chain (statement f s) k)"
  using good_statement [OF assms(1)]
proof (rule good_chain)
  fix a :: unit and t
  assume "statement f s = (Inr a, t)" and t: "inv X s" "inv X t"
  then have "f (tables s) = Inr (tables t)" "trail t = trail s" using statementD by blast+
  then show "good cfg X b t (k a t)" using assms(2) t by simp
qed (assumption+)

lemma good_option:
  assumes "x = None \<Longrightarrow> good cfg X b s n" and "\<And>a. x = Some a \<Longrightarrow> good cfg X b s (f a)"
  shows "good cfg X b s (case x of None \<Rightarrow> n | Some a \<Rightarrow> f a)"
  using assms by (cases x) simp_all

lemma good_sum:
  assumes "\<And>a. x = Inl a \<Longrightarrow> good cfg X b s (g a)" and "\<And>a. x = Inr a \<Longrightarrow> good cfg X b s (f a)"
  shows "good cfg X b s (case x of Inl a \<Rightarrow> g a | Inr a \<Rightarrow> f a)"
  using assms by (cases x) simp_all

lemma good_pair:
  assumes "\<And>i r. p = (i, r) \<Longrightarrow> good cfg X b s (f i r)"
  shows "good cfg X b s (case p of (i, r) \<Rightarrow> f i r)"
  using assms by (cases p) simp

lemma good_pair_state:
  assumes "\<And>i r. p = (i, r) \<Longrightarrow> good cfg X b s (f i r t)"
  shows "good cfg X b s ((case p of (i, r) \<Rightarrow> f i r) t)"
  using assms by (cases p) simp

lemmas good_draws = good_quiet_chain [OF quiet_simps(5)] good_quiet_chain [OF quiet_simps(6)]
  good_quiet_chain [OF quiet_simps(7)] good_quiet_chain [OF quiet_simps(8)] good_quiet_chain [OF quiet_simps(9)]
  good_quiet_chain [OF quiet_audit]

lemmas good_ends = quiet_good [OF quiet_simps(1)] quiet_good [OF quiet_simps(2)] quiet_good [OF quiet_simps(3)]
  quiet_good [OF quiet_simps(4)] quiet_good [OF quiet_simps(9)] quiet_good [OF quiet_simps(10)]
  quiet_good [OF quiet_audit] quiet_good [OF quiet_refuse]

lemmas good_rules = good_attempt good_transaction good_if good_option good_sum good_pair good_pair_state
  good_draws good_updating_chain good_updating good_ends

section \<open>Statements on other tables\<close>

lemma ensure_tenant_same [simp]:
  "sessions (ensure_tenant t db) = sessions db" "refresh_families (ensure_tenant t db) = refresh_families db"
  "refresh_tokens (ensure_tenant t db) = refresh_tokens db" "step_ups (ensure_tenant t db) = step_ups db"
  "oidc_transactions (ensure_tenant t db) = oidc_transactions db" "switch_outbox (ensure_tenant t db) = switch_outbox db"
  "devices (ensure_tenant t db) = devices db" "step_up_consumptions (ensure_tenant t db) = step_up_consumptions db"
  "users (ensure_tenant t db) = users db"
  by (simp_all add: ensure_tenant_def)

lemma seed_minimum_same [simp]:
  "sessions (seed_minimum_step_up_actions t db) = sessions db" "refresh_families (seed_minimum_step_up_actions t db) = refresh_families db"
  "refresh_tokens (seed_minimum_step_up_actions t db) = refresh_tokens db" "step_ups (seed_minimum_step_up_actions t db) = step_ups db"
  "oidc_transactions (seed_minimum_step_up_actions t db) = oidc_transactions db"
  "switch_outbox (seed_minimum_step_up_actions t db) = switch_outbox db"
  "devices (seed_minimum_step_up_actions t db) = devices db"
  "step_up_consumptions (seed_minimum_step_up_actions t db) = step_up_consumptions db"
  "users (seed_minimum_step_up_actions t db) = users db"
  by (simp_all add: seed_minimum_step_up_actions_def)

lemma set_user_same [simp]:
  "sessions (set_user u f db) = sessions db" "refresh_families (set_user u f db) = refresh_families db"
  "refresh_tokens (set_user u f db) = refresh_tokens db" "step_ups (set_user u f db) = step_ups db"
  "oidc_transactions (set_user u f db) = oidc_transactions db" "switch_outbox (set_user u f db) = switch_outbox db"
  "devices (set_user u f db) = devices db" "step_up_consumptions (set_user u f db) = step_up_consumptions db"
  by (simp_all add: set_user_def)

lemma fits_elsewhere:
  "insert_user u r db = Inr db' \<Longrightarrow> fits X db db'"
  "insert_membership t u m db = Inr db' \<Longrightarrow> fits X db db'"
  by (auto simp: insert_user_def insert_membership_def elim!: and_then_InrE intro!: fits_untouched)

lemma good_issue_token: "good cfg X b s (issue_token cfg' k u now ttl s)"
  unfolding issue_token_def
  by (intro good_rules good_statement_chain)
    (auto elim!: and_then_InrE simp: put_mail_tokens_def split: mail_token_table.splits intro!: fits_untouched)

section \<open>Accounts\<close>

lemma good_signup: "good cfg X b s (signup cfg l e p trace pv s)"
  unfolding signup_def Let_def
  by (intro good_rules good_statement_chain good_chain [OF good_issue_token] fits_elsewhere fits_untouched) (assumption | simp)+

lemma good_verify_email: "good cfg X b s (verify_email cfg token trace pv s)"
  unfolding verify_email_def
  by (intro good_rules fits_untouched) simp_all

lemma good_resend_verification: "good cfg X b s (resend_verification cfg i trace pv s)"
  unfolding resend_verification_def
  by (intro good_rules good_chain [OF good_issue_token])

lemma fits_revoke_user: "fits X db db' \<Longrightarrow> fits X db (revoke_user_sessions u now db')"
  unfolding revoke_user_sessions_def using fits_revoke_where fits_trans by blast

lemma good_request_password_reset: "good cfg X b s (request_password_reset cfg i r trace pv s)"
  unfolding request_password_reset_def
  by (intro good_rules good_chain [OF good_issue_token]) (simp_all add: fits_revoke_user fits_refl)

lemma good_confirm_password_reset: "good cfg X b s (confirm_password_reset cfg token p trace pv s)"
  unfolding confirm_password_reset_def
  by (intro good_rules fits_revoke_user fits_untouched) simp_all

lemma good_add_tenant_membership: "good cfg X b s (add_tenant_membership t u r s)"
  unfolding add_tenant_membership_def by (intro good_rules fits_untouched) simp_all

lemma good_required_step_up_actions: "good cfg X b s (required_step_up_actions t s)"
  unfolding required_step_up_actions_def by (intro good_rules fits_untouched) simp_all

lemma good_add_step_up_action: "good cfg X b s (add_step_up_action t a s)"
  unfolding add_step_up_action_def by (intro good_rules fits_untouched) simp_all

lemma good_requires_step_up: "good cfg X b s (requires_step_up t a s)"
  unfolding requires_step_up_def
  by (intro good_rules good_chain [OF good_required_step_up_actions])

lemma good_ensure_initial_admin: "good cfg X b s (ensure_initial_admin cfg s)"
  unfolding ensure_initial_admin_def Let_def
  by (intro good_rules good_chain [of cfg X False] good_statement fits_elsewhere fits_untouched) (assumption | simp)+

section \<open>Logins\<close>


lemma inv_weaken: "inv {} s \<Longrightarrow> inv X s"
  by (auto simp: inv_def recorded_def)

lemma inv_discharge:
  assumes "inv {i} s" and "dict_get (sessions (tables s)) i = Some r" and "logged_in (trail s) i r \<or> switched_to (tables s) i r"
  shows "inv {} s"
  using assms unfolding inv_def recorded_def by (metis empty_iff insert_iff option.inject)

lemma good_fresh_id: "good cfg X b s (fresh_id cfg' p s)"
  by (rule quiet_good) simp

lemma good_begin_oidc_login: "good cfg X b s (begin_oidc_login cfg is cl au rd kind t trace pv s)"
  unfolding begin_oidc_login_def
  by (intro good_rules good_statement_chain) (auto elim!: and_then_InrE intro: fits_insert_oidc fits_untouched)

lemma good_user_of_claims: "good cfg X b s (user_of_claims cfg is sub s)"
  unfolding user_of_claims_def
  by (intro good_rules good_statement_chain fits_elsewhere) (assumption | simp)+

lemma open_session_ready:
  assumes "insert_session t u pl d i kind dig ex now db = Inr db'" and "db_ok db"
  shows "\<exists>r. dict_get (sessions db') i = Some r \<and> ses_state r = Active \<and> ses_client_kind r = kind
      \<and> ses_tenant_id r = t \<and> ses_user_id r = u"
    and "dict_get (refresh_families db') k = Some x \<Longrightarrow> fam_session_id x \<noteq> i"
proof -
  show "\<exists>r. dict_get (sessions db') i = Some r \<and> ses_state r = Active \<and> ses_client_kind r = kind
      \<and> ses_tenant_id r = t \<and> ses_user_id r = u"
    using assms(1) by (rule insert_sessionD) (auto dest!: insert_rowD(2) [where d = "sessions db"])
  show "fam_session_id x \<noteq> i" if "dict_get (refresh_families db') k = Some x"
    using assms(1)
  proof (rule insert_sessionD)
    fix ds ss
    assume ss: "insert_row session_clash i \<lparr>ses_tenant_id = t, ses_user_id = u, ses_device_id = d,
      ses_client_kind = kind, ses_access_digest = dig, ses_access_expires_at = ex,
      ses_state = Active, ses_created_at = now, ses_updated_at = now\<rparr> (sessions db) = Inr ss"
      and db': "db' = db\<lparr>devices := ds, sessions := ss\<rparr>"
    have "family_ok (sessions db) x" using that assms(2) by (auto simp: db' db_ok_def sessions_ok_def)
    then show ?thesis using insert_rowD(1) [OF ss] by (auto simp: family_ok_def)
  qed
qed

text \<open>The family of a new session, and its first token.\<close>

lemma family_ready:
  assumes "insert_family f i now db = Inr db'" and "db_ok db"
  shows "dict_get (refresh_families db') f \<noteq> None"
    and "dict_get (refresh_tokens db') m = Some q \<Longrightarrow> ref_family_id q \<noteq> f"
proof -
  obtain fs where fs: "insert_row no_index f \<lparr>fam_session_id = i, fam_state = Active, fam_created_at = now,
      fam_updated_at = now\<rparr> (refresh_families db) = Inr fs" "db' = db\<lparr>refresh_families := fs\<rparr>"
    using assms(1) by (auto simp: insert_family_def elim!: and_then_InrE)
  then show "dict_get (refresh_families db') f \<noteq> None" by (simp add: insert_rowD(2) [OF fs(1)])
  show "ref_family_id q \<noteq> f" if "dict_get (refresh_tokens db') m = Some q"
  proof -
    have "dict_get (refresh_families db) (ref_family_id q) \<noteq> None"
      using that assms(2) fs(2) by (simp add: db_ok_def refresh_ok_def)
    then show ?thesis using insert_rowD(1) [OF fs(1)] by metis
  qed
qed

lemma good_open_session:
  assumes "i \<in> X" and "fam \<noteq> None \<Longrightarrow> kind = Native"
  shows "good cfg X b s (open_session cfg t u pl d i kind access ex now fam s)"
  unfolding open_session_def
proof (intro good_statement_chain good_option good_pair good_draws good_ends good_statement)
  fix db assume "insert_session t u pl d i kind (digest cfg access) ex now (tables s) = Inr db"
  then show "fits X (tables s) db" using assms(1) by (rule fits_insert_session)
next
  fix s1 p f refresh db
  assume "fam = Some p" and ins: "insert_session t u pl d i kind (digest cfg access) ex now (tables s) = Inr (tables s1)"
    and s: "inv X s" and fam: "insert_family f i now (tables s1) = Inr db"
  have kind: "kind = Native" using \<open>fam = Some p\<close> assms(2) by simp
  have "db_ok (tables s)" using s by (simp add: inv_def)
  from open_session_ready [OF ins this] kind show "fits X (tables s1) db"
    using fits_insert_family [OF fam] by blast
next
  fix s1 p f refresh s2 r s3 db
  assume fam: "insert_family f i now (tables s1) = Inr (tables s2)" and "tables s3 = tables s2" and s: "inv X s1"
    and ins: "insert_refresh r f (digest cfg refresh) now (tables s3) = Inr db"
  have "db_ok (tables s1)" using s by (simp add: inv_def)
  from family_ready [OF fam this] show "fits X (tables s3) db"
    using fits_insert_refresh [OF ins] \<open>tables s3 = tables s2\<close> by metis
qed

text \<open>An entry that was audited is an event of the trail.\<close>

lemma audit_stored:
  assumes "audit cfg trace pv e s = (Inr v, t)"
  obtains ev where "tables t = tables s" and "ev \<in> set (events (trail t))" and "ev_action ev = en_action e"
    and "ev_outcome ev = en_outcome e" and "ev_target_id ev = en_target_id e" and "ev_actor_id ev = en_actor_id e"
    and "ev_tenant_id ev = en_tenant_id e" and "trail_extends cfg (trail s) (trail t)"
proof -
  have q: "quiet cfg s (audit cfg trace pv e s)" by simp
  obtain i s2 s3 n where steps: "fresh_id cfg ''audit'' s = (Inr i, s2)" "read_now cfg s2 = (Inr n, s3)"
    and last: "(case store_append cfg (new_draft i n trace pv
        (if en_actor_id e \<noteq> anonymous then UserActor else SystemActor) e) s3 of
      (Inl _, s) \<Rightarrow> (Inl audit_write_failed, s) | (Inr _, s) \<Rightarrow> (Inr (), s)) = (Inr v, t)"
    using assms unfolding audit_def by (elim chain_InrD attempt_InrD)
  let ?d = "new_draft i n trace pv (if en_actor_id e \<noteq> anonymous then UserActor else SystemActor) e"
  obtain x u where call: "store_append cfg ?d s3 = (x, u)" by (rule prod.exhaust)
  from call show thesis
  proof (cases rule: store_append_effect)
    case (failed c)
    then show thesis using last by (simp add: call)
  next
    case (stored c)
    then have "u = t" using last by (simp add: call)
    then show thesis using that [of c] stored q assms by (simp add: quiet_def new_draft_def)
  qed
qed

lemma insert_credentials_same:
  "insert_family f i now db = Inr db' \<Longrightarrow> sessions db' = sessions db"
  "insert_refresh n f dig now db = Inr db' \<Longrightarrow> sessions db' = sessions db"
  by (auto simp: insert_family_def insert_refresh_def elim!: and_then_InrE)

lemma open_session_row:
  assumes "open_session cfg t u pl d i kind access ex now fam s = (Inr v, s')"
  obtains r where "dict_get (sessions (tables s')) i = Some r" and "ses_tenant_id r = t" and "ses_user_id r = u"
proof -
  obtain w s1 where ins: "statement (insert_session t u pl d i kind (digest cfg access) ex now) s = (Inr w, s1)"
    and rest: "(case fam of None \<Rightarrow> (Inr (), s1) | Some (f, refresh) \<Rightarrow>
        chain (statement (insert_family f i now) s1) (\<lambda>_ s.
        chain (fresh_id cfg ''ref'' s) (\<lambda>r. statement (insert_refresh r f (digest cfg refresh) now)))) = (Inr v, s')"
    using assms unfolding open_session_def by (rule chain_InrD)
  have "sessions (tables s') = sessions (tables s1)"
  proof (cases fam)
    case None
    then show ?thesis using rest by simp
  next
    case (Some p)
    show ?thesis
      using rest unfolding Some
      by (cases p) (auto elim!: chain_InrD dest!: statementD insert_credentials_same
          simp: fresh_id_def draw_def returning_def)
  qed
  moreover have "insert_session t u pl d i kind (digest cfg access) ex now (tables s) = Inr (tables s1)"
    using statementD [OF ins] by simp
  then have "\<exists>r. dict_get (sessions (tables s1)) i = Some r \<and> ses_tenant_id r = t \<and> ses_user_id r = u"
    by (rule insert_sessionD) (auto dest!: insert_rowD(2) [where d = "sessions (tables s)"])
  ultimately show thesis using that by auto
qed

lemma good_login:
  assumes "fam \<noteq> None \<Longrightarrow> kind = Native"
  shows "good cfg {} False s (login_scope cfg trace pv t u i md (open_session cfg t u pl d i kind access ex now fam) s)"
proof (cases "inv {} s")
  case True
  then have inv: "inv {i} s" by (rule inv_weaken)
  let ?e = "entry ''identity.login.succeeded'' Succeeded t u ''session'' i md"
  obtain x s1 where body: "open_session cfg t u pl d i kind access ex now fam s = (x, s1)" by (rule prod.exhaust)
  have g: "good cfg {i} False s (x, s1)" using good_open_session [OF _ assms, of i "{i}"] by (simp flip: body)
  show ?thesis
  proof (cases x)
    case (Inl c)
    then show ?thesis using g inv by (simp add: login_scope_def body good_def)
  next
    case (Inr w)
    obtain y s2 where aud: "audit cfg trace pv ?e s1 = (y, s2)" by (rule prod.exhaust)
    have q: "quiet cfg s1 (y, s2)" using quiet_audit [of cfg s1 trace pv ?e] by (simp only: aud)
    have s1: "inv {i} s1" "evolves (tables s) (tables s1)" "trail_extends cfg (trail s) (trail s1)"
      using g inv by (simp_all add: Inr good_def)
    have ext: "trail_extends cfg (trail s) (trail s2)"
      using s1(3) q by (auto simp: quiet_def intro: trail_extends_trans)
    have "inv {} s2 \<and> evolves (tables s) (tables s2)" if y: "y = Inr v" for v
    proof -
      obtain ev where ev: "tables s2 = tables s1" "ev \<in> set (events (trail s2))"
        "ev_action ev = ''identity.login.succeeded''" "ev_outcome ev = Succeeded" "ev_target_id ev = i"
        "ev_actor_id ev = u" "ev_tenant_id ev = t"
        using aud unfolding y by (rule audit_stored) (simp add: entry_def)
      obtain r where r: "dict_get (sessions (tables s1)) i = Some r" "ses_tenant_id r = t" "ses_user_id r = u"
        using body unfolding Inr by (rule open_session_row)
      have "moved cfg {i} s1 s2" using q by (simp add: moved_def quiet_def fits_refl)
      then have "inv {i} s2" using s1(1) by (rule moved_inv)
      moreover have "logged_in (trail s2) i r" using ev r by (auto simp: logged_in_def)
      ultimately have "inv {} s2" using r(1) ev(1) by (simp add: inv_discharge)
      then show ?thesis using s1(2) ev(1) by simp
    qed
    then show ?thesis using ext by (simp add: login_scope_def body Inr aud good_def)
  qed
qed (simp add: good_def)

lemma good_local_login: "good cfg {} b s (local_login cfg l p pl trace pv s)"
  unfolding local_login_def Let_def
  by (intro good_rules good_chain [OF good_login]) simp_all

lemma good_local_native_login: "good cfg {} b s (local_native_login cfg l p trace pv s)"
  unfolding local_native_login_def
  by (intro good_rules good_chain [OF good_login]) simp_all

lemma quiet_option: "(\<And>a. x = Some a \<Longrightarrow> quiet cfg s (f a)) \<Longrightarrow> (x = None \<Longrightarrow> quiet cfg s n) \<Longrightarrow> quiet cfg s (case x of None \<Rightarrow> n | Some a \<Rightarrow> f a)"
  by (cases x) simp_all

lemma good_under_inv: "(inv X s \<Longrightarrow> good cfg X b s r) \<Longrightarrow> good cfg X b s r"
  by (auto simp: good_def)

lemma open_transactionD:
  assumes "open_transaction cfg st db = Some (tx, r)" and "db_ok db"
  shows "dict_get (oidc_transactions db) tx = Some r" "ot_used_at r = None" "ot_state_digest r = digest cfg st"
  using assms select_row_Some [of "oidc_transactions db" _ tx r]
  by (auto simp: open_transaction_def db_ok_def split: option.splits prod.splits if_splits)

lemma good_finish_oidc_login:
  assumes "open_transaction cfg st (tables s) = Some (tx, r)"
  shows "good cfg {} False s (finish_oidc_login cfg tx r c pl now trace pv s)"
proof (rule good_under_inv)
  assume "inv {} s"
  then have tx: "dict_get (oidc_transactions (tables s)) tx = Some r" "ot_used_at r = None"
    using open_transactionD(1,2) [OF assms] by (simp_all add: inv_def)
  show ?thesis
    unfolding finish_oidc_login_def Let_def
  proof (intro good_attempt good_updating_chain good_chain [OF good_user_of_claims] good_draws good_ends
      good_quiet_chain [of cfg _ "if _ then _ else _"] good_chain [OF good_login])
    show "fits {} (tables s) (tables s\<lparr>oidc_transactions := dict_set tx (r\<lparr>ot_used_at := Some now\<rparr>) (oidc_transactions (tables s))\<rparr>)"
      using tx by (rule fits_spend_oidc)
  qed (auto intro!: fits_untouched quiet_chain split: if_splits elim!: chain_InrD)
qed

lemma good_provider_answer:
  assumes "a = ProviderRaises \<Longrightarrow> good cfg X b s f" and "a = NoClaims \<Longrightarrow> good cfg X b s g"
    and "\<And>c. a = Claims c \<Longrightarrow> good cfg X b s (h c)"
  shows "good cfg X b s (case a of ProviderRaises \<Rightarrow> f | NoClaims \<Rightarrow> g | Claims c \<Rightarrow> h c)"
  using assms by (cases a) simp_all

lemma good_complete_oidc_login: "good cfg {} b s (complete_oidc_login cfg st co ve cl re pr pl trace pv s)"
  unfolding complete_oidc_login_def Let_def
  by (intro good_rules good_provider_answer good_finish_oidc_login) simp_all

section \<open>Access\<close>

lemma live_sessionD:
  assumes "live_session cfg access now db = Inr (i, r)" and "db_ok db"
  shows "dict_get (sessions db) i = Some r" "ses_state r = Active" "ses_access_digest r = digest cfg access"
  using assms select_row_Some [of "sessions db" _ i r]
  by (auto simp: live_session_def session_of_def db_ok_def sessions_ok_def elim!: and_then_InrE
      split: option.splits prod.splits if_splits)

text \<open>A principal is an active session; only the device was touched.\<close>

lemma principal_ofD:
  assumes "principal_of cfg access now s = (Inr p, t)"
  obtains i r where "p = (i, r)" and "live_session cfg access now (tables s) = Inr (i, r)"
    and "tables t = touch_device (ses_device_id r) now (tables s)" and "trail t = trail s" and "auth t = auth s"
    and "clock_reads t = clock_reads s"
  using assms by (cases "live_session cfg access now (tables s)")
    (auto simp: principal_of_def statement_def returning_def)

lemma good_principal_of: "good cfg X b s (principal_of cfg' access now s)"
  unfolding principal_of_def by (intro good_rules fits_touch_device)

text \<open>What is left of the tables of a principal.\<close>

lemma touch_device_same [simp]:
  "sessions (touch_device d now db) = sessions db" "refresh_families (touch_device d now db) = refresh_families db"
  "refresh_tokens (touch_device d now db) = refresh_tokens db" "step_ups (touch_device d now db) = step_ups db"
  "oidc_transactions (touch_device d now db) = oidc_transactions db" "switch_outbox (touch_device d now db) = switch_outbox db"
  "step_up_consumptions (touch_device d now db) = step_up_consumptions db" "users (touch_device d now db) = users db"
  by (simp_all add: touch_device_def)

lemma good_principal_chain:
  assumes "\<And>i r t. live_session cfg' access now (tables s) = Inr (i, r) \<Longrightarrow> tables t = touch_device (ses_device_id r) now (tables s)
    \<Longrightarrow> dict_get (sessions (tables t)) i = Some r \<Longrightarrow> ses_state r = Active \<Longrightarrow> inv X t \<Longrightarrow> good cfg X b t (k (i, r) t)"
  shows "good cfg X b s (chain (principal_of cfg' access now s) k)"
proof (rule good_chain, rule good_principal_of)
  fix p t
  assume "principal_of cfg' access now s = (Inr p, t)" and s: "inv X s" "inv X t"
  then obtain i r where p: "p = (i, r)" "live_session cfg' access now (tables s) = Inr (i, r)"
    "tables t = touch_device (ses_device_id r) now (tables s)"
    by (elim principal_ofD)
  have "db_ok (tables s)" using s by (simp add: inv_def)
  from live_sessionD [OF p(2) this] assms p s show "good cfg X b t (k p t)" by simp
qed

lemma good_after:
  assumes "good cfg X True s (x, t)" and "good cfg X b t r"
  shows "good cfg X b s r"
  using assms trail_extends_trans evolves_trans unfolding good_def by (metis fst_conv snd_conv)

lemma good_validate_access: "good cfg X b s (validate_access cfg access trace pv s)"
  unfolding validate_access_def Let_def
proof (intro good_attempt good_transaction good_draws)
  fix now t
  obtain x u where call: "principal_of cfg access now t = (x, u)" by (rule prod.exhaust)
  have "good cfg X True t (x, u)" using good_principal_of [of cfg X True t cfg access now] by (simp add: call)
  then show "good cfg X False t (case principal_of cfg access now t of
        (Inl e, s) \<Rightarrow> refuse cfg trace pv (access_denial (session_of cfg access (tables s))
            (if error_code e \<in> {''ACCESS_EXPIRED'', ''SESSION_REVOKED''} then error_code e else ''ACCESS_INVALID''))
          (if (if error_code e \<in> {''ACCESS_EXPIRED'', ''SESSION_REVOKED''} then error_code e else ''ACCESS_INVALID'') \<noteq> error_code e
           then IdentityError (if error_code e \<in> {''ACCESS_EXPIRED'', ''SESSION_REVOKED''} then error_code e else ''ACCESS_INVALID'') 401
           else e) s
      | (Inr (i, r), s) \<Rightarrow> (Inr (view_of i r), s))"
    by (rule good_after) (cases x; auto simp: call quiet_good split: prod.splits)
qed

lemma good_describe_access: "good cfg X b s (describe_access cfg access trace pv s)"
  unfolding describe_access_def
  by (intro good_rules good_chain [OF good_validate_access])

section \<open>The tenant of a session\<close>

lemma good_selectable: "good cfg X b s (selectable_tenant_workspaces u s)"
  unfolding selectable_tenant_workspaces_def
  by (intro good_transaction quiet_good) (simp add: quiet_def trail_extends_refl)

lemma good_audit_tenant_switch_denied: "good cfg X b s (audit_tenant_switch_denied cfg p t w trace pv s)"
  unfolding audit_tenant_switch_denied_def by (intro good_rules)

lemma good_discharge:
  assumes "good cfg {j} False s r"
    and "\<And>v t. inv {} s \<Longrightarrow> evolves (tables s) (tables t) \<Longrightarrow> r = (Inr v, t) \<Longrightarrow> \<exists>x. dict_get (sessions (tables t)) j = Some x
      \<and> (logged_in (trail t) j x \<or> switched_to (tables t) j x)"
  shows "good cfg {} False s r"
proof (cases "inv {} s")
  case True
  then have g: "inv {j} s" by (rule inv_weaken)
  obtain x t where r: "r = (x, t)" by (rule prod.exhaust)
  show ?thesis
  proof (cases x)
    case (Inr v)
    have t: "inv {j} t" "evolves (tables s) (tables t)" using assms(1) g by (simp_all add: r Inr good_def)
    then show ?thesis using assms(1) assms(2) [OF True t(2), of v] g inv_discharge [OF t(1)] by (auto simp: r Inr good_def)
  qed (use assms(1) g in \<open>simp add: r good_def\<close>)
qed (simp add: good_def)

text \<open>The credentials of a moved session are a family with one token, where it is native.\<close>

lemma good_moved_credentials:
  assumes "insert_session t u pl d j kind dig ex now db = Inr (tables s)" and "db_ok db"
  shows "good cfg X b s (if kind = Native
        then chain (fresh_id cfg' ''fam'' s) (\<lambda>f s.
          chain (draw cfg' l s) (\<lambda>refresh s.
          chain (statement (insert_family f j now) s) (\<lambda>_ s.
          chain (fresh_id cfg' ''ref'' s) (\<lambda>n s.
          chain (statement (insert_refresh n f (digest cfg refresh) now) s) (\<lambda>_.
          returning (Some refresh))))))
        else (Inr None, s))"
proof (intro good_if good_draws good_statement_chain good_ends)
  fix f s1 refresh s2 db'
  assume "kind = Native" "tables s2 = tables s1" "tables s1 = tables s" and ins: "insert_family f j now (tables s2) = Inr db'"
  then show "fits X (tables s2) db'"
    using open_session_ready [OF assms] fits_insert_family [OF ins] by metis
next
  fix f s1 refresh s2 s3 n s4 db'
  assume "tables s4 = tables s3" and s: "inv X s2" and fam: "insert_family f j now (tables s2) = Inr (tables s3)"
    and ins: "insert_refresh n f (digest cfg refresh) now (tables s4) = Inr db'"
  have "db_ok (tables s2)" using s by (simp add: inv_def)
  from family_ready [OF fam this] show "fits X (tables s4) db'"
    using fits_insert_refresh [OF ins] \<open>tables s4 = tables s3\<close> by metis
qed

lemma insert_switchD: "insert_switch e k db = Inr db' \<Longrightarrow> dict_get (switch_outbox db') e = Some k"
  by (auto simp: insert_switch_def elim!: and_then_InrE dest!: insert_rowD(2))

lemma good_move_session: "good cfg {} False s (move_session cfg i r pl t now trace pv s)"
  unfolding move_session_def Let_def
proof (intro good_draws)
  fix d s1 j s2 access s3
  let ?u = "ses_user_id r" and ?kind = "ses_client_kind r"
  let ?rest = "\<lambda>_ s. chain (if ?kind = Native
        then chain (fresh_id cfg ''fam'' s) (\<lambda>f s.
          chain (opaque cfg s) (\<lambda>refresh s.
          chain (statement (insert_family f j now) s) (\<lambda>_ s.
          chain (fresh_id cfg ''ref'' s) (\<lambda>n s.
          chain (statement (insert_refresh n f (digest cfg refresh) now) s) (\<lambda>_.
          returning (Some refresh))))))
        else (Inr None, s)) (\<lambda>refresh s.
    chain (updating (revoke_where (\<lambda>k _. k = i) now) s) (\<lambda>_ s.
    chain (fresh_id cfg ''audit'' s) (\<lambda>e s.
    chain (statement (insert_switch e \<lparr>sw_prior_session_id = i, sw_new_session_id = j,
      sw_prior_tenant_id = ses_tenant_id r, sw_target_tenant_id = t, sw_actor_id = ?u, sw_occurred_at = now,
      sw_trace_id = trace, sw_policy_version = pv, sw_delivered_at = None, sw_created_at = now\<rparr>) s) (\<lambda>_.
    returning \<lparr>cr_access_token = access, cr_refresh_token = refresh, cr_user_id = ?u, cr_session_id = j,
      cr_device_id = d, cr_tenant_id = t, cr_client_kind = ?kind,
      cr_delivery = (if ?kind = Web then web_delivery else native_delivery)\<rparr>))))"
  let ?ins = "insert_session t ?u pl d j ?kind (digest cfg access) (if ?kind = Web then web_session_expiry else now + access_ttl) now"
  have rest: "good cfg {j} False s4 (?rest () s4)" if "?ins (tables s3) = Inr (tables s4)" and "inv {j} s3" for s4
    using good_moved_credentials [OF that(1)] that(2) unfolding inv_def
    by (intro good_chain good_updating_chain good_draws good_statement_chain fits_revoke_where fits_insert_switch good_ends)
      (assumption | blast)+
  show "good cfg {} False s3 (chain (statement ?ins s3) ?rest)"
  proof (rule good_discharge)
    show "good cfg {j} False s3 (chain (statement ?ins s3) ?rest)"
      using rest by (intro good_statement_chain) (auto intro: fits_insert_session)
  next
    fix v s5
    assume inv: "inv {} s3" and "chain (statement ?ins s3) ?rest = (Inr v, s5)"
    then obtain w s4 where call: "statement ?ins s3 = (Inr w, s4)" and r: "?rest () s4 = (Inr v, s5)"
      by (auto elim!: chain_InrD)
    have ins: "?ins (tables s3) = Inr (tables s4)" using statementD [OF call] by simp
    have db: "db_ok (tables s3)" using inv by (simp add: inv_def)
    obtain x where x: "dict_get (sessions (tables s4)) j = Some x" "ses_tenant_id x = t" "ses_user_id x = ?u"
      using open_session_ready(1) [OF ins db] by blast
    have "good cfg {j} False s3 (statement ?ins s3)" by (rule good_statement) (auto intro: fits_insert_session)
    then have "inv {j} s4" using inv_weaken [OF inv] by (simp add: call good_def)
    then have "evolves (tables s4) (tables s5)" using rest [OF ins inv_weaken [OF inv]] by (simp add: r good_def)
    then obtain y where y: "dict_get (sessions (tables s5)) j = Some y" "session_later x y"
      using evolvesD(1) x(1) growsE by metis
    obtain e k s6 s7 where "statement (insert_switch e k) s6 = (Inr (), s7)" "tables s5 = tables s7"
      "sw_new_session_id k = j" "sw_actor_id k = ?u" "sw_target_tenant_id k = t"
      using r by (auto elim!: chain_InrD simp: returning_def)
    then have "switched_to (tables s5) j y"
      using x y(2) insert_switchD [of e k "tables s6" "tables s7"] statementD
      unfolding switched_to_def session_later_def by metis
    with y(1) show "\<exists>x. dict_get (sessions (tables s5)) j = Some x \<and> (logged_in (trail s5) j x \<or> switched_to (tables s5) j x)"
      by blast
  qed
qed

end
