(* ===== verification/Identity_Runs.thy ===== *)
theory Identity_Runs
  imports Identity_Steps
begin

text \<open>
  The calls with a session and the outboxes keep the invariant; the step relation of the identity
  service, its interpretation of the shared contract, and what a run keeps.
\<close>


section \<open>Dispatch\<close>

lemma moved_read_now: "moved cfg X s t \<Longrightarrow> moved cfg X s (snd (read_now cfg' t))"
  by (simp add: moved_def read_now_def)

lemma moved_dispatch_rows:
  assumes "\<And>i now s. moved cfg X s (snd (mark i now s))"
  shows "moved cfg X s (dispatch_rows cfg timed draft mark rows s)"
proof (induction rows arbitrary: s)
  case Nil
  then show ?case by (simp add: moved_refl)
next
  case (Cons p rows)
  obtain i r where p: "p = (i, r)" by (rule prod.exhaust)
  let ?s1 = "if timed then s\<lparr>deadline_reads := Suc (deadline_reads s)\<rparr> else s"
  obtain x s2 where call: "store_append cfg (draft i r) ?s1 = (x, s2)" by (rule prod.exhaust)
  from call have s2: "moved cfg X s s2"
    by (cases rule: store_append_effect) (simp_all add: moved_def fits_refl split: if_splits)
  have marked: "moved cfg X s (snd (chain (read_now cfg s2) (mark i)))"
  proof (cases "clock cfg (clock_reads s2)")
    case None
    then show ?thesis using s2 by (simp add: read_now_def moved_def)
  next
    case (Some now)
    have "moved cfg X s (s2\<lparr>clock_reads := Suc (clock_reads s2)\<rparr>)" using s2 by (simp add: moved_def)
    with assms [of "s2\<lparr>clock_reads := Suc (clock_reads s2)\<rparr>" i now] show ?thesis
      by (auto simp: read_now_def Some intro: moved_trans)
  qed
  have "moved cfg X s (s\<lparr>deadline_reads := Suc (deadline_reads s)\<rparr>)" by (simp add: moved_def trail_extends_refl fits_refl)
  then show ?case
    using Cons.IH moved_trans [OF s2] moved_trans [OF marked] unfolding p
    by (simp add: Let_def call split: sum.split)
qed

lemma moved_mark:
  "moved cfg X s (snd (mark_logout_delivered i now s))"
  "moved cfg X s (snd (mark_switch_delivered i now s))"
  "moved cfg X s (snd (mark_admin_delivered i now s))"
  by (auto simp: mark_logout_delivered_def mark_switch_delivered_def mark_admin_delivered_def transaction_def statement_def
      moved_def trail_extends_refl fits_refl intro!: fits_untouched fits_mark_switch)

lemma moved_dispatch:
  "moved cfg X s (dispatch_pending_self_logout_audits cfg only s)"
  "moved cfg X s (dispatch_pending_tenant_switch_audits cfg s)"
  "moved cfg X s (dispatch_pending_admin_audits cfg only s)"
  by (simp_all add: dispatch_pending_self_logout_audits_def dispatch_pending_tenant_switch_audits_def
      dispatch_pending_admin_audits_def moved_dispatch_rows moved_mark moved_refl)

lemma good_dispatched: "moved cfg X s t \<Longrightarrow> good cfg X b s (x, t)"
  by (simp add: moved_good)

lemma store_append_same: "store_append cfg d s = (x, t) \<Longrightarrow> tables t = tables s"
  by (erule store_append_effect) simp_all

text \<open>A dispatch writes to its outbox only.\<close>

lemma dispatch_rows_keep:
  assumes "\<And>i now s. g (tables (snd (mark i now s))) = g (tables s)"
  shows "g (tables (dispatch_rows cfg timed draft mark rows s)) = g (tables s)"
proof (induction rows arbitrary: s)
  case (Cons p rows)
  obtain i r where p: "p = (i, r)" by (rule prod.exhaust)
  let ?s1 = "if timed then s\<lparr>deadline_reads := Suc (deadline_reads s)\<rparr> else s"
  obtain x s2 where call: "store_append cfg (draft i r) ?s1 = (x, s2)" by (rule prod.exhaust)
  have s2: "tables s2 = tables s" using store_append_same [OF call] by simp
  have "g (tables (snd (chain (read_now cfg s2) (mark i)))) = g (tables s)"
    using assms s2 by (cases "clock cfg (clock_reads s2)") (simp_all add: read_now_def)
  then show ?case using Cons.IH s2 unfolding p by (simp add: Let_def call split: sum.split)
qed simp

lemma dispatch_logouts_keep: "sessions (tables (dispatch_pending_self_logout_audits cfg only s)) = sessions (tables s)"
  unfolding dispatch_pending_self_logout_audits_def
  by (auto simp: mark_logout_delivered_def transaction_def statement_def intro!: dispatch_rows_keep)

section \<open>The calls with a session\<close>

lemma good_switch_in_transaction: "good cfg {} False s (switch_in_transaction cfg access t now trace pv s)"
  unfolding switch_in_transaction_def
  by (intro good_principal_chain good_rules good_chain [OF good_move_session])

lemma good_switch_session_tenant: "good cfg {} b s (switch_session_tenant cfg access t trace pv s)"
  unfolding switch_session_tenant_def
  by (intro good_rules good_chain [OF good_transaction [OF good_switch_in_transaction]] good_dispatched)
    (simp_all add: moved_dispatch moved_refl)

lemma good_change_current_password: "good cfg X b s (change_current_password cfg access p q trace pv s)"
  unfolding change_current_password_def
  by (intro good_rules good_principal_chain fits_revoke_user fits_untouched) simp_all

lemma good_reset_initial_admin_password: "good cfg X b s (reset_initial_admin_password cfg trace pv s)"
  unfolding reset_initial_admin_password_def
  by (intro good_rules good_chain [of cfg X b] good_statement_chain good_statement good_dispatched moved_dispatch fits_revoke_user)
    (auto elim!: and_then_InrE intro!: fits_untouched)

section \<open>Rotation\<close>

lemma refresh_contextD:
  assumes "refresh_context cfg token db = Some (n, r, f, x)" and "db_ok db"
  shows "dict_get (refresh_tokens db) n = Some r" "dict_get (refresh_families db) (ref_family_id r) = Some f"
    "dict_get (sessions db) (fam_session_id f) = Some x" "token = Some v \<Longrightarrow> ref_digest r = digest cfg v"
  using assms select_row_Some [of "refresh_tokens db" _ n r]
  by (auto simp: refresh_context_def db_ok_def refresh_ok_def split: option.splits prod.splits if_splits)

text \<open>After the one unspent token of a family is spent it has none.\<close>

lemma family_spent:
  assumes "db_ok db" and "dict_get (refresh_tokens db) n = Some r" and "ref_used_at r = None"
    and "dict_get (dict_set n (r\<lparr>ref_used_at := Some now\<rparr>) (refresh_tokens db)) m = Some q" and "ref_family_id q = ref_family_id r"
  shows "ref_used_at q \<noteq> None"
proof (cases "m = n")
  case False
  then have "dict_get (refresh_tokens db) m = Some q" using assms(4) by simp
  then show ?thesis using False assms(1-3,5) unfolding db_ok_def refresh_ok_def by metis
qed (use assms(4) in auto)

lemma set_access_same:
  "set_access i y db = Inr db' \<Longrightarrow> refresh_tokens db' = refresh_tokens db \<and> refresh_families db' = refresh_families db"
  by (auto simp: set_access_def split: if_splits)

lemma good_rotation:
  assumes "refresh_context cfg token (tables s) = Some (n, r, f, x)" and "ref_used_at r = None" and "ses_state x = Active"
    and "tables t = tables s" and "inv X s"
  shows "good cfg X b t (chain (updating (\<lambda>db. db\<lparr>refresh_tokens := dict_set n (r\<lparr>ref_used_at := Some now\<rparr>) (refresh_tokens db)\<rparr>) t) (\<lambda>_ s.
           chain (statement (set_access (fam_session_id f) (x\<lparr>ses_access_digest := dig, ses_access_expires_at := ex, ses_updated_at := now\<rparr>)) s) (\<lambda>_ s.
           chain (fresh_id cfg ''ref'' s) (\<lambda>m s.
           chain (statement (insert_refresh m (ref_family_id r) rdig now) s) (\<lambda>_ s.
           chain (audit cfg trace pv e s) (\<lambda>_. returning c))))))"
proof -
  have ok: "db_ok (tables s)" using assms(5) by (simp add: inv_def)
  note rows = refresh_contextD(1-3) [OF assms(1) ok]
  show ?thesis
  proof (intro good_updating_chain good_statement_chain good_draws good_ends)
    show "fits X (tables t) (tables t\<lparr>refresh_tokens := dict_set n (r\<lparr>ref_used_at := Some now\<rparr>) (refresh_tokens (tables t))\<rparr>)"
      using rows assms by (simp add: fits_spend_refresh)
  next
    fix s1 db
    assume "tables s1 = tables t\<lparr>refresh_tokens := dict_set n (r\<lparr>ref_used_at := Some now\<rparr>) (refresh_tokens (tables t))\<rparr>"
      and "set_access (fam_session_id f) (x\<lparr>ses_access_digest := dig, ses_access_expires_at := ex, ses_updated_at := now\<rparr>) (tables s1) = Inr db"
    then show "fits X (tables s1) db"
      using rows assms by (elim fits_set_access) simp_all
  next
    fix s1 s2 m s3 db
    assume s1: "tables s1 = tables t\<lparr>refresh_tokens := dict_set n (r\<lparr>ref_used_at := Some now\<rparr>) (refresh_tokens (tables t))\<rparr>"
      and set: "set_access (fam_session_id f) (x\<lparr>ses_access_digest := dig, ses_access_expires_at := ex, ses_updated_at := now\<rparr>) (tables s1) = Inr (tables s2)"
      and s3: "tables s3 = tables s2" and ins: "insert_refresh m (ref_family_id r) rdig now (tables s3) = Inr db"
    have "refresh_tokens (tables s3) = dict_set n (r\<lparr>ref_used_at := Some now\<rparr>) (refresh_tokens (tables s))"
      "refresh_families (tables s3) = refresh_families (tables s)"
      using set_access_same [OF set] by (simp_all add: s1 s3 assms(4))
    then show "fits X (tables s3) db"
      using fits_insert_refresh [OF ins] family_spent [OF ok rows(1) assms(2)] rows(2) by simp
  qed
qed

lemma good_rotate_in_transaction: "good cfg X b s (rotate_in_transaction cfg token now trace pv s)"
proof (rule good_under_inv)
  assume inv: "inv X s"
  then have ok: "db_ok (tables s)" by (simp add: inv_def)
  show ?thesis
  proof (cases "refresh_context cfg token (tables s)")
    case None
    then show ?thesis by (simp add: rotate_in_transaction_def quiet_good)
  next
    case (Some c)
    obtain n r f x where c: "c = (n, r, f, x)" by (cases c) blast
    note ctx = Some [unfolded c]
    have "dict_get (refresh_families (tables s)) (ref_family_id r) = Some f" using refresh_contextD(2) [OF ctx ok] .
    then have revoked: "fits X (tables s) (revoke_family (ref_family_id r) (fam_session_id f) now (tables s))"
      by (rule fits_revoke_family) simp
    show ?thesis
      unfolding rotate_in_transaction_def ctx Let_def option.case prod.case
      by (intro good_if good_updating_chain good_draws good_ends revoked good_rotation [OF ctx _ _ _ inv]) simp_all
  qed
qed

lemma good_rotate_refresh: "good cfg X b s (rotate_refresh cfg token trace pv s)"
  unfolding rotate_refresh_def
  by (intro good_rules good_chain [OF good_transaction [OF good_rotate_in_transaction]])

section \<open>Step-up authorizations\<close>

lemma good_issue_step_up: "good cfg X b s (issue_step_up cfg access grp target pv trace ttl s)"
  unfolding issue_step_up_def
  by (intro good_rules good_principal_chain good_statement_chain fits_insert_step_up)

lemma good_grant_key: "good cfg X b s (case key of None \<Rightarrow> draw cfg' n s | Some k \<Rightarrow> (Inr (f k), s))"
  by (cases key) (simp_all add: quiet_good)

lemma fits_insert_replay:
  "(case key of None \<Rightarrow> Inr db | Some k \<Rightarrow> and_then (insert_row no_index (place k) (x k) (step_up_replays db))
      (\<lambda>d. Inr (db\<lparr>step_up_replays := d\<rparr>))) = Inr db' \<Longrightarrow> fits X db db'"
  by (auto split: option.splits elim!: and_then_InrE intro: fits_refl fits_untouched)

lemma good_issue_step_up_after_reauthentication:
  "good cfg X b s (issue_step_up_after_reauthentication cfg access pw grp target pv trace ttl key s)"
  unfolding issue_step_up_after_reauthentication_def Let_def
  by (intro good_rules good_principal_chain good_statement_chain fits_insert_step_up fits_insert_replay
      good_chain [OF good_grant_key]) (simp_all add: quiet_good quiet_def trail_extends_refl)

lemma step_upD:
  assumes "select_row (\<lambda>a. su_digest a = dig) (step_ups db) = Some (n, a)" and "db_ok db"
  shows "dict_get (step_ups db) n = Some a" "su_digest a = dig"
  using assms select_row_Some [of "step_ups db" _ n a] by (auto simp: db_ok_def)

text \<open>Two statements that fit together, whether or not the second succeeds.\<close>

lemma good_two_statements:
  assumes "inv X s \<Longrightarrow> fits X (tables s) (f (tables s))"
    and "\<And>db. inv X s \<Longrightarrow> g (f (tables s)) = Inr db \<Longrightarrow> fits X (tables s) db"
    and "\<And>u t. inv X t \<Longrightarrow> good cfg X b t (k u t)"
  shows "good cfg X b s (chain (updating f s) (\<lambda>_ s. chain (statement g s) k))"
proof (cases "g (f (tables s))")
  case (Inl e)
  then have "chain (updating f s) (\<lambda>_ s. chain (statement g s) k) = (Inl e, s\<lparr>tables := f (tables s)\<rparr>)"
    by (simp add: statement_def)
  moreover have "good cfg X b s (Inl e, s\<lparr>tables := f (tables s)\<rparr>)"
    by (rule good_under_inv, rule moved_good) (simp add: moved_def trail_extends_refl assms(1))
  ultimately show ?thesis by simp
next
  case (Inr db)
  then have "chain (updating f s) (\<lambda>_ s. chain (statement g s) k) = chain (statement (\<lambda>db. g (f db)) s) k"
    by (simp add: statement_def)
  then show ?thesis
    using assms(2,3) by (auto intro!: good_chain [OF good_statement])
qed

text \<open>A consumption, and its key if it has one.\<close>

lemma fits_consume:
  assumes "(case ku of None \<Rightarrow> Inr db | Some u \<Rightarrow> and_then (insert_row no_index (place u) x (step_up_consumptions db))
      (\<lambda>d. Inr (db\<lparr>step_up_consumptions := d\<rparr>))) = Inr db'"
    and "db = db0\<lparr>step_ups := dict_set n (a\<lparr>su_used_at := Some now\<rparr>) (step_ups db0)\<rparr>"
    and "dict_get (step_ups db0) n = Some a" and "su_used_at a = None" and "co_step_up_id x = n"
  shows "fits X db0 db'"
proof (cases ku)
  case None
  then show ?thesis using assms fits_spend_step_up by auto
next
  case (Some u)
  then obtain d where "insert_row no_index (place u) x (step_up_consumptions db0) = Inr d"
    and "db' = db0\<lparr>step_ups := dict_set n (a\<lparr>su_used_at := Some now\<rparr>) (step_ups db0), step_up_consumptions := d\<rparr>"
    using assms(1,2) by (auto elim!: and_then_InrE)
  then show ?thesis using fits_spend_under_key [OF assms(3,4) _ assms(5)] by simp
qed

lemma good_spend_step_up: "good cfg X b s (spend_step_up cfg raw p grp target pv trace now op key s)"
proof (rule good_under_inv)
  assume "inv X s"
  then have ok: "db_ok (tables s)" by (simp add: inv_def)
  show ?thesis
    unfolding spend_step_up_def Let_def
  proof (intro good_two_statements good_rules)
    fix v n a q
    assume "select_row (\<lambda>a. su_digest a = digest cfg v) (step_ups (tables s)) = Some q" "q = (n, a)" "\<not> su_used_at a \<noteq> None"
    then show "fits X (tables s) (tables s\<lparr>step_ups := dict_set n (a\<lparr>su_used_at := Some now\<rparr>) (step_ups (tables s))\<rparr>)"
      using step_upD(1) [OF _ ok] by (intro fits_spend_step_up) simp_all
  next
    fix v n a q under db
    assume row: "select_row (\<lambda>a. su_digest a = digest cfg v) (step_ups (tables s)) = Some q" "q = (n, a)" "\<not> su_used_at a \<noteq> None"
      and new: "(case under of None \<Rightarrow> Inr (tables s\<lparr>step_ups := dict_set n (a\<lparr>su_used_at := Some now\<rparr>) (step_ups (tables s))\<rparr>)
        | Some u \<Rightarrow> and_then (insert_row no_index (case u of (o', k) \<Rightarrow> (ses_tenant_id (snd p), ses_user_id (snd p), o', k))
            \<lparr>co_fingerprint = consumption_fingerprint cfg n p grp target pv, co_step_up_id = n, co_consumed_at = now\<rparr>
            (step_up_consumptions (tables s\<lparr>step_ups := dict_set n (a\<lparr>su_used_at := Some now\<rparr>) (step_ups (tables s))\<rparr>)))
          (\<lambda>d. Inr (tables s\<lparr>step_ups := dict_set n (a\<lparr>su_used_at := Some now\<rparr>) (step_ups (tables s)),
            step_up_consumptions := d\<rparr>))) = Inr db"
    show "fits X (tables s) db"
      using row(3) step_upD(1) [OF row(1) [unfolded row(2)] ok] by (intro fits_consume [OF new]) simp_all
  qed
qed

lemma good_consume_step_up: "good cfg X b s (consume_step_up cfg raw access grp target pv trace op key s)"
  unfolding consume_step_up_def
  by (intro good_rules good_principal_chain good_spend_step_up)

section \<open>Devices and revocation\<close>

lemma owned_deviceD:
  assumes "owned_device p d db = Inr w"
  obtains x where "dict_get (devices db) d = Some x" and "dev_tenant_id x = ses_tenant_id (snd p)"
    and "dev_user_id x = ses_user_id (snd p)" and "dev_state x \<noteq> DeviceRevoked"
  using assms by (auto simp: owned_device_def split: option.splits if_splits)

lemma fits_trust:
  assumes "owned_device p d db = Inr w"
  shows "fits X db (db\<lparr>devices := update_where (\<lambda>k _. k = d) (\<lambda>x. x\<lparr>dev_state := Trusted, dev_updated_at := now\<rparr>) (devices db)\<rparr>)"
  using assms by (rule owned_deviceD) (auto simp: device_later_def intro!: fits_devices)

lemma good_trust_device: "good cfg X b s (trust_device cfg access d trace pv s)"
  unfolding trust_device_def
  by (intro good_rules good_principal_chain fits_trust) assumption

lemma good_revoke_session: "good cfg X b s (revoke_session cfg access i raw pv trace s)"
  unfolding revoke_session_def
  by (intro good_rules good_principal_chain good_chain [OF good_spend_step_up] fits_revoke_where)

lemma good_audit_revoked: "good cfg X b s (audit_revoked cfg trace pv p is s)"
  by (induction "is" arbitrary: s) (auto intro!: good_rules simp: quiet_good)

lemma revoke_whereD:
  assumes "dict_get (sessions (revoke_where P now db)) i = Some r"
  obtains r0 where "dict_get (sessions db) i = Some r0"
    and "r = (if P i r0 then r0\<lparr>ses_state := Revoked, ses_updated_at := now\<rparr> else r0)"
  using assms by (auto simp: revoke_where_def)

lemma fits_revoke_device:
  "fits X db (revoke_where (\<lambda>_ r. on_device p d r) now
     (db\<lparr>devices := update_where (\<lambda>k x. k = d \<and> dev_tenant_id x = ses_tenant_id (snd p) \<and> dev_user_id x = ses_user_id (snd p))
       (\<lambda>x. x\<lparr>dev_state := DeviceRevoked, dev_updated_at := now\<rparr>) (devices db)\<rparr>))"
proof -
  let ?P = "\<lambda>k x. k = d \<and> dev_tenant_id x = ses_tenant_id (snd p) \<and> dev_user_id x = ses_user_id (snd p)"
  let ?f = "\<lambda>x. x\<lparr>dev_state := DeviceRevoked, dev_updated_at := now\<rparr>"
  let ?db = "revoke_where (\<lambda>_ r. on_device p d r) now db"
  have devs: "fits X ?db (?db\<lparr>devices := update_where ?P ?f (devices ?db)\<rparr>)"
  proof (rule fits_devices)
    fix k x
    assume "dict_get (devices ?db) k = Some x" and P: "?P k x"
    moreover have "ses_state r = Revoked"
      if "dict_get (sessions ?db) i = Some r" and "ses_device_id r = k" and "ses_tenant_id r = dev_tenant_id x"
        and "ses_user_id r = dev_user_id x" for i r
    proof -
      from that(1) obtain r0 where "r = (if on_device p d r0 then r0\<lparr>ses_state := Revoked, ses_updated_at := now\<rparr> else r0)"
        by (rule revoke_whereD)
      moreover have "on_device p d r" using that(2-4) P by (simp add: on_device_def)
      ultimately show ?thesis by (cases "on_device p d r0") simp_all
    qed
    ultimately show "device_later x (?f x) \<and> (dev_state (?f x) = DeviceRevoked \<longrightarrow> dev_state x = DeviceRevoked
      \<or> (\<forall>i r. dict_get (sessions ?db) i = Some r \<longrightarrow> ses_device_id r = k \<longrightarrow> ses_tenant_id r = dev_tenant_id x
          \<longrightarrow> ses_user_id r = dev_user_id x \<longrightarrow> ses_state r = Revoked))"
      by (auto simp: device_later_def)
  qed
  have "?db\<lparr>devices := update_where ?P ?f (devices ?db)\<rparr>
      = revoke_where (\<lambda>_ r. on_device p d r) now (db\<lparr>devices := update_where ?P ?f (devices db)\<rparr>)"
    by (simp add: revoke_where_def)
  with fits_trans [OF fits_revoke_where devs] show ?thesis by simp
qed

lemma good_revoke_device: "good cfg X b s (revoke_device cfg access d raw pv trace s)"
  unfolding revoke_device_def Let_def
  by (intro good_rules good_principal_chain good_chain [OF good_spend_step_up] good_chain [OF good_audit_revoked] fits_revoke_device)

lemma good_end_session: "good cfg X b s (end_session cfg i r now trace pv s)"
  unfolding end_session_def
  by (intro good_rules fits_revoke_where good_statement) (auto elim!: and_then_InrE intro!: fits_untouched)

lemma good_logout: "good cfg X b s (logout cfg k access pv trace s)"
  unfolding logout_def
  by (intro good_rules good_chain [of cfg X b] good_chain [OF good_end_session] good_dispatched moved_dispatch)

lemma fits_set_user_state: "fits X db (set_user_state u st now db)"
  unfolding set_user_state_def Let_def
  by (auto split: option.splits intro!: fits_revoke_user fits_untouched fits_refl)

section \<open>Runs of the service\<close>

text \<open>
  A step is a call, whatever it answers, a dispatch of an outbox, a change of the state of a user by
  the administration, a change of the tables of the authorization service, or the end of the service.
  Calls that only read are not steps.
\<close>

inductive identity_step :: "identity_service \<Rightarrow> unit \<Rightarrow> identity_state \<Rightarrow> identity_state \<Rightarrow> bool"
  for cfg and c where
  step_signup: "signup cfg l e p trace pv s = (x, t) \<Longrightarrow> identity_step cfg c s t"
| step_verify_email: "verify_email cfg tok trace pv s = (x, t) \<Longrightarrow> identity_step cfg c s t"
| step_resend_verification: "resend_verification cfg i trace pv s = (x, t) \<Longrightarrow> identity_step cfg c s t"
| step_request_password_reset: "request_password_reset cfg i r trace pv s = (x, t) \<Longrightarrow> identity_step cfg c s t"
| step_confirm_password_reset: "confirm_password_reset cfg tok p trace pv s = (x, t) \<Longrightarrow> identity_step cfg c s t"
| step_ensure_initial_admin: "ensure_initial_admin cfg s = (x, t) \<Longrightarrow> identity_step cfg c s t"
| step_reset_initial_admin_password: "reset_initial_admin_password cfg trace pv s = (x, t) \<Longrightarrow> identity_step cfg c s t"
| step_local_login: "local_login cfg l p pl trace pv s = (x, t) \<Longrightarrow> identity_step cfg c s t"
| step_local_native_login: "local_native_login cfg l p trace pv s = (x, t) \<Longrightarrow> identity_step cfg c s t"
| step_begin_oidc_login: "begin_oidc_login cfg is cl au rd k ten trace pv s = (x, t) \<Longrightarrow> identity_step cfg c s t"
| step_complete_oidc_login: "complete_oidc_login cfg st co ve cl rd pr pl trace pv s = (x, t) \<Longrightarrow> identity_step cfg c s t"
| step_validate_access: "validate_access cfg acc trace pv s = (x, t) \<Longrightarrow> identity_step cfg c s t"
| step_describe_access: "describe_access cfg acc trace pv s = (x, t) \<Longrightarrow> identity_step cfg c s t"
| step_switch_session_tenant: "switch_session_tenant cfg acc ten trace pv s = (x, t) \<Longrightarrow> identity_step cfg c s t"
| step_audit_tenant_switch_denied: "audit_tenant_switch_denied cfg p ta w trace pv s = (x, t) \<Longrightarrow> identity_step cfg c s t"
| step_change_current_password: "change_current_password cfg acc p q trace pv s = (x, t) \<Longrightarrow> identity_step cfg c s t"
| step_rotate_refresh: "rotate_refresh cfg tok trace pv s = (x, t) \<Longrightarrow> identity_step cfg c s t"
| step_issue_step_up: "issue_step_up cfg acc g ta pv trace ttl s = (x, t) \<Longrightarrow> identity_step cfg c s t"
| step_issue_step_up_after_reauthentication: "issue_step_up_after_reauthentication cfg acc p g ta pv trace ttl k s = (x, t) \<Longrightarrow> identity_step cfg c s t"
| step_consume_step_up: "consume_step_up cfg raw acc g ta pv trace op k s = (x, t) \<Longrightarrow> identity_step cfg c s t"
| step_trust_device: "trust_device cfg acc d trace pv s = (x, t) \<Longrightarrow> identity_step cfg c s t"
| step_revoke_session: "revoke_session cfg acc i raw pv trace s = (x, t) \<Longrightarrow> identity_step cfg c s t"
| step_revoke_device: "revoke_device cfg acc d raw pv trace s = (x, t) \<Longrightarrow> identity_step cfg c s t"
| step_logout: "logout cfg k acc pv trace s = (x, t) \<Longrightarrow> identity_step cfg c s t"
| step_add_tenant_membership: "add_tenant_membership ten u r s = (x, t) \<Longrightarrow> identity_step cfg c s t"
| step_required_step_up_actions: "required_step_up_actions ten s = (x, t) \<Longrightarrow> identity_step cfg c s t"
| step_add_step_up_action: "add_step_up_action ten a s = (x, t) \<Longrightarrow> identity_step cfg c s t"
| step_requires_step_up: "requires_step_up ten a s = (x, t) \<Longrightarrow> identity_step cfg c s t"
| step_dispatch_logouts: "identity_step cfg c s (dispatch_pending_self_logout_audits cfg only s)"
| step_dispatch_switches: "identity_step cfg c s (dispatch_pending_tenant_switch_audits cfg s)"
| step_dispatch_admin: "identity_step cfg c s (dispatch_pending_admin_audits cfg only s)"
| step_user_state: "identity_step cfg c s (s\<lparr>tables := set_user_state u st now (tables s)\<rparr>)"
| step_auth: "identity_step cfg c s (s\<lparr>auth := a\<rparr>)"
| step_close: "identity_step cfg c s (close_service s)"

text \<open>What a step keeps.\<close>

definition kept :: "identity_service \<Rightarrow> identity_state \<Rightarrow> identity_state \<Rightarrow> bool" where
  "kept cfg s t \<longleftrightarrow> (inv {} s \<longrightarrow> inv {} t \<and> evolves (tables s) (tables t) \<and> trail_extends cfg (trail s) (trail t))"

lemma good_kept: "good cfg {} True s r \<Longrightarrow> r = (x, t) \<Longrightarrow> kept cfg s t"
  by (simp add: good_def kept_def)

lemma moved_kept: "moved cfg {} s t \<Longrightarrow> kept cfg s t"
  using moved_inv by (auto simp: kept_def moved_def fits_def inv_def)

lemma identity_step_kept: "identity_step cfg c s t \<Longrightarrow> kept cfg s t"
proof (induction rule: identity_step.induct)
  case (step_signup s)
  then show ?case by (rule good_kept [OF good_signup])
next
  case (step_verify_email s)
  then show ?case by (rule good_kept [OF good_verify_email])
next
  case (step_resend_verification s)
  then show ?case by (rule good_kept [OF good_resend_verification])
next
  case (step_request_password_reset s)
  then show ?case by (rule good_kept [OF good_request_password_reset])
next
  case (step_confirm_password_reset s)
  then show ?case by (rule good_kept [OF good_confirm_password_reset])
next
  case (step_ensure_initial_admin s)
  then show ?case by (rule good_kept [OF good_ensure_initial_admin])
next
  case (step_reset_initial_admin_password s)
  then show ?case by (rule good_kept [OF good_reset_initial_admin_password])
next
  case (step_local_login s)
  then show ?case by (rule good_kept [OF good_local_login])
next
  case (step_local_native_login s)
  then show ?case by (rule good_kept [OF good_local_native_login])
next
  case (step_begin_oidc_login s)
  then show ?case by (rule good_kept [OF good_begin_oidc_login])
next
  case (step_complete_oidc_login s)
  then show ?case by (rule good_kept [OF good_complete_oidc_login])
next
  case (step_validate_access s)
  then show ?case by (rule good_kept [OF good_validate_access])
next
  case (step_describe_access s)
  then show ?case by (rule good_kept [OF good_describe_access])
next
  case (step_switch_session_tenant s)
  then show ?case by (rule good_kept [OF good_switch_session_tenant])
next
  case (step_audit_tenant_switch_denied s)
  then show ?case by (rule good_kept [OF good_audit_tenant_switch_denied])
next
  case (step_change_current_password s)
  then show ?case by (rule good_kept [OF good_change_current_password])
next
  case (step_rotate_refresh s)
  then show ?case by (rule good_kept [OF good_rotate_refresh])
next
  case (step_issue_step_up s)
  then show ?case by (rule good_kept [OF good_issue_step_up])
next
  case (step_issue_step_up_after_reauthentication s)
  then show ?case by (rule good_kept [OF good_issue_step_up_after_reauthentication])
next
  case (step_consume_step_up s)
  then show ?case by (rule good_kept [OF good_consume_step_up])
next
  case (step_trust_device s)
  then show ?case by (rule good_kept [OF good_trust_device])
next
  case (step_revoke_session s)
  then show ?case by (rule good_kept [OF good_revoke_session])
next
  case (step_revoke_device s)
  then show ?case by (rule good_kept [OF good_revoke_device])
next
  case (step_logout s)
  then show ?case by (rule good_kept [OF good_logout])
next
  case (step_add_tenant_membership s)
  then show ?case by (rule good_kept [OF good_add_tenant_membership])
next
  case (step_required_step_up_actions s)
  then show ?case by (rule good_kept [OF good_required_step_up_actions])
next
  case (step_add_step_up_action s)
  then show ?case by (rule good_kept [OF good_add_step_up_action])
next
  case (step_requires_step_up s)
  then show ?case by (rule good_kept [OF good_requires_step_up])
next
  case (step_dispatch_logouts s only)
  show ?case by (rule moved_kept [OF moved_dispatch(1)])
next
  case (step_dispatch_switches s)
  show ?case by (rule moved_kept [OF moved_dispatch(2)])
next
  case (step_dispatch_admin s only)
  show ?case by (rule moved_kept [OF moved_dispatch(3)])
next
  case (step_user_state s u st now)
  show ?case by (rule moved_kept) (simp add: moved_def trail_extends_refl fits_set_user_state)
next
  case (step_auth s a)
  show ?case by (rule moved_kept) (simp add: moved_def trail_extends_refl fits_refl)
next
  case (step_close s)
  show ?case by (rule moved_kept) (simp add: close_service_def moved_def trail_extends_refl fits_refl)
qed

definition identity_start :: "identity_state \<Rightarrow> bool" where
  "identity_start s \<longleftrightarrow> (\<exists>a. s = empty_service a)"

definition identity_inv :: "identity_service \<Rightarrow> identity_state \<Rightarrow> bool" where
  "identity_inv cfg s \<longleftrightarrow> inv {} s \<and> store_inv (audit_parameters cfg) (trail s)"

lemma db_ok_empty: "db_ok empty_identity"
  by (simp add: db_ok_def sessions_ok_def refresh_ok_def unique_column_def spent_ok_def empty_identity_def)

interpretation identity: service identity_start "identity_step cfg" "identity_inv cfg" for cfg
proof unfold_locales
  show "identity_inv cfg s" if "identity_start s" for s
    using that audit.inv_start [of empty_store] db_ok_empty
    by (auto simp: identity_start_def identity_inv_def empty_service_def inv_def recorded_def empty_identity_def store_start_def)
  show "identity_inv cfg t" if "identity_inv cfg s" "identity_step cfg c s t" for c s t
    using identity_step_kept [OF that(2)] that(1) by (auto simp: identity_inv_def kept_def trail_extends_def)
qed

text \<open>Along a run nothing comes back.\<close>

lemma runs_evolves: "runs (identity_step cfg) s cs t \<Longrightarrow> identity_inv cfg s \<Longrightarrow> evolves (tables s) (tables t)"
proof (induction rule: runs.induct)
  case (runs_none s)
  show ?case by (rule evolves_refl)
next
  case (runs_more c s t cs u)
  then have "evolves (tables s) (tables t)" using identity_step_kept by (auto simp: identity_inv_def kept_def)
  moreover have "evolves (tables t) (tables u)" using runs_more identity.inv_step by blast
  ultimately show ?case by (rule evolves_trans)
qed

lemma reachable_db_ok: "reachable identity_start (identity_step cfg) s \<Longrightarrow> db_ok (tables s)"
  using identity.reachable_inv by (auto simp: identity_inv_def inv_def)

end
