(* ===== verification/Identity_Demo.thy ===== *)
theory Identity_Demo
  imports Identity_Runs
begin

text \<open>
  The states at which the properties of the identity service are applied: a login through a provider
  from a native client and from the web, and the initial administrator, evaluated call by call.
\<close>

section \<open>A small service\<close>

text \<open>
  The digest of a text is its length, the draws are texts of growing length, a hash of a password is
  the password. The clock jumps by more than an hour after four readings.
\<close>

definition demo_time :: "nat \<Rightarrow> int" where
  "demo_time n = (if n < 4 then int n else 3600000000 + int n)"

definition demo_parameters :: audit_config where
  "demo_parameters = \<lparr>sha256 = (\<lambda>_. genesis_hash), canonical_time = (\<lambda>_. ''t''),
     ip_address = (\<lambda>_. None), closed_address = (\<lambda>_. False), url_hostname = (\<lambda>_. Some None)\<rparr>"

definition demo_policy :: "client_kind \<Rightarrow> oidc_client_policy" where
  "demo_policy k = \<lparr>op_issuer = ''i'', op_client_id = ''c'', op_audience = ''a'', op_redirect_uris = [''r''],
     op_client_kind = k, op_tenant_id = ''t''\<rparr>"

definition demo_identity :: identity_service where
  "demo_identity = \<lparr>clock = (\<lambda>n. Some (demo_time n)), token_urlsafe = (\<lambda>_ n. replicate (Suc n) (CHR ''x'')),
     sha256_bytes = (\<lambda>v. [length v]), hmac_bytes = (\<lambda>_ v. [length v]), hash_password = (\<lambda>_ v. v),
     verify_password = (\<lambda>h v. h = v), mail_delivered = (\<lambda>_. True), audit_answers = (\<lambda>_. True),
     audit_parameters = demo_parameters, deadline_passed = (\<lambda>_. False), oidc_policies = [demo_policy Native, demo_policy Web],
     step_up_token_key = ''k''\<rparr>"

lemma replicate_numeral_Cons [simp]: "replicate (numeral k) x = x # replicate (pred_numeral k) x"
  by (simp add: numeral_eq_Suc)

lemma demo_clock [simp]: "read_now demo_identity s = (Inr (demo_time (clock_reads s)), s\<lparr>clock_reads := Suc (clock_reads s)\<rparr>)"
  by (simp add: read_now_def demo_identity_def)

lemma demo_draw [simp]:
  "draw demo_identity n s = (Inr (replicate (Suc (draws s)) (CHR ''x'')), s\<lparr>draws := Suc (draws s)\<rparr>)"
  "fresh_id demo_identity p s = (Inr (p @ ''-'' @ replicate (Suc (draws s)) (CHR ''x'')), s\<lparr>draws := Suc (draws s)\<rparr>)"
  by (simp_all add: draw_def demo_identity_def fresh_id_def returning_def)

definition demo_trail :: "string \<Rightarrow> string \<Rightarrow> identity_state \<Rightarrow> audit_entry \<Rightarrow> audit_store" where
  "demo_trail trace pv s e = snd (append_event demo_parameters (new_draft (''audit-'' @ replicate (Suc (draws s)) (CHR ''x''))
     (demo_time (clock_reads s)) trace pv (if en_actor_id e \<noteq> anonymous then UserActor else SystemActor) e) (trail s))"

text \<open>An entry is written where its draft is valid and its name is new.\<close>

lemma demo_audit:
  assumes "checked_texts [trace, pv] = Inr ()"
    and "\<not> isl (validate_draft demo_parameters (new_draft (''audit-'' @ replicate (Suc (draws s)) (CHR ''x''))
      (demo_time (clock_reads s)) trace pv (if en_actor_id e \<noteq> anonymous then UserActor else SystemActor) e))"
    and "''audit-'' @ replicate (Suc (draws s)) (CHR ''x'') \<notin> set (event_ids (trail s))"
  shows "audit demo_identity trace pv e s = (Inr (), s\<lparr>draws := Suc (draws s), clock_reads := Suc (clock_reads s),
      audit_calls := Suc (audit_calls s), trail := demo_trail trace pv s e\<rparr>)"
    and "event_ids (demo_trail trace pv s e) = (''audit-'' @ replicate (Suc (draws s)) (CHR ''x'')) # event_ids (trail s)"
proof -
  let ?d = "new_draft (''audit-'' @ replicate (Suc (draws s)) (CHR ''x'')) (demo_time (clock_reads s)) trace pv
    (if en_actor_id e \<noteq> anonymous then UserActor else SystemActor) e"
  obtain v where v: "validate_draft demo_parameters ?d = Inr v" using assms(2) by (metis isl_def sum.exhaust)
  have id: "ev_event_id v = event_id ?d" using v by (auto simp: validate_draft_def elim!: and_then_InrD split: option.splits)
  then have fresh: "ev_event_id v \<notin> set (event_ids (trail s))" using assms(3) by (simp add: new_draft_def)
  obtain x where append: "append_event demo_parameters ?d (trail s) = (Inr x, demo_trail trace pv s e)"
    and ids: "event_ids (demo_trail trace pv s e) = ev_event_id v # event_ids (trail s)"
    using v fresh by (auto simp: append_event_def demo_trail_def Let_def)
  show "event_ids (demo_trail trace pv s e) = (''audit-'' @ replicate (Suc (draws s)) (CHR ''x'')) # event_ids (trail s)"
    using ids id by (simp add: new_draft_def)
  have texts: "\<exists>v. checked_text trace = Inr v" "\<exists>v. checked_text pv = Inr v"
    using assms(1) by (auto elim!: and_then_InrE)
  show "audit demo_identity trace pv e s = (Inr (), s\<lparr>draws := Suc (draws s), clock_reads := Suc (clock_reads s),
      audit_calls := Suc (audit_calls s), trail := demo_trail trace pv s e\<rparr>)"
    using texts append by (auto simp: audit_def store_append_def Let_def demo_identity_def [THEN arg_cong [of _ _ audit_answers]]
        demo_identity_def [THEN arg_cong [of _ _ audit_parameters]])
qed

lemma demo_time_simps [simp]: "demo_time 0 = 0" "demo_time (Suc 0) = 1" "demo_time (Suc (Suc 0)) = 2" "demo_time 2 = 2" "demo_time 3 = 3"
  "demo_time 4 = 3600000004" "demo_time 5 = 3600000005" "demo_time 6 = 3600000006" "demo_time 7 = 3600000007"
  by (simp_all add: demo_time_def)

section \<open>A login through a provider\<close>

definition oidc0 :: identity_state where "oidc0 = empty_service empty_tables"

lemma demo_texts [simp]: "checked_text ''tr'' = Inr ''tr''" "checked_text ''p'' = Inr ''p''" "checked_text ''c'' = Inr ''c''"
  "checked_text ''a'' = Inr ''a''" "checked_text ''t'' = Inr ''t''" "checked_opaque ''i'' = Inr ''i''" "checked_opaque ''r'' = Inr ''r''"
  "checked_opaque ''x'' = Inr ''x''" "checked_opaque ''xxx'' = Inr ''xxx''" "checked_opaque ''s'' = Inr ''s''"
  by code_simp+

lemma demo_policy_found [simp]: "find_policy demo_identity ''i'' ''c'' ''a'' ''r'' k ''t'' = Inr (demo_policy k)"
  by (cases k) (simp_all add: find_policy_def demo_identity_def demo_policy_def)

lemma demo_begin_valid [simp]: "\<not> isl (validate_draft demo_parameters (new_draft ''audit-xxxxx'' 1 ''tr'' ''p'' SystemActor
    (entry ''identity.login.started'' Succeeded ''t'' anonymous ''oidc_transaction'' ''oidc-xxxx''
      [(''client_type'', AText (client_kind_value k))])))"
  by (cases k; hypsubst; code_simp)

lemma demo_entry [simp]: "en_actor_id (entry a b c d e f g) = d"
  by (simp add: entry_def)

lemma demo_policy_simps [simp]: "op_issuer (demo_policy k) = ''i''" "op_client_id (demo_policy k) = ''c''" "op_audience (demo_policy k) = ''a''"
  by (simp_all add: demo_policy_def)

definition oidc_row_of :: "client_kind \<Rightarrow> oidc_row" where
  "oidc_row_of k = \<lparr>ot_state_digest = digest demo_identity ''x'', ot_nonce_digest = digest demo_identity ''xx'',
     ot_code_challenge = code_challenge_of demo_identity ''xxx'', ot_issuer = ''i'', ot_client_id = ''c'',
     ot_audience = ''a'', ot_redirect_uri = ''r'', ot_client_kind = k, ot_tenant_id = ''t'',
     ot_expires_at = oidc_transaction_ttl, ot_used_at = None, ot_created_at = 0\<rparr>"

lemmas identity_eval = transaction_def statement_def ensure_tenant_def insert_row_def returning_def

lemma demo_begin:
  "\<exists>v tr. begin_oidc_login demo_identity ''i'' ''c'' ''a'' ''r'' k ''t'' ''tr'' ''p'' oidc0 =
    (Inr v, \<lparr>tables = empty_identity\<lparr>tenants := [''t''], oidc_transactions := [(''oidc-xxxx'', oidc_row_of k)]\<rparr>,
      auth = empty_tables, trail = tr, mails = [], closed = False, clock_reads = 2, draws = 5, audit_calls = 1, deadline_reads = 0\<rparr>)
    \<and> event_ids tr = [''audit-xxxxx'']"
  by (simp add: begin_oidc_login_def oidc0_def empty_service_def empty_identity_def identity_eval demo_audit oidc_row_of_def empty_store_def)

definition demo_claims :: oidc_claims where
  "demo_claims = \<lparr>verification_complete = True, cl_issuer = ''i'', cl_audience = ''a'', cl_subject = ''s'', cl_nonce = ''xx'',
     cl_expires_at = Some 100\<rparr>"

definition demo_provider :: "exchange_request \<Rightarrow> provider_answer" where
  "demo_provider _ = Claims demo_claims"

lemma demo_login_valid [simp]:
  "\<not> isl (validate_draft demo_parameters (new_draft ''audit-xxxxxxxxxxxxx'' 3 ''tr'' ''p'' UserActor
    (entry ''identity.login.succeeded'' Succeeded ''t'' ''usr-xxxxxx'' ''session'' ''ses-xxxxxxxx''
      [(''client_type'', AText ''native'')])))"
  "\<not> isl (validate_draft demo_parameters (new_draft ''audit-xxxxxxxxxx'' 3 ''tr'' ''p'' UserActor
    (entry ''identity.login.succeeded'' Succeeded ''t'' ''usr-xxxxxx'' ''session'' ''ses-xxxxxxxx''
      [(''client_type'', AText ''web'')])))"
  by code_simp+

text \<open>The rows of a first login.\<close>

definition new_device :: "string \<Rightarrow> string \<Rightarrow> device_platform \<Rightarrow> int \<Rightarrow> device_row" where
  "new_device t u pl now = \<lparr>dev_tenant_id = t, dev_user_id = u, dev_platform = pl,
      dev_state = Registered, dev_last_seen_at = now, dev_created_at = now, dev_updated_at = now\<rparr>"

definition new_session :: "string \<Rightarrow> string \<Rightarrow> string \<Rightarrow> client_kind \<Rightarrow> string \<Rightarrow> int \<Rightarrow> int \<Rightarrow> session_row" where
  "new_session t u d kind dig ex now = \<lparr>ses_tenant_id = t, ses_user_id = u, ses_device_id = d,
      ses_client_kind = kind, ses_access_digest = dig, ses_access_expires_at = ex,
      ses_state = Active, ses_created_at = now, ses_updated_at = now\<rparr>"

definition new_family :: "string \<Rightarrow> int \<Rightarrow> family_row" where
  "new_family i now = \<lparr>fam_session_id = i, fam_state = Active, fam_created_at = now, fam_updated_at = now\<rparr>"

definition new_refresh :: "string \<Rightarrow> string \<Rightarrow> int \<Rightarrow> refresh_row" where
  "new_refresh f dig now = \<lparr>ref_family_id = f, ref_digest = dig, ref_expires_at = now + refresh_ttl,
      ref_used_at = None, ref_created_at = now\<rparr>"

lemma first_session:
  assumes "devices (tables s) = []" "sessions (tables s) = []"
  shows "open_session demo_identity t u pl d i kind access ex now None s = (Inr (), s\<lparr>tables := (tables s)
    \<lparr>devices := [(d, new_device t u pl now)], sessions := [(i, new_session t u d kind (digest demo_identity access) ex now)]\<rparr>\<rparr>)"
  using assms by (simp add: open_session_def statement_def insert_session_def insert_row_def new_device_def new_session_def)

lemma first_native_session:
  assumes "devices (tables s) = []" "sessions (tables s) = []" "refresh_families (tables s) = []" "refresh_tokens (tables s) = []"
  shows "open_session demo_identity t u pl d i kind access ex now (Some (f, refresh)) s = (Inr (), s\<lparr>tables := (tables s)
    \<lparr>devices := [(d, new_device t u pl now)], sessions := [(i, new_session t u d kind (digest demo_identity access) ex now)],
     refresh_families := [(f, new_family i now)],
     refresh_tokens := [(''ref-'' @ replicate (Suc (draws s)) (CHR ''x''), new_refresh f (digest demo_identity refresh) now)]\<rparr>,
     draws := Suc (draws s)\<rparr>)"
  using assms by (simp add: open_session_def statement_def insert_session_def insert_row_def new_device_def new_session_def
      insert_family_def insert_refresh_def new_family_def new_refresh_def)

lemma first_user:
  assumes "users (tables s) = []"
  shows "user_of_claims demo_identity iss sub s = (Inr (''usr-'' @ replicate (Suc (draws s)) (CHR ''x'')),
    s\<lparr>tables := (tables s)\<lparr>users := [(''usr-'' @ replicate (Suc (draws s)) (CHR ''x''),
      \<lparr>u_issuer = iss, u_subject = sub, u_login_id = None, u_email = None, u_password_digest = None, u_email_verified_at = None,
       u_password_change_required = False, u_state = ''active''\<rparr>)]\<rparr>, draws := Suc (draws s)\<rparr>)"
  using assms by (simp add: user_of_claims_def select_row_def statement_def insert_user_def insert_row_def returning_def)

lemma oidc_row_simps [simp]:
  "ot_state_digest (oidc_row_of k) = digest demo_identity ''x''" "ot_nonce_digest (oidc_row_of k) = digest demo_identity ''xx''"
  "ot_code_challenge (oidc_row_of k) = code_challenge_of demo_identity ''xxx''" "ot_issuer (oidc_row_of k) = ''i''"
  "ot_client_id (oidc_row_of k) = ''c''" "ot_audience (oidc_row_of k) = ''a''" "ot_redirect_uri (oidc_row_of k) = ''r''"
  "ot_client_kind (oidc_row_of k) = k" "ot_tenant_id (oidc_row_of k) = ''t''" "ot_expires_at (oidc_row_of k) = 300000000"
  "ot_used_at (oidc_row_of k) = None"
  by (simp_all add: oidc_row_of_def oidc_transaction_ttl_def seconds_def)

lemma demo_finish_native:
  assumes "users (tables s) = []" "devices (tables s) = []" "sessions (tables s) = []" "refresh_families (tables s) = []"
    "refresh_tokens (tables s) = []" "clock_reads s = 3" "draws s = 5" "event_ids (trail s) = [''audit-xxxxx'']"
  shows "\<exists>v t. finish_oidc_login demo_identity ''oidc-xxxx'' (oidc_row_of Native) demo_claims Windows 2 ''tr'' ''p'' s = (Inr v, t)
    \<and> sessions (tables t) = [(''ses-xxxxxxxx'', new_session ''t'' ''usr-xxxxxx'' ''dev-xxxxxxx'' Native (digest demo_identity ''xxxxxxxxx'') 3600000002 2)]
    \<and> refresh_families (tables t) = [(''fam-xxxxxxxxxxx'', new_family ''ses-xxxxxxxx'' 2)]
    \<and> refresh_tokens (tables t) = [(''ref-xxxxxxxxxxxx'', new_refresh ''fam-xxxxxxxxxxx'' (digest demo_identity ''xxxxxxxxxx'') 2)]
    \<and> logout_outbox (tables t) = logout_outbox (tables s)
    \<and> dict_get (step_up_actions (tables t)) (''t'', ''external_transfer'') \<noteq> None
    \<and> cr_refresh_token v = Some ''xxxxxxxxxx''
    \<and> closed t = closed s \<and> clock_reads t = 4 \<and> draws t = 13 \<and> event_ids (trail t) = [''audit-xxxxxxxxxxxxx'', ''audit-xxxxx'']"
  using assms
  by (simp add: finish_oidc_login_def demo_claims_def statement_def first_user first_native_session login_scope_def demo_audit
     returning_def client_kind_value_def access_ttl_def seconds_def anonymous_def Let_def
      seed_minimum_step_up_actions_def minimum_step_up_action_groups_def get_insert_or_ignore) blast

lemma demo_finish_web:
  assumes "users (tables s) = []" "devices (tables s) = []" "sessions (tables s) = []" "refresh_families (tables s) = []"
    "refresh_tokens (tables s) = []" "clock_reads s = 3" "draws s = 5" "event_ids (trail s) = [''audit-xxxxx'']"
  shows "\<exists>v t. finish_oidc_login demo_identity ''oidc-xxxx'' (oidc_row_of Web) demo_claims Windows 2 ''tr'' ''p'' s = (Inr v, t)
    \<and> sessions (tables t) = [(''ses-xxxxxxxx'', new_session ''t'' ''usr-xxxxxx'' ''dev-xxxxxxx'' Web (digest demo_identity ''xxxxxxxxx'') 3600000002 2)]
    \<and> step_ups (tables t) = step_ups (tables s) \<and> step_up_consumptions (tables t) = step_up_consumptions (tables s)
    \<and> dict_get (step_up_actions (tables t)) (''t'', ''external_transfer'') \<noteq> None
    \<and> closed t = closed s \<and> clock_reads t = 4 \<and> draws t = 10 \<and> event_ids (trail t) = [''audit-xxxxxxxxxx'', ''audit-xxxxx'']"
  using assms
  by (simp add: finish_oidc_login_def demo_claims_def statement_def first_user first_session login_scope_def demo_audit
     returning_def client_kind_value_def access_ttl_def seconds_def anonymous_def Let_def
      seed_minimum_step_up_actions_def minimum_step_up_action_groups_def get_insert_or_ignore) blast

definition demo_started :: "client_kind \<Rightarrow> identity_state" where
  "demo_started k = snd (begin_oidc_login demo_identity ''i'' ''c'' ''a'' ''r'' k ''t'' ''tr'' ''p'' oidc0)"

definition demo_in :: "client_kind \<Rightarrow> identity_state" where
  "demo_in k = snd (complete_oidc_login demo_identity ''x'' ''r'' ''xxx'' ''c'' ''r'' demo_provider Windows ''tr'' ''p'' (demo_started k))"

lemma demo_started:
  "tables (demo_started k) = empty_identity\<lparr>tenants := [''t''], oidc_transactions := [(''oidc-xxxx'', oidc_row_of k)]\<rparr>"
  "closed (demo_started k) = False" "clock_reads (demo_started k) = 2" "draws (demo_started k) = 5"
  "event_ids (trail (demo_started k)) = [''audit-xxxxx'']"
  using demo_begin [of k] by (auto simp: demo_started_def)

lemma demo_complete:
  "complete_oidc_login demo_identity ''x'' ''r'' ''xxx'' ''c'' ''r'' demo_provider Windows ''tr'' ''p'' (demo_started k) =
    transaction (finish_oidc_login demo_identity ''oidc-xxxx'' (oidc_row_of k) demo_claims Windows 2 ''tr'' ''p'')
      ((demo_started k)\<lparr>clock_reads := 3\<rparr>)"
  by (simp add: demo_started complete_oidc_login_def open_transaction_def select_row_def empty_identity_def
      login_denial_def ascii_text_def demo_provider_def claims_fit_def transaction_def)
     (simp add: demo_claims_def)

lemma demo_in_native:
  "sessions (tables (demo_in Native)) = [(''ses-xxxxxxxx'',
      new_session ''t'' ''usr-xxxxxx'' ''dev-xxxxxxx'' Native (digest demo_identity ''xxxxxxxxx'') 3600000002 2)]"
  "refresh_families (tables (demo_in Native)) = [(''fam-xxxxxxxxxxx'', new_family ''ses-xxxxxxxx'' 2)]"
  "refresh_tokens (tables (demo_in Native)) = [(''ref-xxxxxxxxxxxx'', new_refresh ''fam-xxxxxxxxxxx'' (digest demo_identity ''xxxxxxxxxx'') 2)]"
  "logout_outbox (tables (demo_in Native)) = []" "closed (demo_in Native) = False" "clock_reads (demo_in Native) = 4"
  "draws (demo_in Native) = 13" "event_ids (trail (demo_in Native)) = [''audit-xxxxxxxxxxxxx'', ''audit-xxxxx'']"
  "\<exists>v. complete_oidc_login demo_identity ''x'' ''r'' ''xxx'' ''c'' ''r'' demo_provider Windows ''tr'' ''p'' (demo_started Native)
    = (Inr v, demo_in Native)"
proof -
  obtain v t where f: "finish_oidc_login demo_identity ''oidc-xxxx'' (oidc_row_of Native) demo_claims Windows 2 ''tr'' ''p''
      ((demo_started Native)\<lparr>clock_reads := 3\<rparr>) = (Inr v, t)"
    and t: "sessions (tables t) = [(''ses-xxxxxxxx'', new_session ''t'' ''usr-xxxxxx'' ''dev-xxxxxxx'' Native (digest demo_identity ''xxxxxxxxx'') 3600000002 2)]"
      "refresh_families (tables t) = [(''fam-xxxxxxxxxxx'', new_family ''ses-xxxxxxxx'' 2)]"
      "refresh_tokens (tables t) = [(''ref-xxxxxxxxxxxx'', new_refresh ''fam-xxxxxxxxxxx'' (digest demo_identity ''xxxxxxxxxx'') 2)]"
      "logout_outbox (tables t) = []" "closed t = False" "clock_reads t = 4" "draws t = 13"
      "event_ids (trail t) = [''audit-xxxxxxxxxxxxx'', ''audit-xxxxx'']"
    using demo_finish_native [of "(demo_started Native)\<lparr>clock_reads := 3\<rparr>"]
    by (auto simp: demo_started empty_identity_def)
  have call: "complete_oidc_login demo_identity ''x'' ''r'' ''xxx'' ''c'' ''r'' demo_provider Windows ''tr'' ''p'' (demo_started Native)
    = (Inr v, t)"
    unfolding demo_complete transaction_def f by (simp add: demo_started)
  then have "demo_in Native = t" by (simp add: demo_in_def)
  then show "sessions (tables (demo_in Native)) = [(''ses-xxxxxxxx'',
      new_session ''t'' ''usr-xxxxxx'' ''dev-xxxxxxx'' Native (digest demo_identity ''xxxxxxxxx'') 3600000002 2)]"
    "refresh_families (tables (demo_in Native)) = [(''fam-xxxxxxxxxxx'', new_family ''ses-xxxxxxxx'' 2)]"
    "refresh_tokens (tables (demo_in Native)) = [(''ref-xxxxxxxxxxxx'', new_refresh ''fam-xxxxxxxxxxx'' (digest demo_identity ''xxxxxxxxxx'') 2)]"
    "logout_outbox (tables (demo_in Native)) = []" "closed (demo_in Native) = False" "clock_reads (demo_in Native) = 4"
    "draws (demo_in Native) = 13" "event_ids (trail (demo_in Native)) = [''audit-xxxxxxxxxxxxx'', ''audit-xxxxx'']"
    "\<exists>v. complete_oidc_login demo_identity ''x'' ''r'' ''xxx'' ''c'' ''r'' demo_provider Windows ''tr'' ''p'' (demo_started Native)
      = (Inr v, demo_in Native)"
    using t call by simp_all
qed

lemma demo_in_web:
  "sessions (tables (demo_in Web)) = [(''ses-xxxxxxxx'',
      new_session ''t'' ''usr-xxxxxx'' ''dev-xxxxxxx'' Web (digest demo_identity ''xxxxxxxxx'') 3600000002 2)]"
  "step_ups (tables (demo_in Web)) = []" "step_up_consumptions (tables (demo_in Web)) = []"
  "dict_get (step_up_actions (tables (demo_in Web))) (''t'', ''external_transfer'') \<noteq> None"
  "closed (demo_in Web) = False" "clock_reads (demo_in Web) = 4" "draws (demo_in Web) = 10"
  "event_ids (trail (demo_in Web)) = [''audit-xxxxxxxxxx'', ''audit-xxxxx'']"
proof -
  obtain v t where f: "finish_oidc_login demo_identity ''oidc-xxxx'' (oidc_row_of Web) demo_claims Windows 2 ''tr'' ''p''
      ((demo_started Web)\<lparr>clock_reads := 3\<rparr>) = (Inr v, t)"
    and t: "sessions (tables t) = [(''ses-xxxxxxxx'', new_session ''t'' ''usr-xxxxxx'' ''dev-xxxxxxx'' Web (digest demo_identity ''xxxxxxxxx'') 3600000002 2)]"
      "step_ups (tables t) = []" "step_up_consumptions (tables t) = []"
      "dict_get (step_up_actions (tables t)) (''t'', ''external_transfer'') \<noteq> None"
      "closed t = False" "clock_reads t = 4" "draws t = 10" "event_ids (trail t) = [''audit-xxxxxxxxxx'', ''audit-xxxxx'']"
    using demo_finish_web [of "(demo_started Web)\<lparr>clock_reads := 3\<rparr>"]
    by (auto simp: demo_started empty_identity_def)
  have "complete_oidc_login demo_identity ''x'' ''r'' ''xxx'' ''c'' ''r'' demo_provider Windows ''tr'' ''p'' (demo_started Web)
    = (Inr v, t)"
    unfolding demo_complete transaction_def f by (simp add: demo_started)
  then have "demo_in Web = t" by (simp add: demo_in_def)
  then show "sessions (tables (demo_in Web)) = [(''ses-xxxxxxxx'',
      new_session ''t'' ''usr-xxxxxx'' ''dev-xxxxxxx'' Web (digest demo_identity ''xxxxxxxxx'') 3600000002 2)]"
    "step_ups (tables (demo_in Web)) = []" "step_up_consumptions (tables (demo_in Web)) = []"
    "dict_get (step_up_actions (tables (demo_in Web))) (''t'', ''external_transfer'') \<noteq> None"
    "closed (demo_in Web) = False" "clock_reads (demo_in Web) = 4" "draws (demo_in Web) = 10"
    "event_ids (trail (demo_in Web)) = [''audit-xxxxxxxxxx'', ''audit-xxxxx'']"
    using t by simp_all
qed

lemma demo_in_reachable:
  "reachable identity_start (identity_step demo_identity) (demo_started k)"
  "reachable identity_start (identity_step demo_identity) (demo_in k)"
proof -
  have "identity_start oidc0" by (auto simp: identity_start_def oidc0_def)
  then have "reachable identity_start (identity_step demo_identity) oidc0" by (rule reachable_start)
  then show started: "reachable identity_start (identity_step demo_identity) (demo_started k)"
    unfolding demo_started_def by (rule reachable_step) (rule step_begin_oidc_login, rule prod.collapse [symmetric])
  then show "reachable identity_start (identity_step demo_identity) (demo_in k)"
    unfolding demo_in_def by (rule reachable_step) (rule step_complete_oidc_login, rule prod.collapse [symmetric])
qed

section \<open>Calls with a session\<close>

lemma demo_digests [simp]:
  "digest demo_identity ''xxxxxxxxx'' = ''09''" "digest demo_identity ''xxxxxxxxxx'' = ''0a''"
  "digest demo_identity ''xxxxxxxxxxx'' = ''0b''" "digest demo_identity ''xxxxxxxxxxxxxxx'' = ''0f''"
  by code_simp+

lemma demo_tokens [simp]: "opaque_text ''xxxxxxxxx''" "opaque_text ''xxxxxxxxxx''" "opaque_text ''xxxxxxxxxxx''"
  by code_simp+

lemma demo_rotated_valid [simp]: "\<not> isl (validate_draft demo_parameters (new_draft ''audit-xxxxxxxxxxxxxxxxx'' 3600000005 ''tr'' ''p'' UserActor
    (entry ''identity.refresh.rotated'' Succeeded ''t'' ''usr-xxxxxx'' ''session'' ''ses-xxxxxxxx'' [])))"
  by code_simp

lemma demo_rows [simp]:
  "ses_tenant_id (new_session t u d kind dig ex now) = t" "ses_user_id (new_session t u d kind dig ex now) = u"
  "ses_device_id (new_session t u d kind dig ex now) = d" "ses_client_kind (new_session t u d kind dig ex now) = kind"
  "ses_access_digest (new_session t u d kind dig ex now) = dig" "ses_access_expires_at (new_session t u d kind dig ex now) = ex"
  "ses_state (new_session t u d kind dig ex now) = Active"
  "fam_session_id (new_family i now) = i" "fam_state (new_family i now) = Active"
  "ref_family_id (new_refresh f dig now) = f" "ref_digest (new_refresh f dig now) = dig"
  "ref_expires_at (new_refresh f dig now) = now + 2592000000000" "ref_used_at (new_refresh f dig now) = None"
  by (simp_all add: new_session_def new_family_def new_refresh_def refresh_ttl_def seconds_def)

lemma demo_rotate: "\<exists>c t. rotate_refresh demo_identity (Some ''xxxxxxxxxx'') ''tr'' ''p'' (demo_in Native) = (Inr c, t)"
  by (simp add: rotate_refresh_def rotate_in_transaction_def refresh_context_def select_row_def demo_in_native
     transaction_def statement_def set_access_def session_clash_def insert_refresh_def insert_row_def refresh_clash_def
     demo_audit anonymous_def returning_def Let_def update_where_def)

lemma demo_logout: "\<exists>t. revoke_current_native_session demo_identity ''xxxxxxxxx'' ''p'' ''tr'' (demo_in Native) = (Inr False, t)
    \<and> sessions (tables t) = [(''ses-xxxxxxxx'', (new_session ''t'' ''usr-xxxxxx'' ''dev-xxxxxxx'' Native ''09'' 3600000002 2)
        \<lparr>ses_state := Revoked, ses_updated_at := 3600000004\<rparr>)]"
  by (simp add: revoke_current_native_session_def logout_def session_of_def select_row_def demo_in_native transaction_def
     end_session_def statement_def revoke_where_def update_where_def insert_row_def returning_def dispatch_logouts_keep)

lemma demo_validate: "live_session demo_identity ''xxxxxxxxx'' 3600000004 (tables (demo_in Web)) =
    Inr (''ses-xxxxxxxx'', new_session ''t'' ''usr-xxxxxx'' ''dev-xxxxxxx'' Web ''09'' 3600000002 2)"
  by (simp add: live_session_def checked_opaque_def session_of_def select_row_def demo_in_web)

lemma demo_step_up_texts [simp]: "checked_text ''external_transfer'' = Inr ''external_transfer''" "checked_text ''d1'' = Inr ''d1''"
  by code_simp+

lemma demo_step_up_valid [simp]:
  "\<not> isl (validate_draft demo_parameters (new_draft ''audit-xxxxxxxxxxxxx'' 3600000005 ''tr'' ''p'' UserActor
    (entry ''identity.step_up.issued'' Succeeded ''t'' ''usr-xxxxxx'' ''step_up'' ''sup-xxxxxxxxxxxx'' [(''action_group'', AText ''external_transfer'')])))"
  "\<not> isl (validate_draft demo_parameters (new_draft ''audit-xxxxxxxxxxxxxx'' 3600000007 ''tr'' ''p'' UserActor
    (entry ''identity.step_up.used'' Succeeded ''t'' ''usr-xxxxxx'' ''step_up'' ''sup-xxxxxxxxxxxx'' [(''action_group'', AText ''external_transfer'')])))"
  by code_simp+

definition demo_grant :: identity_state where
  "demo_grant = snd (issue_step_up demo_identity ''xxxxxxxxx'' ''external_transfer'' ''d1'' ''p'' ''tr'' 60 (demo_in Web))"

lemma demo_issued: "\<exists>g t. issue_step_up demo_identity ''xxxxxxxxx'' ''external_transfer'' ''d1'' ''p'' ''tr'' 60 (demo_in Web) = (Inr g, t)
    \<and> step_ups (tables t) = [(''sup-xxxxxxxxxxxx'',
      new_step_up demo_identity ''xxxxxxxxxxx'' (''ses-xxxxxxxx'', new_session ''t'' ''usr-xxxxxx'' ''dev-xxxxxxx'' Web ''09'' 3600000002 2)
       ''external_transfer'' ''d1'' ''p'' 3600000004 3660000004)]
    \<and> sessions (tables t) = sessions (tables (demo_in Web)) \<and> closed t = False \<and> clock_reads t = 6
    \<and> draws t = 13 \<and> event_ids (trail t) = [''audit-xxxxxxxxxxxxx'', ''audit-xxxxxxxxxx'', ''audit-xxxxx'']"
  by (simp add: issue_step_up_def max_step_up_ttl_seconds_def demo_in_web transaction_def principal_of_def demo_validate
     statement_def insert_step_up_def insert_row_def returning_def demo_audit anonymous_def seconds_def issued_entry_def touch_device_def)

lemma demo_issue: "step_ups (tables demo_grant) = [(''sup-xxxxxxxxxxxx'',
      new_step_up demo_identity ''xxxxxxxxxxx'' (''ses-xxxxxxxx'', new_session ''t'' ''usr-xxxxxx'' ''dev-xxxxxxx'' Web ''09'' 3600000002 2)
       ''external_transfer'' ''d1'' ''p'' 3600000004 3660000004)]"
  "sessions (tables demo_grant) = sessions (tables (demo_in Web))" "closed demo_grant = False" "clock_reads demo_grant = 6"
  "draws demo_grant = 13" "event_ids (trail demo_grant) = [''audit-xxxxxxxxxxxxx'', ''audit-xxxxxxxxxx'', ''audit-xxxxx'']"
  using demo_issued by (auto simp: demo_grant_def)

lemma demo_consume: "\<exists>t. consume_step_up demo_identity (Some ''xxxxxxxxxxx'') ''xxxxxxxxx'' ''external_transfer'' ''d1'' ''p'' ''tr''
    None None demo_grant = (Inr (), t)"
  by (simp add: consume_step_up_def demo_issue transaction_def principal_of_def live_session_def session_of_def select_row_def demo_in_web
     checked_opaque_def statement_def spend_step_up_def checked_operation_def new_step_up_def Let_def bound_to_def touch_device_def
     step_up_entry_def demo_audit anonymous_def returning_def)

section \<open>The initial administrator\<close>

definition admin0 :: identity_state where
  "admin0 = snd (ensure_initial_admin demo_identity (empty_service empty_tables))"

definition admin1 :: identity_state where
  "admin1 = snd (local_login demo_identity ''admin'' ''admin'' WebPlatform ''tr'' ''p'' admin0)"

lemma admin0:
  "users (tables admin0) = [(''admin'', (local_user ''admin'' None (Some ''admin'') ''active'')\<lparr>u_password_change_required := True\<rparr>)]"
  "identity_memberships (tables admin0) = [((''admin'', ''admin''), ''personal_owner'')]"
  "devices (tables admin0) = []" "sessions (tables admin0) = []" "closed admin0 = False" "clock_reads admin0 = 1" "draws admin0 = 1"
  "event_ids (trail admin0) = []"
  by (simp_all add: admin0_def ensure_initial_admin_def empty_service_def empty_identity_def transaction_def statement_def Let_def
     select_row_def hashed_def demo_identity_def [THEN arg_cong [of _ _ hash_password]] insert_user_def insert_row_def initial_admin_def
     insert_or_ignore_def ensure_tenant_def seed_minimum_step_up_actions_def empty_store_def)

lemma admin_passwords: "py_lower ''admin'' = ''admin''" "checked_text ''admin'' = Inr ''admin''" "printable ''admin''"
  "checked_password ''correct horse'' = Inr ''correct horse''"
  by code_simp+

lemma admin_valid [simp]:
  "\<not> isl (validate_draft demo_parameters (new_draft ''audit-xxxxx'' 2 ''tr'' ''p'' UserActor
    (entry ''identity.login.succeeded'' Succeeded ''admin'' ''admin'' ''session'' ''ses-xxx''
      [(''client_type'', AText ''web''), (''auth_method'', AText ''local'')])))"
  "\<not> isl (validate_draft demo_parameters (new_draft ''audit-xxxxxxx'' 3600000004 ''tr'' ''p'' UserActor
    (entry ''identity.password.changed'' Succeeded ''admin'' ''admin'' ''user'' ''admin'' (reason ''CURRENT_PASSWORD_CHANGED''))))"
  by code_simp+

lemma admin_user [simp]:
  "u_login_id (local_user l e p st) = Some l" "u_issuer (local_user l e p st) = ''local''" "u_state (local_user l e p st) = st"
  "u_password_digest (local_user l e p st) = p" "u_email_verified_at (local_user l e p st) = None"
  by (simp_all add: local_user_def)

lemma admin_password [simp]: "password_matches demo_identity r v \<longleftrightarrow> u_password_digest r = Some v"
  by (auto simp: password_matches_def demo_identity_def split: option.splits)

lemma admin_tenant: "login_tenant ''admin'' (tables admin0) = Some ''admin''"
  by (simp add: login_tenant_def admin0 Let_def)

lemma admin_login: "\<exists>c t. local_login demo_identity ''admin'' ''admin'' WebPlatform ''tr'' ''p'' admin0 = (Inr c, t)
    \<and> users (tables t) = users (tables admin0) \<and> closed t = False \<and> clock_reads t = 3 \<and> draws t = 5
    \<and> sessions (tables t) = [(''ses-xxx'', new_session ''admin'' ''admin'' ''dev-xx'' Web (digest demo_identity ''xxxx'') web_session_expiry 1)]
    \<and> event_ids (trail t) = [''audit-xxxxx'']"
  by (simp add: local_login_def admin_passwords admin0 transaction_def local_login_row_def select_row_def initial_admin_def Let_def
     admin_tenant login_scope_def first_session demo_audit anonymous_def returning_def)

lemma admin1:
  "users (tables admin1) = [(''admin'', (local_user ''admin'' None (Some ''admin'') ''active'')\<lparr>u_password_change_required := True\<rparr>)]"
  "sessions (tables admin1) = [(''ses-xxx'', new_session ''admin'' ''admin'' ''dev-xx'' Web (digest demo_identity ''xxxx'') web_session_expiry 1)]"
  "closed admin1 = False" "clock_reads admin1 = 3" "draws admin1 = 5" "event_ids (trail admin1) = [''audit-xxxxx'']"
  using admin_login by (auto simp: admin1_def admin0)

lemma admin_token: "checked_opaque ''xxxx'' = Inr ''xxxx''"
  by code_simp

lemma admin_change: "\<exists>t. change_current_password demo_identity ''xxxx'' ''admin'' ''correct horse'' ''tr'' ''p'' admin1 = (Inr (), t)"
  by (simp add: change_current_password_def admin_passwords admin1 transaction_def principal_of_def live_session_def session_of_def
     select_row_def admin_token statement_def returning_def hashed_def demo_audit anonymous_def touch_device_def revoke_user_sessions_def
     revoke_where_def set_user_def)

lemma admin_reachable:
  "reachable identity_start (identity_step demo_identity) admin0" "reachable identity_start (identity_step demo_identity) admin1"
proof -
  have "identity_start (empty_service empty_tables)" by (auto simp: identity_start_def)
  then have "reachable identity_start (identity_step demo_identity) (empty_service empty_tables)" by (rule reachable_start)
  then show a: "reachable identity_start (identity_step demo_identity) admin0"
    unfolding admin0_def by (rule reachable_step) (rule step_ensure_initial_admin, rule prod.collapse [symmetric])
  then show "reachable identity_start (identity_step demo_identity) admin1"
    unfolding admin1_def by (rule reachable_step) (rule step_local_login, rule prod.collapse [symmetric])
qed

lemma demo_grant_reachable: "reachable identity_start (identity_step demo_identity) demo_grant"
  unfolding demo_grant_def using demo_in_reachable(2) by (rule reachable_step) (rule step_issue_step_up, rule prod.collapse [symmetric])

end
