(* ===== verification/Identity_Properties.thy ===== *)
theory Identity_Properties
  imports Identity_Demo
begin

text \<open>
  The properties of the identity service: who has access, what is final, what can be used once, which
  session was audited, and what a logout ends.
\<close>

section \<open>What a successful call did\<close>

lemma identity_transaction_InrD:
  assumes "transaction body s = (Inr v, t)"
  obtains "\<not> closed s" and "body s = (Inr v, t)"
proof -
  obtain x u where "body s = (x, u)" by (rule prod.exhaust)
  then show thesis using that assms by (cases x) (auto simp: transaction_def split: if_splits)
qed

lemma identity_transaction_InlD:
  assumes "transaction body s = (Inl e, t)"
  obtains (closed) "closed s" and "e = persistence_unavailable" and "t = s"
  | (rolled_back) u where "body s = (Inl e, u)" and "t = u\<lparr>tables := tables s\<rparr>"
proof -
  obtain x u where "body s = (x, u)" by (rule prod.exhaust)
  then show thesis using that assms by (cases x) (auto simp: transaction_def split: if_splits)
qed

lemma read_nowD:
  assumes "read_now cfg s = (Inr now, t)"
  obtains "clock cfg (clock_reads s) = Some now" and "t = s\<lparr>clock_reads := Suc (clock_reads s)\<rparr>"
  using assms by (auto simp: read_now_def split: option.splits)

lemma read_now_same:
  "read_now cfg s = (x, t) \<Longrightarrow> tables t = tables s \<and> trail t = trail s \<and> auth t = auth s \<and> closed t = closed s"
  by (auto simp: read_now_def)

lemma draw_same:
  "draw cfg n s = (x, t) \<Longrightarrow> tables t = tables s" "fresh_id cfg p s = (y, t) \<Longrightarrow> tables t = tables s"
  "hashed cfg v s = (z, t) \<Longrightarrow> tables t = tables s"
  by (auto simp: draw_def fresh_id_def hashed_def returning_def)

lemma audit_same: "audit cfg trace pv e s = (x, t) \<Longrightarrow> tables t = tables s"
  using quiet_audit [of cfg s trace pv e] by (simp add: quiet_def)

lemma refuse_Inr [simp]: "refuse cfg trace pv e err s \<noteq> (Inr v, t)"
  by (auto simp: refuse_def raising_def elim!: chain_InrD)

lemmas call_elims = chain_InrD attempt_InrD identity_transaction_InrD

text \<open>The session of an access token, where the digests are unique.\<close>

lemma session_of_row:
  assumes "db_ok db" and "dict_get (sessions db) i = Some r" and "ses_access_digest r = digest cfg access"
  shows "session_of cfg access db = Some (i, r)"
  unfolding session_of_def
proof (rule select_row_unique)
  show "dict_ok (sessions db)" using assms(1) by (simp add: db_ok_def sessions_ok_def)
  show "j = i" if "dict_get (sessions db) j = Some w" "ses_access_digest w = digest cfg access" for j w
    using assms that by (auto simp: db_ok_def sessions_ok_def unique_column_def)
qed (use assms in simp_all)

lemma live_session_iff:
  assumes "db_ok db"
  shows "live_session cfg access now db = Inr (i, r) \<longleftrightarrow> opaque_text access \<and> dict_get (sessions db) i = Some r
    \<and> ses_access_digest r = digest cfg access \<and> ses_state r = Active
    \<and> (ses_client_kind r = Web \<or> now < ses_access_expires_at r)"
proof (cases "session_of cfg access db")
  case None
  then show ?thesis using session_of_row [OF assms, of i r cfg access] by (auto simp: live_session_def elim!: and_then_InrE)
next
  case (Some p)
  obtain j q where p: "p = (j, q)" by (rule prod.exhaust)
  have q: "dict_get (sessions db) j = Some q" "ses_access_digest q = digest cfg access"
    using Some assms select_row_Some [of "sessions db" _ j q] by (auto simp: session_of_def p db_ok_def sessions_ok_def)
  have "i = j" if "dict_get (sessions db) i = Some r" "ses_access_digest r = digest cfg access"
    using session_of_row [OF assms that] Some p by simp
  then show ?thesis
    using q by (auto simp: live_session_def checked_opaque_def Some p not_le)
qed

lemma validate_accessD:
  assumes "validate_access cfg access trace pv s = (Inr p, t)"
  obtains i r now where "\<not> closed s" and "checked_texts [trace, pv] = Inr ()" and "clock cfg (clock_reads s) = Some now"
    and "live_session cfg access now (tables s) = Inr (i, r)" and "p = view_of i r"
proof -
  obtain now s1 where now: "\<not> closed s" "checked_texts [trace, pv] = Inr ()" "read_now cfg s = (Inr now, s1)"
    and body: "(case principal_of cfg access now s1 of
        (Inr (i, r), s) \<Rightarrow> (Inr (view_of i r), s)
      | (Inl e, s) \<Rightarrow>
          let c = (if error_code e \<in> {''ACCESS_EXPIRED'', ''SESSION_REVOKED''} then error_code e else ''ACCESS_INVALID'')
          in refuse cfg trace pv (access_denial (session_of cfg access (tables s)) c)
              (if c \<noteq> error_code e then IdentityError c 401 else e) s) = (Inr p, t)"
    using assms unfolding validate_access_def by (elim call_elims) auto
  obtain x u where x: "principal_of cfg access now s1 = (x, u)" by (rule prod.exhaust)
  then obtain i r where ir: "x = Inr (i, r)" "p = view_of i r"
    using body by (cases x) (auto simp: Let_def split: prod.splits)
  have "tables s1 = tables s" using read_now_same [OF now(3)] by simp
  with x ir have "live_session cfg access now (tables s) = Inr (i, r)" by (auto elim: principal_ofD)
  moreover have "clock cfg (clock_reads s) = Some now" using now(3) by (rule read_nowD)
  ultimately show thesis using that now ir by blast
qed

lemma validate_access_live:
  assumes "\<not> closed s" and "checked_texts [trace, pv] = Inr ()" and "clock cfg (clock_reads s) = Some now"
    and "live_session cfg access now (tables s) = Inr (i, r)"
  shows "\<exists>t. validate_access cfg access trace pv s = (Inr (view_of i r), t)"
  using assms by (simp add: validate_access_def transaction_def read_now_def principal_of_def statement_def returning_def)

text \<open>
  C2: access. An access token gives access exactly where its digest is that of an active session, in
  a native client only before its expiry; the principal is that of the session.
\<close>

theorem access_iff_live_session:
  assumes "reachable identity_start (identity_step cfg) s"
  shows "(\<exists>t. validate_access cfg access trace pv s = (Inr p, t)) \<longleftrightarrow>
    \<not> closed s \<and> checked_texts [trace, pv] = Inr () \<and> opaque_text access
    \<and> (\<exists>now i r. clock cfg (clock_reads s) = Some now \<and> dict_get (sessions (tables s)) i = Some r
        \<and> ses_access_digest r = digest cfg access \<and> ses_state r = Active
        \<and> (ses_client_kind r = Web \<or> now < ses_access_expires_at r) \<and> p = view_of i r)"
  (is "?access \<longleftrightarrow> ?spec")
proof
  note live = live_session_iff [OF reachable_db_ok [OF assms]]
  show ?spec if ?access
    using that
  proof
    fix t
    assume "validate_access cfg access trace pv s = (Inr p, t)"
    then show ?spec using live by (elim validate_accessD) blast
  qed
  show ?access if ?spec
    using that validate_access_live by (auto simp: live)
qed

theorem access_iff_live_session_witness:
  "\<exists>t. validate_access demo_identity ''xxxxxxxxx'' ''tr'' ''p'' (demo_in Web) =
    (Inr \<lparr>ip_user_id = ''usr-xxxxxx'', ip_session_id = ''ses-xxxxxxxx'', ip_device_id = ''dev-xxxxxxx'', ip_tenant_id = ''t''\<rparr>, t)"
  unfolding access_iff_live_session [OF demo_in_reachable(2)]
  by (simp add: demo_in_web view_of_def demo_identity_def [THEN arg_cong [of _ _ clock]])

section \<open>Revocation is final\<close>

lemma revoked_later:
  assumes "identity_inv cfg s" and "runs (identity_step cfg) s cs t" and "dict_get (sessions (tables s)) i = Some r"
    and "ses_state r = Revoked"
  obtains x where "dict_get (sessions (tables t)) i = Some x" and "ses_state x = Revoked"
    and "ses_access_digest x = ses_access_digest r"
proof -
  obtain x where "dict_get (sessions (tables t)) i = Some x" "session_later r x"
    using evolvesD(1) [OF runs_evolves [OF assms(2,1)]] assms(3) by (rule growsE)
  then show thesis using that assms(4) by (auto simp: session_later_def)
qed

lemma revoked_no_principal:
  assumes "db_ok (tables t)" and "dict_get (sessions (tables t)) i = Some x" and "ses_state x = Revoked"
    and "ses_access_digest x = digest cfg access"
  shows "principal_of cfg access now t =
    (Inl (if opaque_text access then IdentityError ''SESSION_REVOKED'' 401 else invalid_input), t)"
  using session_of_row [OF assms(1,2,4)] assms(3)
  by (simp add: principal_of_def live_session_def checked_opaque_def)

lemma statement_Inr: "statement f s = (Inr u, t) \<Longrightarrow> f (tables s) = Inr (tables t)"
  using statementD by blast

lemma updating_Inr: "updating f s = (Inr u, t) \<Longrightarrow> tables t = f (tables s)"
  using statement_Inr by fastforce

lemma checked_texts_error: "checked_texts vs = Inl e \<Longrightarrow> e = invalid_input"
proof (induction vs)
  case (Cons v vs)
  then show ?case by (cases "checked_text v") (auto simp: checked_text_def split: if_splits)
qed simp

lemma audit_error:
  assumes "audit cfg trace pv e s = (Inl c, t)" and "checked_texts [trace, pv] = Inr ()"
  shows "c \<in> {IdentityError ''INVALID_TIME'' 400, audit_write_failed}"
proof -
  obtain i s1 where "fresh_id cfg ''audit'' s = (Inr i, s1)" by (auto simp: fresh_id_def draw_def returning_def)
  moreover obtain y s2 where "read_now cfg s1 = (y, s2)" by (rule prod.exhaust)
  moreover have "\<exists>v. checked_text trace = Inr v" "\<exists>v. checked_text pv = Inr v"
    using assms(2) by (auto elim!: and_then_InrE)
  ultimately show ?thesis
    using assms(1) by (cases y) (auto simp: audit_def read_now_def split: option.splits sum.splits prod.splits)
qed

lemma insert_refresh_keeps:
  "insert_refresh m f dig now db = Inr db' \<Longrightarrow> dict_get (refresh_tokens db) n = Some r \<Longrightarrow> dict_get (refresh_tokens db') n = Some r"
  unfolding insert_refresh_def by (erule and_then_InrE, frule insert_rowD(1), drule insert_rowD(2)) auto

text \<open>What a rotation that gave credentials found and left.\<close>

lemma rotate_in_transactionD:
  assumes "rotate_in_transaction cfg token now trace pv s = (Inr (Some c), t)"
  obtains n r f x where "refresh_context cfg token (tables s) = Some (n, r, f, x)" and "ref_used_at r = None"
    and "fam_state f = Active" and "ses_state x = Active" and "now < ref_expires_at r"
    and "cr_session_id c = fam_session_id f"
    and "dict_get (refresh_tokens (tables t)) n = Some (r\<lparr>ref_used_at := Some now\<rparr>)"
proof -
  obtain n r f x where ctx: "refresh_context cfg token (tables s) = Some (n, r, f, x)"
    using assms by (cases "refresh_context cfg token (tables s)") (auto simp: rotate_in_transaction_def)
  note call = assms [unfolded rotate_in_transaction_def ctx option.case prod.case Let_def]
  have checks: "ref_used_at r = None" "fam_state f = Active" "ses_state x = Active" "now < ref_expires_at r"
    using call by (auto split: if_splits elim!: chain_InrD simp: returning_def)
  obtain s1 s2 s3 m s4 s5 dig ex rdig where steps: "tables s1 = tables s"
    "statement (\<lambda>db. Inr (db\<lparr>refresh_tokens := dict_set n (r\<lparr>ref_used_at := Some now\<rparr>) (refresh_tokens db)\<rparr>)) s1 = (Inr (), s2)"
    "statement (set_access (fam_session_id f) (x\<lparr>ses_access_digest := dig, ses_access_expires_at := ex, ses_updated_at := now\<rparr>)) s2 = (Inr (), s3)"
    "tables s4 = tables s3" "statement (insert_refresh m (ref_family_id r) rdig now) s4 = (Inr (), s5)"
    "tables t = tables s5" "cr_session_id c = fam_session_id f"
    using call checks by (auto elim!: chain_InrD simp: returning_def dest!: draw_same audit_same)
  have "dict_get (refresh_tokens (tables s4)) n = Some (r\<lparr>ref_used_at := Some now\<rparr>)"
    using set_access_same [OF statement_Inr [OF steps(3)]] steps(1,4) updating_Inr [OF steps(2)] by simp
  then have "dict_get (refresh_tokens (tables t)) n = Some (r\<lparr>ref_used_at := Some now\<rparr>)"
    using insert_refresh_keeps [OF statement_Inr [OF steps(5)]] steps(6) by simp
  then show thesis using that ctx checks steps(7) by blast
qed

lemma rotate_refreshD:
  assumes "rotate_refresh cfg token trace pv s = (Inr c, t)"
  obtains now s1 where "checked_texts [trace, pv] = Inr ()" and "read_now cfg s = (Inr now, s1)"
    and "rotate_in_transaction cfg token now trace pv s1 = (Inr (Some c), t)"
  using assms unfolding rotate_refresh_def by (auto elim!: call_elims split: option.splits)

text \<open>A token that was spent: a replay, or a failure of the surroundings.\<close>

lemma rotate_spent:
  assumes "refresh_context cfg token (tables s) = Some (n, r, f, x)" and "ref_used_at r \<noteq> None"
    and "rotate_refresh cfg token trace pv s = (y, t)" and "db_ok (tables s)"
  obtains (replayed) z where "y = Inl (IdentityError ''REFRESH_REPLAYED'' 401)"
      and "dict_get (sessions (tables t)) (fam_session_id f) = Some z" and "ses_state z = Revoked"
  | (failed) e where "y = Inl e" and "e \<in> {invalid_input, IdentityError ''INVALID_TIME'' 400, persistence_unavailable, audit_write_failed}"
proof (cases "checked_texts [trace, pv]")
  case (Inl e)
  then show thesis using failed assms(3) checked_texts_error [OF Inl] by (auto simp: rotate_refresh_def)
next
  case texts: (Inr v)
  obtain nr s1 where now: "read_now cfg s = (nr, s1)" by (rule prod.exhaust)
  show thesis
  proof (cases "closed s1 \<or> (\<exists>e. nr = Inl e)")
    case True
    then show thesis
      using failed assms(3) texts now by (cases nr) (auto simp: rotate_refresh_def transaction_def read_now_def split: option.splits)
  next
    case False
    then obtain at where at: "nr = Inr at" "\<not> closed s1" by (cases nr) auto
    have tabs: "tables s1 = tables s" using read_now_same [OF now] by simp
    define s2 where "s2 = s1\<lparr>tables := revoke_family (ref_family_id r) (fam_session_id f) at (tables s)\<rparr>"
    let ?a = "entry ''identity.refresh.replay_denied'' Denied (ses_tenant_id x) (ses_user_id x) ''refresh_family''
      (ref_family_id r) (reason ''REFRESH_REPLAYED'')"
    let ?b = "entry ''identity.session.revoked'' Succeeded (ses_tenant_id x) (ses_user_id x) ''session'' (fam_session_id f)
      (reason ''REFRESH_REPLAYED'')"
    have body: "rotate_in_transaction cfg token at trace pv s1 =
        chain (audit cfg trace pv ?a s2) (\<lambda>_ s. chain (audit cfg trace pv ?b s) (\<lambda>_. returning None))"
      using assms(1,2) by (simp add: rotate_in_transaction_def tabs statement_def s2_def Let_def)
    have call: "(y, t) = chain (transaction (rotate_in_transaction cfg token at trace pv) s1) (\<lambda>c s.
        case c of None \<Rightarrow> (Inl (IdentityError ''REFRESH_REPLAYED'' 401), s) | Some c \<Rightarrow> (Inr c, s))"
      using assms(3) texts now at by (simp add: rotate_refresh_def)
    obtain u s3 where a: "audit cfg trace pv ?a s2 = (u, s3)" by (rule prod.exhaust)
    show thesis
    proof (cases u)
      case (Inl e)
      then show thesis using failed call body a at(2) audit_error [of cfg trace pv ?a s2 e s3] texts by (auto simp: transaction_def)
    next
      case (Inr w)
      obtain q s4 where b: "audit cfg trace pv ?b s3 = (q, s4)" by (rule prod.exhaust)
      show thesis
      proof (cases q)
        case (Inl e)
        then show thesis
          using failed call body a Inr b at(2) audit_error [of cfg trace pv ?b s3 e s4] texts by (auto simp: transaction_def)
      next
        case (Inr w')
        then have yt: "y = Inl (IdentityError ''REFRESH_REPLAYED'' 401)" "t = s4"
          using call body a \<open>u = Inr w\<close> b at(2) by (simp_all add: transaction_def returning_def)
        have "tables s4 = tables s2" using audit_same a b by metis
        moreover have "dict_get (sessions (tables s)) (fam_session_id f) = Some x" using refresh_contextD(3) [OF assms(1,4)] .
        ultimately show thesis using yt
          by (intro replayed [where z = "x\<lparr>ses_state := Revoked, ses_updated_at := at\<rparr>"]) (simp_all add: s2_def revoke_family_def)
      qed
    qed
  qed
qed

lemma refresh_laterD:
  "refresh_later r r' \<Longrightarrow> ref_digest r' = ref_digest r \<and> ref_family_id r' = ref_family_id r
    \<and> (ref_used_at r \<noteq> None \<longrightarrow> ref_used_at r' = ref_used_at r)"
  by (cases r; cases r') (auto simp: refresh_later_def set_once_def)

lemma refresh_context_row:
  assumes "db_ok db" and "opaque_text v" and "dict_get (refresh_tokens db) n = Some r" and "ref_digest r = digest cfg v"
    and "dict_get (refresh_families db) (ref_family_id r) = Some f"
  shows "\<exists>x. refresh_context cfg (Some v) db = Some (n, r, f, x)"
proof -
  have "select_row (\<lambda>r. ref_digest r = digest cfg v) (refresh_tokens db) = Some (n, r)"
    using assms by (intro select_row_unique) (auto simp: db_ok_def refresh_ok_def unique_column_def)
  moreover have "family_ok (sessions db) f" using assms(1,5) by (auto simp: db_ok_def sessions_ok_def)
  ultimately show ?thesis using assms(2,5) by (auto simp: refresh_context_def family_ok_def)
qed

text \<open>
  C3: rotation. A refresh token that gave credentials is never good again: every later rotation with
  it fails, and where it is answered as a replay the session of the token is revoked.
\<close>

theorem refresh_tokens_rotate_once:
  assumes "reachable identity_start (identity_step cfg) s" and "rotate_refresh cfg (Some v) trace pv s = (Inr c, t)"
    and "runs (identity_step cfg) t cs u" and "rotate_refresh cfg (Some v) trace' pv' u = (y, w)"
  shows "y = Inl (IdentityError ''REFRESH_REPLAYED'' 401)
      \<and> (\<exists>z. dict_get (sessions (tables w)) (cr_session_id c) = Some z \<and> ses_state z = Revoked)
    \<or> (\<exists>e. y = Inl e \<and> e \<in> {invalid_input, IdentityError ''INVALID_TIME'' 400, persistence_unavailable, audit_write_failed})"
proof -
  have inv: "identity_inv cfg s" "identity_inv cfg t"
    using identity.reachable_inv [OF assms(1)] identity.inv_step step_rotate_refresh [OF assms(2)] by blast+
  obtain now s1 where call: "read_now cfg s = (Inr now, s1)" "rotate_in_transaction cfg (Some v) now trace pv s1 = (Inr (Some c), t)"
    using assms(2) by (rule rotate_refreshD)
  obtain n r f x where ctx: "refresh_context cfg (Some v) (tables s1) = Some (n, r, f, x)" and c: "cr_session_id c = fam_session_id f"
    and spent: "dict_get (refresh_tokens (tables t)) n = Some (r\<lparr>ref_used_at := Some now\<rparr>)"
    using call(2) by (rule rotate_in_transactionD)
  have ok: "db_ok (tables s1)" "db_ok (tables u)"
    using inv identity.runs_inv [OF assms(3)] read_now_same [OF call(1)] by (simp_all add: identity_inv_def inv_def)
  note old = refresh_contextD [OF ctx ok(1)]
  have opaque: "opaque_text v" using ctx by (auto simp: refresh_context_def split: if_splits)
  have "runs (identity_step cfg) s (() # cs) u" using step_rotate_refresh [OF assms(2)] assms(3) by (rule runs_more)
  from evolvesD(2) [OF runs_evolves [OF this inv(1)]] old(2) read_now_same [OF call(1)]
  obtain f' where f': "dict_get (refresh_families (tables u)) (ref_family_id r) = Some f'" "family_later f f'"
    by (auto elim: growsE)
  obtain r' where r': "dict_get (refresh_tokens (tables u)) n = Some r'" "refresh_later (r\<lparr>ref_used_at := Some now\<rparr>) r'"
    using evolvesD(3) [OF runs_evolves [OF assms(3) inv(2)]] spent by (rule growsE)
  note later = refresh_laterD [OF r'(2)]
  obtain x' where ctx': "refresh_context cfg (Some v) (tables u) = Some (n, r', f', x')"
    using refresh_context_row [OF ok(2) opaque r'(1)] later old(4) f'(1) by auto
  have "ref_used_at r' \<noteq> None" using later by simp
  from ctx' this assms(4) ok(2) show ?thesis
  proof (cases rule: rotate_spent)
    case (replayed z)
    then show ?thesis using f'(2) c by (simp add: family_later_def)
  qed auto
qed

theorem refresh_tokens_rotate_once_witness:
  "\<exists>c t y w. rotate_refresh demo_identity (Some ''xxxxxxxxxx'') ''tr'' ''p'' (demo_in Native) = (Inr c, t)
    \<and> rotate_refresh demo_identity (Some ''xxxxxxxxxx'') ''tr'' ''p'' t = (Inl y, w)"
proof -
  obtain c t where call: "rotate_refresh demo_identity (Some ''xxxxxxxxxx'') ''tr'' ''p'' (demo_in Native) = (Inr c, t)"
    using demo_rotate by blast
  obtain y w where again: "rotate_refresh demo_identity (Some ''xxxxxxxxxx'') ''tr'' ''p'' t = (y, w)" by (rule prod.exhaust)
  show ?thesis
    using refresh_tokens_rotate_once [OF demo_in_reachable(2) call runs_none again] call again by blast
qed

text \<open>
  C5: revocation is final. The access token of a revoked session gives access to no call again, its
  session is never active again, and no rotation gives credentials of this session.
\<close>

theorem revoked_sessions_stay_dead:
  assumes "reachable identity_start (identity_step cfg) s" and "dict_get (sessions (tables s)) i = Some r"
    and "ses_state r = Revoked" and "ses_access_digest r = digest cfg access" and "runs (identity_step cfg) s cs t"
  shows "principal_of cfg access now t =
      (Inl (if opaque_text access then IdentityError ''SESSION_REVOKED'' 401 else invalid_input), t)
    \<and> validate_access cfg access trace pv t \<noteq> (Inr p, u)
    \<and> (rotate_refresh cfg token trace pv t = (Inr c, u) \<longrightarrow> cr_session_id c \<noteq> i)
    \<and> (\<exists>x. dict_get (sessions (tables t)) i = Some x \<and> ses_state x = Revoked)"
proof -
  have inv: "identity_inv cfg s" using identity.reachable_inv [OF assms(1)] .
  then have ok: "db_ok (tables t)" using identity.runs_inv [OF assms(5)] by (simp add: identity_inv_def inv_def)
  obtain x where x: "dict_get (sessions (tables t)) i = Some x" "ses_state x = Revoked" "ses_access_digest x = digest cfg access"
    using revoked_later [OF inv assms(5,2,3)] assms(4) by metis
  have "validate_access cfg access trace pv t \<noteq> (Inr p, u)"
  proof
    assume "validate_access cfg access trace pv t = (Inr p, u)"
    then obtain j q n where "live_session cfg access n (tables t) = Inr (j, q)" by (rule validate_accessD)
    then show False using x session_of_row [OF ok x(1,3)] by (auto simp: live_session_def elim!: and_then_InrE)
  qed
  moreover have "cr_session_id c \<noteq> i" if "rotate_refresh cfg token trace pv t = (Inr c, u)"
  proof -
    from that obtain n s1 where s1: "read_now cfg t = (Inr n, s1)" "rotate_in_transaction cfg token n trace pv s1 = (Inr (Some c), u)"
      by (rule rotate_refreshD)
    then obtain m q f y where "refresh_context cfg token (tables s1) = Some (m, q, f, y)" "ses_state y = Active"
      "cr_session_id c = fam_session_id f"
      by (elim rotate_in_transactionD)
    then show ?thesis using refresh_contextD(3) x read_now_same [OF s1(1)] ok by fastforce
  qed
  ultimately show ?thesis using revoked_no_principal [OF ok x] x by blast
qed

theorem revoked_sessions_stay_dead_witness:
  "\<exists>t. revoke_current_native_session demo_identity ''xxxxxxxxx'' ''p'' ''tr'' (demo_in Native) = (Inr False, t)
    \<and> principal_of demo_identity ''xxxxxxxxx'' 0 t = (Inl (IdentityError ''SESSION_REVOKED'' 401), t)"
proof -
  obtain t where call: "revoke_current_native_session demo_identity ''xxxxxxxxx'' ''p'' ''tr'' (demo_in Native) = (Inr False, t)"
    and t: "sessions (tables t) = [(''ses-xxxxxxxx'', (new_session ''t'' ''usr-xxxxxx'' ''dev-xxxxxxx'' Native ''09'' 3600000002 2)
        \<lparr>ses_state := Revoked, ses_updated_at := 3600000004\<rparr>)]"
    using demo_logout by blast
  have "reachable identity_start (identity_step demo_identity) t"
    by (rule reachable_step, rule demo_in_reachable(2)) (rule step_logout, rule call [unfolded revoke_current_native_session_def])
  from revoked_sessions_stay_dead [OF this _ _ _ runs_none, of "''ses-xxxxxxxx''" _ "''xxxxxxxxx''" 0] call show ?thesis
    by (auto simp: t)
qed

section \<open>Step-up authorizations\<close>

text \<open>What a consumption that succeeded found and left: a recorded use under its key, or a first use.\<close>

definition recorded_use :: "identity_service \<Rightarrow> identity_tables \<Rightarrow> string \<times> session_row \<Rightarrow> string \<Rightarrow> string \<Rightarrow> string
    \<Rightarrow> string \<Rightarrow> string \<Rightarrow> string \<Rightarrow> bool" where
  "recorded_use cfg db p n grp target pv o' k \<longleftrightarrow> (\<exists>x. dict_get (step_up_consumptions db)
        (ses_tenant_id (snd p), ses_user_id (snd p), o', k) = Some x
      \<and> co_step_up_id x = n \<and> co_fingerprint x = consumption_fingerprint cfg n p grp target pv)"

lemma checked_operationD:
  "checked_operation op key = Inr None \<Longrightarrow> op = None \<and> key = None"
  "checked_operation op key = Inr (Some (o', k)) \<Longrightarrow> op = Some o' \<and> key = Some k"
  by (auto simp: checked_operation_def split: option.splits if_splits elim!: and_then_InrE)

lemma consumption_inserted:
  assumes "(case ku of None \<Rightarrow> Inr db | Some u \<Rightarrow>
            and_then (insert_row no_index (case u of (o', k) \<Rightarrow> (ses_tenant_id (snd p), ses_user_id (snd p), o', k))
              \<lparr>co_fingerprint = consumption_fingerprint cfg n p grp target pv, co_step_up_id = n, co_consumed_at = now\<rparr>
              (step_up_consumptions db)) (\<lambda>d. Inr (db\<lparr>step_up_consumptions := d\<rparr>))) = Inr db'"
  shows "step_ups db' = step_ups db
    \<and> (ku = None \<longrightarrow> step_up_consumptions db' = step_up_consumptions db)
    \<and> (\<forall>o' k. ku = Some (o', k) \<longrightarrow> recorded_use cfg db' p n grp target pv o' k)"
proof (cases ku)
  case (Some u)
  obtain o' k where u: "u = (o', k)" by (rule prod.exhaust)
  obtain d where d: "insert_row no_index (ses_tenant_id (snd p), ses_user_id (snd p), o', k)
      \<lparr>co_fingerprint = consumption_fingerprint cfg n p grp target pv, co_step_up_id = n, co_consumed_at = now\<rparr>
      (step_up_consumptions db) = Inr d" "db' = db\<lparr>step_up_consumptions := d\<rparr>"
    using assms by (auto simp: Some u elim!: and_then_InrE)
  then show ?thesis using insert_rowD(2) [OF d(1)] by (simp add: Some u recorded_use_def)
qed (use assms in simp)

lemma spend_step_upD:
  assumes "spend_step_up cfg raw p grp target pv trace now op key s = (Inr w, t)"
  obtains (again) v n a o' k where "raw = Some v" and "select_row (\<lambda>a. su_digest a = digest cfg v) (step_ups (tables s)) = Some (n, a)"
      and "su_used_at a \<noteq> None" and "op = Some o'" and "key = Some k"
      and "recorded_use cfg (tables s) p n grp target pv o' k" and "t = s"
  | (first) v n a where "raw = Some v" and "select_row (\<lambda>a. su_digest a = digest cfg v) (step_ups (tables s)) = Some (n, a)"
      and "su_used_at a = None" and "bound_to a p grp target pv" and "now < su_expires_at a"
      and "dict_get (step_ups (tables t)) n = Some (a\<lparr>su_used_at := Some now\<rparr>)"
      and "op = None \<longrightarrow> step_up_consumptions (tables t) = step_up_consumptions (tables s)"
      and "\<And>o' k. op = Some o' \<Longrightarrow> key = Some k \<Longrightarrow> recorded_use cfg (tables t) p n grp target pv o' k"
      and "op = None \<longleftrightarrow> key = None"
proof -
  obtain v under y n a where steps: "raw = Some v" "checked_operation op key = Inr under" "checked_opaque v = Inr y"
    "select_row (\<lambda>a. su_digest a = digest cfg v) (step_ups (tables s)) = Some (n, a)"
    using assms unfolding spend_step_up_def
    by (elim attempt_InrD, cases raw) (auto elim!: attempt_InrD split: option.splits prod.splits)
  note call = assms [unfolded spend_step_up_def steps attempt_simps option.case prod.case Let_def]
  have place: "op = None \<and> key = None \<and> under = None \<or> (\<exists>o' k. op = Some o' \<and> key = Some k \<and> under = Some (o', k))"
    using steps(2) checked_operationD [of op key] by (cases under) auto
  show thesis
  proof (cases "su_used_at a")
    case (Some u)
    have "(case under of None \<Rightarrow> False | Some u \<Rightarrow>
        (case dict_get (step_up_consumptions (tables s)) (case u of (o', k) \<Rightarrow> (ses_tenant_id (snd p), ses_user_id (snd p), o', k)) of
          None \<Rightarrow> False | Some x \<Rightarrow> co_fingerprint x = consumption_fingerprint cfg n p grp target pv \<and> co_step_up_id x = n)) \<and> t = s"
      using call Some by (simp split: if_split_asm)
    then obtain o' k x where "under = Some (o', k)" and x: "dict_get (step_up_consumptions (tables s))
        (ses_tenant_id (snd p), ses_user_id (snd p), o', k) = Some x"
      "co_fingerprint x = consumption_fingerprint cfg n p grp target pv" "co_step_up_id x = n" "t = s"
      by (cases under) (auto split: option.splits)
    moreover from this place have "op = Some o'" "key = Some k" by auto
    ultimately show thesis using again [OF steps(1,4)] Some by (auto simp: recorded_use_def)
  next
    case None
    have bound: "bound_to a p grp target pv" "now < su_expires_at a" using call None by (auto split: if_splits)
    obtain s1 s2 u where st: "updating (\<lambda>db. db\<lparr>step_ups := dict_set n (a\<lparr>su_used_at := Some now\<rparr>) (step_ups db)\<rparr>) s = (Inr (), s1)"
      "statement (\<lambda>db. case under of None \<Rightarrow> Inr db | Some u \<Rightarrow>
            and_then (insert_row no_index (case u of (o', k) \<Rightarrow> (ses_tenant_id (snd p), ses_user_id (snd p), o', k))
              \<lparr>co_fingerprint = consumption_fingerprint cfg n p grp target pv, co_step_up_id = n, co_consumed_at = now\<rparr>
              (step_up_consumptions db)) (\<lambda>d. Inr (db\<lparr>step_up_consumptions := d\<rparr>))) s1 = (Inr u, s2)"
      "tables t = tables s2"
      using call None bound by (auto elim!: chain_InrD dest: audit_same)
    note s1 = updating_Inr [OF st(1)] and s2 = consumption_inserted [OF statement_Inr [OF st(2)]]
    have "dict_get (step_ups (tables t)) n = Some (a\<lparr>su_used_at := Some now\<rparr>)"
      using s1 s2 st(3) by simp
    moreover have "op = None \<longrightarrow> step_up_consumptions (tables t) = step_up_consumptions (tables s)"
      using s1 s2 st(3) place by auto
    moreover have "recorded_use cfg (tables t) p n grp target pv o' k" if "op = Some o'" "key = Some k" for o' k
      using s2 st(3) place that by auto
    ultimately show thesis using first [OF steps(1,4) None bound] place by blast
  qed
qed

lemma step_up_laterD: "step_up_later a a' \<Longrightarrow> su_digest a' = su_digest a \<and> (su_used_at a \<noteq> None \<longrightarrow> su_used_at a' = su_used_at a)"
  by (cases a; cases a') (auto simp: step_up_later_def set_once_def)

lemma step_up_row:
  assumes "db_ok db" and "dict_get (step_ups db) n = Some a" and "su_digest a = dig"
  shows "select_row (\<lambda>a. su_digest a = dig) (step_ups db) = Some (n, a)"
  using assms by (intro select_row_unique) (auto simp: db_ok_def unique_column_def)

text \<open>After a consumption the authorization is used, and its only record is the one of this consumption.\<close>

lemma only_record:
  assumes "db_ok db" and "recorded_use cfg db p n grp target pv o' k" and "dict_get (step_up_consumptions db) q = Some x"
    and "co_step_up_id x = n"
  shows "q = (ses_tenant_id (snd p), ses_user_id (snd p), o', k)" "co_fingerprint x = consumption_fingerprint cfg n p grp target pv"
proof -
  obtain y where y: "dict_get (step_up_consumptions db) (ses_tenant_id (snd p), ses_user_id (snd p), o', k) = Some y"
    "co_step_up_id y = n" "co_fingerprint y = consumption_fingerprint cfg n p grp target pv"
    using assms(2) by (auto simp: recorded_use_def)
  have "unique_column co_step_up_id (step_up_consumptions db)" using assms(1) by (simp add: db_ok_def spent_ok_def)
  then show q: "q = (ses_tenant_id (snd p), ses_user_id (snd p), o', k)"
    using assms(3,4) y(1,2) unfolding unique_column_def by metis
  then show "co_fingerprint x = consumption_fingerprint cfg n p grp target pv" using assms(3) y(1,3) by simp
qed

lemma spent:
  assumes "db_ok (tables s)" and "db_ok (tables t)" and "spend_step_up cfg (Some v) p grp target pv trace now op key s = (Inr w, t)"
  obtains n a b where "dict_get (step_ups (tables s)) n = Some a" and "su_digest a = digest cfg v"
    and "su_used_at a = None \<longrightarrow> bound_to a p grp target pv \<and> now < su_expires_at a"
    and "su_used_at a \<noteq> None \<longrightarrow> (\<exists>o' k. op = Some o' \<and> key = Some k \<and> recorded_use cfg (tables s) p n grp target pv o' k)"
    and "dict_get (step_ups (tables t)) n = Some b" and "su_digest b = digest cfg v" and "su_used_at b \<noteq> None"
    and "\<And>q x. dict_get (step_up_consumptions (tables t)) q = Some x \<Longrightarrow> co_step_up_id x = n \<Longrightarrow>
      \<exists>o' k. op = Some o' \<and> key = Some k \<and> q = (ses_tenant_id (snd p), ses_user_id (snd p), o', k)
        \<and> co_fingerprint x = consumption_fingerprint cfg n p grp target pv"
  using assms(3)
proof (cases rule: spend_step_upD)
  case (again v' n a o' k)
  have row: "dict_get (step_ups (tables s)) n = Some a" "su_digest a = digest cfg v"
    using step_upD [OF again(2) assms(1)] again(1) by simp_all
  show thesis
    using only_record [OF assms(1) again(6)] again(3-7) row by (intro that [of n a a]) auto
next
  case (first v' n a)
  have row: "dict_get (step_ups (tables s)) n = Some a" "su_digest a = digest cfg v"
    using step_upD [OF first(2) assms(1)] first(1) by simp_all
  have spent: "spent_ok (step_ups (tables s)) (step_up_consumptions (tables s))" using assms(1) by (simp add: db_ok_def)
  have "\<exists>o' k. op = Some o' \<and> key = Some k \<and> q = (ses_tenant_id (snd p), ses_user_id (snd p), o', k)
      \<and> co_fingerprint x = consumption_fingerprint cfg n p grp target pv"
    if x: "dict_get (step_up_consumptions (tables t)) q = Some x" "co_step_up_id x = n" for q x
  proof (cases op)
    case None
    then show ?thesis using first(7) x spent_ok_unused [OF spent row(1) first(3)] by auto
  next
    case (Some o')
    then obtain k where k: "key = Some k" using first(9) by auto
    from only_record [OF assms(2) first(8) [OF Some k] x] Some k show ?thesis by simp
  qed
  then show thesis using first(3-6) row by (intro that [of n a "a\<lparr>su_used_at := Some now\<rparr>"]) auto
qed

text \<open>What is digested for a consumption.\<close>

definition consumption_text :: "string \<Rightarrow> string \<times> session_row \<Rightarrow> string \<Rightarrow> string \<Rightarrow> string \<Rightarrow> string" where
  "consumption_text n p grp target pv = json_dumps (JArr (map JStr
     [n, ses_user_id (snd p), fst p, ses_device_id (snd p), ses_tenant_id (snd p), grp, target, pv]))"

lemma consumption_text_iff:
  "consumption_text n p grp target pv = consumption_text n p' grp' target' pv' \<longleftrightarrow>
    fst p' = fst p \<and> ses_user_id (snd p') = ses_user_id (snd p) \<and> ses_device_id (snd p') = ses_device_id (snd p)
      \<and> ses_tenant_id (snd p') = ses_tenant_id (snd p) \<and> grp' = grp \<and> target' = target \<and> pv' = pv"
  unfolding consumption_text_def json_text_iff [OF readable_json_char] by auto

lemma consumption_fingerprint_text: "consumption_fingerprint cfg n p grp target pv = digest cfg (consumption_text n p grp target pv)"
  by (simp add: consumption_fingerprint_def consumption_text_def)

lemma consumption_fingerprint_iff:
  "consumption_fingerprint cfg n p grp target pv = consumption_fingerprint cfg n p' grp' target' pv' \<longleftrightarrow>
    fst p' = fst p \<and> ses_user_id (snd p') = ses_user_id (snd p) \<and> ses_device_id (snd p') = ses_device_id (snd p)
      \<and> ses_tenant_id (snd p') = ses_tenant_id (snd p) \<and> grp' = grp \<and> target' = target \<and> pv' = pv
    \<or> collision (digest cfg) (consumption_text n p grp target pv) (consumption_text n p' grp' target' pv')"
  using consumption_text_iff [of n p grp target pv p' grp' target' pv']
  unfolding consumption_fingerprint_text collision_def by metis

lemma consume_step_upD:
  assumes "consume_step_up cfg raw access grp target pv trace op key s = (Inr w, t)"
  obtains now i r s1 where "clock cfg (clock_reads s) = Some now" and "live_session cfg access now (tables s) = Inr (i, r)"
    and "tables s1 = touch_device (ses_device_id r) now (tables s)"
    and "spend_step_up cfg raw (i, r) grp target pv trace now op key s1 = (Inr w, t)"
proof -
  obtain now s0 p s1 where "read_now cfg s = (Inr now, s0)" "principal_of cfg access now s0 = (Inr p, s1)"
    and spend: "spend_step_up cfg raw p grp target pv trace now op key s1 = (Inr w, t)"
    using assms unfolding consume_step_up_def by (elim call_elims) auto
  moreover from this obtain i r where "p = (i, r)" "live_session cfg access now (tables s0) = Inr (i, r)"
    "tables s1 = touch_device (ses_device_id r) now (tables s0)"
    by (elim principal_ofD)
  ultimately show thesis using that read_now_same [of cfg s "Inr now" s0] by (auto elim: read_nowD)
qed

text \<open>
  C4: step-up authorizations. A consumption that succeeds uses an authorization of the live session
  of the access token. Where the authorization was unused, it was bound to the user, the session, the
  device, the tenant, the group, the target and the policy of the call, and not expired; where it was
  used, the use was recorded under the operation and the key of the call, with its fingerprint. And
  from then on the authorization is spent, whatever happens: an attempt that succeeds is a repetition
  of this consumption, under the same operation and key, for the same user in the same tenant, from the
  same session and device, for the same group, target and policy (or the digest collides on the two
  texts), and it changes nothing. A consumption without a key is never repeated.
\<close>

theorem step_up_spent_once:
  assumes "reachable identity_start (identity_step cfg) s"
    and "consume_step_up cfg (Some v) access grp target pv trace op key s = (Inr w, t)"
    and "runs (identity_step cfg) t cs u"
  shows "\<exists>n a now i r. dict_get (step_ups (tables s)) n = Some a \<and> su_digest a = digest cfg v
      \<and> clock cfg (clock_reads s) = Some now \<and> live_session cfg access now (tables s) = Inr (i, r)
      \<and> (su_used_at a = None \<longrightarrow> su_actor_id a = ses_user_id r \<and> su_session_id a = i \<and> su_device_id a = ses_device_id r
          \<and> su_tenant_id a = ses_tenant_id r \<and> su_action_group a = grp \<and> su_target_id a = target
          \<and> su_policy_version a = pv \<and> now < su_expires_at a)
      \<and> (su_used_at a \<noteq> None \<longrightarrow> (\<exists>o' k c. op = Some o' \<and> key = Some k
          \<and> dict_get (step_up_consumptions (tables s)) (ses_tenant_id r, ses_user_id r, o', k) = Some c
          \<and> co_step_up_id c = n \<and> co_fingerprint c = digest cfg (consumption_text n (i, r) grp target pv)))
      \<and> (spend_step_up cfg (Some v) p' grp' target' pv' trace' now' op' key' u = (Inr w', x) \<longrightarrow>
          x = u \<and> op \<noteq> None \<and> op' = op \<and> key' = key
          \<and> ses_tenant_id (snd p') = ses_tenant_id r \<and> ses_user_id (snd p') = ses_user_id r
          \<and> (fst p' = i \<and> ses_device_id (snd p') = ses_device_id r \<and> grp' = grp \<and> target' = target \<and> pv' = pv
            \<or> collision (digest cfg) (consumption_text n (i, r) grp target pv) (consumption_text n p' grp' target' pv')))"
proof -
  have inv: "identity_inv cfg s" "identity_inv cfg t"
    using identity.reachable_inv [OF assms(1)] identity.inv_step step_consume_step_up [OF assms(2)] by blast+
  then have ok: "db_ok (tables s)" "db_ok (tables t)" "db_ok (tables u)"
    using identity.runs_inv [OF assms(3)] by (simp_all add: identity_inv_def inv_def)
  note later = runs_evolves [OF assms(3) inv(2)]
  obtain now i r s1 where call: "clock cfg (clock_reads s) = Some now" "live_session cfg access now (tables s) = Inr (i, r)"
    and s1: "tables s1 = touch_device (ses_device_id r) now (tables s)"
    and spend: "spend_step_up cfg (Some v) (i, r) grp target pv trace now op key s1 = (Inr w, t)"
    using assms(2) by (rule consume_step_upD)
  have "db_ok (tables s1)" using fits_touch_device ok(1) s1 by (simp add: fits_def)
  from this ok(2) spend obtain n a b where row: "dict_get (step_ups (tables s1)) n = Some a" "su_digest a = digest cfg v"
    and free: "su_used_at a = None \<longrightarrow> bound_to a (i, r) grp target pv \<and> now < su_expires_at a"
    and used: "su_used_at a \<noteq> None \<longrightarrow>
      (\<exists>o' k. op = Some o' \<and> key = Some k \<and> recorded_use cfg (tables s1) (i, r) n grp target pv o' k)"
    and b: "dict_get (step_ups (tables t)) n = Some b" "su_digest b = digest cfg v" "su_used_at b \<noteq> None"
    and only: "\<And>q x. dict_get (step_up_consumptions (tables t)) q = Some x \<Longrightarrow> co_step_up_id x = n \<Longrightarrow>
      \<exists>o' k. op = Some o' \<and> key = Some k \<and> q = (ses_tenant_id r, ses_user_id r, o', k)
        \<and> co_fingerprint x = consumption_fingerprint cfg n (i, r) grp target pv"
    by (rule spent) auto
  obtain b' where b': "dict_get (step_ups (tables u)) n = Some b'" "step_up_later b b'"
    using evolvesD(4) [OF later] b(1) by (rule growsE)
  have "x = u \<and> op \<noteq> None \<and> op' = op \<and> key' = key \<and> ses_tenant_id (snd p') = ses_tenant_id r \<and> ses_user_id (snd p') = ses_user_id r
      \<and> consumption_fingerprint cfg n (i, r) grp target pv = consumption_fingerprint cfg n p' grp' target' pv'"
    if again: "spend_step_up cfg (Some v) p' grp' target' pv' trace' now' op' key' u = (Inr w', x)"
  proof -
    have found: "select_row (\<lambda>a. su_digest a = digest cfg v) (step_ups (tables u)) = Some (n, b')" "su_used_at b' \<noteq> None"
      using step_up_row [OF ok(3) b'(1)] step_up_laterD [OF b'(2)] b(2,3) by simp_all
    from again show ?thesis
    proof (cases rule: spend_step_upD)
      case (again v' m a' o' k)
      then obtain c where c: "dict_get (step_up_consumptions (tables u)) (ses_tenant_id (snd p'), ses_user_id (snd p'), o', k) = Some c"
        "co_step_up_id c = n" "co_fingerprint c = consumption_fingerprint cfg n p' grp' target' pv'"
        using found by (auto simp: recorded_use_def)
      then have "dict_get (step_up_consumptions (tables t)) (ses_tenant_id (snd p'), ses_user_id (snd p'), o', k) = Some c"
        using evolvesD(9) [OF later] b unfolding keeps_spent_def by blast
      from only [OF this c(2)] again(4,5,7) c(3) show ?thesis by auto
    qed (use found in auto)
  qed
  then show ?thesis
    using row free used call s1 unfolding consumption_fingerprint_iff
    by (intro exI [of _ n] exI [of _ a] exI [of _ now] exI [of _ i] exI [of _ r])
      (auto simp: bound_to_def recorded_use_def consumption_fingerprint_text)
qed

theorem step_up_spent_once_witness:
  "\<exists>t. consume_step_up demo_identity (Some ''xxxxxxxxxxx'') ''xxxxxxxxx'' ''external_transfer'' ''d1'' ''p'' ''tr'' None None demo_grant
      = (Inr (), t)
    \<and> (\<nexists>w. fst (spend_step_up demo_identity (Some ''xxxxxxxxxxx'') (''ses-xxxxxxxx'',
        new_session ''t'' ''usr-xxxxxx'' ''dev-xxxxxxx'' Web ''09'' 3600000002 2) ''external_transfer'' ''d1'' ''p'' ''tr'' 0
        (Some ''transfer'') (Some ''key'') t) = Inr w)"
proof -
  obtain t where call: "consume_step_up demo_identity (Some ''xxxxxxxxxxx'') ''xxxxxxxxx'' ''external_transfer'' ''d1'' ''p'' ''tr'' None None demo_grant
      = (Inr (), t)"
    using demo_consume by blast
  have "spend_step_up demo_identity (Some ''xxxxxxxxxxx'') p ''external_transfer'' ''d1'' ''p'' ''tr'' 0 (Some ''transfer'') (Some ''key'') t
      \<noteq> (Inr w, x)" for p w x
    using step_up_spent_once [OF demo_grant_reachable call runs_none] by blast
  with call show ?thesis by (metis prod.collapse)
qed

section \<open>Sessions and the trail\<close>

text \<open>
  C24: every session is on record. For every session there is the event of its login in the audit
  trail, with its user and its tenant, or the intent of the switch that opened it, and the trail
  verifies.
\<close>

theorem sessions_are_on_record:
  assumes "reachable identity_start (identity_step cfg) s" and "dict_get (sessions (tables s)) i = Some r"
  shows "(logged_in (trail s) i r \<or> switched_to (tables s) i r)
    \<and> (hashes (audit_parameters cfg) \<longrightarrow> valid (verify_integrity (audit_parameters cfg) (events (trail s))))"
proof -
  have "identity_inv cfg s" using assms(1) by (rule identity.reachable_inv)
  then show ?thesis
    using assms(2) by (auto simp: identity_inv_def inv_def recorded_def store_inv_def store_ok_def verify_integrity_valid)
qed

theorem sessions_are_on_record_witness:
  "logged_in (trail (demo_in Web)) ''ses-xxxxxxxx'' (new_session ''t'' ''usr-xxxxxx'' ''dev-xxxxxxx'' Web (digest demo_identity ''xxxxxxxxx'') 3600000002 2)
    \<or> switched_to (tables (demo_in Web)) ''ses-xxxxxxxx'' (new_session ''t'' ''usr-xxxxxx'' ''dev-xxxxxxx'' Web (digest demo_identity ''xxxxxxxxx'') 3600000002 2)"
  using sessions_are_on_record [OF demo_in_reachable(2), of Web "''ses-xxxxxxxx''"] by (simp add: demo_in_web)

section \<open>Passwords\<close>

text \<open>
  C36: a new password. A change of the password ends every session of the user, the one that asked for
  it included, and no other; the stored hash is that of the new password.
\<close>

theorem password_change_ends_sessions:
  assumes "reachable identity_start (identity_step cfg) s"
    and "change_current_password cfg access old new trace pv s = (Inr w, t)"
  shows "\<exists>now i r n. clock cfg (clock_reads s) = Some now \<and> live_session cfg access now (tables s) = Inr (i, r)
    \<and> (\<forall>j x. dict_get (sessions (tables t)) j = Some x \<longrightarrow> ses_user_id x = ses_user_id r \<longrightarrow> ses_state x = Revoked)
    \<and> (\<forall>j x. ses_user_id x \<noteq> ses_user_id r \<longrightarrow> dict_get (sessions (tables t)) j = Some x \<longleftrightarrow> dict_get (sessions (tables s)) j = Some x)
    \<and> map_option u_password_digest (dict_get (users (tables t)) (ses_user_id r)) = Some (Some (hash_password cfg n new))"
proof -
  let ?set = "\<lambda>s1 r now db. revoke_user_sessions (ses_user_id r) now (set_user (ses_user_id r)
          (\<lambda>u. u\<lparr>u_password_digest := Some (hash_password cfg (draws s1) new), u_password_change_required := False\<rparr>) db)"
  obtain now s0 p s1 where steps: "read_now cfg s = (Inr now, s0)" "principal_of cfg access now s0 = (Inr p, s1)"
    and rest: "(case p of (i, r) \<Rightarrow> \<lambda>s.
      if (case dict_get (users (tables s)) (ses_user_id r) of None \<Rightarrow> True
          | Some u \<Rightarrow> u_issuer u \<noteq> ''local'' \<or> \<not> password_matches cfg u old)
      then (Inl authentication_required, s)
      else
        chain (hashed cfg new s) (\<lambda>pw s.
        chain (updating (\<lambda>db. revoke_user_sessions (ses_user_id r) now (set_user (ses_user_id r)
          (\<lambda>u. u\<lparr>u_password_digest := Some pw, u_password_change_required := False\<rparr>) db)) s) (\<lambda>_.
        audit cfg trace pv (entry ''identity.password.changed'' Succeeded (ses_tenant_id r) (ses_user_id r)
          ''user'' (ses_user_id r) (reason ''CURRENT_PASSWORD_CHANGED''))))) s1 = (Inr w, t)"
    using assms(2) unfolding change_current_password_def
    by (auto elim!: call_elims split: if_splits simp: checked_password_def)
  obtain i r where p: "p = (i, r)" by (rule prod.exhaust)
  have user: "dict_get (users (tables s1)) (ses_user_id r) \<noteq> None" using rest by (auto simp: p split: if_splits option.splits)
  obtain s3 where st: "updating (?set s1 r now) (s1\<lparr>draws := Suc (draws s1)\<rparr>) = (Inr (), s3)" and s3: "tables t = tables s3"
    using rest by (auto simp: p hashed_def elim!: chain_InrD split: if_splits dest!: audit_same)
  have live: "clock cfg (clock_reads s) = Some now" "live_session cfg access now (tables s) = Inr (i, r)"
    and s1: "tables s1 = touch_device (ses_device_id r) now (tables s)"
    using steps p read_now_same [OF steps(1)] by (auto elim: principal_ofD read_nowD)
  have t: "tables t = ?set s1 r now (touch_device (ses_device_id r) now (tables s))"
    using updating_Inr [OF st] s3 s1 by simp
  obtain u where "dict_get (users (tables s)) (ses_user_id r) = Some u" using user s1 by auto
  then have "map_option u_password_digest (dict_get (users (tables t)) (ses_user_id r)) = Some (Some (hash_password cfg (draws s1) new))"
    by (simp add: t revoke_user_sessions_def revoke_where_def set_user_def)
  moreover have "ses_state x = Revoked" if "dict_get (sessions (tables t)) j = Some x" "ses_user_id x = ses_user_id r" for j x
  proof -
    from that(1) obtain y where "x = (if ses_user_id y = ses_user_id r then y\<lparr>ses_state := Revoked, ses_updated_at := now\<rparr> else y)"
      unfolding t revoke_user_sessions_def by (rule revoke_whereD)
    then show ?thesis using that(2) by (cases "ses_user_id y = ses_user_id r") simp_all
  qed
  moreover have "dict_get (sessions (tables t)) j = Some x \<longleftrightarrow> dict_get (sessions (tables s)) j = Some x"
    if "ses_user_id x \<noteq> ses_user_id r" for j x
    using that by (auto simp: t revoke_user_sessions_def revoke_where_def split: if_splits)
  ultimately show ?thesis using live by blast
qed

theorem password_change_ends_sessions_witness:
  "\<exists>t. change_current_password demo_identity ''xxxx'' ''admin'' ''correct horse'' ''tr'' ''p'' admin1 = (Inr (), t)
    \<and> map_option u_password_digest (dict_get (users (tables t)) ''admin'') = Some (Some ''correct horse'')"
proof -
  obtain t where call: "change_current_password demo_identity ''xxxx'' ''admin'' ''correct horse'' ''tr'' ''p'' admin1 = (Inr (), t)"
    using admin_change by blast
  obtain now i r n where live: "live_session demo_identity ''xxxx'' now (tables admin1) = Inr (i, r)"
    and pw: "map_option u_password_digest (dict_get (users (tables t)) (ses_user_id r)) = Some (Some (hash_password demo_identity n ''correct horse''))"
    using password_change_ends_sessions [OF admin_reachable(2) call] by blast
  have "dict_get (sessions (tables admin1)) i = Some r"
    using live_sessionD(1) [OF live reachable_db_ok [OF admin_reachable(2)]] .
  then have "ses_user_id r = ''admin''" by (auto simp: admin1 split: if_splits)
  moreover have "hash_password demo_identity n ''correct horse'' = ''correct horse''" by (simp add: demo_identity_def)
  ultimately show ?thesis using pw call by (simp only: simp_thms ex_simps) blast
qed

section \<open>Logins through a provider\<close>

text \<open>What a login that succeeded found and left.\<close>

lemma complete_oidc_loginD:
  assumes "complete_oidc_login cfg st co ve cl re provider pl trace pv s = (Inr v, t)"
  obtains tx r c now s1 where "clock cfg (clock_reads s) = Some now" and "tables s1 = tables s"
    and "open_transaction cfg st (tables s) = Some (tx, r)" and "now < ot_expires_at r" and "cl = ot_client_id r"
    and "re = ot_redirect_uri r" and "code_challenge_of cfg ve = ot_code_challenge r" and "claims_fit cfg r c"
    and "provider \<lparr>ex_authorization_code = co, ex_code_verifier = ve, ex_code_challenge = ot_code_challenge r,
      ex_issuer = ot_issuer r, ex_audience = ot_audience r, ex_nonce_digest = ot_nonce_digest r, ex_now = now\<rparr> = Claims c"
    and "\<exists>e. cl_expires_at c = Some e \<and> now < e"
    and "finish_oidc_login cfg tx r c pl now trace pv s1 = (Inr v, t)"
proof -
  obtain now s1 where now: "read_now cfg s = (Inr now, s1)"
    and call: "(case open_transaction cfg st (tables s1) of
        None \<Rightarrow> refuse cfg trace pv (entry ''identity.login.denied'' Denied ''identity-public'' anonymous ''identity''
            ''identity-public'' (reason ''OIDC_STATE_INVALID'')) (IdentityError ''OIDC_STATE_INVALID'' 401) s1
      | Some (tx, r) \<Rightarrow>
          (let deny = (\<lambda>c n. refuse cfg trace pv (entry ''identity.login.denied'' Denied (ot_tenant_id r) anonymous
                ''oidc_transaction'' tx (reason c)) (IdentityError c n) s1)
          in case login_denial r cl re now of
            Some (c, n) \<Rightarrow> deny c n
          | None \<Rightarrow>
              if \<not> ascii_text ve then (Inl (PythonError ''UnicodeEncodeError''), s1)
              else if code_challenge_of cfg ve \<noteq> ot_code_challenge r then deny ''OIDC_PKCE_INVALID'' 401
              else (case provider \<lparr>ex_authorization_code = co, ex_code_verifier = ve,
                  ex_code_challenge = ot_code_challenge r, ex_issuer = ot_issuer r, ex_audience = ot_audience r,
                  ex_nonce_digest = ot_nonce_digest r, ex_now = now\<rparr> of
                ProviderRaises \<Rightarrow> deny ''OIDC_PROVIDER_REJECTED'' 401
              | NoClaims \<Rightarrow> deny ''OIDC_CLAIMS_INVALID'' 401
              | Claims c \<Rightarrow>
                  if \<not> claims_fit cfg r c then deny ''OIDC_CLAIMS_INVALID'' 401
                  else (case cl_expires_at c of
                      None \<Rightarrow> (Inl (IdentityError ''INVALID_TIME'' 400), s1)
                    | Some e \<Rightarrow>
                        if e \<le> now then deny ''OIDC_CLAIMS_EXPIRED'' 401
                        else finish_oidc_login cfg tx r c pl now trace pv s1)))) = (Inr v, t)"
    using assms unfolding complete_oidc_login_def by (elim call_elims)
  obtain tx r where tx: "open_transaction cfg st (tables s1) = Some (tx, r)"
    using call by (auto split: option.splits)
  have checks: "login_denial r cl re now = None" "code_challenge_of cfg ve = ot_code_challenge r"
    using call by (auto simp: tx Let_def split: option.splits if_splits)
  obtain c e where "provider \<lparr>ex_authorization_code = co, ex_code_verifier = ve, ex_code_challenge = ot_code_challenge r,
      ex_issuer = ot_issuer r, ex_audience = ot_audience r, ex_nonce_digest = ot_nonce_digest r, ex_now = now\<rparr> = Claims c"
    "claims_fit cfg r c" "cl_expires_at c = Some e" "now < e" "finish_oidc_login cfg tx r c pl now trace pv s1 = (Inr v, t)"
    using call by (auto simp: tx checks Let_def split: option.splits if_splits provider_answer.splits)
  moreover have "now < ot_expires_at r" "cl = ot_client_id r" "re = ot_redirect_uri r"
    using checks(1) by (auto simp: login_denial_def split: if_splits)
  moreover have "tables s1 = tables s" "clock cfg (clock_reads s) = Some now"
    using read_now_same [OF now] now by (auto elim: read_nowD)
  ultimately show thesis using that tx checks by metis
qed

lemma insert_credentials_elsewhere:
  "insert_session ten u pl d i k dig ex now db = Inr db' \<Longrightarrow> users db' = users db \<and> oidc_transactions db' = oidc_transactions db"
  "insert_family f i now db = Inr db' \<Longrightarrow> users db' = users db \<and> oidc_transactions db' = oidc_transactions db"
  "insert_refresh n f dig now db = Inr db' \<Longrightarrow> users db' = users db \<and> oidc_transactions db' = oidc_transactions db"
  by (auto simp: insert_session_def insert_family_def insert_refresh_def elim!: and_then_InrE)

lemma open_session_elsewhere:
  assumes "open_session cfg ten u pl d i k acc ex now fam s = (Inr w, t)"
  shows "users (tables t) = users (tables s) \<and> oidc_transactions (tables t) = oidc_transactions (tables s)"
  using assms unfolding open_session_def
  by (cases fam) (auto elim!: chain_InrD dest!: statement_Inr insert_credentials_elsewhere draw_same(2))

lemma insert_credentials_sessions:
  "insert_family f i now db = Inr db' \<Longrightarrow> sessions db' = sessions db"
  "insert_refresh n f dig now db = Inr db' \<Longrightarrow> sessions db' = sessions db"
  by (auto simp: insert_family_def insert_refresh_def elim!: and_then_InrE)

lemma stored_session_row:
  assumes "open_session cfg ten u pl d i k acc ex now fam s = (Inr w, t)"
  shows "dict_get (sessions (tables s)) i = None"
    and "dict_get (sessions (tables t)) i = Some \<lparr>ses_tenant_id = ten, ses_user_id = u, ses_device_id = d, ses_client_kind = k,
      ses_access_digest = digest cfg acc, ses_access_expires_at = ex, ses_state = Active, ses_created_at = now, ses_updated_at = now\<rparr>"
proof -
  obtain x s1 where ins: "statement (insert_session ten u pl d i k (digest cfg acc) ex now) s = (Inr x, s1)"
    and rest: "(case fam of None \<Rightarrow> (Inr (), s1) | Some (f, refresh) \<Rightarrow>
        chain (statement (insert_family f i now) s1) (\<lambda>_ s.
        chain (fresh_id cfg ''ref'' s) (\<lambda>r.
        statement (insert_refresh r f (digest cfg refresh) now)))) = (Inr w, t)"
    using assms unfolding open_session_def by (auto elim!: chain_InrD)
  from rest have same: "sessions (tables t) = sessions (tables s1)"
    by (cases fam) (auto elim!: chain_InrD dest!: statement_Inr insert_credentials_sessions draw_same(2))
  obtain ds ss where "insert_row session_clash i \<lparr>ses_tenant_id = ten, ses_user_id = u, ses_device_id = d, ses_client_kind = k,
      ses_access_digest = digest cfg acc, ses_access_expires_at = ex, ses_state = Active, ses_created_at = now, ses_updated_at = now\<rparr>
      (sessions (tables s)) = Inr ss" "tables s1 = (tables s)\<lparr>devices := ds, sessions := ss\<rparr>"
    using statement_Inr [OF ins] by (rule insert_sessionD)
  with insert_rowD(1,2) [OF this(1)] same show "dict_get (sessions (tables s)) i = None"
    "dict_get (sessions (tables t)) i = Some \<lparr>ses_tenant_id = ten, ses_user_id = u, ses_device_id = d, ses_client_kind = k,
      ses_access_digest = digest cfg acc, ses_access_expires_at = ex, ses_state = Active, ses_created_at = now, ses_updated_at = now\<rparr>"
    by simp_all
qed

lemma select_row_mem: "select_row P d = Some (k, v) \<Longrightarrow> (k, v) \<in> set d \<and> P v"
  by (auto simp: select_row_def find_Some_iff in_set_conv_nth)

lemma insert_userD:
  "insert_user i r db = Inr db' \<Longrightarrow> (i, r) \<in> set (users db') \<and> oidc_transactions db' = oidc_transactions db
    \<and> sessions db' = sessions db"
  by (auto simp: insert_user_def elim!: and_then_InrE dest!: insert_rowD(2) intro: map_of_SomeD)

lemma user_of_claimsD:
  assumes "user_of_claims cfg iss sub s = (Inr u, t)"
  shows "\<exists>r. (u, r) \<in> set (users (tables t)) \<and> u_issuer r = iss \<and> u_subject r = sub"
    and "oidc_transactions (tables t) = oidc_transactions (tables s)" and "sessions (tables t) = sessions (tables s)"
proof -
  have "(\<exists>r. (u, r) \<in> set (users (tables t)) \<and> u_issuer r = iss \<and> u_subject r = sub)
    \<and> oidc_transactions (tables t) = oidc_transactions (tables s) \<and> sessions (tables t) = sessions (tables s)"
  proof (cases "select_row (\<lambda>r. u_issuer r = iss \<and> u_subject r = sub) (users (tables s))")
    case None
    then obtain s1 s2 where "tables s1 = tables s" "statement (insert_user u \<lparr>u_issuer = iss, u_subject = sub, u_login_id = None,
        u_email = None, u_password_digest = None, u_email_verified_at = None, u_password_change_required = False,
        u_state = ''active''\<rparr>) s1 = (Inr (), s2)" "t = s2"
      using assms by (auto simp: user_of_claims_def returning_def elim!: chain_InrD dest: draw_same(2))
    then show ?thesis by (auto dest!: statement_Inr insert_userD)
  next
    case (Some p)
    then have "t = s" "\<exists>r. p = (u, r)" using assms by (auto simp: user_of_claims_def split: prod.splits)
    with Some show ?thesis using select_row_mem [of _ "users (tables s)" u] by auto
  qed
  then show "\<exists>r. (u, r) \<in> set (users (tables t)) \<and> u_issuer r = iss \<and> u_subject r = sub"
    "oidc_transactions (tables t) = oidc_transactions (tables s)" "sessions (tables t) = sessions (tables s)" by blast+
qed

lemma finish_oidc_loginD:
  assumes "finish_oidc_login cfg tx r c pl now trace pv s = (Inr v, t)"
  shows "dict_get (oidc_transactions (tables t)) tx = Some (r\<lparr>ot_used_at := Some now\<rparr>)"
    and "cr_client_kind v = ot_client_kind r" and "cr_tenant_id v = ot_tenant_id r"
    and "\<exists>x. (cr_user_id v, x) \<in> set (users (tables t)) \<and> u_issuer x = cl_issuer c \<and> u_subject x = cl_subject c"
    and "dict_get (sessions (tables s)) (cr_session_id v) = None"
    and "dict_get (sessions (tables t)) (cr_session_id v) = Some \<lparr>ses_tenant_id = ot_tenant_id r, ses_user_id = cr_user_id v,
      ses_device_id = cr_device_id v, ses_client_kind = ot_client_kind r, ses_access_digest = digest cfg (cr_access_token v),
      ses_access_expires_at = now + access_ttl, ses_state = Active, ses_created_at = now, ses_updated_at = now\<rparr>"
proof -
  obtain sub s1 u s2 s3 s4 i d acc ex fam s5 s6 where sub: "checked_opaque (cl_subject c) = Inr sub"
    and s1: "updating (\<lambda>db. db\<lparr>oidc_transactions := dict_set tx (r\<lparr>ot_used_at := Some now\<rparr>) (oidc_transactions db)\<rparr>) s = (Inr (), s1)"
    and s2: "user_of_claims cfg (cl_issuer c) sub s1 = (Inr u, s2)"
    and s3: "updating (\<lambda>db. seed_minimum_step_up_actions (ot_tenant_id r)
      (db\<lparr>identity_memberships := insert_or_ignore (ot_tenant_id r, u) ''member'' (identity_memberships db)\<rparr>)) s2 = (Inr (), s3)"
    and s4: "tables s4 = tables s3"
    and s5: "open_session cfg (ot_tenant_id r) u pl d i (ot_client_kind r) acc (now + access_ttl) now fam s4 = (Inr (), s5)"
    and t: "tables t = tables s5" and v: "cr_user_id v = u" "cr_client_kind v = ot_client_kind r" "cr_tenant_id v = ot_tenant_id r"
      "cr_session_id v = i" "cr_device_id v = d" "cr_access_token v = acc"
    using assms unfolding finish_oidc_login_def Let_def login_scope_def
    by (auto elim!: attempt_InrD chain_InrD dest!: draw_same audit_same split: if_splits simp: returning_def)
  have claimed: "\<exists>x. (u, x) \<in> set (users (tables s2)) \<and> u_issuer x = cl_issuer c \<and> u_subject x = sub"
    "oidc_transactions (tables s2) = oidc_transactions (tables s1)"
    using user_of_claimsD [OF s2] by blast+
  have "sub = cl_subject c" using sub by (simp add: checked_opaque_def split: if_splits)
  then show "\<exists>x. (cr_user_id v, x) \<in> set (users (tables t)) \<and> u_issuer x = cl_issuer c \<and> u_subject x = cl_subject c"
    using claimed(1) updating_Inr [OF s3] s4 open_session_elsewhere [OF s5] t v by simp
  show "dict_get (oidc_transactions (tables t)) tx = Some (r\<lparr>ot_used_at := Some now\<rparr>)"
    using claimed(2) updating_Inr [OF s1] updating_Inr [OF s3] s4 open_session_elsewhere [OF s5] t by simp
  show "cr_client_kind v = ot_client_kind r" "cr_tenant_id v = ot_tenant_id r" using v by simp_all
  show "dict_get (sessions (tables s)) (cr_session_id v) = None"
    using stored_session_row(1) [OF s5] user_of_claimsD(3) [OF s2] updating_Inr [OF s1] updating_Inr [OF s3] s4 v by simp
  show "dict_get (sessions (tables t)) (cr_session_id v) = Some \<lparr>ses_tenant_id = ot_tenant_id r, ses_user_id = cr_user_id v,
      ses_device_id = cr_device_id v, ses_client_kind = ot_client_kind r, ses_access_digest = digest cfg (cr_access_token v),
      ses_access_expires_at = now + access_ttl, ses_state = Active, ses_created_at = now, ses_updated_at = now\<rparr>"
    using stored_session_row(2) [OF s5] t v by simp
qed

lemma oidc_laterD: "oidc_later r r' \<Longrightarrow> ot_state_digest r' = ot_state_digest r \<and> (ot_used_at r \<noteq> None \<longrightarrow> ot_used_at r' = ot_used_at r)"
  by (cases r; cases r') (auto simp: oidc_later_def set_once_def)

text \<open>
  C23: logins through a provider. A login that succeeds was asked for with the state of an open and
  unexpired transaction, with its client, its redirection and the verifier of its challenge; the
  provider gave verified claims for its issuer, audience and nonce that are not expired. It stores a
  new active session under the digest of the access token it answers: of the user with the issuer
  and subject of the claims, in the tenant and for the kind of client of the transaction, on the
  device of the credentials and for the life of an access. No later login with the same state succeeds.
\<close>

theorem oidc_login_bound_and_single_use:
  assumes "reachable identity_start (identity_step cfg) s"
    and "complete_oidc_login cfg st co ve cl re provider pl trace pv s = (Inr v, t)"
    and "runs (identity_step cfg) t cs u"
  shows "(\<exists>tx r c now e x. dict_get (oidc_transactions (tables s)) tx = Some r \<and> ot_state_digest r = digest cfg st
      \<and> ot_used_at r = None \<and> clock cfg (clock_reads s) = Some now \<and> now < ot_expires_at r
      \<and> cl = ot_client_id r \<and> re = ot_redirect_uri r \<and> code_challenge_of cfg ve = ot_code_challenge r
      \<and> provider \<lparr>ex_authorization_code = co, ex_code_verifier = ve, ex_code_challenge = ot_code_challenge r,
          ex_issuer = ot_issuer r, ex_audience = ot_audience r, ex_nonce_digest = ot_nonce_digest r, ex_now = now\<rparr> = Claims c
      \<and> verification_complete c \<and> cl_issuer c = ot_issuer r \<and> cl_audience c = ot_audience r
      \<and> digest cfg (cl_nonce c) = ot_nonce_digest r \<and> cl_expires_at c = Some e \<and> now < e
      \<and> cr_client_kind v = ot_client_kind r \<and> cr_tenant_id v = ot_tenant_id r
      \<and> dict_get (sessions (tables s)) (cr_session_id v) = None
      \<and> dict_get (sessions (tables t)) (cr_session_id v) = Some \<lparr>ses_tenant_id = ot_tenant_id r, ses_user_id = cr_user_id v,
          ses_device_id = cr_device_id v, ses_client_kind = ot_client_kind r, ses_access_digest = digest cfg (cr_access_token v),
          ses_access_expires_at = now + access_ttl, ses_state = Active, ses_created_at = now, ses_updated_at = now\<rparr>
      \<and> (cr_user_id v, x) \<in> set (users (tables t)) \<and> u_issuer x = cl_issuer c \<and> u_subject x = cl_subject c)
    \<and> complete_oidc_login cfg st co' ve' cl' re' provider' pl' trace' pv' u \<noteq> (Inr v', w)"
proof -
  have inv: "identity_inv cfg s" "identity_inv cfg t"
    using identity.reachable_inv [OF assms(1)] identity.inv_step step_complete_oidc_login [OF assms(2)] by blast+
  then have ok: "db_ok (tables s)" "db_ok (tables u)"
    using identity.runs_inv [OF assms(3)] by (simp_all add: identity_inv_def inv_def)
  obtain tx r c now s1 e where login: "clock cfg (clock_reads s) = Some now" "tables s1 = tables s" "open_transaction cfg st (tables s) = Some (tx, r)"
    "now < ot_expires_at r" "cl = ot_client_id r" "re = ot_redirect_uri r" "code_challenge_of cfg ve = ot_code_challenge r"
    "claims_fit cfg r c"
    "provider \<lparr>ex_authorization_code = co, ex_code_verifier = ve, ex_code_challenge = ot_code_challenge r,
      ex_issuer = ot_issuer r, ex_audience = ot_audience r, ex_nonce_digest = ot_nonce_digest r, ex_now = now\<rparr> = Claims c"
    "cl_expires_at c = Some e" "now < e" and finish: "finish_oidc_login cfg tx r c pl now trace pv s1 = (Inr v, t)"
    using assms(2) by (rule complete_oidc_loginD) blast
  note row = open_transactionD [OF login(3) ok(1)] and done' = finish_oidc_loginD [OF finish]
  obtain r' where r': "dict_get (oidc_transactions (tables u)) tx = Some r'" "oidc_later (r\<lparr>ot_used_at := Some now\<rparr>) r'"
    using evolvesD(5) [OF runs_evolves [OF assms(3) inv(2)]] done'(1) by (rule growsE)
  have "complete_oidc_login cfg st co' ve' cl' re' provider' pl' trace' pv' u \<noteq> (Inr v', w)"
  proof
    assume "complete_oidc_login cfg st co' ve' cl' re' provider' pl' trace' pv' u = (Inr v', w)"
    then obtain ty q where q: "open_transaction cfg st (tables u) = Some (ty, q)" by (rule complete_oidc_loginD)
    note open_transactionD [OF q ok(2)]
    moreover have "tx = ty"
      using calculation r' row oidc_laterD [OF r'(2)] ok(2) by (auto simp: db_ok_def unique_column_def)
    ultimately show False using r' oidc_laterD [OF r'(2)] by simp
  qed
  moreover obtain x where "(cr_user_id v, x) \<in> set (users (tables t))" "u_issuer x = cl_issuer c" "u_subject x = cl_subject c"
    using done'(4) by blast
  moreover have "dict_get (sessions (tables s)) (cr_session_id v) = None" using done'(5) login(2) by simp
  ultimately show ?thesis using row login done'(2,3,6) unfolding claims_fit_def by blast
qed

theorem oidc_login_bound_and_single_use_witness:
  "\<exists>v. complete_oidc_login demo_identity ''x'' ''r'' ''xxx'' ''c'' ''r'' demo_provider Windows ''tr'' ''p'' (demo_started Native)
      = (Inr v, demo_in Native)
    \<and> (\<nexists>w. fst (complete_oidc_login demo_identity ''x'' ''r'' ''xxx'' ''c'' ''r'' demo_provider Windows ''tr'' ''p'' (demo_in Native)) = Inr w)"
proof -
  obtain v where call: "complete_oidc_login demo_identity ''x'' ''r'' ''xxx'' ''c'' ''r'' demo_provider Windows ''tr'' ''p'' (demo_started Native)
      = (Inr v, demo_in Native)"
    using demo_in_native(9) by blast
  then show ?thesis
    using oidc_login_bound_and_single_use [OF demo_in_reachable(1) call runs_none] by (metis prod.collapse)
qed

section \<open>Logouts\<close>

lemma revoke_where_families:
  "dict_get (refresh_families (revoke_where P now db)) f = map_option (\<lambda>x. if (case dict_get (sessions db) (fam_session_id x) of
      None \<Rightarrow> False | Some r \<Rightarrow> P (fam_session_id x) r) then x\<lparr>fam_state := Revoked, fam_updated_at := now\<rparr> else x)
    (dict_get (refresh_families db) f)"
  by (simp add: revoke_where_def split: option.splits)

text \<open>The intent of a logout, whether or not it was delivered.\<close>

definition logout_intent :: "string \<Rightarrow> identity_tables \<Rightarrow> logout_row option" where
  "logout_intent k db = map_option (\<lambda>o'. o'\<lparr>lo_delivered_at := None\<rparr>) (dict_get (logout_outbox db) k)"

lemma dispatch_logout_intent:
  "logout_intent k (tables (dispatch_pending_self_logout_audits cfg only s)) = logout_intent k (tables s)"
proof -
  have "logout_intent k (tables (snd (mark_logout_delivered i now s))) = logout_intent k (tables s)" for i now s
    by (cases "dict_get (logout_outbox (tables s)) k")
      (auto simp: mark_logout_delivered_def transaction_def statement_def logout_intent_def)
  then show ?thesis
    unfolding dispatch_pending_self_logout_audits_def by (auto intro!: dispatch_rows_keep)
qed

lemma dispatch_families: "refresh_families (tables (dispatch_pending_self_logout_audits cfg only s)) = refresh_families (tables s)"
  unfolding dispatch_pending_self_logout_audits_def
  by (auto simp: mark_logout_delivered_def transaction_def statement_def intro!: dispatch_rows_keep)

text \<open>What a logout that was answered did.\<close>

lemma end_sessionD:
  assumes "end_session cfg i r now trace pv s = (Inr w, t)"
  shows "sessions (tables t) = sessions (revoke_where (\<lambda>k _. k = i) now (tables s))"
    and "logout_intent (logout_event_id cfg i) (tables t) = Some \<lparr>lo_session_id = i, lo_tenant_id = ses_tenant_id r,
      lo_actor_id = ses_user_id r, lo_occurred_at = now, lo_trace_id = trace, lo_policy_version = pv, lo_delivered_at = None,
      lo_created_at = now\<rparr>"
proof -
  obtain s1 where s1: "updating (revoke_where (\<lambda>k _. k = i) now) s = (Inr (), s1)"
    and s2: "statement (\<lambda>db. and_then (insert_row logout_clash (logout_event_id cfg i)
       \<lparr>lo_session_id = i, lo_tenant_id = ses_tenant_id r, lo_actor_id = ses_user_id r, lo_occurred_at = now,
        lo_trace_id = trace, lo_policy_version = pv, lo_delivered_at = None, lo_created_at = now\<rparr> (logout_outbox db))
      (\<lambda>d. Inr (db\<lparr>logout_outbox := d\<rparr>))) s1 = (Inr w, t)"
    using assms unfolding end_session_def by (auto elim!: chain_InrD)
  obtain d where d: "insert_row logout_clash (logout_event_id cfg i)
       \<lparr>lo_session_id = i, lo_tenant_id = ses_tenant_id r, lo_actor_id = ses_user_id r, lo_occurred_at = now,
        lo_trace_id = trace, lo_policy_version = pv, lo_delivered_at = None, lo_created_at = now\<rparr> (logout_outbox (tables s1)) = Inr d"
    "tables t = (tables s1)\<lparr>logout_outbox := d\<rparr>"
    using statement_Inr [OF s2] by (auto elim!: and_then_InrE)
  show "sessions (tables t) = sessions (revoke_where (\<lambda>k _. k = i) now (tables s))"
    using updating_Inr [OF s1] d by simp
  show "logout_intent (logout_event_id cfg i) (tables t) = Some \<lparr>lo_session_id = i, lo_tenant_id = ses_tenant_id r,
      lo_actor_id = ses_user_id r, lo_occurred_at = now, lo_trace_id = trace, lo_policy_version = pv, lo_delivered_at = None,
      lo_created_at = now\<rparr>"
    using insert_rowD(2) [OF d(1)] d(2) by (simp add: logout_intent_def)
qed

lemma logoutD:
  assumes "logout cfg kind access pv trace s = (Inr b, t)"
  obtains now i r where "clock cfg (clock_reads s) = Some now" and "session_of cfg access (tables s) = Some (i, r)"
    and "ses_client_kind r = kind"
    and "b \<longleftrightarrow> ses_state r \<noteq> Active \<or> kind = Web \<and> ses_access_expires_at r \<le> now"
    and "\<not> b \<longrightarrow> sessions (tables t) = sessions (revoke_where (\<lambda>k _. k = i) now (tables s))
      \<and> logout_intent (logout_event_id cfg i) (tables t) = Some \<lparr>lo_session_id = i, lo_tenant_id = ses_tenant_id r,
          lo_actor_id = ses_user_id r, lo_occurred_at = now, lo_trace_id = trace, lo_policy_version = pv, lo_delivered_at = None,
          lo_created_at = now\<rparr>"
proof -
  obtain now s1 q s2 where now: "read_now cfg s = (Inr now, s1)"
    and body: "(case session_of cfg access (tables s1) of
          None \<Rightarrow> (Inl (IdentityError ''ACCESS_INVALID'' 401), s1)
        | Some (i, r) \<Rightarrow>
            if ses_client_kind r \<noteq> kind then (Inl (IdentityError ''ACCESS_INVALID'' 401), s1)
            else if ses_state r \<noteq> Active \<or> kind = Web \<and> ses_access_expires_at r \<le> now then (Inr (i, True), s1)
            else chain (end_session cfg i r now trace pv s1) (\<lambda>_. returning (i, False))) = (Inr q, s2)"
    and t: "b = snd q" "t = dispatch_pending_self_logout_audits cfg (Some (fst q)) s2"
    using assms unfolding logout_def by (auto elim!: call_elims split: if_splits)
  obtain i r where row: "session_of cfg access (tables s1) = Some (i, r)" "ses_client_kind r = kind"
    using body by (auto split: option.splits if_splits)
  have s1: "tables s1 = tables s" "clock cfg (clock_reads s) = Some now"
    using read_now_same [OF now] now by (auto elim: read_nowD)
  show thesis
  proof (cases "ses_state r \<noteq> Active \<or> kind = Web \<and> ses_access_expires_at r \<le> now")
    case True
    then have "b" using body row t by auto
    then show thesis using row s1 True by (intro that [of now i r]) auto
  next
    case False
    then obtain w where e: "end_session cfg i r now trace pv s1 = (Inr w, s2)" "q = (i, False)"
      using body row by (auto elim!: chain_InrD simp: returning_def)
    then show thesis
      using row s1 t False end_sessionD [OF e(1)]
      by (intro that [of now i r]) (simp_all add: dispatch_logouts_keep dispatch_logout_intent)
  qed
qed

lemma logout_intentD:
  assumes "logout_intent k db = Some \<lparr>lo_session_id = i, lo_tenant_id = tn, lo_actor_id = u, lo_occurred_at = now,
      lo_trace_id = trace, lo_policy_version = pv, lo_delivered_at = None, lo_created_at = n\<rparr>"
  shows "\<exists>x. dict_get (logout_outbox db) k = Some x \<and> lo_session_id x = i \<and> lo_tenant_id x = tn \<and> lo_actor_id x = u
    \<and> lo_occurred_at x = now \<and> lo_trace_id x = trace \<and> lo_policy_version x = pv"
proof -
  from assms obtain x where x: "dict_get (logout_outbox db) k = Some x"
    "x\<lparr>lo_delivered_at := None\<rparr> = \<lparr>lo_session_id = i, lo_tenant_id = tn, lo_actor_id = u, lo_occurred_at = now,
      lo_trace_id = trace, lo_policy_version = pv, lo_delivered_at = None, lo_created_at = n\<rparr>"
    by (auto simp: logout_intent_def)
  then show ?thesis by (cases x) auto
qed

lemma revoked_gives_no_access:
  assumes "db_ok (tables s)" and "dict_get (sessions (tables s)) i = Some r" and "ses_state r = Revoked"
    and "ses_access_digest r = digest cfg access"
  shows "validate_access cfg access trace pv s \<noteq> (Inr p, t)"
proof
  assume "validate_access cfg access trace pv s = (Inr p, t)"
  then obtain j q n where "live_session cfg access n (tables s) = Inr (j, q)" by (rule validate_accessD)
  then show False
    using session_of_row [OF assms(1,2,4)] assms(3) by (auto simp: live_session_def elim!: and_then_InrE)
qed

text \<open>
  C39: a logout ends the session of the access token. Where the session is active and, for a client in
  the web, its access has not expired, a logout that is answered is answered as a fresh one, asked for
  the kind of client of the session; it revokes this session, with the families of refresh tokens of
  it, and no other; the intent of its audit event is stored with the user, the tenant and the time; and
  in no later state does the token give access or is the session active again.
\<close>

theorem logout_ends_session:
  assumes "reachable identity_start (identity_step cfg) s" and "logout cfg kind access pv trace s = (Inr b, t)"
    and "runs (identity_step cfg) t cs u" and "dict_get (sessions (tables s)) i = Some r" and "ses_access_digest r = digest cfg access"
    and "ses_state r = Active" and "clock cfg (clock_reads s) = Some now" and "ses_client_kind r = Native \<or> now < ses_access_expires_at r"
  shows "\<not> b \<and> kind = ses_client_kind r
    \<and> dict_get (sessions (tables t)) = (dict_get (sessions (tables s)))(i \<mapsto> r\<lparr>ses_state := Revoked, ses_updated_at := now\<rparr>)
    \<and> (\<forall>f x. dict_get (refresh_families (tables t)) f = Some x \<longrightarrow> fam_session_id x = i \<longrightarrow> fam_state x = Revoked)
    \<and> (\<exists>x. dict_get (logout_outbox (tables t)) (logout_event_id cfg i) = Some x \<and> lo_session_id x = i
        \<and> lo_tenant_id x = ses_tenant_id r \<and> lo_actor_id x = ses_user_id r \<and> lo_occurred_at x = now
        \<and> lo_trace_id x = trace \<and> lo_policy_version x = pv)
    \<and> validate_access cfg access trace' pv' u \<noteq> (Inr p, w)
    \<and> (\<exists>x. dict_get (sessions (tables u)) i = Some x \<and> ses_state x = Revoked)"
proof -
  have inv: "identity_inv cfg s" "identity_inv cfg t"
    using identity.reachable_inv [OF assms(1)] identity.inv_step step_logout [OF assms(2)] by blast+
  then have ok: "db_ok (tables s)" "db_ok (tables t)" "db_ok (tables u)"
    using identity.runs_inv [OF assms(3)] by (simp_all add: identity_inv_def inv_def)
  have row: "session_of cfg access (tables s) = Some (i, r)" using ok(1) assms(4,5) by (rule session_of_row)
  from assms(2) obtain now' j q where "clock cfg (clock_reads s) = Some now'" "session_of cfg access (tables s) = Some (j, q)"
    "ses_client_kind q = kind" "b \<longleftrightarrow> ses_state q \<noteq> Active \<or> kind = Web \<and> ses_access_expires_at q \<le> now'"
    "\<not> b \<longrightarrow> sessions (tables t) = sessions (revoke_where (\<lambda>k _. k = j) now' (tables s))
      \<and> logout_intent (logout_event_id cfg j) (tables t) = Some \<lparr>lo_session_id = j, lo_tenant_id = ses_tenant_id q,
          lo_actor_id = ses_user_id q, lo_occurred_at = now', lo_trace_id = trace, lo_policy_version = pv, lo_delivered_at = None,
          lo_created_at = now'\<rparr>"
    by (rule logoutD)
  then have b: "\<not> b" and kind: "kind = ses_client_kind r"
    and t: "sessions (tables t) = sessions (revoke_where (\<lambda>k _. k = i) now (tables s))"
    and intent: "logout_intent (logout_event_id cfg i) (tables t) = Some \<lparr>lo_session_id = i, lo_tenant_id = ses_tenant_id r,
          lo_actor_id = ses_user_id r, lo_occurred_at = now, lo_trace_id = trace, lo_policy_version = pv, lo_delivered_at = None,
          lo_created_at = now\<rparr>"
    using row assms(6-8) by auto
  have all: "dict_get (sessions (tables t)) = (dict_get (sessions (tables s)))(i \<mapsto> r\<lparr>ses_state := Revoked, ses_updated_at := now\<rparr>)"
  proof
    fix k
    show "dict_get (sessions (tables t)) k = ((dict_get (sessions (tables s)))(i \<mapsto> r\<lparr>ses_state := Revoked, ses_updated_at := now\<rparr>)) k"
      using assms(4) by (cases "dict_get (sessions (tables s)) k") (auto simp: t revoke_where_def)
  qed
  then have gone: "dict_get (sessions (tables t)) i = Some (r\<lparr>ses_state := Revoked, ses_updated_at := now\<rparr>)" by simp
  have "fam_state x = Revoked" if "dict_get (refresh_families (tables t)) f = Some x" "fam_session_id x = i" for f x
  proof -
    have "family_ok (sessions (tables t)) x" using ok(2) that(1) by (auto simp: db_ok_def sessions_ok_def)
    then show ?thesis using that(2) gone by (auto simp: family_ok_def)
  qed
  moreover note logout_intentD [OF intent]
  moreover obtain z where z: "dict_get (sessions (tables u)) i = Some z" "ses_state z = Revoked" "ses_access_digest z = digest cfg access"
    using revoked_later [OF inv(2) assms(3) gone] assms(5) by auto
  moreover have "validate_access cfg access trace' pv' u \<noteq> (Inr p, w)" by (rule revoked_gives_no_access [OF ok(3) z])
  ultimately show ?thesis using b kind all by blast
qed

theorem logout_ends_session_witness:
  "\<exists>t. revoke_current_native_session demo_identity ''xxxxxxxxx'' ''p'' ''tr'' (demo_in Native) = (Inr False, t)
    \<and> (\<exists>x. dict_get (logout_outbox (tables t)) (logout_event_id demo_identity ''ses-xxxxxxxx'') = Some x
      \<and> lo_session_id x = ''ses-xxxxxxxx'' \<and> lo_actor_id x = ''usr-xxxxxx'' \<and> lo_occurred_at x = 3600000004)"
proof -
  obtain t where call: "revoke_current_native_session demo_identity ''xxxxxxxxx'' ''p'' ''tr'' (demo_in Native) = (Inr False, t)"
    using demo_logout by blast
  have "\<exists>x. dict_get (logout_outbox (tables t)) (logout_event_id demo_identity ''ses-xxxxxxxx'') = Some x
      \<and> lo_session_id x = ''ses-xxxxxxxx'' \<and> lo_actor_id x = ''usr-xxxxxx'' \<and> lo_occurred_at x = 3600000004"
    using logout_ends_session [OF demo_in_reachable(2) call [unfolded revoke_current_native_session_def] runs_none,
        of "''ses-xxxxxxxx''" "new_session ''t'' ''usr-xxxxxx'' ''dev-xxxxxxx'' Native (digest demo_identity ''xxxxxxxxx'') 3600000002 2" 3600000004
        "''tr''" "''p''"]
    by (simp add: demo_in_native new_session_def demo_identity_def [THEN arg_cong [of _ _ clock]]) blast
  then show ?thesis using call by blast
qed

end
