(* ===== verification/Notebook.thy ===== *)
theory Notebook
  imports Contracts Json
begin

text \<open>
  Model of \<open>services/api/src/daon_user_api/notebook.py\<close>: notebooks with the history of their titles,
  the sources and other records bound to them, and requests to delete them. \<open>NotebookService\<close> checks
  and canonicalises the arguments, \<open>ReferenceNotebookRepository\<close> keeps the notebooks in dictionaries by
  tenant, workspace and notebook. Arguments annotated \<open>object\<close> are JSON values, the values the runtime
  passes: \<^term>\<open>JStr\<close> is what \<open>isinstance(value, str)\<close> accepts and \<^term>\<open>JNull\<close> is \<open>None\<close>. The fields of views
  that only the PostgreSQL repository fills (conversations, deletion requests of sources) are left out.
\<close>

section \<open>Errors and contexts\<close>

datatype notebook_error =
    NotebookError string int
  | PythonError string
  | RaisedBy string

abbreviation notebook_error :: "string \<Rightarrow> notebook_error" where
  "notebook_error code \<equiv> NotebookError code 400"

abbreviation notebook_not_found :: notebook_error where
  "notebook_not_found \<equiv> NotebookError ''NOTEBOOK_NOT_FOUND'' 404"

abbreviation key_reused :: notebook_error where
  "key_reused \<equiv> NotebookError ''IDEMPOTENCY_KEY_REUSED'' 409"

record notebook_context =
  tenant_id :: string
  workspace_id :: string
  actor_id :: string
  trace_id :: string
  policy_version :: string

definition notebook_context_ok :: "notebook_context \<Rightarrow> bool" where
  "notebook_context_ok c \<longleftrightarrow>
    list_all safe_id [tenant_id c, workspace_id c, actor_id c, trace_id c, policy_version c]"

section \<open>Data\<close>

record notebook =
  nb_notebook_id :: string
  nb_tenant_id :: string
  nb_workspace_id :: string
  nb_created_by :: string
  nb_created_at :: int

record notebook_binding =
  bd_tenant_id :: string
  bd_workspace_id :: string
  bd_notebook_id :: string
  bd_kind :: string
  bd_record_id :: string
  bd_version_id :: "string option"

record binding_change_view =
  bc_notebook_id :: string
  bc_source_id :: string
  bc_source_version_id :: string
  bc_status :: string
  bc_etag :: string

record notebook_activity =
  ac_tenant_id :: string
  ac_workspace_id :: string
  ac_notebook_id :: string
  ac_kind :: string
  ac_occurred_at :: int
  ac_actor_id :: string

record home_view =
  hv_notebook_id :: string
  hv_title :: string
  hv_source_count :: nat
  hv_output_count :: nat
  hv_updated_at :: string
  hv_status :: string
  hv_etag :: string

record deletion_view =
  dv_request_id :: string
  dv_notebook_id :: string
  dv_state :: string
  dv_current_step :: string
  dv_attempts :: nat
  dv_safe_error_code :: "string option"
  dv_requested_at :: int
  dv_completed_at :: "int option"

record selected_context =
  sc_notebook_id :: string
  sc_sources :: "(string \<times> string) list"
  sc_knowledge_context_ids :: "string list"
  sc_conversation_thread_ids :: "string list"
  sc_studio_output_ids :: "string list"
  sc_output_version_ids :: "string list"
  sc_generation_settings_ids :: "string list"
  sc_etag :: string

definition is_empty :: "selected_context \<Rightarrow> bool" where
  "is_empty v \<longleftrightarrow> sc_sources v = [] \<and> sc_knowledge_context_ids v = [] \<and> sc_conversation_thread_ids v = []
    \<and> sc_studio_output_ids v = [] \<and> sc_output_version_ids v = [] \<and> sc_generation_settings_ids v = []"

record notebook_metadata =
  md_version :: nat
  md_title :: string
  md_description :: "string option"
  md_updated_at :: int
  md_updated_by :: string

section \<open>Canonical arguments\<close>

text \<open>
  What the service is built with and what is outside the source: the readings of the clock, the text
  of a time, SHA-256 of bytes in hexadecimal, \<open>unicodedata.normalize("NFKC", _)\<close>, and the check before a
  creation, with the name of what it raises.
\<close>

record notebook_service =
  clock :: "nat \<Rightarrow> int"
  iso_text :: "int \<Rightarrow> string"
  sha256 :: "string \<Rightarrow> string"
  nfkc :: "string \<Rightarrow> string"
  require_create :: "(nat \<Rightarrow> notebook_context \<Rightarrow> string option) option"

definition binding_kinds :: "string list" where
  "binding_kinds = [''source'', ''knowledge_context'', ''conversation_thread'', ''studio_output'',
     ''output_version'', ''generation_settings'']"

definition control_char :: "char \<Rightarrow> bool" where
  "control_char c \<longleftrightarrow> c < CHR 0x20 \<or> c = CHR 0x7F"

text \<open>\<open>str.split()\<close>: the words between white space.\<close>

function words_of :: "string \<Rightarrow> string list" where
  "words_of s = (case dropWhile py_space s of [] \<Rightarrow> []
     | c # cs \<Rightarrow> takeWhile (\<lambda>x. \<not> py_space x) (c # cs) # words_of (dropWhile (\<lambda>x. \<not> py_space x) (c # cs)))"
  by pat_completeness auto

lemma dropWhile_head: "dropWhile P s = c # cs \<Longrightarrow> \<not> P c"
  by (induction s) (auto split: if_splits)

termination words_of
proof (relation "measure length", simp)
  fix s c and cs :: string
  assume "dropWhile py_space s = c # cs"
  then have "\<not> py_space c" and len: "Suc (length cs) \<le> length s"
    using length_dropWhile_le [of py_space s] dropWhile_head [of py_space s] by auto
  then have "length (dropWhile (\<lambda>x. \<not> py_space x) (c # cs)) \<le> length cs"
    by (simp add: length_dropWhile_le)
  with len show "(dropWhile (\<lambda>x. \<not> py_space x) (c # cs), s) \<in> measure length" by simp
qed

declare words_of.simps [simp del]

definition field_invalid :: "string \<Rightarrow> notebook_error" where
  "field_invalid field = notebook_error (''NOTEBOOK_'' @ field @ ''_INVALID'')"

definition canonical_text :: "notebook_service \<Rightarrow> json \<Rightarrow> string \<Rightarrow> nat \<Rightarrow> nat \<Rightarrow> notebook_error + string" where
  "canonical_text cfg v field minimum maximum = (case v of
       JStr s \<Rightarrow>
         if list_ex control_char s then Inl (field_invalid field)
         else let normalized = join_with '' '' (words_of (nfkc cfg s)) in
           if minimum \<le> length normalized \<and> length normalized \<le> maximum then Inr normalized
           else Inl (field_invalid field)
     | _ \<Rightarrow> Inl (field_invalid field))"

definition canonical_description :: "notebook_service \<Rightarrow> json \<Rightarrow> notebook_error + string option" where
  "canonical_description cfg v =
    (if v = JNull then Inr None
     else and_then (canonical_text cfg v ''DESCRIPTION'' 0 500) (\<lambda>d. Inr (if d = [] then None else Some d)))"

definition checked_key :: "json \<Rightarrow> notebook_error + string" where
  "checked_key v = (case v of
       JStr s \<Rightarrow> if safe_id s \<and> 8 \<le> length s then Inr s else Inl (notebook_error ''IDEMPOTENCY_KEY_INVALID'')
     | _ \<Rightarrow> Inl (notebook_error ''IDEMPOTENCY_KEY_INVALID''))"

definition request_fingerprint :: "notebook_service \<Rightarrow> (string \<times> json) list \<Rightarrow> string" where
  "request_fingerprint cfg m = sha256 cfg (utf8 (json_text json_char_raw (JObj m)))"

definition checked_binding :: "json \<Rightarrow> string \<Rightarrow> notebook_error + string" where
  "checked_binding v field = (case v of
       JStr s \<Rightarrow> if safe_id s then Inr s else Inl (field_invalid (''BINDING_'' @ field))
     | _ \<Rightarrow> Inl (field_invalid (''BINDING_'' @ field)))"

definition binding_values :: "json \<times> json \<times> json \<Rightarrow> notebook_error + string \<times> string \<times> string option" where
  "binding_values = (\<lambda>(kind, record_id, version_id).
    and_then (case kind of
        JStr k \<Rightarrow> if k \<in> set binding_kinds then Inr k else Inl (field_invalid ''BINDING_KIND'')
      | _ \<Rightarrow> Inl (field_invalid ''BINDING_KIND'')) (\<lambda>k.
    and_then (checked_binding record_id ''RECORD_ID'') (\<lambda>r.
    if k = ''source'' then and_then (checked_binding version_id ''VERSION_ID'') (\<lambda>v. Inr (k, r, Some v))
    else if version_id \<noteq> JNull then Inl (field_invalid ''BINDING_VERSION_ID'')
    else Inr (k, r, None))))"

fun all_binding_values :: "(json \<times> json \<times> json) list \<Rightarrow> notebook_error + (string \<times> string \<times> string option) list" where
  "all_binding_values [] = Inr []"
| "all_binding_values (x # xs) = and_then (binding_values x) (\<lambda>y. and_then (all_binding_values xs) (\<lambda>ys. Inr (y # ys)))"

text \<open>\<open>"notebook:7"\<close>, and the test \<open>"notebook:[1-9][0-9]*"\<close> of the whole text.\<close>

definition etag_of :: "string \<Rightarrow> nat \<Rightarrow> string" where
  "etag_of kind n = [CHR 0x22] @ kind @ '':'' @ dec_nat n @ [CHR 0x22]"

definition etag_shape :: "string \<Rightarrow> string \<Rightarrow> bool" where
  "etag_shape kind v \<longleftrightarrow>
    (let pre = [CHR 0x22] @ kind @ '':''; rest = drop (length pre) v in
     take (length pre) v = pre \<and> rest \<noteq> [] \<and> last rest = CHR 0x22
     \<and> (case butlast rest of [] \<Rightarrow> False
        | d # ds \<Rightarrow> CHR ''1'' \<le> d \<and> d \<le> CHR ''9'' \<and> list_all (\<lambda>x. CHR ''0'' \<le> x \<and> x \<le> CHR ''9'') ds))"

definition checked_etag :: "string \<Rightarrow> string \<Rightarrow> json \<Rightarrow> notebook_error + string" where
  "checked_etag kind code v = (case v of
       JStr s \<Rightarrow> if etag_shape kind s then Inr s else Inl (notebook_error code)
     | _ \<Rightarrow> Inl (notebook_error code))"

section \<open>The repository\<close>

type_synonym scope = "string \<times> string \<times> string"
type_synonym request_key = "string \<times> string \<times> string \<times> string"

record notebook_store =
  notebooks :: "(scope, notebook) dict"
  metadata :: "(scope, notebook_metadata list) dict"
  idempotency :: "(request_key, string \<times> home_view) dict"
  binding_targets :: "(string \<times> string \<times> string option) list"
  bindings :: "(scope, notebook_binding list) dict"
  activities :: "(scope, notebook_activity list) dict"
  binding_terminations :: "(scope, (string \<times> string) list) dict"
  unbind_idempotency :: "(request_key, string \<times> binding_change_view) dict"
  deletions :: "(scope, string \<times> deletion_view) dict"
  deletion_idempotency :: "(request_key, string \<times> deletion_view) dict"
  clock_reads :: nat
  create_checks :: nat

type_synonym 'a call = "notebook_store \<Rightarrow> (notebook_store, notebook_error, 'a) outcome"

definition empty_notebooks :: "(string \<times> string \<times> string option) list \<Rightarrow> notebook_store" where
  "empty_notebooks targets = \<lparr>notebooks = [], metadata = [], idempotency = [], binding_targets = targets,
     bindings = [], activities = [], binding_terminations = [], unbind_idempotency = [], deletions = [],
     deletion_idempotency = [], clock_reads = 0, create_checks = 0\<rparr>"

definition read_clock :: "notebook_service \<Rightarrow> int call" where
  "read_clock cfg s = (Inr (clock cfg (clock_reads s)), s\<lparr>clock_reads := Suc (clock_reads s)\<rparr>)"

definition scope_of :: "notebook_context \<Rightarrow> string \<Rightarrow> scope" where
  "scope_of c i = (tenant_id c, workspace_id c, i)"

definition request_key :: "notebook_context \<Rightarrow> string \<Rightarrow> request_key" where
  "request_key c key = (tenant_id c, workspace_id c, actor_id c, key)"

text \<open>An entry of a dictionary that must be there.\<close>

definition at_key :: "('k, 'v) dict \<Rightarrow> 'k \<Rightarrow> notebook_error + 'v" where
  "at_key d k = (case dict_get d k of None \<Rightarrow> Inl (PythonError ''KeyError'') | Some v \<Rightarrow> Inr v)"

definition latest :: "notebook_store \<Rightarrow> scope \<Rightarrow> notebook_error + notebook_metadata" where
  "latest s k = and_then (at_key (metadata s) k) (\<lambda>ms.
     if ms = [] then Inl (PythonError ''IndexError'') else Inr (last ms))"

text \<open>The answer of a ledger to a request: none, the stored one, or a key that served another request.\<close>

definition replayed :: "(request_key, string \<times> 'v) dict \<Rightarrow> request_key \<Rightarrow> string \<Rightarrow> notebook_error + 'v option" where
  "replayed l k fp = (case dict_get l k of None \<Rightarrow> Inr None
     | Some (f, v) \<Rightarrow> if f \<noteq> fp then Inl key_reused else Inr (Some v))"

definition view_of :: "notebook_service \<Rightarrow> notebook \<Rightarrow> notebook_metadata \<Rightarrow> home_view" where
  "view_of cfg n m = \<lparr>hv_notebook_id = nb_notebook_id n, hv_title = md_title m, hv_source_count = 0,
     hv_output_count = 0, hv_updated_at = iso_text cfg (md_updated_at m), hv_status = ''empty'',
     hv_etag = etag_of ''notebook'' (md_version m)\<rparr>"

definition new_notebook_id :: "notebook_service \<Rightarrow> request_key \<Rightarrow> string" where
  "new_notebook_id cfg = (\<lambda>(t, w, a, key). ''notebook-'' @ take 32 (sha256 cfg (utf8 (join_with ''|'' [t, w, a, key]))))"

definition activity :: "notebook_context \<Rightarrow> string \<Rightarrow> string \<Rightarrow> int \<Rightarrow> notebook_activity" where
  "activity c i kind now = \<lparr>ac_tenant_id = tenant_id c, ac_workspace_id = workspace_id c, ac_notebook_id = i,
     ac_kind = kind, ac_occurred_at = now, ac_actor_id = actor_id c\<rparr>"

definition repo_create :: "notebook_service \<Rightarrow> notebook_context \<Rightarrow> string \<Rightarrow> string option \<Rightarrow> string \<Rightarrow> string \<Rightarrow> int
    \<Rightarrow> (home_view \<times> bool) call" where
  "repo_create cfg c title description key fp now s =
    attempt (replayed (idempotency s) (request_key c key) fp) s (\<lambda>found. case found of
      Some v \<Rightarrow> (Inr (v, True), s)
    | None \<Rightarrow>
        let i = new_notebook_id cfg (request_key c key);
            n = \<lparr>nb_notebook_id = i, nb_tenant_id = tenant_id c, nb_workspace_id = workspace_id c,
                 nb_created_by = actor_id c, nb_created_at = now\<rparr>;
            m = \<lparr>md_version = 1, md_title = title, md_description = description, md_updated_at = now,
                 md_updated_by = actor_id c\<rparr>;
            k = scope_of c i; v = view_of cfg n m
        in (Inr (v, False), s\<lparr>notebooks := dict_set k n (notebooks s), metadata := dict_set k [m] (metadata s),
          bindings := dict_set k [] (bindings s), activities := dict_set k [activity c i ''created'' now] (activities s),
          binding_terminations := dict_set k [] (binding_terminations s),
          idempotency := dict_set (request_key c key) (fp, v) (idempotency s)\<rparr>))"

definition repo_update_title :: "notebook_service \<Rightarrow> notebook_context \<Rightarrow> string \<Rightarrow> string \<Rightarrow> string \<Rightarrow> string \<Rightarrow> string \<Rightarrow> int
    \<Rightarrow> (home_view \<times> bool) call" where
  "repo_update_title cfg c i title etag key fp now s =
    attempt (replayed (idempotency s) (request_key c key) fp) s (\<lambda>found. case found of
      Some v \<Rightarrow> (Inr (v, True), s)
    | None \<Rightarrow>
        let k = scope_of c i in
        case dict_get (notebooks s) k of
          None \<Rightarrow> (Inl notebook_not_found, s)
        | Some n \<Rightarrow>
            attempt (latest s k) s (\<lambda>cur.
            if etag \<noteq> etag_of ''notebook'' (md_version cur) then (Inl (NotebookError ''NOTEBOOK_ETAG_MISMATCH'' 412), s)
            else
              let m = \<lparr>md_version = md_version cur + 1, md_title = title, md_description = md_description cur,
                       md_updated_at = now, md_updated_by = actor_id c\<rparr>;
                  v = view_of cfg n m
              in attempt (at_key (metadata s) k) s (\<lambda>ms. (Inr (v, False),
                s\<lparr>metadata := dict_set k (ms @ [m]) (metadata s),
                  idempotency := dict_set (request_key c key) (fp, v) (idempotency s)\<rparr>))))"

definition repo_get :: "notebook_service \<Rightarrow> notebook_context \<Rightarrow> string \<Rightarrow> home_view call" where
  "repo_get cfg c i s = (case dict_get (notebooks s) (scope_of c i) of
       None \<Rightarrow> (Inl notebook_not_found, s)
     | Some n \<Rightarrow> attempt (latest s (scope_of c i)) s (\<lambda>m. (Inr (view_of cfg n m), s)))"

fun views_of :: "notebook_service \<Rightarrow> notebook_store \<Rightarrow> (scope \<times> notebook) list \<Rightarrow> notebook_error + home_view list" where
  "views_of cfg s [] = Inr []"
| "views_of cfg s ((k, n) # ns) = and_then (latest s k) (\<lambda>m. and_then (views_of cfg s ns) (\<lambda>vs. Inr (view_of cfg n m # vs)))"

text \<open>\<open>sorted(..., reverse=True)\<close> keeps the order of equal elements.\<close>

definition repo_list :: "notebook_service \<Rightarrow> notebook_context \<Rightarrow> home_view list call" where
  "repo_list cfg c s =
    attempt (views_of cfg s (filter (\<lambda>((t, w, i), n). t = tenant_id c \<and> w = workspace_id c) (notebooks s))) s (\<lambda>vs.
      (Inr (rev (sort_key hv_updated_at (sort_key hv_notebook_id (rev vs)))), s))"

definition repo_bind_verified :: "notebook_context \<Rightarrow> string \<Rightarrow> string \<times> string \<times> string option \<Rightarrow> int \<Rightarrow> bool call" where
  "repo_bind_verified c i target now s =
    (let k = scope_of c i; (kind, record_id, version_id) = target in
     if dict_get (notebooks s) k = None then (Inl notebook_not_found, s)
     else if target \<notin> set (binding_targets s) then (Inl (NotebookError ''NOTEBOOK_BINDING_TARGET_NOT_FOUND'' 404), s)
     else
       let b = \<lparr>bd_tenant_id = tenant_id c, bd_workspace_id = workspace_id c, bd_notebook_id = i, bd_kind = kind,
                bd_record_id = record_id, bd_version_id = version_id\<rparr> in
       attempt (at_key (bindings s) k) s (\<lambda>bs.
       if b \<in> set bs then (Inr True, s)
       else
         attempt (at_key (activities s) k) (s\<lparr>bindings := dict_set k (bs @ [b]) (bindings s)\<rparr>) (\<lambda>as.
         (Inr False, s\<lparr>bindings := dict_set k (bs @ [b]) (bindings s),
           activities := dict_set k (as @ [activity c i ''context_bound'' now]) (activities s)\<rparr>))))"

definition records_of :: "string \<Rightarrow> notebook_binding list \<Rightarrow> string list" where
  "records_of kind bs = sort (map bd_record_id (filter (\<lambda>b. bd_kind b = kind) bs))"

definition source_pair :: "notebook_binding \<Rightarrow> (string \<times> string) list" where
  "source_pair b = (case bd_version_id b of None \<Rightarrow> []
     | Some v \<Rightarrow> if bd_kind b = ''source'' then [(bd_record_id b, v)] else [])"

definition selected_of :: "string \<Rightarrow> notebook_binding list \<Rightarrow> nat \<Rightarrow> selected_context" where
  "selected_of i bs version = \<lparr>sc_notebook_id = i,
     sc_sources = sort_key fst (sort_key snd (concat (map source_pair bs))),
     sc_knowledge_context_ids = records_of ''knowledge_context'' bs,
     sc_conversation_thread_ids = (let rs = records_of ''conversation_thread'' bs in if rs = [] then [] else [last rs]),
     sc_studio_output_ids = records_of ''studio_output'' bs,
     sc_output_version_ids = records_of ''output_version'' bs,
     sc_generation_settings_ids = records_of ''generation_settings'' bs,
     sc_etag = etag_of ''notebook-binding'' version\<rparr>"

definition not_ended :: "(string \<times> string) list \<Rightarrow> notebook_binding \<Rightarrow> bool" where
  "not_ended ended b \<longleftrightarrow> (bd_record_id b, case bd_version_id b of None \<Rightarrow> [] | Some v \<Rightarrow> v) \<notin> set ended"

text \<open>The binding version that a context shows is the default of \<open>_selected_context\<close>.\<close>

definition repo_read_selected_context :: "notebook_context \<Rightarrow> string \<Rightarrow> bool \<Rightarrow> selected_context call" where
  "repo_read_selected_context c i by_run_or_job s =
    (let k = scope_of c i in
     if by_run_or_job then (Inl notebook_not_found, s)
     else if dict_get (notebooks s) k = None then (Inl notebook_not_found, s)
     else attempt (at_key (binding_terminations s) k) s (\<lambda>ended.
       attempt (at_key (bindings s) k) s (\<lambda>bs.
       (Inr (selected_of i (filter (not_ended ended) bs) 1), s))))"

definition repo_unbind_source :: "notebook_context \<Rightarrow> string \<Rightarrow> string \<Rightarrow> string \<Rightarrow> string \<Rightarrow> string \<Rightarrow> string \<Rightarrow> int
    \<Rightarrow> (binding_change_view \<times> bool) call" where
  "repo_unbind_source c i source version etag key fp now s =
    attempt (replayed (unbind_idempotency s) (request_key c key) fp) s (\<lambda>found. case found of
      Some v \<Rightarrow> (Inr (v, True), s)
    | None \<Rightarrow>
        let k = scope_of c i in
        if dict_get (notebooks s) k = None then (Inl notebook_not_found, s)
        else
          attempt (at_key (bindings s) k) s (\<lambda>bs.
          attempt (at_key (binding_terminations s) k) s (\<lambda>ended.
          if \<not> (list_ex (\<lambda>b. bd_kind b = ''source'' \<and> bd_record_id b = source \<and> bd_version_id b = Some version) bs
                \<and> (source, version) \<notin> set ended)
          then (Inl (NotebookError ''NOTEBOOK_BINDING_NOT_FOUND'' 404), s)
          else
            let current = 1 + length ended in
            if etag \<noteq> etag_of ''notebook-binding'' current
            then (Inl (NotebookError ''NOTEBOOK_BINDING_ETAG_MISMATCH'' 412), s)
            else
              let v = \<lparr>bc_notebook_id = i, bc_source_id = source, bc_source_version_id = version,
                       bc_status = ''unbound'', bc_etag = etag_of ''notebook-binding'' (current + 1)\<rparr>;
                  s1 = s\<lparr>binding_terminations := dict_set k (List.insert (source, version) ended) (binding_terminations s),
                         unbind_idempotency := dict_set (request_key c key) (fp, v) (unbind_idempotency s)\<rparr>
              in attempt (at_key (activities s) k) s1 (\<lambda>as. (Inr (v, False),
                s1\<lparr>activities := dict_set k (as @ [activity c i ''context_unbound'' now]) (activities s)\<rparr>)))))"

definition deletion_id :: "notebook_service \<Rightarrow> notebook_context \<Rightarrow> string \<Rightarrow> string \<Rightarrow> string" where
  "deletion_id cfg c i key = ''notebook-deletion-''
     @ take 32 (sha256 cfg (utf8 (join_with ''|'' [tenant_id c, workspace_id c, i, key])))"

definition repo_request_deletion :: "notebook_service \<Rightarrow> notebook_context \<Rightarrow> string \<Rightarrow> string \<Rightarrow> string \<Rightarrow> string \<Rightarrow> string \<Rightarrow> int
    \<Rightarrow> (deletion_view \<times> bool) call" where
  "repo_request_deletion cfg c i title etag key fp now s =
    attempt (replayed (deletion_idempotency s) (request_key c key) fp) s (\<lambda>found. case found of
      Some v \<Rightarrow> (Inr (v, True), s)
    | None \<Rightarrow>
        let k = scope_of c i in
        if dict_get (notebooks s) k = None then (Inl notebook_not_found, s)
        else
          attempt (latest s k) s (\<lambda>cur.
          if md_title cur \<noteq> title then (Inl (NotebookError ''NOTEBOOK_TITLE_CONFIRMATION_MISMATCH'' 409), s)
          else if etag \<noteq> etag_of ''notebook'' (md_version cur) then (Inl (NotebookError ''NOTEBOOK_ETAG_MISMATCH'' 412), s)
          else if (case dict_get (deletions s) k of None \<Rightarrow> False | Some (f, d) \<Rightarrow> dv_state d \<in> {''accepted'', ''deleting''})
          then (Inl (NotebookError ''NOTEBOOK_DELETION_IN_PROGRESS'' 409), s)
          else
            let v = \<lparr>dv_request_id = deletion_id cfg c i key, dv_notebook_id = i, dv_state = ''accepted'',
                     dv_current_step = ''accepted'', dv_attempts = 0, dv_safe_error_code = None, dv_requested_at = now,
                     dv_completed_at = None\<rparr>
            in (Inr (v, False), s\<lparr>deletions := dict_set k (fp, v) (deletions s),
              deletion_idempotency := dict_set (request_key c key) (fp, v) (deletion_idempotency s)\<rparr>)))"

definition repo_get_deletion :: "notebook_context \<Rightarrow> string \<Rightarrow> string \<Rightarrow> deletion_view call" where
  "repo_get_deletion c i request_id s =
    (if dict_get (notebooks s) (scope_of c i) = None then (Inl notebook_not_found, s)
     else case dict_get (deletions s) (scope_of c i) of
         None \<Rightarrow> (Inl (NotebookError ''NOTEBOOK_DELETION_NOT_FOUND'' 404), s)
       | Some (f, v) \<Rightarrow> if dv_request_id v \<noteq> request_id then (Inl (NotebookError ''NOTEBOOK_DELETION_NOT_FOUND'' 404), s)
           else (Inr v, s))"

section \<open>The service\<close>

definition check_create :: "notebook_service \<Rightarrow> notebook_context \<Rightarrow> unit call" where
  "check_create cfg c s = (case require_create cfg of None \<Rightarrow> (Inr (), s)
     | Some check \<Rightarrow> ((case check (create_checks s) c of None \<Rightarrow> Inr () | Some e \<Rightarrow> Inl (RaisedBy e)),
         s\<lparr>create_checks := Suc (create_checks s)\<rparr>))"

definition create_fingerprint :: "notebook_service \<Rightarrow> notebook_context \<Rightarrow> string \<Rightarrow> string option \<Rightarrow> string" where
  "create_fingerprint cfg c title description = request_fingerprint cfg
     [(''tenant_id'', JStr (tenant_id c)), (''workspace_id'', JStr (workspace_id c)), (''actor_id'', JStr (actor_id c)),
      (''title'', JStr title), (''description'', case description of None \<Rightarrow> JNull | Some d \<Rightarrow> JStr d)]"

definition create :: "notebook_service \<Rightarrow> notebook_context \<Rightarrow> json \<Rightarrow> json \<Rightarrow> json \<Rightarrow> (home_view \<times> bool) call" where
  "create cfg c title description key s =
    attempt (canonical_text cfg title ''TITLE'' 1 120) s (\<lambda>t.
    attempt (canonical_description cfg description) s (\<lambda>d.
    attempt (checked_key key) s (\<lambda>k.
    chain (check_create cfg c s) (\<lambda>_ s.
    chain (read_clock cfg s) (\<lambda>now.
    repo_create cfg c t d k (create_fingerprint cfg c t d) now)))))"

definition checked_notebook :: "json \<Rightarrow> notebook_error + string" where
  "checked_notebook v = (case v of JStr s \<Rightarrow> if safe_id s then Inr s else Inl notebook_not_found
     | _ \<Rightarrow> Inl notebook_not_found)"

definition get :: "notebook_service \<Rightarrow> notebook_context \<Rightarrow> json \<Rightarrow> home_view call" where
  "get cfg c i s = attempt (checked_notebook i) s (\<lambda>i. repo_get cfg c i s)"

definition update_title :: "notebook_service \<Rightarrow> notebook_context \<Rightarrow> json \<Rightarrow> json \<Rightarrow> json \<Rightarrow> json \<Rightarrow> (home_view \<times> bool) call" where
  "update_title cfg c i title etag key s =
    attempt (checked_notebook i) s (\<lambda>i.
    attempt (canonical_text cfg title ''TITLE'' 1 120) s (\<lambda>t.
    attempt (checked_etag ''notebook'' ''NOTEBOOK_ETAG_INVALID'' etag) s (\<lambda>e.
    attempt (checked_key key) s (\<lambda>k.
    chain (read_clock cfg s) (\<lambda>now.
    repo_update_title cfg c i t e k (request_fingerprint cfg
      [(''tenant_id'', JStr (tenant_id c)), (''workspace_id'', JStr (workspace_id c)), (''actor_id'', JStr (actor_id c)),
       (''notebook_id'', JStr i), (''title'', JStr t), (''expected_etag'', JStr e)]) now)))))"

definition request_deletion :: "notebook_service \<Rightarrow> notebook_context \<Rightarrow> json \<Rightarrow> json \<Rightarrow> json \<Rightarrow> json \<Rightarrow> (deletion_view \<times> bool) call" where
  "request_deletion cfg c i title etag key s =
    attempt (checked_binding i ''NOTEBOOK_ID'') s (\<lambda>i.
    attempt (canonical_text cfg title ''TITLE_CONFIRMATION'' 1 120) s (\<lambda>t.
    attempt (checked_etag ''notebook'' ''NOTEBOOK_ETAG_INVALID'' etag) s (\<lambda>e.
    attempt (checked_key key) s (\<lambda>k.
    chain (read_clock cfg s) (\<lambda>now.
    repo_request_deletion cfg c i t e k (request_fingerprint cfg
      [(''tenant_id'', JStr (tenant_id c)), (''workspace_id'', JStr (workspace_id c)), (''actor_id'', JStr (actor_id c)),
       (''notebook_id'', JStr i), (''title_confirmation'', JStr t), (''expected_etag'', JStr e)]) now)))))"

definition get_deletion :: "notebook_context \<Rightarrow> json \<Rightarrow> json \<Rightarrow> deletion_view call" where
  "get_deletion c i request_id s =
    attempt (checked_binding i ''NOTEBOOK_ID'') s (\<lambda>i.
    attempt (checked_binding request_id ''REQUEST_ID'') s (\<lambda>r. repo_get_deletion c i r s))"

definition bind_verified :: "notebook_service \<Rightarrow> notebook_context \<Rightarrow> json \<Rightarrow> json \<Rightarrow> json \<Rightarrow> json \<Rightarrow> bool call" where
  "bind_verified cfg c i kind record_id version_id s =
    attempt (checked_binding i ''NOTEBOOK_ID'') s (\<lambda>i.
    attempt (binding_values (kind, record_id, version_id)) s (\<lambda>target.
    chain (read_clock cfg s) (\<lambda>now. repo_bind_verified c i target now)))"

definition read_selected_context :: "notebook_context \<Rightarrow> json \<Rightarrow> json \<Rightarrow> json \<Rightarrow> selected_context call" where
  "read_selected_context c i run_id studio_job_id s =
    attempt (checked_binding i ''NOTEBOOK_ID'') s (\<lambda>i.
    if run_id \<noteq> JNull \<and> studio_job_id \<noteq> JNull then (Inl (notebook_error ''INVALID_REQUEST''), s)
    else if run_id \<noteq> JNull \<or> studio_job_id \<noteq> JNull
    then (case (if run_id \<noteq> JNull then run_id else studio_job_id) of
        JStr x \<Rightarrow> if safe_id x then repo_read_selected_context c i True s else (Inl (notebook_error ''INVALID_REQUEST''), s)
      | _ \<Rightarrow> (Inl (notebook_error ''INVALID_REQUEST''), s))
    else repo_read_selected_context c i False s)"

text \<open>The five operations on conversations, which this repository does not have.\<close>

definition conversation_call :: "json \<Rightarrow> unit call" where
  "conversation_call i s = attempt (checked_binding i ''NOTEBOOK_ID'') s (\<lambda>_.
     (Inl (NotebookError ''NOTEBOOK_CONVERSATION_UNAVAILABLE'' 503), s))"

definition unbind_source :: "notebook_service \<Rightarrow> notebook_context \<Rightarrow> json \<Rightarrow> json \<Rightarrow> json \<Rightarrow> json \<Rightarrow> json
    \<Rightarrow> (binding_change_view \<times> bool) call" where
  "unbind_source cfg c i source version etag key s =
    attempt (checked_binding i ''NOTEBOOK_ID'') s (\<lambda>i.
    attempt (checked_binding source ''RECORD_ID'') s (\<lambda>r.
    attempt (checked_binding version ''VERSION_ID'') s (\<lambda>v.
    attempt (checked_etag ''notebook-binding'' ''NOTEBOOK_BINDING_ETAG_INVALID'' etag) s (\<lambda>e.
    attempt (checked_key key) s (\<lambda>k.
    chain (read_clock cfg s) (\<lambda>now.
    repo_unbind_source c i r v e k (request_fingerprint cfg
      [(''tenant_id'', JStr (tenant_id c)), (''workspace_id'', JStr (workspace_id c)),
       (''notebook_id'', JStr i), (''source_id'', JStr r), (''source_version_id'', JStr v), (''expected_etag'', JStr e)]) now))))))"

definition available_bindings :: "selected_context \<Rightarrow> (string \<times> string \<times> string option) list" where
  "available_bindings v =
    map (\<lambda>(r, x). (''source'', r, Some x)) (sc_sources v)
    @ map (\<lambda>r. (''knowledge_context'', r, None)) (sc_knowledge_context_ids v)
    @ map (\<lambda>r. (''conversation_thread'', r, None)) (sc_conversation_thread_ids v)
    @ map (\<lambda>r. (''studio_output'', r, None)) (sc_studio_output_ids v)
    @ map (\<lambda>r. (''output_version'', r, None)) (sc_output_version_ids v)
    @ map (\<lambda>r. (''generation_settings'', r, None)) (sc_generation_settings_ids v)"

definition require_selected_bindings :: "notebook_context \<Rightarrow> json \<Rightarrow> (json \<times> json \<times> json) list \<Rightarrow> selected_context call" where
  "require_selected_bindings c i required s =
    attempt (checked_binding i ''NOTEBOOK_ID'') s (\<lambda>i.
    chain (repo_read_selected_context c i False s) (\<lambda>v s.
    attempt (all_binding_values required) s (\<lambda>expected.
    if set expected \<subseteq> set (available_bindings v) then (Inr v, s)
    else (Inl (NotebookError ''NOTEBOOK_SCOPE_MISMATCH'' 409), s))))"

end
