(* ===== verification/Notebook_Invariant.thy ===== *)
theory Notebook_Invariant
  imports Notebook
begin

text \<open>
  The invariant of the notebook repository. A notebook with all that is stored about it is one file;
  every operation leaves all files in place, lets histories and bindings only grow, and touches only
  files of its own tenant and workspace. The contracts for versions and for the ledgers are interpreted
  on the model. Reading operations leave the store as it is, so the steps are the writing ones. The
  steps assume that the identifier of a new notebook is not that of another one, that is, that the
  digests of two creations do not agree in their first 32 digits.
\<close>

section \<open>Files\<close>

record notebook_file =
  nf_notebook :: notebook
  nf_history :: "notebook_metadata list"
  nf_bindings :: "notebook_binding list"
  nf_ended :: "(string \<times> string) list"
  nf_activities :: "notebook_activity list"
  nf_deletion :: "deletion_view option"

definition file_of :: "notebook_store \<Rightarrow> scope \<Rightarrow> notebook_file option" where
  "file_of s k =
    (case (dict_get (notebooks s) k, dict_get (metadata s) k, dict_get (bindings s) k,
        dict_get (binding_terminations s) k, dict_get (activities s) k) of
       (Some n, Some ms, Some bs, Some es, Some as) \<Rightarrow> Some \<lparr>nf_notebook = n, nf_history = ms, nf_bindings = bs,
         nf_ended = es, nf_activities = as, nf_deletion = map_option snd (dict_get (deletions s) k)\<rparr>
     | _ \<Rightarrow> None)"

definition file_scope :: "notebook_file \<Rightarrow> scope" where
  "file_scope x = (nb_tenant_id (nf_notebook x), nb_workspace_id (nf_notebook x), nb_notebook_id (nf_notebook x))"

definition source_binding :: "string \<Rightarrow> string \<Rightarrow> notebook_binding \<Rightarrow> bool" where
  "source_binding r v b \<longleftrightarrow> bd_kind b = ''source'' \<and> bd_record_id b = r \<and> bd_version_id b = Some v"

definition file_ok :: "scope \<Rightarrow> notebook_file \<Rightarrow> bool" where
  "file_ok k x \<longleftrightarrow> file_scope x = k \<and> nf_history x \<noteq> []
    \<and> map md_version (nf_history x) = [1..<Suc (length (nf_history x))]
    \<and> distinct (nf_ended x) \<and> (\<forall>(r, v) \<in> set (nf_ended x). \<exists>b \<in> set (nf_bindings x). source_binding r v b)
    \<and> distinct (nf_bindings x)
    \<and> (\<forall>b \<in> set (nf_bindings x). (bd_tenant_id b, bd_workspace_id b, bd_notebook_id b) = k
        \<and> bd_kind b \<in> set binding_kinds \<and> (bd_kind b = ''source'') = (bd_version_id b \<noteq> None)
        \<and> bd_version_id b \<noteq> Some [])
    \<and> (\<forall>d. nf_deletion x = Some d \<longrightarrow> dv_state d = ''accepted'' \<and> dv_notebook_id d = snd (snd k))"

definition request_key_ok :: "request_key \<Rightarrow> bool" where
  "request_key_ok = (\<lambda>(t, w, a, key). list_all safe_id [t, w, a, key])"

text \<open>The notebook of a creation that the ledger has.\<close>

definition file_origin :: "notebook_service \<Rightarrow> notebook_store \<Rightarrow> notebook \<Rightarrow> bool" where
  "file_origin cfg s n \<longleftrightarrow> (\<exists>key. let q = (nb_tenant_id n, nb_workspace_id n, nb_created_by n, key) in
     request_key_ok q \<and> dict_get (idempotency s) q \<noteq> None \<and> nb_notebook_id n = new_notebook_id cfg q)"

definition notebook_inv :: "notebook_service \<Rightarrow> notebook_store \<Rightarrow> bool" where
  "notebook_inv cfg s \<longleftrightarrow> dict_ok (notebooks s)
    \<and> (\<forall>k. dict_get (notebooks s) k \<noteq> None \<longrightarrow> file_of s k \<noteq> None)
    \<and> (\<forall>k x. file_of s k = Some x \<longrightarrow> file_ok k x \<and> file_origin cfg s (nf_notebook x))
    \<and> (\<forall>t w a key f v. dict_get (unbind_idempotency s) (t, w, a, key) = Some (f, v) \<longrightarrow>
        (\<exists>x. file_of s (t, w, bc_notebook_id v) = Some x \<and> (bc_source_id v, bc_source_version_id v) \<in> set (nf_ended x)))
    \<and> (\<forall>k. dict_get (deletions s) k \<noteq> None \<longrightarrow> dict_get (notebooks s) k \<noteq> None)"

lemma file_of_Some:
  "file_of s k = Some x \<longleftrightarrow> dict_get (notebooks s) k = Some (nf_notebook x)
    \<and> dict_get (metadata s) k = Some (nf_history x) \<and> dict_get (bindings s) k = Some (nf_bindings x)
    \<and> dict_get (binding_terminations s) k = Some (nf_ended x) \<and> dict_get (activities s) k = Some (nf_activities x)
    \<and> nf_deletion x = map_option snd (dict_get (deletions s) k)"
  by (cases x) (auto simp: file_of_def split: option.splits)

lemma notebook_invD:
  assumes "notebook_inv cfg s"
  shows "dict_ok (notebooks s)"
    and "dict_get (notebooks s) k = Some n \<Longrightarrow> \<exists>x. file_of s k = Some x \<and> nf_notebook x = n"
    and "file_of s k = Some x \<Longrightarrow> file_ok k x"
    and "file_of s k = Some x \<Longrightarrow> file_origin cfg s (nf_notebook x)"
    and "dict_get (unbind_idempotency s) (tn, w, a, key) = Some (f, v) \<Longrightarrow>
      \<exists>y. file_of s (tn, w, bc_notebook_id v) = Some y \<and> (bc_source_id v, bc_source_version_id v) \<in> set (nf_ended y)"
    and "dict_get (notebooks s) k = None \<Longrightarrow> dict_get (deletions s) k = None"
proof -
  note parts = assms [unfolded notebook_inv_def]
  show "dict_ok (notebooks s)" using parts by (elim conjE)
  show "\<exists>x. file_of s k = Some x \<and> nf_notebook x = n" if n: "dict_get (notebooks s) k = Some n"
  proof -
    obtain x where "file_of s k = Some x" using parts n by blast
    moreover from this have "nf_notebook x = n" using n by (simp add: file_of_Some)
    ultimately show ?thesis by blast
  qed
  show "file_ok k x" and "file_origin cfg s (nf_notebook x)" if "file_of s k = Some x"
    using parts that by (elim conjE, blast)+
  show "\<exists>y. file_of s (tn, w, bc_notebook_id v) = Some y \<and> (bc_source_id v, bc_source_version_id v) \<in> set (nf_ended y)"
    if "dict_get (unbind_idempotency s) (tn, w, a, key) = Some (f, v)"
    using parts that by (elim conjE, blast)
  show "dict_get (notebooks s) k = None \<Longrightarrow> dict_get (deletions s) k = None"
    using parts by (elim conjE, metis)
qed

lemma file_of_None: "dict_get (notebooks s) k = None \<Longrightarrow> file_of s k = None"
  by (simp add: file_of_def)

lemma file_of_same:
  "notebooks t = notebooks s \<Longrightarrow> metadata t = metadata s \<Longrightarrow> bindings t = bindings s
    \<Longrightarrow> binding_terminations t = binding_terminations s \<Longrightarrow> activities t = activities s
    \<Longrightarrow> deletions t = deletions s \<Longrightarrow> file_of t = file_of s"
  by (rule ext) (simp only: file_of_def)

lemma file_okD:
  assumes "file_ok k x"
  shows "file_scope x = k" "nf_history x \<noteq> []" "md_version (last (nf_history x)) = length (nf_history x)"
    "distinct (nf_ended x)" "distinct (nf_bindings x)"
proof -
  have "md_version (last (nf_history x)) = last (map md_version (nf_history x))"
    by (rule last_map [symmetric]) (use assms in \<open>simp add: file_ok_def\<close>)
  also have "\<dots> = length (nf_history x)"
  proof -
    have "map md_version (nf_history x) = [1..<Suc (length (nf_history x))]" and "0 < length (nf_history x)"
      using assms by (simp_all only: file_ok_def length_greater_0_conv not_False_eq_True)
    then show ?thesis by simp
  qed
  finally show "md_version (last (nf_history x)) = length (nf_history x)" .
qed (use assms in \<open>simp_all add: file_ok_def\<close>)

lemma latest_file: "file_of s k = Some x \<Longrightarrow> file_ok k x \<Longrightarrow> latest s k = Inr (last (nf_history x))"
  by (simp add: latest_def at_key_def file_of_Some file_okD(2))

lemma at_key_file:
  assumes "file_of s k = Some x"
  shows "at_key (metadata s) k = Inr (nf_history x)" "at_key (bindings s) k = Inr (nf_bindings x)"
    "at_key (binding_terminations s) k = Inr (nf_ended x)" "at_key (activities s) k = Inr (nf_activities x)"
  using assms by (simp_all add: at_key_def file_of_Some)

section \<open>What a call can change\<close>

text \<open>Files and ledgers stay: the frame of every reading and of every refused or repeated call.\<close>

definition same_notebooks :: "notebook_store \<Rightarrow> notebook_store \<Rightarrow> bool" where
  "same_notebooks s t \<longleftrightarrow> t = s\<lparr>clock_reads := clock_reads t, create_checks := create_checks t\<rparr>"

lemma same_notebooks_refl [simp]: "same_notebooks s s"
  by (simp add: same_notebooks_def)

lemma same_notebooksD:
  assumes "same_notebooks s t"
  shows "file_of t = file_of s" "notebooks t = notebooks s" "metadata t = metadata s" "idempotency t = idempotency s"
    "unbind_idempotency t = unbind_idempotency s" "deletion_idempotency t = deletion_idempotency s"
    "bindings t = bindings s" "binding_terminations t = binding_terminations s" "activities t = activities s"
    "deletions t = deletions s" "binding_targets t = binding_targets s"
proof -
  have *: "t = s\<lparr>clock_reads := clock_reads t, create_checks := create_checks t\<rparr>"
    using assms by (simp add: same_notebooks_def)
  show eqs: "notebooks t = notebooks s" "metadata t = metadata s" "idempotency t = idempotency s"
    "unbind_idempotency t = unbind_idempotency s" "deletion_idempotency t = deletion_idempotency s"
    "bindings t = bindings s" "binding_terminations t = binding_terminations s" "activities t = activities s"
    "deletions t = deletions s" "binding_targets t = binding_targets s"
    using arg_cong [OF *, of notebooks] arg_cong [OF *, of metadata] arg_cong [OF *, of idempotency]
      arg_cong [OF *, of unbind_idempotency] arg_cong [OF *, of deletion_idempotency] arg_cong [OF *, of bindings]
      arg_cong [OF *, of binding_terminations] arg_cong [OF *, of activities] arg_cong [OF *, of deletions]
      arg_cong [OF *, of binding_targets] by simp_all
  show "file_of t = file_of s" by (rule file_of_same) (simp_all add: eqs)
qed

inductive notebook_change :: "notebook_service \<Rightarrow> notebook_context \<Rightarrow> notebook_store \<Rightarrow> notebook_store \<Rightarrow> bool"
  for cfg c s where
  unchanged: "same_notebooks s t \<Longrightarrow> notebook_change cfg c s t"
| created: "same_notebooks s s1 \<Longrightarrow> request_key_ok (request_key c key) \<Longrightarrow> i = new_notebook_id cfg (request_key c key)
    \<Longrightarrow> dict_get (idempotency s) (request_key c key) = None \<Longrightarrow> dict_get (notebooks s) (scope_of c i) = None
    \<Longrightarrow> n = \<lparr>nb_notebook_id = i, nb_tenant_id = tenant_id c, nb_workspace_id = workspace_id c,
             nb_created_by = actor_id c, nb_created_at = now\<rparr>
    \<Longrightarrow> md_version m = 1
    \<Longrightarrow> notebook_change cfg c s (s1\<lparr>notebooks := dict_set (scope_of c i) n (notebooks s1),
          metadata := dict_set (scope_of c i) [m] (metadata s1),
          bindings := dict_set (scope_of c i) [] (bindings s1),
          activities := dict_set (scope_of c i) [a] (activities s1),
          binding_terminations := dict_set (scope_of c i) [] (binding_terminations s1),
          idempotency := dict_set (request_key c key) (fp, v) (idempotency s1)\<rparr>)"
| retitled: "same_notebooks s s1 \<Longrightarrow> file_of s (scope_of c i) = Some x \<Longrightarrow> md_version m = Suc (length (nf_history x))
    \<Longrightarrow> dict_get (idempotency s) (request_key c key) = None
    \<Longrightarrow> notebook_change cfg c s (s1\<lparr>metadata := dict_set (scope_of c i) (nf_history x @ [m]) (metadata s1),
          idempotency := dict_set (request_key c key) (fp, v) (idempotency s1)\<rparr>)"
| bound: "same_notebooks s s1 \<Longrightarrow> file_of s (scope_of c i) = Some x \<Longrightarrow> b \<notin> set (nf_bindings x)
    \<Longrightarrow> (bd_tenant_id b, bd_workspace_id b, bd_notebook_id b) = scope_of c i \<Longrightarrow> bd_kind b \<in> set binding_kinds
    \<Longrightarrow> (bd_kind b = ''source'') = (bd_version_id b \<noteq> None) \<Longrightarrow> bd_version_id b \<noteq> Some []
    \<Longrightarrow> notebook_change cfg c s (s1\<lparr>bindings := dict_set (scope_of c i) (nf_bindings x @ [b]) (bindings s1),
          activities := dict_set (scope_of c i) (nf_activities x @ [a]) (activities s1)\<rparr>)"
| unbound: "same_notebooks s s1 \<Longrightarrow> file_of s (scope_of c i) = Some x
    \<Longrightarrow> list_ex (source_binding (bc_source_id v) (bc_source_version_id v)) (nf_bindings x)
    \<Longrightarrow> (bc_source_id v, bc_source_version_id v) \<notin> set (nf_ended x)
    \<Longrightarrow> bc_notebook_id v = i \<Longrightarrow> dict_get (unbind_idempotency s) (request_key c key) = None
    \<Longrightarrow> notebook_change cfg c s (s1\<lparr>
          binding_terminations := dict_set (scope_of c i)
            (List.insert (bc_source_id v, bc_source_version_id v) (nf_ended x)) (binding_terminations s1),
          unbind_idempotency := dict_set (request_key c key) (fp, v) (unbind_idempotency s1),
          activities := dict_set (scope_of c i) (nf_activities x @ [a]) (activities s1)\<rparr>)"
| deletion_requested: "same_notebooks s s1 \<Longrightarrow> file_of s (scope_of c i) = Some x \<Longrightarrow> nf_deletion x = None
    \<Longrightarrow> dv_state v = ''accepted'' \<Longrightarrow> dv_notebook_id v = i
    \<Longrightarrow> dict_get (deletion_idempotency s) (request_key c key) = None
    \<Longrightarrow> notebook_change cfg c s (s1\<lparr>deletions := dict_set (scope_of c i) (fp, v) (deletions s1),
          deletion_idempotency := dict_set (request_key c key) (fp, v) (deletion_idempotency s1)\<rparr>)"

text \<open>The identifier of a creation that is not a repetition is that of no notebook.\<close>

definition no_id_clash :: "notebook_service \<Rightarrow> notebook_context \<Rightarrow> string \<Rightarrow> notebook_store \<Rightarrow> bool" where
  "no_id_clash cfg c key s \<longleftrightarrow> (dict_get (idempotency s) (request_key c key) = None \<longrightarrow>
     dict_get (notebooks s) (scope_of c (new_notebook_id cfg (request_key c key))) = None)"

text \<open>How one file can change in a step, with the scope of the caller.\<close>

definition file_grows :: "notebook_file \<Rightarrow> notebook_file \<Rightarrow> bool" where
  "file_grows x y \<longleftrightarrow> nf_notebook y = nf_notebook x \<and> (\<exists>ms. nf_history y = nf_history x @ ms)
    \<and> (\<exists>bs. nf_bindings y = nf_bindings x @ bs) \<and> set (nf_ended x) \<subseteq> set (nf_ended y)
    \<and> (\<exists>as. nf_activities y = nf_activities x @ as) \<and> (nf_deletion x \<noteq> None \<longrightarrow> nf_deletion y = nf_deletion x)"

lemma file_grows_refl [simp]: "file_grows x x"
  by (simp add: file_grows_def)

lemma file_grows_trans: "file_grows x y \<Longrightarrow> file_grows y z \<Longrightarrow> file_grows x z"
  by (auto simp: file_grows_def)

definition notebook_scope :: "notebook_context \<Rightarrow> string \<times> string" where
  "notebook_scope c = (tenant_id c, workspace_id c)"

definition ledgers_kept :: "notebook_store \<Rightarrow> notebook_store \<Rightarrow> bool" where
  "ledgers_kept s t \<longleftrightarrow>
    (\<forall>q v. dict_get (idempotency s) q = Some v \<longrightarrow> dict_get (idempotency t) q = Some v)
    \<and> (\<forall>q v. dict_get (unbind_idempotency s) q = Some v \<longrightarrow> dict_get (unbind_idempotency t) q = Some v)
    \<and> (\<forall>q v. dict_get (deletion_idempotency s) q = Some v \<longrightarrow> dict_get (deletion_idempotency t) q = Some v)"

lemma ledgers_kept_refl [simp]: "ledgers_kept s s"
  by (simp add: ledgers_kept_def)

lemma ledgers_kept_trans: "ledgers_kept s t \<Longrightarrow> ledgers_kept t u \<Longrightarrow> ledgers_kept s u"
  by (simp add: ledgers_kept_def)

section \<open>The effect of each operation\<close>

lemma replayed_None: "replayed l q fp = Inr None \<longleftrightarrow> dict_get l q = None"
  by (auto simp: replayed_def split: option.splits)

lemma notebook_inv_same:
  assumes "same_notebooks s t"
  shows "notebook_inv cfg t = notebook_inv cfg s"
  by (simp add: notebook_inv_def file_origin_def same_notebooksD [OF assms])

lemma read_clock_same: "read_clock cfg s = (x, t) \<Longrightarrow> same_notebooks s t"
  by (auto simp: read_clock_def same_notebooks_def)

lemma check_create_same: "check_create cfg c s = (x, t) \<Longrightarrow> same_notebooks s t"
  by (auto simp: check_create_def same_notebooks_def split: option.splits)

lemma same_notebooks_trans:
  assumes "same_notebooks s t" and "same_notebooks t u"
  shows "same_notebooks s u"
proof -
  have "u = (s\<lparr>clock_reads := clock_reads t, create_checks := create_checks t\<rparr>)
      \<lparr>clock_reads := clock_reads u, create_checks := create_checks u\<rparr>"
    using assms unfolding same_notebooks_def by metis
  then show ?thesis unfolding same_notebooks_def by simp
qed

lemma request_key_ok: "notebook_context_ok c \<Longrightarrow> safe_id key \<Longrightarrow> request_key_ok (request_key c key)"
  by (simp add: request_key_ok_def request_key_def notebook_context_ok_def)

lemma repo_create_change:
  assumes "repo_create cfg c title d key fp now s1 = (x, t)" and "same_notebooks s s1"
    and "notebook_context_ok c" and "safe_id key" and "no_id_clash cfg c key s"
  shows "notebook_change cfg c s t"
proof (cases "replayed (idempotency s1) (request_key c key) fp")
  case (Inl e)
  with assms show ?thesis by (simp add: repo_create_def unchanged)
next
  case (Inr found)
  show ?thesis
  proof (cases found)
    case (Some v)
    with Inr assms show ?thesis by (simp add: repo_create_def unchanged)
  next
    case None
    with Inr have "dict_get (idempotency s) (request_key c key) = None"
      by (simp add: same_notebooksD [OF assms(2)] replayed_None)
    with None Inr assms show ?thesis
      by (auto simp: repo_create_def Let_def no_id_clash_def intro!: created request_key_ok)
  qed
qed

text \<open>The file behind a notebook that is there.\<close>

lemma file_here:
  assumes "notebook_inv cfg s" and "same_notebooks s s1" and "dict_get (notebooks s1) k = Some n"
  obtains x where "file_of s k = Some x" "nf_notebook x = n" "file_ok k x" "latest s1 k = Inr (last (nf_history x))"
    "at_key (metadata s1) k = Inr (nf_history x)" "at_key (bindings s1) k = Inr (nf_bindings x)"
    "at_key (binding_terminations s1) k = Inr (nf_ended x)" "at_key (activities s1) k = Inr (nf_activities x)"
    "nf_deletion x = map_option snd (dict_get (deletions s1) k)"
proof -
  note same = same_notebooksD [OF assms(2)]
  obtain x where x: "file_of s k = Some x" "nf_notebook x = n"
    using notebook_invD(2) [OF assms(1), of k n] assms(3) by (auto simp: same)
  have ok: "file_ok k x" using notebook_invD(3) [OF assms(1) x(1)] .
  have x1: "file_of s1 k = Some x" using x by (simp add: same)
  show ?thesis
    using that [OF x ok latest_file [OF x1 ok] at_key_file [OF x1]] x1 by (simp add: file_of_Some)
qed

lemma repo_update_title_change:
  assumes "repo_update_title cfg c i title e key fp now s1 = (x, t)" and "same_notebooks s s1" and "notebook_inv cfg s"
  shows "notebook_change cfg c s t"
proof (cases "replayed (idempotency s1) (request_key c key) fp")
  case (Inl e)
  with assms show ?thesis by (simp add: repo_update_title_def unchanged)
next
  case (Inr found)
  show ?thesis
  proof (cases "found = None \<and> dict_get (notebooks s1) (scope_of c i) \<noteq> None")
    case False
    with Inr assms show ?thesis by (cases found) (auto simp: repo_update_title_def unchanged split: option.splits)
  next
    case True
    then obtain n where n: "dict_get (notebooks s1) (scope_of c i) = Some n" by auto
    obtain y where y: "file_of s (scope_of c i) = Some y" "latest s1 (scope_of c i) = Inr (last (nf_history y))"
      "at_key (metadata s1) (scope_of c i) = Inr (nf_history y)" "file_ok (scope_of c i) y"
      using file_here [OF assms(3,2) n] by metis
    have key: "dict_get (idempotency s) (request_key c key) = None"
      using Inr True by (simp add: same_notebooksD [OF assms(2)] replayed_None)
    show ?thesis
    proof (cases "t = s1")
      case False
      with assms(1,2) Inr True n y(2,3) file_okD(3) [OF y(4)] show ?thesis
        by (auto simp: repo_update_title_def Let_def split: if_splits intro!: retitled [OF _ y(1) _ key])
    qed (simp add: unchanged assms(2))
  qed
qed

lemma repo_bind_verified_change:
  assumes "repo_bind_verified c i target now s1 = (x, t)" and "same_notebooks s s1" and "notebook_inv cfg s"
    and "binding_values v = Inr target"
  shows "notebook_change cfg c s t"
proof (cases "dict_get (notebooks s1) (scope_of c i) \<noteq> None \<and> target \<in> set (binding_targets s1)")
  case False
  with assms(1,2) show ?thesis by (cases target) (auto simp: repo_bind_verified_def Let_def unchanged split: if_splits)
next
  case True
  then obtain n where n: "dict_get (notebooks s1) (scope_of c i) = Some n" by auto
  obtain y where y: "file_of s (scope_of c i) = Some y" "at_key (bindings s1) (scope_of c i) = Inr (nf_bindings y)"
    "at_key (activities s1) (scope_of c i) = Inr (nf_activities y)"
    using file_here [OF assms(3,2) n] by metis
  obtain k r w where target: "target = (k, r, w)" by (cases target)
  have ok: "k \<in> set binding_kinds" "(k = ''source'') = (w \<noteq> None)" "w \<noteq> Some []"
    using assms(4) unfolding target
    by (auto simp: binding_values_def checked_binding_def safe_id_def safe_id_upto_def split: prod.splits json.splits if_splits
        elim!: and_then_InrD)
  let ?b = "\<lparr>bd_tenant_id = tenant_id c, bd_workspace_id = workspace_id c, bd_notebook_id = i, bd_kind = k,
    bd_record_id = r, bd_version_id = w\<rparr>"
  show ?thesis
  proof (cases "t = s1")
    case False
    with assms(1) True n y(2,3) have "?b \<notin> set (nf_bindings y)"
      and "t = s1\<lparr>bindings := dict_set (scope_of c i) (nf_bindings y @ [?b]) (bindings s1),
        activities := dict_set (scope_of c i) (nf_activities y @ [activity c i ''context_bound'' now]) (activities s1)\<rparr>"
      by (auto simp: repo_bind_verified_def target Let_def split: if_splits)
    then show ?thesis using bound [OF assms(2) y(1), of ?b cfg] ok by (simp add: scope_of_def)
  qed (simp add: unchanged assms(2))
qed

lemma repo_unbind_source_change:
  assumes "repo_unbind_source c i r v e key fp now s1 = (x, t)" and "same_notebooks s s1" and "notebook_inv cfg s"
  shows "notebook_change cfg c s t"
proof (cases "replayed (unbind_idempotency s1) (request_key c key) fp")
  case (Inl e)
  with assms show ?thesis by (simp add: repo_unbind_source_def unchanged)
next
  case (Inr found)
  show ?thesis
  proof (cases "found = None \<and> dict_get (notebooks s1) (scope_of c i) \<noteq> None")
    case False
    with Inr assms show ?thesis by (cases found) (auto simp: repo_unbind_source_def unchanged)
  next
    case True
    then obtain n where n: "dict_get (notebooks s1) (scope_of c i) = Some n" by auto
    obtain y where y: "file_of s (scope_of c i) = Some y" "at_key (bindings s1) (scope_of c i) = Inr (nf_bindings y)"
      "at_key (binding_terminations s1) (scope_of c i) = Inr (nf_ended y)"
      "at_key (activities s1) (scope_of c i) = Inr (nf_activities y)"
      using file_here [OF assms(3,2) n] by metis
    have key: "dict_get (unbind_idempotency s) (request_key c key) = None"
      using Inr True by (simp add: same_notebooksD [OF assms(2)] replayed_None)
    let ?v = "\<lparr>bc_notebook_id = i, bc_source_id = r, bc_source_version_id = v, bc_status = ''unbound'',
      bc_etag = etag_of ''notebook-binding'' (Suc (Suc (length (nf_ended y))))\<rparr>"
    have one: "list_ex (\<lambda>b. bd_kind b = ''source'' \<and> bd_record_id b = r \<and> bd_version_id b = Some v) (nf_bindings y)
        = list_ex (source_binding r v) (nf_bindings y)"
      by (simp add: source_binding_def cong: list_ex_cong)
    show ?thesis
    proof (cases "t = s1")
      case True
      then show ?thesis using assms(2) by (simp add: unchanged)
    next
      case False
      have "list_ex (source_binding r v) (nf_bindings y)" "(r, v) \<notin> set (nf_ended y)"
        and t: "t = s1\<lparr>binding_terminations := dict_set (scope_of c i) (List.insert (r, v) (nf_ended y)) (binding_terminations s1),
           unbind_idempotency := dict_set (request_key c key) (fp, ?v) (unbind_idempotency s1),
           activities := dict_set (scope_of c i) (nf_activities y @ [activity c i ''context_unbound'' now]) (activities s1)\<rparr>"
        using assms(1) Inr True n y(2-4) False
        by (auto simp: repo_unbind_source_def Let_def one split: if_splits)
      then show ?thesis
        using unbound [OF assms(2) y(1), of ?v key] key by simp
    qed
  qed
qed

lemma repo_request_deletion_change:
  assumes "repo_request_deletion cfg c i title e key fp now s1 = (x, t)" and "same_notebooks s s1" and "notebook_inv cfg s"
  shows "notebook_change cfg c s t"
proof (cases "replayed (deletion_idempotency s1) (request_key c key) fp")
  case (Inl e)
  with assms show ?thesis by (simp add: repo_request_deletion_def unchanged)
next
  case (Inr found)
  show ?thesis
  proof (cases "found = None \<and> dict_get (notebooks s1) (scope_of c i) \<noteq> None")
    case False
    with Inr assms show ?thesis by (cases found) (auto simp: repo_request_deletion_def unchanged)
  next
    case True
    then obtain n where n: "dict_get (notebooks s1) (scope_of c i) = Some n" by auto
    obtain y where y: "file_of s (scope_of c i) = Some y" "latest s1 (scope_of c i) = Inr (last (nf_history y))"
      "file_ok (scope_of c i) y" "nf_deletion y = map_option snd (dict_get (deletions s1) (scope_of c i))"
      using file_here [OF assms(3,2) n] by metis
    have key: "dict_get (deletion_idempotency s) (request_key c key) = None"
      using Inr True by (simp add: same_notebooksD [OF assms(2)] replayed_None)
    have acc: "dv_state d = ''accepted''" if "dict_get (deletions s1) (scope_of c i) = Some (f, d)" for f d
      using y(3,4) that by (simp add: file_ok_def)
    show ?thesis
    proof (cases "dict_get (deletions s1) (scope_of c i)")
      case None
      with y(4) have "nf_deletion y = None" by simp
      then show ?thesis
        using assms(1,2) Inr True n y(2) None
        by (cases "t = s1") (auto simp: unchanged, auto simp: repo_request_deletion_def Let_def split: if_splits
            intro!: deletion_requested [OF _ y(1) _ _ _ key])
    next
      case (Some fd)
      then have "t = s1"
        using assms(1) Inr True n y(2) acc by (cases fd) (auto simp: repo_request_deletion_def Let_def split: if_splits)
      then show ?thesis using assms(2) by (simp add: unchanged)
    qed
  qed
qed

section \<open>The frame and the invariant\<close>

lemma file_of_cong:
  assumes "dict_get (notebooks t) k = dict_get (notebooks s) k" "dict_get (metadata t) k = dict_get (metadata s) k"
    "dict_get (bindings t) k = dict_get (bindings s) k" "dict_get (activities t) k = dict_get (activities s) k"
    "dict_get (binding_terminations t) k = dict_get (binding_terminations s) k"
    "dict_get (deletions t) k = dict_get (deletions s) k"
  shows "file_of t k = file_of s k"
  by (simp only: file_of_def assms)

text \<open>
  What a change does to the files: nothing, a new file, or one file of the scope of the caller grows;
  the ledgers keep their entries.
\<close>

lemma notebook_change_cases:
  assumes "notebook_change cfg c s t" and "notebook_inv cfg s"
  obtains (kept) "file_of t = file_of s" "notebooks t = notebooks s" "deletions t = deletions s"
      "ledgers_kept s t" "unbind_idempotency t = unbind_idempotency s"
  | (new) i x where "file_of s (scope_of c i) = None" "file_of t = (file_of s)(scope_of c i \<mapsto> x)"
      "file_ok (scope_of c i) x" "notebooks t = dict_set (scope_of c i) (nf_notebook x) (notebooks s)"
      "deletions t = deletions s" "ledgers_kept s t" "unbind_idempotency t = unbind_idempotency s"
      "file_origin cfg t (nf_notebook x)"
  | (grown) i x y where "file_of s (scope_of c i) = Some x" "file_of t = (file_of s)(scope_of c i \<mapsto> y)"
      "file_ok (scope_of c i) y" "file_grows x y" "notebooks t = notebooks s" "ledgers_kept s t"
      "deletions t = deletions s \<or> (\<exists>v. deletions t = dict_set (scope_of c i) v (deletions s))"
      "unbind_idempotency t = unbind_idempotency s \<or> (\<exists>key fp v.
         unbind_idempotency t = dict_set (request_key c key) (fp, v) (unbind_idempotency s)
         \<and> bc_notebook_id v = i \<and> (bc_source_id v, bc_source_version_id v) \<in> set (nf_ended y))"
  using assms(1)
proof (cases rule: notebook_change.cases)
  case unchanged
  show ?thesis
    by (rule kept) (simp_all add: same_notebooksD [OF unchanged] ledgers_kept_def)
next
  case (created s1 key i n now m fp v a)
  note same = same_notebooksD [OF created(2)]
  define x where "x = \<lparr>nf_notebook = n, nf_history = [m], nf_bindings = [], nf_ended = [], nf_activities = [a], nf_deletion = None\<rparr>"
  have del: "dict_get (deletions s) (scope_of c i) = None"
    using notebook_invD(6) [OF assms(2) created(6)] .
  have t: "file_of t = (file_of s)(scope_of c i \<mapsto> x)"
  proof
    fix k show "file_of t k = ((file_of s)(scope_of c i \<mapsto> x)) k"
    proof (cases "k = scope_of c i")
      case True
      then show ?thesis using del by (simp add: file_of_Some created(1) x_def same)
    qed (auto intro!: file_of_cong simp: created(1) same)
  qed
  show ?thesis
  proof (rule new [OF file_of_None [OF created(6)] t])
    show "file_ok (scope_of c i) x"
      by (simp add: file_ok_def x_def file_scope_def scope_of_def created(7,8))
    show "notebooks t = dict_set (scope_of c i) (nf_notebook x) (notebooks s)" "deletions t = deletions s"
      "unbind_idempotency t = unbind_idempotency s"
      by (simp_all add: created(1) same x_def)
    show "ledgers_kept s t"
      using created(5) by (auto simp: ledgers_kept_def created(1) same)
    show "file_origin cfg t (nf_notebook x)"
      unfolding file_origin_def using created(3,4)
      by (intro exI [of _ key]) (simp add: x_def created(1,7) request_key_def)
  qed
next
  case (retitled s1 i x m key fp v)
  note same = same_notebooksD [OF retitled(2)] and x = retitled(3) [unfolded file_of_Some]
  have ok: "file_ok (scope_of c i) x" by (rule notebook_invD(3) [OF assms(2) retitled(3)])
  define y where "y = x\<lparr>nf_history := nf_history x @ [m]\<rparr>"
  have t: "file_of t = (file_of s)(scope_of c i \<mapsto> y)"
  proof
    fix k show "file_of t k = ((file_of s)(scope_of c i \<mapsto> y)) k"
    proof (cases "k = scope_of c i")
      case True
      then show ?thesis using x by (simp add: file_of_Some retitled(1) y_def same)
    qed (auto intro!: file_of_cong simp: retitled(1) same)
  qed
  have "map md_version (nf_history y) = [1..<Suc (length (nf_history y))]"
    using ok retitled(4) by (simp add: file_ok_def y_def)
  then have "file_ok (scope_of c i) y"
    using ok by (simp add: file_ok_def y_def file_scope_def)
  then show ?thesis
    using retitled(5) by (intro grown [OF retitled(3) t])
      (auto simp: y_def file_grows_def retitled(1) same ledgers_kept_def)
next
  case (bound s1 i x b a)
  note same = same_notebooksD [OF bound(2)] and x = bound(3) [unfolded file_of_Some]
  have ok: "file_ok (scope_of c i) x" by (rule notebook_invD(3) [OF assms(2) bound(3)])
  define y where "y = x\<lparr>nf_bindings := nf_bindings x @ [b], nf_activities := nf_activities x @ [a]\<rparr>"
  have t: "file_of t = (file_of s)(scope_of c i \<mapsto> y)"
  proof
    fix k show "file_of t k = ((file_of s)(scope_of c i \<mapsto> y)) k"
    proof (cases "k = scope_of c i")
      case True
      then show ?thesis using x by (simp add: file_of_Some bound(1) y_def same)
    qed (auto intro!: file_of_cong simp: bound(1) same)
  qed
  have "file_ok (scope_of c i) y"
    using ok bound(4-8) by (auto simp: file_ok_def y_def file_scope_def)
  then show ?thesis
    by (intro grown [OF bound(3) t]) (auto simp: y_def file_grows_def bound(1) same ledgers_kept_def)
next
  case (unbound s1 i x v key a fp)
  note same = same_notebooksD [OF unbound(2)] and x = unbound(3) [unfolded file_of_Some]
  have ok: "file_ok (scope_of c i) x" by (rule notebook_invD(3) [OF assms(2) unbound(3)])
  define y where "y = x\<lparr>nf_ended := List.insert (bc_source_id v, bc_source_version_id v) (nf_ended x),
    nf_activities := nf_activities x @ [a]\<rparr>"
  have t: "file_of t = (file_of s)(scope_of c i \<mapsto> y)"
  proof
    fix k show "file_of t k = ((file_of s)(scope_of c i \<mapsto> y)) k"
    proof (cases "k = scope_of c i")
      case True
      then show ?thesis using x by (simp add: file_of_Some unbound(1) y_def same)
    qed (auto intro!: file_of_cong simp: unbound(1) same)
  qed
  have "file_ok (scope_of c i) y"
    using ok unbound(4) by (auto simp: file_ok_def y_def file_scope_def list_ex_iff)
  moreover have "(bc_source_id v, bc_source_version_id v) \<in> set (nf_ended y)" by (simp add: y_def)
  ultimately show ?thesis
    using unbound(6,7) by (intro grown [OF unbound(3) t])
      (auto simp: y_def file_grows_def unbound(1) same ledgers_kept_def)
next
  case (deletion_requested s1 i x v key fp)
  note same = same_notebooksD [OF deletion_requested(2)] and x = deletion_requested(3) [unfolded file_of_Some]
  have ok: "file_ok (scope_of c i) x" by (rule notebook_invD(3) [OF assms(2) deletion_requested(3)])
  define y where "y = x\<lparr>nf_deletion := Some v\<rparr>"
  have t: "file_of t = (file_of s)(scope_of c i \<mapsto> y)"
  proof
    fix k show "file_of t k = ((file_of s)(scope_of c i \<mapsto> y)) k"
    proof (cases "k = scope_of c i")
      case True
      then show ?thesis using x by (simp add: file_of_Some deletion_requested(1) y_def same)
    qed (auto intro!: file_of_cong simp: deletion_requested(1) same)
  qed
  have "file_ok (scope_of c i) y"
    using ok deletion_requested(5,6) by (simp add: file_ok_def y_def file_scope_def scope_of_def)
  then show ?thesis
    using deletion_requested(4,7) by (intro grown [OF deletion_requested(3) t])
      (auto simp: y_def file_grows_def deletion_requested(1) same ledgers_kept_def)
qed

lemma scope_of_parts: "fst (scope_of c i) = tenant_id c" "fst (snd (scope_of c i)) = workspace_id c"
  "(fst (scope_of c i), fst (snd (scope_of c i))) = notebook_scope c"
  by (simp_all add: scope_of_def notebook_scope_def)

lemma change_ledgers: "notebook_change cfg c s t \<Longrightarrow> notebook_inv cfg s \<Longrightarrow> ledgers_kept s t"
  by (erule notebook_change_cases)

lemma change_files:
  assumes "notebook_change cfg c s t" and "notebook_inv cfg s" and "file_of s k = Some x"
  shows "\<exists>y. file_of t k = Some y \<and> file_grows x y \<and> ((fst k, fst (snd k)) \<noteq> notebook_scope c \<longrightarrow> y = x)"
  using assms(1,2)
proof (cases rule: notebook_change_cases)
  case kept
  then show ?thesis using assms(3) by simp
next
  case (new i y)
  then show ?thesis using assms(3) by (cases "k = scope_of c i") auto
next
  case (grown i y z)
  then show ?thesis
    using assms(3) by (cases "k = scope_of c i") (simp_all add: scope_of_parts notebook_scope_def)
qed

lemma file_origin_kept: "file_origin cfg s n \<Longrightarrow> ledgers_kept s t \<Longrightarrow> file_origin cfg t n"
  by (fastforce simp: file_origin_def ledgers_kept_def Let_def)

lemma change_inv:
  assumes change: "notebook_change cfg c s t" and inv: "notebook_inv cfg s"
  shows "notebook_inv cfg t"
proof -
  note led = change_ledgers [OF change inv]
  have old: "file_of s k = Some y \<Longrightarrow> file_ok k y \<and> file_origin cfg t (nf_notebook y)" for k y
    using notebook_invD(3,4) [OF inv] file_origin_kept led by blast
  have spent: "\<exists>y. file_of t (t', w, bc_notebook_id v) = Some y \<and> (bc_source_id v, bc_source_version_id v) \<in> set (nf_ended y)"
    if e: "dict_get (unbind_idempotency s) (t', w, a, key) = Some (f, v)" for t' w a key f v
  proof -
    obtain x where x: "file_of s (t', w, bc_notebook_id v) = Some x" "(bc_source_id v, bc_source_version_id v) \<in> set (nf_ended x)"
      using notebook_invD(5) [OF inv e] by blast
    then show ?thesis using change_files [OF change inv x(1)] by (auto simp: file_grows_def)
  qed
  show ?thesis
    using change inv
  proof (cases rule: notebook_change_cases)
    case kept
    then show ?thesis
      using inv file_origin_kept [OF notebook_invD(4) [OF inv] led] by (simp add: notebook_inv_def)
  next
    case (new i x)
    have "file_ok k y \<and> file_origin cfg t (nf_notebook y)" if "file_of t k = Some y" for k y
      using that new old [of k y] by (cases "k = scope_of c i") simp_all
    moreover have "file_of t k \<noteq> None" if "dict_get (notebooks t) k \<noteq> None" for k
      using that new notebook_invD(2) [OF inv, of k] by (cases "k = scope_of c i") auto
    moreover have "dict_get (notebooks t) k \<noteq> None" if "dict_get (deletions t) k \<noteq> None" for k
      using that new(4,5) notebook_invD(6) [OF inv, of k] by (cases "dict_get (notebooks s) k") auto
    moreover have "dict_ok (notebooks t)" using new notebook_invD(1) [OF inv] by simp
    ultimately show ?thesis using spent new by (simp add: notebook_inv_def)
  next
    case (grown i x y)
    have nb: "nf_notebook y = nf_notebook x" using grown(4) by (simp add: file_grows_def)
    have "file_ok k z \<and> file_origin cfg t (nf_notebook z)" if "file_of t k = Some z" for k z
      using that grown(2,3) old [of k z] nb file_origin_kept [OF notebook_invD(4) [OF inv grown(1)] led]
      by (cases "k = scope_of c i") simp_all
    moreover have "file_of t k \<noteq> None" if "dict_get (notebooks t) k \<noteq> None" for k
      using that grown(2,5) notebook_invD(2) [OF inv, of k] by (cases "k = scope_of c i") auto
    moreover have "dict_get (notebooks t) k \<noteq> None" if "dict_get (deletions t) k \<noteq> None" for k
      using that grown(1,5,7) notebook_invD(6) [OF inv, of k]
      by (cases "dict_get (notebooks s) k"; cases "k = scope_of c i") (auto simp: file_of_Some)
    moreover have "dict_ok (notebooks t)" using grown notebook_invD(1) [OF inv] by simp
    moreover have "\<exists>z. file_of t (t', w, bc_notebook_id v) = Some z \<and> (bc_source_id v, bc_source_version_id v) \<in> set (nf_ended z)"
      if e: "dict_get (unbind_idempotency t) (t', w, a, key) = Some (f, v)" for t' w a key f v
      using grown(8)
    proof (elim disjE exE conjE)
      assume "unbind_idempotency t = unbind_idempotency s"
      then show ?thesis using spent e by simp
    next
      fix key' fp v'
      assume v': "unbind_idempotency t = dict_set (request_key c key') (fp, v') (unbind_idempotency s)"
        "bc_notebook_id v' = i" "(bc_source_id v', bc_source_version_id v') \<in> set (nf_ended y)"
      show ?thesis
      proof (cases "(t', w, a, key) = request_key c key'")
        case True
        then show ?thesis using e v' grown(2) by (auto simp: request_key_def scope_of_def)
      next
        case False
        then show ?thesis using spent e v' by simp
      qed
    qed
    ultimately show ?thesis by (simp add: notebook_inv_def)
  qed
qed

section \<open>Steps\<close>

inductive notebook_step :: "notebook_service \<Rightarrow> string \<times> string \<Rightarrow> notebook_store \<Rightarrow> notebook_store \<Rightarrow> bool"
  for cfg where
  step_create: "notebook_context_ok c \<Longrightarrow> (\<And>k. key = JStr k \<Longrightarrow> no_id_clash cfg c k s)
    \<Longrightarrow> create cfg c title description key s = (x, t) \<Longrightarrow> notebook_step cfg (notebook_scope c) s t"
| step_update_title: "notebook_context_ok c \<Longrightarrow> update_title cfg c i title etag key s = (y, t)
    \<Longrightarrow> notebook_step cfg (notebook_scope c) s t"
| step_request_deletion: "notebook_context_ok c \<Longrightarrow> request_deletion cfg c i title etag key s = (z, t)
    \<Longrightarrow> notebook_step cfg (notebook_scope c) s t"
| step_bind_verified: "notebook_context_ok c \<Longrightarrow> bind_verified cfg c i kind r v s = (b, t)
    \<Longrightarrow> notebook_step cfg (notebook_scope c) s t"
| step_unbind_source: "notebook_context_ok c \<Longrightarrow> unbind_source cfg c i r v etag key s = (u, t)
    \<Longrightarrow> notebook_step cfg (notebook_scope c) s t"

text \<open>A refusal by a check, or what follows it.\<close>

lemma attempt_change:
  assumes "attempt r s k = (x, t)" and "\<And>a. r = Inr a \<Longrightarrow> k a = (x, t) \<Longrightarrow> notebook_change cfg c s t"
  shows "notebook_change cfg c s t"
  using assms by (cases r) (auto simp: unchanged)

lemma read_clock_chain: "chain (read_clock cfg s) k = k (clock cfg (clock_reads s)) (s\<lparr>clock_reads := Suc (clock_reads s)\<rparr>)"
  by (simp add: read_clock_def)

lemma clock_same [simp]: "same_notebooks s (s\<lparr>clock_reads := n\<rparr>)"
  by (simp add: same_notebooks_def)

lemma checked_key_safe: "checked_key v = Inr k \<Longrightarrow> v = JStr k \<and> safe_id k"
  by (auto simp: checked_key_def split: json.splits if_splits)

lemma notebook_step_change:
  assumes "notebook_step cfg l s t" and "notebook_inv cfg s"
  obtains c where "l = notebook_scope c" "notebook_change cfg c s t"
  using assms(1)
proof cases
  case (step_create c key title description x)
  have "notebook_change cfg c s t"
    using step_create(4) unfolding create_def
  proof (elim attempt_change)
    fix a b k
    assume key: "checked_key key = Inr k"
      and call: "chain (check_create cfg c s) (\<lambda>_ s. chain (read_clock cfg s) (\<lambda>now.
        repo_create cfg c a b k (create_fingerprint cfg c a b) now)) = (x, t)"
    show "notebook_change cfg c s t"
      using call
    proof (cases rule: chain_cases)
      case (raised e)
      then show ?thesis by (blast intro: unchanged check_create_same)
    next
      case (went_on u s1)
      have "same_notebooks s (s1\<lparr>clock_reads := Suc (clock_reads s1)\<rparr>)"
        by (rule same_notebooks_trans [OF check_create_same [OF went_on(1)] clock_same])
      then show ?thesis
        using repo_create_change [OF went_on(2) [unfolded read_clock_chain]] step_create(2,3) checked_key_safe [OF key] by blast
    qed
  qed
  then show ?thesis using step_create(1) that by blast
next
  case (step_update_title c i title etag key y)
  have "notebook_change cfg c s t"
    using step_update_title(3) unfolding update_title_def read_clock_chain
    by (elim attempt_change) (erule repo_update_title_change [OF _ clock_same assms(2)])
  then show ?thesis using step_update_title(1) that by blast
next
  case (step_request_deletion c i title etag key z)
  have "notebook_change cfg c s t"
    using step_request_deletion(3) unfolding request_deletion_def read_clock_chain
    by (elim attempt_change) (erule repo_request_deletion_change [OF _ clock_same assms(2)])
  then show ?thesis using step_request_deletion(1) that by blast
next
  case (step_bind_verified c i kind r v b)
  have "notebook_change cfg c s t"
    using step_bind_verified(3) unfolding bind_verified_def read_clock_chain
    by (elim attempt_change) (erule (1) repo_bind_verified_change [OF _ clock_same assms(2)])
  then show ?thesis using step_bind_verified(1) that by blast
next
  case (step_unbind_source c i r v etag key u)
  have "notebook_change cfg c s t"
    using step_unbind_source(3) unfolding unbind_source_def read_clock_chain
    by (elim attempt_change) (erule repo_unbind_source_change [OF _ clock_same assms(2)])
  then show ?thesis using step_unbind_source(1) that by blast
qed

section \<open>The contracts\<close>

definition notebook_start :: "notebook_store \<Rightarrow> bool" where
  "notebook_start s \<longleftrightarrow> (\<exists>targets. s = empty_notebooks targets)"

interpretation notebook: versioned_service notebook_start "notebook_step cfg" "notebook_inv cfg" file_of
  "\<lambda>x. (nb_tenant_id (nf_notebook x), nb_workspace_id (nf_notebook x))" "\<lambda>x. int (length (nf_history x))" for cfg
proof unfold_locales
  fix s t l i x y
  show "notebook_start s \<Longrightarrow> notebook_inv cfg s"
    by (auto simp: notebook_start_def notebook_inv_def empty_notebooks_def file_of_def)
  assume inv: "notebook_inv cfg s" and "notebook_step cfg l s t"
  then obtain c where c: "l = notebook_scope c" "notebook_change cfg c s t" by (elim notebook_step_change)
  show "notebook_inv cfg t" by (rule change_inv [OF c(2) inv])
  assume x: "file_of s i = Some x"
  have scope: "(nb_tenant_id (nf_notebook x), nb_workspace_id (nf_notebook x)) = (fst i, fst (snd i))"
    using file_okD(1) [OF notebook_invD(3) [OF inv x]] by (auto simp: file_scope_def)
  obtain z where z: "file_of t i = Some z" "file_grows x z" "(fst i, fst (snd i)) \<noteq> notebook_scope c \<longrightarrow> z = x"
    using change_files [OF c(2) inv x] by blast
  show "(nb_tenant_id (nf_notebook x), nb_workspace_id (nf_notebook x)) \<noteq> l \<Longrightarrow> file_of t i = Some x"
    using z(1,3) scope c(1) by simp
  show "\<exists>y. file_of t i = Some y \<and> (nb_tenant_id (nf_notebook y), nb_workspace_id (nf_notebook y))
      = (nb_tenant_id (nf_notebook x), nb_workspace_id (nf_notebook x))"
    using z(1,2) by (auto simp: file_grows_def)
  show "file_of t i = Some y \<Longrightarrow> int (length (nf_history x)) \<le> int (length (nf_history y))"
    using z(1,2) by (auto simp: file_grows_def)
qed

interpretation notebook_ledger: replay_ledger "replayed :: (request_key, string \<times> 'v) dict \<Rightarrow> _"
  "\<lambda>l q f v. dict_set q (f, v) l" key_reused
  by unfold_locales (simp_all add: replayed_def)

text \<open>Along a run a file stays and grows, and the ledgers keep their entries.\<close>

lemma runs_files:
  assumes "runs (notebook_step cfg) s ls t" and "notebook_inv cfg s"
  shows "ledgers_kept s t \<and> (\<forall>k x. file_of s k = Some x \<longrightarrow> (\<exists>y. file_of t k = Some y \<and> file_grows x y))"
  using assms
proof (induction rule: runs.induct)
  case (runs_none s)
  then show ?case by simp
next
  case (runs_more l s t ls u)
  obtain c where c: "notebook_change cfg c s t" using runs_more(1,4) by (elim notebook_step_change)
  have inv: "notebook_inv cfg t" by (rule change_inv [OF c runs_more(4)])
  have "\<exists>y. file_of u k = Some y \<and> file_grows x y" if "file_of s k = Some x" for k x
    using change_files [OF c runs_more(4) that] runs_more(3) [OF inv] file_grows_trans by blast
  then show ?case
    using runs_more(3) [OF inv] change_ledgers [OF c runs_more(4)] ledgers_kept_trans by blast
qed

end
