(* ===== verification/Notebook_Properties.thy ===== *)
theory Notebook_Properties
  imports Notebook_Invariant
begin

text \<open>
  The properties of the notebooks: a title is changed once per version, what a context offers is what
  is bound and not unbound, an unbound source never comes back, and, with the version that a read
  context shows, only the first source of a notebook can be unbound.
\<close>

section \<open>Successful calls\<close>

lemma attempt_Inr: "attempt r s k = (Inr b, t) \<longleftrightarrow> (\<exists>a. r = Inr a \<and> k a = (Inr b, t))"
  by (cases r) auto

lemma checked_bindingD: "checked_binding v field = Inr x \<Longrightarrow> v = JStr x \<and> safe_id x"
  by (auto simp: checked_binding_def split: json.splits if_splits)

lemma checked_etagD: "checked_etag kind code v = Inr x \<Longrightarrow> v = JStr x"
  by (auto simp: checked_etag_def split: json.splits if_splits)

lemma checked_notebookD: "checked_notebook v = Inr x \<Longrightarrow> v = JStr x \<and> safe_id x"
  by (auto simp: checked_notebook_def split: json.splits if_splits)

lemma etag_of_inject [simp]: "etag_of kind m = etag_of kind n \<longleftrightarrow> m = n"
  by (simp add: etag_of_def dec_nat_inject)

text \<open>A title that is changed: the etag is that of the last version, and the view is that of the new one.\<close>

lemma repo_update_titleD:
  assumes "repo_update_title cfg c i title e key fp now s1 = (Inr (v, False), t)" and "same_notebooks s s1"
    and "notebook_inv cfg s"
  obtains x m where "file_of s (scope_of c i) = Some x" "e = etag_of ''notebook'' (length (nf_history x))"
    "file_of t (scope_of c i) = Some (x\<lparr>nf_history := nf_history x @ [m]\<rparr>)" "v = view_of cfg (nf_notebook x) m"
    "md_version m = Suc (length (nf_history x))" "md_title m = title"
proof -
  have fresh: "replayed (idempotency s1) (request_key c key) fp = Inr None"
    using assms(1) by (auto simp: repo_update_title_def attempt_Inr split: option.splits)
  have "dict_get (notebooks s1) (scope_of c i) \<noteq> None"
    using assms(1) fresh by (cases "dict_get (notebooks s1) (scope_of c i)") (simp_all add: repo_update_title_def Let_def)
  then obtain n where n: "dict_get (notebooks s1) (scope_of c i) = Some n" by auto
  obtain x where x: "file_of s (scope_of c i) = Some x" "nf_notebook x = n" "file_ok (scope_of c i) x"
    "latest s1 (scope_of c i) = Inr (last (nf_history x))" "at_key (metadata s1) (scope_of c i) = Inr (nf_history x)"
    using file_here [OF assms(3,2) n] by metis
  define m where "m = \<lparr>md_version = Suc (length (nf_history x)), md_title = title,
    md_description = md_description (last (nf_history x)), md_updated_at = now, md_updated_by = actor_id c\<rparr>"
  have e: "e = etag_of ''notebook'' (length (nf_history x))"
    and v: "v = view_of cfg n m"
    and t: "t = s1\<lparr>metadata := dict_set (scope_of c i) (nf_history x @ [m]) (metadata s1),
      idempotency := dict_set (request_key c key) (fp, v) (idempotency s1)\<rparr>"
    using assms(1) fresh n x(4,5) file_okD(3) [OF x(3)]
    by (auto simp: repo_update_title_def Let_def m_def split: if_splits)
  have "file_of t (scope_of c i) = Some (x\<lparr>nf_history := nf_history x @ [m]\<rparr>)"
    using x(1) by (simp add: file_of_Some t same_notebooksD [OF assms(2)])
  then show ?thesis using that x(1,2) e v by (simp add: m_def)
qed

lemma update_titleD:
  assumes "update_title cfg c (JStr i) title etag key s = (Inr (v, False), t)" and "notebook_inv cfg s"
  obtains x m where "file_of s (scope_of c i) = Some x" "etag = JStr (etag_of ''notebook'' (length (nf_history x)))"
    "file_of t (scope_of c i) = Some (x\<lparr>nf_history := nf_history x @ [m]\<rparr>)" "v = view_of cfg (nf_notebook x) m"
    "md_version m = Suc (length (nf_history x))" "safe_id i" "canonical_text cfg title ''TITLE'' 1 120 = Inr (md_title m)"
proof -
  obtain i' tt e k fp where etag: "checked_etag ''notebook'' ''NOTEBOOK_ETAG_INVALID'' etag = Inr e"
    and i: "checked_notebook (JStr i) = Inr i'" and tt: "canonical_text cfg title ''TITLE'' 1 120 = Inr tt"
    and call: "repo_update_title cfg c i' tt e k fp (clock cfg (clock_reads s))
      (s\<lparr>clock_reads := Suc (clock_reads s)\<rparr>) = (Inr (v, False), t)"
    using assms(1) unfolding update_title_def read_clock_chain attempt_Inr by (elim exE conjE) rule
  have "i' = i" and safe: "safe_id i" using checked_notebookD [OF i] by simp_all
  with call show ?thesis
    by (elim repo_update_titleD [OF _ clock_same assms(2)]) (rule that, auto simp: checked_etagD [OF etag] tt [unfolded One_nat_def])
qed

lemma step_title:
  "notebook_context_ok c \<Longrightarrow> update_title cfg c i title etag key s = (x, t) \<Longrightarrow> notebook_inv cfg s \<Longrightarrow> notebook_inv cfg t"
  using notebook.inv_step notebook_step.step_update_title by blast

lemma scope_of_same:
  "tenant_id c' = tenant_id c \<Longrightarrow> workspace_id c' = workspace_id c \<Longrightarrow> scope_of c' i = scope_of c i"
  by (simp add: scope_of_def)

text \<open>An unbinding that is answered, now or again, is in the ledger.\<close>

lemma unbind_answered:
  assumes "unbind_source cfg c i r v etag key s = (Inr (x, again), t)"
  shows "\<exists>k f. dict_get (unbind_idempotency t) (request_key c k) = Some (f, x)"
proof -
  obtain i' r' v' e k fp now s1 where call: "repo_unbind_source c i' r' v' e k fp now s1 = (Inr (x, again), t)"
    using assms by (auto simp: unbind_source_def read_clock_chain attempt_Inr)
  show ?thesis
  proof (cases "replayed (unbind_idempotency s1) (request_key c k) fp")
    case (Inl e)
    then show ?thesis using call by (simp add: repo_unbind_source_def)
  next
    case (Inr found)
    show ?thesis
    proof (cases found)
      case (Some y)
      then have "x = y" "t = s1" using call Inr by (simp_all add: repo_unbind_source_def)
      moreover from this have "dict_get (unbind_idempotency s1) (request_key c k) = Some (fp, y)"
        using Inr Some by (auto simp: replayed_def split: option.splits if_splits)
      ultimately show ?thesis by blast
    next
      case None
      then show ?thesis
        using call Inr by - (rule exI [of _ k], rule exI [of _ fp], auto simp: repo_unbind_source_def Let_def attempt_Inr split: if_splits)
    qed
  qed
qed

lemma unbound_ended:
  assumes "unbind_source cfg c i r v etag key s = (Inr (x, again), t)" and "notebook_inv cfg s"
    and "notebook_context_ok c" and "runs (notebook_step cfg) t ls u"
  obtains y where "notebook_inv cfg u" "file_of u (scope_of c (bc_notebook_id x)) = Some y"
    "(bc_source_id x, bc_source_version_id x) \<in> set (nf_ended y)"
proof -
  have inv: "notebook_inv cfg t" "notebook_inv cfg u"
    using notebook.inv_step [OF assms(2) step_unbind_source [OF assms(3,1)]] notebook.runs_inv [OF assms(4)] by blast+
  obtain k f where "dict_get (unbind_idempotency t) (request_key c k) = Some (f, x)"
    using unbind_answered [OF assms(1)] by blast
  then obtain z where "file_of t (scope_of c (bc_notebook_id x)) = Some z"
    "(bc_source_id x, bc_source_version_id x) \<in> set (nf_ended z)"
    using notebook_invD(5) [OF inv(1)] by (fastforce simp: request_key_def scope_of_def)
  then show ?thesis
    using that inv(2) runs_files [OF assms(4) inv(1)] by (fastforce simp: file_grows_def)
qed

section \<open>Contexts\<close>

lemma repo_read_file:
  assumes "file_of s (scope_of c i) = Some x"
  shows "repo_read_selected_context c i False s = (Inr (selected_of i (filter (not_ended (nf_ended x)) (nf_bindings x)) 1), s)"
  using assms at_key_file [OF assms] by (simp add: repo_read_selected_context_def file_of_Some)

lemma read_selected_file:
  assumes "read_selected_context c (JStr i) run job s = (Inr sel, t)" and "file_of s (scope_of c i) = Some x"
  shows "sel = selected_of i (filter (not_ended (nf_ended x)) (nf_bindings x)) 1"
  using assms(1) repo_read_file [OF assms(2)]
  by (auto simp: read_selected_context_def attempt_Inr repo_read_selected_context_def [of _ _ True]
      dest!: checked_bindingD split: if_splits json.splits)

lemma set_source_pair: "(r, w) \<in> set (source_pair b) \<longleftrightarrow> source_binding r w b"
  by (cases "bd_version_id b") (auto simp: source_pair_def source_binding_def)

lemma set_sources: "(r, w) \<in> set (sc_sources (selected_of i bs n)) \<longleftrightarrow> (\<exists>b \<in> set bs. source_binding r w b)"
  by (simp add: selected_of_def set_source_pair)

lemma set_records: "r \<in> set (records_of kind bs) \<longleftrightarrow> (\<exists>b \<in> set bs. bd_kind b = kind \<and> bd_record_id b = r)"
  by (auto simp: records_of_def)

lemma last_records:
  "records_of kind bs \<noteq> [] \<and> r = last (records_of kind bs) \<longleftrightarrow>
    r \<in> set (records_of kind bs) \<and> (\<forall>y \<in> set (records_of kind bs). y \<le> r)"
proof -
  have "sorted (records_of kind bs)" by (simp add: records_of_def)
  then show ?thesis
    by (cases "records_of kind bs" rule: rev_cases) (auto simp: sorted_append intro: antisym)
qed

text \<open>A binding that is there and not ended.\<close>

definition active_binding :: "notebook_store \<Rightarrow> scope \<Rightarrow> string \<times> string \<times> string option \<Rightarrow> bool" where
  "active_binding s k = (\<lambda>(kind, r, v). case file_of s k of None \<Rightarrow> False | Some x \<Rightarrow>
     list_ex (\<lambda>b. bd_kind b = kind \<and> bd_record_id b = r \<and> bd_version_id b = v) (nf_bindings x)
     \<and> (case v of None \<Rightarrow> True | Some w \<Rightarrow> (r, w) \<notin> set (nf_ended x)))"

lemma not_ended_iff:
  assumes "file_ok k x" and "b \<in> set (nf_bindings x)"
  shows "not_ended (nf_ended x) b \<longleftrightarrow>
    (case bd_version_id b of None \<Rightarrow> True | Some w \<Rightarrow> (bd_record_id b, w) \<notin> set (nf_ended x))"
proof (cases "bd_version_id b")
  case None
  have "(bd_record_id b, []) \<notin> set (nf_ended x)"
    using assms(1) by (fastforce simp: file_ok_def source_binding_def)
  then show ?thesis by (simp add: not_ended_def None)
qed (simp add: not_ended_def)

lemma available_iff:
  assumes "file_of s k = Some x" and "file_ok k x" and "kind \<in> set binding_kinds" and "(kind = ''source'') = (v \<noteq> None)"
  shows "(kind, r, v) \<in> set (available_bindings (selected_of i (filter (not_ended (nf_ended x)) (nf_bindings x)) n)) \<longleftrightarrow>
    active_binding s k (kind, r, v)
    \<and> (kind = ''conversation_thread'' \<longrightarrow> (\<forall>q. active_binding s k (kind, q, None) \<longrightarrow> q \<le> r))"
proof -
  let ?bs = "filter (not_ended (nf_ended x)) (nf_bindings x)"
  have none: "bd_version_id b = None" if "b \<in> set (nf_bindings x)" "bd_kind b \<noteq> ''source''" for b
    using assms(2) that by (auto simp: file_ok_def)
  have rec: "q \<in> set (records_of kind ?bs) \<longleftrightarrow> active_binding s k (kind, q, None)" if "kind \<noteq> ''source''" for q
    using that none not_ended_iff [OF assms(2)] by (fastforce simp: set_records active_binding_def assms(1) list_ex_iff)
  have src: "(q, w) \<in> set (sc_sources (selected_of i ?bs n)) \<longleftrightarrow> active_binding s k (''source'', q, Some w)" for q w
    using not_ended_iff [OF assms(2)]
    by (fastforce simp: set_sources source_binding_def active_binding_def assms(1) list_ex_iff)
  show ?thesis
  proof (cases "kind = ''source''")
    case True
    then obtain w where "v = Some w" using assms(4) by auto
    then show ?thesis using True src by (auto simp: available_bindings_def)
  next
    case False
    then have v: "v = None" using assms(4) by simp
    show ?thesis
    proof (cases "kind = ''conversation_thread''")
      case True
      have "(kind, r, v) \<in> set (available_bindings (selected_of i ?bs n)) \<longleftrightarrow>
          records_of kind ?bs \<noteq> [] \<and> r = last (records_of kind ?bs)"
        using True v by (auto simp: available_bindings_def selected_of_def Let_def)
      then show ?thesis using last_records [of kind ?bs r] rec [OF False] True v by auto
    next
      case thread: False
      have "(kind, r, v) \<in> set (available_bindings (selected_of i ?bs n)) \<longleftrightarrow> r \<in> set (records_of kind ?bs)"
      proof -
        have "kind = ''knowledge_context'' \<or> kind = ''studio_output'' \<or> kind = ''output_version''
            \<or> kind = ''generation_settings''"
          using assms(3) False thread by (simp add: binding_kinds_def)
        then show ?thesis
          by (elim disjE) (simp_all add: available_bindings_def selected_of_def image_iff v split_beta)
      qed
      then show ?thesis using rec [OF False] thread v by auto
    qed
  qed
qed

lemma binding_values_ok: "binding_values x = Inr (k, r, v) \<Longrightarrow> k \<in> set binding_kinds \<and> (k = ''source'') = (v \<noteq> None)"
  by (auto simp: binding_values_def split: prod.splits json.splits if_splits elim!: and_then_InrD)

lemma all_binding_values_ok:
  "all_binding_values xs = Inr ys \<Longrightarrow> (k, r, v) \<in> set ys \<Longrightarrow> k \<in> set binding_kinds \<and> (k = ''source'') = (v \<noteq> None)"
proof (induction xs arbitrary: ys)
  case (Cons x xs)
  then obtain y zs where "binding_values x = Inr y" "all_binding_values xs = Inr zs" "ys = y # zs"
    by (auto elim!: and_then_InrD)
  then show ?case using Cons binding_values_ok [of x k r v] by fastforce
qed simp

lemma reachable_file:
  assumes "reachable notebook_start (notebook_step cfg) s" and "dict_get (notebooks s) k \<noteq> None"
  obtains x where "file_of s k = Some x" "file_ok k x"
  using notebook_invD(2,3) [OF notebook.reachable_inv [OF assms(1)]] assms(2) by blast

section \<open>The properties\<close>

text \<open>
  C26: a title changes once per version. After a change of a title that was accepted for an etag, the
  notebook has the new title under another etag, and in every later state a change for the old etag by
  anybody of the workspace is refused or the answer to a repetition.
\<close>

theorem stale_titles_refused:
  assumes "reachable notebook_start (notebook_step cfg) s" and "notebook_context_ok c"
    and "update_title cfg c (JStr i) title (JStr e) key s = (Inr (v, False), t)"
    and "runs (notebook_step cfg) t ls u" and "tenant_id c' = tenant_id c" and "workspace_id c' = workspace_id c"
  shows "canonical_text cfg title ''TITLE'' 1 120 = Inr (hv_title v) \<and> get cfg c (JStr i) t = (Inr v, t) \<and> hv_etag v \<noteq> e
    \<and> fst (update_title cfg c' (JStr i) title' (JStr e) key' u) \<noteq> Inr (w, False)"
proof -
  have inv: "notebook_inv cfg s" by (rule notebook.reachable_inv [OF assms(1)])
  then have inv': "notebook_inv cfg t" "notebook_inv cfg u"
    using step_title [OF assms(2,3)] notebook.runs_inv [OF assms(4)] by blast+
  obtain x m where e: "e = etag_of ''notebook'' (length (nf_history x))"
    and t: "file_of t (scope_of c i) = Some (x\<lparr>nf_history := nf_history x @ [m]\<rparr>)"
    and v: "v = view_of cfg (nf_notebook x) m" "md_version m = Suc (length (nf_history x))" and i: "safe_id i"
    and tt: "canonical_text cfg title ''TITLE'' 1 120 = Inr (md_title m)"
    by (rule update_titleD [OF assms(3) inv]) auto
  have "get cfg c (JStr i) t = (Inr v, t)"
    using i t latest_file [OF t notebook_invD(3) [OF inv'(1) t]] v(1)
    by (simp add: get_def checked_notebook_def repo_get_def file_of_Some)
  moreover have "canonical_text cfg title ''TITLE'' 1 120 = Inr (hv_title v)" by (simp add: tt [unfolded One_nat_def] v view_of_def)
  moreover have "hv_etag v \<noteq> e" by (simp add: v e view_of_def)
  moreover have "fst (update_title cfg c' (JStr i) title' (JStr e) key' u) \<noteq> Inr (w, False)"
  proof
    assume "fst (update_title cfg c' (JStr i) title' (JStr e) key' u) = Inr (w, False)"
    then obtain t' where "update_title cfg c' (JStr i) title' (JStr e) key' u = (Inr (w, False), t')"
      by (metis prod.collapse)
    then obtain z where z: "file_of u (scope_of c i) = Some z" "e = etag_of ''notebook'' (length (nf_history z))"
      using update_titleD [OF _ inv'(2)] scope_of_same [OF assms(5,6)] by (metis json.inject(3))
    obtain ms where "nf_history z = nf_history x @ [m] @ ms"
      using runs_files [OF assms(4) inv'(1)] t z(1) by (fastforce simp: file_grows_def)
    with z(2) e show False by simp
  qed
  ultimately show ?thesis by blast
qed

text \<open>
  C28: what a context offers. Bindings that are required are granted exactly where each of them is
  bound to the notebook and not unbound; of the conversations only the one with the greatest
  identifier counts.
\<close>

theorem required_bindings_iff_bound:
  assumes "reachable notebook_start (notebook_step cfg) s" and "safe_id i"
    and "dict_get (notebooks s) (scope_of c i) = Some n" and "all_binding_values required = Inr expected"
  shows "(\<exists>v. require_selected_bindings c (JStr i) required s = (Inr v, s)) \<longleftrightarrow>
    (\<forall>(kind, r, v) \<in> set expected. active_binding s (scope_of c i) (kind, r, v)
      \<and> (kind = ''conversation_thread'' \<longrightarrow>
          (\<forall>q. active_binding s (scope_of c i) (kind, q, None) \<longrightarrow> q \<le> r)))"
proof -
  obtain x where x: "file_of s (scope_of c i) = Some x" "file_ok (scope_of c i) x"
    by (rule reachable_file [OF assms(1), of "scope_of c i"]) (use assms(3) in simp)
  let ?sel = "selected_of i (filter (not_ended (nf_ended x)) (nf_bindings x)) 1"
  have "(\<exists>v. require_selected_bindings c (JStr i) required s = (Inr v, s)) \<longleftrightarrow>
      set expected \<subseteq> set (available_bindings ?sel)"
    using assms(2,4) by (simp add: require_selected_bindings_def checked_binding_def repo_read_file [OF x(1)])
  also have "\<dots> \<longleftrightarrow> (\<forall>(kind, r, v) \<in> set expected. (kind, r, v) \<in> set (available_bindings ?sel))"
    by auto
  also have "\<dots> \<longleftrightarrow> (\<forall>(kind, r, v) \<in> set expected. active_binding s (scope_of c i) (kind, r, v)
      \<and> (kind = ''conversation_thread'' \<longrightarrow>
          (\<forall>q. active_binding s (scope_of c i) (kind, q, None) \<longrightarrow> q \<le> r)))"
  proof (intro ball_cong refl)
    fix b assume b: "b \<in> set expected"
    obtain kind r v where krv: "b = (kind, r, v)" by (cases b)
    show "(case b of (kind, r, v) \<Rightarrow> (kind, r, v) \<in> set (available_bindings ?sel)) =
      (case b of (kind, r, v) \<Rightarrow> active_binding s (scope_of c i) (kind, r, v)
        \<and> (kind = ''conversation_thread'' \<longrightarrow>
          (\<forall>q. active_binding s (scope_of c i) (kind, q, None) \<longrightarrow> q \<le> r)))"
      using available_iff [OF x, of kind v r i 1] all_binding_values_ok [OF assms(4), of kind r v] b by (simp add: krv)
  qed
  finally show ?thesis .
qed

text \<open>What is known where a source has been unbound: its binding is there, and ended.\<close>

lemma ended_read:
  assumes "read_selected_context c (JStr i) run job s = (Inr sel, t)" and "file_of s (scope_of c i) = Some x"
    and "(r, v) \<in> set (nf_ended x)"
  shows "(r, v) \<notin> set (sc_sources sel)"
  using assms(3) by (auto simp: read_selected_file [OF assms(1,2)] set_sources source_binding_def not_ended_def)

lemma ended_required:
  assumes "require_selected_bindings c (JStr i) ((JStr ''source'', JStr r, JStr v) # required) s = (Inr sel, t)"
    and "file_of s (scope_of c i) = Some x" and "file_ok (scope_of c i) x"
  shows "(r, v) \<notin> set (nf_ended x)"
proof -
  let ?sel = "selected_of i (filter (not_ended (nf_ended x)) (nf_bindings x)) 1"
  obtain ys where "binding_values (JStr ''source'', JStr r, JStr v) = Inr ys" "ys \<in> set (available_bindings ?sel)"
    using assms(1)
    by (auto simp: require_selected_bindings_def attempt_Inr repo_read_file [OF assms(2)] split: if_splits
        elim!: and_then_InrD dest!: checked_bindingD)
  then have "(''source'', r, Some v) \<in> set (available_bindings ?sel)"
    by (auto simp: binding_values_def binding_kinds_def elim!: and_then_InrD dest!: checked_bindingD)
  then have "active_binding s (scope_of c i) (''source'', r, Some v)"
    using available_iff [OF assms(2,3), of "''source''" "Some v"] by (simp add: binding_kinds_def)
  then show ?thesis by (simp add: active_binding_def assms(2))
qed

lemma ended_bind:
  assumes "bind_verified cfg c (JStr i) (JStr ''source'') (JStr r) (JStr v) s = (y, t)"
    and "file_of s (scope_of c i) = Some x" and "file_ok (scope_of c i) x" and "(r, v) \<in> set (nf_ended x)"
  shows "y \<noteq> Inr False \<and> file_of t = file_of s"
proof -
  let ?b = "\<lparr>bd_tenant_id = tenant_id c, bd_workspace_id = workspace_id c, bd_notebook_id = i, bd_kind = ''source'',
    bd_record_id = r, bd_version_id = Some v\<rparr>"
  let ?s = "s\<lparr>clock_reads := Suc (clock_reads s)\<rparr>"
  obtain b where b: "b \<in> set (nf_bindings x)" "source_binding r v b"
    using assms(3,4) by (auto simp: file_ok_def)
  moreover have "b = ?b"
    using assms(3) b by (cases b) (auto simp: file_ok_def source_binding_def scope_of_def)
  ultimately have there: "?b \<in> set (nf_bindings x)" by simp
  have same: "file_of ?s = file_of s" by (rule file_of_same) simp_all
  have repo: "repo_bind_verified c i (''source'', r, Some v) now ?s = (y, t) \<Longrightarrow> y \<noteq> Inr False \<and> t = ?s" for now
    using there assms(2) by (auto simp: repo_bind_verified_def file_of_Some at_key_def Let_def split: if_splits)
  show ?thesis
  proof (cases "checked_binding (JStr i) ''NOTEBOOK_ID''")
    case (Inl e)
    then show ?thesis using assms(1) by (auto simp: bind_verified_def)
  next
    case (Inr i')
    then have i: "i' = i" using checked_bindingD by blast
    show ?thesis
    proof (cases "binding_values (JStr ''source'', JStr r, JStr v)")
      case (Inl e)
      then show ?thesis using assms(1) \<open>checked_binding (JStr i) ''NOTEBOOK_ID'' = Inr i'\<close> by (auto simp: bind_verified_def)
    next
      case target: (Inr z)
      then have z: "z = (''source'', r, Some v)"
        by (auto simp: binding_values_def binding_kinds_def elim!: and_then_InrD dest!: checked_bindingD)
      show ?thesis
        using assms(1) repo [of "clock cfg (clock_reads s)"] same
        by (auto simp: bind_verified_def Inr target i z read_clock_chain)
    qed
  qed
qed

text \<open>
  C27: unbound sources stay out. After an unbinding that was answered, now or as a repetition, no
  context of the notebook shows the source in any later state and none that requires it is granted.
  Binding it again writes nothing: it is refused, or answered as if it were still bound.
\<close>

theorem unbound_sources_stay_out:
  assumes "reachable notebook_start (notebook_step cfg) s" and "notebook_context_ok c"
    and "unbind_source cfg c i r v e key s = (Inr (x, again), t)"
    and "runs (notebook_step cfg) t ls u" and "tenant_id c' = tenant_id c" and "workspace_id c' = workspace_id c"
    and "bind_verified cfg c' (JStr (bc_notebook_id x)) (JStr ''source'') (JStr (bc_source_id x))
      (JStr (bc_source_version_id x)) u = (y, w)"
  shows "(read_selected_context c' (JStr (bc_notebook_id x)) run job u = (Inr sel, u') \<longrightarrow>
      (bc_source_id x, bc_source_version_id x) \<notin> set (sc_sources sel))
    \<and> require_selected_bindings c' (JStr (bc_notebook_id x))
        ((JStr ''source'', JStr (bc_source_id x), JStr (bc_source_version_id x)) # required) u \<noteq> (Inr sel', u'')
    \<and> y \<noteq> Inr False \<and> file_of w = file_of u"
proof -
  obtain z where inv: "notebook_inv cfg u" and z: "file_of u (scope_of c' (bc_notebook_id x)) = Some z"
    "(bc_source_id x, bc_source_version_id x) \<in> set (nf_ended z)"
    using unbound_ended [OF assms(3) notebook.reachable_inv [OF assms(1)] assms(2,4)] scope_of_same [OF assms(5,6)]
    by metis
  have ok: "file_ok (scope_of c' (bc_notebook_id x)) z" by (rule notebook_invD(3) [OF inv z(1)])
  show ?thesis
    using ended_read [OF _ z] ended_required [OF _ z(1) ok] ended_bind [OF assms(7) z(1) ok z(2)] z(2) by blast
qed

text \<open>
  The version that a context shows is always the first, while an unbinding wants the number of
  unbindings before it: once a source has been unbound, no other can be unbound with the etag that a
  reader sees.
\<close>

theorem shown_version_unbinds_once:
  assumes "reachable notebook_start (notebook_step cfg) s" and "notebook_context_ok c"
    and "unbind_source cfg c (JStr i) r v e key s = (Inr (x, again), t)" and "bc_notebook_id x = i"
    and "runs (notebook_step cfg) t ls u" and "tenant_id c' = tenant_id c" and "workspace_id c' = workspace_id c"
    and "read_selected_context c' (JStr i) run job u = (Inr sel, u')"
  shows "unbind_source cfg c' (JStr i) r' v' (JStr (sc_etag sel)) key' u \<noteq> (Inr (y, False), w)"
proof
  assume "unbind_source cfg c' (JStr i) r' v' (JStr (sc_etag sel)) key' u = (Inr (y, False), w)"
  then obtain i' rr vv e k fp where args: "checked_binding (JStr i) ''NOTEBOOK_ID'' = Inr i'"
      "checked_etag ''notebook-binding'' ''NOTEBOOK_BINDING_ETAG_INVALID'' (JStr (sc_etag sel)) = Inr e"
    and call: "repo_unbind_source c' i' rr vv e k fp (clock cfg (clock_reads u)) (u\<lparr>clock_reads := Suc (clock_reads u)\<rparr>)
      = (Inr (y, False), w)"
    unfolding unbind_source_def read_clock_chain attempt_Inr by (elim exE conjE) rule
  have ie: "i' = i" "e = sc_etag sel" using checked_bindingD [OF args(1)] checked_etagD [OF args(2)] by simp_all
  obtain z where inv: "notebook_inv cfg u" and z: "file_of u (scope_of c' i) = Some z"
    "(bc_source_id x, bc_source_version_id x) \<in> set (nf_ended z)"
    using unbound_ended [OF assms(3) notebook.reachable_inv [OF assms(1)] assms(2,5)] scope_of_same [OF assms(6,7)]
      assms(4) by metis
  have "e = etag_of ''notebook-binding'' 1"
    using read_selected_file [OF assms(8) z(1)] ie by (simp add: selected_of_def)
  moreover have "e = etag_of ''notebook-binding'' (Suc (length (nf_ended z)))"
    using call z(1)
    by (auto simp: ie repo_unbind_source_def file_of_Some at_key_def Let_def attempt_Inr split: option.splits if_splits)
  ultimately show False using z(2) by auto
qed

section \<open>A notebook\<close>

text \<open>A notebook is made, a source is bound to it, its title changes and the source is unbound.\<close>

definition demo_notebooks :: notebook_service where
  "demo_notebooks = \<lparr>clock = int, iso_text = (\<lambda>_. ''now''), sha256 = (\<lambda>_. ''0''), nfkc = (\<lambda>s. s),
     require_create = None\<rparr>"

definition demo_author :: notebook_context where
  "demo_author = \<lparr>tenant_id = ''t'', workspace_id = ''w'', actor_id = ''a'', trace_id = ''r'', policy_version = ''p''\<rparr>"

abbreviation demo_book :: json where "demo_book \<equiv> JStr ''notebook-0''"

definition made :: notebook_store where
  "made = snd (create demo_notebooks demo_author (JStr ''A'') JNull (JStr ''key-0000'')
     (empty_notebooks [(''source'', ''s'', Some ''v'')]))"

definition with_source :: notebook_store where
  "with_source = snd (bind_verified demo_notebooks demo_author demo_book (JStr ''source'') (JStr ''s'') (JStr ''v'') made)"

definition retitled :: notebook_store where
  "retitled = snd (update_title demo_notebooks demo_author demo_book (JStr ''B'') (JStr (etag_of ''notebook'' 1))
     (JStr ''key-0001'') with_source)"

definition without_source :: notebook_store where
  "without_source = snd (unbind_source demo_notebooks demo_author demo_book (JStr ''s'') (JStr ''v'')
     (JStr (etag_of ''notebook-binding'' 1)) (JStr ''key-0002'') with_source)"

definition demo_view :: home_view where
  "demo_view = \<lparr>hv_notebook_id = ''notebook-0'', hv_title = ''B'', hv_source_count = 0, hv_output_count = 0,
     hv_updated_at = ''now'', hv_status = ''empty'', hv_etag = etag_of ''notebook'' 2\<rparr>"

definition demo_unbound :: binding_change_view where
  "demo_unbound = \<lparr>bc_notebook_id = ''notebook-0'', bc_source_id = ''s'', bc_source_version_id = ''v'',
     bc_status = ''unbound'', bc_etag = etag_of ''notebook-binding'' 2\<rparr>"

lemma demo_author_ok: "notebook_context_ok demo_author"
  by code_simp

lemma with_source_reachable: "reachable notebook_start (notebook_step demo_notebooks) with_source"
proof -
  have "notebook_step demo_notebooks (notebook_scope demo_author) (empty_notebooks [(''source'', ''s'', Some ''v'')]) made"
    unfolding made_def by (rule step_create [OF demo_author_ok _ prod.collapse [symmetric]])
      (simp add: no_id_clash_def empty_notebooks_def)
  moreover have "notebook_step demo_notebooks (notebook_scope demo_author) made with_source"
    unfolding with_source_def by (rule step_bind_verified [OF demo_author_ok]) (rule prod.collapse [symmetric])
  ultimately show ?thesis
    by (meson reachable_start reachable_step notebook_start_def)
qed

lemma demo_retitles:
  "update_title demo_notebooks demo_author demo_book (JStr ''B'') (JStr (etag_of ''notebook'' 1)) (JStr ''key-0001'') with_source
    = (Inr (demo_view, False), retitled)"
proof -
  have "fst (update_title demo_notebooks demo_author demo_book (JStr ''B'') (JStr (etag_of ''notebook'' 1)) (JStr ''key-0001'')
      with_source) = Inr (demo_view, False)"
    by code_simp
  then show ?thesis by (simp add: retitled_def prod_eq_iff)
qed

lemma demo_unbinds:
  "unbind_source demo_notebooks demo_author demo_book (JStr ''s'') (JStr ''v'') (JStr (etag_of ''notebook-binding'' 1))
    (JStr ''key-0002'') with_source = (Inr (demo_unbound, False), without_source)"
proof -
  have "fst (unbind_source demo_notebooks demo_author demo_book (JStr ''s'') (JStr ''v'') (JStr (etag_of ''notebook-binding'' 1))
      (JStr ''key-0002'') with_source) = Inr (demo_unbound, False)"
    by code_simp
  then show ?thesis by (simp add: without_source_def prod_eq_iff)
qed

lemma stale_titles_refused_witness:
  "fst (update_title demo_notebooks demo_author demo_book (JStr ''C'') (JStr (etag_of ''notebook'' 1)) (JStr ''key-0003'') retitled)
    \<noteq> Inr (demo_view, False) \<and> get demo_notebooks demo_author demo_book retitled = (Inr demo_view, retitled)"
  using stale_titles_refused [OF with_source_reachable demo_author_ok demo_retitles runs_none refl refl] by blast

lemma demo_bound: "dict_get (notebooks with_source) (scope_of demo_author ''notebook-0'') =
  Some \<lparr>nb_notebook_id = ''notebook-0'', nb_tenant_id = ''t'', nb_workspace_id = ''w'', nb_created_by = ''a'', nb_created_at = 0\<rparr>"
  by code_simp

lemma demo_required: "all_binding_values [(JStr ''source'', JStr ''s'', JStr ''v'')] = Inr [(''source'', ''s'', Some ''v'')]"
  by code_simp

lemma required_bindings_iff_bound_witness:
  "\<exists>v. require_selected_bindings demo_author demo_book [(JStr ''source'', JStr ''s'', JStr ''v'')] with_source = (Inr v, with_source)"
proof -
  have "safe_id ''notebook-0''" by code_simp
  moreover have "active_binding with_source (scope_of demo_author ''notebook-0'') (''source'', ''s'', Some ''v'')" by code_simp
  ultimately show ?thesis
    using required_bindings_iff_bound [OF with_source_reachable _ demo_bound demo_required] by simp
qed

lemma unbound_sources_stay_out_witness:
  "fst (bind_verified demo_notebooks demo_author demo_book (JStr ''source'') (JStr ''s'') (JStr ''v'') without_source) \<noteq> Inr False
    \<and> require_selected_bindings demo_author demo_book [(JStr ''source'', JStr ''s'', JStr ''v'')] without_source
      \<noteq> (Inr (selected_of ''notebook-0'' [] 1), without_source)"
  using unbound_sources_stay_out [OF with_source_reachable demo_author_ok demo_unbinds runs_none refl refl prod.collapse [symmetric]]
  by (simp add: demo_unbound_def)

end
