(* ===== verification/Spec2Isabelle.thy ===== *)
theory Spec2Isabelle
  imports Prelude Json Contracts Retention_Properties Recovery_Properties Sync_Properties
    Egress_Properties License_Properties Authorization_Properties Object_Queue_Drain
    Security_Audit_Properties Identity_Properties Notebook_Properties
begin

text \<open>
  Verification library of the domain services of the Daon user API
  (\<open>services/api/src/daon_user_api\<close>). The API is an HTTP runtime (\<open>runtime.py\<close>) over domain services
  that keep the state of one concern each, behind a lock, in an in-memory reference repository, in
  SQLite tables or in a PostgreSQL adapter that mirrors them. The library models the services that
  decide about the fate of user data: what is deleted (\<open>retention.py\<close>), what can be restored
  (\<open>recovery.py\<close>), what leaves for the cloud (\<open>sync.py\<close>) and for models outside
  (\<open>egress_policy.py\<close>, \<open>routing.py\<close>), what a licence allows (\<open>license.py\<close>), who may do what
  (\<open>authorization.py\<close>), who has a session and what it may still do (\<open>identity.py\<close>), what belongs to a notebook (\<open>notebook.py\<close>), how stored objects are queued and promoted (\<open>object_queue.py\<close>), and what
  the security audit trail records and proves (\<open>audit.py\<close>). The services share a style, not a state: every call carries a
  context (tenant, workspace, actor, trace, policy version), checks it against the addressed
  object, answers repetitions from an idempotency ledger, compares an expected version, writes and
  records an audit event.

  \<^bold>\<open>Layout\<close>
  \<^item> \<open>Prelude\<close>: outcomes (a result or an error, and the state left behind), Python dictionaries as
    association lists in insertion order, the identifier syntax, decimal and hexadecimal text.
  \<^item> \<open>Json\<close>, \<open>Json_Roundtrip\<close>: the JSON text and the \<open>repr\<close> of dataclasses that the request
    fingerprints digest, and that this text determines the document up to the order of members.
  \<^item> \<open>Contracts\<close>: the contracts as locales: a service with an invariant, isolation of scopes,
    optimistic versions, the idempotency ledger, the hash-chained audit trail; runs and reachable
    states of a labelled step relation, where the label is the scope on whose behalf a call runs.
  \<^item> \<open>Retention\<close>, \<open>Recovery\<close>, \<open>Sync\<close>, \<open>Egress\<close>, \<open>License\<close>, \<open>Authorization\<close>,
    \<open>Object_Queue\<close>, \<open>Security_Audit\<close>, \<open>Identity\<close> with \<open>Identity_Sessions\<close>, \<open>Notebook\<close>: the models.
    Dataclasses are records with the source's field names (with a prefix where two records share a
    name), states and kinds are datatypes, each method is a function of the same name (a clash
    with another name is avoided by a suffix or a longer name) from the state to an outcome, with
    the guards in the source's order. A raise is an \<open>Inl\<close> and the state it leaves is part of the
    outcome, because some methods write before they raise. Parts of a method that loop or that a
    property speaks about (\<open>cleanup_pass\<close>, \<open>run_purge\<close>, \<open>run_restore\<close>, \<open>transfer_payloads\<close>,
    \<open>settle\<close>, \<open>sift_dependencies\<close>, \<open>change_policy\<close>) are definitions of their own. A SQL table is a
    dictionary by its primary key, and a transaction that raises leaves the tables as they were.
  \<^item> \<open><Service>_Invariant\<close> (and \<open>Authorization_Steps\<close>, \<open>Identity_Steps\<close>, \<open>Identity_Runs\<close>): what each method can leave behind (an effect
    lemma per method), the step relation (any method, any arguments, any context), the invariant
    with its preservation, and the interpretations of the contracts.
  \<^item> \<open><Service>_Properties\<close> (and \<open>Authorization_Demo\<close>, \<open>Identity_Demo\<close>,
    \<open>Object_Queue_Worker\<close>, \<open>Object_Queue_Drain\<close>): the properties, with scenarios on which their witnesses run.

  \<^bold>\<open>Parameters\<close>. The service records carry what is outside the source: the clock, the source of random
  tokens, SHA-256, the text of a timestamp, and what the ports answer; for authorization also the
  injected identity service and whether the injected audit store accepts a draft; for the object queue
  whether the database refuses a transaction and what the object store answers; for the audit trail the address and URL parsers of the standard library;
  for identity also HMAC-SHA-256, the hashing and verification of passwords by Argon2, whether a mail is delivered and the audit store answers,
  whether the deadline of a dispatch has passed, and the answer of the provider to a login; for notebooks Unicode normalization and the check before a creation. The audit store of the identity service is the modelled one,
  and the tables of authorization lie beside its own, as in the code.
  The state holds how
  many clock readings, tokens and answers were used, so that the models are functions. Reachable
  states assume only that tokens do not repeat (of the identity service nothing: a clash of digests is a refused insert; of notebooks that the identifiers of two creations differ); the tamper evidence of the trail assumes that the
  digest has no collision on the two trails compared. Timestamps are integers (microseconds of the
  epoch). Strings are sequences of code points below 256; Python integers are \<open>int\<close>, and where
  they are bound to a column of 64 bits the overflow is an error of its own.

  \<^bold>\<open>What the properties show\<close>
  \<^item> Retention: only a purge cleans up, behind all its guards, and purged requests are grounded; holds
    block, foreign scopes cannot touch a request, creations are idempotent, accepted versions go
    stale, the trail is chained; and how the code deals with purges of
    cancelled requests, holds on cancelled requests and the actor of audit events.
  \<^item> Recovery: only an execution with step-up touches the restore port, and it hands over exactly the objects of the manifest that retention permits now, to a
    destination outside the tenant; the lives of a restore request; failed, cancelled and completed
    requests are final; the receipt of a selection is exact and does not depend on order.
  \<^item> Sync: operations stay well formed, batches copy the approved items whose cloud version did not
    move and report the others as conflicts, recorded batches are idempotent; what an aborted batch, a resolution without approval and
    a shared transfer port leave behind.
  \<^item> Egress: the effective policy lets out exactly what organization and workspace both let out, a
    question leaves only under both current policies, a locked parent denies, activations go stale,
    routing takes the first eligible candidate.
  \<^item> Licence: an accepted licence rests on a valid signature of its canonical claims and is sound for
    its organization and period; licences are append-only; the guards and the projection agree.
  \<^item> Authorization: an action is granted exactly where the tables permit it, by the precedence of
    organization lock, organization, workspace and role; nobody escalates, tenants are isolated,
    access to old results follows the rights of today, policy changes spend a step-up, reruns rest
    on decisions, and records are final.
  \<^item> Object queue: keys confine objects to their scope; a claim takes the job that is due first by next attempt, creation and name, a
    report counts once and only from the holder of the lease, the records account for the attempts,
    a completed object is stored with the registered key, digest, size and type, submissions are idempotent; the worker drains the
    queue, with no more work than the attempts left, whatever the object store answers.
  \<^item> Audit: every stored trail verifies and only grows, a verified head and length pin the trail, no
    forbidden names or closed addresses are recorded at any level, pages and cursors lose no event,
    the table is a store in memory for each tenant, and its verification ends.
  \<^item> Identity: who has access, exactly; revoked sessions are revoked for good, refresh tokens, step-up
    authorizations and states of provider logins are used once and bound to what they were made for (a
    step-up is answered again only to the same consumption under its key), new passwords end
    all sessions, every session is on record in the audit trail, and a logout of a live session ends it
    for good. A logout of a session in the web whose access has expired is answered as a repetition by
    the code; the theorem on logouts leaves it out.
  \<^item> Notebooks: a title changes once per version, required bindings are granted exactly where they are bound,
    unbound sources never come back, and the version that a context shows unbinds only one source.

  \<^bold>\<open>Bounds\<close>. Every loop of the modelled methods runs over a finite collection and is structural
  recursion; only the endless loop of the worker thread is cut after a number of passes
  (\<open>worker_passes\<close>), and the properties of the worker hold for every number of them. The fixed
  bounds are the 512 MiB limit of a backup selection, the 64 bits of a database integer and the 1024
  attempts for which the delay of a retry can be computed; a cursor of the audit trail has at most 512
  characters, enough for sequence numbers below 10 to the 300. Following cursors is
  \<open>partial_function\<close>, so that not to end would be \<^term>\<open>None\<close>, and is proved to end.

  \<^bold>\<open>Not modelled\<close>. Locks (each call runs in one critical section of the repository lock; the model
  is sequential, with any interleaving of whole calls or transactions), the HTTP runtime, the PostgreSQL adapters,
  schema migration, and the remaining services. Of the object queue, the adapter of the object store, the
  start and stop of the thread and telemetry. Of the audit trail, finite floating point numbers and the
  limits of waiting for locks. Of identity, the
  PostgreSQL repository with its notification scope, the transactions of Android logins, the hooks by which other
  services join a transaction, the deletion of accounts (\<open>delete_user\<close> of \<open>admin_users.py\<close>), the sender of mails and the readers that only project rows. Not begun:
  studio outputs and conversations, notifications, the transition tables of the data canon, the queues for documents and
  studio, providers and question answering, and the local companion process.
\<close>

end
